(* ===== verification/Prelude.thy ===== *)
theory Prelude
  imports Main "HOL-Library.Char_ord" "HOL-Library.List_Lexorder"
begin

text \<open>
  Shared vocabulary of the development: the lemma collections, the SQL
  operations every store of the program is written with (a table is the list of
  its rows in rowid order), and generic facts on lists, options and sums.
\<close>

named_theorems const_defs "unfolding rules of the string constants of the Go packages"
named_theorems sql "rewrite rules for the SQL operations on tables"
named_theorems frame "what an operation leaves unchanged"

section \<open>Tables\<close>

text \<open>
  \<^verbatim>\<open>UPDATE t SET f WHERE P\<close>, its \<^verbatim>\<open>RowsAffected\<close>, \<^verbatim>\<open>SELECT ... WHERE P\<close> and
  \<^verbatim>\<open>QueryRow\<close> (the first row, or \<^verbatim>\<open>sql.ErrNoRows\<close>). A table is a list of
  rows in insertion order.
\<close>

definition sql_update :: "('r \<Rightarrow> bool) \<Rightarrow> ('r \<Rightarrow> 'r) \<Rightarrow> 'r list \<Rightarrow> 'r list" where
  "sql_update P f rows = map (\<lambda>r. if P r then f r else r) rows"

definition rows_affected :: "('r \<Rightarrow> bool) \<Rightarrow> 'r list \<Rightarrow> nat" where
  "rows_affected P rows = length (filter P rows)"

definition sql_first :: "('r \<Rightarrow> bool) \<Rightarrow> 'r list \<Rightarrow> 'r option" where
  "sql_first P rows = find P rows"

text \<open>
  \<^verbatim>\<open>ORDER BY k ASC\<close>: SQLite sorts stably on the rowid order of the scan;
  \<^verbatim>\<open>ORDER BY k DESC\<close> keeps ties in rowid order as well.
\<close>

definition order_asc :: "('r \<Rightarrow> int) \<Rightarrow> 'r list \<Rightarrow> 'r list" where
  "order_asc k rows = sort_key k rows"

definition order_desc :: "('r \<Rightarrow> int) \<Rightarrow> 'r list \<Rightarrow> 'r list" where
  "order_desc k rows = sort_key (\<lambda>r. - k r) rows"

lemma set_order_asc [simp]: "set (order_asc k rows) = set rows"
  by (simp add: order_asc_def)

lemma set_order_desc [simp]: "set (order_desc k rows) = set rows"
  by (simp add: order_desc_def)

lemma sql_update_Nil [simp]: "sql_update P f [] = []"
  by (simp add: sql_update_def)

lemma sql_update_Cons [simp]:
  "sql_update P f (r # rs) = (if P r then f r else r) # sql_update P f rs"
  by (simp add: sql_update_def)

lemma sql_update_append [sql]: "sql_update P f (xs @ ys) = sql_update P f xs @ sql_update P f ys"
  by (simp add: sql_update_def)

lemma length_sql_update [simp]: "length (sql_update P f rows) = length rows"
  by (simp add: sql_update_def)

lemma in_sql_update [sql]:
  "r \<in> set (sql_update P f rows) \<longleftrightarrow>
     (r \<in> set rows \<and> \<not> P r) \<or> (\<exists>r0 \<in> set rows. P r0 \<and> r = f r0)"
  by (induction rows) auto

lemma sql_update_none [sql]: "(\<And>r. r \<in> set rows \<Longrightarrow> \<not> P r) \<Longrightarrow> sql_update P f rows = rows"
  by (induction rows) auto

lemma map_sql_update [sql]:
  "(\<And>r. P r \<Longrightarrow> k (f r) = k r) \<Longrightarrow> map k (sql_update P f rows) = map k rows"
  by (simp add: sql_update_def)

lemma rows_affected_zero [sql]: "rows_affected P rows = 0 \<longleftrightarrow> (\<forall>r \<in> set rows. \<not> P r)"
  by (auto simp: rows_affected_def filter_empty_conv)

lemma rows_affected_le: "rows_affected P rows \<le> length rows"
  by (simp add: rows_affected_def)

lemma sql_first_Some: "sql_first P rows = Some r \<Longrightarrow> r \<in> set rows \<and> P r"
  by (auto simp: sql_first_def find_Some_iff)

lemma sql_first_None: "sql_first P rows = None \<longleftrightarrow> (\<forall>r \<in> set rows. \<not> P r)"
  by (auto simp: sql_first_def find_None_iff)

lemma sql_first_Nil [simp]: "sql_first P [] = None"
  by (simp add: sql_first_def)

lemma sql_first_Cons [simp]: "sql_first P (r # rs) = (if P r then Some r else sql_first P rs)"
  by (simp add: sql_first_def)

lemma sql_first_append:
  "sql_first P (xs @ ys) = (case sql_first P xs of None \<Rightarrow> sql_first P ys | Some r \<Rightarrow> Some r)"
  by (induction xs) auto

section \<open>Tables with a primary key\<close>

text \<open>
  The contract of a table with a primary key that the stores rely on: a key
  column and a class of row changes (the SET clauses the store issues) that
  never write it. The laws a client needs follow: keys stay unique under
  updates, a lookup after an update sees the change at its own key only.
\<close>

locale keyed_table =
  fixes key :: "'r \<Rightarrow> 'k"
    and change :: "'c \<Rightarrow> 'r \<Rightarrow> 'r"
  assumes key_change: "key (change c r) = key r"
begin

lemma keys_update: "map key (sql_update P (change c) rows) = map key rows"
  by (rule map_sql_update) (rule key_change)

lemma distinct_update:
  "distinct (map key (sql_update P (change c) rows)) = distinct (map key rows)"
  by (simp add: keys_update)

lemma first_update_other:
  assumes "k \<noteq> k'"
  shows "sql_first (\<lambda>r. key r = k') (sql_update (\<lambda>r. key r = k \<and> Q r) (change c) rows)
       = sql_first (\<lambda>r. key r = k') rows"
  using assms by (induction rows) (auto simp: key_change)

lemma first_update_same:
  assumes "distinct (map key rows)"
  shows "sql_first (\<lambda>r. key r = k) (sql_update (\<lambda>r. key r = k \<and> Q r) (change c) rows)
       = map_option (\<lambda>r. if Q r then change c r else r) (sql_first (\<lambda>r. key r = k) rows)"
  using assms
proof (induction rows)
  case Nil
  then show ?case by simp
next
  case (Cons r rows)
  then show ?case by (auto simp: key_change)
qed

lemma affected_key:
  assumes "distinct (map key rows)"
  shows "rows_affected (\<lambda>r. key r = k \<and> Q r) rows
       = (case sql_first (\<lambda>r. key r = k) rows of None \<Rightarrow> 0 | Some r \<Rightarrow> (if Q r then 1 else 0))"
  using assms
proof (induction rows)
  case Nil
  then show ?case by (simp add: rows_affected_def)
next
  case (Cons r rows)
  have "rows_affected (\<lambda>r. key r = k \<and> Q r) rows = 0" if "key r = k"
    using Cons.prems that by (auto simp: rows_affected_zero) (metis image_eqI)
  with Cons show ?case by (auto simp: rows_affected_def split: option.splits)
qed

lemma first_in_distinct:
  assumes "distinct (map key rows)" "r \<in> set rows"
  shows "sql_first (\<lambda>s. key s = key r) rows = Some r"
  using assms by (induction rows) force+

end

section \<open>Lists, options and sums\<close>

definition sum_bind :: "'e + 'a \<Rightarrow> ('a \<Rightarrow> 'e + 'b) \<Rightarrow> 'e + 'b" where
  "sum_bind x f = (case x of Inl e \<Rightarrow> Inl e | Inr v \<Rightarrow> f v)"

lemma sum_bind_simps [simp]: "sum_bind (Inl e) f = Inl e" "sum_bind (Inr v) f = f v"
  by (simp_all add: sum_bind_def)

lemma sum_bind_Inr_iff: "sum_bind x f = Inr w \<longleftrightarrow> (\<exists>v. x = Inr v \<and> f v = Inr w)"
  by (cases x) auto

lemma sum_bind_Inl_iff: "sum_bind x f = Inl e \<longleftrightarrow> x = Inl e \<or> (\<exists>v. x = Inr v \<and> f v = Inl e)"
  by (cases x) auto

lemma count_filter_pos: "0 < length (filter P xs) \<longleftrightarrow> (\<exists>x \<in> set xs. P x)"
  by (auto simp: filter_empty_conv)

lemma distinct_nth_inj: "distinct xs \<Longrightarrow> i < length xs \<Longrightarrow> j < length xs \<Longrightarrow> xs ! i = xs ! j \<Longrightarrow> i = j"
  by (simp add: nth_eq_iff_index_eq)

section \<open>Strings\<close>

text \<open>
  \<^verbatim>\<open>strings.TrimSpace(s) == ""\<close>: every rune of \<open>s\<close> is Unicode white space, here
  on the UTF-8 bytes of the code points \<^verbatim>\<open>unicode.IsSpace\<close> accepts.
\<close>

fun blank_bytes :: "nat list \<Rightarrow> bool" where
  "blank_bytes [] = True"
| "blank_bytes (b # bs) =
     (if b \<in> {9, 10, 11, 12, 13, 32} then blank_bytes bs
      else if b = 0xC2 then
        (case bs of c # cs \<Rightarrow> (c = 0x85 \<or> c = 0xA0) \<and> blank_bytes cs | [] \<Rightarrow> False)
      else
        (case bs of
           c # d # cs \<Rightarrow>
             (b = 0xE1 \<and> c = 0x9A \<and> d = 0x80 \<or>
              b = 0xE2 \<and> c = 0x80 \<and> (0x80 \<le> d \<and> d \<le> 0x8A \<or> d = 0xA8 \<or> d = 0xA9 \<or> d = 0xAF) \<or>
              b = 0xE2 \<and> c = 0x81 \<and> d = 0x9F \<or>
              b = 0xE3 \<and> c = 0x80 \<and> d = 0x80) \<and> blank_bytes cs
         | _ \<Rightarrow> False))"

definition blank :: "string \<Rightarrow> bool" where
  "blank s = blank_bytes (map of_char s)"

text \<open>\<^verbatim>\<open>fmt\<close>'s \<^verbatim>\<open>%d\<close>, and the wrap-around of Go's \<^verbatim>\<open>int64\<close> arithmetic.\<close>

fun dec_nat :: "nat \<Rightarrow> string" where
  "dec_nat n = (if n < 10 then [char_of (48 + n)] else dec_nat (n div 10) @ [char_of (48 + n mod 10)])"

declare dec_nat.simps [simp del]

definition dec :: "int \<Rightarrow> string" where
  "dec i = (if i < 0 then CHR ''-'' # dec_nat (nat (- i)) else dec_nat (nat i))"

definition int64 :: "int \<Rightarrow> int" where
  "int64 x = (x + 2 ^ 63) mod 2 ^ 64 - 2 ^ 63"

lemma int64_id: "- (2 ^ 63) \<le> x \<Longrightarrow> x < 2 ^ 63 \<Longrightarrow> int64 x = x"
  by (simp add: int64_def)

end
