(* ===== verification/PhaseChain.thy ===== *)
theory PhaseChain
  imports Prelude
begin

text \<open>
  The lifecycle phases and the operations on phase chains:
  \<^verbatim>\<open>pkg/phase/phase.go\<close>, \<^verbatim>\<open>pkg/phase/roles.go\<close> and the chain half of
  \<^verbatim>\<open>internal/phase/phase.go\<close>. A chain is a list of phase names; Go strings
  are lists of bytes. A nil slice is kept apart from an empty one by an option.
\<close>

section \<open>Phase names and the two built-in chains\<close>

definition Brainstorm :: string where [const_defs]: "Brainstorm = ''brainstorm''"
definition BrainstormReviewed :: string where [const_defs]: "BrainstormReviewed = ''brainstorm-reviewed''"
definition Strategized :: string where [const_defs]: "Strategized = ''strategized''"
definition Planned :: string where [const_defs]: "Planned = ''planned''"
definition Executing :: string where [const_defs]: "Executing = ''executing''"
definition Review :: string where [const_defs]: "Review = ''review''"
definition Polish :: string where [const_defs]: "Polish = ''polish''"
definition Reflect :: string where [const_defs]: "Reflect = ''reflect''"
definition Done :: string where [const_defs]: "Done = ''done''"
definition GoalFormed :: string where [const_defs]: "GoalFormed = ''goal-formed''"

definition DefaultChain :: "string list" where
  "DefaultChain = [Brainstorm, BrainstormReviewed, Strategized, Planned, Executing,
                   Review, Polish, Reflect, Done]"

definition GoalNativeChain :: "string list" where
  "GoalNativeChain = [GoalFormed, Planned, Executing, Review, Polish, Reflect, Done]"

lemma phase_names_distinct:
  "distinct [Brainstorm, BrainstormReviewed, Strategized, Planned, Executing, Review,
             Polish, Reflect, Done, GoalFormed]"
  by (simp add: const_defs)

lemma phase_names_distinct_rev:
  "distinct [GoalFormed, Done, Reflect, Polish, Review, Executing, Planned, Strategized, BrainstormReviewed, Brainstorm]"
  by (simp add: const_defs)

lemmas phase_neqs [simp] = phase_names_distinct_rev [simplified distinct.simps set_simps
  insert_iff empty_iff de_Morgan_disj simp_thms]
  phase_names_distinct [simplified distinct.simps set_simps
  insert_iff empty_iff de_Morgan_disj simp_thms]

text \<open>The arrow of a transition key is U+2192, three bytes in UTF-8.\<close>

definition arrow :: string where
  "arrow = [CHR 0xE2, CHR 0x86, CHR 0x92]"

definition GateCalibrationKey :: "string \<Rightarrow> string \<Rightarrow> string \<Rightarrow> string" where
  "GateCalibrationKey checkType fromPhase toPhase =
     checkType @ '':'' @ fromPhase @ arrow @ toPhase"

fun IsValidForChain :: "string \<Rightarrow> string list \<Rightarrow> bool" where
  "IsValidForChain p [] = False"
| "IsValidForChain p (c # cs) = (if c = p then True else IsValidForChain p cs)"

definition IsValid :: "string \<Rightarrow> bool" where
  "IsValid p = IsValidForChain p DefaultChain"

definition ModelTier :: "string \<Rightarrow> int" where
  "ModelTier m =
     (if m = ''haiku'' then 1 else if m = ''sonnet'' then 2 else if m = ''opus'' then 3 else 0)"

section \<open>OODARC roles\<close>

definition PhaseToOODARCRole :: "string \<rightharpoonup> string" where
  "PhaseToOODARCRole = map_of
     [(Brainstorm, ''observe''), (BrainstormReviewed, ''observe''), (Strategized, ''orient''),
      (Planned, ''decide''), (Executing, ''act''), (Review, ''observe''), (Polish, ''act''),
      (Reflect, ''reflect+compound''), (Done, ''terminal'')]"

definition OODARCRole :: "string \<Rightarrow> string \<times> bool" where
  "OODARCRole p = (case PhaseToOODARCRole p of Some r \<Rightarrow> (r, True) | None \<Rightarrow> ([], False))"

section \<open>Parsing a chain\<close>

datatype chain_error =
    ChainEmptyString
  | ChainBadJSON
  | ChainTooShort nat
  | ChainBadName string
  | ChainDuplicate string
  | ErrNoTransition
  | PhaseNotInChain string

definition valid_phase_char :: "char \<Rightarrow> bool" where
  "valid_phase_char c \<longleftrightarrow>
     (of_char c \<ge> (of_char (CHR ''a'') :: nat) \<and> of_char c \<le> (of_char (CHR ''z'') :: nat)) \<or>
     (of_char c \<ge> (of_char (CHR ''A'') :: nat) \<and> of_char c \<le> (of_char (CHR ''Z'') :: nat)) \<or>
     (of_char c \<ge> (of_char (CHR ''0'') :: nat) \<and> of_char c \<le> (of_char (CHR ''9'') :: nat)) \<or>
     c = CHR ''-'' \<or> c = CHR ''_''"

fun isValidPhaseName :: "string \<Rightarrow> bool" where
  "isValidPhaseName [] = True"
| "isValidPhaseName (c # cs) = (if \<not> valid_phase_char c then False else isValidPhaseName cs)"

fun check_chain :: "string set \<Rightarrow> string list \<Rightarrow> chain_error option" where
  "check_chain seen [] = None"
| "check_chain seen (p # ps) =
     (if p = [] \<or> \<not> isValidPhaseName p then Some (ChainBadName p)
      else if p \<in> seen then Some (ChainDuplicate p)
      else check_chain (insert p seen) ps)"

text \<open>
  The JSON decoder (\<^verbatim>\<open>json.Unmarshal\<close> into a \<^verbatim>\<open>[]string\<close>) is the argument
  \<open>decode\<close>: \<open>None\<close> where it returns an error.
\<close>

definition ParsePhaseChain ::
    "(string \<Rightarrow> string list option) \<Rightarrow> string \<Rightarrow> chain_error + string list" where
  "ParsePhaseChain decode jsonStr =
     (if jsonStr = [] then Inl ChainEmptyString
      else case decode jsonStr of
        None \<Rightarrow> Inl ChainBadJSON
      | Some chain \<Rightarrow>
          (if length chain < 2 then Inl (ChainTooShort (length chain))
           else case check_chain {} chain of
             Some e \<Rightarrow> Inl e
           | None \<Rightarrow> Inr chain))"

section \<open>Walking a chain\<close>

fun ChainNextPhase :: "string list \<Rightarrow> string \<Rightarrow> chain_error + string" where
  "ChainNextPhase [] current = Inl (PhaseNotInChain current)"
| "ChainNextPhase (p # ps) current =
     (if p = current then (case ps of [] \<Rightarrow> Inl ErrNoTransition | q # _ \<Rightarrow> Inr q)
      else ChainNextPhase ps current)"

fun transition_scan ::
    "string \<Rightarrow> string \<Rightarrow> int \<Rightarrow> string list \<Rightarrow> int \<times> int \<Rightarrow> int \<times> int" where
  "transition_scan from to i [] idx = idx"
| "transition_scan from to i (p # ps) (fromIdx, toIdx) =
     transition_scan from to (i + 1) ps
       (if p = from then i else fromIdx, if p = to then i else toIdx)"

definition ChainIsValidTransition :: "string list \<Rightarrow> string \<Rightarrow> string \<Rightarrow> bool" where
  "ChainIsValidTransition chain from to =
     (let (fromIdx, toIdx) = transition_scan from to 0 chain (-1, -1)
      in fromIdx \<ge> 0 \<and> toIdx > fromIdx)"

definition ChainIsTerminal :: "string list \<Rightarrow> string \<Rightarrow> bool" where
  "ChainIsTerminal chain p \<longleftrightarrow> length chain > 0 \<and> chain ! (length chain - 1) = p"

fun ChainContains :: "string list \<Rightarrow> string \<Rightarrow> bool" where
  "ChainContains [] p = False"
| "ChainContains (c # cs) p = (if c = p then True else ChainContains cs p)"

fun chain_index_from :: "int \<Rightarrow> string list \<Rightarrow> string \<Rightarrow> int" where
  "chain_index_from i [] p = -1"
| "chain_index_from i (c # cs) p = (if c = p then i else chain_index_from (i + 1) cs p)"

definition ChainPhaseIndex :: "string list \<Rightarrow> string \<Rightarrow> int" where
  "ChainPhaseIndex chain p = chain_index_from 0 chain p"

definition ChainPhasesBetween :: "string list \<Rightarrow> string \<Rightarrow> string \<Rightarrow> string list option" where
  "ChainPhasesBetween chain from to =
     (let fromIdx = ChainPhaseIndex chain from; toIdx = ChainPhaseIndex chain to in
      if fromIdx < 0 \<or> toIdx < 0 \<or> fromIdx \<ge> toIdx then None
      else Some (map (\<lambda>i. chain ! i) [nat (fromIdx + 1) ..< nat (toIdx + 1)]))"

section \<open>Correctness of the chain operations\<close>

lemma IsValidForChain_iff [simp]: "IsValidForChain p chain \<longleftrightarrow> p \<in> set chain"
  by (induction chain) auto

lemma ChainContains_iff [simp]: "ChainContains chain p \<longleftrightarrow> p \<in> set chain"
  by (induction chain) auto

lemma isValidPhaseName_iff: "isValidPhaseName s \<longleftrightarrow> (\<forall>c \<in> set s. valid_phase_char c)"
  by (induction s) auto

lemma ChainIsTerminal_last: "ChainIsTerminal chain p \<longleftrightarrow> chain \<noteq> [] \<and> last chain = p"
  by (auto simp: ChainIsTerminal_def last_conv_nth)

lemma check_chain_None:
  "check_chain seen chain = None \<longleftrightarrow>
     (\<forall>p \<in> set chain. p \<noteq> [] \<and> isValidPhaseName p) \<and> distinct chain \<and> set chain \<inter> seen = {}"
  by (induction seen chain rule: check_chain.induct) auto

definition well_formed_chain :: "string list \<Rightarrow> bool" where
  "well_formed_chain chain \<longleftrightarrow>
     2 \<le> length chain \<and> distinct chain \<and> (\<forall>p \<in> set chain. p \<noteq> [] \<and> isValidPhaseName p)"

lemma ParsePhaseChain_Inr_iff:
  "ParsePhaseChain decode js = Inr chain \<longleftrightarrow>
     js \<noteq> [] \<and> decode js = Some chain \<and> well_formed_chain chain"
  using check_chain_None [of "{}" chain]
  by (auto simp: ParsePhaseChain_def well_formed_chain_def split: option.splits if_splits)

lemma chain_index_from_bound:
  "chain_index_from i chain p = -1 \<or>
   (i \<le> chain_index_from i chain p \<and> chain_index_from i chain p < i + int (length chain))" if "0 \<le> i"
  using that by (induction i chain p rule: chain_index_from.induct) auto

lemma chain_index_from_nth:
  "0 \<le> i \<Longrightarrow> p \<in> set chain \<Longrightarrow>
     \<exists>k < length chain. chain_index_from i chain p = i + int k \<and> chain ! k = p \<and> p \<notin> set (take k chain)"
proof (induction i chain p rule: chain_index_from.induct)
  case (1 i p)
  then show ?case by simp
next
  case (2 i c cs p)
  show ?case
  proof (cases "c = p")
    case True
    then show ?thesis by (intro exI [of _ 0]) simp
  next
    case False
    with 2 obtain k where "k < length cs" "chain_index_from (i + 1) cs p = i + 1 + int k"
      "cs ! k = p" "p \<notin> set (take k cs)" by auto
    with False show ?thesis by (intro exI [of _ "Suc k"]) simp
  qed
qed

lemma chain_index_from_absent: "p \<notin> set chain \<Longrightarrow> chain_index_from i chain p = -1"
  by (induction i chain p rule: chain_index_from.induct) auto

lemma ChainPhaseIndex_neg: "ChainPhaseIndex chain p < 0 \<longleftrightarrow> p \<notin> set chain"
  using chain_index_from_nth [of 0 p chain] chain_index_from_absent [of p chain 0]
  by (force simp: ChainPhaseIndex_def)

lemma ChainPhaseIndex_nth:
  assumes "distinct chain" "k < length chain"
  shows "ChainPhaseIndex chain (chain ! k) = int k"
proof -
  obtain j where "j < length chain" "ChainPhaseIndex chain (chain ! k) = int j" "chain ! j = chain ! k"
    using chain_index_from_nth [of 0 "chain ! k" chain] assms by (auto simp: ChainPhaseIndex_def)
  with assms show ?thesis by (simp add: nth_eq_iff_index_eq)
qed

lemma ChainPhaseIndex_inD:
  assumes "p \<in> set chain"
  obtains k where "k < length chain" "ChainPhaseIndex chain p = int k" "chain ! k = p"
  using chain_index_from_nth [of 0 p chain] assms by (auto simp: ChainPhaseIndex_def)

lemma ChainNextPhase_nth:
  assumes "distinct chain" "k < length chain"
  shows "ChainNextPhase chain (chain ! k)
       = (if Suc k < length chain then Inr (chain ! Suc k) else Inl ErrNoTransition)"
  using assms
proof (induction chain arbitrary: k)
  case Nil
  then show ?case by simp
next
  case (Cons p ps)
  show ?case
  proof (cases k)
    case 0
    then show ?thesis by (cases ps) simp_all
  next
    case (Suc j)
    with Cons.prems have "p \<noteq> ps ! j" by auto
    with Suc Cons show ?thesis by simp
  qed
qed

lemma ChainNextPhase_Inr:
  assumes "distinct chain" "ChainNextPhase chain p = Inr q"
  obtains k where "Suc k < length chain" "p = chain ! k" "q = chain ! Suc k"
proof -
  have "p \<in> set chain"
    using assms(2) by (induction chain p rule: ChainNextPhase.induct) (auto split: if_splits)
  then obtain k where k: "k < length chain" "p = chain ! k" by (metis in_set_conv_nth)
  with assms ChainNextPhase_nth [of chain k] show ?thesis
    by (auto split: if_splits intro: that)
qed

lemma ChainNextPhase_in: "ChainNextPhase chain p = Inr q \<Longrightarrow> p \<in> set chain \<and> q \<in> set chain"
  by (induction chain p rule: ChainNextPhase.induct) (auto split: if_splits list.splits)

lemma ChainNextPhase_index:
  assumes "distinct chain" "ChainNextPhase chain p = Inr q"
  shows "ChainPhaseIndex chain q = ChainPhaseIndex chain p + 1"
  using ChainNextPhase_Inr [OF assms] assms(1) by (metis ChainPhaseIndex_nth Suc_lessD int_Suc add.commute)

lemma ChainNextPhase_nonterminal:
  assumes "distinct chain" "p \<in> set chain" "\<not> ChainIsTerminal chain p"
  obtains q where "ChainNextPhase chain p = Inr q"
proof -
  obtain k where k: "k < length chain" "p = chain ! k" using assms(2) by (metis in_set_conv_nth)
  have "Suc k \<noteq> length chain"
    using assms(3) k by (metis ChainIsTerminal_def diff_Suc_1 zero_less_Suc)
  with k(1) have "Suc k < length chain" by simp
  with k assms(1) ChainNextPhase_nth [of chain k] show ?thesis by (auto intro: that)
qed

lemma transition_scan_eq:
  "distinct chain \<Longrightarrow> 0 \<le> i \<Longrightarrow>
   transition_scan from to i chain (fi, ti) =
     (if from \<in> set chain then chain_index_from i chain from else fi,
      if to \<in> set chain then chain_index_from i chain to else ti)"
  by (induction chain arbitrary: i fi ti) (auto simp: chain_index_from_absent)

lemma ChainIsValidTransition_index:
  assumes "distinct chain"
  shows "ChainIsValidTransition chain from to \<longleftrightarrow>
     from \<in> set chain \<and> to \<in> set chain \<and> ChainPhaseIndex chain from < ChainPhaseIndex chain to"
  using assms ChainPhaseIndex_neg [of chain "from"] ChainPhaseIndex_neg [of chain to]
  by (auto simp: ChainIsValidTransition_def transition_scan_eq ChainPhaseIndex_def [symmetric]
           split: if_splits)

lemma ChainPhasesBetween_Some:
  assumes "ChainPhasesBetween chain from to = Some ps"
  shows "from \<in> set chain" "to \<in> set chain"
    "ChainPhaseIndex chain from < ChainPhaseIndex chain to" "ps \<noteq> []" "last ps = to"
proof -
  have lt: "\<not> ChainPhaseIndex chain from < 0" "\<not> ChainPhaseIndex chain to < 0"
    "ChainPhaseIndex chain from < ChainPhaseIndex chain to"
    and ps: "ps = map (\<lambda>i. chain ! i)
      [nat (ChainPhaseIndex chain from + 1) ..< nat (ChainPhaseIndex chain to + 1)]"
    using assms by (auto simp: ChainPhasesBetween_def Let_def split: if_splits)
  then show mem: "from \<in> set chain" "to \<in> set chain" and "ChainPhaseIndex chain from < ChainPhaseIndex chain to"
    by (auto simp: ChainPhaseIndex_neg)
  from mem(2) obtain k where k: "ChainPhaseIndex chain to = int k" "chain ! k = to"
    by (elim ChainPhaseIndex_inD) auto
  with lt have "[nat (ChainPhaseIndex chain from + 1) ..< nat (ChainPhaseIndex chain to + 1)]
      = [nat (ChainPhaseIndex chain from + 1) ..< k] @ [k]"
    by (simp add: nat_add_distrib)
  with ps k show "ps \<noteq> []" "last ps = to" by auto
qed

lemma ChainPhasesBetween_nth:
  assumes "distinct chain" "i < j" "j < length chain"
  shows "ChainPhasesBetween chain (chain ! i) (chain ! j) = Some (map ((!) chain) [Suc i ..< Suc j])"
  using assms by (simp add: ChainPhasesBetween_def ChainPhaseIndex_nth nat_add_distrib)

lemma DefaultChain_well_formed: "well_formed_chain DefaultChain"
  by (simp add: well_formed_chain_def DefaultChain_def)
     (simp add: const_defs valid_phase_char_def)

lemma GoalNativeChain_well_formed: "well_formed_chain GoalNativeChain"
  by (simp add: well_formed_chain_def GoalNativeChain_def)
     (simp add: const_defs valid_phase_char_def)

end
