(* ===== verification/RunModel.thy ===== *)
theory RunModel
  imports PhaseChain
begin

text \<open>
  The data of the run lifecycle: the status, event, gate and tier constants and
  the \<^verbatim>\<open>Run\<close> and \<^verbatim>\<open>PhaseEvent\<close> types of \<^verbatim>\<open>internal/phase/phase.go\<close>, JSON
  objects as the metadata column holds them, and the tables of the kernel
  database that the phase package reads and writes.
\<close>

section \<open>Constants\<close>

definition StatusActive :: string where [const_defs]: "StatusActive = ''active''"
definition StatusCompleted :: string where [const_defs]: "StatusCompleted = ''completed''"
definition StatusCancelled :: string where [const_defs]: "StatusCancelled = ''cancelled''"
definition StatusFailed :: string where [const_defs]: "StatusFailed = ''failed''"

definition EventAdvance :: string where [const_defs]: "EventAdvance = ''advance''"
definition EventSkip :: string where [const_defs]: "EventSkip = ''skip''"
definition EventPause :: string where [const_defs]: "EventPause = ''pause''"
definition EventBlock :: string where [const_defs]: "EventBlock = ''block''"
definition EventCancel :: string where [const_defs]: "EventCancel = ''cancel''"
definition EventSet :: string where [const_defs]: "EventSet = ''set''"
definition EventRollback :: string where [const_defs]: "EventRollback = ''rollback''"
definition EventOverride :: string where [const_defs]: "EventOverride = ''override''"

definition GatePass :: string where [const_defs]: "GatePass = ''pass''"
definition GateFail :: string where [const_defs]: "GateFail = ''fail''"
definition GateWarn :: string where [const_defs]: "GateWarn = ''warn''"
definition GateNone :: string where [const_defs]: "GateNone = ''none''"

definition TierHard :: string where [const_defs]: "TierHard = ''hard''"
definition TierSoft :: string where [const_defs]: "TierSoft = ''soft''"
definition TierNone :: string where [const_defs]: "TierNone = ''none''"

lemma status_names_distinct: "distinct [StatusActive, StatusCompleted, StatusCancelled, StatusFailed]"
  by (simp add: const_defs)

lemma event_names_distinct:
  "distinct [EventAdvance, EventSkip, EventPause, EventBlock, EventCancel, EventSet,
             EventRollback, EventOverride]"
  by (simp add: const_defs)

lemma gate_names_distinct: "distinct [GatePass, GateFail, GateWarn, GateNone, []]"
  by (simp add: const_defs)

lemma tier_names_distinct: "distinct [TierHard, TierSoft, TierNone, []]"
  by (simp add: const_defs)

lemma status_names_distinct_rev:
  "distinct [StatusFailed, StatusCancelled, StatusCompleted, StatusActive]"
  by (simp add: const_defs)

lemma event_names_distinct_rev:
  "distinct [EventOverride, EventRollback, EventSet, EventCancel, EventBlock, EventPause, EventSkip, EventAdvance]"
  by (simp add: const_defs)

lemma gate_names_distinct_rev:
  "distinct [[], GateNone, GateWarn, GateFail, GatePass]"
  by (simp add: const_defs)

lemma tier_names_distinct_rev:
  "distinct [[], TierNone, TierSoft, TierHard]"
  by (simp add: const_defs)

lemmas run_neqs [simp] =
  status_names_distinct_rev [simplified distinct.simps set_simps insert_iff empty_iff de_Morgan_disj simp_thms]
  event_names_distinct_rev [simplified distinct.simps set_simps insert_iff empty_iff de_Morgan_disj simp_thms]
  gate_names_distinct_rev [simplified distinct.simps set_simps insert_iff empty_iff de_Morgan_disj simp_thms]
  tier_names_distinct_rev [simplified distinct.simps set_simps insert_iff empty_iff de_Morgan_disj simp_thms]
  status_names_distinct [simplified distinct.simps set_simps insert_iff empty_iff de_Morgan_disj simp_thms]
  event_names_distinct [simplified distinct.simps set_simps insert_iff empty_iff de_Morgan_disj simp_thms]
  gate_names_distinct [simplified distinct.simps set_simps insert_iff empty_iff de_Morgan_disj simp_thms]
  tier_names_distinct [simplified distinct.simps set_simps insert_iff empty_iff de_Morgan_disj simp_thms]

definition IsTerminalStatus :: "string \<Rightarrow> bool" where
  "IsTerminalStatus s \<longleftrightarrow> s = StatusCompleted \<or> s = StatusCancelled \<or> s = StatusFailed"

lemma IsTerminalStatus_simps [simp]:
  "\<not> IsTerminalStatus StatusActive" "IsTerminalStatus StatusCompleted"
  "IsTerminalStatus StatusCancelled" "IsTerminalStatus StatusFailed"
  by (simp_all add: IsTerminalStatus_def)

section \<open>JSON values\<close>

text \<open>
  The values \<^verbatim>\<open>encoding/json\<close> decodes with \<^verbatim>\<open>UseNumber\<close>: numbers keep their
  literal. An object is the list of its members sorted by key, the order in
  which \<^verbatim>\<open>json.Marshal\<close> writes a Go map, so that equal maps are equal lists.
\<close>

datatype json =
    JNull
  | JBool bool
  | JNum string
  | JStr string
  | JArr "json list"
  | JObj "(string \<times> json) list"

definition jget :: "(string \<times> json) list \<Rightarrow> string \<Rightarrow> json option" where
  "jget obj k = map_of obj k"

fun jset :: "string \<Rightarrow> json \<Rightarrow> (string \<times> json) list \<Rightarrow> (string \<times> json) list" where
  "jset k v [] = [(k, v)]"
| "jset k v ((k', v') # rest) =
     (if k = k' then (k, v) # rest
      else if k < k' then (k, v) # (k', v') # rest
      else (k', v') # jset k v rest)"

lemma jget_jset: "jget (jset k v obj) k' = (if k' = k then Some v else jget obj k')"
  by (induction k v obj rule: jset.induct) (auto simp: jget_def)

lemma jset_keys: "fst ` set (jset k v obj) = insert k (fst ` set obj)"
  by (induction k v obj rule: jset.induct) auto

lemma jset_sorted: "sorted_wrt (<) (map fst obj) \<Longrightarrow> sorted_wrt (<) (map fst (jset k v obj))"
proof (induction k v obj rule: jset.induct)
  case (1 k v)
  then show ?case by simp
next
  case (2 k v k' v' rest)
  have "\<forall>x \<in> fst ` set (jset k v rest). k' < x" if "k' < k"
    unfolding jset_keys using 2(2) that by auto
  with 2 show ?case by (auto simp: not_less order.order_iff_strict)
qed

section \<open>Runs and phase events\<close>

record spec_gate_rule =
  Check :: string
  Phase :: string
  Tier :: string

text \<open>
  The metadata column: \<open>None\<close> is NULL, \<open>Some None\<close> a text that is not one JSON
  object, \<open>Some (Some obj)\<close> a text that decodes to \<open>obj\<close>.
\<close>

type_synonym metadata = "(string \<times> json) list option option"

type_synonym gate_rules = "string \<rightharpoonup> spec_gate_rule list"

record run =
  rID :: string
  rProjectDir :: string
  rGoal :: string
  rStatus :: string
  rPhase :: string
  rComplexity :: int
  rForceFull :: bool
  rAutoAdvance :: bool
  rCreatedAt :: int
  rUpdatedAt :: int
  rCompletedAt :: "int option"
  rScopeID :: "string option"
  rMetadata :: metadata
  rPhases :: "string list option"
  rTokenBudget :: "int option"
  rBudgetWarnPct :: int
  rParentRunID :: "string option"
  rGoalID :: "string option"
  rMaxDispatches :: int
  rBudgetEnforce :: bool
  rMaxAgents :: int
  rGateRules :: "gate_rules option"

record phase_event =
  eID :: int
  eRunID :: string
  eFromPhase :: string
  eToPhase :: string
  eEventType :: string
  eGateResult :: "string option"
  eGateTier :: "string option"
  eReason :: "string option"
  eCreatedAt :: int

definition ResolveChain :: "run \<Rightarrow> string list" where
  "ResolveChain r = (case rPhases r of Some ps \<Rightarrow> ps | None \<Rightarrow> DefaultChain)"

definition strPtrOrNil :: "string \<Rightarrow> string option" where
  "strPtrOrNil s = (if s = [] then None else Some s)"

section \<open>The kernel database\<close>

text \<open>
  The columns of \<^verbatim>\<open>run_artifacts\<close>, \<^verbatim>\<open>run_agents\<close>, \<^verbatim>\<open>dispatches\<close>,
  \<^verbatim>\<open>project_deps\<close>, \<^verbatim>\<open>goals\<close> and \<^verbatim>\<open>run_replay_inputs\<close> that the phase
  package reads or writes; \<open>event_seq\<close> is the AUTOINCREMENT counter of
  \<^verbatim>\<open>phase_events\<close>. The payload of a replay input is the value it serialises;
  the envelope column is left out.
\<close>

record artifact =
  aID :: string
  aRunID :: string
  aPhase :: string
  aPath :: string
  aType :: string
  aContentHash :: "string option"
  aStatus :: "string option"
  aCreatedAt :: int

record run_agent =
  gID :: string
  gRunID :: string
  gStatus :: string

record dispatch_row =
  dID :: string
  dScopeID :: "string option"
  dVerdictStatus :: "string option"
  dInputTokens :: int
  dOutputTokens :: int

record dep =
  depID :: int
  depPortfolioRunID :: string
  depUpstream :: string
  depDownstream :: string
  depCreatedAt :: int

record goal_row =
  goalID :: string
  goalLastRunAdvancedAt :: "int option"
  goalUpdatedAt :: int

datatype replay_payload =
    GeneratedID string
  | PhasePayload string string string "string option" "string option" "string option"
      \<comment> \<open>event type, from, to, gate result, gate tier, reason\<close>

record replay_input =
  riRunID :: string
  riKind :: string
  riKey :: "string option"
  riPayload :: replay_payload
  riArtifactRef :: "string option"
  riEventSource :: "string option"
  riEventID :: "int option"

record db =
  runs :: "run list"
  phase_events :: "phase_event list"
  event_seq :: int
  artifacts :: "artifact list"
  run_agents :: "run_agent list"
  dispatches :: "dispatch_row list"
  project_deps :: "dep list"
  goals :: "goal_row list"
  replay_inputs :: "replay_input list"

text \<open>The errors of \<^verbatim>\<open>internal/phase/errors.go\<close> and the wrapped errors of the store.\<close>

datatype gate_error =
    GateQuery string          \<comment> \<open>a querier returned an error\<close>
  | GateNilParent             \<comment> \<open>nil dereference of \<^verbatim>\<open>run.ParentRunID\<close>\<close>

datatype phase_error =
    ErrNotFound
  | ErrStalePhase
  | ErrTerminalRun
  | ErrTerminalPhase
  | ErrInvalidRollback
  | ErrInvalidMetadata
  | ErrSealedMetadata
  | ErrStaleMetadata
  | ErrChain chain_error
  | ErrGate gate_error
  | ErrSkipNotInChain string
  | ErrSkipNotAhead string string
  | ErrSkipTerminal string
  | ErrEmptyProjectDir
  | ErrPortfolioNotActive string
  | ErrNothingToUpdate
  | ErrDuplicateRun string
  | ErrForeignKey string

end
