(* ===== verification/Metadata.thy ===== *)
theory Metadata
  imports RunModel
begin

text \<open>
  Run metadata and the sealed close gate: \<^verbatim>\<open>internal/phase/metadata.go\<close>. The
  strict decoding of \<^verbatim>\<open>runtimeproof.Expectations\<close> with its validation is the
  argument \<open>decode\<close>; everything else is the code's own logic on JSON objects.
\<close>

section \<open>Requirements and expectations\<close>

definition runtimeEvidenceRequirement :: string where [const_defs]:
  "runtimeEvidenceRequirement = ''runtime-evidence/v1''"

fun requirement_scan :: "string set \<Rightarrow> json list \<Rightarrow> phase_error + string set" where
  "requirement_scan acc [] = Inr acc"
| "requirement_scan acc (v # vs) =
     (case v of
        JStr s \<Rightarrow> if s = [] \<or> s \<in> acc then Inl ErrInvalidMetadata
                 else requirement_scan (insert s acc) vs
      | _ \<Rightarrow> Inl ErrInvalidMetadata)"

definition requirementSet :: "(string \<times> json) list \<Rightarrow> phase_error + string set" where
  "requirementSet closeGate =
     (case jget closeGate ''requirements'' of
        None \<Rightarrow> Inr {}
      | Some (JArr values) \<Rightarrow> requirement_scan {} values
      | Some _ \<Rightarrow> Inl ErrInvalidMetadata)"

definition hex_digit :: "char \<Rightarrow> bool" where
  "hex_digit c \<longleftrightarrow> c \<in> set ''0123456789abcdef''"

definition metadataDigestPattern :: "string \<Rightarrow> bool" where
  "metadataDigestPattern s \<longleftrightarrow>
     take 7 s = ''sha256:'' \<and> length (drop 7 s) = 64 \<and> (\<forall>c \<in> set (drop 7 s). hex_digit c)"

record 'e runtime_config =
  rcRequired :: bool
  rcBeadID :: string
  rcExpectations :: "'e option"
  rcConfigDigest :: string
  rcReady :: bool

definition no_runtime_config :: "'e runtime_config" where
  "no_runtime_config = \<lparr>rcRequired = False, rcBeadID = [], rcExpectations = None,
     rcConfigDigest = [], rcReady = False\<rparr>"

definition close_gate_of :: "(string \<times> json) list \<Rightarrow> (string \<times> json) list option" where
  "close_gate_of obj = (case jget obj ''close_gate'' of Some (JObj g) \<Rightarrow> Some g | _ \<Rightarrow> None)"

definition json_str :: "json option \<Rightarrow> string" where
  "json_str v = (case v of Some (JStr s) \<Rightarrow> s | _ \<Rightarrow> [])"

definition runtime_evidence_of ::
    "(json \<Rightarrow> 'e option) \<Rightarrow> metadata \<Rightarrow> phase_error + 'e runtime_config" where
  "runtime_evidence_of decode md =
     (case md of
        None \<Rightarrow> Inr no_runtime_config
      | Some None \<Rightarrow> Inl ErrInvalidMetadata
      | Some (Some obj) \<Rightarrow>
          (case close_gate_of obj of
             None \<Rightarrow> Inr no_runtime_config
           | Some gate \<Rightarrow>
               sum_bind (requirementSet gate) (\<lambda>reqs.
                 if runtimeEvidenceRequirement \<notin> reqs then Inr no_runtime_config
                 else
                   let config = no_runtime_config\<lparr>rcRequired := True,
                                  rcBeadID := json_str (jget gate ''bead_id'')\<rparr>
                   in (case (jget gate ''runtime_expectations'', jget gate ''config_digest'') of
                         (Some e, Some (JStr digest)) \<Rightarrow>
                           (case decode e of
                              None \<Rightarrow> Inl ErrInvalidMetadata
                            | Some ex \<Rightarrow> Inr (config\<lparr>rcExpectations := Some ex,
                                           rcConfigDigest := digest, rcReady := True\<rparr>))
                       | _ \<Rightarrow> Inr config))))"

definition RuntimeEvidenceForRun :: "(json \<Rightarrow> 'e option) \<Rightarrow> run \<Rightarrow> phase_error + 'e runtime_config" where
  "RuntimeEvidenceForRun decode r = runtime_evidence_of decode (rMetadata r)"

section \<open>Validation\<close>

definition validateMetadataObject ::
    "(json \<Rightarrow> 'e option) \<Rightarrow> (string \<times> json) list \<Rightarrow> phase_error option" where
  "validateMetadataObject decode obj =
     (case jget obj ''close_gate'' of
        None \<Rightarrow> None
      | Some JNull \<Rightarrow> None
      | Some (JObj closeGate) \<Rightarrow>
          (case requirementSet closeGate of
             Inl e \<Rightarrow> Some e
           | Inr reqs \<Rightarrow>
               if runtimeEvidenceRequirement \<notin> reqs then None
               else if \<not> (case jget closeGate ''bead_id'' of Some (JStr b) \<Rightarrow> \<not> blank b | _ \<Rightarrow> False)
                 then Some ErrInvalidMetadata
               else if \<not> (case jget closeGate ''adoption'' of
                            None \<Rightarrow> True | Some (JObj a) \<Rightarrow> a \<noteq> [] | Some _ \<Rightarrow> False)
                 then Some ErrInvalidMetadata
               else if (jget closeGate ''runtime_expectations'' \<noteq> None)
                     \<noteq> (jget closeGate ''config_digest'' \<noteq> None)
                 then Some ErrInvalidMetadata
               else (case jget closeGate ''runtime_expectations'' of
                       None \<Rightarrow> None
                     | Some (JObj e) \<Rightarrow>
                         (case jget closeGate ''config_digest'' of
                            Some (JStr d) \<Rightarrow>
                              if metadataDigestPattern d
                              then (if decode (JObj e) = None then Some ErrInvalidMetadata else None)
                              else Some ErrInvalidMetadata
                          | _ \<Rightarrow> Some ErrInvalidMetadata)
                     | Some _ \<Rightarrow> Some ErrInvalidMetadata))
      | Some _ \<Rightarrow> Some ErrInvalidMetadata)"

definition CanonicalMetadata ::
    "(json \<Rightarrow> 'e option) \<Rightarrow> (string \<times> json) list option \<Rightarrow> phase_error + (string \<times> json) list" where
  "CanonicalMetadata decode raw =
     (case raw of
        None \<Rightarrow> Inl ErrInvalidMetadata
      | Some obj \<Rightarrow> (case validateMetadataObject decode obj of Some e \<Rightarrow> Inl e | None \<Rightarrow> Inr obj))"

definition canonicalMetadataPointer ::
    "(json \<Rightarrow> 'e option) \<Rightarrow> metadata \<Rightarrow> phase_error + metadata" where
  "canonicalMetadataPointer decode raw =
     (case raw of
        None \<Rightarrow> Inr None
      | Some r \<Rightarrow> sum_bind (CanonicalMetadata decode r) (\<lambda>obj. Inr (Some (Some obj))))"

text \<open>
  \<^verbatim>\<open>validateRuntimeRun\<close>: the explicit chain is marshalled and parsed back, so
  the decoder there returns the chain itself.
\<close>

definition validateRuntimeRun :: "(json \<Rightarrow> 'e option) \<Rightarrow> run \<Rightarrow> metadata \<Rightarrow> phase_error option" where
  "validateRuntimeRun decode r md =
     (if md = None then None
      else case RuntimeEvidenceForRun decode (r\<lparr>rMetadata := md\<rparr>) of
        Inl e \<Rightarrow> Some e
      | Inr config \<Rightarrow>
          if \<not> rcRequired config then None
          else if blank (rProjectDir r) \<or> take 1 (rProjectDir r) \<noteq> ''/'' then Some ErrInvalidMetadata
          else if (case rPhases r of None \<Rightarrow> False
                   | Some ps \<Rightarrow> (case ParsePhaseChain (\<lambda>_. Some ps) ''[]'' of Inl _ \<Rightarrow> True | Inr _ \<Rightarrow> False))
            then Some ErrInvalidMetadata
          else if ResolveChain r = [] \<or> last (ResolveChain r) \<noteq> Done then Some ErrInvalidMetadata
          else None)"

section \<open>Merging\<close>

fun mergeObject :: "(string \<times> json) list \<Rightarrow> (string \<times> json) list \<Rightarrow> (string \<times> json) list" where
  "mergeObject dst [] = dst"
| "mergeObject dst ((key, value) # patch) =
     mergeObject
       (case (value, jget dst key) of
          (JObj patchMap, Some (JObj currentMap)) \<Rightarrow> jset key (JObj (mergeObject currentMap patchMap)) dst
        | _ \<Rightarrow> jset key value dst)
       patch"

definition validateSealedCloseGate ::
    "(string \<times> json) list \<Rightarrow> (string \<times> json) list \<Rightarrow> phase_error option" where
  "validateSealedCloseGate before after =
     (case close_gate_of before of
        None \<Rightarrow> None
      | Some beforeGate \<Rightarrow>
          (case requirementSet beforeGate of
             Inl e \<Rightarrow> Some e
           | Inr beforeReqs \<Rightarrow>
               if runtimeEvidenceRequirement \<notin> beforeReqs then None
               else (case close_gate_of after of
                       None \<Rightarrow> Some ErrSealedMetadata
                     | Some afterGate \<Rightarrow>
                         (case requirementSet afterGate of
                            Inl e \<Rightarrow> Some e
                          | Inr afterReqs \<Rightarrow>
                              if \<not> beforeReqs \<subseteq> afterReqs then Some ErrSealedMetadata
                              else if jget afterGate ''bead_id'' \<noteq> jget beforeGate ''bead_id''
                                then Some ErrSealedMetadata
                              else if (\<exists>field \<in> set [''adoption'', ''runtime_expectations'', ''config_digest''].
                                         jget beforeGate field \<noteq> None
                                         \<and> jget beforeGate field \<noteq> jget afterGate field)
                                then Some ErrSealedMetadata
                              else None))))"

definition MergeMetadata ::
    "(json \<Rightarrow> 'e option) \<Rightarrow> (string \<times> json) list option \<Rightarrow> (string \<times> json) list option
      \<Rightarrow> phase_error + (string \<times> json) list" where
  "MergeMetadata decode current patch =
     (case (current, patch) of
        (None, _) \<Rightarrow> Inl ErrInvalidMetadata
      | (_, None) \<Rightarrow> Inl ErrInvalidMetadata
      | (Some before, Some patchObj) \<Rightarrow>
          (let after = mergeObject before patchObj in
           case validateSealedCloseGate before after of
             Some e \<Rightarrow> Inl e
           | None \<Rightarrow> (case validateMetadataObject decode after of
                        Some e \<Rightarrow> Inl e
                      | None \<Rightarrow> Inr after)))"

section \<open>What merging preserves\<close>

lemma requirement_scan_mono: "requirement_scan acc vs = Inr s \<Longrightarrow> acc \<subseteq> s"
  by (induction acc vs rule: requirement_scan.induct) (auto split: json.splits if_splits)

lemma runtime_evidence_required_iff:
  "(\<exists>c. runtime_evidence_of decode md = Inr c \<and> rcRequired c) \<or>
   (\<exists>e. runtime_evidence_of decode md = Inl e) \<longleftrightarrow>
   (\<exists>obj. md = Some obj \<and>
     (case obj of None \<Rightarrow> True
      | Some o' \<Rightarrow> (\<exists>g. close_gate_of o' = Some g \<and>
           (case requirementSet g of Inl _ \<Rightarrow> True | Inr reqs \<Rightarrow> runtimeEvidenceRequirement \<in> reqs))))"
  by (auto simp: runtime_evidence_of_def no_runtime_config_def sum_bind_def Let_def
           split: option.splits sum.splits if_splits json.splits)

lemma sealed_gate_agrees:
  assumes "validateSealedCloseGate before after = None"
    and "close_gate_of before = Some g" "requirementSet g = Inr reqs"
    and "runtimeEvidenceRequirement \<in> reqs"
  obtains g' reqs' where "close_gate_of after = Some g'" "requirementSet g' = Inr reqs'"
    "reqs \<subseteq> reqs'" "jget g' ''bead_id'' = jget g ''bead_id''"
    "jget g ''runtime_expectations'' \<noteq> None \<Longrightarrow>
       jget g' ''runtime_expectations'' = jget g ''runtime_expectations''"
    "jget g ''config_digest'' \<noteq> None \<Longrightarrow> jget g' ''config_digest'' = jget g ''config_digest''"
  using assms by (auto simp: validateSealedCloseGate_def split: option.splits sum.splits if_splits)

text \<open>
  The sealed gate is monotonic: once the metadata requires runtime evidence, a
  merge that succeeds leaves it required for the same bead, and expectations
  that were sealed stay the same.
\<close>

lemma MergeMetadata_monotonic:
  assumes merge: "MergeMetadata decode (Some before) patch = Inr after"
    and rc: "runtime_evidence_of decode (Some (Some before)) = Inr c" "rcRequired c"
  shows "\<exists>c'. runtime_evidence_of decode (Some (Some after)) = Inr c' \<and> rcRequired c'
           \<and> rcBeadID c' = rcBeadID c \<and> (rcReady c \<longrightarrow> c' = c)"
proof -
  from rc obtain g reqs where g: "close_gate_of before = Some g" "requirementSet g = Inr reqs"
    "runtimeEvidenceRequirement \<in> reqs"
    by (auto simp: runtime_evidence_of_def no_runtime_config_def sum_bind_def Let_def
             split: option.splits sum.splits if_splits)
  from merge obtain p where "patch = Some p" and seal: "validateSealedCloseGate before after = None"
    and valid: "validateMetadataObject decode after = None"
    by (auto simp: MergeMetadata_def Let_def split: option.splits)
  from sealed_gate_agrees [OF seal g] obtain g' reqs' where g': "close_gate_of after = Some g'"
    "requirementSet g' = Inr reqs'" "reqs \<subseteq> reqs'" "jget g' ''bead_id'' = jget g ''bead_id''"
    "jget g ''runtime_expectations'' \<noteq> None \<Longrightarrow>
       jget g' ''runtime_expectations'' = jget g ''runtime_expectations''"
    "jget g ''config_digest'' \<noteq> None \<Longrightarrow> jget g' ''config_digest'' = jget g ''config_digest''"
    by metis
  have req': "runtimeEvidenceRequirement \<in> reqs'" using g(3) g'(3) by blast
  have gate': "jget after ''close_gate'' = Some (JObj g')"
    using g'(1) by (auto simp: close_gate_of_def split: option.splits json.splits)
  have noerr: "\<exists>c'. runtime_evidence_of decode (Some (Some after)) = Inr c'
      \<and> rcRequired c' \<and> rcBeadID c' = json_str (jget g' ''bead_id'')"
    using valid gate' g' req'
    by (auto simp: validateMetadataObject_def runtime_evidence_of_def Let_def no_runtime_config_def
             split: option.splits if_splits json.splits)
  have bead: "rcBeadID c = json_str (jget g ''bead_id'')"
    using rc g by (auto simp: runtime_evidence_of_def Let_def no_runtime_config_def
                        split: option.splits if_splits json.splits)
  have "rcReady c \<Longrightarrow> runtime_evidence_of decode (Some (Some after)) = Inr c"
    using rc g g' req'
    by (auto simp: runtime_evidence_of_def Let_def no_runtime_config_def
             split: option.splits if_splits json.splits)
  with noerr bead g'(4) show ?thesis by force
qed

end
