(* ===== verification/Gate.thy ===== *)
theory Gate
  imports Metadata
begin

text \<open>
  Gate evaluation: \<^verbatim>\<open>internal/phase/gate.go\<close>. The querier interfaces are
  records of functions, a nil querier is \<open>None\<close>; \<^verbatim>\<open>runtimeproof.VerifyFile\<close> is
  the argument \<open>verify\<close> (the proof hash, or \<open>None\<close> where it returns an error).
\<close>

section \<open>Checks, queriers and configuration\<close>

definition CheckArtifactExists :: string where [const_defs]: "CheckArtifactExists = ''artifact_exists''"
definition CheckAgentsComplete :: string where [const_defs]: "CheckAgentsComplete = ''agents_complete''"
definition CheckVerdictExists :: string where [const_defs]: "CheckVerdictExists = ''verdict_exists''"
definition CheckVerdictClean :: string where [const_defs]: "CheckVerdictClean = ''verdict_clean''"
definition CheckChildrenAtPhase :: string where [const_defs]: "CheckChildrenAtPhase = ''children_at_phase''"
definition CheckUpstreamsAtPhase :: string where [const_defs]: "CheckUpstreamsAtPhase = ''upstreams_at_phase''"
definition CheckBudgetNotExceeded :: string where [const_defs]: "CheckBudgetNotExceeded = ''budget_not_exceeded''"
definition CheckRuntimeEvidence :: string where [const_defs]: "CheckRuntimeEvidence = ''runtime_evidence''"
definition RuntimeEvidenceArtifactType :: string where [const_defs]:
  "RuntimeEvidenceArtifactType = ''runtime-evidence/v1''"

lemma check_names_distinct:
  "distinct [CheckArtifactExists, CheckAgentsComplete, CheckVerdictExists, CheckVerdictClean,
     CheckChildrenAtPhase, CheckUpstreamsAtPhase, CheckBudgetNotExceeded, CheckRuntimeEvidence]"
  by (simp add: const_defs)

lemma check_names_distinct_rev:
  "distinct [CheckRuntimeEvidence, CheckBudgetNotExceeded, CheckUpstreamsAtPhase, CheckChildrenAtPhase, CheckVerdictClean, CheckVerdictExists, CheckAgentsComplete, CheckArtifactExists]"
  by (simp add: const_defs)

lemmas check_neqs [simp] =
  check_names_distinct_rev [simplified distinct.simps set_simps insert_iff empty_iff de_Morgan_disj simp_thms]
  check_names_distinct [simplified distinct.simps set_simps insert_iff empty_iff de_Morgan_disj simp_thms]

datatype artifact_error = ArtifactNotFound | ArtifactQueryFailed string

record runtrack_querier =
  qCountArtifacts :: "string \<Rightarrow> string \<Rightarrow> string + nat"
  qCountActiveAgents :: "string \<Rightarrow> string + nat"
  qLatestActiveArtifactByType :: "string \<Rightarrow> string \<Rightarrow> artifact_error + artifact"

record verdict_querier =
  qHasVerdict :: "string \<Rightarrow> string + bool"
  qCountUncleanVerdicts :: "string \<Rightarrow> string + nat"

record queriers =
  rt :: "runtrack_querier option"
  vq :: "verdict_querier option"
  pq :: "(string \<Rightarrow> string + run list) option"
  dq :: "(string \<Rightarrow> string \<Rightarrow> string + string list) option"
  bq :: "(string \<Rightarrow> string + bool) option"

record gate_config =
  Priority :: int
  DisableAll :: bool
  SkipReason :: string
  SpecRules :: "spec_gate_rule list"
  CalibratedTiers :: "(string \<rightharpoonup> string) option"

text \<open>The formatted \<^verbatim>\<open>Detail\<close> texts, one constructor per format string.\<close>

datatype gate_detail =
    NoDetail
  | NoRuntrackQuerier
  | NoArtifactsFound string
  | AgentsStillActive nat
  | NoVerdictQuerier
  | NoPassingVerdict
  | ReviewDidNotRun
  | VerdictsNeedAttention nat
  | NoPortfolioQuerier
  | ChildrenBehind nat string
  | NoDepQuerier
  | NoUpstreamDependencies
  | UpstreamsBehind string "(string \<times> string) list"
  | NoBudgetQuerier
  | TokenBudgetExceeded
  | RuntimeCannotBeDisabled
  | RuntimeMetadataInvalid
  | RuntimeNotSealed
  | RuntimeStoreUnavailable
  | RuntimeReceiptMissing
  | RuntimeHashMissing
  | RuntimeReceiptInvalid
  | VerifiedProof string
  | UnknownCheck string

record gate_condition =
  cCheck :: string
  cPhase :: string
  cResult :: string
  cCount :: "nat option"
  cDetail :: gate_detail

record gate_rule =
  gCheck :: string
  gPhase :: string
  gTier :: string

definition rule :: "string \<Rightarrow> string \<Rightarrow> string \<Rightarrow> gate_rule" where
  "rule check phase tier = \<lparr>gCheck = check, gPhase = phase, gTier = tier\<rparr>"

lemma rule_simps [simp]:
  "gCheck (rule c p t) = c" "gPhase (rule c p t) = p" "gTier (rule c p t) = t"
  by (simp_all add: rule_def)

text \<open>The hardcoded table; transitions not in it have no gate requirements.\<close>

definition gateRules :: "string \<times> string \<rightharpoonup> gate_rule list" where
  "gateRules = map_of
     [((GoalFormed, Planned), [rule CheckArtifactExists GoalFormed []]),
      ((Brainstorm, BrainstormReviewed), [rule CheckArtifactExists Brainstorm []]),
      ((BrainstormReviewed, Strategized), [rule CheckArtifactExists BrainstormReviewed []]),
      ((Strategized, Planned), [rule CheckArtifactExists Strategized []]),
      ((Planned, Executing), [rule CheckArtifactExists Planned []]),
      ((Executing, Review), [rule CheckAgentsComplete [] []]),
      ((Review, Polish), [rule CheckVerdictExists [] []]),
      ((Reflect, Done), [rule CheckArtifactExists Reflect []])]"

definition GateChecksForTransition :: "string \<Rightarrow> string \<Rightarrow> string list option" where
  "GateChecksForTransition from to = map_option (map gCheck) (gateRules (from, to))"

definition GateRulesInfo :: "(string \<times> string \<times> (string \<times> string) list) list" where
  "GateRulesInfo =
     concat (map (\<lambda>i. let from = DefaultChain ! i; to = DefaultChain ! (i + 1) in
                      case gateRules (from, to) of
                        None \<Rightarrow> []
                      | Some gr \<Rightarrow> [(from, to, map (\<lambda>r. (gCheck r, gPhase r)) gr)])
                 [0 ..< length DefaultChain - 1])"

section \<open>The checks\<close>

definition condition :: "gate_rule \<Rightarrow> string \<Rightarrow> nat option \<Rightarrow> gate_detail \<Rightarrow> gate_condition" where
  "condition r result count detail =
     \<lparr>cCheck = gCheck r, cPhase = gPhase r, cResult = result, cCount = count, cDetail = detail\<rparr>"

lemma condition_simps [simp]:
  "cCheck (condition r res n d) = gCheck r" "cPhase (condition r res n d) = gPhase r"
  "cResult (condition r res n d) = res" "cCount (condition r res n d) = n"
  "cDetail (condition r res n d) = d"
  by (simp_all add: condition_def)

definition query :: "string + 'a \<Rightarrow> gate_error + 'a" where
  "query x = (case x of Inl e \<Rightarrow> Inl (GateQuery e) | Inr v \<Rightarrow> Inr v)"

lemma query_simps [simp]: "query (Inl e) = Inl (GateQuery e)" "query (Inr v) = Inr v"
  by (simp_all add: query_def)

lemma query_Inr_iff [simp]: "query x = Inr v \<longleftrightarrow> x = Inr v"
  by (cases x) simp_all

definition scope_of :: "run \<Rightarrow> string" where
  "scope_of r = (case rScopeID r of Some s \<Rightarrow> s | None \<Rightarrow> [])"

definition check_artifact_exists :: "queriers \<Rightarrow> run \<Rightarrow> gate_rule \<Rightarrow> gate_error + gate_condition" where
  "check_artifact_exists q r rl =
     (case rt q of
        None \<Rightarrow> Inr (condition rl GateFail None NoRuntrackQuerier)
      | Some t \<Rightarrow>
          sum_bind (query (qCountArtifacts t (rID r) (gPhase rl))) (\<lambda>count. Inr
            (if count > 0 then condition rl GatePass (Some count) NoDetail
             else condition rl GateFail (Some count) (NoArtifactsFound (gPhase rl)))))"

definition check_agents_complete :: "queriers \<Rightarrow> run \<Rightarrow> gate_rule \<Rightarrow> gate_error + gate_condition" where
  "check_agents_complete q r rl =
     (case rt q of
        None \<Rightarrow> Inr (condition rl GateFail None NoRuntrackQuerier)
      | Some t \<Rightarrow>
          sum_bind (query (qCountActiveAgents t (rID r))) (\<lambda>count. Inr
            (if count = 0 then condition rl GatePass (Some count) NoDetail
             else condition rl GateFail (Some count) (AgentsStillActive count))))"

definition check_verdict_exists :: "queriers \<Rightarrow> run \<Rightarrow> gate_rule \<Rightarrow> gate_error + gate_condition" where
  "check_verdict_exists q r rl =
     (case vq q of
        None \<Rightarrow> Inr (condition rl GateFail None NoVerdictQuerier)
      | Some v \<Rightarrow>
          sum_bind (query (qHasVerdict v (scope_of r))) (\<lambda>has. Inr
            (if has then condition rl GatePass None NoDetail
             else condition rl GateFail None NoPassingVerdict)))"

definition check_verdict_clean :: "queriers \<Rightarrow> run \<Rightarrow> gate_rule \<Rightarrow> gate_error + gate_condition" where
  "check_verdict_clean q r rl =
     (case vq q of
        None \<Rightarrow> Inr (condition rl GateFail None NoVerdictQuerier)
      | Some v \<Rightarrow>
          sum_bind (query (qHasVerdict v (scope_of r))) (\<lambda>has.
            if \<not> has then Inr (condition rl GateFail None ReviewDidNotRun)
            else sum_bind (query (qCountUncleanVerdicts v (scope_of r))) (\<lambda>unclean. Inr
              (if unclean = 0 then condition rl GatePass (Some unclean) NoDetail
               else condition rl GateFail (Some unclean) (VerdictsNeedAttention unclean)))))"

text \<open>A run is behind a phase its own chain contains when its index is smaller.\<close>

definition behind_phase :: "string \<Rightarrow> run \<Rightarrow> bool" where
  "behind_phase phase r =
     (let chain = ResolveChain r; targetIdx = ChainPhaseIndex chain phase in
      \<not> targetIdx < 0 \<and> ChainPhaseIndex chain (rPhase r) < targetIdx)"

fun count_children_behind :: "string \<Rightarrow> run list \<Rightarrow> nat" where
  "count_children_behind phase [] = 0"
| "count_children_behind phase (child # rest) =
     (if rStatus child = StatusCompleted \<or> rStatus child = StatusCancelled
      then count_children_behind phase rest
      else if behind_phase phase child then 1 + count_children_behind phase rest
      else count_children_behind phase rest)"

definition check_children_at_phase :: "queriers \<Rightarrow> run \<Rightarrow> gate_rule \<Rightarrow> gate_error + gate_condition" where
  "check_children_at_phase q r rl =
     (case pq q of
        None \<Rightarrow> Inr (condition rl GateFail None NoPortfolioQuerier)
      | Some getChildren \<Rightarrow>
          sum_bind (query (getChildren (rID r))) (\<lambda>children.
            let behind = count_children_behind (gPhase rl) children in
            Inr (if behind = 0 then condition rl GatePass (Some behind) NoDetail
                 else condition rl GateFail (Some behind) (ChildrenBehind behind (gPhase rl)))))"

fun sibling_map :: "run list \<Rightarrow> (string \<rightharpoonup> run) \<Rightarrow> (string \<rightharpoonup> run)" where
  "sibling_map [] m = m"
| "sibling_map (s # ss) m =
     sibling_map ss (if m (rProjectDir s) = None then m(rProjectDir s \<mapsto> s) else m)"

fun upstreams_behind ::
    "string \<Rightarrow> (string \<rightharpoonup> run) \<Rightarrow> string list \<Rightarrow> (string \<times> string) list" where
  "upstreams_behind phase m [] = []"
| "upstreams_behind phase m (u # us) =
     (case m u of
        None \<Rightarrow> upstreams_behind phase m us
      | Some ur \<Rightarrow>
          if rStatus ur = StatusCompleted \<or> rStatus ur = StatusCancelled \<or> rStatus ur = StatusFailed
          then upstreams_behind phase m us
          else if behind_phase phase ur then (u, rPhase ur) # upstreams_behind phase m us
          else upstreams_behind phase m us)"

definition check_upstreams_at_phase :: "queriers \<Rightarrow> run \<Rightarrow> gate_rule \<Rightarrow> gate_error + gate_condition" where
  "check_upstreams_at_phase q r rl =
     (case (dq q, pq q) of
        (Some getUpstream, Some getChildren) \<Rightarrow>
          (case rParentRunID r of
             None \<Rightarrow> Inl GateNilParent
           | Some parent \<Rightarrow>
               sum_bind (query (getUpstream parent (rProjectDir r))) (\<lambda>upstreams.
                 if upstreams = [] then Inr (condition rl GatePass None NoUpstreamDependencies)
                 else sum_bind (query (getChildren parent)) (\<lambda>siblings.
                   let details = upstreams_behind (gPhase rl) (sibling_map siblings Map.empty) upstreams;
                       behind = length details in
                   Inr (if behind = 0 then condition rl GatePass (Some behind) NoDetail
                        else condition rl GateFail (Some behind) (UpstreamsBehind (gPhase rl) details)))))
      | _ \<Rightarrow> Inr (condition rl GateFail None NoDepQuerier))"

definition check_budget_not_exceeded :: "queriers \<Rightarrow> run \<Rightarrow> gate_rule \<Rightarrow> gate_error + gate_condition" where
  "check_budget_not_exceeded q r rl =
     (case bq q of
        None \<Rightarrow> Inr (condition rl GatePass None NoBudgetQuerier)
      | Some exceededQ \<Rightarrow>
          sum_bind (query (exceededQ (rID r))) (\<lambda>exceeded. Inr
            (if \<not> exceeded then condition rl GatePass None NoDetail
             else condition rl GateFail None TokenBudgetExceeded)))"

definition check_runtime_evidence ::
    "('e runtime_config \<Rightarrow> run \<Rightarrow> artifact \<Rightarrow> string option) \<Rightarrow> gate_config
      \<Rightarrow> phase_error + 'e runtime_config \<Rightarrow> queriers \<Rightarrow> run \<Rightarrow> gate_rule
      \<Rightarrow> gate_error + gate_condition" where
  "check_runtime_evidence verify cfg rc q r rl =
     (if DisableAll cfg then Inr (condition rl GateFail None RuntimeCannotBeDisabled)
      else case rc of
        Inl _ \<Rightarrow> Inr (condition rl GateFail None RuntimeMetadataInvalid)
      | Inr config \<Rightarrow>
          if \<not> rcReady config then Inr (condition rl GateFail None RuntimeNotSealed)
          else case rt q of
            None \<Rightarrow> Inr (condition rl GateFail None RuntimeStoreUnavailable)
          | Some t \<Rightarrow>
              (case qLatestActiveArtifactByType t (rID r) RuntimeEvidenceArtifactType of
                 Inl ArtifactNotFound \<Rightarrow> Inr (condition rl GateFail None RuntimeReceiptMissing)
               | Inl (ArtifactQueryFailed e) \<Rightarrow> Inl (GateQuery e)
               | Inr artifact \<Rightarrow>
                   if aContentHash artifact = None \<or> aContentHash artifact = Some []
                   then Inr (condition rl GateFail None RuntimeHashMissing)
                   else case verify config r artifact of
                     None \<Rightarrow> Inr (condition rl GateFail None RuntimeReceiptInvalid)
                   | Some proofHash \<Rightarrow> Inr (condition rl GatePass None (VerifiedProof proofHash))))"

definition eval_check ::
    "('e runtime_config \<Rightarrow> run \<Rightarrow> artifact \<Rightarrow> string option) \<Rightarrow> gate_config
      \<Rightarrow> phase_error + 'e runtime_config \<Rightarrow> queriers \<Rightarrow> run \<Rightarrow> gate_rule
      \<Rightarrow> gate_error + gate_condition" where
  "eval_check verify cfg rc q r rl =
     (if gCheck rl = CheckArtifactExists then check_artifact_exists q r rl
      else if gCheck rl = CheckAgentsComplete then check_agents_complete q r rl
      else if gCheck rl = CheckVerdictExists then check_verdict_exists q r rl
      else if gCheck rl = CheckVerdictClean then check_verdict_clean q r rl
      else if gCheck rl = CheckChildrenAtPhase then check_children_at_phase q r rl
      else if gCheck rl = CheckUpstreamsAtPhase then check_upstreams_at_phase q r rl
      else if gCheck rl = CheckBudgetNotExceeded then check_budget_not_exceeded q r rl
      else if gCheck rl = CheckRuntimeEvidence then check_runtime_evidence verify cfg rc q r rl
      else Inr (condition rl GateFail None (UnknownCheck (gCheck rl))))"

fun eval_rules ::
    "(gate_rule \<Rightarrow> gate_error + gate_condition) \<Rightarrow> gate_rule list \<Rightarrow> gate_condition list \<Rightarrow> bool
      \<Rightarrow> gate_error + gate_condition list \<times> bool" where
  "eval_rules check [] conds allPass = Inr (conds, allPass)"
| "eval_rules check (rl # rls) conds allPass =
     sum_bind (check rl) (\<lambda>c.
       eval_rules check rls (conds @ [c]) (allPass \<and> cResult c \<noteq> GateFail))"
section \<open>Rules, tier and source of a transition\<close>

definition from_spec :: "spec_gate_rule \<Rightarrow> gate_rule" where
  "from_spec sr = rule (Check sr) (Phase sr) (Tier sr)"

text \<open>
  Precedence: rules stored on the run, then agency spec rules, then the table.
  The result is the rules, the source and whether the table was used.
\<close>

definition select_rules ::
    "run \<Rightarrow> gate_config \<Rightarrow> string \<Rightarrow> string \<Rightarrow> gate_rule list \<times> string \<times> bool" where
  "select_rules r cfg from to =
     (case rGateRules r of
        Some stored \<Rightarrow>
          (case stored (from @ arrow @ to) of
             Some rr \<Rightarrow> (map from_spec rr, ''per-run'', False)
           | None \<Rightarrow> ([], ''per-run'', False))
      | None \<Rightarrow>
          if SpecRules cfg \<noteq> [] then (map from_spec (SpecRules cfg), ''spec'', False)
          else (case gateRules (from, to) of
                  Some hr \<Rightarrow> (hr, ''default'', True)
                | None \<Rightarrow> ([], ''default'', True)))"

definition inject_rules :: "run \<Rightarrow> string \<Rightarrow> gate_rule list \<Rightarrow> gate_rule list" where
  "inject_rules r to rules =
     (let rules1 = (if rProjectDir r = [] then rules @ [rule CheckChildrenAtPhase to []] else rules);
          rules2 = (case rParentRunID r of
                      Some p \<Rightarrow> if p \<noteq> [] then rules1 @ [rule CheckUpstreamsAtPhase to []] else rules1
                    | None \<Rightarrow> rules1)
      in if rBudgetEnforce r then rules2 @ [rule CheckBudgetNotExceeded [] []] else rules2)"

definition inject_runtime :: "bool \<Rightarrow> gate_rule list \<Rightarrow> gate_rule list" where
  "inject_runtime runtimeTerminal rules =
     (if runtimeTerminal \<and> \<not> (\<exists>rl \<in> set rules. gCheck rl = CheckRuntimeEvidence)
      then rules @ [rule CheckRuntimeEvidence [] TierHard] else rules)"

fun escalate_tier :: "string \<Rightarrow> gate_rule list \<Rightarrow> string" where
  "escalate_tier tier [] = tier"
| "escalate_tier tier (rl # rls) =
     (if gTier rl = TierHard then TierHard
      else escalate_tier (if gTier rl = TierSoft \<and> tier \<noteq> TierHard then TierSoft else tier) rls)"

fun calibrate ::
    "(string \<rightharpoonup> string) \<Rightarrow> string \<Rightarrow> string \<Rightarrow> gate_rule list \<Rightarrow> string \<times> string \<Rightarrow> string \<times> string" where
  "calibrate tiers from to [] (tier, source) = (tier, source)"
| "calibrate tiers from to (rl # rls) (tier, source) =
     (if tiers (GateCalibrationKey (gCheck rl) from to) = Some TierHard
      then (TierHard, ''calibrated'')
      else calibrate tiers from to rls (tier, source))"

definition runtime_terminal :: "run \<Rightarrow> phase_error + 'e runtime_config \<Rightarrow> string \<Rightarrow> bool" where
  "runtime_terminal r rc to \<longleftrightarrow>
     to = Done \<and> ChainIsTerminal (ResolveChain r) to \<and>
     (case rc of Inl _ \<Rightarrow> True | Inr config \<Rightarrow> rcRequired config)"

section \<open>Evaluation\<close>

record gate_outcome =
  goResult :: string
  goTier :: string
  goSource :: string
  goEvidence :: "gate_condition list option"

definition outcome :: "string \<Rightarrow> string \<Rightarrow> string \<Rightarrow> gate_condition list option \<Rightarrow> gate_outcome" where
  "outcome res tier source ev =
     \<lparr>goResult = res, goTier = tier, goSource = source, goEvidence = ev\<rparr>"

lemma outcome_simps [simp]:
  "goResult (outcome a b c d) = a" "goTier (outcome a b c d) = b"
  "goSource (outcome a b c d) = c" "goEvidence (outcome a b c d) = d"
  by (simp_all add: outcome_def)

definition evaluate_rules ::
    "('e runtime_config \<Rightarrow> run \<Rightarrow> artifact \<Rightarrow> string option)
      \<Rightarrow> phase_error + 'e runtime_config \<Rightarrow> run \<Rightarrow> gate_config \<Rightarrow> string \<Rightarrow> string \<Rightarrow> queriers
      \<Rightarrow> string \<Rightarrow> gate_error + gate_outcome" where
  "evaluate_rules verify rc r cfg from to q tier0 =
     (let runtimeTerminal = runtime_terminal r rc to;
          (selected, source0, usingDefaults) = select_rules r cfg from to;
          rules = inject_runtime runtimeTerminal (inject_rules r to selected);
          source1 = (if runtimeTerminal \<and> (source0 = [] \<or> Priority cfg \<ge> 4)
                     then ''required'' else source0);
          tier1 = (if runtimeTerminal then TierHard else tier0)
      in if rules = [] then Inr (outcome GatePass tier1 source1 None)
         else
           let tier2 = escalate_tier tier1 rules;
               (tier3, source3) =
                 (case CalibratedTiers cfg of
                    Some tiers \<Rightarrow>
                      if usingDefaults then calibrate tiers from to rules (tier2, source1)
                      else (tier2, source1)
                  | None \<Rightarrow> (tier2, source1))
           in sum_bind (eval_rules (eval_check verify cfg rc q r) rules [] True)
                (\<lambda>(conds, allPass).
                  Inr (outcome (if allPass then GatePass else GateFail) tier3 source3 (Some conds))))"

definition evaluateGate ::
    "(json \<Rightarrow> 'e option) \<Rightarrow> ('e runtime_config \<Rightarrow> run \<Rightarrow> artifact \<Rightarrow> string option)
      \<Rightarrow> run \<Rightarrow> gate_config \<Rightarrow> string \<Rightarrow> string \<Rightarrow> queriers \<Rightarrow> gate_error + gate_outcome" where
  "evaluateGate decode verify r cfg from to q =
     (let rc = RuntimeEvidenceForRun decode r;
          runtimeTerminal = runtime_terminal r rc to
      in if DisableAll cfg \<and> \<not> runtimeTerminal
         then Inr (outcome GateNone TierNone ''default'' None)
         else if Priority cfg \<le> 1 then evaluate_rules verify rc r cfg from to q TierHard
         else if Priority cfg \<le> 3 then evaluate_rules verify rc r cfg from to q TierSoft
         else if \<not> runtimeTerminal then Inr (outcome GateNone TierNone ''default'' None)
         else evaluate_rules verify rc r cfg from to q TierHard)"

section \<open>Lemmas on evaluation\<close>

lemma eval_rules_Inr:
  "eval_rules check rls conds ok = Inr (conds', ok') \<Longrightarrow>
   \<exists>cs. conds' = conds @ cs \<and> list_all2 (\<lambda>rl c. check rl = Inr c) rls cs
      \<and> (ok' \<longleftrightarrow> ok \<and> (\<forall>c \<in> set cs. cResult c \<noteq> GateFail))"
proof (induction check rls conds ok rule: eval_rules.induct)
  case (1 check conds ok)
  then show ?case by simp
next
  case (2 check rl rls conds ok)
  from "2.prems" obtain c where c: "check rl = Inr c"
    and rest: "eval_rules check rls (conds @ [c]) (ok \<and> cResult c \<noteq> GateFail) = Inr (conds', ok')"
    by (auto simp: sum_bind_Inr_iff)
  from "2.IH" [OF rest] obtain cs where "conds' = (conds @ [c]) @ cs"
    "list_all2 (\<lambda>rl c. check rl = Inr c) rls cs"
    "ok' \<longleftrightarrow> (ok \<and> cResult c \<noteq> GateFail) \<and> (\<forall>c \<in> set cs. cResult c \<noteq> GateFail)"
    by blast
  with c show ?case by (intro exI [of _ "c # cs"]) auto
qed

lemmas check_defs =
  check_artifact_exists_def check_agents_complete_def check_verdict_exists_def
  check_verdict_clean_def check_children_at_phase_def check_upstreams_at_phase_def
  check_budget_not_exceeded_def check_runtime_evidence_def

lemma check_result:
  "check_artifact_exists q r rl = Inr c \<Longrightarrow> cResult c = GatePass \<or> cResult c = GateFail"
  "check_agents_complete q r rl = Inr c \<Longrightarrow> cResult c = GatePass \<or> cResult c = GateFail"
  "check_verdict_exists q r rl = Inr c \<Longrightarrow> cResult c = GatePass \<or> cResult c = GateFail"
  "check_verdict_clean q r rl = Inr c \<Longrightarrow> cResult c = GatePass \<or> cResult c = GateFail"
  "check_children_at_phase q r rl = Inr c \<Longrightarrow> cResult c = GatePass \<or> cResult c = GateFail"
  "check_upstreams_at_phase q r rl = Inr c \<Longrightarrow> cResult c = GatePass \<or> cResult c = GateFail"
  "check_budget_not_exceeded q r rl = Inr c \<Longrightarrow> cResult c = GatePass \<or> cResult c = GateFail"
  "check_runtime_evidence verify cfg rc q r rl = Inr c \<Longrightarrow> cResult c = GatePass \<or> cResult c = GateFail"
  by (auto simp: check_defs sum_bind_Inr_iff Let_def
           split: option.splits if_splits sum.splits artifact_error.splits)

lemma eval_check_result:
  "eval_check verify cfg rc q r rl = Inr c \<Longrightarrow> cResult c = GatePass \<or> cResult c = GateFail"
  by (auto simp: eval_check_def split: if_splits dest: check_result)

lemma eval_rules_all:
  assumes "eval_rules (eval_check verify cfg rc q r) rules [] True = Inr (conds, ok)"
  shows "ok \<longleftrightarrow> (\<forall>rl \<in> set rules. \<exists>c. eval_check verify cfg rc q r rl = Inr c \<and> cResult c = GatePass)"
proof -
  from eval_rules_Inr [OF assms] have
    all2: "list_all2 (\<lambda>rl c. eval_check verify cfg rc q r rl = Inr c) rules conds"
    and ok: "ok \<longleftrightarrow> (\<forall>c \<in> set conds. cResult c \<noteq> GateFail)" by auto
  have "(\<forall>c \<in> set conds. cResult c \<noteq> GateFail) \<longleftrightarrow>
     (\<forall>rl \<in> set rules. \<exists>c. eval_check verify cfg rc q r rl = Inr c \<and> cResult c = GatePass)"
    using all2
  proof (induction rules conds rule: list_all2_induct)
    case Nil
    then show ?case by simp
  next
    case (Cons rl rls c cs)
    from eval_check_result [OF Cons.hyps(1)] Cons show ?case by auto
  qed
  with ok show ?thesis by simp
qed

lemma escalate_tier_cases:
  "escalate_tier tier rules = tier \<or> escalate_tier tier rules = TierHard \<or>
   (escalate_tier tier rules = TierSoft \<and> tier \<noteq> TierHard)"
  by (induction tier rules rule: escalate_tier.induct) auto

lemma escalate_tier_hard [simp]: "escalate_tier TierHard rules = TierHard"
  using escalate_tier_cases [of TierHard rules] by auto

lemma calibrate_cases: "calibrate tiers from to rules ts = ts \<or> calibrate tiers from to rules ts = (TierHard, ''calibrated'')"
  by (induction tiers "from" to rules ts rule: calibrate.induct) auto

text \<open>The rules a transition is held to: selected, then injected.\<close>

definition effective_rules ::
    "phase_error + 'e runtime_config \<Rightarrow> run \<Rightarrow> gate_config \<Rightarrow> string \<Rightarrow> string \<Rightarrow> gate_rule list" where
  "effective_rules rc r cfg from to =
     inject_runtime (runtime_terminal r rc to) (inject_rules r to (fst (select_rules r cfg from to)))"

lemma evaluate_rules_Inr:
  assumes "evaluate_rules verify rc r cfg from to q tier0 = Inr g"
  shows "goResult g = (if \<forall>rl \<in> set (effective_rules rc r cfg from to).
             \<exists>c. eval_check verify cfg rc q r rl = Inr c \<and> cResult c = GatePass
           then GatePass else GateFail)"
    and "runtime_terminal r rc to \<or> tier0 = TierHard \<Longrightarrow> goTier g = TierHard"
    and "goTier g = tier0 \<or> goTier g = TierHard \<or> goTier g = TierSoft"
proof -
  obtain selected source0 usingDefaults where sel: "select_rules r cfg from to = (selected, source0, usingDefaults)"
    by (metis prod_cases3)
  let ?rules = "effective_rules rc r cfg from to"
  have rules: "?rules = inject_runtime (runtime_terminal r rc to) (inject_rules r to selected)"
    by (simp add: effective_rules_def sel)
  show "goResult g = (if \<forall>rl \<in> set ?rules. \<exists>c. eval_check verify cfg rc q r rl = Inr c \<and> cResult c = GatePass
           then GatePass else GateFail)"
  proof (cases "?rules = []")
    case True
    with assms show ?thesis by (auto simp: evaluate_rules_def sel Let_def rules)
  next
    case False
    with assms obtain conds ok where
      "eval_rules (eval_check verify cfg rc q r) ?rules [] True = Inr (conds, ok)"
      "goResult g = (if ok then GatePass else GateFail)"
      by (auto simp: evaluate_rules_def sel Let_def rules sum_bind_Inr_iff split: prod.splits)
    with eval_rules_all show ?thesis by metis
  qed
  let ?tier1 = "if runtime_terminal r rc to then TierHard else tier0"
  obtain source1 where src: "(if runtime_terminal r rc to \<and> (source0 = [] \<or> Priority cfg \<ge> 4)
       then ''required'' else source0) = source1" by blast
  have tier: "goTier g = ?tier1 \<or> goTier g = escalate_tier ?tier1 ?rules \<or> goTier g = TierHard"
    using assms calibrate_cases
    by (auto simp: evaluate_rules_def sel Let_def rules sum_bind_Inr_iff
             split: prod.splits if_splits option.splits) (metis (no_types, lifting) Pair_inject)+
  then show "runtime_terminal r rc to \<or> tier0 = TierHard \<Longrightarrow> goTier g = TierHard" by auto
  show "goTier g = tier0 \<or> goTier g = TierHard \<or> goTier g = TierSoft"
    using tier escalate_tier_cases [of ?tier1 ?rules] by (auto split: if_splits)
qed

section \<open>Lemmas on the checks and the calibration\<close>

lemma behind_phase_iff:
  "behind_phase phase r \<longleftrightarrow> phase \<in> set (ResolveChain r)
     \<and> ChainPhaseIndex (ResolveChain r) (rPhase r) < ChainPhaseIndex (ResolveChain r) phase"
  using ChainPhaseIndex_neg [of "ResolveChain r" phase] by (auto simp: behind_phase_def Let_def)

lemma count_children_behind_zero:
  "count_children_behind phase children = 0 \<longleftrightarrow>
     (\<forall>child \<in> set children. rStatus child = StatusCompleted \<or> rStatus child = StatusCancelled
        \<or> \<not> behind_phase phase child)"
  by (induction phase children rule: count_children_behind.induct) auto

lemma condition_eq_iff [simp]:
  "condition r res n d = condition r res' n' d' \<longleftrightarrow> res = res' \<and> n = n' \<and> d = d'"
  by (simp add: condition_def)

lemma children_check_pass:
  assumes "check_children_at_phase q r rl = Inr c" "cResult c = GatePass"
  obtains getChildren children where "pq q = Some getChildren" "getChildren (rID r) = Inr children"
    "\<forall>child \<in> set children. rStatus child = StatusCompleted \<or> rStatus child = StatusCancelled
        \<or> \<not> behind_phase (gPhase rl) child"
proof -
  from assms(1) obtain getChildren children where
    *: "pq q = Some getChildren" "getChildren (rID r) = Inr children"
    and c: "c = (if count_children_behind (gPhase rl) children = 0
      then condition rl GatePass (Some 0) NoDetail
      else condition rl GateFail (Some (count_children_behind (gPhase rl) children))
        (ChildrenBehind (count_children_behind (gPhase rl) children) (gPhase rl)))"
    using assms(2)
    by (cases "pq q") (auto simp: check_children_at_phase_def Let_def sum_bind_Inr_iff)
  have "count_children_behind (gPhase rl) children = 0"
    using c assms(2) by (cases "count_children_behind (gPhase rl) children = 0") simp_all
  with * that show ?thesis unfolding count_children_behind_zero by blast
qed

lemma runtime_check_pass:
  assumes "check_runtime_evidence verify cfg rc q r rl = Inr c" "cResult c = GatePass"
  shows "\<not> DisableAll cfg \<and> (\<exists>config t a h. rc = Inr config \<and> rcReady config \<and> rt q = Some t
     \<and> qLatestActiveArtifactByType t (rID r) RuntimeEvidenceArtifactType = Inr a
     \<and> aContentHash a \<noteq> None \<and> aContentHash a \<noteq> Some [] \<and> verify config r a = Some h)"
  using assms
  by (auto simp: check_runtime_evidence_def split: option.splits if_splits sum.splits artifact_error.splits)

lemma inject_runtime_has:
  "runtimeTerminal \<Longrightarrow> \<exists>rl \<in> set (inject_runtime runtimeTerminal rules). gCheck rl = CheckRuntimeEvidence"
  by (auto simp: inject_runtime_def)

lemma inject_rules_children:
  "rProjectDir r = [] \<Longrightarrow> rule CheckChildrenAtPhase to [] \<in> set (inject_rules r to rules)"
  by (auto simp: inject_rules_def Let_def split: option.splits)

lemma inject_runtime_superset: "set rules \<subseteq> set (inject_runtime b rules)"
  by (auto simp: inject_runtime_def)

lemma evaluateGate_cases:
  assumes "evaluateGate decode verify r cfg from to q = Inr g"
  obtains (bypass) "\<not> runtime_terminal r (RuntimeEvidenceForRun decode r) to"
      "DisableAll cfg \<or> Priority cfg \<ge> 4" "g = outcome GateNone TierNone ''default'' None"
  | (evaluated) tier0 where
      "evaluate_rules verify (RuntimeEvidenceForRun decode r) r cfg from to q tier0 = Inr g"
      "Priority cfg \<le> 1 \<Longrightarrow> tier0 = TierHard"
      "runtime_terminal r (RuntimeEvidenceForRun decode r) to \<or> \<not> DisableAll cfg \<and> Priority cfg < 4"
proof (cases "(DisableAll cfg \<or> Priority cfg \<ge> 4) \<and> \<not> runtime_terminal r (RuntimeEvidenceForRun decode r) to")
  case True
  with assms have "g = outcome GateNone TierNone ''default'' None"
    by (cases "DisableAll cfg") (auto simp: evaluateGate_def Let_def)
  with True bypass show ?thesis by blast
next
  case False
  let ?tier = "if Priority cfg \<le> 1 then TierHard else if Priority cfg \<le> 3 then TierSoft else TierHard"
  from False assms have
    "evaluate_rules verify (RuntimeEvidenceForRun decode r) r cfg from to q ?tier = Inr g"
    by (auto simp: evaluateGate_def Let_def)
  with evaluated [of ?tier] False show ?thesis by auto
qed

lemma select_rules_calibration:
  "select_rules r (cfg\<lparr>CalibratedTiers := t\<rparr>) from to = select_rules r cfg from to"
  by (cases "rGateRules r") (simp_all add: select_rules_def)

lemma eval_check_calibration:
  "eval_check verify (cfg\<lparr>CalibratedTiers := t\<rparr>) rc q r = eval_check verify cfg rc q r"
  by (simp add: fun_eq_iff eval_check_def check_runtime_evidence_def)

lemma evaluate_rules_calibration:
  "rel_sum (=) (\<lambda>g g'. goResult g' = goResult g \<and> goEvidence g' = goEvidence g
       \<and> (goTier g' = goTier g \<or> goTier g' = TierHard))
     (evaluate_rules verify rc r (cfg\<lparr>CalibratedTiers := None\<rparr>) from to q tier0)
     (evaluate_rules verify rc r (cfg\<lparr>CalibratedTiers := Some tiers\<rparr>) from to q tier0)"
proof -
  obtain selected source0 usingDefaults where
    sel: "select_rules r cfg from to = (selected, source0, usingDefaults)" by (metis prod_cases3)
  let ?rules = "inject_runtime (runtime_terminal r rc to) (inject_rules r to selected)"
  let ?tier = "escalate_tier (if runtime_terminal r rc to then TierHard else tier0) ?rules"
  obtain source1 where src: "(if runtime_terminal r rc to \<and> (source0 = [] \<or> Priority cfg \<ge> 4)
       then ''required'' else source0) = source1" by blast
  show ?thesis
    using calibrate_cases [of tiers "from" to ?rules "(?tier, source1)"]
    by (cases "eval_rules (eval_check verify cfg rc q r) ?rules [] True")
      (auto simp: evaluate_rules_def select_rules_calibration sel Let_def eval_check_calibration src
            split: prod.splits)
qed

lemma runtime_gate_hard_facts:
  assumes "evaluateGate decode verify r cfg from to q = Inr g"
    and "runtime_terminal r (RuntimeEvidenceForRun decode r) to"
  shows "goTier g = TierHard" "goResult g = GatePass \<or> goResult g = GateFail"
    and "goResult g = GatePass \<Longrightarrow> \<not> DisableAll cfg \<and> (\<exists>config t a h.
       RuntimeEvidenceForRun decode r = Inr config \<and> rcReady config \<and> rt q = Some t
       \<and> qLatestActiveArtifactByType t (rID r) RuntimeEvidenceArtifactType = Inr a
       \<and> aContentHash a \<noteq> None \<and> aContentHash a \<noteq> Some [] \<and> verify config r a = Some h)"
proof -
  let ?rc = "RuntimeEvidenceForRun decode r"
  from assms obtain tier0 where ev: "evaluate_rules verify ?rc r cfg from to q tier0 = Inr g"
    by (elim evaluateGate_cases) auto
  obtain rl where rl: "rl \<in> set (effective_rules ?rc r cfg from to)" "gCheck rl = CheckRuntimeEvidence"
    using inject_runtime_has [OF assms(2)] by (auto simp: effective_rules_def)
  have pass: "goResult g = GatePass \<Longrightarrow>
      \<exists>c. check_runtime_evidence verify cfg ?rc q r rl = Inr c \<and> cResult c = GatePass"
    using evaluate_rules_Inr(1) [OF ev] rl by (auto simp: eval_check_def split: if_splits)
  show "goTier g = TierHard" using evaluate_rules_Inr(2) [OF ev] assms(2) by simp
  show "goResult g = GatePass \<or> goResult g = GateFail"
    unfolding evaluate_rules_Inr(1) [OF ev] by simp
  show "goResult g = GatePass \<Longrightarrow> \<not> DisableAll cfg \<and> (\<exists>config t a h.
       ?rc = Inr config \<and> rcReady config \<and> rt q = Some t
       \<and> qLatestActiveArtifactByType t (rID r) RuntimeEvidenceArtifactType = Inr a
       \<and> aContentHash a \<noteq> None \<and> aContentHash a \<noteq> Some [] \<and> verify config r a = Some h)"
    using pass runtime_check_pass [of verify cfg ?rc q r rl] by blast
qed

section \<open>Properties\<close>

text \<open>
  C2. Runtime evidence cannot be bypassed. Where a transition ends a run that
  requires runtime evidence (or whose metadata is malformed), the gate is hard
  whatever the priority, the disable flag and the rules are, and it passes only
  if the flag is off, the expectations are sealed and the latest active receipt
  of the run, with its content hash, was verified.
\<close>

theorem runtime_gate_not_bypassable:
  assumes "evaluateGate decode verify r cfg from to q = Inr g"
    and "runtime_terminal r (RuntimeEvidenceForRun decode r) to"
  shows "goTier g = TierHard \<and> (goResult g = GatePass \<or> goResult g = GateFail) \<and>
    (goResult g = GatePass \<longrightarrow> \<not> DisableAll cfg \<and>
       (\<exists>config t a h. RuntimeEvidenceForRun decode r = Inr config \<and> rcReady config \<and> rt q = Some t
          \<and> qLatestActiveArtifactByType t (rID r) RuntimeEvidenceArtifactType = Inr a
          \<and> aContentHash a \<noteq> None \<and> aContentHash a \<noteq> Some [] \<and> verify config r a = Some h))"
  using runtime_gate_hard_facts [OF assms] by blast

text \<open>
  C5. Gate results. When a gate is not bypassed, it passes exactly if every rule
  of the transition (stored on the run, else from the spec, else from the table,
  together with the injected portfolio, dependency, budget and runtime rules)
  evaluates to a passing condition; a failing gate at priority 0 or 1 is hard.
\<close>

theorem gate_passes_iff_rules_pass:
  assumes "evaluateGate decode verify r cfg from to q = Inr g" "goResult g \<noteq> GateNone"
  shows "(goResult g = GatePass \<longleftrightarrow>
      (\<forall>rl \<in> set (effective_rules (RuntimeEvidenceForRun decode r) r cfg from to).
         \<exists>c. eval_check verify cfg (RuntimeEvidenceForRun decode r) q r rl = Inr c \<and> cResult c = GatePass))
    \<and> (Priority cfg \<le> 1 \<longrightarrow> goTier g = TierHard)"
  using assms
proof (cases rule: evaluateGate_cases)
  case bypass
  with assms show ?thesis by simp
next
  case (evaluated tier0)
  with evaluate_rules_Inr(1,2) [OF evaluated(1)] show ?thesis by (auto split: if_splits)
qed

text \<open>
  Calibration only escalates. For every run and configuration the gate with
  calibrated tiers has the errors, the result and the evidence of the gate
  without them, and its tier is unchanged or hard.
\<close>

lemma calibration_only_escalates:
  "rel_sum (=) (\<lambda>g g'. goResult g' = goResult g \<and> goEvidence g' = goEvidence g
       \<and> (goTier g' = goTier g \<or> goTier g' = TierHard))
     (evaluateGate decode verify r (cfg\<lparr>CalibratedTiers := None\<rparr>) from to q)
     (evaluateGate decode verify r (cfg\<lparr>CalibratedTiers := Some tiers\<rparr>) from to q)"
  using evaluate_rules_calibration [of verify _ r cfg "from" to q]
  by (simp add: evaluateGate_def Let_def)

text \<open>
  Portfolio coordination. A portfolio run's gate towards a phase passes only
  if every child that is neither completed nor cancelled has reached that phase,
  unless its own chain does not contain the phase; failed children block.
\<close>

lemma portfolio_waits_for_children:
  assumes "evaluateGate decode verify r cfg from to q = Inr g" "goResult g = GatePass"
    and "rProjectDir r = []"
  shows "\<exists>getChildren children. pq q = Some getChildren \<and> getChildren (rID r) = Inr children \<and>
    (\<forall>child \<in> set children. rStatus child \<noteq> StatusCompleted \<longrightarrow> rStatus child \<noteq> StatusCancelled \<longrightarrow>
       to \<in> set (ResolveChain child) \<longrightarrow>
       ChainPhaseIndex (ResolveChain child) to \<le> ChainPhaseIndex (ResolveChain child) (rPhase child))"
proof -
  let ?rc = "RuntimeEvidenceForRun decode r"
  from assms obtain tier0 where ev: "evaluate_rules verify ?rc r cfg from to q tier0 = Inr g"
    by (elim evaluateGate_cases) auto
  have "rule CheckChildrenAtPhase to [] \<in> set (effective_rules ?rc r cfg from to)"
    using inject_rules_children [OF assms(3)] inject_runtime_superset
    unfolding effective_rules_def by blast
  moreover have "\<forall>rl \<in> set (effective_rules ?rc r cfg from to).
      \<exists>c. eval_check verify cfg ?rc q r rl = Inr c \<and> cResult c = GatePass"
    using evaluate_rules_Inr(1) [OF ev] assms(2) by (simp split: if_splits)
  ultimately obtain c where "eval_check verify cfg ?rc q r (rule CheckChildrenAtPhase to []) = Inr c"
    and "cResult c = GatePass" by blast
  then have "check_children_at_phase q r (rule CheckChildrenAtPhase to []) = Inr c" "cResult c = GatePass"
    by (simp_all add: eval_check_def)
  then obtain getChildren children where "pq q = Some getChildren" "getChildren (rID r) = Inr children"
    and *: "\<forall>child \<in> set children. rStatus child = StatusCompleted \<or> rStatus child = StatusCancelled
        \<or> \<not> behind_phase to child"
    by (rule children_check_pass) simp
  moreover from * have "\<forall>child \<in> set children. rStatus child \<noteq> StatusCompleted \<longrightarrow> rStatus child \<noteq> StatusCancelled \<longrightarrow>
       to \<in> set (ResolveChain child) \<longrightarrow>
       ChainPhaseIndex (ResolveChain child) to \<le> ChainPhaseIndex (ResolveChain child) (rPhase child)"
    unfolding behind_phase_iff by (meson not_less)
  ultimately show ?thesis by blast
qed

section \<open>A run, its queriers and the witnesses\<close>

definition sample_run :: run where
  "sample_run = \<lparr>rID = ''r1'', rProjectDir = ''/p'', rGoal = ''g'', rStatus = StatusActive,
     rPhase = Planned, rComplexity = 3, rForceFull = False, rAutoAdvance = True,
     rCreatedAt = 10, rUpdatedAt = 10, rCompletedAt = None, rScopeID = None, rMetadata = None,
     rPhases = None, rTokenBudget = None, rBudgetWarnPct = 80, rParentRunID = None,
     rGoalID = None, rMaxDispatches = 0, rBudgetEnforce = False, rMaxAgents = 0, rGateRules = None\<rparr>"

definition sample_artifact :: artifact where
  "sample_artifact = \<lparr>aID = ''a1'', aRunID = ''r1'', aPhase = Planned, aPath = ''/p/x'',
     aType = RuntimeEvidenceArtifactType, aContentHash = Some ''h'', aStatus = Some ''active'',
     aCreatedAt = 11\<rparr>"

definition sample_queriers :: queriers where
  "sample_queriers = \<lparr>rt = Some \<lparr>qCountArtifacts = (\<lambda>r p. Inr 1), qCountActiveAgents = (\<lambda>r. Inr 0),
       qLatestActiveArtifactByType = (\<lambda>r t. Inr sample_artifact)\<rparr>,
     vq = None, pq = Some (\<lambda>r. Inr [sample_run\<lparr>rPhase := Executing\<rparr>]), dq = None, bq = None\<rparr>"

definition sample_config :: gate_config where
  "sample_config = \<lparr>Priority = 0, DisableAll = False, SkipReason = [], SpecRules = [],
     CalibratedTiers = None\<rparr>"

lemmas sample_defs = sample_run_def sample_artifact_def sample_queriers_def sample_config_def

lemma sample_run_fields [simp]:
  "rID sample_run = ''r1''" "rProjectDir sample_run = ''/p''" "rStatus sample_run = StatusActive"
  "rPhase sample_run = Planned" "rScopeID sample_run = None" "rMetadata sample_run = None"
  "rPhases sample_run = None" "rParentRunID sample_run = None" "rBudgetEnforce sample_run = False"
  "rGateRules sample_run = None" "rGoalID sample_run = None" "rTokenBudget sample_run = None"
  by (simp_all add: sample_run_def)

lemma sample_config_fields [simp]:
  "Priority sample_config = 0" "DisableAll sample_config = False" "SpecRules sample_config = []"
  "CalibratedTiers sample_config = None" "SkipReason sample_config = []"
  by (simp_all add: sample_config_def)

lemma sample_queriers_fields [simp]:
  "rt sample_queriers = Some \<lparr>qCountArtifacts = (\<lambda>r p. Inr 1), qCountActiveAgents = (\<lambda>r. Inr 0),
       qLatestActiveArtifactByType = (\<lambda>r t. Inr sample_artifact)\<rparr>"
  "pq sample_queriers = Some (\<lambda>r. Inr [sample_run\<lparr>rPhase := Executing\<rparr>])"
  "aContentHash sample_artifact = Some ''h''"
  by (simp_all add: sample_queriers_def sample_artifact_def)

text \<open>A run about to finish whose metadata seals a runtime-evidence gate.\<close>

definition sealed_run :: run where
  "sealed_run = sample_run\<lparr>rPhase := Reflect, rMetadata := Some (Some
     [(''close_gate'', JObj [(''bead_id'', JStr ''b''), (''config_digest'', JStr ''d''),
        (''requirements'', JArr [JStr runtimeEvidenceRequirement]),
        (''runtime_expectations'', JObj [])])])\<rparr>"

lemma sealed_run_fields [simp]:
  "rID sealed_run = ''r1''" "rProjectDir sealed_run = ''/p''" "rPhase sealed_run = Reflect"
  "rGateRules sealed_run = None" "rParentRunID sealed_run = None" "rBudgetEnforce sealed_run = False"
  by (simp_all add: sealed_run_def)

lemma sealed_run_evidence:
  "RuntimeEvidenceForRun Some sealed_run = Inr \<lparr>rcRequired = True, rcBeadID = ''b'',
     rcExpectations = Some (JObj []), rcConfigDigest = ''d'', rcReady = True\<rparr>"
  by (simp add: RuntimeEvidenceForRun_def runtime_evidence_of_def sealed_run_def close_gate_of_def
    jget_def requirementSet_def json_str_def no_runtime_config_def runtimeEvidenceRequirement_def)

lemma sealed_run_terminal: "runtime_terminal sealed_run (RuntimeEvidenceForRun Some sealed_run) Done"
  unfolding sealed_run_evidence
  by (simp add: runtime_terminal_def sealed_run_def sample_run_def ResolveChain_def
    ChainIsTerminal_def DefaultChain_def)

lemma reflect_done_rules: "gateRules (Reflect, Done) = Some [rule CheckArtifactExists Reflect []]"
  by (simp add: gateRules_def)

lemma planned_executing_rules: "gateRules (Planned, Executing) = Some [rule CheckArtifactExists Planned []]"
  by (simp add: gateRules_def)

lemmas gate_eval = evaluateGate_def evaluate_rules_def select_rules_def inject_rules_def
  inject_runtime_def Let_def eval_check_def check_artifact_exists_def check_runtime_evidence_def
  check_children_at_phase_def sealed_run_evidence reflect_done_rules planned_executing_rules

lemma sealed_run_gate:
  "evaluateGate Some (\<lambda>c r a. Some ''proof'') sealed_run (sample_config\<lparr>Priority := 9\<rparr>) Reflect Done sample_queriers
     = Inr (outcome GatePass TierHard ''required''
         (Some [condition (rule CheckArtifactExists Reflect []) GatePass (Some 1) NoDetail,
                condition (rule CheckRuntimeEvidence [] TierHard) GatePass None (VerifiedProof ''proof'')]))"
  using sealed_run_terminal by (simp add: gate_eval)

theorem runtime_gate_not_bypassable_witness:
  "\<exists>g. evaluateGate Some (\<lambda>c r a. Some ''proof'') sealed_run (sample_config\<lparr>Priority := 9\<rparr>) Reflect Done sample_queriers = Inr g
     \<and> goTier g = TierHard \<and> goResult g = GatePass"
  using runtime_gate_not_bypassable [OF sealed_run_gate sealed_run_terminal] sealed_run_gate by auto

lemma sample_gate:
  "evaluateGate Some (\<lambda>c r a. None) sample_run sample_config Planned Executing sample_queriers
     = Inr (outcome GatePass TierHard ''default''
         (Some [condition (rule CheckArtifactExists Planned []) GatePass (Some 1) NoDetail]))"
  by (simp add: gate_eval runtime_terminal_def)

theorem gate_passes_iff_rules_pass_witness:
  "\<exists>c. eval_check (\<lambda>c r a. None) sample_config (RuntimeEvidenceForRun Some sample_run) sample_queriers
     sample_run (rule CheckArtifactExists Planned []) = Inr c \<and> cResult c = GatePass"
proof -
  have "rule CheckArtifactExists Planned [] \<in>
      set (effective_rules (RuntimeEvidenceForRun Some sample_run) sample_run sample_config Planned Executing)"
    by (simp add: effective_rules_def gate_eval runtime_terminal_def)
  with gate_passes_iff_rules_pass [OF sample_gate] show ?thesis by simp
qed

lemma sample_portfolio_gate:
  "evaluateGate Some (\<lambda>c r a. None) (sample_run\<lparr>rProjectDir := []\<rparr>) sample_config Planned Executing sample_queriers
     = Inr (outcome GatePass TierHard ''default''
         (Some [condition (rule CheckArtifactExists Planned []) GatePass (Some 1) NoDetail,
                condition (rule CheckChildrenAtPhase Executing []) GatePass (Some 0) NoDetail]))"
  by (simp add: gate_eval runtime_terminal_def behind_phase_def ResolveChain_def)

end
