(* ===== verification/RunStore.thy ===== *)
theory RunStore
  imports Gate
begin

text \<open>
  The run store, \<^verbatim>\<open>internal/phase/store.go\<close>, its transaction-scoped twins and
  queriers in \<^verbatim>\<open>internal/phase/tx_queriers.go\<close>, the replay inputs of
  \<^verbatim>\<open>replay_capture.go\<close> and \<^verbatim>\<open>UpdateConfiguration\<close> of \<^verbatim>\<open>metadata.go\<close>. The clock
  reading is the argument \<open>now\<close>, a generated identifier the argument \<open>rid\<close>. An
  operation returns the error, with the database left as it was, or the new
  database.
\<close>

section \<open>The SET clauses on runs\<close>

datatype run_change =
    SetPhase string int
  | SetStatus string int "int option"
  | SetSettings "int option" "bool option" "bool option" int
  | Rewind string int
  | CancelRun int
  | SetMaxDispatches int int
  | SetConfig "int option" "bool option" "bool option" "int option" "metadata option" int

definition set_settings ::
    "int option \<Rightarrow> bool option \<Rightarrow> bool option \<Rightarrow> int \<Rightarrow> run \<Rightarrow> run" where
  "set_settings complexity autoAdvance forceFull now r =
     r\<lparr>rUpdatedAt := now,
       rComplexity := (case complexity of Some c \<Rightarrow> c | None \<Rightarrow> rComplexity r),
       rAutoAdvance := (case autoAdvance of Some a \<Rightarrow> a | None \<Rightarrow> rAutoAdvance r),
       rForceFull := (case forceFull of Some f \<Rightarrow> f | None \<Rightarrow> rForceFull r)\<rparr>"

fun change_run :: "run_change \<Rightarrow> run \<Rightarrow> run" where
  "change_run (SetPhase p now) r = r\<lparr>rPhase := p, rUpdatedAt := now\<rparr>"
| "change_run (SetStatus st now done) r =
     r\<lparr>rStatus := st, rUpdatedAt := now,
       rCompletedAt := (case done of Some t \<Rightarrow> Some t | None \<Rightarrow> rCompletedAt r)\<rparr>"
| "change_run (SetSettings complexity autoAdvance forceFull now) r =
     set_settings complexity autoAdvance forceFull now r"
| "change_run (Rewind p now) r =
     r\<lparr>rPhase := p, rStatus := StatusActive, rUpdatedAt := now, rCompletedAt := None\<rparr>"
| "change_run (CancelRun now) r =
     r\<lparr>rStatus := StatusCancelled, rUpdatedAt := now, rCompletedAt := Some now\<rparr>"
| "change_run (SetMaxDispatches n now) r = r\<lparr>rMaxDispatches := n, rUpdatedAt := now\<rparr>"
| "change_run (SetConfig complexity autoAdvance forceFull maxd md now) r =
     (set_settings complexity autoAdvance forceFull now r)
       \<lparr>rMaxDispatches := (case maxd of Some n \<Rightarrow> n | None \<Rightarrow> rMaxDispatches r),
        rMetadata := (case md of Some m \<Rightarrow> m | None \<Rightarrow> rMetadata r)\<rparr>"

lemma set_settings_frame [frame]:
  "rID (set_settings c a f now r) = rID r" "rPhase (set_settings c a f now r) = rPhase r"
  "rStatus (set_settings c a f now r) = rStatus r" "rPhases (set_settings c a f now r) = rPhases r"
  "rMetadata (set_settings c a f now r) = rMetadata r"
  "rCompletedAt (set_settings c a f now r) = rCompletedAt r"
  by (simp_all add: set_settings_def)

text \<open>
  No SET clause writes the primary key, so the laws of tables with a key hold
  for the runs table under every change the store issues.
\<close>

interpretation run_table: keyed_table rID change_run
proof
  fix c r
  show "rID (change_run c r) = rID r" by (cases c) (simp_all add: frame)
qed

lemma change_run_phases [simp]: "rPhases (change_run c r) = rPhases r"
  by (cases c) (simp_all add: frame)

lemma change_run_id [simp]: "rID (change_run c r) = rID r"
  by (rule run_table.key_change)

section \<open>Reading runs\<close>

definition GetQ :: "db \<Rightarrow> string \<Rightarrow> phase_error + run" where
  "GetQ d rid = (case sql_first (\<lambda>r. rID r = rid) (runs d) of None \<Rightarrow> Inl ErrNotFound | Some r \<Rightarrow> Inr r)"

definition Get :: "db \<Rightarrow> string \<Rightarrow> phase_error + run" where
  "Get d rid = (case sql_first (\<lambda>r. rID r = rid) (runs d) of None \<Rightarrow> Inl ErrNotFound | Some r \<Rightarrow> Inr r)"

definition ListActive :: "db \<Rightarrow> run list" where
  "ListActive d = order_desc rCreatedAt (filter (\<lambda>r. rStatus r = StatusActive) (runs d))"

definition List_runs :: "db \<Rightarrow> string option \<Rightarrow> run list" where
  "List_runs d scopeID =
     order_desc rCreatedAt
       (case scopeID of Some s \<Rightarrow> filter (\<lambda>r. rScopeID r = Some s) (runs d) | None \<Rightarrow> runs d)"

definition Current :: "db \<Rightarrow> string \<Rightarrow> phase_error + run" where
  "Current d projectDir =
     (if projectDir = [] then Inl ErrEmptyProjectDir
      else case order_desc rCreatedAt
             (rev (filter (\<lambda>r. rStatus r = StatusActive \<and> rProjectDir r = projectDir) (runs d))) of
             [] \<Rightarrow> Inl ErrNotFound
           | r # _ \<Rightarrow> Inr r)"

definition GetChildren :: "db \<Rightarrow> string \<Rightarrow> run list" where
  "GetChildren d parent = order_asc rCreatedAt (filter (\<lambda>r. rParentRunID r = Some parent) (runs d))"

definition IsPortfolio :: "db \<Rightarrow> string \<Rightarrow> phase_error + bool" where
  "IsPortfolio d rid =
     (case sql_first (\<lambda>r. rID r = rid) (runs d) of
        None \<Rightarrow> Inl ErrNotFound | Some r \<Rightarrow> Inr (rProjectDir r = []))"

definition Events :: "db \<Rightarrow> string \<Rightarrow> phase_event list" where
  "Events d runID = order_asc eID (filter (\<lambda>e. eRunID e = runID) (phase_events d))"

definition SkippedPhasesQ :: "db \<Rightarrow> string \<Rightarrow> string set" where
  "SkippedPhasesQ d runID =
     eToPhase ` set (filter (\<lambda>e. eRunID e = runID \<and> eEventType e = EventSkip) (phase_events d))"

definition SkippedPhases :: "db \<Rightarrow> string \<Rightarrow> string set" where
  "SkippedPhases d runID =
     eToPhase ` set (filter (\<lambda>e. eRunID e = runID \<and> eEventType e = EventSkip) (phase_events d))"

lemma GetQ_Inr: "GetQ d rid = Inr r \<Longrightarrow> r \<in> set (runs d) \<and> rID r = rid"
  by (auto simp: GetQ_def split: option.splits dest: sql_first_Some)

section \<open>The audit trail\<close>

definition phaseReplayPayload :: "phase_event \<Rightarrow> replay_payload" where
  "phaseReplayPayload e =
     PhasePayload (eEventType e) (eFromPhase e) (eToPhase e) (eGateResult e) (eGateTier e) (eReason e)"

text \<open>A foreign key violation is swallowed: the insert is then skipped.\<close>

definition insertReplayInput ::
    "string \<Rightarrow> string \<Rightarrow> string \<Rightarrow> replay_payload \<Rightarrow> string \<Rightarrow> string \<Rightarrow> int option \<Rightarrow> db \<Rightarrow> db" where
  "insertReplayInput runID kind key payload artifactRef eventSource eventID d =
     (if runID = [] \<or> runID \<notin> rID ` set (runs d) then d
      else d\<lparr>replay_inputs := replay_inputs d @
             [\<lparr>riRunID = runID, riKind = (if kind = [] then ''unknown'' else kind),
               riKey = strPtrOrNil key, riPayload = payload,
               riArtifactRef = strPtrOrNil artifactRef, riEventSource = strPtrOrNil eventSource,
               riEventID = eventID\<rparr>]\<rparr>)"

definition AddEventQ :: "int \<Rightarrow> phase_event \<Rightarrow> db \<Rightarrow> phase_error + db" where
  "AddEventQ now e d =
     (if eRunID e \<notin> rID ` set (runs d) then Inl (ErrForeignKey (eRunID e))
      else
        let eventID = event_seq d + 1;
            d1 = d\<lparr>phase_events := phase_events d @ [e\<lparr>eID := eventID, eCreatedAt := now\<rparr>],
                   event_seq := eventID\<rparr>
        in Inr (if eventID > 0
                then insertReplayInput (eRunID e) ''time'' ''phase_transition'' (phaseReplayPayload e)
                       (''phase_event:'' @ dec eventID) ''phase'' (Some eventID) d1
                else insertReplayInput (eRunID e) ''time'' ''phase_transition'' (phaseReplayPayload e)
                       [] ''phase'' None d1))"

definition AddEvent :: "int \<Rightarrow> phase_event \<Rightarrow> db \<Rightarrow> phase_error + db" where
  "AddEvent now e d = AddEventQ now e d"

definition phase_event_of ::
    "string \<Rightarrow> string \<Rightarrow> string \<Rightarrow> string \<Rightarrow> string option \<Rightarrow> string option \<Rightarrow> string option \<Rightarrow> phase_event" where
  "phase_event_of runID from to ty res tier reason =
     \<lparr>eID = 0, eRunID = runID, eFromPhase = from, eToPhase = to, eEventType = ty,
      eGateResult = res, eGateTier = tier, eReason = reason, eCreatedAt = 0\<rparr>"

lemma phase_event_of_simps [simp]:
  "eRunID (phase_event_of i a b t r g s) = i" "eFromPhase (phase_event_of i a b t r g s) = a"
  "eToPhase (phase_event_of i a b t r g s) = b" "eEventType (phase_event_of i a b t r g s) = t"
  "eGateResult (phase_event_of i a b t r g s) = r" "eGateTier (phase_event_of i a b t r g s) = g"
  "eReason (phase_event_of i a b t r g s) = s"
  by (simp_all add: phase_event_of_def)

lemma insertReplayInput_frame [frame]:
  "runs (insertReplayInput i k y p a s e d) = runs d"
  "phase_events (insertReplayInput i k y p a s e d) = phase_events d"
  "event_seq (insertReplayInput i k y p a s e d) = event_seq d"
  "artifacts (insertReplayInput i k y p a s e d) = artifacts d"
  "goals (insertReplayInput i k y p a s e d) = goals d"
  "dispatches (insertReplayInput i k y p a s e d) = dispatches d"
  by (simp_all add: insertReplayInput_def)

lemma AddEventQ_Inr:
  assumes "AddEventQ now e d = Inr d'"
  shows "runs d' = runs d" "goals d' = goals d" "artifacts d' = artifacts d"
    "phase_events d' = phase_events d @ [e\<lparr>eID := event_seq d + 1, eCreatedAt := now\<rparr>]"
    "event_seq d' = event_seq d + 1" "eRunID e \<in> rID ` set (runs d)"
  using assms by (auto simp: AddEventQ_def Let_def frame split: if_splits)

lemma AddEventQ_total: "eRunID e \<in> rID ` set (runs d) \<Longrightarrow> \<exists>d'. AddEventQ now e d = Inr d'"
  by (simp add: AddEventQ_def Let_def)

section \<open>Creating runs\<close>

definition initial_phase :: "run \<Rightarrow> string" where
  "initial_phase r = (case rPhases r of Some (p # _) \<Rightarrow> p | _ \<Rightarrow> Brainstorm)"

definition warn_pct :: "run \<Rightarrow> int" where
  "warn_pct r = (if rBudgetWarnPct r = 0 then 80 else rBudgetWarnPct r)"

definition new_run :: "string \<Rightarrow> int \<Rightarrow> metadata \<Rightarrow> run \<Rightarrow> run" where
  "new_run rid now md r =
     r\<lparr>rID := rid, rStatus := StatusActive, rPhase := initial_phase r, rCreatedAt := now,
       rUpdatedAt := now, rCompletedAt := None, rMetadata := md, rBudgetWarnPct := warn_pct r\<rparr>"

definition insert_run :: "run \<Rightarrow> db \<Rightarrow> phase_error + db" where
  "insert_run r d =
     (if rID r \<in> rID ` set (runs d) then Inl (ErrDuplicateRun (rID r))
      else Inr (d\<lparr>runs := runs d @ [r]\<rparr>))"

definition checked_metadata :: "(json \<Rightarrow> 'e option) \<Rightarrow> run \<Rightarrow> phase_error + metadata" where
  "checked_metadata decode r =
     sum_bind (canonicalMetadataPointer decode (rMetadata r)) (\<lambda>md.
       case validateRuntimeRun decode r md of Some e \<Rightarrow> Inl e | None \<Rightarrow> Inr md)"

definition Create :: "(json \<Rightarrow> 'e option) \<Rightarrow> string \<Rightarrow> int \<Rightarrow> run \<Rightarrow> db \<Rightarrow> phase_error + db" where
  "Create decode rid now r d =
     sum_bind (checked_metadata decode r) (\<lambda>md.
       sum_bind (insert_run (new_run rid now md r) d) (\<lambda>d1.
         Inr (insertReplayInput rid ''random'' ''run_id'' (GeneratedID rid) (''run:'' @ rid)
                ''run_create'' None d1)))"

fun insert_children :: "string \<Rightarrow> int \<Rightarrow> (string \<times> run \<times> metadata) list \<Rightarrow> db \<Rightarrow> phase_error + db" where
  "insert_children parent now [] d = Inr d"
| "insert_children parent now ((childID, child, md) # rest) d =
     sum_bind (insert_run
         ((new_run childID now md child)
            \<lparr>rParentRunID := Some parent, rMaxDispatches := 0, rGoalID := None, rGateRules := None\<rparr>) d)
       (insert_children parent now rest)"

fun checked_children :: "(json \<Rightarrow> 'e option) \<Rightarrow> run list \<Rightarrow> phase_error + metadata list" where
  "checked_children decode [] = Inr []"
| "checked_children decode (c # cs) =
     sum_bind (checked_metadata decode c) (\<lambda>md.
       sum_bind (checked_children decode cs) (\<lambda>mds. Inr (md # mds)))"

definition CreatePortfolio ::
    "(json \<Rightarrow> 'e option) \<Rightarrow> string \<Rightarrow> string list \<Rightarrow> int \<Rightarrow> run \<Rightarrow> run list \<Rightarrow> db \<Rightarrow> phase_error + db" where
  "CreatePortfolio decode portfolioID childIDs now portfolio children d =
     sum_bind (checked_metadata decode portfolio) (\<lambda>md.
       sum_bind (checked_children decode children) (\<lambda>childMetadata.
         sum_bind (insert_run
             ((new_run portfolioID now md portfolio)
                \<lparr>rProjectDir := [], rParentRunID := None, rGoalID := None\<rparr>) d)
           (insert_children portfolioID now (zip childIDs (zip children childMetadata)))))"

section \<open>Updating runs\<close>

definition exec_runs :: "(run \<Rightarrow> bool) \<Rightarrow> run_change \<Rightarrow> db \<Rightarrow> db" where
  "exec_runs P c d = d\<lparr>runs := sql_update P (change_run c) (runs d)\<rparr>"

definition touch_goal :: "int \<Rightarrow> string \<Rightarrow> db \<Rightarrow> db" where
  "touch_goal now rid d =
     (case sql_first (\<lambda>r. rID r = rid \<and> rGoalID r \<noteq> None) (runs d) of
        None \<Rightarrow> d
      | Some r \<Rightarrow> d\<lparr>goals := sql_update (\<lambda>g. Some (goalID g) = rGoalID r)
                     (\<lambda>g. g\<lparr>goalLastRunAdvancedAt := Some now, goalUpdatedAt := now\<rparr>) (goals d)\<rparr>)"

definition UpdatePhaseQ :: "int \<Rightarrow> string \<Rightarrow> string \<Rightarrow> string \<Rightarrow> db \<Rightarrow> phase_error + db" where
  "UpdatePhaseQ now rid expectedPhase newPhase d =
     (let P = (\<lambda>r. rID r = rid \<and> rPhase r = expectedPhase) in
      if rows_affected P (runs d) = 0
      then (case GetQ d rid of Inl _ \<Rightarrow> Inl ErrNotFound | Inr _ \<Rightarrow> Inl ErrStalePhase)
      else Inr (touch_goal now rid (exec_runs P (SetPhase newPhase now) d)))"

definition UpdatePhase :: "int \<Rightarrow> string \<Rightarrow> string \<Rightarrow> string \<Rightarrow> db \<Rightarrow> phase_error + db" where
  "UpdatePhase now rid expectedPhase newPhase d =
     (let P = (\<lambda>r. rID r = rid \<and> rPhase r = expectedPhase) in
      if rows_affected P (runs d) = 0
      then (case Get d rid of Inl _ \<Rightarrow> Inl ErrNotFound | Inr _ \<Rightarrow> Inl ErrStalePhase)
      else Inr (touch_goal now rid (exec_runs P (SetPhase newPhase now) d)))"

definition update_by_id :: "string \<Rightarrow> run_change \<Rightarrow> db \<Rightarrow> phase_error + db" where
  "update_by_id rid c d =
     (if rows_affected (\<lambda>r. rID r = rid) (runs d) = 0 then Inl ErrNotFound
      else Inr (exec_runs (\<lambda>r. rID r = rid) c d))"

definition UpdateStatusQ :: "int \<Rightarrow> string \<Rightarrow> string \<Rightarrow> db \<Rightarrow> phase_error + db" where
  "UpdateStatusQ now rid status d =
     update_by_id rid (SetStatus status now (if IsTerminalStatus status then Some now else None)) d"

definition UpdateStatus :: "int \<Rightarrow> string \<Rightarrow> string \<Rightarrow> db \<Rightarrow> phase_error + db" where
  "UpdateStatus now rid status d =
     update_by_id rid (SetStatus status now (if IsTerminalStatus status then Some now else None)) d"

definition UpdateSettings ::
    "int \<Rightarrow> string \<Rightarrow> int option \<Rightarrow> bool option \<Rightarrow> bool option \<Rightarrow> db \<Rightarrow> phase_error + db" where
  "UpdateSettings now rid complexity autoAdvance forceFull d =
     update_by_id rid (SetSettings complexity autoAdvance forceFull now) d"

definition UpdateMaxDispatches :: "int \<Rightarrow> string \<Rightarrow> int \<Rightarrow> db \<Rightarrow> phase_error + db" where
  "UpdateMaxDispatches now rid n d = update_by_id rid (SetMaxDispatches n now) d"

definition RollbackPhaseQ :: "int \<Rightarrow> string \<Rightarrow> string \<Rightarrow> string \<Rightarrow> db \<Rightarrow> phase_error + db" where
  "RollbackPhaseQ now rid currentPhase targetPhase d =
     (let P = (\<lambda>r. rID r = rid \<and> (rPhase r = currentPhase
                 \<and> rStatus r \<noteq> StatusCancelled \<and> rStatus r \<noteq> StatusFailed)) in
      if rows_affected P (runs d) = 0
      then (case GetQ d rid of
              Inl _ \<Rightarrow> Inl ErrNotFound
            | Inr r \<Rightarrow> if rStatus r = StatusCancelled \<or> rStatus r = StatusFailed
                       then Inl ErrTerminalRun else Inl ErrStalePhase)
      else Inr (exec_runs P (Rewind targetPhase now) d))"

definition RollbackPhase :: "int \<Rightarrow> string \<Rightarrow> string \<Rightarrow> string \<Rightarrow> db \<Rightarrow> phase_error + db" where
  "RollbackPhase now rid currentPhase targetPhase d =
     (let P = (\<lambda>r. rID r = rid \<and> (rPhase r = currentPhase
                 \<and> rStatus r \<noteq> StatusCancelled \<and> rStatus r \<noteq> StatusFailed)) in
      if rows_affected P (runs d) = 0
      then (case Get d rid of
              Inl _ \<Rightarrow> Inl ErrNotFound
            | Inr r \<Rightarrow> if rStatus r = StatusCancelled \<or> rStatus r = StatusFailed
                       then Inl ErrTerminalRun else Inl ErrStalePhase)
      else Inr (exec_runs P (Rewind targetPhase now) d))"

definition CancelPortfolio :: "int \<Rightarrow> string \<Rightarrow> db \<Rightarrow> phase_error + db" where
  "CancelPortfolio now rid d =
     (let P = (\<lambda>r. rID r = rid \<and> rStatus r = StatusActive);
          d1 = exec_runs P (CancelRun now) d
      in if rows_affected P (runs d) = 0 then Inl (ErrPortfolioNotActive rid)
         else Inr (exec_runs (\<lambda>r. rParentRunID r = Some rid \<and> rStatus r = StatusActive)
                    (CancelRun now) d1))"

definition SkipPhase :: "int \<Rightarrow> string \<Rightarrow> string \<Rightarrow> string \<Rightarrow> string \<Rightarrow> db \<Rightarrow> phase_error + db" where
  "SkipPhase now runID targetPhase reason actor d =
     sum_bind (Get d runID) (\<lambda>r.
       if IsTerminalStatus (rStatus r) then Inl ErrTerminalRun
       else
         let chain = ResolveChain r;
             reasonStr = (if actor \<noteq> [] then ''actor='' @ actor @ '': '' @ reason else reason)
         in if \<not> ChainContains chain targetPhase then Inl (ErrSkipNotInChain targetPhase)
            else if \<not> ChainIsValidTransition chain (rPhase r) targetPhase
              then Inl (ErrSkipNotAhead targetPhase (rPhase r))
            else if ChainIsTerminal chain targetPhase then Inl (ErrSkipTerminal targetPhase)
            else AddEvent now (phase_event_of runID (rPhase r) targetPhase EventSkip None None
                                 (strPtrOrNil reasonStr)) d)"

section \<open>Configuration updates\<close>

text \<open>
  \<^verbatim>\<open>UpdateConfiguration\<close>: \<open>parse\<close> decodes the merge text, \<open>env\<close> is what other
  writers do between the read and the compare-and-swap of an attempt. The result
  is the error, or \<open>None\<close>, with the database. Retries of a locked database are
  attempts whose transaction changes nothing.
\<close>

definition metadataMergeAttempts :: nat where "metadataMergeAttempts = 8"

record config_update =
  ucComplexity :: "int option"
  ucAutoAdvance :: "bool option"
  ucForceFull :: "bool option"
  ucMaxDispatches :: "int option"
  ucMetadataMerge :: string

definition merge_base :: "run \<Rightarrow> (string \<times> json) list option" where
  "merge_base r = (case rMetadata r of None \<Rightarrow> Some [] | Some raw \<Rightarrow> raw)"

definition merge_candidate ::
    "(json \<Rightarrow> 'e option) \<Rightarrow> (string \<Rightarrow> (string \<times> json) list option) \<Rightarrow> config_update \<Rightarrow> run
      \<Rightarrow> phase_error + metadata option" where
  "merge_candidate decode parse update r =
     (if ucMetadataMerge update = [] then Inr None
      else sum_bind (MergeMetadata decode (merge_base r) (parse (ucMetadataMerge update))) (\<lambda>merged.
        let md = Some (Some merged); candidate = r\<lparr>rMetadata := md\<rparr> in
        case validateRuntimeRun decode candidate md of
          Some e \<Rightarrow> Inl e
        | None \<Rightarrow>
            sum_bind (RuntimeEvidenceForRun decode candidate) (\<lambda>config.
              if rcRequired config \<and> (IsTerminalStatus (rStatus r)
                   \<or> ChainIsTerminal (ResolveChain r) (rPhase r))
              then Inl ErrInvalidMetadata else Inr (Some md))))"

fun config_attempts ::
    "nat \<Rightarrow> (nat \<Rightarrow> db \<Rightarrow> db) \<Rightarrow> int \<Rightarrow> (json \<Rightarrow> 'e option) \<Rightarrow> (string \<Rightarrow> (string \<times> json) list option)
      \<Rightarrow> string \<Rightarrow> config_update \<Rightarrow> db \<Rightarrow> phase_error option \<times> db" where
  "config_attempts 0 env now decode parse rid update d = (Some ErrStaleMetadata, d)"
| "config_attempts (Suc n) env now decode parse rid update d =
     (case Get d rid of
        Inl e \<Rightarrow> (Some e, d)
      | Inr r \<Rightarrow>
          (case merge_candidate decode parse update r of
             Inl e \<Rightarrow> (Some e, d)
           | Inr merged \<Rightarrow>
               let d1 = env n d;
                   P = (\<lambda>r'. rID r' = rid \<and> (rMetadata r' = rMetadata r
                          \<and> rPhase r' = rPhase r \<and> rStatus r' = rStatus r));
                   d2 = exec_runs P (SetConfig (ucComplexity update) (ucAutoAdvance update)
                          (ucForceFull update) (ucMaxDispatches update) merged now) d1
               in if rows_affected P (runs d1) = 0
                  then config_attempts n env now decode parse rid update d1
                  else case GetQ d2 rid of
                         Inl e \<Rightarrow> (Some e, d1)
                       | Inr r2 \<Rightarrow>
                           (case AddEventQ now (phase_event_of rid (rPhase r2) (rPhase r2) EventSet
                                                  None None None) d2 of
                              Inl e \<Rightarrow> (Some e, d1)
                            | Inr d3 \<Rightarrow> (None, d3))))"

definition UpdateConfiguration ::
    "(nat \<Rightarrow> db \<Rightarrow> db) \<Rightarrow> int \<Rightarrow> (json \<Rightarrow> 'e option) \<Rightarrow> (string \<Rightarrow> (string \<times> json) list option)
      \<Rightarrow> string \<Rightarrow> config_update \<Rightarrow> db \<Rightarrow> phase_error option \<times> db" where
  "UpdateConfiguration env now decode parse rid update d =
     (if ucComplexity update = None \<and> ucAutoAdvance update = None \<and> ucForceFull update = None
         \<and> ucMaxDispatches update = None \<and> blank (ucMetadataMerge update)
      then (Some ErrNothingToUpdate, d)
      else if ucMetadataMerge update \<noteq> [] \<and> parse (ucMetadataMerge update) = None
      then (Some ErrInvalidMetadata, d)
      else config_attempts metadataMergeAttempts env now decode parse rid update d)"

section \<open>Transaction-scoped queriers\<close>

definition tx_runtrack :: "db \<Rightarrow> runtrack_querier" where
  "tx_runtrack d =
     \<lparr>qCountArtifacts = (\<lambda>runID phase. Inr (length (filter
          (\<lambda>a. aRunID a = runID \<and> aPhase a = phase \<and> aStatus a = Some ''active'') (artifacts d)))),
      qCountActiveAgents = (\<lambda>runID. Inr (length (filter
          (\<lambda>g. gRunID g = runID \<and> gStatus g = ''active'') (run_agents d)))),
      qLatestActiveArtifactByType = (\<lambda>runID typ.
          case order_desc aCreatedAt (rev (filter
            (\<lambda>a. aRunID a = runID \<and> aType a = typ \<and> aStatus a = Some ''active'') (artifacts d))) of
            [] \<Rightarrow> Inl ArtifactNotFound
          | a # _ \<Rightarrow> Inr a)\<rparr>"

definition tx_verdict :: "db \<Rightarrow> verdict_querier" where
  "tx_verdict d =
     \<lparr>qHasVerdict = (\<lambda>scopeID. Inr (scopeID \<noteq> [] \<and> length (filter
          (\<lambda>x. dScopeID x = Some scopeID \<and> dVerdictStatus x \<noteq> None \<and> dVerdictStatus x \<noteq> Some ''reject'')
          (dispatches d)) > 0)),
      qCountUncleanVerdicts = (\<lambda>scopeID. Inr (if scopeID = [] then 0 else length (filter
          (\<lambda>x. dScopeID x = Some scopeID
             \<and> (dVerdictStatus x = Some ''fail'' \<or> dVerdictStatus x = Some ''error''))
          (dispatches d))))\<rparr>"

definition tx_portfolio :: "db \<Rightarrow> string \<Rightarrow> string + run list" where
  "tx_portfolio d parent = Inr (order_asc rCreatedAt (filter (\<lambda>r. rParentRunID r = Some parent) (runs d)))"

definition tx_dep :: "db \<Rightarrow> string \<Rightarrow> string \<Rightarrow> string + string list" where
  "tx_dep d portfolioRunID downstream =
     Inr (sort (map depUpstream (filter
       (\<lambda>x. depPortfolioRunID x = portfolioRunID \<and> depDownstream x = downstream) (project_deps d))))"

definition tx_budget :: "db \<Rightarrow> int \<Rightarrow> string \<Rightarrow> string + bool" where
  "tx_budget d tokenBudget runID =
     (if tokenBudget \<le> 0 then Inr False
      else
        let rows = filter (\<lambda>x. dScopeID x = Some runID) (dispatches d);
            totalIn = sum_list (map dInputTokens rows);
            totalOut = sum_list (map dOutputTokens rows)
        in Inr (int64 (totalIn + totalOut) > tokenBudget))"

section \<open>Lemmas\<close>

text \<open>The primary key: a database whose runs have distinct identifiers.\<close>

definition keyed :: "db \<Rightarrow> bool" where
  "keyed d \<longleftrightarrow> distinct (map rID (runs d))"

lemma exec_runs_simps [simp]:
  "runs (exec_runs P c d) = sql_update P (change_run c) (runs d)"
  "phase_events (exec_runs P c d) = phase_events d" "event_seq (exec_runs P c d) = event_seq d"
  "goals (exec_runs P c d) = goals d" "artifacts (exec_runs P c d) = artifacts d"
  by (simp_all add: exec_runs_def)

lemma keyed_exec_runs [simp]: "keyed (exec_runs P c d) = keyed d"
  by (simp add: keyed_def run_table.keys_update)

lemma ids_sql_update [simp]: "rID ` set (sql_update P (change_run c) rs) = rID ` set rs"
  using run_table.keys_update [of P c rs] by (metis set_map)

lemma touch_goal_frame [simp]:
  "runs (touch_goal now rid d) = runs d" "phase_events (touch_goal now rid d) = phase_events d"
  "event_seq (touch_goal now rid d) = event_seq d" "artifacts (touch_goal now rid d) = artifacts d"
  "keyed (touch_goal now rid d) = keyed d"
  by (simp_all add: touch_goal_def keyed_def split: option.split)

lemma GetQ_iff: "keyed d \<Longrightarrow> GetQ d rid = Inr r \<longleftrightarrow> r \<in> set (runs d) \<and> rID r = rid"
  using run_table.first_in_distinct [of "runs d" r]
  by (auto simp: GetQ_def keyed_def split: option.splits dest: sql_first_Some)

lemma Get_GetQ: "Get d rid = GetQ d rid"
  by (simp add: Get_def GetQ_def)

lemma GetQ_exec_runs_other:
  "rid \<noteq> rid' \<Longrightarrow> GetQ (exec_runs (\<lambda>r. rID r = rid \<and> Q r) c d) rid' = GetQ d rid'"
  by (simp add: GetQ_def run_table.first_update_other)

lemma GetQ_exec_runs_same:
  assumes "keyed d"
  shows "GetQ (exec_runs (\<lambda>r. rID r = rid \<and> Q r) c d) rid
       = (case GetQ d rid of Inl e \<Rightarrow> Inl e | Inr r \<Rightarrow> Inr (if Q r then change_run c r else r))"
  using assms by (auto simp: GetQ_def keyed_def run_table.first_update_same split: option.splits)

lemma affected_GetQ:
  assumes "keyed d"
  shows "rows_affected (\<lambda>r. rID r = rid \<and> Q r) (runs d)
       = (case GetQ d rid of Inl _ \<Rightarrow> 0 | Inr r \<Rightarrow> if Q r then 1 else 0)"
  using assms by (auto simp: GetQ_def keyed_def run_table.affected_key split: option.splits)

lemma GetQ_cong: "runs d' = runs d \<Longrightarrow> GetQ d' rid = GetQ d rid"
  by (simp add: GetQ_def)

lemma GetQ_touch [simp]: "GetQ (touch_goal now rid d) rid' = GetQ d rid'"
  by (rule GetQ_cong) simp

end
