(* ===== verification/Machine.thy ===== *)
theory Machine
  imports RunStore
begin

text \<open>
  The run state machine, \<^verbatim>\<open>internal/phase/machine.go\<close>, and the dry run
  \<^verbatim>\<open>EvaluateGate\<close> of \<^verbatim>\<open>gate.go\<close>. A transaction is a function from the database
  it begins in to an error (rolled back) or the database it commits. The event
  bus callback is the list of the calls made.
\<close>

section \<open>Advance\<close>

record advance_result =
  arFromPhase :: string
  arToPhase :: string
  arEventType :: string
  arGateResult :: string
  arGateTier :: string
  arReason :: string
  arAdvanced :: bool

type_synonym callback_call = "string \<times> string \<times> string \<times> string \<times> string"

text \<open>
  What an advance takes from its surroundings: the clock, the decoder of runtime
  expectations, the receipt verifier, \<^verbatim>\<open>GateEvidence.String\<close>, and which of the
  optional queriers and the callback are not nil.
\<close>

record 'e advance_env =
  aeNow :: int
  aeDecode :: "json \<Rightarrow> 'e option"
  aeVerify :: "'e runtime_config \<Rightarrow> run \<Rightarrow> artifact \<Rightarrow> string option"
  aeRender :: "gate_condition list \<Rightarrow> string"
  aeVerdicts :: bool
  aePortfolio :: bool
  aeDeps :: bool
  aeBudget :: bool
  aeCallback :: bool

text \<open>
  The walk past pre-skipped phases. A chain that repeats a phase can keep it
  going for ever; then there is no result.
\<close>

partial_function (option) skip_walk ::
    "string list \<Rightarrow> string set \<Rightarrow> string \<Rightarrow> (chain_error + string) option" where
  "skip_walk chain skipped toPhase =
     (if toPhase \<in> skipped \<and> \<not> ChainIsTerminal chain toPhase
      then (case ChainNextPhase chain toPhase of
              Inl e \<Rightarrow> Some (Inl e)
            | Inr nxt \<Rightarrow> skip_walk chain skipped nxt)
      else Some (Inr toPhase))"

definition advance_queriers :: "'e advance_env \<Rightarrow> run \<Rightarrow> db \<Rightarrow> queriers" where
  "advance_queriers env r d =
     \<lparr>rt = Some (tx_runtrack d),
      vq = (if aeVerdicts env then Some (tx_verdict d) else None),
      pq = (if aePortfolio env then Some (tx_portfolio d) else None),
      dq = (if aeDeps env then Some (tx_dep d) else None),
      bq = (case rTokenBudget r of
              Some budget \<Rightarrow> if aeBudget env \<and> budget > 0 then Some (tx_budget d budget) else None
            | None \<Rightarrow> None)\<rparr>"

definition advance_reason :: "'e advance_env \<Rightarrow> gate_config \<Rightarrow> gate_condition list option \<Rightarrow> string" where
  "advance_reason env cfg evidence =
     (let reason = (case evidence of Some conds \<Rightarrow> aeRender env conds | None \<Rightarrow> []) in
      if SkipReason cfg = [] then reason
      else if reason = [] then SkipReason cfg
      else SkipReason cfg @ '' | '' @ reason)"

definition calls :: "'e advance_env \<Rightarrow> callback_call \<Rightarrow> callback_call list" where
  "calls env c = (if aeCallback env then [c] else [])"

definition advance_pause ::
    "'e advance_env \<Rightarrow> run \<Rightarrow> string \<Rightarrow> db \<Rightarrow> phase_error + advance_result \<times> db \<times> callback_call list" where
  "advance_pause env r to d =
     sum_bind (AddEventQ (aeNow env) (phase_event_of (rID r) (rPhase r) to EventPause
                 (Some GateNone) (Some TierNone) (Some ''auto_advance disabled'')) d) (\<lambda>d1.
       Inr (\<lparr>arFromPhase = rPhase r, arToPhase = to, arEventType = EventPause,
             arGateResult = GateNone, arGateTier = TierNone,
             arReason = ''auto_advance disabled'', arAdvanced = False\<rparr>, d1,
            calls env (rID r, EventPause, rPhase r, to, ''auto_advance disabled'')))"

definition advance_block ::
    "'e advance_env \<Rightarrow> run \<Rightarrow> string \<Rightarrow> gate_outcome \<Rightarrow> string \<Rightarrow> db
      \<Rightarrow> phase_error + advance_result \<times> db \<times> callback_call list" where
  "advance_block env r to g reason d =
     (let blockReason = (if reason = [] then ''gate blocked advance'' else reason) in
      sum_bind (AddEventQ (aeNow env) (phase_event_of (rID r) (rPhase r) to EventBlock
                  (Some (goResult g)) (Some (goTier g)) (Some blockReason)) d) (\<lambda>d1.
        Inr (\<lparr>arFromPhase = rPhase r, arToPhase = to, arEventType = EventBlock,
              arGateResult = goResult g, arGateTier = goTier g,
              arReason = blockReason, arAdvanced = False\<rparr>, d1,
             calls env (rID r, EventBlock, rPhase r, to, blockReason))))"

definition advance_move ::
    "'e advance_env \<Rightarrow> run \<Rightarrow> string \<Rightarrow> gate_outcome \<Rightarrow> string \<Rightarrow> db
      \<Rightarrow> phase_error + advance_result \<times> db \<times> callback_call list" where
  "advance_move env r to g reason d =
     sum_bind (UpdatePhaseQ (aeNow env) (rID r) (rPhase r) to d) (\<lambda>d1.
       sum_bind (AddEventQ (aeNow env) (phase_event_of (rID r) (rPhase r) to EventAdvance
                   (Some (goResult g)) (Some (goTier g)) (strPtrOrNil reason)) d1) (\<lambda>d2.
         sum_bind (if ChainIsTerminal (ResolveChain r) to
                   then UpdateStatusQ (aeNow env) (rID r) StatusCompleted d2 else Inr d2) (\<lambda>d3.
           Inr (\<lparr>arFromPhase = rPhase r, arToPhase = to, arEventType = EventAdvance,
                 arGateResult = goResult g, arGateTier = goTier g,
                 arReason = reason, arAdvanced = True\<rparr>, d3,
                calls env (rID r, EventAdvance, rPhase r, to, reason)))))"

definition map_gate_error :: "gate_error + 'a \<Rightarrow> phase_error + 'a" where
  "map_gate_error x = (case x of Inl e \<Rightarrow> Inl (ErrGate e) | Inr v \<Rightarrow> Inr v)"

definition advance_to ::
    "'e advance_env \<Rightarrow> gate_config \<Rightarrow> run \<Rightarrow> string \<Rightarrow> db
      \<Rightarrow> phase_error + advance_result \<times> db \<times> callback_call list" where
  "advance_to env cfg r to d =
     (if \<not> rAutoAdvance r \<and> SkipReason cfg = [] then advance_pause env r to d
      else
        sum_bind (map_gate_error (evaluateGate (aeDecode env) (aeVerify env) r cfg (rPhase r) to
                                    (advance_queriers env r d))) (\<lambda>g.
          let reason = advance_reason env cfg (goEvidence g) in
          if goResult g = GateFail \<and> goTier g = TierHard then advance_block env r to g reason d
          else advance_move env r to g reason d))"

definition Advance ::
    "'e advance_env \<Rightarrow> gate_config \<Rightarrow> string \<Rightarrow> db
      \<Rightarrow> (phase_error + advance_result \<times> db \<times> callback_call list) option" where
  "Advance env cfg runID d =
     (case GetQ d runID of
        Inl e \<Rightarrow> Some (Inl e)
      | Inr r \<Rightarrow>
          if IsTerminalStatus (rStatus r) then Some (Inl ErrTerminalRun)
          else if ChainIsTerminal (ResolveChain r) (rPhase r) then Some (Inl ErrTerminalPhase)
          else case ChainNextPhase (ResolveChain r) (rPhase r) of
            Inl e \<Rightarrow> Some (Inl (ErrChain e))
          | Inr nxt \<Rightarrow>
              (case skip_walk (ResolveChain r) (SkippedPhasesQ d runID) nxt of
                 None \<Rightarrow> None
               | Some (Inl e) \<Rightarrow> Some (Inl (ErrChain e))
               | Some (Inr to) \<Rightarrow> Some (advance_to env cfg r to d)))"

section \<open>Rollback\<close>

record rollback_result =
  rrFromPhase :: string
  rrToPhase :: string
  rrRolledBackPhases :: "string list"
  rrReason :: string

definition Rollback ::
    "int \<Rightarrow> bool \<Rightarrow> string \<Rightarrow> string \<Rightarrow> string \<Rightarrow> db
      \<Rightarrow> phase_error + rollback_result \<times> db \<times> callback_call list" where
  "Rollback now callback runID targetPhase reason d =
     sum_bind (GetQ d runID) (\<lambda>r.
       let fromPhase = rPhase r in
       case ChainPhasesBetween (ResolveChain r) targetPhase fromPhase of
         None \<Rightarrow> Inl ErrInvalidRollback
       | Some rolledBack \<Rightarrow>
           sum_bind (RollbackPhaseQ now runID fromPhase targetPhase d) (\<lambda>d1.
             sum_bind (AddEventQ now (phase_event_of runID fromPhase targetPhase EventRollback
                         None None (strPtrOrNil reason)) d1) (\<lambda>d2.
               Inr (\<lparr>rrFromPhase = fromPhase, rrToPhase = targetPhase,
                     rrRolledBackPhases = rolledBack, rrReason = reason\<rparr>, d2,
                    if callback then [(runID, EventRollback, fromPhase, targetPhase, reason)] else []))))"

section \<open>The dry run\<close>

record gate_check_result =
  gcRunID :: string
  gcFromPhase :: string
  gcToPhase :: string
  gcOutcome :: gate_outcome

definition EvaluateGate ::
    "(json \<Rightarrow> 'e option) \<Rightarrow> ('e runtime_config \<Rightarrow> run \<Rightarrow> artifact \<Rightarrow> string option)
      \<Rightarrow> gate_config \<Rightarrow> queriers \<Rightarrow> string \<Rightarrow> db \<Rightarrow> phase_error + gate_check_result" where
  "EvaluateGate decode verify cfg q runID d =
     sum_bind (Get d runID) (\<lambda>r.
       if IsTerminalStatus (rStatus r) then Inl ErrTerminalRun
       else if ChainIsTerminal (ResolveChain r) (rPhase r) then Inl ErrTerminalPhase
       else case ChainNextPhase (ResolveChain r) (rPhase r) of
         Inl e \<Rightarrow> Inl (ErrChain e)
       | Inr toPhase \<Rightarrow>
           sum_bind (map_gate_error (evaluateGate decode verify r cfg (rPhase r) toPhase q)) (\<lambda>g.
             Inr \<lparr>gcRunID = runID, gcFromPhase = rPhase r, gcToPhase = toPhase, gcOutcome = g\<rparr>))"

section \<open>The skip walk\<close>

text \<open>
  On a chain without repetitions the walk ends, at the first phase from \<open>to\<close> on
  that is not skipped, or at the end of the chain.
\<close>

lemma skip_walk_nth:
  assumes "distinct chain" "k < length chain"
  shows "\<exists>j. k \<le> j \<and> j < length chain \<and> skip_walk chain skipped (chain ! k) = Some (Inr (chain ! j))
    \<and> (\<forall>i. k \<le> i \<and> i < j \<longrightarrow> chain ! i \<in> skipped)
    \<and> (chain ! j \<notin> skipped \<or> Suc j = length chain)"
  using assms(2)
proof (induction "length chain - k" arbitrary: k)
  case 0
  then show ?case by simp
next
  case (Suc n)
  have terminal: "ChainIsTerminal chain (chain ! k) \<longleftrightarrow> Suc k = length chain"
    using Suc.prems assms(1) by (auto simp: ChainIsTerminal_def nth_eq_iff_index_eq)
  show ?case
  proof (cases "chain ! k \<in> skipped \<and> Suc k < length chain")
    case True
    have "n = length chain - Suc k" using Suc.hyps(2) by simp
    from Suc.hyps(1) [OF this] True obtain j where j: "Suc k \<le> j" "j < length chain"
      "skip_walk chain skipped (chain ! Suc k) = Some (Inr (chain ! j))"
      "\<forall>i. Suc k \<le> i \<and> i < j \<longrightarrow> chain ! i \<in> skipped" "chain ! j \<notin> skipped \<or> Suc j = length chain"
      by auto
    have "skip_walk chain skipped (chain ! k) = Some (Inr (chain ! j))"
      using True j(3) terminal assms(1) by (subst skip_walk.simps) (simp add: ChainNextPhase_nth)
    moreover have "\<forall>i. k \<le> i \<and> i < j \<longrightarrow> chain ! i \<in> skipped"
      using j(4) True by (metis Suc_leI le_neq_implies_less)
    ultimately show ?thesis using j by (intro exI [of _ j]) auto
  next
    case False
    then have "skip_walk chain skipped (chain ! k) = Some (Inr (chain ! k))"
      using terminal Suc.prems by (subst skip_walk.simps) auto
    with False Suc.prems show ?thesis by (intro exI [of _ k]) auto
  qed
qed

lemma skip_walk_next:
  assumes "distinct chain" "ChainNextPhase chain from = Inr nxt"
  shows "\<exists>to. skip_walk chain skipped nxt = Some (Inr to) \<and> to \<in> set chain
    \<and> ChainPhaseIndex chain from < ChainPhaseIndex chain to
    \<and> (\<forall>p \<in> set chain. ChainPhaseIndex chain from < ChainPhaseIndex chain p
         \<and> ChainPhaseIndex chain p < ChainPhaseIndex chain to \<longrightarrow> p \<in> skipped)
    \<and> (to \<notin> skipped \<or> ChainIsTerminal chain to)"
proof -
  from ChainNextPhase_Inr [OF assms] obtain k where
    k: "Suc k < length chain" "from = chain ! k" "nxt = chain ! Suc k" by blast
  from skip_walk_nth [OF assms(1) k(1), of skipped] k(3) obtain j where j: "Suc k \<le> j" "j < length chain"
    "skip_walk chain skipped nxt = Some (Inr (chain ! j))"
    "\<forall>i. Suc k \<le> i \<and> i < j \<longrightarrow> chain ! i \<in> skipped" "chain ! j \<notin> skipped \<or> Suc j = length chain"
    by auto
  have "p \<in> skipped" if p: "p \<in> set chain" "ChainPhaseIndex chain from < ChainPhaseIndex chain p"
    "ChainPhaseIndex chain p < ChainPhaseIndex chain (chain ! j)" for p
  proof -
    from p(1) obtain i where "i < length chain" "p = chain ! i" by (metis in_set_conv_nth)
    with p j k assms(1) show ?thesis by (simp add: ChainPhaseIndex_nth)
  qed
  moreover have "Suc j = length chain \<Longrightarrow> ChainIsTerminal chain (chain ! j)"
    by (metis ChainIsTerminal_def diff_Suc_1 zero_less_Suc)
  ultimately show ?thesis
    using j k assms(1) by (intro exI [of _ "chain ! j"]) (auto simp: ChainPhaseIndex_nth)
qed

section \<open>What an advance does\<close>

lemma advance_pause_Inr:
  assumes "advance_pause env r to d = Inr (res, d', cs)"
  shows "\<not> arAdvanced res" "runs d' = runs d"
    "\<exists>e. phase_events d' = phase_events d @ [e] \<and> eRunID e = rID r \<and> eEventType e = EventPause"
  using assms by (auto simp: advance_pause_def sum_bind_Inr_iff dest: AddEventQ_Inr)

lemma advance_block_Inr:
  assumes "advance_block env r to g reason d = Inr (res, d', cs)"
  shows "\<not> arAdvanced res" "runs d' = runs d"
    "\<exists>e. phase_events d' = phase_events d @ [e] \<and> eRunID e = rID r \<and> eEventType e = EventBlock"
  using assms by (auto simp: advance_block_def Let_def sum_bind_Inr_iff dest: AddEventQ_Inr)

text \<open>The run an advance leaves behind.\<close>

definition advanced_run :: "int \<Rightarrow> string \<Rightarrow> run \<Rightarrow> run" where
  "advanced_run now to r =
     (let r1 = change_run (SetPhase to now) r in
      if ChainIsTerminal (ResolveChain r) to
      then change_run (SetStatus StatusCompleted now (Some now)) r1 else r1)"

lemma ids_member: "GetQ d rid = Inr r \<Longrightarrow> rid \<in> rID ` set (runs d)"
  by (auto dest!: GetQ_Inr)

lemma UpdatePhaseQ_eq:
  assumes "keyed d" "GetQ d rid = Inr r"
  shows "UpdatePhaseQ now rid (rPhase r) to d
       = Inr (touch_goal now rid (exec_runs (\<lambda>r'. rID r' = rid \<and> rPhase r' = rPhase r) (SetPhase to now) d))"
  using assms affected_GetQ [of d rid "\<lambda>r'. rPhase r' = rPhase r"]
  by (simp add: UpdatePhaseQ_def Let_def)

lemma UpdateStatusQ_eq:
  assumes "keyed d" "GetQ d rid = Inr r"
  shows "UpdateStatusQ now rid StatusCompleted d
       = Inr (exec_runs (\<lambda>r'. rID r' = rid \<and> True) (SetStatus StatusCompleted now (Some now)) d)"
  using assms affected_GetQ [of d rid "\<lambda>_. True"]
  by (simp add: UpdateStatusQ_def update_by_id_def)

lemma move_tx_eq:
  assumes "keyed d" "GetQ d (rID r) = Inr r" "eRunID ev = rID r"
  shows "\<exists>d' e. sum_bind (UpdatePhaseQ now (rID r) (rPhase r) to d) (\<lambda>d1. sum_bind (AddEventQ now ev d1) (\<lambda>d2.
      if ChainIsTerminal (ResolveChain r) to then UpdateStatusQ now (rID r) StatusCompleted d2 else Inr d2)) = Inr d'
    \<and> keyed d' \<and> GetQ d' (rID r) = Inr (advanced_run now to r)
    \<and> (\<forall>rid. rid \<noteq> rID r \<longrightarrow> GetQ d' rid = GetQ d rid)
    \<and> rID ` set (runs d') = rID ` set (runs d)
    \<and> phase_events d' = phase_events d @ [e] \<and> eRunID e = rID r
    \<and> eEventType e = eEventType ev \<and> eFromPhase e = eFromPhase ev \<and> eToPhase e = eToPhase ev"
proof -
  let ?rid = "rID r"
  let ?d1 = "touch_goal now ?rid (exec_runs (\<lambda>r'. rID r' = ?rid \<and> rPhase r' = rPhase r) (SetPhase to now) d)"
  note up = UpdatePhaseQ_eq [OF assms(1,2), of now to]
  have keyed1: "keyed ?d1" using assms(1) by simp
  have get1: "GetQ ?d1 ?rid = Inr (change_run (SetPhase to now) r)"
    using assms GetQ_exec_runs_same [OF assms(1), of ?rid "\<lambda>r'. rPhase r' = rPhase r" "SetPhase to now"] by simp
  have other1: "GetQ ?d1 rid = GetQ d rid" if "rid \<noteq> ?rid" for rid
    using that GetQ_exec_runs_other [of ?rid rid "\<lambda>r'. rPhase r' = rPhase r" "SetPhase to now" d] by simp
  have ids1: "rID ` set (runs ?d1) = rID ` set (runs d)" by simp
  obtain d2 where d2: "AddEventQ now ev ?d1 = Inr d2"
    using AddEventQ_total [of ev ?d1] ids_member [OF get1] assms(3) by auto
  note add = AddEventQ_Inr [OF d2]
  have keyed2: "keyed d2" using keyed1 add(1) by (simp add: keyed_def)
  have get2: "GetQ d2 rid = GetQ ?d1 rid" for rid by (rule GetQ_cong) (rule add(1))
  let ?e = "ev\<lparr>eID := event_seq ?d1 + 1, eCreatedAt := now\<rparr>"
  have events: "phase_events d2 = phase_events d @ [?e]" using add(4) by simp
  show ?thesis
  proof (cases "ChainIsTerminal (ResolveChain r) to")
    case False
    with up d2 keyed2 get2 get1 other1 events ids1 add(1) assms(3) show ?thesis
      by (auto simp: advanced_run_def intro!: exI [of _ ?e])
  next
    case True
    let ?d3 = "exec_runs (\<lambda>r'. rID r' = ?rid \<and> True) (SetStatus StatusCompleted now (Some now)) d2"
    have get2': "GetQ d2 ?rid = Inr (change_run (SetPhase to now) r)" using get2 get1 by simp
    have "UpdateStatusQ now ?rid StatusCompleted d2 = Inr ?d3" by (rule UpdateStatusQ_eq [OF keyed2 get2'])
    moreover have "GetQ ?d3 ?rid = Inr (advanced_run now to r)"
      using True GetQ_exec_runs_same [OF keyed2, of ?rid "\<lambda>_. True"] get2'
      by (simp add: advanced_run_def)
    moreover have "\<forall>rid. rid \<noteq> ?rid \<longrightarrow> GetQ ?d3 rid = GetQ d rid"
      using GetQ_exec_runs_other [of ?rid _ "\<lambda>_. True" _ d2] get2 other1 by simp
    moreover have "rID ` set (runs ?d3) = rID ` set (runs d)"
      using ids1 add(1) by simp
    ultimately show ?thesis using True up d2 keyed2 events assms(3) by (auto intro!: exI [of _ ?e])
  qed
qed

lemma advance_move_eq:
  assumes "keyed d" "GetQ d (rID r) = Inr r"
  shows "\<exists>res d' cs e. advance_move env r to g reason d = Inr (res, d', cs)
    \<and> arAdvanced res \<and> arFromPhase res = rPhase r \<and> arToPhase res = to
    \<and> arGateResult res = goResult g \<and> arGateTier res = goTier g
    \<and> keyed d' \<and> GetQ d' (rID r) = Inr (advanced_run (aeNow env) to r)
    \<and> (\<forall>rid. rid \<noteq> rID r \<longrightarrow> GetQ d' rid = GetQ d rid)
    \<and> rID ` set (runs d') = rID ` set (runs d)
    \<and> phase_events d' = phase_events d @ [e] \<and> eRunID e = rID r
    \<and> eEventType e = EventAdvance \<and> eFromPhase e = rPhase r \<and> eToPhase e = to"
proof -
  let ?ev = "phase_event_of (rID r) (rPhase r) to EventAdvance (Some (goResult g)) (Some (goTier g)) (strPtrOrNil reason)"
  let ?tx = "sum_bind (UpdatePhaseQ (aeNow env) (rID r) (rPhase r) to d) (\<lambda>d1. sum_bind (AddEventQ (aeNow env) ?ev d1) (\<lambda>d2.
      if ChainIsTerminal (ResolveChain r) to then UpdateStatusQ (aeNow env) (rID r) StatusCompleted d2 else Inr d2))"
  let ?res = "\<lparr>arFromPhase = rPhase r, arToPhase = to, arEventType = EventAdvance, arGateResult = goResult g,
      arGateTier = goTier g, arReason = reason, arAdvanced = True\<rparr>"
  have "advance_move env r to g reason d
      = sum_bind ?tx (\<lambda>d3. Inr (?res, d3, calls env (rID r, EventAdvance, rPhase r, to, reason)))"
    by (simp add: advance_move_def sum_bind_def split: sum.splits)
  with move_tx_eq [OF assms, of ?ev "aeNow env" to] show ?thesis by auto
qed

end
