(* ===== verification/GateOverride.thy ===== *)
theory GateOverride
  imports Machine
begin

text \<open>
  The manual override of a blocked gate, \<^verbatim>\<open>ic gate override\<close> (\<^verbatim>\<open>cmd/ic/gate.go\<close>): one
  transaction that moves a run to the next phase of its chain without evaluating its gate, except
  over a terminal gate that requires runtime evidence. It is the only writer of phases besides
  \<^verbatim>\<open>Advance\<close> and \<^verbatim>\<open>Rollback\<close>.
\<close>

text \<open>The field \<^verbatim>\<open>Required\<close> of the configuration, which is also set beside a decoding error.\<close>

definition evidence_required :: "run \<Rightarrow> bool" where
  "evidence_required r \<longleftrightarrow>
     (case rMetadata r of
        Some (Some obj) \<Rightarrow>
          (case close_gate_of obj of
             Some gate \<Rightarrow>
               (case requirementSet gate of Inr reqs \<Rightarrow> runtimeEvidenceRequirement \<in> reqs | Inl _ \<Rightarrow> False)
           | None \<Rightarrow> False)
      | _ \<Rightarrow> False)"

definition override_block ::
    "int \<Rightarrow> (string \<Rightarrow> string \<Rightarrow> string \<Rightarrow> string) \<Rightarrow> bool \<Rightarrow> run \<Rightarrow> string \<Rightarrow> db \<Rightarrow> phase_error + db" where
  "override_block now render invalid r to d =
     (let detail = (if invalid then ''runtime evidence metadata is invalid''
                    else ''runtime evidence terminal gate cannot be overridden'');
          evidence = render CheckRuntimeEvidence GateFail detail
      in AddEventQ now (phase_event_of (rID r) (rPhase r) to EventBlock (Some GateFail) (Some TierHard) (Some evidence)) d)"

definition override_move :: "int \<Rightarrow> string \<Rightarrow> run \<Rightarrow> string \<Rightarrow> db \<Rightarrow> phase_error + db" where
  "override_move now reasonJSON r to d =
     sum_bind (UpdatePhaseQ now (rID r) (rPhase r) to d) (\<lambda>d1.
     sum_bind (AddEventQ now (phase_event_of (rID r) (rPhase r) to EventOverride
                 (Some GateFail) (Some TierHard) (Some reasonJSON)) d1) (\<lambda>d2.
     if ChainIsTerminal (ResolveChain r) to then UpdateStatusQ now (rID r) StatusCompleted d2 else Inr d2))"

text \<open>\<open>render\<close> is the JSON text of one gate condition. The exit code and the database; an error leaves the transaction's database as it was.\<close>

definition cmdGateOverride ::
    "(json \<Rightarrow> 'e option) \<Rightarrow> int \<Rightarrow> (string \<Rightarrow> string \<Rightarrow> string \<Rightarrow> string) \<Rightarrow> string \<Rightarrow> string \<Rightarrow> db \<Rightarrow> nat \<times> db" where
  "cmdGateOverride decode now render reasonJSON runID d =
     (case GetQ d runID of
        Inl ErrNotFound \<Rightarrow> (1, d)
      | Inl _ \<Rightarrow> (2, d)
      | Inr r \<Rightarrow>
          if IsTerminalStatus (rStatus r) then (1, d)
          else if ChainIsTerminal (ResolveChain r) (rPhase r) then (1, d)
          else case ChainNextPhase (ResolveChain r) (rPhase r) of
            Inl _ \<Rightarrow> (2, d)
          | Inr to \<Rightarrow>
              let invalid = (case RuntimeEvidenceForRun decode r of Inl _ \<Rightarrow> True | Inr _ \<Rightarrow> False)
              in if evidence_required r \<and> ChainIsTerminal (ResolveChain r) to then
                   (case override_block now render invalid r to d of Inl _ \<Rightarrow> (2, d) | Inr d' \<Rightarrow> (1, d'))
                 else if invalid then (2, d)
                 else (case override_move now reasonJSON r to d of Inl _ \<Rightarrow> (2, d) | Inr d' \<Rightarrow> (0, d')))"

definition overrideReason :: "(string \<Rightarrow> string) \<Rightarrow> string \<Rightarrow> bool \<Rightarrow> bool \<Rightarrow> string" where
  "overrideReason quoted reason justified expedient =
     (let category = (if justified then ''justified'' else if expedient then ''expedient'' else ''uncategorized'')
      in ''{'' @ quoted ''override_category'' @ '':'' @ quoted category @ '','' @ quoted ''reason'' @ '':''
         @ quoted reason @ ''}'')"

lemma cmdGateOverride_cases:
  assumes "cmdGateOverride decode now render reasonJSON runID d = (code, d')"
  obtains (same) "d' = d" "code \<noteq> 0"
  | (block) r to ev where "GetQ d runID = Inr r" "evidence_required r" "code = 1"
      "AddEventQ now (phase_event_of (rID r) (rPhase r) to EventBlock (Some GateFail) (Some TierHard) ev) d = Inr d'"
  | (move) r to where "GetQ d runID = Inr r" "code = 0" "\<not> IsTerminalStatus (rStatus r)"
      "\<not> ChainIsTerminal (ResolveChain r) (rPhase r)" "ChainNextPhase (ResolveChain r) (rPhase r) = Inr to"
      "\<not> (evidence_required r \<and> ChainIsTerminal (ResolveChain r) to)" "override_move now reasonJSON r to d = Inr d'"
  using assms
  by (auto simp: cmdGateOverride_def override_block_def Let_def split: sum.splits phase_error.splits if_splits)

lemma required_evidence: "RuntimeEvidenceForRun decode r = Inr c \<Longrightarrow> rcRequired c \<longleftrightarrow> evidence_required r"
  by (auto simp: RuntimeEvidenceForRun_def runtime_evidence_of_def evidence_required_def no_runtime_config_def
      sum_bind_Inr_iff Let_def split: option.splits sum.splits if_splits json.splits)

lemma override_move_effect:
  assumes "keyed d" "GetQ d rid = Inr r" "override_move now reasonJSON r to d = Inr d'"
  obtains e where "keyed d'" "GetQ d' rid = Inr (advanced_run now to r)"
    "\<And>rid'. rid' \<noteq> rid \<Longrightarrow> GetQ d' rid' = GetQ d rid'"
    "rID ` set (runs d') = rID ` set (runs d)" "phase_events d' = phase_events d @ [e]"
    "eRunID e = rid" "eEventType e = EventOverride" "eToPhase e = to"
proof -
  have rid: "rID r = rid" using assms(2) by (auto dest: GetQ_Inr)
  let ?ev = "phase_event_of (rID r) (rPhase r) to EventOverride (Some GateFail) (Some TierHard) (Some reasonJSON)"
  obtain d2 e where "override_move now reasonJSON r to d = Inr d2" "keyed d2"
    "GetQ d2 (rID r) = Inr (advanced_run now to r)" "\<forall>rid. rid \<noteq> rID r \<longrightarrow> GetQ d2 rid = GetQ d rid"
    "rID ` set (runs d2) = rID ` set (runs d)" "phase_events d2 = phase_events d @ [e]" "eRunID e = rID r"
    "eEventType e = EventOverride" "eToPhase e = to"
    using move_tx_eq [OF assms(1), of r ?ev now to] assms(2) unfolding override_move_def rid [symmetric] by auto
  then show ?thesis using that [of e] assms(3) rid by simp
qed

end
