(* ===== verification/RunSafety.thy ===== *)
theory RunSafety
  imports GateOverride
begin

text \<open>
  What the run state machine guarantees: the behaviour of \<^verbatim>\<open>Advance\<close> and
  \<^verbatim>\<open>Rollback\<close> on every outcome, and the invariants of every sequence of store
  operations, as a step relation on the database with rule induction.
\<close>

section \<open>Case analysis\<close>

lemma Advance_InrE:
  assumes "Advance env cfg rid d = Some (Inr (res, d', cs))"
  obtains r nxt to where "GetQ d rid = Inr r" "\<not> IsTerminalStatus (rStatus r)"
    "\<not> ChainIsTerminal (ResolveChain r) (rPhase r)"
    "ChainNextPhase (ResolveChain r) (rPhase r) = Inr nxt"
    "skip_walk (ResolveChain r) (SkippedPhasesQ d rid) nxt = Some (Inr to)"
    "advance_to env cfg r to d = Inr (res, d', cs)"
  using assms by (auto simp: Advance_def split: sum.splits if_splits option.splits)

lemma advance_to_InrE:
  assumes "advance_to env cfg r to d = Inr (res, d', cs)"
  obtains (pause) "\<not> rAutoAdvance r" "SkipReason cfg = []" "advance_pause env r to d = Inr (res, d', cs)"
  | (block) g reason where
      "evaluateGate (aeDecode env) (aeVerify env) r cfg (rPhase r) to (advance_queriers env r d) = Inr g"
      "goResult g = GateFail" "goTier g = TierHard" "advance_block env r to g reason d = Inr (res, d', cs)"
  | (move) g reason where
      "evaluateGate (aeDecode env) (aeVerify env) r cfg (rPhase r) to (advance_queriers env r d) = Inr g"
      "\<not> (goResult g = GateFail \<and> goTier g = TierHard)"
      "advance_move env r to g reason d = Inr (res, d', cs)"
  using assms
  by (auto simp: advance_to_def Let_def sum_bind_Inr_iff map_gate_error_def split: if_splits sum.splits)

lemma GetQ_id: "GetQ d rid = Inr r \<Longrightarrow> rID r = rid"
  by (auto dest: GetQ_Inr)

lemma advanced_run_simps [simp]:
  "rID (advanced_run now to r) = rID r" "rPhase (advanced_run now to r) = to"
  "rPhases (advanced_run now to r) = rPhases r" "rMetadata (advanced_run now to r) = rMetadata r"
  "ResolveChain (advanced_run now to r) = ResolveChain r"
  by (simp_all add: advanced_run_def Let_def ResolveChain_def)

lemma advanced_run_status:
  "rStatus (advanced_run now to r) = (if ChainIsTerminal (ResolveChain r) to then StatusCompleted else rStatus r)"
  "rCompletedAt (advanced_run now to r) = (if ChainIsTerminal (ResolveChain r) to then Some now else rCompletedAt r)"
  by (simp_all add: advanced_run_def Let_def)

text \<open>An advance changes one run, by \<open>advanced_run\<close>, or none.\<close>

lemma Advance_effect:
  assumes "Advance env cfg rid d = Some (Inr (res, d', cs))" "keyed d"
  obtains (stay) r e where "GetQ d rid = Inr r" "\<not> arAdvanced res" "runs d' = runs d"
      "phase_events d' = phase_events d @ [e]" "eRunID e = rid"
      "eEventType e = EventPause \<or> eEventType e = EventBlock"
  | (move) r nxt to g e where "GetQ d rid = Inr r" "\<not> IsTerminalStatus (rStatus r)"
      "\<not> ChainIsTerminal (ResolveChain r) (rPhase r)"
      "ChainNextPhase (ResolveChain r) (rPhase r) = Inr nxt"
      "skip_walk (ResolveChain r) (SkippedPhasesQ d rid) nxt = Some (Inr to)"
      "arAdvanced res" "arFromPhase res = rPhase r" "arToPhase res = to"
      "evaluateGate (aeDecode env) (aeVerify env) r cfg (rPhase r) to (advance_queriers env r d) = Inr g"
      "\<not> (goResult g = GateFail \<and> goTier g = TierHard)"
      "keyed d'" "GetQ d' rid = Inr (advanced_run (aeNow env) to r)"
      "\<And>rid'. rid' \<noteq> rid \<Longrightarrow> GetQ d' rid' = GetQ d rid'"
      "rID ` set (runs d') = rID ` set (runs d)"
      "phase_events d' = phase_events d @ [e]" "eRunID e = rid" "eEventType e = EventAdvance"
      "eFromPhase e = rPhase r" "eToPhase e = to"
  using assms(1)
proof (cases rule: Advance_InrE)
  case (1 r nxt to)
  have rid: "rID r = rid" by (rule GetQ_id [OF 1(1)])
  show ?thesis
    using 1(6)
  proof (cases rule: advance_to_InrE)
    case pause
    from advance_pause_Inr [OF pause(3)] stay [OF 1(1)] rid show ?thesis by blast
  next
    case (block g reason)
    from advance_block_Inr [OF block(4)] stay [OF 1(1)] rid show ?thesis by blast
  next
    case b: (move g reason)
    from advance_move_eq [OF assms(2), of r env to g reason] 1(1) rid b(3) obtain e where
      "arAdvanced res" "arFromPhase res = rPhase r" "arToPhase res = to" "keyed d'"
      "GetQ d' rid = Inr (advanced_run (aeNow env) to r)"
      "\<forall>rid'. rid' \<noteq> rid \<longrightarrow> GetQ d' rid' = GetQ d rid'"
      "rID ` set (runs d') = rID ` set (runs d)"
      "phase_events d' = phase_events d @ [e]" "eRunID e = rid" "eEventType e = EventAdvance"
      "eFromPhase e = rPhase r" "eToPhase e = to"
      by auto
    with move [OF 1(1-5)] b(1,2) show ?thesis by blast
  qed
qed

section \<open>Rollback\<close>

definition rewound_run :: "int \<Rightarrow> string \<Rightarrow> run \<Rightarrow> run" where
  "rewound_run now target r = change_run (Rewind target now) r"

lemma rewound_run_simps [simp]:
  "rID (rewound_run now p r) = rID r" "rPhase (rewound_run now p r) = p"
  "rPhases (rewound_run now p r) = rPhases r" "rMetadata (rewound_run now p r) = rMetadata r"
  "rStatus (rewound_run now p r) = StatusActive" "rCompletedAt (rewound_run now p r) = None"
  "ResolveChain (rewound_run now p r) = ResolveChain r"
  by (simp_all add: rewound_run_def ResolveChain_def)

lemma RollbackPhaseQ_eq:
  assumes "keyed d" "GetQ d rid = Inr r"
  shows "RollbackPhaseQ now rid (rPhase r) target d
       = (if rStatus r = StatusCancelled \<or> rStatus r = StatusFailed then Inl ErrTerminalRun
          else Inr (exec_runs (\<lambda>r'. rID r' = rid \<and> (rPhase r' = rPhase r
                 \<and> rStatus r' \<noteq> StatusCancelled \<and> rStatus r' \<noteq> StatusFailed)) (Rewind target now) d))"
  using assms affected_GetQ [of d rid "\<lambda>r'. rPhase r' = rPhase r
                 \<and> rStatus r' \<noteq> StatusCancelled \<and> rStatus r' \<noteq> StatusFailed"]
  by (auto simp: RollbackPhaseQ_def Let_def)

lemma Rollback_effect:
  assumes "keyed d" "GetQ d rid = Inr r"
    and "ChainPhasesBetween (ResolveChain r) target (rPhase r) = Some ps"
    and "rStatus r \<noteq> StatusCancelled" "rStatus r \<noteq> StatusFailed"
  shows "\<exists>d' cs e. Rollback now cb rid target reason d
      = Inr (\<lparr>rrFromPhase = rPhase r, rrToPhase = target, rrRolledBackPhases = ps, rrReason = reason\<rparr>, d', cs)
    \<and> keyed d' \<and> GetQ d' rid = Inr (rewound_run now target r)
    \<and> (\<forall>rid'. rid' \<noteq> rid \<longrightarrow> GetQ d' rid' = GetQ d rid')
    \<and> rID ` set (runs d') = rID ` set (runs d)
    \<and> phase_events d' = phase_events d @ [e] \<and> eRunID e = rid
    \<and> eEventType e = EventRollback \<and> eToPhase e = target"
proof -
  let ?Q = "\<lambda>r'. rPhase r' = rPhase r \<and> rStatus r' \<noteq> StatusCancelled \<and> rStatus r' \<noteq> StatusFailed"
  let ?d1 = "exec_runs (\<lambda>r'. rID r' = rid \<and> ?Q r') (Rewind target now) d"
  let ?ev = "phase_event_of rid (rPhase r) target EventRollback None None (strPtrOrNil reason)"
  have up: "RollbackPhaseQ now rid (rPhase r) target d = Inr ?d1"
    using RollbackPhaseQ_eq [OF assms(1,2)] assms(4,5) by simp
  have get1: "GetQ ?d1 rid = Inr (rewound_run now target r)"
    using GetQ_exec_runs_same [OF assms(1), of rid ?Q] assms by (simp add: rewound_run_def)
  obtain d2 where d2: "AddEventQ now ?ev ?d1 = Inr d2"
    using AddEventQ_total [of ?ev ?d1] ids_member [OF get1] by auto
  note add = AddEventQ_Inr [OF d2]
  have get2: "GetQ d2 rid' = GetQ ?d1 rid'" for rid' by (rule GetQ_cong) (rule add(1))
  have "Rollback now cb rid target reason d
      = Inr (\<lparr>rrFromPhase = rPhase r, rrToPhase = target, rrRolledBackPhases = ps, rrReason = reason\<rparr>, d2,
             if cb then [(rid, EventRollback, rPhase r, target, reason)] else [])"
    using assms(2,3) up d2 by (simp add: Rollback_def Let_def)
  moreover have "keyed d2" using add(1) assms(1) by (simp add: keyed_def run_table.keys_update)
  moreover have "\<forall>rid'. rid' \<noteq> rid \<longrightarrow> GetQ d2 rid' = GetQ d rid'"
    using get2 GetQ_exec_runs_other [of rid _ ?Q "Rewind target now" d] by simp
  moreover have "rID ` set (runs d2) = rID ` set (runs d)" using add(1) by simp
  ultimately show ?thesis using get1 get2 add(4) by auto
qed

lemma Rollback_InrE:
  assumes "Rollback now cb rid target reason d = Inr (res, d', cs)" "keyed d"
  obtains r ps e where "GetQ d rid = Inr r"
    "ChainPhasesBetween (ResolveChain r) target (rPhase r) = Some ps"
    "rStatus r \<noteq> StatusCancelled" "rStatus r \<noteq> StatusFailed"
    "keyed d'" "GetQ d' rid = Inr (rewound_run now target r)"
    "\<And>rid'. rid' \<noteq> rid \<Longrightarrow> GetQ d' rid' = GetQ d rid'"
    "rID ` set (runs d') = rID ` set (runs d)"
    "phase_events d' = phase_events d @ [e]" "eRunID e = rid"
    "eEventType e = EventRollback" "eToPhase e = target"
proof -
  from assms(1) obtain r ps where r: "GetQ d rid = Inr r"
    and ps: "ChainPhasesBetween (ResolveChain r) target (rPhase r) = Some ps"
    and up: "\<exists>d1. RollbackPhaseQ now rid (rPhase r) target d = Inr d1"
    by (auto simp: Rollback_def Let_def sum_bind_Inr_iff split: option.splits)
  from up RollbackPhaseQ_eq [OF assms(2) r, of now target]
  have st: "rStatus r \<noteq> StatusCancelled" "rStatus r \<noteq> StatusFailed" by (auto split: if_splits)
  from Rollback_effect [OF assms(2) r ps st, of now cb reason] assms(1) that [OF r ps st]
  show ?thesis by auto
qed

section \<open>The abstract run machine\<close>

text \<open>
  What may happen to one run, whatever operation does it. A fresh run is active
  in the first phase of a well-formed chain.
\<close>

definition fresh_run :: "run \<Rightarrow> bool" where
  "fresh_run r \<longleftrightarrow> rStatus r = StatusActive \<and> rPhase r = initial_phase r \<and> rCompletedAt r = None
     \<and> (\<forall>ps. rPhases r = Some ps \<longrightarrow> well_formed_chain ps)"

inductive run_trans :: "(json \<Rightarrow> 'e option) \<Rightarrow> run \<Rightarrow> run \<Rightarrow> bool" for decode where
  advance: "\<lbrakk>\<not> IsTerminalStatus (rStatus r); \<not> ChainIsTerminal (ResolveChain r) (rPhase r);
     ChainNextPhase (ResolveChain r) (rPhase r) = Inr nxt;
     skip_walk (ResolveChain r) skipped nxt = Some (Inr to)\<rbrakk>
     \<Longrightarrow> run_trans decode r (advanced_run now to r)"
| rollback: "\<lbrakk>ChainPhasesBetween (ResolveChain r) target (rPhase r) = Some ps;
     rStatus r \<noteq> StatusCancelled; rStatus r \<noteq> StatusFailed\<rbrakk>
     \<Longrightarrow> run_trans decode r (rewound_run now target r)"
| cancel: "run_trans decode r (change_run (SetStatus StatusCancelled now (Some now)) r)"
| cancel_member: "rStatus r = StatusActive \<Longrightarrow> run_trans decode r (change_run (CancelRun now) r)"
| settings: "run_trans decode r (change_run (SetSettings c a f now) r)"
| max_dispatches: "run_trans decode r (change_run (SetMaxDispatches n now) r)"
| configure: "md = None \<or> (\<exists>merged patch. md = Some (Some (Some merged))
       \<and> MergeMetadata decode (merge_base r) patch = Inr merged)
     \<Longrightarrow> run_trans decode r (change_run (SetConfig c a f m md now) r)"

definition run_ok :: "run \<Rightarrow> bool" where
  "run_ok r \<longleftrightarrow> well_formed_chain (ResolveChain r) \<and> rPhase r \<in> set (ResolveChain r)
     \<and> (rStatus r = StatusActive \<or> rStatus r = StatusCompleted \<or> rStatus r = StatusCancelled)
     \<and> (rStatus r = StatusActive \<longrightarrow> \<not> ChainIsTerminal (ResolveChain r) (rPhase r))
     \<and> (rStatus r = StatusCompleted \<longrightarrow> ChainIsTerminal (ResolveChain r) (rPhase r))
     \<and> (rCompletedAt r = None \<longleftrightarrow> rStatus r = StatusActive)"

lemma fresh_run_ok: "fresh_run r \<Longrightarrow> run_ok r"
proof -
  assume f: "fresh_run r"
  have wf: "well_formed_chain (ResolveChain r)"
    using f DefaultChain_well_formed by (auto simp: fresh_run_def ResolveChain_def split: option.splits)
  then obtain p q rest where c: "ResolveChain r = p # q # rest"
    by (cases "ResolveChain r" rule: remdups_adj.cases) (auto simp: well_formed_chain_def)
  have "rPhase r = p"
    using f c by (auto simp: fresh_run_def initial_phase_def ResolveChain_def DefaultChain_def
        split: option.splits)
  moreover have "last (q # rest) \<noteq> p" using wf c last_in_set [of "q # rest"]
    by (auto simp: well_formed_chain_def)
  ultimately show ?thesis using f wf c
    by (auto simp: run_ok_def fresh_run_def ChainIsTerminal_last)
qed

lemma ResolveChain_cong: "rPhases r' = rPhases r \<Longrightarrow> ResolveChain r' = ResolveChain r"
  by (simp add: ResolveChain_def)

lemma run_trans_phases: "run_trans decode r r' \<Longrightarrow> rPhases r' = rPhases r"
  by (induction rule: run_trans.induct) (simp_all add: frame)

lemma run_trans_ok: "run_trans decode r r' \<Longrightarrow> run_ok r \<Longrightarrow> run_ok r'"
proof (induction rule: run_trans.induct)
  case (advance r nxt skipped to now)
  have d: "distinct (ResolveChain r)" using advance.prems by (simp add: run_ok_def well_formed_chain_def)
  from skip_walk_next [OF d advance.hyps(3), of skipped] advance.hyps(4)
  have "to \<in> set (ResolveChain r)" by auto
  with advance show ?case
    by (auto simp: run_ok_def advanced_run_status IsTerminalStatus_def)
next
  case (rollback r target ps now)
  have d: "distinct (ResolveChain r)" using rollback.prems by (simp add: run_ok_def well_formed_chain_def)
  note b = ChainPhasesBetween_Some [OF rollback.hyps(1)]
  have "\<not> ChainIsTerminal (ResolveChain r) target"
  proof
    assume t: "ChainIsTerminal (ResolveChain r) target"
    obtain j where "j < length (ResolveChain r)" "ChainPhaseIndex (ResolveChain r) (rPhase r) = int j"
      using ChainPhaseIndex_inD [OF b(2)] by metis
    moreover have "ChainPhaseIndex (ResolveChain r) target = int (length (ResolveChain r) - 1)"
      using t d by (auto simp: ChainIsTerminal_def ChainPhaseIndex_nth)
    ultimately show False using b(3) by linarith
  qed
  with rollback b(1) show ?case by (auto simp: run_ok_def)
next
  case (cancel r now)
  then show ?case by (auto simp: run_ok_def ResolveChain_def)
next
  case (cancel_member r now)
  then show ?case by (auto simp: run_ok_def ResolveChain_def)
next
  case (settings r c a f now)
  then show ?case by (auto simp: run_ok_def ResolveChain_def set_settings_def)
next
  case (max_dispatches r n now)
  then show ?case by (auto simp: run_ok_def ResolveChain_def)
next
  case (configure md r c a f m now)
  then show ?case by (simp add: run_ok_def ResolveChain_def set_settings_def)
qed

lemma run_trans_star_ok: "(run_trans decode)\<^sup>*\<^sup>* r r' \<Longrightarrow> run_ok r \<Longrightarrow> run_ok r'"
  by (induction rule: rtranclp_induct) (auto intro: run_trans_ok)

lemma run_trans_star_phases: "(run_trans decode)\<^sup>*\<^sup>* r r' \<Longrightarrow> rPhases r' = rPhases r"
  by (induction rule: rtranclp_induct) (auto dest: run_trans_phases)

text \<open>Sealed runtime evidence survives every transition of a run.\<close>

definition sealed_as :: "(json \<Rightarrow> 'e option) \<Rightarrow> run \<Rightarrow> 'e runtime_config \<Rightarrow> bool" where
  "sealed_as decode r c \<longleftrightarrow> runtime_evidence_of decode (rMetadata r) = Inr c \<and> rcRequired c"

definition seal_kept :: "'e runtime_config \<Rightarrow> 'e runtime_config \<Rightarrow> bool" where
  "seal_kept c c' \<longleftrightarrow> rcRequired c' \<and> rcBeadID c' = rcBeadID c \<and> (rcReady c \<longrightarrow> c' = c)"

lemma run_trans_seal:
  assumes "run_trans decode r r'" "sealed_as decode r c"
  shows "\<exists>c'. sealed_as decode r' c' \<and> seal_kept c c'"
  using assms
proof (cases rule: run_trans.cases)
  case (configure md cc a f m now)
  show ?thesis
  proof (cases md)
    case None
    with configure assms(2) show ?thesis by (auto simp: sealed_as_def seal_kept_def frame)
  next
    case (Some m')
    with configure(2) obtain merged patch where m: "md = Some (Some (Some merged))"
      "MergeMetadata decode (merge_base r) patch = Inr merged" by auto
    from assms(2) obtain raw where raw: "rMetadata r = Some raw"
      by (cases "rMetadata r") (auto simp: sealed_as_def runtime_evidence_of_def no_runtime_config_def)
    with m(2) obtain before where b: "raw = Some before"
      by (cases raw) (auto simp: merge_base_def MergeMetadata_def)
    from assms(2) raw b have "runtime_evidence_of decode (Some (Some before)) = Inr c" "rcRequired c"
      by (simp_all add: sealed_as_def)
    from MergeMetadata_monotonic [OF _ this, of patch merged] m(2) raw b
    obtain c' where "runtime_evidence_of decode (Some (Some merged)) = Inr c'" "rcRequired c'"
      "rcBeadID c' = rcBeadID c" "rcReady c \<longrightarrow> c' = c" by (auto simp: merge_base_def)
    moreover have "rMetadata r' = Some (Some merged)" using configure(1) m(1) by simp
    ultimately show ?thesis by (auto simp: sealed_as_def seal_kept_def)
  qed
qed (use assms(2) in \<open>auto simp: sealed_as_def seal_kept_def frame\<close>)

lemma seal_kept_trans: "seal_kept a b \<Longrightarrow> seal_kept b c \<Longrightarrow> seal_kept a c"
  by (auto simp: seal_kept_def)

lemma run_trans_star_seal:
  "(run_trans decode)\<^sup>*\<^sup>* r r' \<Longrightarrow> sealed_as decode r c \<Longrightarrow> \<exists>c'. sealed_as decode r' c' \<and> seal_kept c c'"
proof (induction rule: rtranclp_induct)
  case base
  then show ?case by (auto simp: seal_kept_def sealed_as_def)
next
  case (step y z)
  then show ?case by (meson run_trans_seal seal_kept_trans)
qed

section \<open>Replaying the audit trail\<close>

text \<open>The events that record a move; every other event leaves the phase as it is.\<close>

definition moving_events :: "string set" where
  "moving_events = {EventAdvance, EventRollback, EventOverride}"

lemma moving_events_iff [simp]:
  "EventAdvance \<in> moving_events" "EventRollback \<in> moving_events" "EventOverride \<in> moving_events"
  "EventPause \<notin> moving_events" "EventBlock \<notin> moving_events" "EventSkip \<notin> moving_events"
  "EventCancel \<notin> moving_events" "EventSet \<notin> moving_events"
  by (simp_all add: moving_events_def const_defs)

fun replay :: "string \<Rightarrow> phase_event list \<Rightarrow> string" where
  "replay p [] = p"
| "replay p (e # es) = replay (if eEventType e \<in> moving_events then eToPhase e else p) es"

lemma replay_append [simp]: "replay p (es @ es') = replay (replay p es) es'"
  by (induction p es rule: replay.induct) simp_all

lemma replay_unmoved:
  "(\<And>e. e \<in> set es \<Longrightarrow> eEventType e \<notin> moving_events) \<Longrightarrow> replay p es = p"
  by (induction es arbitrary: p) auto

definition trail :: "string \<Rightarrow> phase_event list \<Rightarrow> phase_event list" where
  "trail rid es = filter (\<lambda>e. eRunID e = rid) es"

lemma trail_simps [simp]:
  "trail rid [] = []" "trail rid (es @ es') = trail rid es @ trail rid es'"
  "trail rid (e # es) = (if eRunID e = rid then e # trail rid es else trail rid es)"
  by (simp_all add: trail_def)

section \<open>Effects\<close>

text \<open>
  The refinement relation between a change of the database and the abstract run
  machine: no run is lost, every run moves by abstract transitions only, new
  runs start fresh, and the events added account for the moves.
\<close>

definition runs_refine :: "(json \<Rightarrow> 'e option) \<Rightarrow> db \<Rightarrow> db \<Rightarrow> bool" where
  "runs_refine decode d d' \<longleftrightarrow>
     (\<forall>rid r. GetQ d rid = Inr r \<longrightarrow> (\<exists>r'. GetQ d' rid = Inr r' \<and> (run_trans decode)\<^sup>*\<^sup>* r r'))
   \<and> (\<forall>rid r'. GetQ d' rid = Inr r' \<longrightarrow> (\<exists>r. GetQ d rid = Inr r)
        \<or> (\<exists>r0. fresh_run r0 \<and> (run_trans decode)\<^sup>*\<^sup>* r0 r'))"

definition phase_at :: "db \<Rightarrow> string \<Rightarrow> run \<Rightarrow> string" where
  "phase_at d rid r' = (case GetQ d rid of Inr r \<Rightarrow> rPhase r | Inl _ \<Rightarrow> initial_phase r')"

definition events_account :: "db \<Rightarrow> db \<Rightarrow> bool" where
  "events_account d d' \<longleftrightarrow>
     (\<exists>es. phase_events d' = phase_events d @ es
       \<and> (\<forall>e \<in> set es. eRunID e \<in> rID ` set (runs d'))
       \<and> (\<forall>rid r'. GetQ d' rid = Inr r' \<longrightarrow> replay (phase_at d rid r') (trail rid es) = rPhase r'))"

definition effect :: "(json \<Rightarrow> 'e option) \<Rightarrow> db \<Rightarrow> db \<Rightarrow> bool" where
  "effect decode d d' \<longleftrightarrow>
     (keyed d \<longrightarrow> keyed d' \<and> runs_refine decode d d' \<and> events_account d d')"

lemma initial_phase_cong: "rPhases r' = rPhases r \<Longrightarrow> initial_phase r' = initial_phase r"
  by (simp add: initial_phase_def)

lemma GetQ_ids: "rid \<in> rID ` set (runs d) \<longleftrightarrow> (\<exists>r. GetQ d rid = Inr r)"
  by (auto simp: GetQ_def sql_first_None split: option.splits dest: sql_first_Some)

lemma GetQ_not_Inr: "(\<nexists>r. GetQ d rid = Inr r) \<Longrightarrow> GetQ d rid = Inl ErrNotFound"
  by (auto simp: GetQ_def split: option.splits)

lemma effect_refl: "effect decode d d"
  unfolding effect_def runs_refine_def events_account_def phase_at_def
  by (auto intro!: exI [of _ "[]"])

lemma events_account_trans:
  assumes r1: "runs_refine decode d d1" and r2: "runs_refine decode d1 d2"
    and "events_account d d1" "events_account d1 d2"
  shows "events_account d d2"
proof -
  from assms(3) obtain es1 where 1: "phase_events d1 = phase_events d @ es1"
    "\<forall>e \<in> set es1. eRunID e \<in> rID ` set (runs d1)"
    "\<forall>rid r'. GetQ d1 rid = Inr r' \<longrightarrow> replay (phase_at d rid r') (trail rid es1) = rPhase r'"
    by (auto simp: events_account_def)
  from assms(4) obtain es2 where 2: "phase_events d2 = phase_events d1 @ es2"
    "\<forall>e \<in> set es2. eRunID e \<in> rID ` set (runs d2)"
    "\<forall>rid r'. GetQ d2 rid = Inr r' \<longrightarrow> replay (phase_at d1 rid r') (trail rid es2) = rPhase r'"
    by (auto simp: events_account_def)
  have ids: "\<forall>e \<in> set es1. eRunID e \<in> rID ` set (runs d2)"
    using 1(2) r2 unfolding GetQ_ids runs_refine_def by blast
  have "replay (phase_at d rid r') (trail rid (es1 @ es2)) = rPhase r'" if g: "GetQ d2 rid = Inr r'" for rid r'
  proof (cases "\<exists>r. GetQ d1 rid = Inr r")
    case True
    then obtain r where r: "GetQ d1 rid = Inr r" by blast
    with r2 g have "rPhases r' = rPhases r"
      unfolding runs_refine_def by (metis run_trans_star_phases sum.inject(2))
    then have "phase_at d rid r' = phase_at d rid r"
      by (auto simp: phase_at_def split: sum.splits intro: initial_phase_cong)
    moreover have "phase_at d1 rid r' = rPhase r" using r by (simp add: phase_at_def)
    ultimately show ?thesis using 1(3) r 2(3) g by (metis replay_append trail_simps(2))
  next
    case False
    with r1 have "\<nexists>r. GetQ d rid = Inr r" unfolding runs_refine_def by blast
    then have "GetQ d rid = Inl ErrNotFound" by (rule GetQ_not_Inr)
    moreover have "GetQ d1 rid = Inl ErrNotFound" using False by (rule GetQ_not_Inr)
    ultimately have "phase_at d rid r' = phase_at d1 rid r'" by (simp add: phase_at_def)
    moreover have "trail rid es1 = []"
      using 1(2) False unfolding GetQ_ids by (auto simp: trail_def filter_empty_conv)
    ultimately show ?thesis using 2(3) g by simp
  qed
  with 1(1) 2(1,2) ids show ?thesis
    unfolding events_account_def by (intro exI [of _ "es1 @ es2"]) auto
qed

lemma runs_refine_trans:
  assumes "runs_refine decode d d1" "runs_refine decode d1 d2"
  shows "runs_refine decode d d2"
  unfolding runs_refine_def
proof (intro conjI allI impI)
  fix rid r assume "GetQ d rid = Inr r"
  with assms show "\<exists>r'. GetQ d2 rid = Inr r' \<and> (run_trans decode)\<^sup>*\<^sup>* r r'"
    unfolding runs_refine_def by (meson rtranclp_trans)
next
  fix rid r' assume g: "GetQ d2 rid = Inr r'"
  show "(\<exists>r. GetQ d rid = Inr r) \<or> (\<exists>r0. fresh_run r0 \<and> (run_trans decode)\<^sup>*\<^sup>* r0 r')"
  proof (cases "\<exists>r. GetQ d1 rid = Inr r")
    case True
    then obtain r where r: "GetQ d1 rid = Inr r" by blast
    with assms(2) g have "(run_trans decode)\<^sup>*\<^sup>* r r'"
      unfolding runs_refine_def by (metis sum.inject(2))
    with assms(1) r show ?thesis
      unfolding runs_refine_def by (meson rtranclp_trans)
  next
    case False
    with assms(2) g show ?thesis unfolding runs_refine_def by blast
  qed
qed

lemma effect_trans: "effect decode d d1 \<Longrightarrow> effect decode d1 d2 \<Longrightarrow> effect decode d d2"
  unfolding effect_def using runs_refine_trans events_account_trans by blast

text \<open>Effects of the building blocks.\<close>

lemma effect_same_runs:
  assumes "runs d' = runs d" "phase_events d' = phase_events d @ es"
    and "\<forall>e \<in> set es. eRunID e \<in> rID ` set (runs d) \<and> eEventType e \<notin> moving_events"
  shows "effect decode d d'"
proof -
  have g: "GetQ d' rid = GetQ d rid" for rid by (rule GetQ_cong) (rule assms(1))
  have "replay p (trail rid es) = p" for p rid
    by (rule replay_unmoved) (use assms(3) in \<open>auto simp: trail_def\<close>)
  with g assms show ?thesis
    unfolding effect_def runs_refine_def events_account_def keyed_def
    by (auto simp: phase_at_def intro!: exI [of _ es])
qed

lemma effect_AddEventQ:
  assumes "AddEventQ now e d = Inr d'" "eEventType e \<notin> moving_events"
  shows "effect decode d d'"
  using AddEventQ_Inr [OF assms(1)] assms(2) by (intro effect_same_runs) auto

lemma sql_first_update_run:
  "sql_first (\<lambda>r. rID r = rid) (sql_update P (change_run c) rs)
    = map_option (\<lambda>r. if P r then change_run c r else r) (sql_first (\<lambda>r. rID r = rid) rs)"
  by (induction rs) auto

lemma GetQ_exec_runs:
  "GetQ (exec_runs P c d) rid
    = (case GetQ d rid of Inl e \<Rightarrow> Inl e | Inr r \<Rightarrow> Inr (if P r then change_run c r else r))"
  by (simp add: GetQ_def sql_first_update_run split: option.splits)

lemma effect_exec_runs:
  assumes "\<And>r. r \<in> set (runs d) \<Longrightarrow> P r \<Longrightarrow>
      run_trans decode r (change_run c r) \<and> rPhase (change_run c r) = rPhase r"
  shows "effect decode d (exec_runs P c d)"
proof -
  have "runs_refine decode d (exec_runs P c d) \<and> events_account d (exec_runs P c d)" if k: "keyed d"
  proof
    note g = GetQ_exec_runs [of P c d]
    have step: "(run_trans decode)\<^sup>*\<^sup>* r (if P r then change_run c r else r)
        \<and> rPhase (if P r then change_run c r else r) = rPhase r" if "GetQ d rid = Inr r" for rid r
      using assms [of r] GetQ_Inr [OF that] by (cases "P r") (simp_all add: r_into_rtranclp)
    show "runs_refine decode d (exec_runs P c d)"
      unfolding runs_refine_def
    proof (intro conjI allI impI)
      fix rid r assume "GetQ d rid = Inr r"
      with step [OF this] g show "\<exists>r'. GetQ (exec_runs P c d) rid = Inr r' \<and> (run_trans decode)\<^sup>*\<^sup>* r r'"
        by simp
    next
      fix rid r' assume "GetQ (exec_runs P c d) rid = Inr r'"
      then show "(\<exists>r. GetQ d rid = Inr r) \<or> (\<exists>r0. fresh_run r0 \<and> (run_trans decode)\<^sup>*\<^sup>* r0 r')"
        by (cases "GetQ d rid") (simp_all add: g)
    qed
    have "rPhase r' = phase_at d rid r'" if "GetQ (exec_runs P c d) rid = Inr r'" for rid r'
    proof (cases "GetQ d rid")
      case (Inl e)
      with that show ?thesis by (simp add: g)
    next
      case (Inr r)
      with that have "r' = (if P r then change_run c r else r)" by (simp add: g)
      with step [OF Inr] Inr show ?thesis by (simp add: phase_at_def)
    qed
    then show "events_account d (exec_runs P c d)"
      unfolding events_account_def by (intro exI [of _ "[]"]) simp
  qed
  then show ?thesis by (simp add: effect_def)
qed

lemma effect_insert_run:
  assumes "insert_run r d = Inr d'" "fresh_run r"
  shows "effect decode d d'"
proof -
  from assms(1) have new: "rID r \<notin> rID ` set (runs d)" and d': "d' = d\<lparr>runs := runs d @ [r]\<rparr>"
    by (auto simp: insert_run_def split: if_splits)
  have absent: "GetQ d (rID r) = Inl ErrNotFound" using new unfolding GetQ_ids by (rule GetQ_not_Inr)
  then have none: "sql_first (\<lambda>r'. rID r' = rID r) (runs d) = None"
    by (simp add: GetQ_def split: option.splits)
  have g: "GetQ d' rid = (if rid = rID r then Inr r else GetQ d rid)" for rid
    using none by (auto simp: d' GetQ_def sql_first_append split: option.split)
  have "keyed d'" if "keyed d" using that new by (auto simp: keyed_def d')
  moreover have "runs_refine decode d d'"
    unfolding runs_refine_def using assms(2) absent by (auto simp: g)
  moreover have "rPhase r' = phase_at d rid r'" if "GetQ d' rid = Inr r'" for rid r'
    using that assms(2) absent by (auto simp: g phase_at_def fresh_run_def split: if_splits)
  then have "events_account d d'"
    unfolding events_account_def by (intro exI [of _ "[]"]) (simp add: d')
  ultimately show ?thesis by (simp add: effect_def)
qed

section \<open>The operations refine the abstract machine\<close>

text \<open>
  An operation that moves one run by one abstract transition and records it as
  its last event.
\<close>

lemma effect_move:
  assumes "GetQ d rid = Inr r" "GetQ d' rid = Inr r'" "run_trans decode r r'"
    and "\<And>rid'. rid' \<noteq> rid \<Longrightarrow> GetQ d' rid' = GetQ d rid'"
    and "rID ` set (runs d') = rID ` set (runs d)" "keyed d'"
    and "phase_events d' = phase_events d @ [e]" "eRunID e = rid"
    and "replay (rPhase r) [e] = rPhase r'"
  shows "effect decode d d'"
proof -
  have "runs_refine decode d d'"
    unfolding runs_refine_def
  proof (intro conjI allI impI)
    fix rid0 r0 assume "GetQ d rid0 = Inr r0"
    with assms(1-4) show "\<exists>r'. GetQ d' rid0 = Inr r' \<and> (run_trans decode)\<^sup>*\<^sup>* r0 r'"
      by (cases "rid0 = rid") auto
  next
    fix rid0 r0 assume "GetQ d' rid0 = Inr r0"
    with assms(1,4) show "(\<exists>r. GetQ d rid0 = Inr r) \<or> (\<exists>r1. fresh_run r1 \<and> (run_trans decode)\<^sup>*\<^sup>* r1 r0)"
      by (cases "rid0 = rid") auto
  qed
  moreover have "replay (phase_at d rid0 r0) (trail rid0 [e]) = rPhase r0" if "GetQ d' rid0 = Inr r0" for rid0 r0
    using that assms(1,2,4,8,9) by (cases "rid0 = rid") (auto simp: phase_at_def)
  then have "events_account d d'"
    unfolding events_account_def using assms(7,8) assms(5) GetQ_ids [of rid d] assms(1)
    by (intro exI [of _ "[e]"]) auto
  ultimately show ?thesis using assms(6) by (simp add: effect_def)
qed

lemma effect_Advance:
  assumes "Advance env cfg rid d = Some (Inr (res, d', cs))" "keyed d"
  shows "effect decode d d'"
  using assms
proof (cases rule: Advance_effect)
  case (stay r e)
  then show ?thesis using ids_member [OF stay(1)] by (intro effect_same_runs [of d' d "[e]"]) auto
next
  case (move r nxt to g e)
  show ?thesis
    by (rule effect_move [OF move(1) move(12) run_trans.advance [OF move(2-5)] move(13,14,11,15,16)])
      (simp_all add: move(17,19))
qed

lemma effect_Rollback:
  assumes "Rollback now cb rid target reason d = Inr (res, d', cs)" "keyed d"
  shows "effect decode d d'"
  using assms
proof (cases rule: Rollback_InrE)
  case (1 r ps e)
  show ?thesis
    by (rule effect_move [OF 1(1) 1(6) run_trans.rollback [OF 1(2-4)] 1(7,8,5,9,10)])
      (simp_all add: 1(11,12))
qed

lemma effect_GateOverride:
  assumes "cmdGateOverride decode' now render reason rid d = (code, d')" "keyed d"
  shows "effect decode d d'"
  using assms(1)
proof (cases rule: cmdGateOverride_cases)
  case same
  then show ?thesis by (simp add: effect_refl)
next
  case (block r to ev)
  then show ?thesis by (intro effect_AddEventQ [OF block(4)]) simp
next
  case (move r to)
  have walk: "skip_walk (ResolveChain r) {} to = Some (Inr to)" by (subst skip_walk.simps) simp
  from override_move_effect [OF assms(2) move(1,7)] obtain e where e: "keyed d'" "GetQ d' rid = Inr (advanced_run now to r)"
    "\<And>rid'. rid' \<noteq> rid \<Longrightarrow> GetQ d' rid' = GetQ d rid'" "rID ` set (runs d') = rID ` set (runs d)"
    "phase_events d' = phase_events d @ [e]" "eRunID e = rid" "eEventType e = EventOverride" "eToPhase e = to"
    by metis
  show ?thesis
    by (rule effect_move [OF move(1) e(2) run_trans.advance [OF move(3-5) walk] e(3,4,1,5,6)]) (simp_all add: e(7,8))
qed

lemma effect_SkipPhase:
  "SkipPhase now rid target reason actor d = Inr d' \<Longrightarrow> effect decode d d'"
  by (auto simp: SkipPhase_def sum_bind_Inr_iff Let_def AddEvent_def split: if_splits
      intro: effect_AddEventQ)

lemma effect_update_by_id:
  assumes "update_by_id rid c d = Inr d'"
    and "\<And>r. run_trans decode r (change_run c r) \<and> rPhase (change_run c r) = rPhase r"
  shows "effect decode d d'"
  using assms(1) effect_exec_runs [of d "\<lambda>r. rID r = rid" decode c] assms(2)
  by (auto simp: update_by_id_def split: if_splits)

lemma effect_UpdateStatus_cancel:
  "UpdateStatus now rid StatusCancelled d = Inr d' \<Longrightarrow> effect decode d d'"
  unfolding UpdateStatus_def
  by (erule effect_update_by_id) (simp add: run_trans.cancel [simplified change_run.simps option.case])

lemma effect_UpdateSettings:
  "UpdateSettings now rid c a f d = Inr d' \<Longrightarrow> effect decode d d'"
  unfolding UpdateSettings_def
  by (erule effect_update_by_id) (simp add: frame run_trans.settings [simplified change_run.simps])

lemma effect_UpdateMaxDispatches:
  "UpdateMaxDispatches now rid n d = Inr d' \<Longrightarrow> effect decode d d'"
  unfolding UpdateMaxDispatches_def
  by (erule effect_update_by_id) (simp add: run_trans.max_dispatches [simplified change_run.simps])

lemma effect_CancelPortfolio:
  assumes "CancelPortfolio now rid d = Inr d'"
  shows "effect decode d d'"
proof -
  let ?d1 = "exec_runs (\<lambda>r. rID r = rid \<and> rStatus r = StatusActive) (CancelRun now) d"
  have d': "d' = exec_runs (\<lambda>r. rParentRunID r = Some rid \<and> rStatus r = StatusActive) (CancelRun now) ?d1"
    using assms by (simp add: CancelPortfolio_def Let_def split: if_splits)
  have step: "run_trans decode r (change_run (CancelRun now) r)
      \<and> rPhase (change_run (CancelRun now) r) = rPhase r" if "rStatus r = StatusActive" for r
    using run_trans.cancel_member [OF that] by simp
  show ?thesis
    unfolding d' by (rule effect_trans; rule effect_exec_runs; rule step; simp)
qed

definition chain_checked :: "run \<Rightarrow> bool" where
  "chain_checked r \<longleftrightarrow> (\<forall>ps. rPhases r = Some ps \<longrightarrow> well_formed_chain ps)"

lemma fresh_new_run:
  "chain_checked r \<Longrightarrow> fresh_run (new_run rid now md r)"
  "chain_checked r \<Longrightarrow> fresh_run ((new_run rid now md r)\<lparr>rProjectDir := pd, rParentRunID := pr, rGoalID := gi\<rparr>)"
  "chain_checked r \<Longrightarrow> fresh_run ((new_run rid now md r)
     \<lparr>rParentRunID := pr, rMaxDispatches := m, rGoalID := gi, rGateRules := gr\<rparr>)"
  by (auto simp: fresh_run_def new_run_def initial_phase_def chain_checked_def)

lemma effect_insertReplayInput: "effect decode d (insertReplayInput i k y p a s e d)"
  by (rule effect_same_runs [of _ _ "[]"]) (simp_all add: frame)

lemma effect_Create:
  "Create decode' rid now r d = Inr d' \<Longrightarrow> chain_checked r \<Longrightarrow> effect decode d d'"
  by (auto simp: Create_def sum_bind_Inr_iff
      intro!: effect_trans [OF effect_insert_run effect_insertReplayInput] fresh_new_run)

lemma effect_insert_children:
  "insert_children parent now cs d = Inr d' \<Longrightarrow> \<forall>(rid, c, md) \<in> set cs. chain_checked c \<Longrightarrow> effect decode d d'"
proof (induction parent now cs d arbitrary: d' rule: insert_children.induct)
  case (1 parent now d)
  then show ?case by (simp add: effect_refl)
next
  case (2 parent now rid c md rest d)
  from "2.prems"(1) obtain d1 where
    d1: "insert_run ((new_run rid now md c)\<lparr>rParentRunID := Some parent, rMaxDispatches := 0,
           rGoalID := None, rGateRules := None\<rparr>) d = Inr d1"
    and rest: "insert_children parent now rest d1 = Inr d'" by (auto simp: sum_bind_Inr_iff)
  have "effect decode d d1"
    by (rule effect_insert_run [OF d1]) (rule fresh_new_run, use "2.prems"(2) in simp)
  moreover have "effect decode d1 d'" using "2.IH" [OF rest] "2.prems"(2) by simp
  ultimately show ?case by (rule effect_trans)
qed

lemma effect_CreatePortfolio:
  assumes "CreatePortfolio decode' pid cids now portfolio children d = Inr d'"
    and "\<forall>r \<in> set (portfolio # children). chain_checked r"
  shows "effect decode d d'"
proof -
  from assms(1) obtain md mds d1 where
    d1: "insert_run ((new_run pid now md portfolio)\<lparr>rProjectDir := [], rParentRunID := None,
           rGoalID := None\<rparr>) d = Inr d1"
    and cs: "insert_children pid now (zip cids (zip children mds)) d1 = Inr d'"
    by (auto simp: CreatePortfolio_def sum_bind_Inr_iff)
  have "effect decode d d1"
    by (rule effect_insert_run [OF d1]) (rule fresh_new_run, use assms(2) in simp)
  moreover have "effect decode d1 d'"
  proof (intro effect_insert_children [OF cs] ballI)
    fix x assume "x \<in> set (zip cids (zip children mds))"
    then obtain a c md' where "x = (a, c, md')" "(c, md') \<in> set (zip children mds)"
      by (metis prod_cases3 set_zip_rightD)
    with assms(2) show "case x of (rid, c, md) \<Rightarrow> chain_checked c"
      by (auto dest: set_zip_leftD)
  qed
  ultimately show ?thesis by (rule effect_trans)
qed

lemma merge_candidate_Inr:
  assumes "merge_candidate decode parse update r = Inr md"
  shows "md = None \<or> (\<exists>merged patch. md = Some (Some (Some merged))
       \<and> MergeMetadata decode (merge_base r) patch = Inr merged)"
  using assms by (auto simp: merge_candidate_def sum_bind_Inr_iff Let_def split: if_splits option.splits)

lemma effect_config_attempts:
  assumes "config_attempts n env now decode parse rid update d = (res, d')"
    and env: "\<And>n d. effect decode d (env n d)"
  shows "effect decode d d'"
  using assms(1)
proof (induction n arbitrary: d)
  case 0
  then show ?case by (simp add: effect_refl)
next
  case (Suc n)
  show ?case
  proof (cases "Get d rid")
    case (Inl e)
    with Suc.prems show ?thesis by (simp add: effect_refl)
  next
    case r: (Inr r)
    show ?thesis
    proof (cases "merge_candidate decode parse update r")
      case (Inl e)
      with r Suc.prems show ?thesis by (simp add: effect_refl)
    next
      case md: (Inr md)
      let ?P = "\<lambda>r'. rID r' = rid \<and> (rMetadata r' = rMetadata r \<and> rPhase r' = rPhase r \<and> rStatus r' = rStatus r)"
      let ?c = "SetConfig (ucComplexity update) (ucAutoAdvance update) (ucForceFull update)
                  (ucMaxDispatches update) md now"
      let ?d1 = "env n d" and ?d2 = "exec_runs ?P ?c (env n d)"
      have e1: "effect decode d ?d1" by (rule env)
      have "run_trans decode r' (change_run ?c r')" if "rMetadata r' = rMetadata r" for r'
        using merge_candidate_Inr [OF md] that
        by (intro run_trans.configure) (simp add: merge_base_def)
      then have e2: "effect decode ?d1 ?d2"
        by (intro effect_exec_runs) (simp add: frame)
      show ?thesis
      proof (cases "rows_affected ?P (runs ?d1) = 0")
        case True
        with Suc r md have "effect decode ?d1 d'" by (simp add: Let_def)
        with e1 show ?thesis by (rule effect_trans)
      next
        case False
        show ?thesis
        proof (cases "GetQ ?d2 rid")
          case (Inl e)
          with False Suc.prems r md e1 show ?thesis by (simp add: Let_def)
        next
          case r2: (Inr r2)
          let ?ev = "phase_event_of rid (rPhase r2) (rPhase r2) EventSet None None None"
          show ?thesis
          proof (cases "AddEventQ now ?ev ?d2")
            case (Inl e)
            with False Suc.prems r md r2 e1 show ?thesis by (simp add: Let_def)
          next
            case (Inr d3)
            with False Suc.prems r md r2 have "d' = d3" by (simp add: Let_def)
            moreover have "effect decode ?d2 d3" by (rule effect_AddEventQ [OF Inr]) simp_all
            ultimately show ?thesis using e1 e2 effect_trans by blast
          qed
        qed
      qed
    qed
  qed
qed

lemma effect_UpdateConfiguration:
  "UpdateConfiguration env now decode parse rid update d = (res, d') \<Longrightarrow>
   (\<And>n d. effect decode d (env n d)) \<Longrightarrow> effect decode d d'"
  by (auto simp: UpdateConfiguration_def effect_refl split: if_splits intro: effect_config_attempts)

section \<open>Histories\<close>

text \<open>
  The operations of the store as steps of the database; the tables the phase
  package only reads may change in between, and the budget checker and the portfolio relay
  add events of their own types. \<open>configure\<close> runs a configuration
  update during which other operations interleave with its attempts.
\<close>

definition foreign_events :: "string set" where
  "foreign_events = {''child_advanced'', ''child_completed'', ''child_cancelled'', ''child_blocked'', ''child_rolledback'',
     ''upstream_changed'', ''budget.warning'', ''budget.exceeded''}"

lemma foreign_not_moving: "t \<in> foreign_events \<Longrightarrow> t \<notin> moving_events"
  by (auto simp: foreign_events_def moving_events_def const_defs)

inductive phase_step :: "(json \<Rightarrow> 'e option) \<Rightarrow> db \<Rightarrow> db \<Rightarrow> bool" for decode where
  create: "Create decode rid now r d = Inr d' \<Longrightarrow> chain_checked r \<Longrightarrow> phase_step decode d d'"
| portfolio: "CreatePortfolio decode pid cids now r children d = Inr d' \<Longrightarrow>
     \<forall>r' \<in> set (r # children). chain_checked r' \<Longrightarrow> phase_step decode d d'"
| advance: "Advance env cfg rid d = Some (Inr (res, d', cs)) \<Longrightarrow> aeDecode env = decode \<Longrightarrow> phase_step decode d d'"
| rollback: "Rollback now cb rid target reason d = Inr (rr, d', cs) \<Longrightarrow> phase_step decode d d'"
| skip: "SkipPhase now rid target reason actor d = Inr d' \<Longrightarrow> phase_step decode d d'"
| cancel: "UpdateStatus now rid StatusCancelled d = Inr d' \<Longrightarrow> phase_step decode d d'"
| cancel_portfolio: "CancelPortfolio now rid d = Inr d' \<Longrightarrow> phase_step decode d d'"
| settings: "UpdateSettings now rid c a f d = Inr d' \<Longrightarrow> phase_step decode d d'"
| max_dispatches: "UpdateMaxDispatches now rid n d = Inr d' \<Longrightarrow> phase_step decode d d'"
| audit: "AddEvent now (phase_event_of rid a b EventCancel res tier reason) d = Inr d' \<Longrightarrow> phase_step decode d d'"
| override: "cmdGateOverride decode now render reasonJSON rid d = (code, d') \<Longrightarrow> phase_step decode d d'"
| foreign: "eRunID e \<in> rID ` set (runs d) \<Longrightarrow> eEventType e \<in> foreign_events \<Longrightarrow> eID e = event_seq d + 1 \<Longrightarrow>
     phase_step decode d (d\<lparr>phase_events := phase_events d @ [e], event_seq := event_seq d + 1\<rparr>)"
| others: "phase_step decode d (d\<lparr>artifacts := arts, run_agents := agents, dispatches := ds,
     project_deps := deps, goals := gs, replay_inputs := ris\<rparr>)"

inductive kernel_step :: "(json \<Rightarrow> 'e option) \<Rightarrow> db \<Rightarrow> db \<Rightarrow> bool" for decode where
  single: "phase_step decode d d' \<Longrightarrow> kernel_step decode d d'"
| configure: "(\<And>n d. (phase_step decode)\<^sup>*\<^sup>* d (env n d)) \<Longrightarrow>
     UpdateConfiguration env now decode parse rid update d = (res, d') \<Longrightarrow> kernel_step decode d d'"

definition empty_db :: db where
  "empty_db = \<lparr>runs = [], phase_events = [], event_seq = 0, artifacts = [], run_agents = [],
     dispatches = [], project_deps = [], goals = [], replay_inputs = []\<rparr>"

definition reachable :: "(json \<Rightarrow> 'e option) \<Rightarrow> db \<Rightarrow> bool" where
  "reachable decode d \<longleftrightarrow> (kernel_step decode)\<^sup>*\<^sup>* empty_db d"

lemma phase_step_effect: "phase_step decode d d' \<Longrightarrow> keyed d \<Longrightarrow> effect decode d d'"
proof (induction rule: phase_step.induct)
  case (others d arts agents ds deps gs ris)
  then show ?case by (intro effect_same_runs [of _ _ "[]"]) simp_all
next
  case (foreign e d)
  then show ?case by (intro effect_same_runs [of _ _ "[e]"]) (auto dest: foreign_not_moving)
next
  case (audit now rid a b res tier reason d d')
  then show ?case by (auto simp: AddEvent_def intro: effect_AddEventQ)
qed (blast intro: effect_Create effect_CreatePortfolio effect_Advance effect_Rollback effect_SkipPhase effect_GateOverride
      effect_UpdateStatus_cancel effect_CancelPortfolio effect_UpdateSettings effect_UpdateMaxDispatches)+

lemma effect_keyed: "effect decode d d' \<Longrightarrow> keyed d \<Longrightarrow> keyed d'"
  by (simp add: effect_def)

lemma effect_if_keyed: "(keyed d \<Longrightarrow> effect decode d d') \<Longrightarrow> effect decode d d'"
  by (auto simp: effect_def)

lemma phase_steps_effect: "(phase_step decode)\<^sup>*\<^sup>* d d' \<Longrightarrow> effect decode d d'"
proof (induction rule: rtranclp_induct)
  case base
  show ?case by (rule effect_refl)
next
  case (step y z)
  then show ?case
    by (meson effect_if_keyed effect_trans phase_step_effect)
qed

lemma kernel_step_effect: "kernel_step decode d d' \<Longrightarrow> effect decode d d'"
proof (induction rule: kernel_step.induct)
  case (single d d')
  then show ?case by (intro phase_steps_effect) simp
next
  case (configure env now parse rid update d res d')
  then show ?case by (meson effect_UpdateConfiguration phase_steps_effect)
qed

lemma kernel_steps_effect: "(kernel_step decode)\<^sup>*\<^sup>* d d' \<Longrightarrow> effect decode d d'"
  by (induction rule: rtranclp_induct) (auto intro: effect_refl effect_trans kernel_step_effect)

lemma keyed_empty_db [simp]: "keyed empty_db"
  by (simp add: keyed_def empty_db_def)

lemma GetQ_empty_db [simp]: "GetQ empty_db rid = Inl ErrNotFound"
  by (simp add: GetQ_def empty_db_def)

lemma empty_db_events: "phase_events empty_db = []"
  by (simp add: empty_db_def)

lemma reachable_keyed: "reachable decode d \<Longrightarrow> keyed d"
  unfolding reachable_def using kernel_steps_effect effect_keyed keyed_empty_db by blast

lemma reachable_effect:
  "reachable decode d \<Longrightarrow> runs_refine decode empty_db d \<and> events_account empty_db d"
  unfolding reachable_def using kernel_steps_effect [of decode empty_db d] by (simp add: effect_def)

lemma reachable_run:
  assumes "reachable decode d" "GetQ d rid = Inr r"
  obtains r0 where "fresh_run r0" "(run_trans decode)\<^sup>*\<^sup>* r0 r"
proof -
  have "runs_refine decode empty_db d" using reachable_effect [OF assms(1)] by simp
  with assms(2) that show ?thesis unfolding runs_refine_def by auto
qed

section \<open>Properties\<close>

text \<open>
  C6. Well-formed runs. In every database the store operations lead to, whatever
  their order and interleaving, a run's phase belongs to its duplicate-free
  chain, it is active only before the last phase, completed only in it, and it
  carries a completion time exactly when it is not active.
\<close>

theorem reachable_runs_ok:
  assumes "reachable decode d" "GetQ d rid = Inr r"
  shows "run_ok r"
proof -
  obtain r0 where "fresh_run r0" "(run_trans decode)\<^sup>*\<^sup>* r0 r" using assms by (rule reachable_run)
  then show ?thesis using run_trans_star_ok [OF _ fresh_run_ok] by blast
qed

text \<open>
  C7. The audit trail is complete: replaying the advance, rollback and override events of
  a run, from the first phase of its chain, yields the phase it is in.
\<close>

theorem trail_determines_phase:
  assumes "reachable decode d" "GetQ d rid = Inr r"
  shows "replay (initial_phase r) (trail rid (phase_events d)) = rPhase r"
proof -
  have "events_account empty_db d" using reachable_effect [OF assms(1)] by simp
  with assms(2) show ?thesis 
    by (auto simp: events_account_def phase_at_def empty_db_events)
qed

text \<open>
  C3. Sealed evidence is permanent: once a run requires runtime evidence, no
  sequence of operations removes the requirement, changes the bead it is bound
  to, or alters expectations that were sealed.
\<close>

theorem seal_is_permanent:
  assumes "reachable decode d" "GetQ d rid = Inr r" "sealed_as decode r c"
    and "(kernel_step decode)\<^sup>*\<^sup>* d d'"
  shows "\<exists>r' c'. GetQ d' rid = Inr r' \<and> sealed_as decode r' c' \<and> seal_kept c c'"
proof -
  have "runs_refine decode d d'"
    using kernel_steps_effect [OF assms(4)] reachable_keyed [OF assms(1)] by (simp add: effect_def)
  with assms(2,3) run_trans_star_seal show ?thesis
    unfolding runs_refine_def by (metis (no_types, lifting))
qed

text \<open>
  No completion without proof: an advance that completes a run requiring
  runtime evidence, in a chain ending in \<^verbatim>\<open>done\<close>, had gates enabled, sealed
  expectations, and a latest active receipt in the run's own artifacts that the
  verifier accepted.
\<close>

lemma completed_with_proof:
  assumes "Advance env cfg rid d = Some (Inr (res, d', cs))" "keyed d"
    and "GetQ d rid = Inr r" "sealed_as (aeDecode env) r c" "last (ResolveChain r) = Done"
    and "GetQ d' rid = Inr r'" "rStatus r' = StatusCompleted"
  shows "\<not> DisableAll cfg \<and> rcReady c \<and>
    (\<exists>a h. qLatestActiveArtifactByType (tx_runtrack d) rid RuntimeEvidenceArtifactType = Inr a
       \<and> aContentHash a \<noteq> None \<and> aContentHash a \<noteq> Some [] \<and> aeVerify env c r a = Some h)"
  using assms(1,2)
proof (cases rule: Advance_effect)
  case (stay r1 e)
  from assms(1) obtain r2 where "GetQ d rid = Inr r2" "\<not> IsTerminalStatus (rStatus r2)"
    by (elim Advance_InrE)
  moreover have "GetQ d' rid = GetQ d rid" by (rule GetQ_cong) (rule stay(3))
  ultimately show ?thesis using assms(6,7) by simp
next
  case (move r1 nxt to g e)
  have r1: "r1 = r" using move(1) assms(3) by simp
  have r': "r' = advanced_run (aeNow env) to r" using move(12) assms(6) r1 by simp
  have st: "rStatus r \<noteq> StatusCompleted" using move(2) r1 by auto
  have terminal: "ChainIsTerminal (ResolveChain r) to"
    using assms(7) st unfolding r' advanced_run_status by (auto split: if_splits)
  then have to: "to = Done" using assms(5) by (simp add: ChainIsTerminal_last)
  have rc: "RuntimeEvidenceForRun (aeDecode env) r = Inr c" "rcRequired c"
    using assms(4) by (simp_all add: sealed_as_def RuntimeEvidenceForRun_def)
  have rt: "runtime_terminal r (RuntimeEvidenceForRun (aeDecode env) r) to"
    using terminal to rc by (simp add: runtime_terminal_def)
  have rid: "rID r = rid" by (rule GetQ_id [OF assms(3)])
  note gate = runtime_gate_hard_facts [OF move(9) [unfolded r1] rt]
  from gate(1,2) move(10) have "goResult g = GatePass" by auto
  from gate(3) [OF this] rc(1) rid show ?thesis by (auto simp: advance_queriers_def)
qed

end
