(* ===== verification/RunProgress.thy ===== *)
theory RunProgress
  imports RunSafety
begin

text \<open>
  The outcome of each operation on a run: how far \<^verbatim>\<open>Advance\<close> moves and when it
  stops, what \<^verbatim>\<open>Rollback\<close> restores and refuses, and what the optimistic
  concurrency of \<^verbatim>\<open>UpdatePhase\<close> and \<^verbatim>\<open>UpdateConfiguration\<close> gives.
\<close>

section \<open>Properties\<close>

text \<open>
  C4. An advance moves forward. A run that an advance moves ends up in a later
  phase of its chain; exactly the phases in between were marked as skipped, the
  phase reached is not a skipped one unless it is the last, the run is completed
  exactly if it is the last, and no other run changes.
\<close>

theorem advance_moves_forward:
  assumes "Advance env cfg rid d = Some (Inr (res, d', cs))" "keyed d"
    and "GetQ d rid = Inr r" "distinct (ResolveChain r)" "arAdvanced res"
  shows "\<exists>r'. GetQ d' rid = Inr r' \<and> rPhase r' = arToPhase res \<and> arToPhase res \<in> set (ResolveChain r)
    \<and> ChainPhaseIndex (ResolveChain r) (rPhase r) < ChainPhaseIndex (ResolveChain r) (arToPhase res)
    \<and> (\<forall>p \<in> set (ResolveChain r).
         ChainPhaseIndex (ResolveChain r) (rPhase r) < ChainPhaseIndex (ResolveChain r) p
         \<and> ChainPhaseIndex (ResolveChain r) p < ChainPhaseIndex (ResolveChain r) (arToPhase res)
         \<longrightarrow> p \<in> SkippedPhasesQ d rid)
    \<and> (arToPhase res \<notin> SkippedPhasesQ d rid \<or> ChainIsTerminal (ResolveChain r) (arToPhase res))
    \<and> (rStatus r' = StatusCompleted \<longleftrightarrow> ChainIsTerminal (ResolveChain r) (arToPhase res))
    \<and> (\<forall>rid'. rid' \<noteq> rid \<longrightarrow> GetQ d' rid' = GetQ d rid')"
  using assms(1,2)
proof (cases rule: Advance_effect)
  case (stay r1 e)
  with assms(5) show ?thesis by simp
next
  case (move r1 nxt to g e)
  have r1: "r1 = r" using move(1) assms(3) by simp
  note walk = skip_walk_next [OF assms(4) move(4) [unfolded r1], of "SkippedPhasesQ d rid"]
  have walked: "skip_walk (ResolveChain r) (SkippedPhasesQ d rid) nxt = Some (Inr to)"
    using move(5) r1 by simp
  have "rStatus r \<noteq> StatusCompleted" using move(2) r1 by auto
  then have "rStatus (advanced_run (aeNow env) to r) = StatusCompleted
      \<longleftrightarrow> ChainIsTerminal (ResolveChain r) to"
    by (simp add: advanced_run_status)
  with walk walked move(8,12,13) r1 show ?thesis by auto
qed

text \<open>
  A hard gate blocks. If the gate of the transition an advance attempts
  fails hard, the advance changes no run; it records one block event that
  carries the gate's result and tier.
\<close>

lemma hard_gate_blocks:
  assumes "Advance env cfg rid d = Some (Inr (res, d', cs))" "GetQ d rid = Inr r"
    and "rAutoAdvance r \<or> SkipReason cfg \<noteq> []"
    and "evaluateGate (aeDecode env) (aeVerify env) r cfg (rPhase r) (arToPhase res)
           (advance_queriers env r d) = Inr g"
    and "goResult g = GateFail" "goTier g = TierHard"
  shows "\<not> arAdvanced res \<and> arEventType res = EventBlock \<and> runs d' = runs d
    \<and> (\<exists>e. phase_events d' = phase_events d @ [e] \<and> eRunID e = rid \<and> eEventType e = EventBlock
         \<and> eGateResult e = Some GateFail \<and> eGateTier e = Some TierHard)"
proof -
  from assms(1) obtain r1 nxt to where 1: "GetQ d rid = Inr r1"
    and ad: "advance_to env cfg r1 to d = Inr (res, d', cs)" by (elim Advance_InrE)
  have r1: "r1 = r" using 1 assms(2) by simp
  have rid: "rID r = rid" by (rule GetQ_id [OF assms(2)])
  from ad have "arToPhase res = to"
    by (cases rule: advance_to_InrE)
      (auto simp: advance_pause_def advance_block_def advance_move_def Let_def sum_bind_Inr_iff)
  with assms(3-6) ad r1 have "\<exists>reason. advance_block env r to g reason d = Inr (res, d', cs)"
    by (auto simp: advance_to_def Let_def map_gate_error_def)
  with assms(5,6) rid show ?thesis
    by (auto simp: advance_block_def Let_def sum_bind_Inr_iff dest: AddEventQ_Inr)
qed

lemma advance_to_outcome:
  assumes "keyed d" "GetQ d (rID r) = Inr r"
  shows "(\<exists>x. advance_to env cfg r to d = Inr x) \<or> (\<exists>e. advance_to env cfg r to d = Inl (ErrGate e))"
proof -
  have ids: "rID r \<in> rID ` set (runs d)" by (rule ids_member [OF assms(2)])
  have pause: "\<exists>x. advance_pause env r to d = Inr x"
    using AddEventQ_total [of "phase_event_of (rID r) (rPhase r) to EventPause
        (Some GateNone) (Some TierNone) (Some ''auto_advance disabled'')" d "aeNow env"] ids
    by (auto simp: advance_pause_def)
  have block: "\<exists>x. advance_block env r to g reason d = Inr x" for g reason
    using AddEventQ_total [of "phase_event_of (rID r) (rPhase r) to EventBlock (Some (goResult g))
        (Some (goTier g)) (Some (if reason = [] then ''gate blocked advance'' else reason))" d "aeNow env"] ids
    by (auto simp: advance_block_def Let_def)
  have move: "\<exists>x. advance_move env r to g reason d = Inr x" for g reason
    using advance_move_eq [OF assms, of env to g reason] by auto
  show ?thesis
    using pause block move
    by (cases "evaluateGate (aeDecode env) (aeVerify env) r cfg (rPhase r) to (advance_queriers env r d)")
      (auto simp: advance_to_def Let_def map_gate_error_def)
qed

text \<open>
  C8. An advance returns. In every database the operations lead to, an advance
  of a known run ends: on an active run with an outcome or with the error of a
  gate query, on any other run with the terminal-run error.
\<close>

theorem advance_returns:
  assumes "reachable decode d" "GetQ d rid = Inr r"
  shows "\<exists>out. Advance env cfg rid d = Some out \<and>
    (if rStatus r = StatusActive then (\<exists>x. out = Inr x) \<or> (\<exists>e. out = Inl (ErrGate e))
     else out = Inl ErrTerminalRun)"
proof -
  obtain r0 where "fresh_run r0" "(run_trans decode)\<^sup>*\<^sup>* r0 r" using assms by (rule reachable_run)
  then have ok: "run_ok r" using run_trans_star_ok [OF _ fresh_run_ok] by blast
  have k: "keyed d" by (rule reachable_keyed [OF assms(1)])
  show ?thesis
  proof (cases "rStatus r = StatusActive")
    case False
    with ok assms(2) show ?thesis by (auto simp: Advance_def run_ok_def)
  next
    case True
    from ok have dist: "distinct (ResolveChain r)" and mem: "rPhase r \<in> set (ResolveChain r)"
      and nt: "\<not> ChainIsTerminal (ResolveChain r) (rPhase r)"
      using True by (auto simp: run_ok_def well_formed_chain_def)
    obtain nxt where nxt: "ChainNextPhase (ResolveChain r) (rPhase r) = Inr nxt"
      by (rule ChainNextPhase_nonterminal [OF dist mem nt])
    from skip_walk_next [OF dist nxt, of "SkippedPhasesQ d rid"] obtain to where
      "skip_walk (ResolveChain r) (SkippedPhasesQ d rid) nxt = Some (Inr to)" by blast
    then have "Advance env cfg rid d = Some (advance_to env cfg r to d)"
      using assms(2) True nt nxt by (simp add: Advance_def)
    moreover have "GetQ d (rID r) = Inr r" using assms(2) GetQ_id by metis
    ultimately show ?thesis using True advance_to_outcome [OF k, of r env cfg to] by auto
  qed
qed

text \<open>
  Rollback outcomes. A rollback fails with not-found, with an invalid
  target when the target is not strictly before the current phase of the chain,
  with the terminal-run error on a cancelled or failed run, and otherwise always
  succeeds: the run is active in the target phase with its completion time
  cleared, and no other run changes.
\<close>

lemma rollback_outcomes:
  assumes "keyed d"
  shows "case GetQ d rid of
      Inl e \<Rightarrow> Rollback now cb rid target reason d = Inl e
    | Inr r \<Rightarrow>
        (case ChainPhasesBetween (ResolveChain r) target (rPhase r) of
           None \<Rightarrow> Rollback now cb rid target reason d = Inl ErrInvalidRollback
         | Some ps \<Rightarrow>
             if rStatus r = StatusCancelled \<or> rStatus r = StatusFailed
             then Rollback now cb rid target reason d = Inl ErrTerminalRun
             else \<exists>d' cs. Rollback now cb rid target reason d
                    = Inr (\<lparr>rrFromPhase = rPhase r, rrToPhase = target, rrRolledBackPhases = ps,
                            rrReason = reason\<rparr>, d', cs)
                  \<and> (\<exists>r'. GetQ d' rid = Inr r' \<and> rPhase r' = target \<and> rStatus r' = StatusActive
                       \<and> rCompletedAt r' = None)
                  \<and> (\<forall>rid'. rid' \<noteq> rid \<longrightarrow> GetQ d' rid' = GetQ d rid'))"
proof (cases "GetQ d rid")
  case (Inl e)
  then show ?thesis by (simp add: Rollback_def)
next
  case r: (Inr r)
  show ?thesis
  proof (cases "ChainPhasesBetween (ResolveChain r) target (rPhase r)")
    case None
    with r show ?thesis by (simp add: Rollback_def Let_def)
  next
    case ps: (Some ps)
    show ?thesis
    proof (cases "rStatus r = StatusCancelled \<or> rStatus r = StatusFailed")
      case True
      with r ps RollbackPhaseQ_eq [OF assms r, of now target] show ?thesis
        by (simp add: Rollback_def Let_def)
    next
      case False
      with Rollback_effect [OF assms r ps, of now cb reason] obtain d' cs where
        "Rollback now cb rid target reason d = Inr (\<lparr>rrFromPhase = rPhase r, rrToPhase = target,
           rrRolledBackPhases = ps, rrReason = reason\<rparr>, d', cs)"
        "GetQ d' rid = Inr (rewound_run now target r)"
        "\<forall>rid'. rid' \<noteq> rid \<longrightarrow> GetQ d' rid' = GetQ d rid'" by auto
      with r ps False show ?thesis by auto
    qed
  qed
qed

text \<open>
  C9. Rollback undoes an advance. After an advance that moved a run of a
  duplicate-free chain, a rollback to the phase it came from succeeds and
  restores phase, status and completion time; the phases it reports end in the
  phase the advance reached.
\<close>

theorem rollback_undoes_advance:
  assumes "Advance env cfg rid d = Some (Inr (res, d', cs))" "keyed d"
    and "GetQ d rid = Inr r" "run_ok r" "arAdvanced res"
  shows "\<exists>rr d'' cs' r''. Rollback now cb rid (rPhase r) reason d' = Inr (rr, d'', cs')
    \<and> GetQ d'' rid = Inr r'' \<and> rPhase r'' = rPhase r \<and> rStatus r'' = rStatus r
    \<and> rCompletedAt r'' = rCompletedAt r \<and> last (rrRolledBackPhases rr) = arToPhase res"
  using assms(1,2)
proof (cases rule: Advance_effect)
  case (stay r1 e)
  with assms(5) show ?thesis by simp
next
  case (move r1 nxt to g e)
  let ?chain = "ResolveChain r"
  have r1: "r1 = r" using move(1) assms(3) by simp
  have dist: "distinct ?chain" using assms(4) by (simp add: run_ok_def well_formed_chain_def)
  have active: "rStatus r = StatusActive" "rCompletedAt r = None"
    using assms(4) move(2) r1 by (auto simp: run_ok_def)
  have get: "GetQ d' rid = Inr (advanced_run (aeNow env) to r)" using move(12) r1 by simp
  from skip_walk_next [OF dist move(4) [unfolded r1], of "SkippedPhasesQ d rid"] move(5) r1
  have to: "to \<in> set ?chain" "ChainPhaseIndex ?chain (rPhase r) < ChainPhaseIndex ?chain to" by auto
  moreover have "rPhase r \<in> set ?chain" using assms(4) by (simp add: run_ok_def)
  ultimately obtain ps where ps: "ChainPhasesBetween ?chain (rPhase r) to = Some ps"
    using ChainPhaseIndex_neg [of ?chain] by (auto simp: ChainPhasesBetween_def Let_def)
  have st: "rStatus (advanced_run (aeNow env) to r) \<noteq> StatusCancelled"
    "rStatus (advanced_run (aeNow env) to r) \<noteq> StatusFailed"
    using active by (simp_all add: advanced_run_status)
  from Rollback_effect [OF move(11) get _ st, of "rPhase r" ps now cb reason] ps
    ChainPhasesBetween_Some(5) [OF ps] active move(8)
  show ?thesis by (auto simp del: replay.simps)
qed

text \<open>
  One winner. When two callers have read the same phase and both try to
  move the run out of it, the second finds the phase changed and gets the
  stale-phase error.
\<close>

lemma stale_phase_detected:
  assumes "keyed d" "UpdatePhaseQ now rid p q d = Inr d1" "p \<noteq> q"
  shows "UpdatePhaseQ now' rid p q' d1 = Inl ErrStalePhase"
proof -
  from assms(1,2) obtain r where r: "GetQ d rid = Inr r" "rPhase r = p"
    using affected_GetQ [OF assms(1), of rid "\<lambda>r'. rPhase r' = p"]
    by (auto simp: UpdatePhaseQ_def Let_def split: if_splits sum.splits)
  then have d1: "d1 = touch_goal now rid (exec_runs (\<lambda>r'. rID r' = rid \<and> rPhase r' = p) (SetPhase q now) d)"
    using assms(2) UpdatePhaseQ_eq [OF assms(1) r(1), of now q] by simp
  have "keyed d1" using assms(1) by (simp add: d1)
  moreover have "GetQ d1 rid = Inr (change_run (SetPhase q now) r)"
    using r GetQ_exec_runs [of "\<lambda>r'. rID r' = rid \<and> rPhase r' = p" "SetPhase q now" d rid] GetQ_id [OF r(1)]
    by (simp add: d1)
  ultimately show ?thesis
    using assms(3) affected_GetQ [of d1 rid "\<lambda>r'. rPhase r' = p"]
    by (simp add: UpdatePhaseQ_def Let_def)
qed

lemma config_attempts_commit:
  assumes "config_attempts n env now decode parse rid update d = (None, d')" "keyed d"
    and env: "\<And>n d. keyed d \<Longrightarrow> keyed (env n d)"
  shows "\<exists>d0 before md after e. keyed d0 \<and> GetQ d0 rid = Inr before
    \<and> (\<exists>r. rMetadata r = rMetadata before \<and> merge_candidate decode parse update r = Inr md)
    \<and> after = change_run (SetConfig (ucComplexity update) (ucAutoAdvance update)
                  (ucForceFull update) (ucMaxDispatches update) md now) before
    \<and> GetQ d' rid = Inr after \<and> (\<forall>rid'. rid' \<noteq> rid \<longrightarrow> GetQ d' rid' = GetQ d0 rid')
    \<and> phase_events d' = phase_events d0 @ [e] \<and> eRunID e = rid \<and> eEventType e = EventSet"
  using assms(1,2)
proof (induction n arbitrary: d)
  case 0
  then show ?case by simp
next
  case (Suc n)
  from Suc.prems(1) obtain r where r: "Get d rid = Inr r" by (auto split: sum.splits)
  with Suc.prems(1) obtain md where md: "merge_candidate decode parse update r = Inr md"
    by (auto split: sum.splits)
  let ?Q = "\<lambda>r'. rMetadata r' = rMetadata r \<and> rPhase r' = rPhase r \<and> rStatus r' = rStatus r"
  let ?P = "\<lambda>r'. rID r' = rid \<and> ?Q r'"
  let ?c = "SetConfig (ucComplexity update) (ucAutoAdvance update) (ucForceFull update)
              (ucMaxDispatches update) md now"
  let ?d1 = "env n d"
  let ?d2 = "exec_runs ?P ?c ?d1"
  have k1: "keyed ?d1" by (rule env) (rule Suc.prems(2))
  show ?case
  proof (cases "rows_affected ?P (runs ?d1) = 0")
    case True
    with Suc.prems(1) r md have "config_attempts n env now decode parse rid update ?d1 = (None, d')"
      by (simp add: Let_def)
    with Suc.IH k1 show ?thesis by blast
  next
    case False
    then obtain before where b: "GetQ ?d1 rid = Inr before" "?Q before"
      using affected_GetQ [OF k1, of rid ?Q] by (cases "GetQ ?d1 rid") (auto split: if_splits)
    have id: "rID before = rid" by (rule GetQ_id [OF b(1)])
    have g2: "GetQ ?d2 rid = Inr (change_run ?c before)"
      using b id by (simp add: GetQ_exec_runs del: change_run.simps)
    have o2: "GetQ ?d2 rid' = GetQ ?d1 rid'" if "rid' \<noteq> rid" for rid'
      using that by (intro GetQ_exec_runs_other) simp
    let ?e = "phase_event_of rid (rPhase (change_run ?c before)) (rPhase (change_run ?c before))
                EventSet None None None"
    have "config_attempts (Suc n) env now decode parse rid update d =
        (case AddEventQ now ?e ?d2 of Inl e \<Rightarrow> (Some e, ?d1) | Inr d3 \<Rightarrow> (None, d3))"
      using False by (simp only: config_attempts.simps r md g2 Let_def sum.case if_False)
    with Suc.prems(1) have d3: "AddEventQ now ?e ?d2 = Inr d'" by (simp split: sum.splits)
    note add = AddEventQ_Inr [OF d3]
    have g3: "GetQ d' rid' = GetQ ?d2 rid'" for rid' by (rule GetQ_cong) (rule add(1))
    have "phase_events d' = phase_events ?d1 @ [?e\<lparr>eID := event_seq ?d2 + 1, eCreatedAt := now\<rparr>]"
      using add(4) by simp
    moreover have "GetQ d' rid = Inr (change_run ?c before)" using g3 g2 by simp
    moreover have "\<forall>rid'. rid' \<noteq> rid \<longrightarrow> GetQ d' rid' = GetQ ?d1 rid'" using g3 o2 by simp
    moreover have "rMetadata r = rMetadata before" using b(2) by simp
    moreover have "eRunID (?e\<lparr>eID := event_seq ?d2 + 1, eCreatedAt := now\<rparr>) = rid"
      by (simp del: change_run.simps exec_runs_simps)
    moreover have "eEventType (?e\<lparr>eID := event_seq ?d2 + 1, eCreatedAt := now\<rparr>) = EventSet"
      by (simp del: change_run.simps exec_runs_simps)
    ultimately show ?thesis using k1 b(1) md
      by - (rule exI [of _ ?d1], rule exI [of _ before], rule exI [of _ md],
        rule exI [of _ "change_run ?c before"],
        rule exI [of _ "?e\<lparr>eID := event_seq ?d2 + 1, eCreatedAt := now\<rparr>"],
        intro conjI exI [of _ r], (assumption | rule refl)+)
  qed
qed

text \<open>
  No lost update. Whatever other writers do between the read and the
  compare-and-swap of its attempts, a configuration update that succeeds has
  merged its patch into the metadata the run had in the database it committed
  to; the commit changes this run only and appends one set event.
\<close>

lemma config_no_lost_update:
  assumes "UpdateConfiguration env now decode parse rid update d = (None, d')" "keyed d"
    and "\<And>n d. keyed d \<Longrightarrow> keyed (env n d)" "ucMetadataMerge update \<noteq> []"
  shows "\<exists>d0 before after merged e. GetQ d0 rid = Inr before \<and> GetQ d' rid = Inr after
    \<and> MergeMetadata decode (merge_base before) (parse (ucMetadataMerge update)) = Inr merged
    \<and> rMetadata after = Some (Some merged) \<and> rPhase after = rPhase before \<and> rStatus after = rStatus before
    \<and> (\<forall>rid'. rid' \<noteq> rid \<longrightarrow> GetQ d' rid' = GetQ d0 rid')
    \<and> phase_events d' = phase_events d0 @ [e] \<and> eRunID e = rid \<and> eEventType e = EventSet"
proof -
  have "config_attempts metadataMergeAttempts env now decode parse rid update d = (None, d')"
    using assms(1) by (auto simp: UpdateConfiguration_def split: if_splits)
  from config_attempts_commit [OF this assms(2,3)] obtain d0 before md after e r where
    c: "GetQ d0 rid = Inr before" "rMetadata r = rMetadata before"
      "merge_candidate decode parse update r = Inr md"
      "after = change_run (SetConfig (ucComplexity update) (ucAutoAdvance update)
                  (ucForceFull update) (ucMaxDispatches update) md now) before"
      "GetQ d' rid = Inr after" "\<forall>rid'. rid' \<noteq> rid \<longrightarrow> GetQ d' rid' = GetQ d0 rid'"
      "phase_events d' = phase_events d0 @ [e]" "eRunID e = rid" "eEventType e = EventSet"
    by blast
  from c(3) assms(4) obtain merged where m: "md = Some (Some (Some merged))"
    "MergeMetadata decode (merge_base r) (parse (ucMetadataMerge update)) = Inr merged"
    by (auto simp: merge_candidate_def sum_bind_Inr_iff Let_def split: if_splits option.splits)
  moreover have "merge_base r = merge_base before" using c(2) by (simp add: merge_base_def)
  ultimately show ?thesis using c(1,4-9)
    by - (rule exI [of _ d0], rule exI [of _ before], rule exI [of _ after], rule exI [of _ merged],
      rule exI [of _ e], simp add: frame)
qed

end
