(* ===== verification/RunWitness.thy ===== *)
theory RunWitness
  imports RunProgress
begin

text \<open>
  A small database history on which the hypotheses of the run properties hold:
  a run of the default chain is created, advanced, rolled back and configured;
  another one is about to finish under a sealed runtime-evidence gate.
\<close>

section \<open>A created run\<close>

definition created_run :: run where
  "created_run = new_run ''r1'' 10 None sample_run"

definition sample_db :: db where
  "sample_db = empty_db\<lparr>runs := [created_run],
     replay_inputs := [\<lparr>riRunID = ''r1'', riKind = ''random'', riKey = Some ''run_id'',
       riPayload = GeneratedID ''r1'', riArtifactRef = Some ''run:r1'', riEventSource = Some ''run_create'',
       riEventID = None\<rparr>]\<rparr>"

definition sample_env :: "json advance_env" where
  "sample_env = \<lparr>aeNow = 20, aeDecode = Some, aeVerify = (\<lambda>c r a. Some ''proof''), aeRender = (\<lambda>_. []),
     aeVerdicts = True, aePortfolio = False, aeDeps = False, aeBudget = True, aeCallback = True\<rparr>"

lemma created_run_fields [simp]:
  "rID created_run = ''r1''" "rPhase created_run = Brainstorm" "rStatus created_run = StatusActive"
  "rPhases created_run = None" "rMetadata created_run = None" "rAutoAdvance created_run = True"
  "rTokenBudget created_run = None" "rProjectDir created_run = ''/p''" "rCompletedAt created_run = None"
  "ResolveChain created_run = DefaultChain"
  by (simp_all add: created_run_def new_run_def sample_run_def initial_phase_def ResolveChain_def)

lemma sample_env_fields [simp]:
  "aeNow sample_env = 20" "aeDecode sample_env = Some" "aeVerify sample_env = (\<lambda>c r a. Some ''proof'')"
  by (simp_all add: sample_env_def)

lemma sample_created: "Create Some ''r1'' 10 sample_run empty_db = Inr sample_db"
  by (simp add: Create_def checked_metadata_def canonicalMetadataPointer_def validateRuntimeRun_def
    insert_run_def insertReplayInput_def sample_db_def created_run_def new_run_def empty_db_def
    strPtrOrNil_def)

lemma sample_reachable: "reachable Some sample_db"
  unfolding reachable_def
  by (rule r_into_rtranclp, rule kernel_step.single, rule phase_step.create [OF sample_created])
    (simp add: chain_checked_def)

lemma sample_keyed: "keyed sample_db"
  by (simp add: keyed_def sample_db_def)

lemma sample_get: "GetQ sample_db ''r1'' = Inr created_run"
  by (simp add: GetQ_def sample_db_def)

lemma sample_skipped: "SkippedPhasesQ sample_db ''r1'' = {}"
  by (simp add: SkippedPhasesQ_def sample_db_def empty_db_def)

lemma skip_walk_here: "to \<notin> skipped \<Longrightarrow> skip_walk chain skipped to = Some (Inr to)"
  by (subst skip_walk.simps) simp

lemma sample_step:
  "\<not> ChainIsTerminal DefaultChain Brainstorm" "ChainNextPhase DefaultChain Brainstorm = Inr BrainstormReviewed"
  by (simp_all add: ChainIsTerminal_def DefaultChain_def)

lemma sample_advance: "Advance sample_env cfg ''r1'' sample_db
    = Some (advance_to sample_env cfg created_run BrainstormReviewed sample_db)"
  by (simp add: Advance_def sample_get sample_step sample_skipped skip_walk_here)

lemma sample_gate_open:
  "evaluateGate Some (\<lambda>c r a. Some ''proof'') created_run (sample_config\<lparr>Priority := 9\<rparr>)
     Brainstorm BrainstormReviewed q = Inr (outcome GateNone TierNone ''default'' None)"
  by (simp add: evaluateGate_def Let_def runtime_terminal_def)

lemma sample_advanced:
  "\<exists>res d' cs. Advance sample_env (sample_config\<lparr>Priority := 9\<rparr>) ''r1'' sample_db = Some (Inr (res, d', cs))
     \<and> arAdvanced res \<and> arToPhase res = BrainstormReviewed"
proof -
  obtain res d' cs where "advance_move sample_env created_run BrainstormReviewed
      (outcome GateNone TierNone ''default'' None) [] sample_db = Inr (res, d', cs)"
    "arAdvanced res" "arToPhase res = BrainstormReviewed"
    using advance_move_eq [OF sample_keyed, of created_run sample_env BrainstormReviewed
        "outcome GateNone TierNone ''default'' None" "[]"] sample_get by auto
  then show ?thesis
    unfolding sample_advance
    by (simp add: advance_to_def sample_gate_open map_gate_error_def Let_def advance_reason_def)
qed

section \<open>Witnesses on the created run\<close>

theorem reachable_runs_ok_witness: "run_ok created_run"
  by (rule reachable_runs_ok [OF sample_reachable sample_get])

lemma sample_overridden:
  "\<exists>d'. cmdGateOverride Some 20 (\<lambda>a b c. c) ''why'' ''r1'' sample_db = (0, d') \<and>
     GetQ d' ''r1'' = Inr (advanced_run 20 BrainstormReviewed created_run)"
proof -
  obtain d' where "override_move 20 ''why'' created_run BrainstormReviewed sample_db = Inr d'"
    "GetQ d' ''r1'' = Inr (advanced_run 20 BrainstormReviewed created_run)"
    using move_tx_eq [OF sample_keyed, of created_run "phase_event_of ''r1'' Brainstorm BrainstormReviewed EventOverride
        (Some GateFail) (Some TierHard) (Some ''why'')" 20 BrainstormReviewed] sample_get
    by (auto simp: override_move_def)
  moreover have "\<not> evidence_required created_run" "RuntimeEvidenceForRun Some created_run = Inr no_runtime_config"
    by (simp_all add: evidence_required_def RuntimeEvidenceForRun_def runtime_evidence_of_def)
  ultimately show ?thesis
    by (simp add: cmdGateOverride_def sample_get sample_step Let_def)
qed

theorem trail_determines_phase_witness:
  "\<exists>d'. cmdGateOverride Some 20 (\<lambda>a b c. c) ''why'' ''r1'' sample_db = (0, d') \<and>
     replay Brainstorm (trail ''r1'' (phase_events d')) = BrainstormReviewed"
proof -
  obtain d' where d': "cmdGateOverride Some 20 (\<lambda>a b c. c) ''why'' ''r1'' sample_db = (0, d')"
    "GetQ d' ''r1'' = Inr (advanced_run 20 BrainstormReviewed created_run)"
    using sample_overridden by blast
  have "reachable Some d'"
    using sample_reachable kernel_step.single [OF phase_step.override [OF d'(1)]]
    unfolding reachable_def by (rule rtranclp.rtrancl_into_rtrancl)
  from trail_determines_phase [OF this d'(2)] d'(1) show ?thesis
    by (auto simp: initial_phase_def)
qed

theorem advance_moves_forward_witness:
  "\<exists>res d' cs. Advance sample_env (sample_config\<lparr>Priority := 9\<rparr>) ''r1'' sample_db = Some (Inr (res, d', cs))
     \<and> ChainPhaseIndex DefaultChain Brainstorm < ChainPhaseIndex DefaultChain (arToPhase res)"
proof -
  from sample_advanced obtain res d' cs where
    a: "Advance sample_env (sample_config\<lparr>Priority := 9\<rparr>) ''r1'' sample_db = Some (Inr (res, d', cs))"
      "arAdvanced res" by blast
  have "distinct (ResolveChain created_run)"
    using DefaultChain_well_formed by (simp add: well_formed_chain_def)
  from advance_moves_forward [OF a(1) sample_keyed sample_get this a(2)] a(1) show ?thesis by auto
qed

theorem advance_returns_witness:
  "\<exists>out. Advance sample_env sample_config ''r1'' sample_db = Some out"
  using advance_returns [OF sample_reachable sample_get, of sample_env sample_config] by blast

theorem rollback_undoes_advance_witness:
  "\<exists>d' rr d'' cs r''. Rollback 30 True ''r1'' Brainstorm ''why'' d' = Inr (rr, d'', cs)
     \<and> GetQ d'' ''r1'' = Inr r'' \<and> rPhase r'' = Brainstorm \<and> last (rrRolledBackPhases rr) = BrainstormReviewed"
proof -
  from sample_advanced obtain res d' cs where
    a: "Advance sample_env (sample_config\<lparr>Priority := 9\<rparr>) ''r1'' sample_db = Some (Inr (res, d', cs))"
      "arAdvanced res" "arToPhase res = BrainstormReviewed" by blast
  have ok: "run_ok created_run"
    by (rule fresh_run_ok) (simp add: fresh_run_def initial_phase_def)
  from rollback_undoes_advance [OF a(1) sample_keyed sample_get ok a(2), where now = 30 and cb = True
      and reason = "''why''"] a(3)
  show ?thesis by auto
qed

text \<open>The default gate of the first transition wants an artifact and there is none.\<close>

lemma sample_gate_blocks:
  "evaluateGate Some (\<lambda>c r a. Some ''proof'') created_run sample_config Brainstorm BrainstormReviewed
     (advance_queriers sample_env created_run sample_db)
   = Inr (outcome GateFail TierHard ''default''
       (Some [condition (rule CheckArtifactExists Brainstorm []) GateFail (Some 0) (NoArtifactsFound Brainstorm)]))"
proof -
  have "rGateRules created_run = None" "rParentRunID created_run = None" "rBudgetEnforce created_run = False"
    by (simp_all add: created_run_def new_run_def)
  moreover have "gateRules (Brainstorm, BrainstormReviewed) = Some [rule CheckArtifactExists Brainstorm []]"
    by (simp add: gateRules_def)
  ultimately show ?thesis
    by (simp add: gate_eval runtime_terminal_def advance_queriers_def tx_runtrack_def sample_db_def empty_db_def)
qed

definition sample_update :: config_update where
  "sample_update = \<lparr>ucComplexity = Some 5, ucAutoAdvance = None, ucForceFull = None,
     ucMaxDispatches = None, ucMetadataMerge = ''{}''\<rparr>"

lemma sample_configured:
  "\<exists>d'. UpdateConfiguration (\<lambda>_ d. d) 30 Some (\<lambda>_. Some []) ''r1'' sample_update sample_db = (None, d')"
proof -
  have merge: "merge_candidate Some (\<lambda>_. Some []) sample_update created_run = Inr (Some (Some (Some [])))"
    by (simp add: merge_candidate_def sample_update_def merge_base_def MergeMetadata_def
        validateSealedCloseGate_def close_gate_of_def jget_def validateMetadataObject_def Let_def
        validateRuntimeRun_def RuntimeEvidenceForRun_def runtime_evidence_of_def no_runtime_config_def)
  let ?P = "\<lambda>r'. rID r' = ''r1'' \<and> (rMetadata r' = None \<and> rPhase r' = Brainstorm \<and> rStatus r' = StatusActive)"
  let ?d2 = "exec_runs ?P (SetConfig (ucComplexity sample_update) (ucAutoAdvance sample_update)
      (ucForceFull sample_update) (ucMaxDispatches sample_update) (Some (Some (Some []))) 30) sample_db"
  have aff: "rows_affected ?P (runs sample_db) = 1"
    by (simp add: rows_affected_def sample_db_def)
  have "\<exists>r2. GetQ ?d2 ''r1'' = Inr r2"
    using sample_get by (simp add: GetQ_exec_runs del: change_run.simps)
  then obtain r2 where r2: "GetQ ?d2 ''r1'' = Inr r2" by blast
  obtain d3 where d3: "AddEventQ 30 (phase_event_of ''r1'' (rPhase r2) (rPhase r2) EventSet None None None) ?d2 = Inr d3"
    using AddEventQ_total [of "phase_event_of ''r1'' (rPhase r2) (rPhase r2) EventSet None None None" ?d2 30]
      ids_member [OF r2] by auto
  have "config_attempts (Suc n) (\<lambda>_ d. d) 30 Some (\<lambda>_. Some []) ''r1'' sample_update sample_db = (None, d3)" for n
    using sample_get merge aff r2 d3 by (simp add: Get_GetQ Let_def)
  from this [of 7] have "config_attempts metadataMergeAttempts (\<lambda>_ d. d) 30 Some (\<lambda>_. Some []) ''r1''
      sample_update sample_db = (None, d3)"
    by (simp add: metadataMergeAttempts_def)
  then show ?thesis
    by (simp add: UpdateConfiguration_def) (simp add: sample_update_def)
qed

section \<open>A run under a bound gate\<close>

text \<open>A run bound to runtime evidence when it is created, then cancelled.\<close>

definition bound_metadata :: metadata where
  "bound_metadata = Some (Some
     [(''close_gate'', JObj [(''bead_id'', JStr ''b''),
        (''requirements'', JArr [JStr runtimeEvidenceRequirement])])])"

definition bound_run :: run where
  "bound_run = created_run\<lparr>rMetadata := bound_metadata\<rparr>"

definition bound_db :: db where
  "bound_db = sample_db\<lparr>runs := [bound_run]\<rparr>"

definition bound_config :: "json runtime_config" where
  "bound_config = no_runtime_config\<lparr>rcRequired := True, rcBeadID := ''b''\<rparr>"

lemma bound_evidence: "runtime_evidence_of Some bound_metadata = Inr bound_config"
  by (simp add: runtime_evidence_of_def bound_metadata_def close_gate_of_def jget_def requirementSet_def
    json_str_def bound_config_def runtimeEvidenceRequirement_def)

lemma bound_valid: "checked_metadata Some (sample_run\<lparr>rMetadata := bound_metadata\<rparr>) = Inr bound_metadata"
proof -
  have "canonicalMetadataPointer Some bound_metadata = Inr bound_metadata"
    by (simp add: bound_metadata_def canonicalMetadataPointer_def CanonicalMetadata_def
      validateMetadataObject_def jget_def requirementSet_def runtimeEvidenceRequirement_def
      blank_def)
  moreover have "rcRequired bound_config" by (simp add: bound_config_def)
  moreover have "bound_metadata \<noteq> None" by (simp add: bound_metadata_def)
  ultimately show ?thesis
    by (simp add: checked_metadata_def validateRuntimeRun_def RuntimeEvidenceForRun_def bound_evidence
      blank_def ResolveChain_def DefaultChain_def sample_run_def)
qed

lemma bound_reachable: "reachable Some bound_db"
proof -
  have "Create Some ''r1'' 10 (sample_run\<lparr>rMetadata := bound_metadata\<rparr>) empty_db = Inr bound_db"
    by (simp add: Create_def bound_valid insert_run_def insertReplayInput_def bound_db_def sample_db_def
      bound_run_def created_run_def new_run_def empty_db_def strPtrOrNil_def initial_phase_def warn_pct_def)
  then show ?thesis
    unfolding reachable_def
    by (intro r_into_rtranclp kernel_step.single phase_step.create) (auto simp: chain_checked_def)
qed

theorem seal_is_permanent_witness:
  "\<exists>d' r' c'. UpdateStatus 40 ''r1'' StatusCancelled bound_db = Inr d' \<and> GetQ d' ''r1'' = Inr r'
     \<and> sealed_as Some r' c' \<and> seal_kept bound_config c'"
proof -
  have get: "GetQ bound_db ''r1'' = Inr bound_run"
    by (simp add: GetQ_def bound_db_def bound_run_def)
  have sealed: "sealed_as Some bound_run bound_config"
    by (simp add: sealed_as_def bound_run_def bound_evidence) (simp add: bound_config_def)
  obtain d' where d': "UpdateStatus 40 ''r1'' StatusCancelled bound_db = Inr d'"
    by (simp add: UpdateStatus_def update_by_id_def rows_affected_def bound_db_def bound_run_def)
  then have "(kernel_step Some)\<^sup>*\<^sup>* bound_db d'"
    by (intro r_into_rtranclp kernel_step.single phase_step.cancel)
  from seal_is_permanent [OF bound_reachable get sealed this] d' show ?thesis by blast
qed

end
