(* ===== verification/RuntimeProof.thy ===== *)
theory RuntimeProof
  imports GoLib
begin

text \<open>
  Verification of runtime-evidence receipts, \<^verbatim>\<open>pkg/runtimeproof/runtimeproof.go\<close>.
  Times are nanoseconds; a nil slice is \<open>None\<close> where the code tells it from an
  empty one; a Go map is the list of its entries. The file system, the clock,
  the host name, git, SHA-256 (as its hex text), the strict JSON decoder and
  \<^verbatim>\<open>time.Parse\<close> are the \<open>environment\<close>. An error is the constructor of its format
  string.
\<close>

section \<open>Receipts, expectations and options\<close>

definition SchemaVersion :: int where "SchemaVersion = 1"
definition DefaultMaxReceiptBytes :: int where "DefaultMaxReceiptBytes = 256 * 2 ^ 10"
definition DefaultMaxArtifactBytes :: int where "DefaultMaxArtifactBytes = 512 * 2 ^ 20"
definition Minute :: int where "Minute = 60 * 10 ^ 9"
definition DefaultMaxAge :: int where "DefaultMaxAge = 24 * 60 * Minute"

definition StateVerified :: string where [const_defs]: "StateVerified = ''VERIFIED''"
definition StateNotApplicable :: string where [const_defs]: "StateNotApplicable = ''NOT_APPLICABLE''"

record subject =
  suBeadID :: string
  suRunID :: string
  suProjectRoot :: string
  suGitHead :: string
  suHost :: string
  suCreatedAt :: string

record proof_artifact =
  paKind :: string
  paBuildPath :: string
  paInstalledPath :: string
  paBuildDigest :: string
  paInstalledDigest :: string
  paRuntimeDigest :: string

record boot =
  boStartedForProbe :: bool
  boProcessID :: int
  boStartedAt :: string
  boInstanceNonce :: string
  boObservedNonce :: string
  boState :: string

record health =
  heRequiredSubsystems :: "string list"
  heObserved :: "(string \<times> string) list"
  heFailureClasses :: "(string \<times> string) list"

record assertion =
  asName :: string
  asState :: string
  asEvidence :: string

record proof_event =
  evEventID :: string
  evObservedEventID :: string
  evBeforeDigest :: string
  evAfterDigest :: string
  evAssertions :: "assertion list"

record surface_scan =
  ssExpected :: "string list"
  ssObserved :: "string list"
  ssMissing :: "string list option"
  ssUnexpected :: "string list option"

record resource =
  reKind :: string
  reFingerprint :: string
  reOwnership :: string

record isolation =
  isResources :: "resource list"
  isCollisions :: "string list option"

record receipt =
  rtSchemaVersion :: int
  rtSubject :: subject
  rtArtifact :: proof_artifact
  rtBoot :: boot
  rtHealth :: health
  rtEvent :: proof_event
  rtSurfaceScan :: surface_scan
  rtIsolation :: isolation
  rtOwnedResourcesRemaining :: "string list option"

record expectations =
  exBuildPath :: string
  exInstalledPath :: string
  exRequiredSubsystems :: "string list"
  exNotApplicable :: "(string \<times> bool) list"
  exRequiredAssertions :: "string list"
  exSurfaces :: "string list"
  exRequiredResources :: "(string \<times> string) list"

record environment =
  enNow :: int
  enHostname :: "string option"
  enGitHead :: "string \<Rightarrow> string option"
  enReadRegularFile :: "string \<Rightarrow> int \<Rightarrow> string option"
  enSHA256 :: "string \<Rightarrow> string"
  enDecodeReceipt :: "string \<Rightarrow> receipt option"
  enParseTime :: "string \<Rightarrow> int option"

record verify_options =
  voBeadID :: string
  voRunID :: string
  voProjectRoot :: string
  voArtifactHash :: string
  voRunCreatedAt :: int
  voMaxAge :: int
  voMaxReceiptBytes :: int
  voMaxArtifactBytes :: int
  voExpectations :: expectations

record summary =
  smSchemaVersion :: int
  smProofHash :: string
  smRunID :: string
  smGitHead :: string
  smVerifiedAt :: int
  smHostFingerprint :: string

record verify_result =
  vrReceipt :: receipt
  vrProofHash :: string
  vrSummary :: summary

datatype resource_error_kind = ResourceKindUnverifiable string | ResourceNotIsolated string

datatype expectations_error =
    ExpectedPathsNotAbsolute | ExpectedPathsNotDistinct | SubsystemsInvalid | AssertionsInvalid
  | SurfacesInvalid | NotApplicableClassInvalid | ResourcesEmpty | BadResource resource_error_kind

datatype options_error =
    ExpectedScopeRequired | ProjectRootNotAbsolute | ArtifactHashInvalid | RunCreationTimeRequired
  | BadExpectations expectations_error

datatype subject_error =
    SchemaVersionMismatch int | BeadMismatch string | RunMismatch string | ProjectRootMismatch string
  | CreatedAtInvalid | ReceiptStale string | ReceiptPredatesRun string | ReceiptInFuture string
  | HostUnknown | HostMismatch string string | GitHeadUnknown | GitHeadMismatch string string

datatype artifact_proof_error =
    ArtifactKindUnsupported string | PathsNotAbsolute | BuildPathMismatch string
  | InstalledPathMismatch string | PathsNotDistinct | BuildUnreadable | InstalledUnreadable
  | BuildDigestMismatch string string | InstalledDigestMismatch string string
  | RuntimeDigestMismatch string string | DigestsDiffer

datatype boot_error =
    NotStartedForProbe | ProcessIDNotPositive | StartedAtInvalid | StartedOutsideChronology
  | NonceMismatch | BootNotVerified string

datatype health_error =
    NoSubsystem | SubsystemNamesInvalid | SubsystemsMismatch | SubsystemUnhealthy string
  | FailureClassCount | FailureClassMissing string | StartupNotVerified string
  | NotApplicableUnauthorized string | FailureClassBad string string

datatype event_error =
    EventCorrelationMismatch | EventDigestsInvalid | NoStateDelta | NoAssertion
  | AssertionUnverified string | AssertionNamesInvalid | AssertionsMismatch

datatype surface_error =
    SurfaceFieldMissing | SurfaceNamesInvalid | SurfacesMismatch | SurfaceScanMismatch

datatype isolation_error =
    NoIsolatedResource | CollisionsMissing | IsolationCollision nat | BadIsolatedResource resource_error_kind
  | FingerprintInvalid | FingerprintNotUnique | ResourceScopeMismatch

datatype receipt_error =
    BadSubject subject_error | BadArtifact artifact_proof_error | BadBoot boot_error
  | BadHealth health_error | BadEvent event_error | BadSurfaces surface_error
  | BadIsolation isolation_error | CleanupMissing | CleanupIncomplete nat

datatype proof_error =
    BadOptions options_error | ReceiptUnreadable | ContentHashMismatch string string
  | ReceiptUndecodable | BadReceipt receipt_error

section \<open>Helpers\<close>

definition lower_hex :: "char \<Rightarrow> bool" where
  "lower_hex c \<longleftrightarrow> CHR ''0'' \<le> c \<and> c \<le> CHR ''9'' \<or> CHR ''a'' \<le> c \<and> c \<le> CHR ''f''"

definition digestPattern :: "string \<Rightarrow> bool" where
  "digestPattern s \<longleftrightarrow> length s = 71 \<and> take 7 s = ''sha256:'' \<and> list_all lower_hex (drop 7 s)"

definition gitHeadPattern :: "string \<Rightarrow> bool" where
  "gitHeadPattern s \<longleftrightarrow> 40 \<le> length s \<and> length s \<le> 64 \<and> list_all lower_hex s"

definition sameStrings :: "string list \<Rightarrow> string list \<Rightarrow> bool" where
  "sameStrings a b \<longleftrightarrow>
     length a = length b \<and> (let aa = sort a; bb = sort b in list_all (\<lambda>i. aa ! i = bb ! i) [0..<length aa])"

fun blank_or_dup :: "string list \<Rightarrow> string list \<Rightarrow> bool" where
  "blank_or_dup seen [] = False"
| "blank_or_dup seen (v # vs) = (v = [] \<or> v \<in> set seen \<or> blank_or_dup (v # seen) vs)"

definition hasBlankOrDuplicate :: "string list \<Rightarrow> bool" where
  "hasBlankOrDuplicate values = blank_or_dup [] values"

definition hashBytes :: "environment \<Rightarrow> string \<Rightarrow> string" where
  "hashBytes env b = ''sha256:'' @ enSHA256 env b"

text \<open>A sequence of guards: the first error, if any.\<close>

fun first_error :: "'e option list \<Rightarrow> 'e option" where
  "first_error [] = None"
| "first_error (None # rest) = first_error rest"
| "first_error (Some e # rest) = Some e"

definition fail_if :: "bool \<Rightarrow> 'e \<Rightarrow> 'e option" where
  "fail_if b e = (if b then Some e else None)"

lemma fail_if_None [simp]: "fail_if b e = None \<longleftrightarrow> \<not> b"
  by (simp add: fail_if_def)

lemma first_error_None [simp]: "first_error (x # xs) = None \<longleftrightarrow> x = None \<and> first_error xs = None"
  by (cases x) simp_all

section \<open>Expectations\<close>

definition resource_error :: "string \<Rightarrow> string \<Rightarrow> resource_error_kind option" where
  "resource_error kind ownership =
     (if kind \<noteq> ''port'' \<and> kind \<noteq> ''path'' then Some (ResourceKindUnverifiable kind)
      else if ownership \<noteq> ''ephemeral'' \<and> ownership \<noteq> ''exclusive'' then Some (ResourceNotIsolated ownership)
      else None)"

definition allowedClasses :: "string list" where
  "allowedClasses = [''dependency_injection'', ''connection'', ''projection_catchup'']"

definition ValidateExpectations :: "expectations \<Rightarrow> expectations_error option" where
  "ValidateExpectations e =
     first_error
      ([fail_if (\<not> IsAbs (exBuildPath e) \<or> \<not> IsAbs (exInstalledPath e)) ExpectedPathsNotAbsolute,
        fail_if (Clean (exBuildPath e) = Clean (exInstalledPath e)) ExpectedPathsNotDistinct,
        fail_if (exRequiredSubsystems e = [] \<or> hasBlankOrDuplicate (exRequiredSubsystems e)) SubsystemsInvalid,
        fail_if (exRequiredAssertions e = [] \<or> hasBlankOrDuplicate (exRequiredAssertions e)) AssertionsInvalid,
        fail_if (exSurfaces e = [] \<or> hasBlankOrDuplicate (exSurfaces e)) SurfacesInvalid,
        fail_if (list_ex (\<lambda>(cls, allowed). \<not> allowed \<or> cls \<notin> set allowedClasses) (exNotApplicable e))
          NotApplicableClassInvalid,
        fail_if (exRequiredResources e = []) ResourcesEmpty]
       @ map (\<lambda>(kind, ownership). map_option BadResource (resource_error kind ownership)) (exRequiredResources e))"

section \<open>The parts of a receipt\<close>

definition validateBoot :: "environment \<Rightarrow> boot \<Rightarrow> int \<Rightarrow> int \<Rightarrow> boot_error option" where
  "validateBoot env b runCreatedAt receiptCreatedAt =
     (if \<not> boStartedForProbe b then Some NotStartedForProbe
      else if boProcessID b \<le> 0 then Some ProcessIDNotPositive
      else case enParseTime env (boStartedAt b) of
        None \<Rightarrow> Some StartedAtInvalid
      | Some startedAt \<Rightarrow>
          if startedAt < runCreatedAt \<or> receiptCreatedAt < startedAt then Some StartedOutsideChronology
          else if boInstanceNonce b = [] \<or> boObservedNonce b \<noteq> boInstanceNonce b then Some NonceMismatch
          else if boState b \<noteq> StateVerified then Some (BootNotVerified (boState b))
          else None)"

definition validateArtifact :: "environment \<Rightarrow> proof_artifact \<Rightarrow> verify_options \<Rightarrow> artifact_proof_error option" where
  "validateArtifact env a opts =
     (let ex = voExpectations opts in
      if paKind a \<noteq> ''file'' then Some (ArtifactKindUnsupported (paKind a))
      else if \<not> IsAbs (paBuildPath a) \<or> \<not> IsAbs (paInstalledPath a) then Some PathsNotAbsolute
      else if Clean (paBuildPath a) \<noteq> Clean (exBuildPath ex) then Some (BuildPathMismatch (paBuildPath a))
      else if Clean (paInstalledPath a) \<noteq> Clean (exInstalledPath ex)
        then Some (InstalledPathMismatch (paInstalledPath a))
      else if Clean (paBuildPath a) = Clean (paInstalledPath a) then Some PathsNotDistinct
      else case enReadRegularFile env (paBuildPath a) (voMaxArtifactBytes opts) of
        None \<Rightarrow> Some BuildUnreadable
      | Some buildBytes \<Rightarrow>
          (case enReadRegularFile env (paInstalledPath a) (voMaxArtifactBytes opts) of
             None \<Rightarrow> Some InstalledUnreadable
           | Some installedBytes \<Rightarrow>
               let buildDigest = hashBytes env buildBytes; installedDigest = hashBytes env installedBytes in
               if \<not> digestPattern (paBuildDigest a) \<or> paBuildDigest a \<noteq> buildDigest
                 then Some (BuildDigestMismatch (paBuildDigest a) buildDigest)
               else if \<not> digestPattern (paInstalledDigest a) \<or> paInstalledDigest a \<noteq> installedDigest
                 then Some (InstalledDigestMismatch (paInstalledDigest a) installedDigest)
               else if \<not> digestPattern (paRuntimeDigest a) \<or> paRuntimeDigest a \<noteq> installedDigest
                 then Some (RuntimeDigestMismatch (paRuntimeDigest a) installedDigest)
               else if buildDigest \<noteq> installedDigest then Some DigestsDiffer
               else None))"

definition failure_class_error :: "health \<Rightarrow> expectations \<Rightarrow> string \<Rightarrow> health_error option" where
  "failure_class_error h expected cls =
     (case map_of (heFailureClasses h) cls of
        None \<Rightarrow> Some (FailureClassMissing cls)
      | Some st \<Rightarrow>
          if cls = ''startup'' \<and> st \<noteq> StateVerified then Some (StartupNotVerified st)
          else if st = StateNotApplicable \<and> map_of (exNotApplicable expected) cls \<noteq> Some True
            then Some (NotApplicableUnauthorized cls)
          else if st \<noteq> StateVerified \<and> st \<noteq> StateNotApplicable then Some (FailureClassBad cls st)
          else None)"

definition requiredClasses :: "string list" where
  "requiredClasses = [''startup'', ''dependency_injection'', ''connection'', ''projection_catchup'']"

definition validateHealth :: "health \<Rightarrow> expectations \<Rightarrow> health_error option" where
  "validateHealth h expected =
     first_error
      ([fail_if (heRequiredSubsystems h = []) NoSubsystem,
        fail_if (hasBlankOrDuplicate (heRequiredSubsystems h)) SubsystemNamesInvalid,
        fail_if (\<not> sameStrings (heRequiredSubsystems h) (exRequiredSubsystems expected)) SubsystemsMismatch]
       @ map (\<lambda>name. fail_if (map_of (heObserved h) name \<noteq> Some ''healthy'') (SubsystemUnhealthy name))
           (heRequiredSubsystems h)
       @ [fail_if (length (heFailureClasses h) \<noteq> length requiredClasses) FailureClassCount]
       @ map (failure_class_error h expected) requiredClasses)"

definition assertion_error :: "assertion \<Rightarrow> event_error option" where
  "assertion_error a =
     fail_if (asName a = [] \<or> asEvidence a = [] \<or> asState a \<noteq> StateVerified) (AssertionUnverified (asName a))"

definition validateEvent :: "proof_event \<Rightarrow> expectations \<Rightarrow> event_error option" where
  "validateEvent e expected =
     (let names = map asName (evAssertions e) in
      first_error
       ([fail_if (evEventID e = [] \<or> evObservedEventID e \<noteq> evEventID e) EventCorrelationMismatch,
         fail_if (\<not> digestPattern (evBeforeDigest e) \<or> \<not> digestPattern (evAfterDigest e)) EventDigestsInvalid,
         fail_if (evBeforeDigest e = evAfterDigest e) NoStateDelta,
         fail_if (evAssertions e = []) NoAssertion]
        @ map assertion_error (evAssertions e)
        @ [fail_if (hasBlankOrDuplicate names) AssertionNamesInvalid,
           fail_if (\<not> sameStrings names (exRequiredAssertions expected)) AssertionsMismatch]))"

definition validateSurfaces :: "surface_scan \<Rightarrow> expectations \<Rightarrow> surface_error option" where
  "validateSurfaces s expected =
     first_error
      [fail_if (ssMissing s = None \<or> ssUnexpected s = None) SurfaceFieldMissing,
       fail_if (ssExpected s = [] \<or> hasBlankOrDuplicate (ssExpected s) \<or> hasBlankOrDuplicate (ssObserved s))
         SurfaceNamesInvalid,
       fail_if (\<not> sameStrings (ssExpected s) (exSurfaces expected)) SurfacesMismatch,
       fail_if (ssMissing s \<noteq> Some [] \<or> ssUnexpected s \<noteq> Some [] \<or> \<not> sameStrings (ssExpected s) (ssObserved s))
         SurfaceScanMismatch]"

fun resource_scan :: "string list \<Rightarrow> resource list \<Rightarrow> isolation_error option" where
  "resource_scan seen [] = None"
| "resource_scan seen (x # xs) =
     (case resource_error (reKind x) (reOwnership x) of
        Some e \<Rightarrow> Some (BadIsolatedResource e)
      | None \<Rightarrow>
          if \<not> digestPattern (reFingerprint x) then Some FingerprintInvalid
          else if reFingerprint x \<in> set seen then Some FingerprintNotUnique
          else resource_scan (reFingerprint x # seen) xs)"

definition scope_key :: "string \<Rightarrow> string \<Rightarrow> string" where
  "scope_key kind ownership = kind @ [char_of (0::nat)] @ ownership"

definition validateIsolation :: "isolation \<Rightarrow> expectations \<Rightarrow> isolation_error option" where
  "validateIsolation i expected =
     first_error
      [fail_if (isResources i = []) NoIsolatedResource,
       (case isCollisions i of
          None \<Rightarrow> Some CollisionsMissing
        | Some cs \<Rightarrow> fail_if (cs \<noteq> []) (IsolationCollision (length cs))),
       resource_scan [] (isResources i),
       fail_if (\<not> sameStrings (map (\<lambda>x. scope_key (reKind x) (reOwnership x)) (isResources i))
                  (map (\<lambda>(kind, ownership). scope_key kind ownership) (exRequiredResources expected)))
         ResourceScopeMismatch]"

section \<open>The receipt and the file\<close>

definition validateReceipt :: "environment \<Rightarrow> receipt \<Rightarrow> verify_options \<Rightarrow> receipt_error option" where
  "validateReceipt env r opts =
     (let s = rtSubject r; now = enNow env in
      if rtSchemaVersion r \<noteq> SchemaVersion then Some (BadSubject (SchemaVersionMismatch (rtSchemaVersion r)))
      else if suBeadID s \<noteq> voBeadID opts then Some (BadSubject (BeadMismatch (suBeadID s)))
      else if suRunID s \<noteq> voRunID opts then Some (BadSubject (RunMismatch (suRunID s)))
      else if suProjectRoot s \<noteq> voProjectRoot opts then Some (BadSubject (ProjectRootMismatch (suProjectRoot s)))
      else case enParseTime env (suCreatedAt s) of
        None \<Rightarrow> Some (BadSubject CreatedAtInvalid)
      | Some createdAt \<Rightarrow>
          if time_sub now createdAt > voMaxAge opts then Some (BadSubject (ReceiptStale (suCreatedAt s)))
          else if createdAt < voRunCreatedAt opts then Some (BadSubject (ReceiptPredatesRun (suCreatedAt s)))
          else if now + Minute < createdAt then Some (BadSubject (ReceiptInFuture (suCreatedAt s)))
          else case enHostname env of
            None \<Rightarrow> Some (BadSubject HostUnknown)
          | Some host \<Rightarrow>
              if suHost s \<noteq> host then Some (BadSubject (HostMismatch (suHost s) host))
              else case enGitHead env (voProjectRoot opts) of
                None \<Rightarrow> Some (BadSubject GitHeadUnknown)
              | Some out \<Rightarrow>
                  let gitHead = TrimSpace out in
                  if \<not> gitHeadPattern gitHead \<or> suGitHead s \<noteq> gitHead
                    then Some (BadSubject (GitHeadMismatch (suGitHead s) gitHead))
                  else first_error
                   [map_option BadArtifact (validateArtifact env (rtArtifact r) opts),
                    map_option BadBoot (validateBoot env (rtBoot r) (voRunCreatedAt opts) createdAt),
                    map_option BadHealth (validateHealth (rtHealth r) (voExpectations opts)),
                    map_option BadEvent (validateEvent (rtEvent r) (voExpectations opts)),
                    map_option BadSurfaces (validateSurfaces (rtSurfaceScan r) (voExpectations opts)),
                    map_option BadIsolation (validateIsolation (rtIsolation r) (voExpectations opts)),
                    (case rtOwnedResourcesRemaining r of
                       None \<Rightarrow> Some CleanupMissing
                     | Some rest \<Rightarrow> fail_if (rest \<noteq> []) (CleanupIncomplete (length rest)))])"

text \<open>
  \<^verbatim>\<open>readRegularFile\<close> on the observations the system calls return: the \<^verbatim>\<open>Lstat\<close>, the
  open that follows no link, the \<^verbatim>\<open>Stat\<close> of the open file and its content. The
  open may see another file than the \<^verbatim>\<open>Lstat\<close> did.
\<close>

record file_info =
  fiSymlink :: bool
  fiRegular :: bool
  fiSize :: int
  fiInode :: int

record open_file =
  ofStat :: "file_info option"
  ofContent :: "string option"

record file_system =
  fsLstat :: "string \<Rightarrow> file_info option"
  fsOpen :: "string \<Rightarrow> open_file option"

datatype read_error =
    PathNotAbsolute | LstatFailed | NotRegularFile | FileTooLarge int | OpenFailed | StatFailed
  | ChangedBeforeOpen | ReadFailed

definition readRegularFile :: "file_system \<Rightarrow> string \<Rightarrow> int \<Rightarrow> read_error + string" where
  "readRegularFile fs path limit =
     (if \<not> IsAbs path then Inl PathNotAbsolute
      else case fsLstat fs path of
        None \<Rightarrow> Inl LstatFailed
      | Some info \<Rightarrow>
          if fiSymlink info \<or> \<not> fiRegular info then Inl NotRegularFile
          else if fiSize info > limit then Inl (FileTooLarge (fiSize info))
          else case fsOpen fs path of
            None \<Rightarrow> Inl OpenFailed
          | Some f \<Rightarrow>
              (case ofStat f of
                 None \<Rightarrow> Inl StatFailed
               | Some opened \<Rightarrow>
                   if \<not> fiRegular opened then Inl NotRegularFile
                   else if fiInode info \<noteq> fiInode opened then Inl ChangedBeforeOpen
                   else case ofContent f of
                     None \<Rightarrow> Inl ReadFailed
                   | Some content \<Rightarrow>
                       let b = take (nat (limit + 1)) content in
                       if int (length b) > limit then Inl (FileTooLarge (int (length b))) else Inr b))"

text \<open>The zero \<^verbatim>\<open>time.Time\<close>, the first instant of year 1, in Unix nanoseconds.\<close>

definition zero_time :: int where "zero_time = - 62135596800 * 10 ^ 9"

definition withDefaults :: "verify_options \<Rightarrow> verify_options" where
  "withDefaults opts = opts
     \<lparr>voMaxAge := (if voMaxAge opts \<le> 0 then DefaultMaxAge else voMaxAge opts),
      voMaxReceiptBytes := (if voMaxReceiptBytes opts \<le> 0 then DefaultMaxReceiptBytes else voMaxReceiptBytes opts),
      voMaxArtifactBytes := (if voMaxArtifactBytes opts \<le> 0 then DefaultMaxArtifactBytes else voMaxArtifactBytes opts)\<rparr>"

definition validateOptions :: "verify_options \<Rightarrow> options_error option" where
  "validateOptions opts =
     first_error
      [fail_if (voBeadID opts = [] \<or> voRunID opts = [] \<or> voProjectRoot opts = []) ExpectedScopeRequired,
       fail_if (\<not> IsAbs (voProjectRoot opts)) ProjectRootNotAbsolute,
       fail_if (\<not> digestPattern (voArtifactHash opts)) ArtifactHashInvalid,
       fail_if (voRunCreatedAt opts = zero_time) RunCreationTimeRequired,
       map_option BadExpectations (ValidateExpectations (voExpectations opts))]"

definition VerifyFile :: "environment \<Rightarrow> string \<Rightarrow> verify_options \<Rightarrow> proof_error + verify_result" where
  "VerifyFile env receiptPath opts0 =
     (let opts = withDefaults opts0 in
      case validateOptions opts of
        Some e \<Rightarrow> Inl (BadOptions e)
      | None \<Rightarrow>
          (case enReadRegularFile env receiptPath (voMaxReceiptBytes opts) of
             None \<Rightarrow> Inl ReceiptUnreadable
           | Some receiptBytes \<Rightarrow>
               let proofHash = hashBytes env receiptBytes in
               if proofHash \<noteq> voArtifactHash opts then Inl (ContentHashMismatch proofHash (voArtifactHash opts))
               else case enDecodeReceipt env receiptBytes of
                 None \<Rightarrow> Inl ReceiptUndecodable
               | Some r \<Rightarrow>
                   (case validateReceipt env r opts of
                      Some e \<Rightarrow> Inl (BadReceipt e)
                    | None \<Rightarrow> Inr
                        \<lparr>vrReceipt = r, vrProofHash = proofHash,
                         vrSummary = \<lparr>smSchemaVersion = rtSchemaVersion r, smProofHash = proofHash,
                           smRunID = suRunID (rtSubject r), smGitHead = suGitHead (rtSubject r),
                           smVerifiedAt = enNow env, smHostFingerprint = hashBytes env (suHost (rtSubject r))\<rparr>\<rparr>)))"

end
