(* ===== verification/RuntimeGate.thy ===== *)
theory RuntimeGate
  imports RunWitness RuntimeProof "HOL-Library.Multiset"
begin

text \<open>
  What an accepted runtime-evidence receipt proves, and the close gate of
  \<^verbatim>\<open>internal/phase/gate.go\<close> with the verifier of \<^verbatim>\<open>pkg/runtimeproof\<close> in the place
  of its argument: the composition of the two packages.
\<close>

section \<open>Helpers\<close>

lemma sameStrings_mset: "sameStrings a b \<longleftrightarrow> mset a = mset b"
proof
  assume "sameStrings a b"
  then have len: "length a = length b" and eq: "\<forall>i < length a. sort a ! i = sort b ! i"
    by (auto simp: sameStrings_def Let_def list_all_iff)
  then have "sort a = sort b" by (intro nth_equalityI) auto
  then show "mset a = mset b" by (metis mset_sort)
next
  assume "mset a = mset b"
  then have "length a = length b" "sort a = sort b"
    by (metis size_mset, metis properties_for_sort mset_sort sorted_sort)
  then show "sameStrings a b"
    by (simp add: sameStrings_def list_all_iff)
qed

lemma blank_or_dup_iff: "blank_or_dup seen vs \<longleftrightarrow> [] \<in> set vs \<or> \<not> distinct vs \<or> set vs \<inter> set seen \<noteq> {}"
  by (induction seen vs rule: blank_or_dup.induct) auto

lemma hasBlankOrDuplicate_iff: "hasBlankOrDuplicate vs \<longleftrightarrow> [] \<in> set vs \<or> \<not> distinct vs"
  by (simp add: hasBlankOrDuplicate_def blank_or_dup_iff)

lemma first_error_append [simp]: "first_error (xs @ ys) = None \<longleftrightarrow> first_error xs = None \<and> first_error ys = None"
  by (induction xs) auto

lemma first_error_map [simp]: "first_error (map f xs) = None \<longleftrightarrow> (\<forall>x \<in> set xs. f x = None)"
  by (induction xs) auto

definition isolated :: "string \<Rightarrow> string \<Rightarrow> bool" where
  "isolated kind ownership \<longleftrightarrow> kind \<in> {''port'', ''path''} \<and> ownership \<in> {''ephemeral'', ''exclusive''}"

lemma resource_error_None: "resource_error kind ownership = None \<longleftrightarrow> isolated kind ownership"
  by (simp add: resource_error_def isolated_def)

lemma resource_scan_None:
  "resource_scan seen xs = None \<longleftrightarrow>
     (\<forall>x \<in> set xs. isolated (reKind x) (reOwnership x) \<and> digestPattern (reFingerprint x))
     \<and> distinct (map reFingerprint xs) \<and> reFingerprint ` set xs \<inter> set seen = {}"
proof (induction seen xs rule: resource_scan.induct)
  case (1 seen)
  then show ?case by simp
next
  case (2 seen x xs)
  show ?case
  proof (cases "resource_error (reKind x) (reOwnership x)")
    case None
    then have iso: "isolated (reKind x) (reOwnership x)" by (simp add: resource_error_None)
    show ?thesis
    proof (cases "digestPattern (reFingerprint x) \<and> reFingerprint x \<notin> set seen")
      case True
      with 2 None have "resource_scan (reFingerprint x # seen) xs = None \<longleftrightarrow>
          (\<forall>x \<in> set xs. isolated (reKind x) (reOwnership x) \<and> digestPattern (reFingerprint x))
          \<and> distinct (map reFingerprint xs) \<and> reFingerprint ` set xs \<inter> set (reFingerprint x # seen) = {}"
        by simp
      with True None iso show ?thesis by auto
    qed (use None in auto)
  next
    case (Some e)
    then have "\<not> isolated (reKind x) (reOwnership x)" by (simp flip: resource_error_None)
    with Some show ?thesis by auto
  qed
qed

section \<open>What a receipt has to say\<close>

text \<open>
  The contract of a receipt, without the order of the checks: scope and time,
  the artifact on disk, the boot, and observations that are exactly the sealed
  expectations.
\<close>

definition in_scope :: "environment \<Rightarrow> verify_options \<Rightarrow> receipt \<Rightarrow> bool" where
  "in_scope env opts r \<longleftrightarrow>
     rtSchemaVersion r = 1 \<and> suBeadID (rtSubject r) = voBeadID opts \<and> suRunID (rtSubject r) = voRunID opts
     \<and> suProjectRoot (rtSubject r) = voProjectRoot opts \<and> enHostname env = Some (suHost (rtSubject r))
     \<and> (\<exists>out. enGitHead env (voProjectRoot opts) = Some out \<and> suGitHead (rtSubject r) = TrimSpace out
          \<and> gitHeadPattern (TrimSpace out))"

definition fresh_receipt :: "environment \<Rightarrow> verify_options \<Rightarrow> receipt \<Rightarrow> bool" where
  "fresh_receipt env opts r \<longleftrightarrow>
     (\<exists>t b. enParseTime env (suCreatedAt (rtSubject r)) = Some t \<and> enParseTime env (boStartedAt (rtBoot r)) = Some b
        \<and> voRunCreatedAt opts \<le> b \<and> b \<le> t \<and> t \<le> enNow env + Minute
        \<and> time_sub (enNow env) t \<le> voMaxAge opts)"

definition installed_is_built :: "environment \<Rightarrow> verify_options \<Rightarrow> receipt \<Rightarrow> bool" where
  "installed_is_built env opts r \<longleftrightarrow>
     (let a = rtArtifact r; ex = voExpectations opts in
      paKind a = ''file'' \<and> IsAbs (paBuildPath a) \<and> IsAbs (paInstalledPath a)
      \<and> Clean (paBuildPath a) = Clean (exBuildPath ex) \<and> Clean (paInstalledPath a) = Clean (exInstalledPath ex)
      \<and> Clean (paBuildPath a) \<noteq> Clean (paInstalledPath a)
      \<and> (\<exists>bb ib. enReadRegularFile env (paBuildPath a) (voMaxArtifactBytes opts) = Some bb
           \<and> enReadRegularFile env (paInstalledPath a) (voMaxArtifactBytes opts) = Some ib
           \<and> digestPattern (hashBytes env bb) \<and> hashBytes env ib = hashBytes env bb
           \<and> paBuildDigest a = hashBytes env bb \<and> paInstalledDigest a = hashBytes env bb
           \<and> paRuntimeDigest a = hashBytes env bb))"

definition booted :: "receipt \<Rightarrow> bool" where
  "booted r \<longleftrightarrow> boStartedForProbe (rtBoot r) \<and> 0 < boProcessID (rtBoot r) \<and> boInstanceNonce (rtBoot r) \<noteq> []
     \<and> boObservedNonce (rtBoot r) = boInstanceNonce (rtBoot r) \<and> boState (rtBoot r) = StateVerified"

definition healthy_as :: "expectations \<Rightarrow> health \<Rightarrow> bool" where
  "healthy_as ex h \<longleftrightarrow>
     mset (heRequiredSubsystems h) = mset (exRequiredSubsystems ex)
     \<and> (\<forall>n \<in> set (exRequiredSubsystems ex). map_of (heObserved h) n = Some ''healthy'')
     \<and> length (heFailureClasses h) = 4 \<and> map_of (heFailureClasses h) ''startup'' = Some StateVerified
     \<and> (\<forall>c \<in> set allowedClasses.
          map_of (heFailureClasses h) c = Some StateVerified
          \<or> map_of (heFailureClasses h) c = Some StateNotApplicable \<and> map_of (exNotApplicable ex) c = Some True)"

definition asserted_as :: "expectations \<Rightarrow> proof_event \<Rightarrow> bool" where
  "asserted_as ex e \<longleftrightarrow>
     evEventID e \<noteq> [] \<and> evObservedEventID e = evEventID e \<and> digestPattern (evBeforeDigest e)
     \<and> digestPattern (evAfterDigest e) \<and> evBeforeDigest e \<noteq> evAfterDigest e
     \<and> (\<forall>a \<in> set (evAssertions e). asState a = StateVerified \<and> asEvidence a \<noteq> [])
     \<and> mset (map asName (evAssertions e)) = mset (exRequiredAssertions ex)"

definition surfaced_as :: "expectations \<Rightarrow> surface_scan \<Rightarrow> bool" where
  "surfaced_as ex s \<longleftrightarrow> ssMissing s = Some [] \<and> ssUnexpected s = Some []
     \<and> mset (ssExpected s) = mset (exSurfaces ex) \<and> mset (ssObserved s) = mset (exSurfaces ex)"

definition isolated_as :: "expectations \<Rightarrow> isolation \<Rightarrow> bool" where
  "isolated_as ex i \<longleftrightarrow> isCollisions i = Some [] \<and> distinct (map reFingerprint (isResources i))
     \<and> (\<forall>x \<in> set (isResources i). digestPattern (reFingerprint x))
     \<and> mset (map (\<lambda>x. (reKind x, reOwnership x)) (isResources i)) = mset (exRequiredResources ex)"

definition receipt_ok :: "environment \<Rightarrow> verify_options \<Rightarrow> receipt \<Rightarrow> bool" where
  "receipt_ok env opts r \<longleftrightarrow>
     in_scope env opts r \<and> fresh_receipt env opts r \<and> installed_is_built env opts r \<and> booted r
     \<and> healthy_as (voExpectations opts) (rtHealth r) \<and> asserted_as (voExpectations opts) (rtEvent r)
     \<and> surfaced_as (voExpectations opts) (rtSurfaceScan r) \<and> isolated_as (voExpectations opts) (rtIsolation r)
     \<and> rtOwnedResourcesRemaining r = Some []"

definition expectations_ok :: "expectations \<Rightarrow> bool" where
  "expectations_ok ex \<longleftrightarrow>
     IsAbs (exBuildPath ex) \<and> IsAbs (exInstalledPath ex) \<and> Clean (exBuildPath ex) \<noteq> Clean (exInstalledPath ex)
     \<and> (\<forall>ns \<in> {exRequiredSubsystems ex, exRequiredAssertions ex, exSurfaces ex}. ns \<noteq> [] \<and> [] \<notin> set ns \<and> distinct ns)
     \<and> (\<forall>(c, ok) \<in> set (exNotApplicable ex). ok \<and> c \<in> set allowedClasses)
     \<and> exRequiredResources ex \<noteq> [] \<and> (\<forall>(k, w) \<in> set (exRequiredResources ex). isolated k w)"

lemma ValidateExpectations_None: "ValidateExpectations ex = None \<longleftrightarrow> expectations_ok ex"
  by (simp add: ValidateExpectations_def expectations_ok_def hasBlankOrDuplicate_iff list_ex_iff
      case_prod_beta resource_error_None)

lemma allowedClasses_required: "set requiredClasses = insert ''startup'' (set allowedClasses)"
  "''startup'' \<notin> set allowedClasses"
  by (simp_all add: requiredClasses_def allowedClasses_def)

lemma validateBoot_None:
  "validateBoot env (rtBoot r) rc t = None \<longleftrightarrow>
     booted r \<and> (\<exists>b. enParseTime env (boStartedAt (rtBoot r)) = Some b \<and> rc \<le> b \<and> b \<le> t)"
  by (auto simp: validateBoot_def booted_def not_le not_less split: option.splits if_splits)

lemma validateArtifact_None: "validateArtifact env (rtArtifact r) opts = None \<longleftrightarrow> installed_is_built env opts r"
  by (auto simp: validateArtifact_def installed_is_built_def Let_def split: option.splits if_splits)

lemma failure_class_startup:
  "failure_class_error h ex ''startup'' = None \<longleftrightarrow> map_of (heFailureClasses h) ''startup'' = Some StateVerified"
  by (auto simp: failure_class_error_def const_defs split: option.splits)

lemma failure_class_allowed:
  assumes "c \<noteq> ''startup''"
  shows "failure_class_error h ex c = None \<longleftrightarrow>
     map_of (heFailureClasses h) c = Some StateVerified
     \<or> map_of (heFailureClasses h) c = Some StateNotApplicable \<and> map_of (exNotApplicable ex) c = Some True"
  using assms by (auto simp: failure_class_error_def const_defs split: option.splits)

lemma validateHealth_None:
  assumes "expectations_ok ex"
  shows "validateHealth h ex = None \<longleftrightarrow> healthy_as ex h"
proof -
  have classes: "(\<forall>c \<in> set requiredClasses. failure_class_error h ex c = None) \<longleftrightarrow>
      map_of (heFailureClasses h) ''startup'' = Some StateVerified
      \<and> (\<forall>c \<in> set allowedClasses. map_of (heFailureClasses h) c = Some StateVerified
          \<or> map_of (heFailureClasses h) c = Some StateNotApplicable \<and> map_of (exNotApplicable ex) c = Some True)"
    using allowedClasses_required(2)
    by (simp add: allowedClasses_required(1) failure_class_startup)
      (metis failure_class_allowed)
  have "length requiredClasses = 4" by (simp add: requiredClasses_def)
  have nonblank: "heRequiredSubsystems h \<noteq> [] \<and> \<not> hasBlankOrDuplicate (heRequiredSubsystems h)"
    if "mset (heRequiredSubsystems h) = mset (exRequiredSubsystems ex)"
    using that assms mset_eq_setD [OF that] mset_eq_imp_distinct_iff [OF that]
    by (auto simp: expectations_ok_def hasBlankOrDuplicate_iff)
  show ?thesis
  proof (cases "mset (heRequiredSubsystems h) = mset (exRequiredSubsystems ex)")
    case True
    with \<open>length requiredClasses = 4\<close> nonblank [OF True] mset_eq_setD [OF True] show ?thesis
      by (simp add: validateHealth_def healthy_as_def classes sameStrings_mset)
  next
    case False
    then show ?thesis by (simp add: validateHealth_def healthy_as_def sameStrings_mset)
  qed
qed

lemma mset_nonblank:
  assumes "mset a = mset b" "b \<noteq> []" "[] \<notin> set b" "distinct b"
  shows "a \<noteq> []" "\<not> hasBlankOrDuplicate a"
  using assms mset_eq_setD [OF assms(1)] mset_eq_imp_distinct_iff [OF assms(1)]
  by (auto simp: hasBlankOrDuplicate_iff)

lemma validateEvent_None:
  assumes "expectations_ok ex"
  shows "validateEvent e ex = None \<longleftrightarrow> asserted_as ex e"
proof (cases "mset (map asName (evAssertions e)) = mset (exRequiredAssertions ex)")
  case True
  have "evAssertions e \<noteq> []" "\<not> hasBlankOrDuplicate (map asName (evAssertions e))"
    using mset_nonblank [OF True] assms by (auto simp: expectations_ok_def)
  moreover from this have "\<forall>a \<in> set (evAssertions e). asName a \<noteq> []"
    by (force simp: hasBlankOrDuplicate_iff)
  ultimately show ?thesis using True
    by (auto simp: validateEvent_def asserted_as_def sameStrings_mset Let_def assertion_error_def)
next
  case False
  then show ?thesis by (simp add: validateEvent_def asserted_as_def sameStrings_mset Let_def)
qed

lemma validateSurfaces_None:
  assumes "expectations_ok ex"
  shows "validateSurfaces s ex = None \<longleftrightarrow> surfaced_as ex s"
proof (cases "mset (ssExpected s) = mset (exSurfaces ex) \<and> mset (ssObserved s) = mset (exSurfaces ex)")
  case True
  then have "ssExpected s \<noteq> []" "\<not> hasBlankOrDuplicate (ssExpected s)" "\<not> hasBlankOrDuplicate (ssObserved s)"
    using mset_nonblank assms by (auto simp: expectations_ok_def)
  with True show ?thesis by (auto simp: validateSurfaces_def surfaced_as_def sameStrings_mset)
next
  case False
  then show ?thesis by (auto simp: validateSurfaces_def surfaced_as_def sameStrings_mset)
qed

text \<open>The scope keys of admissible resources are as good as the pairs.\<close>

lemma scope_keys:
  assumes "\<forall>(k, w) \<in> set xs \<union> set ys. isolated k w"
  shows "mset (map (\<lambda>(k, w). scope_key k w) xs) = mset (map (\<lambda>(k, w). scope_key k w) ys) \<longleftrightarrow> mset xs = mset ys"
proof
  let ?f = "\<lambda>s :: string. (take 4 s, drop 5 s)"
  have key: "take 4 (scope_key k w) = k \<and> drop 5 (scope_key k w) = w" if "isolated k w" for k w
  proof -
    have "length k = 4" using that by (auto simp: isolated_def)
    then show ?thesis by (simp add: scope_key_def)
  qed
  have inv: "map ?f (map (\<lambda>(k, w). scope_key k w) zs) = zs" if "\<forall>(k, w) \<in> set zs. isolated k w" for zs
    using that by (induction zs) (auto simp: key)
  assume "mset (map (\<lambda>(k, w). scope_key k w) xs) = mset (map (\<lambda>(k, w). scope_key k w) ys)"
  then have "mset (map ?f (map (\<lambda>(k, w). scope_key k w) xs)) = mset (map ?f (map (\<lambda>(k, w). scope_key k w) ys))"
    by (metis mset_map)
  moreover have "\<forall>(k, w) \<in> set xs. isolated k w" "\<forall>(k, w) \<in> set ys. isolated k w" using assms by auto
  note inv [OF this(1)] inv [OF this(2)]
  ultimately show "mset xs = mset ys" by (simp only:)
qed (metis mset_map)

lemma expectations_ok_resources:
  assumes "expectations_ok ex"
  shows "exRequiredResources ex \<noteq> []" "\<forall>(k, w) \<in> set (exRequiredResources ex). isolated k w"
  using assms by (simp_all add: expectations_ok_def)

lemma validateIsolation_None:
  assumes "expectations_ok ex"
  shows "validateIsolation i ex = None \<longleftrightarrow> isolated_as ex i"
proof (cases "\<forall>x \<in> set (isResources i). isolated (reKind x) (reOwnership x)")
  case True
  let ?pairs = "map (\<lambda>x. (reKind x, reOwnership x)) (isResources i)"
  have maps: "map (\<lambda>x. scope_key (reKind x) (reOwnership x)) (isResources i) = map (\<lambda>(k, w). scope_key k w) ?pairs"
    by simp
  have "\<forall>(k, w) \<in> set ?pairs \<union> set (exRequiredResources ex). isolated k w"
    using True expectations_ok_resources(2) [OF assms] by auto
  then have "sameStrings (map (\<lambda>x. scope_key (reKind x) (reOwnership x)) (isResources i))
      (map (\<lambda>(kind, ownership). scope_key kind ownership) (exRequiredResources ex))
      \<longleftrightarrow> mset ?pairs = mset (exRequiredResources ex)"
    unfolding sameStrings_mset maps by (rule scope_keys)
  moreover have "isResources i \<noteq> []" if "mset ?pairs = mset (exRequiredResources ex)"
  proof
    assume "isResources i = []"
    with that have "exRequiredResources ex = []" by simp
    with expectations_ok_resources(1) [OF assms] show False ..
  qed
  ultimately show ?thesis using True
    by (cases "isCollisions i") (auto simp: validateIsolation_def isolated_as_def resource_scan_None)
next
  case False
  then have "mset (map (\<lambda>x. (reKind x, reOwnership x)) (isResources i)) \<noteq> mset (exRequiredResources ex)"
    using expectations_ok_resources(2) [OF assms] by (fastforce dest!: mset_eq_setD)
  with False show ?thesis
    by (auto simp: validateIsolation_def isolated_as_def resource_scan_None)
qed

text \<open>The receipt is accepted exactly if it meets its contract.\<close>

lemma validateReceipt_None:
  assumes "expectations_ok (voExpectations opts)"
  shows "validateReceipt env r opts = None \<longleftrightarrow> receipt_ok env opts r"
proof (cases "in_scope env opts r")
  case True
  show ?thesis
  proof (cases "enParseTime env (suCreatedAt (rtSubject r))")
    case None
    with True show ?thesis
      by (auto simp: validateReceipt_def in_scope_def receipt_ok_def fresh_receipt_def SchemaVersion_def)
  next
    case (Some t)
    let ?times = "time_sub (enNow env) t \<le> voMaxAge opts \<and> voRunCreatedAt opts \<le> t \<and> t \<le> enNow env + Minute"
    have "validateReceipt env r opts = None \<longleftrightarrow> ?times
        \<and> installed_is_built env opts r \<and> validateBoot env (rtBoot r) (voRunCreatedAt opts) t = None
        \<and> healthy_as (voExpectations opts) (rtHealth r) \<and> asserted_as (voExpectations opts) (rtEvent r)
        \<and> surfaced_as (voExpectations opts) (rtSurfaceScan r) \<and> isolated_as (voExpectations opts) (rtIsolation r)
        \<and> rtOwnedResourcesRemaining r = Some []"
      using True Some
      by (auto simp: validateReceipt_def in_scope_def SchemaVersion_def Let_def validateArtifact_None
          validateHealth_None [OF assms] validateEvent_None [OF assms] validateSurfaces_None [OF assms]
          validateIsolation_None [OF assms] not_less not_le split: option.splits)
    then show ?thesis
      using True Some by (auto simp: receipt_ok_def fresh_receipt_def validateBoot_None)
  qed
next
  case False
  then show ?thesis
    by (auto simp: validateReceipt_def receipt_ok_def in_scope_def SchemaVersion_def Let_def
        split: option.splits if_splits)
qed

definition options_ok :: "verify_options \<Rightarrow> bool" where
  "options_ok opts \<longleftrightarrow>
     voBeadID opts \<noteq> [] \<and> voRunID opts \<noteq> [] \<and> IsAbs (voProjectRoot opts) \<and> digestPattern (voArtifactHash opts)
     \<and> voRunCreatedAt opts \<noteq> zero_time \<and> expectations_ok (voExpectations opts)"

lemma validateOptions_None: "validateOptions opts = None \<longleftrightarrow> options_ok opts"
  by (auto simp: validateOptions_def options_ok_def ValidateExpectations_None IsAbs_def)

lemma VerifyFile_Inr:
  "VerifyFile env path opts0 = Inr res \<longleftrightarrow>
     (let opts = withDefaults opts0 in options_ok opts \<and>
      (\<exists>b r. enReadRegularFile env path (voMaxReceiptBytes opts) = Some b \<and> hashBytes env b = voArtifactHash opts
         \<and> enDecodeReceipt env b = Some r \<and> receipt_ok env opts r
         \<and> res = \<lparr>vrReceipt = r, vrProofHash = hashBytes env b,
                vrSummary = \<lparr>smSchemaVersion = rtSchemaVersion r, smProofHash = hashBytes env b,
                  smRunID = suRunID (rtSubject r), smGitHead = suGitHead (rtSubject r),
                  smVerifiedAt = enNow env, smHostFingerprint = hashBytes env (suHost (rtSubject r))\<rparr>\<rparr>))"
proof (cases "options_ok (withDefaults opts0)")
  case True
  then have "expectations_ok (voExpectations (withDefaults opts0))" by (simp add: options_ok_def)
  with True show ?thesis
    by (auto simp: VerifyFile_def Let_def validateOptions_None [symmetric] simp flip: validateReceipt_None
        split: option.splits)
next
  case False
  then have "validateOptions (withDefaults opts0) \<noteq> None" by (simp add: validateOptions_None)
  with False show ?thesis by (auto simp: VerifyFile_def Let_def)
qed

section \<open>The close gate with its verifier\<close>

definition decodeRuntimeExpectations :: "(json \<Rightarrow> expectations option) \<Rightarrow> json \<Rightarrow> expectations option" where
  "decodeRuntimeExpectations strict raw =
     (case strict raw of
        None \<Rightarrow> None
      | Some e \<Rightarrow> if ValidateExpectations e = None then Some e else None)"

definition no_expectations :: expectations where
  "no_expectations = \<lparr>exBuildPath = [], exInstalledPath = [], exRequiredSubsystems = [], exNotApplicable = [],
     exRequiredAssertions = [], exSurfaces = [], exRequiredResources = []\<rparr>"

definition gate_options :: "expectations runtime_config \<Rightarrow> run \<Rightarrow> artifact \<Rightarrow> verify_options" where
  "gate_options config r a =
     \<lparr>voBeadID = rcBeadID config, voRunID = rID r, voProjectRoot = rProjectDir r,
      voArtifactHash = (case aContentHash a of Some h \<Rightarrow> h | None \<Rightarrow> []),
      voRunCreatedAt = rCreatedAt r * 10 ^ 9, voMaxAge = 0, voMaxReceiptBytes = 0, voMaxArtifactBytes = 0,
      voExpectations = (case rcExpectations config of Some e \<Rightarrow> e | None \<Rightarrow> no_expectations)\<rparr>"

definition runtime_verifier ::
    "environment \<Rightarrow> expectations runtime_config \<Rightarrow> run \<Rightarrow> artifact \<Rightarrow> string option" where
  "runtime_verifier env config r a =
     (case VerifyFile env (aPath a) (gate_options config r a) of
        Inl _ \<Rightarrow> None
      | Inr verified \<Rightarrow> Some (vrProofHash verified))"

lemma runtime_verifier_Some:
  "runtime_verifier env config r a = Some h \<longleftrightarrow>
     options_ok (withDefaults (gate_options config r a)) \<and>
     (\<exists>b rc. enReadRegularFile env (aPath a) DefaultMaxReceiptBytes = Some b \<and> hashBytes env b = h
        \<and> aContentHash a = Some h \<and> enDecodeReceipt env b = Some rc
        \<and> receipt_ok env (withDefaults (gate_options config r a)) rc)"
proof -
  define opts where "opts = withDefaults (gate_options config r a)"
  have fields: "voMaxReceiptBytes opts = DefaultMaxReceiptBytes"
    "voArtifactHash opts = (case aContentHash a of Some h \<Rightarrow> h | None \<Rightarrow> [])"
    by (simp_all add: opts_def withDefaults_def gate_options_def)
  have hash: "hashBytes env b = voArtifactHash opts \<longleftrightarrow> aContentHash a = Some (hashBytes env b)" for b
    by (cases "aContentHash a") (auto simp: fields hashBytes_def)
  have "runtime_verifier env config r a = Some h \<longleftrightarrow>
      (\<exists>v. VerifyFile env (aPath a) (gate_options config r a) = Inr v \<and> vrProofHash v = h)"
    by (simp add: runtime_verifier_def split: sum.splits)
  also have "\<dots> \<longleftrightarrow> options_ok opts \<and>
     (\<exists>b rc. enReadRegularFile env (aPath a) DefaultMaxReceiptBytes = Some b \<and> hashBytes env b = h
        \<and> aContentHash a = Some h \<and> enDecodeReceipt env b = Some rc \<and> receipt_ok env opts rc)"
    unfolding VerifyFile_Inr Let_def opts_def [symmetric] fields(1) hash
    by (auto intro!: exI)
  finally show ?thesis by (simp only: opts_def)
qed

text \<open>
  C15. The verifier accepts a receipt file exactly if the options are complete and
  the bytes read at the path have the registered hash and decode to a receipt
  that meets its contract: it names the bead, the run and the project, was
  written on this host at this commit between the creation of the run and now,
  the files on disk are the artifact it reports, and its observations are, up
  to order, exactly the trusted expectations.
\<close>

theorem VerifyFile_accepts_iff:
  "(\<exists>res. VerifyFile env path opts0 = Inr res) \<longleftrightarrow>
     (let opts = withDefaults opts0 in options_ok opts \<and>
      (\<exists>b r. enReadRegularFile env path (voMaxReceiptBytes opts) = Some b \<and> hashBytes env b = voArtifactHash opts
         \<and> enDecodeReceipt env b = Some r \<and> receipt_ok env opts r))"
  by (auto simp: VerifyFile_Inr Let_def)

text \<open>
  C1. No completion without a valid receipt. Where the gate's verifier is the
  one of the runtime-evidence package, an advance that completes a run
  requiring runtime evidence, in a chain ending in \<^verbatim>\<open>done\<close>, had gates enabled,
  sealed valid expectations, and a latest active receipt whose content, as read
  from disk, has the recorded hash and meets the contract for this run, its
  bead and its project; in particular it was created after the run and within
  the last day.
\<close>

theorem completion_needs_receipt:
  assumes "Advance env cfg rid d = Some (Inr (res, d', cs))" "keyed d"
    and "GetQ d rid = Inr r" "last (ResolveChain r) = Done"
    and "aeDecode env = decodeRuntimeExpectations strict" "aeVerify env = runtime_verifier host"
    and "sealed_as (decodeRuntimeExpectations strict) r c"
    and "GetQ d' rid = Inr r'" "rStatus r' = StatusCompleted"
  shows "\<exists>a b rc t. \<not> DisableAll cfg \<and> rcReady c
     \<and> qLatestActiveArtifactByType (tx_runtrack d) rid RuntimeEvidenceArtifactType = Inr a
     \<and> enReadRegularFile host (aPath a) DefaultMaxReceiptBytes = Some b
     \<and> aContentHash a = Some (hashBytes host b) \<and> enDecodeReceipt host b = Some rc
     \<and> suRunID (rtSubject rc) = rid \<and> suBeadID (rtSubject rc) = rcBeadID c
     \<and> enParseTime host (suCreatedAt (rtSubject rc)) = Some t
     \<and> rCreatedAt r * 10 ^ 9 \<le> t \<and> t \<le> enNow host + Minute \<and> enNow host - t \<le> DefaultMaxAge
     \<and> receipt_ok host (withDefaults (gate_options c r a)) rc"
proof -
  have "sealed_as (aeDecode env) r c" using assms(5,7) by simp
  from completed_with_proof [OF assms(1-3) this assms(4,8,9)] assms(6) obtain a h where
    a: "\<not> DisableAll cfg" "rcReady c" "runtime_verifier host c r a = Some h"
      "qLatestActiveArtifactByType (tx_runtrack d) rid RuntimeEvidenceArtifactType = Inr a" by auto
  then obtain b rc where b: "enReadRegularFile host (aPath a) DefaultMaxReceiptBytes = Some b"
      "aContentHash a = Some (hashBytes host b)" "enDecodeReceipt host b = Some rc"
      "receipt_ok host (withDefaults (gate_options c r a)) rc"
    unfolding runtime_verifier_Some by blast
  have rid: "rID r = rid" by (rule GetQ_id [OF assms(3)])
  have scope: "suRunID (rtSubject rc) = rid" "suBeadID (rtSubject rc) = rcBeadID c"
    using b(4) rid by (simp_all add: receipt_ok_def in_scope_def withDefaults_def gate_options_def)
  from b(4) have "fresh_receipt host (withDefaults (gate_options c r a)) rc" by (simp add: receipt_ok_def)
  then obtain t where t: "enParseTime host (suCreatedAt (rtSubject rc)) = Some t"
      "rCreatedAt r * 10 ^ 9 \<le> t" "t \<le> enNow host + Minute" "time_sub (enNow host) t \<le> DefaultMaxAge"
    by (auto simp: fresh_receipt_def withDefaults_def gate_options_def)
  then have "enNow host - t \<le> DefaultMaxAge"
    by (simp add: time_sub_less_iff DefaultMaxAge_def Minute_def)
  with a b scope t show ?thesis by blast
qed

section \<open>A run that finishes with a receipt\<close>

definition toy_hash :: string where
  "toy_hash = ''sha256:'' @ replicate 64 CHR ''0''"

definition toy_expectations :: expectations where
  "toy_expectations = \<lparr>exBuildPath = ''/b'', exInstalledPath = ''/i'', exRequiredSubsystems = [''db''],
     exNotApplicable = [(''connection'', True)], exRequiredAssertions = [''up''], exSurfaces = [''cli'', ''api''],
     exRequiredResources = [(''port'', ''ephemeral'')]\<rparr>"

definition toy_receipt :: receipt where
  "toy_receipt =
     \<lparr>rtSchemaVersion = 1,
      rtSubject = \<lparr>suBeadID = ''b'', suRunID = ''r1'', suProjectRoot = ''/p'',
        suGitHead = replicate 40 CHR ''a'', suHost = ''h'', suCreatedAt = ''later''\<rparr>,
      rtArtifact = \<lparr>paKind = ''file'', paBuildPath = ''/x/../b'', paInstalledPath = ''/i/.'',
        paBuildDigest = toy_hash, paInstalledDigest = toy_hash, paRuntimeDigest = toy_hash\<rparr>,
      rtBoot = \<lparr>boStartedForProbe = True, boProcessID = 7, boStartedAt = ''early'', boInstanceNonce = ''n'',
        boObservedNonce = ''n'', boState = StateVerified\<rparr>,
      rtHealth = \<lparr>heRequiredSubsystems = [''db''], heObserved = [(''db'', ''healthy'')],
        heFailureClasses = [(''startup'', StateVerified), (''dependency_injection'', StateVerified),
          (''connection'', StateNotApplicable), (''projection_catchup'', StateVerified)]\<rparr>,
      rtEvent = \<lparr>evEventID = ''e'', evObservedEventID = ''e'', evBeforeDigest = toy_hash,
        evAfterDigest = ''sha256:'' @ replicate 64 CHR ''1'',
        evAssertions = [\<lparr>asName = ''up'', asState = StateVerified, asEvidence = ''log''\<rparr>]\<rparr>,
      rtSurfaceScan = \<lparr>ssExpected = [''api'', ''cli''], ssObserved = [''cli'', ''api''], ssMissing = Some [],
        ssUnexpected = Some []\<rparr>,
      rtIsolation = \<lparr>isResources = [\<lparr>reKind = ''port'', reFingerprint = toy_hash, reOwnership = ''ephemeral''\<rparr>],
        isCollisions = Some []\<rparr>,
      rtOwnedResourcesRemaining = Some []\<rparr>"

definition toy_host :: environment where
  "toy_host = \<lparr>enNow = 13 * 10 ^ 9, enHostname = Some ''h'',
     enGitHead = (\<lambda>_. Some (replicate 40 CHR ''a'' @ [CHR 0x0A])), enReadRegularFile = (\<lambda>p n. Some p),
     enSHA256 = (\<lambda>b. replicate 64 CHR ''0''), enDecodeReceipt = (\<lambda>b. Some toy_receipt),
     enParseTime = (\<lambda>s. if s = ''early'' then Some (11 * 10 ^ 9) else Some (12 * 10 ^ 9))\<rparr>"

definition toy_artifact :: artifact where
  "toy_artifact = sample_artifact\<lparr>aPhase := Reflect, aContentHash := Some toy_hash\<rparr>"

definition toy_config :: "expectations runtime_config" where
  "toy_config = \<lparr>rcRequired = True, rcBeadID = ''b'', rcExpectations = Some toy_expectations,
     rcConfigDigest = ''d'', rcReady = True\<rparr>"

definition toy_db :: db where
  "toy_db = empty_db\<lparr>runs := [sealed_run], artifacts := [toy_artifact]\<rparr>"

definition toy_env :: "expectations advance_env" where
  "toy_env = \<lparr>aeNow = 20, aeDecode = decodeRuntimeExpectations (\<lambda>_. Some toy_expectations),
     aeVerify = runtime_verifier toy_host, aeRender = (\<lambda>_. []),
     aeVerdicts = True, aePortfolio = False, aeDeps = False, aeBudget = True, aeCallback = True\<rparr>"

lemma toy_verified: "runtime_verifier toy_host toy_config sealed_run toy_artifact = Some toy_hash"
  by code_simp

lemma toy_decoded: "decodeRuntimeExpectations (\<lambda>_. Some toy_expectations) j = Some toy_expectations"
proof -
  have "ValidateExpectations toy_expectations = None" by code_simp
  then show ?thesis by (simp add: decodeRuntimeExpectations_def)
qed

lemma toy_evidence: "RuntimeEvidenceForRun (aeDecode toy_env) sealed_run = Inr toy_config"
  by (simp add: RuntimeEvidenceForRun_def runtime_evidence_of_def sealed_run_def close_gate_of_def toy_env_def
    jget_def requirementSet_def json_str_def no_runtime_config_def runtimeEvidenceRequirement_def toy_decoded
    toy_config_def)

lemma toy_sealed:
  "sealed_as (decodeRuntimeExpectations (\<lambda>_. Some toy_expectations)) sealed_run toy_config"
  using toy_evidence by (simp add: sealed_as_def RuntimeEvidenceForRun_def toy_env_def) (simp add: toy_config_def)

lemma toy_db_facts: "keyed toy_db" "GetQ toy_db ''r1'' = Inr sealed_run"
  "SkippedPhasesQ toy_db ''r1'' = {}"
  by (simp_all add: keyed_def GetQ_def SkippedPhasesQ_def toy_db_def empty_db_def)

lemma toy_chain: "ResolveChain sealed_run = DefaultChain" "rStatus sealed_run = StatusActive"
  "rTokenBudget sealed_run = None" "rAutoAdvance sealed_run = True"
  by (simp_all add: sealed_run_def ResolveChain_def sample_run_def)

lemma toy_gate:
  "\<exists>g. evaluateGate (aeDecode toy_env) (aeVerify toy_env) sealed_run (sample_config\<lparr>Priority := 9\<rparr>) Reflect Done
     (advance_queriers toy_env sealed_run toy_db) = Inr g \<and> goResult g = GatePass"
proof -
  have terminal: "runtime_terminal sealed_run (Inr toy_config) Done"
    by (simp add: runtime_terminal_def toy_chain ChainIsTerminal_def DefaultChain_def toy_config_def)
  have art: "aContentHash toy_artifact = Some toy_hash" "toy_hash \<noteq> []"
    by (simp_all add: toy_artifact_def toy_hash_def)
  have ready: "rcReady toy_config" by (simp add: toy_config_def)
  have latest: "qLatestActiveArtifactByType (tx_runtrack toy_db) ''r1'' RuntimeEvidenceArtifactType = Inr toy_artifact"
    "qCountArtifacts (tx_runtrack toy_db) ''r1'' Reflect = Inr 1"
    by (simp_all add: tx_runtrack_def toy_db_def empty_db_def order_desc_def toy_artifact_def sample_artifact_def)
  have fields: "aeVerify toy_env = runtime_verifier toy_host" by (simp add: toy_env_def)
  show ?thesis
    using terminal art ready latest
    by (simp add: evaluateGate_def evaluate_rules_def select_rules_def inject_rules_def inject_runtime_def Let_def
      eval_check_def check_artifact_exists_def check_runtime_evidence_def reflect_done_rules toy_evidence
      toy_verified fields advance_queriers_def)
qed

theorem completion_needs_receipt_witness:
  "\<exists>res d' cs r' a b. Advance toy_env (sample_config\<lparr>Priority := 9\<rparr>) ''r1'' toy_db = Some (Inr (res, d', cs))
     \<and> GetQ d' ''r1'' = Inr r' \<and> rStatus r' = StatusCompleted
     \<and> qLatestActiveArtifactByType (tx_runtrack toy_db) ''r1'' RuntimeEvidenceArtifactType = Inr a
     \<and> enReadRegularFile toy_host (aPath a) DefaultMaxReceiptBytes = Some b"
proof -
  let ?cfg = "sample_config\<lparr>Priority := 9\<rparr>"
  obtain g where g: "evaluateGate (aeDecode toy_env) (aeVerify toy_env) sealed_run ?cfg Reflect Done
      (advance_queriers toy_env sealed_run toy_db) = Inr g" "goResult g = GatePass"
    using toy_gate by blast
  let ?reason = "advance_reason toy_env ?cfg (goEvidence g)"
  obtain res d' cs where m: "advance_move toy_env sealed_run Done g ?reason toy_db = Inr (res, d', cs)"
    "GetQ d' ''r1'' = Inr (advanced_run (aeNow toy_env) Done sealed_run)"
    using advance_move_eq [OF toy_db_facts(1), of sealed_run toy_env Done g ?reason] toy_db_facts(2) by auto
  have chain: "\<not> ChainIsTerminal DefaultChain Reflect" "ChainNextPhase DefaultChain Reflect = Inr Done"
    "ChainIsTerminal DefaultChain Done" "last DefaultChain = Done"
    by (simp_all add: ChainIsTerminal_def DefaultChain_def)
  have "Advance toy_env ?cfg ''r1'' toy_db = Some (advance_to toy_env ?cfg sealed_run Done toy_db)"
    using chain by (simp add: Advance_def toy_db_facts toy_chain skip_walk_here)
  then have adv: "Advance toy_env ?cfg ''r1'' toy_db = Some (Inr (res, d', cs))"
    using g m(1) by (simp add: advance_to_def toy_chain map_gate_error_def Let_def)
  have fin: "rStatus (advanced_run (aeNow toy_env) Done sealed_run) = StatusCompleted"
    using chain by (simp add: advanced_run_status toy_chain)
  have "aeDecode toy_env = decodeRuntimeExpectations (\<lambda>_. Some toy_expectations)"
    "aeVerify toy_env = runtime_verifier toy_host" "last (ResolveChain sealed_run) = Done"
    using chain by (simp_all add: toy_env_def toy_chain)
  from completion_needs_receipt [OF adv toy_db_facts(1,2) this(3,1,2) toy_sealed m(2) fin]
  show ?thesis using adv m(2) fin by blast
qed

end
