(* ===== verification/Glob.thy ===== *)
theory Glob
  imports Prelude "HOL-Library.Product_Lexorder"
begin

text \<open>
  Overlap of glob patterns: \<^verbatim>\<open>internal/coordination/glob.go\<close>. A pattern is its
  list of runes (code points), so \<^verbatim>\<open>[]rune(segment)\<close> is the identity;
  \<^verbatim>\<open>filepath.ToSlash\<close> is the identity on the platforms where the separator is a
  slash. A rune range is a pair of its bounds.
\<close>

section \<open>Tokens and ranges\<close>

type_synonym rune = int
type_synonym rune_range = "int \<times> int"

datatype token =
    TokenLiteral rune
  | TokenAny
  | TokenStar
  | TokenClass "rune_range list"

datatype glob_error =
    BadPattern
  | TooManyTokens nat
  | TooManyWildcards nat

definition maxTokens :: nat where "maxTokens = 50"
definition maxWildcards :: nat where "maxWildcards = 10"
definition maxRune :: rune where "maxRune = 0x10FFFF"

definition nonSeparatorRanges :: "rune_range list" where
  "nonSeparatorRanges = [(0, 46), (48, maxRune)]"

section \<open>Range arithmetic\<close>

fun merge_ranges :: "rune_range \<Rightarrow> rune_range list \<Rightarrow> rune_range list" where
  "merge_ranges (clo, chi) [] = [(clo, chi)]"
| "merge_ranges (clo, chi) ((lo, hi) # rest) =
     (if lo \<le> chi + 1 then merge_ranges (clo, if hi > chi then hi else chi) rest
      else (clo, chi) # merge_ranges (lo, hi) rest)"

definition normalizeRanges :: "rune_range list \<Rightarrow> rune_range list" where
  "normalizeRanges rs =
     (if length rs \<le> 1 then rs
      else case sort rs of [] \<Rightarrow> [] | c # rest \<Rightarrow> merge_ranges c rest)"

fun rangesOverlap :: "rune_range list \<Rightarrow> rune_range list \<Rightarrow> bool" where
  "rangesOverlap [] b = False"
| "rangesOverlap a [] = False"
| "rangesOverlap ((alo, ahi) # a) ((blo, bhi) # b) =
     (if ahi < blo then rangesOverlap a ((blo, bhi) # b)
      else if bhi < alo then rangesOverlap ((alo, ahi) # a) b
      else True)"

fun intersect_scan :: "rune_range list \<Rightarrow> rune_range list \<Rightarrow> rune_range list" where
  "intersect_scan [] b = []"
| "intersect_scan a [] = []"
| "intersect_scan ((alo, ahi) # a) ((blo, bhi) # b) =
     (let lo = max alo blo; hi = min ahi bhi;
          out = (if lo \<le> hi then [(lo, hi)] else [])
      in out @ (if ahi < bhi then intersect_scan a ((blo, bhi) # b)
                else intersect_scan ((alo, ahi) # a) b))"

definition intersectRanges :: "rune_range list \<Rightarrow> rune_range list \<Rightarrow> rune_range list" where
  "intersectRanges a b = intersect_scan (normalizeRanges a) (normalizeRanges b)"

definition cut_range :: "rune_range \<Rightarrow> rune_range \<Rightarrow> rune_range list" where
  "cut_range s c =
     (if snd s < fst c \<or> fst s > snd c then [c]
      else (if fst s > fst c then [(fst c, fst s - 1)] else [])
         @ (if snd s < snd c then [(snd s + 1, snd c)] else []))"

fun subtract_loop :: "rune_range list \<Rightarrow> rune_range list \<Rightarrow> rune_range list" where
  "subtract_loop [] current = current"
| "subtract_loop (s # ss) current =
     (let nxt = concat (map (cut_range s) current) in
      if nxt = [] then [] else subtract_loop ss nxt)"

definition subtractRanges :: "rune_range list \<Rightarrow> rune_range list \<Rightarrow> rune_range list" where
  "subtractRanges base subtract =
     (let subtract' = normalizeRanges subtract in
      concat (map (\<lambda>b. subtract_loop subtract' [b]) (normalizeRanges base)))"

section \<open>Parsing a segment\<close>

text \<open>The result carries the unread runes in place of the next index.\<close>

definition readClassRune :: "rune list \<Rightarrow> glob_error + rune \<times> rune list" where
  "readClassRune rs =
     (case rs of
        [] \<Rightarrow> Inl BadPattern
      | r # rest \<Rightarrow>
          if r \<noteq> 92 then Inr (r, rest)
          else (case rest of [] \<Rightarrow> Inl BadPattern | r' # rest' \<Rightarrow> Inr (r', rest')))"

lemma readClassRune_shorter: "readClassRune rs = Inr (r, rest) \<Longrightarrow> length rest < length rs"
  by (auto simp: readClassRune_def split: list.splits if_splits)

text \<open>
  The loop of \<^verbatim>\<open>parseClass\<close>: the ranges read so far and \<^verbatim>\<open>hadItem\<close>. Running
  out of runes is the missing closing bracket.
\<close>

function class_loop :: "rune list \<Rightarrow> rune_range list \<Rightarrow> bool \<Rightarrow> glob_error + rune_range list \<times> rune list" where
  "class_loop rs ranges hadItem =
     (case rs of
        [] \<Rightarrow> Inl BadPattern
      | r # tl1 \<Rightarrow>
          if r = 93 \<and> hadItem then Inr (ranges, tl1)
          else case readClassRune rs of
            Inl e \<Rightarrow> Inl e
          | Inr (lo, rest) \<Rightarrow>
              if length rest \<ge> 2 \<and> rest ! 0 = 45 \<and> rest ! 1 \<noteq> 93
              then (case readClassRune (tl rest) of
                      Inl e \<Rightarrow> Inl e
                    | Inr (hi, rest') \<Rightarrow>
                        if hi < lo then Inl BadPattern
                        else class_loop rest' (ranges @ [(lo, hi)]) True)
              else class_loop rest (ranges @ [(lo, lo)]) True)"
  by pat_completeness auto
termination
proof (relation "measure (\<lambda>(rs, _, _). length rs)", goal_cases)
  case 1
  then show ?case by simp
next
  case (2 rs ranges hadItem r tl1 x lo rest x' hi rest')
  have "length rest' < length (tl rest)" using 2 by (auto dest: readClassRune_shorter)
  moreover have "length rest < length rs" using 2 by (auto dest: readClassRune_shorter)
  ultimately show ?case by simp
next
  case (3 rs ranges hadItem r tl1 x lo rest)
  then show ?case by (auto dest: readClassRune_shorter)
qed

declare class_loop.simps [simp del]

definition parseClass :: "rune list \<Rightarrow> glob_error + token \<times> rune list" where
  "parseClass rs =
     (if rs = [] then Inl BadPattern
      else
        let negated = (hd rs = 94);
            body = (if negated then tl rs else rs)
        in sum_bind (class_loop body [] False) (\<lambda>(ranges, rest).
             let ranges' = normalizeRanges ranges;
                 ranges'' = (if negated then subtractRanges nonSeparatorRanges ranges'
                             else intersectRanges ranges' nonSeparatorRanges)
             in Inr (TokenClass ranges'', rest)))"

lemma class_loop_InrE:
  assumes "class_loop rs ranges hadItem = Inr (out, rest)"
  obtains (close) "rs = 93 # rest" "out = ranges"
  | (item) lo hi rs' where "lo \<le> hi" "class_loop rs' (ranges @ [(lo, hi)]) True = Inr (out, rest)"
      "length rs' < length rs"
proof -
  from assms obtain r tl1 where rs: "rs = r # tl1"
    by (cases rs) (simp_all add: class_loop.simps)
  show ?thesis
  proof (cases "r = 93 \<and> hadItem")
    case True
    with assms rs close show ?thesis by (simp add: class_loop.simps)
  next
    case False
    then have step: "class_loop rs ranges hadItem = (case readClassRune rs of
        Inl e \<Rightarrow> Inl e
      | Inr (lo, r1) \<Rightarrow>
          if length r1 \<ge> 2 \<and> r1 ! 0 = 45 \<and> r1 ! 1 \<noteq> 93
          then (case readClassRune (tl r1) of
                  Inl e \<Rightarrow> Inl e
                | Inr (hi, r2) \<Rightarrow>
                    if hi < lo then Inl BadPattern else class_loop r2 (ranges @ [(lo, hi)]) True)
          else class_loop r1 (ranges @ [(lo, lo)]) True)"
      using rs by (subst class_loop.simps) (cases "r = 93"; simp)
    with assms obtain lo r1 where r1: "readClassRune rs = Inr (lo, r1)"
      by (auto split: sum.splits)
    show ?thesis
    proof (cases "length r1 \<ge> 2 \<and> r1 ! 0 = 45 \<and> r1 ! 1 \<noteq> 93")
      case True
      with assms step r1 obtain hi r2 where r2: "readClassRune (tl r1) = Inr (hi, r2)"
        by (auto split: sum.splits)
      with assms step r1 True have "lo \<le> hi" "class_loop r2 (ranges @ [(lo, hi)]) True = Inr (out, rest)"
        by (auto split: if_splits)
      moreover have "length r2 < length rs"
        using readClassRune_shorter [OF r1] readClassRune_shorter [OF r2] by simp
      ultimately show ?thesis by (rule item)
    next
      case single: False
      with assms step r1 have "class_loop r1 (ranges @ [(lo, lo)]) True = Inr (out, rest)"
        by auto
      with item [of lo lo r1] readClassRune_shorter [OF r1] show ?thesis by simp
    qed
  qed
qed

lemma class_loop_Inr:
  assumes "class_loop rs ranges hadItem = Inr (out, rest)" "\<forall>(lo, hi) \<in> set ranges. lo \<le> hi"
  shows "length rest < length rs" "\<forall>(lo, hi) \<in> set out. lo \<le> hi"
  using assms
proof (atomize (full), induction "length rs" arbitrary: rs ranges hadItem rule: less_induct)
  case less
  from less.prems(1) show ?case
  proof (cases rule: class_loop_InrE)
    case close
    with less.prems(2) show ?thesis by simp
  next
    case (item lo hi rs')
    have "\<forall>(lo, hi) \<in> set (ranges @ [(lo, hi)]). lo \<le> hi" using less.prems(2) item(1) by auto
    from less.hyps [OF item(3,2) this] item(3) show ?thesis by simp
  qed
qed

lemma parseClass_shorter: "parseClass rs = Inr (tok, rest) \<Longrightarrow> length rest < length rs"
  by (cases rs) (auto simp: parseClass_def Let_def sum_bind_Inr_iff split: if_splits dest!: class_loop_Inr(1))

function parseSegment :: "rune list \<Rightarrow> glob_error + token list" where
  "parseSegment [] = Inr []"
| "parseSegment (ch # rest) =
     (if ch = 42 then sum_bind (parseSegment rest) (\<lambda>ts. Inr (TokenStar # ts))
      else if ch = 63 then sum_bind (parseSegment rest) (\<lambda>ts. Inr (TokenAny # ts))
      else if ch = 91 then
        (case parseClass rest of
           Inl e \<Rightarrow> Inl e
         | Inr (tok, rest') \<Rightarrow> sum_bind (parseSegment rest') (\<lambda>ts. Inr (tok # ts)))
      else if ch = 92 then
        (case rest of
           [] \<Rightarrow> Inl BadPattern
         | c # rest' \<Rightarrow> sum_bind (parseSegment rest') (\<lambda>ts. Inr (TokenLiteral c # ts)))
      else sum_bind (parseSegment rest) (\<lambda>ts. Inr (TokenLiteral ch # ts)))"
  by pat_completeness auto
termination
  by (relation "measure length") (auto dest: parseClass_shorter)

section \<open>The product automaton\<close>

definition tokenConsume :: "token list \<Rightarrow> nat \<Rightarrow> nat \<times> rune_range list" where
  "tokenConsume tokens idx =
     (case tokens ! idx of
        TokenStar \<Rightarrow> (idx, nonSeparatorRanges)
      | TokenLiteral c \<Rightarrow> (idx + 1, [(c, c)])
      | TokenAny \<Rightarrow> (idx + 1, nonSeparatorRanges)
      | TokenClass ranges \<Rightarrow> (idx + 1, ranges))"

definition is_star :: "token list \<Rightarrow> nat \<Rightarrow> bool" where
  "is_star tokens i \<longleftrightarrow> i < length tokens \<and> tokens ! i = TokenStar"

text \<open>
  \<^verbatim>\<open>addClosure\<close>: the stack (its top first), the states seen, and the states
  appended to the queue.
\<close>

function addClosure ::
    "token list \<Rightarrow> token list \<Rightarrow> (nat \<times> nat) list \<Rightarrow> (nat \<times> nat) set \<Rightarrow> (nat \<times> nat) list
      \<Rightarrow> (nat \<times> nat) set \<times> (nat \<times> nat) list" where
  "addClosure ta tb [] seen queue = (seen, queue)"
| "addClosure ta tb ((i, j) # stack) seen queue =
     (if (i, j) \<in> seen then addClosure ta tb stack seen queue
      else
        addClosure ta tb
          ((if is_star tb j then [(i, j + 1)] else []) @ (if is_star ta i then [(i + 1, j)] else []) @ stack)
          (insert (i, j) seen) (queue @ [(i, j)]))"
  by pat_completeness auto
termination
proof (relation "measure (\<lambda>(ta, tb, stack, _, _).
    \<Sum>(i, j) \<leftarrow> stack. 3 ^ ((length ta - i) + (length tb - j)))", goal_cases)
  case 1
  then show ?case by simp
next
  case (2 ta tb i j stack seen queue)
  then show ?case by simp
next
  case (3 ta tb i j stack seen queue)
  have a: "is_star ta i \<Longrightarrow> 3 * 3 ^ (length ta - Suc i + (length tb - j))
      = (3::nat) ^ (length ta - i + (length tb - j))"
    by (simp add: is_star_def flip: power_Suc) (simp add: Suc_diff_Suc flip: add_Suc)
  have b: "is_star tb j \<Longrightarrow> 3 * 3 ^ (length ta - i + (length tb - Suc j))
      = (3::nat) ^ (length ta - i + (length tb - j))"
    by (simp add: is_star_def flip: power_Suc) (simp add: Suc_diff_Suc flip: add_Suc_right)
  have p: "0 < (3::nat) ^ (length ta - i + (length tb - j))" by simp
  define N A B :: nat where "N = 3 ^ (length ta - i + (length tb - j))"
    and "A = 3 ^ (length ta - Suc i + (length tb - j))" and "B = 3 ^ (length ta - i + (length tb - Suc j))"
  have "(if is_star tb j then B else 0) + (if is_star ta i then A else 0) < N"
    using a b p unfolding N_def [symmetric] A_def [symmetric] B_def [symmetric] by auto
  then show ?case
    unfolding N_def A_def B_def
    by (auto split: if_splits simp del: Nat.add_diff_assoc Nat.add_diff_assoc2 Nat.diff_diff_left)
qed

text \<open>
  The breadth-first loop: \<open>todo\<close> is the queue from the current index on. The
  fuel is the number of states of the product, which the loop cannot exceed, as
  no state enters the queue twice.
\<close>

fun overlap_loop ::
    "nat \<Rightarrow> token list \<Rightarrow> token list \<Rightarrow> (nat \<times> nat) list \<Rightarrow> (nat \<times> nat) set \<Rightarrow> bool" where
  "overlap_loop fuel ta tb [] seen = False"
| "overlap_loop 0 ta tb (c # todo) seen = False"
| "overlap_loop (Suc fuel) ta tb ((i, j) # todo) seen =
     (if i = length ta \<and> j = length tb then True
      else if i = length ta \<or> j = length tb then overlap_loop fuel ta tb todo seen
      else
        let (aNext, aRanges) = tokenConsume ta i;
            (bNext, bRanges) = tokenConsume tb j
        in if \<not> rangesOverlap aRanges bRanges then overlap_loop fuel ta tb todo seen
           else let (seen', todo') = addClosure ta tb [(aNext, bNext)] seen todo
                in overlap_loop fuel ta tb todo' seen')"

definition tokens_overlap :: "token list \<Rightarrow> token list \<Rightarrow> bool" where
  "tokens_overlap ta tb =
     (let (seen, queue) = addClosure ta tb [(0, 0)] {} []
      in overlap_loop ((length ta + 1) * (length tb + 1)) ta tb queue seen)"

definition segmentPatternsOverlap :: "rune list \<Rightarrow> rune list \<Rightarrow> glob_error + bool" where
  "segmentPatternsOverlap a b =
     sum_bind (parseSegment a) (\<lambda>ta. sum_bind (parseSegment b) (\<lambda>tb. Inr (tokens_overlap ta tb)))"

section \<open>Patterns\<close>

text \<open>\<^verbatim>\<open>strings.Split(s, "/")\<close>.\<close>

fun split_slash :: "rune list \<Rightarrow> rune list list" where
  "split_slash [] = [[]]"
| "split_slash (c # cs) =
     (if c = 47 then [] # split_slash cs
      else case split_slash cs of [] \<Rightarrow> [[c]] | seg # segs \<Rightarrow> (c # seg) # segs)"

fun segments_overlap :: "rune list list \<Rightarrow> rune list list \<Rightarrow> glob_error + bool" where
  "segments_overlap (a # as) (b # bs) =
     sum_bind (segmentPatternsOverlap a b) (\<lambda>overlap.
       if \<not> overlap then Inr False else segments_overlap as bs)"
| "segments_overlap _ _ = Inr True"

definition PatternsOverlap :: "rune list \<Rightarrow> rune list \<Rightarrow> glob_error + bool" where
  "PatternsOverlap a b =
     (let segmentsA = split_slash a; segmentsB = split_slash b in
      if length segmentsA \<noteq> length segmentsB then Inr False
      else segments_overlap segmentsA segmentsB)"

fun count_segments :: "rune list list \<Rightarrow> nat \<Rightarrow> nat \<Rightarrow> glob_error + nat \<times> nat" where
  "count_segments [] totalTokens totalWildcards = Inr (totalTokens, totalWildcards)"
| "count_segments (seg # segs) totalTokens totalWildcards =
     sum_bind (parseSegment seg) (\<lambda>tokens.
       count_segments segs (totalTokens + length tokens)
         (totalWildcards + length (filter (\<lambda>t. t = TokenStar \<or> t = TokenAny) tokens)))"

definition ValidateComplexity :: "rune list \<Rightarrow> glob_error option" where
  "ValidateComplexity pattern =
     (case count_segments (split_slash pattern) 0 0 of
        Inl e \<Rightarrow> Some e
      | Inr (totalTokens, totalWildcards) \<Rightarrow>
          if totalTokens > maxTokens then Some (TooManyTokens totalTokens)
          else if totalWildcards > maxWildcards then Some (TooManyWildcards totalWildcards)
          else None)"

end
