(* ===== verification/GlobCorrect.thy ===== *)
theory GlobCorrect
  imports Glob
begin

text \<open>
  Correctness of the overlap test: the range arithmetic computes set operations
  on runes, the breadth-first search of the product automaton decides whether
  two segments match a common string, and \<^verbatim>\<open>PatternsOverlap\<close> decides whether
  two patterns match a common path.
\<close>

section \<open>Ranges denote sets of runes\<close>

definition in_ranges :: "rune \<Rightarrow> rune_range list \<Rightarrow> bool" where
  "in_ranges x rs \<longleftrightarrow> (\<exists>(lo, hi) \<in> set rs. lo \<le> x \<and> x \<le> hi)"

definition proper :: "rune_range list \<Rightarrow> bool" where
  "proper rs \<longleftrightarrow> (\<forall>(lo, hi) \<in> set rs. lo \<le> hi)"

definition wf_ranges :: "rune_range list \<Rightarrow> bool" where
  "wf_ranges rs \<longleftrightarrow> proper rs \<and> sorted_wrt (\<lambda>r s. snd r < fst s) rs"

lemma in_ranges_simps [simp]:
  "\<not> in_ranges x []"
  "in_ranges x ((lo, hi) # rs) \<longleftrightarrow> lo \<le> x \<and> x \<le> hi \<or> in_ranges x rs"
  "in_ranges x (rs @ rs') \<longleftrightarrow> in_ranges x rs \<or> in_ranges x rs'"
  by (auto simp: in_ranges_def)

lemma in_ranges_concat [simp]: "in_ranges x (concat rss) \<longleftrightarrow> (\<exists>rs \<in> set rss. in_ranges x rs)"
  by (auto simp: in_ranges_def)

lemma wf_ranges_simps [simp]:
  "wf_ranges []"
  "wf_ranges ((lo, hi) # rs) \<longleftrightarrow> lo \<le> hi \<and> (\<forall>r \<in> set rs. hi < fst r) \<and> wf_ranges rs"
  by (auto simp: wf_ranges_def proper_def)

lemma in_ranges_lower: "in_ranges x rs \<Longrightarrow> \<forall>r \<in> set rs. b < fst r \<Longrightarrow> b < x"
  by (force simp: in_ranges_def)

lemma wf_nonSeparator [simp]: "wf_ranges nonSeparatorRanges"
  by (simp add: nonSeparatorRanges_def maxRune_def)

lemma rangesOverlap_correct:
  "wf_ranges a \<Longrightarrow> wf_ranges b \<Longrightarrow> rangesOverlap a b \<longleftrightarrow> (\<exists>x. in_ranges x a \<and> in_ranges x b)"
proof (induction a b rule: rangesOverlap.induct)
  case (3 alo ahi a blo bhi b)
  show ?case
  proof (cases "ahi < blo")
    case True
    have "\<not> (alo \<le> x \<and> x \<le> ahi \<and> in_ranges x ((blo, bhi) # b))" for x
      using True 3(4) in_ranges_lower [of x b bhi] by auto
    with True 3 show ?thesis by auto
  next
    case ge: False
    show ?thesis
    proof (cases "bhi < alo")
      case True
      have "\<not> (blo \<le> x \<and> x \<le> bhi \<and> in_ranges x ((alo, ahi) # a))" for x
        using True 3(3) in_ranges_lower [of x a ahi] by auto
      with True ge 3 show ?thesis by auto
    next
      case False
      with ge 3(3,4) have "in_ranges (max alo blo) ((alo, ahi) # a)" "in_ranges (max alo blo) ((blo, bhi) # b)"
        by auto
      with ge False show ?thesis by (simp only: rangesOverlap.simps if_False) blast
    qed
  qed
qed simp_all

lemma merge_ranges_correct:
  assumes "clo \<le> chi" "proper rest" "sorted_wrt (\<lambda>r s. fst r \<le> fst s) rest" "\<forall>r \<in> set rest. clo \<le> fst r"
  shows "wf_ranges (merge_ranges (clo, chi) rest)"
    and "in_ranges x (merge_ranges (clo, chi) rest) \<longleftrightarrow> clo \<le> x \<and> x \<le> chi \<or> in_ranges x rest"
    and "\<forall>r \<in> set (merge_ranges (clo, chi) rest). clo \<le> fst r"
  using assms
proof (atomize (full), induction "(clo, chi)" rest arbitrary: clo chi rule: merge_ranges.induct)
  case (1 clo chi)
  then show ?case by simp
next
  case (2 clo chi lo hi rest)
  have p: "lo \<le> hi" "proper rest" "sorted_wrt (\<lambda>r s. fst r \<le> fst s) rest" "\<forall>r \<in> set rest. lo \<le> fst r"
    "clo \<le> lo" "\<forall>r \<in> set rest. clo \<le> fst r"
    using "2.prems" by (auto simp: proper_def)
  show ?case
  proof (cases "lo \<le> chi + 1")
    case True
    let ?hi = "if hi > chi then hi else chi"
    have "clo \<le> ?hi" using "2.prems" by auto
    from "2.hyps"(1) [OF True] this p
    have IH: "wf_ranges (merge_ranges (clo, ?hi) rest)"
      "in_ranges x (merge_ranges (clo, ?hi) rest) \<longleftrightarrow> clo \<le> x \<and> x \<le> ?hi \<or> in_ranges x rest"
      "\<forall>r \<in> set (merge_ranges (clo, ?hi) rest). clo \<le> fst r" by auto
    have "clo \<le> x \<and> x \<le> ?hi \<longleftrightarrow> clo \<le> x \<and> x \<le> chi \<or> lo \<le> x \<and> x \<le> hi"
      using True p "2.prems" by auto
    with IH True show ?thesis by auto
  next
    case False
    from "2.hyps"(2) [OF False] p
    have IH: "wf_ranges (merge_ranges (lo, hi) rest)"
      "in_ranges x (merge_ranges (lo, hi) rest) \<longleftrightarrow> lo \<le> x \<and> x \<le> hi \<or> in_ranges x rest"
      "\<forall>r \<in> set (merge_ranges (lo, hi) rest). lo \<le> fst r" by auto
    with False p "2.prems" show ?thesis by force
  qed
qed

lemma proper_sort [simp]: "proper (sort rs) = proper rs"
  by (simp add: proper_def)

lemma in_ranges_sort [simp]: "in_ranges x (sort rs) = in_ranges x rs"
  by (simp add: in_ranges_def)

lemma sort_by_lower: "sorted_wrt (\<lambda>r s. fst r \<le> fst s) (sort (rs :: rune_range list))"
  using sorted_sort [of rs] by (rule sorted_wrt_mono_rel [rotated]) (auto simp: less_eq_prod_def)

lemma normalizeRanges_correct:
  assumes "proper rs"
  shows "wf_ranges (normalizeRanges rs)" "in_ranges x (normalizeRanges rs) \<longleftrightarrow> in_ranges x rs"
proof (atomize (full), cases "length rs \<le> 1")
  case True
  then show "wf_ranges (normalizeRanges rs) \<and> (in_ranges x (normalizeRanges rs) \<longleftrightarrow> in_ranges x rs)"
    using assms by (cases rs) (auto simp: normalizeRanges_def proper_def)
next
  case False
  then obtain clo chi rest where s: "sort rs = (clo, chi) # rest"
    by (cases "sort rs") (auto, metis length_sort list.size(3) zero_le)
  have "proper ((clo, chi) # rest)" using assms by (simp flip: s)
  moreover have "sorted_wrt (\<lambda>r s. fst r \<le> fst s) ((clo, chi) # rest)"
    using sort_by_lower [of rs] by (simp add: s)
  ultimately have "clo \<le> chi" "proper rest" "sorted_wrt (\<lambda>r s. fst r \<le> fst s) rest" "\<forall>r \<in> set rest. clo \<le> fst r"
    by (auto simp: proper_def)
  note m = merge_ranges_correct [OF this]
  have "in_ranges x rs \<longleftrightarrow> clo \<le> x \<and> x \<le> chi \<or> in_ranges x rest"
    using in_ranges_sort [of x rs] by (simp add: s)
  with m(1,2) False s show "wf_ranges (normalizeRanges rs) \<and> (in_ranges x (normalizeRanges rs) \<longleftrightarrow> in_ranges x rs)"
    by (simp add: normalizeRanges_def)
qed

lemma intersect_scan_inside:
  "r \<in> set (intersect_scan a b) \<Longrightarrow> \<exists>ra \<in> set a. \<exists>rb \<in> set b. fst ra \<le> fst r \<and> fst rb \<le> fst r"
  by (induction a b rule: intersect_scan.induct) (auto simp: Let_def split: if_splits)

lemma intersect_scan_correct:
  assumes "wf_ranges a" "wf_ranges b"
  shows "wf_ranges (intersect_scan a b)"
    and "in_ranges x (intersect_scan a b) \<longleftrightarrow> in_ranges x a \<and> in_ranges x b"
  using assms
proof (atomize (full), induction a b rule: intersect_scan.induct)
  case (3 alo ahi a blo bhi b)
  show ?case
  proof (cases "ahi < bhi")
    case True
    let ?rest = "intersect_scan a ((blo, bhi) # b)"
    from 3(1) [OF refl refl refl True] 3(3,4) have IH: "wf_ranges ?rest"
      "in_ranges x ?rest \<longleftrightarrow> in_ranges x a \<and> in_ranges x ((blo, bhi) # b)" by auto
    have above: "\<forall>r \<in> set ?rest. ahi < fst r"
      using intersect_scan_inside [of _ a "(blo, bhi) # b"] 3(3) by force
    have "\<not> (alo \<le> x \<and> x \<le> ahi \<and> in_ranges x b)"
      using True 3(4) in_ranges_lower [of x b bhi] by auto
    with IH above True show ?thesis by (auto simp: Let_def)
  next
    case False
    let ?rest = "intersect_scan ((alo, ahi) # a) b"
    from 3(2) [OF refl refl refl False] 3(3,4) have IH: "wf_ranges ?rest"
      "in_ranges x ?rest \<longleftrightarrow> in_ranges x ((alo, ahi) # a) \<and> in_ranges x b" by auto
    have above: "\<forall>r \<in> set ?rest. bhi < fst r"
      using intersect_scan_inside [of _ "(alo, ahi) # a" b] 3(4) by force
    have "\<not> (blo \<le> x \<and> x \<le> bhi \<and> in_ranges x a)"
      using False 3(3) in_ranges_lower [of x a ahi] by auto
    with IH above False show ?thesis by (auto simp: Let_def)
  qed
qed simp_all

lemma wf_append:
  "wf_ranges rs \<Longrightarrow> wf_ranges rs' \<Longrightarrow> (\<And>r s. r \<in> set rs \<Longrightarrow> s \<in> set rs' \<Longrightarrow> snd r < fst s)
    \<Longrightarrow> wf_ranges (rs @ rs')"
  by (auto simp: wf_ranges_def proper_def sorted_wrt_append)

definition inside :: "rune_range \<Rightarrow> rune_range \<Rightarrow> bool" where
  "inside c r \<longleftrightarrow> fst c \<le> fst r \<and> snd r \<le> snd c"

text \<open>Replacing every range by pieces inside it keeps the list sorted.\<close>

lemma wf_concat_pieces:
  assumes "wf_ranges rs" "\<And>c. c \<in> set rs \<Longrightarrow> wf_ranges (f c)"
    "\<And>c r. c \<in> set rs \<Longrightarrow> r \<in> set (f c) \<Longrightarrow> inside c r"
  shows "wf_ranges (concat (map f rs))"
  using assms
proof (induction rs)
  case Nil
  then show ?case by simp
next
  case (Cons c rs)
  obtain lo hi where c: "c = (lo, hi)" by (cases c)
  show ?case
    unfolding list.map concat.simps
  proof (rule wf_append)
    fix r s assume r: "r \<in> set (f c)" and "s \<in> set (concat (map f rs))"
    then obtain c' where "c' \<in> set rs" "s \<in> set (f c')" by auto
    with Cons.prems(1) Cons.prems(3) [of c r] Cons.prems(3) [of c' s] r c
    show "snd r < fst s" by (force simp: inside_def)
  qed (use Cons c in auto)
qed

lemma cut_range_correct:
  assumes "fst s \<le> snd s" "fst c \<le> snd c"
  shows "wf_ranges (cut_range s c)" "r \<in> set (cut_range s c) \<Longrightarrow> inside c r"
    "in_ranges x (cut_range s c) \<longleftrightarrow> (fst c \<le> x \<and> x \<le> snd c) \<and> \<not> (fst s \<le> x \<and> x \<le> snd s)"
  using assms by (cases s; cases c; auto simp: cut_range_def inside_def split: if_splits)+

lemma subtract_loop_correct:
  assumes "proper ss" "wf_ranges cur"
  shows "wf_ranges (subtract_loop ss cur)"
    and "in_ranges x (subtract_loop ss cur) \<longleftrightarrow> in_ranges x cur \<and> \<not> in_ranges x ss"
    and "\<forall>r \<in> set (subtract_loop ss cur). \<exists>c \<in> set cur. inside c r"
  using assms
proof (atomize (full), induction ss cur rule: subtract_loop.induct)
  case (1 cur)
  then show ?case by (auto simp: inside_def)
next
  case (2 s ss cur)
  obtain slo shi where s: "s = (slo, shi)" by (cases s)
  let ?nxt = "concat (map (cut_range s) cur)"
  have ps: "fst s \<le> snd s" "proper ss" using "2.prems" by (auto simp: proper_def)
  have pc: "fst c \<le> snd c" if "c \<in> set cur" for c
    using "2.prems" that by (auto simp: wf_ranges_def proper_def)
  note cut = cut_range_correct [OF ps(1) pc]
  have wf: "wf_ranges ?nxt" by (rule wf_concat_pieces) (use "2.prems" cut in auto)
  have "in_ranges x cur \<longleftrightarrow> (\<exists>c \<in> set cur. fst c \<le> x \<and> x \<le> snd c)" by (force simp: in_ranges_def)
  then have mem: "in_ranges x ?nxt \<longleftrightarrow> in_ranges x cur \<and> \<not> (slo \<le> x \<and> x \<le> shi)"
    using cut(3) s by auto
  have ins: "\<forall>r \<in> set ?nxt. \<exists>c \<in> set cur. inside c r" using cut(2) by fastforce
  show ?case
  proof (cases "?nxt = []")
    case True
    with mem s show ?thesis by (simp add: Let_def)
  next
    case False
    have tr: "inside c r' \<Longrightarrow> inside r' r \<Longrightarrow> inside c r" for c r' r by (auto simp: inside_def)
    from "2.IH" [OF refl False] ps(2) wf have IH: "wf_ranges (subtract_loop ss ?nxt)"
      "in_ranges x (subtract_loop ss ?nxt) \<longleftrightarrow> in_ranges x ?nxt \<and> \<not> in_ranges x ss"
      "\<forall>r \<in> set (subtract_loop ss ?nxt). \<exists>c \<in> set ?nxt. inside c r" by auto
    have "\<forall>r \<in> set (subtract_loop ss ?nxt). \<exists>c \<in> set cur. inside c r"
      using IH(3) ins tr by meson
    with IH(1,2) mem s False show ?thesis by (auto simp: Let_def)
  qed
qed

lemma subtractRanges_correct:
  assumes "proper base" "proper sub"
  shows "wf_ranges (subtractRanges base sub)"
    "in_ranges x (subtractRanges base sub) \<longleftrightarrow> in_ranges x base \<and> \<not> in_ranges x sub"
proof -
  let ?b = "normalizeRanges base" and ?s = "normalizeRanges sub"
  note b = normalizeRanges_correct [OF assms(1)] and s = normalizeRanges_correct [OF assms(2)]
  have ps: "proper ?s" using s(1) by (simp add: wf_ranges_def)
  have one: "wf_ranges [c]" if "c \<in> set ?b" for c
    using b(1) that by (cases c) (auto simp: wf_ranges_def proper_def)
  note loop = subtract_loop_correct [OF ps one]
  show "wf_ranges (subtractRanges base sub)"
    unfolding subtractRanges_def Let_def
    by (rule wf_concat_pieces) (use b(1) loop in auto)
  have "in_ranges x ?b \<longleftrightarrow> (\<exists>c \<in> set ?b. in_ranges x [c])" by (auto simp: in_ranges_def)
  then show "in_ranges x (subtractRanges base sub) \<longleftrightarrow> in_ranges x base \<and> \<not> in_ranges x sub"
    unfolding subtractRanges_def Let_def using loop(2) b(2) s(2) by auto
qed

section \<open>What a pattern matches\<close>

definition token_ok :: "token \<Rightarrow> bool" where
  "token_ok t = (case t of TokenClass rs \<Rightarrow> wf_ranges rs | _ \<Rightarrow> True)"

lemma parseClass_ok: "parseClass rs = Inr (tok, rest) \<Longrightarrow> token_ok tok"
proof -
  assume a: "parseClass rs = Inr (tok, rest)"
  then obtain body ranges where body: "class_loop body [] False = Inr (ranges, rest)"
    and tok: "tok = TokenClass (if hd rs = 94 then subtractRanges nonSeparatorRanges (normalizeRanges ranges)
        else intersectRanges (normalizeRanges ranges) nonSeparatorRanges)"
    by (auto simp: parseClass_def Let_def sum_bind_Inr_iff split: if_splits)
  have p: "proper ranges" using class_loop_Inr(2) [OF body] by (auto simp: proper_def)
  have pn: "proper nonSeparatorRanges" "proper (normalizeRanges ranges)"
    using wf_nonSeparator normalizeRanges_correct(1) [OF p] by (simp_all add: wf_ranges_def)
  show ?thesis
    using subtractRanges_correct(1) [OF pn]
      intersect_scan_correct(1) [OF normalizeRanges_correct(1) [OF pn(2)] normalizeRanges_correct(1) [OF pn(1)]]
    by (simp add: tok token_ok_def intersectRanges_def)
qed

lemma parseSegment_ok: "parseSegment rs = Inr ts \<Longrightarrow> \<forall>t \<in> set ts. token_ok t"
proof (induction rs arbitrary: ts rule: parseSegment.induct)
  case 1
  then show ?case by simp
next
  case (2 ch rest)
  have lit: "token_ok TokenStar" "token_ok TokenAny" "token_ok (TokenLiteral c)" for c
    by (simp_all add: token_ok_def)
  show ?case
    using 2 lit parseClass_ok
    by (auto simp: sum_bind_Inr_iff split: if_splits sum.splits list.splits)
qed

text \<open>What one rune must satisfy for a token to consume it.\<close>

definition token_ranges :: "token \<Rightarrow> rune_range list" where
  "token_ranges t = (case t of TokenStar \<Rightarrow> nonSeparatorRanges | TokenAny \<Rightarrow> nonSeparatorRanges
     | TokenLiteral c \<Rightarrow> [(c, c)] | TokenClass rs \<Rightarrow> rs)"

fun seg_match :: "token list \<Rightarrow> rune list \<Rightarrow> bool" where
  "seg_match [] s = (s = [])"
| "seg_match (t # ts) [] = (t = TokenStar \<and> seg_match ts [])"
| "seg_match (t # ts) (c # cs) =
     (if t = TokenStar
      then seg_match ts (c # cs) \<or> in_ranges c nonSeparatorRanges \<and> seg_match (t # ts) cs
      else in_ranges c (token_ranges t) \<and> seg_match ts cs)"

lemma seg_match_star: "seg_match ts s \<Longrightarrow> seg_match (TokenStar # ts) s"
  by (cases s) simp_all

lemma tokenConsume_eq:
  "tokenConsume ts i = (if ts ! i = TokenStar then i else i + 1, token_ranges (ts ! i))"
  by (cases "ts ! i") (simp_all add: tokenConsume_def token_ranges_def)

lemma wf_token_ranges: "token_ok t \<Longrightarrow> wf_ranges (token_ranges t)"
  by (cases t) (simp_all add: token_ok_def token_ranges_def)

definition common :: "token list \<Rightarrow> token list \<Rightarrow> nat \<times> nat \<Rightarrow> bool" where
  "common ta tb p \<longleftrightarrow> (\<exists>s. seg_match (drop (fst p) ta) s \<and> seg_match (drop (snd p) tb) s)"

section \<open>The search\<close>

lemma drop_star: "is_star ts i \<Longrightarrow> drop i ts = TokenStar # drop (Suc i) ts"
  by (simp add: is_star_def Cons_nth_drop_Suc [symmetric])

lemma common_star:
  "is_star ta i \<Longrightarrow> common ta tb (Suc i, j) \<Longrightarrow> common ta tb (i, j)"
  "is_star tb j \<Longrightarrow> common ta tb (i, Suc j) \<Longrightarrow> common ta tb (i, j)"
  by (auto simp: common_def drop_star intro: seg_match_star)

lemma seg_match_consume:
  assumes "i < length ts" "in_ranges c (token_ranges (ts ! i))"
    "seg_match (drop (fst (tokenConsume ts i)) ts) s"
  shows "seg_match (drop i ts) (c # s)"
proof (cases "ts ! i = TokenStar")
  case True
  with assms have "seg_match (TokenStar # drop (Suc i) ts) s"
    by (simp add: tokenConsume_eq Cons_nth_drop_Suc [symmetric, of i ts])
  with True assms show ?thesis
    by (simp add: Cons_nth_drop_Suc [symmetric, of i ts] token_ranges_def)
next
  case False
  with assms show ?thesis
    by (simp add: tokenConsume_eq Cons_nth_drop_Suc [symmetric, of i ts])
qed

text \<open>Everything the closure adds is new, inside the grid, and closed under stars.\<close>

definition star_closed :: "token list \<Rightarrow> token list \<Rightarrow> (nat \<times> nat) set \<Rightarrow> (nat \<times> nat) set \<Rightarrow> bool" where
  "star_closed ta tb X S \<longleftrightarrow> (\<forall>(i, j) \<in> X. (is_star ta i \<longrightarrow> (Suc i, j) \<in> S) \<and> (is_star tb j \<longrightarrow> (i, Suc j) \<in> S))"

definition grid :: "token list \<Rightarrow> token list \<Rightarrow> (nat \<times> nat) set" where
  "grid ta tb = {..length ta} \<times> {..length tb}"

lemma addClosure_spec:
  "addClosure ta tb stack seen queue = (seen', queue') \<Longrightarrow>
   \<exists>new. queue' = queue @ new \<and> distinct new \<and> set new \<inter> seen = {} \<and> seen' = seen \<union> set new
     \<and> set stack \<subseteq> seen' \<and> star_closed ta tb (set new) seen'
     \<and> (set stack \<subseteq> grid ta tb \<longrightarrow> set new \<subseteq> grid ta tb)
     \<and> ((\<forall>p \<in> set stack. common ta tb p \<longrightarrow> Q) \<longrightarrow> (\<forall>p \<in> set new. common ta tb p \<longrightarrow> Q))"
proof (induction ta tb stack seen queue rule: addClosure.induct)
  case (1 ta tb seen queue)
  then show ?case by (auto simp: star_closed_def)
next
  case (2 ta tb i j stack seen queue)
  show ?case
  proof (cases "(i, j) \<in> seen")
    case True
    with "2.prems" have "addClosure ta tb stack seen queue = (seen', queue')" by simp
    from "2.IH"(1) [OF True this] obtain new where "queue' = queue @ new \<and> distinct new
      \<and> set new \<inter> seen = {} \<and> seen' = seen \<union> set new \<and> set stack \<subseteq> seen' \<and> star_closed ta tb (set new) seen'
      \<and> (set stack \<subseteq> grid ta tb \<longrightarrow> set new \<subseteq> grid ta tb)
      \<and> ((\<forall>p \<in> set stack. common ta tb p \<longrightarrow> Q) \<longrightarrow> (\<forall>p \<in> set new. common ta tb p \<longrightarrow> Q))" by blast
    with True show ?thesis by (intro exI [of _ new]) auto
  next
    case False
    let ?push = "(if is_star tb j then [(i, j + 1)] else []) @ (if is_star ta i then [(i + 1, j)] else []) @ stack"
    from False "2.prems" have "addClosure ta tb ?push (insert (i, j) seen) (queue @ [(i, j)]) = (seen', queue')"
      by simp
    from "2.IH"(2) [OF False this] obtain new where new: "queue' = (queue @ [(i, j)]) @ new" "distinct new"
      "set new \<inter> insert (i, j) seen = {}" "seen' = insert (i, j) seen \<union> set new" "set ?push \<subseteq> seen'"
      "star_closed ta tb (set new) seen'"
      "set ?push \<subseteq> grid ta tb \<longrightarrow> set new \<subseteq> grid ta tb"
      "(\<forall>p \<in> set ?push. common ta tb p \<longrightarrow> Q) \<longrightarrow> (\<forall>p \<in> set new. common ta tb p \<longrightarrow> Q)" by blast
    have "star_closed ta tb (set ((i, j) # new)) seen'"
      using new(5,6) by (auto simp: star_closed_def split: if_splits)
    moreover have "set ((i, j) # stack) \<subseteq> grid ta tb \<Longrightarrow> set ?push \<subseteq> grid ta tb"
      by (auto simp: grid_def is_star_def)
    moreover have "\<forall>p \<in> set ((i, j) # stack). common ta tb p \<longrightarrow> Q \<Longrightarrow> \<forall>p \<in> set ?push. common ta tb p \<longrightarrow> Q"
      using common_star [of ta i tb j] common_star [of tb j ta i] by auto
    ultimately show ?thesis using new False by (intro exI [of _ "(i, j) # new"]) auto
  qed
qed

declare addClosure.simps [simp del]

text \<open>Soundness: a state is only reached from states with a longer common string.\<close>

lemma common_consume:
  assumes "i < length ta" "j < length tb" "\<forall>t \<in> set ta. token_ok t" "\<forall>t \<in> set tb. token_ok t"
    and "rangesOverlap (snd (tokenConsume ta i)) (snd (tokenConsume tb j))"
    and "common ta tb (fst (tokenConsume ta i), fst (tokenConsume tb j))"
  shows "common ta tb (i, j)"
proof -
  have "wf_ranges (token_ranges (ta ! i))" "wf_ranges (token_ranges (tb ! j))"
    using assms(1-4) by (simp_all add: wf_token_ranges)
  with assms(5) obtain c where "in_ranges c (token_ranges (ta ! i))" "in_ranges c (token_ranges (tb ! j))"
    by (auto simp: tokenConsume_eq rangesOverlap_correct)
  moreover obtain s where "seg_match (drop (fst (tokenConsume ta i)) ta) s"
    "seg_match (drop (fst (tokenConsume tb j)) tb) s"
    using assms(6) by (auto simp: common_def)
  ultimately show ?thesis
    unfolding common_def using assms(1,2) by (auto intro!: exI [of _ "c # s"] seg_match_consume)
qed

lemma overlap_loop_sound:
  assumes "overlap_loop fuel ta tb todo seen"
    and "\<forall>t \<in> set ta. token_ok t" "\<forall>t \<in> set tb. token_ok t"
    and "set todo \<subseteq> grid ta tb" "\<forall>p \<in> set todo. common ta tb p \<longrightarrow> Q"
  shows Q
  using assms
proof (induction fuel ta tb todo seen rule: overlap_loop.induct)
  case (3 fuel ta tb i j todo seen)
  show ?case
  proof (cases "i = length ta \<or> j = length tb")
    case True
    have "i = length ta \<and> j = length tb \<Longrightarrow> common ta tb (i, j)" by (auto simp: common_def)
    with True 3 show ?thesis by (auto split: if_splits)
  next
    case False
    obtain aN aR where a: "tokenConsume ta i = (aN, aR)" by (cases "tokenConsume ta i")
    obtain bN bR where b: "tokenConsume tb j = (bN, bR)" by (cases "tokenConsume tb j")
    from False 3(7) have lt: "i < length ta" "j < length tb" by (auto simp: grid_def)
    show ?thesis
    proof (cases "rangesOverlap aR bR")
      case no: False
      with 3(2) [of "(aN, aR)" aN aR "(bN, bR)" bN bR] False a b 3(4-) show ?thesis by auto
    next
      case True
      obtain seen' todo' where c: "addClosure ta tb [(aN, bN)] seen todo = (seen', todo')"
        by (cases "addClosure ta tb [(aN, bN)] seen todo")
      from addClosure_spec [OF c, of Q] obtain new where new: "todo' = todo @ new"
        "set [(aN, bN)] \<subseteq> grid ta tb \<longrightarrow> set new \<subseteq> grid ta tb"
        "(\<forall>p \<in> set [(aN, bN)]. common ta tb p \<longrightarrow> Q) \<longrightarrow> (\<forall>p \<in> set new. common ta tb p \<longrightarrow> Q)" by blast
      have "(aN, bN) \<in> grid ta tb" using a b lt by (auto simp: tokenConsume_eq grid_def split: if_splits)
      moreover have "common ta tb (aN, bN) \<longrightarrow> Q"
        using common_consume [OF lt 3(5,6)] True a b 3(8) by auto
      moreover have "overlap_loop fuel ta tb todo' seen'"
        using 3(4) False a b True c by simp
      moreover have "\<forall>p \<in> set todo'. common ta tb p \<longrightarrow> Q" "set todo' \<subseteq> grid ta tb"
        using new 3(7,8) calculation(1,2) by auto
      ultimately show ?thesis
        using 3(3) [of "(aN, aR)" aN aR "(bN, bR)" bN bR "(seen', todo')" seen' todo'] False a b True c 3(5,6)
        by (simp del: ball_simps)
    qed
  qed
qed simp_all

text \<open>
  Completeness: where the search fails, the states seen are closed under the
  moves of the product and avoid the accepting state.
\<close>

definition accepting :: "token list \<Rightarrow> token list \<Rightarrow> nat \<times> nat" where
  "accepting ta tb = (length ta, length tb)"

definition consume_closed :: "token list \<Rightarrow> token list \<Rightarrow> (nat \<times> nat) set \<Rightarrow> (nat \<times> nat) set \<Rightarrow> bool" where
  "consume_closed ta tb X S \<longleftrightarrow> (\<forall>(i, j) \<in> X. i < length ta \<longrightarrow> j < length tb \<longrightarrow>
     rangesOverlap (snd (tokenConsume ta i)) (snd (tokenConsume tb j)) \<longrightarrow>
     (fst (tokenConsume ta i), fst (tokenConsume tb j)) \<in> S)"

lemma closed_common:
  assumes "star_closed ta tb S S" "consume_closed ta tb S S" "S \<subseteq> grid ta tb"
    and "\<forall>t \<in> set ta. token_ok t" "\<forall>t \<in> set tb. token_ok t"
    and "(i, j) \<in> S" "seg_match (drop i ta) s" "seg_match (drop j tb) s"
  shows "accepting ta tb \<in> S"
  using assms(6-8)
proof (induction "length s + (length ta - i) + (length tb - j)" arbitrary: i j s rule: less_induct)
  case less
  have ij: "i \<le> length ta" "j \<le> length tb" using assms(3) less.prems(1) by (auto simp: grid_def)
  show ?case
  proof (cases "is_star ta i \<and> seg_match (drop (Suc i) ta) s")
    case True
    then have "(Suc i, j) \<in> S" using assms(1) less.prems(1) by (auto simp: star_closed_def)
    with True less.hyps [of s "Suc i" j] less.prems(3) show ?thesis by (auto simp: is_star_def)
  next
    case a: False
    show ?thesis
    proof (cases "is_star tb j \<and> seg_match (drop (Suc j) tb) s")
      case True
      then have "(i, Suc j) \<in> S" using assms(1) less.prems(1) by (auto simp: star_closed_def)
      with True less.hyps [of s i "Suc j"] less.prems(2) show ?thesis by (auto simp: is_star_def)
    next
      case b: False
      show ?thesis
      proof (cases s)
        case Nil
        have "i = length ta"
          using ij(1) a less.prems(2) Nil
          by (cases "i < length ta") (auto simp: is_star_def Cons_nth_drop_Suc [symmetric, of i ta])
        moreover have "j = length tb"
          using ij(2) b less.prems(3) Nil
          by (cases "j < length tb") (auto simp: is_star_def Cons_nth_drop_Suc [symmetric, of j tb])
        ultimately show ?thesis using less.prems(1) by (simp add: accepting_def)
      next
        case (Cons c cs)
        have lt: "i < length ta" "j < length tb"
          using ij less.prems(2,3) Cons by (cases "i = length ta"; cases "j = length tb"; auto)+
        have ca: "in_ranges c (token_ranges (ta ! i)) \<and> seg_match (drop (fst (tokenConsume ta i)) ta) cs"
          using a less.prems(2) Cons lt(1)
          by (auto simp: Cons_nth_drop_Suc [symmetric, of i ta] is_star_def tokenConsume_eq token_ranges_def
              split: if_splits)
        have cb: "in_ranges c (token_ranges (tb ! j)) \<and> seg_match (drop (fst (tokenConsume tb j)) tb) cs"
          using b less.prems(3) Cons lt(2)
          by (auto simp: Cons_nth_drop_Suc [symmetric, of j tb] is_star_def tokenConsume_eq token_ranges_def
              split: if_splits)
        have "wf_ranges (token_ranges (ta ! i))" "wf_ranges (token_ranges (tb ! j))"
          using assms(4,5) lt by (simp_all add: wf_token_ranges)
        then have "rangesOverlap (snd (tokenConsume ta i)) (snd (tokenConsume tb j))"
          using ca cb by (auto simp: tokenConsume_eq rangesOverlap_correct)
        then have "(fst (tokenConsume ta i), fst (tokenConsume tb j)) \<in> S"
          using assms(2) less.prems(1) lt by (auto simp: consume_closed_def)
        moreover have "length cs + (length ta - fst (tokenConsume ta i)) + (length tb - fst (tokenConsume tb j))
            < length s + (length ta - i) + (length tb - j)"
          using lt Cons by (auto simp: tokenConsume_eq)
        ultimately show ?thesis using less.hyps ca cb by blast
      qed
    qed
  qed
qed

lemma card_grid: "card (grid ta tb) = (length ta + 1) * (length tb + 1)"
  by (simp add: grid_def card_cartesian_product)

lemma overlap_loop_complete:
  assumes "\<not> overlap_loop fuel ta tb todo seen"
    and "distinct todo" "set todo \<subseteq> seen" "seen \<subseteq> grid ta tb" "star_closed ta tb seen seen"
    and "consume_closed ta tb (seen - set todo) seen" "accepting ta tb \<notin> seen - set todo"
    and "card (grid ta tb) \<le> fuel + card (seen - set todo)"
  shows "\<exists>S. seen \<subseteq> S \<and> S \<subseteq> grid ta tb \<and> star_closed ta tb S S \<and> consume_closed ta tb S S
    \<and> accepting ta tb \<notin> S"
  using assms
proof (induction fuel ta tb todo seen rule: overlap_loop.induct)
  case (1 fuel ta tb seen)
  then show ?case by (intro exI [of _ seen]) simp
next
  case (2 ta tb c todo seen)
  have fin: "finite (grid ta tb)" by (simp add: grid_def)
  have "c \<in> grid ta tb" "c \<notin> seen - set (c # todo)" using 2 by auto
  then have "seen - set (c # todo) \<subset> grid ta tb" using 2(4) by auto
  with psubset_card_mono [OF fin this] 2 show ?case by simp
next
  case (3 fuel ta tb i j todo seen)
  have fin: "finite (grid ta tb)" by (simp add: grid_def)
  then have finS: "finite seen" using 3(7) by (rule finite_subset [rotated])
  have c: "(i, j) \<in> seen" "(i, j) \<notin> set todo" using 3(5,6) by auto
  have popped: "seen - set todo = insert (i, j) (seen - set ((i, j) # todo))" using c by auto
  have card: "card (grid ta tb) \<le> fuel + card (seen - set todo)"
    using 3(11) finS unfolding popped by (subst card_insert_disjoint) auto
  have ends: "\<not> (i = length ta \<and> j = length tb)" using 3(4) by auto
  then have acc: "accepting ta tb \<notin> seen - set todo"
    using 3(10) unfolding popped by (auto simp: accepting_def)
  have ij: "i \<le> length ta" "j \<le> length tb" using c(1) 3(7) by (auto simp: grid_def)
  show ?case
  proof (cases "i = length ta \<or> j = length tb")
    case True
    have "consume_closed ta tb (seen - set todo) seen"
      unfolding popped using True 3(9) by (auto simp: consume_closed_def)
    with 3(1) [OF ends True] 3(4-8) True ends acc card show ?thesis by auto
  next
    case False
    then have lt: "i < length ta" "j < length tb" using ij by auto
    obtain aN aR where a: "tokenConsume ta i = (aN, aR)" by (cases "tokenConsume ta i")
    obtain bN bR where b: "tokenConsume tb j = (bN, bR)" by (cases "tokenConsume tb j")
    show ?thesis
    proof (cases "rangesOverlap aR bR")
      case no: False
      have "consume_closed ta tb (seen - set todo) seen"
        unfolding popped using no a b 3(9) by (auto simp: consume_closed_def)
      with 3(2) [OF ends False a [symmetric] refl b [symmetric] refl] no 3(4-8) False ends acc card a b
      show ?thesis by auto
    next
      case True
      obtain seen' todo' where cl: "addClosure ta tb [(aN, bN)] seen todo = (seen', todo')"
        by (cases "addClosure ta tb [(aN, bN)] seen todo")
      from addClosure_spec [OF cl, of True] obtain new where new: "todo' = todo @ new" "distinct new"
        "set new \<inter> seen = {}" "seen' = seen \<union> set new" "set [(aN, bN)] \<subseteq> seen'"
        "star_closed ta tb (set new) seen'" "set [(aN, bN)] \<subseteq> grid ta tb \<longrightarrow> set new \<subseteq> grid ta tb" by blast
      have "(aN, bN) \<in> grid ta tb" using a b lt by (auto simp: tokenConsume_eq grid_def split: if_splits)
      then have grid': "seen' \<subseteq> grid ta tb" using new(4,7) 3(7) by auto
      have star': "star_closed ta tb seen' seen'" using new(4,6) 3(8) by (auto simp: star_closed_def)
      have diff: "seen' - set todo' = seen - set todo" using new(1,3,4) by auto
      have cons': "consume_closed ta tb (seen' - set todo') seen'"
        unfolding diff popped using 3(9) a b new(4,5) by (auto simp: consume_closed_def)
      have "distinct todo'" "set todo' \<subseteq> seen'" using new 3(5,6) by auto
      moreover have "\<not> overlap_loop fuel ta tb todo' seen'"
        using 3(4) False ends a b True cl by simp
      ultimately have "\<exists>S. seen' \<subseteq> S \<and> S \<subseteq> grid ta tb \<and> star_closed ta tb S S \<and> consume_closed ta tb S S
          \<and> accepting ta tb \<notin> S"
        using 3(3) [OF ends False a [symmetric] refl b [symmetric] refl _ cl [symmetric] refl] True
          grid' star' cons' acc card diff by simp
      with new(4) show ?thesis by blast
    qed
  qed
qed

lemma tokens_overlap_correct:
  assumes "\<forall>t \<in> set ta. token_ok t" "\<forall>t \<in> set tb. token_ok t"
  shows "tokens_overlap ta tb \<longleftrightarrow> (\<exists>s. seg_match ta s \<and> seg_match tb s)"
proof -
  obtain seen queue where c: "addClosure ta tb [(0, 0)] {} [] = (seen, queue)"
    by (cases "addClosure ta tb [(0, 0)] {} []")
  from addClosure_spec [OF c, of "common ta tb (0, 0)"] obtain new where new: "queue = new" "distinct new"
    "seen = set new" "(0, 0) \<in> seen" "star_closed ta tb seen seen" "set new \<subseteq> grid ta tb"
    "\<forall>p \<in> set new. common ta tb p \<longrightarrow> common ta tb (0, 0)"
    by (auto simp: grid_def)
  let ?fuel = "(length ta + 1) * (length tb + 1)"
  have eq: "tokens_overlap ta tb \<longleftrightarrow> overlap_loop ?fuel ta tb queue seen"
    by (simp add: tokens_overlap_def c)
  have common0: "common ta tb (0, 0) \<longleftrightarrow> (\<exists>s. seg_match ta s \<and> seg_match tb s)"
    by (simp add: common_def)
  show ?thesis
  proof
    assume "tokens_overlap ta tb"
    then have "overlap_loop ?fuel ta tb queue seen" using eq by simp
    from overlap_loop_sound [OF this assms] new(1,6,7) common0
    show "\<exists>s. seg_match ta s \<and> seg_match tb s" by blast
  next
    assume ex: "\<exists>s. seg_match ta s \<and> seg_match tb s"
    show "tokens_overlap ta tb"
    proof (rule ccontr)
      assume "\<not> tokens_overlap ta tb"
      then have "\<not> overlap_loop ?fuel ta tb queue seen" using eq by simp
      moreover have "consume_closed ta tb (seen - set queue) seen" "accepting ta tb \<notin> seen - set queue"
        using new(1,3) by (auto simp: consume_closed_def)
      moreover have "card (grid ta tb) \<le> ?fuel + card (seen - set queue)" by (simp add: card_grid)
      ultimately obtain S where "seen \<subseteq> S" "S \<subseteq> grid ta tb" "star_closed ta tb S S"
        "consume_closed ta tb S S" "accepting ta tb \<notin> S"
        using overlap_loop_complete [of ?fuel ta tb queue seen] new(1-6) by auto
      with closed_common [of ta tb S 0 0] assms ex new(4) show False by auto
    qed
  qed
qed

section \<open>Paths\<close>

fun parse_all :: "rune list list \<Rightarrow> glob_error + token list list" where
  "parse_all [] = Inr []"
| "parse_all (seg # segs) =
     sum_bind (parseSegment seg) (\<lambda>ts. sum_bind (parse_all segs) (\<lambda>tss. Inr (ts # tss)))"

definition glob_match :: "rune list \<Rightarrow> rune list \<Rightarrow> bool" where
  "glob_match pattern path =
     (case parse_all (split_slash pattern) of
        Inl _ \<Rightarrow> False
      | Inr tss \<Rightarrow> list_all2 seg_match tss (split_slash path))"

definition valid_pattern :: "rune list \<Rightarrow> bool" where
  "valid_pattern p = (case parse_all (split_slash p) of Inl _ \<Rightarrow> False | Inr _ \<Rightarrow> True)"

fun join_slash :: "rune list list \<Rightarrow> rune list" where
  "join_slash [] = []"
| "join_slash [s] = s"
| "join_slash (s # t # ss) = s @ 47 # join_slash (t # ss)"

lemma split_slash_nonempty: "split_slash s \<noteq> []"
  by (induction s rule: split_slash.induct) (auto split: list.splits)

lemma split_slash_free: "seg \<in> set (split_slash s) \<Longrightarrow> 47 \<notin> set seg"
proof (induction s arbitrary: seg rule: split_slash.induct)
  case 1
  then show ?case by simp
next
  case (2 c cs)
  then show ?case by (cases "split_slash cs") (auto split: if_splits)
qed

lemma split_slash_prefix: "47 \<notin> set s \<Longrightarrow> split_slash (s @ 47 # rest) = s # split_slash rest"
  by (induction s) auto

lemma split_slash_plain: "47 \<notin> set s \<Longrightarrow> split_slash s = [s]"
  by (induction s) auto

lemma split_join: "ss \<noteq> [] \<Longrightarrow> \<forall>s \<in> set ss. 47 \<notin> set s \<Longrightarrow> split_slash (join_slash ss) = ss"
  by (induction ss rule: join_slash.induct) (auto simp: split_slash_prefix split_slash_plain)

lemma readClassRune_subset: "readClassRune rs = Inr (r, rest) \<Longrightarrow> set rest \<subseteq> set rs"
  by (auto simp: readClassRune_def split: list.splits if_splits)

lemma class_loop_subset:
  "class_loop rs ranges h = Inr (out, rest) \<Longrightarrow> set rest \<subseteq> set rs"
proof (induction "length rs" arbitrary: rs ranges h rule: less_induct)
  case less
  then obtain r tl1 where rs: "rs = r # tl1" by (cases rs) (simp_all add: class_loop.simps)
  show ?case
  proof (cases "r = 93 \<and> h")
    case True
    with less.prems rs show ?thesis by (simp add: class_loop.simps) auto
  next
    case False
    then obtain lo r1 where r1: "readClassRune rs = Inr (lo, r1)"
      using less.prems rs by (subst (asm) class_loop.simps) (auto split: sum.splits if_splits)
    note sub1 = readClassRune_subset [OF r1] and len1 = readClassRune_shorter [OF r1]
    have "(\<exists>hi r2 ranges'. readClassRune (tl r1) = Inr (hi, r2) \<and> class_loop r2 ranges' True = Inr (out, rest))
        \<or> (\<exists>ranges'. class_loop r1 ranges' True = Inr (out, rest))"
      using less.prems rs False r1 by (subst (asm) class_loop.simps) (auto split: sum.splits if_splits)
    then show ?thesis
    proof (elim disjE exE conjE)
      fix hi r2 ranges' assume r2: "readClassRune (tl r1) = Inr (hi, r2)"
        and step: "class_loop r2 ranges' True = Inr (out, rest)"
      have "length r2 < length rs" using readClassRune_shorter [OF r2] len1 by simp
      from less.hyps [OF this step] readClassRune_subset [OF r2] sub1 show ?thesis
        by (cases r1) auto
    next
      fix ranges' assume "class_loop r1 ranges' True = Inr (out, rest)"
      from less.hyps [OF len1 this] sub1 show ?thesis by blast
    qed
  qed
qed

lemma no_slash_nonSeparator [simp]: "\<not> in_ranges 47 nonSeparatorRanges"
  by (simp add: nonSeparatorRanges_def)

lemma parseClass_slash_free:
  assumes "parseClass rs = Inr (tok, rest)"
  shows "\<not> in_ranges 47 (token_ranges tok)" "set rest \<subseteq> set rs"
proof -
  from assms obtain body ranges where body: "class_loop body [] False = Inr (ranges, rest)" "set body \<subseteq> set rs"
    and tok: "tok = TokenClass (if hd rs = 94 then subtractRanges nonSeparatorRanges (normalizeRanges ranges)
        else intersectRanges (normalizeRanges ranges) nonSeparatorRanges)"
    by (cases rs) (auto simp: parseClass_def Let_def sum_bind_Inr_iff split: if_splits)
  have p: "proper ranges" using class_loop_Inr(2) [OF body(1)] by (auto simp: proper_def)
  have pn: "proper nonSeparatorRanges" "proper (normalizeRanges ranges)"
    using wf_nonSeparator normalizeRanges_correct(1) [OF p] by (simp_all add: wf_ranges_def)
  show "\<not> in_ranges 47 (token_ranges tok)"
    using subtractRanges_correct(2) [OF pn, of 47] normalizeRanges_correct(2) [OF pn(1), of 47]
      intersect_scan_correct(2) [OF normalizeRanges_correct(1) [OF pn(2)] normalizeRanges_correct(1) [OF pn(1)], of 47]
    by (simp add: tok token_ranges_def intersectRanges_def)
  show "set rest \<subseteq> set rs" using class_loop_subset [OF body(1)] body(2) by blast
qed

lemma parseSegment_slash_free:
  "parseSegment rs = Inr ts \<Longrightarrow> 47 \<notin> set rs \<Longrightarrow> \<forall>t \<in> set ts. \<not> in_ranges 47 (token_ranges t)"
proof (induction rs arbitrary: ts rule: parseSegment.induct)
  case 1
  then show ?case by simp
next
  case (2 ch rest)
  have lit: "\<not> in_ranges 47 (token_ranges TokenStar)" "\<not> in_ranges 47 (token_ranges TokenAny)"
    "c \<noteq> 47 \<Longrightarrow> \<not> in_ranges 47 (token_ranges (TokenLiteral c))" for c
    by (simp_all add: token_ranges_def)
  consider "ch = 91" | "ch = 92" | "ch \<noteq> 91" "ch \<noteq> 92" by blast
  then show ?case
  proof cases
    case 1
    with "2.prems"(1) obtain tok rest' ts' where t: "parseClass rest = Inr (tok, rest')"
      "parseSegment rest' = Inr ts'" "ts = tok # ts'" by (auto simp: sum_bind_Inr_iff split: sum.splits)
    note sf = parseClass_slash_free [OF t(1)]
    have "\<forall>t \<in> set ts'. \<not> in_ranges 47 (token_ranges t)"
      using "2.IH"(3) [OF _ _ _ t(1) refl t(2)] 1 "2.prems"(2) sf(2) by auto
    with sf(1) t(3) show ?thesis by simp
  next
    case 2
    with "2.prems"(1) obtain c rest' ts' where t: "rest = c # rest'" "parseSegment rest' = Inr ts'"
      "ts = TokenLiteral c # ts'" by (auto simp: sum_bind_Inr_iff split: list.splits)
    with "2.IH"(4) 2 "2.prems"(2) lit show ?thesis by auto
  next
    case 3
    with "2.IH"(1,2,5) "2.prems" lit show ?thesis by (auto simp: sum_bind_Inr_iff split: if_splits)
  qed
qed

lemma seg_match_slash_free:
  "seg_match ts s \<Longrightarrow> \<forall>t \<in> set ts. \<not> in_ranges 47 (token_ranges t) \<Longrightarrow> 47 \<notin> set s"
  by (induction ts s rule: seg_match.induct) (auto simp: token_ranges_def split: if_splits)

lemma parse_all_Inr:
  "parse_all segs = Inr tss \<longleftrightarrow> list_all2 (\<lambda>seg ts. parseSegment seg = Inr ts) segs tss"
  by (induction segs arbitrary: tss) (auto simp: sum_bind_Inr_iff list_all2_Cons1)

lemma segments_overlap_correct:
  assumes "list_all2 (\<lambda>seg ts. parseSegment seg = Inr ts) as tas"
    "list_all2 (\<lambda>seg ts. parseSegment seg = Inr ts) bs tbs" "length as = length bs"
  shows "segments_overlap as bs
    = Inr (\<exists>ss. list_all2 seg_match tas ss \<and> list_all2 seg_match tbs ss)"
  using assms
proof (induction as bs arbitrary: tas tbs rule: segments_overlap.induct)
  case (1 a as b bs)
  then obtain ta tas' tb tbs' where t: "tas = ta # tas'" "tbs = tb # tbs'" "parseSegment a = Inr ta"
    "parseSegment b = Inr tb" and rest: "list_all2 (\<lambda>seg ts. parseSegment seg = Inr ts) as tas'"
    "list_all2 (\<lambda>seg ts. parseSegment seg = Inr ts) bs tbs'"
    by (auto simp: list_all2_Cons1)
  have seg: "segmentPatternsOverlap a b = Inr (\<exists>s. seg_match ta s \<and> seg_match tb s)"
    using t tokens_overlap_correct parseSegment_ok by (auto simp: segmentPatternsOverlap_def)
  show ?case
  proof (cases "\<exists>s. seg_match ta s \<and> seg_match tb s")
    case True
    with seg 1(1) [OF _ rest] 1(4) t show ?thesis by (auto simp: list_all2_Cons1)
  next
    case False
    with seg t show ?thesis by (auto simp: list_all2_Cons1)
  qed
qed auto

lemma PatternsOverlap_iff:
  assumes "valid_pattern a" "valid_pattern b"
  shows "PatternsOverlap a b = Inr (\<exists>path. glob_match a path \<and> glob_match b path)"
proof -
  let ?sa = "split_slash a" and ?sb = "split_slash b"
  from assms obtain ta tb where t: "parse_all ?sa = Inr ta" "parse_all ?sb = Inr tb"
    by (auto simp: valid_pattern_def split: sum.splits)
  then have l: "list_all2 (\<lambda>seg ts. parseSegment seg = Inr ts) ?sa ta"
    "list_all2 (\<lambda>seg ts. parseSegment seg = Inr ts) ?sb tb" by (simp_all add: parse_all_Inr)
  have m: "glob_match a path \<longleftrightarrow> list_all2 seg_match ta (split_slash path)"
    "glob_match b path \<longleftrightarrow> list_all2 seg_match tb (split_slash path)" for path
    by (simp_all add: glob_match_def t)
  show ?thesis
  proof (cases "length ?sa = length ?sb")
    case False
    then have "length ta \<noteq> length tb" using list_all2_lengthD [OF l(1)] list_all2_lengthD [OF l(2)] by simp
    with False m show ?thesis by (auto simp: PatternsOverlap_def dest!: list_all2_lengthD)
  next
    case True
    have "(\<exists>ss. list_all2 seg_match ta ss \<and> list_all2 seg_match tb ss)
        \<longleftrightarrow> (\<exists>path. glob_match a path \<and> glob_match b path)"
    proof
      assume "\<exists>ss. list_all2 seg_match ta ss \<and> list_all2 seg_match tb ss"
      then obtain ss where ss: "list_all2 seg_match ta ss" "list_all2 seg_match tb ss" by blast
      have "\<forall>s \<in> set ss. 47 \<notin> set s"
      proof
        fix s assume "s \<in> set ss"
        then obtain k where k: "k < length ss" "s = ss ! k" by (metis in_set_conv_nth)
        with ss l have "seg_match (ta ! k) s" "parseSegment (?sa ! k) = Inr (ta ! k)" "?sa ! k \<in> set ?sa"
          by (auto simp: list_all2_conv_all_nth)
        with parseSegment_slash_free split_slash_free seg_match_slash_free show "47 \<notin> set s" by metis
      qed
      moreover have "ss \<noteq> []" using ss(1) l(1) split_slash_nonempty by auto
      ultimately have "split_slash (join_slash ss) = ss" by (intro split_join)
      with ss m show "\<exists>path. glob_match a path \<and> glob_match b path" by metis
    qed (use m in blast)
    with True segments_overlap_correct [OF l True] show ?thesis by (simp add: PatternsOverlap_def)
  qed
qed

lemma count_segments_valid:
  "count_segments segs n w = Inr r \<Longrightarrow> \<exists>tss. parse_all segs = Inr tss \<and> fst r = n + length (concat tss)"
  by (induction segs n w rule: count_segments.induct) (force simp: sum_bind_Inr_iff)+

lemma ValidateComplexity_valid:
  assumes "ValidateComplexity p = None"
  shows "valid_pattern p" "\<exists>tss. parse_all (split_slash p) = Inr tss \<and> length (concat tss) \<le> 50"
proof -
  from assms obtain n w where c: "count_segments (split_slash p) 0 0 = Inr (n, w)" "n \<le> maxTokens"
    by (auto simp: ValidateComplexity_def split: sum.splits if_splits)
  from count_segments_valid [OF c(1)] c(2)
  show "\<exists>tss. parse_all (split_slash p) = Inr tss \<and> length (concat tss) \<le> 50"
    by (auto simp: maxTokens_def)
  then show "valid_pattern p" by (auto simp: valid_pattern_def)
qed

section \<open>The contract of an overlap test\<close>

text \<open>
  What the lock store relies on: a set of patterns on which the test returns no
  error and decides whether the two patterns share an element.
\<close>

locale overlap_test =
  fixes valid :: "'p \<Rightarrow> bool"
    and overlap :: "'p \<Rightarrow> 'p \<Rightarrow> 'e + bool"
    and matches :: "'p \<Rightarrow> 'x \<Rightarrow> bool"
  assumes exact: "valid a \<Longrightarrow> valid b \<Longrightarrow> overlap a b = Inr (\<exists>x. matches a x \<and> matches b x)"
begin

lemma total: "valid a \<Longrightarrow> valid b \<Longrightarrow> overlap a b = Inr True \<or> overlap a b = Inr False"
  by (auto simp: exact)

lemma symmetric: "valid a \<Longrightarrow> valid b \<Longrightarrow> overlap a b = overlap b a"
  by (auto simp: exact)

lemma disjoint:
  "valid a \<Longrightarrow> valid b \<Longrightarrow> overlap a b = Inr False \<Longrightarrow> \<not> (matches a x \<and> matches b x)"
  by (auto simp: exact)

lemma common_element:
  "valid a \<Longrightarrow> valid b \<Longrightarrow> matches a x \<Longrightarrow> matches b x \<Longrightarrow> overlap a b = Inr True"
  by (auto simp: exact)

end

interpretation glob: overlap_test valid_pattern PatternsOverlap glob_match
  by unfold_locales (rule PatternsOverlap_iff)

section \<open>Properties\<close>

text \<open>
  C12. Overlap is decided exactly. For two patterns that parse, the overlap test
  returns no error and is true if and only if some path matches both.
\<close>

theorem PatternsOverlap_correct:
  assumes "valid_pattern a" "valid_pattern b"
  shows "PatternsOverlap a b = Inr (\<exists>path. glob_match a path \<and> glob_match b path)"
  using assms by (rule PatternsOverlap_iff)

text \<open>
  The complexity check guards the search: every accepted pattern parses and
  has at most fifty tokens over all its segments, so the overlap test of two
  accepted patterns returns no error.
\<close>

lemma ValidateComplexity_guards:
  assumes "ValidateComplexity a = None" "ValidateComplexity b = None"
  shows "(\<exists>overlap. PatternsOverlap a b = Inr overlap)
    \<and> (\<exists>tss. parse_all (split_slash a) = Inr tss \<and> length (concat tss) \<le> 50)"
  using ValidateComplexity_valid assms PatternsOverlap_iff by blast

text \<open>The patterns \<^verbatim>\<open>a*\<close> and \<^verbatim>\<open>?b\<close> on concrete runes.\<close>

lemma sample_patterns: "ValidateComplexity [97, 42] = None" "ValidateComplexity [63, 98] = None"
  by (simp_all add: ValidateComplexity_def maxTokens_def maxWildcards_def)

theorem PatternsOverlap_correct_witness:
  "PatternsOverlap [97, 42] [63, 98] = Inr True"
proof -
  have "glob_match [97, 42] [97, 98]" "glob_match [63, 98] [97, 98]"
    by (simp_all add: glob_match_def token_ranges_def nonSeparatorRanges_def maxRune_def)
  then show ?thesis
    using PatternsOverlap_correct [OF ValidateComplexity_valid(1) ValidateComplexity_valid(1),
        OF sample_patterns] by auto
qed

end
