(* ===== verification/Coordination.thy ===== *)
theory Coordination
  imports GlobCorrect
begin

text \<open>
  The coordination lock store: \<^verbatim>\<open>internal/coordination/store.go\<close> and
  \<^verbatim>\<open>types.go\<close>. The table is the list of its rows; a call to the event callback
  is an entry of the returned list. Clock readings are arguments.
\<close>

section \<open>Locks\<close>

definition TypeFileReservation :: string where [const_defs]: "TypeFileReservation = ''file_reservation''"
definition TypeNamedLock :: string where [const_defs]: "TypeNamedLock = ''named_lock''"
definition TypeWriteSet :: string where [const_defs]: "TypeWriteSet = ''write_set''"

record coord_lock =
  lkID :: string
  lkType :: string
  lkOwner :: string
  lkScope :: string
  lkPattern :: "rune list"
  lkExclusive :: bool
  lkReason :: string
  lkTTLSeconds :: int
  lkCreatedAt :: int
  lkExpiresAt :: "int option"
  lkReleasedAt :: "int option"
  lkDispatchID :: string
  lkRunID :: string

record conflict_info =
  ciBlockerID :: string
  ciBlockerOwner :: string
  ciBlockerPattern :: "rune list"
  ciBlockerReason :: string

datatype reserve_result = Reserved coord_lock | Conflict conflict_info

datatype coord_error =
    InvalidPattern glob_error
  | OverlapCheck glob_error
  | ConstraintFailed string
  | ReleaseRequires
  | TransferConflict "rune list" "rune list"

datatype coord_event =
    EvConflict string string "rune list" string string string
  | EvAcquired string string "rune list" string string string
  | EvReleased string string string
  | EvTransferred string string string
  | EvExpired string string "rune list" string string

text \<open>\<^verbatim>\<open>Lock.IsActive\<close>, and the condition the SQL of the store uses.\<close>

definition IsActive :: "int \<Rightarrow> coord_lock \<Rightarrow> bool" where
  "IsActive now l =
     (if lkReleasedAt l \<noteq> None then False
      else case lkExpiresAt l of Some e \<Rightarrow> \<not> e < now | None \<Rightarrow> True)"

definition active_row :: "int \<Rightarrow> coord_lock \<Rightarrow> bool" where
  "active_row now l \<longleftrightarrow>
     lkReleasedAt l = None \<and> (case lkExpiresAt l of None \<Rightarrow> True | Some e \<Rightarrow> e > now)"

datatype lock_change = ReleaseAt int | SetOwner string

fun change_lock :: "lock_change \<Rightarrow> coord_lock \<Rightarrow> coord_lock" where
  "change_lock (ReleaseAt now) l = l\<lparr>lkReleasedAt := Some now\<rparr>"
| "change_lock (SetOwner owner) l = l\<lparr>lkOwner := owner\<rparr>"

interpretation lock_table: keyed_table lkID change_lock
proof
  fix c l
  show "lkID (change_lock c l) = lkID l" by (cases c) simp_all
qed

section \<open>Reserve\<close>

definition sweep_inline :: "int \<Rightarrow> coord_lock list \<Rightarrow> coord_lock list" where
  "sweep_inline now locks =
     sql_update (\<lambda>l. lkReleasedAt l = None \<and> (case lkExpiresAt l of Some e \<Rightarrow> e < now | None \<Rightarrow> False))
       (change_lock (ReleaseAt now)) locks"

fun find_conflict :: "coord_lock \<Rightarrow> coord_lock list \<Rightarrow> coord_error + conflict_info option" where
  "find_conflict lock [] = Inr None"
| "find_conflict lock (existing # rest) =
     (if \<not> lkExclusive lock \<and> \<not> lkExclusive existing then find_conflict lock rest
      else case PatternsOverlap (lkPattern lock) (lkPattern existing) of
        Inl e \<Rightarrow> Inl (OverlapCheck e)
      | Inr overlap \<Rightarrow>
          if overlap
          then Inr (Some \<lparr>ciBlockerID = lkID existing, ciBlockerOwner = lkOwner existing,
                 ciBlockerPattern = lkPattern existing, ciBlockerReason = lkReason existing\<rparr>)
          else find_conflict lock rest)"

definition prepare_lock :: "string \<Rightarrow> int \<Rightarrow> coord_lock \<Rightarrow> coord_lock" where
  "prepare_lock newID created lock =
     (let lock1 = lock\<lparr>lkID := (if lkID lock = [] then newID else lkID lock), lkCreatedAt := created\<rparr>
      in if lkTTLSeconds lock > 0
         then lock1\<lparr>lkExpiresAt := Some (int64 (created + lkTTLSeconds lock))\<rparr> else lock1)"

definition conflict_rows :: "int \<Rightarrow> coord_lock \<Rightarrow> coord_lock list \<Rightarrow> coord_lock list" where
  "conflict_rows now lock locks =
     filter (\<lambda>l. lkScope l = lkScope lock \<and> active_row now l \<and> lkOwner l \<noteq> lkOwner lock) locks"

definition insert_lock :: "coord_lock \<Rightarrow> coord_lock list \<Rightarrow> coord_error + coord_lock list" where
  "insert_lock lock locks =
     (if lkID lock \<in> lkID ` set locks \<or> lkType lock \<notin> {TypeFileReservation, TypeNamedLock, TypeWriteSet}
      then Inl (ConstraintFailed (lkID lock))
      else Inr (locks @ [lock\<lparr>lkReleasedAt := None\<rparr>]))"

definition Reserve ::
    "string \<Rightarrow> int \<Rightarrow> int \<Rightarrow> coord_lock \<Rightarrow> coord_lock list
      \<Rightarrow> coord_error + reserve_result \<times> coord_event list \<times> coord_lock list" where
  "Reserve newID created now lock0 locks =
     (case ValidateComplexity (lkPattern lock0) of
        Some e \<Rightarrow> Inl (InvalidPattern e)
      | None \<Rightarrow>
          let lock = prepare_lock newID created lock0;
              swept = sweep_inline now locks
          in sum_bind (find_conflict lock (conflict_rows now lock swept)) (\<lambda>conflict.
               case conflict of
                 Some ci \<Rightarrow>
                   Inr (Conflict ci,
                        [EvConflict (lkID lock) (lkOwner lock) (lkPattern lock) (lkScope lock)
                           (ciBlockerOwner ci) (lkRunID lock)], locks)
               | None \<Rightarrow>
                   sum_bind (insert_lock lock swept) (\<lambda>locks'.
                     Inr (Reserved lock,
                          [EvAcquired (lkID lock) (lkOwner lock) (lkPattern lock) (lkScope lock)
                             (lkReason lock) (lkRunID lock)], locks'))))"

section \<open>Release, Check, List, Transfer and Sweep\<close>

definition Release ::
    "int \<Rightarrow> string \<Rightarrow> string \<Rightarrow> string \<Rightarrow> coord_lock list
      \<Rightarrow> coord_error + nat \<times> coord_event list \<times> coord_lock list" where
  "Release now lid owner scope locks =
     (let exec = (\<lambda>P. let n = rows_affected P locks in
            Inr (n, if n > 0 then [EvReleased lid owner scope] else [],
                 sql_update P (change_lock (ReleaseAt now)) locks))
      in if lid \<noteq> [] then exec (\<lambda>l. lkID l = lid \<and> lkReleasedAt l = None)
         else if owner \<noteq> [] \<and> scope \<noteq> []
         then exec (\<lambda>l. lkOwner l = owner \<and> lkScope l = scope \<and> lkReleasedAt l = None)
         else Inl ReleaseRequires)"

fun collect_overlaps :: "rune list \<Rightarrow> coord_lock list \<Rightarrow> coord_error + coord_lock list" where
  "collect_overlaps pattern [] = Inr []"
| "collect_overlaps pattern (l # ls) =
     (case PatternsOverlap pattern (lkPattern l) of
        Inl e \<Rightarrow> Inl (OverlapCheck e)
      | Inr overlap \<Rightarrow> sum_bind (collect_overlaps pattern ls) (\<lambda>rest. Inr (if overlap then l # rest else rest)))"

definition Check ::
    "int \<Rightarrow> string \<Rightarrow> rune list \<Rightarrow> string \<Rightarrow> coord_lock list \<Rightarrow> coord_error + coord_lock list" where
  "Check now scope pattern excludeOwner locks =
     (case ValidateComplexity pattern of
        Some e \<Rightarrow> Inl (InvalidPattern e)
      | None \<Rightarrow>
          collect_overlaps pattern
            (filter (\<lambda>l. lkScope l = scope \<and> active_row now l
                \<and> (excludeOwner = [] \<or> lkOwner l \<noteq> excludeOwner)) locks))"

record list_filter =
  lfScope :: string
  lfOwner :: string
  lfType :: string
  lfActive :: bool

definition List_locks :: "int \<Rightarrow> list_filter \<Rightarrow> coord_lock list \<Rightarrow> coord_lock list" where
  "List_locks now f locks =
     order_desc lkCreatedAt (filter (\<lambda>l. (lfScope f = [] \<or> lkScope l = lfScope f)
        \<and> (lfOwner f = [] \<or> lkOwner l = lfOwner f) \<and> (lfType f = [] \<or> lkType l = lfType f)
        \<and> (lfActive f \<longrightarrow> active_row now l)) locks)"

fun overlap_any :: "rune list list \<Rightarrow> rune list \<Rightarrow> coord_error option" where
  "overlap_any [] toPattern = None"
| "overlap_any (fp # fps) toPattern =
     (case PatternsOverlap fp toPattern of
        Inl e \<Rightarrow> Some (OverlapCheck e)
      | Inr overlap \<Rightarrow> if overlap then Some (TransferConflict fp toPattern) else overlap_any fps toPattern)"

fun transfer_conflict :: "rune list list \<Rightarrow> rune list list \<Rightarrow> coord_error option" where
  "transfer_conflict fromPatterns [] = None"
| "transfer_conflict fromPatterns (tp # tps) =
     (case overlap_any fromPatterns tp of Some e \<Rightarrow> Some e | None \<Rightarrow> transfer_conflict fromPatterns tps)"

definition exclusive_patterns :: "int \<Rightarrow> string \<Rightarrow> string \<Rightarrow> coord_lock list \<Rightarrow> rune list list" where
  "exclusive_patterns now owner scope locks =
     map lkPattern (filter (\<lambda>l. lkOwner l = owner \<and> lkScope l = scope \<and> active_row now l \<and> lkExclusive l) locks)"

definition Transfer ::
    "int \<Rightarrow> string \<Rightarrow> string \<Rightarrow> string \<Rightarrow> bool \<Rightarrow> coord_lock list
      \<Rightarrow> coord_error + nat \<times> coord_event list \<times> coord_lock list" where
  "Transfer now fromOwner toOwner scope force locks =
     (case (if force then None
            else transfer_conflict (exclusive_patterns now fromOwner scope locks)
                   (exclusive_patterns now toOwner scope locks)) of
        Some e \<Rightarrow> Inl e
      | None \<Rightarrow>
          let P = (\<lambda>l. lkOwner l = fromOwner \<and> lkScope l = scope \<and> active_row now l);
              n = rows_affected P locks
          in Inr (n, if n > 0 then [EvTransferred fromOwner scope (''transferred to '' @ toOwner)] else [],
                  sql_update P (change_lock (SetOwner toOwner)) locks))"

fun sweep_release :: "int \<Rightarrow> coord_lock list \<Rightarrow> coord_lock list \<Rightarrow> coord_event list \<times> coord_lock list" where
  "sweep_release now [] locks = ([], locks)"
| "sweep_release now (l # ls) locks =
     (case Release now (lkID l) [] [] locks of
        Inl _ \<Rightarrow> sweep_release now ls locks
      | Inr (n, evs, locks') \<Rightarrow>
          let (evs', locks'') = sweep_release now ls locks' in
          (evs @ EvExpired (lkID l) (lkOwner l) (lkPattern l) (lkScope l) (lkRunID l) # evs', locks''))"

record sweep_result =
  srExpired :: nat
  srTotal :: nat

text \<open>\<open>olderThan\<close> is the duration in whole seconds.\<close>

definition Sweep ::
    "int \<Rightarrow> int \<Rightarrow> bool \<Rightarrow> coord_lock list \<Rightarrow> sweep_result \<times> coord_event list \<times> coord_lock list" where
  "Sweep now olderThan dryRun locks =
     (let cutoff = (if olderThan > 0 then int64 (now - olderThan) else now);
          expired = filter (\<lambda>l. lkReleasedAt l = None
                      \<and> (case lkExpiresAt l of Some e \<Rightarrow> e < cutoff | None \<Rightarrow> False)) locks;
          result = \<lparr>srExpired = length expired, srTotal = length expired\<rparr>
      in if dryRun \<or> expired = [] then (result, [], locks)
         else let (evs, locks') = sweep_release now expired locks in (result, evs, locks'))"

section \<open>Mutual exclusion\<close>

lemma active_row_mono: "active_row t' l \<Longrightarrow> t \<le> t' \<Longrightarrow> active_row t l"
  by (auto simp: active_row_def split: option.splits)

definition may_clash :: "coord_lock \<Rightarrow> coord_lock \<Rightarrow> bool" where
  "may_clash l m \<longleftrightarrow> lkScope l = lkScope m \<and> lkOwner l \<noteq> lkOwner m \<and> (lkExclusive l \<or> lkExclusive m)"

definition share_path :: "coord_lock \<Rightarrow> coord_lock \<Rightarrow> bool" where
  "share_path l m \<longleftrightarrow> (\<exists>path. glob_match (lkPattern l) path \<and> glob_match (lkPattern m) path)"

definition conflict_free :: "int \<Rightarrow> coord_lock list \<Rightarrow> bool" where
  "conflict_free t locks \<longleftrightarrow>
     (\<forall>l \<in> set locks. valid_pattern (lkPattern l))
   \<and> (\<forall>l \<in> set locks. \<forall>m \<in> set locks. active_row t l \<longrightarrow> active_row t m \<longrightarrow> may_clash l m \<longrightarrow> \<not> share_path l m)"

lemma share_path_sym: "share_path l m \<longleftrightarrow> share_path m l"
  by (auto simp: share_path_def)

lemma may_clash_sym: "may_clash l m \<longleftrightarrow> may_clash m l"
  by (auto simp: may_clash_def)

text \<open>
  Changes of the table that end activity or leave a lock alone keep the locks
  free of conflicts.
\<close>

definition weaker :: "int \<Rightarrow> coord_lock \<Rightarrow> coord_lock \<Rightarrow> bool" where
  "weaker t l' l \<longleftrightarrow> lkPattern l' = lkPattern l \<and> lkScope l' = lkScope l \<and> lkExclusive l' = lkExclusive l
     \<and> lkOwner l' = lkOwner l \<and> (active_row t l' \<longrightarrow> active_row t l)"

lemma conflict_free_weaker:
  assumes "conflict_free t locks" "\<forall>l' \<in> set locks'. \<exists>l \<in> set locks. weaker t' l' l" "t \<le> t'"
  shows "conflict_free t' locks'"
proof -
  have "valid_pattern (lkPattern l')" if "l' \<in> set locks'" for l'
    using assms(1,2) that by (auto simp: conflict_free_def weaker_def)
  moreover have "\<not> share_path l' m'"
    if "l' \<in> set locks'" "m' \<in> set locks'" "active_row t' l'" "active_row t' m'" "may_clash l' m'" for l' m'
  proof -
    from assms(2) that(1,2) obtain l m where lm: "l \<in> set locks" "weaker t' l' l" "m \<in> set locks" "weaker t' m' m"
      by blast
    then have "active_row t l" "active_row t m" "may_clash l m" "share_path l' m' = share_path l m"
      using that(3-5) assms(3) active_row_mono by (auto simp: weaker_def may_clash_def share_path_def)
    with assms(1) lm(1,3) show ?thesis by (auto simp: conflict_free_def)
  qed
  ultimately show ?thesis by (simp add: conflict_free_def)
qed

lemma weaker_refl [simp]: "weaker t l l"
  by (simp add: weaker_def)

lemma conflict_free_release:
  "conflict_free t locks \<Longrightarrow> t \<le> t' \<Longrightarrow> conflict_free t' (sql_update P (change_lock (ReleaseAt now)) locks)"
proof (erule conflict_free_weaker)
  have w: "weaker t' (change_lock (ReleaseAt now) l) l" for l by (simp add: weaker_def active_row_def)
  show "\<forall>l' \<in> set (sql_update P (change_lock (ReleaseAt now)) locks). \<exists>l \<in> set locks. weaker t' l' l"
  proof
    fix l' assume "l' \<in> set (sql_update P (change_lock (ReleaseAt now)) locks)"
    then obtain l where "l \<in> set locks" "l' = l \<or> l' = change_lock (ReleaseAt now) l"
      unfolding in_sql_update by blast
    with w weaker_refl show "\<exists>l \<in> set locks. weaker t' l' l" by metis
  qed
qed

lemma conflict_free_later: "conflict_free t locks \<Longrightarrow> t \<le> t' \<Longrightarrow> conflict_free t' locks"
  by (erule conflict_free_weaker) (use weaker_refl in blast)

lemma find_conflict_None:
  assumes "find_conflict lock rows = Inr None" "r \<in> set rows"
  shows "\<not> lkExclusive lock \<and> \<not> lkExclusive r \<or> PatternsOverlap (lkPattern lock) (lkPattern r) = Inr False"
  using assms by (induction lock rows rule: find_conflict.induct) (auto split: if_splits sum.splits)

lemma prepare_lock_frame [simp]:
  "lkPattern (prepare_lock i c l) = lkPattern l" "lkScope (prepare_lock i c l) = lkScope l"
  "lkOwner (prepare_lock i c l) = lkOwner l" "lkExclusive (prepare_lock i c l) = lkExclusive l"
  "lkType (prepare_lock i c l) = lkType l"
  by (simp_all add: prepare_lock_def Let_def)

lemma Reserve_InrE:
  assumes "Reserve newID created now lock locks = Inr (res, evs, locks')"
  obtains (conflict) ci where "res = Conflict ci" "locks' = locks"
      "find_conflict (prepare_lock newID created lock)
         (conflict_rows now (prepare_lock newID created lock) (sweep_inline now locks)) = Inr (Some ci)"
      "ValidateComplexity (lkPattern lock) = None"
  | (acquired) "res = Reserved (prepare_lock newID created lock)"
      "find_conflict (prepare_lock newID created lock)
         (conflict_rows now (prepare_lock newID created lock) (sweep_inline now locks)) = Inr None"
      "insert_lock (prepare_lock newID created lock) (sweep_inline now locks) = Inr locks'"
      "ValidateComplexity (lkPattern lock) = None"
  using assms by (auto simp: Reserve_def Let_def sum_bind_Inr_iff split: option.splits)

lemma conflict_free_Reserve:
  assumes "Reserve newID created now lock locks = Inr (res, evs, locks')"
    and "conflict_free t locks" "t \<le> now"
  shows "conflict_free now locks'"
  using assms(1)
proof (cases rule: Reserve_InrE)
  case (conflict ci)
  with assms conflict_free_later show ?thesis by simp
next
  case acquired
  let ?lock = "prepare_lock newID created lock" and ?swept = "sweep_inline now locks"
  have swept: "conflict_free now ?swept"
    unfolding sweep_inline_def by (rule conflict_free_release [OF assms(2,3)])
  have valid: "valid_pattern (lkPattern lock)" by (rule ValidateComplexity_valid [OF acquired(4)])
  have locks': "locks' = ?swept @ [?lock\<lparr>lkReleasedAt := None\<rparr>]"
    using acquired(3) by (auto simp: insert_lock_def split: if_splits)
  have new: "\<not> share_path ?lock r" if r: "r \<in> set ?swept" "active_row now r" "may_clash ?lock r" for r
  proof -
    have "r \<in> set (conflict_rows now ?lock ?swept)"
      using r by (auto simp: conflict_rows_def may_clash_def)
    from find_conflict_None [OF acquired(2) this] r(3)
    have "PatternsOverlap (lkPattern lock) (lkPattern r) = Inr False" by (auto simp: may_clash_def)
    moreover have "valid_pattern (lkPattern r)" using swept r(1) by (auto simp: conflict_free_def)
    ultimately show ?thesis using glob.disjoint [OF valid] by (auto simp: share_path_def)
  qed
  let ?new = "?lock\<lparr>lkReleasedAt := None\<rparr>"
  have same: "may_clash ?new r = may_clash ?lock r" "may_clash r ?new = may_clash ?lock r"
    "share_path ?new r = share_path ?lock r" "share_path r ?new = share_path ?lock r" for r
    by (auto simp: may_clash_def share_path_def)
  show ?thesis
    unfolding conflict_free_def locks'
  proof (intro conjI ballI impI)
    fix l assume "l \<in> set (?swept @ [?new])"
    with swept valid show "valid_pattern (lkPattern l)" by (auto simp: conflict_free_def)
  next
    fix l m assume "l \<in> set (?swept @ [?new])" "m \<in> set (?swept @ [?new])"
      and act: "active_row now l" "active_row now m" and clash: "may_clash l m"
    then consider "l \<in> set ?swept" "m \<in> set ?swept" | "l = ?new" "m \<in> set ?swept"
      | "l \<in> set ?swept" "m = ?new" | "l = ?new" "m = ?new" by auto
    then show "\<not> share_path l m"
    proof cases
      case 1
      with swept act clash show ?thesis by (auto simp: conflict_free_def)
    next
      case 2
      with new [of m] act clash same show ?thesis by simp
    next
      case 3
      with new [of l] act clash same show ?thesis by simp
    next
      case 4
      with clash show ?thesis by (simp add: may_clash_def)
    qed
  qed
qed

lemma conflict_free_Transfer:
  assumes "Transfer now fromOwner toOwner scope force locks = Inr (n, evs, locks')"
    and "conflict_free t locks" "t \<le> now"
  shows "conflict_free now locks'"
proof -
  let ?P = "\<lambda>l. lkOwner l = fromOwner \<and> lkScope l = scope \<and> active_row now l"
  let ?f = "\<lambda>l. if ?P l then l\<lparr>lkOwner := toOwner\<rparr> else l"
  have locks': "locks' = map ?f locks"
    using assms(1) by (auto simp: Transfer_def Let_def sql_update_def split: option.splits)
  have cf: "conflict_free now locks" using assms(2,3) by (rule conflict_free_later)
  have act: "active_row now (?f l) = active_row now l" for l by (simp add: active_row_def)
  have "\<not> share_path (?f l) (?f m)"
    if "l \<in> set locks" "m \<in> set locks" "active_row now (?f l)" "active_row now (?f m)" "may_clash (?f l) (?f m)" for l m
  proof -
    have "may_clash l m" using that(3-5) act by (auto simp: may_clash_def split: if_splits)
    moreover have "share_path (?f l) (?f m) = share_path l m" by (simp add: share_path_def)
    ultimately show ?thesis using cf that(1-4) act unfolding conflict_free_def by blast
  qed
  moreover have "valid_pattern (lkPattern (?f l))" if "l \<in> set locks" for l
    using cf that by (auto simp: conflict_free_def)
  ultimately show ?thesis
    unfolding conflict_free_def locks' by (simp only: set_map ball_simps) blast
qed

lemma Release_locks:
  "Release now lid owner scope locks = Inr (n, evs, locks') \<Longrightarrow>
   \<exists>P. locks' = sql_update P (change_lock (ReleaseAt now)) locks"
  by (auto simp: Release_def Let_def split: if_splits)

lemma conflict_free_Release:
  "Release now lid owner scope locks = Inr (n, evs, locks') \<Longrightarrow> conflict_free t locks \<Longrightarrow> t \<le> t' \<Longrightarrow>
   conflict_free t' locks'"
  using Release_locks conflict_free_release by metis

lemma conflict_free_sweep_release:
  "conflict_free t locks \<Longrightarrow> conflict_free t (snd (sweep_release now ls locks))"
proof (induction now ls locks rule: sweep_release.induct)
  case (1 now locks)
  then show ?case by simp
next
  case (2 now l ls locks)
  show ?case
  proof (cases "Release now (lkID l) [] [] locks")
    case (Inl e)
    with 2 show ?thesis by simp
  next
    case (Inr x)
    then obtain n evs locks' where x: "Release now (lkID l) [] [] locks = Inr (n, evs, locks')"
      by (cases x) auto
    have "conflict_free t locks'" using conflict_free_Release [OF x 2(3)] by simp
    from 2(2) [OF x refl refl this] x show ?thesis
      by (cases "sweep_release now ls locks'") simp
  qed
qed

text \<open>The clock and the table; the clock never goes backwards.\<close>

inductive coord_step :: "int \<times> coord_lock list \<Rightarrow> int \<times> coord_lock list \<Rightarrow> bool" where
  reserve: "Reserve newID created now lock locks = Inr (res, evs, locks') \<Longrightarrow> t \<le> now
     \<Longrightarrow> coord_step (t, locks) (now, locks')"
| release: "Release now lid owner scope locks = Inr (n, evs, locks') \<Longrightarrow> t \<le> now
     \<Longrightarrow> coord_step (t, locks) (now, locks')"
| transfer: "Transfer now fromOwner toOwner scope force locks = Inr (n, evs, locks') \<Longrightarrow> t \<le> now
     \<Longrightarrow> coord_step (t, locks) (now, locks')"
| sweep: "Sweep now olderThan dryRun locks = (res, evs, locks') \<Longrightarrow> t \<le> now
     \<Longrightarrow> coord_step (t, locks) (now, locks')"
| tick: "t \<le> now \<Longrightarrow> coord_step (t, locks) (now, locks)"

definition coord_reachable :: "int \<Rightarrow> coord_lock list \<Rightarrow> bool" where
  "coord_reachable t locks \<longleftrightarrow> (\<exists>t0. coord_step\<^sup>*\<^sup>* (t0, []) (t, locks))"

lemma coord_step_conflict_free:
  assumes "coord_step s s'" "conflict_free (fst s) (snd s)"
  shows "conflict_free (fst s') (snd s')"
  using assms
proof (induction rule: coord_step.induct)
  case (sweep now olderThan dryRun locks res evs locks' t)
  have "conflict_free now locks" using sweep by (auto intro: conflict_free_later)
  from conflict_free_sweep_release [OF this] sweep(1) show ?case
    using \<open>conflict_free now locks\<close>
    by (auto simp: Sweep_def Let_def split: if_splits prod.splits) (metis snd_conv)+
qed (auto intro: conflict_free_Reserve conflict_free_Release conflict_free_Transfer conflict_free_later)

lemma coord_reachable_conflict_free: "coord_reachable t locks \<Longrightarrow> conflict_free t locks"
proof -
  assume "coord_reachable t locks"
  then obtain t0 where "coord_step\<^sup>*\<^sup>* (t0, []) (t, locks)" by (auto simp: coord_reachable_def)
  then have "conflict_free (fst (t, locks)) (snd (t, locks))"
  proof (induction rule: rtranclp_induct)
    case base
    show ?case by (simp add: conflict_free_def)
  next
    case (step y z)
    then show ?case by (rule_tac coord_step_conflict_free)
  qed
  then show ?thesis by simp
qed

section \<open>Properties\<close>

text \<open>
  C11. Mutual exclusion. In every table the lock operations lead to while the
  clock does not go backwards, two active locks of one scope held by different
  owners, one of them exclusive, have patterns that no path matches together.
\<close>

theorem locks_mutually_exclusive:
  assumes "coord_reachable t locks" "l \<in> set locks" "m \<in> set locks"
    and "active_row t l" "active_row t m" "lkScope l = lkScope m" "lkOwner l \<noteq> lkOwner m"
    and "lkExclusive l \<or> lkExclusive m"
  shows "\<not> (glob_match (lkPattern l) path \<and> glob_match (lkPattern m) path)"
  using coord_reachable_conflict_free [OF assms(1)] assms(2-)
  by (auto simp: conflict_free_def may_clash_def share_path_def)

lemma find_conflict_Some:
  "find_conflict lock rows = Inr (Some ci) \<Longrightarrow> \<exists>r \<in> set rows. ciBlockerID ci = lkID r
     \<and> (lkExclusive lock \<or> lkExclusive r) \<and> PatternsOverlap (lkPattern lock) (lkPattern r) = Inr True"
  by (induction lock rows rule: find_conflict.induct) (auto split: if_splits sum.splits)

lemma find_conflict_valid:
  assumes "valid_pattern (lkPattern lock)" "\<forall>r \<in> set rows. valid_pattern (lkPattern r)"
  shows "\<exists>c. find_conflict lock rows = Inr c"
  using assms
proof (induction rows)
  case (Cons existing rest)
  then have "PatternsOverlap (lkPattern lock) (lkPattern existing) = Inr True
      \<or> PatternsOverlap (lkPattern lock) (lkPattern existing) = Inr False" by (intro glob.total) simp_all
  with Cons show ?case by (cases "\<not> lkExclusive lock \<and> \<not> lkExclusive existing") auto
qed simp

text \<open>
  Reserve decides. Of a well-formed request on a reachable table, the
  outcome is a conflict exactly if an active lock of the scope, held by another
  owner and not shared with a shared request, has a pattern that shares a path
  with the request; a conflict leaves the table as it was.
\<close>

lemma Reserve_decides:
  assumes "coord_reachable t locks" "t \<le> now" "ValidateComplexity (lkPattern lock) = None"
    and "lkID lock \<notin> lkID ` set locks" "lkID lock \<noteq> []" "lkType lock = TypeFileReservation"
  shows "\<exists>res evs locks'. Reserve newID created now lock locks = Inr (res, evs, locks') \<and>
    ((\<exists>ci. res = Conflict ci) \<longleftrightarrow>
       (\<exists>r \<in> set locks. active_row now r \<and> lkScope r = lkScope lock \<and> lkOwner r \<noteq> lkOwner lock
          \<and> (lkExclusive lock \<or> lkExclusive r)
          \<and> (\<exists>path. glob_match (lkPattern lock) path \<and> glob_match (lkPattern r) path)))
    \<and> ((\<exists>ci. res = Conflict ci) \<longrightarrow> locks' = locks)"
proof -
  let ?lock = "prepare_lock newID created lock" and ?swept = "sweep_inline now locks"
  let ?rows = "conflict_rows now ?lock ?swept"
  have active_swept: "r \<in> set ?swept \<and> active_row now r \<longleftrightarrow> r \<in> set locks \<and> active_row now r" for r
    unfolding sweep_inline_def in_sql_update by (auto simp: active_row_def split: option.splits)
  have valid: "valid_pattern (lkPattern lock)" by (rule ValidateComplexity_valid [OF assms(3)])
  have "conflict_free now ?swept"
    unfolding sweep_inline_def
    by (rule conflict_free_release [OF coord_reachable_conflict_free [OF assms(1)] assms(2)])
  then have rows_valid: "\<forall>r \<in> set ?rows. valid_pattern (lkPattern r)"
    by (auto simp: conflict_free_def conflict_rows_def)
  have exact: "PatternsOverlap (lkPattern lock) (lkPattern r)
      = Inr (\<exists>path. glob_match (lkPattern lock) path \<and> glob_match (lkPattern r) path)" if "r \<in> set ?rows" for r
    using glob.exact [OF valid] rows_valid that by blast
  have mem: "r \<in> set ?rows \<longleftrightarrow> r \<in> set locks \<and> active_row now r \<and> lkScope r = lkScope lock \<and> lkOwner r \<noteq> lkOwner lock" for r
    using active_swept [of r] by (auto simp: conflict_rows_def)
  have ids: "lkID ` set ?swept = lkID ` set locks"
    unfolding sweep_inline_def using lock_table.keys_update by (metis set_map)
  have id: "lkID ?lock = lkID lock" using assms(5) by (simp add: prepare_lock_def Let_def)
  have ins: "insert_lock ?lock ?swept = Inr (?swept @ [?lock\<lparr>lkReleasedAt := None\<rparr>])"
    using assms(4,6) by (simp add: insert_lock_def ids id)
  obtain c where c: "find_conflict ?lock ?rows = Inr c"
    using find_conflict_valid [of ?lock ?rows] valid rows_valid by auto
  show ?thesis
  proof (cases c)
    case None
    have "\<not> (\<exists>r \<in> set ?rows. (lkExclusive lock \<or> lkExclusive r)
        \<and> (\<exists>path. glob_match (lkPattern lock) path \<and> glob_match (lkPattern r) path))"
      using find_conflict_None [of ?lock ?rows] c None exact by auto
    with mem c None ins assms(3) show ?thesis by (auto simp: Reserve_def Let_def)
  next
    case (Some ci)
    from find_conflict_Some [of ?lock ?rows ci] c Some exact have
      "\<exists>r \<in> set ?rows. (lkExclusive lock \<or> lkExclusive r)
        \<and> (\<exists>path. glob_match (lkPattern lock) path \<and> glob_match (lkPattern r) path)" by fastforce
    with mem c Some assms(3) show ?thesis by (auto simp: Reserve_def Let_def)
  qed
qed

lemma sweep_release_eq:
  assumes "\<forall>l \<in> set ls. lkID l \<noteq> []"
  shows "snd (sweep_release now ls locks)
    = sql_update (\<lambda>l. lkID l \<in> lkID ` set ls \<and> lkReleasedAt l = None) (change_lock (ReleaseAt now)) locks"
  using assms
proof (induction now ls locks rule: sweep_release.induct)
  case (1 now locks)
  then show ?case by (simp add: sql_update_def)
next
  case (2 now l ls locks)
  let ?locks' = "sql_update (\<lambda>m. lkID m = lkID l \<and> lkReleasedAt m = None) (change_lock (ReleaseAt now)) locks"
  obtain n evs where r: "Release now (lkID l) [] [] locks = Inr (n, evs, ?locks')"
    using 2(3) by (simp add: Release_def Let_def)
  have "snd (sweep_release now (l # ls) locks) = snd (sweep_release now ls ?locks')"
    by (cases "sweep_release now ls ?locks'") (simp add: r)
  also have "\<dots> = sql_update (\<lambda>m. lkID m \<in> lkID ` set ls \<and> lkReleasedAt m = None)
      (change_lock (ReleaseAt now)) ?locks'"
    by (rule 2(2) [OF r refl refl]) (use 2(3) in simp)
  also have "\<dots> = sql_update (\<lambda>m. lkID m \<in> lkID ` set (l # ls) \<and> lkReleasedAt m = None)
      (change_lock (ReleaseAt now)) locks"
    by (auto simp: sql_update_def)
  finally show ?case .
qed

definition expired_before :: "int \<Rightarrow> coord_lock \<Rightarrow> bool" where
  "expired_before cutoff l \<longleftrightarrow> lkReleasedAt l = None
     \<and> (case lkExpiresAt l of Some e \<Rightarrow> e < cutoff | None \<Rightarrow> False)"

text \<open>
  A sweep releases exactly the unreleased locks that expired before its
  cutoff, reports their number, and leaves every active lock as it is.
\<close>

lemma Sweep_releases_expired:
  assumes "distinct (map lkID locks)" "\<forall>l \<in> set locks. lkID l \<noteq> []"
    and "0 \<le> olderThan" "olderThan \<le> now" "now < 2 ^ 63"
  shows "\<exists>res evs. Sweep now olderThan False locks
      = (res, evs, map (\<lambda>l. if expired_before (now - olderThan) l then l\<lparr>lkReleasedAt := Some now\<rparr> else l) locks)
    \<and> srExpired res = length (filter (expired_before (now - olderThan)) locks)
    \<and> (\<forall>l \<in> set locks. active_row now l \<longrightarrow> \<not> expired_before (now - olderThan) l)"
proof -
  have cutoff: "(if olderThan > 0 then int64 (now - olderThan) else now) = now - olderThan"
    using assms(3-5) int64_id [of "now - olderThan"] by simp
  let ?ex = "filter (expired_before (now - olderThan)) locks"
  have "lkID l \<in> lkID ` set ?ex \<and> lkReleasedAt l = None \<longleftrightarrow> expired_before (now - olderThan) l"
    if "l \<in> set locks" for l
  proof
    assume "lkID l \<in> lkID ` set ?ex \<and> lkReleasedAt l = None"
    then obtain m where "m \<in> set locks" "expired_before (now - olderThan) m" "lkID m = lkID l" by auto
    moreover have "m = l" using assms(1) calculation(1,3) that by (metis distinct_map inj_onD)
    ultimately show "expired_before (now - olderThan) l" by simp
  qed (use that in \<open>auto simp: expired_before_def\<close>)
  then have eq: "snd (sweep_release now ?ex locks)
      = map (\<lambda>l. if expired_before (now - olderThan) l then l\<lparr>lkReleasedAt := Some now\<rparr> else l) locks"
    using sweep_release_eq [of ?ex now locks] assms(2) by (auto simp: sql_update_def)
  have none: "?ex = [] \<Longrightarrow> map (\<lambda>l. if expired_before (now - olderThan) l
      then l\<lparr>lkReleasedAt := Some now\<rparr> else l) locks = locks"
    by (rule map_idI) (auto simp: filter_empty_conv)
  have act: "\<forall>l \<in> set locks. active_row now l \<longrightarrow> \<not> expired_before (now - olderThan) l"
    using assms(3) by (auto simp: active_row_def expired_before_def split: option.splits)
  have "Sweep now olderThan False locks = (if ?ex = [] then (\<lparr>srExpired = 0, srTotal = 0\<rparr>, [], locks)
      else case sweep_release now ?ex locks of (evs, locks') \<Rightarrow>
        (\<lparr>srExpired = length ?ex, srTotal = length ?ex\<rparr>, evs, locks'))"
    unfolding Sweep_def cutoff Let_def expired_before_def by simp
  with eq none act show ?thesis by (cases "sweep_release now ?ex locks") auto
qed

section \<open>A table with two locks\<close>

definition sample_lock :: "string \<Rightarrow> string \<Rightarrow> rune list \<Rightarrow> coord_lock" where
  "sample_lock lid owner pattern = \<lparr>lkID = lid, lkType = TypeFileReservation, lkOwner = owner, lkScope = ''/p'',
     lkPattern = pattern, lkExclusive = True, lkReason = [], lkTTLSeconds = 0, lkCreatedAt = 0,
     lkExpiresAt = None, lkReleasedAt = None, lkDispatchID = [], lkRunID = []\<rparr>"

definition lock_a :: coord_lock where "lock_a = (sample_lock ''a'' ''ann'' [97, 42])\<lparr>lkCreatedAt := 1\<rparr>"
definition lock_b :: coord_lock where "lock_b = (sample_lock ''b'' ''bob'' [98, 42])\<lparr>lkCreatedAt := 2\<rparr>"

lemma patterns_ab: "ValidateComplexity [97, 42] = None" "ValidateComplexity [98, 42] = None"
  by (simp_all add: ValidateComplexity_def maxTokens_def maxWildcards_def)

lemma disjoint_ab: "PatternsOverlap [98, 42] [97, 42] = Inr False"
proof -
  have "\<not> (glob_match [98, 42] path \<and> glob_match [97, 42] path)" for path
  proof (cases "split_slash path")
    case (Cons s ss)
    then show ?thesis by (cases s) (auto simp: glob_match_def token_ranges_def)
  qed (simp add: split_slash_nonempty)
  then show ?thesis
    using glob.exact [OF ValidateComplexity_valid(1) ValidateComplexity_valid(1), OF patterns_ab(2,1)] by simp
qed

lemma reserve_a: "Reserve ''x'' 1 1 (sample_lock ''a'' ''ann'' [97, 42]) []
    = Inr (Reserved lock_a, [EvAcquired ''a'' ''ann'' [97, 42] ''/p'' [] []], [lock_a])"
  by (simp add: Let_def Reserve_def sample_lock_def patterns_ab prepare_lock_def conflict_rows_def sweep_inline_def
    insert_lock_def lock_a_def)

lemma reserve_b: "Reserve ''x'' 2 2 (sample_lock ''b'' ''bob'' [98, 42]) [lock_a]
    = Inr (Reserved lock_b, [EvAcquired ''b'' ''bob'' [98, 42] ''/p'' [] []], [lock_a, lock_b])"
  by (simp add: Let_def Reserve_def sample_lock_def patterns_ab prepare_lock_def conflict_rows_def sweep_inline_def
    insert_lock_def lock_a_def lock_b_def active_row_def disjoint_ab)

lemma sample_coord_reachable: "coord_reachable 2 [lock_a, lock_b]"
proof -
  have "coord_step (0, []) (1, [lock_a])" by (rule coord_step.reserve [OF reserve_a]) simp
  moreover have "coord_step (1, [lock_a]) (2, [lock_a, lock_b])" by (rule coord_step.reserve [OF reserve_b]) simp
  ultimately show ?thesis unfolding coord_reachable_def by (meson converse_rtranclp_into_rtranclp rtranclp.rtrancl_refl)
qed

lemma sample_locks [simp]:
  "active_row t lock_a" "active_row t lock_b" "lkScope lock_a = ''/p''" "lkScope lock_b = ''/p''"
  "lkOwner lock_a = ''ann''" "lkOwner lock_b = ''bob''" "lkExclusive lock_a" "lkPattern lock_a = [97, 42]"
  "lkPattern lock_b = [98, 42]" "lkID lock_a = ''a''" "lkID lock_b = ''b''"
  by (simp_all add: active_row_def lock_a_def lock_b_def sample_lock_def)

theorem locks_mutually_exclusive_witness:
  "\<not> (glob_match [97, 42] [97, 98] \<and> glob_match [98, 42] [97, 98])"
  using locks_mutually_exclusive [OF sample_coord_reachable, of lock_a lock_b "[97, 98]"] by simp

text \<open>
  \<^verbatim>\<open>Check\<close> reports a shared lock as a conflict for a request that \<^verbatim>\<open>Reserve\<close>
  grants when it is shared as well.
\<close>

theorem Check_reports_shared:
  "Check 3 ''/p'' [97, 42] ''cat'' [lock_a\<lparr>lkExclusive := False\<rparr>] = Inr [lock_a\<lparr>lkExclusive := False\<rparr>]
   \<and> (\<exists>l evs locks'. Reserve ''x'' 3 3 ((sample_lock ''c'' ''cat'' [97, 42])\<lparr>lkExclusive := False\<rparr>)
        [lock_a\<lparr>lkExclusive := False\<rparr>] = Inr (Reserved l, evs, locks'))"
proof -
  have "glob_match [97, 42] [97, 98]"
    by (simp add: glob_match_def token_ranges_def nonSeparatorRanges_def maxRune_def)
  then have "PatternsOverlap [97, 42] [97, 42] = Inr True"
    using glob.common_element [OF ValidateComplexity_valid(1) ValidateComplexity_valid(1), OF patterns_ab(1,1)]
    by blast
  moreover have "active_row 3 (lock_a\<lparr>lkExclusive := False\<rparr>)"
    by (simp add: active_row_def lock_a_def sample_lock_def)
  ultimately show ?thesis
    by (simp add: Let_def Check_def patterns_ab Reserve_def prepare_lock_def conflict_rows_def sweep_inline_def
      insert_lock_def sample_lock_def lock_a_def active_row_def)
qed

end
