(* ===== verification/PortfolioHeap.thy ===== *)
theory PortfolioHeap
  imports Prelude "HOL-Library.Multiset"
begin

text \<open>
  The inline binary min-heap of \<^verbatim>\<open>internal/portfolio/topo.go\<close> on an array, here
  a list updated by index, and the priority-queue contract it implements.
\<close>

section \<open>The operations\<close>

definition swap :: "'a list \<Rightarrow> nat \<Rightarrow> nat \<Rightarrow> 'a list" where
  "swap h i j = h[i := h ! j, j := h ! i]"

function heapUp :: "'a::linorder list \<Rightarrow> nat \<Rightarrow> 'a list" where
  "heapUp h j =
     (let i = (j - 1) div 2 in
      if i = j \<or> h ! j \<ge> h ! i then h else heapUp (swap h i j) i)"
  by pat_completeness auto
termination by (relation "measure snd") auto

function heapDown :: "'a::linorder list \<Rightarrow> nat \<Rightarrow> nat \<Rightarrow> 'a list" where
  "heapDown h i n =
     (let left = 2 * i + 1 in
      if left \<ge> n then h
      else
        let right = left + 1;
            j = (if right < n \<and> h ! right < h ! left then right else left)
        in if h ! i \<le> h ! j then h else heapDown (swap h i j) j n)"
  by pat_completeness auto
termination by (relation "measure (\<lambda>(h, i, n). n - i)") (auto split: if_splits)

declare heapUp.simps [simp del] heapDown.simps [simp del]

fun heapify :: "nat \<Rightarrow> 'a::linorder list \<Rightarrow> 'a list" where
  "heapify 0 h = h"
| "heapify (Suc i) h = heapify i (heapDown h i (length h))"

definition heapInit :: "'a::linorder list \<Rightarrow> 'a list" where
  "heapInit h = heapify (length h div 2) h"

definition heapPush :: "'a::linorder list \<Rightarrow> 'a \<Rightarrow> 'a list" where
  "heapPush h s = (let h' = h @ [s] in heapUp h' (length h' - 1))"

definition heapPop :: "'a::linorder list \<Rightarrow> 'a \<times> 'a list" where
  "heapPop h =
     (let n = length h - 1;
          h1 = heapDown (swap h 0 n) 0 n
      in (h1 ! n, take n h1))"

section \<open>The heap order\<close>

definition par :: "nat \<Rightarrow> nat" where
  "par m = (m - 1) div 2"

text \<open>Heap order of the first \<open>n\<close> cells below the parents from \<open>lo\<close> on.\<close>

definition heap_from :: "nat \<Rightarrow> 'a::linorder list \<Rightarrow> nat \<Rightarrow> bool" where
  "heap_from lo h n \<longleftrightarrow> (\<forall>m. 0 < m \<and> m < n \<and> lo \<le> par m \<longrightarrow> h ! par m \<le> h ! m)"

abbreviation is_heap :: "'a::linorder list \<Rightarrow> bool" where
  "is_heap h \<equiv> heap_from 0 h (length h)"

lemma length_swap [simp]: "length (swap h i j) = length h"
  by (simp add: swap_def)

lemma nth_swap: "i < length h \<Longrightarrow> j < length h \<Longrightarrow>
  swap h i j ! k = (if k = i then h ! j else if k = j then h ! i else h ! k)"
  by (auto simp: swap_def nth_list_update)

lemma mset_swap_cells [simp]: "i < length h \<Longrightarrow> j < length h \<Longrightarrow> mset (swap h i j) = mset h"
  unfolding swap_def by (rule Multiset.mset_swap)

lemma heapUp_perm:
  "j < length h \<Longrightarrow> length (heapUp h j) = length h \<and> mset (heapUp h j) = mset h"
proof (induction h j rule: heapUp.induct)
  case (1 h j)
  show ?case
  proof (cases "(j - 1) div 2 = j \<or> h ! j \<ge> h ! ((j - 1) div 2)")
    case True
    then have "heapUp h j = h" by (subst heapUp.simps) (simp add: Let_def)
    then show ?thesis by simp
  next
    case False
    then have "heapUp h j = heapUp (swap h ((j - 1) div 2) j) ((j - 1) div 2)"
      by (subst heapUp.simps) (simp add: Let_def)
    moreover have "(j - 1) div 2 < length h" using 1(2) by linarith
    ultimately show ?thesis using 1(1) [OF refl False] 1(2) by simp
  qed
qed

abbreviation least_child :: "'a::linorder list \<Rightarrow> nat \<Rightarrow> nat \<Rightarrow> nat" where
  "least_child h i n \<equiv>
     (if 2 * i + 2 < n \<and> h ! (2 * i + 2) < h ! (2 * i + 1) then 2 * i + 2 else 2 * i + 1)"

lemma heapDown_cases:
  "n \<le> 2 * i + 1 \<Longrightarrow> heapDown h i n = h"
  "h ! i \<le> h ! least_child h i n \<Longrightarrow> heapDown h i n = h"
  "2 * i + 1 < n \<Longrightarrow> \<not> h ! i \<le> h ! least_child h i n \<Longrightarrow>
     heapDown h i n = heapDown (swap h i (least_child h i n)) (least_child h i n) n"
  by (subst heapDown.simps; auto simp: Let_def)+

lemma heapDown_rule [case_names step]:
  fixes h :: "'a::linorder list"
  assumes "\<And>h i. (2 * i + 1 < n \<Longrightarrow> \<not> h ! i \<le> h ! least_child h i n \<Longrightarrow>
      P (swap h i (least_child h i n)) (least_child h i n)) \<Longrightarrow> P h i"
  shows "P h i"
proof (induction "n - i" arbitrary: h i rule: less_induct)
  case less
  show ?case
  proof (rule assms, rule less)
    assume "2 * i + 1 < n"
    then show "n - least_child h i n < n - i" by (simp split: if_splits; linarith)
  qed
qed

lemma heapDown_perm:
  "n \<le> length h \<Longrightarrow> length (heapDown h i n) = length h \<and> mset (heapDown h i n) = mset h
     \<and> (\<forall>k. n \<le> k \<longrightarrow> heapDown h i n ! k = h ! k)"
proof (induction h i rule: heapDown_rule [where n = n])
  case (step h i)
  let ?j = "least_child h i n"
  consider "n \<le> 2 * i + 1" | "h ! i \<le> h ! ?j" | "2 * i + 1 < n" "\<not> h ! i \<le> h ! ?j" by linarith
  then show ?case
  proof cases
    case 3
    have ij: "i < length h" "?j < length h" "i < n" "?j < n" using 3(1) step(2) by auto
    from step(1) [OF 3] step(2) have
      "length (heapDown (swap h i ?j) ?j n) = length (swap h i ?j)
        \<and> mset (heapDown (swap h i ?j) ?j n) = mset (swap h i ?j)
        \<and> (\<forall>k. n \<le> k \<longrightarrow> heapDown (swap h i ?j) ?j n ! k = swap h i ?j ! k)" by simp
    moreover have "swap h i ?j ! k = h ! k" if "n \<le> k" for k using that ij by (subst nth_swap) auto
    ultimately show ?thesis unfolding heapDown_cases(3) [OF 3] using ij(1,2) by simp
  qed (simp_all only: heapDown_cases(1,2) simp_thms)
qed

lemma par_child [simp]: "par (2 * i + 1) = i" "par (2 * i + 2) = i" "par (Suc (2 * i)) = i" "par (Suc (Suc (2 * i))) = i"
  by (simp_all add: par_def)

lemma par_children: "0 < m \<Longrightarrow> par m = i \<Longrightarrow> m = 2 * i + 1 \<or> m = 2 * i + 2"
  unfolding par_def by presburger

lemma par_less: "0 < m \<Longrightarrow> par m < m"
  by (auto simp: par_def)

text \<open>Sifting up repairs a heap whose only defect is above \<open>j\<close>.\<close>

lemma heapUp_heap:
  assumes "j < length h"
    and "\<And>m. 0 < m \<Longrightarrow> m < length h \<Longrightarrow> m \<noteq> j \<Longrightarrow> h ! par m \<le> h ! m"
    and "\<And>m. 0 < j \<Longrightarrow> 0 < m \<Longrightarrow> m < length h \<Longrightarrow> par m = j \<Longrightarrow> h ! par j \<le> h ! m"
  shows "is_heap (heapUp h j)"
  using assms
proof (induction h j rule: heapUp.induct)
  case (1 h j)
  let ?i = "(j - 1) div 2"
  show ?case
  proof (cases "?i = j \<or> h ! j \<ge> h ! ?i")
    case True
    then have "heapUp h j = h" by (subst heapUp.simps) (simp add: Let_def)
    moreover have "h ! par m \<le> h ! m" if "0 < m" "m < length h" for m
      using True 1(3) [OF that] that par_less [of m] by (cases "m = j") (auto simp: par_def)
    ultimately show ?thesis by (auto simp: heap_from_def)
  next
    case False
    then have j: "0 < j" "?i < j" "h ! j < h ! ?i" by auto
    have eq: "heapUp h j = heapUp (swap h ?i j) ?i" using False by (subst heapUp.simps) (simp add: Let_def)
    have ij: "?i < length h" "j < length h" using 1(2) j by auto
    have pj: "par j = ?i" by (simp add: par_def)
    have "is_heap (heapUp (swap h ?i j) ?i)"
    proof (rule 1(1) [OF refl False])
      show "?i < length (swap h ?i j)" using ij by simp
    next
      fix m assume m: "0 < m" "m < length (swap h ?i j)" "m \<noteq> ?i"
      consider "m = j" | "m \<noteq> j" "par m = j" | "m \<noteq> j" "par m = ?i" | "m \<noteq> j" "par m \<noteq> j" "par m \<noteq> ?i" by blast
      then show "swap h ?i j ! par m \<le> swap h ?i j ! m"
      proof cases
        case 1
        with pj j ij show ?thesis by (simp add: nth_swap)
      next
        case 2
        with "1.prems"(3) [OF j(1)] m ij j pj show ?thesis by (simp add: nth_swap)
      next
        case 3
        then have "h ! ?i \<le> h ! m" using "1.prems"(2) [of m] m by simp
        with 3 m ij j show ?thesis by (simp add: nth_swap)
      next
        case 4
        with "1.prems"(2) [of m] m ij show ?thesis by (simp add: nth_swap)
      qed
    next
      fix m assume m: "0 < ?i" "0 < m" "m < length (swap h ?i j)" "par m = ?i"
      have pi: "par ?i < ?i" by (rule par_less [OF m(1)])
      have up: "h ! par ?i \<le> h ! ?i" using "1.prems"(2) [of ?i] m(1) ij j by simp
      show "swap h ?i j ! par ?i \<le> swap h ?i j ! m"
      proof (cases "m = j")
        case True
        with up ij pi j show ?thesis by (simp add: nth_swap)
      next
        case False
        then have "h ! ?i \<le> h ! m" using "1.prems"(2) [of m] m by simp
        moreover have "m \<noteq> ?i" using par_less [OF m(2)] m(4) by simp
        ultimately show ?thesis using up False ij pi j by (simp add: nth_swap)
      qed
    qed
    with eq show ?thesis by simp
  qed
qed

text \<open>Sifting down repairs a heap whose only defect is below \<open>i\<close>.\<close>

lemma heapDown_heap:
  assumes "n \<le> length h" "lo \<le> i"
    and "\<And>m. 0 < m \<Longrightarrow> m < n \<Longrightarrow> lo \<le> par m \<Longrightarrow> par m \<noteq> i \<Longrightarrow> h ! par m \<le> h ! m"
    and "\<And>m. 0 < i \<Longrightarrow> lo \<le> par i \<Longrightarrow> 0 < m \<Longrightarrow> m < n \<Longrightarrow> par m = i \<Longrightarrow> h ! par i \<le> h ! m"
  shows "heap_from lo (heapDown h i n) n"
  using assms
proof (induction h i rule: heapDown_rule [where n = n])
  case (step h i)
  let ?j = "least_child h i n"
  have small: "h ! ?j \<le> h ! m" if "0 < m" "m < n" "par m = i" for m
    using par_children [OF that(1,3)] that(2) by auto
  consider "n \<le> 2 * i + 1" | "h ! i \<le> h ! ?j" | "2 * i + 1 < n" "\<not> h ! i \<le> h ! ?j" by linarith
  then show ?case
  proof cases
    case 1
    have "par m \<noteq> i" if "0 < m" "m < n" for m using 1 that par_children [of m i] by auto
    then show ?thesis unfolding heapDown_cases(1) [OF 1] heap_from_def using step.prems(3) by blast
  next
    case 2
    have "h ! par m \<le> h ! m" if "0 < m" "m < n" "lo \<le> par m" for m
    proof (cases "par m = i")
      case True
      from order_trans [OF 2 small [OF that(1,2) True]] True show ?thesis by simp
    qed (use step.prems(3) that in blast)
    then show ?thesis unfolding heapDown_cases(2) [OF 2] heap_from_def by blast
  next
    case 3
    have ij: "i < length h" "?j < length h" "?j < n" "i < ?j" using 3(1) step.prems(1) by auto
    have pj: "par ?j = i" by simp
    have lt: "h ! ?j \<le> h ! i" using 3(2) by (rule nle_le [THEN iffD1, THEN conjunct1])
    have sw: "swap h i ?j ! i = h ! ?j" "swap h i ?j ! ?j = h ! i"
      "\<And>k. k \<noteq> i \<Longrightarrow> k \<noteq> ?j \<Longrightarrow> swap h i ?j ! k = h ! k"
      using ij(1,2) by (subst nth_swap; simp)+
    show ?thesis unfolding heapDown_cases(3) [OF 3]
    proof (rule step.IH [OF 3])
      show "n \<le> length (swap h i ?j)" using step.prems(1) by simp
      show "lo \<le> ?j" using step.prems(2) ij(4) by linarith
    next
      fix m assume m: "0 < m" "m < n" "lo \<le> par m" "par m \<noteq> ?j"
      consider "par m = i" "m = ?j" | "par m = i" "m \<noteq> ?j" | "par m \<noteq> i" "m = i" | "par m \<noteq> i" "m \<noteq> i" by blast
      then show "swap h i ?j ! par m \<le> swap h i ?j ! m"
      proof cases
        case 1
        show ?thesis unfolding 1(1) unfolding 1(2) sw(1,2) by (rule lt)
      next
        case 2
        have "m \<noteq> i" using par_less [OF m(1)] 2(1) by simp
        show ?thesis unfolding 2(1) sw(1) sw(3) [OF \<open>m \<noteq> i\<close> 2(2)] by (rule small [OF m(1,2) 2(1)])
      next
        case 3
        have "par i < i" using par_less [OF m(1)] 3(2) by simp
        moreover have "h ! par i \<le> h ! ?j" using step.prems(4) [of ?j] 3(2) m ij(3,4) pj by simp
        ultimately show ?thesis using sw(1) sw(3) [of "par i"] 3(2) ij(4) by simp
      next
        case 4
        have mj: "m \<noteq> ?j" using 4(1) by (rule contrapos_nn) (rule pj [THEN back_subst [of "\<lambda>k. par k = i"], OF sym])
        show ?thesis unfolding sw(3) [OF 4(1) m(4)] sw(3) [OF 4(2) mj] by (rule step.prems(3) [OF m(1-3) 4(1)])
      qed
    next
      fix m assume m: "0 < m" "m < n" "par m = ?j"
      have mij: "m \<noteq> i" "m \<noteq> ?j" using par_less [OF m(1)] m(3) ij(4) by linarith+
      have "h ! ?j \<le> h ! m" using step.prems(3) [OF m(1,2)] m(3) step.prems(2) ij(4) by simp
      then show "swap h i ?j ! par ?j \<le> swap h i ?j ! m" unfolding pj sw(1) sw(3) [OF mij] by assumption
    qed
  qed
qed

lemma heapify_heap:
  "heap_from k h (length h) \<Longrightarrow> heap_from 0 (heapify k h) (length h)
     \<and> length (heapify k h) = length h \<and> mset (heapify k h) = mset h"
proof (induction k h rule: heapify.induct)
  case (1 h)
  then show ?case by simp
next
  case (2 i h)
  have "heap_from i (heapDown h i (length h)) (length h)"
  proof (rule heapDown_heap)
    fix m assume m: "0 < m" "m < length h" "i \<le> par m" "par m \<noteq> i"
    then show "h ! par m \<le> h ! m" using "2.prems" by (auto simp: heap_from_def)
  next
    fix m assume "0 < i" "i \<le> par i"
    then show "h ! par i \<le> h ! m" using par_less [of i] by simp
  qed simp_all
  with 2 heapDown_perm [where n = "length h" and h = h and i = i] show ?case by simp
qed

lemma heapInit_heap: "is_heap (heapInit h)" "mset (heapInit h) = mset h" "length (heapInit h) = length h"
proof -
  have "heap_from (length h div 2) h (length h)"
    unfolding heap_from_def par_def by (intro allI impI) linarith
  from heapify_heap [OF this] show "is_heap (heapInit h)" "mset (heapInit h) = mset h" "length (heapInit h) = length h"
    by (simp_all add: heapInit_def)
qed

lemma heapPush_heap:
  assumes "is_heap h"
  shows "is_heap (heapPush h s)" "mset (heapPush h s) = add_mset s (mset h)"
proof -
  let ?h = "h @ [s]"
  have "is_heap (heapUp ?h (length h))"
  proof (rule heapUp_heap)
    fix m assume m: "0 < m" "m < length ?h" "m \<noteq> length h"
    then have "m < length h" "par m < length h" using par_less [OF m(1)] by auto
    with assms m show "?h ! par m \<le> ?h ! m" by (auto simp: heap_from_def nth_append)
  next
    fix m assume "0 < m" "m < length ?h" "par m = length h"
    then show "?h ! par (length h) \<le> ?h ! m" using par_less [of m] by simp
  qed simp
  then show "is_heap (heapPush h s)" using heapUp_perm [where j = "length h" and h = ?h] by (simp add: heapPush_def Let_def)
  show "mset (heapPush h s) = add_mset s (mset h)"
    using heapUp_perm [where j = "length h" and h = ?h] by (simp add: heapPush_def Let_def)
qed

lemma heap_root_min:
  assumes "is_heap h" "m < length h"
  shows "h ! 0 \<le> h ! m"
  using assms(2)
proof (induction m rule: less_induct)
  case (less m)
  show ?case
  proof (cases "m = 0")
    case False
    then have "h ! 0 \<le> h ! par m" using less par_less [of m] by simp
    also have "\<dots> \<le> h ! m" using assms(1) less.prems False by (auto simp: heap_from_def)
    finally show ?thesis .
  qed simp
qed

lemma heapPop_heap:
  assumes "is_heap h" "h \<noteq> []" "heapPop h = (x, h')"
  shows "is_heap h'" "mset h = add_mset x (mset h')" "\<forall>y \<in> set h. x \<le> y"
proof -
  let ?n = "length h - 1"
  let ?s = "swap h 0 ?n"
  let ?d = "heapDown ?s 0 ?n"
  have n: "?n < length h" "0 < length h" using assms(2) by (simp_all add: length_greater_0_conv)
  have perm: "length ?d = length h" "mset ?d = mset h" "\<And>k. ?n \<le> k \<Longrightarrow> ?d ! k = ?s ! k"
    using heapDown_perm [where n = ?n and h = ?s and i = 0] n by simp_all
  have x: "x = h ! 0" and h': "h' = take ?n ?d"
    using assms(3) perm(3) [of ?n] n by (auto simp: heapPop_def Let_def nth_swap)
  have last: "?d ! ?n = x" using assms(3) by (simp add: heapPop_def Let_def)
  have "take (Suc ?n) ?d = h' @ [x]" using take_Suc_conv_app_nth [of ?n ?d] perm(1) n last h' by metis
  then have d: "?d = h' @ [x]" using perm(1) n by simp
  with perm(2) show "mset h = add_mset x (mset h')" by (metis mset.simps(2) add_mset_add_single mset_append mset.simps(1))
  have "heap_from 0 ?d ?n"
  proof (rule heapDown_heap)
    fix m assume m: "0 < m" "m < ?n" "par m \<noteq> 0"
    with assms(1) n par_less [OF m(1)] show "?s ! par m \<le> ?s ! m" by (auto simp: heap_from_def nth_swap)
  qed (use n in auto)
  moreover have "length h' = ?n" using h' perm(1) n by simp
  ultimately show "is_heap h'"
    unfolding heap_from_def d using par_less less_trans [OF par_less] by (fastforce simp: nth_append)
  show "\<forall>y \<in> set h. x \<le> y" using heap_root_min [OF assms(1)] x by (auto simp: in_set_conv_nth)
qed

section \<open>The contract of a priority queue\<close>

locale priority_queue =
  fixes inv :: "'h \<Rightarrow> bool"
    and elems :: "'h \<Rightarrow> 'a::linorder multiset"
    and push :: "'h \<Rightarrow> 'a \<Rightarrow> 'h"
    and pop :: "'h \<Rightarrow> 'a \<times> 'h"
  assumes push: "inv h \<Longrightarrow> inv (push h x) \<and> elems (push h x) = add_mset x (elems h)"
    and pop: "inv h \<Longrightarrow> elems h \<noteq> {#} \<Longrightarrow> pop h = (x, h') \<Longrightarrow>
      inv h' \<and> elems h = add_mset x (elems h') \<and> (\<forall>y \<in># elems h. x \<le> y)"
begin

lemma foldl_push: "inv h \<Longrightarrow> inv (foldl push h xs) \<and> elems (foldl push h xs) = elems h + mset xs"
  by (induction xs arbitrary: h) (simp_all add: push)

lemma pop_Min:
  assumes "inv h" "elems h \<noteq> {#}" "pop h = (x, h')"
  shows "x = Min (set_mset (elems h))"
proof (rule sym, rule Min_eqI)
  show "x \<in> set_mset (elems h)" using pop [OF assms] by simp
qed (use pop [OF assms] in auto)

end

interpretation heap: priority_queue is_heap mset heapPush heapPop
proof
  fix h :: "'a list" and x
  assume "is_heap h"
  then show "is_heap (heapPush h x) \<and> mset (heapPush h x) = add_mset x (mset h)"
    by (simp add: heapPush_heap)
next
  fix h h' :: "'a list" and x
  assume "is_heap h" "mset h \<noteq> {#}" "heapPop h = (x, h')"
  then show "is_heap h' \<and> mset h = add_mset x (mset h') \<and> (\<forall>y \<in># mset h. x \<le> y)"
    using heapPop_heap [of h x h'] by (metis mset_zero_iff set_mset_mset)
qed

end
