(* ===== verification/TopoSort.thy ===== *)
theory TopoSort
  imports RunModel PortfolioHeap
begin

text \<open>
  The topological sort of a portfolio's project dependencies,
  \<^verbatim>\<open>TopologicalSort\<close> of \<^verbatim>\<open>internal/portfolio/topo.go\<close>: names to indices, the
  flattened adjacency arrays, and Kahn's loop over the heap of ready projects.
  The abstract view is a set of edges; the specification takes the least ready
  project at each step. The loop is a partial function, so that returning is
  a theorem.
\<close>

section \<open>The three phases\<close>

datatype topo_error = CycleDetected nat nat

definition index_of :: "(string \<rightharpoonup> nat) \<Rightarrow> string \<Rightarrow> nat" where
  "index_of nameIndex s = (case nameIndex s of Some i \<Rightarrow> i | None \<Rightarrow> 0)"

definition nodeID :: "(string \<rightharpoonup> nat) \<times> string list \<Rightarrow> string \<Rightarrow> (string \<rightharpoonup> nat) \<times> string list" where
  "nodeID st s =
     (case fst st s of
        Some i \<Rightarrow> st
      | None \<Rightarrow> ((fst st)(s \<mapsto> length (snd st)), snd st @ [s]))"

definition collect_names :: "dep list \<Rightarrow> (string \<rightharpoonup> nat) \<times> string list" where
  "collect_names deps =
     foldl (\<lambda>st d. nodeID (nodeID st (depUpstream d)) (depDownstream d)) (Map.empty, []) deps"

definition count_out :: "(string \<rightharpoonup> nat) \<Rightarrow> nat \<Rightarrow> dep list \<Rightarrow> nat list" where
  "count_out nameIndex n deps =
     foldl (\<lambda>outCount d.
         let u = index_of nameIndex (depUpstream d) in outCount[u := outCount ! u + 1])
       (replicate n 0) deps"

definition prefix_offsets :: "nat list \<Rightarrow> nat \<Rightarrow> nat list" where
  "prefix_offsets outCount n =
     foldl (\<lambda>offsets i. offsets[i + 1 := offsets ! i + outCount ! i]) (replicate (n + 1) 0) [0..<n]"

definition fill_step ::
  "(string \<rightharpoonup> nat) \<Rightarrow> nat list \<times> nat list \<times> int list \<Rightarrow> dep \<Rightarrow> nat list \<times> nat list \<times> int list" where
  "fill_step nameIndex st d =
     (let (targets, pos, inDegree) = st;
          u = index_of nameIndex (depUpstream d);
          v = index_of nameIndex (depDownstream d)
      in (targets[pos ! u := v], pos[u := pos ! u + 1], inDegree[v := inDegree ! v + 1]))"

definition fill_targets ::
  "(string \<rightharpoonup> nat) \<Rightarrow> nat list \<Rightarrow> nat \<Rightarrow> dep list \<Rightarrow> nat list \<times> nat list \<times> int list" where
  "fill_targets nameIndex offsets n deps =
     foldl (fill_step nameIndex) (replicate (length deps) 0, take n offsets, replicate n 0) deps"

definition release_target :: "string list \<Rightarrow> int list \<times> string list \<Rightarrow> nat \<Rightarrow> int list \<times> string list" where
  "release_target names st v =
     (let inDegree = (fst st)[v := fst st ! v - 1]
      in (inDegree, if inDegree ! v = 0 then heapPush (snd st) (names ! v) else snd st))"

partial_function (option) kahn_loop ::
  "string list \<Rightarrow> (string \<rightharpoonup> nat) \<Rightarrow> nat list \<Rightarrow> nat list \<Rightarrow>
   int list \<Rightarrow> string list \<Rightarrow> string list \<Rightarrow> string list option" where
  "kahn_loop names nameIndex offsets targets inDegree h order =
     (if h = [] then Some order
      else
        let (node, h1) = heapPop h;
            uid = index_of nameIndex node;
            (inDegree', h2) = foldl (\<lambda>st j. release_target names st (targets ! j)) (inDegree, h1)
              [offsets ! uid ..< offsets ! (uid + 1)]
        in kahn_loop names nameIndex offsets targets inDegree' h2 (order @ [node]))"

definition TopologicalSort :: "dep list \<Rightarrow> (topo_error + string list) option" where
  "TopologicalSort deps =
     (if deps = [] then Some (Inr [])
      else
        let (nameIndex, names) = collect_names deps;
            n = length names;
            offsets = prefix_offsets (count_out nameIndex n deps) n;
            (targets, pos, inDegree) = fill_targets nameIndex offsets n deps;
            h = heapInit (map (\<lambda>i. names ! i) (filter (\<lambda>i. inDegree ! i = 0) [0..<n]))
        in case kahn_loop names nameIndex offsets targets inDegree h [] of
             None \<Rightarrow> None
           | Some order \<Rightarrow>
               Some (if length order \<noteq> n then Inl (CycleDetected n (length order)) else Inr order))"

section \<open>The specification\<close>

definition edges :: "dep list \<Rightarrow> (string \<times> string) set" where
  "edges deps = (\<lambda>d. (depUpstream d, depDownstream d)) ` set deps"

definition nodes :: "(string \<times> string) set \<Rightarrow> string set" where
  "nodes E = fst ` E \<union> snd ` E"

definition ready :: "(string \<times> string) set \<Rightarrow> string set \<Rightarrow> string set" where
  "ready E S = {v \<in> nodes E. v \<notin> S \<and> (\<forall>e \<in> E. snd e = v \<longrightarrow> fst e \<in> S)}"

fun greedy :: "nat \<Rightarrow> (string \<times> string) set \<Rightarrow> string set \<Rightarrow> string list" where
  "greedy 0 E S = []"
| "greedy (Suc k) E S =
     (if ready E S = {} then []
      else Min (ready E S) # greedy k E (insert (Min (ready E S)) S))"

definition topo_spec :: "(string \<times> string) set \<Rightarrow> topo_error + string list" where
  "topo_spec E =
     (let n = card (nodes E); order = greedy n E {}
      in if length order \<noteq> n then Inl (CycleDetected n (length order)) else Inr order)"

section \<open>Names and indices\<close>

declare kahn_loop.simps [code]

lemma dep_nodes:
  "d \<in> set deps \<Longrightarrow> depUpstream d \<in> nodes (edges deps)"
  "d \<in> set deps \<Longrightarrow> depDownstream d \<in> nodes (edges deps)"
  by (force simp: nodes_def edges_def)+

definition names_ok :: "(string \<rightharpoonup> nat) \<times> string list \<Rightarrow> bool" where
  "names_ok st \<longleftrightarrow> distinct (snd st) \<and> dom (fst st) = set (snd st) \<and>
     (\<forall>i < length (snd st). fst st (snd st ! i) = Some i)"

lemma nodeID_ok:
  assumes "names_ok st"
  shows "names_ok (nodeID st s)" "set (snd (nodeID st s)) = insert s (set (snd st))"
proof -
  have "s \<in> set (snd st)" if "fst st s = Some i" for i
    using assms that by (auto simp: names_ok_def)
  moreover have "s \<notin> set (snd st)" if "fst st s = None"
    using assms that by (auto simp: names_ok_def)
  ultimately show "names_ok (nodeID st s)" "set (snd (nodeID st s)) = insert s (set (snd st))"
    using assms by (auto simp: nodeID_def names_ok_def nth_append less_Suc_eq split: option.splits)
qed

lemma collect_names_ok:
  "names_ok (collect_names deps)" "set (snd (collect_names deps)) = nodes (edges deps)"
proof -
  have "names_ok (foldl (\<lambda>st d. nodeID (nodeID st (depUpstream d)) (depDownstream d)) st deps)
      \<and> set (snd (foldl (\<lambda>st d. nodeID (nodeID st (depUpstream d)) (depDownstream d)) st deps))
        = set (snd st) \<union> nodes (edges deps)" if "names_ok st" for st
    using that
  proof (induction deps arbitrary: st)
    case Nil
    then show ?case by (simp add: nodes_def edges_def)
  next
    case (Cons d deps)
    then show ?case using nodeID_ok by (auto simp: nodes_def edges_def)
  qed
  from this [of "(Map.empty, [])"]
  show "names_ok (collect_names deps)" "set (snd (collect_names deps)) = nodes (edges deps)"
    by (simp_all add: collect_names_def names_ok_def)
qed

section \<open>The adjacency arrays\<close>

abbreviation cnt :: "('d \<Rightarrow> bool) \<Rightarrow> 'd list \<Rightarrow> nat" where
  "cnt P ds \<equiv> length (filter P ds)"

lemma foldl_incr:
  fixes c :: "'b::semiring_1 list"
  assumes "\<forall>d \<in> set ds. f d < length c"
  shows "length (foldl (\<lambda>c d. c[f d := c ! f d + 1]) c ds) = length c"
    and "i < length c \<Longrightarrow> foldl (\<lambda>c d. c[f d := c ! f d + 1]) c ds ! i = c ! i + of_nat (cnt (\<lambda>d. f d = i) ds)"
  using assms by (induction ds arbitrary: c) (auto simp: algebra_simps)

lemma prefix_offsets_nth:
  assumes "n \<le> length oc" "k \<le> n"
  shows "prefix_offsets oc n ! k = sum_list (take k oc)"
proof -
  let ?f = "\<lambda>offsets i. offsets[i + 1 := offsets ! i + oc ! i]"
  have "length (foldl ?f (replicate (n + 1) 0) [0..<m]) = n + 1
      \<and> (\<forall>k \<le> m. foldl ?f (replicate (n + 1) 0) [0..<m] ! k = sum_list (take k oc))" if "m \<le> n" for m
    using that
  proof (induction m)
    case (Suc m)
    then show ?case using assms(1) by (auto simp: nth_list_update take_Suc_conv_app_nth le_Suc_eq)
  qed (simp del: replicate_Suc)
  from this [of n] assms(2) show ?thesis by (simp add: prefix_offsets_def)
qed

lemma length_prefix_offsets: "length (prefix_offsets oc n) = n + 1"
proof -
  let ?f = "\<lambda>offsets i. offsets[i + 1 := offsets ! i + oc ! i]"
  have "length (foldl ?f c xs) = length c" for xs :: "nat list" and c by (induction xs arbitrary: c) auto
  then show ?thesis by (simp add: prefix_offsets_def)
qed

lemma cnt_less_Suc: "cnt (\<lambda>d. f d < Suc k) ds = cnt (\<lambda>d. f d < k) ds + cnt (\<lambda>d. f d = k) ds"
  by (induction ds) auto

lemma cnt_mono: "(\<And>d. P d \<Longrightarrow> Q d) \<Longrightarrow> cnt P ds \<le> cnt Q ds"
  by (induction ds) auto

lemma sum_list_take_cnt:
  assumes "\<And>u. u < n \<Longrightarrow> oc ! u = cnt (\<lambda>d. f d = u) ds" "length oc = n" "k \<le> n"
  shows "sum_list (take k oc) = cnt (\<lambda>d. f d < (k::nat)) ds"
  using assms(3)
proof (induction k)
  case (Suc k)
  then show ?case using assms(1) [of k] assms(2) by (simp add: take_Suc_conv_app_nth cnt_less_Suc)
qed simp

text \<open>
  The cells of the segments: after the edges \<open>P\<close>, a prefix of \<open>ds\<close>, the segment
  of \<open>u\<close> holds the targets of \<open>P\<close>'s edges from \<open>u\<close>, in their order.
\<close>

definition filled ::
  "('d \<Rightarrow> nat) \<Rightarrow> ('d \<Rightarrow> nat) \<Rightarrow> nat \<Rightarrow> 'd list \<Rightarrow> nat list \<Rightarrow> 'd list \<Rightarrow> nat list \<times> nat list \<times> int list \<Rightarrow> bool" where
  "filled f g n ds offs P st \<longleftrightarrow>
     (case st of (T, pos, inD) \<Rightarrow>
        length T = length ds \<and> length pos = n \<and> length inD = n
        \<and> (\<forall>u < n. pos ! u = offs ! u + cnt (\<lambda>d. f d = u) P)
        \<and> (\<forall>v < n. inD ! v = int (cnt (\<lambda>d. g d = v) P))
        \<and> (\<forall>u < n. \<forall>i < cnt (\<lambda>d. f d = u) P. T ! (offs ! u + i) = g (filter (\<lambda>d. f d = u) P ! i)))"

lemma segments:
  fixes f :: "'d \<Rightarrow> nat"
  assumes "\<And>k. k \<le> n \<Longrightarrow> offs ! k = cnt (\<lambda>d. f d < k) ds" "u < n"
  shows "offs ! u + cnt (\<lambda>d. f d = u) ds = offs ! Suc u"
    and "offs ! Suc u \<le> length ds"
    and "u < w \<Longrightarrow> w < n \<Longrightarrow> offs ! Suc u \<le> offs ! w"
proof -
  show "offs ! u + cnt (\<lambda>d. f d = u) ds = offs ! Suc u"
    using assms by (simp add: cnt_less_Suc)
  show "offs ! Suc u \<le> length ds" using assms by simp
  show "offs ! Suc u \<le> offs ! w" if "u < w" "w < n"
    using assms that by (auto intro!: cnt_mono)
qed

lemma filled_step:
  assumes fl: "filled f g n ds offs P (T, pos, inD)"
    and offs: "\<And>k. k \<le> n \<Longrightarrow> offs ! k = cnt (\<lambda>d. f d < k) ds"
    and ds: "ds = P @ d # R" and fg: "f d < n" "g d < n"
  shows "filled f g n ds offs (P @ [d]) (T[pos ! f d := g d], pos[f d := pos ! f d + 1], inD[g d := inD ! g d + 1])"
proof -
  let ?p = "pos ! f d"
  note F = fl [unfolded filled_def prod.case]
  have p: "?p = offs ! f d + cnt (\<lambda>e. f e = f d) P" using F fg(1) by blast
  have room: "?p < offs ! f d + cnt (\<lambda>e. f e = f d) ds" using p by (simp add: ds)
  have seg: "offs ! f d + cnt (\<lambda>e. f e = f d) ds = offs ! Suc (f d)" "offs ! Suc (f d) \<le> length ds"
    using segments(1,2) [OF offs fg(1)] by simp_all
  have other: "offs ! u + i \<noteq> ?p" if u: "u < n" "u \<noteq> f d" "i < cnt (\<lambda>e. f e = u) P" for u i
  proof -
    have i: "i < cnt (\<lambda>e. f e = u) ds" using u(3) by (simp add: ds)
    have su: "offs ! u + cnt (\<lambda>e. f e = u) ds = offs ! Suc u" by (rule segments(1) [OF offs u(1)]) simp
    show ?thesis
    proof (cases "u < f d")
      case True
      then have "offs ! Suc u \<le> offs ! f d" using segments(3) [OF offs u(1) True fg(1)] by simp
      with su i p show ?thesis by linarith
    next
      case False
      then have "offs ! Suc (f d) \<le> offs ! u" using segments(3) [OF offs fg(1) _ u(1)] u(2) by simp
      with seg(1) room show ?thesis by linarith
    qed
  qed
  have new: "T[?p := g d] ! (offs ! u + i) = g (filter (\<lambda>e. f e = u) (P @ [d]) ! i)"
    if u: "u < n" "i < cnt (\<lambda>e. f e = u) (P @ [d])" for u i
  proof (cases "u = f d \<and> i = cnt (\<lambda>e. f e = u) P")
    case True
    then show ?thesis using p room seg F by (simp add: nth_append)
  next
    case False
    then have i: "i < cnt (\<lambda>e. f e = u) P" using u(2) by (auto split: if_splits)
    have "offs ! u + i \<noteq> ?p"
    proof (cases "u = f d")
      case True
      with i p show ?thesis by simp
    qed (use other u(1) i in blast)
    with i F u(1) show ?thesis by (simp add: nth_append)
  qed
  show ?thesis unfolding filled_def prod.case
    using F fg new by (auto simp: nth_list_update)
qed

lemma filled_foldl:
  assumes "filled f g n ds offs P st" "\<And>k. k \<le> n \<Longrightarrow> offs ! k = cnt (\<lambda>d. f d < k) ds"
    and "ds = P @ R" "\<forall>d \<in> set R. f d < n \<and> g d < n"
  shows "filled f g n ds offs ds
    (foldl (\<lambda>(T, pos, inD) d. (T[pos ! f d := g d], pos[f d := pos ! f d + 1], inD[g d := inD ! g d + 1])) st R)"
  using assms
proof (induction R arbitrary: P st)
  case (Cons d R)
  obtain T pos inD where st: "st = (T, pos, inD)" by (cases st)
  have "filled f g n ds offs (P @ [d]) (T[pos ! f d := g d], pos[f d := pos ! f d + 1], inD[g d := inD ! g d + 1])"
    using filled_step [OF Cons.prems(1) [unfolded st] Cons.prems(2,3)] Cons.prems(4) by simp
  from Cons.IH [OF this Cons.prems(2)] Cons.prems(3,4) show ?case by (simp add: st)
qed simp

text \<open>The adjacency arrays, read through the names.\<close>

definition adjacency ::
  "dep list \<Rightarrow> string list \<Rightarrow> (string \<rightharpoonup> nat) \<Rightarrow> nat list \<Rightarrow> nat list \<Rightarrow> bool" where
  "adjacency deps names nameIndex offsets targets \<longleftrightarrow>
     (\<forall>x \<in> set names.
        let u = index_of nameIndex x in
        map (\<lambda>j. targets ! j) [offsets ! u ..< offsets ! (u + 1)]
        = map (\<lambda>d. index_of nameIndex (depDownstream d)) (filter (\<lambda>d. depUpstream d = x) deps))"

lemma index_of_names:
  assumes "names_ok (nameIndex, names)"
  shows "i < length names \<Longrightarrow> index_of nameIndex (names ! i) = i"
    and "x \<in> set names \<Longrightarrow> index_of nameIndex x < length names \<and> names ! index_of nameIndex x = x"
    and "x \<in> set names \<Longrightarrow> y \<in> set names \<Longrightarrow> index_of nameIndex x = index_of nameIndex y \<longleftrightarrow> x = y"
proof -
  show nth: "index_of nameIndex (names ! i) = i" if "i < length names" for i
    using assms that by (simp add: names_ok_def index_of_def)
  show mem: "index_of nameIndex x < length names \<and> names ! index_of nameIndex x = x" if "x \<in> set names" for x
    using that nth by (auto simp: in_set_conv_nth)
  show "index_of nameIndex x = index_of nameIndex y \<longleftrightarrow> x = y" if "x \<in> set names" "y \<in> set names"
    using mem [OF that(1)] mem [OF that(2)] by metis
qed

lemma adjacency_arrays:
  assumes ok: "names_ok (nameIndex, names)" and mem: "\<forall>d \<in> set deps. depUpstream d \<in> set names \<and> depDownstream d \<in> set names"
    and n: "n = length names" and offs: "offsets = prefix_offsets (count_out nameIndex n deps) n"
    and fl: "fill_targets nameIndex offsets n deps = (targets, pos, inDegree)"
  shows "adjacency deps names nameIndex offsets targets" "length inDegree = n"
    "\<And>x. x \<in> set names \<Longrightarrow> inDegree ! index_of nameIndex x = int (cnt (\<lambda>d. depDownstream d = x) deps)"
proof -
  let ?f = "\<lambda>d. index_of nameIndex (depUpstream d)" and ?g = "\<lambda>d. index_of nameIndex (depDownstream d)"
  have fg: "?f d < n" "?g d < n" if "d \<in> set deps" for d
    using index_of_names(2) [OF ok] mem that n by auto
  have eqs: "cnt (\<lambda>d. ?f d = index_of nameIndex x) deps = cnt (\<lambda>d. depUpstream d = x) deps"
    "filter (\<lambda>d. ?f d = index_of nameIndex x) deps = filter (\<lambda>d. depUpstream d = x) deps"
    "cnt (\<lambda>d. ?g d = index_of nameIndex x) deps = cnt (\<lambda>d. depDownstream d = x) deps"
    if "x \<in> set names" for x
    using index_of_names(3) [OF ok _ that] mem by (auto cong: filter_cong simp: comp_def)
  have oc: "length (count_out nameIndex n deps) = n"
    "\<And>u. u < n \<Longrightarrow> count_out nameIndex n deps ! u = cnt (\<lambda>d. ?f d = u) deps"
    using foldl_incr [of deps ?f "replicate n (0::nat)"] fg by (simp_all add: count_out_def Let_def)
  have offsets: "offsets ! k = cnt (\<lambda>d. ?f d < k) deps" if "k \<le> n" for k
    using prefix_offsets_nth [of n "count_out nameIndex n deps" k] sum_list_take_cnt [OF oc(2,1) that] oc(1) that
    by (simp add: offs)
  have "filled ?f ?g n deps offsets [] (replicate (length deps) 0, take n offsets, replicate n 0)"
    by (simp add: filled_def offs length_prefix_offsets)
  from filled_foldl [OF this offsets] fg
  have "filled ?f ?g n deps offsets deps (fill_targets nameIndex offsets n deps)"
    by (simp add: fill_targets_def fill_step_def [abs_def] Let_def case_prod_unfold)
  note F = this [unfolded fl filled_def prod.case]
  show "length inDegree = n" using F by blast
  show "inDegree ! index_of nameIndex x = int (cnt (\<lambda>d. depDownstream d = x) deps)" if "x \<in> set names" for x
    using F eqs(3) [OF that] index_of_names(2) [OF ok that] n by auto
  show "adjacency deps names nameIndex offsets targets"
    unfolding adjacency_def Let_def
  proof (intro ballI nth_equalityI)
    fix x assume x: "x \<in> set names"
    let ?u = "index_of nameIndex x"
    have u: "?u < n" using index_of_names(2) [OF ok x] n by simp
    have seg: "offsets ! ?u + cnt (\<lambda>d. ?f d = ?u) deps = offsets ! Suc ?u"
      by (rule segments(1) [OF offsets u]) simp
    show len: "length (map ((!) targets) [offsets ! ?u ..< offsets ! (?u + 1)])
        = length (map ?g (filter (\<lambda>d. depUpstream d = x) deps))"
      using seg eqs(1) [OF x] by simp
    fix i assume "i < length (map ((!) targets) [offsets ! ?u ..< offsets ! (?u + 1)])"
    then have i: "i < cnt (\<lambda>d. ?f d = ?u) deps" using seg by simp
    then have "targets ! (offsets ! ?u + i) = ?g (filter (\<lambda>d. ?f d = ?u) deps ! i)" using F u by blast
    with i seg eqs(2) [OF x] show "map ((!) targets) [offsets ! ?u ..< offsets ! (?u + 1)] ! i
        = map ?g (filter (\<lambda>d. depUpstream d = x) deps) ! i" by simp
  qed
qed

section \<open>The inner loop\<close>

text \<open>
  Releasing the targets of one node decrements each in-degree once per edge and
  pushes each target whose in-degree reaches zero once.
\<close>

lemma release_targets:
  assumes "\<And>v. v \<in> set ts \<Longrightarrow> v < length inD \<and> int (count_list ts v) \<le> inD ! v"
    and "is_heap h" "distinct names" "length names = length inD"
    and "foldl (release_target names) (inD, h) ts = (inD', h')"
  shows "length inD' = length inD \<and> (\<forall>v < length inD. inD' ! v = inD ! v - int (count_list ts v))
    \<and> is_heap h'
    \<and> mset h' = mset h + mset_set ((!) names ` {v \<in> set ts. inD ! v = int (count_list ts v)})"
  using assms
proof (induction ts arbitrary: inD h)
  case Nil
  then show ?case by simp
next
  case (Cons t ts)
  let ?inD = "inD[t := inD ! t - 1]"
  let ?h = "if ?inD ! t = 0 then heapPush h (names ! t) else h"
  have t: "t < length inD" "int (count_list ts t) + 1 \<le> inD ! t" using Cons.prems(1) [of t] by simp_all
  have le: "v < length ?inD \<and> int (count_list ts v) \<le> ?inD ! v" if "v \<in> set ts" for v
    using Cons.prems(1) [of v] that t by (auto simp: nth_list_update split: if_splits)
  have heap: "is_heap ?h" "mset ?h = (if inD ! t = 1 then {#names ! t#} else {#}) + mset h"
    using Cons.prems(2) heapPush_heap t by auto
  have "length inD' = length ?inD \<and> (\<forall>v < length ?inD. inD' ! v = ?inD ! v - int (count_list ts v))
    \<and> is_heap h'
    \<and> mset h' = mset ?h + mset_set ((!) names ` {v \<in> set ts. ?inD ! v = int (count_list ts v)})"
  proof (rule Cons.IH [OF le heap(1) Cons.prems(3)])
    show "length names = length ?inD" using Cons.prems(4) by simp
    show "foldl (release_target names) (?inD, ?h) ts = (inD', h')"
      using Cons.prems(5) by (simp only: foldl_Cons release_target_def [of names "(inD, h)"] Let_def fst_conv snd_conv)
  qed
  note IH = this
  let ?A = "{v \<in> set ts. ?inD ! v = int (count_list ts v)}"
  let ?B = "{v \<in> set (t # ts). inD ! v = int (count_list (t # ts) v)}"
  have set_eq: "?B = (if inD ! t = 1 then insert t ?A else ?A)" and fresh: "inD ! t = 1 \<Longrightarrow> t \<notin> ?A"
  proof -
    have c0: "t \<in> set ts \<Longrightarrow> count_list ts t \<noteq> 0" by (simp add: count_list_0_iff)
    show "inD ! t = 1 \<Longrightarrow> t \<notin> ?A" using c0 t by auto
    show "?B = (if inD ! t = 1 then insert t ?A else ?A)"
    proof (cases "inD ! t = 1")
      case True
      then have "count_list ts t = 0" using t by linarith
      with True t c0 show ?thesis by (auto simp: nth_list_update)
    next
      case False
      then have tt: "inD ! t = 1 + int (count_list ts t) \<Longrightarrow> t \<in> set ts"
        using count_list_0_iff [of ts t] by (cases "t \<in> set ts") simp_all
      have "v \<in> ?B \<longleftrightarrow> v \<in> ?A" for v using tt t(1) by (cases "v = t") auto
      then have "?B = ?A" by blast
      with False show ?thesis by simp
    qed
  qed
  have ms: "mset_set ((!) names ` ?B) = (if inD ! t = 1 then {#names ! t#} else {#}) + mset_set ((!) names ` ?A)"
  proof (cases "inD ! t = 1")
    case True
    have "names ! t \<notin> (!) names ` ?A"
      using fresh [OF True] le t Cons.prems(3,4) by (auto simp: nth_eq_iff_index_eq)
    with True set_eq show ?thesis by simp
  next
    case False
    then have "?B = ?A" using set_eq by (simp only: if_False)
    with False show ?thesis by (simp only: if_False add_0)
  qed
  show ?case
    using IH t heap(2) unfolding ms by (auto simp: nth_list_update)
qed

section \<open>Kahn's loop refines the greedy specification\<close>

definition kahn_inv ::
  "dep list \<Rightarrow> string list \<Rightarrow> (string \<rightharpoonup> nat) \<Rightarrow> int list \<Rightarrow> string list \<Rightarrow> string set \<Rightarrow> bool" where
  "kahn_inv deps names nameIndex inDegree h S \<longleftrightarrow>
     is_heap h \<and> mset h = mset_set (ready (edges deps) S) \<and> length inDegree = length names
     \<and> S \<subseteq> set names \<and> (\<forall>e \<in> edges deps. snd e \<in> S \<longrightarrow> fst e \<in> S)
     \<and> (\<forall>x \<in> set names. inDegree ! index_of nameIndex x
          = int (cnt (\<lambda>d. depDownstream d = x \<and> depUpstream d \<notin> S) deps))"

lemma finite_edges [simp]: "finite (edges deps)" "finite (nodes (edges deps))"
  by (simp_all add: edges_def nodes_def)

lemma finite_ready [simp]: "finite (nodes E) \<Longrightarrow> finite (ready E S)"
  by (simp add: ready_def)

lemma kahn_step:
  assumes inv: "kahn_inv deps names nameIndex inDegree h S" and h: "h \<noteq> []"
    and ok: "names_ok (nameIndex, names)" and V: "set names = nodes (edges deps)"
    and adj: "adjacency deps names nameIndex offsets targets"
    and pop: "heapPop h = (x, h1)"
    and rel: "foldl (\<lambda>st j. release_target names st (targets ! j)) (inDegree, h1)
       [offsets ! index_of nameIndex x ..< offsets ! (index_of nameIndex x + 1)] = (inDegree', h2)"
  shows "x = Min (ready (edges deps) S)" "x \<in> ready (edges deps) S"
    "kahn_inv deps names nameIndex inDegree' h2 (insert x S)"
proof -
  let ?E = "edges deps" and ?ix = "index_of nameIndex"
  note I = inv [unfolded kahn_inv_def]
  have heap: "is_heap h" "mset h \<noteq> {#}" using I h by auto
  have R: "set_mset (mset h) = ready ?E S" using I by simp
  have p: "is_heap h1" "mset h = add_mset x (mset h1)" using heap.pop [OF heap pop] by auto
  show min: "x = Min (ready ?E S)" using heap.pop_Min [OF heap pop] R by simp
  have "x \<in># mset h" using p(2) by simp
  then show x: "x \<in> ready ?E S" using R by simp
  have mem: "depUpstream d \<in> set names" "depDownstream d \<in> set names" if "d \<in> set deps" for d
    using dep_nodes [OF that] V by simp_all
  have xn: "x \<in> set names" and xS: "x \<notin> S" and xp: "\<And>d. d \<in> set deps \<Longrightarrow> depDownstream d = x \<Longrightarrow> depUpstream d \<in> S"
    using x V by (auto simp: ready_def edges_def)
  define ts where "ts = map (\<lambda>d. ?ix (depDownstream d)) (filter (\<lambda>d. depUpstream d = x) deps)"
  have ts: "map ((!) targets) [offsets ! ?ix x ..< offsets ! (?ix x + 1)] = ts"
    using adj xn by (simp add: adjacency_def ts_def Let_def)
  have rel': "foldl (release_target names) (inDegree, h1) ts = (inDegree', h2)"
    using rel unfolding ts [symmetric] by (simp add: foldl_map)
  have cl: "count_list ts (?ix y) = cnt (\<lambda>d. depDownstream d = y \<and> depUpstream d = x) deps" if "y \<in> set names" for y
  proof -
    have "count_list (map (\<lambda>d. ?ix (depDownstream d)) ds) (?ix y) = cnt (\<lambda>d. depDownstream d = y) ds"
      if "set ds \<subseteq> set deps" for ds
      using that by (induction ds) (use index_of_names(3) [OF ok] mem \<open>y \<in> set names\<close> in auto)
    from this [of "filter (\<lambda>d. depUpstream d = x) deps"] show ?thesis
      by (simp add: ts_def conj_commute Collect_conj_eq)
  qed
  have split: "cnt (\<lambda>d. depDownstream d = y \<and> depUpstream d \<notin> S) ds
      = cnt (\<lambda>d. depDownstream d = y \<and> depUpstream d \<notin> insert x S) ds
        + cnt (\<lambda>d. depDownstream d = y \<and> depUpstream d = x) ds" for y ds
    using xS by (induction ds) auto
  have deg: "inDegree ! ?ix y = int (cnt (\<lambda>d. depDownstream d = y \<and> depUpstream d \<notin> insert x S) deps)
      + int (count_list ts (?ix y))" if "y \<in> set names" for y
    using I that cl [OF that] split [of y deps] by simp
  have tsv: "v \<in> set ts \<Longrightarrow> \<exists>y \<in> set names. v = ?ix y" for v using mem by (auto simp: ts_def)
  have len: "length names = length inDegree" using I by simp
  have post: "length inDegree' = length inDegree \<and> (\<forall>v < length inDegree. inDegree' ! v = inDegree ! v - int (count_list ts v))
    \<and> is_heap h2
    \<and> mset h2 = mset h1 + mset_set ((!) names ` {v \<in> set ts. inDegree ! v = int (count_list ts v)})"
  proof (rule release_targets [OF _ p(1) _ len rel'])
    show "distinct names" using ok by (simp add: names_ok_def)
    fix v assume "v \<in> set ts"
    with tsv obtain y where y: "y \<in> set names" "v = ?ix y" by blast
    then show "v < length inDegree \<and> int (count_list ts v) \<le> inDegree ! v"
      using deg [OF y(1)] index_of_names(2) [OF ok y(1)] len by simp
  qed
  have new: "(!) names ` {v \<in> set ts. inDegree ! v = int (count_list ts v)}
      = {y. (\<exists>d \<in> set deps. depUpstream d = x \<and> depDownstream d = y)
            \<and> (\<forall>d \<in> set deps. depDownstream d = y \<longrightarrow> depUpstream d \<in> insert x S)}" (is "?L = ?N")
  proof -
    have "?L = {y \<in> set names. ?ix y \<in> set ts \<and> inDegree ! ?ix y = int (count_list ts (?ix y))}"
    proof -
      have "names ! v \<in> set names \<and> ?ix (names ! v) = v" if "v \<in> set ts" for v
        using tsv [OF that] index_of_names(2) [OF ok] by auto
      then show ?thesis using index_of_names(2) [OF ok] by force
    qed
    also have "\<dots> = ?N"
      using deg mem index_of_names(3) [OF ok] by (auto simp: ts_def filter_empty_conv)
    finally show ?thesis .
  qed
  have rd: "ready ?E (insert x S) = (ready ?E S - {x}) \<union> ?N"
  proof -
    have "y \<notin> S" if "d \<in> set deps" "depUpstream d = x" "depDownstream d = y" for d y
      using I xS that by (auto simp: edges_def)
    moreover have "y \<noteq> x" if "d \<in> set deps" "depUpstream d = x" "depDownstream d = y" for d y
      using xp [OF that(1)] xS that(2,3) by auto
    ultimately show ?thesis using V mem by (auto simp: ready_def edges_def)
  qed
  have disj: "(ready ?E S - {x}) \<inter> ?N = {}" using xS by (auto simp: ready_def edges_def)
  have "mset_set (ready ?E S) = add_mset x (mset_set (ready ?E S - {x}))"
    using x by (intro mset_set.remove) simp_all
  then have h1: "mset h1 = mset_set (ready ?E S - {x})" using I p(2) by simp
  have finN: "finite ?N" by (rule finite_subset [of _ "set names"]) (use mem in auto)
  have "mset h2 = mset_set (ready ?E (insert x S))"
    using post h1 disj finN unfolding new rd by (simp add: mset_set_Union)
  moreover have "inDegree' ! ?ix y = int (cnt (\<lambda>d. depDownstream d = y \<and> depUpstream d \<notin> insert x S) deps)"
    if "y \<in> set names" for y
    using post deg [OF that] index_of_names(2) [OF ok that] len by simp
  moreover have "\<forall>e \<in> ?E. snd e \<in> insert x S \<longrightarrow> fst e \<in> insert x S"
    using I xp by (auto simp: edges_def)
  ultimately show "kahn_inv deps names nameIndex inDegree' h2 (insert x S)"
    unfolding kahn_inv_def using post I xn by auto
qed

lemma kahn_loop_greedy:
  assumes "kahn_inv deps names nameIndex inDegree h S" "names_ok (nameIndex, names)"
    and "set names = nodes (edges deps)" "adjacency deps names nameIndex offsets targets"
    and "k = card (set names - S)"
  shows "kahn_loop names nameIndex offsets targets inDegree h order = Some (order @ greedy k (edges deps) S)"
  using assms(1,5)
proof (induction k arbitrary: inDegree h S order)
  case 0
  then have "set names - S = {}" by simp
  then have "ready (edges deps) S = {}" using assms(3) by (auto simp: ready_def)
  then have "h = []" using "0.prems"(1) by (simp add: kahn_inv_def)
  then show ?case by (simp add: kahn_loop.simps)
next
  case (Suc k)
  show ?case
  proof (cases "h = []")
    case True
    then have "ready (edges deps) S = {}" using Suc.prems(1) by (simp add: kahn_inv_def mset_set_empty_iff)
    with True show ?thesis by (simp add: kahn_loop.simps)
  next
    case False
    obtain x h1 where pop: "heapPop h = (x, h1)" by (cases "heapPop h")
    obtain inD' h2 where rel: "foldl (\<lambda>st j. release_target names st (targets ! j)) (inDegree, h1)
       [offsets ! index_of nameIndex x ..< offsets ! (index_of nameIndex x + 1)] = (inD', h2)" by force
    note st = kahn_step [OF Suc.prems(1) False assms(2-4) pop rel]
    have x: "x \<in> set names" "x \<notin> S" using st(2) assms(3) by (auto simp: ready_def)
    have "card (set names - insert x S) = k"
      using Suc.prems(2) x by (simp add: Diff_insert [of _ x S])
    from Suc.IH [OF st(3) this [symmetric]]
    have "kahn_loop names nameIndex offsets targets inDegree h order
        = Some ((order @ [x]) @ greedy k (edges deps) (insert x S))"
      using False pop rel by (subst kahn_loop.simps) simp
    moreover have "greedy (Suc k) (edges deps) S = x # greedy k (edges deps) (insert x S)"
      using st(1,2) by auto
    ultimately show ?thesis by simp
  qed
qed

lemma initial_inv:
  assumes "names_ok (nameIndex, names)" "set names = nodes (edges deps)" "length inDegree = length names"
    and "\<And>x. x \<in> set names \<Longrightarrow> inDegree ! index_of nameIndex x = int (cnt (\<lambda>d. depDownstream d = x) deps)"
  shows "kahn_inv deps names nameIndex inDegree
    (heapInit (map ((!) names) (filter (\<lambda>i. inDegree ! i = 0) [0..<length names]))) {}"
proof -
  let ?xs = "map ((!) names) (filter (\<lambda>i. inDegree ! i = 0) [0..<length names])"
  have deg: "inDegree ! i = 0 \<longleftrightarrow> (\<forall>d \<in> set deps. depDownstream d \<noteq> names ! i)" if "i < length names" for i
    using assms(4) [of "names ! i"] index_of_names(1) [OF assms(1) that] that by (simp add: filter_empty_conv)
  have "distinct ?xs"
    using assms(1) by (auto simp: distinct_map names_ok_def inj_on_def nth_eq_iff_index_eq)
  moreover have "set ?xs = ready (edges deps) {}"
  proof -
    have "set ?xs = {x \<in> set names. \<forall>d \<in> set deps. depDownstream d \<noteq> x}"
      using deg by (fastforce simp: in_set_conv_nth)
    then show ?thesis using assms(2) by (auto simp: ready_def edges_def)
  qed
  ultimately have "mset ?xs = mset_set (ready (edges deps) {})" by (metis mset_set_set)
  then show ?thesis using assms heapInit_heap [of ?xs] by (simp add: kahn_inv_def)
qed

lemma TopologicalSort_topo_spec: "TopologicalSort deps = Some (topo_spec (edges deps))"
proof (cases "deps = []")
  case True
  then show ?thesis by (simp add: TopologicalSort_def topo_spec_def edges_def nodes_def)
next
  case False
  obtain nameIndex names where cn: "collect_names deps = (nameIndex, names)" by force
  have ok: "names_ok (nameIndex, names)" and V: "set names = nodes (edges deps)"
    using collect_names_ok [of deps] cn by simp_all
  let ?n = "length names"
  let ?offs = "prefix_offsets (count_out nameIndex ?n deps) ?n"
  obtain targets pos inDegree where fl: "fill_targets nameIndex ?offs ?n deps = (targets, pos, inDegree)"
    by (metis prod_cases3)
  have mem: "\<forall>d \<in> set deps. depUpstream d \<in> set names \<and> depDownstream d \<in> set names"
    using dep_nodes V by simp
  note arr = adjacency_arrays [OF ok _ refl refl fl]
  have adj: "adjacency deps names nameIndex ?offs targets" and len: "length inDegree = ?n"
    and deg: "\<And>x. x \<in> set names \<Longrightarrow> inDegree ! index_of nameIndex x = int (cnt (\<lambda>d. depDownstream d = x) deps)"
    using arr mem by blast+
  have n: "?n = card (nodes (edges deps))"
    using ok V by (metis distinct_card names_ok_def snd_conv)
  from kahn_loop_greedy [OF initial_inv [OF ok V len deg] ok V adj refl] False cn fl V
  show ?thesis by (simp add: TopologicalSort_def topo_spec_def Let_def n)
qed

section \<open>What the specification promises\<close>

definition in_order :: "(string \<times> string) set \<Rightarrow> string list \<Rightarrow> bool" where
  "in_order E xs \<longleftrightarrow> (\<forall>k < length xs. \<forall>e \<in> E. snd e = xs ! k \<longrightarrow> fst e \<in> set (take k xs))"

lemma greedy_props:
  assumes "finite E" "\<forall>e \<in> E. snd e \<in> S \<longrightarrow> fst e \<in> S"
  shows "distinct (greedy k E S) \<and> set (greedy k E S) \<subseteq> nodes E - S
    \<and> (\<forall>i < length (greedy k E S). \<forall>e \<in> E. snd e = greedy k E S ! i \<longrightarrow> fst e \<in> S \<union> set (take i (greedy k E S)))
    \<and> (card (nodes E - S) \<le> k \<longrightarrow> ready E (S \<union> set (greedy k E S)) = {})"
  using assms(2)
proof (induction k arbitrary: S)
  case 0
  then show ?case using assms(1) by (auto simp: ready_def nodes_def)
next
  case (Suc k)
  have fin: "finite (nodes E)" using assms(1) by (simp add: nodes_def)
  show ?case
  proof (cases "ready E S = {}")
    case False
    let ?x = "Min (ready E S)"
    have x: "?x \<in> ready E S" using False fin by (intro Min_in) simp_all
    then have xS: "?x \<in> nodes E" "?x \<notin> S" "\<And>e. e \<in> E \<Longrightarrow> snd e = ?x \<Longrightarrow> fst e \<in> S" by (auto simp: ready_def)
    have cl: "\<forall>e \<in> E. snd e \<in> insert ?x S \<longrightarrow> fst e \<in> insert ?x S" using Suc.prems xS(3) by auto
    have cd: "card (nodes E - S) \<le> Suc k \<Longrightarrow> card (nodes E - insert ?x S) \<le> k"
      using xS(1,2) fin by (simp add: Diff_insert [of _ ?x S])
    let ?g = "greedy k E (insert ?x S)"
    have eq: "greedy (Suc k) E S = ?x # ?g" using False by simp
    note IH = Suc.IH [OF cl]
    show ?thesis unfolding eq
    proof (intro conjI allI impI ballI)
      show "distinct (?x # ?g)" using IH by auto
      show "set (?x # ?g) \<subseteq> nodes E - S" using IH xS(1,2) by auto
      show "ready E (S \<union> set (?x # ?g)) = {}" if "card (nodes E - S) \<le> Suc k"
        using IH cd [OF that] by (simp add: insert_commute)
      fix i e assume i: "i < length (?x # ?g)" and e: "e \<in> E" "snd e = (?x # ?g) ! i"
      show "fst e \<in> S \<union> set (take i (?x # ?g))"
        using i e xS(3) IH by (cases i) auto
    qed
  qed (use fin in simp)
qed

lemma in_order_acyclic:
  assumes "distinct xs" "nodes E \<subseteq> set xs" "in_order E xs"
  shows "acyclic E"
proof -
  define pos where "pos x = (THE i. i < length xs \<and> xs ! i = x)" for x
  have pos: "pos (xs ! i) = i" if "i < length xs" for i
    unfolding pos_def using that assms(1) by (auto intro!: the_equality simp: nth_eq_iff_index_eq)
  have "pos a < pos b" if "(a, b) \<in> E" for a b
  proof -
    have "b \<in> set xs" using that assms(2) by (force simp: nodes_def)
    then obtain i where i: "i < length xs" "b = xs ! i" by (auto simp: in_set_conv_nth)
    with assms(3) that have "a \<in> set (take i xs)" by (force simp: in_order_def)
    then obtain j where "j < i" "a = xs ! j" using i(1) by (auto simp: in_set_conv_nth)
    with pos [of i] pos [of j] i show ?thesis by simp
  qed
  then have "E \<subseteq> measure pos" by auto
  then show ?thesis by (metis wf_measure wf_subset wf_acyclic)
qed

lemma topo_spec_Inr:
  assumes "finite E" "topo_spec E = Inr xs"
  shows "distinct xs" "set xs = nodes E" "in_order E xs"
proof -
  have g: "xs = greedy (card (nodes E)) E {}" "length xs = card (nodes E)"
    using assms(2) by (auto simp: topo_spec_def Let_def split: if_splits)
  have P: "distinct xs" "set xs \<subseteq> nodes E" "in_order E xs"
    using greedy_props [OF assms(1), of "{}" "card (nodes E)"] g(1) by (auto simp: in_order_def)
  then show "distinct xs" "in_order E xs" by simp_all
  show "set xs = nodes E"
    using P g(2) assms(1) by (intro card_subset_eq) (auto simp: nodes_def distinct_card)
qed

lemma topo_spec_total:
  assumes "finite E"
  shows "acyclic E \<longleftrightarrow> (\<exists>xs. topo_spec E = Inr xs)"
proof
  assume ac: "acyclic E"
  let ?xs = "greedy (card (nodes E)) E {}"
  have P: "distinct ?xs" "set ?xs \<subseteq> nodes E" "ready E (set ?xs) = {}"
    using greedy_props [OF assms, of "{}" "card (nodes E)"] by auto
  have "nodes E - set ?xs = {}"
  proof (rule ccontr)
    assume "nodes E - set ?xs \<noteq> {}"
    moreover have "wf E" using assms ac by (rule finite_acyclic_wf)
    ultimately obtain v where v: "v \<in> nodes E - set ?xs"
      "\<And>u. (u, v) \<in> E \<Longrightarrow> u \<notin> nodes E - set ?xs"
      by (metis wf_eq_minimal ex_in_conv)
    then have "v \<in> ready E (set ?xs)" by (force simp: ready_def nodes_def)
    with P(3) show False by simp
  qed
  with P(1,2) have "length ?xs = card (nodes E)" by (metis Diff_eq_empty_iff distinct_card subset_antisym)
  then show "\<exists>xs. topo_spec E = Inr xs" by (simp add: topo_spec_def Let_def)
next
  assume "\<exists>xs. topo_spec E = Inr xs"
  then show "acyclic E" using topo_spec_Inr [OF assms] in_order_acyclic by blast
qed

section \<open>The sort is correct\<close>

text \<open>
  \<^verbatim>\<open>TopologicalSort\<close> always returns, and its result is a function of the set
  of edges alone (not of the order of the dependency rows): at each step the
  least project whose upstreams are all emitted, until none is ready; the error
  carries the number of projects and of emitted ones exactly when some are left.
\<close>
lemma TopologicalSort_greedy:
  "TopologicalSort deps = Some (topo_spec (edges deps))"
  by (rule TopologicalSort_topo_spec)

text \<open>
  C14. \<^verbatim>\<open>TopologicalSort\<close> succeeds exactly on acyclic dependency graphs; the list
  it then returns holds every project once, and each project after all its
  upstreams.
\<close>
theorem TopologicalSort_sound_complete:
  "(acyclic (edges deps) \<longleftrightarrow> (\<exists>xs. TopologicalSort deps = Some (Inr xs)))
   \<and> (case TopologicalSort deps of
        Some (Inr xs) \<Rightarrow> distinct xs \<and> set xs = nodes (edges deps) \<and> in_order (edges deps) xs
      | Some (Inl (CycleDetected n k)) \<Rightarrow> n = card (nodes (edges deps)) \<and> k < n
      | None \<Rightarrow> False)"
proof -
  have "k < n" if "topo_spec (edges deps) = Inl (CycleDetected n k)" for n k
  proof -
    let ?g = "greedy (card (nodes (edges deps))) (edges deps) {}"
    have "length ?g = card (set ?g)" "set ?g \<subseteq> nodes (edges deps)"
      using greedy_props [of "edges deps" "{}"] by (simp_all add: distinct_card)
    then have "length ?g \<le> card (nodes (edges deps))" by (metis card_mono finite_edges(2))
    with that show ?thesis by (auto simp: topo_spec_def Let_def split: if_splits)
  qed
  moreover have "n = card (nodes (edges deps))" if "topo_spec (edges deps) = Inl (CycleDetected n k)" for n k
    using that by (auto simp: topo_spec_def Let_def split: if_splits)
  ultimately show ?thesis
    using topo_spec_total [OF finite_edges(1), of deps] topo_spec_Inr [OF finite_edges(1), of deps]
    by (auto simp: TopologicalSort_topo_spec split: sum.splits topo_error.splits)
qed

lemma TopologicalSort_example:
  "TopologicalSort
     [\<lparr>depID = 1, depPortfolioRunID = ''p'', depUpstream = ''b'', depDownstream = ''d'', depCreatedAt = 0\<rparr>,
      \<lparr>depID = 2, depPortfolioRunID = ''p'', depUpstream = ''a'', depDownstream = ''b'', depCreatedAt = 0\<rparr>,
      \<lparr>depID = 3, depPortfolioRunID = ''p'', depUpstream = ''a'', depDownstream = ''c'', depCreatedAt = 0\<rparr>,
      \<lparr>depID = 4, depPortfolioRunID = ''p'', depUpstream = ''c'', depDownstream = ''d'', depCreatedAt = 0\<rparr>]
   = Some (Inr [''a'', ''b'', ''c'', ''d''])"
  by code_simp

end
