(* ===== verification/Deps.thy ===== *)
theory Deps
  imports RunStore TopoSort
begin

text \<open>
  Project dependencies inside a portfolio, \<^verbatim>\<open>internal/portfolio/deps.go\<close>: the
  depth-first cycle check, the insert guarded by it, and the queries. A store
  is the kernel database with the AUTOINCREMENT counter of \<^verbatim>\<open>project_deps\<close>.
  The stack's top is the list's last element, as in the code.
\<close>

section \<open>State and operations\<close>

record dep_store =
  kernel :: db
  dep_seq :: int

datatype dep_error =
    SelfDependency
  | WouldCycle string string
  | DepUnique
  | DepNoRun string
  | DepNotFound

abbreviation dep_rows :: "dep_store \<Rightarrow> dep list" where
  "dep_rows s \<equiv> project_deps (kernel s)"

definition getDownstreamQ :: "dep list \<Rightarrow> string \<Rightarrow> string \<Rightarrow> string list" where
  "getDownstreamQ rows portfolioRunID upstream =
     sort (map depDownstream (filter
       (\<lambda>d. depPortfolioRunID d = portfolioRunID \<and> depUpstream d = upstream) rows))"

definition GetDownstream :: "dep_store \<Rightarrow> string \<Rightarrow> string \<Rightarrow> string list" where
  "GetDownstream s portfolioRunID upstream = getDownstreamQ (dep_rows s) portfolioRunID upstream"

definition GetUpstream :: "dep_store \<Rightarrow> string \<Rightarrow> string \<Rightarrow> string list" where
  "GetUpstream s portfolioRunID downstream =
     sort (map depUpstream (filter
       (\<lambda>d. depPortfolioRunID d = portfolioRunID \<and> depDownstream d = downstream) (dep_rows s)))"

definition portfolio_edges :: "dep list \<Rightarrow> string \<Rightarrow> (string \<times> string) set" where
  "portfolio_edges rows p = edges (filter (\<lambda>d. depPortfolioRunID d = p) rows)"

lemma portfolio_edges_iff:
  "(a, b) \<in> portfolio_edges rows p \<longleftrightarrow>
     (\<exists>d \<in> set rows. depPortfolioRunID d = p \<and> depUpstream d = a \<and> depDownstream d = b)"
  by (auto simp: portfolio_edges_def edges_def)

lemma finite_portfolio_edges [simp]: "finite (portfolio_edges rows p)"
  by (simp add: portfolio_edges_def)

lemma set_getDownstreamQ [simp]: "set (getDownstreamQ rows p a) = {b. (a, b) \<in> portfolio_edges rows p}"
  by (auto simp: getDownstreamQ_def portfolio_edges_iff)

function search :: "dep list \<Rightarrow> string \<Rightarrow> string \<Rightarrow> string set \<Rightarrow> string list \<Rightarrow> bool" where
  "search rows portfolioRunID target visited stack =
     (if stack = [] then False
      else
        let node = last stack; stack' = butlast stack in
        if node = target then True
        else if node \<in> visited then search rows portfolioRunID target visited stack'
        else search rows portfolioRunID target (insert node visited)
               (stack' @ getDownstreamQ rows portfolioRunID node))"
  by pat_completeness auto
termination
proof (relation "inv_image (less_than <*lex*> less_than)
    (\<lambda>(rows, p, _, visited, stack). (card (nodes (portfolio_edges rows p) - visited), length stack))")
  fix rows p target visited stack node stack'
  assume s: "stack \<noteq> ([] :: string list)" "node = last stack" "stack' = butlast stack" "node \<notin> (visited :: string set)"
  let ?N = "nodes (portfolio_edges rows p)"
  have fin: "finite ?N" by (simp add: nodes_def)
  show "((rows, p, target, insert node visited, stack' @ getDownstreamQ rows p node), (rows, p, target, visited, stack))
    \<in> inv_image (less_than <*lex*> less_than)
      (\<lambda>(rows, p, _, visited, stack). (card (nodes (portfolio_edges rows p) - visited), length stack))"
  proof (cases "node \<in> ?N")
    case True
    then have "card (?N - insert node visited) < card (?N - visited)"
      using fin s(4) by (intro psubset_card_mono) auto
    then show ?thesis by simp
  next
    case False
    then have "set (getDownstreamQ rows p node) = {}" by (auto simp: nodes_def image_iff)
    then have "getDownstreamQ rows p node = []" by (simp only: set_empty)
    with False s show ?thesis by simp
  qed
qed auto

declare search.simps [simp del]

definition hasPath :: "dep list \<Rightarrow> string \<Rightarrow> string \<Rightarrow> string \<Rightarrow> bool" where
  "hasPath rows portfolioRunID frm target =
     search rows portfolioRunID target {} (getDownstreamQ rows portfolioRunID frm)"

definition HasPath :: "dep_store \<Rightarrow> string \<Rightarrow> string \<Rightarrow> string \<Rightarrow> bool" where
  "HasPath s portfolioRunID frm target = hasPath (dep_rows s) portfolioRunID frm target"

definition Add_dep :: "int \<Rightarrow> dep_store \<Rightarrow> string \<Rightarrow> string \<Rightarrow> string \<Rightarrow> dep_error + dep_store" where
  "Add_dep now s portfolioRunID upstream downstream =
     (if upstream = downstream then Inl SelfDependency
      else if hasPath (dep_rows s) portfolioRunID downstream upstream
        then Inl (WouldCycle upstream downstream)
      else if \<exists>d \<in> set (dep_rows s). depPortfolioRunID d = portfolioRunID
                 \<and> depUpstream d = upstream \<and> depDownstream d = downstream
        then Inl DepUnique
      else if portfolioRunID \<notin> rID ` set (runs (kernel s)) then Inl (DepNoRun portfolioRunID)
      else
        let row = \<lparr>depID = dep_seq s + 1, depPortfolioRunID = portfolioRunID, depUpstream = upstream,
                    depDownstream = downstream, depCreatedAt = now\<rparr>
        in Inr \<lparr>kernel = (kernel s)\<lparr>project_deps := dep_rows s @ [row]\<rparr>, dep_seq = dep_seq s + 1\<rparr>)"

definition List_deps :: "dep_store \<Rightarrow> string \<Rightarrow> dep list" where
  "List_deps s portfolioRunID =
     order_asc depID (filter (\<lambda>d. depPortfolioRunID d = portfolioRunID) (dep_rows s))"

definition Remove_dep :: "dep_store \<Rightarrow> string \<Rightarrow> string \<Rightarrow> string \<Rightarrow> dep_error + dep_store" where
  "Remove_dep s portfolioRunID upstream downstream =
     (let hit = (\<lambda>d. depPortfolioRunID d = portfolioRunID \<and> depUpstream d = upstream \<and> depDownstream d = downstream)
      in if rows_affected hit (dep_rows s) = 0 then Inl DepNotFound
         else Inr (s\<lparr>kernel := (kernel s)\<lparr>project_deps := filter (\<lambda>d. \<not> hit d) (dep_rows s)\<rparr>\<rparr>))"

section \<open>The cycle check\<close>

lemma closed_escape:
  assumes "(v, t) \<in> E\<^sup>*" "v \<in> C" "t \<notin> C" "\<forall>a \<in> C. \<forall>b. (a, b) \<in> E \<longrightarrow> b \<in> C \<union> T"
  shows "\<exists>w \<in> T. w \<notin> C \<and> (w, t) \<in> E\<^sup>*"
  using assms(1,2)
proof (induction rule: converse_rtrancl_induct)
  case base
  with assms(3) show ?case by simp
next
  case (step a b)
  then show ?case using assms(4) by (cases "b \<in> C") auto
qed

lemma search_reaches:
  fixes rows :: "dep list"
  assumes "target \<notin> visited"
    and "\<forall>a \<in> visited. \<forall>b. (a, b) \<in> portfolio_edges rows p \<longrightarrow> b \<in> visited \<union> set stack"
  shows "search rows p target visited stack \<longleftrightarrow> (\<exists>s \<in> set stack. (s, target) \<in> (portfolio_edges rows p)\<^sup>*)"
  using assms
proof (induction rows p target visited stack rule: search.induct)
  case (1 rows p target visited stack)
  let ?E = "portfolio_edges rows p"
  show ?case
  proof (cases "stack = []")
    case True
    then show ?thesis by (simp add: search.simps)
  next
    case ne: False
    let ?n = "last stack" and ?s = "butlast stack"
    have set: "set stack = insert ?n (set ?s)"
      by (subst append_butlast_last_id [OF ne, symmetric]) simp
    consider "?n = target" | "?n \<noteq> target" "?n \<in> visited" | "?n \<noteq> target" "?n \<notin> visited" by blast
    then show ?thesis
    proof cases
      case 1
      then have "search rows p target visited stack" using ne by (subst search.simps) simp
      with 1 set show ?thesis by auto
    next
      case 2
      have "\<exists>s \<in> set ?s. (s, target) \<in> ?E\<^sup>*" if "(?n, target) \<in> ?E\<^sup>*"
        using closed_escape [OF that 2(2) "1.prems"] set 2(2) by auto
      moreover have "search rows p target visited ?s \<longleftrightarrow> (\<exists>s \<in> set ?s. (s, target) \<in> ?E\<^sup>*)"
        using "1.IH"(1) [OF ne refl refl 2] "1.prems" set 2(2) by auto
      moreover have "search rows p target visited stack = search rows p target visited ?s"
        using ne 2 by (subst search.simps) simp
      ultimately show ?thesis using set by auto
    next
      case 3
      let ?s' = "?s @ getDownstreamQ rows p ?n"
      have "search rows p target (insert ?n visited) ?s' \<longleftrightarrow> (\<exists>s \<in> set ?s'. (s, target) \<in> ?E\<^sup>*)"
        using "1.IH"(2) [OF ne refl refl 3] "1.prems" set 3(1) by auto
      moreover have "search rows p target visited stack = search rows p target (insert ?n visited) ?s'"
        using ne 3 by (subst search.simps) (simp add: Let_def)
      moreover have "(?n, target) \<in> ?E\<^sup>* \<longleftrightarrow> (\<exists>b. (?n, b) \<in> ?E \<and> (b, target) \<in> ?E\<^sup>*)"
        using 3(1) by (meson converse_rtranclE converse_rtrancl_into_rtrancl)
      ultimately show ?thesis using set by auto
    qed
  qed
qed

lemma hasPath_trancl: "hasPath rows p a b \<longleftrightarrow> (a, b) \<in> (portfolio_edges rows p)\<^sup>+"
  using search_reaches [of b "{}" rows p "getDownstreamQ rows p a"]
  by (simp add: hasPath_def) (meson tranclD rtrancl_into_trancl2)

text \<open>
  \<^verbatim>\<open>HasPath\<close>, the depth-first search with its stack and visited set, returns
  true exactly when a path of at least one dependency leads from the one project
  to the other inside the portfolio (and it always returns: \<open>search\<close> is total).
\<close>
lemma HasPath_correct:
  "HasPath s p a b \<longleftrightarrow> (a, b) \<in> (portfolio_edges (dep_rows s) p)\<^sup>+"
  by (simp add: HasPath_def hasPath_trancl)

section \<open>The store keeps its graphs acyclic\<close>

definition deps_ok :: "dep_store \<Rightarrow> bool" where
  "deps_ok s \<longleftrightarrow>
     (\<forall>p. acyclic (portfolio_edges (dep_rows s) p))
     \<and> distinct (map (\<lambda>d. (depPortfolioRunID d, depUpstream d, depDownstream d)) (dep_rows s))
     \<and> (\<forall>d \<in> set (dep_rows s). depID d \<le> dep_seq s) \<and> distinct (map depID (dep_rows s))"

lemma Add_dep_Inr:
  assumes "Add_dep now s p u w = Inr s'"
  shows "u \<noteq> w" "(w, u) \<notin> (portfolio_edges (dep_rows s) p)\<^sup>+" "(u, w) \<notin> portfolio_edges (dep_rows s) p"
    "p \<in> rID ` set (runs (kernel s))"
    "dep_rows s' = dep_rows s @ [\<lparr>depID = dep_seq s + 1, depPortfolioRunID = p, depUpstream = u,
                    depDownstream = w, depCreatedAt = now\<rparr>]" "dep_seq s' = dep_seq s + 1"
  using assms by (auto simp: Add_dep_def hasPath_trancl portfolio_edges_iff Let_def split: if_splits)

lemma edges_after_add:
  assumes "dep_rows s' = dep_rows s @ [r]"
  shows "portfolio_edges (dep_rows s') q
    = (if q = depPortfolioRunID r then insert (depUpstream r, depDownstream r) (portfolio_edges (dep_rows s) q)
       else portfolio_edges (dep_rows s) q)"
  using assms by (auto simp: portfolio_edges_iff)

lemma Add_dep_ok:
  assumes "deps_ok s" "Add_dep now s p u w = Inr s'"
  shows "deps_ok s'"
proof -
  note A = Add_dep_Inr [OF assms(2)]
  have "(w, u) \<notin> (portfolio_edges (dep_rows s) p)\<^sup>*" using A(1,2) by (auto simp: rtrancl_eq_or_trancl)
  then have "acyclic (portfolio_edges (dep_rows s') q)" for q
    using assms(1) by (simp add: edges_after_add [OF A(5)] deps_ok_def acyclic_insert)
  moreover have "dep_seq s + 1 \<notin> depID ` set (dep_rows s)"
    using assms(1) by (force simp: deps_ok_def)
  ultimately show ?thesis
    using assms(1) A(3) by (auto simp: deps_ok_def A(5,6) portfolio_edges_iff)
qed

lemma Remove_dep_Inr:
  assumes "Remove_dep s p u w = Inr s'"
  shows "dep_rows s' = filter (\<lambda>d. \<not> (depPortfolioRunID d = p \<and> depUpstream d = u \<and> depDownstream d = w)) (dep_rows s)"
    "dep_seq s' = dep_seq s"
  using assms by (auto simp: Remove_dep_def Let_def split: if_splits)

lemma Remove_dep_ok:
  assumes "deps_ok s" "Remove_dep s p u w = Inr s'"
  shows "deps_ok s'"
proof -
  note R = Remove_dep_Inr [OF assms(2)]
  have "portfolio_edges (dep_rows s') q \<subseteq> portfolio_edges (dep_rows s) q" for q
    by (auto simp: portfolio_edges_iff R(1))
  then have "acyclic (portfolio_edges (dep_rows s') q)" for q
    using assms(1) acyclic_subset by (metis deps_ok_def)
  then show ?thesis using assms(1) by (auto simp: deps_ok_def R distinct_map_filter)
qed

section \<open>Histories of the store\<close>

text \<open>
  The runs of the dependency commands over time: \<open>Add\<close> and \<open>Remove\<close> when they
  succeed (a failure changes nothing), and any other operation of the kernel,
  none of which writes \<^verbatim>\<open>project_deps\<close>.
\<close>

inductive dep_step :: "dep_store \<Rightarrow> dep_store \<Rightarrow> bool" where
  add: "Add_dep now s p u w = Inr s' \<Longrightarrow> dep_step s s'"
| remove: "Remove_dep s p u w = Inr s' \<Longrightarrow> dep_step s s'"
| other: "project_deps d = dep_rows s \<Longrightarrow> dep_step s (s\<lparr>kernel := d\<rparr>)"

inductive dep_reachable :: "dep_store \<Rightarrow> bool" where
  start: "project_deps d = [] \<Longrightarrow> dep_reachable \<lparr>kernel = d, dep_seq = 0\<rparr>"
| step: "dep_reachable s \<Longrightarrow> dep_step s s' \<Longrightarrow> dep_reachable s'"

lemma dep_step_ok: "dep_step s s' \<Longrightarrow> deps_ok s \<Longrightarrow> deps_ok s'"
proof (induction rule: dep_step.induct)
  case (other d s)
  then show ?case by (simp add: deps_ok_def)
qed (blast intro: Add_dep_ok Remove_dep_ok)+

lemma dep_reachable_ok: "dep_reachable s \<Longrightarrow> deps_ok s"
proof (induction rule: dep_reachable.induct)
  case (start d)
  then show ?case by (simp add: deps_ok_def portfolio_edges_def edges_def acyclic_def)
qed (rule dep_step_ok)

lemma edges_List_deps: "edges (List_deps s p) = portfolio_edges (dep_rows s) p"
  by (simp add: List_deps_def portfolio_edges_def edges_def)

text \<open>
  C13. In every history of the store the dependencies of each portfolio form an
  acyclic graph without duplicate rows, so that \<^verbatim>\<open>TopologicalSort\<close> on what
  \<^verbatim>\<open>List\<close> returns never reports a cycle: it orders the projects, each after
  everything \<^verbatim>\<open>GetUpstream\<close> returns for it.
\<close>
theorem stored_deps_sortable:
  assumes "dep_reachable s"
  shows "acyclic (portfolio_edges (dep_rows s) p)
    \<and> (\<exists>xs. TopologicalSort (List_deps s p) = Some (Inr xs) \<and> distinct xs
        \<and> (\<forall>k < length xs. set (GetUpstream s p (xs ! k)) \<subseteq> set (take k xs)))"
proof -
  have ac: "acyclic (portfolio_edges (dep_rows s) p)"
    using dep_reachable_ok [OF assms] by (simp add: deps_ok_def)
  let ?E = "portfolio_edges (dep_rows s) p"
  obtain xs where xs: "topo_spec ?E = Inr xs"
    using topo_spec_total [OF finite_portfolio_edges] ac by blast
  have up: "set (GetUpstream s p x) = {u. (u, x) \<in> ?E}" for x
    by (auto simp: GetUpstream_def portfolio_edges_iff)
  have "set (GetUpstream s p (xs ! k)) \<subseteq> set (take k xs)" if "k < length xs" for k
    using topo_spec_Inr(3) [OF finite_portfolio_edges xs] that by (force simp: up in_order_def)
  moreover have "TopologicalSort (List_deps s p) = Some (Inr xs)"
    by (simp add: TopologicalSort_topo_spec edges_List_deps xs)
  ultimately show ?thesis using ac topo_spec_Inr(1) [OF finite_portfolio_edges xs] by blast
qed

definition portfolio_db :: "run list \<Rightarrow> db" where
  "portfolio_db rs = \<lparr>runs = rs, phase_events = [], event_seq = 0, artifacts = [], run_agents = [],
     dispatches = [], project_deps = [], goals = [], replay_inputs = []\<rparr>"

definition sample_portfolio :: run where
  "sample_portfolio = \<lparr>rID = ''p'', rProjectDir = [], rGoal = ''g'', rStatus = StatusActive, rPhase = ''brainstorm'',
     rComplexity = 3, rForceFull = False, rAutoAdvance = True, rCreatedAt = 0, rUpdatedAt = 0,
     rCompletedAt = None, rScopeID = None, rMetadata = None, rPhases = None, rTokenBudget = None,
     rBudgetWarnPct = 80, rParentRunID = None, rGoalID = None, rMaxDispatches = 0, rBudgetEnforce = False,
     rMaxAgents = 0, rGateRules = None\<rparr>"

definition sample_store :: dep_store where
  "sample_store = \<lparr>kernel = portfolio_db [sample_portfolio], dep_seq = 0\<rparr>"

lemma sample_adds:
  "\<exists>s1 s2. Add_dep 5 sample_store ''p'' ''b'' ''c'' = Inr s1 \<and> Add_dep 6 s1 ''p'' ''a'' ''b'' = Inr s2
     \<and> Add_dep 7 s2 ''p'' ''c'' ''a'' = Inl (WouldCycle ''c'' ''a'')
     \<and> TopologicalSort (List_deps s2 ''p'') = Some (Inr [''a'', ''b'', ''c''])"
proof -
  let ?r = "\<lambda>i u w t. \<lparr>depID = i, depPortfolioRunID = ''p'', depUpstream = u, depDownstream = w, depCreatedAt = t\<rparr>"
  let ?s1 = "sample_store\<lparr>kernel := (kernel sample_store)\<lparr>project_deps := [?r 1 ''b'' ''c'' 5]\<rparr>, dep_seq := 1\<rparr>"
  let ?s2 = "sample_store\<lparr>kernel := (kernel sample_store)\<lparr>project_deps := [?r 1 ''b'' ''c'' 5, ?r 2 ''a'' ''b'' 6]\<rparr>, dep_seq := 2\<rparr>"
  have path: "\<not> hasPath [] ''p'' ''c'' ''b''" "\<not> hasPath [?r 1 ''b'' ''c'' 5] ''p'' ''b'' ''a''"
    "hasPath [?r 1 ''b'' ''c'' 5, ?r 2 ''a'' ''b'' 6] ''p'' ''a'' ''c''" by code_simp+
  note defs = Add_dep_def sample_store_def portfolio_db_def sample_portfolio_def
  have "Add_dep 5 sample_store ''p'' ''b'' ''c'' = Inr ?s1" using path(1) by (simp add: defs)
  moreover have "Add_dep 6 ?s1 ''p'' ''a'' ''b'' = Inr ?s2" using path(2) by (simp add: defs)
  moreover have "Add_dep 7 ?s2 ''p'' ''c'' ''a'' = Inl (WouldCycle ''c'' ''a'')" using path(3) by (simp add: defs)
  moreover have "List_deps ?s2 ''p'' = [?r 1 ''b'' ''c'' 5, ?r 2 ''a'' ''b'' 6]" by (simp add: List_deps_def order_asc_def)
  moreover have "TopologicalSort [?r 1 ''b'' ''c'' 5, ?r 2 ''a'' ''b'' 6] = Some (Inr [''a'', ''b'', ''c''])" by code_simp
  ultimately show ?thesis by metis
qed

lemma stored_deps_sortable_witness:
  "\<exists>s. length (dep_rows s) = 2 \<and> acyclic (portfolio_edges (dep_rows s) ''p'')"
proof -
  obtain s1 s2 where s: "Add_dep 5 sample_store ''p'' ''b'' ''c'' = Inr s1" "Add_dep 6 s1 ''p'' ''a'' ''b'' = Inr s2"
    using sample_adds by blast
  have "dep_reachable sample_store" unfolding sample_store_def by (rule start) (simp add: portfolio_db_def)
  with s have "dep_reachable s2" by (metis dep_step.add dep_reachable.step)
  from stored_deps_sortable [OF this, of "''p''"] Add_dep_Inr(5) [OF s(1)] Add_dep_Inr(5) [OF s(2)]
  show ?thesis by (intro exI [of _ s2]) (simp add: sample_store_def portfolio_db_def)
qed

text \<open>
  \<^verbatim>\<open>Add\<close> decides each case: it refuses a self-dependency, then an edge whose
  reverse direction is already a path, then a duplicate row, then an unknown
  portfolio; otherwise it appends exactly the one row and the new edge closes no
  cycle.
\<close>
lemma Add_dep_decides:
  "(case Add_dep now s p u w of
      Inl SelfDependency \<Rightarrow> u = w
    | Inl (WouldCycle a b) \<Rightarrow> a = u \<and> b = w \<and> u \<noteq> w \<and> (w, u) \<in> (portfolio_edges (dep_rows s) p)\<^sup>+
    | Inl DepUnique \<Rightarrow> u \<noteq> w \<and> (u, w) \<in> portfolio_edges (dep_rows s) p
    | Inl (DepNoRun q) \<Rightarrow> q = p \<and> p \<notin> rID ` set (runs (kernel s))
    | Inl DepNotFound \<Rightarrow> False
    | Inr s' \<Rightarrow> u \<noteq> w \<and> (w, u) \<notin> (portfolio_edges (dep_rows s) p)\<^sup>* \<and> (u, w) \<notin> portfolio_edges (dep_rows s) p
        \<and> (\<forall>q. portfolio_edges (dep_rows s') q
              = (if q = p then insert (u, w) (portfolio_edges (dep_rows s) p) else portfolio_edges (dep_rows s) q))
        \<and> runs (kernel s') = runs (kernel s))"
proof (cases "Add_dep now s p u w")
  case (Inl e)
  then show ?thesis
    by (auto simp: Add_dep_def hasPath_trancl portfolio_edges_iff Let_def split: if_splits)
next
  case (Inr s')
  note A = Add_dep_Inr [OF Inr]
  have "runs (kernel s') = runs (kernel s)" using Inr by (auto simp: Add_dep_def Let_def split: if_splits)
  with A(1-3) edges_after_add [OF A(5)] Inr show ?thesis by (simp add: rtrancl_eq_or_trancl)
qed

text \<open>The store's upstream query is the one the gates of package \<^verbatim>\<open>phase\<close> use.\<close>

lemma GetUpstream_tx_dep: "tx_dep (kernel s) p w = Inr (GetUpstream s p w)"
  by (simp add: tx_dep_def GetUpstream_def)

end
