(* ===== verification/Token.thy ===== *)
theory Token
  imports Prelude
begin

text \<open>
  Capability tokens, \<^verbatim>\<open>pkg/authz/token.go\<close>, with the canonical payloads and the
  signing of \<^verbatim>\<open>pkg/authz/sign.go\<close> and the key checks of \<^verbatim>\<open>keys.go\<close>. Strings,
  keys and signatures are lists of bytes. Ed25519, NFC normalisation, the ULID
  syntax check and the JSON text of a vetting object are arguments (\<open>crypto\<close>);
  a fresh ULID is an argument of the operation that draws it. A transaction
  returns an error and leaves the store as it was, or returns the new store.
\<close>

section \<open>The crypto environment, errors and exit codes\<close>

record vetting =
  vtTokenID :: string
  vtDepth :: int
  vtRootToken :: "string option"

record crypto =
  edSign :: "string \<Rightarrow> string \<Rightarrow> string"
  edVerify :: "string \<Rightarrow> string \<Rightarrow> string \<Rightarrow> bool"
  edFromSeed :: "string \<Rightarrow> string"
  nfc :: "string \<Rightarrow> string"
  ulidParses :: "string \<Rightarrow> bool"
  vettingJSON :: "vetting \<Rightarrow> string"

datatype token_error =
    ErrAlreadyConsumed
  | ErrExpired
  | ErrTokenNotFound
  | ErrBadTokenString
  | ErrSigVerify
  | ErrProofOfPossession
  | ErrCallerAgentMismatch
  | ErrCrossProject
  | ErrScopeWidening
  | ErrDepthExceeded
  | ErrExpectMismatch
  | ErrRevoked
  | ErrCascadeOnNonRoot
  | ErrKeyCorrupted
  | ErrPubKeyMismatch
  | Unexpected string

definition ExitCode :: "token_error option \<Rightarrow> int" where
  "ExitCode err =
     (case err of
        None \<Rightarrow> 0
      | Some e \<Rightarrow>
          if e \<in> {ErrAlreadyConsumed, ErrExpired} then 2
          else if e \<in> {ErrTokenNotFound, ErrBadTokenString} then 3
          else if e \<in> {ErrSigVerify, ErrProofOfPossession, ErrCallerAgentMismatch, ErrCrossProject,
                       ErrScopeWidening, ErrDepthExceeded, ErrExpectMismatch, ErrRevoked, ErrCascadeOnNonRoot}
            then 4
          else 1)"

definition ErrClass :: "token_error option \<Rightarrow> string" where
  "ErrClass err =
     (let c = ExitCode err in
      if c = 0 then ''ok'' else if c = 2 then ''token-state'' else if c = 3 then ''not-found''
      else if c = 4 then ''auth-failure'' else if c = 1 then ''unexpected'' else ''unknown'')"

section \<open>Tokens and rows\<close>

record token =
  tID :: string
  tOpType :: string
  tTarget :: string
  tAgentID :: string
  tBeadID :: string
  tDelegateTo :: string
  tExpiresAt :: int
  tConsumedAt :: int
  tRevokedAt :: int
  tIssuedBy :: string
  tParentToken :: string
  tRootToken :: string
  tDepth :: int
  tSigVersion :: int
  tSignature :: string
  tCreatedAt :: int

text \<open>A row of \<^verbatim>\<open>authz_tokens\<close>: its nullable columns are options.\<close>

record token_row =
  wID :: string
  wOpType :: string
  wTarget :: string
  wAgentID :: string
  wBeadID :: "string option"
  wDelegateTo :: "string option"
  wExpiresAt :: int
  wConsumedAt :: "int option"
  wRevokedAt :: "int option"
  wIssuedBy :: string
  wParentToken :: "string option"
  wRootToken :: "string option"
  wDepth :: int
  wSigVersion :: int
  wSignature :: string
  wCreatedAt :: int

text \<open>The rows the token operations write to \<^verbatim>\<open>authorizations\<close>.\<close>

record audit_row =
  auID :: string
  auOpType :: string
  auTarget :: string
  auAgentID :: string
  auBeadID :: "string option"
  auMode :: string
  auVetting :: vetting
  auCreatedAt :: int
  auSignature :: "string option"
  auSignedAt :: "int option"

record token_store =
  tokens :: "token_row list"
  audits :: "audit_row list"

definition nullIfEmpty :: "string \<Rightarrow> string option" where
  "nullIfEmpty s = (if s = [] then None else Some s)"

definition coalesce :: "'a \<Rightarrow> 'a option \<Rightarrow> 'a" where
  "coalesce z x = (case x of Some v \<Rightarrow> v | None \<Rightarrow> z)"

definition scan_token :: "token_row \<Rightarrow> token" where
  "scan_token w = \<lparr>tID = wID w, tOpType = wOpType w, tTarget = wTarget w, tAgentID = wAgentID w,
     tBeadID = coalesce [] (wBeadID w), tDelegateTo = coalesce [] (wDelegateTo w),
     tExpiresAt = wExpiresAt w, tConsumedAt = coalesce 0 (wConsumedAt w),
     tRevokedAt = coalesce 0 (wRevokedAt w), tIssuedBy = wIssuedBy w,
     tParentToken = coalesce [] (wParentToken w), tRootToken = coalesce [] (wRootToken w),
     tDepth = wDepth w, tSigVersion = wSigVersion w, tSignature = wSignature w, tCreatedAt = wCreatedAt w\<rparr>"

definition GetToken :: "token_row list \<Rightarrow> string \<Rightarrow> token_error + token" where
  "GetToken rows tokenID =
     (if tokenID = [] then Inl (Unexpected ''tokenID required'')
      else case sql_first (\<lambda>w. wID w = tokenID) rows of
        None \<Rightarrow> Inl ErrTokenNotFound
      | Some w \<Rightarrow> Inr (scan_token w))"

section \<open>Canonical payloads\<close>

definition rejectControlChars :: "string \<Rightarrow> bool" where
  "rejectControlChars s \<longleftrightarrow> (\<exists>c \<in> set s. of_char c < (0x20::nat) \<or> of_char c = (0x7F::nat))"

definition validateText :: "crypto \<Rightarrow> string \<Rightarrow> string option" where
  "validateText c s = (let n = nfc c s in if rejectControlChars n then None else Some n)"

fun join :: "string \<Rightarrow> string list \<Rightarrow> string" where
  "join sep [] = []"
| "join sep [x] = x"
| "join sep (x # y # xs) = x @ sep @ join sep (y # xs)"

definition tokenSignedFields :: "string list" where
  "tokenSignedFields = [''id'', ''op_type'', ''target'', ''agent_id'', ''bead_id'', ''delegate_to'',
     ''expires_at'', ''issued_by'', ''parent_token'', ''root_token'', ''depth'', ''created_at'']"

definition token_fieldBytes :: "crypto \<Rightarrow> token \<Rightarrow> string \<Rightarrow> string option" where
  "token_fieldBytes c t name =
     (if name = ''id'' then validateText c (tID t)
      else if name = ''op_type'' then validateText c (tOpType t)
      else if name = ''target'' then validateText c (tTarget t)
      else if name = ''agent_id'' then validateText c (tAgentID t)
      else if name = ''bead_id'' then validateText c (tBeadID t)
      else if name = ''delegate_to'' then validateText c (tDelegateTo t)
      else if name = ''expires_at'' then (if tExpiresAt t < 0 then None else Some (dec (tExpiresAt t)))
      else if name = ''issued_by'' then validateText c (tIssuedBy t)
      else if name = ''parent_token'' then validateText c (tParentToken t)
      else if name = ''root_token'' then validateText c (tRootToken t)
      else if name = ''depth'' then (if tDepth t < 0 \<or> tDepth t > 3 then None else Some (dec (tDepth t)))
      else if name = ''created_at'' then (if tCreatedAt t < 0 then None else Some (dec (tCreatedAt t)))
      else None)"

definition CanonicalTokenPayload :: "crypto \<Rightarrow> token \<Rightarrow> string option" where
  "CanonicalTokenPayload c t =
     map_option (join [CHR 0x0A]) (those (map (token_fieldBytes c t) tokenSignedFields))"

record sign_row =
  srID :: string
  srOpType :: string
  srTarget :: string
  srAgentID :: string
  srBeadID :: string
  srMode :: string
  srPolicyMatch :: string
  srPolicyHash :: string
  srVettedSHA :: string
  srVetting :: string
  srCrossProjectID :: string
  srCreatedAt :: int

definition signedFields :: "string list" where
  "signedFields = [''id'', ''op_type'', ''target'', ''agent_id'', ''bead_id'', ''mode'', ''policy_match'',
     ''policy_hash'', ''vetted_sha'', ''vetting'', ''cross_project_id'', ''created_at'']"

definition row_fieldBytes :: "crypto \<Rightarrow> sign_row \<Rightarrow> string \<Rightarrow> string option" where
  "row_fieldBytes c r name =
     (if name = ''id'' then validateText c (srID r)
      else if name = ''op_type'' then validateText c (srOpType r)
      else if name = ''target'' then validateText c (srTarget r)
      else if name = ''agent_id'' then validateText c (srAgentID r)
      else if name = ''bead_id'' then validateText c (srBeadID r)
      else if name = ''mode'' then validateText c (srMode r)
      else if name = ''policy_match'' then validateText c (srPolicyMatch r)
      else if name = ''policy_hash'' then validateText c (srPolicyHash r)
      else if name = ''vetted_sha'' then validateText c (srVettedSHA r)
      else if name = ''vetting'' then (if rejectControlChars (srVetting r) then None else Some (srVetting r))
      else if name = ''cross_project_id'' then validateText c (srCrossProjectID r)
      else if name = ''created_at'' then (if srCreatedAt r < 0 then None else Some (dec (srCreatedAt r)))
      else None)"

definition CanonicalPayload :: "crypto \<Rightarrow> sign_row \<Rightarrow> string option" where
  "CanonicalPayload c r = map_option (join [CHR 0x0A]) (those (map (row_fieldBytes c r) signedFields))"

section \<open>Signing\<close>

definition validatePrivateKey :: "crypto \<Rightarrow> string \<Rightarrow> token_error + string \<times> string" where
  "validatePrivateKey c priv =
     (if length priv \<noteq> 64 then Inl ErrKeyCorrupted
      else
        let derived = edFromSeed c (take 32 priv) in
        if priv \<noteq> derived then Inl ErrKeyCorrupted else Inr (derived, drop 32 derived))"

definition validateKeyPair :: "crypto \<Rightarrow> string \<Rightarrow> string \<Rightarrow> token_error + unit" where
  "validateKeyPair c priv pub =
     sum_bind (validatePrivateKey c priv) (\<lambda>(_, derivedPub).
       if length pub \<noteq> 32 \<or> pub \<noteq> derivedPub then Inl ErrPubKeyMismatch else Inr ())"

definition sign_payload :: "crypto \<Rightarrow> string \<Rightarrow> string option \<Rightarrow> token_error + string" where
  "sign_payload c priv payload =
     sum_bind (validatePrivateKey c priv) (\<lambda>(validated, _).
       case payload of
         None \<Rightarrow> Inl (Unexpected ''canonical payload'')
       | Some p \<Rightarrow> Inr (edSign c validated p))"

definition verify_payload :: "crypto \<Rightarrow> string \<Rightarrow> string option \<Rightarrow> string \<Rightarrow> bool" where
  "verify_payload c pub payload sig =
     (if length pub \<noteq> 32 \<or> length sig \<noteq> 64 then False
      else case payload of None \<Rightarrow> False | Some p \<Rightarrow> edVerify c pub p sig)"

definition SignToken :: "crypto \<Rightarrow> string \<Rightarrow> token \<Rightarrow> token_error + string" where
  "SignToken c priv t = sign_payload c priv (CanonicalTokenPayload c t)"

definition VerifyToken :: "crypto \<Rightarrow> string \<Rightarrow> token \<Rightarrow> string \<Rightarrow> bool" where
  "VerifyToken c pub t sig = verify_payload c pub (CanonicalTokenPayload c t) sig"

definition Sign :: "crypto \<Rightarrow> string \<Rightarrow> sign_row \<Rightarrow> token_error + string" where
  "Sign c priv r = sign_payload c priv (CanonicalPayload c r)"

definition Verify :: "crypto \<Rightarrow> string \<Rightarrow> sign_row \<Rightarrow> string \<Rightarrow> bool" where
  "Verify c pub r sig = verify_payload c pub (CanonicalPayload c r) sig"

section \<open>Token strings\<close>

definition hex_char :: "nat \<Rightarrow> char" where
  "hex_char n = (if n < 10 then char_of (48 + n) else char_of (87 + n))"

definition hex_encode :: "string \<Rightarrow> string" where
  "hex_encode s = concat (map (\<lambda>c. [hex_char (of_char c div 16), hex_char (of_char c mod 16)]) s)"

definition hex_value :: "char \<Rightarrow> nat option" where
  "hex_value ch =
     (let n = of_char ch in
      if 48 \<le> n \<and> n \<le> 57 then Some (n - 48)
      else if 97 \<le> n \<and> n \<le> 102 then Some (n - 87)
      else if 65 \<le> n \<and> n \<le> 70 then Some (n - 55)
      else None)"

fun hex_decode :: "string \<Rightarrow> string option" where
  "hex_decode [] = Some []"
| "hex_decode [a] = None"
| "hex_decode (a # b # s) =
     (case (hex_value a, hex_value b) of
        (Some x, Some y) \<Rightarrow> map_option (\<lambda>r. char_of (16 * x + y) # r) (hex_decode s)
      | _ \<Rightarrow> None)"

definition EncodeTokenString :: "string \<Rightarrow> string \<Rightarrow> string" where
  "EncodeTokenString tid sig = tid @ ''.'' @ hex_encode sig"

definition ParseTokenString :: "crypto \<Rightarrow> string \<Rightarrow> token_error + string \<times> string" where
  "ParseTokenString c s =
     (if CHR ''.'' \<notin> set s then Inl ErrBadTokenString
      else
        let tid = takeWhile (\<lambda>x. x \<noteq> CHR ''.'') s;
            sigHex = tl (dropWhile (\<lambda>x. x \<noteq> CHR ''.'') s)
        in if \<not> ulidParses c tid then Inl ErrBadTokenString
           else case hex_decode sigHex of
             None \<Rightarrow> Inl ErrBadTokenString
           | Some sig \<Rightarrow> if length sig \<noteq> 64 then Inl ErrBadTokenString else Inr (tid, sig))"

section \<open>Inserting rows\<close>

text \<open>
  The constraints of the two tables in SQLite's order: CHECK, then the primary
  key, then the foreign key.
\<close>

datatype insert_error = CheckConstraint | UniqueConstraint | ForeignKeyConstraint

definition blank_agent :: "string \<Rightarrow> bool" where
  "blank_agent s \<longleftrightarrow> (\<forall>ch \<in> set s. ch = CHR '' '')"

definition insert_row :: "token_row \<Rightarrow> token_row list \<Rightarrow> insert_error + token_row list" where
  "insert_row w rows =
     (if blank_agent (wAgentID w) \<or> wDepth w < 0 \<or> wDepth w > 3 then Inl CheckConstraint
      else if wID w \<in> wID ` set rows then Inl UniqueConstraint
      else if (case wParentToken w of None \<Rightarrow> False | Some p \<Rightarrow> p \<noteq> wID w \<and> p \<notin> wID ` set rows)
        then Inl ForeignKeyConstraint
      else Inr (rows @ [w]))"

definition insert_audit :: "audit_row \<Rightarrow> audit_row list \<Rightarrow> insert_error + audit_row list" where
  "insert_audit a rows =
     (if blank_agent (auAgentID a) then Inl CheckConstraint
      else if auID a \<in> auID ` set rows then Inl UniqueConstraint
      else Inr (rows @ [a]))"

section \<open>Issue\<close>

record issue_spec =
  isOpType :: string
  isTarget :: string
  isAgentID :: string
  isBeadID :: string
  isIssuedBy :: string
  isTTL :: int          \<comment> \<open>nanoseconds\<close>

definition issued :: "string \<Rightarrow> issue_spec \<Rightarrow> int \<Rightarrow> token" where
  "issued newID spec now =
     \<lparr>tID = newID, tOpType = isOpType spec, tTarget = isTarget spec, tAgentID = isAgentID spec,
      tBeadID = isBeadID spec, tDelegateTo = [], tExpiresAt = int64 (now + isTTL spec div 1000000000),
      tConsumedAt = 0, tRevokedAt = 0, tIssuedBy = isIssuedBy spec, tParentToken = [],
      tRootToken = [], tDepth = 0, tSigVersion = 2, tSignature = [], tCreatedAt = now\<rparr>"

definition issued_row :: "token \<Rightarrow> string \<Rightarrow> token_row" where
  "issued_row t sig =
     \<lparr>wID = tID t, wOpType = tOpType t, wTarget = tTarget t, wAgentID = tAgentID t,
      wBeadID = nullIfEmpty (tBeadID t), wDelegateTo = None, wExpiresAt = tExpiresAt t,
      wConsumedAt = None, wRevokedAt = None, wIssuedBy = tIssuedBy t, wParentToken = None,
      wRootToken = None, wDepth = 0, wSigVersion = 2, wSignature = sig, wCreatedAt = tCreatedAt t\<rparr>"

definition issueToken ::
    "crypto \<Rightarrow> string \<Rightarrow> string \<Rightarrow> issue_spec \<Rightarrow> int \<Rightarrow> token_store
      \<Rightarrow> token_error + (token \<times> string) \<times> token_store" where
  "issueToken c newID priv spec now st =
     (if isOpType spec = [] then Inl (Unexpected ''OpType required'')
      else if isTarget spec = [] then Inl (Unexpected ''Target required'')
      else if isAgentID spec = [] then Inl (Unexpected ''AgentID required'')
      else if isIssuedBy spec = [] then Inl (Unexpected ''IssuedBy required'')
      else if isTTL spec \<le> 0 then Inl (Unexpected ''TTL must be positive'')
      else if now \<le> 0 then Inl (Unexpected ''now must be positive'')
      else
        let t = issued newID spec now in
        sum_bind (SignToken c priv t) (\<lambda>sig.
          case insert_row (issued_row t sig) (tokens st) of
            Inl _ \<Rightarrow> Inl (Unexpected ''insert token'')
          | Inr rows \<Rightarrow> Inr ((t\<lparr>tSignature := sig\<rparr>, EncodeTokenString (tID t) sig), st\<lparr>tokens := rows\<rparr>)))"

section \<open>Delegate\<close>

record delegate_spec =
  dsParentID :: string
  dsCallerAgentID :: string
  dsToAgentID :: string
  dsRequestedTTL :: int   \<comment> \<open>nanoseconds\<close>

definition delegated :: "string \<Rightarrow> delegate_spec \<Rightarrow> token \<Rightarrow> int \<Rightarrow> token" where
  "delegated newID spec parent now =
     (let requested = int64 (now + dsRequestedTTL spec div 1000000000) in
      \<lparr>tID = newID, tOpType = tOpType parent, tTarget = tTarget parent, tAgentID = dsToAgentID spec,
       tBeadID = tBeadID parent, tDelegateTo = dsToAgentID spec,
       tExpiresAt = (if requested > tExpiresAt parent then tExpiresAt parent else requested),
       tConsumedAt = 0, tRevokedAt = 0, tIssuedBy = dsCallerAgentID spec, tParentToken = tID parent,
       tRootToken = (if tRootToken parent = [] then tID parent else tRootToken parent),
       tDepth = tDepth parent + 1, tSigVersion = 2, tSignature = [], tCreatedAt = now\<rparr>)"

definition child_row :: "token \<Rightarrow> string \<Rightarrow> token_row" where
  "child_row t sig =
     \<lparr>wID = tID t, wOpType = tOpType t, wTarget = tTarget t, wAgentID = tAgentID t,
      wBeadID = nullIfEmpty (tBeadID t), wDelegateTo = Some (tDelegateTo t), wExpiresAt = tExpiresAt t,
      wConsumedAt = None, wRevokedAt = None, wIssuedBy = tIssuedBy t, wParentToken = Some (tParentToken t),
      wRootToken = Some (tRootToken t), wDepth = tDepth t, wSigVersion = 2, wSignature = sig,
      wCreatedAt = tCreatedAt t\<rparr>"

definition DelegateToken ::
    "crypto \<Rightarrow> string \<Rightarrow> string \<Rightarrow> delegate_spec \<Rightarrow> int \<Rightarrow> token_store
      \<Rightarrow> token_error + (token \<times> string) \<times> token_store" where
  "DelegateToken c newID priv spec now st =
     (if dsParentID spec = [] then Inl (Unexpected ''ParentID required'')
      else if dsCallerAgentID spec = [] then Inl (Unexpected ''CallerAgentID required'')
      else if dsToAgentID spec = [] then Inl (Unexpected ''ToAgentID required'')
      else if dsRequestedTTL spec \<le> 0 then Inl (Unexpected ''RequestedTTL must be positive'')
      else if now \<le> 0 then Inl (Unexpected ''now must be positive'')
      else sum_bind (GetToken (tokens st) (dsParentID spec)) (\<lambda>parent.
        if dsCallerAgentID spec \<noteq> tAgentID parent then Inl ErrProofOfPossession
        else if tDepth parent + 1 > 3 then Inl ErrDepthExceeded
        else
          let child = delegated newID spec parent now in
          sum_bind (SignToken c priv child) (\<lambda>sig.
            case sql_first (\<lambda>w. wID w = tID parent) (tokens st) of
              None \<Rightarrow> Inl (Unexpected ''re-select parent depth'')
            | Some w \<Rightarrow>
                if wDepth w + 1 > 3 then Inl ErrDepthExceeded
                else case insert_row (child_row child sig) (tokens st) of
                  Inl CheckConstraint \<Rightarrow> Inl ErrDepthExceeded
                | Inl _ \<Rightarrow> Inl (Unexpected ''insert child token'')
                | Inr rows \<Rightarrow>
                    Inr ((child\<lparr>tSignature := sig\<rparr>, EncodeTokenString (tID child) sig), st\<lparr>tokens := rows\<rparr>))))"

section \<open>Consume\<close>

definition consumable :: "string \<Rightarrow> string \<Rightarrow> int \<Rightarrow> token_row \<Rightarrow> bool" where
  "consumable tid caller now w \<longleftrightarrow>
     wID w = tid \<and> wConsumedAt w = None \<and> wRevokedAt w = None \<and> wExpiresAt w > now \<and> wAgentID w = caller"

datatype token_change = MarkConsumed int | MarkRevoked int

fun change_token :: "token_change \<Rightarrow> token_row \<Rightarrow> token_row" where
  "change_token (MarkConsumed now) w = w\<lparr>wConsumedAt := Some now\<rparr>"
| "change_token (MarkRevoked now) w = w\<lparr>wRevokedAt := Some now\<rparr>"

definition classifyConsumeFailure :: "token_row list \<Rightarrow> string \<Rightarrow> int \<Rightarrow> token_error" where
  "classifyConsumeFailure rows tid now =
     (case sql_first (\<lambda>w. wID w = tid) rows of
        None \<Rightarrow> ErrTokenNotFound
      | Some w \<Rightarrow>
          if wRevokedAt w \<noteq> None then ErrRevoked
          else if wConsumedAt w \<noteq> None then ErrAlreadyConsumed
          else if wExpiresAt w \<le> now then ErrExpired
          else ErrAlreadyConsumed)"

definition audit_sign_row :: "crypto \<Rightarrow> string \<Rightarrow> token \<Rightarrow> string \<Rightarrow> vetting \<Rightarrow> int \<Rightarrow> sign_row" where
  "audit_sign_row c auditID t caller v now =
     \<lparr>srID = auditID, srOpType = tOpType t, srTarget = tTarget t, srAgentID = caller, srBeadID = tBeadID t,
      srMode = ''auto'', srPolicyMatch = [], srPolicyHash = [], srVettedSHA = [],
      srVetting = vettingJSON c v, srCrossProjectID = [], srCreatedAt = now\<rparr>"

definition sign_audit ::
    "crypto \<Rightarrow> string \<Rightarrow> string \<Rightarrow> sign_row \<Rightarrow> int \<Rightarrow> token_error + string option \<times> int option" where
  "sign_audit c signer pub r now =
     (if signer = [] then Inr (None, None)
      else if drop 32 signer \<noteq> pub then Inl ErrPubKeyMismatch
      else sum_bind (Sign c signer r) (\<lambda>sig. Inr (Some sig, Some now)))"

definition claim_token ::
    "crypto \<Rightarrow> string \<Rightarrow> string \<Rightarrow> string \<Rightarrow> token \<Rightarrow> string \<Rightarrow> string \<Rightarrow> int \<Rightarrow> token_store
      \<Rightarrow> token_error + (token \<times> string) \<times> token_store" where
  "claim_token c auditID pub signer t tid caller now st =
     (let P = consumable tid caller now in
      if rows_affected P (tokens st) \<noteq> 1 then Inl (classifyConsumeFailure (tokens st) tid now)
      else
        let rows = sql_update P (change_token (MarkConsumed now)) (tokens st);
            v = \<lparr>vtTokenID = tID t, vtDepth = tDepth t, vtRootToken = nullIfEmpty (tRootToken t)\<rparr>
        in sum_bind (sign_audit c signer pub (audit_sign_row c auditID t caller v now) now) (\<lambda>(sig, signedAt).
             case insert_audit
                 \<lparr>auID = auditID, auOpType = tOpType t, auTarget = tTarget t, auAgentID = caller,
                  auBeadID = nullIfEmpty (tBeadID t), auMode = ''auto'', auVetting = v, auCreatedAt = now,
                  auSignature = sig, auSignedAt = signedAt\<rparr> (audits st) of
               Inl _ \<Rightarrow> Inl (Unexpected ''insert audit row'')
             | Inr auditRows \<Rightarrow>
                 Inr ((t\<lparr>tConsumedAt := now\<rparr>, auditID), \<lparr>tokens = rows, audits = auditRows\<rparr>)))"

definition consumeToken ::
    "crypto \<Rightarrow> string \<Rightarrow> string \<Rightarrow> string \<Rightarrow> string \<Rightarrow> string \<Rightarrow> string \<Rightarrow> string \<Rightarrow> int \<Rightarrow> token_store
      \<Rightarrow> token_error + (token \<times> string) \<times> token_store" where
  "consumeToken c auditID pub signer tokenStr caller expectOp expectTarget now st =
     (if caller = [] then Inl (Unexpected ''callerAgentID required'')
      else if now \<le> 0 then Inl (Unexpected ''now must be positive'')
      else sum_bind (ParseTokenString c tokenStr) (\<lambda>(tid, sig).
        sum_bind (GetToken (tokens st) tid) (\<lambda>t.
          if \<not> VerifyToken c pub t sig then Inl ErrSigVerify
          else if caller \<noteq> tAgentID t then Inl ErrCallerAgentMismatch
          else if expectOp \<noteq> [] \<and> expectOp \<noteq> tOpType t then Inl ErrExpectMismatch
          else if expectTarget \<noteq> [] \<and> expectTarget \<noteq> tTarget t then Inl ErrExpectMismatch
          else claim_token c auditID pub signer t tid caller now st)))"

definition ConsumeToken ::
    "crypto \<Rightarrow> string \<Rightarrow> string \<Rightarrow> string \<Rightarrow> string \<Rightarrow> string \<Rightarrow> string \<Rightarrow> int \<Rightarrow> token_store
      \<Rightarrow> token_error + token \<times> token_store" where
  "ConsumeToken c auditID pub tokenStr caller expectOp expectTarget now st =
     sum_bind (consumeToken c auditID pub [] tokenStr caller expectOp expectTarget now st)
       (\<lambda>((t, _), st'). Inr (t, st'))"

definition ConsumeTokenSignedWithAudit ::
    "crypto \<Rightarrow> string \<Rightarrow> string \<Rightarrow> string \<Rightarrow> string \<Rightarrow> string \<Rightarrow> string \<Rightarrow> string \<Rightarrow> int \<Rightarrow> token_store
      \<Rightarrow> token_error + (token \<times> string) \<times> token_store" where
  "ConsumeTokenSignedWithAudit c auditID pub priv tokenStr caller expectOp expectTarget now st =
     sum_bind (validateKeyPair c priv pub) (\<lambda>_.
       consumeToken c auditID pub priv tokenStr caller expectOp expectTarget now st)"

definition ConsumeTokenSigned ::
    "crypto \<Rightarrow> string \<Rightarrow> string \<Rightarrow> string \<Rightarrow> string \<Rightarrow> string \<Rightarrow> string \<Rightarrow> string \<Rightarrow> int \<Rightarrow> token_store
      \<Rightarrow> token_error + token \<times> token_store" where
  "ConsumeTokenSigned c auditID pub priv tokenStr caller expectOp expectTarget now st =
     sum_bind (validateKeyPair c priv pub) (\<lambda>_.
       sum_bind (consumeToken c auditID pub priv tokenStr caller expectOp expectTarget now st)
         (\<lambda>((t, _), st'). Inr (t, st')))"

section \<open>Revoke and list\<close>

definition RevokeToken :: "string \<Rightarrow> bool \<Rightarrow> int \<Rightarrow> token_store \<Rightarrow> token_error + nat \<times> token_store" where
  "RevokeToken tokenID cascade now st =
     (if tokenID = [] then Inl (Unexpected ''tokenID required'')
      else if now \<le> 0 then Inl (Unexpected ''now must be positive'')
      else if \<not> cascade then
        let P = (\<lambda>w. wID w = tokenID \<and> wRevokedAt w = None);
            n = rows_affected P (tokens st)
        in if n = 0 \<and> rows_affected (\<lambda>w. wID w = tokenID) (tokens st) = 0 then Inl ErrTokenNotFound
           else Inr (n, st\<lparr>tokens := sql_update P (change_token (MarkRevoked now)) (tokens st)\<rparr>)
      else sum_bind (GetToken (tokens st) tokenID) (\<lambda>target.
        if tParentToken target \<noteq> [] \<or> tRootToken target \<noteq> [] then Inl ErrCascadeOnNonRoot
        else
          let P = (\<lambda>w. (wID w = tokenID \<or> wRootToken w = Some tokenID) \<and> wRevokedAt w = None)
          in Inr (rows_affected P (tokens st),
                  st\<lparr>tokens := sql_update P (change_token (MarkRevoked now)) (tokens st)\<rparr>)))"

record token_filter =
  fRootToken :: string
  fAgentID :: string
  fOpType :: string
  fStatus :: string
  fNow :: int

definition status_cond :: "token_filter \<Rightarrow> token_error + (token_row \<Rightarrow> bool)" where
  "status_cond f =
     (if fStatus f = [] then Inr (\<lambda>_. True)
      else if fStatus f = ''consumable'' then
        (if fNow f \<le> 0 then Inl (Unexpected ''Now required'')
         else Inr (\<lambda>w. wConsumedAt w = None \<and> wRevokedAt w = None \<and> wExpiresAt w > fNow f))
      else if fStatus f = ''consumed'' then Inr (\<lambda>w. wConsumedAt w \<noteq> None)
      else if fStatus f = ''revoked'' then Inr (\<lambda>w. wRevokedAt w \<noteq> None)
      else if fStatus f = ''expired'' then
        (if fNow f \<le> 0 then Inl (Unexpected ''Now required'')
         else Inr (\<lambda>w. wConsumedAt w = None \<and> wRevokedAt w = None \<and> wExpiresAt w \<le> fNow f))
      else Inl (Unexpected ''invalid status filter''))"

definition ListTokens :: "token_filter \<Rightarrow> token_store \<Rightarrow> token_error + token list" where
  "ListTokens f st =
     sum_bind (status_cond f) (\<lambda>P.
       Inr (map scan_token (order_asc wCreatedAt (filter (\<lambda>w.
         (fRootToken f = [] \<or> wID w = fRootToken f \<or> wRootToken w = Some (fRootToken f))
         \<and> (fAgentID f = [] \<or> wAgentID w = fAgentID f)
         \<and> (fOpType f = [] \<or> wOpType w = fOpType f) \<and> P w) (tokens st)))))"

end
