(* ===== verification/Decimal.thy ===== *)
theory Decimal
  imports Prelude
begin

text \<open>
  Decimal text of numbers: its digits, its value, and that it determines the number.
\<close>

definition decimal_value :: "string \<Rightarrow> nat" where
  "decimal_value s = foldl (\<lambda>a ch. 10 * a + (of_char ch - 48)) 0 s"

lemma decimal_value_dec_nat: "decimal_value (dec_nat n) = n"
proof (induction n rule: dec_nat.induct)
  case (1 n)
  show ?case
  proof (cases "n < 10")
    case True
    then show ?thesis by (subst dec_nat.simps) (simp add: decimal_value_def)
  next
    case False
    have "decimal_value (dec_nat n) = 10 * decimal_value (dec_nat (n div 10)) + n mod 10"
      using False by (subst dec_nat.simps) (simp add: decimal_value_def)
    then show ?thesis using 1 [OF False] by simp
  qed
qed

lemma dec_nat_inj: "dec_nat m = dec_nat n \<Longrightarrow> m = n"
  by (metis decimal_value_dec_nat)

lemma dec_nat_range: "ch \<in> set (dec_nat n) \<Longrightarrow> 48 \<le> (of_char ch :: nat) \<and> (of_char ch :: nat) < 58"
proof (induction n rule: dec_nat.induct)
  case (1 n)
  show ?case
  proof (cases "n < 10")
    case True
    then show ?thesis using 1(2) by (subst (asm) dec_nat.simps) simp
  next
    case False
    then have "ch \<in> set (dec_nat (n div 10)) \<or> ch = char_of (48 + n mod 10)"
      using 1(2) by (subst (asm) dec_nat.simps) auto
    moreover have "n mod 10 < 10" by simp
    ultimately show ?thesis using 1(1) [OF False] by fastforce
  qed
qed

lemma dec_nat_digits: "ch \<in> set (dec_nat n) \<Longrightarrow> 48 \<le> (of_char ch :: nat)"
  using dec_nat_range by blast

lemma dec_nat_no: "c \<in> {CHR ''-'', CHR '':'', CHR '',''} \<Longrightarrow> c \<notin> set (dec_nat n)"
  using dec_nat_range [of c n] by auto

lemma dec_chars: "ch \<in> set (dec x) \<Longrightarrow> ch = CHR ''-'' \<or> (48 \<le> (of_char ch :: nat) \<and> (of_char ch :: nat) < 58)"
  using dec_nat_range by (auto simp: dec_def split: if_splits)

lemma dec_inj: "dec x = dec y \<Longrightarrow> x = y"
proof -
  assume eq: "dec x = dec y"
  have "CHR ''-'' # a \<noteq> dec_nat n" "dec_nat n \<noteq> CHR ''-'' # a" for a n using dec_nat_no [of "CHR ''-''" n] by (metis insertI1 list.set_intros(1))+
  with eq show ?thesis by (auto simp: dec_def dest!: dec_nat_inj split: if_splits)
qed

lemma dec_no_colon: "CHR '':'' \<notin> set (dec x)"
  using dec_chars [of "CHR '':''" x] by auto

end
