(* ===== verification/TokenSafety.thy ===== *)
theory TokenSafety
  imports TokenCorrect
begin

text \<open>
  The histories of the token store: what a successful operation did, the
  lineage of delegated tokens, single use, and revocation.
\<close>

interpretation token_table: keyed_table wID change_token
proof
  show "wID (change_token ch w) = wID w" for ch w by (cases ch) simp_all
qed

section \<open>Successful operations\<close>

definition root_row :: "token_row \<Rightarrow> bool" where
  "root_row w \<longleftrightarrow> wParentToken w = None \<and> wRootToken w = None \<and> wDepth w = 0"

definition fresh_row :: "token_row \<Rightarrow> bool" where
  "fresh_row w \<longleftrightarrow> wConsumedAt w = None \<and> wRevokedAt w = None \<and> wBeadID w \<noteq> Some []"

text \<open>\<open>w\<close> is delegated from \<open>p\<close>: nothing wider, one step deeper, the same root.\<close>

definition delegated_from :: "token_row \<Rightarrow> token_row \<Rightarrow> bool" where
  "delegated_from p w \<longleftrightarrow>
     wParentToken w = Some (wID p) \<and> wOpType w = wOpType p \<and> wTarget w = wTarget p
     \<and> wBeadID w = wBeadID p \<and> wExpiresAt w \<le> wExpiresAt p \<and> wDepth w = wDepth p + 1 \<and> wDepth w \<le> 3
     \<and> wIssuedBy w = wAgentID p \<and> wRootToken w = Some (coalesce (wID p) (wRootToken p))"

lemma nullIfEmpty_coalesce: "x \<noteq> Some [] \<Longrightarrow> nullIfEmpty (coalesce [] x) = x"
  by (cases x) (auto simp: nullIfEmpty_def coalesce_def)

lemma insert_row_Inr:
  assumes "insert_row w rows = Inr rows'"
  shows "rows' = rows @ [w]" "wID w \<notin> wID ` set rows" "wDepth w \<le> 3" "0 \<le> wDepth w" "\<not> blank_agent (wAgentID w)"
  using assms by (auto simp: insert_row_def split: if_splits)

lemma GetToken_Inr:
  assumes "GetToken rows tid = Inr t"
  obtains w where "w \<in> set rows" "wID w = tid" "t = scan_token w" "sql_first (\<lambda>w. wID w = tid) rows = Some w" "tid \<noteq> []"
proof -
  from assms have ne: "tid \<noteq> []" by (auto simp: GetToken_def)
  show ?thesis
  proof (cases "sql_first (\<lambda>w. wID w = tid) rows")
    case None
    with assms ne show ?thesis by (simp add: GetToken_def)
  next
    case (Some w)
    with assms ne have "t = scan_token w" by (simp add: GetToken_def)
    with that Some sql_first_Some [OF Some] ne show ?thesis by blast
  qed
qed

lemma issue_Inr:
  assumes "issueToken c newID priv spec now st = Inr ((t, str), st')"
  obtains sig w where "w = issued_row (issued newID spec now) sig" "tokens st' = tokens st @ [w]"
    "audits st' = audits st" "newID \<notin> wID ` set (tokens st)" "wID w = newID" "\<not> blank_agent (wAgentID w)"
    "SignToken c priv (issued newID spec now) = Inr sig" "str = EncodeTokenString newID sig" "0 < now"
    "t = (issued newID spec now)\<lparr>tSignature := sig\<rparr>"
proof -
  have nid: "tID (issued newID spec now) = newID" by (simp add: issued_def)
  from assms obtain sig where sig: "SignToken c priv (issued newID spec now) = Inr sig"
    and ins: "(case insert_row (issued_row (issued newID spec now) sig) (tokens st) of
          Inl _ \<Rightarrow> Inl (Unexpected ''insert token'')
        | Inr rows \<Rightarrow> Inr (((issued newID spec now)\<lparr>tSignature := sig\<rparr>, EncodeTokenString newID sig), st\<lparr>tokens := rows\<rparr>))
        = Inr ((t, str), st')"
    and ok: "0 < now"
    unfolding issueToken_def Let_def sum_bind_Inr_iff nid by (auto simp: sum_bind_Inr_iff split: if_split_asm)
  from ins obtain rows where ins: "insert_row (issued_row (issued newID spec now) sig) (tokens st) = Inr rows"
    and res: "t = (issued newID spec now)\<lparr>tSignature := sig\<rparr>" "str = EncodeTokenString newID sig" "st' = st\<lparr>tokens := rows\<rparr>"
    by (cases "insert_row (issued_row (issued newID spec now) sig) (tokens st)") auto
  show ?thesis
    by (rule that [of "issued_row (issued newID spec now) sig" sig])
      (use sig insert_row_Inr [OF ins] res ok nid in \<open>auto simp: issued_row_def\<close>)
qed

lemma issued_row_props:
  "root_row (issued_row (issued newID spec now) sig)" "fresh_row (issued_row (issued newID spec now) sig)"
  "wAgentID (issued_row (issued newID spec now) sig) = isAgentID spec"
  "wExpiresAt (issued_row (issued newID spec now) sig) = int64 (now + isTTL spec div 1000000000)"
  by (simp_all add: root_row_def fresh_row_def issued_row_def issued_def nullIfEmpty_def)

lemma delegate_Inr:
  assumes "DelegateToken c newID priv spec now st = Inr ((t, str), st')"
  obtains p w sig where "p \<in> set (tokens st)" "wID p = dsParentID spec" "wAgentID p = dsCallerAgentID spec"
    "sql_first (\<lambda>w. wID w = dsParentID spec) (tokens st) = Some p"
    "w = child_row (delegated newID spec (scan_token p) now) sig"
    "tokens st' = tokens st @ [w]" "audits st' = audits st" "newID \<notin> wID ` set (tokens st)" "wID w = newID"
    "wDepth w \<le> 3" "\<not> blank_agent (wAgentID w)"
    "SignToken c priv (delegated newID spec (scan_token p) now) = Inr sig" "str = EncodeTokenString newID sig"
proof -
  from assms obtain parent where get: "GetToken (tokens st) (dsParentID spec) = Inr parent"
    and rest: "(if dsCallerAgentID spec \<noteq> tAgentID parent then Inl ErrProofOfPossession
        else if tDepth parent + 1 > 3 then Inl ErrDepthExceeded
        else
          let child = delegated newID spec parent now in
          sum_bind (SignToken c priv child) (\<lambda>sig.
            case sql_first (\<lambda>w. wID w = tID parent) (tokens st) of
              None \<Rightarrow> Inl (Unexpected ''re-select parent depth'')
            | Some w \<Rightarrow>
                if wDepth w + 1 > 3 then Inl ErrDepthExceeded
                else case insert_row (child_row child sig) (tokens st) of
                  Inl CheckConstraint \<Rightarrow> Inl ErrDepthExceeded
                | Inl _ \<Rightarrow> Inl (Unexpected ''insert child token'')
                | Inr rows \<Rightarrow>
                    Inr ((child\<lparr>tSignature := sig\<rparr>, EncodeTokenString (tID child) sig), st\<lparr>tokens := rows\<rparr>)))
        = Inr ((t, str), st')"
    by (auto simp: DelegateToken_def sum_bind_Inr_iff split: if_splits)
  obtain p where p: "p \<in> set (tokens st)" "wID p = dsParentID spec" "parent = scan_token p"
    "sql_first (\<lambda>w. wID w = dsParentID spec) (tokens st) = Some p"
    using GetToken_Inr [OF get] by metis
  let ?d = "delegated newID spec (scan_token p) now"
  have ids: "tID (scan_token p) = wID p" "tDepth (scan_token p) = wDepth p" "tAgentID (scan_token p) = wAgentID p"
    by (simp_all add: scan_token_def)
  from rest [unfolded p(3) ids p(2) p(4) Let_def option.case] obtain sig where sig: "SignToken c priv ?d = Inr sig"
    and ag: "dsCallerAgentID spec = wAgentID p"
    and ins: "(case insert_row (child_row ?d sig) (tokens st) of
                  Inl CheckConstraint \<Rightarrow> Inl ErrDepthExceeded
                | Inl _ \<Rightarrow> Inl (Unexpected ''insert child token'')
                | Inr rows \<Rightarrow>
                    Inr ((?d\<lparr>tSignature := sig\<rparr>, EncodeTokenString (tID ?d) sig), st\<lparr>tokens := rows\<rparr>))
        = Inr ((t, str), st')"
    by (auto simp: sum_bind_Inr_iff split: if_split_asm)
  from ins obtain rows where ins: "insert_row (child_row ?d sig) (tokens st) = Inr rows"
    and res: "str = EncodeTokenString (tID ?d) sig" "st' = st\<lparr>tokens := rows\<rparr>"
    by (cases "insert_row (child_row ?d sig) (tokens st)") (auto split: insert_error.split_asm)
  have nid: "tID ?d = newID" by (simp add: delegated_def Let_def)
  show ?thesis
    by (rule that [of p "child_row ?d sig" sig]) (use p sig insert_row_Inr [OF ins] res ag nid in \<open>auto simp: child_row_def\<close>)
qed

lemma delegated_row:
  assumes "w = child_row (delegated newID spec (scan_token p) now) sig" "wDepth w \<le> 3"
    and "wAgentID p = dsCallerAgentID spec" "wBeadID p \<noteq> Some []" "wRootToken p \<noteq> Some []" "wID p \<noteq> []"
  shows "delegated_from p w" "fresh_row w" "wAgentID w = dsToAgentID spec" "wDelegateTo w = Some (dsToAgentID spec)"
proof -
  have r: "coalesce [] (wRootToken p) = [] \<longleftrightarrow> wRootToken p = None"
    using assms(5) by (cases "wRootToken p") (auto simp: coalesce_def)
  show "delegated_from p w" "fresh_row w" "wAgentID w = dsToAgentID spec" "wDelegateTo w = Some (dsToAgentID spec)"
    using assms(2-6) r unfolding assms(1)
    by (auto simp: delegated_from_def fresh_row_def child_row_def delegated_def scan_token_def Let_def
        nullIfEmpty_def coalesce_def split: option.splits)
qed

lemma consume_Inr:
  assumes "consumeToken c auditID pub signer str caller op tgt now st = Inr ((t, aid), st')"
  obtains w sig sg sa where "ParseTokenString c str = Inr (wID w, sig)" "w \<in> set (tokens st)"
    "sql_first (\<lambda>x. wID x = wID w) (tokens st) = Some w"
    "VerifyToken c pub (scan_token w) sig" "caller = wAgentID w" "op = [] \<or> op = wOpType w" "tgt = [] \<or> tgt = wTarget w"
    "rows_affected (consumable (wID w) caller now) (tokens st) = 1" "0 < now"
    "tokens st' = sql_update (consumable (wID w) caller now) (change_token (MarkConsumed now)) (tokens st)"
    "auditID \<notin> auID ` set (audits st)"
    "audits st' = audits st @ [\<lparr>auID = auditID, auOpType = wOpType w, auTarget = wTarget w, auAgentID = caller,
        auBeadID = nullIfEmpty (coalesce [] (wBeadID w)), auMode = ''auto'',
        auVetting = \<lparr>vtTokenID = wID w, vtDepth = wDepth w, vtRootToken = nullIfEmpty (coalesce [] (wRootToken w))\<rparr>,
        auCreatedAt = now, auSignature = sg, auSignedAt = sa\<rparr>]"
    "t = (scan_token w)\<lparr>tConsumedAt := now\<rparr>"
proof -
  from assms obtain tid sig u where parse: "ParseTokenString c str = Inr (tid, sig)"
    and get: "GetToken (tokens st) tid = Inr u"
    and ok: "VerifyToken c pub u sig" "caller = tAgentID u" "op = [] \<or> op = tOpType u" "tgt = [] \<or> tgt = tTarget u"
    and claim: "claim_token c auditID pub signer u tid caller now st = Inr ((t, aid), st')" and now: "0 < now"
    by (auto simp: consumeToken_def sum_bind_Inr_iff split: if_splits)
  obtain w where w: "w \<in> set (tokens st)" "wID w = tid" "u = scan_token w" "sql_first (\<lambda>w. wID w = tid) (tokens st) = Some w"
    using GetToken_Inr [OF get] by metis
  show ?thesis
    using that [of w sig] parse w ok claim now
    by (auto simp: claim_token_def sum_bind_Inr_iff Let_def scan_token_def insert_audit_def
        split: if_splits sum.splits prod.splits)
qed

section \<open>Lineage\<close>

definition from_root :: "token_row \<Rightarrow> token_row \<Rightarrow> bool" where
  "from_root q w \<longleftrightarrow>
     root_row q \<and> wRootToken w = Some (wID q) \<and> wOpType w = wOpType q \<and> wTarget w = wTarget q
     \<and> wBeadID w = wBeadID q \<and> wExpiresAt w \<le> wExpiresAt q"

definition lineage :: "token_row list \<Rightarrow> bool" where
  "lineage rows \<longleftrightarrow>
     (\<forall>w \<in> set rows. wID w \<noteq> [] \<and> wBeadID w \<noteq> Some [] \<and> \<not> blank_agent (wAgentID w)
        \<and> (root_row w \<or> (\<exists>p \<in> set rows. \<exists>q \<in> set rows. delegated_from p w \<and> from_root q w)))"

text \<open>Consuming and revoking write no column the lineage reads.\<close>

definition core :: "token_row \<Rightarrow> token_row" where
  "core w = w\<lparr>wConsumedAt := None, wRevokedAt := None\<rparr>"

lemma core_change [simp]: "core (change_token ch w) = core w"
  by (cases ch) (simp_all add: core_def)

lemma lineage_core: "lineage (map core rows) = lineage rows"
  by (simp add: lineage_def core_def root_row_def delegated_from_def from_root_def)

lemma lineage_update: "lineage (sql_update P (change_token ch) rows) = lineage rows"
proof -
  have "map core (sql_update P (change_token ch) rows) = map core rows"
    by (rule map_sql_update) simp
  then show ?thesis by (metis lineage_core)
qed

lemma lineage_root_id: "lineage rows \<Longrightarrow> w \<in> set rows \<Longrightarrow> wRootToken w \<noteq> Some []"
  unfolding lineage_def root_row_def from_root_def by (metis option.distinct(1) option.inject)

lemma lineage_issue:
  assumes "lineage rows" "root_row w" "fresh_row w" "wID w \<noteq> []" "\<not> blank_agent (wAgentID w)"
  shows "lineage (rows @ [w])"
  using assms unfolding lineage_def fresh_row_def by auto

lemma lineage_delegate:
  assumes "lineage rows" "p \<in> set rows" "delegated_from p w" "fresh_row w" "wID w \<noteq> []"
    and "\<not> blank_agent (wAgentID w)"
  shows "lineage (rows @ [w])"
proof -
  have "\<exists>q \<in> set rows. from_root q w"
  proof (cases "root_row p")
    case True
    then have "from_root p w" using assms(3) by (auto simp: from_root_def delegated_from_def root_row_def coalesce_def)
    with assms(2) show ?thesis by blast
  next
    case False
    then obtain q where "q \<in> set rows" "from_root q p" using assms(1,2) by (auto simp: lineage_def)
    moreover from this have "from_root q w" using assms(3) by (auto simp: from_root_def delegated_from_def coalesce_def)
    ultimately show ?thesis by blast
  qed
  with assms show ?thesis unfolding lineage_def fresh_row_def by auto
qed

section \<open>Single use\<close>

abbreviation audit_token :: "audit_row \<Rightarrow> string" where
  "audit_token a \<equiv> vtTokenID (auVetting a)"

definition audit_of :: "audit_row \<Rightarrow> token_row \<Rightarrow> bool" where
  "audit_of a w \<longleftrightarrow>
     audit_token a = wID w \<and> auOpType a = wOpType w \<and> auTarget a = wTarget w \<and> auAgentID a = wAgentID w
     \<and> auBeadID a = wBeadID w \<and> wConsumedAt w = Some (auCreatedAt a) \<and> auCreatedAt a < wExpiresAt w"

definition audited :: "token_store \<Rightarrow> bool" where
  "audited st \<longleftrightarrow>
     distinct (map wID (tokens st)) \<and> distinct (map audit_token (audits st))
     \<and> (\<forall>a \<in> set (audits st). \<exists>w \<in> set (tokens st). audit_of a w)
     \<and> (\<forall>w \<in> set (tokens st). wConsumedAt w \<noteq> None \<longrightarrow> (\<exists>a \<in> set (audits st). audit_token a = wID w))"

lemma audited_append:
  assumes "audited st" "tokens st' = tokens st @ [w]" "audits st' = audits st" "wID w \<notin> wID ` set (tokens st)" "fresh_row w"
  shows "audited st'"
  using assms unfolding audited_def fresh_row_def by auto

lemma audited_revoke:
  assumes "audited st"
  shows "audited (st\<lparr>tokens := sql_update P (change_token (MarkRevoked now)) (tokens st)\<rparr>)"
proof -
  let ?rows = "sql_update P (change_token (MarkRevoked now)) (tokens st)"
  have "\<exists>w' \<in> set ?rows. audit_of a w'" if "w \<in> set (tokens st)" "audit_of a w" for a w
  proof
    show "(if P w then change_token (MarkRevoked now) w else w) \<in> set ?rows"
      using that(1) by (simp add: sql_update_def)
  qed (use that(2) in \<open>simp add: audit_of_def\<close>)
  with assms show ?thesis
    by (auto simp: audited_def token_table.keys_update in_sql_update)
qed

lemma consumed_row_change:
  assumes "distinct (map wID rows)" "w \<in> set rows" "consumable (wID w) caller now w"
  shows "set (sql_update (consumable (wID w) caller now) (change_token (MarkConsumed now)) rows)
    = insert (w\<lparr>wConsumedAt := Some now\<rparr>) (set rows - {w})"
proof -
  have iff: "consumable (wID w) caller now x \<longleftrightarrow> x = w" if "x \<in> set rows" for x
  proof
    assume "consumable (wID w) caller now x"
    then have "wID x = wID w" by (simp add: consumable_def)
    with assms(1,2) that show "x = w" by (metis distinct_map inj_onD)
  qed (use assms(3) in simp)
  have "set (sql_update (consumable (wID w) caller now) (change_token (MarkConsumed now)) rows)
    = (\<lambda>x. if x = w then w\<lparr>wConsumedAt := Some now\<rparr> else x) ` set rows"
    unfolding sql_update_def set_map by (rule image_cong) (simp_all add: iff)
  with assms(2) show ?thesis by auto
qed

lemma affected_consumable:
  assumes "distinct (map wID rows)" "w \<in> set rows"
  shows "rows_affected (consumable (wID w) caller now) rows = 1 \<longleftrightarrow> consumable (wID w) caller now w"
proof -
  have "rows_affected (\<lambda>x. wID x = wID w \<and> (wConsumedAt x = None \<and> wRevokedAt x = None \<and> wExpiresAt x > now \<and> wAgentID x = caller)) rows
    = (if wConsumedAt w = None \<and> wRevokedAt w = None \<and> wExpiresAt w > now \<and> wAgentID w = caller then 1 else 0)"
    by (subst token_table.affected_key [OF assms(1)]) (simp add: token_table.first_in_distinct [OF assms])
  then show ?thesis by (simp add: consumable_def [abs_def])
qed

lemma audited_consume:
  assumes "audited st" "lineage (tokens st)" "consumeToken c auditID pub signer str caller op tgt now st = Inr ((t, aid), st')"
  shows "audited st'"
proof -
  obtain w sig sg sa where w: "w \<in> set (tokens st)" "caller = wAgentID w"
    "rows_affected (consumable (wID w) caller now) (tokens st) = 1"
    and tk: "tokens st' = sql_update (consumable (wID w) caller now) (change_token (MarkConsumed now)) (tokens st)"
    and au: "audits st' = audits st @ [\<lparr>auID = auditID, auOpType = wOpType w, auTarget = wTarget w, auAgentID = caller,
        auBeadID = nullIfEmpty (coalesce [] (wBeadID w)), auMode = ''auto'',
        auVetting = \<lparr>vtTokenID = wID w, vtDepth = wDepth w, vtRootToken = nullIfEmpty (coalesce [] (wRootToken w))\<rparr>,
        auCreatedAt = now, auSignature = sg, auSignedAt = sa\<rparr>]" (is "_ = _ @ [?a]")
    using consume_Inr [OF assms(3)] by metis
  have dist: "distinct (map wID (tokens st))" using assms(1) by (simp add: audited_def)
  have con: "consumable (wID w) caller now w" using w affected_consumable [OF dist w(1)] by simp
  have bead: "wBeadID w \<noteq> Some []" using assms(2) w(1) by (auto simp: lineage_def)
  have rows: "set (tokens st') = insert (w\<lparr>wConsumedAt := Some now\<rparr>) (set (tokens st) - {w})"
    unfolding tk by (rule consumed_row_change [OF dist w(1) con])
  have uniq: "x = w" if "x \<in> set (tokens st)" "wID x = wID w" for x
    using dist w(1) that by (auto simp: distinct_map inj_on_def)
  have new: "wID w \<notin> audit_token ` set (audits st)"
  proof
    assume "wID w \<in> audit_token ` set (audits st)"
    then obtain a where a: "a \<in> set (audits st)" "wID w = audit_token a" by blast
    have "\<forall>a \<in> set (audits st). \<exists>w \<in> set (tokens st). audit_of a w" using assms(1) by (simp add: audited_def)
    with a(1) obtain x where x: "x \<in> set (tokens st)" "audit_of a x" by blast
    have "x = w" by (rule uniq [OF x(1)]) (use a(2) x(2) in \<open>simp add: audit_of_def\<close>)
    then show False using x(2) con by (simp add: audit_of_def consumable_def)
  qed
  have old: "\<exists>x \<in> set (tokens st'). audit_of a x" if a: "a \<in> set (audits st)" for a
  proof -
    obtain x where x: "x \<in> set (tokens st)" "audit_of a x" using assms(1) a by (auto simp: audited_def)
    then have "x \<noteq> w" using con by (auto simp: audit_of_def consumable_def)
    with x rows show ?thesis by auto
  qed
  have "audit_of ?a (w\<lparr>wConsumedAt := Some now\<rparr>)"
    using con bead by (simp add: audit_of_def consumable_def nullIfEmpty_coalesce)
  moreover have "distinct (map wID (tokens st'))" using dist by (simp add: tk token_table.keys_update)
  ultimately show ?thesis
    using assms(1) old new rows unfolding audited_def by (auto simp: au)
qed

section \<open>Histories\<close>

inductive token_step :: "crypto \<Rightarrow> token_store \<Rightarrow> token_store \<Rightarrow> bool" for c where
  issue: "newID \<noteq> [] \<Longrightarrow> issueToken c newID priv spec now st = Inr (r, st') \<Longrightarrow> token_step c st st'"
| delegate: "newID \<noteq> [] \<Longrightarrow> DelegateToken c newID priv dspec now st = Inr (r, st') \<Longrightarrow> token_step c st st'"
| consume: "consumeToken c auditID pub signer str caller op tgt now st = Inr (r, st') \<Longrightarrow> token_step c st st'"
| revoke: "RevokeToken tid cascade now st = Inr (n, st') \<Longrightarrow> token_step c st st'"

definition token_reachable :: "crypto \<Rightarrow> token_store \<Rightarrow> bool" where
  "token_reachable c st \<longleftrightarrow> (token_step c)\<^sup>*\<^sup>* \<lparr>tokens = [], audits = []\<rparr> st"

lemma revoke_Inr:
  assumes "RevokeToken tid cascade now st = Inr (n, st')"
  obtains P where "st' = st\<lparr>tokens := sql_update P (change_token (MarkRevoked now)) (tokens st)\<rparr>"
  using assms by (auto simp: RevokeToken_def Let_def sum_bind_Inr_iff split: if_split_asm)

lemma token_step_ok:
  assumes "token_step c st st'" "lineage (tokens st) \<and> audited st"
  shows "lineage (tokens st') \<and> audited st'"
  using assms
proof (induction rule: token_step.induct)
  case (issue newID priv spec now st r st')
  obtain t str where r: "r = (t, str)" by force
  from issue_Inr [OF issue(2) [unfolded r]] show ?case
    using issue(1,3) lineage_issue audited_append issued_row_props by metis
next
  case (delegate newID priv dspec now st r st')
  obtain t str where r: "r = (t, str)" by force
  obtain p w sig where p: "p \<in> set (tokens st)" "wID p = dsParentID dspec" "wAgentID p = dsCallerAgentID dspec"
    and w: "w = child_row (delegated newID dspec (scan_token p) now) sig" "tokens st' = tokens st @ [w]"
      "audits st' = audits st" "newID \<notin> wID ` set (tokens st)" "wID w = newID" "wDepth w \<le> 3" "\<not> blank_agent (wAgentID w)"
    by (rule delegate_Inr [OF delegate(2) [unfolded r]])
  have p': "wBeadID p \<noteq> Some []" "wRootToken p \<noteq> Some []" "wID p \<noteq> []"
    using delegate(3) p(1) lineage_root_id by (auto simp: lineage_def)
  note d = delegated_row [OF w(1,6) p(3) p']
  show ?case
    using lineage_delegate [OF _ p(1) d(1,2)] audited_append [OF _ w(2,3) _ d(2)] delegate(1,3) w(2,4,5,7) by simp
next
  case (consume auditID pub signer str caller op tgt now st r st')
  obtain t aid where r: "r = (t, aid)" by force
  show ?case
    using consume_Inr [OF consume(1) [unfolded r]] consume(2) lineage_update audited_consume [OF _ _ consume(1) [unfolded r]]
    by metis
next
  case (revoke tid cascade now st n st')
  then show ?case by (auto elim!: revoke_Inr simp: lineage_update audited_revoke)
qed

lemma token_reachable_ok:
  assumes "token_reachable c st"
  shows "lineage (tokens st)" "audited st"
proof -
  have "lineage (tokens st) \<and> audited st"
    using assms unfolding token_reachable_def
  proof (induction rule: rtranclp_induct)
    case base
    then show ?case by (simp add: lineage_def audited_def)
  qed (rule token_step_ok)
  then show "lineage (tokens st)" "audited st" by simp_all
qed

end
