(* ===== verification/TokenProps.thy ===== *)
theory TokenProps
  imports TokenSafety
begin

text \<open>
  The promises of the token protocol over its histories: single use, bounded
  delegation, final revocation, and that a token that is issued can be used.
\<close>

section \<open>Sample environment and histories\<close>

text \<open>What the code relies on of Ed25519: sizes, and that a signature verifies.\<close>

definition ed25519_ok :: "crypto \<Rightarrow> bool" where
  "ed25519_ok c \<longleftrightarrow>
     (\<forall>seed m. length seed = 32 \<longrightarrow>
        length (edFromSeed c seed) = 64 \<and> length (edSign c (edFromSeed c seed) m) = 64
        \<and> edVerify c (drop 32 (edFromSeed c seed)) m (edSign c (edFromSeed c seed) m))"

definition toy_crypto :: crypto where
  "toy_crypto = \<lparr>edSign = (\<lambda>priv m. replicate 64 CHR 0x01), edVerify = (\<lambda>pub m sig. sig = replicate 64 CHR 0x01),
     edFromSeed = (\<lambda>seed. seed @ seed), nfc = (\<lambda>s. s), ulidParses = (\<lambda>s. length s = 2),
     vettingJSON = (\<lambda>v. ''{}'')\<rparr>"

definition toy_priv :: string where
  "toy_priv = replicate 64 CHR ''k''"

definition sample_issue :: issue_spec where
  "sample_issue = \<lparr>isOpType = ''push'', isTarget = ''main'', isAgentID = ''ann'', isBeadID = [],
     isIssuedBy = ''user'', isTTL = 60000000000\<rparr>"

definition sample_delegate :: delegate_spec where
  "sample_delegate = \<lparr>dsParentID = ''T1'', dsCallerAgentID = ''ann'', dsToAgentID = ''bob'', dsRequestedTTL = 5000000000\<rparr>"

definition store0 :: token_store where "store0 = \<lparr>tokens = [], audits = []\<rparr>"

abbreviation toy_token :: "string \<Rightarrow> string" where
  "toy_token tid \<equiv> EncodeTokenString tid (replicate 64 CHR 0x01)"

definition row1 :: token_row where
  "row1 = issued_row (issued ''T1'' sample_issue 100) (replicate 64 CHR 0x01)"

definition row2 :: token_row where
  "row2 = child_row (delegated ''T2'' sample_delegate (scan_token row1) 110) (replicate 64 CHR 0x01)"

lemma ed25519_toy [simp]: "ed25519_ok toy_crypto"
  by (simp add: ed25519_ok_def toy_crypto_def)

lemma issue_sample:
  "issueToken toy_crypto ''T1'' toy_priv sample_issue 100 store0
     = Inr (((issued ''T1'' sample_issue 100)\<lparr>tSignature := replicate 64 CHR 0x01\<rparr>, toy_token ''T1''),
            \<lparr>tokens = [row1], audits = []\<rparr>)"
  by code_simp

lemma delegate_sample:
  "DelegateToken toy_crypto ''T2'' toy_priv sample_delegate 110 \<lparr>tokens = [row1], audits = []\<rparr>
     = Inr (((delegated ''T2'' sample_delegate (scan_token row1) 110)\<lparr>tSignature := replicate 64 CHR 0x01\<rparr>, toy_token ''T2''),
            \<lparr>tokens = [row1, row2], audits = []\<rparr>)"
  by code_simp

lemma sample_tokens_reachable:
  "token_reachable toy_crypto \<lparr>tokens = [row1], audits = []\<rparr>"
  "token_reachable toy_crypto \<lparr>tokens = [row1, row2], audits = []\<rparr>"
proof -
  have "token_step toy_crypto store0 \<lparr>tokens = [row1], audits = []\<rparr>"
    by (rule token_step.issue [OF _ issue_sample]) simp
  then show one: "token_reachable toy_crypto \<lparr>tokens = [row1], audits = []\<rparr>"
    by (simp add: token_reachable_def store0_def)
  have "token_step toy_crypto \<lparr>tokens = [row1], audits = []\<rparr> \<lparr>tokens = [row1, row2], audits = []\<rparr>"
    by (rule token_step.delegate [OF _ delegate_sample]) simp
  with one show "token_reachable toy_crypto \<lparr>tokens = [row1, row2], audits = []\<rparr>"
    by (simp add: token_reachable_def)
qed

lemma parse_toy: "ParseTokenString toy_crypto (toy_token ''T1'') = Inr (''T1'', replicate 64 CHR 0x01)"
  "ParseTokenString toy_crypto (toy_token ''T2'') = Inr (''T2'', replicate 64 CHR 0x01)"
  by (simp_all add: ParseTokenString_Encode toy_crypto_def)

section \<open>Single use\<close>

text \<open>
  C16. In every history of the store a token authorizes at most one operation:
  no two authorization rows come from one token, each agrees with its token on
  operation, target, agent and bead and was written before the token expired,
  and a token is marked consumed exactly when it has such a row.
\<close>
theorem tokens_single_use:
  assumes "token_reachable c st"
  shows "distinct (map audit_token (audits st))
    \<and> (\<forall>a. a \<in> set (audits st) \<longrightarrow> (\<exists>w \<in> set (tokens st). audit_of a w))
    \<and> (\<forall>w. w \<in> set (tokens st) \<longrightarrow>
         (wConsumedAt w \<noteq> None \<longleftrightarrow> (\<exists>a \<in> set (audits st). audit_token a = wID w)))"
proof -
  have A: "audited st" by (rule token_reachable_ok [OF assms])
  have inj: "x = w" if "x \<in> set (tokens st)" "w \<in> set (tokens st)" "wID x = wID w" for x w
    using A that by (metis audited_def distinct_map inj_onD)
  have "wConsumedAt w \<noteq> None" if w: "w \<in> set (tokens st)" and a: "a \<in> set (audits st)" "audit_token a = wID w" for w a
  proof -
    obtain x where x: "x \<in> set (tokens st)" "audit_of a x" using A a(1) unfolding audited_def by blast
    have "x = w" by (rule inj [OF x(1) w]) (use a(2) x(2) in \<open>simp add: audit_of_def\<close>)
    with x(2) show ?thesis by (simp add: audit_of_def)
  qed
  moreover have "distinct (map audit_token (audits st))" "\<forall>a \<in> set (audits st). \<exists>w \<in> set (tokens st). audit_of a w"
    "\<forall>w \<in> set (tokens st). wConsumedAt w \<noteq> None \<longrightarrow> (\<exists>a \<in> set (audits st). audit_token a = wID w)"
    using A by (simp_all add: audited_def)
  ultimately show ?thesis by metis
qed

lemma consume_sample:
  "\<exists>r st. consumeToken toy_crypto ''A1'' (replicate 32 CHR ''k'') [] (toy_token ''T1'') ''ann'' [] [] 120
     \<lparr>tokens = [row1, row2], audits = []\<rparr> = Inr (r, st) \<and> map audit_token (audits st) = [''T1'']"
proof -
  have "(case consumeToken toy_crypto ''A1'' (replicate 32 CHR ''k'') [] (toy_token ''T1'') ''ann'' [] [] 120
     \<lparr>tokens = [row1, row2], audits = []\<rparr> of Inl _ \<Rightarrow> False | Inr (r, st) \<Rightarrow> map audit_token (audits st) = [''T1''])"
    by code_simp
  then show ?thesis by (auto split: sum.split_asm prod.split_asm)
qed

lemma tokens_single_use_witness:
  "\<exists>st :: token_store. map audit_token (audits st) = [''T1''] \<and> distinct (map audit_token (audits st))"
proof -
  obtain r st where st: "consumeToken toy_crypto ''A1'' (replicate 32 CHR ''k'') [] (toy_token ''T1'') ''ann'' [] [] 120
     \<lparr>tokens = [row1, row2], audits = []\<rparr> = Inr (r, st)" "map audit_token (audits st) = [''T1'']"
    using consume_sample by (elim exE conjE)
  have "token_reachable toy_crypto st"
    using sample_tokens_reachable(2) token_step.consume [OF st(1)] by (auto simp: token_reachable_def)
  from tokens_single_use [OF this] st(2) show ?thesis by (intro exI [of _ st]) simp
qed

section \<open>Delegation\<close>

text \<open>
  C18. Delegation never widens: in every history each token is a root of depth
  zero, or it was delegated by the agent its parent names, with the parent's
  operation, target and bead, no later expiry and one step deeper, at most
  three deep; and its recorded root is a root token with the same scope and no
  earlier expiry.
\<close>
theorem delegation_never_widens:
  assumes "token_reachable c st" "w \<in> set (tokens st)"
  shows "root_row w \<or>
    (\<exists>p \<in> set (tokens st). \<exists>q \<in> set (tokens st). delegated_from p w \<and> from_root q w)"
  using token_reachable_ok(1) [OF assms(1)] assms(2) by (simp add: lineage_def)

lemma delegation_never_widens_witness:
  "row2 \<in> set [row1, row2] \<and> (root_row row2 \<or> (\<exists>p \<in> set [row1, row2]. \<exists>q \<in> set [row1, row2]. delegated_from p row2 \<and> from_root q row2))"
  using delegation_never_widens [OF sample_tokens_reachable(2), of row2] by simp

section \<open>Revocation\<close>

definition parent_of :: "token_row list \<Rightarrow> (string \<times> string) set" where
  "parent_of rows = {(x, y). \<exists>w \<in> set rows. wID w = x \<and> wParentToken w = Some y}"

definition dead :: "token_row list \<Rightarrow> string \<Rightarrow> bool" where
  "dead rows i \<longleftrightarrow> i \<in> wID ` set rows \<and> (\<forall>w \<in> set rows. wID w = i \<longrightarrow> wRevokedAt w \<noteq> None)"

lemma dead_append: "dead rows i \<Longrightarrow> wID w \<notin> wID ` set rows \<Longrightarrow> dead (rows @ [w]) i"
  by (auto simp: dead_def)

lemma ids_update: "wID ` set (sql_update P (change_token ch) rows) = wID ` set rows"
  by (metis token_table.keys_update list.set_map)

lemma dead_update: "dead rows i \<Longrightarrow> dead (sql_update P (change_token ch) rows) i"
proof -
  assume d: "dead rows i"
  note ids_update [of P ch rows]
  moreover have "wRevokedAt w \<noteq> None" if w: "w \<in> set (sql_update P (change_token ch) rows)" "wID w = i" for w
  proof -
    obtain x where x: "x \<in> set rows" "w = (if P x then change_token ch x else x)" using w(1) by (auto simp: sql_update_def)
    then have "wID x = i" using w(2) token_table.key_change by (metis (full_types))
    then have "wRevokedAt x \<noteq> None" using d x(1) by (simp add: dead_def)
    then show ?thesis using x(2) by (cases ch) auto
  qed
  ultimately show ?thesis using d by (simp add: dead_def)
qed

lemma dead_step:
  assumes "token_step c st st'" "dead (tokens st) i"
  shows "dead (tokens st') i"
  using assms
proof (induction rule: token_step.induct)
  case (issue newID priv spec now st r st')
  obtain t str where r: "r = (t, str)" by force
  from issue_Inr [OF issue(2) [unfolded r]] show ?case using issue(3) dead_append by metis
next
  case (delegate newID priv dspec now st r st')
  obtain t str where r: "r = (t, str)" by force
  from delegate_Inr [OF delegate(2) [unfolded r]] show ?case using delegate(3) dead_append by metis
next
  case (consume auditID pub signer str caller op tgt now st r st')
  obtain t aid where r: "r = (t, aid)" by force
  from consume_Inr [OF consume(1) [unfolded r]] show ?case using consume(2) dead_update by metis
next
  case (revoke tid cascade now st n st')
  then show ?case by (auto elim!: revoke_Inr simp: dead_update)
qed

lemma dead_steps: "(token_step c)\<^sup>*\<^sup>* st st' \<Longrightarrow> dead (tokens st) i \<Longrightarrow> dead (tokens st') i"
  by (induction rule: rtranclp_induct) (auto intro: dead_step)

lemma consume_affects:
  assumes "consumeToken c auditID pub signer str caller op tgt now st = Inr ((t, aid), st')"
  shows "\<exists>(w :: token_row) sig. ParseTokenString c str = Inr (wID w, sig) \<and> rows_affected (consumable (wID w) caller now) (tokens st) = 1"
  by (rule consume_Inr [OF assms]) blast

lemma dead_not_consumed:
  assumes "dead (tokens st) i" "ParseTokenString c str = Inr (i, sig)"
  shows "\<exists>e. consumeToken c auditID pub signer str caller op tgt now st = Inl e"
proof (cases "consumeToken c auditID pub signer str caller op tgt now st")
  case (Inr r)
  obtain t aid st' where r: "r = ((t, aid), st')" by (metis prod.exhaust)
  obtain w :: token_row and sig' where w: "ParseTokenString c str = Inr (wID w, sig')"
    "rows_affected (consumable (wID w) caller now) (tokens st) = 1"
    using consume_affects [OF Inr [unfolded r]] by blast
  then have "rows_affected (consumable i caller now) (tokens st) \<noteq> 0" using assms(2) by simp
  then obtain x where "x \<in> set (tokens st)" "consumable i caller now x" by (auto simp: rows_affected_zero)
  then show ?thesis using assms(1) by (auto simp: dead_def consumable_def)
qed blast

lemma descendant_root:
  assumes lin: "lineage rows" and dist: "distinct (map wID rows)" and q: "q \<in> set rows" "root_row q"
    and path: "(d, wID q) \<in> (parent_of rows)\<^sup>*" and w: "w \<in> set rows" "wID w = d"
  shows "wID w = wID q \<or> wRootToken w = Some (wID q)"
  using path w
proof (induction arbitrary: w rule: converse_rtrancl_induct)
  case base
  then show ?case by simp
next
  case (step d y)
  have same: "x = x'" if "x \<in> set rows" "x' \<in> set rows" "wID x = wID x'" for x x'
    using dist that by (metis distinct_map inj_onD)
  obtain w0 where "w0 \<in> set rows" "wID w0 = d" "wParentToken w0 = Some y"
    using step(1) by (auto simp: parent_of_def)
  then have par: "wParentToken w = Some y" using same [of w w0] step.prems by simp
  then have "\<not> root_row w" by (simp add: root_row_def)
  then obtain p where p: "p \<in> set rows" "delegated_from p w" using lin step.prems(1) by (auto simp: lineage_def)
  then have "wID p = y" using par by (simp add: delegated_from_def)
  from step.IH [OF p(1) this] show ?case
  proof
    assume "wID p = wID q"
    then have "p = q" using same p(1) q(1) by blast
    then show ?thesis using p(2) q(2) by (simp add: delegated_from_def root_row_def coalesce_def)
  next
    assume "wRootToken p = Some (wID q)"
    then show ?thesis using p(2) by (simp add: delegated_from_def coalesce_def)
  qed
qed

lemma cascade_Inr:
  assumes "RevokeToken rid True now st = Inr (n, st')"
  obtains q where "q \<in> set (tokens st)" "wID q = rid" "wParentToken q = None \<or> wParentToken q = Some []" "coalesce [] (wRootToken q) = []"
    "st' = st\<lparr>tokens := sql_update (\<lambda>w. (wID w = rid \<or> wRootToken w = Some rid) \<and> wRevokedAt w = None)
        (change_token (MarkRevoked now)) (tokens st)\<rparr>"
proof -
  from assms obtain target where get: "GetToken (tokens st) rid = Inr target" and tgt: "tParentToken target = []" "tRootToken target = []"
    and st': "st' = st\<lparr>tokens := sql_update (\<lambda>w. (wID w = rid \<or> wRootToken w = Some rid) \<and> wRevokedAt w = None)
        (change_token (MarkRevoked now)) (tokens st)\<rparr>"
    by (auto simp: RevokeToken_def sum_bind_Inr_iff Let_def split: if_split_asm)
  obtain q where "q \<in> set (tokens st)" "wID q = rid" "target = scan_token q" by (rule GetToken_Inr [OF get]) blast
  with tgt st' that show ?thesis by (auto simp: scan_token_def coalesce_def split: option.splits)
qed

text \<open>
  C17. A cascade revocation of a root token is final for the whole tree under it:
  whatever the store does afterwards, no token that descended from that root
  when it was revoked can be consumed any more, by anyone, signed or not.
\<close>
theorem cascade_revocation_final:
  assumes "token_reachable c st" "RevokeToken rid True now st = Inr (n, st')"
    and "d \<in> wID ` set (tokens st)" "(d, rid) \<in> (parent_of (tokens st))\<^sup>*"
    and "(token_step c)\<^sup>*\<^sup>* st' st''" "ParseTokenString c str = Inr (d, sig)"
  shows "\<exists>e. consumeToken c auditID pub signer str caller op tgt later st'' = Inl e"
proof -
  have lin: "lineage (tokens st)" and dist: "distinct (map wID (tokens st))"
    using token_reachable_ok [OF assms(1)] by (simp_all add: audited_def)
  obtain q where q: "q \<in> set (tokens st)" "wID q = rid" "coalesce [] (wRootToken q) = []"
    and st': "st' = st\<lparr>tokens := sql_update (\<lambda>w. (wID w = rid \<or> wRootToken w = Some rid) \<and> wRevokedAt w = None)
        (change_token (MarkRevoked now)) (tokens st)\<rparr>"
    by (rule cascade_Inr [OF assms(2)])
  have "wRootToken q = None" using q(3) lineage_root_id [OF lin q(1)] by (auto simp: coalesce_def split: option.splits)
  then have root: "root_row q" using lin q(1) by (auto simp: lineage_def from_root_def)
  have "wID w = rid \<or> wRootToken w = Some rid" if "w \<in> set (tokens st)" "wID w = d" for w
    using descendant_root [OF lin dist q(1) root _ that] assms(4) q(2) by simp
  then have "dead (tokens st') d"
    using assms(3) unfolding dead_def st' by (auto simp: ids_update in_sql_update)
  from dead_not_consumed [OF dead_steps [OF assms(5) this] assms(6)] show ?thesis .
qed

definition revoked_store :: token_store where
  "revoked_store = \<lparr>tokens = [row1\<lparr>wRevokedAt := Some 115\<rparr>, row2\<lparr>wRevokedAt := Some 115\<rparr>], audits = []\<rparr>"

lemma revoke_sample:
  "RevokeToken ''T1'' True 115 \<lparr>tokens = [row1, row2], audits = []\<rparr> = Inr (2, revoked_store)"
  by code_simp

lemma cascade_revocation_final_witness:
  "\<exists>e. consumeToken toy_crypto ''A1'' (replicate 32 CHR ''k'') [] (toy_token ''T2'') ''bob'' [] [] 120 revoked_store = Inl e"
proof -
  have ids: "wID row1 = ''T1''" "wID row2 = ''T2''" "wParentToken row2 = Some ''T1''" by code_simp+
  then have "(''T2'', ''T1'') \<in> parent_of [row1, row2]" by (auto simp: parent_of_def)
  then have path: "(''T2'', ''T1'') \<in> (parent_of (tokens \<lparr>tokens = [row1, row2], audits = []\<rparr>))\<^sup>*" by simp
  show ?thesis
    by (rule cascade_revocation_final [OF sample_tokens_reachable(2) revoke_sample _ path rtranclp.rtrancl_refl parse_toy(2)])
      (simp add: ids)
qed

text \<open>
  What revocation does not reach: delegation does not look at the parent's
  revocation (or consumption), so the holder of a token revoked with its whole
  tree can still delegate it, and the new token, which no one revoked, is
  consumed successfully.
\<close>
lemma revoked_token_still_delegates:
  "RevokeToken ''T1'' True 115 \<lparr>tokens = [row1, row2], audits = []\<rparr> = Inr (2, revoked_store)
   \<and> (case DelegateToken toy_crypto ''T3'' toy_priv sample_delegate 116 revoked_store of
        Inl _ \<Rightarrow> False
      | Inr ((t, str), st) \<Rightarrow>
          (case ConsumeToken toy_crypto ''A1'' (replicate 32 CHR ''k'') str ''bob'' ''push'' ''main'' 117 st of
             Inl _ \<Rightarrow> False
           | Inr (t', st') \<Rightarrow> tRootToken t' = ''T1'' \<and> map auTarget (audits st') = [''main'']))"
proof (rule conjI [OF revoke_sample])
  show "case DelegateToken toy_crypto ''T3'' toy_priv sample_delegate 116 revoked_store of
        Inl _ \<Rightarrow> False
      | Inr ((t, str), st) \<Rightarrow>
          (case ConsumeToken toy_crypto ''A1'' (replicate 32 CHR ''k'') str ''bob'' ''push'' ''main'' 117 st of
             Inl _ \<Rightarrow> False
           | Inr (t', st') \<Rightarrow> tRootToken t' = ''T1'' \<and> map auTarget (audits st') = [''main''])"
    by code_simp
qed

section \<open>Consumption decides\<close>

definition consumption_audit :: "string \<Rightarrow> token_row \<Rightarrow> int \<Rightarrow> audit_row" where
  "consumption_audit auditID w now =
     \<lparr>auID = auditID, auOpType = wOpType w, auTarget = wTarget w, auAgentID = wAgentID w, auBeadID = wBeadID w,
      auMode = ''auto'', auVetting = \<lparr>vtTokenID = wID w, vtDepth = wDepth w, vtRootToken = wRootToken w\<rparr>,
      auCreatedAt = now, auSignature = None, auSignedAt = None\<rparr>"

lemma consume_outcome:
  assumes "token_reachable c st" "w \<in> set (tokens st)" "ParseTokenString c str = Inr (wID w, sig)"
    and "VerifyToken c pub (scan_token w) sig" "0 < now" "op = [] \<or> op = wOpType w" "tgt = [] \<or> tgt = wTarget w"
    and "auditID \<in> auID ` set (audits st) \<Longrightarrow> wRevokedAt w \<noteq> None \<or> wConsumedAt w \<noteq> None \<or> wExpiresAt w \<le> now"
  shows "ConsumeToken c auditID pub str (wAgentID w) op tgt now st
    = (if wRevokedAt w \<noteq> None then Inl ErrRevoked
       else if wConsumedAt w \<noteq> None then Inl ErrAlreadyConsumed
       else if wExpiresAt w \<le> now then Inl ErrExpired
       else Inr ((scan_token w)\<lparr>tConsumedAt := now\<rparr>,
                 \<lparr>tokens = map (\<lambda>x. if wID x = wID w then x\<lparr>wConsumedAt := Some now\<rparr> else x) (tokens st),
                  audits = audits st @ [consumption_audit auditID w now]\<rparr>))"
proof -
  have lin: "lineage (tokens st)" and dist: "distinct (map wID (tokens st))"
    using token_reachable_ok [OF assms(1)] by (simp_all add: audited_def)
  have w: "wID w \<noteq> []" "wBeadID w \<noteq> Some []" "\<not> blank_agent (wAgentID w)" "wRootToken w \<noteq> Some []"
    using lin assms(2) lineage_root_id [OF lin assms(2)] by (auto simp: lineage_def)
  then have ag: "wAgentID w \<noteq> []" by (auto simp: blank_agent_def)
  have first: "sql_first (\<lambda>x. wID x = wID w) (tokens st) = Some w"
    by (rule token_table.first_in_distinct [OF dist assms(2)])
  have get: "GetToken (tokens st) (wID w) = Inr (scan_token w)" using first w(1) by (simp add: GetToken_def)
  have scan: "tID (scan_token w) = wID w" "tAgentID (scan_token w) = wAgentID w" "tOpType (scan_token w) = wOpType w"
    "tTarget (scan_token w) = wTarget w" "tDepth (scan_token w) = wDepth w"
    "nullIfEmpty (tRootToken (scan_token w)) = wRootToken w" "nullIfEmpty (tBeadID (scan_token w)) = wBeadID w"
    using w by (simp_all add: scan_token_def nullIfEmpty_coalesce)
  have claim: "consumeToken c auditID pub [] str (wAgentID w) op tgt now st
      = claim_token c auditID pub [] (scan_token w) (wID w) (wAgentID w) now st"
    using assms(3-7) ag get by (auto simp: consumeToken_def scan)
  note aff = affected_consumable [OF dist assms(2), of "wAgentID w" now]
  show ?thesis
  proof (cases "consumable (wID w) (wAgentID w) now w")
    case False
    with aff first show ?thesis
      by (auto simp: ConsumeToken_def claim claim_token_def classifyConsumeFailure_def consumable_def)
  next
    case True
    have "consumable (wID w) (wAgentID w) now x \<longleftrightarrow> wID x = wID w" if "x \<in> set (tokens st)" for x
      using True that assms(2) dist by (metis consumable_def distinct_map inj_onD)
    then have "sql_update (consumable (wID w) (wAgentID w) now) (change_token (MarkConsumed now)) (tokens st)
        = map (\<lambda>x. if wID x = wID w then x\<lparr>wConsumedAt := Some now\<rparr> else x) (tokens st)"
      unfolding sql_update_def by (intro map_cong) auto
    with True aff assms(8) w(3) show ?thesis
      by (auto simp: ConsumeToken_def claim claim_token_def sign_audit_def insert_audit_def consumption_audit_def
          scan consumable_def)
  qed
qed

text \<open>
  The outcome of consuming a validly signed token by the agent it names:
  revoked beats consumed beats expired (exit codes 4, 2, 2), and otherwise it
  succeeds, marks exactly that token consumed and appends one authorization row
  for the token's own operation and target.
\<close>
lemma ConsumeToken_outcome:
  assumes "token_reachable c st" "w \<in> set (tokens st)" "ParseTokenString c str = Inr (wID w, sig)"
    and "VerifyToken c pub (scan_token w) sig" "0 < now" "op = [] \<or> op = wOpType w" "tgt = [] \<or> tgt = wTarget w"
    and "auditID \<notin> auID ` set (audits st)"
  shows "ConsumeToken c auditID pub str (wAgentID w) op tgt now st
    = (if wRevokedAt w \<noteq> None then Inl ErrRevoked
       else if wConsumedAt w \<noteq> None then Inl ErrAlreadyConsumed
       else if wExpiresAt w \<le> now then Inl ErrExpired
       else Inr ((scan_token w)\<lparr>tConsumedAt := now\<rparr>,
                 \<lparr>tokens = map (\<lambda>x. if wID x = wID w then x\<lparr>wConsumedAt := Some now\<rparr> else x) (tokens st),
                  audits = audits st @ [consumption_audit auditID w now]\<rparr>))
    \<and> ExitCode (Some ErrRevoked) = 4 \<and> ExitCode (Some ErrAlreadyConsumed) = 2 \<and> ExitCode (Some ErrExpired) = 2"
proof (rule conjI)
  show "ExitCode (Some ErrRevoked) = 4 \<and> ExitCode (Some ErrAlreadyConsumed) = 2 \<and> ExitCode (Some ErrExpired) = 2"
    by (simp add: ExitCode_def)
qed (rule consume_outcome [OF assms(1-7)], use assms(8) in simp)

lemma verify_toy: "VerifyToken toy_crypto (replicate 32 CHR ''k'') (scan_token row1) (replicate 64 CHR 0x01)"
  by code_simp

lemma ConsumeToken_outcome_witness:
  "ConsumeToken toy_crypto ''A1'' (replicate 32 CHR ''k'') (toy_token ''T1'') (wAgentID row1) ''push'' [] 500
     \<lparr>tokens = [row1, row2], audits = []\<rparr> = Inl ErrExpired"
proof -
  have r: "wID row1 = ''T1''" "wOpType row1 = ''push''" "wRevokedAt row1 = None" "wConsumedAt row1 = None" "wExpiresAt row1 = 160"
    by code_simp+
  have parse: "ParseTokenString toy_crypto (toy_token ''T1'') = Inr (wID row1, replicate 64 CHR 0x01)"
    using parse_toy(1) by (simp only: r)
  from ConsumeToken_outcome [OF sample_tokens_reachable(2) _ parse verify_toy, of 500 "''push''" "[]" "''A1''"]
  show ?thesis by (simp add: r)
qed

section \<open>Issued tokens can be used once\<close>

lemma verify_issued:
  assumes "ed25519_ok c" "SignToken c priv (issued newID spec now) = Inr sig"
  shows "VerifyToken c (drop 32 priv) (scan_token (issued_row (issued newID spec now) sig)) sig" "length sig = 64"
proof -
  let ?t = "issued newID spec now" and ?u = "scan_token (issued_row (issued newID spec now) sig)"
  have "token_fieldBytes c ?u = token_fieldBytes c ?t"
    by (rule ext) (simp add: token_fieldBytes_def scan_token_def issued_row_def issued_def coalesce_def nullIfEmpty_def)
  then have pay: "CanonicalTokenPayload c ?u = CanonicalTokenPayload c ?t" by (simp add: CanonicalTokenPayload_def)
  from assms(2) obtain p where p: "CanonicalTokenPayload c ?t = Some p" "length priv = 64" "priv = edFromSeed c (take 32 priv)"
    "sig = edSign c priv p"
    by (auto simp: SignToken_def sign_payload_def validatePrivateKey_def Let_def split: if_split_asm option.split_asm)
  have seed: "length (take 32 priv) = 32" using p(2) by simp
  from assms(1) seed p(3) have "length (edSign c priv p) = 64 \<and> edVerify c (drop 32 priv) p (edSign c priv p)"
    unfolding ed25519_ok_def by metis
  with p(1,2,4) show "VerifyToken c (drop 32 priv) ?u sig" "length sig = 64"
    unfolding VerifyToken_def verify_payload_def pay by simp_all
qed

text \<open>
  A token that is issued can be used: before it expires, the named agent
  presenting the returned string under the issuer's public key consumes it, for
  the operation and target it was issued for; presenting it once more is refused
  as already consumed.
\<close>
lemma issue_then_consume:
  assumes "ed25519_ok c" "token_reachable c st" "newID \<noteq> []" "ulidParses c newID" "CHR ''.'' \<notin> set newID"
    and "issueToken c newID priv spec now st = Inr ((t, str), st')"
    and "0 < now'" "now' < tExpiresAt t" "auditID \<notin> auID ` set (audits st)"
  shows "\<exists>t' st''. ConsumeToken c auditID (drop 32 priv) str (isAgentID spec) (isOpType spec) (isTarget spec) now' st' = Inr (t', st'')
    \<and> tID t' = newID
    \<and> ConsumeToken c auditID2 (drop 32 priv) str (isAgentID spec) [] [] now' st'' = Inl ErrAlreadyConsumed"
proof -
  obtain sig w where w: "w = issued_row (issued newID spec now) sig" and st': "tokens st' = tokens st @ [w]"
    "audits st' = audits st" "newID \<notin> wID ` set (tokens st)" "wID w = newID"
    and sig: "SignToken c priv (issued newID spec now) = Inr sig" and str: "str = EncodeTokenString newID sig"
    and t: "t = (issued newID spec now)\<lparr>tSignature := sig\<rparr>"
    using issue_Inr [OF assms(6)] by metis
  have r: "token_reachable c st'"
    using assms(2) token_step.issue [OF assms(3,6)] by (auto simp: token_reachable_def)
  note ver = verify_issued [OF assms(1) sig]
  have parse: "ParseTokenString c str = Inr (wID w, sig)"
    using ParseTokenString_Encode [OF assms(4,5) ver(2)] str st'(4) by simp
  have f: "wAgentID w = isAgentID spec" "wOpType w = isOpType spec" "wTarget w = isTarget spec"
    "wRevokedAt w = None" "wConsumedAt w = None" "now' < wExpiresAt w"
    using assms(8) by (simp_all add: w t issued_row_def issued_def)
  let ?w = "w\<lparr>wConsumedAt := Some now'\<rparr>"
  let ?st = "\<lparr>tokens = map (\<lambda>x. if wID x = wID w then x\<lparr>wConsumedAt := Some now'\<rparr> else x) (tokens st'),
              audits = audits st' @ [consumption_audit auditID w now']\<rparr>"
  have use: "ConsumeToken c auditID (drop 32 priv) str (isAgentID spec) (isOpType spec) (isTarget spec) now' st'
      = Inr ((scan_token w)\<lparr>tConsumedAt := now'\<rparr>, ?st)"
    using consume_outcome [OF r _ parse ver(1) [folded w] assms(7), of "isOpType spec" "isTarget spec" auditID] f st'(1,2) assms(9)
    by simp
  obtain x where "consumeToken c auditID (drop 32 priv) [] str (isAgentID spec) (isOpType spec) (isTarget spec) now' st' = Inr (x, ?st)"
    using use by (auto simp: ConsumeToken_def sum_bind_Inr_iff)
  from token_step.consume [OF this] r have r': "token_reachable c ?st" by (auto simp: token_reachable_def)
  have scan: "CanonicalTokenPayload c (scan_token ?w) = CanonicalTokenPayload c (scan_token w)"
  proof -
    have "token_fieldBytes c (scan_token ?w) = token_fieldBytes c (scan_token w)"
      by (rule ext) (simp add: token_fieldBytes_def scan_token_def)
    then show ?thesis by (simp only: CanonicalTokenPayload_def)
  qed
  have "ConsumeToken c auditID2 (drop 32 priv) str (wAgentID ?w) [] [] now' ?st = Inl ErrAlreadyConsumed"
    using consume_outcome [OF r', of ?w str sig "drop 32 priv" now' "[]" "[]" auditID2] parse ver(1) assms(7) st'(1) f
    by (simp add: VerifyToken_def scan w [symmetric])
  with use f show ?thesis using st'(4) by (auto simp: scan_token_def)
qed

lemma issue_then_consume_witness:
  "\<exists>t' st''. ConsumeToken toy_crypto ''A1'' (drop 32 toy_priv) (toy_token ''T1'') ''ann'' ''push'' ''main'' 120
     \<lparr>tokens = [row1], audits = []\<rparr> = Inr (t', st'') \<and> tID t' = ''T1''"
proof -
  have exp: "tExpiresAt ((issued ''T1'' sample_issue 100)\<lparr>tSignature := replicate 64 CHR 0x01\<rparr>) = 160" by code_simp
  have "token_reachable toy_crypto store0" by (simp add: token_reachable_def store0_def)
  from issue_then_consume [OF ed25519_toy this _ _ _ issue_sample, of 120 "''A1''" "''A2''"]
  show ?thesis unfolding exp by (auto simp: toy_crypto_def store0_def sample_issue_def)
qed

lemma payload_binds_fields_witness:
  "tExpiresAt (scan_token row1) = tExpiresAt (issued ''T1'' sample_issue 100)
   \<and> CanonicalTokenPayload toy_crypto (scan_token row1) \<noteq> None"
proof -
  obtain p where p: "CanonicalTokenPayload toy_crypto (scan_token row1) = Some p"
    "CanonicalTokenPayload toy_crypto (issued ''T1'' sample_issue 100) = Some p"
  proof -
    have "CanonicalTokenPayload toy_crypto (scan_token row1) = CanonicalTokenPayload toy_crypto (issued ''T1'' sample_issue 100)"
      "CanonicalTokenPayload toy_crypto (scan_token row1) \<noteq> None" by code_simp+
    with that show thesis by auto
  qed
  from payload_binds_fields [OF this] p(1) show ?thesis by simp
qed

end
