(* ===== verification/Policy.thy ===== *)
theory Policy
  imports Prelude "HOL-Library.AList"
begin

text \<open>
  Authorization policies: the policy document (\<^verbatim>\<open>pkg/authz/policy.go\<close>), the merge
  of policy layers (\<^verbatim>\<open>merge.go\<close>), the decision (\<^verbatim>\<open>evaluator.go\<close>) and the
  human-delegation ceiling (\<^verbatim>\<open>pkg/autonomy\<close>). A YAML map is the association
  list of its entries in the order a \<^verbatim>\<open>range\<close> visits them. Times and durations
  are integers of nanoseconds; a zero time is \<open>None\<close>.
\<close>

section \<open>Policies\<close>

definition ModeAuto :: string where [const_defs]: "ModeAuto = ''auto''"
definition ModeConfirm :: string where [const_defs]: "ModeConfirm = ''confirm''"
definition ModeBlock :: string where [const_defs]: "ModeBlock = ''block''"
definition ModeForceAuto :: string where [const_defs]: "ModeForceAuto = ''force_auto''"

lemma modes_distinct [simp]:
  "ModeAuto \<noteq> ModeConfirm" "ModeAuto \<noteq> ModeBlock" "ModeAuto \<noteq> ModeForceAuto" "ModeConfirm \<noteq> ModeBlock"
  "ModeConfirm \<noteq> ModeForceAuto" "ModeBlock \<noteq> ModeForceAuto" "ModeConfirm \<noteq> ModeAuto" "ModeBlock \<noteq> ModeAuto"
  "ModeForceAuto \<noteq> ModeAuto" "ModeBlock \<noteq> ModeConfirm" "ModeForceAuto \<noteq> ModeConfirm" "ModeForceAuto \<noteq> ModeBlock"
  by (simp_all add: const_defs)

text \<open>
  The dynamic types the code tells apart. \<open>YFloat n\<close> is a float whose conversion
  to \<^verbatim>\<open>int\<close> gives \<open>n\<close>.
\<close>

datatype yaml_value = YInt int | YFloat int | YBool bool | YOther

type_synonym requires_map = "(string \<times> yaml_value) list"

record policy_rule =
  plOp :: string
  plMode :: string
  plRequires :: requires_map
  plAllowOverride :: bool

record policy =
  pVersion :: int
  pRules :: "policy_rule list"

definition isValidMode :: "string \<Rightarrow> bool" where
  "isValidMode mode \<longleftrightarrow> mode \<in> {ModeAuto, ModeConfirm, ModeBlock, ModeForceAuto}"

fun asInt :: "yaml_value \<Rightarrow> int option" where
  "asInt (YInt n) = Some n"
| "asInt (YFloat n) = Some n"
| "asInt _ = None"

fun asBool :: "yaml_value \<Rightarrow> bool option" where
  "asBool (YBool b) = Some b"
| "asBool _ = None"

section \<open>Merging layers\<close>

datatype merge_error =
    EmptyOp
  | InvalidMode string string
  | CannotRelaxMode string string string
  | CannotRemoveBoolean string
  | CannotRelaxBoolean string

definition validateModeTransition :: "policy_rule \<Rightarrow> policy_rule \<Rightarrow> merge_error option" where
  "validateModeTransition base ovr =
     (if plAllowOverride base then None
      else if (plMode base = ModeConfirm \<or> plMode base = ModeBlock)
              \<and> (plMode ovr = ModeAuto \<or> plMode ovr = ModeForceAuto)
        then Some (CannotRelaxMode (plOp base) (plMode base) (plMode ovr))
      else None)"

fun merge_dropped :: "bool \<Rightarrow> requires_map \<Rightarrow> requires_map \<Rightarrow> requires_map \<Rightarrow> merge_error + requires_map" where
  "merge_dropped allow ovr [] out = Inr out"
| "merge_dropped allow ovr ((key, oldVal) # base) out =
     (if asBool oldVal \<noteq> Some True \<or> map_of ovr key \<noteq> None then merge_dropped allow ovr base out
      else if \<not> allow then Inl (CannotRemoveBoolean key)
      else merge_dropped allow ovr base (AList.delete key out))"

definition merge_value :: "bool \<Rightarrow> string \<Rightarrow> yaml_value \<Rightarrow> yaml_value \<Rightarrow> merge_error + yaml_value option" where
  "merge_value allow key oldVal newVal =
     (case (asInt oldVal, asInt newVal) of
        (Some oldNum, Some newNum) \<Rightarrow> Inr (Some (YInt (if newNum < oldNum then newNum else oldNum)))
      | _ \<Rightarrow>
          (case (asBool oldVal, asBool newVal) of
             (Some oldBool, Some newBool) \<Rightarrow>
               if oldBool \<and> \<not> newBool then (if \<not> allow then Inl (CannotRelaxBoolean key) else Inr None)
               else Inr (Some (YBool (oldBool \<and> newBool)))
           | _ \<Rightarrow> Inr (Some newVal)))"

fun merge_keys :: "bool \<Rightarrow> requires_map \<Rightarrow> requires_map \<Rightarrow> requires_map \<Rightarrow> merge_error + requires_map" where
  "merge_keys allow base [] out = Inr out"
| "merge_keys allow base ((key, newVal) # ovr) out =
     (case map_of base key of
        None \<Rightarrow> merge_keys allow base ovr (AList.update key newVal out)
      | Some oldVal \<Rightarrow>
          sum_bind (merge_value allow key oldVal newVal) (\<lambda>r.
            case r of
              None \<Rightarrow> merge_keys allow base ovr (AList.delete key out)
            | Some v \<Rightarrow> merge_keys allow base ovr (AList.update key v out)))"

definition mergeRequires :: "requires_map \<Rightarrow> requires_map \<Rightarrow> bool \<Rightarrow> merge_error + requires_map" where
  "mergeRequires base ovr allow =
     sum_bind (merge_dropped allow ovr base base) (\<lambda>out. merge_keys allow base ovr out)"

definition mergeRule :: "policy_rule \<Rightarrow> policy_rule \<Rightarrow> merge_error + policy_rule" where
  "mergeRule base ovr =
     (case validateModeTransition base ovr of
        Some e \<Rightarrow> Inl e
      | None \<Rightarrow>
          sum_bind (mergeRequires (plRequires base) (plRequires ovr) (plAllowOverride base)) (\<lambda>req.
            Inr (base\<lparr>plMode := plMode ovr, plAllowOverride := plAllowOverride base \<or> plAllowOverride ovr,
                      plRequires := req\<rparr>)))"

fun findRuleByOp :: "policy_rule list \<Rightarrow> string \<Rightarrow> nat option" where
  "findRuleByOp [] op = None"
| "findRuleByOp (r # rs) op = (if plOp r = op then Some 0 else map_option Suc (findRuleByOp rs op))"

definition insertRule :: "policy_rule list \<Rightarrow> policy_rule \<Rightarrow> policy_rule list" where
  "insertRule rules incoming =
     (if plOp incoming = ''*'' then rules @ [incoming]
      else case findRuleByOp rules ''*'' of
        None \<Rightarrow> rules @ [incoming]
      | Some i \<Rightarrow> take i rules @ [incoming] @ drop i rules)"

definition add_rule :: "policy_rule \<Rightarrow> policy_rule list \<Rightarrow> merge_error + policy_rule list" where
  "add_rule incoming rules =
     (if plOp incoming = [] then Inl EmptyOp
      else if \<not> isValidMode (plMode incoming) then Inl (InvalidMode (plMode incoming) (plOp incoming))
      else case findRuleByOp rules (plOp incoming) of
        None \<Rightarrow> Inr (insertRule rules incoming)
      | Some idx \<Rightarrow> sum_bind (mergeRule (rules ! idx) incoming) (\<lambda>merged. Inr (rules[idx := merged])))"

fun add_rules :: "policy_rule list \<Rightarrow> policy_rule list \<Rightarrow> merge_error + policy_rule list" where
  "add_rules [] rules = Inr rules"
| "add_rules (r # rs) rules = sum_bind (add_rule r rules) (add_rules rs)"

fun merge_layers :: "policy option list \<Rightarrow> policy \<Rightarrow> merge_error + policy" where
  "merge_layers [] merged = Inr merged"
| "merge_layers (None # ps) merged = merge_layers ps merged"
| "merge_layers (Some p # ps) merged =
     sum_bind (add_rules (pRules p) (pRules merged)) (\<lambda>rules.
       merge_layers ps \<lparr>pVersion = (if pVersion p > 0 then pVersion p else pVersion merged), pRules = rules\<rparr>)"

definition MergePolicies :: "policy option list \<Rightarrow> merge_error + policy" where
  "MergePolicies policies = merge_layers policies \<lparr>pVersion = 1, pRules = []\<rparr>"

section \<open>The delegation ladder\<close>

definition MinLevel :: int where "MinLevel = 0"
definition MaxLevel :: int where "MaxLevel = 5"
definition DefaultLevel :: int where "DefaultLevel = 2"
definition AutoAdvanceFloor :: int where "AutoAdvanceFloor = 2"
definition PushAutoFloor :: int where "PushAutoFloor = 3"

definition level_name :: "int \<Rightarrow> string" where
  "level_name level =
     (if level = 0 then ''human approves every action''
      else if level = 1 then ''human approves at phase gates''
      else if level = 2 then ''human reviews evidence post-hoc''
      else if level = 3 then ''human sets policy, agent executes''
      else if level = 4 then ''agent proposes policy changes''
      else if level = 5 then ''agent proposes mechanism changes''
      else ''unknown'')"

definition Validate :: "int \<Rightarrow> bool" where
  "Validate level \<longleftrightarrow> \<not> (level < MinLevel \<or> level > MaxLevel)"

definition DerivesAutoAdvance :: "int \<Rightarrow> bool" where
  "DerivesAutoAdvance level \<longleftrightarrow> level \<ge> AutoAdvanceFloor"

record resolution =
  rsLevel :: int
  rsName :: string
  rsAutoAdvance :: bool
  rsDeclared :: bool

text \<open>
  \<^verbatim>\<open>Resolve\<close> over the result of reading and parsing the stored value: \<open>None\<close> when
  there is no getter, the read fails or the payload is empty, \<open>Some None\<close> when
  the text is not an integer, \<open>Some (Some level)\<close> otherwise.
\<close>

definition Resolve :: "int option option \<Rightarrow> resolution" where
  "Resolve stored =
     (let fallback = \<lparr>rsLevel = DefaultLevel, rsName = level_name DefaultLevel,
                      rsAutoAdvance = DerivesAutoAdvance DefaultLevel, rsDeclared = False\<rparr>
      in case stored of
           None \<Rightarrow> fallback
         | Some None \<Rightarrow> fallback
         | Some (Some level) \<Rightarrow>
             if \<not> Validate level then fallback
             else \<lparr>rsLevel = level, rsName = level_name level,
                    rsAutoAdvance = DerivesAutoAdvance level, rsDeclared = True\<rparr>)"

definition opRulings :: "(string \<times> int) list" where
  "opRulings = [(''bd-push-dolt'', PushAutoFloor), (''bead-close'', 0), (''git-push-main'', PushAutoFloor),
                (''ic-publish-patch'', 0)]"

definition MinLevelForAuto :: "string \<Rightarrow> int" where
  "MinLevelForAuto op = (case find (\<lambda>r. fst r = op) opRulings of Some r \<Rightarrow> snd r | None \<Rightarrow> 0)"

definition FlooredOps :: "(string \<times> int) list" where
  "FlooredOps = filter (\<lambda>r. snd r > 0) opRulings"

definition PermitsAuto :: "resolution \<Rightarrow> string \<Rightarrow> bool" where
  "PermitsAuto r op \<longleftrightarrow> rsLevel r \<ge> MinLevelForAuto op"

section \<open>The decision\<close>

record check_input =
  ciOp :: string
  ciNow :: "int option"
  ciHeadSHA :: string
  ciVettedSHA :: string
  ciVettedAt :: "int option"
  ciTestsPassed :: bool
  ciSprintOrWorkFlow :: bool
  ciCommittedByThisSession :: bool
  ciClockSkewTolerance :: int
  ciVettingSHAs :: "(string \<times> string) list"
  ciWorkdirHEAD :: "(string \<times> string) list"
  ciDelegation :: "resolution option"

datatype reason =
    NoMatchingRule
  | RuleModeBlock
  | RequiresSatisfied
  | NoRequirements
  | InvalidRequirement string
  | MissingVettedAt
  | VettingTooOld
  | MissingWorkdirHeads
  | VettedSHAMismatch "string option"
  | RequirementFailed string
  | UnsupportedRequirement string
  | DelegationRefused resolution string

definition minute :: int where "minute = 60000000000"
definition defaultClockSkewTolerance :: int where "defaultClockSkewTolerance = 5 * minute"

text \<open>\<^verbatim>\<open>Time.Sub\<close> saturates at the bounds of \<^verbatim>\<open>Duration\<close>.\<close>

definition time_sub :: "int \<Rightarrow> int \<Rightarrow> int" where
  "time_sub a b = max (- (2 ^ 63)) (min (2 ^ 63 - 1) (a - b))"

fun sha_mismatch :: "(string \<times> string) list \<Rightarrow> (string \<times> string) list \<Rightarrow> string option" where
  "sha_mismatch heads [] = None"
| "sha_mismatch heads ((repo, vetted) # rest) =
     (if map_of heads repo \<noteq> Some vetted then Some repo else sha_mismatch heads rest)"

definition check_flag :: "string \<Rightarrow> yaml_value \<Rightarrow> bool \<Rightarrow> reason option" where
  "check_flag key raw actual =
     (case asBool raw of
        None \<Rightarrow> Some (InvalidRequirement key)
      | Some req \<Rightarrow> if actual \<noteq> req then Some (RequirementFailed key) else None)"

definition check_requirement :: "check_input \<Rightarrow> int \<Rightarrow> int \<Rightarrow> string \<Rightarrow> yaml_value \<Rightarrow> reason option" where
  "check_requirement input now tol key raw =
     (if key = ''vetted_within_minutes'' then
        (case asInt raw of
           None \<Rightarrow> Some (InvalidRequirement key)
         | Some mins \<Rightarrow>
             if mins < 0 then Some (InvalidRequirement key)
             else case ciVettedAt input of
               None \<Rightarrow> Some MissingVettedAt
             | Some vettedAt \<Rightarrow>
                 let maxAge = int64 (int64 (mins * minute) + tol) in
                 if time_sub now vettedAt > maxAge then Some VettingTooOld else None)
      else if key = ''vetted_sha_matches_head'' then
        (case asBool raw of
           None \<Rightarrow> Some (InvalidRequirement key)
         | Some req \<Rightarrow>
             if \<not> req then None
             else if ciVettingSHAs input \<noteq> [] then
               (if ciWorkdirHEAD input = [] then Some MissingWorkdirHeads
                else case sha_mismatch (ciWorkdirHEAD input) (ciVettingSHAs input) of
                  Some repo \<Rightarrow> Some (VettedSHAMismatch (Some repo))
                | None \<Rightarrow> None)
             else if ciVettedSHA input = [] \<or> ciHeadSHA input = [] \<or> ciVettedSHA input \<noteq> ciHeadSHA input
               then Some (VettedSHAMismatch None)
             else None)
      else if key = ''tests_passed'' then check_flag key raw (ciTestsPassed input)
      else if key = ''sprint_or_work_flow'' then check_flag key raw (ciSprintOrWorkFlow input)
      else if key = ''committed_by_this_session'' then check_flag key raw (ciCommittedByThisSession input)
      else Some (UnsupportedRequirement key))"

fun evaluate_requires :: "check_input \<Rightarrow> int \<Rightarrow> int \<Rightarrow> requires_map \<Rightarrow> bool \<times> reason" where
  "evaluate_requires input now tol [] = (True, RequiresSatisfied)"
| "evaluate_requires input now tol ((key, raw) # rest) =
     (case check_requirement input now tol key raw of
        Some why \<Rightarrow> (False, why)
      | None \<Rightarrow> evaluate_requires input now tol rest)"

definition Evaluate :: "int \<Rightarrow> policy_rule \<Rightarrow> check_input \<Rightarrow> bool \<times> reason" where
  "Evaluate wall rl input =
     (if plRequires rl = [] then (True, NoRequirements)
      else
        let now = (case ciNow input of None \<Rightarrow> wall | Some t \<Rightarrow> t);
            tol = (if ciClockSkewTolerance input \<le> 0 then defaultClockSkewTolerance else ciClockSkewTolerance input)
        in evaluate_requires input now tol (plRequires rl))"

definition matchRule :: "policy_rule list \<Rightarrow> string \<Rightarrow> (policy_rule \<times> nat) option" where
  "matchRule rules op =
     (case findRuleByOp rules op of
        Some i \<Rightarrow> Some (rules ! i, i)
      | None \<Rightarrow>
          (case findRuleByOp rules ''*'' of
             Some i \<Rightarrow> Some (rules ! i, i)
           | None \<Rightarrow> None))"

record check_result =
  crMode :: string
  crPolicyMatch :: string
  crReason :: reason
  crDelegationCapped :: bool

definition applyDelegationCeiling :: "check_result \<Rightarrow> check_input \<Rightarrow> check_result" where
  "applyDelegationCeiling result input =
     (case ciDelegation input of
        None \<Rightarrow> result
      | Some d \<Rightarrow>
          if crMode result \<noteq> ModeAuto \<and> crMode result \<noteq> ModeForceAuto then result
          else if PermitsAuto d (ciOp input) then result
          else result\<lparr>crMode := ModeConfirm, crDelegationCapped := True,
                      crReason := DelegationRefused d (ciOp input)\<rparr>)"

text \<open>A nil policy is \<open>None\<close>; the only error of \<^verbatim>\<open>Check\<close> is a nil policy.\<close>

definition Check :: "int \<Rightarrow> policy option \<Rightarrow> check_input \<Rightarrow> check_result option" where
  "Check wall pol input =
     (case pol of
        None \<Rightarrow> None
      | Some p \<Rightarrow>
          let input = input\<lparr>ciNow := Some (case ciNow input of None \<Rightarrow> wall | Some t \<Rightarrow> t)\<rparr> in
          (case matchRule (pRules p) (ciOp input) of
             None \<Rightarrow> Some \<lparr>crMode = ModeConfirm, crPolicyMatch = [], crReason = NoMatchingRule, crDelegationCapped = False\<rparr>
           | Some (rl, idx) \<Rightarrow>
               let result = \<lparr>crMode = plMode rl, crPolicyMatch = plOp rl @ ''#'' @ dec (int idx),
                             crReason = RequiresSatisfied, crDelegationCapped = False\<rparr>
               in if plMode rl = ModeBlock then Some (result\<lparr>crReason := RuleModeBlock\<rparr>)
                  else case Evaluate wall rl input of
                    (False, why) \<Rightarrow> Some (result\<lparr>crMode := ModeConfirm, crReason := why\<rparr>)
                  | (True, _) \<Rightarrow> Some (applyDelegationCeiling result input)))"

section \<open>Loading\<close>

text \<open>
  Reading and decoding a file is the argument \<open>read\<close>; the hash of the canonical
  JSON of the merged policy is the argument \<open>hash\<close>.
\<close>

definition LoadPolicy :: "(string \<Rightarrow> 'e + policy) \<Rightarrow> string \<Rightarrow> 'e + policy option" where
  "LoadPolicy read path =
     (if path = [] then Inr None
      else sum_bind (read path) (\<lambda>p. Inr (Some (if pVersion p = 0 then p\<lparr>pVersion := 1\<rparr> else p))))"

definition LoadEffective ::
    "(string \<Rightarrow> 'e + policy) \<Rightarrow> (policy \<Rightarrow> string) \<Rightarrow> string \<Rightarrow> string \<Rightarrow> string
      \<Rightarrow> ('e + merge_error) + policy \<times> string" where
  "LoadEffective read hash globalPath projectPath envPath =
     (case LoadPolicy read globalPath of
        Inl e \<Rightarrow> Inl (Inl e)
      | Inr global \<Rightarrow>
          (case LoadPolicy read projectPath of
             Inl e \<Rightarrow> Inl (Inl e)
           | Inr project \<Rightarrow>
               (case LoadPolicy read envPath of
                  Inl e \<Rightarrow> Inl (Inl e)
                | Inr env \<Rightarrow>
                    (case MergePolicies [global, project, env] of
                       Inl e \<Rightarrow> Inl (Inr e)
                     | Inr merged \<Rightarrow> Inr (merged, hash merged)))))"

end
