(* ===== verification/PolicyCorrect.thy ===== *)
theory PolicyCorrect
  imports Policy
begin

text \<open>
  What the policy decision promises: exactly when it authorizes, that merging
  layers never relaxes a floor, that pushes need a declared delegation level,
  and where the floor can be lifted.
\<close>

section \<open>The decision\<close>

definition authorizes :: "check_result option \<Rightarrow> bool" where
  "authorizes r \<longleftrightarrow> (\<exists>x. r = Some x \<and> (crMode x = ModeAuto \<or> crMode x = ModeForceAuto))"

definition requirements_hold :: "int \<Rightarrow> check_input \<Rightarrow> requires_map \<Rightarrow> bool" where
  "requirements_hold wall input req \<longleftrightarrow>
     (\<forall>kv \<in> set req. check_requirement input (case ciNow input of None \<Rightarrow> wall | Some t \<Rightarrow> t)
        (if ciClockSkewTolerance input \<le> 0 then defaultClockSkewTolerance else ciClockSkewTolerance input)
        (fst kv) (snd kv) = None)"

definition rule_for :: "policy_rule list \<Rightarrow> string \<Rightarrow> policy_rule option" where
  "rule_for rules op =
     (case find (\<lambda>r. plOp r = op) rules of Some r \<Rightarrow> Some r | None \<Rightarrow> find (\<lambda>r. plOp r = ''*'') rules)"

lemma findRuleByOp_find:
  "(case findRuleByOp rules op of None \<Rightarrow> None | Some i \<Rightarrow> Some (rules ! i)) = find (\<lambda>r. plOp r = op) rules"
  by (induction rules) (auto split: option.splits)

lemma findRuleByOp_Some: "findRuleByOp rules op = Some i \<Longrightarrow> i < length rules \<and> plOp (rules ! i) = op \<and> (\<forall>j < i. plOp (rules ! j) \<noteq> op)"
proof (induction rules arbitrary: i)
  case (Cons r rules)
  show ?case
  proof (cases "plOp r = op")
    case True
    with Cons.prems show ?thesis by simp
  next
    case False
    with Cons.prems obtain k where "findRuleByOp rules op = Some k" "i = Suc k" by auto
    with Cons.IH [of k] False show ?thesis by (auto simp: less_Suc_eq_0_disj)
  qed
qed simp

lemma matchRule_rule_for: "map_option fst (matchRule rules op) = rule_for rules op"
  using findRuleByOp_find [of rules op] findRuleByOp_find [of rules "''*''"]
  by (auto simp: matchRule_def rule_for_def split: option.splits)

lemma evaluate_requires_iff:
  "fst (evaluate_requires input now tol req) \<longleftrightarrow> (\<forall>kv \<in> set req. check_requirement input now tol (fst kv) (snd kv) = None)"
  by (induction req) (auto split: option.splits)

lemma Evaluate_iff: "fst (Evaluate wall rl input) \<longleftrightarrow> requirements_hold wall input (plRequires rl)"
  by (simp add: Evaluate_def requirements_hold_def Let_def evaluate_requires_iff)

lemma requirements_hold_now [simp]:
  "requirements_hold w (input\<lparr>ciNow := Some (case ciNow input of None \<Rightarrow> wall | Some t \<Rightarrow> t)\<rparr>) req
     = requirements_hold wall input req"
proof -
  have "check_requirement (input\<lparr>ciNow := x\<rparr>) now tol key raw = check_requirement input now tol key raw" for x now tol key raw
    by (simp add: check_requirement_def cong: if_cong option.case_cong)
  then show ?thesis by (simp add: requirements_hold_def)
qed

lemma Check_authorizes:
  "authorizes (Check wall (Some p) input) \<longleftrightarrow>
     (\<exists>rl. rule_for (pRules p) (ciOp input) = Some rl \<and> (plMode rl = ModeAuto \<or> plMode rl = ModeForceAuto)
        \<and> requirements_hold wall input (plRequires rl)
        \<and> (\<forall>d. ciDelegation input = Some d \<longrightarrow> PermitsAuto d (ciOp input)))"
proof -
  let ?in = "input\<lparr>ciNow := Some (case ciNow input of None \<Rightarrow> wall | Some t \<Rightarrow> t)\<rparr>"
  have f: "rule_for (pRules p) (ciOp input) = map_option fst (matchRule (pRules p) (ciOp input))"
    by (simp add: matchRule_rule_for)
  show ?thesis
  proof (cases "matchRule (pRules p) (ciOp input)")
    case None
    then show ?thesis by (simp add: f Check_def authorizes_def)
  next
    case (Some m)
    obtain rl idx where m: "m = (rl, idx)" by force
    have ev: "fst (Evaluate wall rl ?in) \<longleftrightarrow> requirements_hold wall input (plRequires rl)"
      by (simp add: Evaluate_iff)
    show ?thesis
      using Some m ev
      by (cases "Evaluate wall rl ?in"; cases "ciDelegation input")
        (auto simp: f Check_def authorizes_def Let_def applyDelegationCeiling_def split: bool.splits)
  qed
qed

text \<open>
  C39. \<^verbatim>\<open>Check\<close> authorizes an operation exactly when the rule for it (the first with
  its name, else the first catch-all) is in an automatic mode, every requirement
  of that rule holds, and a delegation level, when one is supplied, permits it;
  so the order in which the requirements are visited does not matter.
\<close>
theorem Check_authorizes_iff:
  "authorizes (Check wall (Some p) input) \<longleftrightarrow>
     (case rule_for (pRules p) (ciOp input) of
        None \<Rightarrow> False
      | Some rl \<Rightarrow> plMode rl \<in> {ModeAuto, ModeForceAuto}
          \<and> requirements_hold wall input (plRequires rl)
          \<and> (case ciDelegation input of None \<Rightarrow> True | Some d \<Rightarrow> PermitsAuto d (ciOp input)))"
  by (auto simp: Check_authorizes split: option.splits)

text \<open>
  The push ceiling fails closed: under any policy, even a \<^verbatim>\<open>force_auto\<close> rule, a
  push to main is authorized only if a delegation level of at least three was
  validly declared; an unset, unreadable, malformed or out-of-range level never
  suffices.
\<close>
lemma push_needs_declared_level:
  assumes "authorizes (Check wall pol (input\<lparr>ciOp := ''git-push-main'', ciDelegation := Some (Resolve stored)\<rparr>))"
  shows "\<exists>level. stored = Some (Some level) \<and> PushAutoFloor \<le> level \<and> level \<le> MaxLevel"
proof -
  obtain p where p: "pol = Some p" using assms by (cases pol) (auto simp: Check_def authorizes_def)
  have "PermitsAuto (Resolve stored) ''git-push-main''"
    using assms unfolding p Check_authorizes by auto
  then have "3 \<le> rsLevel (Resolve stored)"
    by (simp add: PermitsAuto_def MinLevelForAuto_def opRulings_def PushAutoFloor_def)
  then show ?thesis
    by (auto simp: Resolve_def Let_def DefaultLevel_def Validate_def MaxLevel_def PushAutoFloor_def
        split: option.split_asm if_split_asm)
qed

section \<open>Merging never relaxes\<close>

definition flag_keys :: "string set" where
  "flag_keys = {''vetted_sha_matches_head'', ''tests_passed'', ''sprint_or_work_flow'', ''committed_by_this_session''}"

text \<open>
  A requirement of the type its key asks for; the age in minutes small enough
  not to overflow \<^verbatim>\<open>Duration\<close> (2 ^ 26 minutes are 127 years).
\<close>

definition typed :: "string \<times> yaml_value \<Rightarrow> bool" where
  "typed kv \<longleftrightarrow>
     (fst kv = ''vetted_within_minutes'' \<longrightarrow> (\<exists>n. asInt (snd kv) = Some n \<and> n < 2 ^ 26))
     \<and> (fst kv \<in> flag_keys \<longrightarrow> (\<exists>b. asBool (snd kv) = Some b))"

definition wf_requires :: "requires_map \<Rightarrow> bool" where
  "wf_requires req \<longleftrightarrow> distinct (map fst req) \<and> (\<forall>kv \<in> set req. typed kv)"

text \<open>\<open>strict v v'\<close>: a rule that asks \<open>v'\<close> of a key asks at least \<open>v\<close> of it.\<close>

definition strict :: "string \<Rightarrow> yaml_value \<Rightarrow> yaml_value \<Rightarrow> bool" where
  "strict key v v' \<longleftrightarrow>
     (if key = ''vetted_within_minutes''
      then \<exists>m n. asInt v = Some m \<and> asInt v' = Some n \<and> n \<le> m \<and> m < 2 ^ 26
      else if key \<in> flag_keys then \<exists>b. asBool v = Some b \<and> asBool v' = Some b
      else True)"

definition covers :: "requires_map \<Rightarrow> requires_map \<Rightarrow> bool" where
  "covers base req \<longleftrightarrow>
     (\<forall>key v. map_of base key = Some v \<longrightarrow> (\<exists>v'. map_of req key = Some v' \<and> strict key v v'))"

lemma strict_trans: "strict key u v \<Longrightarrow> strict key v w \<Longrightarrow> strict key u w"
  by (auto simp: strict_def split: if_split_asm)

lemma covers_trans: "covers a b \<Longrightarrow> covers b c \<Longrightarrow> covers a c"
  unfolding covers_def using strict_trans by blast

lemma strict_refl: "typed (key, v) \<Longrightarrow> strict key v v"
  unfolding strict_def typed_def by (metis fst_conv snd_conv order_refl)

lemma strict_check:
  assumes "strict key v v'" "check_requirement input now tol key v' = None"
    and "0 < tol" "tol < 2 ^ 62"
  shows "check_requirement input now tol key v = None"
proof (cases "key = ''vetted_within_minutes''")
  case True
  then obtain m n where mn: "asInt v = Some m" "asInt v' = Some n" "n \<le> m" "m < 2 ^ 26"
    using assms(1) by (auto simp: strict_def)
  with assms(2) True obtain vettedAt where n0: "0 \<le> n" and va: "ciVettedAt input = Some vettedAt"
    and age: "time_sub now vettedAt \<le> int64 (int64 (n * minute) + tol)"
    by (auto simp: check_requirement_def Let_def not_less split: if_split_asm option.split_asm)
  have b: "0 \<le> k * minute \<and> k * minute < 2 ^ 62" if "0 \<le> k" "k < 2 ^ 26" for k
  proof -
    have "k * minute \<le> (2 ^ 26 - 1) * minute" using that by (intro mult_right_mono) (simp_all add: minute_def)
    also have "\<dots> < 2 ^ 62" by (simp add: minute_def)
    finally show ?thesis using that by (simp add: minute_def)
  qed
  have wrap: "int64 (int64 (k * minute) + tol) = k * minute + tol" if "0 \<le> k" "k < 2 ^ 26" for k
    using b [OF that] assms(3,4) by (simp add: int64_id)
  have n27: "n < 2 ^ 26" using mn(3,4) by linarith
  have "time_sub now vettedAt \<le> n * minute + tol" using age unfolding wrap [OF n0 n27] .
  also have "\<dots> \<le> m * minute + tol" using mult_right_mono [OF mn(3), of minute] by (simp add: minute_def)
  finally have "time_sub now vettedAt \<le> int64 (int64 (m * minute) + tol)" using wrap [of m] n0 mn(3,4) by simp
  with True mn n0 va show ?thesis by (simp add: check_requirement_def Let_def)
next
  case False
  then show ?thesis
    using assms(1,2)
    by (auto simp: strict_def check_requirement_def check_flag_def flag_keys_def split: if_split_asm)
qed

lemma covers_hold:
  assumes "covers base req" "requirements_hold wall input req" "distinct (map fst base)"
    and "ciClockSkewTolerance input < 2 ^ 62"
  shows "requirements_hold wall input base"
proof -
  let ?tol = "if ciClockSkewTolerance input \<le> 0 then defaultClockSkewTolerance else ciClockSkewTolerance input"
  have tol: "0 < ?tol" "?tol < 2 ^ 62" using assms(4) by (auto simp: defaultClockSkewTolerance_def minute_def)
  show ?thesis unfolding requirements_hold_def
  proof
    fix kv assume kv: "kv \<in> set base"
    obtain key v where [simp]: "kv = (key, v)" by force
    have "map_of base key = Some v" using kv assms(3) by simp
    then obtain v' where v': "map_of req key = Some v'" "strict key v v'" using assms(1) by (auto simp: covers_def)
    then have "(key, v') \<in> set req" by (simp add: map_of_SomeD)
    from assms(2) [unfolded requirements_hold_def, THEN bspec, OF this]
    have "check_requirement input (case ciNow input of None \<Rightarrow> wall | Some t \<Rightarrow> t) ?tol key v' = None"
      by (simp only: fst_conv snd_conv)
    from strict_check [OF v'(2) this tol]
    show "check_requirement input (case ciNow input of None \<Rightarrow> wall | Some t \<Rightarrow> t) ?tol (fst kv) (snd kv) = None" by simp
  qed
qed

lemma merge_value_strict:
  assumes "merge_value False key old new = Inr r" "typed (key, old)" "typed (key, new)"
  shows "\<exists>v. r = Some v \<and> strict key old v \<and> typed (key, v)"
proof -
  consider (age) "key = ''vetted_within_minutes''" | (flag) "key \<in> flag_keys" "key \<noteq> ''vetted_within_minutes''"
    | (other) "key \<notin> flag_keys" "key \<noteq> ''vetted_within_minutes''" by blast
  then show ?thesis
  proof cases
    case age
    then obtain m n where mn: "asInt old = Some m" "m < 2 ^ 26" "asInt new = Some n" "n < 2 ^ 26"
      using assms(2,3) by (auto simp: typed_def)
    with assms(1) have "r = Some (YInt (if n < m then n else m))" by (auto simp: merge_value_def)
    with mn age show ?thesis by (auto simp: strict_def typed_def flag_keys_def)
  next
    case flag
    then obtain a b where ab: "asBool old = Some a" "asBool new = Some b"
      using assms(2,3) by (auto simp: typed_def)
    then have "asInt old = None" "asInt new = None" by (cases old; cases new; simp)+
    with ab assms(1) have "r = Some (YBool a)"
      by (cases a; cases b) (auto simp: merge_value_def split: option.splits)
    with ab flag show ?thesis by (auto simp: strict_def typed_def)
  next
    case other
    have "r \<noteq> None" using assms(1) by (auto simp: merge_value_def split: option.split_asm if_split_asm)
    with other show ?thesis by (auto simp: strict_def typed_def)
  qed
qed

lemma merge_dropped_Inr:
  "merge_dropped False ovr base out = Inr out' \<Longrightarrow> out' = out"
  by (induction False ovr base out rule: merge_dropped.induct) (auto split: if_split_asm)

lemma merge_keys_wf:
  assumes "merge_keys False base ovr out = Inr out'" "wf_requires base" "wf_requires ovr" "wf_requires out"
    and "\<And>k v. map_of base k = Some v \<Longrightarrow> k \<in> fst ` set ovr \<Longrightarrow> \<exists>v'. map_of out k = Some v' \<and> strict k v v'"
    and "\<And>k v. map_of base k = Some v \<Longrightarrow> k \<notin> fst ` set ovr \<Longrightarrow> \<exists>v'. map_of out k = Some v' \<and> strict k v v'"
  shows "covers base out' \<and> wf_requires out'"
  using assms
proof (induction ovr arbitrary: out)
  case Nil
  then show ?case by (auto simp: covers_def)
next
  case (Cons kv ovr)
  obtain key new where kv [simp]: "kv = (key, new)" by force
  have tn: "typed (key, new)" and wo: "wf_requires ovr" using Cons.prems(3) by (auto simp: wf_requires_def)
  obtain v where rest: "merge_keys False base ovr (AList.update key v out) = Inr out'" and tv: "typed (key, v)"
    and st: "\<And>old. map_of base key = Some old \<Longrightarrow> strict key old v"
  proof (cases "map_of base key")
    case None
    with Cons.prems(1) tn that show thesis by simp
  next
    case (Some old)
    then have told: "typed (key, old)" using Cons.prems(2) by (auto simp: wf_requires_def dest: map_of_SomeD)
    from Cons.prems(1) Some obtain r where r: "merge_value False key old new = Inr r"
      and k: "(case r of None \<Rightarrow> merge_keys False base ovr (AList.delete key out)
            | Some v \<Rightarrow> merge_keys False base ovr (AList.update key v out)) = Inr out'"
      by (auto simp: sum_bind_Inr_iff)
    from merge_value_strict [OF r told tn] k Some that show thesis by auto
  qed
  have wu: "wf_requires (AList.update key v out)"
  proof -
    have d: "distinct (map fst (AList.update key v out))"
      using Cons.prems(4) by (simp add: wf_requires_def distinct_update)
    have "typed x" if "x \<in> set (AList.update key v out)" for x
    proof -
      obtain k w where x: "x = (k, w)" by force
      then have "map_of (AList.update key v out) k = Some w" using that d by simp
      then have "k = key \<and> w = v \<or> map_of out k = Some w" by (auto simp: update_conv' split: if_split_asm)
      then show ?thesis using tv Cons.prems(4) x by (auto simp: wf_requires_def dest: map_of_SomeD)
    qed
    with d show ?thesis by (simp add: wf_requires_def)
  qed
  show ?case
  proof (rule Cons.IH [OF rest Cons.prems(2) wo wu])
    fix k w assume w: "map_of base k = Some w"
    have "\<exists>v'. map_of (AList.update key v out) k = Some v' \<and> strict k w v'"
    proof (cases "k = key")
      case True
      with w st show ?thesis by (simp add: update_conv')
    next
      case False
      with Cons.prems(5,6) [OF w] show ?thesis by (auto simp: update_conv')
    qed
    then show "\<exists>v'. map_of (AList.update key v out) k = Some v' \<and> strict k w v'"
      "\<exists>v'. map_of (AList.update key v out) k = Some v' \<and> strict k w v'" by simp_all
  qed
qed

lemma map_of_key: "map_of xs k = None \<longleftrightarrow> k \<notin> fst ` set xs"
  by (simp add: map_of_eq_None_iff)

lemma merge_dropped_kept:
  "merge_dropped False ovr base out = Inr out' \<Longrightarrow> (k, YBool True) \<in> set base \<Longrightarrow> map_of ovr k \<noteq> None"
  by (induction False ovr base out rule: merge_dropped.induct) (auto split: if_split_asm)

lemma mergeRequires_covers:
  assumes "mergeRequires base ovr False = Inr req" "wf_requires base" "wf_requires ovr"
  shows "covers base req \<and> wf_requires req"
proof -
  from assms(1) have "merge_keys False base ovr base = Inr req"
    by (auto simp: mergeRequires_def sum_bind_Inr_iff dest: merge_dropped_Inr)
  moreover have "\<exists>v'. map_of base k = Some v' \<and> strict k v v'" if "map_of base k = Some v" for k v
    using that assms(2) strict_refl by (auto simp: wf_requires_def dest: map_of_SomeD)
  ultimately show ?thesis using merge_keys_wf [of base ovr base req] assms(2,3) by blast
qed

abbreviation automatic :: "policy_rule \<Rightarrow> bool" where
  "automatic r \<equiv> plMode r = ModeAuto \<or> plMode r = ModeForceAuto"

text \<open>\<open>r\<close> keeps the floor \<open>b\<close>: no override granted, nothing relaxed.\<close>

definition keeps_floor :: "policy_rule \<Rightarrow> policy_rule \<Rightarrow> bool" where
  "keeps_floor b r \<longleftrightarrow>
     \<not> plAllowOverride r \<and> isValidMode (plMode r) \<and> wf_requires (plRequires r)
     \<and> covers (plRequires b) (plRequires r) \<and> (automatic r \<longrightarrow> automatic b)"

lemma mergeRule_floor:
  assumes "mergeRule r incoming = Inr m" "keeps_floor b r" "\<not> plAllowOverride incoming"
    and "isValidMode (plMode incoming)" "wf_requires (plRequires incoming)"
  shows "keeps_floor b m" "plOp m = plOp r"
proof -
  from assms(1,2) obtain req where req: "mergeRequires (plRequires r) (plRequires incoming) False = Inr req"
    and m: "m = r\<lparr>plMode := plMode incoming, plAllowOverride := plAllowOverride r \<or> plAllowOverride incoming, plRequires := req\<rparr>"
    and mode: "\<not> ((plMode r = ModeConfirm \<or> plMode r = ModeBlock) \<and> automatic incoming)"
    by (auto simp: mergeRule_def validateModeTransition_def keeps_floor_def sum_bind_Inr_iff split: if_split_asm)
  have wf: "wf_requires (plRequires r)" "isValidMode (plMode r)" using assms(2) by (simp_all add: keeps_floor_def)
  note c = mergeRequires_covers [OF req wf(1) assms(5)]
  have "automatic b" if "automatic incoming"
    using that mode wf(2) assms(2) by (auto simp: isValidMode_def keeps_floor_def)
  with c assms covers_trans m show "keeps_floor b m" by (auto simp: keeps_floor_def)
  show "plOp m = plOp r" using m by simp
qed

abbreviation rule_named :: "policy_rule list \<Rightarrow> string \<Rightarrow> policy_rule option" where
  "rule_named rules op \<equiv> find (\<lambda>r. plOp r = op) rules"

lemma rule_named_index: "rule_named rules op = (case findRuleByOp rules op of None \<Rightarrow> None | Some i \<Rightarrow> Some (rules ! i))"
  by (simp add: findRuleByOp_find)

lemma find_skip: "\<not> P x \<Longrightarrow> find P (xs @ x # ys) = find P (xs @ ys)"
  by (induction xs) auto

lemma rule_named_insert: "plOp x \<noteq> op \<Longrightarrow> rule_named (insertRule rules x) op = rule_named rules op"
  using find_skip [of "\<lambda>r. plOp r = op" x rules "[]"] find_skip [of "\<lambda>r. plOp r = op" x "take i rules" "drop i rules" for i]
  by (auto simp: insertRule_def split: option.splits)

lemma rule_named_update_other:
  "i < length rules \<Longrightarrow> plOp (rules ! i) = plOp m \<Longrightarrow> plOp m \<noteq> op \<Longrightarrow> rule_named (rules[i := m]) op = rule_named rules op"
  by (induction rules arbitrary: i) (auto split: nat.splits)

lemma rule_named_update_same:
  "findRuleByOp rules op = Some i \<Longrightarrow> plOp m = op \<Longrightarrow> rule_named (rules[i := m]) op = Some m"
  by (induction rules arbitrary: i) (auto split: if_split_asm)

lemma mergeRule_op: "mergeRule r incoming = Inr m \<Longrightarrow> plOp m = plOp r"
  by (auto simp: mergeRule_def sum_bind_Inr_iff split: option.split_asm)

lemma add_rule_floor:
  assumes "add_rule incoming rules = Inr rules'" "rule_named rules op = Some r" "keeps_floor b r"
    and "plOp incoming = op \<Longrightarrow> \<not> plAllowOverride incoming \<and> wf_requires (plRequires incoming)"
  shows "\<exists>r'. rule_named rules' op = Some r' \<and> keeps_floor b r'"
proof (cases "findRuleByOp rules (plOp incoming)")
  case None
  have "plOp incoming \<noteq> op" using None assms(2) by (auto simp: rule_named_index)
  with None assms(1-3) show ?thesis by (auto simp: add_rule_def rule_named_insert split: if_split_asm)
next
  case (Some i)
  have i: "i < length rules" "plOp (rules ! i) = plOp incoming" using findRuleByOp_Some [OF Some] by simp_all
  from assms(1) Some obtain m where m: "mergeRule (rules ! i) incoming = Inr m" "rules' = rules[i := m]"
    and mode: "isValidMode (plMode incoming)"
    by (auto simp: add_rule_def sum_bind_Inr_iff split: if_split_asm)
  note mop = mergeRule_op [OF m(1)]
  show ?thesis
  proof (cases "plOp incoming = op")
    case True
    then have "rules ! i = r" using assms(2) Some by (simp add: rule_named_index)
    then have "keeps_floor b m" using mergeRule_floor(1) [OF m(1) _ _ mode] assms(3,4) True by simp
    moreover have "rule_named rules' op = Some m"
      using rule_named_update_same [of rules op i m] Some True mop i m(2) by simp
    ultimately show ?thesis by blast
  next
    case False
    then show ?thesis using rule_named_update_other [of i rules m op] i mop m(2) assms(2,3) by simp
  qed
qed

lemma add_rules_floor:
  assumes "add_rules rs rules = Inr rules'" "rule_named rules op = Some r" "keeps_floor b r"
    and "\<And>x. x \<in> set rs \<Longrightarrow> plOp x = op \<Longrightarrow> \<not> plAllowOverride x \<and> wf_requires (plRequires x)"
  shows "\<exists>r'. rule_named rules' op = Some r' \<and> keeps_floor b r'"
  using assms
proof (induction rs arbitrary: rules r)
  case (Cons x rs)
  from Cons.prems(1) obtain mid where mid: "add_rule x rules = Inr mid" "add_rules rs mid = Inr rules'"
    by (auto simp: sum_bind_Inr_iff)
  obtain r2 where "rule_named mid op = Some r2" "keeps_floor b r2"
    using add_rule_floor [OF mid(1) Cons.prems(2,3)] Cons.prems(4) by auto
  from Cons.IH [OF mid(2) this] Cons.prems(4) show ?case by simp
qed auto

lemma merge_layers_floor:
  assumes "merge_layers ps p = Inr q" "rule_named (pRules p) op = Some r" "keeps_floor b r"
    and "\<And>l x. Some l \<in> set ps \<Longrightarrow> x \<in> set (pRules l) \<Longrightarrow> plOp x = op \<Longrightarrow> \<not> plAllowOverride x \<and> wf_requires (plRequires x)"
  shows "\<exists>r'. rule_named (pRules q) op = Some r' \<and> keeps_floor b r'"
  using assms
proof (induction ps p arbitrary: r rule: merge_layers.induct)
  case (3 l ps p)
  from 3(2) obtain rules where rules: "add_rules (pRules l) (pRules p) = Inr rules"
    and rest: "merge_layers ps \<lparr>pVersion = (if pVersion l > 0 then pVersion l else pVersion p), pRules = rules\<rparr> = Inr q"
    by (auto simp: sum_bind_Inr_iff)
  obtain r2 where "rule_named rules op = Some r2" "keeps_floor b r2"
    using add_rules_floor [OF rules 3(3,4)] 3(5) [of l] by auto
  with 3(1) [of rules r2] rest 3(5) show ?case by auto
qed auto

lemma merge_append: "merge_layers (ps @ qs) p = sum_bind (merge_layers ps p) (merge_layers qs)"
  by (induction ps p rule: merge_layers.induct) (auto simp: sum_bind_def split: sum.splits)

text \<open>
  C38. Merging never relaxes a named rule without an override. Let the layers so far merge to a
  policy with a rule that names the operation (not the catch-all), grants no override, has a
  known mode and well-typed requirements, and let no rule of a later layer that names the operation
  grant an override or have ill-typed requirements (well typed: flags boolean, ages below 127
  years). Then the merge of all layers authorizes the operation only where the layers so
  far already did. An override that a later layer grants itself (\<open>override_self_grant\<close>) and a
  later named rule over an earlier catch-all (\<open>catch_all_relaxed\<close>) do relax.
\<close>
theorem merge_never_relaxes:
  assumes "MergePolicies base = Inr p" "MergePolicies (base @ later) = Inr q"
    and "rule_named (pRules p) (ciOp input) = Some b" "\<not> plAllowOverride b" "isValidMode (plMode b)" "wf_requires (plRequires b)"
    and "\<And>l x. Some l \<in> set later \<Longrightarrow> x \<in> set (pRules l) \<Longrightarrow> plOp x = ciOp input \<Longrightarrow>
           \<not> plAllowOverride x \<and> wf_requires (plRequires x)"
    and "ciClockSkewTolerance input < 2 ^ 62" "authorizes (Check wall (Some q) input)"
  shows "authorizes (Check wall (Some p) input)"
proof -
  have q: "merge_layers later p = Inr q" using assms(1,2) by (simp add: MergePolicies_def merge_append)
  have "covers (plRequires b) (plRequires b)"
    using assms(6) strict_refl by (auto simp: covers_def wf_requires_def dest: map_of_SomeD)
  then have "keeps_floor b b" using assms(4-6) by (simp add: keeps_floor_def)
  then obtain r where r: "rule_named (pRules q) (ciOp input) = Some r" "keeps_floor b r"
    using merge_layers_floor [OF q assms(3)] assms(7) by blast
  have rf: "rule_for (pRules q) (ciOp input) = Some r" "rule_for (pRules p) (ciOp input) = Some b"
    using r(1) assms(3) by (simp_all add: rule_for_def)
  from assms(9) rf(1) have a: "automatic r" "requirements_hold wall input (plRequires r)"
    "\<forall>d. ciDelegation input = Some d \<longrightarrow> PermitsAuto d (ciOp input)"
    by (simp_all add: Check_authorizes)
  moreover have "requirements_hold wall input (plRequires b)"
    using covers_hold [of "plRequires b" "plRequires r"] r(2) a(2) assms(6,8) by (simp add: keeps_floor_def wf_requires_def)
  ultimately show ?thesis using r(2) rf(2) by (auto simp: Check_authorizes keeps_floor_def)
qed

section \<open>Merged policies are well formed\<close>

definition wf_rules :: "policy_rule list \<Rightarrow> bool" where
  "wf_rules rules \<longleftrightarrow>
     distinct (map plOp rules) \<and> ''*'' \<notin> set (butlast (map plOp rules))
     \<and> (\<forall>r \<in> set rules. plOp r \<noteq> [] \<and> isValidMode (plMode r))"

lemma findRuleByOp_None: "findRuleByOp rules op = None \<longleftrightarrow> op \<notin> plOp ` set rules"
  by (induction rules) auto

lemma wf_rules_insert:
  assumes "wf_rules rules" "plOp x \<notin> plOp ` set rules" "plOp x \<noteq> []" "isValidMode (plMode x)"
  shows "wf_rules (insertRule rules x)"
proof (cases "plOp x = ''*'' \<or> findRuleByOp rules ''*'' = None")
  case True
  then have "insertRule rules x = rules @ [x]" by (auto simp: insertRule_def)
  moreover have "''*'' \<notin> plOp ` set rules" using True assms(2) by (auto simp: findRuleByOp_None)
  ultimately show ?thesis using assms by (auto simp: wf_rules_def)
next
  case False
  then obtain i where i: "findRuleByOp rules ''*'' = Some i" by auto
  have il: "i < length rules" "plOp (rules ! i) = ''*''" using findRuleByOp_Some [OF i] by simp_all
  obtain ys y where r: "rules = ys @ [y]" using il(1) by (metis list.size(3) not_less_zero rev_exhaust)
  have ys: "''*'' \<notin> plOp ` set ys" using assms(1) by (simp add: wf_rules_def r)
  have "i = length ys"
  proof (rule ccontr)
    assume "i \<noteq> length ys"
    then have "i < length ys" using il(1) r by simp
    with il(2) have "''*'' \<in> plOp ` set ys" by (metis image_eqI nth_append nth_mem r)
    with ys show False ..
  qed
  then have "insertRule rules x = ys @ [x, y]"
    using False i by (simp add: insertRule_def r)
  with assms ys False show ?thesis by (auto simp: wf_rules_def r butlast_append)
qed

lemma wf_rules_add_rule:
  assumes "wf_rules rules" "add_rule x rules = Inr rules'"
  shows "wf_rules rules'"
proof (cases "findRuleByOp rules (plOp x)")
  case None
  with assms(2) have x: "rules' = insertRule rules x" "plOp x \<noteq> []" "isValidMode (plMode x)"
    by (auto simp: add_rule_def split: if_split_asm)
  from None have "plOp x \<notin> plOp ` set rules" by (simp add: findRuleByOp_None)
  from wf_rules_insert [OF assms(1) this x(2,3)] x(1) show ?thesis by simp
next
  case (Some i)
  have i: "i < length rules" "plOp (rules ! i) = plOp x" using findRuleByOp_Some [OF Some] by simp_all
  from assms(2) Some obtain m where m: "mergeRule (rules ! i) x = Inr m" "rules' = rules[i := m]"
    and v: "isValidMode (plMode x)" "plOp x \<noteq> []"
    by (auto simp: add_rule_def sum_bind_Inr_iff split: if_split_asm)
  have mo: "plOp m = plOp x" using mergeRule_op [OF m(1)] i by simp
  moreover have "plMode m = plMode x" using m(1) by (auto simp: mergeRule_def sum_bind_Inr_iff split: option.split_asm)
  moreover have "map plOp rules' = map plOp rules" using i mo m(2) by (metis list_update_id map_update nth_map)
  ultimately show ?thesis
    using assms(1) v unfolding wf_rules_def by (auto simp: m(2) dest!: set_update_subset_insert [THEN subsetD])
qed

lemma wf_rules_add_rules: "wf_rules rules \<Longrightarrow> add_rules rs rules = Inr rules' \<Longrightarrow> wf_rules rules'"
  by (induction rs arbitrary: rules) (auto simp: sum_bind_Inr_iff intro: wf_rules_add_rule)

lemma wf_merge_layers: "wf_rules (pRules p) \<Longrightarrow> merge_layers ps p = Inr q \<Longrightarrow> wf_rules (pRules q)"
proof (induction ps p rule: merge_layers.induct)
  case (3 l ps p)
  then show ?case using wf_rules_add_rules by (auto simp: sum_bind_Inr_iff)
qed auto

text \<open>
  C40. A merged policy is well formed whatever the layers are: at most one rule
  per operation, none without an operation or with an unknown mode, and the
  catch-all after every other rule.
\<close>
theorem MergePolicies_well_formed:
  "case MergePolicies layers of
     Inl e \<Rightarrow> True
   | Inr p \<Rightarrow> distinct (map plOp (pRules p)) \<and> ''*'' \<notin> set (butlast (map plOp (pRules p)))
       \<and> [] \<notin> plOp ` set (pRules p) \<and> plMode ` set (pRules p) \<subseteq> {ModeAuto, ModeConfirm, ModeBlock, ModeForceAuto}"
proof (cases "MergePolicies layers")
  case (Inr p)
  have "wf_rules (pRules p)"
    using wf_merge_layers [OF _ Inr [unfolded MergePolicies_def]] by (simp add: wf_rules_def)
  with Inr show ?thesis by (auto simp: wf_rules_def isValidMode_def)
qed simp

section \<open>Sample policies\<close>

definition push_rule :: "string \<Rightarrow> requires_map \<Rightarrow> bool \<Rightarrow> policy_rule" where
  "push_rule mode req allow = \<lparr>plOp = ''git-push-main'', plMode = mode, plRequires = req, plAllowOverride = allow\<rparr>"

definition sample_input :: check_input where
  "sample_input = \<lparr>ciOp = ''git-push-main'', ciNow = Some 1000, ciHeadSHA = [], ciVettedSHA = [], ciVettedAt = None,
     ciTestsPassed = True, ciSprintOrWorkFlow = False, ciCommittedByThisSession = False,
     ciClockSkewTolerance = 0, ciVettingSHAs = [], ciWorkdirHEAD = [], ciDelegation = None\<rparr>"

lemma authorizes_simps [simp]:
  "authorizes (Some x) \<longleftrightarrow> crMode x = ModeAuto \<or> crMode x = ModeForceAuto" "\<not> authorizes None"
  by (auto simp: authorizes_def)

lemma push_needs_declared_level_witness:
  "\<exists>level. Some (Some 4) = Some (Some level) \<and> PushAutoFloor \<le> level \<and> level \<le> MaxLevel"
proof -
  have "authorizes (Check 0 (Some \<lparr>pVersion = 1, pRules = [push_rule ModeForceAuto [] False]\<rparr>)
      (sample_input\<lparr>ciOp := ''git-push-main'', ciDelegation := Some (Resolve (Some (Some 4)))\<rparr>))"
    by (simp add: Check_authorizes rule_for_def push_rule_def requirements_hold_def PermitsAuto_def Resolve_def
        Validate_def MinLevel_def MaxLevel_def MinLevelForAuto_def opRulings_def PushAutoFloor_def sample_input_def)
  then show ?thesis by (rule push_needs_declared_level)
qed

lemma merge_never_relaxes_witness:
  "authorizes (Check 0 (Some \<lparr>pVersion = 1, pRules = [push_rule ModeAuto [(''tests_passed'', YBool True)] False]\<rparr>) sample_input)"
proof -
  let ?base = "[Some \<lparr>pVersion = 1, pRules = [push_rule ModeAuto [(''tests_passed'', YBool True)] False]\<rparr>]"
  let ?later = "[Some \<lparr>pVersion = 1, pRules = [push_rule ModeForceAuto [(''tests_passed'', YBool True)] False]\<rparr>]"
  have m: "MergePolicies ?base = Inr \<lparr>pVersion = 1, pRules = [push_rule ModeAuto [(''tests_passed'', YBool True)] False]\<rparr>"
    "MergePolicies (?base @ ?later) = Inr \<lparr>pVersion = 1, pRules = [push_rule ModeForceAuto [(''tests_passed'', YBool True)] False]\<rparr>"
    by code_simp+
  have a: "authorizes (Check 0 (Some \<lparr>pVersion = 1, pRules = [push_rule ModeForceAuto [(''tests_passed'', YBool True)] False]\<rparr>) sample_input)"
    by (simp add: Check_authorizes rule_for_def push_rule_def requirements_hold_def sample_input_def
        check_requirement_def check_flag_def)
  show ?thesis
  proof (rule merge_never_relaxes [OF m, where b = "push_rule ModeAuto [(''tests_passed'', YBool True)] False"])
    show "rule_named (pRules \<lparr>pVersion = 1, pRules = [push_rule ModeAuto [(''tests_passed'', YBool True)] False]\<rparr>) (ciOp sample_input)
        = Some (push_rule ModeAuto [(''tests_passed'', YBool True)] False)"
      by (simp add: push_rule_def sample_input_def)
  qed (use a in \<open>auto simp: push_rule_def isValidMode_def wf_requires_def typed_def sample_input_def\<close>)
qed

text \<open>
  Where the floor does not hold: \<^verbatim>\<open>allow_override\<close> is or-ed into the merged rule,
  so a later layer that lists an operation twice grants itself the override with
  its first rule and relaxes a confirm floor to automatic with the second, which
  alone is refused.
\<close>
lemma override_self_grant:
  "MergePolicies [Some \<lparr>pVersion = 1, pRules = [push_rule ModeConfirm [] False]\<rparr>,
                  Some \<lparr>pVersion = 1, pRules = [push_rule ModeAuto [] False]\<rparr>]
     = Inl (CannotRelaxMode ''git-push-main'' ModeConfirm ModeAuto)
   \<and> (case MergePolicies [Some \<lparr>pVersion = 1, pRules = [push_rule ModeConfirm [] False]\<rparr>,
                  Some \<lparr>pVersion = 1, pRules = [push_rule ModeConfirm [] True, push_rule ModeAuto [] False]\<rparr>] of
        Inl _ \<Rightarrow> False
      | Inr p \<Rightarrow> authorizes (Check 0 (Some p) sample_input))"
proof (rule conjI)
  show "MergePolicies [Some \<lparr>pVersion = 1, pRules = [push_rule ModeConfirm [] False]\<rparr>,
                  Some \<lparr>pVersion = 1, pRules = [push_rule ModeAuto [] False]\<rparr>]
     = Inl (CannotRelaxMode ''git-push-main'' ModeConfirm ModeAuto)" by code_simp
  have "MergePolicies [Some \<lparr>pVersion = 1, pRules = [push_rule ModeConfirm [] False]\<rparr>,
                  Some \<lparr>pVersion = 1, pRules = [push_rule ModeConfirm [] True, push_rule ModeAuto [] False]\<rparr>]
     = Inr \<lparr>pVersion = 1, pRules = [push_rule ModeAuto [] True]\<rparr>" by code_simp
  then show "case MergePolicies [Some \<lparr>pVersion = 1, pRules = [push_rule ModeConfirm [] False]\<rparr>,
                  Some \<lparr>pVersion = 1, pRules = [push_rule ModeConfirm [] True, push_rule ModeAuto [] False]\<rparr>] of
        Inl _ \<Rightarrow> False | Inr p \<Rightarrow> authorizes (Check 0 (Some p) sample_input)"
    by (simp add: Check_authorizes rule_for_def push_rule_def requirements_hold_def sample_input_def)
qed

text \<open>A catch-all is no floor either: a later layer that names the operation replaces it.\<close>

lemma catch_all_relaxed:
  "\<not> authorizes (Check 0 (Some \<lparr>pVersion = 1, pRules = [(push_rule ModeConfirm [] False)\<lparr>plOp := ''*''\<rparr>]\<rparr>) sample_input) \<and>
   (case MergePolicies [Some \<lparr>pVersion = 1, pRules = [(push_rule ModeConfirm [] False)\<lparr>plOp := ''*''\<rparr>]\<rparr>,
                  Some \<lparr>pVersion = 1, pRules = [push_rule ModeAuto [] False]\<rparr>] of
        Inl _ \<Rightarrow> False
      | Inr p \<Rightarrow> authorizes (Check 0 (Some p) sample_input))"
proof (rule conjI)
  show "\<not> authorizes (Check 0 (Some \<lparr>pVersion = 1, pRules = [(push_rule ModeConfirm [] False)\<lparr>plOp := ''*''\<rparr>]\<rparr>) sample_input)"
    by (simp add: Check_authorizes rule_for_def push_rule_def sample_input_def)
  have "MergePolicies [Some \<lparr>pVersion = 1, pRules = [(push_rule ModeConfirm [] False)\<lparr>plOp := ''*''\<rparr>]\<rparr>,
                  Some \<lparr>pVersion = 1, pRules = [push_rule ModeAuto [] False]\<rparr>]
     = Inr \<lparr>pVersion = 1, pRules = [push_rule ModeAuto [] False, (push_rule ModeConfirm [] False)\<lparr>plOp := ''*''\<rparr>]\<rparr>" by code_simp
  then show "case MergePolicies [Some \<lparr>pVersion = 1, pRules = [(push_rule ModeConfirm [] False)\<lparr>plOp := ''*''\<rparr>]\<rparr>,
                  Some \<lparr>pVersion = 1, pRules = [push_rule ModeAuto [] False]\<rparr>] of
        Inl _ \<Rightarrow> False | Inr p \<Rightarrow> authorizes (Check 0 (Some p) sample_input)"
    by (simp add: Check_authorizes rule_for_def push_rule_def requirements_hold_def sample_input_def)
qed

end
