(* ===== verification/Dispatch.thy ===== *)
theory Dispatch
  imports RunModel GoLib
begin

text \<open>
  The store of agent dispatches: \<^verbatim>\<open>internal/dispatch/dispatch.go\<close>, the terminal
  writer of \<^verbatim>\<open>terminal.go\<close>, and the triggers of \<^verbatim>\<open>internal/db/schema.sql\<close> on the
  dispatch tables. A transaction returns an error, with the tables left as they
  were, or the new tables; clock readings and generated identifiers are
  arguments; the event recorder is the list of its calls. Event envelopes are
  left out.
\<close>

section \<open>Statuses\<close>

definition StatusSpawned :: string where [const_defs]: "StatusSpawned = ''spawned''"
definition StatusRunning :: string where [const_defs]: "StatusRunning = ''running''"
definition StatusCompleted :: string where [const_defs]: "StatusCompleted = ''completed''"
definition StatusFailed :: string where [const_defs]: "StatusFailed = ''failed''"
definition StatusTimeout :: string where [const_defs]: "StatusTimeout = ''timeout''"
definition StatusCancelled :: string where [const_defs]: "StatusCancelled = ''cancelled''"

definition isTerminalStatus :: "string \<Rightarrow> bool" where
  "isTerminalStatus s \<longleftrightarrow> s = StatusCompleted \<or> s = StatusFailed \<or> s = StatusTimeout \<or> s = StatusCancelled"

definition is_active :: "string \<Rightarrow> bool" where
  "is_active s \<longleftrightarrow> s = StatusSpawned \<or> s = StatusRunning"

lemma statuses_distinct [simp]:
  "StatusSpawned \<noteq> StatusRunning" "\<not> isTerminalStatus StatusSpawned" "\<not> isTerminalStatus StatusRunning"
  "isTerminalStatus StatusCompleted" "isTerminalStatus StatusFailed" "isTerminalStatus StatusTimeout"
  "isTerminalStatus StatusCancelled" "is_active StatusSpawned" "is_active StatusRunning"
  by (simp_all add: isTerminalStatus_def is_active_def const_defs)

lemma active_not_terminal: "is_active s \<Longrightarrow> \<not> isTerminalStatus s"
  by (auto simp: is_active_def)

section \<open>The tables\<close>

text \<open>What a caller chooses when a dispatch is created, and the columns written later.\<close>

record dispatch_config =
  dcAgentType :: string
  dcProjectDir :: string
  dcPromptFile :: "string option"
  dcPromptHash :: "string option"
  dcOutputFile :: "string option"
  dcVerdictFile :: "string option"
  dcName :: "string option"
  dcModel :: "string option"
  dcSandbox :: "string option"
  dcSandboxSpec :: "string option"
  dcTimeoutSec :: "int option"
  dcScopeID :: "string option"
  dcParentID :: "string option"
  dcBaseRepoCommit :: "string option"
  dcSpawnDepth :: int
  dcParentDispatchID :: string

record dispatch =
  dpID :: string
  dpConfig :: dispatch_config
  dpStatus :: string
  dpPID :: "int option"
  dpExitCode :: "int option"
  dpSandboxEffective :: "string option"
  dpTurns :: int
  dpCommands :: int
  dpMessages :: int
  dpInputTokens :: int
  dpOutputTokens :: int
  dpCacheHits :: "int option"
  dpCreatedAt :: int
  dpStartedAt :: "int option"
  dpCompletedAt :: "int option"
  dpVerdictStatus :: "string option"
  dpVerdictSummary :: "string option"
  dpErrorMessage :: "string option"
  dpRetryCount :: int
  dpConflictType :: "string option"
  dpQuarantineReason :: "string option"

abbreviation dpScopeID :: "dispatch \<Rightarrow> string option" where
  "dpScopeID r \<equiv> dcScopeID (dpConfig r)"

text \<open>An entry of \<^verbatim>\<open>UpdateFields\<close>; \<open>UOther\<close> is a column outside \<^verbatim>\<open>allowedUpdateCols\<close>.\<close>

datatype field_update =
    UPid "int option" | UExitCode "int option" | UStartedAt "int option" | UCompletedAt "int option"
  | UTurns int | UCommands int | UMessages int | UInputTokens int | UOutputTokens int
  | UCacheHits "int option" | UVerdictStatus "string option" | UVerdictSummary "string option"
  | UErrorMessage "string option" | URetryCount int | UConflictType "string option"
  | UQuarantineReason "string option" | USandboxEffective "string option" | UOther string

fun allowedUpdateCols :: "field_update \<Rightarrow> bool" where
  "allowedUpdateCols (UOther col) = False"
| "allowedUpdateCols _ = True"

fun set_field :: "field_update \<Rightarrow> dispatch \<Rightarrow> dispatch" where
  "set_field (UPid v) r = r\<lparr>dpPID := v\<rparr>"
| "set_field (UExitCode v) r = r\<lparr>dpExitCode := v\<rparr>"
| "set_field (UStartedAt v) r = r\<lparr>dpStartedAt := v\<rparr>"
| "set_field (UCompletedAt v) r = r\<lparr>dpCompletedAt := v\<rparr>"
| "set_field (UTurns v) r = r\<lparr>dpTurns := v\<rparr>"
| "set_field (UCommands v) r = r\<lparr>dpCommands := v\<rparr>"
| "set_field (UMessages v) r = r\<lparr>dpMessages := v\<rparr>"
| "set_field (UInputTokens v) r = r\<lparr>dpInputTokens := v\<rparr>"
| "set_field (UOutputTokens v) r = r\<lparr>dpOutputTokens := v\<rparr>"
| "set_field (UCacheHits v) r = r\<lparr>dpCacheHits := v\<rparr>"
| "set_field (UVerdictStatus v) r = r\<lparr>dpVerdictStatus := v\<rparr>"
| "set_field (UVerdictSummary v) r = r\<lparr>dpVerdictSummary := v\<rparr>"
| "set_field (UErrorMessage v) r = r\<lparr>dpErrorMessage := v\<rparr>"
| "set_field (URetryCount v) r = r\<lparr>dpRetryCount := v\<rparr>"
| "set_field (UConflictType v) r = r\<lparr>dpConflictType := v\<rparr>"
| "set_field (UQuarantineReason v) r = r\<lparr>dpQuarantineReason := v\<rparr>"
| "set_field (USandboxEffective v) r = r\<lparr>dpSandboxEffective := v\<rparr>"
| "set_field (UOther col) r = r"

definition set_fields :: "field_update list \<Rightarrow> dispatch \<Rightarrow> dispatch" where
  "set_fields us r = fold set_field us r"

record dispatch_event =
  deID :: int
  deDispatchID :: string
  deRunID :: "string option"
  deFromStatus :: string
  deToStatus :: string
  deEventType :: string
  deReason :: "string option"
  deCreatedAt :: int

text \<open>The evidence a writer records with an outcome, stored as it is given.\<close>

record outcome_details =
  odExitCode :: "int option"
  odExitSignal :: string
  odFailureClass :: string
  odInputTokens :: "int option"
  odOutputTokens :: "int option"
  odCacheReadTokens :: "int option"
  odCacheWriteTokens :: "int option"
  odProducerBackend :: string
  odProducerModel :: string
  odRouteDecisionID :: "int option"
  odReportPath :: string
  odReportSHA256 :: string
  odBaseCommit :: string
  odBaseWorktreeDigest :: string
  odHeadCommit :: string
  odHeadWorktreeDigest :: string
  odOrphansKilled :: int

record terminal =
  tmStatus :: string
  tmSource :: string
  tmEvidence :: string
  tmReason :: string
  tmFields :: "field_update list"
  tmUsageStatus :: string
  tmArtifactsJSON :: string
  tmDetails :: outcome_details

record terminal_record =
  trDispatchID :: string
  trRunID :: string
  trAttempt :: int
  trParentDispatchID :: string
  trStatus :: string
  trFromStatus :: string
  trSource :: string
  trEvidence :: string
  trUsageStatus :: string
  trArtifactsJSON :: string
  trDetails :: outcome_details
  trContested :: bool
  trEventID :: int
  trCreatedAt :: int

record dispatch_intent =
  inDispatchID :: string
  inKind :: string
  inReason :: string
  inRequestedBy :: string
  inCreatedAt :: int

record state_row =
  srKey :: string
  srScopeID :: string
  srPayload :: string
  srUpdatedAt :: int
  srExpiresAt :: "int option"

text \<open>
  Of \<^verbatim>\<open>dispatch_supervision\<close>, \<^verbatim>\<open>dispatch_consumptions\<close> and
  \<^verbatim>\<open>dispatch_terminal_deliveries\<close> only the dispatch identifiers matter here.
\<close>

record dispatch_db =
  ddRows :: "dispatch list"
  ddEvents :: "dispatch_event list"
  ddEventSeq :: int
  ddTerminals :: "terminal_record list"
  ddSupervision :: "string list"
  ddIntents :: "dispatch_intent list"
  ddConsumptions :: "string list"
  ddDeliveries :: "string list"
  ddState :: "state_row list"
  ddRuns :: "run list"

datatype dispatch_error =
    DispatchNotFound
  | ErrStaleStatus
  | DisallowedColumn
  | DuplicateDispatchID string
  | SupervisionGuard
  | TerminalRecordUnique
  | NotTerminalStatus string
  | NotWriterSource string
  | NotWriterEvidence string
  | NotUsageStatus string
  | ErrSupervised
  | ErrAlreadyTerminal "terminal_record option"
  | TerminalCASMissed

abbreviation supervised :: "dispatch_db \<Rightarrow> string \<Rightarrow> bool" where
  "supervised d did \<equiv> did \<in> set (ddSupervision d)"

definition readTerminal :: "dispatch_db \<Rightarrow> string \<Rightarrow> terminal_record option" where
  "readTerminal d did = sql_first (\<lambda>t. trDispatchID t = did) (ddTerminals d)"

definition GetDispatch :: "dispatch_db \<Rightarrow> string \<Rightarrow> dispatch_error + dispatch" where
  "GetDispatch d did =
     (case sql_first (\<lambda>r. dpID r = did) (ddRows d) of
        None \<Rightarrow> Inl DispatchNotFound
      | Some r \<Rightarrow> Inr r)"

section \<open>Creation\<close>

definition new_dispatch :: "string \<Rightarrow> int \<Rightarrow> dispatch_config \<Rightarrow> int \<Rightarrow> dispatch" where
  "new_dispatch did now c retryCount =
     \<lparr>dpID = did, dpConfig = c, dpStatus = StatusSpawned, dpPID = None, dpExitCode = None,
      dpSandboxEffective = None, dpTurns = 0, dpCommands = 0, dpMessages = 0, dpInputTokens = 0,
      dpOutputTokens = 0, dpCacheHits = None, dpCreatedAt = now, dpStartedAt = None, dpCompletedAt = None,
      dpVerdictStatus = None, dpVerdictSummary = None, dpErrorMessage = None,
      dpRetryCount = retryCount, dpConflictType = None, dpQuarantineReason = None\<rparr>"

definition createDispatch ::
    "string \<Rightarrow> int \<Rightarrow> dispatch_config \<Rightarrow> int \<Rightarrow> dispatch_db \<Rightarrow> dispatch_error + dispatch_db" where
  "createDispatch did now c retryCount d =
     (if \<exists>r \<in> set (ddRows d). dpID r = did then Inl (DuplicateDispatchID did)
      else Inr (d\<lparr>ddRows := ddRows d @ [new_dispatch did now c retryCount]\<rparr>))"

section \<open>Writing a status\<close>

definition insert_event ::
    "int \<Rightarrow> string \<Rightarrow> string option \<Rightarrow> string \<Rightarrow> string \<Rightarrow> string option \<Rightarrow> dispatch_db \<Rightarrow> int \<times> dispatch_db" where
  "insert_event now did runID fromStatus toStatus reason d =
     (let eid = ddEventSeq d + 1 in
      (eid, d\<lparr>ddEvents := ddEvents d @ [\<lparr>deID = eid, deDispatchID = did, deRunID = runID, deFromStatus = fromStatus,
                deToStatus = toStatus, deEventType = ''terminal'', deReason = reason, deCreatedAt = now\<rparr>],
              ddEventSeq := eid\<rparr>))"

text \<open>A table with a primary key refuses a second row of one dispatch.\<close>

definition insert_terminal :: "terminal_record \<Rightarrow> dispatch_db \<Rightarrow> dispatch_error + dispatch_db" where
  "insert_terminal t d =
     (if \<exists>t' \<in> set (ddTerminals d). trDispatchID t' = trDispatchID t then Inl TerminalRecordUnique
      else Inr (d\<lparr>ddTerminals := ddTerminals d @ [t]\<rparr>))"

definition no_details :: "int option \<Rightarrow> outcome_details" where
  "no_details exitCode =
     \<lparr>odExitCode = exitCode, odExitSignal = [], odFailureClass = [], odInputTokens = None, odOutputTokens = None,
      odCacheReadTokens = None, odCacheWriteTokens = None, odProducerBackend = [], odProducerModel = [],
      odRouteDecisionID = None, odReportPath = [], odReportSHA256 = [], odBaseCommit = [],
      odBaseWorktreeDigest = [], odHeadCommit = [], odHeadWorktreeDigest = [], odOrphansKilled = 0\<rparr>"

definition coalesce_text :: "string option \<Rightarrow> string" where
  "coalesce_text s = (case s of Some v \<Rightarrow> v | None \<Rightarrow> [])"

text \<open>The trigger \<^verbatim>\<open>dispatches_terminal_outbox\<close>, after the row became \<open>new\<close>.\<close>

definition terminal_outbox :: "int \<Rightarrow> string \<Rightarrow> dispatch \<Rightarrow> dispatch_db \<Rightarrow> dispatch_error + dispatch_db" where
  "terminal_outbox now oldStatus new d =
     (if \<not> isTerminalStatus oldStatus \<and> isTerminalStatus (dpStatus new) \<and> readTerminal d (dpID new) = None then
        let (eid, d') = insert_event now (dpID new) (dpScopeID new) oldStatus (dpStatus new)
                          (Some ''status written without a terminal record'') d
        in insert_terminal
             \<lparr>trDispatchID = dpID new, trRunID = coalesce_text (dpScopeID new), trAttempt = dpRetryCount new,
              trParentDispatchID = dcParentDispatchID (dpConfig new), trStatus = dpStatus new,
              trFromStatus = oldStatus, trSource = ''trigger'', trEvidence = ''unrecorded'',
              trUsageStatus = ''unknown'', trArtifactsJSON = ''{}'', trDetails = no_details (dpExitCode new),
              trContested = False, trEventID = eid, trCreatedAt = now\<rparr> d'
      else Inr d)"

text \<open>
  \<^verbatim>\<open>UPDATE dispatches SET status = ?, ... WHERE id = ? AND cond\<close> with the triggers
  before and after it, and its \<^verbatim>\<open>RowsAffected\<close>.
\<close>

definition write_status ::
    "int \<Rightarrow> string \<Rightarrow> (string \<Rightarrow> bool) \<Rightarrow> string \<Rightarrow> field_update list \<Rightarrow> dispatch_db
      \<Rightarrow> dispatch_error + nat \<times> dispatch_db" where
  "write_status now did cond status us d =
     (case sql_first (\<lambda>r. dpID r = did \<and> cond (dpStatus r)) (ddRows d) of
        None \<Rightarrow> Inr (0, d)
      | Some old \<Rightarrow>
          if \<not> isTerminalStatus (dpStatus old) \<and> isTerminalStatus status \<and> supervised d did
             \<and> readTerminal d did = None
          then Inl SupervisionGuard
          else
            let new = set_fields us (old\<lparr>dpStatus := status\<rparr>);
                d' = d\<lparr>ddRows := sql_update (\<lambda>r. dpID r = did \<and> cond (dpStatus r)) (\<lambda>_. new) (ddRows d)\<rparr>
            in sum_bind (terminal_outbox now (dpStatus old) new d') (\<lambda>d''. Inr (1, d'')))"

type_synonym transition_call = "string \<times> string \<times> string \<times> string"

definition UpdateStatus ::
    "bool \<Rightarrow> int \<Rightarrow> string \<Rightarrow> string \<Rightarrow> field_update list \<Rightarrow> dispatch_db
      \<Rightarrow> dispatch_error + dispatch_db \<times> transition_call list" where
  "UpdateStatus recorder now did status us d =
     (case sql_first (\<lambda>r. dpID r = did) (ddRows d) of
        None \<Rightarrow> Inl DispatchNotFound
      | Some row \<Rightarrow>
          let prevStatus = dpStatus row in
          if isTerminalStatus prevStatus then Inl ErrStaleStatus
          else if list_ex (\<lambda>u. \<not> allowedUpdateCols u) us then Inl DisallowedColumn
          else sum_bind (write_status now did (\<lambda>s. s = prevStatus) status us d) (\<lambda>(n, d').
            if n = 0 then Inl ErrStaleStatus
            else Inr (d', if recorder \<and> status \<noteq> prevStatus
                          then [(did, coalesce_text (dpScopeID row), prevStatus, status)] else [])))"

definition UpdateTokens :: "string \<Rightarrow> field_update list \<Rightarrow> dispatch_db \<Rightarrow> dispatch_error + dispatch_db" where
  "UpdateTokens did us d =
     (if us = [] then Inr d
      else if list_ex (\<lambda>u. \<not> allowedUpdateCols u) us then Inl DisallowedColumn
      else
        let P = (\<lambda>r. dpID r = did \<and> \<not> (dcAgentType (dpConfig r) = ''flere'' \<and> isTerminalStatus (dpStatus r))) in
        if rows_affected P (ddRows d) = 0 then
          (case GetDispatch d did of Inl e \<Rightarrow> Inl e | Inr _ \<Rightarrow> Inl ErrStaleStatus)
        else Inr (d\<lparr>ddRows := sql_update P (set_fields us) (ddRows d)\<rparr>))"

section \<open>The terminal writer\<close>

definition writer_sources :: "string list" where
  "writer_sources = [''supervisor'', ''reconcile'', ''collect'', ''spawn'', ''cancel_by_run'', ''kill'', ''spool'']"

definition writer_evidence :: "string list" where
  "writer_evidence = [''verified'', ''missing'', ''malformed'', ''mismatched'', ''not_applicable'']"

definition usage_statuses :: "string list" where
  "usage_statuses = [''complete'', ''incomplete'', ''unknown'']"

definition supervisedWriter :: "string \<Rightarrow> bool" where
  "supervisedWriter source \<longleftrightarrow> source = ''supervisor'' \<or> source = ''reconcile'' \<or> source = ''spool''"

definition validate :: "terminal \<Rightarrow> dispatch_error option" where
  "validate t =
     (if \<not> isTerminalStatus (tmStatus t) then Some (NotTerminalStatus (tmStatus t))
      else if tmSource t \<notin> set writer_sources then Some (NotWriterSource (tmSource t))
      else if tmEvidence t \<notin> set writer_evidence then Some (NotWriterEvidence (tmEvidence t))
      else if tmUsageStatus t \<noteq> [] \<and> tmUsageStatus t \<notin> set usage_statuses then Some (NotUsageStatus (tmUsageStatus t))
      else if list_ex (\<lambda>u. \<not> allowedUpdateCols u) (tmFields t) then Some DisallowedColumn
      else None)"

definition terminal_record_of :: "int \<Rightarrow> dispatch \<Rightarrow> terminal \<Rightarrow> int \<Rightarrow> terminal_record" where
  "terminal_record_of now row t eventID =
     \<lparr>trDispatchID = dpID row, trRunID = coalesce_text (dpScopeID row), trAttempt = dpRetryCount row,
      trParentDispatchID = dcParentDispatchID (dpConfig row), trStatus = tmStatus t, trFromStatus = dpStatus row,
      trSource = tmSource t, trEvidence = tmEvidence t,
      trUsageStatus = (if tmUsageStatus t = [] then ''unknown'' else tmUsageStatus t),
      trArtifactsJSON = (if tmArtifactsJSON t = [] then ''{}'' else tmArtifactsJSON t),
      trDetails = tmDetails t, trContested = False, trEventID = eventID, trCreatedAt = now\<rparr>"

definition null_if_empty :: "string \<Rightarrow> string option" where
  "null_if_empty s = (if s = [] then None else Some s)"

text \<open>The record that is returned, the previous status and the new tables.\<close>

definition terminalizeTx ::
    "int \<Rightarrow> string \<Rightarrow> terminal \<Rightarrow> dispatch_db \<Rightarrow> dispatch_error + terminal_record option \<times> string \<times> dispatch_db" where
  "terminalizeTx now did t d =
     (case sql_first (\<lambda>r. dpID r = did) (ddRows d) of
        None \<Rightarrow> Inl DispatchNotFound
      | Some row \<Rightarrow>
          let prev = dpStatus row in
          if isTerminalStatus prev then Inl (ErrAlreadyTerminal (readTerminal d did))
          else if \<not> supervisedWriter (tmSource t) \<and> supervised d did then Inl ErrSupervised
          else
            let runID = coalesce_text (dpScopeID row);
                (eventID, d1) = insert_event now did (null_if_empty runID) prev (tmStatus t)
                                  (null_if_empty (tmReason t)) d
            in sum_bind (insert_terminal (terminal_record_of now row t eventID) d1) (\<lambda>d2.
                 sum_bind (write_status now did (\<lambda>s. \<not> isTerminalStatus s) (tmStatus t) (tmFields t) d2) (\<lambda>(n, d3).
                   if n = 0 then Inl TerminalCASMissed
                   else Inr (readTerminal d3 did, prev, d3))))"

definition Terminalize ::
    "bool \<Rightarrow> int \<Rightarrow> string \<Rightarrow> terminal \<Rightarrow> dispatch_db
      \<Rightarrow> dispatch_error + terminal_record option \<times> dispatch_db \<times> transition_call list" where
  "Terminalize recorder now did t d =
     (case validate t of
        Some e \<Rightarrow> Inl e
      | None \<Rightarrow>
          (case terminalizeTx now did t d of
             Inl TerminalRecordUnique \<Rightarrow> Inl (ErrAlreadyTerminal (readTerminal d did))
           | Inl TerminalCASMissed \<Rightarrow> Inl (ErrAlreadyTerminal (readTerminal d did))
           | Inl e \<Rightarrow> Inl e
           | Inr (rec, prev, d') \<Rightarrow>
               Inr (rec, d', if recorder
                  then [(did, case rec of Some r \<Rightarrow> trRunID r | None \<Rightarrow> [], prev, tmStatus t)] else [])))"

section \<open>Cancellation, process identity, pruning\<close>

definition rollback_outcome :: "int \<Rightarrow> string \<Rightarrow> terminal" where
  "rollback_outcome now runID =
     \<lparr>tmStatus = StatusCancelled, tmSource = ''cancel_by_run'', tmEvidence = ''not_applicable'',
      tmReason = ''run '' @ runID @ '' rolled back'', tmFields = [UCompletedAt (Some now)], tmUsageStatus = [],
      tmArtifactsJSON = [], tmDetails = no_details None\<rparr>"

text \<open>The loop of \<^verbatim>\<open>CancelByRun\<close> over its candidates: identifier, status, supervised.\<close>

fun cancel_loop ::
    "int \<Rightarrow> string \<Rightarrow> (string \<times> string \<times> bool) list \<Rightarrow> (string \<times> string) list \<Rightarrow> dispatch_db
      \<Rightarrow> dispatch_error + (string \<times> string) list \<times> dispatch_db" where
  "cancel_loop now runID [] cancelled d = Inr (cancelled, d)"
| "cancel_loop now runID ((did, prev, guarded) # rest) cancelled d =
     (if guarded then
        cancel_loop now runID rest cancelled
          (d\<lparr>ddIntents := ddIntents d @ [\<lparr>inDispatchID = did, inKind = ''run_rollback'',
             inReason = ''run '' @ runID @ '' rolled back'', inRequestedBy = ''cancel_by_run'', inCreatedAt = now\<rparr>]\<rparr>)
      else sum_bind (terminalizeTx now did (rollback_outcome now runID) d) (\<lambda>(rec, p, d').
             cancel_loop now runID rest (cancelled @ [(did, prev)]) d'))"

definition cancel_candidates :: "string \<Rightarrow> dispatch_db \<Rightarrow> (string \<times> string \<times> bool) list" where
  "cancel_candidates runID d =
     map (\<lambda>r. (dpID r, dpStatus r, supervised d (dpID r)))
       (filter (\<lambda>r. dpScopeID r = Some runID \<and> \<not> isTerminalStatus (dpStatus r)) (ddRows d))"

definition CancelByRun ::
    "bool \<Rightarrow> int \<Rightarrow> string \<Rightarrow> dispatch_db \<Rightarrow> dispatch_error + int \<times> dispatch_db \<times> transition_call list" where
  "CancelByRun recorder now runID d =
     sum_bind (cancel_loop now runID (cancel_candidates runID d) [] d) (\<lambda>(cancelled, d').
       Inr (int (length cancelled), d',
            if recorder then map (\<lambda>(did, prev). (did, runID, prev, StatusCancelled)) cancelled else []))"

text \<open>The identity has been read and checked; \<open>payload\<close> is its JSON text.\<close>

definition recordProcessIdentity ::
    "bool \<Rightarrow> int \<Rightarrow> string \<Rightarrow> int \<Rightarrow> string \<Rightarrow> dispatch_db \<Rightarrow> dispatch_error + dispatch_db \<times> transition_call list" where
  "recordProcessIdentity recorder now did pid payload d =
     (if \<exists>s \<in> set (ddState d). srKey s = ''dispatch.process'' \<and> srScopeID s = did
      then Inl (DuplicateDispatchID did)
      else
        let d1 = d\<lparr>ddState := ddState d @ [\<lparr>srKey = ''dispatch.process'', srScopeID = did, srPayload = payload,
                    srUpdatedAt = now, srExpiresAt = None\<rparr>]\<rparr>
        in sum_bind (write_status now did (\<lambda>s. s = StatusSpawned) StatusRunning
                       [UPid (Some pid), UStartedAt (Some now)] d1) (\<lambda>(n, d2).
             if n \<noteq> 1 then Inl ErrStaleStatus
             else Inr (d2, if recorder then
               [(did, coalesce_text (case GetDispatch d2 did of Inr r \<Rightarrow> dpScopeID r | Inl _ \<Rightarrow> None),
                 StatusSpawned, StatusRunning)] else [])))"

definition Prune_dispatches :: "int \<Rightarrow> int \<Rightarrow> dispatch_db \<Rightarrow> int \<times> dispatch_db" where
  "Prune_dispatches now olderThanSeconds d =
     (let threshold = now - olderThanSeconds;
          old = (\<lambda>r. dpCreatedAt r < threshold \<and> \<not> is_active (dpStatus r));
          rows = filter (\<lambda>r. \<not> old r) (ddRows d);
          kept = (\<lambda>did. did \<in> dpID ` set rows)
      in (int (rows_affected old (ddRows d)),
          d\<lparr>ddRows := rows,
            ddState := filter (\<lambda>s. srKey s = ''dispatch.process'' \<longrightarrow> kept (srScopeID s)) (ddState d),
            ddTerminals := filter (\<lambda>t. kept (trDispatchID t)) (ddTerminals d),
            ddSupervision := filter kept (ddSupervision d),
            ddIntents := filter (\<lambda>i. kept (inDispatchID i)) (ddIntents d),
            ddConsumptions := filter kept (ddConsumptions d),
            ddDeliveries := filter kept (ddDeliveries d)\<rparr>))"

section \<open>Queries\<close>

definition ListActive :: "dispatch_db \<Rightarrow> dispatch list" where
  "ListActive d = order_desc dpCreatedAt (filter (\<lambda>r. is_active (dpStatus r)) (ddRows d))"

definition CountActiveByScope :: "dispatch_db \<Rightarrow> string \<Rightarrow> nat" where
  "CountActiveByScope d scope = rows_affected (\<lambda>r. dpScopeID r = Some scope \<and> is_active (dpStatus r)) (ddRows d)"

definition CountActiveGlobal :: "dispatch_db \<Rightarrow> nat" where
  "CountActiveGlobal d = rows_affected (\<lambda>r. is_active (dpStatus r)) (ddRows d)"

definition CountTotalByScope :: "dispatch_db \<Rightarrow> string \<Rightarrow> nat" where
  "CountTotalByScope d scope = rows_affected (\<lambda>r. dpScopeID r = Some scope) (ddRows d)"

definition ListDispatches :: "string option \<Rightarrow> dispatch_db \<Rightarrow> dispatch list" where
  "ListDispatches scope d =
     order_desc dpCreatedAt
       (case scope of None \<Rightarrow> ddRows d | Some s \<Rightarrow> filter (\<lambda>r. dpScopeID r = Some s) (ddRows d))"

definition AggregateTokens :: "dispatch_db \<Rightarrow> string \<Rightarrow> int \<times> int \<times> int" where
  "AggregateTokens d scope =
     (let rows = filter (\<lambda>r. dpScopeID r = Some scope) (ddRows d)
      in (sum_list (map dpInputTokens rows), sum_list (map dpOutputTokens rows),
          sum_list (map (\<lambda>r. case dpCacheHits r of Some c \<Rightarrow> c | None \<Rightarrow> 0) rows)))"

definition HasVerdict :: "dispatch_db \<Rightarrow> string \<Rightarrow> bool" where
  "HasVerdict d scope \<longleftrightarrow> scope \<noteq> [] \<and>
     0 < rows_affected (\<lambda>r. dpScopeID r = Some scope \<and> dpVerdictStatus r \<noteq> None
           \<and> dpVerdictStatus r \<noteq> Some ''reject'') (ddRows d)"

definition CountUncleanVerdicts :: "dispatch_db \<Rightarrow> string \<Rightarrow> nat" where
  "CountUncleanVerdicts d scope =
     (if scope = [] then 0
      else rows_affected (\<lambda>r. dpScopeID r = Some scope
             \<and> (dpVerdictStatus r = Some ''fail'' \<or> dpVerdictStatus r = Some ''error'')) (ddRows d))"

definition ListConcurrentDispatches :: "string \<Rightarrow> string \<Rightarrow> dispatch_db \<Rightarrow> dispatch list" where
  "ListConcurrentDispatches did scope d =
     (if scope = [] then []
      else order_asc dpCreatedAt (filter (\<lambda>r. dpScopeID r = Some scope \<and> dpID r \<noteq> did
             \<and> dcBaseRepoCommit (dpConfig r) \<noteq> None
             \<and> (is_active (dpStatus r) \<or> dpStatus r = StatusCompleted)) (ddRows d)))"

end
