(* ===== verification/DispatchSafety.thy ===== *)
theory DispatchSafety
  imports Dispatch
begin

text \<open>
  The life of a dispatch. Every operation of the store is a sequence of four
  kinds of effects: nothing that ends a dispatch, a new dispatch, the end of one
  dispatch with its terminal event and record, and pruning. The invariant of the
  terminal records and the finality of outcomes follow from these effects.
\<close>

section \<open>Effects\<close>

definition steady :: "dispatch \<Rightarrow> dispatch \<Rightarrow> bool" where
  "steady r r' \<longleftrightarrow> dpID r' = dpID r \<and> dpConfig r' = dpConfig r
     \<and> (dpStatus r' = dpStatus r \<or> \<not> isTerminalStatus (dpStatus r) \<and> \<not> isTerminalStatus (dpStatus r'))"

definition replace_row :: "dispatch \<Rightarrow> dispatch list \<Rightarrow> dispatch list" where
  "replace_row new rows = map (\<lambda>r. if dpID r = dpID new then new else r) rows"

text \<open>The event and the record that report that \<open>old\<close> became \<open>new\<close>.\<close>

definition reported :: "dispatch \<Rightarrow> dispatch \<Rightarrow> terminal_record \<Rightarrow> dispatch_event \<Rightarrow> bool" where
  "reported old new t e \<longleftrightarrow>
     trDispatchID t = dpID old \<and> trStatus t = dpStatus new \<and> trFromStatus t = dpStatus old
     \<and> trRunID t = coalesce_text (dpScopeID old) \<and> trEventID t = deID e \<and> deDispatchID e = dpID old
     \<and> deFromStatus e = dpStatus old \<and> deToStatus e = dpStatus new"

inductive effect :: "dispatch_db \<Rightarrow> dispatch_db \<Rightarrow> bool" where
  quiet: "list_all2 steady (ddRows d) (ddRows d') \<Longrightarrow> ddTerminals d' = ddTerminals d \<Longrightarrow>
     ddEvents d' = ddEvents d \<Longrightarrow> ddEventSeq d' = ddEventSeq d \<Longrightarrow>
     set (ddSupervision d) \<subseteq> set (ddSupervision d') \<Longrightarrow> effect d d'"
| created: "dpID r \<notin> dpID ` set (ddRows d) \<Longrightarrow> dpStatus r = StatusSpawned \<Longrightarrow>
     effect d (d\<lparr>ddRows := ddRows d @ [r]\<rparr>)"
| ended: "old \<in> set (ddRows d) \<Longrightarrow> \<not> isTerminalStatus (dpStatus old) \<Longrightarrow> isTerminalStatus (dpStatus new) \<Longrightarrow>
     dpID new = dpID old \<Longrightarrow> dpConfig new = dpConfig old \<Longrightarrow> reported old new t e \<Longrightarrow> deID e = ddEventSeq d + 1 \<Longrightarrow>
     (supervised d (dpID old) \<longrightarrow> supervisedWriter (trSource t)) \<Longrightarrow>
     effect d (d\<lparr>ddRows := replace_row new (ddRows d), ddTerminals := ddTerminals d @ [t],
                ddEvents := ddEvents d @ [e], ddEventSeq := ddEventSeq d + 1\<rparr>)"

text \<open>
  One terminal record for each terminal dispatch, none for the others, and each
  record names the event that reports it.
\<close>

definition terminals_ok :: "dispatch_db \<Rightarrow> bool" where
  "terminals_ok d \<longleftrightarrow>
     distinct (map dpID (ddRows d)) \<and> distinct (map trDispatchID (ddTerminals d))
     \<and> (\<forall>r \<in> set (ddRows d). isTerminalStatus (dpStatus r) \<longrightarrow> dpID r \<in> trDispatchID ` set (ddTerminals d))
     \<and> (\<forall>t \<in> set (ddTerminals d). (\<exists>r \<in> set (ddRows d). dpID r = trDispatchID t \<and> dpStatus r = trStatus t)
          \<and> isTerminalStatus (trStatus t) \<and> \<not> isTerminalStatus (trFromStatus t)
          \<and> (\<exists>e \<in> set (ddEvents d). deID e = trEventID t \<and> deDispatchID e = trDispatchID t
               \<and> deFromStatus e = trFromStatus t \<and> deToStatus e = trStatus t))
     \<and> distinct (map deID (ddEvents d)) \<and> (\<forall>e \<in> set (ddEvents d). deID e \<le> ddEventSeq d)"

lemma terminals_okD:
  assumes "terminals_ok d"
  shows "distinct (map dpID (ddRows d))" "distinct (map trDispatchID (ddTerminals d))"
    "r \<in> set (ddRows d) \<Longrightarrow> isTerminalStatus (dpStatus r) \<Longrightarrow> dpID r \<in> trDispatchID ` set (ddTerminals d)"
    "t \<in> set (ddTerminals d) \<Longrightarrow> \<exists>r \<in> set (ddRows d). dpID r = trDispatchID t \<and> dpStatus r = trStatus t"
    "t \<in> set (ddTerminals d) \<Longrightarrow> isTerminalStatus (trStatus t) \<and> \<not> isTerminalStatus (trFromStatus t)"
    "t \<in> set (ddTerminals d) \<Longrightarrow> \<exists>e \<in> set (ddEvents d). deID e = trEventID t \<and> deDispatchID e = trDispatchID t
               \<and> deFromStatus e = trFromStatus t \<and> deToStatus e = trStatus t"
    "distinct (map deID (ddEvents d))" "e \<in> set (ddEvents d) \<Longrightarrow> deID e \<le> ddEventSeq d"
  using assms by (auto simp: terminals_ok_def)

lemma same_row:
  assumes "terminals_ok d" "r \<in> set (ddRows d)" "r' \<in> set (ddRows d)" "dpID r = dpID r'"
  shows "r = r'"
  using assms by (auto simp: terminals_ok_def distinct_map inj_on_def)

lemma unfinished_unrecorded:
  assumes "terminals_ok d" "r \<in> set (ddRows d)" "\<not> isTerminalStatus (dpStatus r)"
  shows "dpID r \<notin> trDispatchID ` set (ddTerminals d)"
proof
  assume "dpID r \<in> trDispatchID ` set (ddTerminals d)"
  then obtain t where t: "t \<in> set (ddTerminals d)" "dpID r = trDispatchID t" by auto
  with terminals_okD(4) [OF assms(1) t(1)] same_row [OF assms(1,2)] terminals_okD(5) [OF assms(1) t(1)] assms(3)
  show False by auto
qed

lemma replace_row_set:
  assumes "old \<in> set rows" "dpID new = dpID old"
  shows "set (replace_row new rows) = insert new {r \<in> set rows. dpID r \<noteq> dpID old}"
  using assms by (auto simp: replace_row_def)

lemma replace_row_ids [simp]: "map dpID (replace_row new rows) = map dpID rows"
  by (simp add: replace_row_def)

lemma steady_ids: "list_all2 steady rows rows' \<Longrightarrow> map dpID rows' = map dpID rows"
  by (induction rule: list_all2_induct) (simp_all add: steady_def)

lemma steady_old: "list_all2 steady rows rows' \<Longrightarrow> r' \<in> set rows' \<Longrightarrow> \<exists>r \<in> set rows. steady r r'"
  by (induction rule: list_all2_induct) auto

lemma steady_new: "list_all2 steady rows rows' \<Longrightarrow> r \<in> set rows \<Longrightarrow> \<exists>r' \<in> set rows'. steady r r'"
  by (induction rule: list_all2_induct) auto

lemma effect_ok:
  assumes "effect d d'" "terminals_ok d"
  shows "terminals_ok d'"
  using assms
proof cases
  case quiet
  have "\<exists>r' \<in> set (ddRows d'). dpID r' = trDispatchID t \<and> dpStatus r' = trStatus t"
    if t: "t \<in> set (ddTerminals d)" for t
  proof -
    obtain r where r: "r \<in> set (ddRows d)" "dpID r = trDispatchID t" "dpStatus r = trStatus t"
      using terminals_okD(4) [OF assms(2) t] by auto
    obtain r' where "r' \<in> set (ddRows d')" "steady r r'"
      using steady_new [OF quiet(1) r(1)] by auto
    with r terminals_okD(5) [OF assms(2) t] show ?thesis by (auto simp: steady_def)
  qed
  moreover have "dpID r' \<in> trDispatchID ` set (ddTerminals d)"
    if r': "r' \<in> set (ddRows d')" "isTerminalStatus (dpStatus r')" for r'
  proof -
    obtain r where "r \<in> set (ddRows d)" "steady r r'" using steady_old [OF quiet(1) r'(1)] by auto
    with r'(2) terminals_okD(3) [OF assms(2), of r] show ?thesis by (auto simp: steady_def)
  qed
  ultimately show ?thesis
    using assms(2) quiet by (simp add: terminals_ok_def steady_ids)
next
  case (created r)
  then show ?thesis using assms(2)
    by (auto simp: terminals_ok_def)
next
  case (ended old new t e)
  have fresh: "dpID old \<notin> trDispatchID ` set (ddTerminals d)"
    by (rule unfinished_unrecorded [OF assms(2) ended(2,3)])
  have rows: "set (ddRows d') = insert new {r \<in> set (ddRows d). dpID r \<noteq> dpID old}"
    using ended by (simp add: replace_row_set)
  have others: "\<exists>r \<in> set (ddRows d'). dpID r = trDispatchID s \<and> dpStatus r = trStatus s"
    if "s \<in> set (ddTerminals d)" for s
    using terminals_okD(4) [OF assms(2) that] fresh that unfolding rows by fastforce
  show ?thesis
    unfolding terminals_ok_def
  proof (intro conjI ballI impI)
    show "distinct (map dpID (ddRows d'))" using ended(1) terminals_okD(1) [OF assms(2)] by simp
    show "distinct (map trDispatchID (ddTerminals d'))"
      using ended fresh terminals_okD(2) [OF assms(2)] by (auto simp: reported_def)
    show "dpID r \<in> trDispatchID ` set (ddTerminals d')"
      if "r \<in> set (ddRows d')" "isTerminalStatus (dpStatus r)" for r
      using that rows ended terminals_okD(3) [OF assms(2), of r] by (auto simp: reported_def)
    show "distinct (map deID (ddEvents d'))" "\<And>ev. ev \<in> set (ddEvents d') \<Longrightarrow> deID ev \<le> ddEventSeq d'"
      using ended terminals_okD(7,8) [OF assms(2)] by fastforce+
    fix s assume "s \<in> set (ddTerminals d')"
    then have s: "s \<in> set (ddTerminals d) \<or> s = t" using ended by auto
    show "\<exists>r \<in> set (ddRows d'). dpID r = trDispatchID s \<and> dpStatus r = trStatus s"
      using s others ended rows by (auto simp: reported_def)
    show "isTerminalStatus (trStatus s)" "\<not> isTerminalStatus (trFromStatus s)"
      using s ended terminals_okD(5) [OF assms(2)] by (auto simp: reported_def)
    show "\<exists>ev \<in> set (ddEvents d'). deID ev = trEventID s \<and> deDispatchID ev = trDispatchID s
        \<and> deFromStatus ev = trFromStatus s \<and> deToStatus ev = trStatus s"
      using s ended terminals_okD(6) [OF assms(2)] by (auto simp: reported_def)
  qed
qed

section \<open>The operations as effects\<close>

lemma set_field_keeps: "dpID (set_field u r) = dpID r \<and> dpConfig (set_field u r) = dpConfig r
    \<and> dpStatus (set_field u r) = dpStatus r"
  by (cases u) simp_all

lemma set_fields_keeps [simp]:
  "dpID (set_fields us r) = dpID r" "dpConfig (set_fields us r) = dpConfig r"
  "dpStatus (set_fields us r) = dpStatus r"
  unfolding set_fields_def by (induction us arbitrary: r) (simp_all add: set_field_keeps)

lemma steady_refl [simp]: "steady r r"
  by (simp add: steady_def)

lemma steady_sql_update:
  assumes "\<And>r. P r \<Longrightarrow> steady r (f r)"
  shows "list_all2 steady rows (sql_update P f rows)"
  by (induction rows) (auto simp: assms)

lemma update_is_replace:
  assumes "distinct (map dpID rows)" "old \<in> set rows" "P old" "dpID new = dpID old"
  shows "sql_update (\<lambda>r. dpID r = dpID old \<and> P r) (\<lambda>_. new) rows = replace_row new rows"
proof -
  have "r = old" if "r \<in> set rows" "dpID r = dpID old" for r
    using assms(1,2) that by (auto simp: distinct_map inj_on_def)
  then show ?thesis
    using assms(3,4) by (auto simp: sql_update_def replace_row_def)
qed

lemma steady_replace:
  assumes "distinct (map dpID rows)" "old \<in> set rows" "steady old new"
  shows "list_all2 steady rows (replace_row new rows)"
proof -
  have "r = old" if "r \<in> set rows" "dpID r = dpID old" for r
    using assms(1,2) that by (auto simp: distinct_map inj_on_def)
  with assms(3) have "steady r (if dpID r = dpID new then new else r)" if "r \<in> set rows" for r
    using that by (auto simp: steady_def)
  then show ?thesis
    unfolding replace_row_def list_all2_map2 by (intro list.rel_refl_strong)
qed

lemma readTerminal_None: "readTerminal d did = None \<longleftrightarrow> did \<notin> trDispatchID ` set (ddTerminals d)"
  by (auto simp: readTerminal_def sql_first_None)

lemma write_status_cases:
  assumes "write_status now did cond status us d = Inr (n, d')"
  obtains (none) "n = 0" "d' = d"
  | (row) old new where "old \<in> set (ddRows d)" "dpID old = did" "cond (dpStatus old)"
      "new = set_fields us (old\<lparr>dpStatus := status\<rparr>)" "n = 1"
      "\<not> isTerminalStatus (dpStatus old) \<and> isTerminalStatus status \<and> supervised d did \<longrightarrow> readTerminal d did \<noteq> None"
      "terminal_outbox now (dpStatus old) new
         (d\<lparr>ddRows := sql_update (\<lambda>r. dpID r = did \<and> cond (dpStatus r)) (\<lambda>_. new) (ddRows d)\<rparr>) = Inr d'"
proof (cases "sql_first (\<lambda>r. dpID r = did \<and> cond (dpStatus r)) (ddRows d)")
  case None
  with assms none show ?thesis by (simp add: write_status_def)
next
  case (Some old)
  with assms row [of old] sql_first_Some [OF Some] show ?thesis
    by (auto simp: write_status_def Let_def sum_bind_Inr_iff split: if_splits)
qed

text \<open>A status write on a dispatch that is not terminal.\<close>

lemma write_status_effect:
  assumes "terminals_ok d" "write_status now did cond status us d = Inr (n, d')"
    and cond: "\<And>s. cond s \<Longrightarrow> \<not> isTerminalStatus s"
  shows "effect\<^sup>*\<^sup>* d d'"
  using assms(2)
proof (cases rule: write_status_cases)
  case none
  then show ?thesis by simp
next
  case (row old new)
  have keys: "dpID new = dpID old" "dpConfig new = dpConfig old" "dpStatus new = status"
    by (simp_all add: row(4))
  have open_old: "\<not> isTerminalStatus (dpStatus old)" using cond row(3) by simp
  have none: "readTerminal d did = None"
    using unfinished_unrecorded [OF assms(1) row(1) open_old] row(2) by (simp add: readTerminal_None)
  have rows: "sql_update (\<lambda>r. dpID r = did \<and> cond (dpStatus r)) (\<lambda>_. new) (ddRows d) = replace_row new (ddRows d)"
    using update_is_replace [OF terminals_okD(1) [OF assms(1)] row(1) _ keys(1), of "\<lambda>r. cond (dpStatus r)"] row(2,3)
    by simp
  show ?thesis
  proof (cases "isTerminalStatus status")
    case False
    with row(7) keys(3) have d': "d' = d\<lparr>ddRows := replace_row new (ddRows d)\<rparr>"
      by (simp add: terminal_outbox_def rows)
    have "steady old new" using keys open_old False by (simp add: steady_def)
    then have "list_all2 steady (ddRows d) (replace_row new (ddRows d))"
      by (rule steady_replace [OF terminals_okD(1) [OF assms(1)] row(1)])
    then show ?thesis unfolding d' by (intro r_into_rtranclp effect.quiet) simp_all
  next
    case True
    let ?e = "\<lparr>deID = ddEventSeq d + 1, deDispatchID = dpID new, deRunID = dpScopeID new,
        deFromStatus = dpStatus old, deToStatus = dpStatus new, deEventType = ''terminal'',
        deReason = Some ''status written without a terminal record'', deCreatedAt = now\<rparr>"
    let ?t = "\<lparr>trDispatchID = dpID new, trRunID = coalesce_text (dpScopeID new), trAttempt = dpRetryCount new,
              trParentDispatchID = dcParentDispatchID (dpConfig new), trStatus = dpStatus new,
              trFromStatus = dpStatus old, trSource = ''trigger'', trEvidence = ''unrecorded'',
              trUsageStatus = ''unknown'', trArtifactsJSON = ''{}'', trDetails = no_details (dpExitCode new),
              trContested = False, trEventID = ddEventSeq d + 1, trCreatedAt = now\<rparr>"
    have unrec: "\<not> (\<exists>t' \<in> set (ddTerminals d). trDispatchID t' = did)"
      using none by (auto simp: readTerminal_None)
    have d': "d' = d\<lparr>ddRows := replace_row new (ddRows d), ddTerminals := ddTerminals d @ [?t],
        ddEvents := ddEvents d @ [?e], ddEventSeq := ddEventSeq d + 1\<rparr>"
      using row(7) [symmetric] True open_old keys none unrec row(2)
      by (simp add: terminal_outbox_def rows insert_event_def insert_terminal_def readTerminal_def Let_def)
    have free: "\<not> supervised d (dpID old)" using row(2,6) open_old True none by auto
    show ?thesis
      unfolding d'
      by (intro r_into_rtranclp effect.ended [OF row(1) open_old])
        (use True keys free in \<open>auto simp: reported_def\<close>)
  qed
qed

text \<open>The terminal writer on an open dispatch: one event, one record, one row.\<close>

definition ended_row :: "terminal \<Rightarrow> dispatch \<Rightarrow> dispatch" where
  "ended_row t old = set_fields (tmFields t) (old\<lparr>dpStatus := tmStatus t\<rparr>)"

definition terminal_event :: "int \<Rightarrow> dispatch \<Rightarrow> terminal \<Rightarrow> int \<Rightarrow> dispatch_event" where
  "terminal_event now old t eid =
     \<lparr>deID = eid, deDispatchID = dpID old, deRunID = null_if_empty (coalesce_text (dpScopeID old)),
      deFromStatus = dpStatus old, deToStatus = tmStatus t, deEventType = ''terminal'',
      deReason = null_if_empty (tmReason t), deCreatedAt = now\<rparr>"

definition ended_db :: "int \<Rightarrow> dispatch \<Rightarrow> terminal \<Rightarrow> dispatch_db \<Rightarrow> dispatch_db" where
  "ended_db now old t d =
     d\<lparr>ddRows := replace_row (ended_row t old) (ddRows d),
       ddTerminals := ddTerminals d @ [terminal_record_of now old t (ddEventSeq d + 1)],
       ddEvents := ddEvents d @ [terminal_event now old t (ddEventSeq d + 1)], ddEventSeq := ddEventSeq d + 1\<rparr>"

lemma ended_row_keeps [simp]:
  "dpID (ended_row t old) = dpID old" "dpConfig (ended_row t old) = dpConfig old"
  "dpStatus (ended_row t old) = tmStatus t"
  by (simp_all add: ended_row_def)

lemma readTerminal_ended:
  assumes "terminals_ok d" "old \<in> set (ddRows d)" "\<not> isTerminalStatus (dpStatus old)"
  shows "readTerminal (ended_db now old t d) (dpID old) = Some (terminal_record_of now old t (ddEventSeq d + 1))"
proof -
  have "sql_first (\<lambda>t. trDispatchID t = dpID old) (ddTerminals d) = None"
    using unfinished_unrecorded [OF assms] by (simp flip: readTerminal_None add: readTerminal_def)
  moreover have "trDispatchID (terminal_record_of now old t (ddEventSeq d + 1)) = dpID old"
    by (simp add: terminal_record_of_def)
  ultimately show ?thesis by (simp add: readTerminal_def ended_db_def sql_first_append)
qed

lemma terminalizeTx_open:
  assumes "terminals_ok d" "sql_first (\<lambda>r. dpID r = did) (ddRows d) = Some old" "\<not> isTerminalStatus (dpStatus old)"
    and "supervised d did \<longrightarrow> supervisedWriter (tmSource t)" "isTerminalStatus (tmStatus t)"
  shows "terminalizeTx now did t d =
     Inr (Some (terminal_record_of now old t (ddEventSeq d + 1)), dpStatus old, ended_db now old t d)"
proof -
  note mem = sql_first_Some [OF assms(2)]
  let ?e = "terminal_event now old t (ddEventSeq d + 1)"
  let ?t = "terminal_record_of now old t (ddEventSeq d + 1)"
  let ?d2 = "d\<lparr>ddEvents := ddEvents d @ [?e], ddEventSeq := ddEventSeq d + 1, ddTerminals := ddTerminals d @ [?t]\<rparr>"
  have unrec: "did \<notin> trDispatchID ` set (ddTerminals d)"
    using unfinished_unrecorded [OF assms(1) _ assms(3)] mem by auto
  have ev: "insert_event now did (null_if_empty (coalesce_text (dpScopeID old))) (dpStatus old) (tmStatus t)
      (null_if_empty (tmReason t)) d = (ddEventSeq d + 1, d\<lparr>ddEvents := ddEvents d @ [?e], ddEventSeq := ddEventSeq d + 1\<rparr>)"
    using mem by (simp add: insert_event_def terminal_event_def Let_def)
  have ins: "insert_terminal ?t (d\<lparr>ddEvents := ddEvents d @ [?e], ddEventSeq := ddEventSeq d + 1\<rparr>) = Inr ?d2"
    using unrec mem by (force simp: insert_terminal_def terminal_record_of_def)
  have rec2: "readTerminal ?d2 did = Some ?t"
    using readTerminal_ended [OF assms(1) _ assms(3), of now t] mem by (simp add: readTerminal_def ended_db_def)
  have first: "sql_first (\<lambda>r. dpID r = did \<and> \<not> isTerminalStatus (dpStatus r)) (ddRows d) = Some old"
  proof -
    obtain r where r: "sql_first (\<lambda>r. dpID r = did \<and> \<not> isTerminalStatus (dpStatus r)) (ddRows d) = Some r"
      using mem assms(3) sql_first_None [of "\<lambda>r. dpID r = did \<and> \<not> isTerminalStatus (dpStatus r)" "ddRows d"]
      by (cases "sql_first (\<lambda>r. dpID r = did \<and> \<not> isTerminalStatus (dpStatus r)) (ddRows d)") auto
    with same_row [OF assms(1), of r old] sql_first_Some [OF r] mem show ?thesis by simp
  qed
  have rows: "sql_update (\<lambda>r. dpID r = did \<and> \<not> isTerminalStatus (dpStatus r)) (\<lambda>_. ended_row t old) (ddRows d)
      = replace_row (ended_row t old) (ddRows d)"
    using update_is_replace [OF terminals_okD(1) [OF assms(1)] _ _ ended_row_keeps(1), of old "\<lambda>r. \<not> isTerminalStatus (dpStatus r)" t]
      mem assms(3) by simp
  have "write_status now did (\<lambda>s. \<not> isTerminalStatus s) (tmStatus t) (tmFields t) ?d2 = Inr (1, ended_db now old t d)"
    using first rec2 rows mem
    by (simp add: write_status_def ended_row_def [symmetric] terminal_outbox_def readTerminal_def Let_def ended_db_def)
  with assms(2-5) ev ins rec2 show ?thesis
    by (simp add: terminalizeTx_def Let_def) (auto simp: ended_db_def readTerminal_def)
qed

lemma terminalizeTx_InrD:
  assumes "terminalizeTx now did t d = Inr (rec, prev, d')"
  obtains old where "sql_first (\<lambda>r. dpID r = did) (ddRows d) = Some old" "\<not> isTerminalStatus (dpStatus old)"
    "supervised d did \<longrightarrow> supervisedWriter (tmSource t)"
proof -
  from assms obtain old where old: "sql_first (\<lambda>r. dpID r = did) (ddRows d) = Some old"
    by (auto simp: terminalizeTx_def split: option.splits)
  with assms show ?thesis by (intro that [OF old]) (auto simp: terminalizeTx_def Let_def split: if_splits)
qed

lemma terminalizeTx_effect:
  assumes "terminals_ok d" "terminalizeTx now did t d = Inr (rec, prev, d')" "isTerminalStatus (tmStatus t)"
  shows "effect d d'"
proof -
  from assms(2) obtain old where old: "sql_first (\<lambda>r. dpID r = did) (ddRows d) = Some old"
    "\<not> isTerminalStatus (dpStatus old)" "supervised d did \<longrightarrow> supervisedWriter (tmSource t)"
    by (elim terminalizeTx_InrD)
  note mem = sql_first_Some [OF old(1)]
  have d': "d' = ended_db now old t d"
    using terminalizeTx_open [OF assms(1) old assms(3)] assms(2) by simp
  show ?thesis
    unfolding d' ended_db_def
    by (intro effect.ended [where old = old])
      (use mem old assms(3) in \<open>auto simp: reported_def terminal_record_of_def terminal_event_def\<close>)
qed

lemma effects_ok: "effect\<^sup>*\<^sup>* d d' \<Longrightarrow> terminals_ok d \<Longrightarrow> terminals_ok d'"
  by (induction rule: rtranclp_induct) (auto intro: effect_ok)

lemma quiet_only:
  assumes "ddTerminals d' = ddTerminals d" "ddEvents d' = ddEvents d" "ddEventSeq d' = ddEventSeq d"
    "ddSupervision d' = ddSupervision d" "list_all2 steady (ddRows d) (ddRows d')"
  shows "effect d d'"
  using assms by (intro effect.quiet) simp_all

lemma steady_rows_refl [simp]: "list_all2 steady rows rows"
  by (simp add: list_all2_refl)

lemma UpdateStatus_effect:
  assumes "terminals_ok d" "UpdateStatus recorder now did status us d = Inr (d', cs)"
  shows "effect\<^sup>*\<^sup>* d d'"
proof -
  from assms(2) obtain row n where "sql_first (\<lambda>r. dpID r = did) (ddRows d) = Some row"
    "\<not> isTerminalStatus (dpStatus row)"
    "write_status now did (\<lambda>s. s = dpStatus row) status us d = Inr (n, d')"
    by (auto simp: UpdateStatus_def Let_def sum_bind_Inr_iff split: option.splits if_splits)
  with write_status_effect [OF assms(1) this(3)] show ?thesis by simp
qed

lemma UpdateTokens_effect:
  assumes "UpdateTokens did us d = Inr d'"
  shows "effect d d'"
  using assms
  by (auto simp: UpdateTokens_def Let_def steady_def split: if_splits sum.splits
      intro!: quiet_only steady_sql_update)

lemma Terminalize_InrD:
  assumes "Terminalize recorder now did t d = Inr (rec, d', cs)"
  obtains prev where "validate t = None" "terminalizeTx now did t d = Inr (rec, prev, d')" "isTerminalStatus (tmStatus t)"
proof -
  from assms have v: "validate t = None" by (cases "validate t") (simp_all add: Terminalize_def)
  with assms obtain prev where "terminalizeTx now did t d = Inr (rec, prev, d')"
    by (auto simp: Terminalize_def split: sum.splits dispatch_error.splits)
  moreover have "isTerminalStatus (tmStatus t)" using v by (auto simp: validate_def split: if_splits)
  ultimately show ?thesis using v that by blast
qed

lemma cancel_loop_effect:
  assumes "cancel_loop now runID cs acc d = Inr (done', d')" "terminals_ok d"
  shows "effect\<^sup>*\<^sup>* d d'"
  using assms
proof (induction now runID cs acc d rule: cancel_loop.induct)
  case (1 now runID cancelled d)
  then show ?case by simp
next
  case (2 now runID did prev guarded rest cancelled d)
  show ?case
  proof (cases guarded)
    case True
    let ?d1 = "d\<lparr>ddIntents := ddIntents d @ [\<lparr>inDispatchID = did, inKind = ''run_rollback'',
             inReason = ''run '' @ runID @ '' rolled back'', inRequestedBy = ''cancel_by_run'', inCreatedAt = now\<rparr>]\<rparr>"
    have e: "effect d ?d1" by (intro quiet_only) simp_all
    from 2(1) [OF True] 2(3) True effect_ok [OF e 2(4)] have "effect\<^sup>*\<^sup>* ?d1 d'" by simp
    with e show ?thesis by (rule converse_rtranclp_into_rtranclp)
  next
    case False
    with 2(3) obtain rec p d1 where d1: "terminalizeTx now did (rollback_outcome now runID) d = Inr (rec, p, d1)"
      "cancel_loop now runID rest (cancelled @ [(did, prev)]) d1 = Inr (done', d')"
      by (auto simp: sum_bind_Inr_iff)
    have "isTerminalStatus (tmStatus (rollback_outcome now runID))" by (simp add: rollback_outcome_def)
    with terminalizeTx_effect [OF 2(4) d1(1)] have e: "effect d d1" .
    have "effect\<^sup>*\<^sup>* d1 d'"
      by (rule 2(2) [OF False d1(2) effect_ok [OF e 2(4)]])
    with e show ?thesis by (rule converse_rtranclp_into_rtranclp)
  qed
qed

lemma recordProcessIdentity_effect:
  assumes "terminals_ok d" "recordProcessIdentity recorder now did pid payload d = Inr (d', cs)"
  shows "effect\<^sup>*\<^sup>* d d'"
proof -
  let ?d1 = "d\<lparr>ddState := ddState d @ [\<lparr>srKey = ''dispatch.process'', srScopeID = did, srPayload = payload,
      srUpdatedAt = now, srExpiresAt = None\<rparr>]\<rparr>"
  have e: "effect d ?d1" by (intro quiet_only) simp_all
  from assms(2) obtain n where "write_status now did (\<lambda>s. s = StatusSpawned) StatusRunning
      [UPid (Some pid), UStartedAt (Some now)] ?d1 = Inr (n, d')"
    by (auto simp: recordProcessIdentity_def Let_def sum_bind_Inr_iff split: if_splits)
  from write_status_effect [OF effect_ok [OF e assms(1)] this] have "effect\<^sup>*\<^sup>* ?d1 d'" by simp
  with e show ?thesis by (rule converse_rtranclp_into_rtranclp)
qed

lemma createDispatch_effect: "createDispatch did now c n d = Inr d' \<Longrightarrow> effect d d'"
  by (auto simp: createDispatch_def new_dispatch_def split: if_splits intro!: effect.created)

end
