(* ===== verification/Admission.thy ===== *)
theory Admission
  imports Dispatch
begin

text \<open>
  Admission of a dispatch: \<^verbatim>\<open>internal/dispatch/admission.go\<close>, the spawn policy of
  \<^verbatim>\<open>policy.go\<close>, the dispatch that \<^verbatim>\<open>spawn.go\<close> builds, and retries
  (\<^verbatim>\<open>retry.go\<close>). The external budget checker runs before the transaction, on
  tables that others may change before it begins; the two readings are separate
  arguments. The backoff duration, a floating-point computation, is left out.
\<close>

section \<open>Policies and options\<close>

record spawn_policy =
  spBudgetEnforce :: bool
  spMaxActivePerRun :: int
  spMaxActiveGlobal :: int
  spMaxAgentsPerRun :: int
  spMaxSpawnDepth :: int

definition no_policy :: spawn_policy where
  "no_policy = \<lparr>spBudgetEnforce = False, spMaxActivePerRun = 0, spMaxActiveGlobal = 0,
     spMaxAgentsPerRun = 0, spMaxSpawnDepth = 0\<rparr>"

record spawn_options =
  soAgentType :: string
  soProjectDir :: string
  soPromptFile :: string
  soOutputFile :: string
  soName :: string
  soModel :: string
  soSandbox :: string
  soSandboxSpec :: string
  soTimeoutSec :: int
  soScopeID :: string
  soRunID :: string
  soParentID :: string
  soParentDispatchID :: string
  soPolicy :: "spawn_policy option"
  soRetry :: bool

datatype rejection =
    BudgetUnavailable string
  | BudgetExceeded string int int
  | ParentNotFound
  | ParentScopeMismatch string
  | RunNotFound string
  | ConcurrencyLimitPerRun string nat int
  | ConcurrencyLimitGlobal nat int
  | AgentCapPerRun string nat int
  | SpawnDepthExceeded int int
  | NotRetryable

datatype admission_error =
    ProjectDirRequired
  | PromptFileRequired
  | FlereNeedsRun
  | RunScopeMismatch
  | NegativeLimits
  | PerRunLimitsNeedScope
  | ExternalCheckFailed string
  | InvalidKernelPolicy string
  | Rejected rejection
  | CreateFailed dispatch_error
  | RetryLookup dispatch_error

definition ValidateSpawn :: "spawn_options \<Rightarrow> admission_error option" where
  "ValidateSpawn o1 =
     (if soProjectDir o1 = [] then Some ProjectDirRequired
      else if soPromptFile o1 = [] then Some PromptFileRequired
      else if soAgentType o1 = ''flere'' \<and> soRunID o1 = [] then Some FlereNeedsRun
      else if soRunID o1 \<noteq> [] \<and> soScopeID o1 \<noteq> [] \<and> soRunID o1 \<noteq> soScopeID o1 then Some RunScopeMismatch
      else case soPolicy o1 of
        None \<Rightarrow> None
      | Some p \<Rightarrow>
          if spMaxActivePerRun p < 0 \<or> spMaxActiveGlobal p < 0 \<or> spMaxAgentsPerRun p < 0 \<or> spMaxSpawnDepth p < 0
          then Some NegativeLimits
          else if (0 < spMaxActivePerRun p \<or> 0 < spMaxAgentsPerRun p) \<and> soScopeID o1 = [] \<and> soRunID o1 = []
            \<and> soParentDispatchID o1 = []
          then Some PerRunLimitsNeedScope
          else None)"

section \<open>The counts\<close>

definition checkPolicyCounts :: "spawn_policy \<Rightarrow> dispatch_config \<Rightarrow> dispatch_db \<Rightarrow> rejection option" where
  "checkPolicyCounts p c d =
     (let scope = coalesce_text (dcScopeID c);
          perRun = CountActiveByScope d scope; global = CountActiveGlobal d; total = CountTotalByScope d scope
      in if 0 < spMaxActivePerRun p \<and> scope \<noteq> [] \<and> spMaxActivePerRun p \<le> int perRun
           then Some (ConcurrencyLimitPerRun scope perRun (spMaxActivePerRun p))
         else if 0 < spMaxActiveGlobal p \<and> spMaxActiveGlobal p \<le> int global
           then Some (ConcurrencyLimitGlobal global (spMaxActiveGlobal p))
         else if 0 < spMaxAgentsPerRun p \<and> scope \<noteq> [] \<and> spMaxAgentsPerRun p \<le> int total
           then Some (AgentCapPerRun scope total (spMaxAgentsPerRun p))
         else if 0 < spMaxSpawnDepth p \<and> spMaxSpawnDepth p < dcSpawnDepth c
           then Some (SpawnDepthExceeded (dcSpawnDepth c) (spMaxSpawnDepth p))
         else None)"

definition CheckPolicy ::
    "(string \<Rightarrow> string + bool) option \<Rightarrow> spawn_policy \<Rightarrow> dispatch_config \<Rightarrow> dispatch_db \<Rightarrow> admission_error option" where
  "CheckPolicy budgetQ p c d =
     (let scope = coalesce_text (dcScopeID c);
          counts = map_option Rejected (checkPolicyCounts p c d)
      in if \<not> spBudgetEnforce p then counts
         else case budgetQ of
           None \<Rightarrow> Some (Rejected (BudgetUnavailable scope))
         | Some query \<Rightarrow>
             if scope = [] then Some (Rejected (BudgetUnavailable scope))
             else case query scope of
               Inl e \<Rightarrow> Some (ExternalCheckFailed e)
             | Inr exceeded \<Rightarrow> if exceeded then Some (Rejected (BudgetExceeded scope 0 0)) else counts)"

section \<open>Admission\<close>

definition run_row :: "dispatch_db \<Rightarrow> string \<Rightarrow> run option" where
  "run_row d rid = sql_first (\<lambda>r. rID r = rid) (ddRuns d)"

text \<open>The external checker, before the transaction.\<close>

definition external_check ::
    "(string \<Rightarrow> string + bool) option \<Rightarrow> spawn_policy \<Rightarrow> spawn_options \<Rightarrow> dispatch_config \<Rightarrow> dispatch_db
      \<Rightarrow> admission_error option" where
  "external_check budgetQ p opts c d =
     (case budgetQ of
        None \<Rightarrow> None
      | Some query \<Rightarrow>
          let scope = (if soScopeID opts = [] \<and> dcParentDispatchID c \<noteq> [] then
                         (case GetDispatch d (dcParentDispatchID c) of
                            Inr parent \<Rightarrow> coalesce_text (dpScopeID parent)
                          | Inl _ \<Rightarrow> [])
                       else soScopeID opts);
              stored = (scope \<noteq> [] \<and> (case run_row d scope of Some r \<Rightarrow> rBudgetEnforce r | None \<Rightarrow> False))
          in if \<not> (spBudgetEnforce p \<or> stored) then None
             else if scope = [] then Some (Rejected (BudgetUnavailable []))
             else case query scope of
               Inl e \<Rightarrow> Some (ExternalCheckFailed e)
             | Inr exceeded \<Rightarrow> if exceeded then Some (Rejected (BudgetExceeded scope 0 0)) else None)"

text \<open>One of the two kernel limits in the \<^verbatim>\<open>state\<close> table; zero is no limit.\<close>

definition kernel_limit :: "int \<Rightarrow> string \<Rightarrow> int \<Rightarrow> dispatch_db \<Rightarrow> admission_error + int" where
  "kernel_limit now key target d =
     (case sql_first (\<lambda>s. srKey s = key \<and> srScopeID s = ''global''
              \<and> (case srExpiresAt s of None \<Rightarrow> True | Some t \<Rightarrow> now < t)) (ddState d) of
        None \<Rightarrow> Inr target
      | Some s \<Rightarrow>
          (case Atoi (TrimSpace (srPayload s)) of
             None \<Rightarrow> Inl (InvalidKernelPolicy key)
           | Some v \<Rightarrow>
               if v < 0 then Inl (InvalidKernelPolicy key)
               else Inr (if 0 < v \<and> (target = 0 \<or> v < target) then v else target)))"

text \<open>The parent gives the scope and the depth; a retry keeps the depth of the original.\<close>

definition inherit_parent :: "bool \<Rightarrow> dispatch_config \<Rightarrow> dispatch_db \<Rightarrow> admission_error + dispatch_config" where
  "inherit_parent retry c d =
     (if dcParentDispatchID c = [] then Inr c
      else case sql_first (\<lambda>r. dpID r = dcParentDispatchID c) (ddRows d) of
        None \<Rightarrow> Inl (Rejected ParentNotFound)
      | Some parent \<Rightarrow>
          let parentScope = coalesce_text (dpScopeID parent);
              depth = dcSpawnDepth (dpConfig parent) + (if retry then 0 else 1)
          in if parentScope \<noteq> [] \<and> dcScopeID c \<noteq> None \<and> dcScopeID c \<noteq> Some parentScope
             then Inl (Rejected (ParentScopeMismatch parentScope))
             else Inr (c\<lparr>dcScopeID := (if parentScope \<noteq> [] then Some parentScope else dcScopeID c),
                        dcSpawnDepth := depth\<rparr>))"

text \<open>The limits stored with the run, and its token budget.\<close>

definition run_policy :: "string \<Rightarrow> spawn_policy \<Rightarrow> string \<Rightarrow> dispatch_db \<Rightarrow> admission_error + spawn_policy \<times> int option" where
  "run_policy runID p scope d =
     (if scope = [] then Inr (p, None)
      else case run_row d scope of
        None \<Rightarrow> if runID \<noteq> [] then Inl (Rejected (RunNotFound scope)) else Inr (p, None)
      | Some r \<Rightarrow>
          Inr (p\<lparr>spBudgetEnforce := spBudgetEnforce p \<or> rBudgetEnforce r,
                 spMaxAgentsPerRun := (if 0 < rMaxAgents r \<and> (spMaxAgentsPerRun p = 0 \<or> rMaxAgents r < spMaxAgentsPerRun p)
                   then rMaxAgents r else spMaxAgentsPerRun p)\<rparr>, rTokenBudget r))"

definition budget_check :: "spawn_policy \<Rightarrow> int option \<Rightarrow> string \<Rightarrow> dispatch_db \<Rightarrow> rejection option" where
  "budget_check p tokenBudget scope d =
     (if \<not> spBudgetEnforce p then None
      else case tokenBudget of
        None \<Rightarrow> Some (BudgetUnavailable scope)
      | Some budget \<Rightarrow>
          if budget \<le> 0 then Some (BudgetUnavailable scope)
          else
            let (usedIn, usedOut, cached) = AggregateTokens d scope in
            if budget \<le> usedIn + usedOut then Some (BudgetExceeded scope (usedIn + usedOut) budget) else None)"

text \<open>
  The transaction: every check, and the insert. It returns the policy it
  enforced, the dispatch it inserted and the new tables.
\<close>

definition limits_policy :: "int \<Rightarrow> spawn_policy \<Rightarrow> dispatch_db \<Rightarrow> admission_error + spawn_policy" where
  "limits_policy now p0 d =
     sum_bind (kernel_limit now ''kernel.global_max_dispatches'' (spMaxActiveGlobal p0) d) (\<lambda>global.
     sum_bind (kernel_limit now ''kernel.max_spawn_depth'' (spMaxSpawnDepth p0) d) (\<lambda>depth.
     Inr (p0\<lparr>spMaxActiveGlobal := global, spMaxSpawnDepth := depth\<rparr>)))"

definition scope_checks ::
    "string \<Rightarrow> spawn_policy \<Rightarrow> dispatch_config \<Rightarrow> dispatch_db \<Rightarrow> admission_error + spawn_policy" where
  "scope_checks runID p1 c d =
     (let scope = coalesce_text (dcScopeID c) in
      if scope = [] \<and> (0 < spMaxActivePerRun p1 \<or> 0 < spMaxAgentsPerRun p1) then Inl PerRunLimitsNeedScope
      else case run_policy runID p1 scope d of
        Inl e \<Rightarrow> Inl e
      | Inr (p, tokenBudget) \<Rightarrow>
          (case budget_check p tokenBudget scope d of
             Some e \<Rightarrow> Inl (Rejected e)
           | None \<Rightarrow>
               (case checkPolicyCounts p c d of
                  Some e \<Rightarrow> Inl (Rejected e)
                | None \<Rightarrow> Inr p)))"

definition admitTx ::
    "int \<Rightarrow> string \<Rightarrow> spawn_policy \<Rightarrow> spawn_options \<Rightarrow> dispatch_config \<Rightarrow> int \<Rightarrow> dispatch_db
      \<Rightarrow> admission_error + spawn_policy \<times> dispatch_config \<times> dispatch_db" where
  "admitTx now did p0 opts c0 retryCount d =
     (case limits_policy now p0 d of
        Inl e \<Rightarrow> Inl e
      | Inr p1 \<Rightarrow>
          (case inherit_parent (soRetry opts) c0 d of
             Inl e \<Rightarrow> Inl e
           | Inr c \<Rightarrow>
               (case scope_checks (soRunID opts) p1 c d of
                  Inl e \<Rightarrow> Inl e
                | Inr p \<Rightarrow>
                    (case createDispatch did now c retryCount d of
                       Inl e \<Rightarrow> Inl (CreateFailed e)
                     | Inr d' \<Rightarrow> Inr (p, c, d')))))"

definition admit ::
    "(string \<Rightarrow> string + bool) option \<Rightarrow> int \<Rightarrow> string \<Rightarrow> spawn_options \<Rightarrow> dispatch_config \<Rightarrow> int
      \<Rightarrow> dispatch_db \<Rightarrow> dispatch_db \<Rightarrow> admission_error + spawn_policy \<times> dispatch_config \<times> dispatch_db" where
  "admit budgetQ now did opts c retryCount before d =
     (let policy = (case soPolicy opts of Some p \<Rightarrow> p | None \<Rightarrow> no_policy) in
      case external_check budgetQ policy opts c before of
        Some e \<Rightarrow> Inl e
      | None \<Rightarrow> admitTx now did policy opts c retryCount d)"

section \<open>Spawning\<close>

definition opt_text :: "string \<Rightarrow> string option" where
  "opt_text s = (if s = [] then None else Some s)"

text \<open>
  The defaults \<^verbatim>\<open>Spawn\<close> fills in after validation, and the dispatch it builds; the
  commit, the hash of the prompt and the generated output path are arguments.
\<close>

definition spawn_defaults :: "spawn_options \<Rightarrow> spawn_options" where
  "spawn_defaults o1 =
     (let agent = (if soAgentType o1 = [] then ''codex'' else soAgentType o1) in
      o1\<lparr>soScopeID := (if soRunID o1 \<noteq> [] then soRunID o1 else soScopeID o1), soAgentType := agent,
         soSandbox := (if soSandbox o1 \<noteq> [] then soSandbox o1
                       else if agent = ''flere'' then ''read-only'' else ''workspace-write'')\<rparr>)"

definition spawn_config :: "string \<Rightarrow> string \<Rightarrow> string \<Rightarrow> spawn_options \<Rightarrow> dispatch_config" where
  "spawn_config baseCommit promptHash generatedOutput o1 =
     (let outputFile = (if soOutputFile o1 = [] then generatedOutput else soOutputFile o1) in
      \<lparr>dcAgentType = soAgentType o1, dcProjectDir = soProjectDir o1, dcPromptFile = Some (soPromptFile o1),
       dcPromptHash = Some promptHash, dcOutputFile = Some outputFile,
       dcVerdictFile = Some (outputFile @ ''.verdict''), dcName = opt_text (soName o1),
       dcModel = opt_text (soModel o1), dcSandbox = opt_text (soSandbox o1),
       dcSandboxSpec = opt_text (soSandboxSpec o1),
       dcTimeoutSec = (if 0 < soTimeoutSec o1 then Some (soTimeoutSec o1) else None),
       dcScopeID = opt_text (soScopeID o1), dcParentID = opt_text (soParentID o1),
       dcBaseRepoCommit = opt_text baseCommit, dcSpawnDepth = 0,
       dcParentDispatchID = soParentDispatchID o1\<rparr>)"

definition spawn_admission ::
    "(string \<Rightarrow> string + bool) option \<Rightarrow> int \<Rightarrow> string \<Rightarrow> string \<Rightarrow> string \<Rightarrow> string \<Rightarrow> spawn_options
      \<Rightarrow> dispatch_db \<Rightarrow> dispatch_db \<Rightarrow> admission_error + spawn_policy \<times> dispatch_config \<times> dispatch_db" where
  "spawn_admission budgetQ now did baseCommit promptHash generatedOutput o1 before d =
     (case ValidateSpawn o1 of
        Some e \<Rightarrow> Inl e
      | None \<Rightarrow>
          let o2 = spawn_defaults o1
          in admit budgetQ now did o2 (spawn_config baseCommit promptHash generatedOutput o2) 0 before d)"

definition spawnFailed :: "string \<Rightarrow> terminal" where
  "spawnFailed message =
     \<lparr>tmStatus = StatusFailed, tmSource = ''spawn'', tmEvidence = ''not_applicable'', tmReason = message,
      tmFields = [UErrorMessage (Some message)], tmUsageStatus = [], tmArtifactsJSON = [],
      tmDetails = (no_details None)\<lparr>odFailureClass := ''spawn_failed''\<rparr>\<rparr>"

section \<open>Retries\<close>

definition WorkerOutcomeIndeterminate :: string where
  "WorkerOutcomeIndeterminate = ''worker_outcome_indeterminate''"

record retry_policy =
  rpMaxRetries :: int
  rpRetryOnTimeout :: bool

definition ShouldRetry :: "dispatch \<Rightarrow> retry_policy \<Rightarrow> bool" where
  "ShouldRetry r p =
     (if dcAgentType (dpConfig r) = ''flere'' \<or> dpQuarantineReason r = Some WorkerOutcomeIndeterminate then False
      else if rpMaxRetries p \<le> 0 then False
      else if rpMaxRetries p \<le> dpRetryCount r then False
      else if dpStatus r = StatusFailed then True
      else if dpStatus r = StatusTimeout then rpRetryOnTimeout p
      else False)"

definition retry_config :: "string \<Rightarrow> dispatch \<Rightarrow> dispatch_config" where
  "retry_config originalID orig =
     (dpConfig orig)\<lparr>dcOutputFile := None, dcVerdictFile := None, dcBaseRepoCommit := None,
       dcParentDispatchID := originalID\<rparr>"

definition retry_options :: "dispatch_config \<Rightarrow> spawn_options" where
  "retry_options c =
     \<lparr>soAgentType = [], soProjectDir = [], soPromptFile = [], soOutputFile = [], soName = [], soModel = [],
      soSandbox = [], soSandboxSpec = [], soTimeoutSec = 0, soScopeID = coalesce_text (dcScopeID c),
      soRunID = coalesce_text (dcScopeID c), soParentID = [], soParentDispatchID = [], soPolicy = None,
      soRetry = True\<rparr>"

definition admitRetry ::
    "int \<Rightarrow> string \<Rightarrow> dispatch_config \<Rightarrow> int \<Rightarrow> dispatch_db \<Rightarrow> dispatch_db
      \<Rightarrow> admission_error + spawn_policy \<times> dispatch_config \<times> dispatch_db" where
  "admitRetry now did c retryCount before d =
     admit None now did (retry_options c) c retryCount before d"

text \<open>The original is read before the transaction that admits its retry.\<close>

definition Retry ::
    "int \<Rightarrow> string \<Rightarrow> string \<Rightarrow> retry_policy \<Rightarrow> dispatch_db \<Rightarrow> dispatch_db \<Rightarrow> admission_error + int \<times> dispatch_db" where
  "Retry now did originalID p before d =
     (case GetDispatch before originalID of
        Inl e \<Rightarrow> Inl (RetryLookup e)
      | Inr orig \<Rightarrow>
          if \<not> ShouldRetry orig p then Inl (Rejected NotRetryable)
          else
            let attempt = dpRetryCount orig + 1 in
            sum_bind (admitRetry now did (retry_config originalID orig) attempt before d)
              (\<lambda>(pol, c, d'). Inr (attempt, d')))"

section \<open>Outcomes\<close>

definition OutcomeSuccess :: int where "OutcomeSuccess = 0"
definition OutcomeError :: int where "OutcomeError = 1"
definition OutcomeCancelled :: int where "OutcomeCancelled = 2"
definition OutcomeTimeout :: int where "OutcomeTimeout = 3"

definition Worst :: "int \<Rightarrow> int \<Rightarrow> int" where
  "Worst a b = (if b > a then b else a)"

definition Aggregate :: "int list \<Rightarrow> int" where
  "Aggregate outcomes = foldl (\<lambda>worst oc. if oc > worst then oc else worst) OutcomeSuccess outcomes"

definition FromStatus :: "string \<Rightarrow> int" where
  "FromStatus s =
     (if s = StatusCompleted then OutcomeSuccess
      else if s = StatusFailed then OutcomeError
      else if s = StatusCancelled then OutcomeCancelled
      else if s = StatusTimeout then OutcomeTimeout
      else OutcomeError)"

end
