(* ===== verification/DispatchLife.thy ===== *)
theory DispatchLife
  imports DispatchSafety Admission
begin

text \<open>
  The histories of the dispatch tables, and what they guarantee: one terminal
  record per finished dispatch, outcomes that never change, supervised dispatches
  that only their supervisor ends, and admissions within every limit.
\<close>

section \<open>Histories\<close>

text \<open>
  The operations of the store, a supervision row inserted by a supervisor, and
  what other components write. Pruning is kept apart.
\<close>

inductive work_step :: "dispatch_db \<Rightarrow> dispatch_db \<Rightarrow> bool" where
  spawn: "spawn_admission q now did base hash output opts before d = Inr (p, c, d') \<Longrightarrow> work_step d d'"
| retry: "Retry now did originalID rp before d = Inr (n, d') \<Longrightarrow> work_step d d'"
| create: "createDispatch did now c n d = Inr d' \<Longrightarrow> work_step d d'"
| status: "UpdateStatus recorder now did st us d = Inr (d', cs) \<Longrightarrow> work_step d d'"
| tokens: "UpdateTokens did us d = Inr d' \<Longrightarrow> work_step d d'"
| finish: "Terminalize recorder now did t d = Inr (rec, d', cs) \<Longrightarrow> work_step d d'"
| cancel: "CancelByRun recorder now runID d = Inr (m, d', cs) \<Longrightarrow> work_step d d'"
| identity: "recordProcessIdentity recorder now did pid payload d = Inr (d', cs) \<Longrightarrow> work_step d d'"
| supervise: "work_step d (d\<lparr>ddSupervision := did # ddSupervision d\<rparr>)"
| outside: "work_step d (d\<lparr>ddState := st, ddRuns := rs, ddIntents := ints, ddConsumptions := ks, ddDeliveries := vs\<rparr>)"

inductive dispatch_reachable :: "dispatch_db \<Rightarrow> bool" where
  init: "ddRows d = [] \<Longrightarrow> ddTerminals d = [] \<Longrightarrow> ddEvents d = [] \<Longrightarrow> dispatch_reachable d"
| work: "dispatch_reachable d \<Longrightarrow> work_step d d' \<Longrightarrow> dispatch_reachable d'"
| prune: "dispatch_reachable d \<Longrightarrow> dispatch_reachable (snd (Prune_dispatches now older d))"

lemma admitTx_InrD:
  assumes "admitTx now did p0 opts c0 n d = Inr (p, c, d')"
  obtains p1 where "limits_policy now p0 d = Inr p1" "inherit_parent (soRetry opts) c0 d = Inr c"
    "scope_checks (soRunID opts) p1 c d = Inr p" "createDispatch did now c n d = Inr d'"
proof -
  from assms obtain p1 where p1: "limits_policy now p0 d = Inr p1"
    by (cases "limits_policy now p0 d") (simp_all add: admitTx_def)
  from assms p1 obtain c1 where c1: "inherit_parent (soRetry opts) c0 d = Inr c1"
    by (cases "inherit_parent (soRetry opts) c0 d") (simp_all add: admitTx_def)
  from assms p1 c1 obtain p2 where p2: "scope_checks (soRunID opts) p1 c1 d = Inr p2"
    by (cases "scope_checks (soRunID opts) p1 c1 d") (simp_all add: admitTx_def)
  from assms p1 c1 p2 show ?thesis
    by (cases "createDispatch did now c1 n d") (simp_all add: admitTx_def that)
qed

lemma admitTx_created: "admitTx now did p0 opts c0 n d = Inr (p, c, d') \<Longrightarrow> createDispatch did now c n d = Inr d'"
  by (elim admitTx_InrD)

lemma admit_Inr:
  assumes "admit q now did opts c0 n before d = Inr r"
  shows "admitTx now did (case soPolicy opts of Some p \<Rightarrow> p | None \<Rightarrow> no_policy) opts c0 n d = Inr r"
  using assms by (simp add: admit_def Let_def split: option.splits)

lemma Retry_Inr:
  assumes "Retry now did originalID rp before d = Inr (n, d')"
  obtains orig p c where "GetDispatch before originalID = Inr orig" "ShouldRetry orig rp" "n = dpRetryCount orig + 1"
    "admitTx now did no_policy (retry_options (retry_config originalID orig)) (retry_config originalID orig) n d
       = Inr (p, c, d')"
proof -
  from assms obtain orig where orig: "GetDispatch before originalID = Inr orig"
    by (cases "GetDispatch before originalID") (simp_all add: Retry_def)
  from assms orig have should: "ShouldRetry orig rp"
    by (cases "ShouldRetry orig rp") (simp_all add: Retry_def)
  let ?c = "retry_config originalID orig"
  from assms orig should obtain r where r: "admitRetry now did ?c (dpRetryCount orig + 1) before d = Inr r"
    by (cases "admitRetry now did ?c (dpRetryCount orig + 1) before d") (simp_all add: Retry_def Let_def)
  obtain p c d1 where "r = (p, c, d1)" by (cases r)
  with assms orig should r have n: "n = dpRetryCount orig + 1" "r = (p, c, d')"
    by (simp_all add: Retry_def Let_def)
  have "soPolicy (retry_options ?c) = None" by (simp add: retry_options_def)
  with admit_Inr [OF r [unfolded admitRetry_def]] n
  have "admitTx now did no_policy (retry_options ?c) ?c n d = Inr (p, c, d')" by simp
  with orig should n(1) that show ?thesis by blast
qed

lemma work_step_effect:
  assumes "work_step d d'" "terminals_ok d"
  shows "effect\<^sup>*\<^sup>* d d'"
  using assms
proof cases
  case (spawn q now did base hash out opts before p c)
  then have "createDispatch did now c 0 d = Inr d'"
    by (auto simp: spawn_admission_def Let_def dest!: admit_Inr admitTx_created split: option.split_asm)
  then show ?thesis by (intro r_into_rtranclp createDispatch_effect)
next
  case (retry now did originalID rp before n)
  then obtain c where "createDispatch did now c n d = Inr d'"
    by (elim Retry_Inr) (auto dest: admitTx_created)
  then show ?thesis by (intro r_into_rtranclp createDispatch_effect)
next
  case (finish recorder now did t rec cs)
  then show ?thesis
    using terminalizeTx_effect [OF assms(2)] by (auto elim!: Terminalize_InrD intro: r_into_rtranclp)
next
  case (cancel recorder now runID m cs)
  then show ?thesis
    using cancel_loop_effect [OF _ assms(2)] by (auto simp: CancelByRun_def sum_bind_Inr_iff)
next
  case (supervise did)
  then show ?thesis by (intro r_into_rtranclp effect.quiet) auto
next
  case (outside st rs ints ks vs)
  then show ?thesis by (intro r_into_rtranclp quiet_only) simp_all
qed (auto intro: createDispatch_effect UpdateTokens_effect UpdateStatus_effect recordProcessIdentity_effect
      r_into_rtranclp)

lemma prune_ok:
  assumes "terminals_ok d"
  shows "terminals_ok (snd (Prune_dispatches now older d))"
proof -
  let ?d = "snd (Prune_dispatches now older d)"
  let ?old = "\<lambda>r. dpCreatedAt r < now - older \<and> \<not> is_active (dpStatus r)"
  have rows: "ddRows ?d = filter (\<lambda>r. \<not> ?old r) (ddRows d)"
    and terms: "ddTerminals ?d = filter (\<lambda>t. trDispatchID t \<in> dpID ` set (ddRows ?d)) (ddTerminals d)"
    and events: "ddEvents ?d = ddEvents d" "ddEventSeq ?d = ddEventSeq d"
    by (simp_all add: Prune_dispatches_def Let_def)
  have sub: "set (ddRows ?d) \<subseteq> set (ddRows d)" "set (ddTerminals ?d) \<subseteq> set (ddTerminals d)"
    by (auto simp: rows terms)
  show ?thesis
    unfolding terminals_ok_def
  proof (intro conjI ballI impI)
    show "distinct (map dpID (ddRows ?d))" unfolding rows by (rule distinct_map_filter [OF terminals_okD(1) [OF assms]])
    show "distinct (map trDispatchID (ddTerminals ?d))"
      unfolding terms by (rule distinct_map_filter [OF terminals_okD(2) [OF assms]])
    show "dpID r \<in> trDispatchID ` set (ddTerminals ?d)"
      if r: "r \<in> set (ddRows ?d)" "isTerminalStatus (dpStatus r)" for r
    proof -
      obtain t where "t \<in> set (ddTerminals d)" "dpID r = trDispatchID t"
        using terminals_okD(3) [OF assms _ r(2)] sub r(1) by auto
      with r(1) show ?thesis unfolding terms by force
    qed
    fix t assume t: "t \<in> set (ddTerminals ?d)"
    then have "t \<in> set (ddTerminals d)" using sub by auto
    note facts = terminals_okD(4-6) [OF assms this]
    from t obtain r where r: "r \<in> set (ddRows ?d)" "dpID r = trDispatchID t" unfolding terms by auto
    with facts(1) same_row [OF assms] sub have "dpStatus r = trStatus t" by (metis subsetD)
    with r show "\<exists>r \<in> set (ddRows ?d). dpID r = trDispatchID t \<and> dpStatus r = trStatus t" by blast
    show "isTerminalStatus (trStatus t)" "\<not> isTerminalStatus (trFromStatus t)" using facts by auto
    show "\<exists>e \<in> set (ddEvents ?d). deID e = trEventID t \<and> deDispatchID e = trDispatchID t
        \<and> deFromStatus e = trFromStatus t \<and> deToStatus e = trStatus t"
      using facts(3) by (simp add: events)
  qed (use terminals_okD(7,8) [OF assms] in \<open>simp_all add: events\<close>)
qed

lemma reachable_ok: "dispatch_reachable d \<Longrightarrow> terminals_ok d"
proof (induction rule: dispatch_reachable.induct)
  case (init d)
  then show ?case by (simp add: terminals_ok_def)
next
  case (work d d')
  from effects_ok [OF work_step_effect [OF work(2,3)] work(3)] show ?case .
next
  case (prune d now older)
  then show ?case by (intro prune_ok)
qed

section \<open>Finality\<close>

lemma readTerminal_append:
  "readTerminal d did = Some t \<Longrightarrow> sql_first (\<lambda>t. trDispatchID t = did) (ddTerminals d @ ts) = Some t"
  by (simp add: readTerminal_def sql_first_append)

text \<open>What an effect keeps of a recorded dispatch.\<close>

lemma effect_final:
  assumes "effect d d'" "terminals_ok d" "r \<in> set (ddRows d)" "isTerminalStatus (dpStatus r)"
  shows "readTerminal d' (dpID r) = readTerminal d (dpID r)
     \<and> (\<exists>r' \<in> set (ddRows d'). dpID r' = dpID r \<and> dpStatus r' = dpStatus r)"
  using assms(1)
proof cases
  case quiet
  with steady_new [OF quiet(1) assms(3)] assms(4) show ?thesis
    by (auto simp: readTerminal_def steady_def)
next
  case (created r1)
  with assms(3) show ?thesis by (auto simp: readTerminal_def)
next
  case (ended old new t e)
  obtain s where s: "readTerminal d (dpID r) = Some s"
    using terminals_okD(3) [OF assms(2-4)] readTerminal_None [of d "dpID r"] by (cases "readTerminal d (dpID r)") auto
  have "r \<noteq> old" using ended(3) assms(4) by auto
  then have "dpID r \<noteq> dpID old" using same_row [OF assms(2,3) ended(2)] by auto
  then have "r \<in> set (ddRows d')" using assms(3) ended by (simp add: replace_row_set)
  with s readTerminal_append [OF s] ended(1) show ?thesis by (auto simp: readTerminal_def)
qed

lemma effects_final:
  assumes "effect\<^sup>*\<^sup>* d d'" "terminals_ok d" "r \<in> set (ddRows d)" "isTerminalStatus (dpStatus r)"
  shows "readTerminal d' (dpID r) = readTerminal d (dpID r)
     \<and> (\<exists>r' \<in> set (ddRows d'). dpID r' = dpID r \<and> dpStatus r' = dpStatus r)"
  using assms
proof (induction rule: rtranclp_induct)
  case base
  then show ?case by auto
next
  case (step d1 d2)
  then obtain r1 where r1: "r1 \<in> set (ddRows d1)" "dpID r1 = dpID r" "dpStatus r1 = dpStatus r" by auto
  from effect_final [OF step(2) effects_ok [OF step(1,4)] r1(1)] r1 step show ?case by auto
qed

lemma works_effects: "work_step\<^sup>*\<^sup>* d d' \<Longrightarrow> terminals_ok d \<Longrightarrow> effect\<^sup>*\<^sup>* d d' \<and> terminals_ok d'"
proof (induction rule: rtranclp_induct)
  case base
  then show ?case by simp
next
  case (step d1 d2)
  then have "effect\<^sup>*\<^sup>* d1 d2" by (intro work_step_effect) simp_all
  with step effects_ok show ?case by (meson rtranclp_trans)
qed

text \<open>Who may have recorded the outcome of a supervised dispatch.\<close>

definition supervised_ok :: "dispatch_db \<Rightarrow> string \<Rightarrow> bool" where
  "supervised_ok d did \<longleftrightarrow> supervised d did \<and> (\<forall>t. readTerminal d did = Some t \<longrightarrow> supervisedWriter (trSource t))"

lemma effect_supervised:
  assumes "effect d d'" "supervised_ok d did"
  shows "supervised_ok d' did"
  using assms(1)
proof cases
  case (ended old new t e)
  show ?thesis
  proof (cases "readTerminal d did")
    case None
    then have "readTerminal d' did = (if trDispatchID t = did then Some t else None)"
      using ended(1) by (simp add: readTerminal_def sql_first_append)
    with assms(2) ended show ?thesis by (auto simp: supervised_ok_def reported_def split: if_splits)
  next
    case (Some s)
    with readTerminal_append [OF Some] ended(1) assms(2) show ?thesis
      by (auto simp: supervised_ok_def readTerminal_def)
  qed
qed (use assms(2) in \<open>auto simp: supervised_ok_def readTerminal_def\<close>)

lemma effects_supervised: "effect\<^sup>*\<^sup>* d d' \<Longrightarrow> supervised_ok d did \<Longrightarrow> supervised_ok d' did"
  by (induction rule: rtranclp_induct) (auto intro: effect_supervised)

section \<open>Admission\<close>

text \<open>A limit that enforces a bound: zero is no limit.\<close>

definition enforces :: "int \<Rightarrow> int \<Rightarrow> bool" where
  "enforces limit bound \<longleftrightarrow> (0 < bound \<longrightarrow> 0 < limit \<and> limit \<le> bound)"

definition nonnegative :: "spawn_policy \<Rightarrow> bool" where
  "nonnegative p \<longleftrightarrow> 0 \<le> spMaxActivePerRun p \<and> 0 \<le> spMaxActiveGlobal p \<and> 0 \<le> spMaxAgentsPerRun p \<and> 0 \<le> spMaxSpawnDepth p"

definition kernel_bound :: "int \<Rightarrow> dispatch_db \<Rightarrow> string \<Rightarrow> int \<Rightarrow> bool" where
  "kernel_bound now d key v \<longleftrightarrow>
     (\<exists>s. sql_first (\<lambda>s. srKey s = key \<and> srScopeID s = ''global''
        \<and> (case srExpiresAt s of None \<Rightarrow> True | Some t \<Rightarrow> now < t)) (ddState d) = Some s
        \<and> Atoi (TrimSpace (srPayload s)) = Some v)"

lemma kernel_limit_enforces:
  assumes "kernel_limit now key target d = Inr limit" "0 \<le> target"
  shows "enforces limit target" "kernel_bound now d key v \<Longrightarrow> enforces limit v" "0 \<le> limit"
  using assms by (auto simp: kernel_limit_def kernel_bound_def enforces_def split: option.splits if_splits)

lemma limits_policy_enforces:
  assumes "limits_policy now p0 d = Inr p" "nonnegative p0"
  shows "enforces (spMaxActiveGlobal p) (spMaxActiveGlobal p0)" "enforces (spMaxSpawnDepth p) (spMaxSpawnDepth p0)"
    "kernel_bound now d ''kernel.global_max_dispatches'' v \<Longrightarrow> enforces (spMaxActiveGlobal p) v"
    "kernel_bound now d ''kernel.max_spawn_depth'' w \<Longrightarrow> enforces (spMaxSpawnDepth p) w"
    "spMaxActivePerRun p = spMaxActivePerRun p0" "spMaxAgentsPerRun p = spMaxAgentsPerRun p0"
    "spBudgetEnforce p = spBudgetEnforce p0"
proof -
  from assms(1) obtain g h where
    g: "kernel_limit now ''kernel.global_max_dispatches'' (spMaxActiveGlobal p0) d = Inr g" and
    h: "kernel_limit now ''kernel.max_spawn_depth'' (spMaxSpawnDepth p0) d = Inr h" and
    p: "p = p0\<lparr>spMaxActiveGlobal := g, spMaxSpawnDepth := h\<rparr>"
    by (auto simp: limits_policy_def sum_bind_Inr_iff)
  have "0 \<le> spMaxActiveGlobal p0" "0 \<le> spMaxSpawnDepth p0" using assms(2) by (simp_all add: nonnegative_def)
  note a = kernel_limit_enforces [OF g this(1)] and b = kernel_limit_enforces [OF h this(2)]
  show "enforces (spMaxActiveGlobal p) (spMaxActiveGlobal p0)" "enforces (spMaxSpawnDepth p) (spMaxSpawnDepth p0)"
    "kernel_bound now d ''kernel.global_max_dispatches'' v \<Longrightarrow> enforces (spMaxActiveGlobal p) v"
    "kernel_bound now d ''kernel.max_spawn_depth'' w \<Longrightarrow> enforces (spMaxSpawnDepth p) w"
    "spMaxActivePerRun p = spMaxActivePerRun p0" "spMaxAgentsPerRun p = spMaxAgentsPerRun p0"
    "spBudgetEnforce p = spBudgetEnforce p0"
    using a(1,2) b(1,2) by (simp_all add: p)
qed

text \<open>What the enforced policy and the counts are when every check passed.\<close>

definition counts_within :: "spawn_policy \<Rightarrow> dispatch_config \<Rightarrow> dispatch_db \<Rightarrow> int \<Rightarrow> bool" where
  "counts_within p c d extra \<longleftrightarrow>
     (let scope = coalesce_text (dcScopeID c) in
      (0 < spMaxActivePerRun p \<longrightarrow> scope \<noteq> [] \<and> int (CountActiveByScope d scope) + extra \<le> spMaxActivePerRun p)
      \<and> (0 < spMaxActiveGlobal p \<longrightarrow> int (CountActiveGlobal d) + extra \<le> spMaxActiveGlobal p)
      \<and> (0 < spMaxAgentsPerRun p \<longrightarrow> scope \<noteq> [] \<and> int (CountTotalByScope d scope) + extra \<le> spMaxAgentsPerRun p)
      \<and> (0 < spMaxSpawnDepth p \<longrightarrow> dcSpawnDepth c \<le> spMaxSpawnDepth p))"

lemma scope_checks_InrD:
  assumes "scope_checks runID p1 c d = Inr p" "0 \<le> spMaxAgentsPerRun p1"
  defines "scope \<equiv> coalesce_text (dcScopeID c)"
  shows "counts_within p c d 1" "spMaxActivePerRun p = spMaxActivePerRun p1" "spMaxActiveGlobal p = spMaxActiveGlobal p1"
    "spMaxSpawnDepth p = spMaxSpawnDepth p1" "enforces (spMaxAgentsPerRun p) (spMaxAgentsPerRun p1)"
    "spBudgetEnforce p1 \<longrightarrow> spBudgetEnforce p"
    "scope \<noteq> [] \<Longrightarrow> run_row d scope = Some r \<Longrightarrow>
       enforces (spMaxAgentsPerRun p) (rMaxAgents r) \<and> (rBudgetEnforce r \<longrightarrow> spBudgetEnforce p)"
    "runID \<noteq> [] \<Longrightarrow> scope \<noteq> [] \<Longrightarrow> run_row d scope \<noteq> None"
    "spBudgetEnforce p \<Longrightarrow> \<exists>r budget. scope \<noteq> [] \<and> run_row d scope = Some r \<and> rTokenBudget r = Some budget
       \<and> fst (AggregateTokens d scope) + fst (snd (AggregateTokens d scope)) < budget"
proof -
  from assms(1) have free: "scope = [] \<longrightarrow> \<not> 0 < spMaxActivePerRun p1 \<and> \<not> 0 < spMaxAgentsPerRun p1"
    by (auto simp: scope_checks_def scope_def Let_def split: if_splits)
  with assms(1) obtain tb where rp: "run_policy runID p1 scope d = Inr (p, tb)"
    and budget: "budget_check p tb scope d = None" and counts: "checkPolicyCounts p c d = None"
    by (auto simp: scope_checks_def scope_def Let_def split: if_splits sum.splits option.splits)
  show same: "spMaxActivePerRun p = spMaxActivePerRun p1" "spMaxActiveGlobal p = spMaxActiveGlobal p1"
    "spMaxSpawnDepth p = spMaxSpawnDepth p1" "spBudgetEnforce p1 \<longrightarrow> spBudgetEnforce p"
    using rp by (auto simp: run_policy_def split: if_splits option.splits)
  show "enforces (spMaxAgentsPerRun p) (spMaxAgentsPerRun p1)"
    using rp assms(2) by (auto simp: run_policy_def enforces_def split: if_splits option.splits)
  show "enforces (spMaxAgentsPerRun p) (rMaxAgents r) \<and> (rBudgetEnforce r \<longrightarrow> spBudgetEnforce p)"
    if "scope \<noteq> []" "run_row d scope = Some r" for r
    using rp that assms(2) by (auto simp: run_policy_def enforces_def)
  show "run_row d scope \<noteq> None" if "runID \<noteq> []" "scope \<noteq> []"
    using rp that by (auto simp: run_policy_def split: option.splits)
  have "scope = [] \<longrightarrow> p = p1" using rp by (auto simp: run_policy_def)
  with free counts show "counts_within p c d 1"
    by (auto simp: counts_within_def checkPolicyCounts_def Let_def scope_def split: if_splits)
  show "\<exists>r budget. scope \<noteq> [] \<and> run_row d scope = Some r \<and> rTokenBudget r = Some budget
       \<and> fst (AggregateTokens d scope) + fst (snd (AggregateTokens d scope)) < budget" if "spBudgetEnforce p"
    using rp budget that
    by (cases "AggregateTokens d scope")
      (auto simp: run_policy_def budget_check_def split: if_splits option.splits)
qed

lemma counts_after_create:
  assumes "createDispatch did now c n d = Inr d'" "counts_within p c d 1"
  shows "counts_within p c d' 0"
proof -
  have d': "ddRows d' = ddRows d @ [new_dispatch did now c n]"
    using assms(1) by (auto simp: createDispatch_def split: if_splits)
  have "dcScopeID c = Some scope \<Longrightarrow> CountActiveByScope d' scope = Suc (CountActiveByScope d scope)"
    "dcScopeID c = Some scope \<Longrightarrow> CountTotalByScope d' scope = Suc (CountTotalByScope d scope)"
    "CountActiveGlobal d' = Suc (CountActiveGlobal d)" for scope
    by (simp_all add: CountActiveByScope_def CountTotalByScope_def CountActiveGlobal_def d' rows_affected_def new_dispatch_def)
  with assms(2) show ?thesis
    by (auto simp: counts_within_def Let_def coalesce_text_def split: option.splits)
qed

lemma admission_facts:
  assumes "spawn_admission q now did base hash out opts before d = Inr (p, c, d')"
  defines "scope \<equiv> coalesce_text (dcScopeID c)"
    and "p0 \<equiv> (case soPolicy opts of Some p \<Rightarrow> p | None \<Rightarrow> no_policy)"
  shows "counts_within p c d' 0"
    and "enforces (spMaxActivePerRun p) (spMaxActivePerRun p0) \<and> enforces (spMaxActiveGlobal p) (spMaxActiveGlobal p0)
       \<and> enforces (spMaxAgentsPerRun p) (spMaxAgentsPerRun p0) \<and> enforces (spMaxSpawnDepth p) (spMaxSpawnDepth p0)"
    and "kernel_bound now d ''kernel.global_max_dispatches'' v \<longrightarrow> enforces (spMaxActiveGlobal p) v"
    and "kernel_bound now d ''kernel.max_spawn_depth'' w \<longrightarrow> enforces (spMaxSpawnDepth p) w"
    and "scope \<noteq> [] \<and> run_row d scope = Some r \<longrightarrow>
       enforces (spMaxAgentsPerRun p) (rMaxAgents r)
       \<and> (rBudgetEnforce r \<or> spBudgetEnforce p0 \<longrightarrow> (\<exists>budget. rTokenBudget r = Some budget
            \<and> fst (AggregateTokens d scope) + fst (snd (AggregateTokens d scope)) < budget))"
    and "soRunID opts \<noteq> [] \<longrightarrow> scope \<noteq> [] \<longrightarrow> run_row d scope \<noteq> None"
proof -
  let ?o = "spawn_defaults opts"
  have valid: "ValidateSpawn opts = None"
    using assms(1) by (cases "ValidateSpawn opts") (simp_all add: spawn_admission_def)
  then have nn: "nonnegative p0"
    by (auto simp: ValidateSpawn_def p0_def nonnegative_def no_policy_def split: if_splits option.splits)
  have o: "soPolicy ?o = soPolicy opts" "soRunID ?o = soRunID opts"
    by (simp_all add: spawn_defaults_def Let_def)
  from assms(1) valid have "admit q now did ?o (spawn_config base hash out ?o) 0 before d = Inr (p, c, d')"
    by (simp add: spawn_admission_def Let_def)
  then have "admitTx now did p0 ?o (spawn_config base hash out ?o) 0 d = Inr (p, c, d')"
    unfolding p0_def o(1) [symmetric] by (rule admit_Inr)
  then obtain p1 where p1: "limits_policy now p0 d = Inr p1" "scope_checks (soRunID opts) p1 c d = Inr p"
    "createDispatch did now c 0 d = Inr d'"
    by (auto elim: admitTx_InrD simp: o)
  note lim = limits_policy_enforces [OF p1(1) nn]
  have "0 \<le> spMaxAgentsPerRun p1" using nn by (simp add: lim(6) nonnegative_def)
  note chk = scope_checks_InrD [OF p1(2) this]
  show "counts_within p c d' 0" by (rule counts_after_create [OF p1(3) chk(1)])
  show "enforces (spMaxActivePerRun p) (spMaxActivePerRun p0) \<and> enforces (spMaxActiveGlobal p) (spMaxActiveGlobal p0)
       \<and> enforces (spMaxAgentsPerRun p) (spMaxAgentsPerRun p0) \<and> enforces (spMaxSpawnDepth p) (spMaxSpawnDepth p0)"
    using lim chk(2-5) by (simp add: enforces_def)
  show "kernel_bound now d ''kernel.global_max_dispatches'' v \<longrightarrow> enforces (spMaxActiveGlobal p) v"
    "kernel_bound now d ''kernel.max_spawn_depth'' w \<longrightarrow> enforces (spMaxSpawnDepth p) w"
    using lim chk(3,4) by simp_all
  show "soRunID opts \<noteq> [] \<longrightarrow> scope \<noteq> [] \<longrightarrow> run_row d scope \<noteq> None"
    using chk(8) by (simp add: scope_def)
  show "scope \<noteq> [] \<and> run_row d scope = Some r \<longrightarrow>
       enforces (spMaxAgentsPerRun p) (rMaxAgents r)
       \<and> (rBudgetEnforce r \<or> spBudgetEnforce p0 \<longrightarrow> (\<exists>budget. rTokenBudget r = Some budget
            \<and> fst (AggregateTokens d scope) + fst (snd (AggregateTokens d scope)) < budget))"
  proof (intro impI conjI; elim conjE)
    assume "scope \<noteq> []" "run_row d scope = Some r"
    note run = chk(7) [folded scope_def, OF this]
    show "enforces (spMaxAgentsPerRun p) (rMaxAgents r)" using run by simp
    assume "rBudgetEnforce r \<or> spBudgetEnforce p0"
    then have "spBudgetEnforce p" using run chk(6) lim(7) by auto
    with chk(9) \<open>run_row d scope = Some r\<close> show "\<exists>budget. rTokenBudget r = Some budget
            \<and> fst (AggregateTokens d scope) + fst (snd (AggregateTokens d scope)) < budget"
      by (auto simp: scope_def)
  qed
qed

lemma spawn_step:
  "spawn_admission q now did base hash out opts before d = Inr (p, c, d') \<Longrightarrow> dispatch_reachable d \<Longrightarrow> dispatch_reachable d'"
  by (blast intro: dispatch_reachable.work work_step.spawn)

section \<open>Rollback of a run\<close>

text \<open>The open dispatches of a run that no supervisor holds.\<close>

definition cancellable :: "dispatch_db \<Rightarrow> string \<Rightarrow> dispatch \<Rightarrow> bool" where
  "cancellable d runID r \<longleftrightarrow> dpScopeID r = Some runID \<and> \<not> isTerminalStatus (dpStatus r) \<and> \<not> supervised d (dpID r)"

lemma rollback_terminal [simp]: "isTerminalStatus (tmStatus (rollback_outcome now runID))"
  "tmStatus (rollback_outcome now runID) = StatusCancelled"
  by (simp_all add: rollback_outcome_def)

definition cancel_row :: "int \<Rightarrow> string \<Rightarrow> dispatch \<Rightarrow> dispatch" where
  "cancel_row now runID r = ended_row (rollback_outcome now runID) r"

lemma cancel_loop_runs:
  assumes "terminals_ok d" "distinct (map fst cs)"
    and "\<And>did prev g. (did, prev, g) \<in> set cs \<Longrightarrow> g = supervised d did
      \<and> (\<exists>r. r \<in> set (ddRows d) \<and> dpID r = did \<and> dpStatus r = prev \<and> \<not> isTerminalStatus prev)"
  shows "\<exists>d'. cancel_loop now runID cs acc d =
      Inr (acc @ map (\<lambda>c. (fst c, fst (snd c))) (filter (\<lambda>c. \<not> snd (snd c)) cs), d')
    \<and> ddRows d' = map (\<lambda>r. if \<exists>prev. (dpID r, prev, False) \<in> set cs then cancel_row now runID r else r) (ddRows d)
    \<and> ddSupervision d' = ddSupervision d"
  using assms
proof (induction cs arbitrary: acc d)
  case Nil
  then show ?case by simp
next
  case (Cons c cs)
  obtain did prev g where c: "c = (did, prev, g)" by (cases c)
  from Cons.prems(3) [of did prev g] c obtain r where
    r: "r \<in> set (ddRows d)" "dpID r = did" "dpStatus r = prev" "\<not> isTerminalStatus prev" "g = supervised d did" by auto
  have other: "did' \<noteq> did" if "(did', p, h) \<in> set cs" for did' p h
    using that Cons.prems(2) c by force
  show ?case
  proof (cases g)
    case True
    let ?d1 = "d\<lparr>ddIntents := ddIntents d @ [\<lparr>inDispatchID = did, inKind = ''run_rollback'',
             inReason = ''run '' @ runID @ '' rolled back'', inRequestedBy = ''cancel_by_run'', inCreatedAt = now\<rparr>]\<rparr>"
    have "effect d ?d1" by (intro quiet_only) simp_all
    then have "terminals_ok ?d1" by (rule effect_ok) (rule Cons.prems(1))
    moreover have "h = supervised ?d1 did' \<and> (\<exists>x. x \<in> set (ddRows ?d1) \<and> dpID x = did' \<and> dpStatus x = p \<and> \<not> isTerminalStatus p)"
      if "(did', p, h) \<in> set cs" for did' p h
      using Cons.prems(3) [of did' p h] that by simp
    moreover have "distinct (map fst cs)" using Cons.prems(2) by simp
    ultimately obtain d' where "cancel_loop now runID cs acc ?d1 =
         Inr (acc @ map (\<lambda>c. (fst c, fst (snd c))) (filter (\<lambda>c. \<not> snd (snd c)) cs), d')"
      "ddRows d' = map (\<lambda>r. if \<exists>prev. (dpID r, prev, False) \<in> set cs then cancel_row now runID r else r) (ddRows d)"
      "ddSupervision d' = ddSupervision d"
      using Cons.IH [of ?d1 acc] by auto
    with c True show ?thesis by (intro exI [of _ d']) simp
  next
    case False
    have "sql_first (\<lambda>r. dpID r = did) (ddRows d) = Some r"
    proof -
      obtain r1 where r1: "sql_first (\<lambda>r. dpID r = did) (ddRows d) = Some r1"
        using r(1,2) sql_first_None [of "\<lambda>r. dpID r = did" "ddRows d"]
        by (cases "sql_first (\<lambda>r. dpID r = did) (ddRows d)") auto
      with same_row [OF Cons.prems(1), of r1 r] sql_first_Some [OF r1] r show ?thesis by simp
    qed
    note run = terminalizeTx_open [OF Cons.prems(1) this, of "rollback_outcome now runID" now]
    let ?d1 = "ended_db now r (rollback_outcome now runID) d"
    from run r False have t: "terminalizeTx now did (rollback_outcome now runID) d =
        Inr (Some (terminal_record_of now r (rollback_outcome now runID) (ddEventSeq d + 1)), prev, ?d1)" by simp
    have "effect d ?d1" by (rule terminalizeTx_effect [OF Cons.prems(1) t]) simp
    then have ok1: "terminals_ok ?d1" by (rule effect_ok) (rule Cons.prems(1))
    have rows1: "ddRows ?d1 = map (\<lambda>x. if dpID x = did then cancel_row now runID r else x) (ddRows d)"
      using r(2) by (simp add: ended_db_def replace_row_def cancel_row_def)
    have keep: "ddSupervision ?d1 = ddSupervision d" by (simp add: ended_db_def)
    have "h = supervised ?d1 did' \<and> (\<exists>x. x \<in> set (ddRows ?d1) \<and> dpID x = did' \<and> dpStatus x = p \<and> \<not> isTerminalStatus p)"
      if m: "(did', p, h) \<in> set cs" for did' p h
    proof -
      from Cons.prems(3) [of did' p h] m obtain x where "x \<in> set (ddRows d)" "dpID x = did'" "dpStatus x = p"
        "\<not> isTerminalStatus p" "h = supervised d did'" by auto
      with other [OF m] keep show ?thesis unfolding rows1 by force
    qed
    with Cons.IH [OF ok1, of "acc @ [(did, prev)]"] Cons.prems(2) c obtain d' where
      d': "cancel_loop now runID cs (acc @ [(did, prev)]) ?d1 =
         Inr ((acc @ [(did, prev)]) @ map (\<lambda>c. (fst c, fst (snd c))) (filter (\<lambda>c. \<not> snd (snd c)) cs), d')"
      "ddRows d' = map (\<lambda>r. if \<exists>prev. (dpID r, prev, False) \<in> set cs then cancel_row now runID r else r) (ddRows ?d1)"
      "ddSupervision d' = ddSupervision ?d1" by auto
    have "x = r" if "x \<in> set (ddRows d)" "dpID x = did" for x
      using same_row [OF Cons.prems(1) that(1) r(1)] that(2) r(2) by simp
    moreover have "dpID (cancel_row now runID r) = did" using r(2) by (simp add: cancel_row_def)
    ultimately have "ddRows d' = map (\<lambda>x. if \<exists>prev. (dpID x, prev, False) \<in> set (c # cs) then cancel_row now runID x else x) (ddRows d)"
      using other False c by (auto simp: d'(2) rows1)
    with d'(1,3) t False c keep show ?thesis by (simp add: sum_bind_def)
  qed
qed

lemma CancelByRun_runs:
  assumes "terminals_ok d"
  shows "\<exists>d' cs. CancelByRun recorder now runID d = Inr (int (length (filter (cancellable d runID) (ddRows d))), d', cs)
    \<and> ddRows d' = map (\<lambda>r. if cancellable d runID r then cancel_row now runID r else r) (ddRows d)"
proof -
  let ?cs = "cancel_candidates runID d"
  have dist: "distinct (map fst ?cs)"
    using distinct_map_filter [OF terminals_okD(1) [OF assms]] by (simp add: cancel_candidates_def comp_def)
  have cand: "g = supervised d did \<and> (\<exists>r. r \<in> set (ddRows d) \<and> dpID r = did \<and> dpStatus r = prev \<and> \<not> isTerminalStatus prev)"
    if "(did, prev, g) \<in> set ?cs" for did prev g
    using that by (auto simp: cancel_candidates_def)
  from cancel_loop_runs [OF assms dist cand, of now runID "[]"] obtain d' where
    d': "cancel_loop now runID ?cs [] d = Inr (map (\<lambda>c. (fst c, fst (snd c))) (filter (\<lambda>c. \<not> snd (snd c)) ?cs), d')"
    "ddRows d' = map (\<lambda>r. if \<exists>prev. (dpID r, prev, False) \<in> set ?cs then cancel_row now runID r else r) (ddRows d)"
    by auto
  have len: "length (filter (\<lambda>c. \<not> snd (snd c)) ?cs) = length (filter (cancellable d runID) (ddRows d))"
    unfolding cancel_candidates_def filter_map filter_filter length_map
    by (intro arg_cong [where f = length] filter_cong) (auto simp: cancellable_def)
  have "(\<exists>prev. (dpID r, prev, False) \<in> set ?cs) \<longleftrightarrow> cancellable d runID r" if "r \<in> set (ddRows d)" for r
    using that same_row [OF assms that] by (auto simp: cancel_candidates_def cancellable_def)
  then have "ddRows d' = map (\<lambda>r. if cancellable d runID r then cancel_row now runID r else r) (ddRows d)"
    unfolding d'(2) by (intro map_cong) auto
  with d'(1) len show ?thesis by (simp add: CancelByRun_def)
qed

section \<open>Properties\<close>

text \<open>
  C21. Admission keeps every limit. A dispatch that a spawn admits leaves the
  tables within the per-run, global and total limits and the depth limit of a
  policy that is at least as strict as the caller's, as the two kernel limits in
  the state table and as the run's agent cap; an enforced budget of the run was
  not used up. Whatever happened between the external check and the
  transaction, the counts and the insert are of one transaction.
\<close>

theorem admission_within_limits:
  assumes "spawn_admission q now did base hash out opts before d = Inr (p, c, d')"
    and "p0 = (case soPolicy opts of Some p \<Rightarrow> p | None \<Rightarrow> no_policy)" "scope = coalesce_text (dcScopeID c)"
  shows "counts_within p c d' 0
    \<and> enforces (spMaxActivePerRun p) (spMaxActivePerRun p0) \<and> enforces (spMaxActiveGlobal p) (spMaxActiveGlobal p0)
    \<and> enforces (spMaxAgentsPerRun p) (spMaxAgentsPerRun p0) \<and> enforces (spMaxSpawnDepth p) (spMaxSpawnDepth p0)
    \<and> (kernel_bound now d ''kernel.global_max_dispatches'' v \<longrightarrow> enforces (spMaxActiveGlobal p) v)
    \<and> (kernel_bound now d ''kernel.max_spawn_depth'' w \<longrightarrow> enforces (spMaxSpawnDepth p) w)
    \<and> (scope \<noteq> [] \<and> run_row d scope = Some r \<longrightarrow>
         enforces (spMaxAgentsPerRun p) (rMaxAgents r)
         \<and> (rBudgetEnforce r \<or> spBudgetEnforce p0 \<longrightarrow> (\<exists>budget. rTokenBudget r = Some budget
              \<and> fst (AggregateTokens d scope) + fst (snd (AggregateTokens d scope)) < budget)))
    \<and> (soRunID opts \<noteq> [] \<longrightarrow> scope \<noteq> [] \<longrightarrow> run_row d scope \<noteq> None)"
  unfolding assms(2,3) using admission_facts [OF assms(1)] by simp

text \<open>
  C19. One terminal record per finished dispatch. In every history of the tables
  a dispatch is terminal exactly if it has a terminal record; the record has its
  status, it came from a status that was not terminal, and exactly one event
  reports that transition.
\<close>

theorem terminal_iff_recorded:
  assumes "dispatch_reachable d" "GetDispatch d did = Inr r"
  shows "(isTerminalStatus (dpStatus r) \<longleftrightarrow> readTerminal d did \<noteq> None)
    \<and> (\<forall>t. readTerminal d did = Some t \<longrightarrow>
         trStatus t = dpStatus r \<and> \<not> isTerminalStatus (trFromStatus t)
         \<and> (\<exists>!e. e \<in> set (ddEvents d) \<and> deID e = trEventID t)
         \<and> (\<exists>e \<in> set (ddEvents d). deID e = trEventID t \<and> deDispatchID e = did
              \<and> deFromStatus e = trFromStatus t \<and> deToStatus e = dpStatus r))"
proof -
  note ok = reachable_ok [OF assms(1)]
  have r: "r \<in> set (ddRows d)" "dpID r = did"
    using assms(2) by (auto simp: GetDispatch_def split: option.splits dest: sql_first_Some)
  have "trStatus t = dpStatus r \<and> isTerminalStatus (dpStatus r) \<and> \<not> isTerminalStatus (trFromStatus t)
         \<and> (\<exists>!e. e \<in> set (ddEvents d) \<and> deID e = trEventID t)
         \<and> (\<exists>e \<in> set (ddEvents d). deID e = trEventID t \<and> deDispatchID e = did
              \<and> deFromStatus e = trFromStatus t \<and> deToStatus e = dpStatus r)" if "readTerminal d did = Some t" for t
  proof -
    have t: "t \<in> set (ddTerminals d)" "trDispatchID t = did"
      using that by (auto simp: readTerminal_def dest: sql_first_Some)
    from terminals_okD(4) [OF ok t(1)] obtain r1 where r1: "r1 \<in> set (ddRows d)" "dpID r1 = did" "dpStatus r1 = trStatus t"
      using t(2) by auto
    with same_row [OF ok r1(1) r(1)] r(2) have st: "trStatus t = dpStatus r" by simp
    obtain e where e: "e \<in> set (ddEvents d)" "deID e = trEventID t" "deDispatchID e = did"
      "deFromStatus e = trFromStatus t" "deToStatus e = dpStatus r"
      using terminals_okD(6) [OF ok t(1)] t(2) st by auto
    moreover have "e' = e" if "e' \<in> set (ddEvents d)" "deID e' = trEventID t" for e'
      using terminals_okD(7) [OF ok] e that by (auto simp: distinct_map inj_on_def)
    ultimately show ?thesis using terminals_okD(5) [OF ok t(1)] st by metis
  qed
  moreover have "readTerminal d did \<noteq> None" if "isTerminalStatus (dpStatus r)"
    using terminals_okD(3) [OF ok r(1) that] r(2) by (simp add: readTerminal_None)
  ultimately show ?thesis by (cases "readTerminal d did") auto
qed

text \<open>
  C20. An outcome is final. Once a dispatch is terminal, whatever the operations
  of the store do, short of pruning it, keeps its status and its terminal record;
  a later writer gets the recorded outcome back and a later status update is
  refused.
\<close>

theorem outcome_is_final:
  assumes "dispatch_reachable d" "GetDispatch d did = Inr r" "isTerminalStatus (dpStatus r)" "work_step\<^sup>*\<^sup>* d d'"
  shows "readTerminal d' did = readTerminal d did \<and> (\<exists>r'. GetDispatch d' did = Inr r' \<and> dpStatus r' = dpStatus r)
    \<and> UpdateStatus recorder now did st us d' = Inl ErrStaleStatus
    \<and> (validate t = None \<longrightarrow> Terminalize recorder now did t d' = Inl (ErrAlreadyTerminal (readTerminal d did)))"
proof -
  note ok = reachable_ok [OF assms(1)]
  have r: "r \<in> set (ddRows d)" "dpID r = did"
    using assms(2) by (auto simp: GetDispatch_def split: option.splits dest: sql_first_Some)
  from works_effects [OF assms(4) ok] have e: "effect\<^sup>*\<^sup>* d d'" "terminals_ok d'" by auto
  from effects_final [OF e(1) ok r(1) assms(3)] r(2) obtain r1 where
    keep: "readTerminal d' did = readTerminal d did" and
    r1: "r1 \<in> set (ddRows d')" "dpID r1 = did" "dpStatus r1 = dpStatus r" by auto
  obtain r' where r': "sql_first (\<lambda>r. dpID r = did) (ddRows d') = Some r'"
    using r1 sql_first_None [of "\<lambda>r. dpID r = did" "ddRows d'"] by (cases "sql_first (\<lambda>r. dpID r = did) (ddRows d')") auto
  have "r' = r1" using same_row [OF e(2) _ r1(1)] sql_first_Some [OF r'] r1(2) by auto
  with r' keep r1 assms(3) show ?thesis
    by (simp add: GetDispatch_def UpdateStatus_def Terminalize_def terminalizeTx_def)
qed

text \<open>
  Only its supervisor ends a supervised dispatch. If a dispatch has a
  supervisor before it is terminal, then the record of its outcome, whenever it
  is written, names the supervisor, reconciliation or spool import as its
  source, never a collector, a spawn failure, a kill, a run rollback or the
  trigger.
\<close>

lemma supervised_outcome:
  assumes "dispatch_reachable d" "GetDispatch d did = Inr r" "\<not> isTerminalStatus (dpStatus r)" "supervised d did"
    and "work_step\<^sup>*\<^sup>* d d'" "readTerminal d' did = Some t"
  shows "supervisedWriter (trSource t)"
proof -
  note ok = reachable_ok [OF assms(1)]
  have r: "r \<in> set (ddRows d)" "dpID r = did"
    using assms(2) by (auto simp: GetDispatch_def split: option.splits dest: sql_first_Some)
  from unfinished_unrecorded [OF ok r(1) assms(3)] r(2) have "readTerminal d did = None" by (simp add: readTerminal_None)
  with assms(4) have "supervised_ok d did" by (simp add: supervised_ok_def)
  from effects_supervised [OF _ this] works_effects [OF assms(5) ok] assms(6) show ?thesis
    by (auto simp: supervised_ok_def)
qed

text \<open>
  Rolling a run back cancels it completely or reports why not. In every
  history the cancellation of a run's dispatches succeeds; it cancels exactly
  the dispatches of the run that were open and not supervised, returns their
  number, and leaves every other dispatch as it was.
\<close>

lemma CancelByRun_cancels_open:
  assumes "dispatch_reachable d"
  shows "\<exists>d' cs. CancelByRun recorder now runID d = Inr (int (length (filter (cancellable d runID) (ddRows d))), d', cs)
    \<and> map dpID (ddRows d') = map dpID (ddRows d)
    \<and> (\<forall>r \<in> set (ddRows d). if cancellable d runID r
         then \<exists>r' \<in> set (ddRows d'). dpID r' = dpID r \<and> dpStatus r' = StatusCancelled
         else r \<in> set (ddRows d'))
    \<and> (\<forall>r' \<in> set (ddRows d'). \<not> cancellable d' runID r')"
proof -
  from CancelByRun_runs [OF reachable_ok [OF assms], of recorder now runID] obtain d' cs where
    d': "CancelByRun recorder now runID d = Inr (int (length (filter (cancellable d runID) (ddRows d))), d', cs)"
    "ddRows d' = map (\<lambda>r. if cancellable d runID r then cancel_row now runID r else r) (ddRows d)" by blast
  from d'(1) have "work_step\<^sup>*\<^sup>* d d'" by (blast intro: work_step.cancel)
  with works_effects reachable_ok [OF assms] have "effect\<^sup>*\<^sup>* d d'" by blast
  then have sup: "supervised d did \<longrightarrow> supervised d' did" for did
    by (induction rule: rtranclp_induct) (auto elim: effect.cases)
  have row: "dpID (cancel_row now runID r) = dpID r" "dpStatus (cancel_row now runID r) = StatusCancelled"
    "dpConfig (cancel_row now runID r) = dpConfig r" for r
    by (simp_all add: cancel_row_def)
  have "\<not> cancellable d' runID r'" if r': "r' \<in> set (ddRows d')" for r'
  proof -
    from r' have "r' \<in> (\<lambda>r. if cancellable d runID r then cancel_row now runID r else r) ` set (ddRows d)"
      by (simp only: d'(2) set_map)
    then obtain r where "r' = (if cancellable d runID r then cancel_row now runID r else r)" by (rule imageE)
    with sup row show ?thesis by (auto simp: cancellable_def split: if_splits)
  qed
  moreover have "map dpID (ddRows d') = map dpID (ddRows d)" by (simp add: d'(2) row comp_def if_distrib)
  moreover have "if cancellable d runID r
         then \<exists>r' \<in> set (ddRows d'). dpID r' = dpID r \<and> dpStatus r' = StatusCancelled
         else r \<in> set (ddRows d')" if "r \<in> set (ddRows d)" for r
  proof -
    have "(if cancellable d runID r then cancel_row now runID r else r) \<in> set (ddRows d')"
      using that by (simp add: d'(2))
    with row show ?thesis by (cases "cancellable d runID r") auto
  qed
  ultimately show ?thesis using d'(1) by blast
qed

section \<open>A sample history\<close>

definition budget_run :: run where
  "budget_run = \<lparr>rID = ''r1'', rProjectDir = ''/p'', rGoal = ''g'', rStatus = ''active'', rPhase = ''planned'',
     rComplexity = 3, rForceFull = False, rAutoAdvance = True, rCreatedAt = 10, rUpdatedAt = 10,
     rCompletedAt = None, rScopeID = None, rMetadata = None, rPhases = None, rTokenBudget = Some 1000,
     rBudgetWarnPct = 80, rParentRunID = None, rGoalID = None, rMaxDispatches = 0, rBudgetEnforce = True,
     rMaxAgents = 3, rGateRules = None\<rparr>"

definition start_db :: dispatch_db where
  "start_db = \<lparr>ddRows = [], ddEvents = [], ddEventSeq = 0, ddTerminals = [], ddSupervision = [], ddIntents = [],
     ddConsumptions = [], ddDeliveries = [],
     ddState = [\<lparr>srKey = ''kernel.global_max_dispatches'', srScopeID = ''global'', srPayload = ''5'',
       srUpdatedAt = 1, srExpiresAt = None\<rparr>], ddRuns = [budget_run]\<rparr>"

definition sample_spawn :: spawn_options where
  "sample_spawn = \<lparr>soAgentType = [], soProjectDir = ''/p'', soPromptFile = ''/p/x'', soOutputFile = [], soName = [],
     soModel = [], soSandbox = [], soSandboxSpec = [], soTimeoutSec = 0, soScopeID = [], soRunID = ''r1'',
     soParentID = [], soParentDispatchID = [],
     soPolicy = Some (no_policy\<lparr>spMaxActivePerRun := 2\<rparr>), soRetry = False\<rparr>"

definition spawned_db :: dispatch_db where
  "spawned_db = start_db\<lparr>ddRows := [new_dispatch ''d1'' 100
     (spawn_config [] ''h'' ''/o'' (spawn_defaults sample_spawn)) 0]\<rparr>"

definition failed_db :: dispatch_db where
  "failed_db = (case Terminalize True 110 ''d1'' (spawnFailed ''boom'') spawned_db of Inr (rec, d', cs) \<Rightarrow> d' | Inl _ \<Rightarrow> spawned_db)"

lemma start_reachable: "dispatch_reachable start_db"
  by (intro dispatch_reachable.init) (simp_all add: start_db_def)

lemma sample_admitted:
  "\<exists>p c. spawn_admission None 100 ''d1'' [] ''h'' ''/o'' sample_spawn start_db start_db = Inr (p, c, spawned_db)"
proof -
  have "(case spawn_admission None 100 ''d1'' [] ''h'' ''/o'' sample_spawn start_db start_db of
     Inr (p, c, d') \<Rightarrow> ddRows d' = ddRows spawned_db | Inl _ \<Rightarrow> False)"
    by code_simp
  then obtain p c d' where a: "spawn_admission None 100 ''d1'' [] ''h'' ''/o'' sample_spawn start_db start_db = Inr (p, c, d')"
    and rows: "ddRows d' = ddRows spawned_db"
    by (auto split: sum.splits)
  from a have "\<exists>rs. d' = start_db\<lparr>ddRows := rs\<rparr>"
    by (auto simp: spawn_admission_def Let_def createDispatch_def split: option.splits if_splits
        dest!: admit_Inr admitTx_created)
  with rows a show ?thesis by (auto simp: spawned_db_def)
qed

theorem admission_within_limits_witness:
  "\<exists>p c. spawn_admission None 100 ''d1'' [] ''h'' ''/o'' sample_spawn start_db start_db = Inr (p, c, spawned_db)
     \<and> counts_within p c spawned_db 0"
  using sample_admitted admission_within_limits [OF _ refl refl] by blast

lemma spawned_reachable: "dispatch_reachable spawned_db"
  using sample_admitted start_reachable spawn_step by blast

lemma sample_failed:
  "\<exists>rec cs. Terminalize True 110 ''d1'' (spawnFailed ''boom'') spawned_db = Inr (rec, failed_db, cs)"
proof -
  have "(case Terminalize True 110 ''d1'' (spawnFailed ''boom'') spawned_db of Inr _ \<Rightarrow> True | Inl _ \<Rightarrow> False)"
    by code_simp
  then show ?thesis by (auto simp: failed_db_def split: sum.splits)
qed

lemma failed_reachable: "dispatch_reachable failed_db"
  using sample_failed spawned_reachable by (blast intro: dispatch_reachable.work work_step.finish)

definition failed_status :: "dispatch_db \<Rightarrow> string \<Rightarrow> bool" where
  "failed_status d did = (case GetDispatch d did of Inr r \<Rightarrow> dpStatus r = StatusFailed | Inl _ \<Rightarrow> False)"

lemma failed_row: "\<exists>r. GetDispatch failed_db ''d1'' = Inr r \<and> dpStatus r = StatusFailed"
proof -
  have "failed_status failed_db ''d1''" by code_simp
  then show ?thesis by (auto simp: failed_status_def split: sum.splits)
qed

theorem terminal_iff_recorded_witness: "\<exists>t. readTerminal failed_db ''d1'' = Some t \<and> trStatus t = StatusFailed"
  using failed_row terminal_iff_recorded [OF failed_reachable] by fastforce

theorem outcome_is_final_witness:
  "\<exists>rec. readTerminal failed_db ''d1'' = Some rec
     \<and> Terminalize False 120 ''d1'' (spawnFailed ''again'') failed_db = Inl (ErrAlreadyTerminal (Some rec))"
proof -
  obtain r where r: "GetDispatch failed_db ''d1'' = Inr r" "isTerminalStatus (dpStatus r)"
    using failed_row by auto
  have "readTerminal failed_db ''d1'' \<noteq> None" by code_simp
  moreover have "validate (spawnFailed ''again'') = None" by code_simp
  ultimately show ?thesis using outcome_is_final [OF failed_reachable r rtranclp.rtrancl_refl] by force
qed

text \<open>The same spawn under a supervisor, which then reports the failure.\<close>

definition supervised_db :: dispatch_db where
  "supervised_db = spawned_db\<lparr>ddSupervision := ''d1'' # ddSupervision spawned_db\<rparr>"

definition supervisor_report :: terminal where
  "supervisor_report = (spawnFailed ''boom'')\<lparr>tmSource := ''supervisor''\<rparr>"

lemma supervised_reachable: "dispatch_reachable supervised_db"
  unfolding supervised_db_def by (rule dispatch_reachable.work [OF spawned_reachable work_step.supervise])

end
