(* ===== verification/GoHeap.thy ===== *)
theory GoHeap
  imports PortfolioHeap
begin

text \<open>
  Go's \<^verbatim>\<open>container/heap\<close> over a slice, parametric in the \<^verbatim>\<open>Less\<close> method of the
  \<^verbatim>\<open>heap.Interface\<close> it is given. Where \<^verbatim>\<open>Less\<close> compares a key in a linear order,
  the operations act on the keys as the sift routines of \<^verbatim>\<open>PortfolioHeap\<close> do, so
  heap order and permutation facts are carried over from there.
\<close>

section \<open>The operations of the package\<close>

function up :: "('a \<Rightarrow> 'a \<Rightarrow> bool) \<Rightarrow> 'a list \<Rightarrow> nat \<Rightarrow> 'a list" where
  "up lt h j =
     (let i = (j - 1) div 2 in
      if i = j \<or> \<not> lt (h ! j) (h ! i) then h else up lt (swap h i j) i)"
  by pat_completeness auto
termination by (relation "measure (snd \<circ> snd)") auto

text \<open>\<^verbatim>\<open>down\<close> returns the slice and the last index \<open>i\<close>; its Go result is \<open>i > i0\<close>.\<close>

function down :: "('a \<Rightarrow> 'a \<Rightarrow> bool) \<Rightarrow> 'a list \<Rightarrow> nat \<Rightarrow> nat \<Rightarrow> 'a list \<times> nat" where
  "down lt h i n =
     (let j1 = 2 * i + 1 in
      if j1 \<ge> n then (h, i)
      else
        let j2 = j1 + 1;
            j = (if j2 < n \<and> lt (h ! j2) (h ! j1) then j2 else j1)
        in if \<not> lt (h ! j) (h ! i) then (h, i) else down lt (swap h i j) j n)"
  by pat_completeness auto
termination by (relation "measure (\<lambda>(lt, h, i, n). n - i)") (auto split: if_splits)

declare up.simps [simp del] down.simps [simp del]

definition Push :: "('a \<Rightarrow> 'a \<Rightarrow> bool) \<Rightarrow> 'a list \<Rightarrow> 'a \<Rightarrow> 'a list" where
  "Push lt h x = up lt (h @ [x]) (length h)"

text \<open>The \<^verbatim>\<open>Pop\<close> method of a slice heap: the last element and the slice without it.\<close>

definition pop_last :: "'a list \<Rightarrow> 'a \<times> 'a list" where
  "pop_last h = (h ! (length h - 1), take (length h - 1) h)"

definition Pop :: "('a \<Rightarrow> 'a \<Rightarrow> bool) \<Rightarrow> 'a list \<Rightarrow> 'a \<times> 'a list" where
  "Pop lt h =
     (let n = length h - 1 in pop_last (fst (down lt (swap h 0 n) 0 n)))"

definition down_or_up :: "('a \<Rightarrow> 'a \<Rightarrow> bool) \<Rightarrow> 'a list \<Rightarrow> nat \<Rightarrow> nat \<Rightarrow> 'a list" where
  "down_or_up lt h i n =
     (let (h1, k) = down lt h i n in if k > i then h1 else up lt h1 i)"

definition Remove_at :: "('a \<Rightarrow> 'a \<Rightarrow> bool) \<Rightarrow> 'a list \<Rightarrow> nat \<Rightarrow> 'a \<times> 'a list" where
  "Remove_at lt h i =
     (let n = length h - 1 in
      pop_last (if n \<noteq> i then down_or_up lt (swap h i n) i n else h))"

definition Fix :: "('a \<Rightarrow> 'a \<Rightarrow> bool) \<Rightarrow> 'a list \<Rightarrow> nat \<Rightarrow> 'a list" where
  "Fix lt h i = down_or_up lt h i (length h)"

section \<open>The operations on keys\<close>

text \<open>\<^verbatim>\<open>Less\<close> compares the keys \<open>key\<close> of the elements.\<close>

abbreviation by_key :: "('a \<Rightarrow> 'k::linorder) \<Rightarrow> 'a \<Rightarrow> 'a \<Rightarrow> bool" where
  "by_key key \<equiv> \<lambda>x y. key x < key y"

lemma map_swap: "i < length h \<Longrightarrow> j < length h \<Longrightarrow> map f (swap h i j) = swap (map f h) i j"
  by (simp add: swap_def map_update)

lemma map_up_aux:
  "lt = by_key key \<Longrightarrow> j < length h \<Longrightarrow> map key (up lt h j) = heapUp (map key h) j"
proof (induction lt h j rule: up.induct)
  case (1 lt h j)
  let ?i = "(j - 1) div 2"
  have i: "?i < length h" using 1(3) by linarith
  show ?case
  proof (cases "?i = j \<or> \<not> lt (h ! j) (h ! ?i)")
    case True
    then show ?thesis using 1(2,3) i by (subst up.simps, subst heapUp.simps) (auto simp: Let_def)
  next
    case False
    then have "map key (up lt (swap h ?i j) ?i) = heapUp (swap (map key h) ?i j) ?i"
      using 1 i by (simp add: map_swap)
    with False show ?thesis using 1(2,3) i by (subst up.simps, subst heapUp.simps) (auto simp: Let_def)
  qed
qed

lemmas map_up = map_up_aux [OF refl]

lemma up_perm: "j < length h \<Longrightarrow> length (up lt h j) = length h \<and> mset (up lt h j) = mset h"
proof (induction lt h j rule: up.induct)
  case (1 lt h j)
  let ?i = "(j - 1) div 2"
  have i: "?i < length h" using 1(2) by linarith
  show ?case
  proof (cases "?i = j \<or> \<not> lt (h ! j) (h ! ?i)")
    case True
    then show ?thesis by (subst (1 2) up.simps) (simp add: Let_def)
  next
    case False
    with 1 i show ?thesis by (subst (1 2) up.simps) (simp add: Let_def)
  qed
qed

abbreviation pick_child :: "('a \<Rightarrow> 'a \<Rightarrow> bool) \<Rightarrow> 'a list \<Rightarrow> nat \<Rightarrow> nat \<Rightarrow> nat" where
  "pick_child lt h i n \<equiv>
     (if 2 * i + 2 < n \<and> lt (h ! (2 * i + 2)) (h ! (2 * i + 1)) then 2 * i + 2 else 2 * i + 1)"

lemma down_cases:
  "n \<le> 2 * i + 1 \<Longrightarrow> down lt h i n = (h, i)"
  "\<not> lt (h ! pick_child lt h i n) (h ! i) \<Longrightarrow> down lt h i n = (h, i)"
  "2 * i + 1 < n \<Longrightarrow> lt (h ! pick_child lt h i n) (h ! i) \<Longrightarrow>
     down lt h i n = down lt (swap h i (pick_child lt h i n)) (pick_child lt h i n) n"
  by (subst down.simps; auto simp: Let_def)+

lemma down_rule [case_names step]:
  fixes h :: "'a list"
  assumes "\<And>h i. (2 * i + 1 < n \<Longrightarrow> lt (h ! pick_child lt h i n) (h ! i) \<Longrightarrow>
      P (swap h i (pick_child lt h i n)) (pick_child lt h i n)) \<Longrightarrow> P h i"
  shows "P h i"
proof (induction "n - i" arbitrary: h i rule: less_induct)
  case less
  show ?case
  proof (rule assms, rule less)
    assume "2 * i + 1 < n"
    then show "n - pick_child lt h i n < n - i" by (simp split: if_splits; linarith)
  qed
qed

lemma down_perm:
  "n \<le> length h \<Longrightarrow> length (fst (down lt h i n)) = length h \<and> mset (fst (down lt h i n)) = mset h
     \<and> (\<forall>k. n \<le> k \<longrightarrow> fst (down lt h i n) ! k = h ! k) \<and> i \<le> snd (down lt h i n)
     \<and> (snd (down lt h i n) = i \<longrightarrow> fst (down lt h i n) = h)"
proof (induction h i rule: down_rule [where n = n and lt = lt])
  case (step h i)
  let ?j = "pick_child lt h i n"
  consider "n \<le> 2 * i + 1" | "\<not> lt (h ! ?j) (h ! i)" | "2 * i + 1 < n" "lt (h ! ?j) (h ! i)" by linarith
  then show ?case
  proof cases
    case 3
    have ij: "i < length h" "?j < length h" "i < n" "?j < n" "i < ?j" using 3(1) step(2) by auto
    note ih = step(1) [OF 3, simplified length_swap, OF step(2)]
    have "swap h i ?j ! k = h ! k" if "n \<le> k" for k using that ij by (subst nth_swap) auto
    with ih ij show ?thesis unfolding down_cases(3) [where lt = lt, OF 3] by fastforce
  qed (simp_all only: down_cases(1,2) fst_conv snd_conv simp_thms order_refl)
qed

lemma map_down:
  "n \<le> length h \<Longrightarrow> map key (fst (down (by_key key) h i n)) = heapDown (map key h) i n"
proof (induction h i rule: down_rule [where n = n and lt = "by_key key"])
  case (step h i)
  let ?j = "pick_child (by_key key) h i n"
  consider "n \<le> 2 * i + 1" | "2 * i + 1 < n" "\<not> key (h ! ?j) < key (h ! i)"
    | "2 * i + 1 < n" "key (h ! ?j) < key (h ! i)" by linarith
  then show ?case
  proof cases
    case 1
    then show ?thesis by (simp add: down_cases(1) heapDown_cases(1))
  next
    case 2
    then have ij: "i < length h" "?j < length h" using step(2) by auto
    have lc: "least_child (map key h) i n = ?j" using 2(1) step(2) by auto
    have "map key h ! i \<le> map key h ! least_child (map key h) i n"
      unfolding lc using ij 2(2) by (simp only: nth_map not_less)
    from heapDown_cases(2) [OF this] down_cases(2) [where lt = "by_key key", OF 2(2)]
    show ?thesis by (simp only: fst_conv)
  next
    case 3
    then have ij: "i < length h" "?j < length h" using step(2) by auto
    have lc: "least_child (map key h) i n = ?j" using 3(1) step(2) by auto
    have "\<not> map key h ! i \<le> map key h ! least_child (map key h) i n"
      unfolding lc using ij 3(2) by (simp only: nth_map not_le)
    from heapDown_cases(3) [OF 3(1) this, unfolded lc] down_cases(3) [where lt = "by_key key", OF 3]
      step(1) [OF 3, simplified length_swap, OF step(2)] ij
    show ?thesis by (simp only: map_swap)
  qed
qed

section \<open>Heap order\<close>

abbreviation heap_by :: "('a \<Rightarrow> 'k::linorder) \<Rightarrow> 'a list \<Rightarrow> bool" where
  "heap_by key h \<equiv> is_heap (map key h)"

lemma up_take: "j < n \<Longrightarrow> n \<le> length h \<Longrightarrow> take n (up lt h j) = up lt (take n h) j
     \<and> (\<forall>k. n \<le> k \<longrightarrow> up lt h j ! k = h ! k)"
proof (induction lt h j rule: up.induct)
  case (1 lt h j)
  let ?i = "(j - 1) div 2"
  have i: "?i < n" using 1(2) by linarith
  have sw: "take n (swap h ?i j) = swap (take n h) ?i j"
    "\<And>k. n \<le> k \<Longrightarrow> swap h ?i j ! k = h ! k"
    using 1(2,3) i by (auto simp: swap_def take_update_swap nth_list_update)
  show ?case
  proof (cases "?i = j \<or> \<not> lt (h ! j) (h ! ?i)")
    case True
    then show ?thesis using 1(2,3) i by (subst (1 2 3) up.simps) (auto simp: Let_def)
  next
    case False
    from 1(1) [OF refl False i] 1(3) i sw have
      "take n (up lt (swap h ?i j) ?i) = up lt (swap (take n h) ?i j) ?i
        \<and> (\<forall>k. n \<le> k \<longrightarrow> up lt (swap h ?i j) ?i ! k = h ! k)" by simp
    with False show ?thesis using 1(2,3) i by (subst (1 2 3) up.simps) (auto simp: Let_def)
  qed
qed

lemma heap_by_take:
  assumes "n \<le> length h"
  shows "heap_by key (take n h) = heap_from 0 (map key h) n"
proof -
  have "par m < n \<and> par m < length h" if "0 < m" "m < n" for m
    using par_less [OF that(1)] that(2) assms by simp
  then show ?thesis unfolding heap_from_def using assms by (intro iff_allI) (auto simp: min_def)
qed

text \<open>
  Re-sifting the cell \<open>i\<close> restores heap order of the first \<open>n\<close> cells when every
  defect involves \<open>i\<close>.
\<close>

lemma down_or_up_heap:
  fixes key :: "'a \<Rightarrow> 'k::linorder"
  assumes n: "n \<le> length h" and i: "i < n"
    and offs: "\<forall>m. 0 < m \<and> m < n \<and> m \<noteq> i \<and> par m \<noteq> i \<longrightarrow> key (h ! par m) \<le> key (h ! m)"
    and grands: "\<forall>m. 0 < i \<and> 0 < m \<and> m < n \<and> par m = i \<longrightarrow> key (h ! par i) \<le> key (h ! m)"
  defines "h' \<equiv> down_or_up (by_key key) h i n"
  shows "heap_by key (take n h')" "length h' = length h" "mset h' = mset h"
    "\<And>k. n \<le> k \<Longrightarrow> h' ! k = h ! k"
proof -
  have off: "key (h ! par m) \<le> key (h ! m)" if "0 < m" "m < n" "m \<noteq> i" "par m \<noteq> i" for m
    using offs that by blast
  have grand: "key (h ! par i) \<le> key (h ! m)" if "0 < i" "0 < m" "m < n" "par m = i" for m
    using grands that by blast
  let ?lt = "by_key key"
  let ?j = "pick_child ?lt h i n"
  obtain h1 k where d: "down ?lt h i n = (h1, k)" by fastforce
  have pk: "par m < n" "par m < length h" if "0 < m" "m < n" for m
    using par_less [OF that(1)] that n by simp_all
  note dp = down_perm [OF n, where i = i and lt = ?lt, unfolded d fst_conv snd_conv]
  have "heap_by key (take n h') \<and> length h' = length h \<and> mset h' = mset h \<and> (\<forall>k. n \<le> k \<longrightarrow> h' ! k = h ! k)"
  proof (cases "k > i")
    case True
    then have h': "h' = h1" by (simp add: h'_def down_or_up_def d)
    have st: "2 * i + 1 < n" "?lt (h ! ?j) (h ! i)"
      using True d down_cases(1,2) [where lt = ?lt and h = h and i = i and n = n] by (metis Pair_inject less_irrefl not_le)+
    have j: "0 < ?j" "?j < n" "par ?j = i" using st(1) by auto
    have "heap_from 0 (heapDown (map key h) i n) n"
    proof (rule heapDown_heap)
      fix m assume m: "0 < m" "m < n" "par m \<noteq> i"
      show "map key h ! par m \<le> map key h ! m"
      proof (cases "m = i")
        case True
        then have "key (h ! par i) \<le> key (h ! ?j)" using grand [OF _ j] m(1) by simp
        with st(2) True m n pk show ?thesis by (simp add: less_imp_le)
      next
        case False
        with off m n pk show ?thesis by simp
      qed
    next
      fix m assume "0 < i" "0 < m" "m < n" "par m = i"
      with grand n i pk [of i] show "map key h ! par i \<le> map key h ! m" by simp
    qed (use n in simp_all)
    then have "heap_from 0 (map key h1) n" using map_down [OF n, of key i] d by simp
    with h' dp n heap_by_take [of n h1 key] show ?thesis by simp
  next
    case False
    then have k: "k = i" and h1: "h1 = h" using dp by auto
    have h': "h' = up ?lt h i" using k h1 by (simp add: h'_def down_or_up_def d)
    have stop: "key (h ! i) \<le> key (h ! m)" if m: "0 < m" "m < n" "par m = i" for m
    proof -
      have two: "2 * i + 1 < n" using par_children [OF m(1,3)] m(2) by auto
      have ij: "i < ?j" by simp
      have "\<not> ?lt (h ! ?j) (h ! i)"
      proof
        assume a: "?lt (h ! ?j) (h ! i)"
        have "snd (down ?lt (swap h i ?j) ?j n) = i"
          unfolding down_cases(3) [where lt = ?lt, OF two a, symmetric] d k by (rule snd_conv)
        moreover have "?j \<le> snd (down ?lt (swap h i ?j) ?j n)" using down_perm [of n "swap h i ?j"] n by simp
        ultimately show False using ij by simp
      qed
      then have "key (h ! i) \<le> key (h ! ?j)" by simp
      also have "\<dots> \<le> key (h ! m)" using par_children [OF m(1,3)] m(2) by auto
      finally show ?thesis .
    qed
    have "is_heap (heapUp (map key (take n h)) i)"
    proof (rule heapUp_heap)
      fix m assume m: "0 < m" "m < length (map key (take n h))" "m \<noteq> i"
      with n have m': "m < n" by simp
      show "map key (take n h) ! par m \<le> map key (take n h) ! m"
        using off [OF m(1) m' m(3)] stop [OF m(1) m'] m' m n pk [OF m(1) m'] by (cases "par m = i") auto
    next
      fix m assume m: "0 < i" "0 < m" "m < length (map key (take n h))" "par m = i"
      with n i grand [OF m(1,2)] pk [of i] show "map key (take n h) ! par i \<le> map key (take n h) ! m" by simp
    qed (use n i in simp)
    then have "heap_by key (up ?lt (take n h) i)" using map_up [of i "take n h" key] n i by simp
    with h' up_take [OF i n, of ?lt] up_perm [of i h ?lt] n i show ?thesis by simp
  qed
  then show "heap_by key (take n h')" "length h' = length h" "mset h' = mset h"
    "\<And>k. n \<le> k \<Longrightarrow> h' ! k = h ! k" by blast+
qed

lemma heap_by_par:
  assumes "heap_by key h" "0 < m" "m < length h"
  shows "key (h ! par m) \<le> key (h ! m)"
proof -
  have "par m < length h" using par_less [OF assms(2)] assms(3) by simp
  moreover have "map key h ! par m \<le> map key h ! m" using assms by (simp add: heap_from_def)
  ultimately show ?thesis using assms(3) by simp
qed

section \<open>The package as a priority queue on keys\<close>

lemma pop_last_snoc: "h \<noteq> [] \<Longrightarrow> pop_last h = (last h, butlast h)"
  by (simp add: pop_last_def last_conv_nth butlast_conv_take)

lemma Push_heap:
  assumes "heap_by key h"
  shows "heap_by key (Push (by_key key) h x)" "mset (Push (by_key key) h x) = add_mset x (mset h)"
    "length (Push (by_key key) h x) = Suc (length h)"
proof -
  have "map key (Push (by_key key) h x) = heapPush (map key h) (key x)"
    by (simp add: Push_def heapPush_def map_up)
  with heapPush_heap [OF assms] show "heap_by key (Push (by_key key) h x)" by simp
  show "mset (Push (by_key key) h x) = add_mset x (mset h)"
    "length (Push (by_key key) h x) = Suc (length h)"
    using up_perm [of "length h" "h @ [x]" "by_key key"] by (simp_all add: Push_def)
qed

lemma Pop_heap:
  assumes "heap_by key h" "h \<noteq> []" "Pop (by_key key) h = (x, h')"
  shows "x = h ! 0" "heap_by key h'" "mset h = add_mset x (mset h')" "\<forall>y \<in> set h. key x \<le> key y"
proof -
  let ?n = "length h - 1"
  let ?d = "fst (down (by_key key) (swap h 0 ?n) 0 ?n)"
  have n: "?n < length h" "0 < length h" using assms(2) by (simp_all add: length_greater_0_conv)
  have perm: "length ?d = length h" "mset ?d = mset h" "?d ! ?n = h ! 0"
    using down_perm [of ?n "swap h 0 ?n" "by_key key" 0] n by (simp_all add: nth_swap)
  have x: "x = h ! 0" and h': "h' = take ?n ?d" using assms(3) perm by (simp_all add: Pop_def pop_last_def Let_def)
  show "x = h ! 0" by (rule x)
  have split: "?d = h' @ [x]" using take_Suc_conv_app_nth [of ?n ?d] perm n h' x by simp
  with perm(2) show "mset h = add_mset x (mset h')" by (metis mset.simps(2) add_mset_add_single mset_append mset.simps(1))
  have kd: "heapDown (swap (map key h) 0 ?n) 0 ?n = map key ?d"
    using map_down [of ?n "swap h 0 ?n" key 0] n by (simp add: map_swap)
  have "heapPop (map key h) = (key x, map key h')"
    unfolding heapPop_def Let_def length_map kd using n perm x h' by (simp add: take_map)
  from heapPop_heap [OF assms(1) _ this] assms(2)
  show "heap_by key h'" "\<forall>y \<in> set h. key x \<le> key y" by auto
qed

lemma Remove_at_heap:
  assumes "heap_by key h" "i < length h" "Remove_at (by_key key) h i = (x, h')"
  shows "x = h ! i" "heap_by key h'" "mset h = add_mset x (mset h')"
proof -
  let ?n = "length h - 1"
  have n: "?n < length h" using assms(2) by simp
  have take_heap: "heap_by key (take ?n h)"
    unfolding heap_by_take [OF less_imp_le [OF n]] using assms(1) by (auto simp: heap_from_def)
  define d where "d = (if ?n \<noteq> i then down_or_up (by_key key) (swap h i ?n) i ?n else h)"
  have d: "heap_by key (take ?n d) \<and> length d = length h \<and> mset d = mset h \<and> d ! ?n = h ! i"
  proof (cases "?n = i")
    case True
    with take_heap show ?thesis by (simp add: d_def)
  next
    case False
    then have i: "i < ?n" using assms(2) by simp
    have kept: "key (h ! par m) \<le> key (h ! m)" if "0 < m" "m < length h" for m
      by (rule heap_by_par [OF assms(1) that])
    have sw: "swap h i ?n ! m = h ! m" if "m < ?n" "m \<noteq> i" for m using that i by (simp add: nth_swap)
    have D: "d = down_or_up (by_key key) (swap h i ?n) i ?n" using False by (simp add: d_def)
    have off: "key (swap h i ?n ! par m) \<le> key (swap h i ?n ! m)"
      if "0 < m" "m < ?n" "m \<noteq> i" "par m \<noteq> i" for m
      using kept [of m] sw [of m] sw [of "par m"] par_less [OF that(1)] that by simp
    have grand: "key (swap h i ?n ! par i) \<le> key (swap h i ?n ! m)"
      if "0 < i" "0 < m" "m < ?n" "par m = i" for m
    proof -
      have "key (h ! par i) \<le> key (h ! i)" "key (h ! i) \<le> key (h ! m)"
        using kept [of i] kept [of m] that i by simp_all
      then show ?thesis using sw [of m] sw [of "par i"] par_less [OF that(2)] par_less [OF that(1)] that i by simp
    qed
    have le: "?n \<le> length (swap h i ?n)" by simp
    have offs: "\<forall>m. 0 < m \<and> m < ?n \<and> m \<noteq> i \<and> par m \<noteq> i \<longrightarrow> key (swap h i ?n ! par m) \<le> key (swap h i ?n ! m)"
      using off by blast
    have grands: "\<forall>m. 0 < i \<and> 0 < m \<and> m < ?n \<and> par m = i \<longrightarrow> key (swap h i ?n ! par i) \<le> key (swap h i ?n ! m)"
      using grand by blast
    note r = down_or_up_heap [where key = key, OF le i offs grands, folded D]
    show ?thesis using r(1,2,3) r(4) [of ?n] i by (simp add: nth_swap)
  qed
  have r: "pop_last d = (x, h')" using assms(3) unfolding Remove_at_def Let_def d_def .
  then have x: "x = h ! i" and h': "h' = take ?n d" using d by (auto simp: pop_last_def)
  show "x = h ! i" by (rule x)
  show "heap_by key h'" unfolding h' using d by blast
  have "d = h' @ [x]" using take_Suc_conv_app_nth [of ?n d] d n h' x by simp
  with d show "mset h = add_mset x (mset h')" by (metis mset.simps(2) add_mset_add_single mset_append mset.simps(1))
qed

text \<open>\<^verbatim>\<open>heap.Fix\<close> after the cell \<open>i\<close> of a heap was overwritten.\<close>

lemma Fix_heap:
  assumes "heap_by key h" "i < length h"
  shows "heap_by key (Fix (by_key key) (h[i := x]) i)" "mset (Fix (by_key key) (h[i := x]) i) = mset (h[i := x])"
    "length (Fix (by_key key) (h[i := x]) i) = length h"
proof -
  have kept: "key (h ! par m) \<le> key (h ! m)" if "0 < m" "m < length h" for m
    by (rule heap_by_par [OF assms(1) that])
  have off: "key (h[i := x] ! par m) \<le> key (h[i := x] ! m)"
    if "0 < m" "m < length h" "m \<noteq> i" "par m \<noteq> i" for m using kept [of m] that by simp
  have grand: "key (h[i := x] ! par i) \<le> key (h[i := x] ! m)"
    if "0 < i" "0 < m" "m < length h" "par m = i" for m
  proof -
    have "key (h ! par i) \<le> key (h ! i)" "key (h ! i) \<le> key (h ! m)" using kept [of i] kept [of m] that assms(2) by simp_all
    then show ?thesis using par_less [OF that(2)] par_less [OF that(1)] that by simp
  qed
  have le: "length h \<le> length (h[i := x])" by simp
  have offs: "\<forall>m. 0 < m \<and> m < length h \<and> m \<noteq> i \<and> par m \<noteq> i \<longrightarrow> key (h[i := x] ! par m) \<le> key (h[i := x] ! m)"
    using off by blast
  have grands: "\<forall>m. 0 < i \<and> 0 < m \<and> m < length h \<and> par m = i \<longrightarrow> key (h[i := x] ! par i) \<le> key (h[i := x] ! m)"
    using grand by blast
  note r = down_or_up_heap [where key = key, OF le assms(2) offs grands]
  show "heap_by key (Fix (by_key key) (h[i := x]) i)" "mset (Fix (by_key key) (h[i := x]) i) = mset (h[i := x])"
    "length (Fix (by_key key) (h[i := x]) i) = length h"
    using r(1,2,3) unfolding Fix_def length_list_update by (simp_all only: length_list_update take_all order_refl)
qed

end
