(* ===== verification/SchedJob.thy ===== *)
theory SchedJob
  imports GoLib
begin

text \<open>
  The spawn jobs of \<^verbatim>\<open>internal/scheduler/job.go\<close>. Jobs are shared by pointer
  between the queue, the workers and the retry timers, so the scheduler theories
  keep them in a store from pointers to jobs. Times are in nanoseconds, the zero
  \<^verbatim>\<open>time.Time\<close> is \<^verbatim>\<open>None\<close>; \<^verbatim>\<open>Ctx\<close> is the job's context: absent in a clone,
  otherwise whether it has been cancelled. The completion callback is not kept.
\<close>

type_synonym job_ptr = nat

definition JobTypeDispatch :: string where [const_defs]: "JobTypeDispatch = ''dispatch''"
definition JobTypeBatch :: string where [const_defs]: "JobTypeBatch = ''batch''"

definition PriorityUrgent :: int where "PriorityUrgent = 0"
definition PriorityHigh :: int where "PriorityHigh = 1"
definition PriorityNormal :: int where "PriorityNormal = 2"
definition PriorityLow :: int where "PriorityLow = 3"

definition StatusPending :: string where [const_defs]: "StatusPending = ''pending''"
definition StatusScheduled :: string where [const_defs]: "StatusScheduled = ''scheduled''"
definition StatusRunning :: string where [const_defs]: "StatusRunning = ''running''"
definition StatusCompleted :: string where [const_defs]: "StatusCompleted = ''completed''"
definition StatusFailed :: string where [const_defs]: "StatusFailed = ''failed''"
definition StatusCancelled :: string where [const_defs]: "StatusCancelled = ''cancelled''"
definition StatusRetrying :: string where [const_defs]: "StatusRetrying = ''retrying''"

datatype meta_value = MetaString string | MetaInt int | MetaOther

record SpawnJob =
  JobID :: string
  Type :: string
  Priority :: int
  SessionName :: string
  AgentType :: string
  ProjectDir :: string
  SpawnOpts :: string
  DispatchID :: string
  Status :: string
  CreatedAt :: int
  ScheduledAt :: "int option"
  StartedAt :: "int option"
  CompletedAt :: "int option"
  Error :: string
  RetryCount :: int
  MaxRetries :: int
  RetryDelay :: int
  BatchID :: string
  ParentJobID :: string
  Metadata :: "string \<rightharpoonup> meta_value"
  Ctx :: "bool option"

type_synonym store = "job_ptr \<Rightarrow> SpawnJob"

section \<open>Operations on one job\<close>

text \<open>\<^verbatim>\<open>fresh\<close> is the value of \<^verbatim>\<open>generateJobID\<close>, 16 random bytes in hexadecimal.\<close>

definition NewSpawnJob :: "string \<Rightarrow> int \<Rightarrow> string \<Rightarrow> string \<Rightarrow> string \<Rightarrow> SpawnJob" where
  "NewSpawnJob fresh now i ty session =
     \<lparr>JobID = (if i = '''' then fresh else i), Type = ty, Priority = PriorityNormal,
      SessionName = session, AgentType = '''', ProjectDir = '''', SpawnOpts = '''', DispatchID = '''',
      Status = StatusPending, CreatedAt = now, ScheduledAt = None, StartedAt = None, CompletedAt = None,
      Error = '''', RetryCount = 0, MaxRetries = 3, RetryDelay = 1000000000, BatchID = '''',
      ParentJobID = '''', Metadata = Map.empty, Ctx = Some False\<rparr>"

definition Cancel :: "int \<Rightarrow> SpawnJob \<Rightarrow> SpawnJob" where
  "Cancel now j =
     (let j1 = j\<lparr>Ctx := map_option (\<lambda>_. True) (Ctx j)\<rparr> in
      if Status j1 = StatusPending \<or> Status j1 = StatusScheduled
      then j1\<lparr>Status := StatusCancelled, CompletedAt := Some now\<rparr> else j1)"

text \<open>\<^verbatim>\<open>IsCancelled\<close>; \<^verbatim>\<open>None\<close> is the nil dereference of a job without a context.\<close>

definition IsCancelled :: "SpawnJob \<Rightarrow> bool option" where
  "IsCancelled j = (if Status j = StatusCancelled then Some True else Ctx j)"

definition IsTerminal :: "SpawnJob \<Rightarrow> bool" where
  "IsTerminal j \<longleftrightarrow> Status j = StatusCompleted \<or> Status j = StatusFailed \<or> Status j = StatusCancelled"

definition SetStatus :: "int \<Rightarrow> string \<Rightarrow> SpawnJob \<Rightarrow> SpawnJob" where
  "SetStatus now s j =
     (let j1 = j\<lparr>Status := s\<rparr> in
      if s = StatusScheduled then j1\<lparr>ScheduledAt := Some now\<rparr>
      else if s = StatusRunning then j1\<lparr>StartedAt := Some now\<rparr>
      else if s \<in> {StatusCompleted, StatusFailed, StatusCancelled} then j1\<lparr>CompletedAt := Some now\<rparr>
      else j1)"

definition SetError :: "string option \<Rightarrow> SpawnJob \<Rightarrow> SpawnJob" where
  "SetError err j = (case err of None \<Rightarrow> j | Some e \<Rightarrow> j\<lparr>Error := e\<rparr>)"

definition QueueDuration :: "int \<Rightarrow> SpawnJob \<Rightarrow> int" where
  "QueueDuration now j =
     (case ScheduledAt j of None \<Rightarrow> time_sub now (CreatedAt j) | Some s \<Rightarrow> time_sub s (CreatedAt j))"

definition ExecutionDuration :: "int \<Rightarrow> SpawnJob \<Rightarrow> int" where
  "ExecutionDuration now j =
     (case StartedAt j of None \<Rightarrow> 0
      | Some s \<Rightarrow> (case CompletedAt j of None \<Rightarrow> time_sub now s | Some c \<Rightarrow> time_sub c s))"

definition TotalDuration :: "int \<Rightarrow> SpawnJob \<Rightarrow> int" where
  "TotalDuration now j =
     (case CompletedAt j of None \<Rightarrow> time_sub now (CreatedAt j) | Some c \<Rightarrow> time_sub c (CreatedAt j))"

definition CanRetry :: "SpawnJob \<Rightarrow> bool" where
  "CanRetry j \<longleftrightarrow> RetryCount j < MaxRetries j"

definition IncrementRetry :: "SpawnJob \<Rightarrow> SpawnJob" where
  "IncrementRetry j = j\<lparr>RetryCount := RetryCount j + 1, Status := StatusRetrying, Error := ''''\<rparr>"

definition Clone :: "SpawnJob \<Rightarrow> SpawnJob" where
  "Clone j = j\<lparr>Ctx := None\<rparr>"

section \<open>What the operations leave alone\<close>

text \<open>The identity and the queue key of a job: no status operation writes them.\<close>

definition tag :: "SpawnJob \<Rightarrow> string \<times> int \<times> int \<times> string \<times> string \<times> string" where
  "tag j = (JobID j, Priority j, CreatedAt j, SessionName j, BatchID j, AgentType j)"

lemma tag_frame [frame, simp]:
  "tag (Cancel now j) = tag j" "tag (SetStatus now s j) = tag j" "tag (SetError e j) = tag j"
  "tag (IncrementRetry j) = tag j" "tag (Clone j) = tag j"
  by (auto simp: tag_def Cancel_def SetStatus_def SetError_def IncrementRetry_def Clone_def Let_def split: option.splits)

lemma tag_fields:
  assumes "tag j = tag j'"
  shows "JobID j = JobID j'" "Priority j = Priority j'" "CreatedAt j = CreatedAt j'"
    "SessionName j = SessionName j'" "BatchID j = BatchID j'" "AgentType j = AgentType j'"
  using assms by (simp_all add: tag_def)

lemma Status_SetStatus [simp]: "Status (SetStatus now s j) = s"
  by (simp add: SetStatus_def Let_def)

lemma Ctx_SetStatus [simp]: "Ctx (SetStatus now s j) = Ctx j"
  by (simp add: SetStatus_def Let_def)

text \<open>Cancelling takes effect exactly on jobs that wait: a running one only sees its context end.\<close>

lemma Status_Cancel:
  "Status (Cancel now j) = (if Status j = StatusPending \<or> Status j = StatusScheduled then StatusCancelled else Status j)"
  by (simp add: Cancel_def Let_def)

lemma Cancel_IsCancelled: "Ctx j \<noteq> None \<Longrightarrow> IsCancelled (Cancel now j) = Some True"
  by (auto simp: IsCancelled_def Cancel_def Let_def)

lemma retries_bounded: "CanRetry j \<Longrightarrow> RetryCount (IncrementRetry j) \<le> MaxRetries (IncrementRetry j)"
  by (simp add: CanRetry_def IncrementRetry_def)

end
