(* ===== verification/SchedQueue.thy ===== *)
theory SchedQueue
  imports GoHeap SchedJob "HOL-Library.Product_Lexorder" "HOL-Library.Signed_Division"
begin

text \<open>
  The job queue of \<^verbatim>\<open>internal/scheduler/queue.go\<close>: a slice heap of job pointers
  under \<^verbatim>\<open>container/heap\<close>, the index by job ID, the fairness counters and the
  statistics, with the invariant that ties them together. Each method runs under
  the queue's mutex and is one atomic operation on the queue and the job store.
\<close>

section \<open>Counter maps\<close>

text \<open>Go maps from keys to counts: a missing key reads 0, \<^verbatim>\<open>m[k]++\<close> creates it.\<close>

definition mget :: "('k \<rightharpoonup> int) \<Rightarrow> 'k \<Rightarrow> int" where
  "mget m k = (case m k of None \<Rightarrow> 0 | Some v \<Rightarrow> v)"

definition incr :: "'k \<Rightarrow> ('k \<rightharpoonup> int) \<Rightarrow> 'k \<rightharpoonup> int" where
  "incr k m = m(k \<mapsto> mget m k + 1)"

definition decr :: "'k \<Rightarrow> ('k \<rightharpoonup> int) \<Rightarrow> 'k \<rightharpoonup> int" where
  "decr k m = m(k \<mapsto> mget m k - 1)"

text \<open>\<^verbatim>\<open>m[k]--; if m[k] <= 0 { delete(m, k) }\<close>\<close>

definition decr_del :: "'k \<Rightarrow> ('k \<rightharpoonup> int) \<Rightarrow> 'k \<rightharpoonup> int" where
  "decr_del k m = (let m1 = decr k m in if mget m1 k \<le> 0 then m1(k := None) else m1)"

section \<open>State\<close>

record QueueStats =
  TotalEnqueued :: int
  TotalDequeued :: int
  CurrentSize :: int
  MaxSize :: int
  ByPriority :: "int \<rightharpoonup> int"
  ByType :: "string \<rightharpoonup> int"
  AvgWaitTime :: int
  MaxWaitTime :: int
  totalWaitTime :: int

record JobQueue =
  jobs :: "job_ptr list"
  byID :: "string \<rightharpoonup> job_ptr"
  batchCounts :: "string \<rightharpoonup> int"
  sessionCounts :: "string \<rightharpoonup> int"
  stats :: QueueStats

definition NewJobQueue :: JobQueue where
  "NewJobQueue =
     \<lparr>jobs = [], byID = Map.empty, batchCounts = Map.empty, sessionCounts = Map.empty,
      stats = \<lparr>TotalEnqueued = 0, TotalDequeued = 0, CurrentSize = 0, MaxSize = 0,
               ByPriority = Map.empty, ByType = Map.empty, AvgWaitTime = 0, MaxWaitTime = 0,
               totalWaitTime = 0\<rparr>\<rparr>"

text \<open>\<^verbatim>\<open>jobHeap.Less\<close>: lower priority values first, then creation order.\<close>

definition jobLess :: "store \<Rightarrow> job_ptr \<Rightarrow> job_ptr \<Rightarrow> bool" where
  "jobLess st p q =
     (if Priority (st p) \<noteq> Priority (st q) then Priority (st p) < Priority (st q)
      else CreatedAt (st p) < CreatedAt (st q))"

text \<open>\<^verbatim>\<open>for i, j := range xs { if P(j) { ... break } }\<close>\<close>

definition index_of :: "('a \<Rightarrow> bool) \<Rightarrow> 'a list \<Rightarrow> nat option" where
  "index_of P xs = find (\<lambda>i. P (xs ! i)) [0..<length xs]"

section \<open>Operations\<close>

definition updateJobLocked :: "store \<Rightarrow> job_ptr \<Rightarrow> JobQueue \<Rightarrow> JobQueue" where
  "updateJobLocked st p q =
     (let js = (case index_of (\<lambda>j. JobID (st j) = JobID (st p)) (jobs q) of
                  None \<Rightarrow> jobs q
                | Some i \<Rightarrow> Fix (jobLess st) ((jobs q)[i := p]) i)
      in q\<lparr>jobs := js, byID := (byID q)(JobID (st p) \<mapsto> p)\<rparr>)"

definition Enqueue :: "store \<Rightarrow> job_ptr \<Rightarrow> JobQueue \<Rightarrow> JobQueue" where
  "Enqueue st p q =
     (let job = st p in
      if byID q (JobID job) \<noteq> None then updateJobLocked st p q
      else
        let js = Push (jobLess st) (jobs q) p;
            s = stats q;
            n = int (length js)
        in q\<lparr>jobs := js,
             byID := (byID q)(JobID job \<mapsto> p),
             batchCounts := (if BatchID job \<noteq> '''' then incr (BatchID job) (batchCounts q) else batchCounts q),
             sessionCounts := incr (SessionName job) (sessionCounts q),
             stats := s\<lparr>TotalEnqueued := TotalEnqueued s + 1, CurrentSize := n,
                        MaxSize := (if n > MaxSize s then n else MaxSize s),
                        ByPriority := incr (Priority job) (ByPriority s),
                        ByType := incr (Type job) (ByType s)\<rparr>\<rparr>)"

definition drop_counts :: "string \<Rightarrow> SpawnJob \<Rightarrow> JobQueue \<Rightarrow> JobQueue" where
  "drop_counts i job q =
     q\<lparr>byID := (byID q)(i := None),
       batchCounts := (if BatchID job \<noteq> '''' then decr_del (BatchID job) (batchCounts q) else batchCounts q),
       sessionCounts := decr_del (SessionName job) (sessionCounts q)\<rparr>"

definition Dequeue :: "store \<Rightarrow> int \<Rightarrow> JobQueue \<Rightarrow> job_ptr option \<times> JobQueue" where
  "Dequeue st now q =
     (if jobs q = [] then (None, q)
      else
        let (p, js) = Pop (jobLess st) (jobs q);
            job = st p;
            q1 = drop_counts (JobID job) job (q\<lparr>jobs := js\<rparr>);
            s = stats q1;
            wait = time_sub now (CreatedAt job);
            total = totalWaitTime s + wait;
            deq = TotalDequeued s + 1
        in (Some p, q1\<lparr>stats := s\<lparr>TotalDequeued := deq, CurrentSize := int (length js),
                        ByPriority := decr_del (Priority job) (ByPriority s),
                        ByType := decr_del (Type job) (ByType s),
                        totalWaitTime := total,
                        MaxWaitTime := (if wait > MaxWaitTime s then wait else MaxWaitTime s),
                        AvgWaitTime := (if deq > 0 then total sdiv deq else AvgWaitTime s)\<rparr>\<rparr>))"

definition Peek :: "JobQueue \<Rightarrow> job_ptr option" where
  "Peek q = (if jobs q = [] then None else Some (jobs q ! 0))"

definition Get :: "string \<Rightarrow> JobQueue \<Rightarrow> job_ptr option" where
  "Get i q = byID q i"

definition Remove :: "store \<Rightarrow> string \<Rightarrow> JobQueue \<Rightarrow> job_ptr option \<times> JobQueue" where
  "Remove st i q =
     (case byID q i of
        None \<Rightarrow> (None, q)
      | Some p \<Rightarrow>
          let js = (case index_of (\<lambda>j. JobID (st j) = i) (jobs q) of
                      None \<Rightarrow> jobs q
                    | Some k \<Rightarrow> snd (Remove_at (jobLess st) (jobs q) k));
              job = st p;
              q1 = drop_counts i job (q\<lparr>jobs := js\<rparr>);
              s = stats q1
          in (Some p, q1\<lparr>stats := s\<lparr>CurrentSize := int (length js),
                          ByPriority := decr (Priority job) (ByPriority s),
                          ByType := decr (Type job) (ByType s)\<rparr>\<rparr>))"

definition Len :: "JobQueue \<Rightarrow> nat" where
  "Len q = length (jobs q)"

definition IsEmpty :: "JobQueue \<Rightarrow> bool" where
  "IsEmpty q \<longleftrightarrow> Len q = 0"

definition ListAll :: "JobQueue \<Rightarrow> job_ptr list" where
  "ListAll q = jobs q"

definition ListBySession :: "store \<Rightarrow> string \<Rightarrow> JobQueue \<Rightarrow> job_ptr list" where
  "ListBySession st s q = filter (\<lambda>p. SessionName (st p) = s) (jobs q)"

definition ListByBatch :: "store \<Rightarrow> string \<Rightarrow> JobQueue \<Rightarrow> job_ptr list" where
  "ListByBatch st b q = filter (\<lambda>p. BatchID (st p) = b) (jobs q)"

definition CountBySession :: "string \<Rightarrow> JobQueue \<Rightarrow> int" where
  "CountBySession s q = mget (sessionCounts q) s"

definition CountByBatch :: "string \<Rightarrow> JobQueue \<Rightarrow> int" where
  "CountByBatch b q = mget (batchCounts q) b"

definition Clear :: "JobQueue \<Rightarrow> job_ptr list \<times> JobQueue" where
  "Clear q =
     (jobs q, q\<lparr>jobs := [], byID := Map.empty, batchCounts := Map.empty, sessionCounts := Map.empty,
               stats := (stats q)\<lparr>CurrentSize := 0\<rparr>\<rparr>)"

text \<open>
  \<^verbatim>\<open>CancelSession\<close> and \<^verbatim>\<open>CancelBatch\<close>: the matching jobs are cancelled through
  their pointers, the collected heap indices are removed from the highest to the
  lowest, then the index entries and the group's own counter are dropped.
\<close>

definition cancel_ptrs :: "int \<Rightarrow> job_ptr list \<Rightarrow> store \<Rightarrow> store" where
  "cancel_ptrs now ps st = (\<lambda>p. if p \<in> set ps then Cancel now (st p) else st p)"

definition remove_indices :: "store \<Rightarrow> nat list \<Rightarrow> job_ptr list \<Rightarrow> job_ptr list" where
  "remove_indices st is js = foldl (\<lambda>h i. snd (Remove_at (jobLess st) h i)) js (rev is)"

definition cancel_where ::
  "int \<Rightarrow> (SpawnJob \<Rightarrow> bool) \<Rightarrow> store \<Rightarrow> JobQueue \<Rightarrow> job_ptr list \<times> store \<times> JobQueue" where
  "cancel_where now P st q =
     (let toRemove = filter (\<lambda>i. P (st (jobs q ! i))) [0..<length (jobs q)];
          cancelled = map (\<lambda>i. jobs q ! i) toRemove;
          st1 = cancel_ptrs now cancelled st;
          js = remove_indices st1 toRemove (jobs q)
      in (cancelled, st1,
          q\<lparr>jobs := js,
            byID := (\<lambda>i. if i \<in> set (map (\<lambda>p. JobID (st1 p)) cancelled) then None else byID q i),
            stats := (stats q)\<lparr>CurrentSize := int (length js)\<rparr>\<rparr>))"

definition CancelSession ::
  "int \<Rightarrow> string \<Rightarrow> store \<Rightarrow> JobQueue \<Rightarrow> job_ptr list \<times> store \<times> JobQueue" where
  "CancelSession now s st q =
     (let (ps, st1, q1) = cancel_where now (\<lambda>j. SessionName j = s) st q
      in (ps, st1, q1\<lparr>sessionCounts := (sessionCounts q1)(s := None)\<rparr>))"

definition CancelBatch ::
  "int \<Rightarrow> string \<Rightarrow> store \<Rightarrow> JobQueue \<Rightarrow> job_ptr list \<times> store \<times> JobQueue" where
  "CancelBatch now b st q =
     (let (ps, st1, q1) = cancel_where now (\<lambda>j. BatchID j = b) st q
      in (ps, st1, q1\<lparr>batchCounts := (batchCounts q1)(b := None)\<rparr>))"

end
