(* ===== verification/SchedQueueCorrect.thy ===== *)
theory SchedQueueCorrect
  imports SchedQueue
begin

text \<open>
  The queue invariant: heap order by priority and age, an index that holds
  exactly the queued jobs, and fairness counters equal to the queued jobs of each
  session and batch. The single-job operations keep it, and through it refine
  the abstract queue, the multiset of the queued jobs.
\<close>

section \<open>The invariant\<close>

definition prio :: "store \<Rightarrow> job_ptr \<Rightarrow> int \<times> int" where
  "prio st p = (Priority (st p), CreatedAt (st p))"

lemma jobLess_key: "jobLess st = by_key (prio st)"
  by (auto simp: fun_eq_iff jobLess_def prio_def)

text \<open>The count of each key of a list, as the counter maps keep it.\<close>

definition tally :: "('a \<Rightarrow> 'k) \<Rightarrow> 'a list \<Rightarrow> 'k \<rightharpoonup> int" where
  "tally f xs k = (let n = count (mset (map f xs)) k in if n = 0 then None else Some (int n))"

definition queue_ok :: "store \<Rightarrow> JobQueue \<Rightarrow> bool" where
  "queue_ok st q \<longleftrightarrow>
     heap_by (prio st) (jobs q) \<and>
     distinct (map (\<lambda>p. JobID (st p)) (jobs q)) \<and>
     (\<forall>i p. byID q i = Some p \<longleftrightarrow> p \<in> set (jobs q) \<and> JobID (st p) = i) \<and>
     sessionCounts q = tally (\<lambda>p. SessionName (st p)) (jobs q) \<and>
     batchCounts q = (tally (\<lambda>p. BatchID (st p)) (jobs q))('''' := None) \<and>
     CurrentSize (stats q) = int (length (jobs q))"

lemma queue_okI:
  assumes "heap_by (prio st) (jobs q)" "distinct (map (\<lambda>p. JobID (st p)) (jobs q))"
    "\<And>i p. byID q i = Some p \<longleftrightarrow> p \<in> set (jobs q) \<and> JobID (st p) = i"
    "sessionCounts q = tally (\<lambda>p. SessionName (st p)) (jobs q)"
    "batchCounts q = (tally (\<lambda>p. BatchID (st p)) (jobs q))('''' := None)"
    "CurrentSize (stats q) = int (length (jobs q))"
  shows "queue_ok st q"
  using assms by (simp add: queue_ok_def)

lemma queue_okD:
  assumes "queue_ok st q"
  shows "heap_by (prio st) (jobs q)" "distinct (map (\<lambda>p. JobID (st p)) (jobs q))"
    "byID q i = Some p \<longleftrightarrow> p \<in> set (jobs q) \<and> JobID (st p) = i"
    "sessionCounts q = tally (\<lambda>p. SessionName (st p)) (jobs q)"
    "batchCounts q = (tally (\<lambda>p. BatchID (st p)) (jobs q))('''' := None)"
    "CurrentSize (stats q) = int (length (jobs q))"
  using assms by (simp_all add: queue_ok_def)

lemma distinct_jobs: "queue_ok st q \<Longrightarrow> distinct (jobs q)"
  using queue_okD(2) distinct_map by blast

section \<open>Counters\<close>

lemma mget_tally: "mget (tally f xs) k = int (count (mset (map f xs)) k)"
  by (simp add: mget_def tally_def Let_def)

lemma tally_perm: "mset xs = mset ys \<Longrightarrow> tally f xs = tally f ys"
  by (simp add: tally_def fun_eq_iff mset_map)

lemma tally_Nil [simp]: "tally f [] = Map.empty"
  by (simp add: tally_def fun_eq_iff)

lemma incr_tally: "mset ys = add_mset x (mset xs) \<Longrightarrow> incr (f x) (tally f xs) = tally f ys"
  by (auto simp: incr_def fun_eq_iff mget_tally mset_map) (simp_all add: tally_def mset_map Let_def)

lemma decr_del_tally: "mset ys = add_mset x (mset xs) \<Longrightarrow> decr_del (f x) (tally f ys) = tally f xs"
  by (auto simp: decr_del_def decr_def fun_eq_iff mget_tally mset_map Let_def)
    (simp_all add: tally_def mset_map Let_def mget_def)

lemma mget_upd_same [simp]: "mget (m(k := v)) k = (case v of None \<Rightarrow> 0 | Some n \<Rightarrow> n)"
  by (simp add: mget_def)

lemma mget_upd_other [simp]: "k \<noteq> k' \<Longrightarrow> mget (m(k := v)) k' = mget m k'"
  by (simp add: mget_def)

lemma incr_other_key: "k \<noteq> z \<Longrightarrow> incr k (m(z := None)) = (incr k m)(z := None)"
  by (auto simp: incr_def fun_eq_iff)

lemma decr_del_other_key: "k \<noteq> z \<Longrightarrow> decr_del k (m(z := None)) = (decr_del k m)(z := None)"
  by (auto simp: decr_del_def decr_def Let_def fun_eq_iff)

lemma incr_skip: "mset ys = add_mset x (mset xs) \<Longrightarrow> f x = z \<Longrightarrow>
    (tally f ys)(z := None) = (tally f xs)(z := None)"
  by (auto simp: fun_eq_iff tally_def mset_map)

section \<open>Finding a job\<close>

lemma index_of_Some:
  "index_of P xs = Some i \<Longrightarrow> i < length xs \<and> P (xs ! i)"
  by (auto simp: index_of_def find_Some_iff)

lemma index_of_None: "index_of P xs = None \<longleftrightarrow> (\<forall>x \<in> set xs. \<not> P x)"
  by (simp add: index_of_def find_None_iff all_set_conv_all_nth)

lemma index_of_job:
  assumes ok: "queue_ok st q" and "byID q i = Some p"
  obtains k where "index_of (\<lambda>j. JobID (st j) = i) (jobs q) = Some k" "k < length (jobs q)" "jobs q ! k = p"
proof -
  from assms have p: "p \<in> set (jobs q)" "JobID (st p) = i" by (simp_all add: queue_okD(3))
  then obtain k where k: "index_of (\<lambda>j. JobID (st j) = i) (jobs q) = Some k"
    using index_of_None [of "\<lambda>j. JobID (st j) = i" "jobs q"] by (cases "index_of (\<lambda>j. JobID (st j) = i) (jobs q)") auto
  note r = index_of_Some [OF k]
  then have "jobs q ! k \<in> set (jobs q)" by simp
  with r p queue_okD(2) [OF ok] have "jobs q ! k = p" by (auto simp: distinct_map dest: inj_onD)
  with that k r show thesis by blast
qed

section \<open>The operations keep the invariant\<close>

lemma NewJobQueue_ok: "queue_ok st NewJobQueue"
  by (simp add: queue_ok_def NewJobQueue_def heap_from_def)

lemma Enqueue_new_ok:
  assumes ok: "queue_ok st q" and new: "byID q (JobID (st p)) = None"
  shows "queue_ok st (Enqueue st p q)" "mset (jobs (Enqueue st p q)) = add_mset p (mset (jobs q))"
    "byID (Enqueue st p q) = (byID q)(JobID (st p) \<mapsto> p)"
proof -
  let ?js = "Push (jobLess st) (jobs q) p"
  note hp = Push_heap [OF queue_okD(1) [OF ok], of p, folded jobLess_key]
  have j: "jobs (Enqueue st p q) = ?js" using new by (simp add: Enqueue_def Let_def)
  show m: "mset (jobs (Enqueue st p q)) = add_mset p (mset (jobs q))" using j hp(2) by simp
  show b: "byID (Enqueue st p q) = (byID q)(JobID (st p) \<mapsto> p)" using new by (simp add: Enqueue_def Let_def)
  have set: "set ?js = insert p (set (jobs q))" using hp(2) by (metis set_mset_add_mset_insert set_mset_mset)
  have other: "JobID (st x) \<noteq> JobID (st p)" if "x \<in> set (jobs q)" for x
    using queue_okD(3) [OF ok, of "JobID (st p)" x] that new by simp
  have notin: "p \<notin> set (jobs q)" using other by blast
  show "queue_ok st (Enqueue st p q)"
  proof (rule queue_okI)
    show "heap_by (prio st) (jobs (Enqueue st p q))" unfolding j by (rule hp(1))
    have "JobID (st p) \<notin> (\<lambda>p. JobID (st p)) ` set (jobs q)" by (metis (mono_tags) imageE other)
    then have "distinct (map (\<lambda>p. JobID (st p)) (p # jobs q))" using queue_okD(2) [OF ok] by simp
    moreover have "mset (map (\<lambda>p. JobID (st p)) ?js) = mset (map (\<lambda>p. JobID (st p)) (p # jobs q))"
      using hp(2) by (simp add: mset_map)
    ultimately show "distinct (map (\<lambda>p. JobID (st p)) (jobs (Enqueue st p q)))"
      unfolding j by (metis mset_eq_imp_distinct_iff)
    show "byID (Enqueue st p q) i = Some x \<longleftrightarrow> x \<in> set (jobs (Enqueue st p q)) \<and> JobID (st x) = i" for i x
      unfolding b j set using queue_okD(3) [OF ok, of i x] other [of x] by auto
    show "sessionCounts (Enqueue st p q) = tally (\<lambda>p. SessionName (st p)) (jobs (Enqueue st p q))"
      using incr_tally [OF m, of "\<lambda>p. SessionName (st p)"] new queue_okD(4) [OF ok] by (simp add: Enqueue_def Let_def)
    show "batchCounts (Enqueue st p q) = (tally (\<lambda>p. BatchID (st p)) (jobs (Enqueue st p q)))('''' := None)"
      using incr_tally [OF m, of "\<lambda>p. BatchID (st p)"] incr_skip [OF m, of "\<lambda>p. BatchID (st p)" "[]"]
        new queue_okD(5) [OF ok] by (simp add: Enqueue_def Let_def incr_other_key)
    show "CurrentSize (stats (Enqueue st p q)) = int (length (jobs (Enqueue st p q)))"
      using new by (simp add: Enqueue_def Let_def)
  qed
qed

lemma drop_counts_ok:
  assumes ok: "queue_ok st q" and m: "mset (jobs q) = add_mset p (mset (jobs q'))"
    and heap: "heap_by (prio st) (jobs q')"
    and q': "byID q' = byID (drop_counts (JobID (st p)) (st p) q)" "sessionCounts q' = sessionCounts (drop_counts (JobID (st p)) (st p) q)"
      "batchCounts q' = batchCounts (drop_counts (JobID (st p)) (st p) q)" "CurrentSize (stats q') = int (length (jobs q'))"
  shows "queue_ok st q'"
proof (rule queue_okI)
  have set: "set (jobs q) = insert p (set (jobs q'))" using m by (metis set_mset_add_mset_insert set_mset_mset)
  have "mset (map (\<lambda>p. JobID (st p)) (jobs q)) = mset (map (\<lambda>p. JobID (st p)) (p # jobs q'))"
    using m by (simp add: mset_map)
  then have d: "distinct (map (\<lambda>p. JobID (st p)) (p # jobs q'))"
    using queue_okD(2) [OF ok] by (metis mset_eq_imp_distinct_iff)
  have other: "JobID (st x) \<noteq> JobID (st p)" if "x \<in> set (jobs q')" for x using d that by (auto simp: rev_image_eqI)
  show "heap_by (prio st) (jobs q')" by (rule heap)
  show "distinct (map (\<lambda>p. JobID (st p)) (jobs q'))" using d by simp
  show "byID q' i = Some x \<longleftrightarrow> x \<in> set (jobs q') \<and> JobID (st x) = i" for i x
    using queue_okD(3) [OF ok, of i x] set other [of x] q'(1) by (auto simp: drop_counts_def)
  show "sessionCounts q' = tally (\<lambda>p. SessionName (st p)) (jobs q')"
    using decr_del_tally [OF m, of "\<lambda>p. SessionName (st p)"] queue_okD(4) [OF ok] q'(2) by (simp add: drop_counts_def)
  show "batchCounts q' = (tally (\<lambda>p. BatchID (st p)) (jobs q'))('''' := None)"
    using decr_del_tally [OF m, of "\<lambda>p. BatchID (st p)"] incr_skip [OF m, of "\<lambda>p. BatchID (st p)" "[]"]
      queue_okD(5) [OF ok] q'(3) by (simp add: drop_counts_def decr_del_other_key)
  show "CurrentSize (stats q') = int (length (jobs q'))" by (rule q'(4))
qed

lemma Dequeue_ok:
  assumes ok: "queue_ok st q" and deq: "Dequeue st now q = (Some p, q')"
  shows "queue_ok st q'" "mset (jobs q) = add_mset p (mset (jobs q'))"
    "\<forall>x \<in> set (jobs q). prio st p \<le> prio st x" "Peek q = Some p"
proof -
  from deq have ne: "jobs q \<noteq> []" by (auto simp: Dequeue_def split: if_splits)
  obtain p1 js where pop: "Pop (jobLess st) (jobs q) = (p1, js)" by fastforce
  from deq ne pop have p: "p1 = p" by (simp add: Dequeue_def Let_def)
  note hp = Pop_heap [OF queue_okD(1) [OF ok] ne pop [unfolded jobLess_key p]]
  have js: "jobs q' = js" using deq ne pop by (auto simp: Dequeue_def Let_def drop_counts_def)
  show "mset (jobs q) = add_mset p (mset (jobs q'))" unfolding js by (rule hp(3))
  show "\<forall>x \<in> set (jobs q). prio st p \<le> prio st x" by (rule hp(4))
  show "Peek q = Some p" using ne hp(1) by (simp add: Peek_def)
  show "queue_ok st q'"
    by (rule drop_counts_ok [where p = p, OF ok])
      (use deq ne pop p hp js in \<open>auto simp: Dequeue_def Let_def drop_counts_def\<close>)
qed

lemma Dequeue_None: "Dequeue st now q = (None, q') \<longleftrightarrow> jobs q = [] \<and> q' = q"
  by (auto simp: Dequeue_def Let_def split: prod.splits)

lemma Remove_ok:
  assumes ok: "queue_ok st q" and rem: "Remove st i q = (Some p, q')"
  shows "queue_ok st q'" "mset (jobs q) = add_mset p (mset (jobs q'))" "JobID (st p) = i"
    "byID q' = (byID q)(i := None)"
proof -
  from rem have b: "byID q i = Some p" by (auto simp: Remove_def Let_def split: option.splits)
  show i: "JobID (st p) = i" using b queue_okD(3) [OF ok] by simp
  obtain k where k: "index_of (\<lambda>j. JobID (st j) = i) (jobs q) = Some k" "k < length (jobs q)" "jobs q ! k = p"
    by (rule index_of_job [OF ok b])
  obtain x js where r: "Remove_at (jobLess st) (jobs q) k = (x, js)" by fastforce
  note hp = Remove_at_heap [OF queue_okD(1) [OF ok] k(2) r [unfolded jobLess_key], unfolded k(3)]
  have js: "jobs q' = js" using rem b k r by (auto simp: Remove_def Let_def drop_counts_def)
  show "mset (jobs q) = add_mset p (mset (jobs q'))" unfolding js using hp by simp
  show "queue_ok st q'"
    by (rule drop_counts_ok [where p = p, OF ok])
      (use rem b k r i hp js in \<open>auto simp: Remove_def Let_def drop_counts_def\<close>)
  show "byID q' = (byID q)(i := None)" using rem b k r by (auto simp: Remove_def Let_def drop_counts_def)
qed

lemma Remove_None: "Remove st i q = (None, q') \<longleftrightarrow> byID q i = None \<and> q' = q"
  by (auto simp: Remove_def Let_def split: option.splits)

lemma Clear_ok: "queue_ok st q \<Longrightarrow> queue_ok st (snd (Clear q))"
  by (simp add: queue_ok_def Clear_def heap_from_def)

end
