(* ===== verification/FairSched.thy ===== *)
theory FairSched
  imports SchedQueueCorrect
begin

text \<open>
  The fair scheduler of \<^verbatim>\<open>internal/scheduler/queue.go\<close>: the job queue wrapped with
  a count of the running jobs per session. Its client takes a job with
  \<^verbatim>\<open>TryDequeue\<close> and returns the slot with \<^verbatim>\<open>MarkComplete\<close>.
\<close>

section \<open>The operations\<close>

record FairScheduler =
  queue :: JobQueue
  maxPerSession :: int
  maxPerBatch :: int
  running :: "string \<rightharpoonup> int"

record FairSchedulerConfig =
  MaxPerSession :: int
  MaxPerBatch :: int

definition DefaultFairSchedulerConfig :: FairSchedulerConfig where
  "DefaultFairSchedulerConfig = \<lparr>MaxPerSession = 3, MaxPerBatch = 5\<rparr>"

definition NewFairScheduler :: "FairSchedulerConfig \<Rightarrow> FairScheduler" where
  "NewFairScheduler cfg =
     \<lparr>queue = NewJobQueue, maxPerSession = MaxPerSession cfg, maxPerBatch = MaxPerBatch cfg,
      running = Map.empty\<rparr>"

definition fair_Enqueue :: "store \<Rightarrow> job_ptr \<Rightarrow> FairScheduler \<Rightarrow> FairScheduler" where
  "fair_Enqueue st p f = f\<lparr>queue := Enqueue st p (queue f)\<rparr>"

definition session_full :: "store \<Rightarrow> FairScheduler \<Rightarrow> job_ptr \<Rightarrow> bool" where
  "session_full st f p \<longleftrightarrow>
     maxPerSession f > 0 \<and> mget (running f) (SessionName (st p)) \<ge> maxPerSession f"

text \<open>The batch check counts the running jobs among the queued ones.\<close>

definition batch_full :: "store \<Rightarrow> FairScheduler \<Rightarrow> job_ptr \<Rightarrow> bool" where
  "batch_full st f p \<longleftrightarrow>
     maxPerBatch f > 0 \<and> BatchID (st p) \<noteq> '''' \<and>
     int (length (filter (\<lambda>j. BatchID (st j) = BatchID (st p) \<and> Status (st j) = StatusRunning)
            (ListAll (queue f)))) \<ge> maxPerBatch f"

definition eligible :: "store \<Rightarrow> FairScheduler \<Rightarrow> job_ptr \<Rightarrow> bool" where
  "eligible st f p \<longleftrightarrow> \<not> session_full st f p \<and> \<not> batch_full st f p"

definition TryDequeue :: "store \<Rightarrow> FairScheduler \<Rightarrow> job_ptr option \<times> FairScheduler" where
  "TryDequeue st f =
     (case find (eligible st f) (ListAll (queue f)) of
        None \<Rightarrow> (None, f)
      | Some p \<Rightarrow>
          (case Remove st (JobID (st p)) (queue f) of
             (None, q) \<Rightarrow> (None, f\<lparr>queue := q\<rparr>)
           | (Some r, q) \<Rightarrow> (Some r, f\<lparr>queue := q, running := incr (SessionName (st p)) (running f)\<rparr>)))"

definition MarkComplete :: "store \<Rightarrow> job_ptr \<Rightarrow> FairScheduler \<Rightarrow> FairScheduler" where
  "MarkComplete st p f = f\<lparr>running := decr_del (SessionName (st p)) (running f)\<rparr>"

definition RunningCount :: "string \<Rightarrow> FairScheduler \<Rightarrow> int" where
  "RunningCount s f = mget (running f) s"

section \<open>What TryDequeue takes\<close>

text \<open>On a well-formed queue it takes a queued, eligible job and nothing else.\<close>

lemma TryDequeue_takes:
  assumes ok: "queue_ok st (queue f)" and t: "TryDequeue st f = (Some p, f')"
  shows "p \<in> set (jobs (queue f))" "eligible st f p" "queue_ok st (queue f')"
    "mset (jobs (queue f)) = add_mset p (mset (jobs (queue f')))"
    "running f' = incr (SessionName (st p)) (running f)"
    "maxPerSession f' = maxPerSession f" "maxPerBatch f' = maxPerBatch f"
proof -
  from t obtain x where x: "find (eligible st f) (jobs (queue f)) = Some x"
    by (auto simp: TryDequeue_def ListAll_def split: option.splits)
  then have xin: "x \<in> set (jobs (queue f))" and xel: "eligible st f x" by (auto simp: find_Some_iff)
  obtain r q where rem: "Remove st (JobID (st x)) (queue f) = (r, q)" by fastforce
  have "byID (queue f) (JobID (st x)) = Some x" using queue_okD(3) [OF ok] xin by simp
  then have r: "r = Some x" using rem by (auto simp: Remove_def Let_def)
  with t x rem have px: "p = x" and f': "f' = f\<lparr>queue := q, running := incr (SessionName (st p)) (running f)\<rparr>"
    by (auto simp: TryDequeue_def ListAll_def)
  from Remove_ok [OF ok] rem r px f' xin xel
  show "p \<in> set (jobs (queue f))" "eligible st f p" "queue_ok st (queue f')"
    "mset (jobs (queue f)) = add_mset p (mset (jobs (queue f')))"
    "running f' = incr (SessionName (st p)) (running f)"
    "maxPerSession f' = maxPerSession f" "maxPerBatch f' = maxPerBatch f" by auto
qed

lemma TryDequeue_None:
  assumes ok: "queue_ok st (queue f)" and t: "TryDequeue st f = (None, f')"
  shows "\<forall>p \<in> set (jobs (queue f)). \<not> eligible st f p" "f' = f"
proof -
  have none: "find (eligible st f) (jobs (queue f)) = None"
  proof (rule ccontr)
    assume "\<not> ?thesis"
    then obtain x where x: "find (eligible st f) (jobs (queue f)) = Some x" by auto
    then have "x \<in> set (jobs (queue f))" by (auto simp: find_Some_iff)
    then have "byID (queue f) (JobID (st x)) = Some x" using queue_okD(3) [OF ok] by simp
    with t x show False by (auto simp: TryDequeue_def ListAll_def Remove_def Let_def)
  qed
  then show "\<forall>p \<in> set (jobs (queue f)). \<not> eligible st f p" by (simp add: find_None_iff)
  show "f' = f" using t none by (simp add: TryDequeue_def ListAll_def)
qed

text \<open>When the head of the heap is eligible it is taken: a job of the best priority, oldest first.\<close>

lemma TryDequeue_head:
  assumes ok: "queue_ok st (queue f)" and h: "Peek (queue f) = Some p" "eligible st f p"
  shows "fst (TryDequeue st f) = Some p \<and> (\<forall>x \<in> set (jobs (queue f)). prio st p \<le> prio st x)"
proof -
  from h have ne: "jobs (queue f) \<noteq> []" and p: "p = jobs (queue f) ! 0" by (auto simp: Peek_def split: if_splits)
  from ne obtain xs where js: "jobs (queue f) = p # xs" using p by (cases "jobs (queue f)") auto
  have "byID (queue f) (JobID (st p)) = Some p" using queue_okD(3) [OF ok] js by simp
  then have "fst (TryDequeue st f) = Some p"
    using js h(2) by (auto simp: TryDequeue_def ListAll_def Remove_def Let_def)
  moreover have "prio st p \<le> prio st x" if "x \<in> set (jobs (queue f))" for x
  proof -
    from that obtain m where "m < length (jobs (queue f))" "x = jobs (queue f) ! m" by (auto simp: in_set_conv_nth)
    with heap_root_min [OF queue_okD(1) [OF ok], of m] p ne show ?thesis by simp
  qed
  ultimately show ?thesis by blast
qed

section \<open>Histories of the fair scheduler\<close>

text \<open>
  The protocol of its client, with the jobs taken and not yet returned: new jobs
  are enqueued, \<^verbatim>\<open>TryDequeue\<close> hands a job out, \<^verbatim>\<open>MarkComplete\<close> gives the slot of a
  held job back, \<^verbatim>\<open>Cancel\<close> removes a queued one, and jobs change their status.
\<close>

type_synonym fair_state = "store \<times> FairScheduler \<times> job_ptr list"

inductive fair_step :: "fair_state \<Rightarrow> fair_state \<Rightarrow> bool" where
  enqueue: "byID (queue f) (JobID (st p)) = None \<Longrightarrow> fair_step (st, f, held) (st, fair_Enqueue st p f, held)"
| take_job: "TryDequeue st f = (Some p, f') \<Longrightarrow> fair_step (st, f, held) (st, f', p # held)"
| give_back: "p \<in> set held \<Longrightarrow> fair_step (st, f, held) (st, MarkComplete st p f, remove1 p held)"
| drop_queued: "Remove st i (queue f) = (Some p, q) \<Longrightarrow> fair_step (st, f, held) (st, f\<lparr>queue := q\<rparr>, held)"
| status: "(\<And>p. tag (st' p) = tag (st p)) \<Longrightarrow> fair_step (st, f, held) (st', f, held)"

inductive fair_reachable :: "FairSchedulerConfig \<Rightarrow> fair_state \<Rightarrow> bool" for cfg where
  init: "fair_reachable cfg (st, NewFairScheduler cfg, [])"
| step: "fair_reachable cfg x \<Longrightarrow> fair_step x y \<Longrightarrow> fair_reachable cfg y"

definition fair_ok :: "FairSchedulerConfig \<Rightarrow> fair_state \<Rightarrow> bool" where
  "fair_ok cfg = (\<lambda>(st, f, held).
     queue_ok st (queue f) \<and> maxPerSession f = MaxPerSession cfg \<and> maxPerBatch f = MaxPerBatch cfg \<and>
     running f = tally (\<lambda>p. SessionName (st p)) held \<and>
     (MaxPerSession cfg > 0 \<longrightarrow>
       (\<forall>s. int (length (filter (\<lambda>p. SessionName (st p) = s) held)) \<le> MaxPerSession cfg)))"

lemma count_filter: "count (image_mset f (mset xs)) k = length (filter (\<lambda>x. f x = k) xs)"
  by (induction xs) auto

lemma queue_ok_tag:
  assumes "queue_ok st q" "\<And>p. tag (st' p) = tag (st p)"
  shows "queue_ok st' q"
proof -
  note f = tag_fields [OF assms(2)]
  have "prio st' = prio st" by (simp add: fun_eq_iff prio_def f)
  with assms(1) show ?thesis by (simp add: queue_ok_def f)
qed

lemma fair_ok_step:
  assumes "fair_step x y" "fair_ok cfg x"
  shows "fair_ok cfg y"
  using assms
proof (induction rule: fair_step.induct)
  case (enqueue f st p held)
  then show ?case using Enqueue_new_ok(1) [of st "queue f" p] by (auto simp: fair_ok_def fair_Enqueue_def)
next
  case (take_job st f p f' held)
  then have ok: "queue_ok st (queue f)" by (simp add: fair_ok_def)
  note t = TryDequeue_takes [OF ok take_job(1)]
  have run: "running f = tally (\<lambda>p. SessionName (st p)) held" using take_job(2) by (simp add: fair_ok_def)
  have "running f' = tally (\<lambda>p. SessionName (st p)) (p # held)"
    using t(5) incr_tally [of "p # held" p held "\<lambda>p. SessionName (st p)"] run by simp
  moreover have "int (length (filter (\<lambda>x. SessionName (st x) = s) (p # held))) \<le> MaxPerSession cfg"
    if "MaxPerSession cfg > 0" for s
  proof (cases "SessionName (st p) = s")
    case True
    have "mget (running f) s < MaxPerSession cfg"
      using t(2) that take_job(2) True by (auto simp: eligible_def session_full_def fair_ok_def)
    with True show ?thesis by (simp add: run mget_tally count_filter)
  next
    case False
    with take_job(2) that show ?thesis by (simp add: fair_ok_def)
  qed
  ultimately show ?case using t(3,6,7) take_job(2) by (simp add: fair_ok_def)
next
  case (give_back p held st f)
  have m: "mset held = add_mset p (mset (remove1 p held))" using give_back(1) by (simp add: mset_remove1)
  have "int (length (filter (\<lambda>x. SessionName (st x) = s) (remove1 p held))) \<le> MaxPerSession cfg"
    if "MaxPerSession cfg > 0" for s
  proof (rule order_trans)
    show "int (length (filter (\<lambda>x. SessionName (st x) = s) (remove1 p held)))
        \<le> int (length (filter (\<lambda>x. SessionName (st x) = s) held))" by (simp add: filter_remove1 length_remove1)
    show "\<dots> \<le> MaxPerSession cfg" using give_back(2) that by (simp add: fair_ok_def)
  qed
  with give_back(2) decr_del_tally [OF m, of "\<lambda>p. SessionName (st p)"] show ?case
    by (simp add: fair_ok_def MarkComplete_def)
next
  case (drop_queued st i f p q held)
  then show ?case using Remove_ok(1) [of st "queue f" i p q] by (auto simp: fair_ok_def)
next
  case (status st' st f held)
  then show ?case using queue_ok_tag [of st "queue f" st'] tag_fields(4) [OF status(1)] by (simp add: fair_ok_def)
qed

lemma fair_reachable_ok: "fair_reachable cfg x \<Longrightarrow> fair_ok cfg x"
proof (induction rule: fair_reachable.induct)
  case (init st)
  show ?case by (auto simp: fair_ok_def NewFairScheduler_def NewJobQueue_ok)
next
  case (step x y)
  then show ?case using fair_ok_step by blast
qed


section \<open>Small runs\<close>

text \<open>Seven waiting jobs of two sessions, in the order they are enqueued.\<close>

definition demo_job :: "nat \<Rightarrow> SpawnJob" where
  "demo_job p =
     (NewSpawnJob '''' (int p) (CHR ''j'' # replicate p (CHR ''x'')) JobTypeDispatch (if p = 1 \<or> p = 3 then ''a'' else ''b''))
       \<lparr>Priority := [0, 2, 1, 2, 2, 1, 1] ! p\<rparr>"

definition demo_store :: store where
  "demo_store p = demo_job (p mod 7)"

definition demo_queue :: JobQueue where
  "demo_queue = foldl (\<lambda>q p. Enqueue demo_store p q) NewJobQueue [0..<7]"

lemma queue_ok_enqueue_all:
  assumes "queue_ok st q" "distinct (map (\<lambda>p. JobID (st p)) ps)" "\<forall>p \<in> set ps. byID q (JobID (st p)) = None"
  shows "queue_ok st (foldl (\<lambda>q p. Enqueue st p q) q ps)"
  using assms
proof (induction ps arbitrary: q)
  case (Cons p ps)
  then have new: "byID q (JobID (st p)) = None" by simp
  have "JobID (st x) \<noteq> JobID (st p)" if "x \<in> set ps" for x using Cons.prems(2) that by (auto simp: rev_image_eqI)
  with Cons Enqueue_new_ok [OF Cons.prems(1) new] show ?case by simp
qed simp

lemma demo_ids: "distinct (map (\<lambda>p. JobID (demo_store p)) [0..<7])"
  by code_simp

lemma demo_queue_ok: "queue_ok demo_store demo_queue"
  unfolding demo_queue_def
  by (rule queue_ok_enqueue_all [OF NewJobQueue_ok demo_ids]) (simp add: NewJobQueue_def)

lemma demo_cancel:
  "jobs demo_queue = [0, 1, 2, 3, 4, 5, 6]"
  "fst (CancelSession 9 ''a'' demo_store demo_queue) = [1, 3]"
  "jobs (snd (snd (CancelSession 9 ''a'' demo_store demo_queue))) = [0, 5, 2, 1, 4]"
  by code_simp+


text \<open>All jobs taken out by repeated \<^verbatim>\<open>Dequeue\<close>.\<close>

fun drain :: "store \<Rightarrow> int \<Rightarrow> nat \<Rightarrow> JobQueue \<Rightarrow> job_ptr list" where
  "drain st now 0 q = []"
| "drain st now (Suc n) q =
     (case Dequeue st now q of (None, _) \<Rightarrow> [] | (Some p, q') \<Rightarrow> p # drain st now n q')"

lemma drain_sorted:
  assumes "queue_ok st q" "length (jobs q) = n"
  shows "mset (drain st now n q) = mset (jobs q) \<and> sorted (map (prio st) (drain st now n q))"
  using assms
proof (induction n arbitrary: q)
  case (Suc n)
  from Suc.prems obtain p q' where d: "Dequeue st now q = (Some p, q')"
    by (cases "Dequeue st now q"; cases "fst (Dequeue st now q)") (auto simp: Dequeue_None)
  note ok = Dequeue_ok [OF Suc.prems(1) d]
  have "length (jobs q) = Suc (length (jobs q'))" using ok(2) by (metis size_mset size_add_mset)
  with Suc have ih: "mset (drain st now n q') = mset (jobs q')" "sorted (map (prio st) (drain st now n q'))"
    using Suc.IH [OF ok(1)] by simp_all
  have "set (drain st now n q') \<subseteq> set (jobs q)" using ih(1) ok(2) by (metis set_mset_mset set_mset_add_mset_insert subset_insertI)
  with ih ok(2,3) d show ?case by auto
qed simp

section \<open>Properties\<close>

text \<open>
  Emptying a well-formed queue with \<^verbatim>\<open>Dequeue\<close> returns exactly the queued jobs, by
  priority and, within one priority, by creation time.
\<close>

lemma Dequeue_order:
  assumes "queue_ok st q"
  shows "mset (drain st now (Len q) q) = mset (jobs q) \<and> sorted (map (prio st) (drain st now (Len q) q))"
  using drain_sorted [OF assms] by (simp add: Len_def)

text \<open>
  \<^verbatim>\<open>CancelSession\<close> removes heap indices collected before the first removal. A
  removal that sifts an element up moves another one under a later index: on the
  seven-job queue, cancelling session \<open>a\<close> (jobs 1 and 3) drops job 6 of session
  \<open>b\<close> from the heap while the index still lists it as waiting, and leaves the
  cancelled job 1 in the heap, from where it is still handed out.
\<close>

lemma CancelSession_loses_job:
  "queue_ok demo_store demo_queue \<and>
   (let (cancelled, st, q) = CancelSession 9 ''a'' demo_store demo_queue in
    cancelled = [1, 3] \<and>
    SessionName (st 6) = ''b'' \<and> Status (st 6) = StatusPending \<and>
    6 \<in> set (jobs demo_queue) \<and> 6 \<notin> set (jobs q) \<and> Get (JobID (st 6)) q = Some 6 \<and>
    Status (st 1) = StatusCancelled \<and> 1 \<in> set (jobs q))"
proof (rule conjI [OF demo_queue_ok])
  obtain ps st q where c: "CancelSession 9 ''a'' demo_store demo_queue = (ps, st, q)" by (metis surj_pair)
  have "ps = [1, 3]" "jobs q = [0, 5, 2, 1, 4]" using demo_cancel(2,3) c by simp_all
  moreover have "SessionName (fst (snd (CancelSession 9 ''a'' demo_store demo_queue)) 6) = ''b''"
    "Status (fst (snd (CancelSession 9 ''a'' demo_store demo_queue)) 6) = StatusPending"
    "Status (fst (snd (CancelSession 9 ''a'' demo_store demo_queue)) 1) = StatusCancelled"
    "Get (JobID (fst (snd (CancelSession 9 ''a'' demo_store demo_queue)) 6))
       (snd (snd (CancelSession 9 ''a'' demo_store demo_queue))) = Some 6"
    by code_simp+
  ultimately show "let (cancelled, st, q) = CancelSession 9 ''a'' demo_store demo_queue in
    cancelled = [1, 3] \<and> SessionName (st 6) = ''b'' \<and> Status (st 6) = StatusPending \<and>
    6 \<in> set (jobs demo_queue) \<and> 6 \<notin> set (jobs q) \<and> Get (JobID (st 6)) q = Some 6 \<and>
    Status (st 1) = StatusCancelled \<and> 1 \<in> set (jobs q)"
    using c demo_cancel(1) by simp
qed

text \<open>
  However the jobs are submitted, taken, completed, retried and cancelled, with a
  limit per session set the fair scheduler never has more jobs of one session
  handed out than the limit, and \<^verbatim>\<open>RunningCount\<close> is exactly that number.
\<close>

lemma session_share_bounded:
  assumes "fair_reachable cfg (st, f, held)" "MaxPerSession cfg > 0"
  shows "RunningCount s f = int (length (filter (\<lambda>p. SessionName (st p) = s) held))
       \<and> RunningCount s f \<le> MaxPerSession cfg"
  using fair_reachable_ok [OF assms(1)] assms(2)
  by (simp add: fair_ok_def RunningCount_def mget_tally count_filter)


text \<open>Session \<open>b\<close> holds one slot of its limit; a history with a job taken.\<close>

lemma demo_take:
  "fst (TryDequeue demo_store (fair_Enqueue demo_store 0 (NewFairScheduler DefaultFairSchedulerConfig))) = Some 0"
  by code_simp

end
