(* ===== verification/SchedIndex.thy ===== *)
theory SchedIndex
  imports FairSched
begin

text \<open>
  What the job queue keeps when sessions and batches are cancelled. A group cancellation removes
  heap indices collected before the first removal, so it may take other jobs out of the heap than
  it cancels: the index then lists jobs that are not queued, and cancelled jobs stay queued
  without an entry. The heap order and the identity of the entries of queued jobs survive.
\<close>

definition index_ok :: "store \<Rightarrow> JobQueue \<Rightarrow> bool" where
  "index_ok st q \<longleftrightarrow>
     heap_by (prio st) (jobs q) \<and> distinct (map (\<lambda>p. JobID (st p)) (jobs q)) \<and>
     (\<forall>p \<in> set (jobs q). \<forall>r. byID q (JobID (st p)) = Some r \<longrightarrow> r = p)"

lemma queue_ok_index: "queue_ok st q \<Longrightarrow> index_ok st q"
  unfolding queue_ok_def index_ok_def distinct_map by (meson inj_onD)

lemma index_okD:
  assumes "index_ok st q"
  shows "heap_by (prio st) (jobs q)" "distinct (map (\<lambda>p. JobID (st p)) (jobs q))"
    "p \<in> set (jobs q) \<Longrightarrow> byID q (JobID (st p)) = Some r \<Longrightarrow> r = p"
    "p \<in> set (jobs q) \<Longrightarrow> x \<in> set (jobs q) \<Longrightarrow> JobID (st p) = JobID (st x) \<Longrightarrow> p = x"
  using assms by (auto simp: index_ok_def distinct_map dest: inj_onD)

lemma index_ok_cong:
  assumes ok: "index_ok st q" and t: "\<And>p. p \<in> set (jobs q) \<Longrightarrow> tag (st' p) = tag (st p)"
  shows "index_ok st' q"
proof -
  have eqs: "map (prio st') (jobs q) = map (prio st) (jobs q)" "map (\<lambda>p. JobID (st' p)) (jobs q) = map (\<lambda>p. JobID (st p)) (jobs q)"
    using tag_fields [OF t] by (auto simp: prio_def)
  have "JobID (st' p) = JobID (st p)" if "p \<in> set (jobs q)" for p by (rule tag_fields(1) [OF t [OF that]])
  with ok show ?thesis unfolding index_ok_def eqs by simp
qed

text \<open>Fewer queued jobs and fewer entries.\<close>

lemma index_ok_sub:
  assumes ok: "index_ok st q" and heap: "heap_by (prio st) (jobs q')" and m: "mset (jobs q') \<subseteq># mset (jobs q)"
    and b: "\<And>p r. p \<in> set (jobs q') \<Longrightarrow> byID q' (JobID (st p)) = Some r \<Longrightarrow> byID q (JobID (st p)) = Some r"
  shows "index_ok st q'"
proof -
  have "mset (map (\<lambda>p. JobID (st p)) (jobs q')) \<subseteq># mset (map (\<lambda>p. JobID (st p)) (jobs q))"
    unfolding mset_map using m by (rule image_mset_subseteq_mono)
  then obtain ks where "mset (map (\<lambda>p. JobID (st p)) (jobs q)) = mset (map (\<lambda>p. JobID (st p)) (jobs q') @ ks)"
    by (metis ex_mset mset_append mset_subset_eq_exists_conv)
  then have "distinct (map (\<lambda>p. JobID (st p)) (jobs q') @ ks)"
    using index_okD(2) [OF ok] by (metis mset_eq_imp_distinct_iff)
  moreover have "set (jobs q') \<subseteq> set (jobs q)" using m by (metis set_mset_mono set_mset_mset)
  ultimately show ?thesis using heap b index_okD(3) [OF ok] unfolding index_ok_def by (auto 0 3)
qed

section \<open>The operations\<close>

lemma Remove_index:
  assumes ok: "index_ok st q" and rem: "Remove st i q = (Some r, q')"
  shows "index_ok st q'" "byID q i = Some r" "byID q' = (byID q)(i := None)"
    "x \<in> set (jobs q) \<Longrightarrow> JobID (st x) = i \<Longrightarrow> r = x \<and> mset (jobs q) = add_mset r (mset (jobs q'))"
    "(\<And>x. x \<in> set (jobs q) \<Longrightarrow> JobID (st x) \<noteq> i) \<Longrightarrow> jobs q' = jobs q"
    "mset (jobs q') \<subseteq># mset (jobs q)"
proof -
  from rem show b: "byID q i = Some r" by (auto simp: Remove_def Let_def split: option.splits)
  show b': "byID q' = (byID q)(i := None)" using rem b by (auto simp: Remove_def Let_def drop_counts_def)
  let ?k = "index_of (\<lambda>j. JobID (st j) = i) (jobs q)"
  have absent: "jobs q' = jobs q" if "?k = None" using rem b that by (auto simp: Remove_def Let_def drop_counts_def)
  have present: "heap_by (prio st) (jobs q') \<and> mset (jobs q) = add_mset (jobs q ! k) (mset (jobs q')) \<and>
      jobs q ! k \<in> set (jobs q) \<and> JobID (st (jobs q ! k)) = i" if k: "?k = Some k" for k
  proof -
    note ix = index_of_Some [OF k]
    obtain x js where a: "Remove_at (jobLess st) (jobs q) k = (x, js)" by fastforce
    note hp = Remove_at_heap [OF index_okD(1) [OF ok] ix [THEN conjunct1] a [unfolded jobLess_key]]
    have "jobs q' = js" using rem b k a by (auto simp: Remove_def Let_def drop_counts_def)
    then show ?thesis using hp ix by simp
  qed
  have kx: "?k = Some k \<Longrightarrow> jobs q ! k = r" for k
    using present [of k] index_okD(3) [OF ok] b by metis
  show m: "mset (jobs q') \<subseteq># mset (jobs q)"
  proof (cases ?k)
    case (Some k)
    from present [OF this] show ?thesis by simp
  qed (use absent in simp)
  have "heap_by (prio st) (jobs q')" using absent present index_okD(1) [OF ok] by (cases ?k) auto
  then show "index_ok st q'" by (rule index_ok_sub [OF ok _ m]) (auto simp: b' split: if_splits)
  show "r = x \<and> mset (jobs q) = add_mset r (mset (jobs q'))" if "x \<in> set (jobs q)" "JobID (st x) = i"
  proof -
    from that have "?k \<noteq> None" by (auto simp: index_of_None)
    then obtain k where k: "?k = Some k" by blast
    have "r = x" using index_okD(3) [OF ok that(1)] that(2) b by simp
    with present [OF k] kx [OF k] show ?thesis by simp
  qed
  show "jobs q' = jobs q" if "\<And>x. x \<in> set (jobs q) \<Longrightarrow> JobID (st x) \<noteq> i"
    using that absent by (auto simp: index_of_None)
qed

lemma Enqueue_index:
  assumes ok: "index_ok st q" and new: "\<And>x. x \<in> set (jobs q) \<Longrightarrow> JobID (st x) \<noteq> JobID (st p)"
  shows "index_ok st (Enqueue st p q)" "byID (Enqueue st p q) = (byID q)(JobID (st p) \<mapsto> p)"
    "byID q (JobID (st p)) = None \<Longrightarrow> mset (jobs (Enqueue st p q)) = add_mset p (mset (jobs q))"
    "byID q (JobID (st p)) \<noteq> None \<Longrightarrow> jobs (Enqueue st p q) = jobs q"
proof -
  have lost: "jobs (Enqueue st p q) = jobs q" if "byID q (JobID (st p)) \<noteq> None"
    using that new index_of_None [of "\<lambda>j. JobID (st j) = JobID (st p)" "jobs q"]
    by (auto simp: Enqueue_def updateJobLocked_def Let_def)
  show b: "byID (Enqueue st p q) = (byID q)(JobID (st p) \<mapsto> p)" by (simp add: Enqueue_def updateJobLocked_def Let_def)
  note hp = Push_heap [OF index_okD(1) [OF ok], of p, folded jobLess_key]
  have j: "jobs (Enqueue st p q) = Push (jobLess st) (jobs q) p" if "byID q (JobID (st p)) = None"
    using that by (simp add: Enqueue_def Let_def)
  show m: "mset (jobs (Enqueue st p q)) = add_mset p (mset (jobs q))" if "byID q (JobID (st p)) = None"
    using j [OF that] hp(2) by simp
  show "jobs (Enqueue st p q) = jobs q" if "byID q (JobID (st p)) \<noteq> None" by (rule lost [OF that])
  show "index_ok st (Enqueue st p q)"
  proof (cases "byID q (JobID (st p)) = None")
    case True
    have set: "set (jobs (Enqueue st p q)) = insert p (set (jobs q))"
      using m [OF True] by (metis set_mset_add_mset_insert set_mset_mset)
    have "mset (map (\<lambda>p. JobID (st p)) (jobs (Enqueue st p q))) = mset (map (\<lambda>p. JobID (st p)) (p # jobs q))"
      using m [OF True] by (simp add: mset_map)
    moreover have "JobID (st p) \<notin> (\<lambda>p. JobID (st p)) ` set (jobs q)" using new by (metis (mono_tags) imageE)
    then have "distinct (map (\<lambda>p. JobID (st p)) (p # jobs q))" using index_okD(2) [OF ok] by simp
    ultimately have "distinct (map (\<lambda>p. JobID (st p)) (jobs (Enqueue st p q)))" by (metis mset_eq_imp_distinct_iff)
    then show ?thesis using hp(1) j [OF True] set b new index_okD(3) [OF ok] unfolding index_ok_def by auto
  next
    case False
    then show ?thesis using lost [OF False] b new ok unfolding index_ok_def by auto
  qed
qed

lemma TryDequeue_index:
  assumes ok: "index_ok st (queue f)" and t: "TryDequeue st f = (Some p, f')"
  shows "p \<in> set (jobs (queue f))" "eligible st f p" "byID (queue f) (JobID (st p)) = Some p" "index_ok st (queue f')"
    "mset (jobs (queue f)) = add_mset p (mset (jobs (queue f')))" "byID (queue f') = (byID (queue f))(JobID (st p) := None)"
    "running f' = incr (SessionName (st p)) (running f)" "maxPerSession f' = maxPerSession f"
proof -
  from t obtain x where x: "find (eligible st f) (jobs (queue f)) = Some x"
    by (auto simp: TryDequeue_def ListAll_def split: option.splits)
  then have xin: "x \<in> set (jobs (queue f))" and xel: "eligible st f x" by (auto simp: find_Some_iff)
  obtain r q where rem: "Remove st (JobID (st x)) (queue f) = (r, q)" by fastforce
  from t x rem obtain r' where r': "r = Some r'" "p = r'" "f' = f\<lparr>queue := q, running := incr (SessionName (st x)) (running f)\<rparr>"
    by (cases r) (auto simp: TryDequeue_def ListAll_def)
  note rm = Remove_index [OF ok rem [unfolded r'(1)]]
  have px: "p = x" using rm(4) [OF xin refl] r'(2) by simp
  show "p \<in> set (jobs (queue f))" "eligible st f p" "byID (queue f) (JobID (st p)) = Some p" "index_ok st (queue f')"
    "mset (jobs (queue f)) = add_mset p (mset (jobs (queue f')))" "byID (queue f') = (byID (queue f))(JobID (st p) := None)"
    "running f' = incr (SessionName (st p)) (running f)" "maxPerSession f' = maxPerSession f"
    using rm(1,2,3) rm(4) [OF xin refl] xin xel r' px by simp_all
qed

section \<open>Group cancellation\<close>

lemma remove_indices_heap:
  assumes "heap_by (prio st) js" "sorted_wrt (<) ks" "\<forall>k \<in> set ks. k < length js"
  shows "heap_by (prio st) (remove_indices st ks js) \<and> mset (remove_indices st ks js) \<subseteq># mset js \<and>
    length (remove_indices st ks js) + length ks = length js"
  using assms
proof (induction ks arbitrary: js rule: rev_induct)
  case Nil
  then show ?case by (simp add: remove_indices_def)
next
  case (snoc k ks)
  obtain x js' where r: "Remove_at (jobLess st) js k = (x, js')" by fastforce
  have k: "k < length js" using snoc.prems(3) by simp
  note hp = Remove_at_heap [OF snoc.prems(1) k r [unfolded jobLess_key]]
  have len: "length js = Suc (length js')" using hp(3) by (metis size_add_mset size_mset)
  have ks: "sorted_wrt (<) ks" "\<forall>j \<in> set ks. j < length js'"
    using snoc.prems(2,3) k len by (auto simp: sorted_wrt_append)
  have e: "remove_indices st (ks @ [k]) js = remove_indices st ks js'" by (simp add: remove_indices_def r)
  have "mset js' \<subseteq># mset js" using hp(3) by simp
  with snoc.IH [OF hp(2) ks] len show ?case unfolding e by (auto intro: subset_mset.order_trans)
qed

lemma cancel_where_index:
  assumes ok: "index_ok st q" and c: "cancel_where now P st q = (ps, st', q')"
  shows "index_ok st' q'" "mset (jobs q') \<subseteq># mset (jobs q)" "\<And>x. tag (st' x) = tag (st x)"
    "ps = filter (\<lambda>p. P (st p)) (jobs q)" "st' = cancel_ptrs now ps st"
    "byID q' = (\<lambda>i. if i \<in> set (map (\<lambda>p. JobID (st p)) ps) then None else byID q i)"
proof -
  let ?is = "filter (\<lambda>i. P (st (jobs q ! i))) [0..<length (jobs q)]"
  have "map (\<lambda>i. jobs q ! i) ?is = filter (\<lambda>p. P (st p)) (map (\<lambda>i. jobs q ! i) [0..<length (jobs q)])"
    by (simp add: filter_map o_def)
  then have ps: "map (\<lambda>i. jobs q ! i) ?is = filter (\<lambda>p. P (st p)) (jobs q)" by (simp add: map_nth)
  then show p: "ps = filter (\<lambda>p. P (st p)) (jobs q)" using c by (simp add: cancel_where_def Let_def)
  then show st': "st' = cancel_ptrs now ps st" using c ps by (simp add: cancel_where_def Let_def)
  show tg: "tag (st' x) = tag (st x)" for x by (simp add: st' cancel_ptrs_def)
  have prio: "prio st' = prio st" using tag_fields [OF tg] by (simp add: fun_eq_iff prio_def)
  have id: "JobID (st' x) = JobID (st x)" for x by (rule tag_fields(1) [OF tg])
  have "q' = snd (snd (cancel_where now P st q))" using c by simp
  also have "\<dots> = q\<lparr>jobs := remove_indices st' ?is (jobs q),
      byID := (\<lambda>i. if i \<in> set (map (\<lambda>p. JobID (st' p)) ps) then None else byID q i),
      stats := (stats q)\<lparr>CurrentSize := int (length (remove_indices st' ?is (jobs q)))\<rparr>\<rparr>"
    by (simp only: cancel_where_def Let_def ps p [symmetric] st' [symmetric] snd_conv)
  finally have js: "jobs q' = remove_indices st' ?is (jobs q)"
    and "byID q' = (\<lambda>i. if i \<in> set (map (\<lambda>p. JobID (st' p)) ps) then None else byID q i)" by simp_all
  then show b: "byID q' = (\<lambda>i. if i \<in> set (map (\<lambda>p. JobID (st p)) ps) then None else byID q i)" by (simp only: id)
  have ok': "index_ok st' q" by (rule index_ok_cong [OF ok tg])
  have "sorted_wrt (<) ?is" by (rule sorted_wrt_filter) (rule sorted_wrt_upt)
  moreover have "\<forall>k \<in> set ?is. k < length (jobs q)" by simp
  ultimately have "heap_by (prio st') (remove_indices st' ?is (jobs q)) \<and>
      mset (remove_indices st' ?is (jobs q)) \<subseteq># mset (jobs q) \<and>
      length (remove_indices st' ?is (jobs q)) + length ?is = length (jobs q)"
    by (rule remove_indices_heap [OF index_okD(1) [OF ok']])
  then have h: "heap_by (prio st') (jobs q')" and m: "mset (jobs q') \<subseteq># mset (jobs q)"
    unfolding js by (rule conjunct1, rule conjunct1 [OF conjunct2])
  show "mset (jobs q') \<subseteq># mset (jobs q)" by (rule m)
  show "index_ok st' q'" by (rule index_ok_sub [OF ok' h m]) (auto simp: b split: if_splits)
qed

end
