(* ===== verification/SchedCaps.thy ===== *)
theory SchedCaps
  imports GoLib "HOL-Library.AList" "HOL-Library.Signed_Division"
begin

text \<open>
  The per-agent concurrency caps of \<^verbatim>\<open>internal/scheduler/caps.go\<close>: slots per agent
  type under a cap that ramps up over time and drops on failures, and the queue of
  goroutines that wait for a slot. Each section under the mutex is one operation.
  Go maps are association lists, their iteration order an argument where it
  matters. \<^verbatim>\<open>None\<close> is the run-time panic of an integer division by a zero ramp-up interval.
\<close>

section \<open>Configuration and state\<close>

record AgentCapConfig =
  MaxConcurrent :: int
  RampUpEnabled :: bool
  RampUpInitial :: int
  RampUpStep :: int
  RampUpInterval :: int
  CooldownOnFailure :: bool
  CooldownReduction :: int
  CooldownRecovery :: int

definition seconds :: "int \<Rightarrow> int" where
  "seconds n = n * 1000000000"

definition DefaultAgentCapConfig :: AgentCapConfig where
  "DefaultAgentCapConfig =
     \<lparr>MaxConcurrent = 4, RampUpEnabled = False, RampUpInitial = 1, RampUpStep = 1,
      RampUpInterval = seconds 30, CooldownOnFailure = True, CooldownReduction = 1,
      CooldownRecovery = seconds 60\<rparr>"

definition ConservativeCapConfig :: AgentCapConfig where
  "ConservativeCapConfig =
     \<lparr>MaxConcurrent = 3, RampUpEnabled = True, RampUpInitial = 1, RampUpStep = 1,
      RampUpInterval = seconds 60, CooldownOnFailure = True, CooldownReduction = 1,
      CooldownRecovery = seconds 120\<rparr>"

record AgentCapsConfig =
  Default :: AgentCapConfig
  PerAgent :: "(string \<times> AgentCapConfig) list"
  GlobalMax :: int

definition DefaultAgentCapsConfig :: AgentCapsConfig where
  "DefaultAgentCapsConfig =
     \<lparr>Default = DefaultAgentCapConfig,
      PerAgent = [(''codex'', ConservativeCapConfig), (''claude'', DefaultAgentCapConfig)],
      GlobalMax = 0\<rparr>"

record agentCapState =
  cap_config :: AgentCapConfig
  currentCap :: int
  startedAt :: "int option"
  lastRampUp :: int
  cooldownAt :: int
  inCooldown :: bool

type_synonym chan = nat

record AgentCaps =
  config :: AgentCapsConfig
  running_slots :: "(string \<times> int) list"
  caps :: "(string \<times> agentCapState) list"
  waiters :: "(string \<times> chan list) list"
  woken :: "chan list"
  TotalRunning :: int
  TotalWaiting :: int

text \<open>Reading a map of counts or of slices at a missing key gives the zero value.\<close>

definition slots :: "AgentCaps \<Rightarrow> string \<Rightarrow> int" where
  "slots ac a = (case map_of (running_slots ac) a of None \<Rightarrow> 0 | Some n \<Rightarrow> n)"

definition queue_of :: "AgentCaps \<Rightarrow> string \<Rightarrow> chan list" where
  "queue_of ac a = (case map_of (waiters ac) a of None \<Rightarrow> [] | Some ws \<Rightarrow> ws)"

definition set_slots :: "string \<Rightarrow> int \<Rightarrow> AgentCaps \<Rightarrow> AgentCaps" where
  "set_slots a n ac = ac\<lparr>running_slots := AList.update a n (running_slots ac)\<rparr>"

definition set_cap :: "string \<Rightarrow> agentCapState \<Rightarrow> AgentCaps \<Rightarrow> AgentCaps" where
  "set_cap a s ac = ac\<lparr>caps := AList.update a s (caps ac)\<rparr>"

definition total_slots :: "AgentCaps \<Rightarrow> int" where
  "total_slots ac = sum_list (map snd (running_slots ac))"

section \<open>Operations\<close>

definition initialCap :: "AgentCapConfig \<Rightarrow> int" where
  "initialCap cfg = (if RampUpEnabled cfg then RampUpInitial cfg else MaxConcurrent cfg)"

definition fresh_state :: "AgentCapConfig \<Rightarrow> agentCapState" where
  "fresh_state cfg =
     \<lparr>cap_config = cfg, currentCap = initialCap cfg, startedAt = None, lastRampUp = 0,
      cooldownAt = 0, inCooldown = False\<rparr>"

definition NewAgentCaps :: "AgentCapsConfig \<Rightarrow> AgentCaps" where
  "NewAgentCaps cfg =
     \<lparr>config = cfg, running_slots = [], caps = map (\<lambda>(a, c). (a, fresh_state c)) (PerAgent cfg),
      waiters = [], woken = [], TotalRunning = 0, TotalWaiting = 0\<rparr>"

definition config_of :: "AgentCapsConfig \<Rightarrow> string \<Rightarrow> AgentCapConfig" where
  "config_of cfg a = (case map_of (PerAgent cfg) a of None \<Rightarrow> Default cfg | Some c \<Rightarrow> c)"

definition getCapState :: "string \<Rightarrow> AgentCaps \<Rightarrow> agentCapState \<times> AgentCaps" where
  "getCapState a ac =
     (case map_of (caps ac) a of
        Some s \<Rightarrow> (s, ac)
      | None \<Rightarrow> let s = fresh_state (config_of (config ac) a) in (s, set_cap a s ac))"

text \<open>Handing a slot to the first waiter of an agent type, without looking at its cap.\<close>

definition grant :: "string \<Rightarrow> AgentCaps \<Rightarrow> AgentCaps" where
  "grant a ac =
     (let ac1 = ac\<lparr>waiters := AList.update a (tl (queue_of ac a)) (waiters ac),
                   TotalWaiting := TotalWaiting ac - 1,
                   TotalRunning := TotalRunning ac + 1,
                   woken := hd (queue_of ac a) # woken ac\<rparr>
      in set_slots a (slots ac1 a + 1) ac1)"

fun notify_other :: "string list \<Rightarrow> AgentCaps \<Rightarrow> AgentCaps" where
  "notify_other [] ac = ac"
| "notify_other (b # bs) ac =
     (if queue_of ac b \<noteq> [] then
        let (s, ac1) = getCapState b ac in
        if slots ac1 b < currentCap s then grant b ac1 else notify_other bs ac1
      else notify_other bs ac)"

text \<open>\<open>ord\<close> is the order in which \<^verbatim>\<open>range ac.waiters\<close> happens to visit the agent types.\<close>

definition notifyWaiter :: "string list \<Rightarrow> string \<Rightarrow> AgentCaps \<Rightarrow> AgentCaps" where
  "notifyWaiter ord a ac =
     (if queue_of ac a \<noteq> [] then grant a ac
      else if GlobalMax (config ac) > 0 then notify_other ord ac
      else ac)"

text \<open>\<^verbatim>\<open>for state.currentCap > running[a] && len(waiters[a]) > 0 { notifyWaiter(a) }\<close>\<close>

fun notify_up_to :: "nat \<Rightarrow> int \<Rightarrow> string list \<Rightarrow> string \<Rightarrow> AgentCaps \<Rightarrow> AgentCaps" where
  "notify_up_to 0 cap ord a ac = ac"
| "notify_up_to (Suc n) cap ord a ac =
     (if cap > slots ac a \<and> queue_of ac a \<noteq> [] then notify_up_to n cap ord a (notifyWaiter ord a ac)
      else ac)"

definition notify_waiters :: "int \<Rightarrow> string list \<Rightarrow> string \<Rightarrow> AgentCaps \<Rightarrow> AgentCaps" where
  "notify_waiters cap ord a ac = notify_up_to (length (queue_of ac a)) cap ord a ac"

text \<open>\<^verbatim>\<open>updateRampUp\<close> on the state \<open>s\<close> stored for \<open>a\<close>; the updated state comes back.\<close>

definition updateRampUp ::
  "int \<Rightarrow> string list \<Rightarrow> string \<Rightarrow> agentCapState \<Rightarrow> AgentCaps \<Rightarrow> (agentCapState \<times> AgentCaps) option" where
  "updateRampUp now ord a s ac =
     (let cfg = cap_config s; elapsed = time_sub now (lastRampUp s) in
      if \<not> RampUpEnabled cfg \<or> startedAt s = None then Some (s, ac)
      else if \<not> currentCap s < MaxConcurrent cfg then Some (s, ac)
      else if \<not> elapsed \<ge> RampUpInterval cfg then Some (s, ac)
      else if RampUpInterval cfg = 0 then None
      else
        let steps = elapsed sdiv RampUpInterval cfg;
            newCap = min (currentCap s + steps * RampUpStep cfg) (MaxConcurrent cfg)
        in if newCap > currentCap s then
             let s1 = s\<lparr>currentCap := newCap, lastRampUp := now\<rparr>
             in Some (s1, notify_waiters newCap ord a (set_cap a s1 ac))
           else Some (s, ac))"

definition globalCapExceeded :: "AgentCaps \<Rightarrow> bool" where
  "globalCapExceeded ac \<longleftrightarrow> GlobalMax (config ac) > 0 \<and> total_slots ac \<ge> GlobalMax (config ac)"

definition take_slot :: "int \<Rightarrow> string \<Rightarrow> agentCapState \<Rightarrow> AgentCaps \<Rightarrow> AgentCaps" where
  "take_slot now a s ac =
     (let ac1 = (set_slots a (slots ac a + 1) ac)\<lparr>TotalRunning := TotalRunning ac + 1\<rparr> in
      if startedAt s = None then set_cap a (s\<lparr>startedAt := Some now, lastRampUp := now\<rparr>) ac1 else ac1)"

definition TryAcquire :: "int \<Rightarrow> string list \<Rightarrow> string \<Rightarrow> AgentCaps \<Rightarrow> (bool \<times> AgentCaps) option" where
  "TryAcquire now ord a ac =
     (let (s0, ac0) = getCapState a ac in
      case updateRampUp now ord a s0 ac0 of
        None \<Rightarrow> None
      | Some (s, ac1) \<Rightarrow>
          Some (if slots ac1 a \<ge> currentCap s then (False, ac1)
                else if globalCapExceeded ac1 then (False, ac1)
                else (True, take_slot now a s ac1)))"

text \<open>
  \<^verbatim>\<open>Acquire\<close> after \<^verbatim>\<open>TryAcquire\<close> failed: the second look under the mutex, which takes
  the slot (\<^verbatim>\<open>True\<close>) or leaves the fresh channel \<open>ch\<close> in the queue; then either the
  channel is received from, or the context ends and \<open>Acquire_cancelled\<close> runs.
\<close>

definition Acquire_wait ::
  "int \<Rightarrow> string list \<Rightarrow> string \<Rightarrow> chan \<Rightarrow> AgentCaps \<Rightarrow> (bool \<times> AgentCaps) option" where
  "Acquire_wait now ord a ch ac =
     (let (s0, ac0) = getCapState a ac in
      case updateRampUp now ord a s0 ac0 of
        None \<Rightarrow> None
      | Some (s, ac1) \<Rightarrow>
          Some (if slots ac1 a < currentCap s \<and> \<not> globalCapExceeded ac1 then (True, take_slot now a s ac1)
                else (False, ac1\<lparr>waiters := AList.update a (queue_of ac1 a @ [ch]) (waiters ac1),
                                 TotalWaiting := TotalWaiting ac1 + 1\<rparr>)))"

definition removeWaiter :: "string \<Rightarrow> chan \<Rightarrow> AgentCaps \<Rightarrow> AgentCaps" where
  "removeWaiter a ch ac =
     (if ch \<in> set (queue_of ac a) then ac\<lparr>waiters := AList.update a (remove1 ch (queue_of ac a)) (waiters ac)\<rparr>
      else ac)"

definition Acquire_cancelled :: "string \<Rightarrow> chan \<Rightarrow> AgentCaps \<Rightarrow> AgentCaps" where
  "Acquire_cancelled a ch ac =
     (let ac1 = removeWaiter a ch ac in ac1\<lparr>TotalWaiting := TotalWaiting ac1 - 1\<rparr>)"

definition Release :: "string list \<Rightarrow> string \<Rightarrow> AgentCaps \<Rightarrow> AgentCaps" where
  "Release ord a ac =
     notifyWaiter ord a
       (if slots ac a > 0 then (set_slots a (slots ac a - 1) ac)\<lparr>TotalRunning := TotalRunning ac - 1\<rparr> else ac)"

text \<open>\<^verbatim>\<open>RecordFailure\<close>; the goroutine it starts calls \<^verbatim>\<open>recoverFromCooldown\<close> later.\<close>

definition RecordFailure :: "int \<Rightarrow> string \<Rightarrow> AgentCaps \<Rightarrow> AgentCaps" where
  "RecordFailure now a ac =
     (let (s, ac0) = getCapState a ac in
      if \<not> CooldownOnFailure (cap_config s) then ac0
      else
        let cap = (if currentCap s > 1 then max 1 (currentCap s - CooldownReduction (cap_config s)) else currentCap s)
        in set_cap a (s\<lparr>currentCap := cap, inCooldown := True, cooldownAt := now\<rparr>) ac0)"

definition recoverFromCooldown :: "int \<Rightarrow> string list \<Rightarrow> string \<Rightarrow> AgentCaps \<Rightarrow> AgentCaps option" where
  "recoverFromCooldown now ord a ac =
     (case map_of (caps ac) a of
        None \<Rightarrow> Some ac
      | Some s \<Rightarrow>
          if \<not> inCooldown s then Some ac
          else if \<not> time_sub now (cooldownAt s) \<ge> CooldownRecovery (cap_config s) then Some ac
          else
            let s1 = s\<lparr>inCooldown := False\<rparr> in
            if RampUpEnabled (cap_config s1) then
              (case updateRampUp now ord a s1 (set_cap a s1 ac) of
                 None \<Rightarrow> None
               | Some (_, ac1) \<Rightarrow> Some (notifyWaiter ord a ac1))
            else Some (notifyWaiter ord a (set_cap a (s1\<lparr>currentCap := MaxConcurrent (cap_config s1)\<rparr>) ac)))"

definition RecordSuccess :: "int \<Rightarrow> string \<Rightarrow> AgentCaps \<Rightarrow> AgentCaps" where
  "RecordSuccess now a ac =
     (let (s, ac0) = getCapState a ac in
      if inCooldown s then set_cap a (s\<lparr>cooldownAt := now - CooldownRecovery (cap_config s)\<rparr>) ac0 else ac0)"

definition GetRunning :: "string \<Rightarrow> AgentCaps \<Rightarrow> int" where
  "GetRunning a ac = slots ac a"

definition GetCurrentCap :: "int \<Rightarrow> string list \<Rightarrow> string \<Rightarrow> AgentCaps \<Rightarrow> (int \<times> AgentCaps) option" where
  "GetCurrentCap now ord a ac =
     (let (s0, ac0) = getCapState a ac in
      map_option (\<lambda>(s, ac1). (currentCap s, ac1)) (updateRampUp now ord a s0 ac0))"

definition GetAvailable :: "int \<Rightarrow> string list \<Rightarrow> string \<Rightarrow> AgentCaps \<Rightarrow> (int \<times> AgentCaps) option" where
  "GetAvailable now ord a ac =
     (let (s0, ac0) = getCapState a ac in
      map_option (\<lambda>(s, ac1). (currentCap s - slots ac1 a, ac1)) (updateRampUp now ord a s0 ac0))"

definition SetCap :: "string list \<Rightarrow> string \<Rightarrow> int \<Rightarrow> AgentCaps \<Rightarrow> AgentCaps" where
  "SetCap ord a cap ac =
     (let (s, ac0) = getCapState a ac;
          oldCap = currentCap s;
          s1 = s\<lparr>cap_config := (cap_config s)\<lparr>MaxConcurrent := cap\<rparr>\<rparr>;
          s2 = (if cap > oldCap \<and> \<not> RampUpEnabled (cap_config s1) then s1\<lparr>currentCap := cap\<rparr>
                else if currentCap s1 > cap then s1\<lparr>currentCap := cap\<rparr> else s1);
          ac1 = set_cap a s2 ac0
      in if currentCap s2 > oldCap then notify_waiters (currentCap s2) ord a ac1 else ac1)"

definition ForceRampUp :: "string list \<Rightarrow> string \<Rightarrow> AgentCaps \<Rightarrow> AgentCaps" where
  "ForceRampUp ord a ac =
     (let (s, ac0) = getCapState a ac in
      if currentCap s < MaxConcurrent (cap_config s) then
        let s1 = s\<lparr>currentCap := MaxConcurrent (cap_config s), inCooldown := False\<rparr>
        in notify_waiters (currentCap s1) ord a (set_cap a s1 ac0)
      else ac0)"

text \<open>\<^verbatim>\<open>Reset\<close>; every waiting channel is closed, which wakes its goroutine.\<close>

definition Reset :: "AgentCaps \<Rightarrow> AgentCaps" where
  "Reset ac =
     (NewAgentCaps (config ac))
       \<lparr>waiters := map (\<lambda>(a, ws). (a, [])) (waiters ac),
        woken := concat (map snd (waiters ac)) @ woken ac\<rparr>"

text \<open>\<^verbatim>\<open>Stats\<close> of one agent type; the ramp-up check runs for configured types only.\<close>

record AgentCapStats =
  Running :: int
  CurrentCap :: int
  MaxCap :: int
  Waiting :: nat
  InRampUp :: bool
  InCooldown :: bool

definition cap_stats :: "string \<Rightarrow> agentCapState \<Rightarrow> AgentCaps \<Rightarrow> AgentCapStats" where
  "cap_stats a s ac =
     \<lparr>Running = slots ac a, CurrentCap = currentCap s, MaxCap = MaxConcurrent (cap_config s),
      Waiting = length (queue_of ac a),
      InRampUp = (RampUpEnabled (cap_config s) \<and> currentCap s < MaxConcurrent (cap_config s)),
      InCooldown = inCooldown s\<rparr>"

end
