(* ===== verification/CapsSafety.thy ===== *)
theory CapsSafety
  imports SchedCaps
begin

text \<open>
  What the caps promise a client that never blocks, which is how the scheduler's
  workers use them: slots stay within the configured maximum of their agent type
  and within the global maximum. Runs with waiting goroutines show where the
  hand-over of slots breaks the bound.
\<close>

section \<open>Slots and states under the operations\<close>

lemma map_of_update [simp]: "map_of (AList.update k v xs) = (map_of xs)(k \<mapsto> v)"
  by (rule update_conv')

lemma slots_simps [simp]:
  "slots (set_slots a n ac) b = (if a = b then n else slots ac b)"
  "slots (set_cap a s ac) b = slots ac b"
  "slots (ac\<lparr>TotalRunning := x\<rparr>) b = slots ac b"
  "slots (ac\<lparr>TotalWaiting := x\<rparr>) b = slots ac b"
  "slots (ac\<lparr>waiters := w\<rparr>) b = slots ac b"
  "slots (ac\<lparr>woken := v\<rparr>) b = slots ac b"
  by (simp_all add: slots_def set_slots_def set_cap_def)

lemma queue_of_simps [simp]:
  "queue_of (set_slots a n ac) b = queue_of ac b"
  "queue_of (set_cap a s ac) b = queue_of ac b"
  "queue_of (ac\<lparr>TotalRunning := x\<rparr>) b = queue_of ac b"
  "queue_of (ac\<lparr>TotalWaiting := x\<rparr>) b = queue_of ac b"
  by (simp_all add: queue_of_def set_slots_def set_cap_def)

lemma total_update:
  "distinct (map fst xs) \<Longrightarrow>
     sum_list (map snd (AList.update a (n::int) xs))
       = sum_list (map snd xs) + n - (case map_of xs a of None \<Rightarrow> 0 | Some m \<Rightarrow> m)"
proof (induction xs)
  case (Cons x xs)
  then show ?case by (cases x) (auto simp: map_of_eq_None_iff [symmetric] split: option.splits)
qed simp

lemma total_set_slots:
  "distinct (map fst (running_slots ac)) \<Longrightarrow> total_slots (set_slots a n ac) = total_slots ac + n - slots ac a"
  by (simp add: total_slots_def set_slots_def slots_def total_update)

section \<open>The invariant\<close>

definition config_ok :: "AgentCapConfig \<Rightarrow> bool" where
  "config_ok c \<longleftrightarrow> 0 \<le> CooldownReduction c \<and>
     (RampUpEnabled c \<longrightarrow> RampUpInitial c \<le> MaxConcurrent c \<and> RampUpInterval c \<noteq> 0)"

definition configs_ok :: "AgentCapsConfig \<Rightarrow> bool" where
  "configs_ok cfg \<longleftrightarrow> config_ok (Default cfg) \<and> (\<forall>(a, c) \<in> set (PerAgent cfg). config_ok c)"

definition cap_limit :: "AgentCaps \<Rightarrow> string \<Rightarrow> int" where
  "cap_limit ac a =
     (case map_of (caps ac) a of None \<Rightarrow> 0 | Some s \<Rightarrow> max 0 (MaxConcurrent (cap_config s)))"

definition state_ok :: "agentCapState \<Rightarrow> bool" where
  "state_ok s \<longleftrightarrow> currentCap s \<le> MaxConcurrent (cap_config s) \<and> 0 \<le> CooldownReduction (cap_config s) \<and>
     (RampUpEnabled (cap_config s) \<longrightarrow> RampUpInterval (cap_config s) \<noteq> 0)"

definition caps_ok :: "AgentCapsConfig \<Rightarrow> AgentCaps \<Rightarrow> bool" where
  "caps_ok cfg ac \<longleftrightarrow>
     config ac = cfg \<and> distinct (map fst (running_slots ac)) \<and>
     (\<forall>a. queue_of ac a = []) \<and>
     TotalRunning ac = total_slots ac \<and>
     (\<forall>a. 0 \<le> slots ac a \<and> slots ac a \<le> cap_limit ac a) \<and>
     (\<forall>a s. map_of (caps ac) a = Some s \<longrightarrow> state_ok s) \<and>
     (GlobalMax cfg > 0 \<longrightarrow> total_slots ac \<le> GlobalMax cfg)"

lemma config_of_ok: "configs_ok cfg \<Longrightarrow> config_ok (config_of cfg a)"
  by (auto simp: configs_ok_def config_of_def split: option.splits dest: map_of_SomeD)

lemma fresh_state_ok: "config_ok c \<Longrightarrow> state_ok (fresh_state c)"
  by (auto simp: state_ok_def fresh_state_def initialCap_def config_ok_def)

text \<open>Storing a state with the same or a larger limit keeps the invariant.\<close>

lemma caps_ok_set_cap:
  assumes "caps_ok cfg ac" "state_ok s" "slots ac a \<le> max 0 (MaxConcurrent (cap_config s))"
  shows "caps_ok cfg (set_cap a s ac)"
  using assms by (auto simp: caps_ok_def cap_limit_def set_cap_def total_slots_def slots_def queue_of_def)

lemma getCapState_ok:
  assumes "caps_ok cfg ac" "configs_ok cfg" "getCapState a ac = (s, ac')"
  shows "caps_ok cfg ac'" "state_ok s" "map_of (caps ac') a = Some s" "slots ac' = slots ac"
    "slots ac a \<le> max 0 (MaxConcurrent (cap_config s))"
proof -
  have "caps_ok cfg ac' \<and> state_ok s \<and> map_of (caps ac') a = Some s \<and> slots ac' = slots ac
      \<and> slots ac a \<le> max 0 (MaxConcurrent (cap_config s))"
  proof (cases "map_of (caps ac) a")
    case (Some s')
    moreover have "slots ac a \<le> cap_limit ac a" using assms(1) by (simp add: caps_ok_def)
    ultimately show ?thesis using assms(1,3) by (auto simp: getCapState_def caps_ok_def cap_limit_def)
  next
    case None
    have sl: "slots ac a \<le> 0" using assms(1) None by (auto simp: caps_ok_def cap_limit_def dest!: spec [of _ a])
    have eq: "s = fresh_state (config_of cfg a)" "ac' = set_cap a s ac"
      using None assms by (auto simp: getCapState_def Let_def caps_ok_def)
    have st: "state_ok s" unfolding eq(1) by (rule fresh_state_ok [OF config_of_ok [OF assms(2)]])
    moreover have "caps_ok cfg (set_cap a s ac)" by (rule caps_ok_set_cap [OF assms(1) st]) (use sl in simp)
    ultimately show ?thesis using eq sl by (auto simp: set_cap_def slots_def fun_eq_iff)
  qed
  then show "caps_ok cfg ac'" "state_ok s" "map_of (caps ac') a = Some s" "slots ac' = slots ac"
    "slots ac a \<le> max 0 (MaxConcurrent (cap_config s))" by blast+
qed

lemma notify_other_idle: "\<forall>a. queue_of ac a = [] \<Longrightarrow> notify_other ord ac = ac"
  by (induction ord) simp_all

lemma notifyWaiter_idle: "\<forall>a. queue_of ac a = [] \<Longrightarrow> notifyWaiter ord a ac = ac"
  by (simp add: notifyWaiter_def notify_other_idle)

lemma notify_waiters_idle: "\<forall>a. queue_of ac a = [] \<Longrightarrow> notify_waiters c ord a ac = ac"
  by (simp add: notify_waiters_def)

lemma caps_ok_idle: "caps_ok cfg ac \<Longrightarrow> \<forall>a. queue_of ac a = []"
  by (simp add: caps_ok_def)

lemma updateRampUp_ok:
  assumes "caps_ok cfg ac" "state_ok s" "map_of (caps ac) a = Some s"
  shows "\<exists>s' ac'. updateRampUp now ord a s ac = Some (s', ac') \<and> caps_ok cfg ac' \<and> state_ok s'
     \<and> map_of (caps ac') a = Some s' \<and> slots ac' = slots ac \<and> total_slots ac' = total_slots ac
     \<and> MaxConcurrent (cap_config s') = MaxConcurrent (cap_config s) \<and> currentCap s \<le> currentCap s'"
proof -
  have sl: "slots ac a \<le> max 0 (MaxConcurrent (cap_config s))"
    using assms(1,3) by (auto simp: caps_ok_def cap_limit_def dest!: spec [of _ a])
  let ?elapsed = "time_sub now (lastRampUp s)"
  let ?cap = "min (currentCap s + (?elapsed sdiv RampUpInterval (cap_config s)) * RampUpStep (cap_config s)) (MaxConcurrent (cap_config s))"
  show ?thesis
  proof (cases "RampUpEnabled (cap_config s) \<and> startedAt s \<noteq> None \<and> currentCap s < MaxConcurrent (cap_config s)
      \<and> ?elapsed \<ge> RampUpInterval (cap_config s) \<and> ?cap > currentCap s")
    case False
    then have "updateRampUp now ord a s ac = Some (s, ac)"
      using assms(2) by (auto simp: updateRampUp_def Let_def state_ok_def)
    with assms show ?thesis by auto
  next
    case True
    let ?s = "s\<lparr>currentCap := ?cap, lastRampUp := now\<rparr>"
    have st: "state_ok ?s" using assms(2) by (simp add: state_ok_def)
    have ok: "caps_ok cfg (set_cap a ?s ac)" by (rule caps_ok_set_cap [OF assms(1) st]) (use sl in simp)
    have "updateRampUp now ord a s ac = Some (?s, set_cap a ?s ac)"
      using True assms(2) notify_waiters_idle [OF caps_ok_idle [OF ok]]
      by (auto simp: updateRampUp_def Let_def state_ok_def)
    with ok st True show ?thesis by (auto simp: set_cap_def slots_def total_slots_def fun_eq_iff)
  qed
qed

lemma take_slot_ok:
  assumes "caps_ok cfg ac" "state_ok s" "map_of (caps ac) a = Some s"
    and "slots ac a < currentCap s" "\<not> globalCapExceeded ac"
  shows "caps_ok cfg (take_slot now a s ac)"
proof -
  have d: "distinct (map fst (running_slots ac))" using assms(1) by (simp add: caps_ok_def)
  let ?ac = "(set_slots a (slots ac a + 1) ac)\<lparr>TotalRunning := TotalRunning ac + 1\<rparr>"
  have tot: "total_slots ?ac = total_slots ac + 1"
    using total_set_slots [OF d, of a "slots ac a + 1"] by (simp add: total_slots_def)
  have lim: "slots ac a + 1 \<le> max 0 (MaxConcurrent (cap_config s))" using assms(2,4) unfolding state_ok_def by linarith
  have ok: "caps_ok cfg ?ac"
    unfolding caps_ok_def
  proof (intro conjI allI impI)
    show "distinct (map fst (running_slots ?ac))" using d by (simp add: set_slots_def distinct_update)
    show "TotalRunning ?ac = total_slots ?ac" using tot assms(1) by (simp add: caps_ok_def)
    show "total_slots ?ac \<le> GlobalMax cfg" if "GlobalMax cfg > 0"
      using tot assms(1,5) that by (simp add: caps_ok_def globalCapExceeded_def)
    show "0 \<le> slots ?ac b" "slots ?ac b \<le> cap_limit ?ac b" for b
      using assms(1,3) lim by (auto simp: caps_ok_def cap_limit_def set_slots_def)
        (simp_all add: slots_def)
  qed (use assms(1) in \<open>simp_all add: caps_ok_def set_slots_def queue_of_def\<close>)
  show ?thesis
  proof (cases "startedAt s")
    case None
    have "caps_ok cfg (set_cap a (s\<lparr>startedAt := Some now, lastRampUp := now\<rparr>) ?ac)"
      by (rule caps_ok_set_cap [OF ok]) (use assms(2) lim in \<open>simp_all add: state_ok_def\<close>)
    with None show ?thesis by (simp add: take_slot_def Let_def)
  next
    case (Some t)
    with ok show ?thesis by (simp add: take_slot_def Let_def)
  qed
qed


lemma NewAgentCaps_ok:
  assumes "configs_ok cfg"
  shows "caps_ok cfg (NewAgentCaps cfg)"
proof -
  have "state_ok s" if "map_of (map (\<lambda>(a, c). (a, fresh_state c)) (PerAgent cfg)) a = Some s" for a s
    using assms that by (fastforce simp: configs_ok_def intro: fresh_state_ok dest!: map_of_SomeD)
  then show ?thesis
    by (auto simp: caps_ok_def NewAgentCaps_def slots_def queue_of_def total_slots_def cap_limit_def split: option.splits)
qed

section \<open>Histories without waiting goroutines\<close>

text \<open>
  The operations the scheduler's workers and timers issue, with the time and the map
  iteration order they meet; \<open>SetCap\<close> may not lower a maximum below the slots in use.
\<close>

datatype caps_op =
    OpTry int "string list" string
  | OpRelease "string list" string
  | OpFailure int string
  | OpRecover int "string list" string
  | OpSuccess int string
  | OpForce "string list" string
  | OpSetCap "string list" string int
  | OpGetCap int "string list" string
  | OpReset

fun caps_run :: "caps_op \<Rightarrow> AgentCaps \<Rightarrow> AgentCaps option" where
  "caps_run (OpTry now ord a) ac = map_option snd (TryAcquire now ord a ac)"
| "caps_run (OpRelease ord a) ac = Some (Release ord a ac)"
| "caps_run (OpFailure now a) ac = Some (RecordFailure now a ac)"
| "caps_run (OpRecover now ord a) ac = recoverFromCooldown now ord a ac"
| "caps_run (OpSuccess now a) ac = Some (RecordSuccess now a ac)"
| "caps_run (OpForce ord a) ac = Some (ForceRampUp ord a ac)"
| "caps_run (OpSetCap ord a n) ac = Some (SetCap ord a n ac)"
| "caps_run (OpGetCap now ord a) ac = map_option snd (GetCurrentCap now ord a ac)"
| "caps_run OpReset ac = Some (Reset ac)"

fun caps_allowed :: "caps_op \<Rightarrow> AgentCaps \<Rightarrow> bool" where
  "caps_allowed (OpSetCap ord a n) ac \<longleftrightarrow> slots ac a \<le> n"
| "caps_allowed _ ac \<longleftrightarrow> True"

inductive caps_reachable :: "AgentCapsConfig \<Rightarrow> AgentCaps \<Rightarrow> bool" for cfg where
  init: "caps_reachable cfg (NewAgentCaps cfg)"
| step: "caps_reachable cfg ac \<Longrightarrow> caps_allowed act ac \<Longrightarrow> caps_run act ac = Some ac' \<Longrightarrow> caps_reachable cfg ac'"

lemma Release_ok:
  assumes ok: "caps_ok cfg ac"
  shows "caps_ok cfg (Release ord a ac)"
proof -
  let ?ac = "(set_slots a (slots ac a - 1) ac)\<lparr>TotalRunning := TotalRunning ac - 1\<rparr>"
  have d: "distinct (map fst (running_slots ac))" using ok by (simp add: caps_ok_def)
  have tot: "total_slots ?ac = total_slots ac - 1"
    using total_set_slots [OF d, of a "slots ac a - 1"] by (simp add: total_slots_def)
  have "caps_ok cfg ?ac" if pos: "slots ac a > 0"
    unfolding caps_ok_def
  proof (intro conjI allI impI)
    show "distinct (map fst (running_slots ?ac))" using d by (simp add: set_slots_def distinct_update)
    show "TotalRunning ?ac = total_slots ?ac" using tot ok by (simp add: caps_ok_def)
    show "total_slots ?ac \<le> GlobalMax cfg" if "GlobalMax cfg > 0"
    proof -
      have "total_slots ac \<le> GlobalMax cfg" using ok that by (simp add: caps_ok_def)
      with tot show ?thesis by simp
    qed
    fix b
    have "0 \<le> slots ac b" "slots ac b \<le> cap_limit ac b" using ok by (simp_all add: caps_ok_def)
    moreover have "cap_limit ?ac b = cap_limit ac b" by (simp add: cap_limit_def set_slots_def)
    ultimately show "0 \<le> slots ?ac b" "slots ?ac b \<le> cap_limit ?ac b" using pos by auto
  qed (use ok in \<open>simp_all add: caps_ok_def set_slots_def queue_of_def\<close>)
  then show ?thesis using ok by (simp add: Release_def notifyWaiter_idle caps_ok_idle)
qed

lemma caps_run_ok:
  assumes cfg: "configs_ok cfg" and ok: "caps_ok cfg ac" and al: "caps_allowed act ac"
  shows "\<exists>ac'. caps_run act ac = Some ac' \<and> caps_ok cfg ac'"
proof (cases act)
  case (OpTry now ord a)
  obtain s ac0 where g: "getCapState a ac = (s, ac0)" by fastforce
  note g' = getCapState_ok [OF ok cfg g]
  obtain s' ac1 where u: "updateRampUp now ord a s ac0 = Some (s', ac1)" "caps_ok cfg ac1" "state_ok s'"
    "map_of (caps ac1) a = Some s'" using updateRampUp_ok [OF g'(1,2,3)] by blast
  have "caps_ok cfg (take_slot now a s' ac1)" if "slots ac1 a < currentCap s'" "\<not> globalCapExceeded ac1"
    by (rule take_slot_ok [OF u(2,3,4) that])
  with g u OpTry show ?thesis by (simp add: TryAcquire_def)
next
  case (OpRelease ord a)
  with Release_ok [OF ok] show ?thesis by simp
next
  case (OpFailure now a)
  obtain s ac0 where g: "getCapState a ac = (s, ac0)" by fastforce
  note g' = getCapState_ok [OF ok cfg g]
  let ?cap = "if currentCap s > 1 then max 1 (currentCap s - CooldownReduction (cap_config s)) else currentCap s"
  have "?cap \<le> MaxConcurrent (cap_config s)" using g'(2) by (auto simp: state_ok_def)
  then have "caps_ok cfg (set_cap a (s\<lparr>currentCap := ?cap, inCooldown := True, cooldownAt := now\<rparr>) ac0)"
    by (intro caps_ok_set_cap [OF g'(1)]) (use g'(2,4,5) in \<open>simp_all add: state_ok_def\<close>)
  with g OpFailure g'(1) show ?thesis by (simp add: RecordFailure_def Let_def)
next
  case (OpRecover now ord a)
  show ?thesis
  proof (cases "map_of (caps ac) a")
    case (Some s)
    then have st: "state_ok s" and sl: "slots ac a \<le> max 0 (MaxConcurrent (cap_config s))"
      using ok by (auto simp: caps_ok_def cap_limit_def dest!: spec [of _ a])
    let ?s = "s\<lparr>inCooldown := False\<rparr>"
    have st1: "state_ok ?s" using st by (simp add: state_ok_def)
    have ok1: "caps_ok cfg (set_cap a ?s ac)" by (rule caps_ok_set_cap [OF ok st1]) (use sl in simp)
    have m: "map_of (caps (set_cap a ?s ac)) a = Some ?s" by (simp add: set_cap_def)
    obtain s' ac1 where u: "updateRampUp now ord a ?s (set_cap a ?s ac) = Some (s', ac1)" "caps_ok cfg ac1"
      using updateRampUp_ok [OF ok1 st1 m] by blast
    have ok2: "caps_ok cfg (set_cap a (?s\<lparr>currentCap := MaxConcurrent (cap_config ?s)\<rparr>) ac)"
      by (rule caps_ok_set_cap [OF ok]) (use st sl in \<open>simp_all add: state_ok_def\<close>)
    from u ok ok2 Some OpRecover show ?thesis
      by (simp add: recoverFromCooldown_def Let_def notifyWaiter_idle caps_ok_idle)
  qed (use ok OpRecover in \<open>simp add: recoverFromCooldown_def\<close>)
next
  case (OpSuccess now a)
  obtain s ac0 where g: "getCapState a ac = (s, ac0)" by fastforce
  note g' = getCapState_ok [OF ok cfg g]
  have "caps_ok cfg (set_cap a (s\<lparr>cooldownAt := now - CooldownRecovery (cap_config s)\<rparr>) ac0)"
    by (intro caps_ok_set_cap [OF g'(1)]) (use g'(2,4,5) in \<open>simp_all add: state_ok_def\<close>)
  with g OpSuccess g'(1) show ?thesis by (simp add: RecordSuccess_def)
next
  case (OpForce ord a)
  obtain s ac0 where g: "getCapState a ac = (s, ac0)" by fastforce
  note g' = getCapState_ok [OF ok cfg g]
  have "caps_ok cfg (set_cap a (s\<lparr>currentCap := MaxConcurrent (cap_config s), inCooldown := False\<rparr>) ac0)"
    by (intro caps_ok_set_cap [OF g'(1)]) (use g'(2,4,5) in \<open>simp_all add: state_ok_def\<close>)
  with g OpForce g'(1) show ?thesis by (simp add: ForceRampUp_def Let_def notify_waiters_idle caps_ok_idle)
next
  case (OpSetCap ord a n)
  obtain s ac0 where g: "getCapState a ac = (s, ac0)" by fastforce
  note g' = getCapState_ok [OF ok cfg g]
  have n: "slots ac0 a \<le> max 0 n" using al OpSetCap g'(4) by simp
  have "caps_ok cfg (set_cap a (s\<lparr>cap_config := (cap_config s)\<lparr>MaxConcurrent := n\<rparr>, currentCap := c\<rparr>) ac0)"
    if "c \<le> n" for c
    by (intro caps_ok_set_cap [OF g'(1)]) (use g'(2) n that in \<open>simp_all add: state_ok_def\<close>)
  note sc = this
  show ?thesis
  proof (cases "currentCap s < n \<and> \<not> RampUpEnabled (cap_config s)")
    case True
    with sc [of n] g OpSetCap notify_waiters_idle [OF caps_ok_idle [OF sc [of n]]] show ?thesis
      by (simp add: SetCap_def Let_def)
  next
    case False
    with sc [of n] sc [of "currentCap s"] g OpSetCap show ?thesis by (auto simp: SetCap_def Let_def)
  qed
next
  case (OpGetCap now ord a)
  obtain s ac0 where g: "getCapState a ac = (s, ac0)" by fastforce
  note g' = getCapState_ok [OF ok cfg g]
  from updateRampUp_ok [OF g'(1,2,3), of now ord] g OpGetCap show ?thesis by (auto simp: GetCurrentCap_def)
next
  case OpReset
  have "queue_of (Reset ac) a = []" for a
    by (auto simp: Reset_def queue_of_def split: option.splits dest!: map_of_SomeD)
  moreover have "config ac = cfg" using ok by (simp add: caps_ok_def)
  ultimately have "caps_ok cfg (Reset ac)"
    using NewAgentCaps_ok [OF cfg]
    by (simp add: caps_ok_def) (simp add: Reset_def slots_def cap_limit_def total_slots_def)
  with OpReset show ?thesis by simp
qed

lemma caps_reachable_ok: "caps_reachable cfg ac \<Longrightarrow> configs_ok cfg \<Longrightarrow> caps_ok cfg ac"
proof (induction rule: caps_reachable.induct)
  case init
  then show ?case by (rule NewAgentCaps_ok)
next
  case (step ac act ac')
  from caps_run_ok [OF step.prems step.IH [OF step.prems] step.hyps(2)] step.hyps(3) show ?case by auto
qed

section \<open>Properties\<close>

text \<open>
  As long as no goroutine blocks in \<^verbatim>\<open>Acquire\<close>, every agent type stays within its
  configured maximum through ramp-up, cooldown and recovery, all types together stay
  within the global maximum, and the counter of the statistics is the number of slots in use.
\<close>

lemma slots_within_caps:
  assumes "caps_reachable cfg ac" "configs_ok cfg"
  shows "0 \<le> GetRunning a ac \<and> GetRunning a ac \<le> cap_limit ac a
       \<and> (GlobalMax cfg > 0 \<longrightarrow> total_slots ac \<le> GlobalMax cfg)
       \<and> TotalRunning ac = total_slots ac"
  using caps_reachable_ok [OF assms] by (simp add: caps_ok_def GetRunning_def)

lemma demo_caps:
  "caps_run (OpTry 7 [] ''codex'') (NewAgentCaps DefaultAgentCapsConfig) =
     Some (snd (the (TryAcquire 7 [] ''codex'' (NewAgentCaps DefaultAgentCapsConfig))))"
  "GetRunning ''codex'' (snd (the (TryAcquire 7 [] ''codex'' (NewAgentCaps DefaultAgentCapsConfig)))) = 1"
  by code_simp+

text \<open>
  With goroutines waiting the bounds fail. One slot, taken, and one waiter: after a
  failure, \<^verbatim>\<open>recoverFromCooldown\<close> hands the waiter a slot without looking at the cap.
\<close>

definition one_slot :: AgentCapsConfig where
  "one_slot = \<lparr>Default = DefaultAgentCapConfig\<lparr>MaxConcurrent := 1, CooldownRecovery := 10\<rparr>,
     PerAgent = [], GlobalMax = 0\<rparr>"

definition one_waiting :: AgentCaps where
  "one_waiting = snd (the (Acquire_wait 1 [] ''x'' 0 (snd (the (TryAcquire 0 [] ''x'' (NewAgentCaps one_slot))))))"

text \<open>
  The hand-over to waiting goroutines breaks both bounds the caps are for: on a
  one-slot agent type with the slot taken and one goroutine waiting, the recovery from a
  cooldown runs two at once; and when the waiter's context ends after a release has
  already handed it the slot, \<^verbatim>\<open>Acquire\<close> reports the error and the slot stays taken for good.
\<close>

lemma waiting_breaks_caps:
  "(let ac = the (recoverFromCooldown 12 [''x''] ''x'' (RecordFailure 2 ''x'' one_waiting))
    in GetRunning ''x'' ac = 2 \<and> cap_limit ac ''x'' = 1) \<and>
   (let ac = Acquire_cancelled ''x'' 0 (Release [''x''] ''x'' one_waiting)
    in GetRunning ''x'' ac = 1 \<and> queue_of ac ''x'' = [] \<and> TotalWaiting ac = - 1
       \<and> fst (the (TryAcquire 20 [] ''x'' ac)) = False)"
  unfolding one_waiting_def by (intro conjI; code_simp)

end
