(* ===== verification/SchedBackoff.thy ===== *)
theory SchedBackoff
  imports SchedJob "HOL-Library.Sublist"
begin

text \<open>
  Resource-error classification and the global backoff of
  \<^verbatim>\<open>internal/scheduler/backoff.go\<close>. The controller's goroutines that sleep until a
  backoff ends are the list of their wake-up times; pausing and resuming the
  scheduler is the returned \<open>paused\<close> flag. \<^verbatim>\<open>strings.ToLower\<close> and the two
  floating-point products of the delay computation are arguments.
\<close>

section \<open>Classification\<close>

datatype errno = EAGAIN | ENOMEM | ENFILE | EMFILE | OtherErrno

record go_error =
  errText :: string
  errErrno :: "errno option"

definition ResourceErrorEAGAIN :: string where [const_defs]: "ResourceErrorEAGAIN = ''EAGAIN''"
definition ResourceErrorENOMEM :: string where [const_defs]: "ResourceErrorENOMEM = ''ENOMEM''"
definition ResourceErrorENFILE :: string where [const_defs]: "ResourceErrorENFILE = ''ENFILE''"
definition ResourceErrorEMFILE :: string where [const_defs]: "ResourceErrorEMFILE = ''EMFILE''"
definition ResourceErrorRateLimit :: string where [const_defs]: "ResourceErrorRateLimit = ''RATE_LIMIT''"

record ResourceError =
  Original :: go_error
  reType :: string
  ExitCode :: int
  StderrHint :: string
  Retryable :: bool
  Timestamp :: int

definition errno_type :: "errno \<Rightarrow> string option" where
  "errno_type e =
     (case e of EAGAIN \<Rightarrow> Some ResourceErrorEAGAIN | ENOMEM \<Rightarrow> Some ResourceErrorENOMEM
      | ENFILE \<Rightarrow> Some ResourceErrorENFILE | EMFILE \<Rightarrow> Some ResourceErrorEMFILE | OtherErrno \<Rightarrow> None)"

text \<open>The patterns have no regular-expression operators: a match is an occurrence.\<close>

definition eagainPatterns :: "string list" where
  "eagainPatterns =
     [''resource temporarily unavailable'', ''eagain'', ''try again'', ''cannot allocate memory'',
      ''fork: retry'', ''fork failed'', ''cannot fork'']"

definition enomemPatterns :: "string list" where
  "enomemPatterns =
     [''out of memory'', ''enomem'', ''memory allocation failed'', ''not enough memory'', ''insufficient memory'']"

definition rateLimitPatterns :: "string list" where
  "rateLimitPatterns = [''rate limit'', ''too many requests'', ''quota exceeded'', ''429'', ''throttled'']"

definition fdLimitPatterns :: "string list" where
  "fdLimitPatterns = [''too many open files'', ''emfile'', ''enfile'', ''file table overflow'']"

definition any_match :: "string list \<Rightarrow> string \<Rightarrow> bool" where
  "any_match ps s = list_ex (\<lambda>p. sublist p s) ps"

definition classifyFromString :: "string \<Rightarrow> string option" where
  "classifyFromString s =
     (if any_match eagainPatterns s then Some ResourceErrorEAGAIN
      else if any_match enomemPatterns s then Some ResourceErrorENOMEM
      else if any_match rateLimitPatterns s then Some ResourceErrorRateLimit
      else if any_match fdLimitPatterns s then Some ResourceErrorEMFILE
      else None)"

definition classifyFromExitCode :: "int \<Rightarrow> string option" where
  "classifyFromExitCode code =
     (if code = 11 then Some ResourceErrorEAGAIN
      else if code = 12 \<or> code = 137 then Some ResourceErrorENOMEM
      else None)"

definition truncateHint :: "string \<Rightarrow> nat \<Rightarrow> string" where
  "truncateHint s maxLen = (if length s \<le> maxLen then s else take maxLen s @ ''...'')"

definition ClassifyError ::
  "(string \<Rightarrow> string) \<Rightarrow> int \<Rightarrow> go_error option \<Rightarrow> int \<Rightarrow> string \<Rightarrow> ResourceError option" where
  "ClassifyError lower now err code stderr =
     (case err of
        None \<Rightarrow> None
      | Some e \<Rightarrow>
          let re = (\<lambda>ty. \<lparr>Original = e, reType = ty, ExitCode = code, StderrHint = '''', Retryable = True, Timestamp = now\<rparr>)
          in case Option.bind (errErrno e) errno_type of
               Some ty \<Rightarrow> Some (re ty)
             | None \<Rightarrow>
                 (case classifyFromString (lower (errText e)) of
                    Some ty \<Rightarrow> Some (re ty)
                  | None \<Rightarrow>
                      (case (if stderr \<noteq> '''' then classifyFromString (lower stderr) else None) of
                         Some ty \<Rightarrow> Some ((re ty)\<lparr>StderrHint := truncateHint stderr 200\<rparr>)
                       | None \<Rightarrow> map_option re (classifyFromExitCode code))))"

section \<open>The controller\<close>

record BackoffConfig =
  InitialDelay :: int
  MaxDelay :: int
  BackoffMaxRetries :: int
  PauseQueueOnBackoff :: bool
  ConsecutiveFailuresThreshold :: int

definition DefaultBackoffConfig :: BackoffConfig where
  "DefaultBackoffConfig =
     \<lparr>InitialDelay = 500000000, MaxDelay = 30000000000, BackoffMaxRetries = 5,
      PauseQueueOnBackoff = True, ConsecutiveFailuresThreshold = 3\<rparr>"

record BackoffStats =
  TotalBackoffs :: int
  TotalRetries :: int
  TotalExhausted :: int
  MaxConsecutive :: int
  TotalBackoffTime :: int
  LastBackoffReason :: string
  LastBackoffAt :: "int option"

record BackoffController =
  bcConfig :: BackoffConfig
  consecutiveFailures :: int
  currentDelay :: int
  globalBackoffActive :: bool
  globalBackoffUntil :: "int option"
  bcStats :: BackoffStats
  sleepers :: "int list"
  paused :: bool

definition NewBackoffController :: "BackoffConfig \<Rightarrow> BackoffController" where
  "NewBackoffController cfg =
     \<lparr>bcConfig = cfg, consecutiveFailures = 0, currentDelay = InitialDelay cfg,
      globalBackoffActive = False, globalBackoffUntil = None,
      bcStats = \<lparr>TotalBackoffs = 0, TotalRetries = 0, TotalExhausted = 0, MaxConsecutive = 0,
                 TotalBackoffTime = 0, LastBackoffReason = '''', LastBackoffAt = None\<rparr>,
      sleepers = [], paused = False\<rparr>"

text \<open>
  \<^verbatim>\<open>calculateDelay\<close>: \<open>jitter d\<close> is \<open>d\<close> with the random jitter applied, \<open>grow d\<close> the
  product with the multiplier, with \<^verbatim>\<open>None\<close> when it exceeds the maximum delay.
\<close>

definition calculateDelay ::
  "(int \<Rightarrow> int) \<Rightarrow> (int \<Rightarrow> int option) \<Rightarrow> BackoffController \<Rightarrow> int \<times> BackoffController" where
  "calculateDelay jitter grow bc =
     (let d = currentDelay bc; j = jitter d;
          next = (case grow d of None \<Rightarrow> MaxDelay (bcConfig bc) | Some n \<Rightarrow> n)
      in (if j < 100000000 then 100000000 else j, bc\<lparr>currentDelay := next\<rparr>))"

definition triggerGlobalBackoff :: "int \<Rightarrow> int \<Rightarrow> BackoffController \<Rightarrow> BackoffController" where
  "triggerGlobalBackoff now delay bc =
     (if \<not> PauseQueueOnBackoff (bcConfig bc) then bc
      else if globalBackoffActive bc then bc\<lparr>globalBackoffUntil := Some (now + delay)\<rparr>
      else bc\<lparr>globalBackoffActive := True, globalBackoffUntil := Some (now + delay),
              paused := True, sleepers := sleepers bc @ [now + delay]\<rparr>)"

text \<open>A sleeping goroutine wakes up and runs \<^verbatim>\<open>endGlobalBackoff\<close>.\<close>

definition endGlobalBackoff :: "BackoffController \<Rightarrow> BackoffController" where
  "endGlobalBackoff bc =
     (if \<not> globalBackoffActive bc then bc else bc\<lparr>globalBackoffActive := False, paused := False\<rparr>)"

definition wake_sleeper :: "int \<Rightarrow> BackoffController \<Rightarrow> BackoffController" where
  "wake_sleeper t bc = endGlobalBackoff (bc\<lparr>sleepers := remove1 t (sleepers bc)\<rparr>)"

definition recordSuccess :: "BackoffController \<Rightarrow> BackoffController" where
  "recordSuccess bc =
     (let bc1 = bc\<lparr>consecutiveFailures := 0, currentDelay := InitialDelay (bcConfig bc)\<rparr> in
      if globalBackoffActive bc1 then bc1\<lparr>globalBackoffActive := False, paused := False\<rparr> else bc1)"

definition HandleError ::
  "(int \<Rightarrow> int) \<Rightarrow> (int \<Rightarrow> int option) \<Rightarrow> int \<Rightarrow> SpawnJob \<Rightarrow> ResourceError option \<Rightarrow> BackoffController
     \<Rightarrow> (bool \<times> int) \<times> BackoffController" where
  "HandleError jitter grow now job resErr bc =
     (case resErr of
        None \<Rightarrow> ((False, 0), recordSuccess bc)
      | Some re \<Rightarrow>
          if \<not> Retryable re then ((False, 0), recordSuccess bc)
          else
            let n = consecutiveFailures bc + 1;
                st = bcStats bc;
                st1 = st\<lparr>TotalRetries := TotalRetries st + 1, LastBackoffReason := reType re,
                         LastBackoffAt := Some now,
                         MaxConsecutive := (if n > MaxConsecutive st then n else MaxConsecutive st)\<rparr>;
                bc1 = bc\<lparr>consecutiveFailures := n, bcStats := st1\<rparr>
            in if RetryCount job \<ge> BackoffMaxRetries (bcConfig bc) then
                 ((False, 0), bc1\<lparr>bcStats := st1\<lparr>TotalExhausted := TotalExhausted st1 + 1\<rparr>\<rparr>)
               else
                 let (delay, bc2) = calculateDelay jitter grow bc1;
                     bc3 = (if n \<ge> ConsecutiveFailuresThreshold (bcConfig bc) then triggerGlobalBackoff now delay bc2 else bc2)
                 in ((True, delay),
                     bc3\<lparr>bcStats := st1\<lparr>TotalBackoffs := TotalBackoffs st1 + 1, TotalBackoffTime := TotalBackoffTime st1 + delay\<rparr>\<rparr>))"

definition IsInGlobalBackoff :: "BackoffController \<Rightarrow> bool" where
  "IsInGlobalBackoff bc = globalBackoffActive bc"

definition RemainingBackoff :: "int \<Rightarrow> BackoffController \<Rightarrow> int" where
  "RemainingBackoff now bc =
     (if \<not> globalBackoffActive bc then 0
      else case globalBackoffUntil bc of None \<Rightarrow> 0 | Some t \<Rightarrow> max 0 (time_sub t now))"

definition backoff_Reset :: "BackoffController \<Rightarrow> BackoffController" where
  "backoff_Reset bc =
     bc\<lparr>consecutiveFailures := 0, currentDelay := InitialDelay (bcConfig bc),
        globalBackoffActive := False, globalBackoffUntil := None\<rparr>"

section \<open>What a classified error carries\<close>

lemma ClassifyError_retryable:
  "ClassifyError lower now err code stderr = Some re \<Longrightarrow>
     Retryable re \<and> ExitCode re = code \<and> err = Some (Original re) \<and> length (StderrHint re) \<le> 203"
  by (auto simp: ClassifyError_def Let_def truncateHint_def split: option.splits if_splits)

text \<open>A known errno decides alone; the text of the error comes before standard error and the exit code.\<close>

lemma ClassifyError_errno:
  "errErrno e = Some n \<Longrightarrow> errno_type n = Some ty \<Longrightarrow>
     map_option reType (ClassifyError lower now (Some e) code stderr) = Some ty"
  by (simp add: ClassifyError_def Let_def)

lemma delay_at_least: "fst (calculateDelay jitter grow bc) \<ge> 100000000"
  by (simp add: calculateDelay_def Let_def)

lemma delay_growth_capped:
  assumes "\<And>d n. grow d = Some n \<Longrightarrow> n \<le> MaxDelay (bcConfig bc)"
  shows "currentDelay (snd (calculateDelay jitter grow bc)) \<le> MaxDelay (bcConfig bc)"
  using assms by (auto simp: calculateDelay_def Let_def split: option.splits)

section \<open>A backoff always ends\<close>

text \<open>While the global backoff is active, a goroutine that will end it is asleep.\<close>

definition backoff_ok :: "BackoffController \<Rightarrow> bool" where
  "backoff_ok bc \<longleftrightarrow> (globalBackoffActive bc \<longrightarrow> sleepers bc \<noteq> [])"

lemma recordSuccess_ok: "backoff_ok (recordSuccess bc)"
  by (simp add: backoff_ok_def recordSuccess_def Let_def)

lemma triggerGlobalBackoff_ok: "backoff_ok bc \<Longrightarrow> backoff_ok (triggerGlobalBackoff now d bc)"
  by (simp add: backoff_ok_def triggerGlobalBackoff_def)

lemma wake_sleeper_ok: "backoff_ok (wake_sleeper t bc)"
  by (simp add: backoff_ok_def wake_sleeper_def endGlobalBackoff_def)

lemma HandleError_ok:
  "backoff_ok bc \<Longrightarrow> backoff_ok (snd (HandleError jitter grow now job re bc))"
  by (auto simp: HandleError_def calculateDelay_def triggerGlobalBackoff_def Let_def recordSuccess_def backoff_ok_def
      split: option.splits)

text \<open>
  An extension of a running backoff moves \<^verbatim>\<open>globalBackoffUntil\<close> only: the goroutine of
  the first trigger still resumes the queue at the original time.
\<close>

lemma extension_not_effective:
  assumes "\<not> globalBackoffActive bc" "PauseQueueOnBackoff (bcConfig bc)" "0 < d" "0 < e" "d < e"
  shows "let bc2 = triggerGlobalBackoff (t + 1) e (triggerGlobalBackoff t d bc) in
     globalBackoffUntil bc2 = Some (t + 1 + e) \<and> t + d \<in> set (sleepers bc2)
     \<and> sleepers bc2 = sleepers (triggerGlobalBackoff t d bc)
     \<and> paused bc2 \<and> \<not> paused (wake_sleeper (t + d) bc2)"
  using assms by (simp add: triggerGlobalBackoff_def wake_sleeper_def endGlobalBackoff_def Let_def)

end
