(* ===== verification/Scheduler.thy ===== *)
theory Scheduler
  imports SchedIndex CapsSafety SchedBackoff
begin

text \<open>
  The spawn scheduler of \<^verbatim>\<open>internal/scheduler/scheduler.go\<close>: the fair queue, the agent
  caps and the backoff controller driven by worker goroutines, retry timers and the
  callers of \<^verbatim>\<open>Submit\<close> and \<^verbatim>\<open>Cancel\<close>. A worker's position in \<^verbatim>\<open>processJobs\<close> is a program
  counter; taking a job, its cap slot, putting it back, searching, starting and
  finishing a job are one step each, and the steps of all goroutines interleave. The
  rate limiters only delay a worker. Hooks, callbacks and logging are left out; the
  executor's result is the argument of the finishing step. Jobs have a context,
  as \<^verbatim>\<open>NewSpawnJob\<close> gives them one.
\<close>

section \<open>State\<close>

record Config =
  ScMaxConcurrent :: nat
  ScAgentCaps :: AgentCapsConfig
  ScFair :: FairSchedulerConfig
  ScBackoff :: BackoffConfig
  MaxCompleted :: nat
  DefaultRetries :: int
  DefaultRetryDelay :: int

definition DefaultConfig :: Config where
  "DefaultConfig =
     \<lparr>ScMaxConcurrent = 4, ScAgentCaps = DefaultAgentCapsConfig, ScFair = DefaultFairSchedulerConfig,
      ScBackoff = DefaultBackoffConfig, MaxCompleted = 100, DefaultRetries = 3,
      DefaultRetryDelay = 1000000000\<rparr>"

text \<open>Where a worker stands in \<^verbatim>\<open>processJobs\<close>; \<open>Ready\<close> holds a cap slot if the job has an agent type.\<close>

datatype worker =
    Idle
  | Taken job_ptr
  | Refused job_ptr
  | Searching
  | Ready job_ptr
  | Executing job_ptr

record Scheduler =
  scConfig :: Config
  jobStore :: store
  fair :: FairScheduler
  agentCaps :: AgentCaps
  backoff :: BackoffController
  executing :: "string \<rightharpoonup> job_ptr"
  completed :: "SpawnJob list"
  workers :: "worker list"
  retryTimers :: "job_ptr list"
  started :: bool
  hasExecutor :: bool
  TotalSubmitted :: int
  TotalCompleted :: int
  TotalFailed :: int
  TotalRetried :: int

definition new_scheduler :: "store \<Rightarrow> Config \<Rightarrow> Scheduler" where
  "new_scheduler st cfg =
     \<lparr>scConfig = cfg, jobStore = st, fair = NewFairScheduler (ScFair cfg),
      agentCaps = NewAgentCaps (ScAgentCaps cfg), backoff = NewBackoffController (ScBackoff cfg),
      executing = Map.empty, completed = [], workers = replicate (ScMaxConcurrent cfg) Idle,
      retryTimers = [], started = False, hasExecutor = False, TotalSubmitted = 0, TotalCompleted = 0, TotalFailed = 0, TotalRetried = 0\<rparr>"

section \<open>Callers\<close>

definition put_job :: "job_ptr \<Rightarrow> SpawnJob \<Rightarrow> Scheduler \<Rightarrow> Scheduler" where
  "put_job p j s = s\<lparr>jobStore := (jobStore s)(p := j)\<rparr>"

definition requeue :: "job_ptr \<Rightarrow> Scheduler \<Rightarrow> Scheduler" where
  "requeue p s = s\<lparr>fair := fair_Enqueue (jobStore s) p (fair s)\<rparr>"

definition prepared :: "Config \<Rightarrow> string \<Rightarrow> int \<Rightarrow> SpawnJob \<Rightarrow> SpawnJob" where
  "prepared cfg fresh now j =
     (let j1 = (if JobID j = '''' then j\<lparr>JobID := fresh\<rparr> else j);
          j2 = (if MaxRetries j1 = 0 then j1\<lparr>MaxRetries := DefaultRetries cfg\<rparr> else j1);
          j3 = (if RetryDelay j2 = 0 then j2\<lparr>RetryDelay := DefaultRetryDelay cfg\<rparr> else j2)
      in SetStatus now StatusPending j3)"

definition SetExecutor :: "Scheduler \<Rightarrow> Scheduler" where
  "SetExecutor s = s\<lparr>hasExecutor := True\<rparr>"

definition Start :: "Scheduler \<Rightarrow> string option \<times> Scheduler" where
  "Start s =
     (if started s then (Some ''scheduler already started'', s)
      else if \<not> hasExecutor s then (Some ''executor not set'', s)
      else (None, s\<lparr>started := True\<rparr>))"

definition Submit :: "string \<Rightarrow> int \<Rightarrow> job_ptr \<Rightarrow> Scheduler \<Rightarrow> string option \<times> Scheduler" where
  "Submit fresh now p s =
     (if \<not> started s then (Some ''scheduler not started'', s)
      else
        let s1 = put_job p (prepared (scConfig s) fresh now (jobStore s p)) s
        in (None, (requeue p s1)\<lparr>TotalSubmitted := TotalSubmitted s + 1\<rparr>))"

definition cancel_job :: "int \<Rightarrow> string \<Rightarrow> Scheduler \<Rightarrow> bool \<times> Scheduler" where
  "cancel_job now i s =
     (case Remove (jobStore s) i (queue (fair s)) of
        (Some p, q) \<Rightarrow>
          (True, put_job p (Cancel now (jobStore s p)) (s\<lparr>fair := (fair s)\<lparr>queue := q\<rparr>\<rparr>))
      | (None, q) \<Rightarrow>
          (case executing s i of
             Some p \<Rightarrow> (True, put_job p (Cancel now (jobStore s p)) s)
           | None \<Rightarrow> (False, s)))"

definition cancel_running :: "int \<Rightarrow> (SpawnJob \<Rightarrow> bool) \<Rightarrow> Scheduler \<Rightarrow> Scheduler" where
  "cancel_running now P s =
     s\<lparr>jobStore := (\<lambda>p. if executing s (JobID (jobStore s p)) = Some p \<and> P (jobStore s p)
                        then Cancel now (jobStore s p) else jobStore s p)\<rparr>"

definition cancel_session_jobs :: "int \<Rightarrow> string \<Rightarrow> Scheduler \<Rightarrow> Scheduler" where
  "cancel_session_jobs now name s =
     (case CancelSession now name (jobStore s) (queue (fair s)) of
        (_, st, q) \<Rightarrow>
          cancel_running now (\<lambda>j. SessionName j = name)
            (s\<lparr>jobStore := st, fair := (fair s)\<lparr>queue := q\<rparr>\<rparr>))"

definition cancel_batch_jobs :: "int \<Rightarrow> string \<Rightarrow> Scheduler \<Rightarrow> Scheduler" where
  "cancel_batch_jobs now b s =
     (case CancelBatch now b (jobStore s) (queue (fair s)) of
        (_, st, q) \<Rightarrow>
          cancel_running now (\<lambda>j. BatchID j = b) (s\<lparr>jobStore := st, fair := (fair s)\<lparr>queue := q\<rparr>\<rparr>))"

text \<open>\<^verbatim>\<open>SubmitBatch\<close> stamps every job with the batch ID and submits it, in order.\<close>

fun submit_all :: "string \<Rightarrow> (job_ptr \<times> string) list \<Rightarrow> int \<Rightarrow> Scheduler \<Rightarrow> string option \<times> Scheduler" where
  "submit_all batch [] now s = (None, s)"
| "submit_all batch ((p, fresh) # ps) now s =
     (case Submit fresh now p (put_job p ((jobStore s p)\<lparr>BatchID := batch\<rparr>) s) of
        (Some e, s1) \<Rightarrow> (Some e, cancel_batch_jobs now batch s1)
      | (None, s1) \<Rightarrow> submit_all batch ps now s1)"

definition SubmitBatch ::
  "string \<Rightarrow> (job_ptr \<times> string) list \<Rightarrow> int \<Rightarrow> Scheduler \<Rightarrow> (string + string) \<times> Scheduler" where
  "SubmitBatch batch ps now s =
     (if ps = [] then (Inr '''', s)
      else case submit_all batch ps now s of
             (Some e, s1) \<Rightarrow> (Inl e, s1)
           | (None, s1) \<Rightarrow> (Inr batch, s1))"

definition Pause :: "Scheduler \<Rightarrow> Scheduler" where
  "Pause s = s\<lparr>backoff := (backoff s)\<lparr>paused := True\<rparr>\<rparr>"

definition Resume :: "Scheduler \<Rightarrow> Scheduler" where
  "Resume s = s\<lparr>backoff := (backoff s)\<lparr>paused := False\<rparr>\<rparr>"

definition GetJob :: "string \<Rightarrow> Scheduler \<Rightarrow> SpawnJob option" where
  "GetJob i s =
     (case Get i (queue (fair s)) of
        Some p \<Rightarrow> Some (Clone (jobStore s p))
      | None \<Rightarrow>
          (case executing s i of
             Some p \<Rightarrow> Some (Clone (jobStore s p))
           | None \<Rightarrow> map_option Clone (find (\<lambda>j. JobID j = i) (completed s))))"

definition GetQueuedJobs :: "Scheduler \<Rightarrow> SpawnJob list" where
  "GetQueuedJobs s = map (\<lambda>p. Clone (jobStore s p)) (ListAll (queue (fair s)))"

definition GetRecentCompleted :: "int \<Rightarrow> Scheduler \<Rightarrow> SpawnJob list" where
  "GetRecentCompleted limit s =
     (let n = (if limit \<le> 0 \<or> limit > int (length (completed s)) then length (completed s) else nat limit)
      in map Clone (take n (rev (completed s))))"

section \<open>Workers\<close>

definition addToCompleted :: "job_ptr \<Rightarrow> Scheduler \<Rightarrow> Scheduler" where
  "addToCompleted p s =
     (let cs = completed s @ [Clone (jobStore s p)]; m = MaxCompleted (scConfig s)
      in s\<lparr>completed := (if length cs > m then drop (length cs - m) cs else cs)\<rparr>)"

text \<open>
  \<^verbatim>\<open>findJobWithAvailableCap\<close> over the listed jobs: the first whose agent type has a slot
  and that is still queued. \<^verbatim>\<open>None\<close> outside is a panic of the caps.
\<close>

fun find_job ::
  "int \<Rightarrow> string list \<Rightarrow> store \<Rightarrow> job_ptr list \<Rightarrow> JobQueue \<Rightarrow> AgentCaps
     \<Rightarrow> (job_ptr option \<times> JobQueue \<times> AgentCaps) option" where
  "find_job now ord st [] q ac = Some (None, q, ac)"
| "find_job now ord st (p # ps) q ac =
     (if AgentType (st p) = '''' then
        (case Remove st (JobID (st p)) q of
           (Some _, q') \<Rightarrow> Some (Some p, q', ac)
         | (None, _) \<Rightarrow> find_job now ord st ps q ac)
      else
        (case TryAcquire now ord (AgentType (st p)) ac of
           None \<Rightarrow> None
         | Some (True, ac1) \<Rightarrow>
             (case Remove st (JobID (st p)) q of
                (Some _, q') \<Rightarrow> Some (Some p, q', ac1)
              | (None, _) \<Rightarrow> find_job now ord st ps q (SchedCaps.Release ord (AgentType (st p)) ac1))
         | Some (False, ac1) \<Rightarrow> find_job now ord st ps q ac1))"

definition release_cap :: "string list \<Rightarrow> job_ptr \<Rightarrow> Scheduler \<Rightarrow> Scheduler" where
  "release_cap ord p s =
     (let a = AgentType (jobStore s p) in
      if a \<noteq> '''' then s\<lparr>agentCaps := SchedCaps.Release ord a (agentCaps s)\<rparr> else s)"

definition start_job :: "int \<Rightarrow> job_ptr \<Rightarrow> Scheduler \<Rightarrow> Scheduler" where
  "start_job now p s =
     (let s1 = put_job p (SetStatus now StatusRunning (jobStore s p)) s
      in s1\<lparr>executing := (executing s)(JobID (jobStore s p) \<mapsto> p)\<rparr>)"

definition stop_job :: "job_ptr \<Rightarrow> Scheduler \<Rightarrow> Scheduler" where
  "stop_job p s =
     s\<lparr>executing := (executing s)(JobID (jobStore s p) := None), fair := MarkComplete (jobStore s) p (fair s)\<rparr>"

definition meta_string :: "string \<Rightarrow> SpawnJob \<Rightarrow> string" where
  "meta_string k j = (case Metadata j k of Some (MetaString v) \<Rightarrow> v | _ \<Rightarrow> '''')"

definition meta_int :: "string \<Rightarrow> SpawnJob \<Rightarrow> int" where
  "meta_int k j = (case Metadata j k of Some (MetaInt v) \<Rightarrow> v | _ \<Rightarrow> 0)"

text \<open>The arguments of the error path: \<^verbatim>\<open>strings.ToLower\<close> and the two delay products.\<close>

record error_env =
  envLower :: "string \<Rightarrow> string"
  envJitter :: "int \<Rightarrow> int"
  envGrow :: "int \<Rightarrow> int option"

definition handleJobError ::
  "error_env \<Rightarrow> int \<Rightarrow> string list \<Rightarrow> job_ptr \<Rightarrow> go_error \<Rightarrow> Scheduler \<Rightarrow> Scheduler" where
  "handleJobError env now ord p err s =
     (let job = jobStore s p;
          resErr = ClassifyError (envLower env) now (Some err) (meta_int ''exit_code'' job) (meta_string ''stderr'' job);
          s1 = (if resErr \<noteq> None \<and> Retryable (the resErr) \<and> AgentType job \<noteq> ''''
                then s\<lparr>agentCaps := RecordFailure now (AgentType job) (agentCaps s)\<rparr> else s);
          ((shouldRetry, delay), bc) = HandleError (envJitter env) (envGrow env) now job resErr (backoff s1);
          s2 = release_cap ord p (s1\<lparr>backoff := bc\<rparr>)
      in if (shouldRetry \<or> resErr = None) \<and> CanRetry job then
           (put_job p (IncrementRetry job) s2)\<lparr>TotalRetried := TotalRetried s2 + 1, retryTimers := p # retryTimers s2\<rparr>
         else
           addToCompleted p
             ((put_job p (SetError (Some (errText err)) (SetStatus now StatusFailed job)) s2)
                \<lparr>TotalFailed := TotalFailed s2 + 1\<rparr>))"

text \<open>\<^verbatim>\<open>executeJob\<close> after the executor returned \<open>res\<close>.\<close>

definition finish_job ::
  "error_env \<Rightarrow> int \<Rightarrow> string list \<Rightarrow> job_ptr \<Rightarrow> go_error option \<Rightarrow> Scheduler \<Rightarrow> Scheduler" where
  "finish_job env now ord p res s =
     (let s1 = stop_job p s; job = jobStore s1 p in
      case res of
        None \<Rightarrow>
          let s2 = (put_job p (SetStatus now StatusCompleted job) s1)
                     \<lparr>TotalCompleted := TotalCompleted s1 + 1, backoff := recordSuccess (backoff s1)\<rparr>;
              s3 = (if AgentType job \<noteq> '''' then s2\<lparr>agentCaps := RecordSuccess now (AgentType job) (agentCaps s2)\<rparr> else s2)
          in addToCompleted p (release_cap ord p s3)
      | Some err \<Rightarrow>
          if IsCancelled job = Some True
          then addToCompleted p (release_cap ord p (put_job p (SetStatus now StatusCancelled job) s1))
          else handleJobError env now ord p err s1)"

definition fire_retry :: "int \<Rightarrow> job_ptr \<Rightarrow> Scheduler \<Rightarrow> Scheduler" where
  "fire_retry now p s =
     requeue p ((put_job p (SetStatus now StatusPending (jobStore s p)) s)\<lparr>retryTimers := remove1 p (retryTimers s)\<rparr>)"

definition set_worker :: "nat \<Rightarrow> worker \<Rightarrow> Scheduler \<Rightarrow> Scheduler" where
  "set_worker w v s = s\<lparr>workers := (workers s)[w := v]\<rparr>"

section \<open>Steps\<close>

text \<open>The steps of worker \<open>w\<close>.\<close>

inductive worker_step :: "nat \<Rightarrow> Scheduler \<Rightarrow> Scheduler \<Rightarrow> bool" for w where
  dequeue: "workers s ! w = Idle \<Longrightarrow> \<not> paused (backoff s) \<Longrightarrow>
     TryDequeue (jobStore s) (fair s) = (Some p, f) \<Longrightarrow>
     worker_step w s (set_worker w (Taken p) (s\<lparr>fair := f\<rparr>))"
| no_agent: "workers s ! w = Taken p \<Longrightarrow> AgentType (jobStore s p) = '''' \<Longrightarrow>
     worker_step w s (set_worker w (Ready p) s)"
| acquired: "workers s ! w = Taken p \<Longrightarrow> AgentType (jobStore s p) \<noteq> '''' \<Longrightarrow>
     TryAcquire now ord (AgentType (jobStore s p)) (agentCaps s) = Some (True, ac) \<Longrightarrow>
     worker_step w s (set_worker w (Ready p) (s\<lparr>agentCaps := ac\<rparr>))"
| refused: "workers s ! w = Taken p \<Longrightarrow> AgentType (jobStore s p) \<noteq> '''' \<Longrightarrow>
     TryAcquire now ord (AgentType (jobStore s p)) (agentCaps s) = Some (False, ac) \<Longrightarrow>
     worker_step w s (set_worker w (Refused p) (s\<lparr>agentCaps := ac\<rparr>))"
| put_back: "workers s ! w = Refused p \<Longrightarrow> worker_step w s (set_worker w Searching (requeue p s))"
| search: "workers s ! w = Searching \<Longrightarrow>
     find_job now ord (jobStore s) (ListAll (queue (fair s))) (queue (fair s)) (agentCaps s) = Some (r, q, ac) \<Longrightarrow>
     worker_step w s
       (set_worker w (case r of None \<Rightarrow> Idle | Some p \<Rightarrow> Ready p)
          (s\<lparr>fair := (fair s)\<lparr>queue := q\<rparr>, agentCaps := ac\<rparr>))"
| start: "workers s ! w = Ready p \<Longrightarrow> worker_step w s (set_worker w (Executing p) (start_job now p s))"
| limiter_error: "workers s ! w = Ready p \<Longrightarrow>
     worker_step w s (set_worker w Idle (requeue p (release_cap ord p s)))"
| finish: "workers s ! w = Executing p \<Longrightarrow>
     worker_step w s (set_worker w Idle (finish_job env now ord p res s))"

text \<open>The jobs the scheduler is responsible for: queued, held by a worker, or waiting to be retried.\<close>

fun held_by :: "worker \<Rightarrow> job_ptr list" where
  "held_by (Taken p) = [p]"
| "held_by (Refused p) = [p]"
| "held_by (Ready p) = [p]"
| "held_by (Executing p) = [p]"
| "held_by _ = []"

definition live :: "Scheduler \<Rightarrow> job_ptr list" where
  "live s = jobs (queue (fair s)) @ concat (map held_by (workers s)) @ retryTimers s"

definition live_ids :: "Scheduler \<Rightarrow> string list" where
  "live_ids s = map (\<lambda>p. JobID (jobStore s p)) (live s)"

text \<open>
  The callers, the retry timers, the backoff and the cap goroutines. A caller
  submits a job the scheduler does not hold, under an ID of its own; \<^verbatim>\<open>Submit\<close> never leaves
  the ID empty, as \<^verbatim>\<open>generateJobID\<close> returns hexadecimal digits. \<^verbatim>\<open>SubmitBatch\<close> is the
  stamps and submissions of its jobs and, on an error, a batch cancellation. \<^verbatim>\<open>CancelSession\<close>
  and \<^verbatim>\<open>CancelBatch\<close> cancel in the queue and then among the executing jobs, in two steps.
\<close>

inductive sched_step :: "Scheduler \<Rightarrow> Scheduler \<Rightarrow> bool" where
  worker: "w < length (workers s) \<Longrightarrow> worker_step w s s' \<Longrightarrow> sched_step s s'"
| submit: "Submit fresh now p s = (None, s') \<Longrightarrow> p \<notin> set (live s) \<Longrightarrow>
     JobID (jobStore s' p) \<notin> insert '''' (set (live_ids s)) \<Longrightarrow> sched_step s s'"
| cancel: "cancel_job now i s = (r, s') \<Longrightarrow> sched_step s s'"
| stamp: "p \<notin> set (live s) \<Longrightarrow> sched_step s (put_job p ((jobStore s p)\<lparr>BatchID := b\<rparr>) s)"
| cancel_session: "CancelSession now name (jobStore s) (queue (fair s)) = (ps, st, q) \<Longrightarrow>
     sched_step s (s\<lparr>jobStore := st, fair := (fair s)\<lparr>queue := q\<rparr>\<rparr>)"
| cancel_batch: "CancelBatch now b (jobStore s) (queue (fair s)) = (ps, st, q) \<Longrightarrow>
     sched_step s (s\<lparr>jobStore := st, fair := (fair s)\<lparr>queue := q\<rparr>\<rparr>)"
| cancel_executing: "sched_step s (cancel_running now P s)"
| timer: "p \<in> set (retryTimers s) \<Longrightarrow> sched_step s (fire_retry now p s)"
| wake: "t \<in> set (sleepers (backoff s)) \<Longrightarrow> sched_step s (s\<lparr>backoff := wake_sleeper t (backoff s)\<rparr>)"
| recover: "recoverFromCooldown now ord a (agentCaps s) = Some ac \<Longrightarrow> sched_step s (s\<lparr>agentCaps := ac\<rparr>)"
| pause: "sched_step s (Pause s)"
| resume: "sched_step s (Resume s)"

text \<open>The group cancellations and the batch submission are sequences of these steps.\<close>

lemma cancel_session_steps: "sched_step\<^sup>*\<^sup>* s (cancel_session_jobs now name s)"
proof -
  obtain ps st q where c: "CancelSession now name (jobStore s) (queue (fair s)) = (ps, st, q)" by (metis prod_cases3)
  have e: "cancel_session_jobs now name s =
      cancel_running now (\<lambda>j. SessionName j = name) (s\<lparr>jobStore := st, fair := (fair s)\<lparr>queue := q\<rparr>\<rparr>)"
    by (simp add: cancel_session_jobs_def c)
  show ?thesis
    unfolding e
    by (intro converse_rtranclp_into_rtranclp [where r = sched_step, OF sched_step.cancel_session [OF c]]
      r_into_rtranclp [where r = sched_step] sched_step.cancel_executing)
qed

lemma cancel_batch_steps: "sched_step\<^sup>*\<^sup>* s (cancel_batch_jobs now b s)"
proof -
  obtain ps st q where c: "CancelBatch now b (jobStore s) (queue (fair s)) = (ps, st, q)" by (metis prod_cases3)
  have e: "cancel_batch_jobs now b s =
      cancel_running now (\<lambda>j. BatchID j = b) (s\<lparr>jobStore := st, fair := (fair s)\<lparr>queue := q\<rparr>\<rparr>)"
    by (simp add: cancel_batch_jobs_def c)
  show ?thesis
    unfolding e
    by (intro converse_rtranclp_into_rtranclp [where r = sched_step, OF sched_step.cancel_batch [OF c]]
      r_into_rtranclp [where r = sched_step] sched_step.cancel_executing)
qed

text \<open>The jobs of a batch are new to the scheduler, under IDs of their own, when their turn comes.\<close>

fun batch_new :: "string \<Rightarrow> (job_ptr \<times> string) list \<Rightarrow> int \<Rightarrow> Scheduler \<Rightarrow> bool" where
  "batch_new batch [] now s = True"
| "batch_new batch ((p, fresh) # ps) now s \<longleftrightarrow>
     (let s0 = put_job p ((jobStore s p)\<lparr>BatchID := batch\<rparr>) s; s1 = snd (Submit fresh now p s0)
      in p \<notin> set (live s) \<and> JobID (jobStore s1 p) \<notin> insert '''' (set (live_ids s0)) \<and> batch_new batch ps now s1)"

lemma submit_all_steps:
  "batch_new batch ps now s \<Longrightarrow> sched_step\<^sup>*\<^sup>* s (snd (submit_all batch ps now s))"
proof (induction batch ps now s rule: submit_all.induct)
  case (2 batch p fresh ps now s)
  let ?s0 = "put_job p ((jobStore s p)\<lparr>BatchID := batch\<rparr>) s"
  obtain e s1 where sub: "Submit fresh now p ?s0 = (e, s1)" by fastforce
  have new: "p \<notin> set (live s)" using 2(2) by (simp add: Let_def)
  have s0: "sched_step s ?s0" by (rule sched_step.stamp [OF new])
  show ?case
  proof (cases e)
    case None
    have "p \<notin> set (live ?s0)" using new by (simp add: live_def put_job_def)
    moreover have "JobID (jobStore s1 p) \<notin> insert '''' (set (live_ids ?s0))" "batch_new batch ps now s1"
      using 2(2) sub by (simp_all add: Let_def)
    ultimately have "sched_step ?s0 s1" "sched_step\<^sup>*\<^sup>* s1 (snd (submit_all batch ps now s1))"
      using sched_step.submit [of fresh now p ?s0 s1] sub None 2(1) [OF sub [symmetric] None] by simp_all
    then show ?thesis using s0 sub None by (simp add: converse_rtranclp_into_rtranclp)
  next
    case (Some err)
    then have "s1 = ?s0" using sub by (auto simp: Submit_def split: if_splits)
    then show ?thesis using s0 sub Some cancel_batch_steps by (simp add: converse_rtranclp_into_rtranclp)
  qed
qed simp

lemma SubmitBatch_steps:
  "batch_new batch ps now s \<Longrightarrow> sched_step\<^sup>*\<^sup>* s (snd (SubmitBatch batch ps now s))"
  using submit_all_steps [of batch ps now s]
  by (auto simp: SubmitBatch_def split: prod.splits option.splits)

end
