(* ===== verification/SchedSafety.thy ===== *)
theory SchedSafety
  imports Scheduler
begin

text \<open>
  Safety of the running scheduler: every job it is responsible for is in one
  place, cap slots are held by exactly the workers that run a job of the agent
  type, and a job leaves only finished or cancelled.
\<close>

section \<open>Cap slots\<close>

lemma TryAcquire_slots:
  assumes ok: "caps_ok cfg ac" and cfg: "configs_ok cfg" and t: "TryAcquire now ord a ac = Some (b, ac')"
  shows "caps_ok cfg ac'" "slots ac' x = slots ac x + (if b \<and> x = a then 1 else 0)"
proof -
  from caps_run_ok [OF cfg ok, of "OpTry now ord a"] t show "caps_ok cfg ac'" by simp
  obtain s ac0 where g: "getCapState a ac = (s, ac0)" by fastforce
  note g' = getCapState_ok [OF ok cfg g]
  obtain s' ac1 where u: "updateRampUp now ord a s ac0 = Some (s', ac1)" "slots ac1 = slots ac0"
    using updateRampUp_ok [OF g'(1,2,3)] by blast
  have "slots (take_slot now a s' ac1) x = slots ac1 x + (if x = a then 1 else 0)"
    by (simp add: take_slot_def Let_def)
  with t g u g'(4) show "slots ac' x = slots ac x + (if b \<and> x = a then 1 else 0)"
    by (auto simp: TryAcquire_def split: if_splits)
qed

lemma Release_slots:
  assumes ok: "caps_ok cfg ac"
  shows "caps_ok cfg (SchedCaps.Release ord a ac)"
    "slots (SchedCaps.Release ord a ac) x = slots ac x - (if x = a \<and> slots ac a > 0 then 1 else 0)"
proof -
  show "caps_ok cfg (SchedCaps.Release ord a ac)" by (rule Release_ok [OF ok])
  have idle: "\<forall>b. queue_of ((set_slots a (slots ac a - 1) ac)\<lparr>TotalRunning := TotalRunning ac - 1\<rparr>) b = []"
    using ok by (simp add: caps_ok_def)
  show "slots (SchedCaps.Release ord a ac) x = slots ac x - (if x = a \<and> slots ac a > 0 then 1 else 0)"
    using notifyWaiter_idle [OF idle] notifyWaiter_idle [OF caps_ok_idle [OF ok]] by (simp add: SchedCaps.Release_def)
qed

lemma getCapState_slots: "slots (snd (getCapState a ac)) x = slots ac x"
  by (simp add: getCapState_def Let_def split: option.splits)

lemma RecordFailure_slots:
  "caps_ok cfg ac \<Longrightarrow> configs_ok cfg \<Longrightarrow>
     caps_ok cfg (RecordFailure now a ac) \<and> slots (RecordFailure now a ac) x = slots ac x"
  using caps_run_ok [of cfg ac "OpFailure now a"] getCapState_slots [of a ac x]
  by (cases "getCapState a ac") (auto simp: RecordFailure_def Let_def)

lemma RecordSuccess_slots:
  "caps_ok cfg ac \<Longrightarrow> configs_ok cfg \<Longrightarrow>
     caps_ok cfg (RecordSuccess now a ac) \<and> slots (RecordSuccess now a ac) x = slots ac x"
  using caps_run_ok [of cfg ac "OpSuccess now a"] getCapState_slots [of a ac x]
  by (cases "getCapState a ac") (auto simp: RecordSuccess_def Let_def)

lemma recover_slots:
  assumes ok: "caps_ok cfg ac" and cfg: "configs_ok cfg" and r: "recoverFromCooldown now ord a ac = Some ac'"
  shows "caps_ok cfg ac' \<and> slots ac' x = slots ac x"
proof -
  have ok': "caps_ok cfg ac'" using caps_run_ok [OF cfg ok, of "OpRecover now ord a"] r by simp
  have "slots ac' x = slots ac x"
  proof (cases "map_of (caps ac) a")
    case (Some s)
    then have st: "state_ok s" and sl: "slots ac a \<le> max 0 (MaxConcurrent (cap_config s))"
      using ok by (auto simp: caps_ok_def cap_limit_def dest!: spec [of _ a])
    let ?s = "s\<lparr>inCooldown := False\<rparr>"
    have st1: "state_ok ?s" using st by (simp add: state_ok_def)
    have ok1: "caps_ok cfg (set_cap a ?s ac)" by (rule caps_ok_set_cap [OF ok st1]) (use sl in simp)
    have m: "map_of (caps (set_cap a ?s ac)) a = Some ?s" by (simp add: set_cap_def)
    obtain s' ac1 where u: "updateRampUp now ord a ?s (set_cap a ?s ac) = Some (s', ac1)"
      "caps_ok cfg ac1" "slots ac1 = slots (set_cap a ?s ac)"
      using updateRampUp_ok [OF ok1 st1 m] by blast
    have ok2: "caps_ok cfg (set_cap a (?s\<lparr>currentCap := MaxConcurrent (cap_config ?s)\<rparr>) ac)"
      by (rule caps_ok_set_cap [OF ok]) (use st sl in \<open>simp_all add: state_ok_def\<close>)
    from r Some u notifyWaiter_idle [OF caps_ok_idle [OF u(2)]] notifyWaiter_idle [OF caps_ok_idle [OF ok2]]
    show ?thesis by (auto simp: recoverFromCooldown_def Let_def split: if_splits)
  qed (use r in \<open>simp add: recoverFromCooldown_def\<close>)
  with ok' show ?thesis by simp
qed

section \<open>Searching for a job with a free slot\<close>

definition agent_of :: "store \<Rightarrow> job_ptr \<Rightarrow> string" where
  "agent_of st p = AgentType (st p)"

lemma find_job_result:
  assumes "index_ok st q" "caps_ok cfg ac" "configs_ok cfg" "set ps \<subseteq> set (jobs q)"
    and "find_job now ord st ps q ac = Some (r, q', ac')"
  shows "caps_ok cfg ac' \<and> index_ok st q' \<and>
    (case r of
       None \<Rightarrow> q' = q \<and> (\<forall>x. x \<noteq> '''' \<longrightarrow> slots ac' x = slots ac x)
     | Some p \<Rightarrow> p \<in> set (jobs q) \<and> byID q (JobID (st p)) = Some p \<and> byID q' = (byID q)(JobID (st p) := None) \<and>
         mset (jobs q) = add_mset p (mset (jobs q')) \<and>
         (\<forall>x. x \<noteq> '''' \<longrightarrow> slots ac' x = slots ac x + (if x = AgentType (st p) then 1 else 0)))"
  using assms
proof (induction ps arbitrary: ac)
  case Nil
  then show ?case by simp
next
  case (Cons p ps)
  then have pin: "p \<in> set (jobs q)" and rest: "set ps \<subseteq> set (jobs q)" by simp_all
  obtain x q1 where rem: "Remove st (JobID (st p)) q = (x, q1)" by fastforce
  have px: "x = None \<or> x = Some p" using rem Remove_index(4) [OF Cons.prems(1) _ pin refl] by (cases x) auto
  have got: "index_ok st q1 \<and> byID q (JobID (st p)) = Some p \<and> byID q1 = (byID q)(JobID (st p) := None) \<and>
      mset (jobs q) = add_mset p (mset (jobs q1))" if "x = Some p"
    using Remove_index(1-4) [OF Cons.prems(1) rem [unfolded that]] pin by simp
  show ?case
  proof (cases "AgentType (st p) = ''''")
    case True
    show ?thesis
    proof (cases x)
      case None
      with Cons.prems(5) True rem have "find_job now ord st ps q ac = Some (r, q', ac')" by simp
      from Cons.IH [OF Cons.prems(1-3) rest this] show ?thesis .
    next
      case (Some y)
      with px True Cons.prems(2,5) rem got pin show ?thesis by auto
    qed
  next
    case False
    then obtain t ac1 where ta: "TryAcquire now ord (AgentType (st p)) ac = Some (t, ac1)"
      using Cons.prems(5) by (auto split: option.splits)
    note t = TryAcquire_slots [OF Cons.prems(2,3) ta]
    show ?thesis
    proof (cases t)
      case True
      show ?thesis
      proof (cases x)
        case None
        let ?ac = "SchedCaps.Release ord (AgentType (st p)) ac1"
        have f: "find_job now ord st ps q ?ac = Some (r, q', ac')" using Cons.prems(5) False ta True rem None by simp
        note rl = Release_slots [OF t(1), of ord "AgentType (st p)"]
        have nn: "0 \<le> slots ac (AgentType (st p))" using Cons.prems(2) by (simp add: caps_ok_def)
        have "slots ?ac y = slots ac y" for y using rl(2) [of y] t(2) True nn by auto
        with Cons.IH [OF Cons.prems(1) rl(1) Cons.prems(3) rest f] show ?thesis by (cases r) auto
      next
        case (Some y)
        with px Cons.prems(5) False ta True rem got t pin show ?thesis by auto
      qed
    next
      case f: False
      with Cons.prems(5) False ta have "find_job now ord st ps q ac1 = Some (r, q', ac')" by simp
      from Cons.IH [OF Cons.prems(1) t(1) Cons.prems(3) rest this] t(2) f
      show ?thesis by (cases r) auto
    qed
  qed
qed

section \<open>The invariant\<close>

fun slot_of :: "worker \<Rightarrow> job_ptr list" where
  "slot_of (Ready p) = [p]"
| "slot_of (Executing p) = [p]"
| "slot_of _ = []"

definition holders :: "string \<Rightarrow> Scheduler \<Rightarrow> job_ptr list" where
  "holders a s = filter (\<lambda>p. AgentType (jobStore s p) = a) (concat (map slot_of (workers s)))"

text \<open>The jobs outside the queue. The index knows none of them.\<close>

definition away :: "Scheduler \<Rightarrow> job_ptr list" where
  "away s = concat (map held_by (workers s)) @ retryTimers s"

lemma live_away: "live s = jobs (queue (fair s)) @ away s"
  by (simp add: live_def away_def)

definition sched_ok :: "Config \<Rightarrow> Scheduler \<Rightarrow> bool" where
  "sched_ok cfg s \<longleftrightarrow>
     scConfig s = cfg \<and> index_ok (jobStore s) (queue (fair s)) \<and> distinct (live_ids s) \<and>
     (\<forall>p \<in> set (away s). byID (queue (fair s)) (JobID (jobStore s p)) = None) \<and>
     caps_ok (ScAgentCaps cfg) (agentCaps s) \<and>
     (\<forall>a. a \<noteq> '''' \<longrightarrow> slots (agentCaps s) a = int (length (holders a s))) \<and>
     (\<forall>i p. executing s i = Some p \<longleftrightarrow> Executing p \<in> set (workers s) \<and> JobID (jobStore s p) = i) \<and>
     backoff_ok (backoff s)"

inductive sched_reachable :: "store \<Rightarrow> Config \<Rightarrow> Scheduler \<Rightarrow> bool" for st cfg where
  init: "sched_reachable st cfg (snd (Start (SetExecutor (new_scheduler st cfg))))"
| step: "sched_reachable st cfg s \<Longrightarrow> sched_step s s' \<Longrightarrow> sched_reachable st cfg s'"


section \<open>Moving jobs between places\<close>

lemma concat_upd:
  "w < length ws \<Longrightarrow>
     mset (concat (map f (ws[w := v]))) + mset (f (ws ! w)) = mset (concat (map f ws)) + mset (f v)"
proof -
  assume w: "w < length ws"
  have e1: "concat (map f ws) = concat (map f (take w ws)) @ f (ws ! w) @ concat (map f (drop (Suc w) ws))"
    by (subst id_take_nth_drop [OF w]) simp
  have e2: "concat (map f (ws[w := v])) = concat (map f (take w ws)) @ f v @ concat (map f (drop (Suc w) ws))"
    by (subst upd_conv_take_nth_drop [OF w]) simp
  show ?thesis unfolding e1 e2 by simp
qed

lemma concat_worker:
  assumes "w < length (workers s)" "workers s ! w = v"
  shows "mset (concat (map f (workers (set_worker w v' s)))) + mset (f v) = mset (concat (map f (workers s))) + mset (f v')"
  using concat_upd [OF assms(1), of f v'] assms(2) by (simp add: set_worker_def)

lemma worker_job_live:
  assumes "w < length (workers s)" "p \<in> set (held_by (workers s ! w))"
  shows "p \<in> set (concat (map held_by (workers s)))" "p \<in> set (live s)"
proof -
  have "workers s ! w \<in> set (workers s)" using assms(1) by simp
  with assms(2) show "p \<in> set (concat (map held_by (workers s)))" by auto
  then show "p \<in> set (live s)" by (simp add: live_def)
qed

text \<open>Jobs outside the queue have IDs of their own.\<close>

lemma away_queued:
  assumes d: "distinct (live_ids s)" and p: "p \<in> set (away s)" and x: "x \<in> set (jobs (queue (fair s)))"
  shows "JobID (jobStore s x) \<noteq> JobID (jobStore s p)"
proof
  assume eq: "JobID (jobStore s x) = JobID (jobStore s p)"
  let ?f = "\<lambda>p. JobID (jobStore s p)"
  have "?f ` set (jobs (queue (fair s))) \<inter> ?f ` set (away s) = {}"
    using d by (simp add: live_ids_def live_away)
  moreover have "?f p \<in> ?f ` set (away s)" using p by simp
  moreover have "?f p \<in> ?f ` set (jobs (queue (fair s)))" using x eq by (metis imageI)
  ultimately show False by blast
qed

text \<open>Distinct IDs are kept when jobs keep their tags and none appears.\<close>

lemma ids_kept:
  assumes d: "distinct (live_ids s)" and t: "\<And>x. tag (jobStore s' x) = tag (jobStore s x)"
    and m: "mset (live s') \<subseteq># mset (live s)"
  shows "distinct (live_ids s')"
proof -
  have "image_mset (\<lambda>p. JobID (jobStore s p)) (mset (live s')) \<subseteq># image_mset (\<lambda>p. JobID (jobStore s p)) (mset (live s))"
    using m by (rule image_mset_subseteq_mono)
  then have "mset (live_ids s') \<subseteq># mset (live_ids s)" by (simp add: live_ids_def tag_fields(1) [OF t] mset_map)
  then obtain K where K: "mset (live_ids s) = mset (live_ids s') + K" by (auto simp: mset_subset_eq_exists_conv)
  obtain ks where "mset ks = K" using ex_mset by blast
  with K have "mset (live_ids s) = mset (live_ids s' @ ks)" by simp
  with d have "distinct (live_ids s' @ ks)" by (metis mset_eq_imp_distinct_iff)
  then show ?thesis by simp
qed


text \<open>What one step may do to a well-formed scheduler.\<close>

lemma sched_ok_move:
  assumes ok: "sched_ok cfg s"
    and conf: "scConfig s' = scConfig s" and tags: "\<And>x. tag (jobStore s' x) = tag (jobStore s x)"
    and q: "index_ok (jobStore s') (queue (fair s'))"
    and aw: "\<And>p. p \<in> set (away s') \<Longrightarrow> byID (queue (fair s')) (JobID (jobStore s' p)) = None"
    and m: "mset (live s') \<subseteq># mset (live s)"
    and caps: "caps_ok (ScAgentCaps cfg) (agentCaps s')"
    and slots: "\<And>a. a \<noteq> '''' \<Longrightarrow> slots (agentCaps s') a = int (length (holders a s'))"
    and ex: "\<And>i p. executing s' i = Some p \<longleftrightarrow> Executing p \<in> set (workers s') \<and> JobID (jobStore s' p) = i"
    and bo: "backoff_ok (backoff s')"
  shows "sched_ok cfg s'"
  using ok conf q aw ids_kept [OF _ tags m] caps slots ex bo by (simp add: sched_ok_def)

text \<open>Holders of slots after a worker moves; \<open>d\<close> is the change for each agent type.\<close>

lemma holders_set_worker:
  assumes "w < length (workers s)" "workers s ! w = v" "workers s' = workers s"
    "\<And>x. tag (jobStore s' x) = tag (jobStore s x)"
  shows "length (holders a (set_worker w v' s')) + length (filter (\<lambda>p. AgentType (jobStore s p) = a) (slot_of v))
       = length (holders a s) + length (filter (\<lambda>p. AgentType (jobStore s p) = a) (slot_of v'))"
proof -
  have ag: "AgentType (jobStore s' p) = AgentType (jobStore s p)" for p by (rule tag_fields(6) [OF assms(4)])
  have "mset (concat (map slot_of ((workers s)[w := v']))) + mset (slot_of v)
      = mset (concat (map slot_of (workers s))) + mset (slot_of v')"
    using concat_upd [OF assms(1), of slot_of v'] assms(2) by simp
  then have "size (filter_mset (\<lambda>p. AgentType (jobStore s p) = a) (mset (concat (map slot_of ((workers s)[w := v']))) + mset (slot_of v)))
      = size (filter_mset (\<lambda>p. AgentType (jobStore s p) = a) (mset (concat (map slot_of (workers s))) + mset (slot_of v')))"
    by simp
  then show ?thesis
    unfolding holders_def filter_union_mset size_union mset_filter [symmetric] size_mset
    by (simp add: set_worker_def assms(3) ag)
qed

lemma executing_set_worker:
  assumes d: "distinct (live_ids s)" and w: "w < length (workers s)" and old: "workers s ! w = v"
    and nv: "\<And>x. v \<noteq> Executing x"
  shows "Executing p \<in> set ((workers s)[w := v']) \<longleftrightarrow> Executing p \<in> set (workers s) \<or> v' = Executing p"
proof
  assume "Executing p \<in> set ((workers s)[w := v'])"
  then show "Executing p \<in> set (workers s) \<or> v' = Executing p" using set_update_subset_insert by fastforce
next
  assume "Executing p \<in> set (workers s) \<or> v' = Executing p"
  then show "Executing p \<in> set ((workers s)[w := v'])"
  proof
    assume "Executing p \<in> set (workers s)"
    then obtain i where i: "i < length (workers s)" "workers s ! i = Executing p" by (auto simp: in_set_conv_nth)
    with nv old have "i \<noteq> w" by auto
    with i show ?thesis by (metis length_list_update nth_list_update_neq nth_mem)
  qed (simp add: set_update_memI w)
qed

text \<open>Two workers never hold jobs of one ID.\<close>

lemma workers_disjoint:
  assumes d: "distinct (live_ids s)" and w: "w < length (workers s)" "i < length (workers s)" "i \<noteq> w"
    and p: "p \<in> set (held_by (workers s ! w))" "x \<in> set (held_by (workers s ! i))"
  shows "JobID (jobStore s x) \<noteq> JobID (jobStore s p)"
proof
  assume eq: "JobID (jobStore s x) = JobID (jobStore s p)"
  let ?f = "\<lambda>v. map (\<lambda>p. JobID (jobStore s p)) (held_by v)"
  have "distinct (concat (map ?f (workers s)))"
    using d by (simp add: live_ids_def live_def map_concat o_def)
  moreover have "mset (concat (map ?f (workers s))) = mset (concat (map ?f ((workers s)[w := Idle]))) + mset (?f (workers s ! w))"
    using concat_upd [OF w(1), of ?f Idle] by simp
  moreover have "JobID (jobStore s p) \<in># mset (concat (map ?f ((workers s)[w := Idle])))"
  proof -
    have "((workers s)[w := Idle]) ! i = workers s ! i" using w(3) by simp
    then have "workers s ! i \<in> set ((workers s)[w := Idle])" using w(2) by (metis length_list_update nth_mem)
    moreover have "JobID (jobStore s p) \<in> set (?f (workers s ! i))"
      unfolding set_map eq [symmetric] using p(2) by (rule imageI)
    ultimately show ?thesis by auto
  qed
  moreover have "JobID (jobStore s p) \<in># mset (?f (workers s ! w))" using p(1) by force
  ultimately have "distinct (concat (map ?f ((workers s)[w := Idle])) @ ?f (workers s ! w))"
    by (metis mset_append mset_eq_imp_distinct_iff)
  with \<open>JobID (jobStore s p) \<in># mset (concat (map ?f ((workers s)[w := Idle])))\<close>
    \<open>JobID (jobStore s p) \<in># mset (?f (workers s ! w))\<close> show False by (auto simp: disjoint_iff)
qed


lemma timer_disjoint:
  assumes d: "distinct (live_ids s)" and w: "w < length (workers s)"
    and p: "p \<in> set (held_by (workers s ! w))" "x \<in> set (retryTimers s)"
  shows "JobID (jobStore s x) \<noteq> JobID (jobStore s p)"
proof
  assume eq: "JobID (jobStore s x) = JobID (jobStore s p)"
  let ?f = "\<lambda>p. JobID (jobStore s p)"
  have "?f ` set (concat (map held_by (workers s))) \<inter> ?f ` set (retryTimers s) = {}"
    using d by (simp add: live_ids_def live_def Int_commute)
  moreover have "?f p \<in> ?f ` set (concat (map held_by (workers s)))"
    using worker_job_live(1) [OF w p(1)] by (rule imageI)
  moreover have "?f p \<in> ?f ` set (retryTimers s)" using p(2) eq by (metis imageI)
  ultimately show False by blast
qed

text \<open>What another worker or a timer holds when worker \<open>w\<close> moves.\<close>

lemma away_set_worker:
  assumes d: "distinct (live_ids s)" and w: "w < length (workers s)" and old: "workers s ! w = v"
    and same: "workers s' = workers s" "retryTimers s' = retryTimers s"
    and x: "x \<in> set (away (set_worker w v' s'))"
  shows "x \<in> set (held_by v') \<or>
    x \<in> set (away s) \<and> (\<forall>p \<in> set (held_by v). JobID (jobStore s x) \<noteq> JobID (jobStore s p))"
proof -
  from x same have "(\<exists>u \<in> set ((workers s)[w := v']). x \<in> set (held_by u)) \<or> x \<in> set (retryTimers s)"
    by (auto simp: away_def set_worker_def)
  then consider k where "k < length (workers s)" "x \<in> set (held_by (((workers s)[w := v']) ! k))"
    | "x \<in> set (retryTimers s)"
    by (metis in_set_conv_nth length_list_update)
  then show ?thesis
  proof cases
    case 1
    show ?thesis
    proof (cases "k = w")
      case False
      then have xk: "x \<in> set (held_by (workers s ! k))" using 1(2) by simp
      then have "x \<in> set (away s)" using worker_job_live(1) [OF 1(1)] by (simp add: away_def)
      moreover have "\<forall>p \<in> set (held_by v). JobID (jobStore s x) \<noteq> JobID (jobStore s p)"
        using workers_disjoint [OF d w 1(1) False] xk old by blast
      ultimately show ?thesis by blast
    qed (use 1 w in simp)
  next
    case 2
    then have "\<forall>p \<in> set (held_by v). JobID (jobStore s x) \<noteq> JobID (jobStore s p)"
      using timer_disjoint [OF d w] old by blast
    with 2 show ?thesis by (simp add: away_def)
  qed
qed

lemma live_worker:
  assumes "w < length (workers s)" "workers s ! w = v" "workers s' = workers s"
  shows "mset (live (set_worker w v' s')) + mset (held_by v)
       = mset (jobs (queue (fair s'))) + mset (concat (map held_by (workers s))) + mset (retryTimers s') + mset (held_by v')"
  using concat_upd [OF assms(1), of held_by v'] assms(2,3) by (simp add: live_def set_worker_def)

lemma live_mset: "mset (live s) = mset (jobs (queue (fair s))) + mset (concat (map held_by (workers s))) + mset (retryTimers s)"
  by (simp add: live_def)

lemma set_worker_simps [simp]:
  "scConfig (set_worker w v s) = scConfig s" "jobStore (set_worker w v s) = jobStore s"
  "fair (set_worker w v s) = fair s" "agentCaps (set_worker w v s) = agentCaps s"
  "backoff (set_worker w v s) = backoff s" "executing (set_worker w v s) = executing s"
  "workers (set_worker w v s) = (workers s)[w := v]" "retryTimers (set_worker w v s) = retryTimers s"
  "completed (set_worker w v s) = completed s"
  by (simp_all add: set_worker_def)

text \<open>A worker step that leaves the store, the executing jobs and the backoff alone.\<close>

lemma quiet_step:
  assumes ok: "sched_ok cfg s" and w: "w < length (workers s)" and old: "workers s ! w = v"
    and nv: "\<And>x. v \<noteq> Executing x" "\<And>x. v' \<noteq> Executing x"
    and same: "scConfig s' = scConfig s" "jobStore s' = jobStore s" "executing s' = executing s"
      "backoff s' = backoff s" "workers s' = workers s" "retryTimers s' = retryTimers s"
    and q: "index_ok (jobStore s) (queue (fair s'))"
    and hq: "\<And>i. byID (queue (fair s')) i \<noteq> None \<Longrightarrow> i \<notin> set (map (\<lambda>p. JobID (jobStore s p)) (held_by v')) \<and>
        (byID (queue (fair s)) i \<noteq> None \<or> i \<in> set (map (\<lambda>p. JobID (jobStore s p)) (held_by v)))"
    and m: "mset (jobs (queue (fair s'))) + mset (held_by v') = mset (jobs (queue (fair s))) + mset (held_by v)"
    and caps: "caps_ok (ScAgentCaps cfg) (agentCaps s')"
    and slots: "\<And>a. a \<noteq> '''' \<Longrightarrow> slots (agentCaps s') a + int (length (filter (\<lambda>p. AgentType (jobStore s p) = a) (slot_of v)))
        = slots (agentCaps s) a + int (length (filter (\<lambda>p. AgentType (jobStore s p) = a) (slot_of v')))"
  shows "sched_ok cfg (set_worker w v' s')" "mset (live (set_worker w v' s')) = mset (live s)"
proof -
  have d: "distinct (live_ids s)" using ok by (simp add: sched_ok_def)
  have "mset (live (set_worker w v' s')) + mset (held_by v) = mset (live s) + mset (held_by v)"
    unfolding live_worker [OF w old same(5)] live_mset [of s] same(6) using m by (simp add: ac_simps)
  then show lm: "mset (live (set_worker w v' s')) = mset (live s)" by simp
  show "sched_ok cfg (set_worker w v' s')"
  proof (rule sched_ok_move [OF ok])
    show "index_ok (jobStore (set_worker w v' s')) (queue (fair (set_worker w v' s')))" using q same by simp
    show "byID (queue (fair (set_worker w v' s'))) (JobID (jobStore (set_worker w v' s') x)) = None"
      if x: "x \<in> set (away (set_worker w v' s'))" for x
    proof (rule ccontr)
      assume "byID (queue (fair (set_worker w v' s'))) (JobID (jobStore (set_worker w v' s') x)) \<noteq> None"
      then have "byID (queue (fair s')) (JobID (jobStore s x)) \<noteq> None" by (simp add: same)
      from hq [OF this] away_set_worker [OF d w old same(5,6) x] ok show False by (auto simp: sched_ok_def)
    qed
    show "mset (live (set_worker w v' s')) \<subseteq># mset (live s)" by (simp add: lm)
    show "caps_ok (ScAgentCaps cfg) (agentCaps (set_worker w v' s'))" using caps by simp
    fix a :: string assume a: "a \<noteq> ''''"
    have "length (holders a (set_worker w v' s')) + length (filter (\<lambda>p. AgentType (jobStore s p) = a) (slot_of v))
        = length (holders a s) + length (filter (\<lambda>p. AgentType (jobStore s p) = a) (slot_of v'))"
      by (rule holders_set_worker [OF w old same(5)]) (simp add: same)
    then show "slots (agentCaps (set_worker w v' s')) a = int (length (holders a (set_worker w v' s')))"
      using slots [OF a] ok a by (simp add: sched_ok_def)
  next
    fix i p
    show "executing (set_worker w v' s') i = Some p \<longleftrightarrow>
        Executing p \<in> set (workers (set_worker w v' s')) \<and> JobID (jobStore (set_worker w v' s') p) = i"
      using executing_set_worker [OF d w old nv(1), of p v'] nv(2) [of p] ok same by (auto simp: sched_ok_def)
  qed (use ok same in \<open>simp_all add: sched_ok_def\<close>)
qed


lemma worker_queue_new:
  assumes ok: "sched_ok cfg s" and w: "w < length (workers s)" and p: "p \<in> set (held_by (workers s ! w))"
  shows "p \<in> set (away s)" "byID (queue (fair s)) (JobID (jobStore s p)) = None"
    "\<And>x. x \<in> set (jobs (queue (fair s))) \<Longrightarrow> JobID (jobStore s x) \<noteq> JobID (jobStore s p)"
proof -
  show aw: "p \<in> set (away s)" using worker_job_live(1) [OF w p] by (simp add: away_def)
  with ok show "byID (queue (fair s)) (JobID (jobStore s p)) = None" by (simp add: sched_ok_def)
  show "JobID (jobStore s x) \<noteq> JobID (jobStore s p)" if "x \<in> set (jobs (queue (fair s)))" for x
    by (rule away_queued [OF _ aw that]) (use ok in \<open>simp add: sched_ok_def\<close>)
qed

text \<open>A worker puts the job it holds back into the queue.\<close>

lemma requeue_index:
  assumes ok: "sched_ok cfg s" and w: "w < length (workers s)" and p: "p \<in> set (held_by (workers s ! w))"
  shows "index_ok (jobStore s) (Enqueue (jobStore s) p (queue (fair s)))"
    "mset (jobs (Enqueue (jobStore s) p (queue (fair s)))) = add_mset p (mset (jobs (queue (fair s))))"
    "byID (Enqueue (jobStore s) p (queue (fair s))) = (byID (queue (fair s)))(JobID (jobStore s p) \<mapsto> p)"
proof -
  have q: "index_ok (jobStore s) (queue (fair s))" using ok by (simp add: sched_ok_def)
  note n = worker_queue_new [OF ok w p]
  show "index_ok (jobStore s) (Enqueue (jobStore s) p (queue (fair s)))"
    "mset (jobs (Enqueue (jobStore s) p (queue (fair s)))) = add_mset p (mset (jobs (queue (fair s))))"
    "byID (Enqueue (jobStore s) p (queue (fair s))) = (byID (queue (fair s)))(JobID (jobStore s p) \<mapsto> p)"
    by (rule Enqueue_index [OF q n(3)]; use n(2) in simp)+
qed

lemma holder_slot:
  assumes ok: "sched_ok cfg s" and w: "w < length (workers s)" and p: "p \<in> set (slot_of (workers s ! w))"
    and a: "AgentType (jobStore s p) \<noteq> ''''"
  shows "slots (agentCaps s) (AgentType (jobStore s p)) > 0"
proof -
  have "workers s ! w \<in> set (workers s)" using w by simp
  with p have "p \<in> set (holders (AgentType (jobStore s p)) s)" by (auto simp: holders_def)
  then have "length (holders (AgentType (jobStore s p)) s) > 0" by (cases "holders (AgentType (jobStore s p)) s") auto
  with ok a show ?thesis by (simp add: sched_ok_def)
qed

lemma release_cap_effect:
  assumes ok: "sched_ok cfg s" and w: "w < length (workers s)" and p: "p \<in> set (slot_of (workers s ! w))"
    and s': "agentCaps s' = agentCaps s" "\<And>x. tag (jobStore s' x) = tag (jobStore s x)"
  shows "caps_ok (ScAgentCaps cfg) (agentCaps (release_cap ord p s'))"
    "a \<noteq> '''' \<Longrightarrow> slots (agentCaps (release_cap ord p s')) a
       = slots (agentCaps s) a - (if AgentType (jobStore s p) = a then 1 else 0)"
proof -
  have c: "caps_ok (ScAgentCaps cfg) (agentCaps s)" using ok by (simp add: sched_ok_def)
  note ag = tag_fields(6) [OF s'(2), of p]
  show "caps_ok (ScAgentCaps cfg) (agentCaps (release_cap ord p s'))"
    using Release_slots(1) [OF c] c s'(1) by (simp add: release_cap_def Let_def)
  show "slots (agentCaps (release_cap ord p s')) a = slots (agentCaps s) a - (if AgentType (jobStore s p) = a then 1 else 0)"
    if "a \<noteq> ''''"
    using Release_slots(2) [OF c] holder_slot [OF ok w p] s'(1) ag that by (auto simp: release_cap_def Let_def)
qed

lemma release_cap_frame [simp]:
  "scConfig (release_cap ord p s) = scConfig s" "jobStore (release_cap ord p s) = jobStore s"
  "fair (release_cap ord p s) = fair s" "backoff (release_cap ord p s) = backoff s"
  "executing (release_cap ord p s) = executing s" "workers (release_cap ord p s) = workers s"
  "retryTimers (release_cap ord p s) = retryTimers s" "completed (release_cap ord p s) = completed s"
  by (simp_all add: release_cap_def Let_def)

lemma requeue_frame [simp]:
  "scConfig (requeue p s) = scConfig s" "jobStore (requeue p s) = jobStore s"
  "agentCaps (requeue p s) = agentCaps s" "backoff (requeue p s) = backoff s"
  "executing (requeue p s) = executing s" "workers (requeue p s) = workers s"
  "retryTimers (requeue p s) = retryTimers s" "completed (requeue p s) = completed s"
  "queue (fair (requeue p s)) = Enqueue (jobStore s) p (queue (fair s))"
  by (simp_all add: requeue_def fair_Enqueue_def)

text \<open>The steps of a worker up to the start of a job keep the live jobs.\<close>

lemma before_start_ok:
  assumes step: "worker_step w s s'" and ok: "sched_ok cfg s" and w: "w < length (workers s)"
    and cfg: "configs_ok (ScAgentCaps cfg)"
    and early: "\<And>p. workers s ! w \<noteq> Executing p" "\<And>p. workers s' ! w \<noteq> Executing p"
  shows "sched_ok cfg s' \<and> mset (live s') = mset (live s)"
  using step
proof cases
  case (dequeue p f)
  have qok: "index_ok (jobStore s) (queue (fair s))" using ok by (simp add: sched_ok_def)
  note t = TryDequeue_index [OF qok dequeue(4)]
  have "sched_ok cfg (set_worker w (Taken p) (s\<lparr>fair := f\<rparr>))" "mset (live (set_worker w (Taken p) (s\<lparr>fair := f\<rparr>))) = mset (live s)"
    by (rule quiet_step [OF ok w dequeue(2)]; use t ok in \<open>auto simp: sched_ok_def split: if_splits\<close>)+
  with dequeue(1) show ?thesis by simp
next
  case (no_agent p)
  have "sched_ok cfg (set_worker w (Ready p) s)" "mset (live (set_worker w (Ready p) s)) = mset (live s)"
    by (rule quiet_step [OF ok w no_agent(2)]; use no_agent ok worker_queue_new(2) [OF ok w, of p] in \<open>auto simp: sched_ok_def\<close>)+
  with no_agent(1) show ?thesis by simp
next
  case (acquired p now ord ac)
  have c: "caps_ok (ScAgentCaps cfg) (agentCaps s)" using ok by (simp add: sched_ok_def)
  note t = TryAcquire_slots [OF c cfg acquired(4)]
  have "sched_ok cfg (set_worker w (Ready p) (s\<lparr>agentCaps := ac\<rparr>))"
    "mset (live (set_worker w (Ready p) (s\<lparr>agentCaps := ac\<rparr>))) = mset (live s)"
    by (rule quiet_step [OF ok w acquired(2)]; use t ok worker_queue_new(2) [OF ok w, of p] acquired(2) in \<open>auto simp: sched_ok_def\<close>)+
  with acquired(1) show ?thesis by simp
next
  case (refused p now ord ac)
  have c: "caps_ok (ScAgentCaps cfg) (agentCaps s)" using ok by (simp add: sched_ok_def)
  note t = TryAcquire_slots [OF c cfg refused(4)]
  have "sched_ok cfg (set_worker w (Refused p) (s\<lparr>agentCaps := ac\<rparr>))"
    "mset (live (set_worker w (Refused p) (s\<lparr>agentCaps := ac\<rparr>))) = mset (live s)"
    by (rule quiet_step [OF ok w refused(2)]; use t ok worker_queue_new(2) [OF ok w, of p] refused(2) in \<open>auto simp: sched_ok_def\<close>)+
  with refused(1) show ?thesis by simp
next
  case (put_back p)
  note e = requeue_index [OF ok w, of p]
  have "sched_ok cfg (set_worker w Searching (requeue p s))" "mset (live (set_worker w Searching (requeue p s))) = mset (live s)"
    by (rule quiet_step [OF ok w put_back(2)]; use e put_back(2) ok in \<open>auto simp: sched_ok_def split: if_splits\<close>)+
  with put_back(1) show ?thesis by simp
next
  case (search now ord r q ac)
  have c: "caps_ok (ScAgentCaps cfg) (agentCaps s)" "index_ok (jobStore s) (queue (fair s))" using ok by (simp_all add: sched_ok_def)
  have f: "find_job now ord (jobStore s) (jobs (queue (fair s))) (queue (fair s)) (agentCaps s) = Some (r, q, ac)"
    using search(3) by (simp add: ListAll_def)
  note t = find_job_result [OF c(2,1) cfg subset_refl f]
  let ?s = "s\<lparr>fair := (fair s)\<lparr>queue := q\<rparr>, agentCaps := ac\<rparr>"
  let ?v = "case r of None \<Rightarrow> Idle | Some p \<Rightarrow> Ready p"
  have "sched_ok cfg (set_worker w ?v ?s)" "mset (live (set_worker w ?v ?s)) = mset (live s)"
    by (rule quiet_step [OF ok w search(2)]; use t ok in \<open>auto simp: sched_ok_def split: option.splits if_splits\<close>)+
  with search(1) show ?thesis by simp
next
  case (start p now)
  with early(2) w show ?thesis by (auto simp: start_job_def put_job_def)
next
  case (limiter_error p ord)
  note e = requeue_index [OF ok w, of p]
  have p: "p \<in> set (slot_of (workers s ! w))" using limiter_error(2) by simp
  note r = release_cap_effect [OF ok w p refl refl]
  have "sched_ok cfg (set_worker w Idle (requeue p (release_cap ord p s)))"
    "mset (live (set_worker w Idle (requeue p (release_cap ord p s)))) = mset (live s)"
    by (rule quiet_step [OF ok w limiter_error(2)]; use e r limiter_error(2) ok in \<open>auto simp: sched_ok_def split: if_splits\<close>)+
  with limiter_error(1) show ?thesis by simp
next
  case (finish p env now ord res)
  with early(1) show ?thesis by blast
qed


section \<open>Starting and finishing a job\<close>

lemma tag_put_job: "tag j = tag (jobStore s p) \<Longrightarrow> tag (jobStore (put_job p j s) x) = tag (jobStore s x)"
  by (simp add: put_job_def)

lemma put_job_frame [simp]:
  "scConfig (put_job p j s) = scConfig s" "fair (put_job p j s) = fair s" "agentCaps (put_job p j s) = agentCaps s"
  "backoff (put_job p j s) = backoff s" "executing (put_job p j s) = executing s" "workers (put_job p j s) = workers s"
  "retryTimers (put_job p j s) = retryTimers s" "completed (put_job p j s) = completed s"
  "jobStore (put_job p j s) p = j" "scConfig (put_job p j s) = scConfig s"
  by (simp_all add: put_job_def)

lemma addToCompleted_frame [simp]:
  "scConfig (addToCompleted p s) = scConfig s" "fair (addToCompleted p s) = fair s"
  "agentCaps (addToCompleted p s) = agentCaps s" "backoff (addToCompleted p s) = backoff s"
  "executing (addToCompleted p s) = executing s" "workers (addToCompleted p s) = workers s"
  "retryTimers (addToCompleted p s) = retryTimers s" "jobStore (addToCompleted p s) = jobStore s"
  by (simp_all add: addToCompleted_def Let_def)

lemma stop_job_frame [simp]:
  "scConfig (stop_job p s) = scConfig s" "queue (fair (stop_job p s)) = queue (fair s)"
  "agentCaps (stop_job p s) = agentCaps s" "backoff (stop_job p s) = backoff s"
  "executing (stop_job p s) = (executing s)(JobID (jobStore s p) := None)" "workers (stop_job p s) = workers s"
  "retryTimers (stop_job p s) = retryTimers s" "jobStore (stop_job p s) = jobStore s" "completed (stop_job p s) = completed s"
  by (simp_all add: stop_job_def MarkComplete_def)

lemma last_completed:
  "0 < MaxCompleted (scConfig s) \<Longrightarrow> completed (addToCompleted p s) \<noteq> [] \<and> last (completed (addToCompleted p s)) = Clone (jobStore s p)"
  by (auto simp: addToCompleted_def Let_def last_drop)

text \<open>The queue, the workers and every tag stay; the job goes to a retry timer or to the completed list.\<close>

definition finished_record :: "job_ptr \<Rightarrow> Scheduler \<Rightarrow> Scheduler \<Rightarrow> bool" where
  "finished_record p s s' \<longleftrightarrow>
     retryTimers s' = p # retryTimers s \<and> Status (jobStore s' p) = StatusRetrying \<or>
     retryTimers s' = retryTimers s \<and> IsTerminal (jobStore s' p) \<and>
       (0 < MaxCompleted (scConfig s) \<longrightarrow> completed s' \<noteq> [] \<and> last (completed s') = Clone (jobStore s' p))"

definition finish_frame :: "job_ptr \<Rightarrow> Scheduler \<Rightarrow> Scheduler \<Rightarrow> bool" where
  "finish_frame p s s' \<longleftrightarrow>
     scConfig s' = scConfig s \<and> (\<forall>x. tag (jobStore s' x) = tag (jobStore s x)) \<and>
     queue (fair s') = queue (fair s) \<and> workers s' = workers s \<and>
     executing s' = (executing s)(JobID (jobStore s p) := None) \<and>
     (backoff_ok (backoff s) \<longrightarrow> backoff_ok (backoff s')) \<and> finished_record p s s' \<and>
     (\<forall>x. x \<noteq> p \<longrightarrow> jobStore s' x = jobStore s x)"

definition caps_calls :: "Config \<Rightarrow> job_ptr \<Rightarrow> string list \<Rightarrow> Scheduler \<Rightarrow> Scheduler \<Rightarrow> bool" where
  "caps_calls cfg p ord s s' \<longleftrightarrow>
     (\<exists>s1. agentCaps s' = agentCaps (release_cap ord p s1) \<and> (\<forall>x. tag (jobStore s1 x) = tag (jobStore s x)) \<and>
        caps_ok (ScAgentCaps cfg) (agentCaps s1) \<and> (\<forall>a. slots (agentCaps s1) a = slots (agentCaps s) a))"

lemma terminal_status: "IsTerminal (SetStatus now s j) \<longleftrightarrow> s \<in> {StatusCompleted, StatusFailed, StatusCancelled}"
  by (simp add: IsTerminal_def)

lemma IsTerminal_SetError [simp]: "IsTerminal (SetError e j) = IsTerminal j"
  by (simp add: IsTerminal_def SetError_def split: option.splits)

lemma handleJobError_frame:
  fixes s :: Scheduler and env :: error_env and now :: int and ord :: "string list" and p :: job_ptr and err :: go_error
  assumes c: "caps_ok (ScAgentCaps cfg) (agentCaps s)" and cfg: "configs_ok (ScAgentCaps cfg)"
  defines "s' \<equiv> handleJobError env now ord p err s"
  shows "scConfig s' = scConfig s \<and> (\<forall>x. tag (jobStore s' x) = tag (jobStore s x)) \<and>
     fair s' = fair s \<and> workers s' = workers s \<and> executing s' = executing s \<and>
     (backoff_ok (backoff s) \<longrightarrow> backoff_ok (backoff s')) \<and> finished_record p s s' \<and> caps_calls cfg p ord s s' \<and>
     (\<forall>x. x \<noteq> p \<longrightarrow> jobStore s' x = jobStore s x)"
proof -
  let ?job = "jobStore s p"
  let ?re = "ClassifyError (envLower env) now (Some err) (meta_int ''exit_code'' ?job) (meta_string ''stderr'' ?job)"
  define s1 where "s1 = (if ?re \<noteq> None \<and> Retryable (the ?re) \<and> AgentType ?job \<noteq> ''''
                then s\<lparr>agentCaps := RecordFailure now (AgentType ?job) (agentCaps s)\<rparr> else s)"
  obtain retry delay bc where h: "HandleError (envJitter env) (envGrow env) now ?job ?re (backoff s1) = ((retry, delay), bc)"
    by (metis surj_pair)
  have s1: "scConfig s1 = scConfig s" "jobStore s1 = jobStore s" "fair s1 = fair s" "workers s1 = workers s"
    "executing s1 = executing s" "retryTimers s1 = retryTimers s" "completed s1 = completed s" "backoff s1 = backoff s"
    by (simp_all add: s1_def)
  have c1: "caps_ok (ScAgentCaps cfg) (agentCaps s1)" "\<And>a. slots (agentCaps s1) a = slots (agentCaps s) a"
    using RecordFailure_slots [OF c cfg] c by (auto simp: s1_def)
  have bo: "backoff_ok bc" if "backoff_ok (backoff s)"
    using HandleError_ok [of "backoff s1" "envJitter env" "envGrow env" now ?job ?re] that h s1(8) by simp
  define s2 where "s2 = release_cap ord p (s1\<lparr>backoff := bc\<rparr>)"
  have calls: "caps_calls cfg p ord s t" if "agentCaps t = agentCaps s2" for t
    unfolding caps_calls_def using c1 s1(2) that
    by (intro exI [of _ "s1\<lparr>backoff := bc\<rparr>"]) (simp add: s2_def)
  have e: "s' = (if (retry \<or> ?re = None) \<and> CanRetry ?job then
           (put_job p (IncrementRetry ?job) s2)\<lparr>TotalRetried := TotalRetried s2 + 1, retryTimers := p # retryTimers s2\<rparr>
         else
           addToCompleted p
             ((put_job p (SetError (Some (errText err)) (SetStatus now StatusFailed ?job)) s2)
                \<lparr>TotalFailed := TotalFailed s2 + 1\<rparr>))"
    unfolding s'_def handleJobError_def Let_def s1_def [symmetric] h prod.case s2_def [symmetric] by simp
  show ?thesis
  proof (cases "(retry \<or> ?re = None) \<and> CanRetry ?job")
    case True
    then have e1: "s' = (put_job p (IncrementRetry ?job) s2)\<lparr>TotalRetried := TotalRetried s2 + 1, retryTimers := p # retryTimers s2\<rparr>"
      using e by simp
    have "Status (IncrementRetry ?job) = StatusRetrying" by (simp add: IncrementRetry_def)
    with s1 bo calls [of s'] show ?thesis
      unfolding e1 by (simp add: s2_def finished_record_def put_job_def)
  next
    case False
    define s3 where "s3 = (put_job p (SetError (Some (errText err)) (SetStatus now StatusFailed ?job)) s2)\<lparr>TotalFailed := TotalFailed s2 + 1\<rparr>"
    have e1: "s' = addToCompleted p s3" using e False by (simp add: s3_def)
    have s3: "scConfig s3 = scConfig s" "fair s3 = fair s" "workers s3 = workers s" "executing s3 = executing s"
      "retryTimers s3 = retryTimers s" "backoff s3 = bc" "agentCaps s3 = agentCaps s2"
      "jobStore s3 p = SetError (Some (errText err)) (SetStatus now StatusFailed ?job)"
      "\<And>x. tag (jobStore s3 x) = tag (jobStore s x)" "\<And>x. x \<noteq> p \<Longrightarrow> jobStore s3 x = jobStore s x"
      using s1 by (simp_all add: s3_def s2_def put_job_def)
    have "IsTerminal (jobStore s3 p)" by (simp add: s3(8) terminal_status)
    with s3(1-7,9,10) bo calls [of s'] last_completed [of s3 p] show ?thesis
      unfolding e1 by (simp add: finished_record_def)
  qed
qed

lemma finish_job_frame:
  assumes c: "caps_ok (ScAgentCaps cfg) (agentCaps s)" and cfg: "configs_ok (ScAgentCaps cfg)"
  shows "finish_frame p s (finish_job env now ord p res s) \<and> caps_calls cfg p ord s (finish_job env now ord p res s)"
proof (cases res)
  case None
  let ?job = "jobStore s p"
  define s2 where "s2 = (put_job p (SetStatus now StatusCompleted ?job) (stop_job p s))
     \<lparr>TotalCompleted := TotalCompleted (stop_job p s) + 1, backoff := recordSuccess (backoff s)\<rparr>"
  define s3 where "s3 = (if AgentType ?job \<noteq> '''' then s2\<lparr>agentCaps := RecordSuccess now (AgentType ?job) (agentCaps s2)\<rparr> else s2)"
  have e: "finish_job env now ord p res s = addToCompleted p (release_cap ord p s3)"
    by (simp add: finish_job_def None Let_def s3_def s2_def)
  have s2: "agentCaps s2 = agentCaps s" by (simp add: s2_def)
  have s3: "scConfig s3 = scConfig s" "queue (fair s3) = queue (fair s)" "workers s3 = workers s"
    "executing s3 = (executing s)(JobID ?job := None)" "retryTimers s3 = retryTimers s"
    "backoff s3 = recordSuccess (backoff s)" "jobStore s3 p = SetStatus now StatusCompleted ?job"
    "\<And>x. tag (jobStore s3 x) = tag (jobStore s x)" "\<And>x. x \<noteq> p \<Longrightarrow> jobStore s3 x = jobStore s x"
    by (simp_all add: s3_def s2_def put_job_def)
  have c3: "caps_ok (ScAgentCaps cfg) (agentCaps s3)" "\<And>a. slots (agentCaps s3) a = slots (agentCaps s) a"
    using RecordSuccess_slots [OF c cfg] c s2 by (auto simp: s3_def)
  have calls: "caps_calls cfg p ord s (addToCompleted p (release_cap ord p s3))"
    unfolding caps_calls_def using c3 s3(8) by (intro exI [of _ s3]) simp
  have "IsTerminal (jobStore s3 p)" by (simp add: s3(7) terminal_status)
  with s3(1-6,8,9) last_completed [of "release_cap ord p s3" p] recordSuccess_ok calls show ?thesis
    unfolding e by (simp add: finish_frame_def finished_record_def)
next
  case (Some err)
  show ?thesis
  proof (cases "IsCancelled (jobStore s p) = Some True")
    case True
    define s3 where "s3 = put_job p (SetStatus now StatusCancelled (jobStore s p)) (stop_job p s)"
    have e: "finish_job env now ord p res s = addToCompleted p (release_cap ord p s3)"
      by (simp add: finish_job_def Some True Let_def s3_def)
    have s3: "scConfig s3 = scConfig s" "queue (fair s3) = queue (fair s)" "workers s3 = workers s"
      "executing s3 = (executing s)(JobID (jobStore s p) := None)" "retryTimers s3 = retryTimers s"
      "backoff s3 = backoff s" "jobStore s3 p = SetStatus now StatusCancelled (jobStore s p)"
      "\<And>x. tag (jobStore s3 x) = tag (jobStore s x)" "agentCaps s3 = agentCaps s"
      "\<And>x. x \<noteq> p \<Longrightarrow> jobStore s3 x = jobStore s x"
      by (simp_all add: s3_def put_job_def)
    have calls: "caps_calls cfg p ord s (addToCompleted p (release_cap ord p s3))"
      unfolding caps_calls_def using c s3(8,9) by (intro exI [of _ s3]) simp
    have "IsTerminal (jobStore s3 p)" by (simp add: s3(7) terminal_status)
    with s3(1-6,8,10) last_completed [of "release_cap ord p s3" p] calls show ?thesis
      unfolding e by (simp add: finish_frame_def finished_record_def)
  next
    case False
    have e: "finish_job env now ord p res s = handleJobError env now ord p err (stop_job p s)"
      by (simp add: finish_job_def Some False Let_def)
    have "caps_ok (ScAgentCaps cfg) (agentCaps (stop_job p s))" using c by simp
    from handleJobError_frame [OF this cfg, of env now ord p err] show ?thesis
      unfolding e by (simp add: finish_frame_def finished_record_def caps_calls_def)
  qed
qed


lemma start_step_ok:
  assumes ok: "sched_ok cfg s" and w: "w < length (workers s)" and old: "workers s ! w = Ready p"
  shows "sched_ok cfg (set_worker w (Executing p) (start_job now p s))"
    "mset (live (set_worker w (Executing p) (start_job now p s))) = mset (live s)"
proof -
  let ?s = "start_job now p s"
  let ?t = "set_worker w (Executing p) ?s"
  have d: "distinct (live_ids s)" using ok by (simp add: sched_ok_def)
  have fr: "scConfig ?s = scConfig s" "fair ?s = fair s" "agentCaps ?s = agentCaps s" "backoff ?s = backoff s"
    "workers ?s = workers s" "retryTimers ?s = retryTimers s"
    "executing ?s = (executing s)(JobID (jobStore s p) \<mapsto> p)"
    and tg: "\<And>x. tag (jobStore ?s x) = tag (jobStore s x)"
    by (simp_all add: start_job_def tag_put_job Let_def)
  note id = tag_fields(1) [OF tg]
  show lm: "mset (live ?t) = mset (live s)"
    using live_worker [OF w old fr(5), of "Executing p"] fr live_mset [of s] by simp
  show "sched_ok cfg ?t"
  proof (rule sched_ok_move [OF ok])
    show "index_ok (jobStore ?t) (queue (fair ?t))"
      using index_ok_cong [of "jobStore s" "queue (fair s)" "jobStore ?t"] ok fr(2) tg by (simp add: sched_ok_def)
    show "byID (queue (fair ?t)) (JobID (jobStore ?t x)) = None" if "x \<in> set (away ?t)" for x
      using away_set_worker [OF d w old fr(5,6) that] worker_queue_new(2) [OF ok w, of p] old ok fr(2)
      by (auto simp: sched_ok_def id)
    show "mset (live ?t) \<subseteq># mset (live s)" by (simp add: lm)
    show "slots (agentCaps ?t) a = int (length (holders a ?t))" if "a \<noteq> ''''" for a
      using holders_set_worker [OF w old fr(5) tg, of a "Executing p"] ok fr(3) that by (simp add: sched_ok_def)
    fix i x
    have ex: "executing s i = Some x \<longleftrightarrow> Executing x \<in> set (workers s) \<and> JobID (jobStore s x) = i"
      using ok by (simp add: sched_ok_def)
    have other: "JobID (jobStore s x) \<noteq> JobID (jobStore s p)" if "Executing x \<in> set (workers s)"
    proof -
      from that obtain k where k: "k < length (workers s)" "workers s ! k = Executing x" by (auto simp: in_set_conv_nth)
      with old have "k \<noteq> w" by auto
      from workers_disjoint [OF d w k(1) this, of p x] old k(2) show ?thesis by simp
    qed
    show "executing ?t i = Some x \<longleftrightarrow> Executing x \<in> set (workers ?t) \<and> JobID (jobStore ?t x) = i"
      using executing_set_worker [OF d w old, of x "Executing p"] ex other fr id by auto
  qed (use ok fr tg in \<open>simp_all add: sched_ok_def\<close>)
qed

lemma finish_step_ok:
  assumes ok: "sched_ok cfg s" and w: "w < length (workers s)" and old: "workers s ! w = Executing p"
    and fr: "finish_frame p s s'" and calls: "caps_calls cfg p ord s s'"
  shows "sched_ok cfg (set_worker w Idle s')"
    "retryTimers s' = p # retryTimers s \<Longrightarrow> mset (live (set_worker w Idle s')) = mset (live s)"
    "retryTimers s' = retryTimers s \<Longrightarrow> mset (live s) = add_mset p (mset (live (set_worker w Idle s')))"
proof -
  let ?t = "set_worker w Idle s'"
  have d: "distinct (live_ids s)" using ok by (simp add: sched_ok_def)
  have ws: "workers s' = workers s" and q: "queue (fair s') = queue (fair s)"
    and tg: "\<And>x. tag (jobStore s' x) = tag (jobStore s x)" using fr by (simp_all add: finish_frame_def)
  note id = tag_fields(1) [OF tg]
  note lw = live_worker [OF w old ws, of Idle]
  show l1: "mset (live ?t) = mset (live s)" if "retryTimers s' = p # retryTimers s"
    using lw q that live_mset [of s] by simp
  show l2: "mset (live s) = add_mset p (mset (live ?t))" if "retryTimers s' = retryTimers s"
    using lw q that live_mset [of s] by simp
  have m: "mset (live ?t) \<subseteq># mset (live s)"
    using fr l1 l2 by (auto simp: finish_frame_def finished_record_def)
  from calls obtain s1 where s1: "agentCaps s' = agentCaps (release_cap ord p s1)"
    "\<And>x. tag (jobStore s1 x) = tag (jobStore s x)" "caps_ok (ScAgentCaps cfg) (agentCaps s1)"
    "\<And>a. slots (agentCaps s1) a = slots (agentCaps s) a" by (auto simp: caps_calls_def)
  have pos: "slots (agentCaps s) (AgentType (jobStore s p)) > 0" if "AgentType (jobStore s p) \<noteq> ''''"
    by (rule holder_slot [OF ok w _ that]) (simp add: old)
  have sl: "slots (agentCaps s') a = slots (agentCaps s) a - (if AgentType (jobStore s p) = a then 1 else 0)" if "a \<noteq> ''''" for a
    using s1(1) Release_slots(2) [OF s1(3)] s1(4) pos that tag_fields(6) [OF s1(2), of p]
    by (auto simp: release_cap_def Let_def)
  have co: "caps_ok (ScAgentCaps cfg) (agentCaps s')"
    using s1(1,3) Release_slots(1) [OF s1(3)] by (simp add: release_cap_def Let_def)
  show "sched_ok cfg ?t"
  proof (rule sched_ok_move [OF ok])
    show "index_ok (jobStore ?t) (queue (fair ?t))"
      using index_ok_cong [of "jobStore s" "queue (fair s)" "jobStore ?t"] ok q tg by (simp add: sched_ok_def)
    show "byID (queue (fair ?t)) (JobID (jobStore ?t x)) = None" if x: "x \<in> set (away ?t)" for x
    proof -
      have "set (away ?t) \<subseteq> insert p (set (away s))"
        using fr ws set_update_subset_insert [of "workers s" w Idle]
        by (fastforce simp: away_def finish_frame_def finished_record_def)
      then have "x = p \<or> x \<in> set (away s)" using x by blast
      then show ?thesis using worker_queue_new(2) [OF ok w, of p] old ok q by (auto simp: sched_ok_def id)
    qed
    show "mset (live ?t) \<subseteq># mset (live s)" by (rule m)
    show "slots (agentCaps ?t) a = int (length (holders a ?t))" if a: "a \<noteq> ''''" for a
      using holders_set_worker [OF w old ws tg, of a Idle] ok sl [OF a] a by (auto simp: sched_ok_def split: if_splits)
    fix i x
    have ex: "executing s i = Some x \<longleftrightarrow> Executing x \<in> set (workers s) \<and> JobID (jobStore s x) = i"
      using ok by (simp add: sched_ok_def)
    have set: "Executing x \<in> set ((workers s)[w := Idle]) \<longleftrightarrow> Executing x \<in> set (workers s) \<and> JobID (jobStore s x) \<noteq> JobID (jobStore s p)"
    proof
      assume "Executing x \<in> set ((workers s)[w := Idle])"
      then obtain k where k: "k < length (workers s)" "(workers s)[w := Idle] ! k = Executing x" by (auto simp: in_set_conv_nth)
      then have "k \<noteq> w" using w by auto
      with k have kx: "workers s ! k = Executing x" by simp
      from workers_disjoint [OF d w k(1) \<open>k \<noteq> w\<close>, of p x] old kx k(1)
      show "Executing x \<in> set (workers s) \<and> JobID (jobStore s x) \<noteq> JobID (jobStore s p)"
        by (metis held_by.simps(4) list.set_intros(1) nth_mem)
    next
      assume a: "Executing x \<in> set (workers s) \<and> JobID (jobStore s x) \<noteq> JobID (jobStore s p)"
      then obtain k where k: "k < length (workers s)" "workers s ! k = Executing x" by (auto simp: in_set_conv_nth)
      with a old have "k \<noteq> w" by auto
      with k show "Executing x \<in> set ((workers s)[w := Idle])" by (metis length_list_update nth_list_update_neq nth_mem)
    qed
    show "executing ?t i = Some x \<longleftrightarrow> Executing x \<in> set (workers ?t) \<and> JobID (jobStore ?t x) = i"
      using fr ex set id ws by (auto simp: finish_frame_def)
  qed (use ok fr tg co in \<open>simp_all add: sched_ok_def finish_frame_def\<close>)
qed

text \<open>A worker's step: the live jobs stay, except that a finished job leaves for the record of it.\<close>

lemma worker_step_ok:
  assumes step: "worker_step w s s'" and ok: "sched_ok cfg s" and w: "w < length (workers s)"
    and cfg: "configs_ok (ScAgentCaps cfg)"
  shows "sched_ok cfg s' \<and>
    (mset (live s') = mset (live s) \<or>
     (\<exists>p. workers s ! w = Executing p \<and> mset (live s) = add_mset p (mset (live s')) \<and> IsTerminal (jobStore s' p) \<and>
        (0 < MaxCompleted (scConfig s) \<longrightarrow> completed s' \<noteq> [] \<and> last (completed s') = Clone (jobStore s' p))))"
proof (cases "(\<exists>p. workers s ! w = Executing p) \<or> (\<exists>p. workers s' ! w = Executing p)")
  case False
  with before_start_ok [OF step ok w cfg] show ?thesis by blast
next
  case True
  from step show ?thesis
  proof cases
    case (start p now)
    with start_step_ok [OF ok w start(2), of now] show ?thesis by simp
  next
    case (finish p env now ord res)
    have c: "caps_ok (ScAgentCaps cfg) (agentCaps s)" using ok by (simp add: sched_ok_def)
    let ?s = "finish_job env now ord p res s"
    have fr: "finish_frame p s ?s" and calls: "caps_calls cfg p ord s ?s"
      using finish_job_frame [OF c cfg, where p = p and env = env and now = now and ord = ord and res = res] by simp_all
    note f = finish_step_ok [OF ok w finish(2) fr calls]
    from fr have "finished_record p s ?s" by (simp add: finish_frame_def)
    with f finish show ?thesis unfolding finished_record_def by auto
  qed (use True w in \<open>auto split: option.splits\<close>)
qed


section \<open>The other steps\<close>

text \<open>
  A submitted job enters the queue, unless the index still lists a lost job under its ID; then
  it only takes over the entry and is itself not queued.
\<close>

lemma Submit_step_ok:
  assumes ok: "sched_ok cfg s" and sub: "Submit fresh now p s = (None, s')"
    and new: "p \<notin> set (live s)" "JobID (jobStore s' p) \<notin> set (live_ids s)"
  shows "sched_ok cfg s'" "mset (live s') = mset (live s) \<or> mset (live s') = add_mset p (mset (live s))"
    "Status (jobStore s' p) = StatusPending" "\<And>x. x \<noteq> p \<Longrightarrow> jobStore s' x = jobStore s x"
    "byID (queue (fair s')) = (byID (queue (fair s)))(JobID (jobStore s' p) \<mapsto> p)"
    "set (jobs (queue (fair s'))) \<subseteq> insert p (set (jobs (queue (fair s))))" "workers s' = workers s" "retryTimers s' = retryTimers s"
    "byID (queue (fair s)) (JobID (jobStore s' p)) = None \<Longrightarrow> mset (live s') = add_mset p (mset (live s))"
proof -
  let ?j = "prepared (scConfig s) fresh now (jobStore s p)"
  let ?st = "(jobStore s)(p := ?j)"
  have s': "jobStore s' = ?st" "queue (fair s') = Enqueue ?st p (queue (fair s))" "workers s' = workers s"
    "retryTimers s' = retryTimers s" "agentCaps s' = agentCaps s" "executing s' = executing s"
    "backoff s' = backoff s" "scConfig s' = scConfig s"
    using sub by (auto simp: Submit_def Let_def requeue_def fair_Enqueue_def put_job_def split: if_splits)
  show "workers s' = workers s" "retryTimers s' = retryTimers s" by (fact s')+
  show "Status (jobStore s' p) = StatusPending" by (simp add: s' prepared_def Let_def)
  show oth: "jobStore s' x = jobStore s x" if "x \<noteq> p" for x using that by (simp add: s')
  have live: "jobStore s' x = jobStore s x" if "x \<in> set (live s)" for x using oth new(1) that by metis
  have idn: "JobID (?st x) \<noteq> JobID (?st p)" if "x \<in> set (live s)" for x
  proof
    assume "JobID (?st x) = JobID (?st p)"
    then have "JobID (jobStore s' p) = JobID (jobStore s x)" using live [OF that] s'(1) by metis
    then show False using new(2) that by (simp add: live_ids_def)
  qed
  have q1: "index_ok ?st (queue (fair s))"
  proof (rule index_ok_cong)
    show "index_ok (jobStore s) (queue (fair s))" using ok by (simp add: sched_ok_def)
    show "tag (?st x) = tag (jobStore s x)" if "x \<in> set (jobs (queue (fair s)))" for x
      using new(1) that by (auto simp: live_def)
  qed
  have "JobID (?st x) \<noteq> JobID (?st p)" if "x \<in> set (jobs (queue (fair s)))" for x
    by (rule idn) (use that in \<open>simp add: live_def\<close>)
  note e = Enqueue_index [OF q1 this, folded s'(2)]
  show b: "byID (queue (fair s')) = (byID (queue (fair s)))(JobID (jobStore s' p) \<mapsto> p)" using e(2) s'(1) by simp
  show add: "mset (live s') = add_mset p (mset (live s))" if "byID (queue (fair s)) (JobID (jobStore s' p)) = None"
    using e(3) that s'(1,3,4) by (simp add: live_def)
  have lost: "jobs (queue (fair s')) = jobs (queue (fair s))" if "byID (queue (fair s)) (JobID (jobStore s' p)) \<noteq> None"
    using e(4) that s'(1) by simp
  show lm: "mset (live s') = mset (live s) \<or> mset (live s') = add_mset p (mset (live s))"
    using add lost s'(3,4) by (cases "byID (queue (fair s)) (JobID (jobStore s' p))") (auto simp: live_def)
  show "set (jobs (queue (fair s'))) \<subseteq> insert p (set (jobs (queue (fair s))))"
  proof (cases "byID (queue (fair s)) (JobID (jobStore s' p)) = None")
    case True
    then have "mset (jobs (queue (fair s'))) = add_mset p (mset (jobs (queue (fair s))))" using e(3) s'(1) by simp
    then show ?thesis by (metis set_mset_add_mset_insert set_mset_mset subset_refl)
  qed (use lost in auto)
  have "image_mset (\<lambda>x. JobID (jobStore s' x)) (mset (live s)) = image_mset (\<lambda>x. JobID (jobStore s x)) (mset (live s))"
    by (rule image_mset_cong) (simp add: live)
  then have "mset (live_ids s') = mset (live_ids s) \<or> mset (live_ids s') = mset (JobID (jobStore s' p) # live_ids s)"
    using lm by (auto simp: live_ids_def mset_map)
  then have d: "distinct (live_ids s')" using new(2) ok by (metis distinct.simps(2) mset_eq_imp_distinct_iff sched_ok_def)
  have hold: "p \<noteq> x" if "v \<in> set (workers s)" "x \<in> set (held_by v)" for v x using new(1) that by (auto simp: live_def)
  have sub2: "set (slot_of v) \<subseteq> set (held_by v)" for v by (cases v) auto
  have h: "holders a s' = holders a s" for a
    unfolding holders_def s'(3) by (rule filter_cong [OF refl]) (use hold sub2 s'(1) in fastforce)
  have ex: "Executing x \<in> set (workers s) \<and> JobID (jobStore s' x) = i \<longleftrightarrow>
      Executing x \<in> set (workers s) \<and> JobID (jobStore s x) = i" for x i
    using hold [of "Executing x" x] oth [of x] by (metis held_by.simps(4) list.set_intros(1))
  have "away s' = away s" by (simp add: away_def s'(3,4))
  have aw: "byID (queue (fair s')) (JobID (jobStore s' x)) = None" if "x \<in> set (away s')" for x
  proof -
    have x: "x \<in> set (away s)" using that s'(3,4) by (simp add: away_def)
    then have xl: "x \<in> set (live s)" by (simp add: live_away)
    have "byID (queue (fair s)) (JobID (jobStore s x)) = None" using ok x by (simp add: sched_ok_def)
    then show ?thesis using idn [OF xl] live [OF xl] b s'(1) by simp
  qed
  show "sched_ok cfg s'"
    using ok d e(1) h ex aw unfolding sched_ok_def s'(3,5,6,7,8) s'(1) [symmetric] by simp
qed

end
