(* ===== verification/SchedPlaces.thy ===== *)
theory SchedPlaces
  imports SchedSafety
begin

text \<open>
  The steps of callers and timers, group cancellations among them, and where every job is in any
  history of the scheduler: \<open>sched_inv\<close> is the invariant and \<open>live_change\<close> says how
  the jobs in the scheduler's care may change in a step.
\<close>

section \<open>Cancelling and retrying\<close>

text \<open>A step that leaves the workers, the caps and the backoff alone and only takes jobs out of the queue.\<close>

lemma caller_step_ok:
  assumes ok: "sched_ok cfg s"
    and same: "scConfig s' = scConfig s" "workers s' = workers s" "retryTimers s' = retryTimers s"
      "executing s' = executing s" "agentCaps s' = agentCaps s" "backoff s' = backoff s"
    and tg: "\<And>x. tag (jobStore s' x) = tag (jobStore s x)"
    and q: "index_ok (jobStore s') (queue (fair s'))" "mset (jobs (queue (fair s'))) \<subseteq># mset (jobs (queue (fair s)))"
    and b: "\<And>i. byID (queue (fair s)) i = None \<Longrightarrow> byID (queue (fair s')) i = None"
  shows "sched_ok cfg s'"
proof (rule sched_ok_move [OF ok])
  note id = tag_fields(1) [OF tg]
  show "mset (live s') \<subseteq># mset (live s)" using q(2) same by (simp add: live_def)
  have "holders a s' = holders a s" for a
    unfolding holders_def same by (rule filter_cong [OF refl]) (simp add: tag_fields(6) [OF tg])
  then show "slots (agentCaps s') a = int (length (holders a s'))" if "a \<noteq> ''''" for a
    using ok that same by (simp add: sched_ok_def)
  show "executing s' i = Some y \<longleftrightarrow> Executing y \<in> set (workers s') \<and> JobID (jobStore s' y) = i" for i y
    using ok id [of y] same by (simp add: sched_ok_def)
  show "byID (queue (fair s')) (JobID (jobStore s' p)) = None" if "p \<in> set (away s')" for p
    using ok b that same by (simp add: sched_ok_def away_def id)
qed (use ok same tg q in \<open>simp_all add: sched_ok_def\<close>)

lemma group_cancel_ok:
  assumes ok: "sched_ok cfg s" and c: "cancel_where now P (jobStore s) (queue (fair s)) = (ps, st, q)"
    and s': "s' = s\<lparr>jobStore := st, fair := (fair s)\<lparr>queue := q'\<rparr>\<rparr>" and q': "jobs q' = jobs q" "byID q' = byID q"
  shows "sched_ok cfg s'"
proof -
  have i: "index_ok (jobStore s) (queue (fair s))" using ok by (simp add: sched_ok_def)
  note cw = cancel_where_index [OF i c]
  show ?thesis
  proof (rule caller_step_ok [OF ok])
    show "index_ok (jobStore s') (queue (fair s'))" using cw(1) q' s' by (simp add: index_ok_def)
  qed (use cw q' s' in auto)
qed

lemma cancel_running_ok:
  assumes ok: "sched_ok cfg s"
  shows "sched_ok cfg (cancel_running now P s)"
proof (rule caller_step_ok [OF ok])
  show tg: "tag (jobStore (cancel_running now P s) x) = tag (jobStore s x)" for x by (simp add: cancel_running_def)
  show "index_ok (jobStore (cancel_running now P s)) (queue (fair (cancel_running now P s)))"
    using index_ok_cong [of "jobStore s" "queue (fair s)" "jobStore (cancel_running now P s)"] tg ok
    by (simp add: sched_ok_def cancel_running_def)
qed (simp_all add: cancel_running_def)

lemma cancel_step_ok:
  assumes ok: "sched_ok cfg s" and c: "cancel_job now i s = (r, s')"
  shows "sched_ok cfg s' \<and> workers s' = workers s \<and> retryTimers s' = retryTimers s \<and>
    ((s' = s) \<or>
     (\<exists>p. jobStore s' = (jobStore s)(p := Cancel now (jobStore s p)) \<and>
       (byID (queue (fair s)) i = Some p \<and> byID (queue (fair s')) = (byID (queue (fair s)))(i := None) \<and>
         (mset (jobs (queue (fair s))) = add_mset p (mset (jobs (queue (fair s')))) \<and> JobID (jobStore s p) = i \<or>
          jobs (queue (fair s')) = jobs (queue (fair s)) \<and> (\<forall>x \<in> set (jobs (queue (fair s))). JobID (jobStore s x) \<noteq> i)) \<or>
        fair s' = fair s \<and> Executing p \<in> set (workers s))))"
proof -
  have qok: "index_ok (jobStore s) (queue (fair s))" using ok by (simp add: sched_ok_def)
  obtain x q where rem: "Remove (jobStore s) i (queue (fair s)) = (x, q)" by fastforce
  have tg: "tag (((jobStore s)(p := Cancel now (jobStore s p))) y) = tag (jobStore s y)" for p y by simp
  have ix: "index_ok ((jobStore s)(p := Cancel now (jobStore s p))) q'" if "index_ok (jobStore s) q'" for p q'
    by (rule index_ok_cong [OF that]) simp
  show ?thesis
  proof (cases x)
    case (Some p)
    note rq = Remove_index [OF qok rem [unfolded Some]]
    have s': "s' = s\<lparr>fair := (fair s)\<lparr>queue := q\<rparr>, jobStore := (jobStore s)(p := Cancel now (jobStore s p))\<rparr>"
      using c rem Some by (auto simp: cancel_job_def put_job_def)
    have "sched_ok cfg s'"
      by (rule caller_step_ok [OF ok]) (use ix [OF rq(1)] rq(3,6) s' in auto)
    moreover have "mset (jobs (queue (fair s))) = add_mset p (mset (jobs q)) \<and> JobID (jobStore s p) = i \<or>
        jobs q = jobs (queue (fair s)) \<and> (\<forall>x \<in> set (jobs (queue (fair s))). JobID (jobStore s x) \<noteq> i)"
    proof (cases "\<exists>y \<in> set (jobs (queue (fair s))). JobID (jobStore s y) = i")
      case True
      then obtain y where y: "y \<in> set (jobs (queue (fair s)))" "JobID (jobStore s y) = i" by blast
      from rq(4) [OF this] y show ?thesis by blast
    qed (use rq(5) in blast)
    ultimately show ?thesis using rq(2,3) s' by auto
  next
    case None
    show ?thesis
    proof (cases "executing s i")
      case None2: None
      with c rem None ok show ?thesis by (simp add: cancel_job_def)
    next
      case (Some p)
      then have p: "Executing p \<in> set (workers s)" using ok by (simp add: sched_ok_def)
      have s': "s' = s\<lparr>fair := fair s, jobStore := (jobStore s)(p := Cancel now (jobStore s p))\<rparr>"
        using c rem None Some by (auto simp: cancel_job_def put_job_def)
      have "sched_ok cfg s'" by (rule caller_step_ok [OF ok]) (use ix [OF qok] s' in auto)
      with p s' show ?thesis by auto
    qed
  qed
qed

lemma stamp_step_ok:
  fixes s :: Scheduler and p :: job_ptr and b :: string
  assumes ok: "sched_ok cfg s" and new: "p \<notin> set (live s)"
  defines "s' \<equiv> put_job p ((jobStore s p)\<lparr>BatchID := b\<rparr>) s"
  shows "sched_ok cfg s'" "live s' = live s" "away s' = away s" "JobID (jobStore s' x) = JobID (jobStore s x)"
    "Status (jobStore s' x) = Status (jobStore s x)"
proof -
  show id: "JobID (jobStore s' x) = JobID (jobStore s x)" "Status (jobStore s' x) = Status (jobStore s x)" for x
    by (simp_all add: s'_def put_job_def)
  have ag: "AgentType (jobStore s' x) = AgentType (jobStore s x)" for x by (simp add: s'_def put_job_def)
  show lv: "live s' = live s" "away s' = away s" by (simp_all add: s'_def live_def away_def)
  have "index_ok (jobStore s') (queue (fair s'))"
  proof -
    have "tag (jobStore s' x) = tag (jobStore s x)" if "x \<in> set (jobs (queue (fair s)))" for x
      using new that by (auto simp: s'_def put_job_def live_def)
    from index_ok_cong [OF _ this] ok show ?thesis by (simp add: sched_ok_def s'_def)
  qed
  moreover have "live_ids s' = live_ids s" by (simp add: live_ids_def lv id)
  moreover have "holders a s' = holders a s" for a by (simp add: holders_def ag) (simp add: s'_def)
  ultimately show "sched_ok cfg s'"
    using ok id lv(2) by (simp add: sched_ok_def) (simp add: s'_def)
qed

lemma timer_step_ok:
  fixes s :: Scheduler and now :: int and p :: job_ptr
  assumes ok: "sched_ok cfg s" and p: "p \<in> set (retryTimers s)"
  defines "s' \<equiv> fire_retry now p s"
  shows "sched_ok cfg s'" "mset (live s') = mset (live s)"
    "set (jobs (queue (fair s'))) = insert p (set (jobs (queue (fair s))))"
    "byID (queue (fair s')) = (byID (queue (fair s)))(JobID (jobStore s p) \<mapsto> p)"
proof -
  let ?st = "(jobStore s)(p := SetStatus now StatusPending (jobStore s p))"
  have s': "jobStore s' = ?st" "queue (fair s') = Enqueue ?st p (queue (fair s))" "workers s' = workers s"
    "retryTimers s' = remove1 p (retryTimers s)" "agentCaps s' = agentCaps s" "executing s' = executing s"
    "backoff s' = backoff s" "scConfig s' = scConfig s"
    by (simp_all add: s'_def fire_retry_def requeue_def fair_Enqueue_def put_job_def)
  have tg: "tag (?st x) = tag (jobStore s x)" for x by simp
  note id = tag_fields(1) [OF tg]
  have d: "distinct (live_ids s)" using ok by (simp add: sched_ok_def)
  have q1: "index_ok ?st (queue (fair s))"
    by (rule index_ok_cong [where st = "jobStore s"]) (use ok in \<open>simp_all add: sched_ok_def\<close>)
  have pa: "p \<in> set (away s)" using p by (simp add: away_def)
  have nq: "JobID (?st x) \<noteq> JobID (?st p)" if "x \<in> set (jobs (queue (fair s)))" for x
    using away_queued [OF d pa that] unfolding id .
  have none: "byID (queue (fair s)) (JobID (?st p)) = None" using ok pa unfolding id by (simp add: sched_ok_def)
  note e = Enqueue_index [OF q1 nq, folded s'(2)]
  have m: "mset (jobs (queue (fair s'))) = add_mset p (mset (jobs (queue (fair s))))" using e(3) none by simp
  show lm: "mset (live s') = mset (live s)"
    using m s'(3,4) p by (simp add: live_def insert_DiffM)
  show "set (jobs (queue (fair s'))) = insert p (set (jobs (queue (fair s))))" using m by (metis set_mset_add_mset_insert set_mset_mset)
  show b: "byID (queue (fair s')) = (byID (queue (fair s)))(JobID (jobStore s p) \<mapsto> p)" using e(2) unfolding id by simp
  have rt: "distinct (map (\<lambda>p. JobID (jobStore s p)) (retryTimers s))" using d by (simp add: live_ids_def live_def)
  have aw: "x \<in> set (away s) \<and> JobID (jobStore s x) \<noteq> JobID (jobStore s p)" if "x \<in> set (away s')" for x
  proof -
    from that consider "x \<in> set (concat (map held_by (workers s)))" | "x \<in> set (remove1 p (retryTimers s))"
      by (auto simp: away_def s'(3,4))
    then show ?thesis
    proof cases
      case 1
      then obtain w where w: "w < length (workers s)" "x \<in> set (held_by (workers s ! w))"
        by (auto simp: in_set_conv_nth [of _ "workers s"])
      with 1 timer_disjoint [OF d w p] show ?thesis by (auto simp: away_def)
    next
      case 2
      then have x: "x \<in> set (retryTimers s)" "x \<noteq> p" using rt by (auto simp: distinct_map dest: notin_set_remove1)
      with rt p have "JobID (jobStore s x) \<noteq> JobID (jobStore s p)" by (auto simp: distinct_map dest: inj_onD)
      with x show ?thesis by (simp add: away_def)
    qed
  qed
  show "sched_ok cfg s'"
  proof (rule sched_ok_move [OF ok])
    show "index_ok (jobStore s') (queue (fair s'))" unfolding s'(1) by (rule e(1))
    show "mset (live s') \<subseteq># mset (live s)" by (simp add: lm)
    show "byID (queue (fair s')) (JobID (jobStore s' x)) = None" if "x \<in> set (away s')" for x
      using aw [OF that] ok b s'(1) id by (simp add: sched_ok_def del: fun_upd_apply) simp
    have "holders a s' = holders a s" for a
      using tag_fields(6) [OF tg] by (simp add: holders_def s'(1,3) del: fun_upd_apply)
    then show "slots (agentCaps s') a = int (length (holders a s'))" if "a \<noteq> ''''" for a
      using ok that s'(5) by (simp add: sched_ok_def)
    show "executing s' i = Some y \<longleftrightarrow> Executing y \<in> set (workers s') \<and> JobID (jobStore s' y) = i" for i y
      using ok id [of y] s' by (simp add: sched_ok_def del: fun_upd_apply)
  qed (use ok s' in \<open>simp_all add: sched_ok_def\<close>)
qed

section \<open>Where a job is and what its status says\<close>

fun waits_in :: "worker \<Rightarrow> job_ptr list" where
  "waits_in (Taken p) = [p]"
| "waits_in (Refused p) = [p]"
| "waits_in (Ready p) = [p]"
| "waits_in _ = []"

definition indexed :: "Scheduler \<Rightarrow> job_ptr \<Rightarrow> bool" where
  "indexed s p \<longleftrightarrow> byID (queue (fair s)) (JobID (jobStore s p)) = Some p"

text \<open>
  Queued jobs that the index lists are pending; the others are cancelled ones that a group
  cancellation has left in the heap. Taken jobs are pending until they start, executing ones
  running, and those behind a timer retrying.
\<close>

definition places_ok :: "Scheduler \<Rightarrow> bool" where
  "places_ok s \<longleftrightarrow>
     (\<forall>p \<in> set (jobs (queue (fair s))). Status (jobStore s p) = (if indexed s p then StatusPending else StatusCancelled)) \<and>
     (\<forall>v \<in> set (workers s). \<forall>p \<in> set (waits_in v). Status (jobStore s p) = StatusPending) \<and>
     (\<forall>p. Executing p \<in> set (workers s) \<longrightarrow> Status (jobStore s p) = StatusRunning) \<and>
     (\<forall>p \<in> set (retryTimers s). Status (jobStore s p) = StatusRetrying)"

lemma places_quiet:
  assumes ok: "places_ok s" and st: "jobStore s' = jobStore s" and rt: "retryTimers s' = retryTimers s"
    and ws: "workers s' = (workers s)[w := v']" and nv: "\<And>x. v' \<noteq> Executing x" and w: "w < length (workers s)"
    and q: "\<And>x. x \<in> set (jobs (queue (fair s'))) \<Longrightarrow>
        x \<in> set (jobs (queue (fair s))) \<and> indexed s' x = indexed s x \<or> x \<in> set (waits_in (workers s ! w)) \<and> indexed s' x"
    and v: "\<And>x. x \<in> set (waits_in v') \<Longrightarrow>
        x \<in> set (waits_in (workers s ! w)) \<or> x \<in> set (jobs (queue (fair s))) \<and> indexed s x"
  shows "places_ok s'"
proof -
  have old: "workers s ! w \<in> set (workers s)" using w by simp
  have new: "x = v' \<or> x \<in> set (workers s)" if "x \<in> set (workers s')" for x
    using that ws set_update_subset_insert by fastforce
  have 1: "Status (jobStore s' p) = (if indexed s' p then StatusPending else StatusCancelled)"
    if "p \<in> set (jobs (queue (fair s')))" for p
    using q [OF that] ok old unfolding st by (auto simp: places_ok_def)
  have 2: "Status (jobStore s' p) = StatusPending" if "x \<in> set (workers s')" "p \<in> set (waits_in x)" for x p
    using new [OF that(1)] that(2) v [of p] ok old unfolding st by (auto simp: places_ok_def)
  have 3: "Status (jobStore s' p) = StatusRunning" if "Executing p \<in> set (workers s')" for p
    using new [OF that] nv [of p] ok unfolding st by (auto simp: places_ok_def)
  from 1 2 3 ok show ?thesis by (simp add: places_ok_def st rt)
qed

lemma held_alone:
  assumes ok: "sched_ok cfg s" and w: "w < length (workers s)" and p: "p \<in> set (held_by (workers s ! w))"
  shows "p \<notin> set (jobs (queue (fair s)))" "p \<notin> set (retryTimers s)"
    "k < length (workers s) \<Longrightarrow> k \<noteq> w \<Longrightarrow> p \<notin> set (held_by (workers s ! k))"
proof -
  have d: "distinct (live_ids s)" using ok by (simp add: sched_ok_def)
  then have "distinct (live s)" by (simp add: live_ids_def distinct_map)
  then show "p \<notin> set (jobs (queue (fair s)))" "p \<notin> set (retryTimers s)"
    using worker_job_live(1) [OF w p] by (auto simp: live_def)
  show "p \<notin> set (held_by (workers s ! k))" if "k < length (workers s)" "k \<noteq> w"
    using workers_disjoint [OF d w that p, of p] by blast
qed

lemma waits_held: "set (waits_in v) \<subseteq> set (held_by v)"
  by (cases v) auto

text \<open>A worker that holds \<open>p\<close> changes the status of \<open>p\<close> only.\<close>

lemma places_own:
  assumes ok: "sched_ok cfg s" "places_ok s" and w: "w < length (workers s)" and p: "p \<in> set (held_by (workers s ! w))"
    and oth: "\<And>x. x \<noteq> p \<Longrightarrow> jobStore s' x = jobStore s x" and q: "queue (fair s') = queue (fair s)"
    and ws: "workers s' = (workers s)[w := v']" and nv: "waits_in v' = []"
    and ex: "\<And>x. v' = Executing x \<Longrightarrow> x = p \<and> Status (jobStore s' p) = StatusRunning"
    and rt: "retryTimers s' = retryTimers s \<or> retryTimers s' = p # retryTimers s \<and> Status (jobStore s' p) = StatusRetrying"
  shows "places_ok s'"
proof -
  note al = held_alone [OF ok(1) w p]
  have cases: "x = v' \<or> (x \<in> set (workers s) \<and> p \<notin> set (held_by x))" if "x \<in> set (workers s')" for x
  proof -
    from that ws obtain k where k: "k < length (workers s)" "(workers s)[w := v'] ! k = x" by (auto simp: in_set_conv_nth)
    show ?thesis
    proof (cases "k = w")
      case False
      with k al(3) [OF k(1) False] show ?thesis by auto
    qed (use k w in simp)
  qed
  have 1: "Status (jobStore s' x) = (if indexed s' x then StatusPending else StatusCancelled)"
    if "x \<in> set (jobs (queue (fair s')))" for x
    using that al(1) oth [of x] ok(2) q by (cases "x = p") (auto simp: places_ok_def indexed_def)
  have 2: "Status (jobStore s' x) = StatusPending" if "v \<in> set (workers s')" "x \<in> set (waits_in v)" for v x
    using cases [OF that(1)] that(2) nv waits_held [of v] oth [of x] ok(2) by (cases "x = p") (auto simp: places_ok_def)
  have 3: "Status (jobStore s' x) = StatusRunning" if "Executing x \<in> set (workers s')" for x
    using cases [OF that] ex oth [of x] ok(2) by (cases "x = p") (auto simp: places_ok_def)
  have 4: "Status (jobStore s' x) = StatusRetrying" if "x \<in> set (retryTimers s')" for x
    using that rt al(2) oth [of x] ok(2) by (cases "x = p") (auto simp: places_ok_def)
  from 1 2 3 4 show ?thesis by (simp add: places_ok_def)
qed

text \<open>Taking one indexed job out leaves the index of the others.\<close>

lemma indexed_after_take:
  assumes ok: "sched_ok cfg s" and p: "p \<in> set (jobs (queue (fair s)))"
    and m: "mset (jobs (queue (fair s))) = add_mset p (mset (jobs (queue (fair s'))))"
    and b: "byID (queue (fair s')) = (byID (queue (fair s)))(JobID (jobStore s p) := None)"
    and id: "\<And>x. JobID (jobStore s' x) = JobID (jobStore s x)"
    and x: "x \<in> set (jobs (queue (fair s')))"
  shows "x \<in> set (jobs (queue (fair s))) \<and> indexed s' x = indexed s x"
proof -
  have xs: "x \<in> set (jobs (queue (fair s)))" using x m by (metis insertI2 set_mset_add_mset_insert set_mset_mset)
  have "distinct (map (\<lambda>p. JobID (jobStore s p)) (jobs (queue (fair s))))"
    using ok by (simp add: sched_ok_def index_ok_def)
  moreover have "mset (map (\<lambda>p. JobID (jobStore s p)) (jobs (queue (fair s)))) =
      mset (map (\<lambda>p. JobID (jobStore s p)) (p # jobs (queue (fair s'))))"
    using m by (simp add: mset_map)
  ultimately have "distinct (map (\<lambda>p. JobID (jobStore s p)) (p # jobs (queue (fair s'))))"
    by (metis mset_eq_imp_distinct_iff)
  then have "JobID (jobStore s p) \<notin> (\<lambda>p. JobID (jobStore s p)) ` set (jobs (queue (fair s')))" by simp
  with imageI [OF x, of "\<lambda>p. JobID (jobStore s p)"] have "JobID (jobStore s x) \<noteq> JobID (jobStore s p)" by metis
  with xs b id show ?thesis by (simp add: indexed_def)
qed

text \<open>Putting a job back leaves the index of the others.\<close>

lemma indexed_after_put:
  assumes ok: "sched_ok cfg s" and w: "w < length (workers s)" and p: "p \<in> set (held_by (workers s ! w))"
    and q: "queue (fair s') = Enqueue (jobStore s) p (queue (fair s))" and st: "jobStore s' = jobStore s"
    and x: "x \<in> set (jobs (queue (fair s')))"
  shows "x = p \<and> indexed s' x \<or> x \<in> set (jobs (queue (fair s))) \<and> indexed s' x = indexed s x"
proof -
  note e = requeue_index [OF ok w p, folded q]
  have "x = p \<or> x \<in> set (jobs (queue (fair s)))" using x e(2) by (metis insertE set_mset_add_mset_insert set_mset_mset)
  then show ?thesis using e(3) worker_queue_new(3) [OF ok w p, of x] st by (auto simp: indexed_def)
qed

lemma worker_step_places:
  assumes step: "worker_step w s s'" and ok: "sched_ok cfg s" "places_ok s" and w: "w < length (workers s)"
    and cfg: "configs_ok (ScAgentCaps cfg)"
  shows "places_ok s'"
proof -
  have qok: "index_ok (jobStore s) (queue (fair s))" using ok by (simp add: sched_ok_def)
  have c: "caps_ok (ScAgentCaps cfg) (agentCaps s)" using ok by (simp add: sched_ok_def)
  from step show ?thesis
  proof cases
    case (dequeue p f)
    note t = TryDequeue_index [OF qok dequeue(4)]
    note it = indexed_after_take [OF ok(1) t(1), of s']
    show ?thesis
      by (rule places_quiet [OF ok(2), of s' w "Taken p"]) (use dequeue w t it in \<open>auto simp: indexed_def\<close>)
  next
    case (no_agent p)
    then show ?thesis by (intro places_quiet [OF ok(2), of s' w "Ready p"]) (use w in \<open>auto simp: indexed_def\<close>)
  next
    case (acquired p now ord ac)
    then show ?thesis by (intro places_quiet [OF ok(2), of s' w "Ready p"]) (use w in \<open>auto simp: indexed_def\<close>)
  next
    case (refused p now ord ac)
    then show ?thesis by (intro places_quiet [OF ok(2), of s' w "Refused p"]) (use w in \<open>auto simp: indexed_def\<close>)
  next
    case (put_back p)
    have p: "p \<in> set (held_by (workers s ! w))" using put_back(2) by simp
    note e = indexed_after_put [OF ok(1) w p, of s']
    show ?thesis by (rule places_quiet [OF ok(2), of s' w Searching]) (use put_back w e in auto)
  next
    case (search now ord r q ac)
    have f: "find_job now ord (jobStore s) (jobs (queue (fair s))) (queue (fair s)) (agentCaps s) = Some (r, q, ac)"
      using search(3) by (simp add: ListAll_def)
    note t = find_job_result [OF qok c cfg subset_refl f]
    show ?thesis
    proof (cases r)
      case None
      with t search show ?thesis by (intro places_quiet [OF ok(2), of s' w Idle]) (use w in \<open>auto simp: indexed_def\<close>)
    next
      case (Some p)
      with t have t: "p \<in> set (jobs (queue (fair s)))" "byID (queue (fair s)) (JobID (jobStore s p)) = Some p"
        "byID q = (byID (queue (fair s)))(JobID (jobStore s p) := None)" "mset (jobs (queue (fair s))) = add_mset p (mset (jobs q))"
        by simp_all
      note it = indexed_after_take [OF ok(1) t(1), of s']
      show ?thesis
        by (rule places_quiet [OF ok(2), of s' w "Ready p"]) (use search Some w t it in \<open>auto simp: indexed_def\<close>)
    qed
  next
    case (start p now)
    have p: "p \<in> set (held_by (workers s ! w))" using start(2) by simp
    show ?thesis
      by (rule places_own [OF ok w p, where v' = "Executing p"]) (use start in \<open>simp_all add: start_job_def put_job_def\<close>)
  next
    case (limiter_error p ord)
    have p: "p \<in> set (held_by (workers s ! w))" using limiter_error(2) by simp
    note e = indexed_after_put [OF ok(1) w p, of s']
    show ?thesis by (rule places_quiet [OF ok(2), of s' w Idle]) (use limiter_error w e in auto)
  next
    case (finish p env now ord res)
    have p: "p \<in> set (held_by (workers s ! w))" using finish(2) by simp
    have fr: "finish_frame p s (finish_job env now ord p res s)"
      using finish_job_frame [OF c cfg, where p = p and env = env and now = now and ord = ord and res = res] by simp
    show ?thesis
      by (rule places_own [OF ok w p, where v' = Idle])
        (use finish fr in \<open>auto simp: finish_frame_def finished_record_def\<close>)
  qed
qed

section \<open>The invariant of every history\<close>

text \<open>The index files every job under the ID it has, and no job in care has an empty ID.\<close>

definition named :: "Scheduler \<Rightarrow> bool" where
  "named s \<longleftrightarrow> (\<forall>i p. byID (queue (fair s)) i = Some p \<longrightarrow> JobID (jobStore s p) = i \<and> i \<noteq> '''') \<and> '''' \<notin> set (live_ids s)"

definition sched_inv :: "Config \<Rightarrow> Scheduler \<Rightarrow> bool" where
  "sched_inv cfg s \<longleftrightarrow> sched_ok cfg s \<and> places_ok s \<and> named s \<and> length (workers s) = ScMaxConcurrent cfg"

lemma live_ids_subset:
  assumes "mset (live s') \<subseteq># mset (live s)" "\<And>x. JobID (jobStore s' x) = JobID (jobStore s x)"
  shows "set (live_ids s') \<subseteq> set (live_ids s)"
proof -
  have "set (live s') \<subseteq> set (live s)" using assms(1) by (metis set_mset_mono set_mset_mset)
  then show ?thesis by (auto simp: live_ids_def assms(2))
qed

lemma named_step:
  assumes n: "named s" and id: "\<And>x. JobID (jobStore s' x) = JobID (jobStore s x)"
    and l: "mset (live s') \<subseteq># mset (live s)"
    and b: "\<And>i p. byID (queue (fair s')) i = Some p \<Longrightarrow>
        byID (queue (fair s)) i = Some p \<or> p \<in> set (live s) \<and> i = JobID (jobStore s p)"
  shows "named s'"
proof -
  have "JobID (jobStore s' p) = i \<and> i \<noteq> ''''" if "byID (queue (fair s')) i = Some p" for i p
    using b [OF that] n by (auto simp: named_def id live_ids_def image_iff)
  then show ?thesis using n live_ids_subset [OF l id] by (auto simp: named_def)
qed

lemma worker_step_index:
  assumes step: "worker_step w s s'" and ok: "sched_ok cfg s" and w: "w < length (workers s)"
    and cfg: "configs_ok (ScAgentCaps cfg)"
  shows "(\<forall>x. tag (jobStore s' x) = tag (jobStore s x)) \<and>
    (\<forall>i p. byID (queue (fair s')) i = Some p \<longrightarrow> byID (queue (fair s)) i = Some p \<or> p \<in> set (live s) \<and> i = JobID (jobStore s p))"
proof -
  have qok: "index_ok (jobStore s) (queue (fair s))" using ok by (simp add: sched_ok_def)
  have c: "caps_ok (ScAgentCaps cfg) (agentCaps s)" using ok by (simp add: sched_ok_def)
  have put: "(\<forall>i x. byID (Enqueue (jobStore s) p (queue (fair s))) i = Some x \<longrightarrow>
      byID (queue (fair s)) i = Some x \<or> x \<in> set (live s) \<and> i = JobID (jobStore s x))"
    if "p \<in> set (held_by (workers s ! w))" for p
    using requeue_index(3) [OF ok w that] worker_job_live(2) [OF w that] by auto
  from step show ?thesis
  proof cases
    case (dequeue p f)
    with TryDequeue_index [OF qok dequeue(4)] show ?thesis by (auto split: if_splits)
  next
    case (put_back p)
    with put [of p] show ?thesis by simp
  next
    case (limiter_error p ord)
    with put [of p] show ?thesis by simp
  next
    case (search now ord r q ac)
    have f: "find_job now ord (jobStore s) (jobs (queue (fair s))) (queue (fair s)) (agentCaps s) = Some (r, q, ac)"
      using search(3) by (simp add: ListAll_def)
    from find_job_result [OF qok c cfg subset_refl f] search(1) show ?thesis by (auto split: option.splits if_splits)
  next
    case (start p now)
    then show ?thesis by (auto simp: start_job_def put_job_def)
  next
    case (finish p env now ord res)
    with finish_job_frame [OF c cfg, where p = p and env = env and now = now and ord = ord and res = res]
    show ?thesis by (auto simp: finish_frame_def)
  qed auto
qed

lemma worker_step_length: "worker_step w s s' \<Longrightarrow> length (workers s') = length (workers s)"
  by (cases rule: worker_step.cases)
    (auto simp: start_job_def put_job_def finish_job_def handleJobError_def Let_def split: option.splits prod.splits if_splits)

text \<open>The step of a session or batch cancellation that works on the queue.\<close>

definition group_cancel :: "Scheduler \<Rightarrow> Scheduler \<Rightarrow> bool" where
  "group_cancel s s' \<longleftrightarrow>
     (\<exists>now g ps st q. (CancelSession now g (jobStore s) (queue (fair s)) = (ps, st, q) \<or>
        CancelBatch now g (jobStore s) (queue (fair s)) = (ps, st, q)) \<and>
        s' = s\<lparr>jobStore := st, fair := (fair s)\<lparr>queue := q\<rparr>\<rparr>)"

text \<open>How the jobs in the scheduler's care change in a step.\<close>

definition live_change :: "Scheduler \<Rightarrow> Scheduler \<Rightarrow> bool" where
  "live_change s s' \<longleftrightarrow>
     mset (live s') = mset (live s) \<or>
     (\<exists>p. mset (live s') = add_mset p (mset (live s))) \<or>
     (\<exists>p. mset (live s) = add_mset p (mset (live s')) \<and> IsTerminal (jobStore s' p) \<and>
        (Status (jobStore s' p) = StatusCancelled \<and> p \<in> set (jobs (queue (fair s))) \<or>
         (0 < MaxCompleted (scConfig s) \<longrightarrow> completed s' \<noteq> [] \<and> last (completed s') = Clone (jobStore s' p)))) \<or>
     group_cancel s s' \<and> away s' = away s"

text \<open>A caller or a timer changes the status of a job no worker holds.\<close>

lemma places_outside:
  assumes ok: "places_ok s" and oth: "\<And>x. x \<noteq> p \<Longrightarrow> jobStore s' x = jobStore s x"
    and ws: "workers s' = workers s" and nw: "\<And>v. v \<in> set (workers s) \<Longrightarrow> p \<notin> set (held_by v)"
    and rt: "set (retryTimers s') \<subseteq> set (retryTimers s) - {p}"
    and q: "\<And>x. x \<in> set (jobs (queue (fair s'))) \<Longrightarrow>
        x = p \<and> indexed s' p \<and> Status (jobStore s' p) = StatusPending \<or>
        x \<noteq> p \<and> x \<in> set (jobs (queue (fair s))) \<and> indexed s' x = indexed s x"
  shows "places_ok s'"
proof -
  have 1: "Status (jobStore s' x) = (if indexed s' x then StatusPending else StatusCancelled)"
    if "x \<in> set (jobs (queue (fair s')))" for x
    using q [OF that] oth [of x] ok by (auto simp: places_ok_def)
  have 2: "Status (jobStore s' x) = StatusPending" if "v \<in> set (workers s)" "x \<in> set (waits_in v)" for v x
    using nw [OF that(1)] that waits_held [of v] oth [of x] ok by (cases "x = p") (auto simp: places_ok_def)
  have 3: "Status (jobStore s' x) = StatusRunning" if "Executing x \<in> set (workers s)" for x
    using nw [OF that] that oth [of x] ok by (cases "x = p") (auto simp: places_ok_def)
  have 4: "Status (jobStore s' x) = StatusRetrying" if "x \<in> set (retryTimers s')" for x
    using that rt oth [of x] ok by (cases "x = p") (auto simp: places_ok_def)
  from 1 2 3 4 show ?thesis by (simp add: places_ok_def ws)
qed

lemma cancel_inv:
  assumes inv: "sched_ok cfg s" "places_ok s" "named s" and c: "cancel_job now i s = (r, s')"
  shows "places_ok s' \<and> named s' \<and> live_change s s'"
proof -
  note k = cancel_step_ok [OF inv(1) c]
  have d: "distinct (live s)" using inv(1) by (simp add: sched_ok_def live_ids_def distinct_map)
  have same: "places_ok s' \<and> live_change s s'"
    if "\<And>x. x \<in> set (live s) \<Longrightarrow> Status (jobStore s' x) = Status (jobStore s x)" "jobs (queue (fair s')) = jobs (queue (fair s))"
      "\<And>x. x \<in> set (jobs (queue (fair s))) \<Longrightarrow> indexed s' x = indexed s x"
  proof -
    have "Status (jobStore s' x) = StatusPending" if "v \<in> set (workers s)" "x \<in> set (waits_in v)" for v x
      using \<open>\<And>x. x \<in> set (live s) \<Longrightarrow> Status (jobStore s' x) = Status (jobStore s x)\<close> [of x] that waits_held [of v] inv(2)
      by (auto simp: live_def places_ok_def)
    moreover have "Status (jobStore s' x) = StatusRunning" if "Executing x \<in> set (workers s)" for x
      using \<open>\<And>x. x \<in> set (live s) \<Longrightarrow> Status (jobStore s' x) = Status (jobStore s x)\<close> [of x] that inv(2)
      by (force simp: live_def places_ok_def)
    ultimately have "places_ok s'"
      using that inv(2) k by (simp add: places_ok_def live_def)
    moreover have "live s' = live s" using k that(2) by (simp add: live_def)
    ultimately show ?thesis by (simp add: live_change_def)
  qed
  have idC: "JobID (Cancel now j) = JobID j" for j by (rule tag_fields(1) [OF tag_frame(1)])
  have nm: "named s'" if "mset (live s') \<subseteq># mset (live s)" "\<And>j p. byID (queue (fair s')) j = Some p \<Longrightarrow> byID (queue (fair s)) j = Some p"
    by (rule named_step [OF inv(3) _ that(1)]) (use k that(2) idC in auto)
  from k consider "s' = s"
    | p where "jobStore s' = (jobStore s)(p := Cancel now (jobStore s p))"
        "byID (queue (fair s)) i = Some p" "byID (queue (fair s')) = (byID (queue (fair s)))(i := None)"
        "mset (jobs (queue (fair s))) = add_mset p (mset (jobs (queue (fair s'))))" "JobID (jobStore s p) = i"
    | p where "jobStore s' = (jobStore s)(p := Cancel now (jobStore s p))"
        "byID (queue (fair s)) i = Some p" "byID (queue (fair s')) = (byID (queue (fair s)))(i := None)"
        "jobs (queue (fair s')) = jobs (queue (fair s))" "\<forall>x \<in> set (jobs (queue (fair s))). JobID (jobStore s x) \<noteq> i"
    | p where "jobStore s' = (jobStore s)(p := Cancel now (jobStore s p))" "fair s' = fair s" "Executing p \<in> set (workers s)"
    by blast
  then show ?thesis
  proof cases
    case 1
    with inv show ?thesis by (simp add: live_change_def)
  next
    case (2 p)
    have id: "JobID (jobStore s' x) = JobID (jobStore s x)" for x
      using 2(1) tag_fields(1) [OF tag_frame(1) [of now "jobStore s p"]] by simp
    have pin: "p \<in> set (jobs (queue (fair s)))" using 2(4) by (metis insertI1 set_mset_add_mset_insert set_mset_mset)
    have sub: "set (jobs (queue (fair s'))) \<subseteq> set (jobs (queue (fair s)))" using 2(4) by (metis set_mset_add_mset_insert set_mset_mset subset_insertI)
    have "distinct (p # jobs (queue (fair s')))"
      using d 2(4) by (metis distinct_append live_def mset.simps(2) mset_eq_imp_distinct_iff)
    then have np: "p \<notin> set (jobs (queue (fair s')))" by simp
    have nw: "p \<notin> set (held_by v)" if "v \<in> set (workers s)" for v using d pin that by (auto simp: live_def)
    have nt: "p \<notin> set (retryTimers s)" using d pin by (auto simp: live_def)
    have stp: "Status (jobStore s p) = StatusPending \<or> Status (jobStore s p) = StatusCancelled"
      using inv(2) pin by (auto simp: places_ok_def split: if_splits)
    then have can: "Status (jobStore s' p) = StatusCancelled" using 2(1) by (auto simp: Status_Cancel)
    have it: "x \<noteq> p \<and> x \<in> set (jobs (queue (fair s))) \<and> indexed s' x = indexed s x" if x: "x \<in> set (jobs (queue (fair s')))" for x
      using indexed_after_take [OF inv(1) pin 2(4) _ id x] 2(3,5) x np by auto
    have pl: "places_ok s'"
      by (rule places_outside [OF inv(2), where p = p]) (use 2(1) it nt nw k in auto)
    have lm: "mset (live s) = add_mset p (mset (live s'))" using 2(4) k by (simp add: live_def)
    moreover have "IsTerminal (jobStore s' p)" using can by (simp add: IsTerminal_def)
    ultimately have "live_change s s'" using can pin unfolding live_change_def by blast
    moreover have "named s'" by (rule nm) (use lm 2(3) in \<open>auto split: if_splits\<close>)
    ultimately show ?thesis using pl by blast
  next
    case (3 p)
    have ix: "indexed s' x = indexed s x" if "x \<in> set (jobs (queue (fair s)))" for x
      using 3(1,3,5) that tag_fields(1) [OF tag_frame(1) [of now "jobStore s p"]] by (auto simp: indexed_def)
    have "JobID (jobStore s p) = i" using inv(3) 3(2) by (simp add: named_def)
    with 3(2,5) inv(1) have "p \<notin> set (live s)" by (auto simp: live_away sched_ok_def)
    with 3(1) have "Status (jobStore s' x) = Status (jobStore s x)" if "x \<in> set (live s)" for x using that by auto
    from same [OF this 3(4) ix] have "places_ok s' \<and> live_change s s'" .
    moreover have "named s'" by (rule nm) (use k 3(3,4) in \<open>auto simp: live_def split: if_splits\<close>)
    ultimately show ?thesis by blast
  next
    case (4 p)
    have run: "Status (jobStore s p) = StatusRunning" using inv(2) 4(3) by (simp add: places_ok_def)
    have st: "Status (jobStore s' x) = Status (jobStore s x)" for x
      using 4(1) run by (cases "x = p") (simp_all add: Status_Cancel const_defs)
    have "indexed s' x = indexed s x" for x
      using 4(1,2) tag_fields(1) [OF tag_frame(1) [of now "jobStore s p"]] by (auto simp: indexed_def)
    from same [OF st _ this] 4(2) have "places_ok s' \<and> live_change s s'" by simp
    moreover have "named s'" by (rule nm) (use k 4(2) in \<open>auto simp: live_def\<close>)
    ultimately show ?thesis by blast
  qed
qed

lemma group_cancel_where:
  assumes "group_cancel s s'"
  shows "\<exists>now P ps st q q'. cancel_where now P (jobStore s) (queue (fair s)) = (ps, st, q) \<and>
    jobs q' = jobs q \<and> byID q' = byID q \<and> s' = s\<lparr>jobStore := st, fair := (fair s)\<lparr>queue := q'\<rparr>\<rparr>"
proof -
  from assms obtain now g ps st q where s': "s' = s\<lparr>jobStore := st, fair := (fair s)\<lparr>queue := q\<rparr>\<rparr>"
    and c: "CancelSession now g (jobStore s) (queue (fair s)) = (ps, st, q) \<or>
      CancelBatch now g (jobStore s) (queue (fair s)) = (ps, st, q)"
    unfolding group_cancel_def by blast
  from c obtain P q0 where "cancel_where now P (jobStore s) (queue (fair s)) = (ps, st, q0)"
    "jobs q = jobs q0" "byID q = byID q0"
    by (auto simp: CancelSession_def CancelBatch_def split: prod.splits)
  with s' show ?thesis by blast
qed

lemma group_cancel_inv:
  assumes inv: "sched_ok cfg s" "places_ok s" "named s" and g: "group_cancel s s'"
  shows "sched_ok cfg s' \<and> places_ok s' \<and> named s' \<and> away s' = away s \<and> workers s' = workers s"
proof -
  have qok: "index_ok (jobStore s) (queue (fair s))" using inv(1) by (simp add: sched_ok_def)
  have d: "distinct (live s)" using inv(1) by (simp add: sched_ok_def live_ids_def distinct_map)
  from g obtain now P ps st q q' where c: "cancel_where now P (jobStore s) (queue (fair s)) = (ps, st, q)"
    and q': "jobs q' = jobs q" "byID q' = byID q" and s': "s' = s\<lparr>jobStore := st, fair := (fair s)\<lparr>queue := q'\<rparr>\<rparr>"
    using group_cancel_where by blast
  note cw = cancel_where_index [OF qok c]
  have id: "JobID (jobStore s' x) = JobID (jobStore s x)" for x using tag_fields(1) [OF cw(3)] s' by simp
  have sub: "set (jobs q) \<subseteq> set (jobs (queue (fair s)))" using cw(2) by (metis set_mset_mono set_mset_mset)
  have aw: "jobStore s' x = jobStore s x" if "x \<in> set (away s)" for x
    using that d cw(4,5) s' by (auto simp: live_away cancel_ptrs_def)
  have heap: "Status (jobStore s' x) = (if indexed s' x then StatusPending else StatusCancelled)" if x: "x \<in> set (jobs q)" for x
  proof (cases "x \<in> set ps")
    case True
    then have "byID q (JobID (jobStore s x)) = None" using cw(6) by auto
    then have "\<not> indexed s' x" using id s' q'(2) by (simp add: indexed_def)
    moreover have "Status (jobStore s x) = StatusPending \<or> Status (jobStore s x) = StatusCancelled"
      using inv(2) x sub by (auto simp: places_ok_def split: if_splits)
    then have "Status (jobStore s' x) = StatusCancelled" using True cw(5) s' by (auto simp: cancel_ptrs_def Status_Cancel)
    ultimately show ?thesis by simp
  next
    case False
    have "JobID (jobStore s x) \<noteq> JobID (jobStore s y)" if "y \<in> set ps" for y
      using index_okD(4) [OF qok, of x y] x sub that False cw(4) by auto
    then have "byID q (JobID (jobStore s x)) = byID (queue (fair s)) (JobID (jobStore s x))" using cw(6) by auto
    then have "indexed s' x = indexed s x" using id s' q'(2) by (simp add: indexed_def)
    moreover have "jobStore s' x = jobStore s x" using False cw(5) s' by (simp add: cancel_ptrs_def)
    ultimately show ?thesis using inv(2) x sub by (auto simp: places_ok_def)
  qed
  have wt: "Status (jobStore s' x) = StatusPending" if "v \<in> set (workers s)" "x \<in> set (waits_in v)" for v x
  proof -
    have "x \<in> set (away s)" using that waits_held [of v] by (auto simp: away_def)
    from aw [OF this] inv(2) that show ?thesis by (auto simp: places_ok_def)
  qed
  have ex: "Status (jobStore s' x) = StatusRunning" if "Executing x \<in> set (workers s)" for x
  proof -
    have "x \<in> set (away s)" using that by (force simp: away_def)
    from aw [OF this] inv(2) that show ?thesis by (auto simp: places_ok_def)
  qed
  have rt: "Status (jobStore s' x) = StatusRetrying" if "x \<in> set (retryTimers s)" for x
    using aw [of x] inv(2) that by (simp add: away_def places_ok_def)
  have ws: "workers s' = workers s" "retryTimers s' = retryTimers s" using s' by simp_all
  have "places_ok s'" unfolding places_ok_def ws using heap wt ex rt s' q'(1) by simp
  moreover have "named s'"
    by (rule named_step [OF inv(3) id]) (use cw(2,6) s' q' in \<open>auto simp: live_def split: if_splits\<close>)
  moreover have "sched_ok cfg s'" by (rule group_cancel_ok [OF inv(1) c s' q'])
  ultimately show ?thesis by (simp add: away_def ws)
qed

lemma submit_inv:
  assumes inv: "sched_ok cfg s" "places_ok s" "named s" and sub: "Submit fresh now p s = (None, s')"
    and new: "p \<notin> set (live s)" "JobID (jobStore s' p) \<notin> insert '''' (set (live_ids s))"
  shows "sched_ok cfg s' \<and> places_ok s' \<and> named s' \<and> live_change s s' \<and> workers s' = workers s"
proof -
  have new2: "JobID (jobStore s' p) \<notin> set (live_ids s)" "JobID (jobStore s' p) \<noteq> ''''" using new(2) by simp_all
  note sb = Submit_step_ok [OF inv(1) sub new(1) new2(1)]
  have nl: "x \<noteq> p" if "x \<in> set (live s)" for x using new(1) that by blast
  have same: "JobID (jobStore s' x) = JobID (jobStore s x)" if "x \<in> set (live s)" for x using sb(4) [OF nl [OF that]] by simp
  have "places_ok s'"
  proof (rule places_outside [OF inv(2) sb(4) sb(7)])
    show "p \<notin> set (held_by v)" if "v \<in> set (workers s)" for v using that new(1) by (auto simp: live_def)
    show "set (retryTimers s') \<subseteq> set (retryTimers s) - {p}" using sb(8) new(1) by (auto simp: live_def)
    fix x assume x: "x \<in> set (jobs (queue (fair s')))"
    then consider "x = p" | "x \<in> set (jobs (queue (fair s)))" using sb(6) by blast
    then show "x = p \<and> indexed s' p \<and> Status (jobStore s' p) = StatusPending \<or>
        x \<noteq> p \<and> x \<in> set (jobs (queue (fair s))) \<and> indexed s' x = indexed s x"
    proof cases
      case 1
      then show ?thesis using sb(3,5) by (simp add: indexed_def)
    next
      case 2
      then have xl: "x \<in> set (live s)" by (simp add: live_def)
      then have "JobID (jobStore s x) \<noteq> JobID (jobStore s' p)" using new2(1) by (auto simp: live_ids_def image_iff)
      then show ?thesis using 2 nl [OF xl] same [OF xl] sb(5) by (simp add: indexed_def)
    qed
  qed
  moreover have "named s'"
  proof -
    have old: "JobID (jobStore s' x) = i" if "byID (queue (fair s)) i = Some x" for i x
    proof (cases "x = p")
      case True
      from inv(3) that have "JobID (jobStore s x) = i" "i \<noteq> ''''" by (auto simp: named_def)
      then show ?thesis using sub True
        by (auto simp: Submit_def Let_def prepared_def SetStatus_def requeue_def put_job_def split: if_splits)
    next
      case False
      with inv(3) that sb(4) show ?thesis by (auto simp: named_def)
    qed
    have b: "JobID (jobStore s' x) = i \<and> i \<noteq> ''''" if "byID (queue (fair s')) i = Some x" for i x
      using that old [of i x] inv(3) new2(2) unfolding sb(5) by (auto simp: named_def split: if_splits)
    have "set (live s') \<subseteq> insert p (set (live s))"
      using sb(2) by (metis set_mset_add_mset_insert set_mset_mset subset_insertI subset_refl)
    then have "'''' \<notin> set (live_ids s')"
      using inv(3) same new2(2) by (auto simp: named_def live_ids_def image_iff)
    with b show ?thesis by (simp add: named_def)
  qed
  moreover have "live_change s s'" using sb(2) by (auto simp: live_change_def)
  ultimately show ?thesis using sb(1,7) by simp
qed

lemma timer_inv:
  assumes inv: "sched_ok cfg s" "places_ok s" "named s" and p: "p \<in> set (retryTimers s)" and s': "s' = fire_retry now p s"
  shows "sched_ok cfg s' \<and> places_ok s' \<and> named s' \<and> live_change s s' \<and> workers s' = workers s"
proof -
  note t = timer_step_ok [OF inv(1) p, of now, folded s']
  have d: "distinct (live s)" using inv(1) by (simp add: sched_ok_def live_ids_def distinct_map)
  have f: "workers s' = workers s" "retryTimers s' = remove1 p (retryTimers s)"
    "jobStore s' = (jobStore s)(p := SetStatus now StatusPending (jobStore s p))"
    by (simp_all add: s' fire_retry_def requeue_def put_job_def)
  have id: "JobID (jobStore s' x) = JobID (jobStore s x)" for x
    using f(3) tag_fields(1) [OF tag_frame(2) [of now StatusPending "jobStore s p"]] by simp
  have pa: "p \<in> set (away s)" using p by (simp add: away_def)
  have "places_ok s'"
  proof (rule places_outside [OF inv(2) _ f(1)])
    show "jobStore s' x = jobStore s x" if "x \<noteq> p" for x using that f(3) by simp
    show "p \<notin> set (held_by v)" if "v \<in> set (workers s)" for v using d p that by (auto simp: live_def)
    show "set (retryTimers s') \<subseteq> set (retryTimers s) - {p}"
      using d f(2) set_remove1_subset [of p "retryTimers s"] by (auto simp: live_def)
    fix x assume "x \<in> set (jobs (queue (fair s')))"
    then consider "x = p" | "x \<in> set (jobs (queue (fair s)))" using t(3) by blast
    then show "x = p \<and> indexed s' p \<and> Status (jobStore s' p) = StatusPending \<or>
        x \<noteq> p \<and> x \<in> set (jobs (queue (fair s))) \<and> indexed s' x = indexed s x"
    proof cases
      case 1
      then show ?thesis using t(4) f(3) id [of p] by (auto simp: indexed_def)
    next
      case 2
      have "JobID (jobStore s x) \<noteq> JobID (jobStore s p)"
        by (rule away_queued [OF _ pa 2]) (use inv(1) in \<open>simp add: sched_ok_def\<close>)
      then show ?thesis using 2 t(4) id by (auto simp: indexed_def)
    qed
  qed
  moreover have "named s'"
    by (rule named_step [OF inv(3) id]) (use t(2,4) p in \<open>auto simp: live_def split: if_splits\<close>)
  moreover have "live_change s s'" using t(2) by (simp add: live_change_def)
  ultimately show ?thesis using t(1) f(1) by simp
qed

text \<open>Cancelling executing jobs changes no status and no ID.\<close>

lemma cancel_running_inv:
  assumes inv: "sched_ok cfg s" "places_ok s" "named s" and s': "s' = cancel_running now P s"
  shows "sched_ok cfg s' \<and> places_ok s' \<and> named s' \<and> live_change s s' \<and> workers s' = workers s"
proof -
  have f: "workers s' = workers s" "retryTimers s' = retryTimers s" "fair s' = fair s" by (simp_all add: s' cancel_running_def)
  have tg: "tag (jobStore s' x) = tag (jobStore s x)" for x by (simp add: s' cancel_running_def)
  note id = tag_fields(1) [OF tg]
  have st: "Status (jobStore s' x) = Status (jobStore s x)" for x
  proof (cases "executing s (JobID (jobStore s x)) = Some x")
    case True
    then have "Executing x \<in> set (workers s)" using inv(1) by (simp add: sched_ok_def)
    with inv(2) have "Status (jobStore s x) = StatusRunning" by (simp add: places_ok_def)
    then show ?thesis by (simp add: s' cancel_running_def Status_Cancel const_defs)
  qed (simp add: s' cancel_running_def)
  have "places_ok s'" using inv(2) by (simp add: places_ok_def f st indexed_def id)
  moreover have "named s'" by (rule named_step [OF inv(3) id]) (simp_all add: live_def f)
  moreover have "live_change s s'" by (simp add: live_change_def live_def f)
  ultimately show ?thesis using cancel_running_ok [OF inv(1)] f(1) s' by simp
qed

lemma sched_step_inv:
  assumes step: "sched_step s s'" and inv: "sched_inv cfg s" and cfg: "configs_ok (ScAgentCaps cfg)"
  shows "sched_inv cfg s' \<and> live_change s s'"
proof -
  have ok: "sched_ok cfg s" "places_ok s" "named s" and len: "length (workers s) = ScMaxConcurrent cfg"
    using inv by (simp_all add: sched_inv_def)
  have quiet: "sched_inv cfg s' \<and> live_change s s'"
    if "sched_ok cfg s'" "jobStore s' = jobStore s" "fair s' = fair s" "workers s' = workers s" "retryTimers s' = retryTimers s"
  proof -
    have "live s' = live s" "live_ids s' = live_ids s" using that by (simp_all add: live_def live_ids_def)
    then show ?thesis using that ok len
      by (simp add: sched_inv_def places_ok_def named_def indexed_def live_change_def)
  qed
  from step show ?thesis
  proof cases
    case (worker w)
    note wi = worker_step_index [OF worker(2) ok(1) worker(1) cfg]
    note wo = worker_step_ok [OF worker(2) ok(1) worker(1) cfg]
    have "mset (live s') \<subseteq># mset (live s)" using wo by auto
    then have "named s'" by (intro named_step [OF ok(3)]) (use wi tag_fields(1) in blast)+
    with wo worker_step_places [OF worker(2) ok(1,2) worker(1) cfg] worker_step_length [OF worker(2)] len
    show ?thesis unfolding sched_inv_def live_change_def by auto
  next
    case (submit fresh now p)
    with submit_inv [OF ok submit] len show ?thesis by (simp add: sched_inv_def)
  next
    case (cancel now i r)
    with cancel_inv [OF ok cancel] cancel_step_ok [OF ok(1) cancel] len show ?thesis by (simp add: sched_inv_def)
  next
    case (stamp p b)
    note t = stamp_step_ok [OF ok(1) stamp(2), of b, folded stamp(1)]
    have f: "fair s' = fair s" "workers s' = workers s" "retryTimers s' = retryTimers s" by (simp_all add: stamp(1))
    have "places_ok s'" using ok(2) by (simp add: places_ok_def f t(4,5) indexed_def)
    moreover have "named s'" using ok(3) by (simp add: named_def f t(2,4) live_ids_def)
    ultimately show ?thesis using t(1,2) f(2) len by (simp add: sched_inv_def live_change_def)
  next
    case (cancel_session now name ps st q)
    then have g: "group_cancel s s'" unfolding group_cancel_def by blast
    from group_cancel_inv [OF ok g] g len show ?thesis by (simp add: sched_inv_def live_change_def)
  next
    case (cancel_batch now b ps st q)
    then have g: "group_cancel s s'" unfolding group_cancel_def by blast
    from group_cancel_inv [OF ok g] g len show ?thesis by (simp add: sched_inv_def live_change_def)
  next
    case (cancel_executing now P)
    with cancel_running_inv [OF ok cancel_executing] len show ?thesis by (simp add: sched_inv_def)
  next
    case (timer p now)
    with timer_inv [OF ok timer(2,1)] len show ?thesis by (simp add: sched_inv_def)
  next
    case (wake t)
    have "live_ids s' = live_ids s" "holders a s' = holders a s" "away s' = away s" for a
      using wake by (simp_all add: live_def live_ids_def holders_def away_def)
    moreover have "backoff_ok (backoff s')" using wake wake_sleeper_ok by simp
    ultimately have "sched_ok cfg s'" using ok(1) wake by (simp add: sched_ok_def)
    then show ?thesis by (rule quiet) (simp_all add: wake)
  next
    case (recover now ord a ac)
    have c: "caps_ok (ScAgentCaps cfg) (agentCaps s)" using ok by (simp add: sched_ok_def)
    have "live_ids s' = live_ids s" "holders a s' = holders a s" "away s' = away s" for a
      using recover by (simp_all add: live_def live_ids_def holders_def away_def)
    moreover note recover_slots [OF c cfg recover(2)]
    ultimately have "sched_ok cfg s'" using ok(1) recover by (simp add: sched_ok_def)
    then show ?thesis by (rule quiet) (simp_all add: recover)
  next
    case pause
    have "live_ids s' = live_ids s" "holders a s' = holders a s" "away s' = away s" for a
      using pause by (simp_all add: live_def live_ids_def holders_def away_def Pause_def)
    then have "sched_ok cfg s'" using ok(1) pause by (simp add: sched_ok_def Pause_def backoff_ok_def)
    then show ?thesis by (rule quiet) (simp_all add: pause Pause_def)
  next
    case resume
    have "live_ids s' = live_ids s" "holders a s' = holders a s" "away s' = away s" for a
      using resume by (simp_all add: live_def live_ids_def holders_def away_def Resume_def)
    then have "sched_ok cfg s'" using ok(1) resume by (simp add: sched_ok_def Resume_def backoff_ok_def)
    then show ?thesis by (rule quiet) (simp_all add: resume Resume_def)
  qed
qed

lemma init_inv:
  assumes "configs_ok (ScAgentCaps cfg)"
  shows "sched_inv cfg (snd (Start (SetExecutor (new_scheduler st cfg))))"
proof -
  have none: "concat (map f (replicate n Idle)) = []" if "f Idle = []" for f :: "worker \<Rightarrow> job_ptr list" and n
    using that by (induction n) simp_all
  have "slots (NewAgentCaps (ScAgentCaps cfg)) a = 0" for a by (simp add: NewAgentCaps_def slots_def)
  then show ?thesis
    using NewAgentCaps_ok [OF assms] queue_ok_index [OF NewJobQueue_ok [of st]]
    by (simp add: sched_inv_def sched_ok_def places_ok_def named_def Start_def SetExecutor_def new_scheduler_def NewFairScheduler_def
        live_ids_def live_def away_def holders_def none backoff_ok_def NewBackoffController_def)
      (simp add: NewJobQueue_def)
qed

lemma sched_reachable_inv:
  "sched_reachable st cfg s \<Longrightarrow> configs_ok (ScAgentCaps cfg) \<Longrightarrow> sched_inv cfg s"
proof (induction rule: sched_reachable.induct)
  case init
  then show ?case by (rule init_inv)
next
  case (step s s')
  then show ?case using sched_step_inv by blast
qed

end
