(* ===== verification/SchedProps.thy ===== *)
theory SchedProps
  imports SchedPlaces
begin

text \<open>
  What holds in every history of the scheduler, and how its fairness accounting leaks. A run of
  two workers gives the concrete inputs.
\<close>

section \<open>A run of two workers\<close>

definition demo_config :: Config where
  "demo_config =
     \<lparr>ScMaxConcurrent = 2,
      ScAgentCaps = \<lparr>Default = DefaultAgentCapConfig\<lparr>MaxConcurrent := 1\<rparr>, PerAgent = [], GlobalMax = 0\<rparr>,
      ScFair = \<lparr>MaxPerSession = 1, MaxPerBatch = 5\<rparr>, ScBackoff = DefaultBackoffConfig,
      MaxCompleted = 100, DefaultRetries = 3, DefaultRetryDelay = 1000000000\<rparr>"

text \<open>Job 0 of session \<open>a\<close> and job 1 of session \<open>b\<close>, both for the one-slot agent type \<open>x\<close>.\<close>

definition demo_jobs :: store where
  "demo_jobs p = (NewSpawnJob '''' (int p) (if p = 0 then ''0'' else ''1'') JobTypeDispatch (if p = 0 then ''a'' else ''b''))
     \<lparr>AgentType := ''x''\<rparr>"

definition d_take :: "nat \<Rightarrow> job_ptr \<Rightarrow> Scheduler \<Rightarrow> Scheduler" where
  "d_take w p s = set_worker w (Taken p) (s\<lparr>fair := snd (TryDequeue (jobStore s) (fair s))\<rparr>)"

definition d_caps :: "nat \<Rightarrow> worker \<Rightarrow> Scheduler \<Rightarrow> Scheduler" where
  "d_caps w v s = set_worker w v (s\<lparr>agentCaps := snd (the (TryAcquire 3 [] ''x'' (agentCaps s)))\<rparr>)"

definition d_search :: "Scheduler \<Rightarrow> Scheduler" where
  "d_search s =
     (case the (find_job 4 [] (jobStore s) (ListAll (queue (fair s))) (queue (fair s)) (agentCaps s)) of
        (r, q, ac) \<Rightarrow> set_worker 1 Idle (s\<lparr>fair := (fair s)\<lparr>queue := q\<rparr>, agentCaps := ac\<rparr>))"

definition demo_env :: error_env where
  "demo_env = \<lparr>envLower = (\<lambda>s. s), envJitter = (\<lambda>d. d), envGrow = (\<lambda>d. None)\<rparr>"

definition run0 :: Scheduler where "run0 = snd (Start (SetExecutor (new_scheduler demo_jobs demo_config)))"
definition run1 :: Scheduler where "run1 = snd (Submit '''' 0 0 run0)"
definition run2 :: Scheduler where "run2 = snd (Submit '''' 1 1 run1)"
definition run3 :: Scheduler where "run3 = d_take 0 0 run2"
definition run4 :: Scheduler where "run4 = d_caps 0 (Ready 0) run3"
definition run5 :: Scheduler where "run5 = set_worker 0 (Executing 0) (start_job 3 0 run4)"
definition run6 :: Scheduler where "run6 = d_take 1 1 run5"
definition run7 :: Scheduler where "run7 = d_caps 1 (Refused 1) run6"
definition run8 :: Scheduler where "run8 = set_worker 1 Searching (requeue 1 run7)"
definition run9 :: Scheduler where "run9 = d_search run8"
definition run10 :: Scheduler where "run10 = set_worker 0 Idle (finish_job demo_env 5 [] 0 None run9)"

lemma run_facts:
  "fst (Submit '''' 0 0 run0) = None" "live run0 = []"
  "fst (Submit '''' 1 1 run1) = None" "live run1 = [0]" "JobID (jobStore run1 0) = ''0''" "JobID (jobStore run2 1) = ''1''"
  "workers run2 = [Idle, Idle]" "\<not> paused (backoff run2)" "fst (TryDequeue (jobStore run2) (fair run2)) = Some 0"
  "workers run3 = [Taken 0, Idle]" "AgentType (jobStore run3 0) = ''x''" "map_option fst (TryAcquire 3 [] ''x'' (agentCaps run3)) = Some True"
  "workers run4 = [Ready 0, Idle]"
  "workers run5 = [Executing 0, Idle]" "\<not> paused (backoff run5)" "fst (TryDequeue (jobStore run5) (fair run5)) = Some 1"
  "workers run6 = [Executing 0, Taken 1]" "AgentType (jobStore run6 1) = ''x''" "map_option fst (TryAcquire 3 [] ''x'' (agentCaps run6)) = Some False"
  "workers run7 = [Executing 0, Refused 1]"
  "workers run8 = [Executing 0, Searching]"
  "map_option fst (find_job 4 [] (jobStore run8) (ListAll (queue (fair run8))) (queue (fair run8)) (agentCaps run8)) = Some None"
  "workers run9 = [Executing 0, Idle]"
  "workers run10 = [Idle, Idle]" "jobs (queue (fair run10)) = [1]" "retryTimers run10 = []" "\<not> paused (backoff run10)"
  "GetRunning ''x'' (agentCaps run10) = 0" "fst (TryDequeue (jobStore run10) (fair run10)) = None"
  "RunningCount ''b'' (fair run10) = 1"
  by code_simp+


lemma map_option_fst: "map_option fst x = Some b \<Longrightarrow> x = Some (b, snd (the x))"
  by (cases x) auto

lemma fst_eq: "fst x = b \<Longrightarrow> x = (b, snd x)"
  by auto

lemma run2_reachable: "sched_reachable demo_jobs demo_config run2"
proof -
  have "sched_reachable demo_jobs demo_config run0" unfolding run0_def by (rule sched_reachable.init)
  moreover have "sched_step run0 run1"
    by (rule sched_step.submit [OF fst_eq [OF run_facts(1), folded run1_def]]) (simp_all add: run_facts live_ids_def)
  moreover have "sched_step run1 run2"
    by (rule sched_step.submit [OF fst_eq [OF run_facts(3), folded run2_def]]) (simp_all add: run_facts live_ids_def del: One_nat_def)
  ultimately show ?thesis by (blast intro: sched_reachable.step)
qed

lemma run5_reachable: "sched_reachable demo_jobs demo_config run5"
proof -
  have "worker_step 0 run2 run3"
    unfolding run3_def d_take_def by (rule worker_step.dequeue [OF _ _ fst_eq]) (simp_all add: run_facts)
  moreover have "worker_step 0 run3 run4"
    unfolding run4_def d_caps_def
    by (rule worker_step.acquired [where p = 0 and now = 3 and ord = "[]"])
      (use map_option_fst [OF run_facts(12)] in \<open>simp_all add: run_facts\<close>)
  moreover have "worker_step 0 run4 run5"
    unfolding run5_def by (rule worker_step.start) (simp add: run_facts)
  ultimately have "sched_step run2 run3" "sched_step run3 run4" "sched_step run4 run5"
    by (auto intro!: sched_step.worker simp: run_facts)
  then show ?thesis using run2_reachable by (blast intro: sched_reachable.step)
qed

lemma run9_reachable: "sched_reachable demo_jobs demo_config run9" "sched_step run9 run10"
proof -
  have "worker_step 1 run5 run6"
    unfolding run6_def d_take_def by (rule worker_step.dequeue [OF _ _ fst_eq]) (simp_all add: run_facts)
  moreover have "worker_step 1 run6 run7"
    unfolding run7_def d_caps_def
    by (rule worker_step.refused [where p = 1 and now = 3 and ord = "[]"])
      (use map_option_fst [OF run_facts(19)] in \<open>simp_all add: run_facts del: One_nat_def\<close>)
  moreover have "worker_step 1 run7 run8"
    unfolding run8_def by (rule worker_step.put_back) (simp add: run_facts)
  moreover have "worker_step 1 run8 run9"
  proof -
    obtain q ac where f: "find_job 4 [] (jobStore run8) (ListAll (queue (fair run8))) (queue (fair run8)) (agentCaps run8) = Some (None, q, ac)"
      using run_facts(22) by auto
    have "run9 = set_worker 1 (case None of None \<Rightarrow> Idle | Some p \<Rightarrow> Ready p) (run8\<lparr>fair := (fair run8)\<lparr>queue := q\<rparr>, agentCaps := ac\<rparr>)"
      by (simp add: run9_def d_search_def f)
    with worker_step.search [OF _ f, of 1] show ?thesis by (simp add: run_facts)
  qed
  moreover have "worker_step 0 run9 run10"
    unfolding run10_def by (rule worker_step.finish) (simp add: run_facts)
  ultimately have "sched_step run5 run6" "sched_step run6 run7" "sched_step run7 run8" "sched_step run8 run9" "sched_step run9 run10"
    using sched_step.worker [of 1 run5 run6] sched_step.worker [of 1 run6 run7] sched_step.worker [of 1 run7 run8]
      sched_step.worker [of 1 run8 run9] sched_step.worker [of 0 run9 run10] by (simp_all add: run_facts)
  then show "sched_reachable demo_jobs demo_config run9" "sched_step run9 run10"
    using run5_reachable by (blast intro: sched_reachable.step)+
qed

lemma run10_reachable: "sched_reachable demo_jobs demo_config run10"
  by (rule sched_reachable.step [OF run9_reachable])

lemma demo_configs_ok: "configs_ok (ScAgentCaps demo_config)"
  by code_simp

section \<open>Properties\<close>

text \<open>
  C22. In every history, \<^verbatim>\<open>CancelSession\<close>, \<^verbatim>\<open>CancelBatch\<close> and
  \<^verbatim>\<open>SubmitBatch\<close> included, the jobs in the scheduler's care have distinct IDs, so each
  is in one place: in the heap, with one worker, or behind one retry timer. The status says
  where: taken jobs are pending, executing ones running and listed as such under their ID,
  the ones behind a timer retrying; a job in the heap is pending if the index lists it, and
  otherwise one that a group cancellation cancelled and left behind. The index lists no job that a
  worker or a timer has. It may list jobs that are in no place: a group cancellation can take
  another job out of the heap (\<open>CancelSession_loses_job\<close>).
\<close>

theorem live_jobs_one_place:
  assumes "sched_reachable st cfg s" "configs_ok (ScAgentCaps cfg)"
  shows "distinct (live_ids s) \<and>
    (\<forall>p \<in> set (jobs (queue (fair s))).
       byID (queue (fair s)) (JobID (jobStore s p)) = Some p \<and> Status (jobStore s p) = StatusPending \<or>
       byID (queue (fair s)) (JobID (jobStore s p)) = None \<and> Status (jobStore s p) = StatusCancelled) \<and>
    (\<forall>v \<in> set (workers s). \<forall>p \<in> set (waits_in v). Status (jobStore s p) = StatusPending) \<and>
    (\<forall>i p. executing s i = Some p \<longleftrightarrow> Executing p \<in> set (workers s) \<and> JobID (jobStore s p) = i) \<and>
    (\<forall>p. Executing p \<in> set (workers s) \<longrightarrow> Status (jobStore s p) = StatusRunning) \<and>
    (\<forall>p \<in> set (retryTimers s). Status (jobStore s p) = StatusRetrying) \<and>
    (\<forall>p \<in> set (away s). byID (queue (fair s)) (JobID (jobStore s p)) = None)"
proof -
  have inv: "sched_ok cfg s" "places_ok s" using sched_reachable_inv [OF assms] by (simp_all add: sched_inv_def)
  then have "index_ok (jobStore s) (queue (fair s))" by (simp add: sched_ok_def)
  note ix = index_okD(3) [OF this]
  have "byID (queue (fair s)) (JobID (jobStore s p)) = Some p \<and> Status (jobStore s p) = StatusPending \<or>
      byID (queue (fair s)) (JobID (jobStore s p)) = None \<and> Status (jobStore s p) = StatusCancelled"
    if "p \<in> set (jobs (queue (fair s)))" for p
    using inv(2) that ix [OF that] by (cases "byID (queue (fair s)) (JobID (jobStore s p))") (auto simp: places_ok_def indexed_def)
  with inv show ?thesis by (simp add: sched_ok_def places_ok_def)
qed

text \<open>After the cancellation of session \<open>b\<close> its queued job is gone, the executing one runs on.\<close>

lemma run5_cancelled:
  "\<exists>s. sched_step run5 s \<and> workers s = workers run5 \<and> jobs (queue (fair s)) = []"
proof -
  obtain ps st q where c: "CancelSession 5 ''b'' (jobStore run5) (queue (fair run5)) = (ps, st, q)" by (metis prod_cases3)
  moreover have "jobs (snd (snd (CancelSession 5 ''b'' (jobStore run5) (queue (fair run5))))) = []" by code_simp
  ultimately show ?thesis using sched_step.cancel_session [OF c] by force
qed

theorem live_jobs_one_place_witness:
  "distinct (live_ids run5) \<and> Status (jobStore run5 0) = StatusRunning \<and>
   (\<exists>s :: Scheduler. jobs (queue (fair s)) = [] \<and> workers s = [Executing 0, Idle] \<and> Status (jobStore s 0) = StatusRunning)"
proof -
  obtain s where s: "sched_step run5 s" "workers s = workers run5" "jobs (queue (fair s)) = []" using run5_cancelled by blast
  have "jobs (queue (fair s)) = [] \<and> workers s = [Executing 0, Idle] \<and> Status (jobStore s 0) = StatusRunning"
    using live_jobs_one_place [OF sched_reachable.step [OF run5_reachable s(1)] demo_configs_ok] s(2,3) run_facts(14) by simp
  with live_jobs_one_place [OF run5_reachable demo_configs_ok] run_facts(14) show ?thesis
    by (intro conjI exI [of _ s]) auto
qed

text \<open>
  C23. The workers never execute more jobs of an agent type at once than its cap allows: every
  executing job of the type holds one of its slots.
\<close>

theorem agent_concurrency_bounded:
  assumes "sched_reachable st cfg s" "configs_ok (ScAgentCaps cfg)" "a \<noteq> ''''"
  shows "int (length (filter (\<lambda>v. \<exists>p. v = Executing p \<and> AgentType (jobStore s p) = a) (workers s)))
       \<le> GetRunning a (agentCaps s) \<and> GetRunning a (agentCaps s) \<le> cap_limit (agentCaps s) a"
proof -
  let ?P = "\<lambda>v. \<exists>p. v = Executing p \<and> AgentType (jobStore s p) = a"
  have ok: "sched_ok cfg s" using sched_reachable_inv [OF assms(1,2)] by (simp add: sched_inv_def)
  have "length (filter ?P ws) \<le> length (filter (\<lambda>p. AgentType (jobStore s p) = a) (concat (map slot_of ws)))" for ws
  proof (induction ws)
    case (Cons v ws)
    then show ?case by (cases v) auto
  qed simp
  then have "length (filter ?P (workers s)) \<le> length (holders a s)" by (simp add: holders_def)
  moreover have "caps_ok (ScAgentCaps cfg) (agentCaps s)" "slots (agentCaps s) a = int (length (holders a s))"
    using ok assms(3) by (simp_all add: sched_ok_def)
  moreover from this(1) have "slots (agentCaps s) a \<le> cap_limit (agentCaps s) a" by (simp add: caps_ok_def)
  ultimately show ?thesis by (simp add: GetRunning_def)
qed

theorem agent_concurrency_bounded_witness:
  "int (length (filter (\<lambda>v. \<exists>p. v = Executing p \<and> AgentType (jobStore run5 p) = ''x'') (workers run5)))
     \<le> GetRunning ''x'' (agentCaps run5) \<and> GetRunning ''x'' (agentCaps run5) \<le> cap_limit (agentCaps run5) ''x''"
  by (rule agent_concurrency_bounded [OF run5_reachable demo_configs_ok]) simp

text \<open>
  How a job leaves the scheduler's care: it has reached a terminal status, and then it was
  cancelled in the queue or a copy of it is the latest entry of the completed list, or a group
  cancellation took it out of the heap.
\<close>

lemma job_leaves:
  assumes "sched_reachable st cfg s" "configs_ok (ScAgentCaps cfg)" "sched_step s s'"
    and "p \<in> set (live s)" "p \<notin> set (live s')"
  shows "group_cancel s s' \<and> p \<in> set (jobs (queue (fair s))) \<or> IsTerminal (jobStore s' p) \<and>
    (Status (jobStore s' p) = StatusCancelled \<and> p \<in> set (jobs (queue (fair s))) \<or>
     (0 < MaxCompleted (scConfig s) \<longrightarrow> completed s' \<noteq> [] \<and> last (completed s') = Clone (jobStore s' p)))"
proof -
  have inv: "sched_inv cfg s" by (rule sched_reachable_inv [OF assms(1,2)])
  have lc: "live_change s s'" using sched_step_inv [OF assms(3) inv assms(2)] by simp
  show ?thesis
  proof (cases "group_cancel s s' \<and> away s' = away s")
    case True
    with assms(4,5) show ?thesis by (auto simp: live_away)
  next
    case False
    have neq: "mset (live s') \<noteq> mset (live s)" using assms(4,5) by (metis set_mset_mset)
    have neq2: "\<not> (\<exists>q. mset (live s') = add_mset q (mset (live s)))"
      using assms(4,5) by (metis insertI2 set_mset_add_mset_insert set_mset_mset)
    obtain q where q: "mset (live s) = add_mset q (mset (live s'))"
      "IsTerminal (jobStore s' q) \<and> (Status (jobStore s' q) = StatusCancelled \<and> q \<in> set (jobs (queue (fair s))) \<or>
         (0 < MaxCompleted (scConfig s) \<longrightarrow> completed s' \<noteq> [] \<and> last (completed s') = Clone (jobStore s' q)))"
      using lc [unfolded live_change_def] neq neq2 False by (elim disjE exE) (simp_all only: simp_thms, blast)
    have "p \<in> insert q (set (live s'))" using assms(4) q(1) by (metis set_mset_add_mset_insert set_mset_mset)
    with assms(5) q(2) show ?thesis by blast
  qed
qed

text \<open>
  The session slots. A worker that is refused an agent slot puts the job back without
  \<^verbatim>\<open>MarkComplete\<close>, so the session keeps a slot that no worker uses.
\<close>

definition leaked :: "string \<Rightarrow> Scheduler \<Rightarrow> bool" where
  "leaked ses s \<longleftrightarrow>
     0 < maxPerSession (fair s) \<and> maxPerSession (fair s) \<le> RunningCount ses (fair s) \<and>
     (\<forall>v \<in> set (workers s). \<forall>p \<in> set (held_by v). SessionName (jobStore s p) \<noteq> ses)"

text \<open>A step in which no worker finds a job of the session while it searches for another free agent slot.\<close>

definition no_find :: "string \<Rightarrow> Scheduler \<Rightarrow> Scheduler \<Rightarrow> bool" where
  "no_find ses s s' \<longleftrightarrow> sched_step s s' \<and>
     \<not> (\<exists>w < length (workers s). \<exists>p. workers s ! w = Searching \<and> workers s' ! w = Ready p \<and> SessionName (jobStore s p) = ses)"

lemma fair_finish_job: "fair (finish_job env now ord p res s) = MarkComplete (jobStore s) p (fair s)"
proof -
  have h: "fair (handleJobError env now ord p err t) = fair t" for err t
    by (simp add: handleJobError_def Let_def split: prod.split)
  show ?thesis
    by (cases res) (simp_all add: finish_job_def Let_def h, simp_all add: stop_job_def)
qed

lemma mget_other:
  "k \<noteq> k' \<Longrightarrow> mget (decr_del k' m) k = mget m k" "mget m k \<le> mget (incr k' m) k"
  by (simp_all add: decr_del_def decr_def incr_def mget_def Let_def)

lemma session_kept: "sched_step s s' \<Longrightarrow> SessionName (jobStore s' x) = SessionName (jobStore s x)"
proof (induction rule: sched_step.induct)
  case (worker w s s')
  have t: "SessionName (jobStore (put_job p j t) x) = SessionName (jobStore t x)" if "tag j = tag (jobStore t p)" for p j t
    using tag_fields(4) [OF that] by (simp add: put_job_def)
  have h: "SessionName (jobStore (handleJobError env now ord p err t) x) = SessionName (jobStore t x)" for env now ord p err t
    using tag_frame by (simp add: handleJobError_def Let_def put_job_def tag_def split: prod.split)
  from worker(2) show ?case
    by cases (auto simp: start_job_def finish_job_def Let_def h t split: option.splits)
next
  case (submit fresh now p s s')
  then show ?case
    using tag_frame(2) by (auto simp: Submit_def prepared_def put_job_def Let_def tag_def split: if_splits)
next
  case (cancel now i s r s')
  then show ?case
    using tag_frame(1) by (auto simp: cancel_job_def put_job_def tag_def split: option.splits prod.splits)
next
  case (cancel_session now name s ps st q)
  then show ?case
    using tag_frame(1) by (auto simp: CancelSession_def cancel_where_def cancel_ptrs_def tag_def Let_def)
next
  case (cancel_batch now b s ps st q)
  then show ?case
    using tag_frame(1) by (auto simp: CancelBatch_def cancel_where_def cancel_ptrs_def tag_def Let_def)
next
  case (cancel_executing s now P)
  then show ?case using tag_frame(1) by (simp add: cancel_running_def tag_def)
next
  case (timer p s now)
  then show ?case using tag_frame(2) by (simp add: fire_retry_def put_job_def tag_def)
qed (simp_all add: put_job_def Pause_def Resume_def)

lemma worker_step_leaked:
  assumes step: "worker_step w s s'" and ok: "sched_ok cfg s" and w: "w < length (workers s)"
    and lk: "leaked ses s" and nf: "\<And>p. workers s ! w = Searching \<Longrightarrow> workers s' ! w = Ready p \<Longrightarrow> SessionName (jobStore s p) \<noteq> ses"
    and kept: "\<And>x. SessionName (jobStore s' x) = SessionName (jobStore s x)"
  shows "leaked ses s'"
proof -
  have qok: "index_ok (jobStore s) (queue (fair s))" using ok by (simp add: sched_ok_def)
  have old: "workers s ! w \<in> set (workers s)" using w by simp
  have mine: "SessionName (jobStore s p) \<noteq> ses" if "p \<in> set (held_by (workers s ! w))" for p
    using lk old that by (auto simp: leaked_def)
  have go: "leaked ses s'" if "workers s' = (workers s)[w := v']" "maxPerSession (fair s') = maxPerSession (fair s)"
    "RunningCount ses (fair s) \<le> RunningCount ses (fair s')" "\<And>p. p \<in> set (held_by v') \<Longrightarrow> SessionName (jobStore s p) \<noteq> ses" for v'
  proof -
    have "SessionName (jobStore s p) \<noteq> ses" if "v \<in> set (workers s')" "p \<in> set (held_by v)" for v p
      using that \<open>workers s' = (workers s)[w := v']\<close> set_update_subset_insert [of "workers s" w v'] lk
        \<open>\<And>p. p \<in> set (held_by v') \<Longrightarrow> SessionName (jobStore s p) \<noteq> ses\<close> by (auto simp: leaked_def)
    then show ?thesis using that(2,3) lk kept by (auto simp: leaked_def)
  qed
  from step show ?thesis
  proof cases
    case (dequeue p f)
    note t = TryDequeue_index [OF qok dequeue(4)]
    have "SessionName (jobStore s p) \<noteq> ses" using t(2) lk by (auto simp: eligible_def session_full_def leaked_def RunningCount_def)
    then show ?thesis
      by (intro go [of "Taken p"]) (use dequeue t(7,8) mget_other(2) in \<open>auto simp: RunningCount_def\<close>)
  next
    case (no_agent p)
    with mine show ?thesis by (intro go [of "Ready p"]) auto
  next
    case (acquired p now ord ac)
    with mine show ?thesis by (intro go [of "Ready p"]) auto
  next
    case (refused p now ord ac)
    with mine show ?thesis by (intro go [of "Refused p"]) auto
  next
    case (put_back p)
    then show ?thesis by (intro go [of Searching]) (auto simp: requeue_def fair_Enqueue_def RunningCount_def)
  next
    case (search now ord r q ac)
    have "SessionName (jobStore s p) \<noteq> ses" if "r = Some p" for p using nf [of p] search that w by simp
    then show ?thesis
      by (intro go [of "case r of None \<Rightarrow> Idle | Some p \<Rightarrow> Ready p"])
        (use search in \<open>auto simp: RunningCount_def split: option.splits\<close>)
  next
    case (start p now)
    with mine show ?thesis by (intro go [of "Executing p"]) (auto simp: start_job_def put_job_def)
  next
    case (limiter_error p ord)
    then show ?thesis by (intro go [of Idle]) (auto simp: requeue_def fair_Enqueue_def RunningCount_def)
  next
    case (finish p env now ord res)
    have "SessionName (jobStore s p) \<noteq> ses" using mine [of p] finish(2) by simp
    then have "RunningCount ses (fair s') = RunningCount ses (fair s)"
      using finish(1) mget_other(1) [of ses "SessionName (jobStore s p)"] by (simp add: fair_finish_job MarkComplete_def RunningCount_def)
    moreover have "workers (finish_job env now ord p res s) = workers s"
      using ok by (auto simp: finish_job_def handleJobError_def Let_def split: option.splits prod.splits)
    ultimately show ?thesis
      using finish(1) by (intro go [of Idle]) (auto simp: fair_finish_job MarkComplete_def)
  qed
qed

lemma no_find_leaked:
  assumes inv: "sched_inv cfg s" and st: "no_find ses s s'" and lk: "leaked ses s"
  shows "leaked ses s'"
proof -
  have step: "sched_step s s'" using st by (simp add: no_find_def)
  have same: "leaked ses s'" if "workers s' = workers s" "running (fair s') = running (fair s)" "maxPerSession (fair s') = maxPerSession (fair s)"
    using that lk session_kept [OF step] by (simp add: leaked_def RunningCount_def)
  from step show ?thesis
  proof cases
    case (worker w)
    have "SessionName (jobStore s p) \<noteq> ses" if "workers s ! w = Searching" "workers s' ! w = Ready p" for p
      using st worker(1) that by (auto simp: no_find_def)
    then show ?thesis
      using worker_step_leaked [OF worker(2) _ worker(1) lk] inv session_kept [OF step] by (auto simp: sched_inv_def)
  qed (rule same; auto simp: Submit_def Let_def requeue_def fair_Enqueue_def put_job_def cancel_job_def cancel_running_def
      fire_retry_def Pause_def Resume_def split: if_splits option.splits prod.splits)+
qed

text \<open>
  C24. Session slots leak for good. When the limit of a session is used up while no worker holds a
  job of it, which the refusals of its jobs bring about, no later step gives a slot back: after
  any further steps of any goroutines and callers the session is in the same state and
  \<^verbatim>\<open>TryDequeue\<close> takes none of its jobs. The only way out is a worker that is itself
  refused an agent slot and meets a job of the session in \<^verbatim>\<open>findJobWithAvailableCap\<close>.
\<close>

theorem leaked_slots_starve:
  assumes "sched_reachable st cfg s" "configs_ok (ScAgentCaps cfg)"
    and "leaked ses s" "(no_find ses)\<^sup>*\<^sup>* s s'"
  shows "leaked ses s' \<and> (\<forall>p f. TryDequeue (jobStore s') (fair s') = (Some p, f) \<longrightarrow> SessionName (jobStore s' p) \<noteq> ses)"
proof -
  from assms(4,3) have "sched_inv cfg s' \<and> leaked ses s'"
  proof (induction rule: rtranclp_induct)
    case base
    then show ?case using sched_reachable_inv [OF assms(1,2)] by simp
  next
    case (step t t')
    then have "sched_step t t'" by (simp add: no_find_def)
    with step sched_step_inv [OF _ _ assms(2)] no_find_leaked show ?case by blast
  qed
  then have lk: "leaked ses s'" and ix: "index_ok (jobStore s') (queue (fair s'))" by (simp_all add: sched_inv_def sched_ok_def)
  have "SessionName (jobStore s' p) \<noteq> ses" if "TryDequeue (jobStore s') (fair s') = (Some p, f)" for p f
    using TryDequeue_index(2) [OF ix that] lk by (auto simp: eligible_def session_full_def leaked_def RunningCount_def)
  with lk show ?thesis by blast
qed

text \<open>
  In the run, job 1 of session \<open>b\<close> was refused agent type \<open>x\<close> once. Then both workers
  are idle and the agent slot is free, but the job stays in the queue.
\<close>

lemma run10_leaked: "leaked ''b'' run10"
  using run_facts(24) by (simp add: leaked_def) code_simp

theorem leaked_slots_starve_witness:
  "sched_reachable demo_jobs demo_config run10 \<and> workers run10 = [Idle, Idle] \<and> jobs (queue (fair run10)) = [1] \<and>
   GetRunning ''x'' (agentCaps run10) = 0 \<and>
   {p. \<exists>s' f. (no_find ''b'')\<^sup>*\<^sup>* run10 s' \<and> TryDequeue (jobStore s') (fair s') = (Some p, f) \<and> SessionName (jobStore s' p) = ''b''} = {}"
  using leaked_slots_starve [OF run10_reachable demo_configs_ok run10_leaked] run10_reachable run_facts by auto

text \<open>The batch limit never takes effect: no queued job is running.\<close>

lemma batch_limit_void:
  assumes "sched_reachable st cfg s" "configs_ok (ScAgentCaps cfg)"
  shows "\<not> batch_full (jobStore s) (fair s) p"
proof -
  have "Status (jobStore s j) \<noteq> StatusRunning" if "j \<in> set (jobs (queue (fair s)))" for j
    using sched_reachable_inv [OF assms] that by (simp add: sched_inv_def places_ok_def const_defs)
  then have "filter (\<lambda>j. BatchID (jobStore s j) = BatchID (jobStore s p) \<and> Status (jobStore s j) = StatusRunning)
      (ListAll (queue (fair s))) = []"
    by (simp add: filter_empty_conv ListAll_def)
  then show ?thesis unfolding batch_full_def by simp
qed

end
