(* ===== verification/SchedStore.thy ===== *)
theory SchedStore
  imports SchedJob "HOL-Library.Product_Lexorder" "HOL-Library.Multiset"
begin

text \<open>
  The persistent scheduler jobs of \<^verbatim>\<open>internal/scheduler/store.go\<close>: the table
  \<^verbatim>\<open>scheduler_jobs\<close> with its primary key and its foreign key to the dispatches.
  Times are stored in whole seconds; \<^verbatim>\<open>fk\<close> says which dispatch IDs exist.
\<close>

section \<open>Rows\<close>

record job_row =
  rID :: string
  rStatus :: string
  rPriority :: int
  rAgentType :: string
  rSessionName :: "string option"
  rBatchID :: "string option"
  rDispatchID :: "string option"
  rSpawnOpts :: string
  rMaxRetries :: int
  rRetryCount :: int
  rErrorMsg :: "string option"
  rCreatedAt :: int
  rStartedAt :: "int option"
  rCompletedAt :: "int option"

type_synonym job_table = "job_row list"

datatype store_error = ErrUniqueID | ErrForeignKey | ErrNoRows

definition unix :: "int \<Rightarrow> int" where
  "unix t = t div 1000000000"

definition from_unix :: "int \<Rightarrow> int" where
  "from_unix s = s * 1000000000"

definition nullString :: "string \<Rightarrow> string option" where
  "nullString s = (if s = '''' then None else Some s)"

definition nullUnix :: "int option \<Rightarrow> int option" where
  "nullUnix t = map_option unix t"

definition string_of :: "string option \<Rightarrow> string" where
  "string_of s = (case s of None \<Rightarrow> '''' | Some x \<Rightarrow> x)"

definition row_of :: "SpawnJob \<Rightarrow> job_row" where
  "row_of j =
     \<lparr>rID = JobID j, rStatus = Status j, rPriority = Priority j, rAgentType = AgentType j,
      rSessionName = nullString (SessionName j), rBatchID = nullString (BatchID j),
      rDispatchID = nullString (DispatchID j), rSpawnOpts = SpawnOpts j, rMaxRetries = MaxRetries j,
      rRetryCount = RetryCount j, rErrorMsg = nullString (Error j), rCreatedAt = unix (CreatedAt j),
      rStartedAt = nullUnix (StartedAt j), rCompletedAt = nullUnix (CompletedAt j)\<rparr>"

text \<open>\<^verbatim>\<open>scanJob\<close>: what is not stored gets the zero value, a fresh context and metadata.\<close>

definition scanJob :: "job_row \<Rightarrow> SpawnJob" where
  "scanJob r =
     \<lparr>JobID = rID r, Type = JobTypeDispatch, Priority = rPriority r, SessionName = string_of (rSessionName r),
      AgentType = rAgentType r, ProjectDir = '''', SpawnOpts = rSpawnOpts r, DispatchID = string_of (rDispatchID r),
      Status = rStatus r, CreatedAt = from_unix (rCreatedAt r), ScheduledAt = None,
      StartedAt = map_option from_unix (rStartedAt r), CompletedAt = map_option from_unix (rCompletedAt r),
      Error = string_of (rErrorMsg r), RetryCount = rRetryCount r, MaxRetries = rMaxRetries r, RetryDelay = 0,
      BatchID = string_of (rBatchID r), ParentJobID = '''', Metadata = Map.empty, Ctx = Some False\<rparr>"

section \<open>Operations\<close>

definition fk_ok :: "(string \<Rightarrow> bool) \<Rightarrow> job_row \<Rightarrow> bool" where
  "fk_ok fk r \<longleftrightarrow> (case rDispatchID r of None \<Rightarrow> True | Some d \<Rightarrow> fk d)"

definition store_Create :: "(string \<Rightarrow> bool) \<Rightarrow> SpawnJob \<Rightarrow> job_table \<Rightarrow> store_error + job_table" where
  "store_Create fk j rows =
     (if list_ex (\<lambda>r. rID r = JobID j) rows then Inl ErrUniqueID
      else if \<not> fk_ok fk (row_of j) then Inl ErrForeignKey
      else Inr (rows @ [row_of j]))"

definition store_Get :: "string \<Rightarrow> job_table \<Rightarrow> store_error + SpawnJob" where
  "store_Get i rows = (case sql_first (\<lambda>r. rID r = i) rows of None \<Rightarrow> Inl ErrNoRows | Some r \<Rightarrow> Inr (scanJob r))"

definition job_set :: "SpawnJob \<Rightarrow> job_row \<Rightarrow> job_row" where
  "job_set j r =
     r\<lparr>rStatus := Status j, rDispatchID := nullString (DispatchID j), rRetryCount := RetryCount j,
       rErrorMsg := nullString (Error j), rStartedAt := nullUnix (StartedAt j), rCompletedAt := nullUnix (CompletedAt j)\<rparr>"

definition store_Update :: "(string \<Rightarrow> bool) \<Rightarrow> SpawnJob \<Rightarrow> job_table \<Rightarrow> store_error + job_table" where
  "store_Update fk j rows =
     (if list_ex (\<lambda>r. rID r = JobID j) rows \<and> \<not> fk_ok fk (row_of j) then Inl ErrForeignKey
      else Inr (sql_update (\<lambda>r. rID r = JobID j) (job_set j) rows))"

text \<open>\<^verbatim>\<open>LIMIT n\<close> with a negative number is no limit.\<close>

definition sql_limit :: "int \<Rightarrow> 'a list \<Rightarrow> 'a list" where
  "sql_limit n xs = (if n < 0 then xs else take (nat n) xs)"

definition store_List :: "string \<Rightarrow> int \<Rightarrow> job_table \<Rightarrow> SpawnJob list" where
  "store_List status limit rows =
     map scanJob (sql_limit limit (order_desc rCreatedAt
       (if status \<noteq> '''' then filter (\<lambda>r. rStatus r = status) rows else rows)))"

definition unfinished :: "job_row \<Rightarrow> bool" where
  "unfinished r \<longleftrightarrow> rStatus r \<in> {StatusPending, StatusRunning, StatusScheduled, StatusRetrying}"

definition reset_interrupted :: "SpawnJob \<Rightarrow> SpawnJob" where
  "reset_interrupted j =
     (if Status j = StatusRunning \<or> Status j = StatusScheduled
      then j\<lparr>Status := StatusPending, StartedAt := None\<rparr> else j)"

definition RecoverPending :: "job_table \<Rightarrow> SpawnJob list" where
  "RecoverPending rows =
     map (\<lambda>r. reset_interrupted (scanJob r)) (sort_key (\<lambda>r. (rPriority r, rCreatedAt r)) (filter unfinished rows))"

definition CountByStatus :: "job_table \<Rightarrow> string \<rightharpoonup> nat" where
  "CountByStatus rows s =
     (let n = length (filter (\<lambda>r. rStatus r = s) rows) in if n = 0 then None else Some n)"

definition finished :: "job_row \<Rightarrow> bool" where
  "finished r \<longleftrightarrow> rStatus r \<in> {StatusCompleted, StatusFailed, StatusCancelled}"

definition store_Prune :: "int \<Rightarrow> int \<Rightarrow> job_table \<Rightarrow> nat \<times> job_table" where
  "store_Prune now olderThan rows =
     (let old = (\<lambda>r. finished r \<and> (case rCompletedAt r of None \<Rightarrow> False | Some c \<Rightarrow> c < unix (now - olderThan)))
      in (length (filter old rows), filter (\<lambda>r. \<not> old r) rows))"

section \<open>Correctness\<close>

interpretation job_rows: keyed_table rID "\<lambda>j r. job_set j r"
  by unfold_locales (simp add: job_set_def)

text \<open>What of a job survives its row: all but the fields that are not columns, times in seconds.\<close>

definition persisted :: "SpawnJob \<Rightarrow> SpawnJob" where
  "persisted j =
     j\<lparr>Type := JobTypeDispatch, ProjectDir := '''', CreatedAt := from_unix (unix (CreatedAt j)), ScheduledAt := None,
       StartedAt := map_option (\<lambda>t. from_unix (unix t)) (StartedAt j),
       CompletedAt := map_option (\<lambda>t. from_unix (unix t)) (CompletedAt j),
       RetryDelay := 0, ParentJobID := '''', Metadata := Map.empty, Ctx := Some False\<rparr>"

lemma string_of_nullString [simp]: "string_of (nullString s) = s"
  by (simp add: string_of_def nullString_def)

lemma scan_row: "scanJob (row_of j) = persisted j"
  by (cases j) (simp add: scanJob_def row_of_def persisted_def nullUnix_def option.map_comp o_def)

lemma truncation_error: "0 \<le> t - from_unix (unix t)" "t - from_unix (unix t) < 1000000000"
  by (simp_all add: from_unix_def unix_def minus_div_mult_eq_mod)

lemma Create_distinct:
  "store_Create fk j rows = Inr rows' \<Longrightarrow> distinct (map rID rows) \<Longrightarrow> distinct (map rID rows')"
  by (force simp: store_Create_def list_ex_iff row_of_def split: if_splits)

lemma Update_distinct:
  "store_Update fk j rows = Inr rows' \<Longrightarrow> distinct (map rID rows) \<Longrightarrow> distinct (map rID rows')"
  using job_rows.distinct_update by (auto simp: store_Update_def split: if_splits)

lemma Create_then_Get:
  assumes "store_Create fk j rows = Inr rows'"
  shows "store_Get (JobID j) rows' = Inr (persisted j)"
    "i \<noteq> JobID j \<Longrightarrow> store_Get i rows' = store_Get i rows"
proof -
  have new: "sql_first (\<lambda>r. rID r = JobID j) rows = None" and rows': "rows' = rows @ [row_of j]"
    using assms by (auto simp: store_Create_def sql_first_None list_ex_iff split: if_splits)
  have "rID (row_of j) = JobID j" by (simp add: row_of_def)
  with new rows' show "store_Get (JobID j) rows' = Inr (persisted j)"
    by (simp add: store_Get_def sql_first_append scan_row)
  show "store_Get i rows' = store_Get i rows" if "i \<noteq> JobID j"
    using that rows' by (simp add: store_Get_def sql_first_append row_of_def split: option.split)
qed

text \<open>
  A created job reads back as it was, but for the fields that have no column and the
  fractions of a second of its times, and no other job changes; a second one under its ID is refused.
\<close>

lemma job_store_roundtrip:
  assumes "store_Create fk j rows = Inr rows'"
  shows "store_Get (JobID j) rows' = Inr (persisted j) \<and>
    (\<forall>i. i \<noteq> JobID j \<longrightarrow> store_Get i rows' = store_Get i rows) \<and>
    store_Create fk j rows' = Inl ErrUniqueID"
proof -
  have "rows' = rows @ [row_of j]" using assms by (auto simp: store_Create_def split: if_splits)
  then have "store_Create fk j rows' = Inl ErrUniqueID" by (simp add: store_Create_def row_of_def)
  with Create_then_Get [OF assms] show ?thesis by blast
qed

definition demo_stored :: SpawnJob where
  "demo_stored = (NewSpawnJob '''' 1500000000 ''j1'' JobTypeDispatch ''s'')\<lparr>Status := StatusRunning, StartedAt := Some 2700000000\<rparr>"

text \<open>
  Recovery after a crash: exactly the unfinished jobs come back, by priority and
  creation time, and none of them claims to be running.
\<close>

lemma RecoverPending_correct:
  "mset (map JobID (RecoverPending rows)) = mset (map rID (filter unfinished rows)) \<and>
   sorted (map (\<lambda>j. (Priority j, CreatedAt j)) (RecoverPending rows)) \<and>
   (\<forall>j \<in> set (RecoverPending rows). Status j \<in> {StatusPending, StatusRetrying} \<and> Ctx j = Some False)"
proof (intro conjI ballI)
  have id: "JobID (reset_interrupted (scanJob r)) = rID r" for r by (simp add: reset_interrupted_def scanJob_def)
  show "mset (map JobID (RecoverPending rows)) = mset (map rID (filter unfinished rows))"
    by (simp add: RecoverPending_def o_def id mset_map)
  have key: "(Priority (reset_interrupted (scanJob r)), CreatedAt (reset_interrupted (scanJob r)))
      = (rPriority r, from_unix (rCreatedAt r))" for r
    by (simp add: reset_interrupted_def scanJob_def)
  have "sorted (map (\<lambda>r. (rPriority r, rCreatedAt r)) (sort_key (\<lambda>r. (rPriority r, rCreatedAt r)) (filter unfinished rows)))"
    by (rule sorted_sort_key)
  moreover have mono: "(rPriority r, rCreatedAt r) \<le> (rPriority t, rCreatedAt t) \<Longrightarrow>
      (rPriority r, from_unix (rCreatedAt r)) \<le> (rPriority t, from_unix (rCreatedAt t))" for r t :: job_row
    by (auto simp: from_unix_def)
  ultimately show "sorted (map (\<lambda>j. (Priority j, CreatedAt j)) (RecoverPending rows))"
    by (simp add: RecoverPending_def o_def key sorted_map) (auto elim!: sorted_wrt_mono_rel [rotated])
  fix j assume "j \<in> set (RecoverPending rows)"
  then obtain r where r: "unfinished r" "j = reset_interrupted (scanJob r)" by (auto simp: RecoverPending_def)
  then show "Status j \<in> {StatusPending, StatusRetrying}"
    by (auto simp: unfinished_def reset_interrupted_def scanJob_def)
  show "Ctx j = Some False" using r by (simp add: reset_interrupted_def scanJob_def)
qed

lemma Prune_keeps_unfinished: "r \<in> set rows \<Longrightarrow> unfinished r \<Longrightarrow> r \<in> set (snd (store_Prune now age rows))"
  by (auto simp: store_Prune_def Let_def unfinished_def finished_def const_defs)

end
