(* ===== verification/DirLock.thy ===== *)
theory DirLock
  imports GoLib
begin

text \<open>
  The file-system locks of \<^verbatim>\<open>internal/lock/lock.go\<close>: a lock is a directory, its owner
  a file \<^verbatim>\<open>owner.json\<close> in it. Each system call is atomic on the directory, everything
  between two calls may interleave with other processes. Breaking a stale lock is
  three calls after the owner file was read, and that window is where exclusion
  can be lost; without an interleaving in it the lock is exclusive.
\<close>

section \<open>Names and owners\<close>

definition seconds_ns :: "int \<Rightarrow> int" where
  "seconds_ns n = n * 1000000000"

definition DefaultStaleAge :: int where "DefaultStaleAge = seconds_ns 5"
definition DefaultMaxWait :: int where "DefaultMaxWait = seconds_ns 1"

datatype lock_error = ErrTimeout | ErrNotOwner | ErrNotFound | ErrBadName | ErrMkdir

definition contains_dotdot :: "string \<Rightarrow> bool" where
  "contains_dotdot s \<longleftrightarrow> list_ex (\<lambda>i. s ! i = CHR ''.'' \<and> s ! Suc i = CHR ''.'') [0..<length s - 1]"

definition validateComponent :: "string \<Rightarrow> bool" where
  "validateComponent s \<longleftrightarrow>
     \<not> (s = '''' \<or> s = ''.'' \<or> s = ''..'' \<or> CHR ''/'' \<in> set s \<or> CHR 0x5C \<in> set s \<or> contains_dotdot s)"

record ownerMeta =
  mPID :: int
  mHost :: string
  mOwner :: string
  mCreated :: int

text \<open>\<^verbatim>\<open>writeOwnerFile\<close>: the PID and host are taken from an owner \<^verbatim>\<open>PID:host\<close> when it has that form.\<close>

fun split_colon :: "string \<Rightarrow> (string \<times> string) option" where
  "split_colon [] = None"
| "split_colon (c # cs) =
     (if c = CHR '':'' then Some ([], cs) else map_option (\<lambda>(a, b). (c # a, b)) (split_colon cs))"

definition owner_meta :: "int \<Rightarrow> string \<Rightarrow> int \<Rightarrow> string \<Rightarrow> ownerMeta" where
  "owner_meta self host now owner =
     (case split_colon owner of
        None \<Rightarrow> \<lparr>mPID = self, mHost = host, mOwner = owner, mCreated = now div 1000000000\<rparr>
      | Some (a, b) \<Rightarrow>
          \<lparr>mPID = (case Atoi a of None \<Rightarrow> self | Some p \<Rightarrow> p), mHost = b, mOwner = owner,
           mCreated = now div 1000000000\<rparr>)"

section \<open>The lock directory\<close>

text \<open>
  The directory, its owner file (\<^verbatim>\<open>Some None\<close>: present but unreadable) and the number of
  renamed owner files still in it.
\<close>

record lock_dir =
  present :: bool
  owner_file :: "ownerMeta option option"
  renamed :: nat

definition no_dir :: lock_dir where
  "no_dir = \<lparr>present = False, owner_file = None, renamed = 0\<rparr>"

definition os_mkdir :: "lock_dir \<Rightarrow> bool \<times> lock_dir" where
  "os_mkdir d = (if present d then (False, d) else (True, d\<lparr>present := True\<rparr>))"

definition os_write :: "ownerMeta \<Rightarrow> lock_dir \<Rightarrow> bool \<times> lock_dir" where
  "os_write m d = (if present d then (True, d\<lparr>owner_file := Some (Some m)\<rparr>) else (False, d))"

definition os_remove_file :: "lock_dir \<Rightarrow> lock_dir" where
  "os_remove_file d = d\<lparr>owner_file := None\<rparr>"

definition os_rename :: "lock_dir \<Rightarrow> bool \<times> lock_dir" where
  "os_rename d = (if owner_file d = None then (False, d) else (True, d\<lparr>owner_file := None, renamed := renamed d + 1\<rparr>))"

definition os_remove_renamed :: "lock_dir \<Rightarrow> lock_dir" where
  "os_remove_renamed d = d\<lparr>renamed := renamed d - 1\<rparr>"

text \<open>Removing the directory fails unless it is empty.\<close>

definition os_rmdir :: "lock_dir \<Rightarrow> bool \<times> lock_dir" where
  "os_rmdir d = (if present d \<and> owner_file d = None \<and> renamed d = 0 then (True, d\<lparr>present := False\<rparr>) else (False, d))"

definition readOwnerFile :: "lock_dir \<Rightarrow> ownerMeta option" where
  "readOwnerFile d = Option.bind (owner_file d) (\<lambda>m. m)"

text \<open>The decision of \<^verbatim>\<open>tryBreakStale\<close>: readable, older than the stale age, owner process gone.\<close>

definition breakable :: "int \<Rightarrow> (int \<Rightarrow> bool) \<Rightarrow> int \<Rightarrow> lock_dir \<Rightarrow> bool" where
  "breakable now alive staleAge d =
     (case readOwnerFile d of
        None \<Rightarrow> False
      | Some m \<Rightarrow>
          \<not> time_sub now (mCreated m * 1000000000) < staleAge \<and> \<not> (mPID m > 0 \<and> alive (mPID m)))"

section \<open>Whole operations of one process\<close>

text \<open>The three calls that break a lock, without another process in between.\<close>

definition break_stale :: "lock_dir \<Rightarrow> bool \<times> lock_dir" where
  "break_stale d =
     (case os_rename d of
        (False, d1) \<Rightarrow> (False, d1)
      | (True, d1) \<Rightarrow> os_rmdir (os_remove_renamed d1))"

definition tryBreakStale :: "int \<Rightarrow> (int \<Rightarrow> bool) \<Rightarrow> int \<Rightarrow> lock_dir \<Rightarrow> bool \<times> lock_dir" where
  "tryBreakStale now alive staleAge d = (if breakable now alive staleAge d then break_stale d else (False, d))"

definition Release :: "string \<Rightarrow> lock_dir \<Rightarrow> lock_error option \<times> lock_dir" where
  "Release owner d =
     (case readOwnerFile d of
        None \<Rightarrow> (Some ErrNotFound, d)
      | Some m \<Rightarrow>
          if mOwner m \<noteq> owner then (Some ErrNotOwner, d)
          else (None, snd (os_rmdir (os_remove_file d))))"

text \<open>
  The spin loop of \<^verbatim>\<open>Acquire\<close>, run alone: \<open>now i\<close> is the clock at the \<open>i\<close>-th turn, the
  deadline \<open>maxWait\<close> (or the default) after the start; \<open>n\<close> bounds the turns.
\<close>

fun Acquire :: "nat \<Rightarrow> (nat \<Rightarrow> int) \<Rightarrow> (int \<Rightarrow> bool) \<Rightarrow> int \<Rightarrow> ownerMeta \<Rightarrow> int \<Rightarrow> nat \<Rightarrow> lock_dir
    \<Rightarrow> (lock_error option \<times> lock_dir) option" where
  "Acquire 0 now alive staleAge m deadline i d = None"
| "Acquire (Suc n) now alive staleAge m deadline i d =
     (case os_mkdir d of
        (True, d1) \<Rightarrow>
          (case os_write m d1 of
             (True, d2) \<Rightarrow> Some (None, d2)
           | (False, d2) \<Rightarrow> Acquire n now alive staleAge m deadline (Suc i) (snd (os_rmdir d2)))
      | (False, d1) \<Rightarrow>
          (case tryBreakStale (now i) alive staleAge d1 of
             (True, d2) \<Rightarrow> Acquire n now alive staleAge m deadline (Suc i) d2
           | (False, d2) \<Rightarrow>
               if now i > deadline then Some (Some ErrTimeout, d2)
               else Acquire n now alive staleAge m deadline (Suc i) d2))"

section \<open>Interleaved processes\<close>

text \<open>Where a process stands in \<^verbatim>\<open>Acquire\<close> or \<^verbatim>\<open>Release\<close>.\<close>

datatype lock_pc =
    Outside
  | Trying
  | Writing
  | Holding
  | Breaking
  | Broke
  | Swept
  | Releasing

record lock_sys =
  dir :: lock_dir
  pc :: "int \<Rightarrow> lock_pc"
  live :: "int \<Rightarrow> bool"

definition at :: "int \<Rightarrow> lock_pc \<Rightarrow> lock_sys \<Rightarrow> lock_sys" where
  "at p v s = s\<lparr>pc := (pc s)(p := v)\<rparr>"

text \<open>The calls of process \<open>p\<close> outside the breaking of a lock.\<close>

inductive basic_step :: "int \<Rightarrow> lock_sys \<Rightarrow> lock_sys \<Rightarrow> bool" for p where
  enter: "pc s p = Outside \<Longrightarrow> 0 < p \<Longrightarrow> basic_step p s (at p Trying s)"
| give_up: "pc s p = Trying \<Longrightarrow> basic_step p s (at p Outside s)"
| made: "pc s p = Trying \<Longrightarrow> os_mkdir (dir s) = (True, d) \<Longrightarrow> basic_step p s (at p Writing (s\<lparr>dir := d\<rparr>))"
| wrote: "pc s p = Writing \<Longrightarrow> mPID m = p \<Longrightarrow> os_write m (dir s) = (True, d) \<Longrightarrow>
    basic_step p s (at p Holding (s\<lparr>dir := d\<rparr>))"
| write_failed: "pc s p = Writing \<Longrightarrow> os_write m (dir s) = (False, d) \<Longrightarrow>
    basic_step p s (at p Trying (s\<lparr>dir := snd (os_rmdir d)\<rparr>))"
| unlink: "pc s p = Holding \<Longrightarrow> readOwnerFile (dir s) = Some m \<Longrightarrow> mPID m = p \<Longrightarrow>
    basic_step p s (at p Releasing (s\<lparr>dir := os_remove_file (dir s)\<rparr>))"
| unlock: "pc s p = Releasing \<Longrightarrow> basic_step p s (at p Outside (s\<lparr>dir := snd (os_rmdir (dir s))\<rparr>))"

text \<open>Breaking a lock call by call, as the code runs it.\<close>

inductive lock_step :: "int \<Rightarrow> lock_sys \<Rightarrow> lock_sys \<Rightarrow> bool" for staleAge where
  basic: "live s p \<Longrightarrow> basic_step p s s' \<Longrightarrow> lock_step staleAge s s'"
| die: "lock_step staleAge s (s\<lparr>live := (live s)(p := False)\<rparr>)"
| decide: "live s p \<Longrightarrow> pc s p = Trying \<Longrightarrow> breakable now (live s) staleAge (dir s) \<Longrightarrow>
    lock_step staleAge s (at p Breaking s)"
| rename: "live s p \<Longrightarrow> pc s p = Breaking \<Longrightarrow> os_rename (dir s) = (True, d) \<Longrightarrow>
    lock_step staleAge s (at p Broke (s\<lparr>dir := d\<rparr>))"
| rename_failed: "live s p \<Longrightarrow> pc s p = Breaking \<Longrightarrow> os_rename (dir s) = (False, d) \<Longrightarrow>
    lock_step staleAge s (at p Trying s)"
| sweep: "live s p \<Longrightarrow> pc s p = Broke \<Longrightarrow> lock_step staleAge s (at p Swept (s\<lparr>dir := os_remove_renamed (dir s)\<rparr>))"
| remove: "live s p \<Longrightarrow> pc s p = Swept \<Longrightarrow> lock_step staleAge s (at p Trying (s\<lparr>dir := snd (os_rmdir (dir s))\<rparr>))"

text \<open>The same with the breaking of a lock as one step.\<close>

inductive calm_step :: "int \<Rightarrow> lock_sys \<Rightarrow> lock_sys \<Rightarrow> bool" for staleAge where
  basic: "live s p \<Longrightarrow> basic_step p s s' \<Longrightarrow> calm_step staleAge s s'"
| die: "calm_step staleAge s (s\<lparr>live := (live s)(p := False)\<rparr>)"
| break_lock: "live s p \<Longrightarrow> pc s p = Trying \<Longrightarrow> tryBreakStale now (live s) staleAge (dir s) = (b, d) \<Longrightarrow>
    calm_step staleAge s (s\<lparr>dir := d\<rparr>)"

definition lock_start :: "(int \<Rightarrow> bool) \<Rightarrow> lock_sys" where
  "lock_start lv = \<lparr>dir = no_dir, pc = (\<lambda>_. Outside), live = lv\<rparr>"

inductive calm_reachable :: "int \<Rightarrow> lock_sys \<Rightarrow> bool" for staleAge where
  init: "calm_reachable staleAge (lock_start lv)"
| step: "calm_reachable staleAge s \<Longrightarrow> calm_step staleAge s s' \<Longrightarrow> calm_reachable staleAge s'"

inductive lock_reachable :: "int \<Rightarrow> lock_sys \<Rightarrow> bool" for staleAge where
  init: "lock_reachable staleAge (lock_start lv)"
| step: "lock_reachable staleAge s \<Longrightarrow> lock_step staleAge s s' \<Longrightarrow> lock_reachable staleAge s'"

section \<open>Exclusion when breaks do not interleave\<close>

definition inside :: "lock_pc \<Rightarrow> bool" where
  "inside v \<longleftrightarrow> v \<in> {Writing, Holding, Releasing}"

text \<open>
  The directory stands for one process: the one that made it. It may be dead; then it
  is the last that was inside, and its owner file, if written, carries its PID.
\<close>

definition maker :: "lock_sys \<Rightarrow> int \<Rightarrow> bool" where
  "maker s c \<longleftrightarrow> (\<forall>p. live s p \<and> inside (pc s p) \<longrightarrow> p = c) \<and>
     (case owner_file (dir s) of None \<Rightarrow> pc s c \<in> {Writing, Releasing}
      | Some m \<Rightarrow> (\<exists>x. m = Some x \<and> mPID x = c) \<and> pc s c = Holding)"

definition lock_ok :: "lock_sys \<Rightarrow> bool" where
  "lock_ok s \<longleftrightarrow>
     renamed (dir s) = 0 \<and> (\<forall>p. pc s p \<notin> {Breaking, Broke, Swept}) \<and> (\<forall>p. pc s p \<noteq> Outside \<longrightarrow> 0 < p) \<and>
     (if present (dir s)
      then \<exists>c. maker s c
      else owner_file (dir s) = None \<and> (\<forall>p. live s p \<longrightarrow> \<not> inside (pc s p)))"

lemma at_simps [simp]: "dir (at p v s) = dir s" "live (at p v s) = live s" "pc (at p v s) = (pc s)(p := v)"
  by (simp_all add: at_def)

lemmas dir_ops = os_mkdir_def os_write_def os_remove_file_def os_rmdir_def readOwnerFile_def

lemma lock_okI:
  assumes "present (dir s)" "maker s c" "renamed (dir s) = 0"
    "\<And>p. pc s p \<notin> {Breaking, Broke, Swept}" "\<And>p. pc s p \<noteq> Outside \<Longrightarrow> 0 < p"
  shows "lock_ok s"
  using assms unfolding lock_ok_def by auto

lemma lock_ok_start: "lock_ok (lock_start lv)"
  by (simp add: lock_ok_def lock_start_def no_dir_def inside_def)

lemma lock_ok_die:
  assumes ok: "lock_ok s"
  shows "lock_ok (s\<lparr>live := (live s)(p := False)\<rparr>)"
proof -
  have "maker (s\<lparr>live := (live s)(p := False)\<rparr>) c" if "maker s c" for c
    using that by (auto simp: maker_def split: option.splits)
  then show ?thesis
    using ok by (auto simp: lock_ok_def split: if_splits)
qed

lemma lock_ok_made:
  assumes "lock_ok s" "pc s p = Trying" "os_mkdir (dir s) = (True, d)"
  shows "lock_ok (at p Writing (s\<lparr>dir := d\<rparr>))"
proof -
  have "\<not> present (dir s)" "d = (dir s)\<lparr>present := True\<rparr>"
    using assms(3) by (auto simp: os_mkdir_def split: if_splits)
  moreover from this have "owner_file (dir s) = None" "\<forall>q. live s q \<longrightarrow> \<not> inside (pc s q)"
    using assms(1) by (auto simp: lock_ok_def)
  ultimately show ?thesis
    using assms(1,2) by (intro lock_okI [where c = p]) (auto simp: lock_ok_def maker_def at_def inside_def split: if_splits)
qed

text \<open>A live process inside is the maker of the directory.\<close>

lemma lock_ok_insideE:
  assumes "lock_ok s" "live s p" "inside (pc s p)"
  obtains "present (dir s)" "\<forall>q. live s q \<and> inside (pc s q) \<longrightarrow> q = p"
    "case owner_file (dir s) of None \<Rightarrow> pc s p \<in> {Writing, Releasing}
     | Some m \<Rightarrow> (\<exists>x. m = Some x \<and> mPID x = p) \<and> pc s p = Holding"
proof -
  have pr: "present (dir s)"
    using assms unfolding lock_ok_def by metis
  obtain c where c: "\<forall>q. live s q \<and> inside (pc s q) \<longrightarrow> q = c"
      "case owner_file (dir s) of None \<Rightarrow> pc s c \<in> {Writing, Releasing}
       | Some m \<Rightarrow> (\<exists>x. m = Some x \<and> mPID x = c) \<and> pc s c = Holding"
    using assms(1) pr unfolding lock_ok_def maker_def by auto
  have "p = c"
    using c(1) assms(2,3) by blast
  with c pr show thesis
    using that by blast
qed

lemma lock_ok_pos: "lock_ok s \<Longrightarrow> pc s p \<noteq> Outside \<Longrightarrow> 0 < p"
  by (simp add: lock_ok_def)

lemma lock_ok_frame:
  assumes "lock_ok s"
  shows "renamed (dir s) = 0" "\<And>q. pc s q \<notin> {Breaking, Broke, Swept}"
  using assms by (auto simp: lock_ok_def)

lemma lock_ok_wrote:
  assumes ok: "lock_ok s" and p: "live s p" "pc s p = Writing" "mPID m = p" and w: "os_write m (dir s) = (True, d)"
  shows "lock_ok (at p Holding (s\<lparr>dir := d\<rparr>))"
proof (rule lock_ok_insideE [OF ok p(1)])
  show "inside (pc s p)" by (simp add: p(2) inside_def)
next
  assume "present (dir s)" "\<forall>q. live s q \<and> inside (pc s q) \<longrightarrow> q = p"
  then show ?thesis
    using w p lock_ok_pos [OF ok] lock_ok_frame [OF ok]
    by (intro lock_okI [where c = p]) (auto simp: maker_def at_def inside_def os_write_def split: if_splits)
qed

lemma lock_ok_write_failed:
  assumes ok: "lock_ok s" and p: "live s p" "pc s p = Writing" and w: "os_write m (dir s) = (False, d)"
  shows "lock_ok (at p Trying (s\<lparr>dir := snd (os_rmdir d)\<rparr>))"
proof (rule lock_ok_insideE [OF ok p(1)])
  show "inside (pc s p)" by (simp add: p(2) inside_def)
next
  assume "present (dir s)"
  then show ?thesis using w by (simp add: os_write_def)
qed

lemma lock_ok_unlink:
  assumes ok: "lock_ok s" and p: "live s p" "pc s p = Holding"
  shows "lock_ok (at p Releasing (s\<lparr>dir := os_remove_file (dir s)\<rparr>))"
proof (rule lock_ok_insideE [OF ok p(1)])
  show "inside (pc s p)" by (simp add: p(2) inside_def)
next
  assume "present (dir s)" "\<forall>q. live s q \<and> inside (pc s q) \<longrightarrow> q = p"
  then show ?thesis
    using p lock_ok_pos [OF ok] lock_ok_frame [OF ok]
    by (intro lock_okI [where c = p]) (auto simp: maker_def at_def inside_def os_remove_file_def split: if_splits)
qed

lemma lock_ok_unlock:
  assumes ok: "lock_ok s" and p: "live s p" "pc s p = Releasing"
  shows "lock_ok (at p Outside (s\<lparr>dir := snd (os_rmdir (dir s))\<rparr>))"
proof (rule lock_ok_insideE [OF ok p(1)])
  show "inside (pc s p)" by (simp add: p(2) inside_def)
next
  assume pr: "present (dir s)" and only: "\<forall>q. live s q \<and> inside (pc s q) \<longrightarrow> q = p"
    and "case owner_file (dir s) of None \<Rightarrow> pc s p \<in> {Writing, Releasing}
     | Some m \<Rightarrow> (\<exists>x. m = Some x \<and> mPID x = p) \<and> pc s p = Holding"
  then have "owner_file (dir s) = None"
    using p(2) by (auto split: option.splits)
  then show ?thesis
    using pr only p lock_ok_pos [OF ok] lock_ok_frame [OF ok]
    by (auto simp: lock_ok_def maker_def at_def inside_def os_rmdir_def)
qed

lemma lock_ok_idle:
  assumes ok: "lock_ok s" "\<not> inside (pc s p)" and v: "\<not> inside v" "v \<notin> {Breaking, Broke, Swept}" "0 < p"
  shows "lock_ok (at p v s)"
proof -
  have "maker (at p v s) c" if "maker s c" for c
  proof -
    have "c \<noteq> p"
      using that ok(2) by (auto simp: maker_def inside_def split: option.splits)
    then show ?thesis
      using that v(1) by (auto simp: maker_def split: option.splits)
  qed
  then show ?thesis
    using ok v by (auto simp: lock_ok_def split: if_splits)
qed

text \<open>Breaking a lock in one go removes a directory whose maker is dead.\<close>

lemma lock_ok_break:
  assumes ok: "lock_ok s" and b: "tryBreakStale now (live s) staleAge (dir s) = (b, d)"
  shows "lock_ok (s\<lparr>dir := d\<rparr>)"
proof (cases "breakable now (live s) staleAge (dir s)")
  case False
  then have "s\<lparr>dir := d\<rparr> = s" using b by (simp add: tryBreakStale_def)
  then show ?thesis using ok by simp
next
  case True
  then obtain m where m: "owner_file (dir s) = Some (Some m)" "\<not> (mPID m > 0 \<and> live s (mPID m))"
    by (auto simp: breakable_def readOwnerFile_def split: option.splits bind_splits)
  then have pr: "present (dir s)"
    using ok by (auto simp: lock_ok_def split: if_splits)
  then have only: "\<forall>q. live s q \<and> inside (pc s q) \<longrightarrow> q = mPID m" and h: "pc s (mPID m) = Holding"
    using ok m(1) by (auto simp: lock_ok_def maker_def)
  have "\<forall>q. live s q \<longrightarrow> \<not> inside (pc s q)"
    using only m(2) lock_ok_pos [OF ok, of "mPID m"] h by auto
  moreover have "d = (dir s)\<lparr>owner_file := None, renamed := 0, present := False\<rparr>"
    using b True m(1) pr lock_ok_frame(1) [OF ok]
    by (simp add: tryBreakStale_def break_stale_def os_rename_def os_remove_renamed_def os_rmdir_def)
  ultimately show ?thesis
    using lock_ok_frame [OF ok] lock_ok_pos [OF ok] by (auto simp: lock_ok_def)
qed

lemma lock_ok_basic:
  assumes "lock_ok s" "live s p" "basic_step p s s'"
  shows "lock_ok s'"
  using assms(3,1,2)
proof cases
  case enter
  then show ?thesis using assms(1) lock_ok_idle by (auto simp: inside_def)
next
  case give_up
  then show ?thesis using assms(1) lock_ok_idle lock_ok_pos by (auto simp: inside_def)
qed (use assms lock_ok_made lock_ok_wrote lock_ok_write_failed lock_ok_unlink lock_ok_unlock in auto)

lemma lock_ok_calm: "calm_step staleAge s s' \<Longrightarrow> lock_ok s \<Longrightarrow> lock_ok s'"
  by (induction rule: calm_step.induct) (use lock_ok_basic lock_ok_die lock_ok_break in auto)

lemma calm_reachable_ok: "calm_reachable staleAge s \<Longrightarrow> lock_ok s"
  by (induction rule: calm_reachable.induct) (use lock_ok_start lock_ok_calm in auto)

lemma lock_ok_exclusive:
  assumes "lock_ok s" "live s p" "live s q" "pc s p = Holding" "pc s q = Holding"
  shows "p = q"
  using lock_ok_insideE [OF assms(1,2)] assms by (metis inside_def insertCI)

text \<open>When the breaking of a stale lock is not interleaved with other processes, two
  live processes never hold the lock at once.\<close>

lemma calm_lock_exclusive:
  assumes "calm_reachable staleAge s" "live s p" "live s q" "pc s p = Holding" "pc s q = Holding"
  shows "p = q"
  using calm_reachable_ok [OF assms(1)] assms(2-5) by (rule lock_ok_exclusive)

section \<open>The race in the breaking of a lock\<close>

text \<open>
  Processes 1, 2 and 3: 1 takes the lock and dies; 2 and 3 both read its owner file and
  decide to break. 3 breaks the lock and takes it. 2, which decided on the dead owner's
  file, now renames the file of 3, removes the directory and takes the lock too.
\<close>

definition race_meta :: "int \<Rightarrow> ownerMeta" where
  "race_meta p = \<lparr>mPID = p, mHost = ''h'', mOwner = ''o'', mCreated = 0\<rparr>"

definition held_dir :: "int \<Rightarrow> lock_dir" where
  "held_dir p = \<lparr>present = True, owner_file = Some (Some (race_meta p)), renamed = 0\<rparr>"

definition made_dir :: lock_dir where "made_dir = \<lparr>present = True, owner_file = None, renamed = 0\<rparr>"
definition renamed_dir :: lock_dir where "renamed_dir = \<lparr>present = True, owner_file = None, renamed = 1\<rparr>"

lemmas race_defs = race_meta_def held_dir_def made_dir_def renamed_dir_def no_dir_def
  os_rename_def os_remove_renamed_def dir_ops

lemma race_os:
  "os_mkdir no_dir = (True, made_dir)" "os_write (race_meta p) made_dir = (True, held_dir p)"
  "os_rename (held_dir p) = (True, renamed_dir)" "os_remove_renamed renamed_dir = made_dir"
  "snd (os_rmdir made_dir) = no_dir"
  by (simp_all add: race_defs)

lemma at_at: "at p v ((at p w s)\<lparr>dir := e\<rparr>) = at p v (s\<lparr>dir := e\<rparr>)"
  by (simp add: at_def)

text \<open>A process that tries gets a free lock.\<close>

lemma race_take:
  assumes r: "lock_reachable A s" and p: "live s p" "pc s p = Trying" "dir s = no_dir"
  shows "lock_reachable A (at p Holding (s\<lparr>dir := held_dir p\<rparr>))"
proof -
  let ?t = "at p Writing (s\<lparr>dir := made_dir\<rparr>)"
  have "basic_step p s ?t"
    using basic_step.made [of s p made_dir] p by (simp add: race_os)
  then have t: "lock_reachable A ?t"
    using lock_reachable.step [OF r lock_step.basic [where p = p]] p by blast
  have "basic_step p ?t (at p Holding (?t\<lparr>dir := held_dir p\<rparr>))"
    using basic_step.wrote [of ?t p "race_meta p" "held_dir p"] by (simp add: race_os) (simp add: race_meta_def)
  then have "lock_reachable A (at p Holding (?t\<lparr>dir := held_dir p\<rparr>))"
    using lock_reachable.step [OF t lock_step.basic [where p = p]] p by simp
  then show ?thesis
    by (simp add: at_def)
qed

text \<open>A process that has decided to break removes whatever lock it finds.\<close>

lemma race_break:
  assumes r: "lock_reachable A s" and p: "live s p" "pc s p = Breaking" "dir s = held_dir q"
  shows "lock_reachable A (at p Trying (s\<lparr>dir := no_dir\<rparr>))"
proof -
  let ?t = "at p Broke (s\<lparr>dir := renamed_dir\<rparr>)"
  let ?u = "at p Swept (s\<lparr>dir := made_dir\<rparr>)"
  have t: "lock_reachable A ?t"
    using lock_reachable.step [OF r lock_step.rename [where p = p]] p by (simp add: race_os)
  have u: "lock_reachable A ?u"
    using lock_reachable.step [OF t lock_step.sweep [where p = p]] p by (simp add: race_os at_def)
  show ?thesis
    using lock_reachable.step [OF u lock_step.remove [where p = p]] p by (simp add: race_os at_def)
qed

text \<open>A process outside starts to acquire.\<close>

lemma race_enter:
  assumes r: "lock_reachable A s" and p: "live s p" "pc s p = Outside" "0 < p"
  shows "lock_reachable A (at p Trying s)"
  using lock_reachable.step [OF r lock_step.basic [OF p(1) basic_step.enter [OF p(2,3)]]] .

lemma race_decide:
  assumes r: "lock_reachable DefaultStaleAge s"
    and p: "live s p" "pc s p = Trying" "dir s = held_dir q" "\<not> live s q"
  shows "lock_reachable DefaultStaleAge (at p Breaking s)"
proof -
  have "breakable DefaultStaleAge (live s) DefaultStaleAge (dir s)"
    by (simp add: p breakable_def held_dir_def race_meta_def readOwnerFile_def time_sub_def
        DefaultStaleAge_def seconds_ns_def)
  then show ?thesis
    using lock_reachable.step [OF r lock_step.decide [where p = p]] p by blast
qed

text \<open>With the calls of the code interleaved, two live processes can hold the same lock: a
  process that decided to break a dead owner's lock breaks the lock of the process that has
  taken its place.\<close>

lemma stale_break_race:
  "\<exists>s p q. lock_reachable DefaultStaleAge s \<and> p \<noteq> q \<and> live s p \<and> live s q \<and> pc s p = Holding \<and> pc s q = Holding"
proof -
  let ?s0 = "lock_start (\<lambda>_. True)"
  let ?s1 = "at 1 Holding ((at 1 Trying ?s0)\<lparr>dir := held_dir 1\<rparr>)"
  let ?s2 = "?s1\<lparr>live := (live ?s1)(1 := False)\<rparr>"
  let ?s3 = "at 2 Breaking (at 2 Trying ?s2)"
  let ?s4 = "at 3 Breaking (at 3 Trying ?s3)"
  let ?s5 = "at 3 Trying (?s4\<lparr>dir := no_dir\<rparr>)"
  let ?s6 = "at 3 Holding (?s5\<lparr>dir := held_dir 3\<rparr>)"
  let ?s7 = "at 2 Trying (?s6\<lparr>dir := no_dir\<rparr>)"
  let ?s8 = "at 2 Holding (?s7\<lparr>dir := held_dir 2\<rparr>)"
  have r1: "lock_reachable DefaultStaleAge ?s1"
    by (rule race_take [OF race_enter [OF lock_reachable.init]]) (simp_all add: lock_start_def)
  have r2: "lock_reachable DefaultStaleAge ?s2"
    by (rule lock_reachable.step [OF r1 lock_step.die])
  have r3: "lock_reachable DefaultStaleAge ?s3"
    by (rule race_decide [where q = 1, OF race_enter [OF r2]]) (simp_all add: lock_start_def)
  have r4: "lock_reachable DefaultStaleAge ?s4"
    by (rule race_decide [where q = 1, OF race_enter [OF r3]]) (simp_all add: lock_start_def)
  have r5: "lock_reachable DefaultStaleAge ?s5"
    by (rule race_break [where q = 1, OF r4]) (simp_all add: lock_start_def)
  have r6: "lock_reachable DefaultStaleAge ?s6"
    by (rule race_take [OF r5]) (simp_all add: lock_start_def)
  have r7: "lock_reachable DefaultStaleAge ?s7"
    by (rule race_break [where q = 3, OF r6]) (simp_all add: lock_start_def)
  have r8: "lock_reachable DefaultStaleAge ?s8"
    by (rule race_take [OF r7]) (simp_all add: lock_start_def)
  have "live ?s8 2" "live ?s8 3" "pc ?s8 2 = Holding" "pc ?s8 3 = Holding"
    by (simp_all add: lock_start_def)
  then show ?thesis
    using r8 by (intro exI [where x = ?s8] exI [where x = 2] exI [where x = 3]) simp
qed

text \<open>A process that acquires a free lock is the only live one that holds it.\<close>

end
