(* ===== verification/LockTree.thy ===== *)
theory LockTree
  imports DirLock
begin

text \<open>
  The lock directories under the base directory of \<^verbatim>\<open>internal/lock/lock.go\<close>: the path of a
  lock, the listing, the stale locks and their cleaning. The tree is the listing of the
  base directory, the entries of a name level being the scopes; every call of the code
  is one function on it.
\<close>

section \<open>The tree\<close>

datatype 'a entry = PlainFile | Directory 'a

record lock_slot =
  slot_dir :: lock_dir
  mtime :: int

type_synonym scope_dir = "(string \<times> lock_slot entry) list"
type_synonym lock_tree = "(string \<times> scope_dir option entry) list"

text \<open>The path of a lock, as components below the base directory.\<close>

definition lockDir :: "string list \<Rightarrow> string \<Rightarrow> string \<Rightarrow> lock_error + string list" where
  "lockDir base name scope =
     (if \<not> validateComponent name then Inl ErrBadName
      else if \<not> validateComponent scope then Inl ErrBadName
      else Inr (base @ [name, scope]))"

text \<open>The zero time of Go, in nanoseconds since 1970.\<close>

definition zero_time :: int where "zero_time = seconds_ns (- 62135596800)"

record Lock =
  lName :: string
  lScope :: string
  lOwner :: string
  lPID :: int
  lHost :: string
  lCreated :: int

definition lock_entry :: "string \<Rightarrow> string \<Rightarrow> lock_slot \<Rightarrow> Lock" where
  "lock_entry name scope sl =
     (case readOwnerFile (slot_dir sl) of
        None \<Rightarrow> \<lparr>lName = name, lScope = scope, lOwner = '''', lPID = 0, lHost = '''', lCreated = zero_time\<rparr>
      | Some m \<Rightarrow> \<lparr>lName = name, lScope = scope, lOwner = mOwner m, lPID = mPID m, lHost = mHost m,
                  lCreated = seconds_ns (mCreated m)\<rparr>)"

fun scope_locks :: "string \<Rightarrow> scope_dir \<Rightarrow> Lock list" where
  "scope_locks name [] = []"
| "scope_locks name ((scope, e) # es) =
     (case e of PlainFile \<Rightarrow> scope_locks name es
      | Directory sl \<Rightarrow> lock_entry name scope sl # scope_locks name es)"

fun ListLocks :: "lock_tree \<Rightarrow> Lock list" where
  "ListLocks [] = []"
| "ListLocks ((name, e) # es) =
     (case e of
        Directory (Some scopes) \<Rightarrow> scope_locks name scopes @ ListLocks es
      | _ \<Rightarrow> ListLocks es)"

definition scopes_at :: "lock_tree \<Rightarrow> string \<Rightarrow> scope_dir" where
  "scopes_at t name = (case map_of t name of Some (Directory (Some s)) \<Rightarrow> s | _ \<Rightarrow> [])"

definition slot_at :: "lock_tree \<Rightarrow> string \<Rightarrow> string \<Rightarrow> lock_slot option" where
  "slot_at t name scope = (case map_of (scopes_at t name) scope of Some (Directory sl) \<Rightarrow> Some sl | _ \<Rightarrow> None)"

definition stale_lock :: "lock_tree \<Rightarrow> int \<Rightarrow> Lock \<Rightarrow> bool" where
  "stale_lock t threshold l \<longleftrightarrow>
     (lCreated l \<noteq> zero_time \<and> lCreated l < threshold) \<or>
     (lCreated l = zero_time \<and>
      (case slot_at t (lName l) (lScope l) of None \<Rightarrow> False | Some sl \<Rightarrow> mtime sl < threshold))"

definition Stale :: "int \<Rightarrow> int \<Rightarrow> lock_tree \<Rightarrow> Lock list" where
  "Stale now maxAge t = filter (stale_lock t (now - maxAge)) (ListLocks t)"

section \<open>Cleaning\<close>

text \<open>Removing the owner file and then the directory, which fails when something is left in it.\<close>

definition clean_slot :: "lock_slot \<Rightarrow> bool \<times> lock_slot option" where
  "clean_slot sl =
     (case os_rmdir (os_remove_file (slot_dir sl)) of
        (True, d) \<Rightarrow> (True, None)
      | (False, d) \<Rightarrow> (False, Some (sl\<lparr>slot_dir := d\<rparr>)))"

fun set_scope :: "string \<Rightarrow> lock_slot option \<Rightarrow> scope_dir \<Rightarrow> scope_dir" where
  "set_scope scope v [] = []"
| "set_scope scope v ((s, e) # es) =
     (if s = scope then (case v of None \<Rightarrow> es | Some sl \<Rightarrow> (s, Directory sl) # es)
      else (s, e) # set_scope scope v es)"

fun set_slot :: "string \<Rightarrow> string \<Rightarrow> lock_slot option \<Rightarrow> lock_tree \<Rightarrow> lock_tree" where
  "set_slot name scope v [] = []"
| "set_slot name scope v ((n, e) # es) =
     (if n = name
      then (case e of Directory (Some ss) \<Rightarrow> (n, Directory (Some (set_scope scope v ss))) | _ \<Rightarrow> (n, e)) # es
      else (n, e) # set_slot name scope v es)"

fun clean_locks :: "(int \<Rightarrow> bool) \<Rightarrow> Lock list \<Rightarrow> nat \<Rightarrow> lock_tree \<Rightarrow> nat \<times> lock_tree" where
  "clean_locks alive [] removed t = (removed, t)"
| "clean_locks alive (l # ls) removed t =
     (if lPID l > 0 \<and> alive (lPID l) then clean_locks alive ls removed t
      else
        (case slot_at t (lName l) (lScope l) of
           None \<Rightarrow> clean_locks alive ls removed t
         | Some sl \<Rightarrow>
             (case clean_slot sl of
                (ok, v) \<Rightarrow> clean_locks alive ls (if ok then removed + 1 else removed)
                             (set_slot (lName l) (lScope l) v t))))"

definition Clean :: "int \<Rightarrow> (int \<Rightarrow> bool) \<Rightarrow> int \<Rightarrow> lock_tree \<Rightarrow> nat \<times> lock_tree" where
  "Clean now alive maxAge t = clean_locks alive (Stale now maxAge t) 0 t"

section \<open>Paths\<close>

lemma lockDir_inj:
  assumes "lockDir base n s = Inr d" "lockDir base n' s' = Inr d"
  shows "n = n' \<and> s = s'"
  using assms by (auto simp: lockDir_def split: if_splits)

lemma lockDir_below:
  assumes "lockDir base n s = Inr d"
  shows "\<exists>a b. d = base @ [a, b] \<and> validateComponent a \<and> validateComponent b"
  using assms by (auto simp: lockDir_def split: if_splits)

section \<open>What cleaning keeps\<close>

lemma map_of_set_scope: "scope' \<noteq> scope \<Longrightarrow> map_of (set_scope scope v ss) scope' = map_of ss scope'"
  by (induction ss) (auto split: option.splits)

lemma scopes_at_set_slot: "scopes_at (set_slot name scope v t) name = set_scope scope v (scopes_at t name)"
proof (induction t)
  case (Cons x t)
  obtain n e where x: "x = (n, e)" by force
  show ?case
  proof (cases "n = name")
    case True
    then show ?thesis
      unfolding x scopes_at_def by (simp split: entry.split option.split)
  next
    case False
    then show ?thesis
      using Cons.IH unfolding x by (simp add: scopes_at_def)
  qed
qed (simp add: scopes_at_def)

lemma scopes_at_set_slot_other: "n \<noteq> name \<Longrightarrow> scopes_at (set_slot name scope v t) n = scopes_at t n"
proof (induction t)
  case (Cons x t)
  then show ?case
    by (cases x; cases "snd x") (auto simp: scopes_at_def split: option.split)
qed simp

lemma slot_at_set_slot_other:
  assumes "(name', scope') \<noteq> (name, scope)"
  shows "slot_at (set_slot name scope v t) name' scope' = slot_at t name' scope'"
  using assms
  by (cases "name' = name") (simp_all add: slot_at_def scopes_at_set_slot scopes_at_set_slot_other map_of_set_scope)

lemma clean_locks_keeps:
  assumes "\<And>l. l \<in> set ls \<Longrightarrow> lName l = name \<Longrightarrow> lScope l = scope \<Longrightarrow> lPID l > 0 \<and> alive (lPID l)"
  shows "slot_at (snd (clean_locks alive ls removed t)) name scope = slot_at t name scope"
  using assms
proof (induction ls arbitrary: removed t)
  case (Cons l ls)
  show ?case
  proof (cases "lPID l > 0 \<and> alive (lPID l)")
    case True
    then show ?thesis using Cons by simp
  next
    case False
    then have "(name, scope) \<noteq> (lName l, lScope l)"
      using Cons.prems [of l] by auto
    then show ?thesis
      using False Cons.IH Cons.prems by (auto simp: slot_at_set_slot_other split: option.splits prod.splits)
  qed
qed simp

lemma lock_entry_name [simp]:
  "lName (lock_entry n s sl) = n" "lScope (lock_entry n s sl) = s"
  by (simp_all add: lock_entry_def split: option.splits)

lemma scope_locks_entry:
  "l \<in> set (scope_locks name ss) \<Longrightarrow> \<exists>sl. (lScope l, Directory sl) \<in> set ss \<and> l = lock_entry name (lScope l) sl"
proof (induction ss)
  case (Cons x ss)
  then show ?case
    by (cases x; cases "snd x"; fastforce)
qed simp

lemma ListLocks_entry:
  assumes "l \<in> set (ListLocks t)"
  shows "\<exists>ss sl. (lName l, Directory (Some ss)) \<in> set t \<and> (lScope l, Directory sl) \<in> set ss \<and>
           l = lock_entry (lName l) (lScope l) sl"
  using assms
proof (induction t)
  case (Cons x t)
  obtain n e where x: "x = (n, e)" by force
  show ?case
  proof (cases "\<exists>ss. e = Directory (Some ss) \<and> l \<in> set (scope_locks n ss)")
    case True
    then obtain ss where "e = Directory (Some ss)" "l \<in> set (scope_locks n ss)" by blast
    moreover from this(2) scope_locks_entry obtain sl
      where sl: "(lScope l, Directory sl) \<in> set ss" "l = lock_entry n (lScope l) sl" by blast
    moreover from sl(2) have "lName l = n"
      by (metis lock_entry_name(1))
    ultimately show ?thesis using x by auto
  next
    case False
    then have "l \<in> set (ListLocks t)"
      using Cons.prems x by (auto split: entry.splits option.splits)
    then show ?thesis using Cons.IH by fastforce
  qed
qed simp

text \<open>A directory lists each name once.\<close>

definition tree_ok :: "lock_tree \<Rightarrow> bool" where
  "tree_ok t \<longleftrightarrow> distinct (map fst t) \<and>
     list_all (\<lambda>(n, e). case e of Directory (Some ss) \<Rightarrow> distinct (map fst ss) | _ \<Rightarrow> True) t"

lemma ListLocks_slot:
  assumes "tree_ok t" "l \<in> set (ListLocks t)"
  shows "\<exists>sl. slot_at t (lName l) (lScope l) = Some sl \<and> l = lock_entry (lName l) (lScope l) sl"
proof -
  obtain ss sl where m: "(lName l, Directory (Some ss)) \<in> set t" "(lScope l, Directory sl) \<in> set ss"
      "l = lock_entry (lName l) (lScope l) sl"
    using ListLocks_entry [OF assms(2)] by blast
  have "map_of t (lName l) = Some (Directory (Some ss))"
    using assms(1) m(1) by (simp add: tree_ok_def)
  moreover have "distinct (map fst ss)"
    using assms(1) m(1) by (fastforce simp: tree_ok_def list_all_iff)
  ultimately have "slot_at t (lName l) (lScope l) = Some sl"
    using m(2) by (simp add: slot_at_def scopes_at_def)
  with m(3) show ?thesis by blast
qed

text \<open>Cleaning never touches a lock whose owner file names a running process.\<close>

lemma Clean_keeps_live:
  assumes ok: "tree_ok t" and sl: "slot_at t name scope = Some sl"
    and m: "readOwnerFile (slot_dir sl) = Some m" "mPID m > 0" "alive (mPID m)"
  shows "slot_at (snd (Clean now alive maxAge t)) name scope = Some sl"
proof -
  have "slot_at (snd (Clean now alive maxAge t)) name scope = slot_at t name scope"
    unfolding Clean_def
  proof (rule clean_locks_keeps)
    fix l assume l: "l \<in> set (Stale now maxAge t)" "lName l = name" "lScope l = scope"
    then have "l \<in> set (ListLocks t)" by (simp add: Stale_def)
    from ListLocks_slot [OF ok this] l sl have "l = lock_entry name scope sl" by auto
    then show "lPID l > 0 \<and> alive (lPID l)"
      using m by (simp add: lock_entry_def)
  qed
  with sl show ?thesis by simp
qed

section \<open>Acquire and Release by one process\<close>

lemma Acquire_free:
  "\<not> present d \<Longrightarrow> Acquire (Suc n) now alive A m dl i d = Some (None, d\<lparr>present := True, owner_file := Some (Some m)\<rparr>)"
  by (simp add: os_mkdir_def os_write_def)

text \<open>A lock whose owner runs, or whose owner file is missing, is waited for until the deadline.\<close>

lemma Acquire_times_out:
  assumes "present d" "\<And>j. \<not> breakable (now j) alive A d" "now (i + k) > dl" "\<And>j. j < k \<Longrightarrow> now (i + j) \<le> dl"
  shows "Acquire (Suc (k + n)) now alive A m dl i d = Some (Some ErrTimeout, d)"
  using assms(3,4)
proof (induction k arbitrary: i)
  case 0
  then show ?case using assms(1,2) by (simp add: os_mkdir_def tryBreakStale_def)
next
  case (Suc k)
  have "Acquire (Suc (k + n)) now alive A m dl (Suc i) d = Some (Some ErrTimeout, d)"
  proof (rule Suc.IH)
    show "dl < now (Suc i + k)" using Suc.prems(1) by simp
    show "now (Suc i + j) \<le> dl" if "j < k" for j
      using Suc.prems(2) [of "Suc j"] that by simp
  qed
  moreover have "\<not> now i > dl" using Suc.prems(2) [of 0] by simp
  ultimately show ?case
    using assms(1,2) by (simp add: os_mkdir_def tryBreakStale_def)
qed

text \<open>A stale lock of a dead owner is broken and taken in two turns.\<close>

lemma Acquire_breaks:
  assumes "present d" "renamed d = 0" "breakable (now i) alive A d"
  shows "Acquire (Suc (Suc n)) now alive A m dl i d =
           Some (None, d\<lparr>owner_file := Some (Some m), renamed := 0, present := True\<rparr>)"
proof -
  have "owner_file d \<noteq> None"
    using assms(3) by (auto simp: breakable_def readOwnerFile_def split: option.splits bind_splits)
  then have "tryBreakStale (now i) alive A d = (True, d\<lparr>owner_file := None, renamed := 0, present := False\<rparr>)"
    using assms by (simp add: tryBreakStale_def break_stale_def os_rename_def os_remove_renamed_def os_rmdir_def)
  then show ?thesis
    using assms(1) by (simp add: os_mkdir_def os_write_def)
qed

lemma Release_cases:
  "readOwnerFile d = None \<Longrightarrow> Release ow d = (Some ErrNotFound, d)"
  "readOwnerFile d = Some m \<Longrightarrow> mOwner m \<noteq> ow \<Longrightarrow> Release ow d = (Some ErrNotOwner, d)"
  "readOwnerFile d = Some m \<Longrightarrow> mOwner m = ow \<Longrightarrow> present d \<Longrightarrow> renamed d = 0 \<Longrightarrow>
     Release ow d = (None, d\<lparr>owner_file := None, present := False\<rparr>)"
  by (simp_all add: Release_def os_remove_file_def os_rmdir_def)

text \<open>Acquiring and releasing leaves no directory behind.\<close>

lemma Acquire_Release:
  "Acquire (Suc n) now alive A m dl i no_dir = Some (None, d) \<Longrightarrow> Release (mOwner m) d = (None, no_dir)"
  by (auto simp: no_dir_def os_mkdir_def os_write_def Release_def readOwnerFile_def os_remove_file_def os_rmdir_def)

end
