(* ===== verification/Redaction.thy ===== *)
theory Redaction
  imports Prelude "HOL-Library.Multiset"
begin

text \<open>
  Secret redaction of \<^verbatim>\<open>pkg/redaction\<close>: the pattern table, its priority sort, the scan with
  overlap resolution, and the replacement of findings by placeholders. Regular
  expressions are Go's: compiling one is an argument that yields the function of all
  its matches (\<^verbatim>\<open>FindAllStringIndex\<close>). \<^verbatim>\<open>sort.Slice\<close>, which is not stable, is an argument
  of which only its contract is used. Strings are byte lists.
\<close>

section \<open>Sorting contract\<close>

definition slice_sort :: "('a \<Rightarrow> 'a \<Rightarrow> bool) \<Rightarrow> ('a list \<Rightarrow> 'a list) \<Rightarrow> bool" where
  "slice_sort lt srt \<longleftrightarrow> (\<forall>xs. mset (srt xs) = mset xs \<and> sorted_wrt (\<lambda>a b. \<not> lt b a) (srt xs))"

lemma slice_sort_simps:
  assumes "slice_sort lt srt"
  shows "set (srt xs) = set xs" "length (srt xs) = length xs" "mset (srt xs) = mset xs"
    "sorted_wrt (\<lambda>a b. \<not> lt b a) (srt xs)"
  using assms by (auto simp: slice_sort_def dest: mset_eq_setD mset_eq_length)

section \<open>Patterns\<close>

datatype redact_mode = ModeOff | ModeWarn | ModeRedact | ModeBlock

type_synonym finder = "string \<Rightarrow> (nat \<times> nat) list"

record pattern =
  pCategory :: string
  pRegex :: finder
  pPriority :: int

definition defaultPatterns :: "(string \<times> string \<times> int) list" where
  "defaultPatterns =
     [(''OPENAI_KEY'', ''sk'' @ [CHR 0x5C] @ ''-[a-zA-Z0-9]{10,}T3BlbkFJ[a-zA-Z0-9]{10,}'', 100),
      (''OPENAI_KEY'', ''sk'' @ [CHR 0x5C] @ ''-proj'' @ [CHR 0x5C] @ ''-[a-zA-Z0-9_-]{40,}'', 100),
      (''OPENAI_KEY'', ''sk'' @ [CHR 0x5C] @ ''-[a-zA-Z0-9]{48}'', 95),
      (''ANTHROPIC_KEY'', ''sk'' @ [CHR 0x5C] @ ''-ant'' @ [CHR 0x5C] @ ''-[a-zA-Z0-9_-]{40,}'', 100),
      (''GITHUB_TOKEN'', ''gh[pousr]_[a-zA-Z0-9]{30,}'', 100),
      (''GITHUB_TOKEN'', ''github_pat_[a-zA-Z0-9]{20,}_[a-zA-Z0-9]{40,}'', 100),
      (''GOOGLE_API_KEY'', ''AIza[a-zA-Z0-9_-]{35}'', 100),
      (''AWS_ACCESS_KEY'', ''AKIA[0-9A-Z]{16}'', 90),
      (''AWS_ACCESS_KEY'', ''ASIA[0-9A-Z]{16}'', 90),
      (''AWS_SECRET_KEY'', ''(?i)(aws_secret|secret_access_key|secret_key)'' @ [CHR 0x5C] @ ''s*[=:]'' @ [CHR 0x5C] @ ''s*['' @ [CHR 0x22] @ [CHR 0x27] @ '']?[a-zA-Z0-9/+=]{40}['' @ [CHR 0x22] @ [CHR 0x27] @ '']?'', 90),
      (''JWT'', ''eyJ[a-zA-Z0-9_-]*'' @ [CHR 0x5C] @ ''.eyJ[a-zA-Z0-9_-]*'' @ [CHR 0x5C] @ ''.[a-zA-Z0-9_-]+'', 85),
      (''BEARER_TOKEN'', ''(?i)bearer'' @ [CHR 0x5C] @ ''s+[a-zA-Z0-9._-]{20,}'', 80),
      (''PRIVATE_KEY'', ''-----BEGIN'' @ [CHR 0x5C] @ ''s+(RSA'' @ [CHR 0x5C] @ ''s+|DSA'' @ [CHR 0x5C] @ ''s+|EC'' @ [CHR 0x5C] @ ''s+|OPENSSH'' @ [CHR 0x5C] @ ''s+)?PRIVATE KEY-----'', 95),
      (''DATABASE_URL'', ''(?i)(postgres|mysql|mongodb|redis)://[^:]+:[^@]+@[^'' @ [CHR 0x5C] @ ''s]+'', 85),
      (''NOTION_TOKEN'', ''ntn_[a-zA-Z0-9]{40,}'', 100),
      (''NOTION_TOKEN'', ''secret_[a-zA-Z0-9]{40,}'', 80),
      (''SLACK_TOKEN'', ''xoxb-[0-9]+-[0-9]+-[a-zA-Z0-9]+'', 100),
      (''SLACK_TOKEN'', ''xoxp-[0-9]+-[0-9]+-[0-9]+-[a-f0-9]+'', 100),
      (''SLACK_TOKEN'', ''xoxe'' @ [CHR 0x5C] @ ''.xox[bp]-[0-9]-[a-zA-Z0-9]+'', 100),
      (''HUGGINGFACE_TOKEN'', ''hf_[a-zA-Z0-9]{30,}'', 100),
      (''EXA_API_KEY'', ''(?i)(exa[_-]?api[_-]?key)'' @ [CHR 0x5C] @ ''s*[=:]'' @ [CHR 0x5C] @ ''s*['' @ [CHR 0x22] @ [CHR 0x27] @ '']?[a-zA-Z0-9_-]{20,}['' @ [CHR 0x22] @ [CHR 0x27] @ '']?'', 80),
      (''TELEGRAM_TOKEN'', [CHR 0x5C] @ ''d{8,}:[-A-Za-z0-9_]{30,}'', 90),
      (''PERPLEXITY_KEY'', ''pplx-[A-Za-z0-9]{10,}'', 100),
      (''FAL_KEY'', ''fal_[A-Za-z0-9_-]{10,}'', 100),
      (''FIRECRAWL_KEY'', ''fc-[A-Za-z0-9]{10,}'', 100),
      (''BROWSERBASE_KEY'', ''bb_live_[A-Za-z0-9_-]{10,}'', 100),
      (''CODEX_TOKEN'', ''gAAAA[A-Za-z0-9_=-]{20,}'', 100),
      (''PASSWORD'', ''(?i)(password|passwd|pwd)'' @ [CHR 0x5C] @ ''s*[=:]'' @ [CHR 0x5C] @ ''s*['' @ [CHR 0x22] @ [CHR 0x27] @ '']?[^'' @ [CHR 0x5C] @ ''s'' @ [CHR 0x22] @ [CHR 0x27] @ '']{8,}['' @ [CHR 0x22] @ [CHR 0x27] @ '']?'', 50),
      (''GENERIC_API_KEY'', ''(?i)([a-z_]*api[_]?key)'' @ [CHR 0x5C] @ ''s*[=:]'' @ [CHR 0x5C] @ ''s*['' @ [CHR 0x22] @ [CHR 0x27] @ '']?[a-zA-Z0-9_-]{16,}['' @ [CHR 0x22] @ [CHR 0x27] @ '']?'', 40),
      (''GENERIC_SECRET'', ''(?i)(secret|private[_]?key|token)'' @ [CHR 0x5C] @ ''s*[=:]'' @ [CHR 0x5C] @ ''s*['' @ [CHR 0x22] @ [CHR 0x27] @ '']?[a-zA-Z0-9/+=_-]{16,}['' @ [CHR 0x22] @ [CHR 0x27] @ '']?'', 30)]"

definition compile_all :: "(string \<Rightarrow> finder option) \<Rightarrow> (string \<times> string \<times> int) list \<Rightarrow> pattern list" where
  "compile_all rx defs =
     List.map_filter (\<lambda>(cat, p, prio).
       map_option (\<lambda>f. \<lparr>pCategory = cat, pRegex = f, pPriority = prio\<rparr>) (rx p)) defs"

text \<open>The inner loop: sinking the element at \<open>j\<close> to the left past smaller priorities.\<close>

fun sink_pattern :: "nat \<Rightarrow> pattern list \<Rightarrow> pattern list" where
  "sink_pattern 0 ps = ps"
| "sink_pattern (Suc j) ps =
     (if pPriority (ps ! Suc j) > pPriority (ps ! j)
      then sink_pattern j (ps[Suc j := ps ! j, j := ps ! Suc j])
      else ps)"

definition sortPatternsByPriority :: "pattern list \<Rightarrow> pattern list" where
  "sortPatternsByPriority ps = fold sink_pattern [1..<length ps] ps"

definition compilePatterns :: "(string \<Rightarrow> finder option) \<Rightarrow> pattern list" where
  "compilePatterns rx = sortPatternsByPriority (compile_all rx defaultPatterns)"

text \<open>Extra patterns of the configuration, in the order in which the map is visited.\<close>

fun getExtraPatterns :: "(string \<Rightarrow> finder option) \<Rightarrow> (string \<times> string list) list \<Rightarrow> pattern list" where
  "getExtraPatterns rx [] = []"
| "getExtraPatterns rx ((cat, pats) # rest) =
     List.map_filter (\<lambda>p. map_option (\<lambda>f. \<lparr>pCategory = cat, pRegex = f, pPriority = 60\<rparr>) (rx p)) pats
     @ getExtraPatterns rx rest"

definition isCategoryDisabled :: "string \<Rightarrow> string list \<Rightarrow> bool" where
  "isCategoryDisabled cat disabled = list_ex (\<lambda>d. d = cat) disabled"

definition compileAllowlist :: "(string \<Rightarrow> finder option) \<Rightarrow> string list \<Rightarrow> finder list" where
  "compileAllowlist rx allow = List.map_filter rx allow"

definition isAllowlisted :: "string \<Rightarrow> finder list \<Rightarrow> bool" where
  "isAllowlisted m allow = list_ex (\<lambda>f. f m \<noteq> []) allow"

section \<open>Scanning\<close>

record found =
  mCategory :: string
  mText :: string
  mStart :: nat
  mEnd :: nat
  mPriority :: int

definition slice :: "nat \<Rightarrow> nat \<Rightarrow> 'a list \<Rightarrow> 'a list" where
  "slice a b s = take (b - a) (drop a s)"

definition pattern_matches :: "string \<Rightarrow> pattern \<Rightarrow> found list" where
  "pattern_matches input p =
     map (\<lambda>(a, b). \<lparr>mCategory = pCategory p, mText = slice a b input, mStart = a, mEnd = b,
                    mPriority = pPriority p\<rparr>) (pRegex p input)"

definition raw_matches :: "string \<Rightarrow> string list \<Rightarrow> pattern list \<Rightarrow> found list" where
  "raw_matches input disabled ps =
     concat (map (\<lambda>p. if isCategoryDisabled (pCategory p) disabled then [] else pattern_matches input p) ps)"

text \<open>Order of the first sort: priority first, then the start; of the second: the start.\<close>

definition prio_less :: "found \<Rightarrow> found \<Rightarrow> bool" where
  "prio_less a b =
     (if mPriority a \<noteq> mPriority b then mPriority a > mPriority b else mStart a < mStart b)"

definition start_less :: "found \<Rightarrow> found \<Rightarrow> bool" where
  "start_less a b \<longleftrightarrow> mStart a < mStart b"

definition overlapping :: "bool list \<Rightarrow> found \<Rightarrow> bool" where
  "overlapping covered m = list_ex (\<lambda>i. covered ! i) [mStart m..<mEnd m]"

definition cover :: "found \<Rightarrow> bool list \<Rightarrow> bool list" where
  "cover m covered = fold (\<lambda>i c. c[i := True]) [mStart m..<mEnd m] covered"

fun keep_matches :: "bool list \<Rightarrow> found list \<Rightarrow> found list" where
  "keep_matches covered [] = []"
| "keep_matches covered (m # ms) =
     (if overlapping covered m then keep_matches covered ms
      else m # keep_matches (cover m covered) ms)"

definition max_end :: "found list \<Rightarrow> nat" where
  "max_end ms = fold (\<lambda>m e. if mEnd m > e then mEnd m else e) ms 0"

definition deduplicateMatches :: "(found list \<Rightarrow> found list) \<Rightarrow> (found list \<Rightarrow> found list) \<Rightarrow> found list \<Rightarrow> found list" where
  "deduplicateMatches sort1 sort2 ms =
     (if ms = [] then ms
      else let ms' = sort1 ms in sort2 (keep_matches (replicate (max_end ms' + 1) False) ms'))"

definition scan :: "(found list \<Rightarrow> found list) \<Rightarrow> (found list \<Rightarrow> found list) \<Rightarrow> string \<Rightarrow> finder list
    \<Rightarrow> string list \<Rightarrow> pattern list \<Rightarrow> found list" where
  "scan sort1 sort2 input allow disabled ps =
     (let ms = deduplicateMatches sort1 sort2 (raw_matches input disabled ps)
      in if allow \<noteq> [] then filter (\<lambda>m. \<not> isAllowlisted (mText m) allow) ms else ms)"

section \<open>Replacing\<close>

record Finding =
  fCategory :: string
  fMatch :: string
  fRedacted :: string
  fStart :: nat
  fEnd :: nat

text \<open>The placeholder, with the first four bytes of the hash in hexadecimal.\<close>

definition generatePlaceholder :: "(string \<Rightarrow> string) \<Rightarrow> string \<Rightarrow> string \<Rightarrow> string" where
  "generatePlaceholder hash8 cat content =
     ''[REDACTED:'' @ cat @ '':'' @ hash8 (cat @ '':'' @ content) @ '']''"

definition finding_of :: "(string \<Rightarrow> string) \<Rightarrow> found \<Rightarrow> Finding" where
  "finding_of hash8 m =
     \<lparr>fCategory = mCategory m, fMatch = mText m, fRedacted = generatePlaceholder hash8 (mCategory m) (mText m),
      fStart = mStart m, fEnd = mEnd m\<rparr>"

definition later_start :: "Finding \<Rightarrow> Finding \<Rightarrow> bool" where
  "later_start a b \<longleftrightarrow> fStart a > fStart b"

definition replace_one :: "Finding \<Rightarrow> string \<Rightarrow> string" where
  "replace_one f s =
     (if fEnd f \<le> length s \<and> fStart f < fEnd f then take (fStart f) s @ fRedacted f @ drop (fEnd f) s else s)"

definition applyRedactions :: "(Finding list \<Rightarrow> Finding list) \<Rightarrow> string \<Rightarrow> Finding list \<Rightarrow> string" where
  "applyRedactions sort3 input fs = (if fs = [] then input else fold replace_one (sort3 fs) input)"

record redact_config =
  cMode :: redact_mode
  cAllowlist :: "string list"
  cExtra :: "(string \<times> string list) list"
  cDisabled :: "string list"

record redact_result =
  oMode :: redact_mode
  oFindings :: "Finding list"
  oOutput :: string
  oBlocked :: bool
  oLength :: nat

text \<open>The functions of the standard library a scan uses.\<close>

record redact_env =
  regexp :: "string \<Rightarrow> finder option"
  sorter1 :: "found list \<Rightarrow> found list"
  sorter2 :: "found list \<Rightarrow> found list"
  sorter3 :: "Finding list \<Rightarrow> Finding list"
  hash :: "string \<Rightarrow> string"

definition config_patterns :: "redact_env \<Rightarrow> redact_config \<Rightarrow> pattern list" where
  "config_patterns e cfg = compilePatterns (regexp e) @ getExtraPatterns (regexp e) (cExtra cfg)"

definition ScanAndRedact :: "redact_env \<Rightarrow> string \<Rightarrow> redact_config \<Rightarrow> redact_result" where
  "ScanAndRedact e input cfg =
     (let r = \<lparr>oMode = cMode cfg, oFindings = [], oOutput = '''', oBlocked = False, oLength = length input\<rparr>
      in if cMode cfg = ModeOff then r\<lparr>oOutput := input\<rparr>
         else
           let ms = scan (sorter1 e) (sorter2 e) input (compileAllowlist (regexp e) (cAllowlist cfg))
                      (cDisabled cfg) (config_patterns e cfg)
           in if ms = [] then r\<lparr>oOutput := input\<rparr>
              else
                let fs = map (finding_of (hash e)) ms
                in (case cMode cfg of
                      ModeWarn \<Rightarrow> r\<lparr>oFindings := fs, oOutput := input\<rparr>
                    | ModeRedact \<Rightarrow> r\<lparr>oFindings := fs, oOutput := applyRedactions (sorter3 e) input fs\<rparr>
                    | ModeBlock \<Rightarrow> r\<lparr>oFindings := fs, oOutput := input, oBlocked := True\<rparr>
                    | ModeOff \<Rightarrow> r))"

definition Redact :: "redact_env \<Rightarrow> string \<Rightarrow> redact_config \<Rightarrow> string \<times> Finding list" where
  "Redact e input cfg =
     (let r = ScanAndRedact e input (cfg\<lparr>cMode := ModeRedact\<rparr>) in (oOutput r, oFindings r))"

definition Scan :: "redact_env \<Rightarrow> string \<Rightarrow> redact_config \<Rightarrow> Finding list" where
  "Scan e input cfg = oFindings (ScanAndRedact e input (cfg\<lparr>cMode := ModeWarn\<rparr>))"

definition ContainsSensitive :: "redact_env \<Rightarrow> string \<Rightarrow> redact_config \<Rightarrow> bool" where
  "ContainsSensitive e input cfg \<longleftrightarrow> Scan e input cfg \<noteq> []"

section \<open>Lines and columns\<close>

definition lineStarts :: "string \<Rightarrow> nat list" where
  "lineStarts input = 0 # map Suc (filter (\<lambda>i. input ! i = CHR 0x0A) [0..<length input])"

text \<open>\<^verbatim>\<open>sort.Search\<close> yields the first index at which the predicate holds; the predicate is monotone here.\<close>

definition line_column :: "nat list \<Rightarrow> nat \<Rightarrow> nat \<times> nat" where
  "line_column starts pos =
     (let line = length (takeWhile (\<lambda>s. \<not> s > pos) starts) - 1 in (line + 1, pos - starts ! line + 1))"

definition AddLineInfo :: "string \<Rightarrow> Finding list \<Rightarrow> (nat \<times> nat) list" where
  "AddLineInfo input fs = map (\<lambda>f. line_column (lineStarts input) (fStart f)) fs"

end
