(* ===== verification/AuditLog.thy ===== *)
theory AuditLog
  imports Redaction
begin

text \<open>
  The audit log of \<^verbatim>\<open>internal/audit/audit.go\<close>: entries of a session chained by SHA-256
  checksums and numbered in sequence, the logger that appends to the table and the
  verifier that walks it. The JSON text and SHA-256 are arguments: \<open>digest\<close> is the checksum
  of an entry (\<open>None\<close> where it cannot be marshalled), \<open>enc\<close> and \<open>dec\<close> the text of a map and
  what reading it back yields.
\<close>

section \<open>Values and entries\<close>

text \<open>The dynamic types \<^verbatim>\<open>sanitizeValue\<close> tells apart; a map may be nil.\<close>

datatype gval =
    GStr string
  | GStrs "string list"
  | GList "gval list"
  | GMap "(string \<times> gval) list option"
  | GOther int

type_synonym gmap = "(string \<times> gval) list option"

record Entry =
  eID :: int
  eSession :: string
  eType :: string
  eActor :: string
  eTarget :: string
  ePayload :: gmap
  eMetadata :: gmap
  ePrev :: string
  eSum :: string
  eSeq :: nat
  eTrace :: string
  eAt :: int

record audit_log_row =
  aID :: int
  aSession :: string
  aType :: string
  aActor :: string
  aTarget :: string
  aPayload :: string
  aMetadata :: string
  aPrev :: string
  aSum :: string
  aSeq :: nat
  aTrace :: string
  aAt :: int

record Logger =
  lSession :: string
  lastHash :: string
  sequenceNum :: nat
  redactCfg :: redact_config

datatype audit_error = ErrChecksum | ErrMarshal | ErrInsert

text \<open>JSON, SHA-256 and the redactor's environment.\<close>

record audit_env =
  digest :: "Entry \<Rightarrow> string option"
  enc :: "gmap \<Rightarrow> string option"
  dec :: "string \<Rightarrow> gmap"
  redactor :: redact_env

section \<open>Redaction of values\<close>

definition sanitizeString :: "redact_env \<Rightarrow> redact_config \<Rightarrow> string \<Rightarrow> string" where
  "sanitizeString e cfg s = (if cMode cfg = ModeOff then s else oOutput (ScanAndRedact e s cfg))"

primrec sanitizeValue :: "redact_env \<Rightarrow> redact_config \<Rightarrow> gval \<Rightarrow> gval" where
  "sanitizeValue e cfg (GStr s) = GStr (sanitizeString e cfg s)"
| "sanitizeValue e cfg (GStrs ss) = GStrs (map (sanitizeString e cfg) ss)"
| "sanitizeValue e cfg (GList vs) = GList (map (sanitizeValue e cfg) vs)"
| "sanitizeValue e cfg (GMap m) = GMap (map_option (map (map_prod (\<lambda>k. k) (sanitizeValue e cfg))) m)"
| "sanitizeValue e cfg (GOther n) = GOther n"

definition sanitizeMap :: "redact_env \<Rightarrow> redact_config \<Rightarrow> gmap \<Rightarrow> gmap" where
  "sanitizeMap e cfg m = (case m of None \<Rightarrow> None | Some kvs \<Rightarrow> Some (map (\<lambda>(k, v). (k, sanitizeValue e cfg v)) kvs))"

section \<open>The logger\<close>

definition computeChecksum :: "(Entry \<Rightarrow> string option) \<Rightarrow> Entry \<Rightarrow> string option" where
  "computeChecksum dg e = dg (e\<lparr>eSum := '''', eID := 0, eTrace := ''''\<rparr>)"

definition session_rows :: "string \<Rightarrow> audit_log_row list \<Rightarrow> audit_log_row list" where
  "session_rows sid rows = sort_key aSeq (filter (\<lambda>r. aSession r = sid) rows)"

definition loadLastEntry :: "audit_log_row list \<Rightarrow> Logger \<Rightarrow> Logger" where
  "loadLastEntry rows l =
     (case sort_key (\<lambda>r. - int (aSeq r)) (filter (\<lambda>r. aSession r = lSession l) rows) of
        [] \<Rightarrow> l
      | r # _ \<Rightarrow> l\<lparr>lastHash := aSum r, sequenceNum := aSeq r\<rparr>)"

definition default_redaction :: redact_config where
  "default_redaction = \<lparr>cMode = ModeRedact, cAllowlist = [], cExtra = [], cDisabled = []\<rparr>"

definition new_logger :: "audit_log_row list \<Rightarrow> string \<Rightarrow> Logger" where
  "new_logger rows sid =
     loadLastEntry rows \<lparr>lSession = sid, lastHash = '''', sequenceNum = 0, redactCfg = default_redaction\<rparr>"

definition SetRedactionConfig :: "redact_config \<Rightarrow> Logger \<Rightarrow> Logger" where
  "SetRedactionConfig cfg l = l\<lparr>redactCfg := cfg\<rparr>"

definition row_of_entry :: "int \<Rightarrow> string \<Rightarrow> string \<Rightarrow> Entry \<Rightarrow> audit_log_row" where
  "row_of_entry i pj mj e =
     \<lparr>aID = i, aSession = eSession e, aType = eType e, aActor = eActor e, aTarget = eTarget e, aPayload = pj,
      aMetadata = mj, aPrev = ePrev e, aSum = eSum e, aSeq = eSeq e, aTrace = eTrace e, aAt = eAt e\<rparr>"

text \<open>The autoincrement key: the next number after all given out, here the largest.\<close>

definition next_id :: "audit_log_row list \<Rightarrow> int" where
  "next_id rows = fold max (map aID rows) 0 + 1"

text \<open>What a call gets: the time in seconds, the trace variable, whether the database takes the row.\<close>

record log_call =
  cNow :: int
  cTrace :: string
  cType :: string
  cActor :: string
  cTarget :: string
  cPayload :: gmap
  cMetadata :: gmap
  cInsert :: bool

definition entry_of :: "audit_env \<Rightarrow> Logger \<Rightarrow> log_call \<Rightarrow> Entry" where
  "entry_of env l c =
     \<lparr>eID = 0, eSession = lSession l, eType = cType c, eActor = cActor c, eTarget = cTarget c,
      ePayload = sanitizeMap (redactor env) (redactCfg l) (cPayload c),
      eMetadata = sanitizeMap (redactor env) (redactCfg l) (cMetadata c),
      ePrev = lastHash l, eSum = '''', eSeq = sequenceNum l, eTrace = cTrace c, eAt = cNow c\<rparr>"

definition Log :: "audit_env \<Rightarrow> log_call \<Rightarrow> Logger \<Rightarrow> audit_log_row list \<Rightarrow> audit_error option \<times> Logger \<times> audit_log_row list" where
  "Log env c l0 rows =
     (let l = l0\<lparr>sequenceNum := sequenceNum l0 + 1\<rparr>; entry = entry_of env l c
      in case computeChecksum (digest env) entry of
           None \<Rightarrow> (Some ErrChecksum, l, rows)
         | Some cs \<Rightarrow>
             let entry = entry\<lparr>eSum := cs\<rparr>
             in (case enc env (ePayload entry) of
                   None \<Rightarrow> (Some ErrMarshal, l, rows)
                 | Some pj \<Rightarrow>
                     (case enc env (eMetadata entry) of
                        None \<Rightarrow> (Some ErrMarshal, l, rows)
                      | Some mj \<Rightarrow>
                          if \<not> cInsert c then (Some ErrInsert, l, rows)
                          else (None, l\<lparr>lastHash := eSum entry\<rparr>, rows @ [row_of_entry (next_id rows) pj mj entry]))))"

section \<open>The verifier\<close>

datatype audit_break =
    SequenceGap nat nat
  | ChainBroken nat
  | ChecksumError nat
  | ChecksumMismatch nat

definition read_entry :: "audit_env \<Rightarrow> audit_log_row \<Rightarrow> Entry" where
  "read_entry env r =
     \<lparr>eID = 0, eSession = aSession r, eType = aType r, eActor = aActor r, eTarget = aTarget r,
      ePayload = dec env (aPayload r), eMetadata = dec env (aMetadata r), ePrev = aPrev r, eSum = '''',
      eSeq = aSeq r, eTrace = '''', eAt = aAt r\<rparr>"

fun verify_rows :: "audit_env \<Rightarrow> string \<Rightarrow> nat \<Rightarrow> audit_log_row list \<Rightarrow> audit_break option" where
  "verify_rows env prevHash seq [] = None"
| "verify_rows env prevHash seq (r # rs) =
     (if aSeq r \<noteq> seq + 1 then Some (SequenceGap (aSeq r) (seq + 1))
      else if aPrev r \<noteq> prevHash then Some (ChainBroken (aSeq r))
      else
        (case computeChecksum (digest env) (read_entry env r) of
           None \<Rightarrow> Some (ChecksumError (aSeq r))
         | Some computed \<Rightarrow>
             if computed \<noteq> aSum r then Some (ChecksumMismatch (aSeq r))
             else verify_rows env (aSum r) (seq + 1) rs))"

definition VerifyIntegrity :: "audit_env \<Rightarrow> audit_log_row list \<Rightarrow> string \<Rightarrow> audit_break option" where
  "VerifyIntegrity env rows sid = verify_rows env '''' 0 (session_rows sid rows)"

section \<open>Queries\<close>

record audit_filter =
  qSession :: string
  qType :: string
  qActor :: string
  qSince :: "int option"
  qUntil :: "int option"
  qLimit :: int

definition query_match :: "audit_filter \<Rightarrow> audit_log_row \<Rightarrow> bool" where
  "query_match f r \<longleftrightarrow>
     (qSession f \<noteq> '''' \<longrightarrow> aSession r = qSession f) \<and> (qType f \<noteq> '''' \<longrightarrow> aType r = qType f) \<and>
     (qActor f \<noteq> '''' \<longrightarrow> aActor r = qActor f) \<and>
     (case qSince f of None \<Rightarrow> True | Some t \<Rightarrow> aAt r \<ge> t) \<and> (case qUntil f of None \<Rightarrow> True | Some t \<Rightarrow> aAt r \<le> t)"

definition query_entry :: "audit_env \<Rightarrow> audit_log_row \<Rightarrow> Entry" where
  "query_entry env r = (read_entry env r)\<lparr>eID := aID r, eSum := aSum r, eTrace := aTrace r\<rparr>"

definition Query :: "audit_env \<Rightarrow> audit_filter \<Rightarrow> audit_log_row list \<Rightarrow> Entry list" where
  "Query env f rows =
     (let rs = sort_key aAt (filter (query_match f) rows)
      in map (query_entry env) (if qLimit f > 0 then take (nat (qLimit f)) rs else rs))"

section \<open>A log in order\<close>

text \<open>The table and a logger agree: the session verifies, its rows stand in order, and the logger
  continues it.\<close>

definition in_sync :: "audit_env \<Rightarrow> Logger \<Rightarrow> audit_log_row list \<Rightarrow> bool" where
  "in_sync env l rows \<longleftrightarrow>
     (let rs = filter (\<lambda>r. aSession r = lSession l) rows
      in (\<forall>i < length rs. aSeq (rs ! i) = Suc i) \<and> verify_rows env '''' 0 rs = None \<and>
         sequenceNum l = length rs \<and> lastHash l = (if rs = [] then '''' else aSum (last rs)))"

text \<open>What the checksum needs of a logged value: reading its text back does not change the digest.\<close>

definition faithful :: "audit_env \<Rightarrow> Entry \<Rightarrow> bool" where
  "faithful env e \<longleftrightarrow>
     (\<forall>pj mj. enc env (ePayload e) = Some pj \<longrightarrow> enc env (eMetadata e) = Some mj \<longrightarrow>
        computeChecksum (digest env) (e\<lparr>ePayload := dec env pj, eMetadata := dec env mj\<rparr>) =
        computeChecksum (digest env) e)"

lemma verify_append:
  "verify_rows env h n (xs @ ys) =
     (case verify_rows env h n xs of
        Some b \<Rightarrow> Some b
      | None \<Rightarrow> verify_rows env (if xs = [] then h else aSum (last xs)) (n + length xs) ys)"
  by (induction xs arbitrary: h n) (auto split: option.splits)

lemma session_rows_sorted:
  assumes "\<And>i. i < length (filter (\<lambda>r. aSession r = sid) rows) \<Longrightarrow> aSeq (filter (\<lambda>r. aSession r = sid) rows ! i) = Suc i"
  shows "session_rows sid rows = filter (\<lambda>r. aSession r = sid) rows"
  unfolding session_rows_def by (rule sort_key_id_if_sorted) (simp add: sorted_iff_nth_mono assms)

lemma in_sync_verifies: "in_sync env l rows \<Longrightarrow> VerifyIntegrity env rows (lSession l) = None"
  by (simp add: in_sync_def Let_def VerifyIntegrity_def session_rows_sorted)

lemma read_back:
  "computeChecksum dg (read_entry env (row_of_entry i pj mj (e\<lparr>eSum := s\<rparr>))) =
   computeChecksum dg (e\<lparr>ePayload := dec env pj, eMetadata := dec env mj\<rparr>)"
  by (cases e) (simp add: computeChecksum_def read_entry_def row_of_entry_def)

lemma Log_ok_cases:
  assumes "Log env c l rows = (None, l', rows')"
  obtains e s pj mj where
    "e = entry_of env (l\<lparr>sequenceNum := sequenceNum l + 1\<rparr>) c" "computeChecksum (digest env) e = Some s"
    "enc env (ePayload e) = Some pj" "enc env (eMetadata e) = Some mj"
    "l' = l\<lparr>sequenceNum := sequenceNum l + 1, lastHash := s\<rparr>"
    "rows' = rows @ [row_of_entry (next_id rows) pj mj (e\<lparr>eSum := s\<rparr>)]"
  using assms by (auto simp: Log_def Let_def split: option.splits if_splits)

text \<open>A successful append keeps the agreement, so any history of them verifies.\<close>

lemma Log_in_sync:
  assumes sync: "in_sync env l rows" and log: "Log env c l rows = (None, l', rows')"
    and faith: "faithful env (entry_of env (l\<lparr>sequenceNum := sequenceNum l + 1\<rparr>) c)"
  shows "in_sync env l' rows'"
proof -
  let ?rs = "filter (\<lambda>r. aSession r = lSession l) rows"
  obtain e s pj mj where e: "e = entry_of env (l\<lparr>sequenceNum := sequenceNum l + 1\<rparr>) c"
      and s: "computeChecksum (digest env) e = Some s"
      and j: "enc env (ePayload e) = Some pj" "enc env (eMetadata e) = Some mj"
      and l': "l' = l\<lparr>sequenceNum := sequenceNum l + 1, lastHash := s\<rparr>"
      and rows': "rows' = rows @ [row_of_entry (next_id rows) pj mj (e\<lparr>eSum := s\<rparr>)]"
    using log by (rule Log_ok_cases)
  let ?r = "row_of_entry (next_id rows) pj mj (e\<lparr>eSum := s\<rparr>)"
  have r: "aSession ?r = lSession l" "aSeq ?r = length ?rs + 1" "aSum ?r = s"
      "aPrev ?r = (if ?rs = [] then '''' else aSum (last ?rs))"
    using sync by (auto simp: row_of_entry_def e entry_of_def in_sync_def Let_def)
  have rs': "filter (\<lambda>r. aSession r = lSession l) rows' = ?rs @ [?r]"
    using r(1) by (simp add: rows')
  have "computeChecksum (digest env) (read_entry env ?r) = Some s"
    using faith j s unfolding read_back faithful_def e by metis
  then have "verify_rows env '''' 0 (?rs @ [?r]) = None"
    using sync r by (simp add: verify_append in_sync_def Let_def)
  then show ?thesis
    using sync r rs' by (simp add: in_sync_def Let_def l' nth_append less_Suc_eq)
qed

lemma last_entry_sorted:
  assumes q: "\<forall>i < length rs. aSeq (rs ! i) = Suc i" and ne: "rs \<noteq> []"
  shows "\<exists>rest. sort_key (\<lambda>r. - int (aSeq r)) rs = last rs # rest"
proof -
  let ?k = "\<lambda>r. - int (aSeq r)"
  obtain r rest where r: "sort_key ?k rs = r # rest"
    using ne by (metis list.exhaust length_0_conv length_sort)
  then have least: "\<forall>x \<in> set rs. ?k r \<le> ?k x"
    using sorted_sort_key [of ?k rs] set_sort [of ?k rs] by (auto simp: r)
  have "r \<in> set rs" using set_sort [of ?k rs] r by auto
  then obtain i where i: "i < length rs" "r = rs ! i" by (metis in_set_conv_nth)
  have "aSeq (last rs) = length rs" "last rs = rs ! (length rs - 1)"
    using q ne by (simp_all add: last_conv_nth)
  moreover have "?k r \<le> ?k (last rs)" using least ne by simp
  ultimately have "i = length rs - 1" using i q by auto
  then have "r = last rs" using i by (simp add: last_conv_nth ne)
  then show ?thesis using r by blast
qed

lemma new_logger_in_sync:
  assumes "in_sync env l rows"
  shows "in_sync env (new_logger rows (lSession l)) rows"
proof -
  let ?rs = "filter (\<lambda>r. aSession r = lSession l) rows"
  have q: "\<forall>i < length ?rs. aSeq (?rs ! i) = Suc i" using assms by (simp add: in_sync_def Let_def)
  show ?thesis
  proof (cases "?rs = []")
    case True
    then show ?thesis using assms by (simp add: in_sync_def new_logger_def loadLastEntry_def Let_def)
  next
    case False
    then obtain rest where "sort_key (\<lambda>r. - int (aSeq r)) ?rs = last ?rs # rest"
      using last_entry_sorted [OF q] by blast
    moreover have "aSeq (last ?rs) = length ?rs"
      using q False by (simp add: last_conv_nth)
    ultimately show ?thesis
      using assms False by (simp add: in_sync_def new_logger_def loadLastEntry_def Let_def)
  qed
qed

end
