(* ===== verification/RedactionCorrect.thy ===== *)
theory RedactionCorrect
  imports Redaction "HOL-Library.Product_Lexorder"
begin

text \<open>
  What the redactor guarantees: the pattern sort is a stable sort by priority, the non-empty
  findings are disjoint and ordered, no non-empty match is left wholly untouched, and
  the output is the input with exactly the non-empty findings replaced. A pattern that matches
  the empty string yields findings of length zero, which are reported and change nothing.
\<close>

section \<open>The pattern sort\<close>

fun place_pattern :: "pattern \<Rightarrow> pattern list \<Rightarrow> pattern list" where
  "place_pattern p [] = [p]"
| "place_pattern p (q # qs) = (if pPriority p > pPriority q then p # q # qs else q # place_pattern p qs)"

lemma set_place [simp]: "set (place_pattern p qs) = insert p (set qs)"
  by (induction qs) auto

lemma mset_place [simp]: "mset (place_pattern p qs) = add_mset p (mset qs)"
  by (induction qs) auto

lemma length_place [simp]: "length (place_pattern p qs) = Suc (length qs)"
  by (induction qs) auto

definition prio_sorted :: "pattern list \<Rightarrow> bool" where
  "prio_sorted qs \<longleftrightarrow> sorted_wrt (\<lambda>a b. pPriority a \<ge> pPriority b) qs"

lemma prio_sorted_place: "prio_sorted qs \<Longrightarrow> prio_sorted (place_pattern p qs)"
  by (induction qs) (auto simp: prio_sorted_def)

lemma place_stable:
  "prio_sorted qs \<Longrightarrow>
   filter (\<lambda>q. pPriority q = k) (place_pattern p qs) =
     filter (\<lambda>q. pPriority q = k) qs @ (if pPriority p = k then [p] else [])"
proof (induction qs)
  case (Cons q qs)
  have none: "filter (\<lambda>q. pPriority q = pPriority p) (q # qs) = []" if "pPriority p > pPriority q"
    using that Cons.prems by (auto simp: prio_sorted_def filter_empty_conv)
  show ?case
  proof (cases "pPriority p > pPriority q")
    case True
    with none show ?thesis by auto
  next
    case False
    with Cons show ?thesis by (simp add: prio_sorted_def)
  qed
qed simp

lemma place_last: "prio_sorted (qs @ [q]) \<Longrightarrow> \<not> pPriority p > pPriority q \<Longrightarrow> place_pattern p (qs @ [q]) = qs @ [q, p]"
  by (induction qs) (auto simp: prio_sorted_def)

lemma place_before_last: "pPriority p > pPriority q \<Longrightarrow> place_pattern p (qs @ [q]) = place_pattern p qs @ [q]"
  by (induction qs) auto

lemma sink_place: "prio_sorted qs \<Longrightarrow> sink_pattern (length qs) (qs @ p # rest) = place_pattern p qs @ rest"
proof (induction qs arbitrary: rest rule: rev_induct)
  case (snoc q qs)
  show ?case
  proof (cases "pPriority p > pPriority q")
    case True
    have "sink_pattern (length (qs @ [q])) ((qs @ [q]) @ p # rest) = sink_pattern (length qs) (qs @ p # q # rest)"
      using True by (simp add: nth_append list_update_append)
    also have "\<dots> = place_pattern p qs @ q # rest"
      using snoc by (simp add: prio_sorted_def sorted_wrt_append)
    finally show ?thesis
      using True by (simp add: place_before_last)
  next
    case False
    then show ?thesis
      using place_last [OF snoc.prems] by (simp add: nth_append)
  qed
qed simp

lemma sort_prefix:
  "n \<le> length ps \<Longrightarrow> 0 < n \<Longrightarrow> \<exists>qs. fold sink_pattern [1..<n] ps = qs @ drop n ps \<and> prio_sorted qs \<and> length qs = n \<and>
     mset qs = mset (take n ps) \<and> (\<forall>k. filter (\<lambda>q. pPriority q = k) qs = filter (\<lambda>q. pPriority q = k) (take n ps))"
proof (induction n)
  case (Suc n)
  show ?case
  proof (cases "n = 0")
    case True
    then show ?thesis
      using Suc.prems by (cases ps) (auto simp: prio_sorted_def)
  next
    case False
    then obtain qs where qs: "fold sink_pattern [1..<n] ps = qs @ drop n ps" "prio_sorted qs" "length qs = n"
        "mset qs = mset (take n ps)"
        "\<forall>k. filter (\<lambda>q. pPriority q = k) qs = filter (\<lambda>q. pPriority q = k) (take n ps)"
      using Suc by auto
    have d: "drop n ps = ps ! n # drop (Suc n) ps" "take (Suc n) ps = take n ps @ [ps ! n]"
      using Suc.prems by (simp_all add: Cons_nth_drop_Suc take_Suc_conv_app_nth)
    have "fold sink_pattern [1..<Suc n] ps = sink_pattern n (qs @ ps ! n # drop (Suc n) ps)"
      using False qs(1) d(1) by simp
    then have "fold sink_pattern [1..<Suc n] ps = place_pattern (ps ! n) qs @ drop (Suc n) ps"
      using sink_place [OF qs(2)] qs(3) by simp
    then show ?thesis
      using prio_sorted_place [OF qs(2)] qs(3,4,5) d(2) place_stable [OF qs(2)] by auto
  qed
qed simp

text \<open>The pattern sort is a stable sort by falling priority.\<close>

lemma sortPatternsByPriority_stable:
  "mset (sortPatternsByPriority ps) = mset ps \<and>
   sorted_wrt (\<lambda>a b. pPriority a \<ge> pPriority b) (sortPatternsByPriority ps) \<and>
   (\<forall>k. filter (\<lambda>q. pPriority q = k) (sortPatternsByPriority ps) = filter (\<lambda>q. pPriority q = k) ps)"
proof (cases "ps = []")
  case False
  then show ?thesis
    using sort_prefix [of "length ps" ps] by (auto simp: sortPatternsByPriority_def prio_sorted_def)
qed (simp add: sortPatternsByPriority_def)

section \<open>Resolving overlaps\<close>

definition disjoint_matches :: "found \<Rightarrow> found \<Rightarrow> bool" where
  "disjoint_matches a b \<longleftrightarrow> {mStart a..<mEnd a} \<inter> {mStart b..<mEnd b} = {}"

lemma fold_cover_nth:
  "length (fold (\<lambda>i c. c[i := True]) is c) = length c \<and>
   (\<forall>j < length c. fold (\<lambda>i c. c[i := True]) is c ! j \<longleftrightarrow> c ! j \<or> j \<in> set is)"
proof (induction "is" arbitrary: c)
  case (Cons i "is")
  have "c[i := True] ! j \<longleftrightarrow> c ! j \<or> j = i" if "j < length c" for j
    using that by (cases "j = i") auto
  then show ?case using Cons [of "c[i := True]"] by auto
qed simp

lemma cover_nth: "j < length c \<Longrightarrow> cover m c ! j \<longleftrightarrow> c ! j \<or> j \<in> {mStart m..<mEnd m}"
  by (simp add: cover_def fold_cover_nth)

lemma length_cover [simp]: "length (cover m c) = length c"
  by (simp add: cover_def fold_cover_nth)

lemma overlapping_iff: "overlapping c m \<longleftrightarrow> (\<exists>i \<in> {mStart m..<mEnd m}. c ! i)"
  by (auto simp: overlapping_def list_ex_iff)

definition covered_set :: "bool list \<Rightarrow> nat set" where
  "covered_set c = {i. i < length c \<and> c ! i}"

lemma covered_cover: "mEnd m \<le> length c \<Longrightarrow> covered_set (cover m c) = covered_set c \<union> {mStart m..<mEnd m}"
  by (auto simp: covered_set_def cover_nth)

lemma overlapping_covered: "mEnd m \<le> length c \<Longrightarrow> overlapping c m \<longleftrightarrow> {mStart m..<mEnd m} \<inter> covered_set c \<noteq> {}"
  by (auto simp: overlapping_iff covered_set_def)

lemma keep_matches_sub: "set (keep_matches c ms) \<subseteq> set ms"
  by (induction ms arbitrary: c) auto

lemma keep_matches_fresh:
  "\<lbrakk>\<And>m. m \<in> set ms \<Longrightarrow> mEnd m \<le> length c; x \<in> set (keep_matches c ms)\<rbrakk> \<Longrightarrow> {mStart x..<mEnd x} \<inter> covered_set c = {}"
proof (induction ms arbitrary: c)
  case (Cons m ms)
  have e: "mEnd m \<le> length c" using Cons.prems(1) by simp
  show ?case
    using Cons.IH [of c] Cons.IH [of "cover m c"] Cons.prems overlapping_covered [OF e] covered_cover [OF e]
    by (auto split: if_splits)
qed simp

lemma keep_matches_disjoint:
  "(\<And>m. m \<in> set ms \<Longrightarrow> mEnd m \<le> length c) \<Longrightarrow> sorted_wrt disjoint_matches (keep_matches c ms)"
proof (induction ms arbitrary: c)
  case (Cons m ms)
  have e: "mEnd m \<le> length c" using Cons.prems by simp
  have "disjoint_matches m x" if "x \<in> set (keep_matches (cover m c) ms)" for x
  proof -
    have "{mStart x..<mEnd x} \<inter> covered_set (cover m c) = {}"
      using keep_matches_fresh [of ms "cover m c" x] that Cons.prems by simp
    then show ?thesis
      unfolding disjoint_matches_def covered_cover [OF e] by blast
  qed
  then show ?case
    using Cons.IH [of c] Cons.IH [of "cover m c"] Cons.prems by auto
qed simp

text \<open>Whatever is dropped overlaps a match kept before it, or what was covered already.\<close>

lemma keep_matches_complete:
  assumes "\<And>m. m \<in> set ms \<Longrightarrow> mEnd m \<le> length c" "sorted_wrt R ms" "m \<in> set ms"
  shows "m \<in> set (keep_matches c ms) \<or> {mStart m..<mEnd m} \<inter> covered_set c \<noteq> {} \<or>
    (\<exists>k \<in> set (keep_matches c ms). R k m \<and> \<not> disjoint_matches k m)"
  using assms
proof (induction ms arbitrary: c)
  case (Cons x ms)
  have e: "mEnd x \<le> length c" using Cons.prems(1) by simp
  show ?case
  proof (cases "m = x")
    case True
    then show ?thesis using overlapping_covered [OF e] by auto
  next
    case False
    then have m: "m \<in> set ms" "R x m" using Cons.prems by auto
    show ?thesis
    proof (cases "overlapping c x")
      case True
      then show ?thesis using Cons.IH [of c] Cons.prems m by auto
    next
      case no: False
      have "m \<in> set (keep_matches (cover x c) ms) \<or> {mStart m..<mEnd m} \<inter> covered_set (cover x c) \<noteq> {} \<or>
          (\<exists>k \<in> set (keep_matches (cover x c) ms). R k m \<and> \<not> disjoint_matches k m)"
        using Cons.IH [of "cover x c"] Cons.prems m by auto
      then show ?thesis
        using no m covered_cover [OF e] by (auto simp: disjoint_matches_def)
    qed
  qed
qed simp

lemma max_end_ge: "m \<in> set ms \<Longrightarrow> mEnd m \<le> max_end ms"
proof -
  have "(e \<le> fold (\<lambda>m e. if mEnd m > e then mEnd m else e) ms e) \<and>
      (m \<in> set ms \<longrightarrow> mEnd m \<le> fold (\<lambda>m e. if mEnd m > e then mEnd m else e) ms e)" for e
    by (induction ms arbitrary: e) (auto, (meson le_trans nat_le_linear not_le)+)
  then show "m \<in> set ms \<Longrightarrow> mEnd m \<le> max_end ms" by (simp add: max_end_def)
qed

lemma covered_none [simp]: "covered_set (replicate n False) = {}"
  by (auto simp: covered_set_def)

lemma sorted_wrt_perm:
  assumes "\<And>a b. R a b \<Longrightarrow> R b a" "sorted_wrt R xs" "mset xs = mset ys"
  shows "sorted_wrt R ys"
  using assms(2,3)
proof (induction ys arbitrary: xs)
  case (Cons y ys)
  then have "y \<in> set xs" by (metis list.set_intros(1) mset_eq_setD)
  then obtain as bs where xs: "xs = as @ y # bs" by (auto dest: split_list)
  with Cons.prems(2) have m: "mset (as @ bs) = mset ys" by simp
  have "sorted_wrt R (as @ bs)" "\<forall>z \<in> set (as @ bs). R y z"
    using Cons.prems(1) assms(1) by (auto simp: xs sorted_wrt_append)
  with Cons.IH [OF _ m] show ?case
    using mset_eq_setD [OF m] by auto
qed simp

definition non_empty :: "found \<Rightarrow> bool" where
  "non_empty m \<longleftrightarrow> mStart m < mEnd m"

definition matches_ordered :: "found list \<Rightarrow> bool" where
  "matches_ordered ms \<longleftrightarrow> sorted_wrt (\<lambda>a b. mEnd a \<le> mStart b) ms"

lemma not_prio_less: "\<not> prio_less m k \<Longrightarrow> mPriority k \<ge> mPriority m"
  by (auto simp: prio_less_def split: if_splits)

lemma deduplicate_spec:
  assumes s: "slice_sort prio_less sort1" "slice_sort start_less sort2"
  shows "set (deduplicateMatches sort1 sort2 ms) \<subseteq> set ms"
    "matches_ordered (filter non_empty (deduplicateMatches sort1 sort2 ms))"
    "sorted_wrt (\<lambda>a b. mStart a \<le> mStart b) (deduplicateMatches sort1 sort2 ms)"
    "m \<in> set ms \<Longrightarrow> m \<in> set (deduplicateMatches sort1 sort2 ms) \<or>
       (\<exists>k \<in> set (deduplicateMatches sort1 sort2 ms). mPriority k \<ge> mPriority m \<and> \<not> disjoint_matches k m)"
proof -
  let ?ms = "sort1 ms" and ?c = "replicate (max_end (sort1 ms) + 1) False"
  let ?k = "keep_matches ?c ?ms"
  have fit: "mEnd m \<le> length ?c" if "m \<in> set ?ms" for m
    using max_end_ge [OF that] by simp
  have none: "covered_set ?c = {}" by (rule covered_none)
  have sub1: "set ?k \<subseteq> set ?ms" by (rule keep_matches_sub)
  have sets: "set ?ms = set ms" "set (sort2 ?k) = set ?k" "mset (sort2 ?k) = mset ?k"
    using slice_sort_simps(1) [OF s(1)] slice_sort_simps(1,3) [OF s(2)] by auto
  show sub: "set (deduplicateMatches sort1 sort2 ms) \<subseteq> set ms"
    using sub1 sets by (auto simp: deduplicateMatches_def Let_def)
  show "m \<in> set ms \<Longrightarrow> m \<in> set (deduplicateMatches sort1 sort2 ms) \<or>
       (\<exists>k \<in> set (deduplicateMatches sort1 sort2 ms). mPriority k \<ge> mPriority m \<and> \<not> disjoint_matches k m)"
  proof -
    assume "m \<in> set ms"
    then have "m \<in> set ?ms" by (simp add: sets)
    from keep_matches_complete [of ?ms ?c "\<lambda>a b. \<not> prio_less b a" m, OF fit slice_sort_simps(4) [OF s(1)] this]
    have "m \<in> set ?k \<or> (\<exists>k \<in> set ?k. \<not> prio_less m k \<and> \<not> disjoint_matches k m)"
      unfolding none by blast
    then have "m \<in> set ?k \<or> (\<exists>k \<in> set ?k. mPriority k \<ge> mPriority m \<and> \<not> disjoint_matches k m)"
      using not_prio_less by blast
    moreover have "deduplicateMatches sort1 sort2 ms = sort2 ?k"
      using \<open>m \<in> set ms\<close> unfolding deduplicateMatches_def Let_def by (cases "ms = []") (simp only: list.set empty_iff, simp only: if_False)
    then have "set (deduplicateMatches sort1 sort2 ms) = set ?k" by (simp only: sets(2))
    ultimately show ?thesis by (simp only:)
  qed
  have dis: "sorted_wrt disjoint_matches (sort2 ?k)"
    by (rule sorted_wrt_perm [OF _ keep_matches_disjoint [of ?ms ?c, OF fit] sets(3) [symmetric]])
      (auto simp: disjoint_matches_def)
  have srt: "sorted_wrt (\<lambda>a b. mStart a \<le> mStart b) (sort2 ?k)"
    using slice_sort_simps(4) [OF s(2), of ?k] by (simp add: start_less_def not_less)
  from dis srt have "sorted_wrt (\<lambda>a b. disjoint_matches a b \<and> mStart a \<le> mStart b) (sort2 ?k)"
    by (simp add: sorted_wrt_iff_nth_less)
  then have "sorted_wrt (\<lambda>a b. disjoint_matches a b \<and> mStart a \<le> mStart b) (filter non_empty (sort2 ?k))"
    by (rule sorted_wrt_filter)
  moreover have "mEnd a \<le> mStart b"
    if "b \<in> set (filter non_empty (sort2 ?k))" "disjoint_matches a b \<and> mStart a \<le> mStart b" for a b
  proof (rule ccontr)
    assume "\<not> mEnd a \<le> mStart b"
    moreover have "mStart b < mEnd b" using that(1) by (simp add: non_empty_def)
    ultimately have "mStart b \<in> {mStart a..<mEnd a} \<inter> {mStart b..<mEnd b}" using that(2) by auto
    then show False using that(2) by (auto simp: disjoint_matches_def)
  qed
  ultimately have ord: "sorted_wrt (\<lambda>a b. mEnd a \<le> mStart b) (filter non_empty (sort2 ?k))"
    by (rule sorted_wrt_mono_rel [rotated])
  show "matches_ordered (filter non_empty (deduplicateMatches sort1 sort2 ms))"
    unfolding matches_ordered_def deduplicateMatches_def Let_def using ord by (cases "ms = []") (simp, simp only: if_False)
  show "sorted_wrt (\<lambda>a b. mStart a \<le> mStart b) (deduplicateMatches sort1 sort2 ms)"
    unfolding deduplicateMatches_def Let_def using srt by (cases "ms = []") (simp, simp only: if_False)
qed

section \<open>Replacing\<close>

text \<open>The intended output: the gaps between the findings, with a placeholder for each.\<close>

fun weave :: "string \<Rightarrow> nat \<Rightarrow> Finding list \<Rightarrow> string" where
  "weave input pos [] = drop pos input"
| "weave input pos (f # fs) = slice pos (fStart f) input @ fRedacted f @ weave input (fEnd f) fs"

definition findings_ok :: "nat \<Rightarrow> Finding list \<Rightarrow> bool" where
  "findings_ok n fs \<longleftrightarrow> sorted_wrt (\<lambda>a b. fEnd a \<le> fStart b) fs \<and> (\<forall>f \<in> set fs. fStart f < fEnd f \<and> fEnd f \<le> n)"

lemma weave_prefix:
  "pos \<le> pos' \<Longrightarrow> (\<forall>f \<in> set fs. pos' \<le> fStart f) \<Longrightarrow> pos' \<le> length input \<Longrightarrow>
   weave input pos fs = slice pos pos' input @ weave input pos' fs"
proof (cases fs)
  case Nil
  then show "pos \<le> pos' \<Longrightarrow> ?thesis"
    by (simp add: slice_def) (metis append_take_drop_id drop_drop le_add_diff_inverse2)
next
  case (Cons f fs')
  assume p: "pos \<le> pos'" "\<forall>f \<in> set fs. pos' \<le> fStart f" "pos' \<le> length input"
  then have "slice pos (fStart f) input = slice pos pos' input @ slice pos' (fStart f) input"
    using Cons by (simp add: slice_def) (smt (verit) Nat.add_diff_assoc add.commute drop_drop le_add_diff_inverse2 take_add)
  then show ?thesis using Cons by simp
qed

text \<open>Replacing from the last finding to the first leaves the offsets of the others valid.\<close>

lemma replace_all:
  assumes "findings_ok (length input) fs"
  shows "foldr replace_one fs input = weave input 0 fs"
  using assms
proof (induction fs)
  case (Cons f fs)
  have ok: "findings_ok (length input) fs" and f: "fStart f < fEnd f" "fEnd f \<le> length input"
    and after: "\<forall>g \<in> set fs. fEnd f \<le> fStart g"
    using Cons.prems by (auto simp: findings_ok_def)
  have "weave input 0 fs = take (fEnd f) input @ weave input (fEnd f) fs"
    using weave_prefix [of 0 "fEnd f" fs input] after f by (simp add: slice_def)
  then have "foldr replace_one (f # fs) input = replace_one f (take (fEnd f) input @ weave input (fEnd f) fs)"
    using Cons.IH [OF ok] by simp
  also have "\<dots> = take (fStart f) input @ fRedacted f @ weave input (fEnd f) fs"
    using f by (simp add: replace_one_def min_def)
  finally show ?case by (simp add: slice_def)
qed simp

lemma sorted_unique:
  assumes "mset xs = mset ys" "sorted_wrt R xs" "sorted_wrt R' ys"
    "\<And>a b. a \<in> set xs \<Longrightarrow> b \<in> set xs \<Longrightarrow> R a b \<Longrightarrow> \<not> R' b a"
  shows "xs = ys"
  using assms
proof (induction xs arbitrary: ys)
  case (Cons x xs)
  then obtain y ys' where ys: "ys = y # ys'" by (cases ys) auto
  have sets: "set (x # xs) = set ys" using Cons.prems(1) by (rule mset_eq_setD)
  have "x = y"
  proof (rule ccontr)
    assume "x \<noteq> y"
    with sets ys have "y \<in> set xs" "x \<in> set ys'" by auto
    then have "R x y" "R' y x" using Cons.prems(2,3) ys by auto
    with Cons.prems(4) \<open>y \<in> set xs\<close> show False by auto
  qed
  then show ?case
    using Cons.IH [of ys'] Cons.prems ys by auto
qed simp

text \<open>The findings that have an extent; the replacement skips the others.\<close>

definition pieces :: "Finding list \<Rightarrow> Finding list" where
  "pieces fs = filter (\<lambda>f. fStart f < fEnd f) fs"

lemma fold_replace_pieces: "fold replace_one fs input = fold replace_one (pieces fs) input"
  by (induction fs arbitrary: input) (auto simp: pieces_def replace_one_def)

lemma applyRedactions_weave:
  assumes s: "slice_sort later_start sort3" and ok: "findings_ok (length input) (pieces fs)"
  shows "applyRedactions sort3 input fs = weave input 0 (pieces fs)"
proof -
  have "rev (pieces fs) = pieces (sort3 fs)"
  proof (rule sorted_unique)
    show "mset (rev (pieces fs)) = mset (pieces (sort3 fs))" using slice_sort_simps(3) [OF s, of fs] by (simp add: pieces_def)
    show "sorted_wrt (\<lambda>a b. \<not> later_start b a) (pieces (sort3 fs))"
      unfolding pieces_def by (rule sorted_wrt_filter [OF slice_sort_simps(4) [OF s]])
    show "sorted_wrt (\<lambda>b a. fEnd a \<le> fStart b) (rev (pieces fs))"
      using ok by (simp add: findings_ok_def sorted_wrt_rev)
    show "\<not> \<not> later_start a b" if "a \<in> set (rev (pieces fs))" "b \<in> set (rev (pieces fs))" "fEnd b \<le> fStart a" for a b
      using that ok by (auto simp: findings_ok_def later_start_def)
  qed
  then have "fold replace_one (sort3 fs) input = weave input 0 (pieces fs)"
    using replace_all [OF ok] fold_replace_pieces [of "sort3 fs" input] by (simp add: foldr_conv_fold)
  then show ?thesis by (auto simp: applyRedactions_def pieces_def)
qed

section \<open>The whole scan\<close>

text \<open>What the code relies on: Go's \<^verbatim>\<open>sort.Slice\<close>, and \<^verbatim>\<open>FindAllStringIndex\<close>, whose matches are
  ranges of the input, empty ones included.\<close>

definition redact_env_ok :: "redact_env \<Rightarrow> bool" where
  "redact_env_ok e \<longleftrightarrow>
     slice_sort prio_less (sorter1 e) \<and> slice_sort start_less (sorter2 e) \<and> slice_sort later_start (sorter3 e) \<and>
     (\<forall>p f s a b. regexp e p = Some f \<longrightarrow> (a, b) \<in> set (f s) \<longrightarrow> a \<le> b \<and> b \<le> length s)"

lemma pattern_of_regexp:
  assumes "p \<in> set (config_patterns e cfg)"
  shows "\<exists>r. regexp e r = Some (pRegex p)"
proof -
  have "p \<in> set (compile_all (regexp e) defaultPatterns) \<or> p \<in> set (getExtraPatterns (regexp e) (cExtra cfg))"
    using assms mset_eq_setD [OF conjunct1 [OF sortPatternsByPriority_stable]]
    by (auto simp: config_patterns_def compilePatterns_def)
  moreover have "p \<in> set (getExtraPatterns (regexp e) x) \<Longrightarrow> \<exists>r. regexp e r = Some (pRegex p)" for x
    by (induction "regexp e" x rule: getExtraPatterns.induct)
      (auto simp: List.map_filter_def split: option.splits if_splits)
  ultimately show ?thesis
    by (auto simp: compile_all_def List.map_filter_def split: option.splits if_splits)
qed

definition in_input :: "string \<Rightarrow> found \<Rightarrow> bool" where
  "in_input s m \<longleftrightarrow> mStart m \<le> mEnd m \<and> mEnd m \<le> length s \<and> mText m = slice (mStart m) (mEnd m) s"

lemma raw_in_input:
  assumes "redact_env_ok e" "m \<in> set (raw_matches s dis (config_patterns e cfg))"
  shows "in_input s m"
proof -
  obtain p a b where p: "p \<in> set (config_patterns e cfg)" "(a, b) \<in> set (pRegex p s)"
      and m: "mStart m = a" "mEnd m = b" "mText m = slice a b s"
    using assms(2) by (auto simp: raw_matches_def pattern_matches_def split: if_splits)
  then show ?thesis
    using assms(1) pattern_of_regexp [OF p(1)] unfolding redact_env_ok_def in_input_def by metis
qed

definition config_scan :: "redact_env \<Rightarrow> string \<Rightarrow> redact_config \<Rightarrow> found list" where
  "config_scan e s cfg =
     scan (sorter1 e) (sorter2 e) s (compileAllowlist (regexp e) (cAllowlist cfg)) (cDisabled cfg) (config_patterns e cfg)"

lemma config_scan_ok:
  assumes e: "redact_env_ok e"
  shows "matches_ordered (filter non_empty (config_scan e s cfg)) \<and>
    sorted_wrt (\<lambda>a b. mStart a \<le> mStart b) (config_scan e s cfg) \<and> (\<forall>m \<in> set (config_scan e s cfg). in_input s m)"
proof -
  let ?raw = "raw_matches s (cDisabled cfg) (config_patterns e cfg)"
  let ?d = "deduplicateMatches (sorter1 e) (sorter2 e) ?raw"
  have s: "slice_sort prio_less (sorter1 e)" "slice_sort start_less (sorter2 e)"
    using e by (auto simp: redact_env_ok_def)
  have "\<forall>m \<in> set ?d. in_input s m"
    using deduplicate_spec(1) [OF s] raw_in_input [OF e] by blast
  moreover have "matches_ordered (filter non_empty ?d)" "sorted_wrt (\<lambda>a b. mStart a \<le> mStart b) ?d"
    by (rule deduplicate_spec(2,3) [OF s])+
  then have "matches_ordered (filter non_empty (filter P ?d))" "sorted_wrt (\<lambda>a b. mStart a \<le> mStart b) (filter P ?d)" for P
    using sorted_wrt_filter [of _ "filter non_empty ?d" P] by (simp_all add: matches_ordered_def sorted_wrt_filter conj_commute)
  moreover have "\<exists>P. config_scan e s cfg = filter P ?d"
    by (auto simp: config_scan_def scan_def Let_def intro: exI [of _ "\<lambda>_. True"])
  ultimately show ?thesis by auto
qed

lemma findings_ok_scan:
  assumes "redact_env_ok e"
  shows "findings_ok (length s) (pieces (map (finding_of h) (config_scan e s cfg)))"
proof -
  have "pieces (map (finding_of h) (config_scan e s cfg)) = map (finding_of h) (filter non_empty (config_scan e s cfg))"
    by (simp add: pieces_def filter_map o_def finding_of_def non_empty_def [abs_def])
  then show ?thesis
    using config_scan_ok [OF assms, of s cfg]
    by (auto simp: findings_ok_def finding_of_def matches_ordered_def in_input_def sorted_wrt_map non_empty_def)
qed

text \<open>
  C25. Redaction reports ranges of the input in the order of their starts, each with its text and
  placeholder. Those that are not empty are disjoint and in order, and the output is the
  input with exactly these replaced by their placeholders. A zero-length finding, which a pattern
  that matches the empty string yields, is reported but leaves no trace in the output.
\<close>

theorem Redact_weaves:
  assumes "redact_env_ok e"
  shows "findings_ok (length s) (pieces (snd (Redact e s cfg))) \<and>
    fst (Redact e s cfg) = weave s 0 (pieces (snd (Redact e s cfg))) \<and>
    sorted_wrt (\<lambda>a b. fStart a \<le> fStart b) (snd (Redact e s cfg)) \<and>
    (\<forall>f \<in> set (snd (Redact e s cfg)). fStart f \<le> fEnd f \<and> fEnd f \<le> length s \<and> fMatch f = slice (fStart f) (fEnd f) s \<and>
       fRedacted f = generatePlaceholder (hash e) (fCategory f) (fMatch f))"
proof -
  let ?fs = "map (finding_of (hash e)) (config_scan e s cfg)"
  have s3: "slice_sort later_start (sorter3 e)" using assms by (simp add: redact_env_ok_def)
  have out: "Redact e s cfg = (weave s 0 (pieces ?fs), ?fs)"
    using applyRedactions_weave [OF s3 findings_ok_scan [OF assms, of s "hash e" cfg]]
    by (simp add: Redact_def ScanAndRedact_def config_scan_def config_patterns_def Let_def pieces_def)
  have "sorted_wrt (\<lambda>a b. fStart a \<le> fStart b) ?fs"
    using config_scan_ok [OF assms, of s cfg] by (simp add: finding_of_def sorted_wrt_map)
  moreover have "\<forall>f \<in> set ?fs. fStart f \<le> fEnd f \<and> fEnd f \<le> length s \<and> fMatch f = slice (fStart f) (fEnd f) s \<and>
       fRedacted f = generatePlaceholder (hash e) (fCategory f) (fMatch f)"
    using config_scan_ok [OF assms, of s cfg] by (auto simp: finding_of_def in_input_def)
  ultimately show ?thesis
    using findings_ok_scan [OF assms, of s "hash e" cfg] unfolding out by simp
qed

text \<open>
  Without an allowlist, every non-empty match of an enabled pattern shares a byte with a finding
  of at least its priority: no match is left wholly readable.
\<close>

lemma every_match_touched:
  assumes e: "redact_env_ok e" and a: "compileAllowlist (regexp e) (cAllowlist cfg) = []"
    and m: "m \<in> set (raw_matches s (cDisabled cfg) (config_patterns e cfg))" "non_empty m"
  shows "\<exists>k \<in> set (config_scan e s cfg). mPriority k \<ge> mPriority m \<and> \<not> disjoint_matches k m"
proof -
  let ?d = "deduplicateMatches (sorter1 e) (sorter2 e) (raw_matches s (cDisabled cfg) (config_patterns e cfg))"
  have s: "slice_sort prio_less (sorter1 e)" "slice_sort start_less (sorter2 e)"
    using e by (auto simp: redact_env_ok_def)
  have "\<not> disjoint_matches m m"
    using m(2) by (auto simp: disjoint_matches_def non_empty_def)
  then have "\<exists>k \<in> set ?d. mPriority k \<ge> mPriority m \<and> \<not> disjoint_matches k m"
    using deduplicate_spec(4) [OF s m(1)] by blast
  moreover have "config_scan e s cfg = ?d"
    by (simp add: config_scan_def scan_def a Let_def)
  ultimately show ?thesis by simp
qed

section \<open>A concrete environment\<close>

text \<open>Patterns read literally, except the empty group, which matches before and after every byte, with
  the library's sorts.\<close>

definition empty_find :: finder where
  "empty_find s = map (\<lambda>i. (i, i)) [0..<Suc (length s)]"

definition literal_find :: "string \<Rightarrow> finder" where
  "literal_find p s =
     map (\<lambda>i. (i, i + length p)) (filter (\<lambda>i. take (length p) (drop i s) = p) [0..<length s + 1 - length p])"

definition literal_env :: redact_env where
  "literal_env =
     \<lparr>regexp = (\<lambda>p. if p \<in> {''abcdef'', ''cdefgh''} then Some (literal_find p)
                  else if p = ''()'' then Some empty_find else None),
      sorter1 = sort_key (\<lambda>m. (- mPriority m, mStart m)), sorter2 = sort_key mStart,
      sorter3 = sort_key (\<lambda>f. - int (fStart f)), hash = (\<lambda>s. ''00000000'')\<rparr>"

lemma slice_sort_key:
  assumes "\<And>a b. lt b a \<longleftrightarrow> k b < k a"
  shows "slice_sort lt (sort_key k)"
proof -
  have "sorted_wrt (\<lambda>a b. k a \<le> k b) (sort_key k xs)" for xs
    using sorted_sort_key [of k xs] by (simp add: sorted_wrt_map)
  then show ?thesis
    by (simp add: slice_sort_def assms not_less)
qed

lemma literal_env_ok: "redact_env_ok literal_env"
proof -
  have "a \<le> b \<and> b \<le> length s" if "(a, b) \<in> set (literal_find p s)" for a b s p
    using that by (auto simp: literal_find_def)
  then show ?thesis
    by (auto simp: redact_env_ok_def empty_find_def literal_env_def prio_less_def start_less_def later_start_def
        intro!: slice_sort_key split: if_splits)
qed

definition literal_cfg :: "string list \<Rightarrow> redact_config" where
  "literal_cfg allow =
     \<lparr>cMode = ModeRedact, cAllowlist = allow, cExtra = [(''A'', [''abcdef'']), (''B'', [''cdefgh''])], cDisabled = []\<rparr>"

lemma literal_patterns:
  "config_patterns literal_env (literal_cfg al) =
     [\<lparr>pCategory = ''A'', pRegex = literal_find ''abcdef'', pPriority = 60\<rparr>,
      \<lparr>pCategory = ''B'', pRegex = literal_find ''cdefgh'', pPriority = 60\<rparr>]"
proof -
  have "compile_all (regexp literal_env) defaultPatterns = []"
    by (simp add: compile_all_def literal_env_def defaultPatterns_def List.map_filter_def)
  then show ?thesis
    by (simp add: config_patterns_def compilePatterns_def sortPatternsByPriority_def literal_cfg_def
        literal_env_def List.map_filter_def)
qed

lemma literal_raw:
  "raw_matches ''abcdefgh'' [] (config_patterns literal_env (literal_cfg al)) =
     [\<lparr>mCategory = ''A'', mText = ''abcdef'', mStart = 0, mEnd = 6, mPriority = 60\<rparr>,
      \<lparr>mCategory = ''B'', mText = ''cdefgh'', mStart = 2, mEnd = 8, mPriority = 60\<rparr>]"
  unfolding literal_patterns by code_simp

lemma literal_dedup:
  "deduplicateMatches (sorter1 literal_env) (sorter2 literal_env)
     [\<lparr>mCategory = ''A'', mText = ''abcdef'', mStart = 0, mEnd = 6, mPriority = 60\<rparr>,
      \<lparr>mCategory = ''B'', mText = ''cdefgh'', mStart = 2, mEnd = 8, mPriority = 60\<rparr>] =
     [\<lparr>mCategory = ''A'', mText = ''abcdef'', mStart = 0, mEnd = 6, mPriority = 60\<rparr>]"
  by code_simp

text \<open>Two patterns that overlap and one that matches the empty string.\<close>

definition empty_cfg :: redact_config where
  "empty_cfg = (literal_cfg [])\<lparr>cExtra := [(''A'', [''abcdef'', ''()'']), (''B'', [''cdefgh''])]\<rparr>"

lemma empty_scan:
  "map (\<lambda>f. (fStart f, fEnd f)) (snd (Redact literal_env ''abcdefgh'' empty_cfg)) =
     [(0, 6), (0, 0), (1, 1), (2, 2), (3, 3), (4, 4), (5, 5), (6, 6), (7, 7), (8, 8)]"
  "map fRedacted (pieces (snd (Redact literal_env ''abcdefgh'' empty_cfg))) = [''[REDACTED:A:00000000]'']"
proof -
  have "compile_all (regexp literal_env) defaultPatterns = []"
    by (simp add: compile_all_def literal_env_def defaultPatterns_def List.map_filter_def)
  then have "config_patterns literal_env (empty_cfg\<lparr>cMode := ModeRedact\<rparr>) =
     [\<lparr>pCategory = ''A'', pRegex = literal_find ''abcdef'', pPriority = 60\<rparr>,
      \<lparr>pCategory = ''A'', pRegex = empty_find, pPriority = 60\<rparr>,
      \<lparr>pCategory = ''B'', pRegex = literal_find ''cdefgh'', pPriority = 60\<rparr>]"
    by (simp add: config_patterns_def compilePatterns_def sortPatternsByPriority_def empty_cfg_def literal_cfg_def
        literal_env_def List.map_filter_def)
  then have r: "snd (Redact literal_env ''abcdefgh'' empty_cfg) =
     (let ms = scan (sorter1 literal_env) (sorter2 literal_env) ''abcdefgh'' [] []
        [\<lparr>pCategory = ''A'', pRegex = literal_find ''abcdef'', pPriority = 60\<rparr>,
         \<lparr>pCategory = ''A'', pRegex = empty_find, pPriority = 60\<rparr>,
         \<lparr>pCategory = ''B'', pRegex = literal_find ''cdefgh'', pPriority = 60\<rparr>]
      in map (finding_of (hash literal_env)) ms)"
    by (simp add: Redact_def ScanAndRedact_def empty_cfg_def literal_cfg_def compileAllowlist_def List.map_filter_def Let_def)
  show "map (\<lambda>f. (fStart f, fEnd f)) (snd (Redact literal_env ''abcdefgh'' empty_cfg)) =
     [(0, 6), (0, 0), (1, 1), (2, 2), (3, 3), (4, 4), (5, 5), (6, 6), (7, 7), (8, 8)]"
    "map fRedacted (pieces (snd (Redact literal_env ''abcdefgh'' empty_cfg))) = [''[REDACTED:A:00000000]'']"
    unfolding r by code_simp+
qed

theorem Redact_weaves_witness:
  "redact_env_ok literal_env \<and> length (snd (Redact literal_env ''abcdefgh'' empty_cfg)) = 10 \<and>
   fst (Redact literal_env ''abcdefgh'' empty_cfg) = ''[REDACTED:A:00000000]gh''"
proof -
  let ?r = "Redact literal_env ''abcdefgh'' empty_cfg"
  have ends: "map (\<lambda>f. (fStart f, fEnd f)) (pieces (snd ?r)) = filter (\<lambda>(a, b). a < b) (map (\<lambda>f. (fStart f, fEnd f)) (snd ?r))"
    by (simp add: pieces_def filter_map o_def)
  then obtain f where f: "pieces (snd ?r) = [f]" "fStart f = 0" "fEnd f = 6"
    unfolding empty_scan(1) by (auto simp: map_eq_Cons_conv)
  have "fst ?r = weave ''abcdefgh'' 0 (pieces (snd ?r))"
    using Redact_weaves [OF literal_env_ok, of "''abcdefgh''" empty_cfg] by blast
  also have "\<dots> = ''[REDACTED:A:00000000]gh''"
    using empty_scan(2) f by (simp add: slice_def)
  finally show ?thesis using literal_env_ok arg_cong [OF empty_scan(1), of length] by simp
qed

text \<open>
  The allowlist is applied after overlaps are resolved: a harmless match that won the
  overlap takes the sensitive one it displaced with it, and the text stays readable.
\<close>

lemma literal_raw_short:
  "raw_matches ''cdefgh'' [] (config_patterns literal_env (literal_cfg al)) =
     [\<lparr>mCategory = ''B'', mText = ''cdefgh'', mStart = 0, mEnd = 6, mPriority = 60\<rparr>]"
  unfolding literal_patterns by code_simp

lemma allowlist_uncovers:
  "fst (Redact literal_env ''abcdefgh'' (literal_cfg [''abcdef''])) = ''abcdefgh'' \<and>
   fst (Redact literal_env ''cdefgh'' (literal_cfg [''abcdef''])) = ''[REDACTED:B:00000000]''"
proof -
  let ?B = "\<lparr>mCategory = ''B'', mText = ''cdefgh'', mStart = 0, mEnd = 6, mPriority = 60\<rparr>"
  have al: "compileAllowlist (regexp literal_env) [''abcdef''] = [literal_find ''abcdef'']"
    by (simp add: compileAllowlist_def literal_env_def List.map_filter_def)
  have hit: "isAllowlisted ''abcdef'' [literal_find ''abcdef'']" "\<not> isAllowlisted ''cdefgh'' [literal_find ''abcdef'']"
    by code_simp+
  have one: "deduplicateMatches (sorter1 literal_env) (sorter2 literal_env) [?B] = [?B]"
    by code_simp
  have out: "applyRedactions (sorter3 literal_env) ''cdefgh'' (map (finding_of (hash literal_env)) [?B]) =
      ''[REDACTED:B:00000000]''"
    by code_simp
  have "fst (Redact literal_env ''abcdefgh'' (literal_cfg [''abcdef''])) = ''abcdefgh''"
    using literal_raw [of "[''abcdef'']"] literal_dedup al hit
    by (simp add: Redact_def ScanAndRedact_def scan_def literal_cfg_def Let_def)
  moreover have "fst (Redact literal_env ''cdefgh'' (literal_cfg [''abcdef''])) = ''[REDACTED:B:00000000]''"
    using literal_raw_short [of "[''abcdef'']"] one al hit out
    by (simp add: Redact_def ScanAndRedact_def scan_def literal_cfg_def Let_def)
  ultimately show ?thesis ..
qed

section \<open>Lines\<close>

lemma takeWhile_sorted: "sorted xs \<Longrightarrow> takeWhile (\<lambda>i. \<not> i > pos) xs = filter (\<lambda>i. \<not> i > (pos :: nat)) xs"
  by (induction xs) (auto simp: filter_empty_conv eq_commute [of "[]"])

lemma length_filter_upt: "length (filter P [0..<n]) = card {i. i < n \<and> P i}"
  by (simp add: length_filter_conv_card cong: conj_cong)

text \<open>The line of a finding counts the newlines before it.\<close>

lemma line_is_newlines:
  "fst (line_column (lineStarts s) pos) = 1 + length (filter (\<lambda>c. c = CHR 0x0A) (take pos s))"
proof -
  let ?nl = "filter (\<lambda>i. s ! i = CHR 0x0A) [0..<length s]"
  have "sorted (0 # map Suc ?nl)"
    by (simp add: sorted_map sorted_wrt_filter)
  then have "takeWhile (\<lambda>i. \<not> i > pos) (lineStarts s) = 0 # filter (\<lambda>i. \<not> i > pos) (map Suc ?nl)"
    unfolding lineStarts_def by (subst takeWhile_sorted) auto
  then have "fst (line_column (lineStarts s) pos) = 1 + length (filter (\<lambda>i. i < pos) ?nl)"
    by (simp add: line_column_def Let_def filter_map o_def not_less Suc_le_eq)
  also have "length (filter (\<lambda>i. i < pos) ?nl) = card {i. i < length s \<and> (s ! i = CHR 0x0A \<and> i < pos)}"
    by (simp only: filter_filter length_filter_upt)
  also have "\<dots> = card {i. i < length (take pos s) \<and> take pos s ! i = CHR 0x0A}"
    by (rule arg_cong [where f = card]) auto
  also have "\<dots> = length (filter (\<lambda>c. c = CHR 0x0A) (take pos s))"
    by (simp add: length_filter_conv_card)
  finally show ?thesis .
qed

end
