(* ===== verification/AuditProps.thy ===== *)
theory AuditProps
  imports AuditLog RedactionCorrect
begin

text \<open>
  What the audit chain guarantees and what it does not: every history of successful
  appends verifies, two verifying logs with one last checksum tell the same story unless
  two of their own entries collide, and a failed append leaves a hole that verification reports for ever.
\<close>

section \<open>Histories\<close>

text \<open>
  The table as one session's logger sees it: it appends, is reopened, has its redaction
  changed, and other sessions append in between.
\<close>

inductive audit_history :: "audit_env \<Rightarrow> string \<Rightarrow> Logger \<Rightarrow> audit_log_row list \<Rightarrow> bool" for env sid where
  start: "\<forall>r \<in> set rows. aSession r \<noteq> sid \<Longrightarrow> audit_history env sid (new_logger rows sid) rows"
| log: "audit_history env sid l rows \<Longrightarrow> Log env c l rows = (None, l', rows') \<Longrightarrow>
    faithful env (entry_of env (l\<lparr>sequenceNum := sequenceNum l + 1\<rparr>) c) \<Longrightarrow> audit_history env sid l' rows'"
| reopen: "audit_history env sid l rows \<Longrightarrow> audit_history env sid (new_logger rows sid) rows"
| configure: "audit_history env sid l rows \<Longrightarrow> audit_history env sid (SetRedactionConfig cfg l) rows"
| other: "audit_history env sid l rows \<Longrightarrow> aSession r \<noteq> sid \<Longrightarrow> audit_history env sid l (rows @ [r])"

lemma new_logger_session [simp]: "lSession (new_logger rows sid) = sid"
  by (simp add: new_logger_def loadLastEntry_def split: list.split)

lemma Log_session: "Log env c l rows = (r, l', rows') \<Longrightarrow> lSession l' = lSession l"
  by (auto simp: Log_def Let_def split: option.splits if_splits)

lemma audit_history_sync: "audit_history env sid l rows \<Longrightarrow> lSession l = sid \<and> in_sync env l rows"
proof (induction rule: audit_history.induct)
  case (start rows)
  then have "filter (\<lambda>r. aSession r = sid) rows = []" by (simp add: filter_empty_conv)
  then show ?case by (simp add: in_sync_def new_logger_def loadLastEntry_def)
next
  case (log l rows c l' rows')
  then show ?case using Log_in_sync Log_session by metis
next
  case (reopen l rows)
  then show ?case using new_logger_in_sync by force
next
  case (configure l rows cfg)
  then show ?case by (auto simp: SetRedactionConfig_def in_sync_def Let_def)
next
  case (other l rows r)
  then show ?case by (auto simp: in_sync_def Let_def)
qed

text \<open>
  C26. Any sequence of successful appends of a session, with restarts of its logger and
  other sessions writing in between, verifies; the checksums only require that reading
  a logged map back from its text does not change the digest.
\<close>

theorem audit_history_verifies:
  assumes "audit_history env sid l rows"
  shows "VerifyIntegrity env rows sid = None \<and> sequenceNum l = length (session_rows sid rows)"
proof -
  have s: "lSession l = sid" "in_sync env l rows" using audit_history_sync [OF assms] by auto
  have "VerifyIntegrity env rows sid = None" using in_sync_verifies [OF s(2)] s(1) by simp
  moreover have "length (session_rows sid rows) = length (filter (\<lambda>r. aSession r = sid) rows)"
    by (simp add: session_rows_def)
  ultimately show ?thesis using s by (simp add: in_sync_def Let_def)
qed

section \<open>Tampering\<close>

text \<open>Two rows whose hashed contents differ while the digest is the same.\<close>

definition collides :: "audit_env \<Rightarrow> audit_log_row \<Rightarrow> audit_log_row \<Rightarrow> bool" where
  "collides env x y \<longleftrightarrow>
     read_entry env x \<noteq> read_entry env y \<and> digest env (read_entry env x) = Some (aSum x) \<and>
     digest env (read_entry env y) = Some (aSum y) \<and> aSum x = aSum y"

text \<open>The last rows, counted from the end, in which two logs differ collide.\<close>

definition collision_between :: "audit_env \<Rightarrow> audit_log_row list \<Rightarrow> audit_log_row list \<Rightarrow> bool" where
  "collision_between env xs ys \<longleftrightarrow>
     (\<exists>i < min (length xs) (length ys).
        collides env (rev xs ! i) (rev ys ! i) \<and>
        map (read_entry env) (take i (rev xs)) = map (read_entry env) (take i (rev ys)))"

lemma collision_last: "collides env x y \<Longrightarrow> collision_between env (xs @ [x]) (ys @ [y])"
  unfolding collision_between_def by (intro exI [of _ 0]) simp

lemma collision_before:
  "collision_between env xs ys \<Longrightarrow> read_entry env x = read_entry env y \<Longrightarrow> collision_between env (xs @ [x]) (ys @ [y])"
proof -
  assume "collision_between env xs ys" and eq: "read_entry env x = read_entry env y"
  then obtain i where "i < min (length xs) (length ys)" "collides env (rev xs ! i) (rev ys ! i)"
    "map (read_entry env) (take i (rev xs)) = map (read_entry env) (take i (rev ys))"
    unfolding collision_between_def by blast
  with eq show ?thesis unfolding collision_between_def by (intro exI [of _ "Suc i"]) simp
qed

lemma checksum_read: "computeChecksum dg (read_entry env r) = dg (read_entry env r)"
  by (simp add: computeChecksum_def read_entry_def)

lemma verify_last:
  assumes "verify_rows env h n (xs @ [x]) = None"
  shows "verify_rows env h n xs = None" "aSeq x = n + length xs + 1"
    "aPrev x = (if xs = [] then h else aSum (last xs))" "digest env (read_entry env x) = Some (aSum x)"
  using assms by (auto simp: verify_append checksum_read split: option.splits if_splits)

lemma chains_equal:
  assumes "verify_rows env h 0 xs = None" "verify_rows env h 0 ys = None" "xs \<noteq> []" "ys \<noteq> []"
    "aSum (last xs) = aSum (last ys)"
  shows "map (read_entry env) xs = map (read_entry env) ys \<or> collision_between env xs ys"
  using assms
proof (induction xs arbitrary: ys rule: rev_induct)
  case (snoc x xs)
  then obtain ys' y where ys: "ys = ys' @ [y]" by (metis append_butlast_last_id)
  note vx = verify_last [OF snoc.prems(1)] and vy = verify_last [OF snoc.prems(2) [unfolded ys]]
  show ?case
  proof (cases "read_entry env x = read_entry env y")
    case False
    then have "collides env x y" using vx(4) vy(4) snoc.prems(5) by (simp add: ys collides_def)
    then show ?thesis by (simp add: ys collision_last)
  next
    case same: True
    then have seq: "aSeq x = aSeq y" and prev: "aPrev x = aPrev y"
      by (simp_all add: read_entry_def)
    then have len: "length xs = length ys'" using vx(2) vy(2) by simp
    show ?thesis
    proof (cases "xs = []")
      case True
      then show ?thesis using len same by (simp add: ys)
    next
      case False
      then have ne: "ys' \<noteq> []" using len by auto
      then have "aSum (last xs) = aSum (last ys')"
        using False vx(3) vy(3) prev by simp
      then have "map (read_entry env) xs = map (read_entry env) ys' \<or> collision_between env xs ys'"
        using snoc.IH [OF vx(1) vy(1) False ne] by blast
      then show ?thesis using same collision_before [of env xs ys' x y] by (auto simp: ys)
    qed
  qed
qed simp

text \<open>
  C27. Tamper evidence: when two tables verify for a session and end in the same checksum, the
  session's entries agree in every hashed field, or the logs themselves exhibit a collision:
  going back from the end, the first two entries that differ have the same digest. No
  assumption is made about the hash.
\<close>

theorem audit_tamper_evident:
  assumes "VerifyIntegrity env rows1 sid = None" "VerifyIntegrity env rows2 sid = None"
    and "session_rows sid rows1 \<noteq> []" "session_rows sid rows2 \<noteq> []"
    and "aSum (last (session_rows sid rows1)) = aSum (last (session_rows sid rows2))"
  shows "map (read_entry env) (session_rows sid rows1) = map (read_entry env) (session_rows sid rows2) \<or>
    collision_between env (session_rows sid rows1) (session_rows sid rows2)"
  using chains_equal [of env "''''" "session_rows sid rows1" "session_rows sid rows2"] assms
  unfolding VerifyIntegrity_def by blast

text \<open>Cutting entries off the end is not noticed: every prefix of a verifying session verifies.\<close>

lemma truncation_verifies:
  assumes "verify_rows env h n (xs @ ys) = None"
  shows "verify_rows env h n xs = None"
  using assms by (simp add: verify_append split: option.splits)

section \<open>A failed append\<close>

lemma Log_failed: "Log env c l rows = (Some err, l', rows') \<Longrightarrow> l' = l\<lparr>sequenceNum := sequenceNum l + 1\<rparr> \<and> rows' = rows"
  by (auto simp: Log_def Let_def split: option.splits if_splits)

lemma seq_sorted:
  "\<forall>i < length rs. aSeq (rs ! i) = Suc i \<Longrightarrow> length rs \<le> aSeq r \<Longrightarrow> sorted (map aSeq (rs @ [r]))"
  by (auto simp: sorted_iff_nth_mono nth_append)

text \<open>
  An append that fails, for a value that cannot be marshalled or a busy database, has
  already taken its sequence number: after the next successful append the untouched log
  is reported as tampered with, at a gap in the sequence.
\<close>

lemma failed_append_breaks_log:
  assumes sync: "in_sync env l rows" and fail: "Log env c1 l rows = (Some err, l1, rows1)"
    and ok: "Log env c2 l1 rows1 = (None, l2, rows2)"
  shows "VerifyIntegrity env rows2 (lSession l) = Some (SequenceGap (sequenceNum l + 2) (sequenceNum l + 1))"
proof -
  let ?rs = "filter (\<lambda>r. aSession r = lSession l) rows"
  have 1: "l1 = l\<lparr>sequenceNum := sequenceNum l + 1\<rparr>" "rows1 = rows" using Log_failed [OF fail] by auto
  obtain e s pj mj where e: "e = entry_of env (l1\<lparr>sequenceNum := sequenceNum l1 + 1\<rparr>) c2"
      and r2: "rows2 = rows1 @ [row_of_entry (next_id rows1) pj mj (e\<lparr>eSum := s\<rparr>)]"
    using ok by (rule Log_ok_cases)
  let ?r = "row_of_entry (next_id rows1) pj mj (e\<lparr>eSum := s\<rparr>)"
  have r: "aSession ?r = lSession l" "aSeq ?r = sequenceNum l + 2"
    by (simp_all add: row_of_entry_def e entry_of_def 1)
  have n: "sequenceNum l = length ?rs" and q: "\<forall>i < length ?rs. aSeq (?rs ! i) = Suc i"
    and v: "verify_rows env '''' 0 ?rs = None"
    using sync by (simp_all add: in_sync_def Let_def)
  have f: "filter (\<lambda>r. aSession r = lSession l) rows2 = ?rs @ [?r]"
    using r(1) by (simp add: r2 1)
  have "sorted (map aSeq (?rs @ [?r]))"
    by (rule seq_sorted [OF q]) (use r(2) n in simp)
  then have "session_rows (lSession l) rows2 = ?rs @ [?r]"
    unfolding session_rows_def f by (rule sort_key_id_if_sorted)
  then show ?thesis
    using v r(2) n by (simp add: VerifyIntegrity_def verify_append)
qed

section \<open>Redacted values\<close>

primrec strings :: "gval \<Rightarrow> string list" where
  "strings (GStr s) = [s]"
| "strings (GStrs ss) = ss"
| "strings (GList vs) = concat (map strings vs)"
| "strings (GMap m) = (case map_option (map (map_prod (\<lambda>k. k) strings)) m of None \<Rightarrow> [] | Some kvs \<Rightarrow> concat (map snd kvs))"
| "strings (GOther n) = []"

text \<open>Every string value of a logged map went through the redactor, and nothing else changed;
  keys and values of other types are stored as they are.\<close>

lemma strings_sanitizeValue: "strings (sanitizeValue e cfg v) = map (sanitizeString e cfg) (strings v)"
proof (induction v)
  case (GList vs)
  then have "map (strings \<circ> sanitizeValue e cfg) vs = map (map (sanitizeString e cfg) \<circ> strings) vs" by simp
  then show ?case by (simp add: map_concat o_def cong: map_cong)
next
  case (GMap m)
  then show ?case
  proof (cases m)
    case (Some kvs)
    have "map (\<lambda>x. strings (sanitizeValue e cfg (snd x))) kvs = map (\<lambda>x. map (sanitizeString e cfg) (strings (snd x))) kvs"
      using GMap Some by fastforce
    then show ?thesis by (simp add: Some map_concat o_def cong: map_cong)
  qed simp
qed simp_all

section \<open>A concrete log\<close>

definition demo_audit :: audit_env where
  "demo_audit =
     \<lparr>digest = (\<lambda>e. if eType e = ''bad'' then None else Some (CHR ''x'' # eTarget e @ ePrev e)),
      enc = (\<lambda>m. Some ''null''), dec = (\<lambda>s. None), redactor = literal_env\<rparr>"

definition demo_call :: "string \<Rightarrow> string \<Rightarrow> log_call" where
  "demo_call ty tgt =
     \<lparr>cNow = 7, cTrace = '''', cType = ty, cActor = ''agent'', cTarget = tgt, cPayload = None, cMetadata = None,
      cInsert = True\<rparr>"

definition demo_log :: "(string \<times> string) list \<Rightarrow> Logger \<times> audit_log_row list" where
  "demo_log cs = fold (\<lambda>(ty, tgt) (l, rows). snd (Log demo_audit (demo_call ty tgt) l rows)) cs (new_logger [] ''s'', [])"

lemma demo_faithful: "faithful demo_audit (entry_of demo_audit l (demo_call ty tgt))"
  by (simp add: faithful_def computeChecksum_def demo_audit_def entry_of_def demo_call_def)

lemma demo_step:
  assumes "audit_history demo_audit ''s'' (fst (demo_log cs)) (snd (demo_log cs))" "ty \<noteq> ''bad''"
  shows "audit_history demo_audit ''s'' (fst (demo_log (cs @ [(ty, tgt)]))) (snd (demo_log (cs @ [(ty, tgt)])))"
proof -
  obtain r l' rows' where l: "Log demo_audit (demo_call ty tgt) (fst (demo_log cs)) (snd (demo_log cs)) = (r, l', rows')"
    by (metis prod_cases3)
  moreover have "r = None"
    using l assms(2) by (auto simp: Log_def Let_def demo_audit_def demo_call_def computeChecksum_def entry_of_def)
  ultimately have "audit_history demo_audit ''s'' l' rows'"
    using audit_history.log [OF assms(1) _ demo_faithful] by simp
  then show ?thesis using l by (simp add: demo_log_def case_prod_beta)
qed

lemma demo_history:
  "audit_history demo_audit ''s'' (fst (demo_log [(''send'', ''a''), (''send'', ''b'')])) (snd (demo_log [(''send'', ''a''), (''send'', ''b'')]))"
proof -
  have "audit_history demo_audit ''s'' (fst (demo_log [])) (snd (demo_log []))"
    using audit_history.start [of "[]" "''s''" demo_audit] by (simp add: demo_log_def)
  from demo_step [OF demo_step [OF this, of "''send''" "''a''"], of "''send''" "''b''"] show ?thesis by simp
qed

theorem audit_history_verifies_witness:
  "VerifyIntegrity demo_audit (snd (demo_log [(''send'', ''a''), (''send'', ''b'')])) ''s'' = None \<and>
   map aSum (snd (demo_log [(''send'', ''a''), (''send'', ''b'')])) = [''xa'', ''xbxa'']"
proof
  show "VerifyIntegrity demo_audit (snd (demo_log [(''send'', ''a''), (''send'', ''b'')])) ''s'' = None"
    using audit_history_verifies [OF demo_history] by blast
  show "map aSum (snd (demo_log [(''send'', ''a''), (''send'', ''b'')])) = [''xa'', ''xbxa'']"
    by code_simp
qed

text \<open>
  The demonstration digest covers the target and the chain only, so a changed actor in the first
  entry verifies; the two logs then exhibit the collision.
\<close>

definition demo_rows :: "audit_log_row list" where
  "demo_rows = snd (demo_log [(''send'', ''a''), (''send'', ''b'')])"

definition forged_rows :: "audit_log_row list" where
  "forged_rows = map (\<lambda>r. if aSeq r = 1 then r\<lparr>aActor := ''x''\<rparr> else r) demo_rows"

theorem audit_tamper_evident_witness:
  "VerifyIntegrity demo_audit forged_rows ''s'' = None \<and>
   collision_between demo_audit (session_rows ''s'' demo_rows) (session_rows ''s'' forged_rows)"
proof -
  have diff: "map (read_entry demo_audit) (session_rows ''s'' demo_rows) \<noteq> map (read_entry demo_audit) (session_rows ''s'' forged_rows)"
    by code_simp
  have "map (read_entry demo_audit) (session_rows ''s'' demo_rows) = map (read_entry demo_audit) (session_rows ''s'' forged_rows) \<or>
      collision_between demo_audit (session_rows ''s'' demo_rows) (session_rows ''s'' forged_rows)"
    by (rule audit_tamper_evident; code_simp)
  moreover have "VerifyIntegrity demo_audit forged_rows ''s'' = None" by code_simp
  ultimately show ?thesis using diff by blast
qed

end
