(* ===== verification/Sentinel.thy ===== *)
theory Sentinel
  imports Prelude "HOL-Library.Product_Lexorder"
begin

text \<open>
  The throttle of \<^verbatim>\<open>internal/sentinel/sentinel.go\<close>: a row per name and scope with the second
  of its last firing; \<^verbatim>\<open>Check\<close> claims a firing when the interval has passed, and prunes rows
  untouched for a week in the same transaction.
\<close>

record sentinel =
  snName :: string
  snScope :: string
  lastFired :: int

type_synonym sentinels = "sentinel list"

definition sentinel_at :: "string \<Rightarrow> string \<Rightarrow> sentinel \<Rightarrow> bool" where
  "sentinel_at name scope r \<longleftrightarrow> snName r = name \<and> snScope r = scope"

definition insert_or_ignore :: "string \<Rightarrow> string \<Rightarrow> sentinels \<Rightarrow> sentinels" where
  "insert_or_ignore name scope rows =
     (if list_ex (sentinel_at name scope) rows then rows
      else rows @ [\<lparr>snName = name, snScope = scope, lastFired = 0\<rparr>])"

definition sentinel_due :: "int \<Rightarrow> int \<Rightarrow> sentinel \<Rightarrow> bool" where
  "sentinel_due now intervalSec r \<longleftrightarrow>
     (intervalSec = 0 \<and> lastFired r = 0) \<or> (intervalSec > 0 \<and> now - lastFired r \<ge> intervalSec)"

definition auto_prune :: "int \<Rightarrow> sentinels \<Rightarrow> sentinels" where
  "auto_prune now rows = filter (\<lambda>r. \<not> now - lastFired r > 604800) rows"

definition CheckSentinel :: "int \<Rightarrow> string \<Rightarrow> string \<Rightarrow> int \<Rightarrow> sentinels \<Rightarrow> bool \<times> sentinels" where
  "CheckSentinel now name scope intervalSec rows =
     (let rows1 = insert_or_ignore name scope rows;
          claim = (\<lambda>r. sentinel_at name scope r \<and> sentinel_due now intervalSec r);
          allowed = rows_affected claim rows1;
          rows2 = sql_update claim (\<lambda>r. r\<lparr>lastFired := now\<rparr>) rows1
      in (allowed = 1, auto_prune now rows2))"

definition ResetSentinel :: "string \<Rightarrow> string \<Rightarrow> sentinels \<Rightarrow> sentinels" where
  "ResetSentinel name scope rows = filter (\<lambda>r. \<not> sentinel_at name scope r) rows"

definition ListSentinels :: "sentinels \<Rightarrow> sentinels" where
  "ListSentinels rows = sort_key (\<lambda>r. (snName r, snScope r)) rows"

definition PruneSentinels :: "int \<Rightarrow> int \<Rightarrow> sentinels \<Rightarrow> nat \<times> sentinels" where
  "PruneSentinels now olderSec rows =
     (let old = (\<lambda>r. lastFired r < now - olderSec) in (rows_affected old rows, filter (\<lambda>r. \<not> old r) rows))"

section \<open>One row per sentinel\<close>

definition one_row :: "sentinels \<Rightarrow> bool" where
  "one_row rows \<longleftrightarrow> distinct (map (\<lambda>r. (snName r, snScope r)) rows)"

lemma one_row_filter: "one_row rows \<Longrightarrow> one_row (filter P rows)"
  by (auto simp: one_row_def distinct_map inj_on_def)

lemma one_row_insert: "one_row rows \<Longrightarrow> one_row (insert_or_ignore name scope rows)"
  by (auto simp: one_row_def insert_or_ignore_def list_ex_iff sentinel_at_def)

lemma one_row_update: "one_row rows \<Longrightarrow> one_row (sql_update P (\<lambda>r. r\<lparr>lastFired := t\<rparr>) rows)"
  by (simp add: one_row_def map_sql_update)

lemma one_row_check: "one_row rows \<Longrightarrow> one_row (snd (CheckSentinel now name scope i rows))"
  by (simp add: CheckSentinel_def Let_def auto_prune_def one_row_filter one_row_insert one_row_update)

lemma one_row_same: "one_row rows \<Longrightarrow> r \<in> set rows \<Longrightarrow> s \<in> set rows \<Longrightarrow> sentinel_at n sc r \<Longrightarrow> sentinel_at n sc s \<Longrightarrow> r = s"
  by (auto simp: one_row_def distinct_map inj_on_def sentinel_at_def)

text \<open>A claim succeeds exactly when the sentinel's row, or the fresh one, is sentinel_due.\<close>

lemma insert_has_row: "\<exists>r \<in> set (insert_or_ignore name scope rows). sentinel_at name scope r"
  by (auto simp: insert_or_ignore_def list_ex_iff sentinel_at_def)

lemma insert_row_cases:
  "r \<in> set (insert_or_ignore name scope rows) \<Longrightarrow> r \<in> set rows \<or> (sentinel_at name scope r \<and> lastFired r = 0 \<and>
     (\<forall>s \<in> set rows. \<not> sentinel_at name scope s))"
  by (auto simp: insert_or_ignore_def list_ex_iff sentinel_at_def split: if_splits)

lemma insert_keeps: "r \<in> set rows \<Longrightarrow> r \<in> set (insert_or_ignore name scope rows)"
  by (simp add: insert_or_ignore_def)

lemma Check_allowed_iff:
  assumes "one_row rows"
  shows "fst (CheckSentinel now name scope i rows) \<longleftrightarrow>
    (\<exists>r \<in> set (insert_or_ignore name scope rows). sentinel_at name scope r \<and> sentinel_due now i r)"
proof -
  let ?rows = "insert_or_ignore name scope rows" and ?c = "\<lambda>r. sentinel_at name scope r \<and> sentinel_due now i r"
  have "length (filter ?c ?rows) \<le> 1"
  proof (rule ccontr)
    assume "\<not> length (filter ?c ?rows) \<le> 1"
    then obtain a b xs where f: "filter ?c ?rows = a # b # xs"
      by (cases "filter ?c ?rows"; cases "tl (filter ?c ?rows)") auto
    have "a \<in> set ?rows" "b \<in> set ?rows" "sentinel_at name scope a" "sentinel_at name scope b"
      using arg_cong [OF f, of set] by auto
    then have "a = b" using one_row_same [OF one_row_insert [OF assms]] by blast
    moreover have "distinct (filter ?c ?rows)"
      using one_row_insert [OF assms] by (simp add: one_row_def distinct_map)
    ultimately show False by (simp add: f)
  qed
  then have "length (filter ?c ?rows) = 1 \<longleftrightarrow> filter ?c ?rows \<noteq> []"
    by (cases "filter ?c ?rows") auto
  then show ?thesis
    by (simp add: CheckSentinel_def Let_def rows_affected_def filter_empty_conv)
qed

section \<open>Firings are spaced\<close>

text \<open>
  A history with the clock, and the firings of one sentinel, latest first. Every check of
  that sentinel asks for at least \<open>n\<close> seconds; it is not reset, and pruning by hand keeps
  rows of the last \<open>n\<close> seconds.
\<close>

inductive throttled :: "string \<Rightarrow> string \<Rightarrow> int \<Rightarrow> sentinels \<Rightarrow> int \<Rightarrow> int list \<Rightarrow> bool" for name scope n where
  start: "0 \<le> t \<Longrightarrow> throttled name scope n [] t []"
| tick: "throttled name scope n rows t fs \<Longrightarrow> t \<le> t' \<Longrightarrow> throttled name scope n rows t' fs"
| check: "throttled name scope n rows t fs \<Longrightarrow> n \<le> i \<Longrightarrow>
    throttled name scope n (snd (CheckSentinel t name scope i rows)) t
      (if fst (CheckSentinel t name scope i rows) then t # fs else fs)"
| check_other: "throttled name scope n rows t fs \<Longrightarrow> (nm, sc) \<noteq> (name, scope) \<Longrightarrow>
    throttled name scope n (snd (CheckSentinel t nm sc i rows)) t fs"
| reset_other: "throttled name scope n rows t fs \<Longrightarrow> (nm, sc) \<noteq> (name, scope) \<Longrightarrow>
    throttled name scope n (ResetSentinel nm sc rows) t fs"
| prune: "throttled name scope n rows t fs \<Longrightarrow> n \<le> s \<Longrightarrow> throttled name scope n (snd (PruneSentinels t s rows)) t fs"

definition remembered :: "string \<Rightarrow> string \<Rightarrow> int \<Rightarrow> sentinels \<Rightarrow> int \<Rightarrow> int list \<Rightarrow> bool" where
  "remembered name scope n rows t fs \<longleftrightarrow>
     one_row rows \<and> (\<forall>f \<in> set fs. f \<le> t) \<and>
     (fs \<noteq> [] \<longrightarrow> (\<exists>r \<in> set rows. sentinel_at name scope r \<and> lastFired r = hd fs) \<or> hd fs + n \<le> t)"

lemma remembered_filter:
  assumes m: "remembered name scope n rows t fs"
    and k: "\<And>r. r \<in> set rows \<Longrightarrow> sentinel_at name scope r \<Longrightarrow> \<not> P r \<Longrightarrow> lastFired r + n \<le> t"
  shows "remembered name scope n (filter P rows) t fs"
proof -
  have "(\<exists>r \<in> set (filter P rows). sentinel_at name scope r \<and> lastFired r = hd fs) \<or> hd fs + n \<le> t"
    if "\<exists>r \<in> set rows. sentinel_at name scope r \<and> lastFired r = hd fs"
  proof -
    from that obtain r where r: "r \<in> set rows" "sentinel_at name scope r" "lastFired r = hd fs" by blast
    show ?thesis using k [OF r(1,2)] r by (cases "P r") auto
  qed
  then show ?thesis
    using m one_row_filter by (auto simp: remembered_def)
qed

lemma remembered_claim:
  assumes m: "remembered name scope n rows t fs"
    and own: "(nm, sc) = (name, scope) \<Longrightarrow> \<forall>r \<in> set (insert_or_ignore nm sc rows). sentinel_at nm sc r \<longrightarrow> \<not> sentinel_due t i r"
    and n: "n \<le> 604800"
  shows "remembered name scope n (snd (CheckSentinel t nm sc i rows)) t fs"
proof -
  let ?c = "\<lambda>r. sentinel_at nm sc r \<and> sentinel_due t i r"
  let ?rows = "sql_update ?c (\<lambda>r. r\<lparr>lastFired := t\<rparr>) (insert_or_ignore nm sc rows)"
  have keep: "r \<in> set ?rows" if "r \<in> set rows" "sentinel_at name scope r" for r
    using that own insert_keeps [of r rows nm sc] unfolding in_sql_update by (auto simp: sentinel_at_def)
  have "remembered name scope n ?rows t fs"
    using m keep one_row_update [OF one_row_insert] by (auto simp: remembered_def)
  then have "remembered name scope n (auto_prune t ?rows) t fs"
    unfolding auto_prune_def by (rule remembered_filter) (use n in auto)
  then show ?thesis by (simp add: CheckSentinel_def Let_def)
qed

lemma throttled_time: "throttled name scope n rows t fs \<Longrightarrow> 0 \<le> t"
  by (induction rule: throttled.induct) auto

lemma remembered_start: "throttled name scope n rows t fs \<Longrightarrow> remembered name scope n rows t fs \<Longrightarrow> t \<le> t' \<Longrightarrow>
    remembered name scope n rows t' fs"
  unfolding remembered_def by force

lemma fired_row:
  assumes one: "one_row rows" and f: "fst (CheckSentinel t name scope i rows)"
  shows "\<exists>r \<in> set (sql_update (\<lambda>r. sentinel_at name scope r \<and> sentinel_due t i r) (\<lambda>r. r\<lparr>lastFired := t\<rparr>)
      (insert_or_ignore name scope rows)). sentinel_at name scope r \<and> lastFired r = t"
proof -
  obtain r where r: "r \<in> set (insert_or_ignore name scope rows)" "sentinel_at name scope r" "sentinel_due t i r"
    using f unfolding Check_allowed_iff [OF one] by blast
  show ?thesis
    by (rule bexI [where x = "r\<lparr>lastFired := t\<rparr>"]) (use r in \<open>auto simp: in_sql_update sentinel_at_def\<close>)
qed

lemma remembered_fire:
  assumes m: "remembered name scope n rows t fs" and f: "fst (CheckSentinel t name scope i rows)"
  shows "remembered name scope n (snd (CheckSentinel t name scope i rows)) t (t # fs)"
proof -
  let ?c = "\<lambda>r. sentinel_at name scope r \<and> sentinel_due t i r"
  let ?rows = "sql_update ?c (\<lambda>r. r\<lparr>lastFired := t\<rparr>) (insert_or_ignore name scope rows)"
  have one: "one_row rows" "\<forall>g \<in> set fs. g \<le> t" using m by (auto simp: remembered_def)
  obtain r where r: "r \<in> set ?rows" "sentinel_at name scope r" "lastFired r = t"
    using fired_row [OF one(1) f] by blast
  then have "r \<in> set (auto_prune t ?rows)" by (simp add: auto_prune_def)
  moreover have "one_row (auto_prune t ?rows)"
    using one(1) by (simp add: auto_prune_def one_row_filter one_row_insert one_row_update)
  ultimately show ?thesis
    using r(2,3) one(2) by (auto simp: remembered_def CheckSentinel_def Let_def)
qed

text \<open>A firing is at least \<open>n\<close> seconds after the one before.\<close>

lemma fired_spaced:
  assumes m: "remembered name scope n rows t fs" and f: "fst (CheckSentinel t name scope i rows)"
    and i: "0 < n" "n \<le> i" and fs: "fs \<noteq> []"
  shows "hd fs + n \<le> t"
proof -
  have one: "one_row rows" using m by (simp add: remembered_def)
  obtain r where r: "r \<in> set (insert_or_ignore name scope rows)" "sentinel_at name scope r" "sentinel_due t i r"
    using f unfolding Check_allowed_iff [OF one] by blast
  consider "hd fs + n \<le> t" | s where "s \<in> set rows" "sentinel_at name scope s" "lastFired s = hd fs"
    using m fs by (auto simp: remembered_def)
  then show ?thesis
  proof cases
    case 2
    then have "r = s"
      using one_row_same [OF one_row_insert [OF one] r(1) insert_keeps r(2)] by blast
    then show ?thesis using r(3) i 2(3) by (auto simp: sentinel_due_def)
  qed
qed

lemma not_fired:
  assumes "one_row rows" "\<not> fst (CheckSentinel t name scope i rows)"
  shows "\<forall>r \<in> set (insert_or_ignore name scope rows). sentinel_at name scope r \<longrightarrow> \<not> sentinel_due t i r"
  using assms Check_allowed_iff by blast

lemma throttled_invariant:
  assumes "throttled name scope n rows t fs" "0 < n" "n \<le> 604800"
  shows "remembered name scope n rows t fs \<and> sorted_wrt (\<lambda>a b. b + n \<le> a) fs"
  using assms
proof (induction rule: throttled.induct)
  case (start t)
  then show ?case by (simp add: remembered_def one_row_def)
next
  case (tick rows t fs t')
  then show ?case using remembered_start by blast
next
  case (check rows t fs i)
  then have m: "remembered name scope n rows t fs" and s: "sorted_wrt (\<lambda>a b. b + n \<le> a) fs" by auto
  then have one: "one_row rows" by (simp add: remembered_def)
  show ?case
  proof (cases "fst (CheckSentinel t name scope i rows)")
    case True
    have "\<forall>g \<in> set fs. g + n \<le> t"
    proof (cases fs)
      case (Cons f gs)
      then have "f + n \<le> t" using fired_spaced [OF m True check.prems(1) check.hyps(2)] by simp
      then show ?thesis using s Cons check.prems(1) by auto
    qed simp
    then show ?thesis using remembered_fire [OF m True] s True by simp
  next
    case False
    then show ?thesis
      using remembered_claim [OF m _ check.prems(2)] not_fired [OF one False] s by simp
  qed
next
  case (check_other rows t fs nm sc i)
  then show ?case by (intro conjI remembered_claim) auto
next
  case (reset_other rows t fs nm sc)
  then show ?case
    unfolding ResetSentinel_def
    using remembered_filter [of name scope n rows t fs "\<lambda>r. \<not> sentinel_at nm sc r"] by (auto simp: sentinel_at_def)
next
  case (prune rows t fs s)
  then show ?case
    unfolding PruneSentinels_def Let_def
    using remembered_filter [of name scope n rows t fs "\<lambda>r. \<not> lastFired r < t - s"] by auto
qed

text \<open>
  A sentinel checked with an interval of at most a week fires at most once per interval,
  whatever other sentinels do, through automatic and manual pruning.
\<close>

lemma throttle_spaces_firings:
  assumes "throttled name scope n rows t fs" "0 < n" "n \<le> 604800"
  shows "sorted_wrt (\<lambda>later earlier. earlier + n \<le> later) fs"
  using throttled_invariant [OF assms] by blast

section \<open>What pruning forgets\<close>

text \<open>
  With interval 0 a sentinel is to fire once per scope, but the automatic pruning
  forgets it after a week: the check that prunes it refuses, the next one fires again.
\<close>

lemma once_fires_again:
  "\<exists>rows1 rows2 rows3. CheckSentinel 1000000 ''once'' ''r1'' 0 [] = (True, rows1) \<and>
     CheckSentinel 1604801 ''once'' ''r1'' 0 rows1 = (False, rows2) \<and>
     CheckSentinel 1604801 ''once'' ''r1'' 0 rows2 = (True, rows3)"
  by (simp add: CheckSentinel_def insert_or_ignore_def sentinel_at_def sentinel_due_def auto_prune_def rows_affected_def Let_def)

text \<open>An interval longer than a week is cut to a week the same way.\<close>

lemma long_interval_forgotten:
  "\<exists>rows1 rows2 rows3. CheckSentinel 10000000 ''n'' ''s'' 2592000 [] = (True, rows1) \<and>
     CheckSentinel 10604801 ''other'' ''s'' 60 rows1 = (True, rows2) \<and>
     CheckSentinel 10604801 ''n'' ''s'' 2592000 rows2 = (True, rows3)"
  by (simp add: CheckSentinel_def insert_or_ignore_def sentinel_at_def sentinel_due_def auto_prune_def rows_affected_def Let_def)

text \<open>Two checks an hour apart with an interval of an hour, and one in between that is refused.\<close>

definition demo_sentinels :: "int \<Rightarrow> sentinels" where
  "demo_sentinels t = [\<lparr>snName = ''n'', snScope = ''s'', lastFired = t\<rparr>]"

lemma demo_checks:
  "CheckSentinel 1000000 ''n'' ''s'' 3600 [] = (True, demo_sentinels 1000000)"
  "CheckSentinel 1003599 ''n'' ''s'' 3600 (demo_sentinels 1000000) = (False, demo_sentinels 1000000)"
  "CheckSentinel 1003600 ''n'' ''s'' 3600 (demo_sentinels 1000000) = (True, demo_sentinels 1003600)"
  by (simp_all add: CheckSentinel_def insert_or_ignore_def sentinel_at_def sentinel_due_def auto_prune_def
      rows_affected_def Let_def demo_sentinels_def)

end
