(* ===== verification/StateStore.thy ===== *)
theory StateStore
  imports Prelude
begin

text \<open>
  The key-value state of \<^verbatim>\<open>internal/state/state.go\<close>: keys, the limits on payloads, which
  are checked on the token stream of the JSON decoder, and the table with its expiry.
  A payload is its text with the value the text decodes to; a token stream is the one
  \<^verbatim>\<open>json.Decoder\<close> yields for that value. The secret patterns are Go regular expressions:
  what they match is an argument.
\<close>

section \<open>Keys\<close>

definition lower :: "char \<Rightarrow> bool" where
  "lower c \<longleftrightarrow> CHR ''a'' \<le> c \<and> c \<le> CHR ''z''"

definition digit :: "char \<Rightarrow> bool" where
  "digit c \<longleftrightarrow> CHR ''0'' \<le> c \<and> c \<le> CHR ''9''"

definition head_char :: "char \<Rightarrow> bool" where
  "head_char c \<longleftrightarrow> lower c \<or> digit c \<or> c = CHR ''_'' \<or> c = CHR ''-''"

definition tail_char :: "char \<Rightarrow> bool" where
  "tail_char c \<longleftrightarrow> lower c \<or> digit c \<or> c \<in> {CHR ''_'', CHR ''.'', CHR '':'', CHR ''-''}"

text \<open>The language of \<^verbatim>\<open>^[a-z][a-z0-9_-]*(\.[a-z0-9_.:-]+)*$\<close>, part by part.\<close>

inductive key_groups :: "string \<Rightarrow> bool" where
  none: "key_groups []"
| group: "seg \<noteq> [] \<Longrightarrow> list_all tail_char seg \<Longrightarrow> key_groups rest \<Longrightarrow> key_groups (CHR ''.'' # seg @ rest)"

definition validKeyPattern :: "string \<Rightarrow> bool" where
  "validKeyPattern s \<longleftrightarrow>
     (\<exists>c h g. s = c # h @ g \<and> lower c \<and> list_all head_char h \<and> key_groups g)"

text \<open>The same, computed: the part after the head is empty or a dot and one character or more.\<close>

definition key_matches :: "string \<Rightarrow> bool" where
  "key_matches s =
     (case s of [] \<Rightarrow> False
      | c # cs \<Rightarrow> lower c \<and>
          (let g = dropWhile head_char cs
           in g = [] \<or> (hd g = CHR ''.'' \<and> tl g \<noteq> [] \<and> list_all tail_char (tl g))))"

datatype state_error =
    ErrKeyEmpty
  | ErrKeyLong
  | ErrKeyInvalid
  | ErrTooLarge
  | ErrInvalidJSON
  | ErrSecret string
  | ErrParse
  | ErrTooDeep
  | ErrStringLong
  | ErrArrayLong
  | ErrTTL
  | ErrStateNotFound

definition ValidateKey :: "string \<Rightarrow> state_error option" where
  "ValidateKey key =
     (if key = [] then Some ErrKeyEmpty
      else if length key > 200 then Some ErrKeyLong
      else if \<not> key_matches key then Some ErrKeyInvalid
      else None)"

lemma head_tail: "head_char c \<Longrightarrow> tail_char c"
  by (auto simp: head_char_def tail_char_def)

lemma dot_not_head: "\<not> head_char CHR ''.''"
  by (simp add: head_char_def lower_def digit_def less_eq_char_def)

lemma dot_tail: "tail_char CHR ''.''"
  by (simp add: tail_char_def)

lemma key_groups_iff:
  "key_groups g \<longleftrightarrow> g = [] \<or> (hd g = CHR ''.'' \<and> tl g \<noteq> [] \<and> list_all tail_char (tl g))"
proof
  assume "key_groups g"
  then show "g = [] \<or> (hd g = CHR ''.'' \<and> tl g \<noteq> [] \<and> list_all tail_char (tl g))"
  proof induction
    case (group seg rest)
    then have "list_all tail_char rest"
      using dot_tail by (cases rest) auto
    then show ?case using group by simp
  qed simp
next
  assume "g = [] \<or> (hd g = CHR ''.'' \<and> tl g \<noteq> [] \<and> list_all tail_char (tl g))"
  then show "key_groups g"
    using key_groups.group [of "tl g" "[]"] key_groups.none by (cases g) auto
qed

text \<open>The computed matcher decides the pattern.\<close>

lemma key_matches_iff: "key_matches s \<longleftrightarrow> validKeyPattern s"
proof
  assume m: "key_matches s"
  then obtain c cs where s: "s = c # cs" "lower c" by (auto simp: key_matches_def split: list.splits)
  have "cs = takeWhile head_char cs @ dropWhile head_char cs" by simp
  moreover have "list_all head_char (takeWhile head_char cs)"
    by (auto simp: list_all_iff dest: set_takeWhileD)
  moreover have "key_groups (dropWhile head_char cs)"
    using m s unfolding key_groups_iff by (simp add: key_matches_def Let_def)
  ultimately show "validKeyPattern s"
    unfolding validKeyPattern_def using s by blast
next
  assume "validKeyPattern s"
  then obtain c h g where s: "s = c # h @ g" "lower c" "list_all head_char h" "key_groups g"
    by (auto simp: validKeyPattern_def)
  have "dropWhile head_char (h @ g) = dropWhile head_char g"
    using s(3) by (simp add: dropWhile_append list_all_iff)
  also have "\<dots> = g"
    using s(4) dot_not_head by (cases g) (auto simp: key_groups_iff)
  finally have d: "dropWhile head_char (h @ g) = g" .
  show "key_matches s"
    unfolding key_matches_def s(1) list.case Let_def d using s(2,4) key_groups_iff by blast
qed

section \<open>JSON values and token streams\<close>

text \<open>Numbers carry whether they are in the range of a \<^verbatim>\<open>float64\<close>: the decoder fails on the others.\<close>

datatype jvalue =
    SNull
  | SBool bool
  | SNum bool
  | SStr string
  | SArr "jvalue list"
  | SObj "(string \<times> jvalue) list"

datatype jtok = TDelim char | TStr string | TOther | TErr

primrec tokens :: "jvalue \<Rightarrow> jtok list" where
  "tokens SNull = [TOther]"
| "tokens (SBool b) = [TOther]"
| "tokens (SNum fits) = [if fits then TOther else TErr]"
| "tokens (SStr s) = [TStr s]"
| "tokens (SArr vs) = TDelim CHR ''['' # concat (map tokens vs) @ [TDelim CHR '']'']"
| "tokens (SObj kvs) =
     TDelim CHR ''{'' # concat (map (\<lambda>(k, t). TStr k # t) (map (map_prod (\<lambda>k. k) tokens) kvs)) @ [TDelim CHR ''}'']"

definition maxPayloadSize :: nat where "maxPayloadSize = 2 ^ 20"
definition maxNestingDepth :: int where "maxNestingDepth = 20"
definition maxStringLength :: nat where "maxStringLength = 100 * 1024"
definition maxArrayLength :: int where "maxArrayLength = 10000"

text \<open>
  The scan of \<^verbatim>\<open>validateDepth\<close>: the depth, and for each open level the number of elements
  counted so far, or \<open>-1\<close> for an object; the innermost level is the head of the list.
\<close>

definition bump :: "int list \<Rightarrow> int list" where
  "bump st = (case st of c # st' \<Rightarrow> if c \<ge> 0 then (c + 1) # st' else st | [] \<Rightarrow> [])"

definition bump_error :: "int list \<Rightarrow> bool" where
  "bump_error st \<longleftrightarrow> (case st of c # st' \<Rightarrow> c \<ge> 0 \<and> c + 1 > maxArrayLength | [] \<Rightarrow> False)"

fun validateDepth :: "int \<Rightarrow> int list \<Rightarrow> jtok list \<Rightarrow> state_error option" where
  "validateDepth depth st [] = None"
| "validateDepth depth st (TErr # ts) = Some ErrParse"
| "validateDepth depth st (TDelim c # ts) =
     (if c = CHR ''{'' then
        if depth + 1 > maxNestingDepth then Some ErrTooDeep else validateDepth (depth + 1) (- 1 # st) ts
      else if c = CHR ''['' then
        if depth + 1 > maxNestingDepth then Some ErrTooDeep else validateDepth (depth + 1) (0 # st) ts
      else validateDepth (depth - 1) (case st of [] \<Rightarrow> [] | _ # st' \<Rightarrow> st') ts)"
| "validateDepth depth st (TStr s # ts) =
     (if length s > maxStringLength then Some ErrStringLong
      else if bump_error st then Some ErrArrayLong
      else validateDepth depth (bump st) ts)"
| "validateDepth depth st (TOther # ts) =
     (if bump_error st then Some ErrArrayLong else validateDepth depth (bump st) ts)"

fun validateSecrets :: "(string \<Rightarrow> bool) \<Rightarrow> bool \<Rightarrow> jtok list \<Rightarrow> state_error option" where
  "validateSecrets secret isKey [] = None"
| "validateSecrets secret isKey (TErr # ts) = None"
| "validateSecrets secret isKey (TDelim c # ts) = validateSecrets secret (c = CHR ''{'') ts"
| "validateSecrets secret isKey (TStr s # ts) =
     (if isKey then validateSecrets secret False ts
      else if secret s then Some (ErrSecret s)
      else validateSecrets secret False ts)"
| "validateSecrets secret isKey (TOther # ts) = validateSecrets secret False ts"

definition containsSecret :: "(string \<Rightarrow> bool) list \<Rightarrow> string \<Rightarrow> bool" where
  "containsSecret patterns s = list_ex (\<lambda>p. p s) patterns"

record payload =
  pText :: string
  pValue :: "jvalue option"

definition ValidatePayload :: "(string \<Rightarrow> bool) list \<Rightarrow> payload \<Rightarrow> state_error option" where
  "ValidatePayload patterns p =
     (if length (pText p) > maxPayloadSize then Some ErrTooLarge
      else
        (case pValue p of
           None \<Rightarrow> Some ErrInvalidJSON
         | Some v \<Rightarrow>
             (case validateSecrets (containsSecret patterns) False (tokens v) of
                Some e \<Rightarrow> Some e
              | None \<Rightarrow> validateDepth 0 [] (tokens v))))"

section \<open>What the limits mean\<close>

primrec jdepth :: "jvalue \<Rightarrow> nat" where
  "jdepth SNull = 0"
| "jdepth (SBool b) = 0"
| "jdepth (SNum f) = 0"
| "jdepth (SStr s) = 0"
| "jdepth (SArr vs) = Suc (fold max (map jdepth vs) 0)"
| "jdepth (SObj kvs) = Suc (fold max (map snd (map (map_prod (\<lambda>k. k) jdepth) kvs)) 0)"

fun scalar :: "jvalue \<Rightarrow> bool" where
  "scalar (SArr vs) = False"
| "scalar (SObj kvs) = False"
| "scalar v = True"

text \<open>Every string and key within its length, every number readable, at most so many scalar
  elements per array; nested arrays and objects are not counted.\<close>

primrec within_limits :: "jvalue \<Rightarrow> bool" where
  "within_limits SNull = True"
| "within_limits (SBool b) = True"
| "within_limits (SNum fits) = fits"
| "within_limits (SStr s) = (length s \<le> maxStringLength)"
| "within_limits (SArr vs) =
     (list_all (\<lambda>b. b) (map within_limits vs) \<and> int (length (filter scalar vs)) \<le> maxArrayLength)"
| "within_limits (SObj kvs) =
     list_all (\<lambda>(k, b). length k \<le> maxStringLength \<and> b) (map (map_prod (\<lambda>k. k) within_limits) kvs)"

text \<open>The strings the secret check looks at: every string value, and every key but the first of its object.\<close>

primrec checked_strings :: "jvalue \<Rightarrow> string list" where
  "checked_strings SNull = []"
| "checked_strings (SBool b) = []"
| "checked_strings (SNum f) = []"
| "checked_strings (SStr s) = [s]"
| "checked_strings (SArr vs) = concat (map checked_strings vs)"
| "checked_strings (SObj kvs) =
     (case map (map_prod (\<lambda>k. k) checked_strings) kvs of
        [] \<Rightarrow> []
      | (k, ss) # rest \<Rightarrow> ss @ concat (map (\<lambda>(k, ss). k # ss) rest))"

primrec readable :: "jvalue \<Rightarrow> bool" where
  "readable SNull = True"
| "readable (SBool b) = True"
| "readable (SNum fits) = fits"
| "readable (SStr s) = True"
| "readable (SArr vs) = list_all (\<lambda>b. b) (map readable vs)"
| "readable (SObj kvs) = list_all (\<lambda>(k, b). b) (map (map_prod (\<lambda>k. k) readable) kvs)"

lemma within_readable: "within_limits v \<Longrightarrow> readable v"
  by (induction v) (fastforce simp: list_all_iff)+

definition after_value :: "jvalue \<Rightarrow> int list \<Rightarrow> int list" where
  "after_value v st = (if scalar v then bump st else st)"

definition bump_ok :: "jvalue \<Rightarrow> int list \<Rightarrow> bool" where
  "bump_ok v st \<longleftrightarrow> scalar v \<longrightarrow> \<not> bump_error st"

lemma fold_max_le: "d + int (fold max ns a) \<le> b \<longleftrightarrow> d + int a \<le> b \<and> (\<forall>n \<in> set ns. d + int n \<le> b)"
  by (induction ns arbitrary: a) auto

lemma scalar_depth: "scalar v \<Longrightarrow> jdepth v = 0"
  by (cases v) auto

lemma find_append: "find P (xs @ ys) = (case find P xs of None \<Rightarrow> find P ys | Some s \<Rightarrow> Some s)"
  by (induction xs) auto

text \<open>The depth scan reads one value: it passes if the value is within the limits at this depth.\<close>

definition depth_ok :: "int \<Rightarrow> jvalue \<Rightarrow> bool" where
  "depth_ok d v \<longleftrightarrow> (scalar v \<or> d + int (jdepth v) \<le> maxNestingDepth) \<and> within_limits v"

lemma depth_ok_arr:
  "d + 1 \<le> maxNestingDepth \<Longrightarrow> depth_ok d (SArr vs) \<longleftrightarrow>
     (\<forall>v \<in> set vs. depth_ok (d + 1) v) \<and> int (length (filter scalar vs)) \<le> maxArrayLength"
  using fold_max_le [of "d + 1" "map jdepth vs" 0 maxNestingDepth]
  by (auto simp: depth_ok_def list_all_iff scalar_depth algebra_simps)

lemma depth_ok_obj:
  "d + 1 \<le> maxNestingDepth \<Longrightarrow> depth_ok d (SObj kvs) \<longleftrightarrow>
     (\<forall>(k, v) \<in> set kvs. length k \<le> maxStringLength \<and> depth_ok (d + 1) v)"
  using fold_max_le [of "d + 1" "map (jdepth \<circ> snd) kvs" 0 maxNestingDepth]
  by (fastforce simp: depth_ok_def list_all_iff scalar_depth algebra_simps o_def)

lemma bump_obj: "bump (- 1 # st) = - 1 # st" "\<not> bump_error (- 1 # st)"
  by (simp_all add: bump_def bump_error_def)

lemma scan_array:
  assumes IH: "\<And>v rest st. v \<in> set vs \<Longrightarrow>
      validateDepth d st (tokens v @ rest) = None \<longleftrightarrow>
        depth_ok d v \<and> bump_ok v st \<and> validateDepth d (after_value v st) rest = None"
    and c: "0 \<le> c" "c \<le> maxArrayLength"
  shows "validateDepth d (c # st) (concat (map tokens vs) @ rest) = None \<longleftrightarrow>
    (\<forall>v \<in> set vs. depth_ok d v) \<and> c + int (length (filter scalar vs)) \<le> maxArrayLength \<and>
    validateDepth d ((c + int (length (filter scalar vs))) # st) rest = None"
  using IH c
proof (induction vs arbitrary: c)
  case (Cons v vs)
  note v = Cons.prems(1) [of v "c # st" "concat (map tokens vs) @ rest"]
  note vs = Cons.IH [OF Cons.prems(1)]
  show ?case
  proof (cases "scalar v")
    case True
    show ?thesis
    proof (cases "c + 1 \<le> maxArrayLength")
      case ok: True
      have "validateDepth d (c # st) (concat (map tokens (v # vs)) @ rest) = None \<longleftrightarrow>
          depth_ok d v \<and> validateDepth d ((c + 1) # st) (concat (map tokens vs) @ rest) = None"
        using v True ok Cons.prems(2) by (simp add: bump_ok_def bump_error_def after_value_def bump_def)
      then show ?thesis
        using vs [of "c + 1"] True ok Cons.prems(2) by (auto simp: algebra_simps)
    next
      case False
      then have "validateDepth d (c # st) (concat (map tokens (v # vs)) @ rest) \<noteq> None"
        using v True Cons.prems(2) by (simp add: bump_ok_def bump_error_def)
      then show ?thesis using True False by auto
    qed
  next
    case False
    have "validateDepth d (c # st) (concat (map tokens (v # vs)) @ rest) = None \<longleftrightarrow>
        depth_ok d v \<and> validateDepth d (c # st) (concat (map tokens vs) @ rest) = None"
      using v False by (simp add: bump_ok_def after_value_def)
    then show ?thesis
      using vs [of c] False Cons.prems(2,3) by auto
  qed
qed simp

lemma scan_object:
  assumes IH: "\<And>v rest st. v \<in> snd ` set kvs \<Longrightarrow>
      validateDepth d st (tokens v @ rest) = None \<longleftrightarrow>
        depth_ok d v \<and> bump_ok v st \<and> validateDepth d (after_value v st) rest = None"
  shows "validateDepth d (- 1 # st) (concat (map (\<lambda>(k, v). TStr k # tokens v) kvs) @ rest) = None \<longleftrightarrow>
    (\<forall>(k, v) \<in> set kvs. length k \<le> maxStringLength \<and> depth_ok d v) \<and> validateDepth d (- 1 # st) rest = None"
  using IH
proof (induction kvs)
  case (Cons kv kvs)
  obtain k v where kv: "kv = (k, v)" by force
  note v = Cons.prems [of v "- 1 # st" "concat (map (\<lambda>(k, v). TStr k # tokens v) kvs) @ rest"]
  have "validateDepth d (- 1 # st) (tokens v @ concat (map (\<lambda>(k, v). TStr k # tokens v) kvs) @ rest) = None \<longleftrightarrow>
      depth_ok d v \<and> validateDepth d (- 1 # st) (concat (map (\<lambda>(k, v). TStr k # tokens v) kvs) @ rest) = None"
    using v kv by (simp add: bump_ok_def after_value_def bump_obj)
  then show ?case
    using Cons.IH [OF Cons.prems] kv by (auto simp: bump_obj)
qed simp

lemma map_prod_snd: "map (\<lambda>(k, t). TStr k # t) (map (map_prod (\<lambda>k. k) tokens) kvs) = map (\<lambda>(k, v). TStr k # tokens v) kvs"
  by (auto simp: o_def)

lemma validateDepth_value:
  "validateDepth d st (tokens v @ rest) = None \<longleftrightarrow>
     depth_ok d v \<and> bump_ok v st \<and> validateDepth d (after_value v st) rest = None"
proof (induction v arbitrary: d st rest)
  case (SArr vs)
  show ?case
  proof (cases "d + 1 \<le> maxNestingDepth")
    case False
    then show ?thesis by (simp add: depth_ok_def)
  next
    case True
    have "validateDepth d st (tokens (SArr vs) @ rest) = validateDepth (d + 1) (0 # st) (concat (map tokens vs) @ TDelim CHR '']'' # rest)"
      using True by simp
    also have "\<dots> = None \<longleftrightarrow> (\<forall>v \<in> set vs. depth_ok (d + 1) v) \<and> int (length (filter scalar vs)) \<le> maxArrayLength \<and>
        validateDepth d st rest = None"
      using scan_array [of vs "d + 1" 0 st "TDelim CHR '']'' # rest"] SArr by (simp add: maxArrayLength_def)
    also have "\<dots> \<longleftrightarrow> depth_ok d (SArr vs) \<and> validateDepth d st rest = None"
      using depth_ok_arr [OF True] by blast
    finally show ?thesis by (simp add: bump_ok_def after_value_def)
  qed
next
  case (SObj kvs)
  show ?case
  proof (cases "d + 1 \<le> maxNestingDepth")
    case False
    then show ?thesis by (simp add: depth_ok_def)
  next
    case True
    have "validateDepth d st (tokens (SObj kvs) @ rest) =
        validateDepth (d + 1) (- 1 # st) (concat (map (\<lambda>(k, v). TStr k # tokens v) kvs) @ TDelim CHR ''}'' # rest)"
      using True unfolding tokens.simps map_prod_snd by simp
    also have "\<dots> = None \<longleftrightarrow> (\<forall>(k, v) \<in> set kvs. length k \<le> maxStringLength \<and> depth_ok (d + 1) v) \<and> validateDepth d st rest = None"
      using scan_object [of kvs "d + 1" st "TDelim CHR ''}'' # rest"] SObj by fastforce
    also have "\<dots> \<longleftrightarrow> depth_ok d (SObj kvs) \<and> validateDepth d st rest = None"
      using depth_ok_obj [OF True] by blast
    finally show ?thesis by (simp add: bump_ok_def after_value_def)
  qed
qed (auto simp: depth_ok_def bump_ok_def after_value_def)

lemma checked_obj:
  "checked_strings (SObj ((k, v) # r)) = checked_strings v @ concat (map (\<lambda>(k, v). k # checked_strings v) r)"
  by (simp add: o_def) (simp add: case_prod_beta')

text \<open>The secret scan reads one value and leaves the flag down.\<close>

lemma validateSecrets_value:
  "readable v \<Longrightarrow> validateSecrets P False (tokens v @ rest) =
     (case find P (checked_strings v) of Some s \<Rightarrow> Some (ErrSecret s) | None \<Rightarrow> validateSecrets P False rest)"
proof (induction v arbitrary: rest)
  case (SArr vs)
  have "validateSecrets P False (concat (map tokens vs) @ r) =
      (case find P (concat (map checked_strings vs)) of Some s \<Rightarrow> Some (ErrSecret s) | None \<Rightarrow> validateSecrets P False r)"
    if "\<forall>v \<in> set vs. readable v" for r
    using SArr.IH that
  proof (induction vs arbitrary: r)
    case (Cons v vs)
    then show ?case by (auto simp: find_append split: option.split)
  qed simp
  from this [of "TDelim CHR '']'' # rest"] show ?case
    using SArr.prems by (simp add: list_all_iff split: option.split)
next
  case (SObj kvs)
  have r: "\<forall>(k, v) \<in> set kvs. readable v" using SObj.prems by (auto simp: list_all_iff)
  have others: "validateSecrets P False (concat (map (\<lambda>(k, v). TStr k # tokens v) kvs') @ r) =
      (case find P (concat (map (\<lambda>(k, v). k # checked_strings v) kvs')) of
         Some s \<Rightarrow> Some (ErrSecret s) | None \<Rightarrow> validateSecrets P False r)"
    if "set kvs' \<subseteq> set kvs" for kvs' r
    using that
  proof (induction kvs' arbitrary: r)
    case (Cons kv kvs')
    obtain k v where kv: "kv = (k, v)" by force
    have "(k, v) \<in> set kvs" using Cons.prems kv by simp
    then have v: "validateSecrets P False (tokens v @ q) =
        (case find P (checked_strings v) of Some s \<Rightarrow> Some (ErrSecret s) | None \<Rightarrow> validateSecrets P False q)" for q
      using SObj.IH r by fastforce
    show ?case
      using Cons.IH Cons.prems v kv by (auto simp: find_append split: option.split)
  qed simp
  show ?case
  proof (cases kvs)
    case (Cons kv kvs')
    obtain k v where kv: "kv = (k, v)" by force
    have "validateSecrets P False (tokens v @ q) =
        (case find P (checked_strings v) of Some s \<Rightarrow> Some (ErrSecret s) | None \<Rightarrow> validateSecrets P False q)" for q
      using SObj.IH r Cons kv by fastforce
    moreover have "set kvs' \<subseteq> set kvs" using Cons by auto
    note others [OF this, of "TDelim CHR ''}'' # rest"]
    ultimately show ?thesis
      unfolding Cons kv tokens.simps map_prod_snd checked_obj
      by (simp add: find_append split: option.split)
  qed simp
qed (auto)

lemma validateDepth_iff:
  "validateDepth 0 [] (tokens v) = None \<longleftrightarrow> int (jdepth v) \<le> maxNestingDepth \<and> within_limits v"
proof -
  have "validateDepth 0 [] (tokens v) = None \<longleftrightarrow> depth_ok 0 v"
    using validateDepth_value [of 0 "[]" v "[]"] by (simp add: bump_ok_def bump_error_def)
  also have "\<dots> \<longleftrightarrow> int (jdepth v) \<le> maxNestingDepth \<and> within_limits v"
    using scalar_depth [of v] by (auto simp: depth_ok_def maxNestingDepth_def)
  finally show ?thesis .
qed

lemma validateSecrets_iff:
  "readable v \<Longrightarrow> validateSecrets P False (tokens v) = None \<longleftrightarrow> (\<forall>s \<in> set (checked_strings v). \<not> P s)"
  using validateSecrets_value [of v P "[]"] by (auto simp: find_None_iff find_Some_iff split: option.splits)

lemma ValidatePayload_None:
  "ValidatePayload patterns p = None \<longleftrightarrow>
     length (pText p) \<le> maxPayloadSize \<and>
     (\<exists>v. pValue p = Some v \<and> validateSecrets (containsSecret patterns) False (tokens v) = None \<and>
       validateDepth 0 [] (tokens v) = None)"
  by (auto simp: ValidatePayload_def split: option.splits)

text \<open>What the streaming checks accept, exactly.\<close>

lemma ValidatePayload_accepts_iff:
  "ValidatePayload patterns p = None \<longleftrightarrow>
     length (pText p) \<le> maxPayloadSize \<and>
     (\<exists>v. pValue p = Some v \<and> int (jdepth v) \<le> maxNestingDepth \<and> within_limits v \<and>
       \<not> list_ex (containsSecret patterns) (checked_strings v))"
  unfolding ValidatePayload_None validateDepth_iff list_ex_iff using within_readable validateSecrets_iff by blast

text \<open>An array of any number of objects passes; an object's first key is never looked at.\<close>

lemma nested_elements_uncounted:
  assumes "length (pText p) \<le> maxPayloadSize" "pValue p = Some (SArr (replicate n (SObj [(k, SNull)])))"
    "length k \<le> maxStringLength"
  shows "ValidatePayload patterns p = None"
proof -
  let ?v = "SArr (replicate n (SObj [(k, SNull)]))"
  have "\<forall>x \<in> set (map jdepth (replicate n (SObj [(k, SNull)]))). 0 + int x \<le> 1" by simp
  then have "0 + int (fold max (map jdepth (replicate n (SObj [(k, SNull)]))) 0) \<le> 1"
    unfolding fold_max_le by simp
  then have "int (jdepth ?v) \<le> maxNestingDepth" by (simp add: maxNestingDepth_def)
  moreover have "within_limits ?v" using assms(3) by (simp add: list_all_iff maxArrayLength_def)
  moreover have "checked_strings ?v = []" by simp
  ultimately show ?thesis
    using assms(1,2) within_readable [of ?v] validateSecrets_iff [of ?v]
    unfolding ValidatePayload_None validateDepth_iff by auto
qed

section \<open>The documented limits\<close>

text \<open>
  The limits of \<^verbatim>\<open>agents/architecture.md\<close>: string values up to 100 KB, object keys up to 1000
  bytes, arrays up to 10000 elements of any kind; a number fits in a \<^verbatim>\<open>float64\<close>.
\<close>

primrec documented :: "jvalue \<Rightarrow> bool" where
  "documented SNull = True"
| "documented (SBool b) = True"
| "documented (SNum fits) = fits"
| "documented (SStr s) = (length s \<le> 102400)"
| "documented (SArr vs) = (list_all (\<lambda>b. b) (map documented vs) \<and> length vs \<le> 10000)"
| "documented (SObj kvs) = list_all (\<lambda>(k, b). length k \<le> 1000 \<and> b) (map (map_prod (\<lambda>k. k) documented) kvs)"

primrec string_values :: "jvalue \<Rightarrow> string list" where
  "string_values SNull = []"
| "string_values (SBool b) = []"
| "string_values (SNum f) = []"
| "string_values (SStr s) = [s]"
| "string_values (SArr vs) = concat (map string_values vs)"
| "string_values (SObj kvs) = concat (map snd (map (map_prod (\<lambda>k. k) string_values) kvs))"

primrec object_keys :: "jvalue \<Rightarrow> string list" where
  "object_keys SNull = []"
| "object_keys (SBool b) = []"
| "object_keys (SNum f) = []"
| "object_keys (SStr s) = []"
| "object_keys (SArr vs) = concat (map object_keys vs)"
| "object_keys (SObj kvs) = concat (map (\<lambda>(k, ks). k # ks) (map (map_prod (\<lambda>k. k) object_keys) kvs))"

text \<open>All arrays of a value, itself included.\<close>

primrec arrays :: "jvalue \<Rightarrow> jvalue list list" where
  "arrays SNull = []"
| "arrays (SBool b) = []"
| "arrays (SNum f) = []"
| "arrays (SStr s) = []"
| "arrays (SArr vs) = vs # concat (map arrays vs)"
| "arrays (SObj kvs) = concat (map snd (map (map_prod (\<lambda>k. k) arrays) kvs))"

lemma documented_within: "documented v \<Longrightarrow> within_limits v"
proof (induction v)
  case (SArr vs)
  then have "length (filter scalar vs) \<le> 10000" by (auto intro: order_trans [OF length_filter_le])
  with SArr show ?case by (auto simp: list_all_iff maxArrayLength_def)
next
  case (SObj kvs)
  then show ?case by (fastforce simp: list_all_iff maxStringLength_def)
qed (simp_all add: maxStringLength_def)

lemma within_bounded:
  "within_limits v \<Longrightarrow> (\<forall>s \<in> set (string_values v) \<union> set (object_keys v). length s \<le> 102400) \<and>
     (\<forall>a \<in> set (arrays v). length (filter scalar a) \<le> 10000)"
proof (induction v)
  case (SArr vs)
  then show ?case by (fastforce simp: list_all_iff maxArrayLength_def)
next
  case (SObj kvs)
  then show ?case by (fastforce simp: list_all_iff maxStringLength_def)
qed (simp_all add: maxStringLength_def)

lemma values_checked: "set (string_values v) \<subseteq> set (checked_strings v)"
proof (induction v)
  case (SObj kvs)
  then have IH: "set (string_values (snd kv)) \<subseteq> set (checked_strings (snd kv))" if "kv \<in> set kvs" for kv
    using that by (cases kv) fastforce
  then show ?case
  proof (cases kvs)
    case (Cons kv r)
    obtain k v where kv: "kv = (k, v)" by force
    have "set (string_values v) \<subseteq> set (checked_strings v)" using IH [of "(k, v)"] Cons kv by simp
    moreover have "set (string_values w) \<subseteq> set (checked_strings w)" if "(l, w) \<in> set r" for l w
      using IH [of "(l, w)"] Cons that by simp
    ultimately show ?thesis unfolding Cons kv checked_obj by (fastforce simp: o_def)
  qed simp
qed fastforce+

lemma checked_known: "set (checked_strings v) \<subseteq> set (string_values v) \<union> set (object_keys v)"
proof (induction v)
  case (SObj kvs)
  then have IH: "set (checked_strings (snd kv)) \<subseteq> set (string_values (snd kv)) \<union> set (object_keys (snd kv))" if "kv \<in> set kvs" for kv
    using that by (cases kv) fastforce
  then show ?case
  proof (cases kvs)
    case (Cons kv r)
    obtain k v where kv: "kv = (k, v)" by force
    have "set (checked_strings v) \<subseteq> set (string_values v) \<union> set (object_keys v)" using IH [of "(k, v)"] Cons kv by simp
    moreover have "set (checked_strings w) \<subseteq> set (string_values w) \<union> set (object_keys w)" if "(l, w) \<in> set r" for l w
      using IH [of "(l, w)"] Cons that by simp
    ultimately show ?thesis unfolding Cons kv checked_obj by (fastforce simp: o_def)
  qed simp
qed fastforce+

text \<open>
  C28. Payload validation against the documented limits. Every payload of at most 1 MB, at most
  twenty levels deep, within the documented limits for strings, keys and arrays and without a
  string value or key that looks like a secret is accepted. Whatever is accepted is at
  most 1 MB of valid JSON at most twenty levels deep, no string value of it at any depth looks
  like a secret, no string value or key is longer than 100 KB and no array has more than 10000
  scalar elements. The documented 1000 bytes for keys and the limit on arrays of arrays or objects
  are not enforced (\<open>nested_elements_uncounted\<close>, \<open>long_key_accepted\<close>).
\<close>

theorem ValidatePayload_contract:
  "(length (pText p) \<le> 1048576 \<and> pValue p = Some v \<and> jdepth v \<le> 20 \<and> documented v \<and>
     (\<forall>s \<in> set (string_values v) \<union> set (object_keys v). \<not> containsSecret patterns s) \<longrightarrow>
     ValidatePayload patterns p = None) \<and>
   (ValidatePayload patterns p = None \<longrightarrow>
     length (pText p) \<le> 1048576 \<and>
     (\<exists>w. pValue p = Some w \<and> jdepth w \<le> 20 \<and> (\<forall>s \<in> set (string_values w). \<not> containsSecret patterns s) \<and>
        (\<forall>s \<in> set (string_values w) \<union> set (object_keys w). length s \<le> 102400) \<and>
        (\<forall>a \<in> set (arrays w). length (filter scalar a) \<le> 10000)))"
proof -
  have sz: "maxPayloadSize = 1048576" by (simp add: maxPayloadSize_def)
  have dp: "int (jdepth w) \<le> maxNestingDepth \<longleftrightarrow> jdepth w \<le> 20" for w by (simp add: maxNestingDepth_def)
  have "\<not> list_ex (containsSecret patterns) (checked_strings w) \<longleftrightarrow> (\<forall>s \<in> set (checked_strings w). \<not> containsSecret patterns s)" for w
    by (simp add: list_ex_iff)
  note iff = ValidatePayload_accepts_iff [of patterns p, unfolded sz dp this]
  show ?thesis
    unfolding iff using documented_within within_bounded values_checked checked_known by blast
qed

text \<open>A nested payload within the limits is accepted, one with a secret deep inside is not.\<close>

definition sample_payload :: "string \<Rightarrow> payload" where
  "sample_payload s = \<lparr>pText = ''...'', pValue = Some (SObj [(''a'', SArr [SNum True, SObj [(''b'', SStr s)]])])\<rparr>"

theorem ValidatePayload_contract_witness:
  "ValidatePayload [\<lambda>s. take 3 s = ''sk-''] (sample_payload ''plain'') = None \<and>
   ValidatePayload [\<lambda>s. take 3 s = ''sk-''] (sample_payload ''sk-1'') \<noteq> None"
  using ValidatePayload_contract [of "sample_payload ''plain''"
      "SObj [(''a'', SArr [SNum True, SObj [(''b'', SStr ''plain'')]])]" "[\<lambda>s. take 3 s = ''sk-'']"]
    ValidatePayload_contract [of "sample_payload ''sk-1''" SNull "[\<lambda>s. take 3 s = ''sk-'']"]
  by (auto simp: sample_payload_def containsSecret_def)

text \<open>A key of any length up to 100 KB passes.\<close>

lemma long_key_accepted:
  assumes "length (pText p) \<le> maxPayloadSize" "pValue p = Some (SObj [(k, SNull)])" "length k \<le> maxStringLength"
  shows "ValidatePayload patterns p = None"
  unfolding ValidatePayload_accepts_iff using assms by (simp add: maxNestingDepth_def)

section \<open>The table\<close>

record state_entry =
  stKey :: string
  stScope :: string
  stPayload :: string
  stUpdated :: int
  stExpires :: "int option"

type_synonym state_table = "state_entry list"

definition state_at :: "string \<Rightarrow> string \<Rightarrow> state_entry \<Rightarrow> bool" where
  "state_at key scope r \<longleftrightarrow> stKey r = key \<and> stScope r = scope"

definition fresh :: "int \<Rightarrow> state_entry \<Rightarrow> bool" where
  "fresh now r \<longleftrightarrow> (case stExpires r of None \<Rightarrow> True | Some t \<Rightarrow> t > now)"

text \<open>\<^verbatim>\<open>INSERT OR REPLACE\<close> deletes the row of the key and appends the new one. Times are seconds,
  the time to live nanoseconds.\<close>

definition Set :: "(string \<Rightarrow> bool) list \<Rightarrow> int \<Rightarrow> string \<Rightarrow> string \<Rightarrow> payload \<Rightarrow> int \<Rightarrow> state_table
    \<Rightarrow> state_error + state_table" where
  "Set patterns now key scope p ttl rows =
     (case ValidateKey key of
        Some e \<Rightarrow> Inl e
      | None \<Rightarrow>
          (case ValidatePayload patterns p of
             Some e \<Rightarrow> Inl e
           | None \<Rightarrow>
               let seconds = ttl div 1000000000
               in if ttl > 0 \<and> seconds < 1 then Inl ErrTTL
                  else
                    Inr (filter (\<lambda>r. \<not> state_at key scope r) rows @
                         [\<lparr>stKey = key, stScope = scope, stPayload = pText p, stUpdated = now,
                           stExpires = (if ttl > 0 then Some (now + seconds) else None)\<rparr>])))"

definition Get :: "int \<Rightarrow> string \<Rightarrow> string \<Rightarrow> state_table \<Rightarrow> state_error + string" where
  "Get now key scope rows =
     (case sql_first (\<lambda>r. state_at key scope r \<and> fresh now r) rows of
        None \<Rightarrow> Inl ErrStateNotFound
      | Some r \<Rightarrow> Inr (stPayload r))"

definition Delete :: "string \<Rightarrow> string \<Rightarrow> state_table \<Rightarrow> bool \<times> state_table" where
  "Delete key scope rows =
     (rows_affected (state_at key scope) rows > 0, filter (\<lambda>r. \<not> state_at key scope r) rows)"

definition ListState :: "int \<Rightarrow> string \<Rightarrow> state_table \<Rightarrow> string list" where
  "ListState now key rows = sort (map stScope (filter (\<lambda>r. stKey r = key \<and> fresh now r) rows))"

definition IsDurable :: "string \<Rightarrow> string \<Rightarrow> state_table \<Rightarrow> bool" where
  "IsDurable key scope rows =
     (case sql_first (state_at key scope) rows of None \<Rightarrow> False | Some r \<Rightarrow> stExpires r = None)"

definition PruneState :: "int \<Rightarrow> state_table \<Rightarrow> nat \<times> state_table" where
  "PruneState now rows =
     (let gone = (\<lambda>r. case stExpires r of None \<Rightarrow> False | Some t \<Rightarrow> t \<le> now)
      in (rows_affected gone rows, filter (\<lambda>r. \<not> gone r) rows))"

lemma sql_first_filter: "sql_first P (filter Q rows) = sql_first (\<lambda>r. P r \<and> Q r) rows"
  by (induction rows) auto

lemma sql_first_cong: "(\<And>r. P r = Q r) \<Longrightarrow> sql_first P rows = sql_first Q rows"
  by presburger

text \<open>What a read returns after a write, until it expires; other keys are not touched.\<close>

lemma Get_Set:
  assumes "Set patterns now key scope p ttl rows = Inr rows'"
  shows "Get t key scope rows' = (if ttl > 0 \<and> t \<ge> now + ttl div 1000000000 then Inl ErrStateNotFound else Inr (pText p))"
    and "(k, sc) \<noteq> (key, scope) \<Longrightarrow> Get t k sc rows' = Get t k sc rows"
proof -
  obtain new where new: "rows' = filter (\<lambda>r. \<not> state_at key scope r) rows @ [new]"
      "stKey new = key" "stScope new = scope" "stPayload new = pText p"
      "stExpires new = (if ttl > 0 then Some (now + ttl div 1000000000) else None)"
    using assms by (auto simp: Set_def Let_def split: option.splits if_splits)
  have "sql_first (\<lambda>r. state_at key scope r \<and> fresh t r) (filter (\<lambda>r. \<not> state_at key scope r) rows) = None"
    unfolding sql_first_None by auto
  then show "Get t key scope rows' = (if ttl > 0 \<and> t \<ge> now + ttl div 1000000000 then Inl ErrStateNotFound else Inr (pText p))"
    using new by (simp add: Get_def sql_first_append state_at_def fresh_def)
  assume o: "(k, sc) \<noteq> (key, scope)"
  have "sql_first (\<lambda>r. state_at k sc r \<and> fresh t r) (filter (\<lambda>r. \<not> state_at key scope r) rows) =
      sql_first (\<lambda>r. state_at k sc r \<and> fresh t r) rows"
    unfolding sql_first_filter by (rule sql_first_cong) (use o in \<open>auto simp: state_at_def\<close>)
  then show "Get t k sc rows' = Get t k sc rows"
    using new o by (auto simp: Get_def sql_first_append state_at_def split: option.split)
qed

lemma Set_accepts:
  "ValidateKey key = None \<Longrightarrow> ValidatePayload patterns p = None \<Longrightarrow> ttl = 0 \<or> ttl \<ge> 1000000000 \<Longrightarrow>
   \<exists>rows'. Set patterns now key scope p ttl rows = Inr rows'"
  by (auto simp: Set_def Let_def)

lemma Get_Delete:
  "Get t key scope (snd (Delete key scope rows)) = Inl ErrStateNotFound"
proof -
  have "sql_first (\<lambda>r. state_at key scope r \<and> fresh t r) (filter (\<lambda>r. \<not> state_at key scope r) rows) = None"
    unfolding sql_first_None by auto
  then show ?thesis by (simp add: Get_def Delete_def)
qed

lemma Prune_keeps_fresh: "now \<le> t \<Longrightarrow> Get t key scope (snd (PruneState now rows)) = Get t key scope rows"
  unfolding Get_def PruneState_def Let_def snd_conv sql_first_filter
  by (rule arg_cong [where f = "case_option _ _"], rule sql_first_cong) (auto simp: fresh_def split: option.splits)

text \<open>Nothing the table holds is a secret or beyond the limits: every stored text was accepted.\<close>

definition table_accepted :: "(string \<Rightarrow> bool) list \<Rightarrow> state_table \<Rightarrow> bool" where
  "table_accepted patterns rows \<longleftrightarrow>
     distinct (map (\<lambda>r. (stKey r, stScope r)) rows) \<and>
     (\<forall>r \<in> set rows. ValidateKey (stKey r) = None \<and> (\<exists>p. pText p = stPayload r \<and> ValidatePayload patterns p = None))"

lemma table_accepted_filter: "table_accepted patterns rows \<Longrightarrow> table_accepted patterns (filter P rows)"
  by (auto simp: table_accepted_def distinct_map inj_on_def)

lemma table_accepted_Set:
  assumes t: "table_accepted patterns rows" and s: "Set patterns now key scope p ttl rows = Inr rows'"
  shows "table_accepted patterns rows'"
proof -
  obtain new where new: "rows' = filter (\<lambda>r. \<not> state_at key scope r) rows @ [new]"
      "stKey new = key" "stScope new = scope" "stPayload new = pText p"
      "ValidateKey key = None" "ValidatePayload patterns p = None"
    using s by (auto simp: Set_def Let_def split: option.splits if_splits)
  then show ?thesis
    using table_accepted_filter [OF t, of "\<lambda>r. \<not> state_at key scope r"]
    by (auto simp: table_accepted_def state_at_def)
qed

end
