(* ===== verification/Budget.thy ===== *)
theory Budget
  imports StateStore Dispatch
begin

text \<open>
  Token budgets of runs, \<^verbatim>\<open>internal/budget\<close>: the checker that warns and reports once per
  run, with its flags in the state store; budgets that compose; and the reconciliation
  of reported with billed tokens. Recording an event is the list of recorded events.
\<close>

section \<open>The checker\<close>

definition EventBudgetWarning :: string where [const_defs]: "EventBudgetWarning = ''budget.warning''"
definition EventBudgetExceeded :: string where [const_defs]: "EventBudgetExceeded = ''budget.exceeded''"

record budget_result =
  brRunID :: string
  brBudget :: int
  brUsed :: int
  brWarnPct :: int
  brWarning :: bool
  brExceeded :: bool

text \<open>Division of \<^verbatim>\<open>int64\<close> truncates.\<close>

definition div_trunc :: "int \<Rightarrow> int \<Rightarrow> int" where
  "div_trunc a b = sgn a * sgn b * (\<bar>a\<bar> div \<bar>b\<bar>)"

text \<open>The payload of a flag: \<^verbatim>\<open>{"used":n}\<close>.\<close>

definition used_payload :: "int \<Rightarrow> payload" where
  "used_payload used =
     \<lparr>pText = CHR ''{'' # CHR 0x22 # ''used'' @ [CHR 0x22, CHR '':''] @ dec (int64 used) @ ''}'',
      pValue = Some (SObj [(''used'', SNum True)])\<rparr>"

definition flagExists :: "int \<Rightarrow> string \<Rightarrow> string \<Rightarrow> state_table \<Rightarrow> bool" where
  "flagExists now key scope st = (case Get now key scope st of Inl _ \<Rightarrow> False | Inr _ \<Rightarrow> True)"

text \<open>A failed write of the flag is ignored.\<close>

definition setFlag :: "(string \<Rightarrow> bool) list \<Rightarrow> int \<Rightarrow> string \<Rightarrow> string \<Rightarrow> int \<Rightarrow> state_table \<Rightarrow> state_table" where
  "setFlag patterns now key scope used st =
     (case Set patterns now key scope (used_payload used) 0 st of Inl _ \<Rightarrow> st | Inr st' \<Rightarrow> st')"

text \<open>One threshold: whether it is reported now, and the state afterwards.\<close>

definition report_once :: "(string \<Rightarrow> bool) list \<Rightarrow> int \<Rightarrow> string \<Rightarrow> string \<Rightarrow> int \<Rightarrow> bool \<Rightarrow> state_table \<Rightarrow> bool \<times> state_table" where
  "report_once patterns now key runID used crossed st =
     (if crossed \<and> \<not> flagExists now key runID st then (True, setFlag patterns now key runID used st) else (False, st))"

definition Check :: "(string \<Rightarrow> bool) list \<Rightarrow> int \<Rightarrow> (string \<Rightarrow> run option) \<Rightarrow> dispatch_db \<Rightarrow> string \<Rightarrow> state_table
    \<Rightarrow> budget_result option \<times> state_table \<times> (string \<times> string) list" where
  "Check patterns now getRun d runID st =
     (case getRun runID of
        None \<Rightarrow> (None, st, [])
      | Some r \<Rightarrow>
          (case rTokenBudget r of
             None \<Rightarrow> (None, st, [])
           | Some budget \<Rightarrow>
               if budget \<le> 0 then (None, st, [])
               else
                 let (tin, tout, _) = AggregateTokens d runID;
                     used = int64 (tin + tout);
                     warnThreshold = div_trunc (int64 (budget * rBudgetWarnPct r)) 100;
                     (w, st1) = report_once patterns now EventBudgetWarning runID used
                                  (used \<ge> warnThreshold \<and> warnThreshold > 0) st;
                     (x, st2) = report_once patterns now EventBudgetExceeded runID used (used \<ge> budget) st1
                 in (Some \<lparr>brRunID = runID, brBudget = budget, brUsed = used, brWarnPct = rBudgetWarnPct r,
                           brWarning = w, brExceeded = x\<rparr>, st2,
                     (if w then [(runID, EventBudgetWarning)] else []) @ (if x then [(runID, EventBudgetExceeded)] else []))))"

section \<open>Flags\<close>

lemma dec_nat_length: "n < 10 ^ k \<Longrightarrow> 0 < k \<Longrightarrow> length (dec_nat n) \<le> k"
proof (induction n arbitrary: k rule: dec_nat.induct)
  case (1 n)
  show ?case
  proof (cases "n < 10")
    case True
    then show ?thesis using 1 by (subst dec_nat.simps) simp
  next
    case False
    then obtain j where k: "k = Suc j" "0 < j" using 1(2,3) by (cases k; cases "k = 1") auto
    then have "n div 10 < 10 ^ j" using 1(2) by (simp add: less_mult_imp_div_less mult.commute)
    then have "length (dec_nat (n div 10)) \<le> j" using 1(1) False k by simp
    then show ?thesis using False k by (subst dec_nat.simps) simp
  qed
qed

lemma dec_int64_length: "length (dec (int64 x)) \<le> 20"
proof -
  have b: "- (2 ^ 63) \<le> int64 x" "int64 x < 2 ^ 63" by (simp_all add: int64_def)
  have "nat \<bar>int64 x\<bar> < 10 ^ 19" using b by auto
  then have "length (dec_nat (nat \<bar>int64 x\<bar>)) \<le> 19" by (rule dec_nat_length) simp
  then show ?thesis by (simp add: dec_def abs_if split: if_splits)
qed

lemma used_payload_ok: "ValidatePayload patterns (used_payload used) = None"
proof -
  have "length (pText (used_payload used)) \<le> maxPayloadSize"
    using dec_int64_length [of used] by (simp add: used_payload_def maxPayloadSize_def)
  moreover have "validateDepth 0 [] (tokens (SObj [(''used'', SNum True)])) = None"
    unfolding validateDepth_iff by (simp add: maxNestingDepth_def maxStringLength_def)
  moreover have "validateSecrets P False (tokens (SObj [(''used'', SNum True)])) = None" for P
    by simp
  ultimately show ?thesis
    unfolding ValidatePayload_None by (simp add: used_payload_def)
qed

lemma budget_keys_ok: "ValidateKey EventBudgetWarning = None" "ValidateKey EventBudgetExceeded = None"
  by (simp_all add: const_defs) code_simp+

text \<open>
  The contract between the checker and its store: a raised flag stays up, and raising
  one does not touch another.
\<close>

locale flag_store =
  fixes up :: "'s \<Rightarrow> 'k \<Rightarrow> bool"
    and raise :: "'k \<Rightarrow> 's \<Rightarrow> 's"
    and usable :: "'k \<Rightarrow> bool"
  assumes up_raise: "usable k \<Longrightarrow> up (raise k s) k' \<longleftrightarrow> k' = k \<or> up s k'"
begin

definition report :: "'k \<Rightarrow> bool \<Rightarrow> 's \<Rightarrow> bool \<times> 's" where
  "report k crossed s = (if crossed \<and> \<not> up s k then (True, raise k s) else (False, s))"

lemma report_up: "usable k \<Longrightarrow> report k c s = (b, s') \<Longrightarrow> up s' k' \<longleftrightarrow> up s k' \<or> (b \<and> k' = k)"
  by (auto simp: report_def up_raise split: if_splits)

lemma report_new: "report k c s = (True, s') \<Longrightarrow> c \<and> \<not> up s k"
  by (auto simp: report_def split: if_splits)

lemma report_again: "usable k \<Longrightarrow> report k c s = (True, s') \<Longrightarrow> report k c' s' = (False, s')"
  by (auto simp: report_def up_raise split: if_splits)

end

definition flag_up :: "int \<Rightarrow> state_table \<Rightarrow> string \<times> string \<Rightarrow> bool" where
  "flag_up now st k = flagExists now (fst k) (snd k) st"

definition raise_flag :: "(string \<Rightarrow> bool) list \<Rightarrow> int \<Rightarrow> int \<Rightarrow> string \<times> string \<Rightarrow> state_table \<Rightarrow> state_table" where
  "raise_flag patterns now used k st = setFlag patterns now (fst k) (snd k) used st"

definition budget_key :: "string \<times> string \<Rightarrow> bool" where
  "budget_key k \<longleftrightarrow> fst k \<in> {EventBudgetWarning, EventBudgetExceeded}"

lemma flag_after_set:
  assumes "ValidateKey key = None"
  shows "flagExists t k sc (setFlag patterns now key scope used st) \<longleftrightarrow> (k, sc) = (key, scope) \<or> flagExists t k sc st"
proof -
  obtain st' where s: "Set patterns now key scope (used_payload used) 0 st = Inr st'"
    using Set_accepts [OF assms used_payload_ok] by blast
  show ?thesis
    using Get_Set(1) [OF s, of t] Get_Set(2) [OF s, of k sc t]
    by (cases "k = key \<and> sc = scope") (auto simp: flagExists_def setFlag_def s)
qed

interpretation flags: flag_store "flag_up t" "raise_flag patterns now used" budget_key for t patterns now used
proof
  fix k s k' assume "budget_key k"
  then have "ValidateKey (fst k) = None" using budget_keys_ok by (auto simp: budget_key_def)
  then show "flag_up t (raise_flag patterns now used k s) k' \<longleftrightarrow> k' = k \<or> flag_up t s k'"
    by (cases k'; cases k) (auto simp: flag_up_def raise_flag_def flag_after_set)
qed

lemma report_once_eq:
  "report_once patterns now key runID used c st =
     flags.report now patterns now used (key, runID) c st"
  by (simp add: report_once_def flags.report_def flag_up_def raise_flag_def)

section \<open>Each threshold is reported once\<close>

text \<open>
  Checks of any runs at any times over changing dispatch tables, while other users write,
  delete and prune the state under other keys. Events are listed in order.
\<close>

inductive budget_history :: "(string \<Rightarrow> bool) list \<Rightarrow> state_table \<Rightarrow> (string \<times> string) list \<Rightarrow> bool" for patterns where
  start: "budget_history patterns [] []"
| check: "budget_history patterns st evs \<Longrightarrow> Check patterns now getRun d runID st = (res, st', es) \<Longrightarrow>
    budget_history patterns st' (evs @ es)"
| set: "budget_history patterns st evs \<Longrightarrow> \<not> budget_key (key, scope) \<Longrightarrow>
    Set patterns now key scope p ttl st = Inr st' \<Longrightarrow> budget_history patterns st' evs"
| delete: "budget_history patterns st evs \<Longrightarrow> \<not> budget_key (key, scope) \<Longrightarrow>
    budget_history patterns (snd (Delete key scope st)) evs"
| prune: "budget_history patterns st evs \<Longrightarrow> budget_history patterns (snd (PruneState now st)) evs"

text \<open>Every event is backed by a flag without expiry.\<close>

definition flag_kept :: "state_table \<Rightarrow> string \<times> string \<Rightarrow> bool" where
  "flag_kept st k \<longleftrightarrow> (\<exists>r \<in> set st. state_at (fst k) (snd k) r \<and> stExpires r = None)"

definition backed :: "state_table \<Rightarrow> (string \<times> string) list \<Rightarrow> bool" where
  "backed st evs \<longleftrightarrow> distinct evs \<and> (\<forall>(run, ev) \<in> set evs. budget_key (ev, run) \<and> flag_kept st (ev, run))"

lemma flag_kept_up: "flag_kept st (key, scope) \<Longrightarrow> flagExists now key scope st"
proof -
  assume "flag_kept st (key, scope)"
  then have "sql_first (\<lambda>r. state_at key scope r \<and> fresh now r) st \<noteq> None"
    unfolding flag_kept_def sql_first_None by (auto simp: fresh_def)
  then show ?thesis by (auto simp: flagExists_def Get_def)
qed

lemma Set_row:
  "Set patterns now key scope p ttl st = Inr st' \<Longrightarrow>
   \<exists>r. st' = filter (\<lambda>r. \<not> state_at key scope r) st @ [r] \<and> state_at key scope r \<and> (ttl = 0 \<longrightarrow> stExpires r = None)"
  by (auto simp: Set_def Let_def state_at_def split: option.splits if_splits)

lemma flag_kept_set:
  assumes "Set patterns now key scope p ttl st = Inr st'"
  shows "flag_kept st k \<Longrightarrow> k \<noteq> (key, scope) \<Longrightarrow> flag_kept st' k"
    and "ttl = 0 \<Longrightarrow> flag_kept st' (key, scope)"
proof -
  obtain r where r: "st' = filter (\<lambda>r. \<not> state_at key scope r) st @ [r]" "state_at key scope r"
      "ttl = 0 \<longrightarrow> stExpires r = None"
    using Set_row [OF assms] by blast
  show "ttl = 0 \<Longrightarrow> flag_kept st' (key, scope)" using r by (auto simp: flag_kept_def)
  show "flag_kept st k \<Longrightarrow> k \<noteq> (key, scope) \<Longrightarrow> flag_kept st' k"
    unfolding flag_kept_def r(1) by (cases k) (auto simp: state_at_def)
qed

lemma flag_kept_setFlag:
  assumes "budget_key (key, scope)"
  shows "flag_kept (setFlag patterns now key scope used st) k \<longleftrightarrow> k = (key, scope) \<or> flag_kept st k"
proof -
  have "ValidateKey key = None" using assms budget_keys_ok by (auto simp: budget_key_def)
  then obtain st' where s: "Set patterns now key scope (used_payload used) 0 st = Inr st'"
    using Set_accepts [OF _ used_payload_ok] by blast
  obtain r where r: "st' = filter (\<lambda>r. \<not> state_at key scope r) st @ [r]" "state_at key scope r" "stExpires r = None"
    using Set_row [OF s] by blast
  show ?thesis
    unfolding setFlag_def s sum.case flag_kept_def r(1)
    using r(2,3) by (cases k) (auto simp: state_at_def)
qed

lemma report_once_cases:
  assumes "budget_key (key, runID)" "report_once patterns now key runID used c st = (w, st')"
  shows "flag_kept st' k \<longleftrightarrow> flag_kept st k \<or> (w \<and> k = (key, runID))" "w \<Longrightarrow> c \<and> \<not> flag_kept st (key, runID)"
  using assms(2) flag_kept_setFlag [OF assms(1)] flag_kept_up [of st key runID now]
  by (cases k; auto simp: report_once_def split: if_splits)+

lemma budget_keys_distinct [simp]: "EventBudgetExceeded \<noteq> EventBudgetWarning" "EventBudgetWarning \<noteq> EventBudgetExceeded"
  "budget_key (EventBudgetWarning, r)" "budget_key (EventBudgetExceeded, r)"
  by (simp_all add: const_defs budget_key_def)

lemma Check_cases:
  assumes "Check patterns now getRun d runID st = (res, st', es)"
  obtains (none) "st' = st" "es = []" "res = None"
  | (some) r budget used w x st1 where
      "getRun runID = Some r" "rTokenBudget r = Some budget" "0 < budget"
      "used = int64 (fst (AggregateTokens d runID) + fst (snd (AggregateTokens d runID)))"
      "report_once patterns now EventBudgetWarning runID used
         (used \<ge> div_trunc (int64 (budget * rBudgetWarnPct r)) 100 \<and>
          div_trunc (int64 (budget * rBudgetWarnPct r)) 100 > 0) st = (w, st1)"
      "report_once patterns now EventBudgetExceeded runID used (used \<ge> budget) st1 = (x, st')"
      "es = (if w then [(runID, EventBudgetWarning)] else []) @ (if x then [(runID, EventBudgetExceeded)] else [])"
  using assms by (auto simp: Check_def Let_def split: option.splits if_splits prod.splits)

lemma backed_check:
  assumes b: "backed st evs" and c: "Check patterns now getRun d runID st = (res, st', es)"
  shows "backed st' (evs @ es)"
  using c
proof (cases rule: Check_cases)
  case none
  then show ?thesis using b by simp
next
  case (some r budget used w x st1)
  note 1 = report_once_cases [OF _ some(5)] and 2 = report_once_cases [OF _ some(6)]
  have k1: "flag_kept st1 k \<longleftrightarrow> flag_kept st k \<or> (w \<and> k = (EventBudgetWarning, runID))" for k using 1(1) by simp
  have k2: "flag_kept st' k \<longleftrightarrow> flag_kept st1 k \<or> (x \<and> k = (EventBudgetExceeded, runID))" for k using 2(1) by simp
  have "w \<Longrightarrow> (runID, EventBudgetWarning) \<notin> set evs" "x \<Longrightarrow> (runID, EventBudgetExceeded) \<notin> set evs"
    using b 1(2) 2(2) k1 by (auto simp: backed_def)
  then show ?thesis
    using b k1 k2 by (auto simp: backed_def some(7))
qed

lemma backed_history: "budget_history patterns st evs \<Longrightarrow> backed st evs"
proof (induction rule: budget_history.induct)
  case start
  then show ?case by (simp add: backed_def)
next
  case (check st evs now getRun d runID res st' es)
  then show ?case using backed_check by blast
next
  case (set st evs key scope now p ttl st')
  then show ?case using flag_kept_set(1) [OF set.hyps(3)] by (fastforce simp: backed_def)
next
  case (delete st evs key scope)
  then show ?case by (fastforce simp: backed_def Delete_def flag_kept_def state_at_def)
next
  case (prune st evs now)
  then show ?case by (fastforce simp: backed_def PruneState_def Let_def flag_kept_def)
qed

text \<open>
  C29. In every history each run's warning and each run's exceedance is reported at most
  once, and a check reports an exceedance only when the run has spent its budget.
\<close>

theorem budget_reported_once:
  assumes "budget_history patterns st evs" "Check patterns now getRun d runID st = (res, st', es)"
  shows "distinct (evs @ es) \<and>
    ((runID, EventBudgetExceeded) \<in> set es \<longrightarrow>
      (\<exists>r budget. getRun runID = Some r \<and> rTokenBudget r = Some budget \<and> 0 < budget \<and>
        budget \<le> int64 (fst (AggregateTokens d runID) + fst (snd (AggregateTokens d runID)))))"
proof -
  have "backed st' (evs @ es)" using backed_check [OF backed_history [OF assms(1)] assms(2)] .
  then have "distinct (evs @ es)" by (simp add: backed_def)
  moreover have "\<exists>r budget. getRun runID = Some r \<and> rTokenBudget r = Some budget \<and> 0 < budget \<and>
        budget \<le> int64 (fst (AggregateTokens d runID) + fst (snd (AggregateTokens d runID)))"
    if "(runID, EventBudgetExceeded) \<in> set es"
    using assms(2)
  proof (cases rule: Check_cases)
    case (some r budget used w x st1)
    have "x" using that some(7) by (auto split: if_splits)
    then have "budget \<le> used" using report_once_cases(2) [OF _ some(6)] by simp
    then show ?thesis using some by blast
  qed (use that in simp)
  ultimately show ?thesis by blast
qed

text \<open>A threshold reported by one check is not reported by the next.\<close>

lemma report_once_again:
  assumes "budget_key (key, runID)" "report_once patterns now key runID used c st = (True, st')"
  shows "report_once patterns now key runID used c' st' = (False, st')"
  using flags.report_again [OF assms(1)] assms(2) unfolding report_once_eq by blast

section \<open>Composable budgets\<close>

record Budget =
  TokenLimit :: int
  TimeLimitSec :: int
  PhaseCount :: int

definition minPositive :: "int \<Rightarrow> int \<Rightarrow> int" where
  "minPositive a b = (if a = 0 then b else if b = 0 then a else if a < b then a else b)"

definition Meet :: "Budget \<Rightarrow> Budget \<Rightarrow> Budget" where
  "Meet a b =
     \<lparr>TokenLimit = minPositive (TokenLimit a) (TokenLimit b),
      TimeLimitSec = minPositive (TimeLimitSec a) (TimeLimitSec b),
      PhaseCount = minPositive (PhaseCount a) (PhaseCount b)\<rparr>"

definition Exceeded :: "Budget \<Rightarrow> int \<Rightarrow> int \<Rightarrow> int \<Rightarrow> bool" where
  "Exceeded a toks elapsedSec phases =
     (if TokenLimit a > 0 \<and> toks > TokenLimit a then True
      else if TimeLimitSec a > 0 \<and> elapsedSec > TimeLimitSec a then True
      else if PhaseCount a > 0 \<and> phases > PhaseCount a then True
      else False)"

definition Unlimited :: Budget where "Unlimited = \<lparr>TokenLimit = 0, TimeLimitSec = 0, PhaseCount = 0\<rparr>"

lemma minPositive_laws:
  "minPositive a b = minPositive b a" "minPositive a (minPositive b c) = minPositive (minPositive a b) c"
  "minPositive a a = a" "minPositive a 0 = a"
  by (auto simp: minPositive_def)

text \<open>Budgets form a semilattice with the unlimited budget at the top.\<close>

lemma Meet_laws:
  "Meet a b = Meet b a" "Meet a (Meet b c) = Meet (Meet a b) c"
  "Meet (a :: Budget) a = a" "Meet a Unlimited = a"
  by (simp_all add: Meet_def Unlimited_def minPositive_laws(2-4)) (simp add: minPositive_laws(1))

definition limits_ok :: "Budget \<Rightarrow> bool" where
  "limits_ok b \<longleftrightarrow> TokenLimit b \<ge> 0 \<and> TimeLimitSec b \<ge> 0 \<and> PhaseCount b \<ge> 0"

lemma minPositive_exceeded:
  "0 \<le> a \<Longrightarrow> 0 \<le> b \<Longrightarrow> minPositive a b > 0 \<and> x > minPositive a b \<longleftrightarrow> (a > 0 \<and> x > a) \<or> (b > 0 \<and> x > b)"
  by (auto simp: minPositive_def)

text \<open>The meet of two budgets is exceeded exactly when one of them is.\<close>

lemma Meet_exceeded:
  assumes "limits_ok a" "limits_ok b"
  shows "Exceeded (Meet a b) toks secs phases \<longleftrightarrow> Exceeded a toks secs phases \<or> Exceeded b toks secs phases"
  using assms minPositive_exceeded [of "TokenLimit a" "TokenLimit b" toks]
    minPositive_exceeded [of "TimeLimitSec a" "TimeLimitSec b" secs]
    minPositive_exceeded [of "PhaseCount a" "PhaseCount b" phases]
  unfolding limits_ok_def Exceeded_def Meet_def by simp

text \<open>A negative limit, which alone limits nothing, lifts the other's limit.\<close>

lemma negative_limit_lifts:
  assumes "n < 0" "0 < m"
  shows "\<not> Exceeded (Meet (Unlimited\<lparr>TokenLimit := n\<rparr>) (Unlimited\<lparr>TokenLimit := m\<rparr>)) toks secs phases"
  using assms by (simp add: Exceeded_def Meet_def Unlimited_def minPositive_def)

section \<open>Reconciliation\<close>

record Reconciliation =
  rcID :: int
  rcRunID :: string
  rcDispatchID :: string
  rcReportedIn :: int
  rcReportedOut :: int
  rcBilledIn :: int
  rcBilledOut :: int
  rcDeltaIn :: int
  rcDeltaOut :: int
  rcSource :: string

text \<open>The identifier is the next autoincrement value; the last component tells whether a
  discrepancy event is recorded.\<close>

definition Reconcile :: "dispatch_db \<Rightarrow> int \<Rightarrow> string \<Rightarrow> string \<Rightarrow> int \<Rightarrow> int \<Rightarrow> string \<Rightarrow> bool \<Rightarrow> Reconciliation list
    \<Rightarrow> dispatch_error + (Reconciliation \<times> Reconciliation list \<times> bool)" where
  "Reconcile d newid runID dispatchID billedIn billedOut source hasRecorder rows =
     sum_bind
       (if dispatchID \<noteq> [] then
          sum_bind (GetDispatch d dispatchID) (\<lambda>dp. Inr (dpInputTokens dp, dpOutputTokens dp))
        else let (i, out, _) = AggregateTokens d runID in Inr (i, out))
       (\<lambda>(reportedIn, reportedOut).
         let deltaIn = int64 (billedIn - reportedIn);
             deltaOut = int64 (billedOut - reportedOut);
             rec = \<lparr>rcID = newid, rcRunID = runID, rcDispatchID = dispatchID, rcReportedIn = reportedIn,
                    rcReportedOut = reportedOut, rcBilledIn = billedIn, rcBilledOut = billedOut,
                    rcDeltaIn = deltaIn, rcDeltaOut = deltaOut,
                    rcSource = (if source = [] then ''manual'' else source)\<rparr>
         in Inr (rec, rows @ [rec], (deltaIn \<noteq> 0 \<or> deltaOut \<noteq> 0) \<and> hasRecorder))"

definition ListReconciliations :: "string \<Rightarrow> int \<Rightarrow> Reconciliation list \<Rightarrow> Reconciliation list" where
  "ListReconciliations runID limit rows =
     take (nat (if limit \<le> 0 then 100 else limit)) (order_desc rcID (filter (\<lambda>r. rcRunID r = runID) rows))"

text \<open>A discrepancy is recorded exactly when billed and reported tokens differ, within \<^verbatim>\<open>int64\<close>.\<close>

lemma int64_diff_zero: "\<bar>a\<bar> < 2 ^ 62 \<Longrightarrow> \<bar>b\<bar> < 2 ^ 62 \<Longrightarrow> int64 (a - b) = 0 \<longleftrightarrow> a = b"
  by (subst int64_id) auto

lemma Reconcile_discrepancy:
  assumes "Reconcile d i run did bi bo src True rows = Inr (rec, rows', ev)"
    and "\<bar>bi\<bar> < 2 ^ 62" "\<bar>bo\<bar> < 2 ^ 62" "\<bar>rcReportedIn rec\<bar> < 2 ^ 62" "\<bar>rcReportedOut rec\<bar> < 2 ^ 62"
  shows "ev \<longleftrightarrow> (rcReportedIn rec, rcReportedOut rec) \<noteq> (bi, bo)"
  using assms int64_id [of 0] by (auto simp: Reconcile_def sum_bind_Inr_iff Let_def int64_diff_zero split: if_splits prod.splits)

section \<open>A concrete history\<close>

definition spent_run :: run where
  "spent_run = \<lparr>rID = ''r1'', rProjectDir = ''/p'', rGoal = ''g'', rStatus = ''active'', rPhase = ''planned'',
     rComplexity = 3, rForceFull = False, rAutoAdvance = True, rCreatedAt = 10, rUpdatedAt = 10,
     rCompletedAt = None, rScopeID = None, rMetadata = None, rPhases = None, rTokenBudget = Some 1000,
     rBudgetWarnPct = 80, rParentRunID = None, rGoalID = None, rMaxDispatches = 0, rBudgetEnforce = True,
     rMaxAgents = 3, rGateRules = None\<rparr>"

definition spent_dispatch :: "int \<Rightarrow> dispatch" where
  "spent_dispatch n = (new_dispatch ''d1'' 10
     \<lparr>dcAgentType = ''codex'', dcProjectDir = ''/p'', dcPromptFile = None, dcPromptHash = None, dcOutputFile = None,
      dcVerdictFile = None, dcName = None, dcModel = None, dcSandbox = None, dcSandboxSpec = None, dcTimeoutSec = None,
      dcScopeID = Some ''r1'', dcParentID = None, dcBaseRepoCommit = None, dcSpawnDepth = 0, dcParentDispatchID = []\<rparr> 0)
     \<lparr>dpInputTokens := n\<rparr>"

definition spent_db :: "int \<Rightarrow> dispatch_db" where
  "spent_db n = \<lparr>ddRows = [spent_dispatch n], ddEvents = [], ddEventSeq = 0, ddTerminals = [], ddSupervision = [],
     ddIntents = [], ddConsumptions = [], ddDeliveries = [], ddState = [], ddRuns = [spent_run]\<rparr>"

abbreviation spent_check :: "int \<Rightarrow> state_table \<Rightarrow> budget_result option \<times> state_table \<times> (string \<times> string) list" where
  "spent_check n st \<equiv> Check [] 5 (\<lambda>_. Some spent_run) (spent_db n) ''r1'' st"

definition flag_row :: "string \<Rightarrow> string \<Rightarrow> int \<Rightarrow> int \<Rightarrow> state_entry" where
  "flag_row key scope used now =
     \<lparr>stKey = key, stScope = scope, stPayload = pText (used_payload used), stUpdated = now, stExpires = None\<rparr>"

lemma setFlag_row:
  "ValidateKey key = None \<Longrightarrow> setFlag patterns now key scope used st =
     filter (\<lambda>r. \<not> state_at key scope r) st @ [flag_row key scope used now]"
  by (simp add: setFlag_def Set_def used_payload_ok Let_def flag_row_def)

lemma flagExists_rows [simp]:
  "\<not> flagExists now key scope []"
  "flagExists now key scope (flag_row k sc u t # st) \<longleftrightarrow> (k = key \<and> sc = scope) \<or> flagExists now key scope st"
  by (auto simp: flagExists_def Get_def flag_row_def state_at_def fresh_def)

lemma flag_row_at [simp]: "state_at key scope (flag_row k sc u t) \<longleftrightarrow> k = key \<and> sc = scope"
  by (simp add: state_at_def flag_row_def)

lemma spent_aggregate: "AggregateTokens (spent_db n) ''r1'' = (n, 0, 0)"
  by (simp add: AggregateTokens_def spent_db_def spent_dispatch_def new_dispatch_def)

lemma spent_checks:
  "spent_check 900 [] = (Some \<lparr>brRunID = ''r1'', brBudget = 1000, brUsed = 900, brWarnPct = 80, brWarning = True,
     brExceeded = False\<rparr>, [flag_row EventBudgetWarning ''r1'' 900 5], [(''r1'', EventBudgetWarning)])"
  "spent_check 1000 [flag_row EventBudgetWarning ''r1'' 900 5] =
     (Some \<lparr>brRunID = ''r1'', brBudget = 1000, brUsed = 1000, brWarnPct = 80, brWarning = False, brExceeded = True\<rparr>,
      [flag_row EventBudgetWarning ''r1'' 900 5, flag_row EventBudgetExceeded ''r1'' 1000 5], [(''r1'', EventBudgetExceeded)])"
  "snd (snd (spent_check 1000 [flag_row EventBudgetWarning ''r1'' 900 5, flag_row EventBudgetExceeded ''r1'' 1000 5])) = []"
  by (simp_all add: Check_def spent_aggregate report_once_def setFlag_row budget_keys_ok spent_run_def int64_def div_trunc_def)

text \<open>At 900 of 1000 tokens the run is warned, at 1000 it is reported, and then no more.\<close>

theorem budget_reported_once_witness:
  "snd (snd (spent_check 900 [])) = [(''r1'', ''budget.warning'')] \<and>
   snd (snd (spent_check 1000 (fst (snd (spent_check 900 []))))) = [(''r1'', ''budget.exceeded'')] \<and>
   distinct (snd (snd (spent_check 900 [])) @ snd (snd (spent_check 1000 (fst (snd (spent_check 900 [])))))) \<and>
   snd (snd (spent_check 1000 (fst (snd (spent_check 1000 (fst (snd (spent_check 900 [])))))))) = []"
proof -
  let ?st = "fst (snd (spent_check 900 []))"
  have h: "budget_history [] ?st ([] @ snd (snd (spent_check 900 [])))"
    by (rule budget_history.check [OF budget_history.start, of _ 5 "\<lambda>_. Some spent_run" "spent_db 900" "''r1''"
        "fst (spent_check 900 [])"]) (simp only: prod.collapse)
  have c: "spent_check 1000 ?st = (fst (spent_check 1000 ?st), fst (snd (spent_check 1000 ?st)), snd (snd (spent_check 1000 ?st)))"
    by (simp only: prod.collapse)
  from budget_reported_once [OF h c]
  have "distinct (([] @ snd (snd (spent_check 900 []))) @ snd (snd (spent_check 1000 ?st)))"
    by (rule conjunct1)
  then show ?thesis
    by (simp add: spent_checks) (simp add: const_defs)
qed

end
