(* ===== verification/RunTrack.thy ===== *)
theory RunTrack
  imports Machine
begin

text \<open>
  Agents and artifacts of runs, \<^verbatim>\<open>internal/runtrack\<close>, and their part in the rollback
  command of \<^verbatim>\<open>cmd/ic/run_lifecycle.go\<close>. The rows extend those the phase package reads by
  the columns only this package uses; \<open>view\<close> gives the phase package's database. Random
  identifiers, the clock and the hash of a file are arguments.
\<close>

section \<open>Rows\<close>

definition AgentActive :: string where [const_defs]: "AgentActive = ''active''"
definition AgentCompleted :: string where [const_defs]: "AgentCompleted = ''completed''"
definition AgentFailed :: string where [const_defs]: "AgentFailed = ''failed''"

record agent_row = run_agent +
  gAgentType :: string
  gName :: "string option"
  gDispatchID :: "string option"
  gCreatedAt :: int
  gUpdatedAt :: int

record artifact_row = artifact +
  aDispatchID :: "string option"

record track =
  tAgents :: "agent_row list"
  tArtifacts :: "artifact_row list"

definition view :: "track \<Rightarrow> db \<Rightarrow> db" where
  "view t d = d\<lparr>artifacts := map artifact.truncate (tArtifacts t), run_agents := map run_agent.truncate (tAgents t)\<rparr>"

datatype track_error =
    ErrAgentNotFound
  | ErrArtifactNotFound
  | ErrRunMissing
  | ErrDispatchIDConflict
  | ErrDuplicateID

definition IsTerminalAgent :: "agent_row \<Rightarrow> bool" where
  "IsTerminalAgent a \<longleftrightarrow> gStatus a = AgentCompleted \<or> gStatus a = AgentFailed"

section \<open>Agents\<close>

definition AddAgent :: "string \<Rightarrow> int \<Rightarrow> db \<Rightarrow> agent_row \<Rightarrow> track \<Rightarrow> track_error + track" where
  "AddAgent newid now d a t =
     (if list_ex (\<lambda>g. gID g = newid) (tAgents t) then Inl ErrDuplicateID
      else if \<not> list_ex (\<lambda>r. rID r = gRunID a) (runs d) then Inl ErrRunMissing
      else Inr (t\<lparr>tAgents := tAgents t @
        [\<lparr>gID = newid, gRunID = gRunID a, gStatus = AgentActive, gAgentType = gAgentType a, gName = gName a,
          gDispatchID = gDispatchID a, gCreatedAt = now, gUpdatedAt = now\<rparr>]\<rparr>))"

definition UpdateAgent :: "int \<Rightarrow> string \<Rightarrow> string \<Rightarrow> track \<Rightarrow> track_error + track" where
  "UpdateAgent now i status t =
     (let P = (\<lambda>g. gID g = i);
          rows = sql_update P (\<lambda>g. g\<lparr>gStatus := status, gUpdatedAt := now\<rparr>) (tAgents t)
      in if rows_affected P (tAgents t) = 0 then Inl ErrAgentNotFound else Inr (t\<lparr>tAgents := rows\<rparr>))"

definition GetAgent :: "string \<Rightarrow> track \<Rightarrow> track_error + agent_row" where
  "GetAgent i t = (case sql_first (\<lambda>g. gID g = i) (tAgents t) of None \<Rightarrow> Inl ErrAgentNotFound | Some g \<Rightarrow> Inr g)"

definition UpdateAgentDispatch :: "int \<Rightarrow> string \<Rightarrow> string \<Rightarrow> track \<Rightarrow> track_error + track" where
  "UpdateAgentDispatch now agentID dispatchID t =
     (let P = (\<lambda>g. gID g = agentID \<and> gDispatchID g = None);
          rows = sql_update P (\<lambda>g. g\<lparr>gDispatchID := Some dispatchID, gUpdatedAt := now\<rparr>) (tAgents t)
      in if rows_affected P (tAgents t) = 0
         then (case GetAgent agentID t of Inl _ \<Rightarrow> Inl ErrAgentNotFound | Inr _ \<Rightarrow> Inl ErrDispatchIDConflict)
         else Inr (t\<lparr>tAgents := rows\<rparr>))"

definition ListAgents :: "string \<Rightarrow> track \<Rightarrow> agent_row list" where
  "ListAgents runID t = order_asc gCreatedAt (filter (\<lambda>g. gRunID g = runID) (tAgents t))"

definition ListPendingAgentIDs :: "string \<Rightarrow> track \<Rightarrow> string list" where
  "ListPendingAgentIDs runID t = map gID (filter (\<lambda>g. gRunID g = runID \<and> gStatus g = ''active'') (tAgents t))"

definition FailAgentsByRun :: "int \<Rightarrow> string \<Rightarrow> track \<Rightarrow> nat \<times> track" where
  "FailAgentsByRun now runID t =
     (let P = (\<lambda>g. gRunID g = runID \<and> gStatus g = AgentActive)
      in (rows_affected P (tAgents t),
          t\<lparr>tAgents := sql_update P (\<lambda>g. g\<lparr>gStatus := AgentFailed, gUpdatedAt := now\<rparr>) (tAgents t)\<rparr>))"

section \<open>Artifacts\<close>

definition AddArtifact :: "string \<Rightarrow> int \<Rightarrow> (string \<Rightarrow> string option) \<Rightarrow> db \<Rightarrow> artifact_row \<Rightarrow> track \<Rightarrow> track_error + track" where
  "AddArtifact newid now hashFile d a t =
     (let contentHash = (case aContentHash a of Some h \<Rightarrow> Some h
                         | None \<Rightarrow> if aPath a \<noteq> [] then hashFile (aPath a) else None)
      in if list_ex (\<lambda>x. aID x = newid) (tArtifacts t) then Inl ErrDuplicateID
         else if \<not> list_ex (\<lambda>r. rID r = aRunID a) (runs d) then Inl ErrRunMissing
         else Inr (t\<lparr>tArtifacts := tArtifacts t @
           [\<lparr>aID = newid, aRunID = aRunID a, aPhase = aPhase a, aPath = aPath a, aType = aType a,
             aContentHash = contentHash, aStatus = Some ''active'', aCreatedAt = now, aDispatchID = aDispatchID a\<rparr>]\<rparr>))"

text \<open>Ordered by creation, then rowid.\<close>

definition ListArtifacts :: "string \<Rightarrow> string option \<Rightarrow> track \<Rightarrow> artifact_row list" where
  "ListArtifacts runID phase t =
     order_asc aCreatedAt
       (filter (\<lambda>a. aRunID a = runID \<and> (case phase of Some p \<Rightarrow> aPhase a = p | None \<Rightarrow> True)) (tArtifacts t))"

definition LatestActiveArtifactByType :: "string \<Rightarrow> string \<Rightarrow> track \<Rightarrow> track_error + artifact_row" where
  "LatestActiveArtifactByType runID typ t =
     (case order_desc aCreatedAt (rev (filter (\<lambda>a. aRunID a = runID \<and> aType a = typ \<and> aStatus a = Some ''active'')
             (tArtifacts t))) of
        [] \<Rightarrow> Inl ErrArtifactNotFound
      | a # _ \<Rightarrow> Inr a)"

definition MarkArtifactsRolledBack :: "string \<Rightarrow> string list \<Rightarrow> track \<Rightarrow> nat \<times> track" where
  "MarkArtifactsRolledBack runID phases t =
     (if phases = [] then (0, t)
      else
        let P = (\<lambda>a. aRunID a = runID \<and> aStatus a = Some ''active'' \<and> aPhase a \<in> set phases)
        in (rows_affected P (tArtifacts t),
            t\<lparr>tArtifacts := sql_update P (\<lambda>a. a\<lparr>aStatus := Some ''rolled_back''\<rparr>) (tArtifacts t)\<rparr>))"

definition CountArtifacts :: "string \<Rightarrow> string \<Rightarrow> track \<Rightarrow> nat" where
  "CountArtifacts runID phase t =
     rows_affected (\<lambda>a. aRunID a = runID \<and> aPhase a = phase \<and> aStatus a = Some ''active'') (tArtifacts t)"

definition CountActiveAgents :: "string \<Rightarrow> track \<Rightarrow> nat" where
  "CountActiveAgents runID t = rows_affected (\<lambda>g. gRunID g = runID \<and> gStatus g = ''active'') (tAgents t)"

record rollback_entry =
  reDispatchID :: "string option"
  reDispatchName :: "string option"
  rePhase :: string
  rePath :: string
  reContentHash :: "string option"
  reType :: string
  reStatus :: "string option"

text \<open>The left join with the dispatches, whose names are looked up by ID.\<close>

definition ListArtifactsForCodeRollback :: "(string \<Rightarrow> string option) \<Rightarrow> string \<Rightarrow> string option \<Rightarrow> track \<Rightarrow> rollback_entry list" where
  "ListArtifactsForCodeRollback dispatchName runID filterPhase t =
     map (\<lambda>a. \<lparr>reDispatchID = aDispatchID a, reDispatchName = Option.bind (aDispatchID a) dispatchName,
              rePhase = aPhase a, rePath = aPath a, reContentHash = aContentHash a, reType = aType a,
              reStatus = aStatus a\<rparr>)
       (sort_key aPhase (sort_key aCreatedAt
         (filter (\<lambda>a. aRunID a = runID \<and> (case filterPhase of Some p \<Rightarrow> aPhase a = p | None \<Rightarrow> True)) (tArtifacts t))))"

section \<open>The queries of the gate\<close>

text \<open>\<^verbatim>\<open>runtrack.Store\<close> as the gate's querier outside a transaction.\<close>

definition store_runtrack :: "track \<Rightarrow> runtrack_querier" where
  "store_runtrack t =
     \<lparr>qCountArtifacts = (\<lambda>r p. Inr (CountArtifacts r p t)),
      qCountActiveAgents = (\<lambda>r. Inr (CountActiveAgents r t)),
      qLatestActiveArtifactByType = (\<lambda>r ty.
        case LatestActiveArtifactByType r ty t of Inl _ \<Rightarrow> Inl ArtifactNotFound | Inr a \<Rightarrow> Inr (artifact.truncate a))\<rparr>"

lemma truncate_artifact [simp]:
  "aRunID (artifact.truncate a) = aRunID a" "aPhase (artifact.truncate a) = aPhase a"
  "aType (artifact.truncate a) = aType a" "aStatus (artifact.truncate a) = aStatus a"
  "aCreatedAt (artifact.truncate a) = aCreatedAt a"
  by (simp_all add: artifact.truncate_def)

lemma truncate_agent [simp]:
  "gRunID (run_agent.truncate g) = gRunID g" "gStatus (run_agent.truncate g) = gStatus g"
  by (simp_all add: run_agent.truncate_def)

lemma sort_key_map: "sort_key k (map f xs) = map f (sort_key (k \<circ> f) xs)"
proof (induction xs)
  case (Cons x xs)
  have "insort_key k (f x) (map f ys) = map f (insort_key (k \<circ> f) x ys)" for ys
    by (induction ys) auto
  with Cons show ?case by (simp add: o_def)
qed simp

text \<open>The queries the phase package runs in its transaction and those of this store agree.\<close>

lemma tx_runtrack_view: "tx_runtrack (view t d) = store_runtrack t"
proof -
  have 1: "length (filter P (map artifact.truncate xs)) = rows_affected (P \<circ> artifact.truncate) xs" for P and xs :: "artifact_row list"
    by (simp add: rows_affected_def filter_map)
  have 2: "length (filter P (map run_agent.truncate xs)) = rows_affected (P \<circ> run_agent.truncate) xs" for P and xs :: "agent_row list"
    by (simp add: rows_affected_def filter_map)
  have 3: "order_desc aCreatedAt (rev (filter P (map artifact.truncate xs))) =
      map artifact.truncate (order_desc aCreatedAt (rev (filter (P \<circ> artifact.truncate) xs)))" for P and xs :: "artifact_row list"
    by (simp add: order_desc_def filter_map rev_map sort_key_map o_def)
  show ?thesis
    by (simp add: tx_runtrack_def store_runtrack_def view_def CountArtifacts_def CountActiveAgents_def
        LatestActiveArtifactByType_def 1 2 3 o_def fun_eq_iff rows_affected_def split: list.split)
qed

section \<open>The rollback command\<close>

text \<open>
  \<^verbatim>\<open>cmdRunRollback\<close> after its arguments: the phase machine's rollback, then the artifacts of
  the phases rolled back and the agents of the run. (The cancellation of dispatches in
  between works on other tables.) Each cleanup is a statement of its own.
\<close>

definition rollback_command ::
    "int \<Rightarrow> string \<Rightarrow> string \<Rightarrow> string \<Rightarrow> db \<times> track \<Rightarrow> phase_error + (rollback_result \<times> nat \<times> nat \<times> db \<times> track)" where
  "rollback_command now runID toPhase reason s =
     (case s of (d, t) \<Rightarrow>
        sum_bind (Rollback now True runID toPhase reason d) (\<lambda>(res, d1, cs).
          let m = MarkArtifactsRolledBack runID (rrRolledBackPhases res) t;
              f = FailAgentsByRun now runID (snd m)
          in Inr (res, fst m, fst f, d1, snd f)))"

lemma affected_update_gone:
  "(\<And>x. Q x \<Longrightarrow> P x) \<Longrightarrow> (\<And>x. P x \<Longrightarrow> \<not> Q (f x)) \<Longrightarrow> rows_affected Q (sql_update P f xs) = 0"
  by (induction xs) (auto simp: rows_affected_def)

lemma affected_update_same:
  "(\<And>x. P x \<Longrightarrow> \<not> Q x \<and> \<not> Q (f x)) \<Longrightarrow> rows_affected Q (sql_update P f xs) = rows_affected Q xs"
  by (induction xs) (auto simp: rows_affected_def)

lemma Mark_artifacts:
  "tArtifacts (snd (MarkArtifactsRolledBack runID phases t)) =
     sql_update (\<lambda>a. aRunID a = runID \<and> aStatus a = Some ''active'' \<and> aPhase a \<in> set phases)
       (\<lambda>a. a\<lparr>aStatus := Some ''rolled_back''\<rparr>) (tArtifacts t)"
  by (simp add: MarkArtifactsRolledBack_def Let_def sql_update_none)

lemma Mark_count:
  "p \<in> set phases \<Longrightarrow> CountArtifacts runID p (snd (MarkArtifactsRolledBack runID phases t)) = 0"
  unfolding CountArtifacts_def Mark_artifacts by (rule affected_update_gone) simp_all

lemma Mark_count_other:
  "r \<noteq> runID \<or> p \<notin> set phases \<Longrightarrow> CountArtifacts r p (snd (MarkArtifactsRolledBack runID phases t)) = CountArtifacts r p t"
  unfolding CountArtifacts_def Mark_artifacts by (rule affected_update_same) auto

lemma Fail_count: "CountActiveAgents runID (snd (FailAgentsByRun now runID t)) = 0"
  unfolding CountActiveAgents_def FailAgentsByRun_def Let_def snd_conv
  by simp (rule affected_update_gone; simp add: const_defs)

lemma Fail_artifacts: "tArtifacts (snd (FailAgentsByRun now runID t)) = tArtifacts t"
  by (simp add: FailAgentsByRun_def Let_def)

lemma rollback_command_Inr:
  assumes "rollback_command now runID toPhase reason (d, t) = Inr (res, marked, failed, d', t')"
  obtains cs where "Rollback now True runID toPhase reason d = Inr (res, d', cs)"
    "t' = snd (FailAgentsByRun now runID (snd (MarkArtifactsRolledBack runID (rrRolledBackPhases res) t)))"
  using assms by (auto simp: rollback_command_def sum_bind_Inr_iff Let_def split: prod.splits)

lemma AddArtifact_count:
  assumes "AddArtifact i now h d a t = Inr t'"
  shows "CountArtifacts (aRunID a) (aPhase a) t' = Suc (CountArtifacts (aRunID a) (aPhase a) t)"
  using assms by (auto simp: AddArtifact_def Let_def CountArtifacts_def rows_affected_def split: if_splits)

definition artifact_gate :: "track \<Rightarrow> db \<Rightarrow> run \<Rightarrow> string \<Rightarrow> string" where
  "artifact_gate t d r p =
     (case check_artifact_exists \<lparr>rt = Some (tx_runtrack (view t d)), vq = None, pq = None, dq = None, bq = None\<rparr> r
             (rule CheckArtifactExists p TierHard) of
        Inl _ \<Rightarrow> [] | Inr c \<Rightarrow> cResult c)"

definition agents_gate :: "track \<Rightarrow> db \<Rightarrow> run \<Rightarrow> string" where
  "agents_gate t d r =
     (case check_agents_complete \<lparr>rt = Some (tx_runtrack (view t d)), vq = None, pq = None, dq = None, bq = None\<rparr> r
             (rule CheckAgentsComplete [] TierHard) of
        Inl _ \<Rightarrow> [] | Inr c \<Rightarrow> cResult c)"

lemma artifact_gate_iff: "artifact_gate t d r p = (if CountArtifacts (rID r) p t > 0 then GatePass else GateFail)"
  by (simp add: artifact_gate_def check_artifact_exists_def tx_runtrack_view store_runtrack_def rule_def)

lemma agents_gate_iff: "agents_gate t d r = (if CountActiveAgents (rID r) t = 0 then GatePass else GateFail)"
  by (simp add: agents_gate_def check_agents_complete_def tx_runtrack_view store_runtrack_def rule_def)

lemma Rollback_phases:
  assumes "Rollback now cb runID toPhase reason d = Inr (res, d', cs)"
  shows "rrFromPhase res \<in> set (rrRolledBackPhases res)"
proof -
  obtain r where "ChainPhasesBetween (ResolveChain r) toPhase (rPhase r) = Some (rrRolledBackPhases res)"
      "rrFromPhase res = rPhase r"
    using assms by (auto simp: Rollback_def sum_bind_Inr_iff Let_def split: option.splits)
  then show ?thesis
    using ChainPhasesBetween_Some(4,5) by (metis last_in_set)
qed

text \<open>
  C10. After a rollback no artifact of a rolled-back phase, the phase it left included, counts
  any more: an artifact gate of such a phase fails, for the phase machine's own queries,
  until an artifact is added for it again; no agent of the run is left to wait for; and
  other runs and earlier phases keep theirs.
\<close>

theorem rollback_closes_artifact_gates:
  assumes "rollback_command now (rID r) toPhase reason (d, t) = Inr (res, marked, failed, d', t')"
  shows "(\<forall>p \<in> set (rrRolledBackPhases res). artifact_gate t' d' r p = GateFail) \<and>
    rrFromPhase res \<in> set (rrRolledBackPhases res) \<and>
    (\<forall>p i h a t''. AddArtifact i now h d' a t' = Inr t'' \<and> aRunID a = rID r \<and> aPhase a = p \<longrightarrow>
       artifact_gate t'' d' r p = GatePass) \<and>
    agents_gate t' d' r = GatePass \<and>
    (\<forall>q p. rID q \<noteq> rID r \<or> p \<notin> set (rrRolledBackPhases res) \<longrightarrow> artifact_gate t' d' q p = artifact_gate t d q p)"
proof -
  obtain cs where r: "Rollback now True (rID r) toPhase reason d = Inr (res, d', cs)"
    and t': "t' = snd (FailAgentsByRun now (rID r) (snd (MarkArtifactsRolledBack (rID r) (rrRolledBackPhases res) t)))"
    using assms by (rule rollback_command_Inr)
  have same: "CountArtifacts q p t' = CountArtifacts q p (snd (MarkArtifactsRolledBack (rID r) (rrRolledBackPhases res) t))" for q p
    by (simp add: t' CountArtifacts_def Fail_artifacts)
  have "\<forall>p \<in> set (rrRolledBackPhases res). artifact_gate t' d' r p = GateFail"
    by (simp add: artifact_gate_iff same Mark_count)
  moreover have "\<forall>q p. rID q \<noteq> rID r \<or> p \<notin> set (rrRolledBackPhases res) \<longrightarrow> artifact_gate t' d' q p = artifact_gate t d q p"
    by (simp add: artifact_gate_iff same Mark_count_other)
  moreover have "\<forall>p i h a t''. AddArtifact i now h d' a t' = Inr t'' \<and> aRunID a = rID r \<and> aPhase a = p \<longrightarrow>
       artifact_gate t'' d' r p = GatePass"
  proof (intro allI impI, elim conjE)
    fix p i h a t'' assume "AddArtifact i now h d' a t' = Inr t''" "aRunID a = rID r" "aPhase a = p"
    then show "artifact_gate t'' d' r p = GatePass"
      using AddArtifact_count [of i now h d' a t' t''] by (simp add: artifact_gate_iff)
  qed
  moreover have "agents_gate t' d' r = GatePass"
    by (simp add: agents_gate_iff t' Fail_count)
  ultimately show ?thesis
    using Rollback_phases [OF r] by blast
qed

section \<open>Assigning a dispatch to an agent\<close>

text \<open>The dispatch of an agent is set once: a second assignment is a conflict and changes nothing.\<close>

lemma UpdateAgentDispatch_cases:
  "UpdateAgentDispatch now a did t =
     (case sql_first (\<lambda>g. gID g = a) (tAgents t) of
        None \<Rightarrow> Inl ErrAgentNotFound
      | Some g \<Rightarrow> if \<exists>g \<in> set (tAgents t). gID g = a \<and> gDispatchID g = None
          then Inr (t\<lparr>tAgents := sql_update (\<lambda>g. gID g = a \<and> gDispatchID g = None)
                 (\<lambda>g. g\<lparr>gDispatchID := Some did, gUpdatedAt := now\<rparr>) (tAgents t)\<rparr>)
          else Inl ErrDispatchIDConflict)"
  by (auto simp: UpdateAgentDispatch_def Let_def GetAgent_def rows_affected_zero sql_first_None
      split: option.splits dest: sql_first_Some)

lemma assigned_dispatch_kept:
  assumes "UpdateAgentDispatch now a did t = Inr t'" "g \<in> set (tAgents t)" "gDispatchID g = Some x"
  shows "g \<in> set (tAgents t')"
  using assms by (auto simp: UpdateAgentDispatch_def Let_def in_sql_update split: if_splits sum.splits)

section \<open>A concrete rollback\<close>

definition rolled_run :: run where
  "rolled_run = \<lparr>rID = ''r1'', rProjectDir = ''/p'', rGoal = ''g'', rStatus = ''active'', rPhase = ''planned'',
     rComplexity = 3, rForceFull = False, rAutoAdvance = True, rCreatedAt = 10, rUpdatedAt = 10,
     rCompletedAt = None, rScopeID = None, rMetadata = None, rPhases = None, rTokenBudget = None,
     rBudgetWarnPct = 80, rParentRunID = None, rGoalID = None, rMaxDispatches = 0, rBudgetEnforce = False,
     rMaxAgents = 0, rGateRules = None\<rparr>"

definition rolled_db :: db where
  "rolled_db = \<lparr>runs = [rolled_run], phase_events = [], event_seq = 0, artifacts = [], run_agents = [], dispatches = [],
     project_deps = [], goals = [], replay_inputs = []\<rparr>"

definition plan_artifact :: artifact_row where
  "plan_artifact = \<lparr>aID = ''a1'', aRunID = ''r1'', aPhase = ''planned'', aPath = ''plan.md'', aType = ''file'',
     aContentHash = None, aStatus = Some ''active'', aCreatedAt = 11, aDispatchID = None\<rparr>"

definition rolled_track :: track where
  "rolled_track = \<lparr>tAgents = [], tArtifacts = [plan_artifact]\<rparr>"

theorem rollback_closes_artifact_gates_witness:
  "artifact_gate rolled_track rolled_db rolled_run ''planned'' = GatePass \<and>
   (case rollback_command 20 ''r1'' ''brainstorm'' ''redo'' (rolled_db, rolled_track) of
      Inr (res, marked, failed, d', t') \<Rightarrow>
        marked = 1 \<and> ''planned'' \<in> set (rrRolledBackPhases res) \<and> artifact_gate t' d' rolled_run ''planned'' = GateFail
    | Inl e \<Rightarrow> False)"
proof -
  obtain res m f d' t' where c: "rollback_command 20 ''r1'' ''brainstorm'' ''redo'' (rolled_db, rolled_track) = Inr (res, m, f, d', t')"
      and m: "m = 1" and fr: "rrFromPhase res = ''planned''"
  proof -
    let ?c = "rollback_command 20 ''r1'' ''brainstorm'' ''redo'' (rolled_db, rolled_track)"
    have "(case ?c of Inr (res, m, _) \<Rightarrow> m = 1 \<and> rrFromPhase res = ''planned'' | Inl _ \<Rightarrow> False)"
      by code_simp
    then show ?thesis using that by (auto split: sum.splits)
  qed
  have rid: "''r1'' = rID rolled_run" by (simp add: rolled_run_def)
  from rollback_closes_artifact_gates [OF c [unfolded rid]] fr
  have "artifact_gate t' d' rolled_run ''planned'' = GateFail" "''planned'' \<in> set (rrRolledBackPhases res)" by auto
  moreover have "artifact_gate rolled_track rolled_db rolled_run ''planned'' = GatePass"
    by (simp add: artifact_gate_iff CountArtifacts_def rows_affected_def rolled_track_def plan_artifact_def rolled_run_def)
  ultimately show ?thesis using c m by simp
qed

end
