(* ===== verification/Routing.thy ===== *)
theory Routing
  imports GoLib
begin

text \<open>
  Model routing, \<^verbatim>\<open>internal/routing\<close>: the configuration, the model of an agent with its
  safety floor (\<^verbatim>\<open>resolve.go\<close>), and dispatch profiles with their fallback chains. A Go map
  that the code ranges over or follows is the association list of its entries, in the
  order a range would visit them; a lookup is \<open>map_of\<close>. The process environment is a map.
\<close>

section \<open>Model tiers\<close>

definition TierUnknown :: nat where [const_defs]: "TierUnknown = 0"
definition TierHaiku :: nat where [const_defs]: "TierHaiku = 1"
definition TierSonnet :: nat where [const_defs]: "TierSonnet = 2"
definition TierOpus :: nat where [const_defs]: "TierOpus = 3"
definition TierFable :: nat where [const_defs]: "TierFable = 4"

definition ParseModelTier :: "string \<Rightarrow> nat" where
  "ParseModelTier s =
     (if s = ''haiku'' then TierHaiku else if s = ''sonnet'' then TierSonnet
      else if s = ''opus'' then TierOpus else if s = ''fable'' then TierFable else TierUnknown)"

definition tier_string :: "nat \<Rightarrow> string" where
  "tier_string t =
     (if t = TierHaiku then ''haiku'' else if t = TierSonnet then ''sonnet''
      else if t = TierOpus then ''opus'' else if t = TierFable then ''fable'' else ''unknown'')"

section \<open>Configuration\<close>

type_synonym 'v gomap = "(string \<times> 'v) list"
type_synonym envvars = "string \<rightharpoonup> string"

definition Getenv :: "envvars \<Rightarrow> string \<Rightarrow> string" where
  "Getenv env x = (case env x of Some v \<Rightarrow> v | None \<Rightarrow> [])"

record phase_config =
  pcModel :: string
  pcCategories :: "string gomap"

record subagent_config =
  sdModel :: string
  sdCategories :: "string gomap"
  sPhases :: "phase_config gomap"
  sOverrides :: "string gomap"

record profile =
  pfModelIdentity :: string
  pfRole :: string
  pfBackend :: string
  pfModel :: string
  pfReasoningEffort :: string
  pfServiceTier :: string
  pfMinimumCodexVersion :: string
  pfFallbacks :: "string list"
  pfDescription :: string

record route_dispatch =
  dcEffortFloors :: "string gomap"
  dcEffortFloorExemptions :: "string list gomap"
  dcModelAliases :: "string gomap"
  dcRoles :: "string gomap"
  dcTiers :: "profile gomap"
  dcFallback :: "string gomap"
  dcCrossLabFirst :: "string list"

record policy_profile =
  ppScope :: string
  ppRoles :: "string gomap"

record reasoning_policy =
  rpFrontierModels :: "string list"
  rpFrontierReasons :: "string list"
  rpDualReviewReasons :: "string list"
  rpStrikes :: int
  rpProfiles :: "policy_profile gomap"

record calibration_config =
  ccMode :: string
  ccDefaulted :: bool

record role_entry =
  reModelTier :: string
  reMinModel :: string
  reAgents :: "string list"

record complexity_tier =
  ctPromptTokens :: int
  ctFileCount :: int
  ctReasoningDepth :: int

record complexity_override =
  coSubagentModel :: string
  coDispatchTier :: string

record complexity_config =
  cxMode :: string
  cxTiers :: "complexity_tier gomap"
  cxOverrides :: "complexity_override gomap"

record routing_config =
  cfPolicySource :: string
  cfPolicyHash :: string
  cfReasoning :: reasoning_policy
  cfSubagents :: subagent_config
  cfDispatch :: route_dispatch
  cfComplexity :: complexity_config
  cfCalibration :: calibration_config
  cfRoles :: "role_entry gomap"

text \<open>A role visited later overwrites the floor of an agent it shares with an earlier one.\<close>

definition SafetyFloors :: "role_entry gomap \<Rightarrow> (string \<rightharpoonup> string)" where
  "SafetyFloors roles =
     fold (\<lambda>(_, role) floors.
         if reMinModel role = [] then floors
         else fold (\<lambda>agent f. f(agent \<mapsto> reMinModel role)) (reAgents role) floors) roles Map.empty"

section \<open>The model of an agent\<close>

record resolve_opts =
  roPhase :: string
  roCategory :: string
  roAgent :: string

text \<open>Later steps only run while no model was found; an override may hold the empty name.\<close>

definition resolveStaticModel :: "routing_config \<Rightarrow> resolve_opts \<Rightarrow> string \<times> bool" where
  "resolveStaticModel cfg opts =
     (let sa = cfSubagents cfg;
          (result, overridden) =
            (if roAgent opts \<noteq> [] then
               (case map_of (sOverrides sa) (roAgent opts) of
                  Some v \<Rightarrow> if v \<noteq> ''inherit'' then (v, True) else ([], False)
                | None \<Rightarrow> ([], False))
             else ([], False));
          result =
            (if result = [] \<and> roPhase opts \<noteq> [] \<and> roCategory opts \<noteq> [] then
               (case map_of (sPhases sa) (roPhase opts) of
                  Some phase \<Rightarrow>
                    (case map_of (pcCategories phase) (roCategory opts) of
                       Some v \<Rightarrow> if v \<noteq> ''inherit'' then v else result
                     | None \<Rightarrow> result)
                | None \<Rightarrow> result)
             else result);
          result =
            (if result = [] \<and> roPhase opts \<noteq> [] then
               (case map_of (sPhases sa) (roPhase opts) of
                  Some phase \<Rightarrow> if pcModel phase \<noteq> [] \<and> pcModel phase \<noteq> ''inherit'' then pcModel phase else result
                | None \<Rightarrow> result)
             else result);
          result =
            (if result = [] \<and> roCategory opts \<noteq> [] then
               (case map_of (sdCategories sa) (roCategory opts) of
                  Some v \<Rightarrow> if v \<noteq> ''inherit'' then v else result
                | None \<Rightarrow> result)
             else result);
          result =
            (if result = [] \<and> sdModel sa \<noteq> [] \<and> sdModel sa \<noteq> ''inherit'' then sdModel sa else result);
          result = (if result = [] \<or> result = ''inherit'' then ''sonnet'' else result)
      in (result, overridden))"

definition fableWindowOpen :: "envvars \<Rightarrow> bool" where
  "fableWindowOpen env \<longleftrightarrow> Getenv env ''CLAVAIN_FABLE_AVAILABLE'' = ''1''"

text \<open>The floor of the whole agent name, otherwise of its last part.\<close>

definition agent_floor :: "(string \<rightharpoonup> string) \<Rightarrow> string \<Rightarrow> string option" where
  "agent_floor floors agent =
     (case floors agent of
        Some fl \<Rightarrow> Some fl
      | None \<Rightarrow> if CHR '':'' \<in> set agent then floors (last (split_on (CHR '':'') agent)) else None)"

definition applyFloor :: "(string \<rightharpoonup> string) \<Rightarrow> string \<Rightarrow> string \<Rightarrow> string" where
  "applyFloor floors agent model =
     (case agent_floor floors agent of
        None \<Rightarrow> model
      | Some floor \<Rightarrow>
          if ParseModelTier floor = TierUnknown \<or> ParseModelTier floor \<le> ParseModelTier model then model else floor)"

definition finalizeModel :: "envvars \<Rightarrow> routing_config \<Rightarrow> resolve_opts \<Rightarrow> string \<Rightarrow> string" where
  "finalizeModel env cfg opts model =
     (let model = (if model = ''fable'' \<and> \<not> fableWindowOpen env then ''opus'' else model)
      in if roAgent opts \<noteq> [] then applyFloor (SafetyFloors (cfRoles cfg)) (roAgent opts) model else model)"

definition ResolveModel :: "envvars \<Rightarrow> routing_config \<Rightarrow> resolve_opts \<Rightarrow> string" where
  "ResolveModel env cfg opts = finalizeModel env cfg opts (fst (resolveStaticModel cfg opts))"

definition has_prefix :: "string \<Rightarrow> string \<Rightarrow> bool" where
  "has_prefix p s \<longleftrightarrow> take (length p) s = p"

definition has_suffix :: "string \<Rightarrow> string \<Rightarrow> bool" where
  "has_suffix p s \<longleftrightarrow> length p \<le> length s \<and> drop (length s - length p) s = p"

definition inferCategory :: "string \<Rightarrow> string" where
  "inferCategory agent =
     (if has_suffix ''-researcher'' agent \<or> agent = ''repo-research-analyst'' then ''research''
      else if has_prefix ''fd-'' agent then ''review'' else [])"

definition inferAgentID :: "string \<Rightarrow> string" where
  "inferAgentID agent =
     (if has_suffix ''-researcher'' agent \<or> agent = ''repo-research-analyst'' then ''interflux:research:'' @ agent
      else if has_prefix ''fd-'' agent then ''interflux:review:'' @ agent else agent)"

definition ResolveBatch :: "envvars \<Rightarrow> routing_config \<Rightarrow> string list \<Rightarrow> string \<Rightarrow> (string \<rightharpoonup> string)" where
  "ResolveBatch env cfg agents phase =
     fold (\<lambda>agent m. m(agent \<mapsto>
         ResolveModel env cfg \<lparr>roPhase = phase, roCategory = inferCategory agent, roAgent = inferAgentID agent\<rparr>))
       agents Map.empty"

section \<open>Dispatch profiles and fallback chains\<close>

record candidate =
  cdRef :: string
  cdProfile :: profile

record excluded_candidate =
  exCandidate :: candidate
  exReason :: string

record candidate_reorder =
  crFrom :: "string list"
  crTo :: "string list"

record resolved_dispatch =
  rdProducerIdentity :: string
  rdProducerModel :: string
  rdValidatorRelationship :: string
  rdFallbackReason :: string
  rdExcluded :: "excluded_candidate list"
  rdRequestedRole :: string
  rdRequestedTier :: string
  rdProfileRef :: string
  rdProfile :: profile
  rdFallbackChain :: "candidate list"
  rdCrossLabReorder :: "candidate_reorder option"

text \<open>
  Aliases of missing profiles are followed until a profile is found, a name repeats or a
  name has no alias (the empty name of Go's zero value).
\<close>

function lookup_from :: "route_dispatch \<Rightarrow> string list \<Rightarrow> string \<Rightarrow> (string \<times> profile) option" where
  "lookup_from dc seen ref =
     (if ref = [] \<or> ref \<in> set seen then None
      else case map_of (dcTiers dc) ref of
        Some p \<Rightarrow> Some (ref, p)
      | None \<Rightarrow> lookup_from dc (ref # seen) (case map_of (dcFallback dc) ref of Some next \<Rightarrow> next | None \<Rightarrow> []))"
  by pat_completeness auto

lemma unseen_fewer:
  assumes "k \<in> set ks" "k \<notin> set seen"
  shows "card (set ks - set (k # seen)) < card (set ks - set seen)"
  using assms by (intro psubset_card_mono) auto

lemma unseen_same: "k \<notin> set ks \<Longrightarrow> card (set ks - set (k # seen)) = card (set ks - set seen)"
  by (rule arg_cong [where f = card]) auto

termination lookup_from
proof (relation "measures [\<lambda>(dc, seen, ref). card (set (map fst (dcFallback dc)) - set seen), \<lambda>(dc, seen, ref). length ref]")
  fix dc :: route_dispatch and seen ref
  assume a: "\<not> (ref = [] \<or> ref \<in> set seen)" "map_of (dcTiers dc) ref = None"
  show "((dc, ref # seen, case map_of (dcFallback dc) ref of Some next \<Rightarrow> next | None \<Rightarrow> []), dc, seen, ref)
    \<in> measures [\<lambda>(dc, seen, ref). card (set (map fst (dcFallback dc)) - set seen), \<lambda>(dc, seen, ref). length ref]"
  proof (cases "map_of (dcFallback dc) ref")
    case None
    then have "ref \<notin> set (map fst (dcFallback dc))" by (simp add: map_of_eq_None_iff)
    with a None unseen_same [of ref "map fst (dcFallback dc)" seen] show ?thesis by simp
  next
    case (Some n)
    then have "ref \<in> set (map fst (dcFallback dc))" by (metis map_of_eq_None_iff option.distinct(1) set_map)
    with a unseen_fewer [of ref "map fst (dcFallback dc)" seen] show ?thesis by simp
  qed
qed simp

declare lookup_from.simps [simp del]

definition lookupDispatchProfile :: "route_dispatch \<Rightarrow> string \<Rightarrow> (string \<times> profile) option" where
  "lookupDispatchProfile dc ref = lookup_from dc [] ref"

lemma lookup_from_Some: "lookup_from dc seen ref = Some (a, p) \<Longrightarrow> map_of (dcTiers dc) a = Some p"
  by (induction dc seen ref rule: lookup_from.induct) (auto simp: lookup_from.simps split: if_splits option.splits)

lemma lookup_Some: "lookupDispatchProfile dc ref = Some (a, p) \<Longrightarrow> map_of (dcTiers dc) a = Some p"
  unfolding lookupDispatchProfile_def by (rule lookup_from_Some)

text \<open>The closure \<^verbatim>\<open>appendFallbacks\<close>, which extends the profiles seen and the chain.\<close>

function (domintros) appendFallbacks ::
    "route_dispatch \<Rightarrow> string list \<Rightarrow> string list \<times> candidate list \<Rightarrow> string list \<times> candidate list" where
  "appendFallbacks dc [] st = st"
| "appendFallbacks dc (ref # refs) st =
     (case lookupDispatchProfile dc ref of
        None \<Rightarrow> appendFallbacks dc refs st
      | Some (actual, p) \<Rightarrow>
          if actual \<in> set (fst st) then appendFallbacks dc refs st
          else appendFallbacks dc refs
                 (appendFallbacks dc (pfFallbacks p)
                    (actual # fst st, snd st @ [\<lparr>cdRef = actual, cdProfile = p\<rparr>])))"
  by pat_completeness auto

lemma appendFallbacks_seen:
  "appendFallbacks_dom (dc, refs, st) \<Longrightarrow> set (fst st) \<subseteq> set (fst (appendFallbacks dc refs st))"
proof (induction dc refs st rule: appendFallbacks.pinduct)
  case (2 dc ref refs st)
  show ?case
  proof (cases "lookupDispatchProfile dc ref")
    case None
    with 2 show ?thesis by (simp add: appendFallbacks.psimps)
  next
    case (Some x)
    obtain a p where x: "x = (a, p)" by (cases x)
    show ?thesis
    proof (cases "a \<in> set (fst st)")
      case True
      with 2(1) 2(3) [OF Some x [symmetric]] Some x show ?thesis by (simp add: appendFallbacks.psimps)
    next
      case False
      note inner = 2(4) [OF Some x [symmetric] False] and outer = 2(5) [OF Some x [symmetric] False]
      have "set (fst st) \<subseteq> set (a # fst st)" by auto
      from subset_trans [OF this subset_trans [OF inner [unfolded fst_conv] outer]] 2(1) Some x False show ?thesis
        by (simp add: appendFallbacks.psimps)
    qed
  qed
qed (simp add: appendFallbacks.psimps)

lemma unseen_mono: "set a \<subseteq> set b \<Longrightarrow> card (set ks - set b) \<le> card (set ks - set a)"
  by (rule card_mono) auto

termination appendFallbacks
proof (relation "measures [\<lambda>(dc, refs, st). card (set (map fst (dcTiers dc)) - set (fst st)), \<lambda>(dc, refs, st). length refs]")
  fix dc :: route_dispatch and ref refs and st :: "string list \<times> candidate list" and x actual p
  assume a: "lookupDispatchProfile dc ref = Some x" "(actual, p) = x" "actual \<notin> set (fst st)"
  have k: "actual \<in> set (map fst (dcTiers dc))"
    using a(1) lookup_Some [of dc ref actual p] unfolding a(2) [symmetric]
    by (metis domI dom_map_of_conv_image_fst list.set_map)
  note less = unseen_fewer [OF k a(3)]
  then show "((dc, pfFallbacks p, actual # fst st, snd st @ [\<lparr>cdRef = actual, cdProfile = p\<rparr>]), dc, ref # refs, st)
    \<in> measures [\<lambda>(dc, refs, st). card (set (map fst (dcTiers dc)) - set (fst st)), \<lambda>(dc, refs, st). length refs]"
    by simp
  assume "appendFallbacks_dom (dc, pfFallbacks p, actual # fst st, snd st @ [\<lparr>cdRef = actual, cdProfile = p\<rparr>])"
  from appendFallbacks_seen [OF this] less
  show "((dc, refs, appendFallbacks dc (pfFallbacks p) (actual # fst st, snd st @ [\<lparr>cdRef = actual, cdProfile = p\<rparr>])), dc, ref # refs, st)
    \<in> measures [\<lambda>(dc, refs, st). card (set (map fst (dcTiers dc)) - set (fst st)), \<lambda>(dc, refs, st). length refs]"
    using unseen_mono [of "actual # fst st" _ "map fst (dcTiers dc)"] by (simp del: set_map) (meson le_less_trans)
qed auto

definition empty_profile :: profile where
  "empty_profile = \<lparr>pfModelIdentity = [], pfRole = [], pfBackend = [], pfModel = [], pfReasoningEffort = [],
     pfServiceTier = [], pfMinimumCodexVersion = [], pfFallbacks = [], pfDescription = []\<rparr>"

definition empty_dispatch :: resolved_dispatch where
  "empty_dispatch = \<lparr>rdProducerIdentity = [], rdProducerModel = [], rdValidatorRelationship = [],
     rdFallbackReason = [], rdExcluded = [], rdRequestedRole = [], rdRequestedTier = [], rdProfileRef = [],
     rdProfile = empty_profile, rdFallbackChain = [], rdCrossLabReorder = None\<rparr>"

definition resolveDispatch :: "route_dispatch \<Rightarrow> string \<Rightarrow> resolved_dispatch option" where
  "resolveDispatch dc profileRef =
     (case lookupDispatchProfile dc profileRef of
        None \<Rightarrow> None
      | Some (primaryRef, primary) \<Rightarrow>
          Some (empty_dispatch\<lparr>rdProfileRef := primaryRef, rdProfile := primary,
            rdFallbackChain := snd (appendFallbacks dc (pfFallbacks primary) ([primaryRef], []))\<rparr>))"

definition ResolveDispatchTier :: "routing_config \<Rightarrow> string \<Rightarrow> string" where
  "ResolveDispatchTier cfg tier =
     (case resolveDispatch (cfDispatch cfg) tier of None \<Rightarrow> [] | Some d \<Rightarrow> pfModel (rdProfile d))"

definition ResolveDispatchProfile :: "routing_config \<Rightarrow> string \<Rightarrow> resolved_dispatch option" where
  "ResolveDispatchProfile cfg ref = map_option (rdRequestedTier_update (\<lambda>_. ref)) (resolveDispatch (cfDispatch cfg) ref)"

definition ResolveDispatchRole :: "routing_config \<Rightarrow> string \<Rightarrow> resolved_dispatch option" where
  "ResolveDispatchRole cfg role =
     (case map_of (dcRoles (cfDispatch cfg)) role of
        None \<Rightarrow> None
      | Some ref \<Rightarrow>
          if ref = [] then None
          else (case resolveDispatch (cfDispatch cfg) ref of
                  None \<Rightarrow> None
                | Some d \<Rightarrow>
                    Some (d\<lparr>rdRequestedRole := role,
                      rdProfile := (if pfRole (rdProfile d) = [] then (rdProfile d)\<lparr>pfRole := role\<rparr> else rdProfile d)\<rparr>)))"

end
