(* ===== verification/RouteIdentity.thy ===== *)
theory RouteIdentity
  imports Routing
begin

text \<open>
  Model identities and the profiles of a role for a producer, \<^verbatim>\<open>internal/routing/identity.go\<close>:
  wrappers and snapshots are stripped, configured aliases followed, candidates that would
  review their own model excluded and other labs moved to the front. \<open>lower\<close> stands for
  \<^verbatim>\<open>strings.ToLower\<close>.
\<close>

datatype route_error =
    ErrAliasCycle string
  | ErrAliasEmpty
  | ErrUnknownIdentity string
  | ErrNoProfile string
  | ErrProducerRequired string
  | ErrProducer route_error
  | ErrProfileIdentity string route_error
  | ErrNoDistinct string string
  | ErrFloorReason string
  | ErrFloorEffort string string
  | ErrExemptRole string
  | ErrExemptFloor string string
  | ErrFrontierModel string route_error
  | ErrFrontierLab string string
  | ErrOverrideEffort string
  | ErrRationale
  | ErrClassification string
  | ErrPolicyProfile string
  | ErrPolicyScope string string
  | ErrInvestigation
  | ErrIncompleteProfile string
  | ErrNoEligible string
  | ErrReadConfig
  | ErrParseConfig

section \<open>Stripping\<close>

definition TrimPrefix :: "string \<Rightarrow> string \<Rightarrow> string" where
  "TrimPrefix p s = (if has_prefix p s then drop (length p) s else s)"

definition TrimSuffix :: "string \<Rightarrow> string \<Rightarrow> string" where
  "TrimSuffix p s = (if has_suffix p s then take (length s - length p) s else s)"

definition wrapper_pass :: "string \<Rightarrow> string" where
  "wrapper_pass model =
     fold (\<lambda>provider m. TrimPrefix (provider @ '':'') (TrimPrefix (provider @ ''/'') m))
       [''openai'', ''anthropic'', ''codex'', ''claude'', ''claude-code'', ''moonshot''] model"

lemma length_TrimPrefix: "length (TrimPrefix p s) \<le> length s"
  by (simp add: TrimPrefix_def)

lemma TrimPrefix_shorter: "TrimPrefix p s \<noteq> s \<Longrightarrow> length (TrimPrefix p s) < length s"
  by (auto simp: TrimPrefix_def has_prefix_def split: if_splits) (metis diff_less length_greater_0_conv self_append_conv2 take_eq_Nil append_take_drop_id gr0I list.size(3) drop0)

lemma length_two_trims: "length (TrimPrefix p (TrimPrefix q s)) \<le> length s"
  using length_TrimPrefix order_trans by blast

lemma wrapper_fold_shorter:
  "length (fold (\<lambda>q m. TrimPrefix (q @ '':'') (TrimPrefix (q @ ''/'') m)) ps s) < length s
   \<or> fold (\<lambda>q m. TrimPrefix (q @ '':'') (TrimPrefix (q @ ''/'') m)) ps s = s"
proof (induction ps arbitrary: s)
  case (Cons p ps)
  let ?s = "TrimPrefix (p @ '':'') (TrimPrefix (p @ ''/'') s)"
  have "length ?s < length s \<or> ?s = s"
    using TrimPrefix_shorter [of "p @ ''/''" s] TrimPrefix_shorter [of "p @ '':''" "TrimPrefix (p @ ''/'') s"]
      length_TrimPrefix [of "p @ '':''" "TrimPrefix (p @ ''/'') s"] by (cases "TrimPrefix (p @ ''/'') s = s") auto
  with Cons.IH [of ?s] show ?case by auto
qed simp

lemma wrapper_pass_shorter: "wrapper_pass s \<noteq> s \<Longrightarrow> length (wrapper_pass s) < length s"
  unfolding wrapper_pass_def using wrapper_fold_shorter by blast

function strip_wrappers :: "string \<Rightarrow> string" where
  "strip_wrappers model = (if wrapper_pass model = model then model else strip_wrappers (wrapper_pass model))"
  by pat_completeness auto
termination
  by (relation "measure length") (simp_all add: wrapper_pass_shorter)

declare strip_wrappers.simps [simp del]

definition stripModelDecoration :: "(string \<Rightarrow> string) \<Rightarrow> string \<Rightarrow> string" where
  "stripModelDecoration lower model =
     TrimSuffix ''[200k]'' (TrimSuffix ''[1m]'' (strip_wrappers (lower (TrimSpace model))))"

section \<open>Identities\<close>

function alias_from :: "(string \<Rightarrow> string) \<Rightarrow> string gomap \<Rightarrow> string list \<Rightarrow> string \<Rightarrow> route_error + string" where
  "alias_from lower aliases seen model =
     (if model \<in> set seen then Inl (ErrAliasCycle model)
      else case map_of aliases model of
        None \<Rightarrow> Inr model
      | Some next \<Rightarrow>
          if stripModelDecoration lower next = [] then Inl ErrAliasEmpty
          else alias_from lower aliases (model # seen) (stripModelDecoration lower next))"
  by pat_completeness auto
termination
proof (relation "measure (\<lambda>(lower, aliases, seen, model). card (set (map fst aliases) - set seen))")
  fix lower :: "string \<Rightarrow> string" and aliases :: "string gomap" and seen and model nxt :: string
  assume "model \<notin> set seen" "map_of aliases model = Some nxt"
  then show "((lower, aliases, model # seen, stripModelDecoration lower nxt), lower, aliases, seen, model)
    \<in> measure (\<lambda>(lower, aliases, seen, model). card (set (map fst aliases) - set seen))"
    using unseen_fewer [of model "map fst aliases" seen]
    by (metis (mono_tags, lifting) case_prod_conv domI dom_map_of_conv_image_fst in_measure list.set_map)
qed simp

declare alias_from.simps [simp del]

definition expandModelAlias :: "(string \<Rightarrow> string) \<Rightarrow> route_dispatch \<Rightarrow> string \<Rightarrow> route_error + string" where
  "expandModelAlias lower dc model = alias_from lower (dcModelAliases dc) [] (stripModelDecoration lower model)"

text \<open>The expression \<^verbatim>\<open>-(?:[0-9]{4}-[0-9]{2}-[0-9]{2}|[0-9]{8})$\<close>, replaced by nothing.\<close>

definition dated_suffix :: "string \<Rightarrow> bool" where
  "dated_suffix s \<longleftrightarrow> length s = 11 \<and> s ! 0 = CHR ''-'' \<and> s ! 5 = CHR ''-'' \<and> s ! 8 = CHR ''-''
     \<and> list_all (\<lambda>i. is_digit (s ! i)) [1, 2, 3, 4, 6, 7, 9, 10]"

definition compact_suffix :: "string \<Rightarrow> bool" where
  "compact_suffix s \<longleftrightarrow> length s = 9 \<and> s ! 0 = CHR ''-'' \<and> list_all is_digit (drop 1 s)"

definition strip_snapshot :: "string \<Rightarrow> string" where
  "strip_snapshot s =
     (if dated_suffix (drop (length s - 11) s) then take (length s - 11) s
      else if compact_suffix (drop (length s - 9) s) then take (length s - 9) s
      else s)"

definition known_family :: "string \<Rightarrow> bool" where
  "known_family m \<longleftrightarrow> has_prefix ''gpt-'' m \<or> has_prefix ''claude-'' m \<or> has_prefix ''kimi-'' m \<or> has_prefix ''kimi/'' m"

definition CanonicalModelIdentity :: "(string \<Rightarrow> string) \<Rightarrow> route_dispatch \<Rightarrow> string \<Rightarrow> route_error + string" where
  "CanonicalModelIdentity lower dc model =
     sum_bind (expandModelAlias lower dc model) (\<lambda>expanded.
     sum_bind (expandModelAlias lower dc (strip_snapshot expanded)) (\<lambda>expanded.
       if known_family expanded then Inr expanded else Inl (ErrUnknownIdentity model)))"

definition modelLab :: "string \<Rightarrow> string" where
  "modelLab identity =
     (if has_prefix ''gpt-'' identity then ''openai''
      else if has_prefix ''claude-'' identity then ''anthropic''
      else if has_prefix ''kimi'' identity then ''moonshot'' else [])"

section \<open>Other labs first\<close>

definition frontier_labs :: "(string \<Rightarrow> string) \<Rightarrow> routing_config \<Rightarrow> string list" where
  "frontier_labs lower cfg =
     filter (\<lambda>lab. lab \<noteq> [])
       (concat (map (\<lambda>m. case CanonicalModelIdentity lower (cfDispatch cfg) m of Inl _ \<Rightarrow> [] | Inr i \<Rightarrow> [modelLab i])
         (rpFrontierModels (cfReasoning cfg))))"

definition crossLabFirst ::
    "(string \<Rightarrow> string) \<Rightarrow> routing_config \<Rightarrow> candidate list \<Rightarrow> string \<Rightarrow> candidate list \<times> candidate_reorder option" where
  "crossLabFirst lower cfg eligible producerModel =
     (let producerLab = modelLab producerModel in
      if producerLab = [] then (eligible, None)
      else
        let other = (\<lambda>c. modelLab (pfModelIdentity (cdProfile c)) \<noteq> producerLab \<and>
                         modelLab (pfModelIdentity (cdProfile c)) \<in> set (frontier_labs lower cfg));
            ordered = filter other eligible @ filter (\<lambda>c. \<not> other c) eligible
        in if map cdRef eligible = map cdRef ordered then (eligible, None)
           else (ordered, Some \<lparr>crFrom = map cdRef eligible, crTo = map cdRef ordered\<rparr>))"

section \<open>The profiles of a role for a producer\<close>

definition review_role :: "string \<Rightarrow> bool" where
  "review_role role \<longleftrightarrow> role = ''validation'' \<or> role = ''cross-lab-review'' \<or> role = ''plan-review''"

text \<open>The loop over the candidates: aliases are pinned, the producer's own model is excluded.\<close>

fun pin_candidates ::
    "(string \<Rightarrow> string) \<Rightarrow> route_dispatch \<Rightarrow> string \<Rightarrow> string \<Rightarrow> bool \<Rightarrow> candidate list \<Rightarrow>
     resolved_dispatch \<times> candidate list \<Rightarrow> route_error + (resolved_dispatch \<times> candidate list)" where
  "pin_candidates lower dc role producer first [] st = Inr st"
| "pin_candidates lower dc role producer first (c # cs) (d, eligible) =
     sum_bind (expandModelAlias lower dc (pfModel (cdProfile c))) (\<lambda>model.
     sum_bind
       (case CanonicalModelIdentity lower dc model of
          Inl e \<Rightarrow> if review_role role \<or> producer \<noteq> [] then Inl (ErrProfileIdentity (cdRef c) e) else Inr []
        | Inr i \<Rightarrow> Inr i) (\<lambda>identity.
       let p = cdProfile c;
           c' = c\<lparr>cdProfile := p\<lparr>pfModel := model, pfModelIdentity := identity,
                                  pfRole := (if pfRole p = [] then role else pfRole p)\<rparr>\<rparr>
       in if producer \<noteq> [] \<and> identity = rdProducerModel d then
            pin_candidates lower dc role producer False cs
              (d\<lparr>rdExcluded := rdExcluded d @ [\<lparr>exCandidate = c', exReason = ''producer_model_conflict''\<rparr>],
                 rdFallbackReason := (if first then ''producer_model_conflict'' else rdFallbackReason d)\<rparr>, eligible)
          else pin_candidates lower dc role producer False cs (d, eligible @ [c'])))"

definition reorder_eligible ::
    "(string \<Rightarrow> string) \<Rightarrow> routing_config \<Rightarrow> string \<Rightarrow> string \<Rightarrow> resolved_dispatch \<Rightarrow> candidate list \<Rightarrow> resolved_dispatch \<times> candidate list" where
  "reorder_eligible lower cfg role producer d eligible =
     (if producer \<noteq> [] \<and> role \<in> set (dcCrossLabFirst (cfDispatch cfg)) then
        let (ordered, reorder) = crossLabFirst lower cfg eligible (rdProducerModel d)
        in (d\<lparr>rdCrossLabReorder := reorder,
              rdFallbackReason :=
                (if cdRef (hd ordered) \<noteq> cdRef (hd eligible) \<and> rdFallbackReason d = []
                 then ''cross_lab_reorder'' else rdFallbackReason d)\<rparr>, ordered)
      else (d, eligible))"

definition ResolveDispatchRoleForProducer ::
    "(string \<Rightarrow> string) \<Rightarrow> routing_config \<Rightarrow> string \<Rightarrow> string \<Rightarrow> route_error + resolved_dispatch" where
  "ResolveDispatchRoleForProducer lower cfg role producer =
     (case ResolveDispatchRole cfg role of
        None \<Rightarrow> Inl (ErrNoProfile role)
      | Some d \<Rightarrow>
          if review_role role \<and> producer = [] then Inl (ErrProducerRequired role)
          else
            sum_bind
              (if producer = [] then Inr d
               else case CanonicalModelIdentity lower (cfDispatch cfg) producer of
                 Inl e \<Rightarrow> Inl (ErrProducer e)
               | Inr identity \<Rightarrow> Inr (d\<lparr>rdProducerIdentity := producer, rdProducerModel := identity\<rparr>)) (\<lambda>d.
            sum_bind
              (pin_candidates lower (cfDispatch cfg) role producer True
                 (\<lparr>cdRef = rdProfileRef d, cdProfile = rdProfile d\<rparr> # rdFallbackChain d) (d, [])) (\<lambda>(d, eligible).
              if eligible = [] then Inl (ErrNoDistinct role producer)
              else
                let (d, eligible) = reorder_eligible lower cfg role producer d eligible
                in Inr (d\<lparr>rdProfileRef := cdRef (hd eligible), rdProfile := cdProfile (hd eligible),
                          rdFallbackChain := tl eligible,
                          rdValidatorRelationship := (if review_role role then ''different-model'' else rdValidatorRelationship d)\<rparr>))))"

section \<open>Loading the configuration\<close>

definition effortLevels :: "string list" where
  "effortLevels = [''low'', ''medium'', ''high'', ''xhigh'']"

fun check_floors :: "string list \<Rightarrow> string gomap \<Rightarrow> route_error option" where
  "check_floors reasons [] = None"
| "check_floors reasons ((reason, effort) # fs) =
     (if reason \<notin> set reasons then Some (ErrFloorReason reason)
      else if effort \<notin> set effortLevels then Some (ErrFloorEffort reason effort)
      else check_floors reasons fs)"

fun check_exemptions :: "route_dispatch \<Rightarrow> string list gomap \<Rightarrow> route_error option" where
  "check_exemptions dc [] = None"
| "check_exemptions dc ((role, reasons) # es) =
     (if map_of (dcRoles dc) role = None then Some (ErrExemptRole role)
      else case find (\<lambda>r. map_of (dcEffortFloors dc) r = None) reasons of
        Some r \<Rightarrow> Some (ErrExemptFloor role r)
      | None \<Rightarrow> check_exemptions dc es)"

definition validateEffortFloors :: "routing_config \<Rightarrow> route_error option" where
  "validateEffortFloors cfg =
     (case check_floors (rpFrontierReasons (cfReasoning cfg)) (dcEffortFloors (cfDispatch cfg)) of
        Some e \<Rightarrow> Some e
      | None \<Rightarrow> check_exemptions (cfDispatch cfg) (dcEffortFloorExemptions (cfDispatch cfg)))"

fun check_frontier :: "(string \<Rightarrow> string) \<Rightarrow> route_dispatch \<Rightarrow> string list \<Rightarrow> route_error option" where
  "check_frontier lower dc [] = None"
| "check_frontier lower dc (m # ms) =
     (case CanonicalModelIdentity lower dc m of
        Inl e \<Rightarrow> Some (ErrFrontierModel m e)
      | Inr i \<Rightarrow> if modelLab i = [] then Some (ErrFrontierLab m i) else check_frontier lower dc ms)"

definition validateFrontierModels :: "(string \<Rightarrow> string) \<Rightarrow> routing_config \<Rightarrow> route_error option" where
  "validateFrontierModels lower cfg = check_frontier lower (cfDispatch cfg) (rpFrontierModels (cfReasoning cfg))"

text \<open>
  Reading, decoding, hashing and resolving the path are arguments; the roles file is
  optional and a failure to read or decode it leaves no roles.
\<close>

definition LoadConfig ::
    "(string \<Rightarrow> string) \<Rightarrow> (string \<Rightarrow> string option) \<Rightarrow> (string \<Rightarrow> routing_config option) \<Rightarrow>
     (string \<Rightarrow> role_entry gomap option) \<Rightarrow> (string \<Rightarrow> string) \<Rightarrow> (string \<Rightarrow> string) \<Rightarrow> string \<Rightarrow> string \<Rightarrow>
     route_error + routing_config" where
  "LoadConfig lower readFile yaml yamlRoles canonical sha256 routingPath rolesPath =
     (case readFile routingPath of
        None \<Rightarrow> Inl ErrReadConfig
      | Some data \<Rightarrow>
          (case yaml data of
             None \<Rightarrow> Inl ErrParseConfig
           | Some cfg \<Rightarrow>
               let cx = cfComplexity cfg;
                   roles =
                     (if rolesPath = [] then []
                      else case readFile rolesPath of
                        None \<Rightarrow> []
                      | Some rolesData \<Rightarrow> (case yamlRoles rolesData of None \<Rightarrow> [] | Some roles \<Rightarrow> roles));
                   cfg = cfg\<lparr>cfPolicySource := canonical routingPath, cfPolicyHash := sha256 data,
                             cfComplexity := (if cxMode cx = [] then cx\<lparr>cxMode := ''off''\<rparr> else cx),
                             cfCalibration :=
                               (if ccMode (cfCalibration cfg) = [] then \<lparr>ccMode = ''off'', ccDefaulted = True\<rparr>
                                else cfCalibration cfg),
                             cfRoles := roles\<rparr>
               in (case validateFrontierModels lower cfg of
                     Some e \<Rightarrow> Inl e
                   | None \<Rightarrow> (case validateEffortFloors cfg of Some e \<Rightarrow> Inl e | None \<Rightarrow> Inr cfg))))"

end
