(* ===== verification/RouteReasoning.thy ===== *)
theory RouteReasoning
  imports RouteIdentity
begin

text \<open>
  Effort floors and the reasoning contract of a role decision, \<^verbatim>\<open>internal/routing/effort.go\<close>
  and \<^verbatim>\<open>ResolveDecision\<close> of \<^verbatim>\<open>reasoning.go\<close>. A decision that is returned together with an
  error is left out: its only caller drops it.
\<close>

section \<open>Effort floors\<close>

fun slice_index :: "'a \<Rightarrow> 'a list \<Rightarrow> nat option" where
  "slice_index x [] = None"
| "slice_index x (y # ys) = (if x = y then Some 0 else map_option Suc (slice_index x ys))"

definition effortOrder :: "profile \<Rightarrow> string list option" where
  "effortOrder p =
     (if pfBackend p = ''codex'' \<and> has_prefix ''gpt-6-'' (pfModelIdentity p) then Some [''low'', ''medium'', ''high'', ''xhigh'']
      else if pfBackend p = ''codex'' \<and> has_prefix ''gpt-6.1-'' (pfModelIdentity p) then Some [''low'', ''medium'', ''high'', ''xhigh'']
      else if pfBackend p = ''claude'' \<and> has_prefix ''claude-opus-'' (pfModelIdentity p) then Some [''medium'', ''high'']
      else if pfBackend p = ''claude'' \<and> has_prefix ''claude-sonnet-'' (pfModelIdentity p) then Some [''medium'', ''high'']
      else if pfBackend p = ''kimi'' \<and> pfModelIdentity p = ''kimi-code/k3'' then Some [''high'']
      else None)"

definition effort_at_least :: "nat \<Rightarrow> string \<Rightarrow> bool" where
  "effort_at_least threshold effort =
     (case slice_index effort effortLevels of None \<Rightarrow> False | Some k \<Rightarrow> threshold \<le> k)"

definition floor_minimum :: "string list \<Rightarrow> string \<Rightarrow> nat option" where
  "floor_minimum order floor =
     (case slice_index floor effortLevels of
        None \<Rightarrow> None
      | Some threshold \<Rightarrow> find (\<lambda>i. effort_at_least threshold (order ! i)) [0..<length order])"

fun floor_loop ::
    "string list option \<Rightarrow> nat option \<Rightarrow> string gomap \<Rightarrow> string list \<Rightarrow> nat \<Rightarrow> string list \<Rightarrow> (nat \<times> string list) option" where
  "floor_loop order current floors [] target raisedBy = Some (target, raisedBy)"
| "floor_loop order current floors (reason # reasons) target raisedBy =
     (case map_of floors reason of
        None \<Rightarrow> floor_loop order current floors reasons target raisedBy
      | Some floor \<Rightarrow>
          (case (order, current) of
             (Some ord, Some cur) \<Rightarrow>
               (case floor_minimum ord floor of
                  None \<Rightarrow> None
                | Some m \<Rightarrow>
                    if cur < m then floor_loop order current floors reasons (max target m) (raisedBy @ [reason])
                    else floor_loop order current floors reasons target raisedBy)
           | _ \<Rightarrow> None))"

text \<open>No result is the error \<^verbatim>\<open>unsupported_adapter\<close>.\<close>

definition applyEffortFloor :: "profile \<Rightarrow> string list \<Rightarrow> string gomap \<Rightarrow> (profile \<times> string list) option" where
  "applyEffortFloor p reasons floors =
     (let order = effortOrder p;
          current = (case order of None \<Rightarrow> None | Some ord \<Rightarrow> slice_index (pfReasoningEffort p) ord)
      in case floor_loop order current floors reasons (case current of None \<Rightarrow> 0 | Some c \<Rightarrow> c) [] of
           None \<Rightarrow> None
         | Some (target, raisedBy) \<Rightarrow>
             if raisedBy = [] then Some (p, [])
             else Some (p\<lparr>pfReasoningEffort := (case order of None \<Rightarrow> [] | Some ord \<Rightarrow> ord ! target)\<rparr>,
                        remdups_adj (sort raisedBy)))"

section \<open>Decisions\<close>

record reasoning_handoff =
  hoDecisions :: string
  hoConstraints :: string
  hoVerification :: string
  hoEscalation :: string

definition Ready :: "reasoning_handoff option \<Rightarrow> bool" where
  "Ready h =
     (case h of
        None \<Rightarrow> False
      | Some h \<Rightarrow> TrimSpace (hoDecisions h) \<noteq> [] \<and> TrimSpace (hoConstraints h) \<noteq> [] \<and>
                 TrimSpace (hoVerification h) \<noteq> [] \<and> TrimSpace (hoEscalation h) \<noteq> [])"

record decision_context =
  dxEffortOverride :: "string option"
  dxReasons :: "string list"
  dxRationale :: string
  dxDomain :: string
  dxScope :: string
  dxInvestigationActive :: bool
  dxHandoff :: "reasoning_handoff option"
  dxAvailableModels :: "string list option"

record floor_application =
  faProfileRef :: string
  faReasons :: "string list"
  faFrom :: string
  faTo :: string

record override_application =
  oaProfileRef :: string
  oaRequested :: string
  oaApplied :: bool
  oaChanged :: bool
  oaFrom :: string
  oaTo :: string
  oaFinalEffort :: "string option"

record decision = resolved_dispatch +
  dnFloorsApplied :: "floor_application list"
  dnFloorsExempted :: "string list"
  dnEffortOverride :: "override_application option"
  dnPolicySource :: string
  dnPolicyHash :: string
  dnPolicyProfile :: string
  dnClassificationReasons :: "string list"
  dnReviewRequirement :: string
  dnFrontierRequired :: bool
  dnContext :: decision_context

text \<open>What the loop over the candidates accumulates.\<close>

record contract =
  ctExcluded :: "excluded_candidate list"
  ctApplied :: "floor_application list"
  ctOverride :: "override_application option"
  ctEligible :: "candidate list"

record contract_terms =
  tmFrontierRequired :: bool
  tmFrontier :: "string list"
  tmAvailable :: "string list option"
  tmOverride :: "string option"
  tmReasons :: "string list"
  tmFloors :: "string gomap"

definition contract_reason :: "contract_terms \<Rightarrow> profile \<Rightarrow> string" where
  "contract_reason tm p =
     (if tmFrontierRequired tm \<and> pfModelIdentity p \<notin> set (tmFrontier tm) then ''frontier_required''
      else (case tmAvailable tm of
              None \<Rightarrow> []
            | Some av \<Rightarrow> if pfModelIdentity p \<notin> set av then ''model_unavailable'' else []))"

definition start_override :: "contract_terms \<Rightarrow> bool \<Rightarrow> candidate \<Rightarrow> override_application option" where
  "start_override tm first c =
     (case (first, tmOverride tm) of
        (True, Some e) \<Rightarrow>
          Some \<lparr>oaProfileRef = cdRef c, oaRequested = e, oaApplied = False, oaChanged = False,
                oaFrom = pfReasoningEffort (cdProfile c), oaTo = pfReasoningEffort (cdProfile c), oaFinalEffort = None\<rparr>
      | _ \<Rightarrow> None)"

definition apply_override ::
    "override_application option \<Rightarrow> string \<Rightarrow> profile \<Rightarrow> override_application option \<times> string \<times> profile" where
  "apply_override ov reason p =
     (case ov of
        None \<Rightarrow> (None, reason, p)
      | Some a \<Rightarrow>
          (case effortOrder p of
             None \<Rightarrow> (Some a, ''unsupported_adapter'', p)
           | Some order \<Rightarrow>
               if oaRequested a \<notin> set order then (Some a, ''unsupported_adapter'', p)
               else (Some (a\<lparr>oaApplied := True, oaChanged := (oaFrom a \<noteq> oaRequested a), oaTo := oaRequested a\<rparr>),
                     reason, p\<lparr>pfReasoningEffort := oaRequested a\<rparr>)))"

definition contract_floor :: "contract_terms \<Rightarrow> candidate \<Rightarrow> string \<Rightarrow> profile \<Rightarrow> string \<times> profile \<times> floor_application list" where
  "contract_floor tm c reason p =
     (case applyEffortFloor p (tmReasons tm) (tmFloors tm) of
        None \<Rightarrow> (''unsupported_adapter'', p, [])
      | Some (q, raisedBy) \<Rightarrow>
          (reason, q,
           if raisedBy = [] then []
           else [\<lparr>faProfileRef = cdRef c, faReasons = raisedBy, faFrom = pfReasoningEffort p, faTo = pfReasoningEffort q\<rparr>]))"

definition final_override :: "contract_terms \<Rightarrow> profile \<Rightarrow> profile \<Rightarrow> override_application option \<Rightarrow> override_application option" where
  "final_override tm p q ov =
     (case ov of
        Some a \<Rightarrow>
          if oaApplied a \<and> applyEffortFloor p (tmReasons tm) (tmFloors tm) \<noteq> None
          then Some (a\<lparr>oaFinalEffort := Some (pfReasoningEffort q)\<rparr>) else Some a
      | None \<Rightarrow> None)"

text \<open>The body of the loop for one candidate.\<close>

definition contract_step :: "contract_terms \<Rightarrow> bool \<Rightarrow> candidate \<Rightarrow> contract \<Rightarrow> route_error + contract" where
  "contract_step tm first c st =
     (let p = cdProfile c;
          reason = contract_reason tm p;
          ov = start_override tm first c;
          st = (if ov = None then st else st\<lparr>ctOverride := ov\<rparr>)
      in if pfBackend p = [] \<or> pfModel p = [] \<or> pfReasoningEffort p = [] then
           (if reason \<noteq> [] then Inr (st\<lparr>ctExcluded := ctExcluded st @ [\<lparr>exCandidate = c, exReason = reason\<rparr>]\<rparr>)
            else Inl (ErrIncompleteProfile (cdRef c)))
         else
           let (ov, reason, p) = apply_override ov reason p;
               (reason, q, applied) = contract_floor tm c reason p;
               ov = final_override tm p q ov;
               st = (if ov = None then st else st\<lparr>ctOverride := ov\<rparr>)\<lparr>ctApplied := ctApplied st @ applied\<rparr>;
               c' = c\<lparr>cdProfile := q\<rparr>
           in if reason \<noteq> [] then Inr (st\<lparr>ctExcluded := ctExcluded st @ [\<lparr>exCandidate = c', exReason = reason\<rparr>]\<rparr>)
              else Inr (st\<lparr>ctEligible := ctEligible st @ [c']\<rparr>))"

fun contract_loop :: "contract_terms \<Rightarrow> bool \<Rightarrow> candidate list \<Rightarrow> contract \<Rightarrow> route_error + contract" where
  "contract_loop tm first [] st = Inr st"
| "contract_loop tm first (c # cs) st = sum_bind (contract_step tm first c st) (contract_loop tm False cs)"

fun map_identities :: "(string \<Rightarrow> string) \<Rightarrow> route_dispatch \<Rightarrow> string list \<Rightarrow> route_error + string list" where
  "map_identities lower dc [] = Inr []"
| "map_identities lower dc (m # ms) =
     sum_bind (CanonicalModelIdentity lower dc m) (\<lambda>i. sum_bind (map_identities lower dc ms) (\<lambda>is. Inr (i # is)))"

text \<open>No list of models means that access was not probed.\<close>

definition available_identities :: "(string \<Rightarrow> string) \<Rightarrow> route_dispatch \<Rightarrow> decision_context \<Rightarrow> route_error + string list option" where
  "available_identities lower dc c =
     (case dxAvailableModels c of
        None \<Rightarrow> Inr None
      | Some ms \<Rightarrow> sum_bind (map_identities lower dc ms) (\<lambda>is. Inr (Some is)))"

definition bad_override :: "decision_context \<Rightarrow> string option" where
  "bad_override c =
     (case dxEffortOverride c of None \<Rightarrow> None | Some e \<Rightarrow> if e \<in> set effortLevels then None else Some e)"

fun check_reasons :: "reasoning_policy \<Rightarrow> string list \<Rightarrow> string \<Rightarrow> route_error + string" where
  "check_reasons rp [] review = Inr review"
| "check_reasons rp (reason # rs) review =
     (if reason \<notin> set (rpFrontierReasons rp) then Inl (ErrClassification reason)
      else check_reasons rp rs (if reason \<in> set (rpDualReviewReasons rp) then ''other-frontier'' else review))"

definition profile_roles :: "routing_config \<Rightarrow> string \<Rightarrow> string \<Rightarrow> route_error + string gomap" where
  "profile_roles cfg policyProfile scope =
     (if policyProfile = ''default'' then Inr (dcRoles (cfDispatch cfg))
      else case map_of (rpProfiles (cfReasoning cfg)) policyProfile of
        None \<Rightarrow> Inl (ErrPolicyProfile policyProfile)
      | Some p \<Rightarrow>
          if ppScope p \<noteq> [] \<and> ppScope p \<noteq> scope then Inl (ErrPolicyScope policyProfile (ppScope p))
          else Inr (ppRoles p @ dcRoles (cfDispatch cfg)))"

definition select_role :: "string \<Rightarrow> decision_context \<Rightarrow> string \<Rightarrow> string \<times> bool" where
  "select_role role c review =
     (let elevated = (dxReasons c \<noteq> [] \<or> dxInvestigationActive c) in
      if role = ''planning'' then (if elevated then (''frontier-planning'', True) else (role, False))
      else if role = ''frontier-planning'' \<or> role = ''escalation'' then (role, True)
      else if role = ''plan-review'' then (role, review = ''other-frontier'')
      else if role = ''routine-execution'' \<or> role = ''deep-execution'' then
        (if elevated \<and> (\<not> Ready (dxHandoff c) \<or> dxInvestigationActive c) then (''deep-execution'', True) else (role, False))
      else (role, False))"

definition trim_reorder :: "candidate list \<Rightarrow> candidate_reorder option \<Rightarrow> candidate_reorder option" where
  "trim_reorder eligible reorder =
     (case reorder of
        None \<Rightarrow> None
      | Some r \<Rightarrow>
          let keep = filter (\<lambda>ref. ref \<in> set (map cdRef eligible)) in
          if keep (crFrom r) = keep (crTo r) then None
          else Some \<lparr>crFrom = keep (crFrom r), crTo = keep (crTo r)\<rparr>)"

definition final_reason :: "resolved_dispatch \<Rightarrow> candidate_reorder option \<Rightarrow> string \<Rightarrow> string" where
  "final_reason resolved trimmed ref =
     (let policyPrimary = (case rdCrossLabReorder resolved of Some r \<Rightarrow> hd (crFrom r) | None \<Rightarrow> rdProfileRef resolved);
          reason =
            (if rdFallbackReason resolved = ''cross_lab_reorder'' then
               (case trimmed of
                  Some r \<Rightarrow> if hd (crFrom r) \<noteq> hd (crTo r) then ''cross_lab_reorder'' else []
                | None \<Rightarrow> [])
             else rdFallbackReason resolved)
      in if reason = [] \<and> (ref \<noteq> policyPrimary \<or> ref \<noteq> rdProfileRef resolved) then ''reasoning_contract'' else reason)"

definition exempted :: "route_dispatch \<Rightarrow> string \<Rightarrow> string \<Rightarrow> bool" where
  "exempted dc role reason =
     (case map_of (dcEffortFloorExemptions dc) role of None \<Rightarrow> False | Some rs \<Rightarrow> reason \<in> set rs)"

definition contract_of ::
    "route_dispatch \<Rightarrow> string \<Rightarrow> decision_context \<Rightarrow> bool \<Rightarrow> string list \<Rightarrow> string list option \<Rightarrow> contract_terms" where
  "contract_of dc role c frontierRequired frontier available =
     \<lparr>tmFrontierRequired = frontierRequired, tmFrontier = frontier, tmAvailable = available,
      tmOverride = dxEffortOverride c, tmReasons = filter (\<lambda>r. \<not> exempted dc role r) (dxReasons c),
      tmFloors = dcEffortFloors dc\<rparr>"

definition decide ::
    "routing_config \<Rightarrow> route_dispatch \<Rightarrow> string \<Rightarrow> string \<Rightarrow> decision_context \<Rightarrow> string \<Rightarrow> bool \<Rightarrow>
     resolved_dispatch \<Rightarrow> contract \<Rightarrow> route_error + decision" where
  "decide cfg dc role policyProfile c review frontierRequired resolved st =
     (case ctEligible st of
        [] \<Rightarrow> Inl (ErrNoEligible role)
      | e # es \<Rightarrow>
          let trimmed = trim_reorder (e # es) (rdCrossLabReorder resolved)
          in Inr (resolved_dispatch.extend
                (resolved\<lparr>rdRequestedRole := role, rdExcluded := rdExcluded resolved @ ctExcluded st,
                   rdProfileRef := cdRef e, rdProfile := cdProfile e, rdFallbackChain := es,
                   rdCrossLabReorder := trimmed,
                   rdFallbackReason := final_reason resolved trimmed (cdRef e)\<rparr>)
                \<lparr>dnFloorsApplied = ctApplied st, dnFloorsExempted = filter (exempted dc role) (dxReasons c),
                 dnEffortOverride = ctOverride st, dnPolicySource = cfPolicySource cfg, dnPolicyHash = cfPolicyHash cfg,
                 dnPolicyProfile = policyProfile, dnClassificationReasons = dxReasons c,
                 dnReviewRequirement = review, dnFrontierRequired = frontierRequired, dnContext = c\<rparr>))"

text \<open>From the merged roles on.\<close>

definition resolve_contract ::
    "(string \<Rightarrow> string) \<Rightarrow> routing_config \<Rightarrow> string \<Rightarrow> string \<Rightarrow> string \<Rightarrow> decision_context \<Rightarrow> string \<Rightarrow> string gomap \<Rightarrow>
     route_error + decision" where
  "resolve_contract lower cfg role producer policyProfile c review roles =
     (let (selectedRole, frontierRequired) = select_role role c review;
          dc = (cfDispatch cfg)\<lparr>dcRoles := roles\<rparr>;
          cfg2 = cfg\<lparr>cfDispatch := dc\<rparr>
      in if dxInvestigationActive c \<and> dxReasons c = [] then Inl ErrInvestigation
         else
           sum_bind (ResolveDispatchRoleForProducer lower cfg2 selectedRole producer) (\<lambda>resolved.
           sum_bind (available_identities lower dc c) (\<lambda>available.
           sum_bind (map_identities lower dc (rpFrontierModels (cfReasoning cfg))) (\<lambda>frontier.
           sum_bind
             (contract_loop (contract_of dc role c frontierRequired frontier available) True
                (\<lparr>cdRef = rdProfileRef resolved, cdProfile = rdProfile resolved\<rparr> # rdFallbackChain resolved)
                \<lparr>ctExcluded = [], ctApplied = [], ctOverride = None, ctEligible = []\<rparr>) (\<lambda>st.
             decide cfg dc role policyProfile c review frontierRequired resolved st)))))"

definition ResolveDecision ::
    "(string \<Rightarrow> string) \<Rightarrow> routing_config \<Rightarrow> string \<Rightarrow> string \<Rightarrow> string \<Rightarrow> decision_context \<Rightarrow> route_error + decision" where
  "ResolveDecision lower cfg role producer policyProfile0 c =
     (let policyProfile = (if policyProfile0 = [] then ''default'' else policyProfile0) in
      case validateEffortFloors cfg of
        Some e \<Rightarrow> Inl e
      | None \<Rightarrow>
      case bad_override c of
        Some e \<Rightarrow> Inl (ErrOverrideEffort e)
      | None \<Rightarrow>
          if dxReasons c \<noteq> [] \<and> TrimSpace (dxRationale c) = [] then Inl ErrRationale
          else
            sum_bind (check_reasons (cfReasoning cfg) (dxReasons c) ''existing-gates'') (\<lambda>review.
            sum_bind (profile_roles cfg policyProfile (dxScope c)) (\<lambda>roles.
            resolve_contract lower cfg role producer policyProfile c review roles)))"

end
