(* ===== verification/RouteProps.thy ===== *)
theory RouteProps
  imports RouteReasoning
begin

text \<open>
  What a role decision guarantees: its fallback chain is the set of reachable profiles, no
  candidate is of the producer's model, and every candidate meets the reasoning contract.
\<close>

section \<open>Fallback chains\<close>

text \<open>
  Which profile a reference stands for: itself if a profile of that name is configured, otherwise
  whatever its alias stands for, through any number of aliases.
\<close>

inductive leads_to :: "route_dispatch \<Rightarrow> string \<Rightarrow> string \<Rightarrow> bool" for dc where
  here: "ref \<noteq> '''' \<Longrightarrow> map_of (dcTiers dc) ref = Some p \<Longrightarrow> leads_to dc ref ref"
| follow: "ref \<noteq> '''' \<Longrightarrow> map_of (dcTiers dc) ref = None \<Longrightarrow> map_of (dcFallback dc) ref = Some ref' \<Longrightarrow>
     leads_to dc ref' a \<Longrightarrow> leads_to dc ref a"

text \<open>The same with the number of aliases, which is unique.\<close>

inductive leads_in :: "route_dispatch \<Rightarrow> nat \<Rightarrow> string \<Rightarrow> string \<Rightarrow> bool" for dc where
  here: "ref \<noteq> '''' \<Longrightarrow> map_of (dcTiers dc) ref = Some p \<Longrightarrow> leads_in dc 0 ref ref"
| follow: "ref \<noteq> '''' \<Longrightarrow> map_of (dcTiers dc) ref = None \<Longrightarrow> map_of (dcFallback dc) ref = Some ref' \<Longrightarrow>
     leads_in dc n ref' a \<Longrightarrow> leads_in dc (Suc n) ref a"

lemma leads_to_in: "leads_to dc ref a \<Longrightarrow> \<exists>n. leads_in dc n ref a"
  by (induction rule: leads_to.induct) (blast intro: leads_in.intros)+

lemma leads_in_unique: "leads_in dc n ref a \<Longrightarrow> leads_in dc m ref b \<Longrightarrow> m = n"
proof (induction arbitrary: m rule: leads_in.induct)
  case (here ref p)
  from here(3,1,2) show ?case by cases auto
next
  case (follow ref ref' n a)
  from follow.prems follow.hyps follow.IH show ?case by cases auto
qed

lemma leads_in_lookup:
  "leads_in dc n ref a \<Longrightarrow> (\<And>s m b. s \<in> set seen \<Longrightarrow> leads_in dc m s b \<Longrightarrow> n < m) \<Longrightarrow> \<exists>p. lookup_from dc seen ref = Some (a, p)"
proof (induction arbitrary: seen rule: leads_in.induct)
  case (here ref p)
  then have "ref \<notin> set seen" using leads_in.here by blast
  with here show ?case by (simp add: lookup_from.simps)
next
  case (follow ref ref' n a)
  have own: "leads_in dc (Suc n) ref a" using follow.hyps by (rule leads_in.follow)
  then have "ref \<notin> set seen" using follow.prems by blast
  moreover have "\<exists>p. lookup_from dc (ref # seen) ref' = Some (a, p)"
  proof (rule follow.IH)
    show "n < m" if "s \<in> set (ref # seen)" "leads_in dc m s b" for s m b
      using that follow.prems [of s m b] leads_in_unique [OF own, of m b] by auto
  qed
  ultimately show ?case using follow.hyps by (simp add: lookup_from.simps [of dc seen ref])
qed

lemma lookup_from_leads: "lookup_from dc seen ref = Some (a, p) \<Longrightarrow> leads_to dc ref a"
proof (induction dc seen ref rule: lookup_from.induct)
  case (1 dc seen ref)
  from 1(2) have ref: "ref \<noteq> ''''" "ref \<notin> set seen" by (auto simp: lookup_from.simps [of dc seen ref] split: if_splits)
  show ?case
  proof (cases "map_of (dcTiers dc) ref")
    case (Some q)
    with 1(2) ref show ?thesis by (auto simp: lookup_from.simps [of dc seen ref] intro: leads_to.here)
  next
    case None
    let ?next = "case map_of (dcFallback dc) ref of Some next \<Rightarrow> next | None \<Rightarrow> []"
    have l: "lookup_from dc (ref # seen) ?next = Some (a, p)" using 1(2) ref None by (simp add: lookup_from.simps [of dc seen ref])
    then have ne: "?next \<noteq> []" by (auto simp: lookup_from.simps)
    then obtain ref' where "map_of (dcFallback dc) ref = Some ref'" by (auto split: option.splits)
    with 1(1) [OF _ None l] ref None show ?thesis by (auto intro: leads_to.follow)
  qed
qed

text \<open>The loop of the code finds exactly the profile a reference stands for.\<close>

lemma lookup_iff: "(\<exists>p. lookupDispatchProfile dc ref = Some (a, p)) \<longleftrightarrow> leads_to dc ref a"
proof
  assume "leads_to dc ref a"
  then obtain n where "leads_in dc n ref a" using leads_to_in by blast
  from leads_in_lookup [OF this, of "[]"] show "\<exists>p. lookupDispatchProfile dc ref = Some (a, p)"
    by (simp add: lookupDispatchProfile_def)
qed (auto simp: lookupDispatchProfile_def dest: lookup_from_leads)

text \<open>A step from a profile to one that an entry of its list of fallbacks stands for.\<close>

definition fallback_edge :: "route_dispatch \<Rightarrow> (string \<times> string) set" where
  "fallback_edge dc =
     {(a, b). \<exists>p ref. map_of (dcTiers dc) a = Some p \<and> ref \<in> set (pfFallbacks p) \<and> leads_to dc ref b}"

lemma fallback_edge_lookup:
  "fallback_edge dc =
     {(a, b). \<exists>p ref q. map_of (dcTiers dc) a = Some p \<and> ref \<in> set (pfFallbacks p) \<and> lookupDispatchProfile dc ref = Some (b, q)}"
  unfolding fallback_edge_def lookup_iff [symmetric] by blast

definition chain_added :: "route_dispatch \<Rightarrow> string list \<Rightarrow> string list \<Rightarrow> candidate list \<Rightarrow> bool" where
  "chain_added dc refs seen new \<longleftrightarrow>
     distinct (map cdRef new) \<and> set (map cdRef new) \<inter> set seen = {} \<and>
     (\<forall>c \<in> set new. map_of (dcTiers dc) (cdRef c) = Some (cdProfile c) \<and>
        (\<exists>ref \<in> set refs. \<exists>b q. lookupDispatchProfile dc ref = Some (b, q) \<and> (b, cdRef c) \<in> (fallback_edge dc)\<^sup>*)) \<and>
     (\<forall>ref \<in> set refs. \<forall>b q. lookupDispatchProfile dc ref = Some (b, q) \<longrightarrow> b \<in> cdRef ` set new \<union> set seen) \<and>
     (\<forall>c \<in> set new. \<forall>b. (cdRef c, b) \<in> fallback_edge dc \<longrightarrow> b \<in> cdRef ` set new \<union> set seen)"

lemma chain_added_Nil: "chain_added dc [] seen []"
  by (simp add: chain_added_def)

lemma chain_added_skip:
  assumes "chain_added dc refs seen new"
    and "\<And>b q. lookupDispatchProfile dc ref = Some (b, q) \<Longrightarrow> b \<in> set seen"
  shows "chain_added dc (ref # refs) seen new"
  using assms unfolding chain_added_def by auto

lemma chain_added_visit:
  assumes l: "lookupDispatchProfile dc ref = Some (a, p)" and a: "a \<notin> set seen"
    and inner: "chain_added dc (pfFallbacks p) (a # seen) new1"
    and outer: "chain_added dc refs (rev (map cdRef new1) @ a # seen) new2"
  shows "chain_added dc (ref # refs) seen (\<lparr>cdRef = a, cdProfile = p\<rparr> # new1 @ new2)"
proof -
  have t: "map_of (dcTiers dc) a = Some p" by (rule lookup_Some [OF l])
  have step: "(a, b) \<in> fallback_edge dc \<longleftrightarrow> (\<exists>ref \<in> set (pfFallbacks p). \<exists>q. lookupDispatchProfile dc ref = Some (b, q))" for b
    by (auto simp: fallback_edge_lookup t)
  have reach: "\<exists>ref' \<in> set (ref # refs). \<exists>b q. lookupDispatchProfile dc ref' = Some (b, q) \<and> (b, cdRef c) \<in> (fallback_edge dc)\<^sup>*"
    if "c \<in> set new1" for c
  proof -
    from inner that obtain r b q where "r \<in> set (pfFallbacks p)" "lookupDispatchProfile dc r = Some (b, q)"
      "(b, cdRef c) \<in> (fallback_edge dc)\<^sup>*" unfolding chain_added_def by blast
    then have "(a, cdRef c) \<in> (fallback_edge dc)\<^sup>*" using step [of b] by (meson converse_rtrancl_into_rtrancl)
    with l show ?thesis by auto
  qed
  have d: "distinct (a # map cdRef new1 @ map cdRef new2)" "insert a (cdRef ` set new1 \<union> cdRef ` set new2) \<inter> set seen = {}"
    using inner outer a unfolding chain_added_def by auto
  have succ: "b \<in> insert a (cdRef ` set new1 \<union> cdRef ` set new2) \<union> set seen" if "(a, b) \<in> fallback_edge dc" for b
    using inner that unfolding step chain_added_def by auto
  show ?thesis
    unfolding chain_added_def
  proof (intro conjI)
    show "distinct (map cdRef (\<lparr>cdRef = a, cdProfile = p\<rparr> # new1 @ new2))" using d(1) by simp
    show "set (map cdRef (\<lparr>cdRef = a, cdProfile = p\<rparr> # new1 @ new2)) \<inter> set seen = {}" using d(2) by auto
    show "\<forall>c \<in> set (\<lparr>cdRef = a, cdProfile = p\<rparr> # new1 @ new2). map_of (dcTiers dc) (cdRef c) = Some (cdProfile c) \<and>
        (\<exists>ref' \<in> set (ref # refs). \<exists>b q. lookupDispatchProfile dc ref' = Some (b, q) \<and> (b, cdRef c) \<in> (fallback_edge dc)\<^sup>*)"
    proof
      fix c assume "c \<in> set (\<lparr>cdRef = a, cdProfile = p\<rparr> # new1 @ new2)"
      then consider "c = \<lparr>cdRef = a, cdProfile = p\<rparr>" | "c \<in> set new1" | "c \<in> set new2" by auto
      then show "map_of (dcTiers dc) (cdRef c) = Some (cdProfile c) \<and>
        (\<exists>ref' \<in> set (ref # refs). \<exists>b q. lookupDispatchProfile dc ref' = Some (b, q) \<and> (b, cdRef c) \<in> (fallback_edge dc)\<^sup>*)"
      proof cases
        case 1
        with t l show ?thesis by auto
      next
        case 2
        moreover from inner 2 have "map_of (dcTiers dc) (cdRef c) = Some (cdProfile c)" by (simp add: chain_added_def)
        ultimately show ?thesis using reach by simp
      next
        case 3
        with outer have "map_of (dcTiers dc) (cdRef c) = Some (cdProfile c) \<and>
          (\<exists>ref' \<in> set refs. \<exists>b q. lookupDispatchProfile dc ref' = Some (b, q) \<and> (b, cdRef c) \<in> (fallback_edge dc)\<^sup>*)"
          by (simp add: chain_added_def)
        then show ?thesis by (meson list.set_intros(2))
      qed
    qed
    show "\<forall>ref' \<in> set (ref # refs). \<forall>b q. lookupDispatchProfile dc ref' = Some (b, q) \<longrightarrow>
        b \<in> cdRef ` set (\<lparr>cdRef = a, cdProfile = p\<rparr> # new1 @ new2) \<union> set seen"
      using outer l unfolding chain_added_def by (auto simp: image_Un)
    show "\<forall>c \<in> set (\<lparr>cdRef = a, cdProfile = p\<rparr> # new1 @ new2). \<forall>b. (cdRef c, b) \<in> fallback_edge dc \<longrightarrow>
        b \<in> cdRef ` set (\<lparr>cdRef = a, cdProfile = p\<rparr> # new1 @ new2) \<union> set seen"
      using inner outer succ unfolding chain_added_def by (auto simp: image_Un)
  qed
qed

lemma appendFallbacks_adds:
  "\<exists>new. appendFallbacks dc refs st = (rev (map cdRef new) @ fst st, snd st @ new) \<and> chain_added dc refs (fst st) new"
proof (induction dc refs st rule: appendFallbacks.induct)
  case (1 dc st)
  show ?case by (rule exI [of _ "[]"]) (simp add: chain_added_Nil)
next
  case (2 dc ref refs st)
  show ?case
  proof (cases "lookupDispatchProfile dc ref")
    case None
    from 2(1) [OF None] obtain new where
      "appendFallbacks dc refs st = (rev (map cdRef new) @ fst st, snd st @ new)" "chain_added dc refs (fst st) new" by blast
    with chain_added_skip [of dc refs "fst st" new ref] None show ?thesis by auto
  next
    case (Some x)
    obtain a p where x: "x = (a, p)" by (cases x)
    show ?thesis
    proof (cases "a \<in> set (fst st)")
      case True
      from 2(2) [OF Some x [symmetric] True] obtain new where
        "appendFallbacks dc refs st = (rev (map cdRef new) @ fst st, snd st @ new)" "chain_added dc refs (fst st) new" by blast
      with chain_added_skip [of dc refs "fst st" new ref] Some x True show ?thesis by auto
    next
      case False
      let ?st = "(a # fst st, snd st @ [\<lparr>cdRef = a, cdProfile = p\<rparr>])"
      from 2(3) [OF Some x [symmetric] False] obtain new1 where
        1: "appendFallbacks dc (pfFallbacks p) ?st = (rev (map cdRef new1) @ a # fst st, snd ?st @ new1)"
          "chain_added dc (pfFallbacks p) (a # fst st) new1" by auto
      from 2(4) [OF Some x [symmetric] False] obtain new2 where
        2: "appendFallbacks dc refs (rev (map cdRef new1) @ a # fst st, snd ?st @ new1)
              = (rev (map cdRef new2) @ rev (map cdRef new1) @ a # fst st, snd ?st @ new1 @ new2)"
          "chain_added dc refs (rev (map cdRef new1) @ a # fst st) new2"
        unfolding 1(1) by auto
      from chain_added_visit [OF Some [unfolded x] False 1(2) 2(2)] show ?thesis
        using Some x False 1(1) 2(1) by (intro exI [of _ "\<lparr>cdRef = a, cdProfile = p\<rparr> # new1 @ new2"]) simp
    qed
  qed
qed

lemma resolved_chain:
  assumes "resolveDispatch dc ref = Some d"
  shows "leads_to dc ref (rdProfileRef d) \<and> distinct (rdProfileRef d # map cdRef (rdFallbackChain d)) \<and>
    set (rdProfileRef d # map cdRef (rdFallbackChain d)) = {b. (rdProfileRef d, b) \<in> (fallback_edge dc)\<^sup>*} \<and>
    map_of (dcTiers dc) (rdProfileRef d) = Some (rdProfile d) \<and>
    list_all (\<lambda>c. map_of (dcTiers dc) (cdRef c) = Some (cdProfile c)) (rdFallbackChain d)"
proof -
  obtain a p where l: "lookupDispatchProfile dc ref = Some (a, p)"
    and d: "rdProfileRef d = a" "rdProfile d = p" "rdFallbackChain d = snd (appendFallbacks dc (pfFallbacks p) ([a], []))"
    using assms by (auto simp: resolveDispatch_def split: option.splits)
  have t: "map_of (dcTiers dc) a = Some p" by (rule lookup_Some [OF l])
  from appendFallbacks_adds [of dc "pfFallbacks p" "([a], [])"] obtain new where
    new: "rdFallbackChain d = new" "chain_added dc (pfFallbacks p) [a] new" unfolding d by auto
  have step: "(a, b) \<in> fallback_edge dc \<longleftrightarrow> (\<exists>ref \<in> set (pfFallbacks p). \<exists>q. lookupDispatchProfile dc ref = Some (b, q))" for b
    by (auto simp: fallback_edge_lookup t)
  have in_chain: "(a, cdRef c) \<in> (fallback_edge dc)\<^sup>*" if "c \<in> set new" for c
    using new(2) that step unfolding chain_added_def by (meson converse_rtrancl_into_rtrancl)
  have closed: "y \<in> insert a (cdRef ` set new)" if "(x, y) \<in> fallback_edge dc" "x \<in> insert a (cdRef ` set new)" for x y
    using new(2) that step [of y] unfolding chain_added_def by auto
  have "b \<in> insert a (cdRef ` set new)" if "(a, b) \<in> (fallback_edge dc)\<^sup>*" for b
    using that by (induction rule: rtrancl_induct) (rule insertI1, rule closed)
  with in_chain have "insert a (cdRef ` set new) = {b. (a, b) \<in> (fallback_edge dc)\<^sup>*}" by auto
  moreover have "leads_to dc ref a" using l lookup_iff by blast
  ultimately show ?thesis using new t d by (auto simp: chain_added_def list_all_iff)
qed

text \<open>
  C36. A dispatch reference resolves exactly when it stands for a configured profile, itself or
  through any number of aliases of missing profiles. The result is that profile, and its
  chain is what its fallbacks reach: the primary profile and the chain name each profile once, with
  its configuration, and together they are the profiles reachable by following the lists of
  fallbacks, each entry read through the aliases, cycles or not.
\<close>

theorem fallback_chain_reachable:
  "case resolveDispatch dc ref of
     None \<Rightarrow> {b. leads_to dc ref b} = {}
   | Some d \<Rightarrow>
       leads_to dc ref (rdProfileRef d) \<and>
       distinct (rdProfileRef d # map cdRef (rdFallbackChain d)) \<and>
       set (rdProfileRef d # map cdRef (rdFallbackChain d)) = {b. (rdProfileRef d, b) \<in> (fallback_edge dc)\<^sup>*} \<and>
       map_of (dcTiers dc) (rdProfileRef d) = Some (rdProfile d) \<and>
       list_all (\<lambda>c. map_of (dcTiers dc) (cdRef c) = Some (cdProfile c)) (rdFallbackChain d)"
proof (cases "resolveDispatch dc ref")
  case None
  then have "lookupDispatchProfile dc ref = None" by (auto simp: resolveDispatch_def split: option.splits)
  with None show ?thesis using lookup_iff [of dc ref] by auto
next
  case (Some d)
  with resolved_chain [OF Some] show ?thesis by simp
qed

section \<open>Effort floors\<close>

lemma find_first_le: "find P [0..<n] = Some m \<Longrightarrow> i < n \<Longrightarrow> P i \<Longrightarrow> m \<le> i"
  by (auto simp: find_Some_iff) (metis linorder_not_le)

lemma find_upt_Some: "find P [0..<n] = Some m \<Longrightarrow> m < n \<and> P m"
  by (auto simp: find_Some_iff)

lemma slice_index_Some: "slice_index x xs = Some i \<Longrightarrow> i < length xs \<and> xs ! i = x"
  by (induction xs arbitrary: i) (auto split: if_splits)

definition floor_met :: "string gomap \<Rightarrow> string \<Rightarrow> string \<Rightarrow> bool" where
  "floor_met floors effort reason =
     (case map_of floors reason of
        None \<Rightarrow> True
      | Some floor \<Rightarrow> (case slice_index floor effortLevels of None \<Rightarrow> False | Some k \<Rightarrow> effort_at_least k effort))"

lemma effortOrder_mono:
  assumes "effortOrder p = Some ord" "i \<le> j" "j < length ord" "effort_at_least k (ord ! i)"
  shows "effort_at_least k (ord ! j)"
proof -
  have "ord \<in> {[''low'', ''medium'', ''high'', ''xhigh''], [''medium'', ''high''], [''high'']}"
    using assms(1) by (auto simp: effortOrder_def split: if_splits)
  with assms(2-4) show ?thesis
    by (auto simp: effort_at_least_def effortLevels_def less_Suc_eq le_Suc_eq numeral_eq_Suc)
qed

lemma floor_loop_Some:
  assumes "floor_loop (Some ord) (Some cur) floors rs target raised = Some (t, rb)" "cur \<le> target"
  shows "target \<le> t
    \<and> (\<forall>r \<in> set rs. \<forall>fl. map_of floors r = Some fl \<longrightarrow> (\<exists>m. floor_minimum ord fl = Some m \<and> m \<le> t))
    \<and> (t = target \<or> (\<exists>r \<in> set rs. \<exists>fl. map_of floors r = Some fl \<and> floor_minimum ord fl = Some t))
    \<and> (\<exists>new. rb = raised @ new \<and> (new = [] \<longrightarrow> t = target))"
  using assms
proof (induction rs arbitrary: target raised)
  case (Cons r rs)
  show ?case
  proof (cases "map_of floors r")
    case None
    with Cons show ?thesis by auto
  next
    case (Some fl)
    with Cons.prems(1) obtain m where m: "floor_minimum ord fl = Some m" by (auto split: option.splits)
    show ?thesis
    proof (cases "cur < m")
      case True
      from Cons.prems Some m True have
        "floor_loop (Some ord) (Some cur) floors rs (max target m) (raised @ [r]) = Some (t, rb)" "cur \<le> max target m" by auto
      from Cons.IH [OF this] Some m show ?thesis by (auto simp: max_def split: if_splits)
    next
      case False
      with Cons Some m show ?thesis by fastforce
    qed
  qed
qed simp

lemma floor_loop_unknown:
  assumes "floor_loop order cur floors rs target raised = Some (t, rb)" "order = None \<or> cur = None"
  shows "t = target \<and> rb = raised \<and> list_all (\<lambda>r. map_of floors r = None) rs"
  using assms by (induction rs) (auto split: option.splits)

text \<open>The lowest effort of the adapter's order from the profile's on that meets every floor.\<close>

lemma applyEffortFloor_least:
  assumes "applyEffortFloor p reasons floors = Some (q, raised)"
  shows "q = p\<lparr>pfReasoningEffort := pfReasoningEffort q\<rparr> \<and>
    list_all (floor_met floors (pfReasoningEffort q)) reasons \<and>
    (\<forall>ord i. effortOrder p = Some ord \<and> slice_index (pfReasoningEffort p) ord = Some i \<longrightarrow>
      (\<exists>t. i \<le> t \<and> t < length ord \<and> pfReasoningEffort q = ord ! t \<and>
        (\<forall>j. i \<le> j \<and> j < length ord \<and> list_all (floor_met floors (ord ! j)) reasons \<longrightarrow> t \<le> j)))"
proof (cases "\<exists>ord i. effortOrder p = Some ord \<and> slice_index (pfReasoningEffort p) ord = Some i")
  case True
  then obtain ord i where o: "effortOrder p = Some ord" "slice_index (pfReasoningEffort p) ord = Some i" by blast
  with assms obtain t rb where l: "floor_loop (Some ord) (Some i) floors reasons i [] = Some (t, rb)"
    and q: "q = (if rb = [] then p else p\<lparr>pfReasoningEffort := ord ! t\<rparr>)"
    by (auto simp: applyEffortFloor_def Let_def split: option.splits if_splits)
  note f = floor_loop_Some [OF l order_refl]
  have i: "i < length ord" "ord ! i = pfReasoningEffort p" using slice_index_Some [OF o(2)] by auto
  have min: "floor_minimum ord fl = Some m \<Longrightarrow>
      \<exists>k. slice_index fl effortLevels = Some k \<and> m < length ord \<and> effort_at_least k (ord ! m) \<and>
        (\<forall>j < length ord. effort_at_least k (ord ! j) \<longrightarrow> m \<le> j)" for fl m
    by (auto simp: floor_minimum_def split: option.splits dest: find_upt_Some intro: find_first_le)
  have t: "t < length ord" using f i(1) min by blast
  have e: "pfReasoningEffort q = ord ! t" using f i(2) by (auto simp: q)
  have "floor_met floors (ord ! t) r" if rr: "r \<in> set reasons" for r
  proof (cases "map_of floors r")
    case (Some fl)
    then obtain m where m: "floor_minimum ord fl = Some m" "m \<le> t" using f rr by blast
    with min [OF m(1)] effortOrder_mono [OF o(1) m(2) t] Some show ?thesis by (auto simp: floor_met_def)
  qed (simp add: floor_met_def)
  moreover have "t \<le> j" if "i \<le> j" "j < length ord" "list_all (floor_met floors (ord ! j)) reasons" for j
  proof (cases "t = i")
    case False
    then obtain r fl where r: "r \<in> set reasons" "map_of floors r = Some fl" "floor_minimum ord fl = Some t" using f by blast
    with that have "floor_met floors (ord ! j) r" by (simp add: list_all_iff)
    with r(2) min [OF r(3)] that(2) show ?thesis by (auto simp: floor_met_def)
  qed (use that in simp)
  moreover have "i \<le> t" using f by blast
  ultimately show ?thesis using o e t by (auto simp: q list_all_iff)
next
  case False
  let ?cur = "case effortOrder p of None \<Rightarrow> None | Some ord \<Rightarrow> slice_index (pfReasoningEffort p) ord"
  from assms obtain t rb where l:
    "floor_loop (effortOrder p) ?cur floors reasons (case ?cur of None \<Rightarrow> 0 | Some c \<Rightarrow> c) [] = Some (t, rb)"
    "q = (if rb = [] then p else q)"
    by (auto simp: applyEffortFloor_def Let_def split: option.splits if_splits)
  have "effortOrder p = None \<or> ?cur = None" using False by (auto split: option.splits)
  from floor_loop_unknown [OF l(1) this] l(2) False show ?thesis
    by (auto simp: floor_met_def list_all_iff)
qed

section \<open>The producer's own model\<close>

definition pinned :: "(string \<Rightarrow> string) \<Rightarrow> route_dispatch \<Rightarrow> string \<Rightarrow> string \<Rightarrow> string \<Rightarrow> profile \<Rightarrow> bool" where
  "pinned lower dc role producer own p \<longleftrightarrow>
     (review_role role \<or> producer \<noteq> [] \<longrightarrow> CanonicalModelIdentity lower dc (pfModel p) = Inr (pfModelIdentity p)) \<and>
     (producer \<noteq> [] \<longrightarrow> pfModelIdentity p \<noteq> own)"

lemma pin_candidates_Inr:
  assumes "pin_candidates lower dc role producer first cs (d, el) = Inr (d', el')"
  shows "rdProducerModel d' = rdProducerModel d \<and> rdProducerIdentity d' = rdProducerIdentity d \<and>
    (\<exists>new. el' = el @ new \<and> list_all (\<lambda>c. pinned lower dc role producer (rdProducerModel d) (cdProfile c)) new)"
  using assms
proof (induction cs arbitrary: first d el)
  case (Cons c cs)
  let ?p = "cdProfile c"
  from Cons.prems obtain model identity where m: "expandModelAlias lower dc (pfModel ?p) = Inr model"
    and i: "(case CanonicalModelIdentity lower dc model of
          Inl e \<Rightarrow> if review_role role \<or> producer \<noteq> [] then Inl (ErrProfileIdentity (cdRef c) e) else Inr []
        | Inr i \<Rightarrow> Inr i) = Inr identity"
    by (auto simp: sum_bind_Inr_iff simp del: sum.case)
  have can: "review_role role \<or> producer \<noteq> [] \<Longrightarrow> CanonicalModelIdentity lower dc model = Inr identity"
    using i by (auto split: sum.splits)
  let ?c = "c\<lparr>cdProfile := ?p\<lparr>pfModel := model, pfModelIdentity := identity, pfRole := (if pfRole ?p = [] then role else pfRole ?p)\<rparr>\<rparr>"
  show ?case
  proof (cases "producer \<noteq> [] \<and> identity = rdProducerModel d")
    case True
    with Cons.prems m i show ?thesis by (auto simp: Let_def dest!: Cons.IH)
  next
    case False
    with Cons.prems m i have "pin_candidates lower dc role producer False cs (d, el @ [?c]) = Inr (d', el')"
      by (auto simp: Let_def)
    from Cons.IH [OF this] obtain new where "rdProducerModel d' = rdProducerModel d" "rdProducerIdentity d' = rdProducerIdentity d"
      "el' = el @ ?c # new" "list_all (\<lambda>c. pinned lower dc role producer (rdProducerModel d) (cdProfile c)) new" by auto
    moreover have "pinned lower dc role producer (rdProducerModel d) (cdProfile ?c)"
      using False can by (auto simp: pinned_def)
    ultimately show ?thesis by auto
  qed
qed simp

lemma crossLabFirst_set: "set (fst (crossLabFirst lower cfg el own)) = set el"
  by (auto simp: crossLabFirst_def Let_def)

lemma crossLabFirst_empty: "fst (crossLabFirst lower cfg el own) = [] \<longleftrightarrow> el = []"
  using crossLabFirst_set [of lower cfg el own] by (metis set_empty)

lemma reorder_eligible_facts:
  assumes "reorder_eligible lower cfg role producer d el = (d', el')"
  shows "set el' = set el" "rdProducerModel d' = rdProducerModel d" "rdProducerIdentity d' = rdProducerIdentity d"
  using assms crossLabFirst_set [of lower cfg el "rdProducerModel d"]
  by (auto simp: reorder_eligible_def Let_def split: if_splits prod.splits)

lemma role_for_producer_pinned:
  assumes "ResolveDispatchRoleForProducer lower cfg role producer = Inr d"
  shows "(review_role role \<longrightarrow> producer \<noteq> []) \<and>
    (producer \<noteq> [] \<longrightarrow> rdProducerIdentity d = producer \<and>
       CanonicalModelIdentity lower (cfDispatch cfg) producer = Inr (rdProducerModel d)) \<and>
    list_all (pinned lower (cfDispatch cfg) role producer (rdProducerModel d)) (rdProfile d # map cdProfile (rdFallbackChain d))"
proof -
  from assms obtain d0 d1 d2 el d3 el3 where
    r: "\<not> (review_role role \<and> producer = [])"
    and d1: "(if producer = [] then Inr d0
               else case CanonicalModelIdentity lower (cfDispatch cfg) producer of
                 Inl e \<Rightarrow> Inl (ErrProducer e)
               | Inr identity \<Rightarrow> Inr (d0\<lparr>rdProducerIdentity := producer, rdProducerModel := identity\<rparr>)) = Inr d1"
    and p: "pin_candidates lower (cfDispatch cfg) role producer True
                 (\<lparr>cdRef = rdProfileRef d1, cdProfile = rdProfile d1\<rparr> # rdFallbackChain d1) (d1, []) = Inr (d2, el)"
    and e: "el \<noteq> []" and o: "reorder_eligible lower cfg role producer d2 el = (d3, el3)"
    and d: "d = d3\<lparr>rdProfileRef := cdRef (hd el3), rdProfile := cdProfile (hd el3), rdFallbackChain := tl el3,
               rdValidatorRelationship := (if review_role role then ''different-model'' else rdValidatorRelationship d3)\<rparr>"
    unfolding ResolveDispatchRoleForProducer_def
    by (auto simp: sum_bind_Inr_iff Let_def simp del: pin_candidates.simps split: option.splits prod.splits if_split_asm)
  from pin_candidates_Inr [OF p] have pin: "list_all (\<lambda>c. pinned lower (cfDispatch cfg) role producer (rdProducerModel d1) (cdProfile c)) el"
    "rdProducerModel d2 = rdProducerModel d1" "rdProducerIdentity d2 = rdProducerIdentity d1" by auto
  note re = reorder_eligible_facts [OF o]
  have ne: "el3 \<noteq> []" using re(1) e by (metis set_empty)
  then have all: "rdProfile d # map cdProfile (rdFallbackChain d) = map cdProfile el3"
    by (cases el3) (simp_all add: d)
  have "list_all (pinned lower (cfDispatch cfg) role producer (rdProducerModel d)) (map cdProfile el3)"
    using pin re by (auto simp: list_all_iff d)
  moreover have "producer \<noteq> [] \<longrightarrow> rdProducerIdentity d = producer \<and>
      CanonicalModelIdentity lower (cfDispatch cfg) producer = Inr (rdProducerModel d)"
    using d1 pin re by (cases "producer = []") (auto simp: d split: sum.splits)
  ultimately show ?thesis using r all by auto
qed

section \<open>The reasoning contract\<close>

lemma effortOrder_named: "effortOrder p = Some ord \<Longrightarrow> [] \<notin> set ord"
  by (auto simp: effortOrder_def split: if_splits)

text \<open>Neither an override nor a floor leaves a profile without an effort.\<close>

lemma applyEffortFloor_named:
  assumes a: "applyEffortFloor p reasons floors = Some (q, raised)" and p: "pfReasoningEffort p \<noteq> []"
  shows "pfReasoningEffort q \<noteq> []"
proof (cases "\<exists>ord i. effortOrder p = Some ord \<and> slice_index (pfReasoningEffort p) ord = Some i")
  case True
  then obtain ord i where o: "effortOrder p = Some ord" "slice_index (pfReasoningEffort p) ord = Some i" by blast
  with applyEffortFloor_least [OF a] obtain t where "t < length ord" "pfReasoningEffort q = ord ! t" by blast
  with effortOrder_named [OF o(1)] show ?thesis by (metis nth_mem)
next
  case False
  let ?cur = "case effortOrder p of None \<Rightarrow> None | Some ord \<Rightarrow> slice_index (pfReasoningEffort p) ord"
  from False have none: "effortOrder p = None \<or> ?cur = None"
    by (auto split: option.splits)
  from a obtain t rb where l: "floor_loop (effortOrder p) ?cur floors reasons (case ?cur of None \<Rightarrow> 0 | Some c \<Rightarrow> c) [] = Some (t, rb)"
    and q: "q = (if rb = [] then p else q)"
    by (auto simp: applyEffortFloor_def Let_def split: option.splits if_splits prod.splits)
  from floor_loop_unknown [OF l none] q p show ?thesis by simp
qed

lemma apply_override_named:
  "apply_override ov r p = (ov', r', q) \<Longrightarrow> pfReasoningEffort p \<noteq> [] \<Longrightarrow> pfReasoningEffort q \<noteq> []"
  using effortOrder_named by (auto simp: apply_override_def split: option.splits if_splits)

definition meets_contract :: "contract_terms \<Rightarrow> profile \<Rightarrow> bool" where
  "meets_contract tm p \<longleftrightarrow>
     (tmFrontierRequired tm \<longrightarrow> pfModelIdentity p \<in> set (tmFrontier tm)) \<and>
     (case tmAvailable tm of None \<Rightarrow> True | Some av \<Rightarrow> pfModelIdentity p \<in> set av) \<and>
     pfBackend p \<noteq> [] \<and> pfModel p \<noteq> [] \<and> pfReasoningEffort p \<noteq> [] \<and>
     list_all (floor_met (tmFloors tm) (pfReasoningEffort p)) (tmReasons tm)"

lemma apply_override_frame:
  "apply_override ov r p = (ov', r', q) \<Longrightarrow>
     (r' = [] \<longrightarrow> r = []) \<and> (\<exists>e. q = p\<lparr>pfReasoningEffort := e\<rparr>)"
  by (auto simp: apply_override_def split: option.splits if_splits intro: exI [of _ "pfReasoningEffort p"])

lemma contract_floor_frame:
  assumes "contract_floor tm c r p = (r', q, applied)" "r' = []"
  shows "r = [] \<and> list_all (floor_met (tmFloors tm) (pfReasoningEffort q)) (tmReasons tm) \<and> (\<exists>e. q = p\<lparr>pfReasoningEffort := e\<rparr>) \<and>
    (pfReasoningEffort p \<noteq> [] \<longrightarrow> pfReasoningEffort q \<noteq> [])"
proof -
  from assms obtain raised where a: "applyEffortFloor p (tmReasons tm) (tmFloors tm) = Some (q, raised)" and "r = []"
    by (auto simp: contract_floor_def split: option.splits prod.splits)
  with applyEffortFloor_least [OF a] applyEffortFloor_named [OF a] show ?thesis by auto
qed

lemma contract_step_eligible:
  assumes "contract_step tm first c st = Inr st'"
  shows "ctEligible st' = ctEligible st \<or>
    (\<exists>e. ctEligible st' = ctEligible st @ [c\<lparr>cdProfile := (cdProfile c)\<lparr>pfReasoningEffort := e\<rparr>\<rparr>]
       \<and> meets_contract tm ((cdProfile c)\<lparr>pfReasoningEffort := e\<rparr>))"
proof (cases "pfBackend (cdProfile c) = [] \<or> pfModel (cdProfile c) = [] \<or> pfReasoningEffort (cdProfile c) = []")
  case True
  with assms show ?thesis by (auto simp: contract_step_def Let_def split: if_split_asm)
next
  case False
  obtain ov r p where o: "apply_override (start_override tm first c) (contract_reason tm (cdProfile c)) (cdProfile c) = (ov, r, p)"
    using prod_cases3 by blast
  obtain r' q applied where f: "contract_floor tm c r p = (r', q, applied)" using prod_cases3 by blast
  have st': "ctEligible st' = (if r' \<noteq> [] then ctEligible st else ctEligible st @ [c\<lparr>cdProfile := q\<rparr>])"
    using assms False o f by (auto simp: contract_step_def Let_def split: if_split_asm)
  show ?thesis
  proof (cases "r' = []")
    case True
    note cf = contract_floor_frame [OF f True] and ao = apply_override_frame [OF o]
    have pe: "pfReasoningEffort p \<noteq> []" using apply_override_named [OF o] False by simp
    from ao obtain e0 where "p = (cdProfile c)\<lparr>pfReasoningEffort := e0\<rparr>" by blast
    moreover from cf obtain e where "q = p\<lparr>pfReasoningEffort := e\<rparr>" by blast
    ultimately have q: "q = (cdProfile c)\<lparr>pfReasoningEffort := e\<rparr>" by simp
    have "contract_reason tm (cdProfile c) = []" using cf ao by auto
    moreover have "list_all (floor_met (tmFloors tm) e) (tmReasons tm)" using cf q by simp
    moreover have "e \<noteq> []" using cf pe q by simp
    ultimately have "meets_contract tm ((cdProfile c)\<lparr>pfReasoningEffort := e\<rparr>)" using False
      by (auto simp: meets_contract_def contract_reason_def split: if_split_asm option.splits)
    with q st' True show ?thesis by auto
  qed (use st' in simp)
qed

lemma contract_loop_eligible:
  assumes "contract_loop tm first cs st = Inr st'"
  shows "\<exists>new. ctEligible st' = ctEligible st @ new \<and>
    list_all (\<lambda>c. meets_contract tm (cdProfile c) \<and>
      (\<exists>c0 \<in> set cs. \<exists>e. c = c0\<lparr>cdProfile := (cdProfile c0)\<lparr>pfReasoningEffort := e\<rparr>\<rparr>)) new"
  using assms
proof (induction cs arbitrary: first st)
  case (Cons c cs)
  from Cons.prems obtain st1 where s: "contract_step tm first c st = Inr st1" and l: "contract_loop tm False cs st1 = Inr st'"
    by (auto simp: sum_bind_Inr_iff)
  from Cons.IH [OF l] obtain new where n: "ctEligible st' = ctEligible st1 @ new"
    "list_all (\<lambda>c. meets_contract tm (cdProfile c) \<and>
      (\<exists>c0 \<in> set cs. \<exists>e. c = c0\<lparr>cdProfile := (cdProfile c0)\<lparr>pfReasoningEffort := e\<rparr>\<rparr>)) new" by blast
  have n': "list_all (\<lambda>d. meets_contract tm (cdProfile d) \<and>
      (\<exists>c0 \<in> set (c # cs). \<exists>e. d = c0\<lparr>cdProfile := (cdProfile c0)\<lparr>pfReasoningEffort := e\<rparr>\<rparr>)) new"
    using n(2) by (auto simp: list_all_iff)
  from contract_step_eligible [OF s] show ?case
  proof
    assume "ctEligible st1 = ctEligible st"
    with n(1) n' show ?thesis by auto
  next
    assume "\<exists>e. ctEligible st1 = ctEligible st @ [c\<lparr>cdProfile := (cdProfile c)\<lparr>pfReasoningEffort := e\<rparr>\<rparr>]
       \<and> meets_contract tm ((cdProfile c)\<lparr>pfReasoningEffort := e\<rparr>)"
    then obtain e where "ctEligible st1 = ctEligible st @ [c\<lparr>cdProfile := (cdProfile c)\<lparr>pfReasoningEffort := e\<rparr>\<rparr>]"
      "meets_contract tm ((cdProfile c)\<lparr>pfReasoningEffort := e\<rparr>)" by blast
    with n(1) n' show ?thesis
      by (intro exI [of _ "c\<lparr>cdProfile := (cdProfile c)\<lparr>pfReasoningEffort := e\<rparr>\<rparr> # new"]) auto
  qed
qed simp

section \<open>Decisions\<close>

lemma alias_roles [simp]:
  "expandModelAlias lower (dc\<lparr>dcRoles := roles\<rparr>) m = expandModelAlias lower dc m"
  "CanonicalModelIdentity lower (dc\<lparr>dcRoles := roles\<rparr>) m = CanonicalModelIdentity lower dc m"
  by (simp_all add: CanonicalModelIdentity_def expandModelAlias_def)

lemma map_identities_Inr:
  "map_identities lower dc ms = Inr is \<Longrightarrow> i \<in> set is \<Longrightarrow> list_ex (\<lambda>m. CanonicalModelIdentity lower dc m = Inr i) ms"
  by (induction ms arbitrary: "is") (auto simp: sum_bind_Inr_iff)

lemma decide_Inr:
  assumes "decide cfg dc role pp c review fr resolved st = Inr d"
  shows "dnFrontierRequired d = fr" "rdProducerModel d = rdProducerModel resolved"
    "map cdProfile (ctEligible st) = rdProfile d # map cdProfile (rdFallbackChain d)"
  using assms by (auto simp: decide_def Let_def resolved_dispatch.defs split: list.splits)

lemma ResolveDecision_Inr:
  assumes "ResolveDecision lower cfg role producer pp c = Inr d"
  obtains review roles selected fr resolved available frontier st where
    "check_reasons (cfReasoning cfg) (dxReasons c) ''existing-gates'' = Inr review"
    "select_role role c review = (selected, fr)"
    "ResolveDispatchRoleForProducer lower (cfg\<lparr>cfDispatch := (cfDispatch cfg)\<lparr>dcRoles := roles\<rparr>\<rparr>) selected producer = Inr resolved"
    "available_identities lower (cfDispatch cfg) c = Inr available"
    "map_identities lower (cfDispatch cfg) (rpFrontierModels (cfReasoning cfg)) = Inr frontier"
    "contract_loop (contract_of (cfDispatch cfg) role c fr frontier available) True
       (\<lparr>cdRef = rdProfileRef resolved, cdProfile = rdProfile resolved\<rparr> # rdFallbackChain resolved)
       \<lparr>ctExcluded = [], ctApplied = [], ctOverride = None, ctEligible = []\<rparr> = Inr st"
    "dnFrontierRequired d = fr" "rdProducerModel d = rdProducerModel resolved"
    "map cdProfile (ctEligible st) = rdProfile d # map cdProfile (rdFallbackChain d)"
proof -
  have ids: "map_identities lower (dc\<lparr>dcRoles := roles\<rparr>) ms = map_identities lower dc ms" for dc roles ms
    by (induction ms) simp_all
  have avail: "available_identities lower (dc\<lparr>dcRoles := roles\<rparr>) c = available_identities lower dc c" for dc roles
    by (simp add: available_identities_def ids split: option.split)
  have terms: "contract_of (dc\<lparr>dcRoles := roles\<rparr>) = contract_of dc" for dc roles
    by (simp add: fun_eq_iff contract_of_def exempted_def)
  from assms obtain review roles pp' where
    rv: "check_reasons (cfReasoning cfg) (dxReasons c) ''existing-gates'' = Inr review"
    and "resolve_contract lower cfg role producer pp' c review roles = Inr d"
    by (auto simp: ResolveDecision_def Let_def sum_bind_Inr_iff split: option.split_asm if_split_asm)
  then obtain selected fr resolved available frontier st where
    "select_role role c review = (selected, fr)"
    "ResolveDispatchRoleForProducer lower (cfg\<lparr>cfDispatch := (cfDispatch cfg)\<lparr>dcRoles := roles\<rparr>\<rparr>) selected producer = Inr resolved"
    "available_identities lower ((cfDispatch cfg)\<lparr>dcRoles := roles\<rparr>) c = Inr available"
    "map_identities lower ((cfDispatch cfg)\<lparr>dcRoles := roles\<rparr>) (rpFrontierModels (cfReasoning cfg)) = Inr frontier"
    "contract_loop (contract_of ((cfDispatch cfg)\<lparr>dcRoles := roles\<rparr>) role c fr frontier available) True
       (\<lparr>cdRef = rdProfileRef resolved, cdProfile = rdProfile resolved\<rparr> # rdFallbackChain resolved)
       \<lparr>ctExcluded = [], ctApplied = [], ctOverride = None, ctEligible = []\<rparr> = Inr st"
    and d: "decide cfg ((cfDispatch cfg)\<lparr>dcRoles := roles\<rparr>) role pp' c review fr resolved st = Inr d"
    unfolding resolve_contract_def
    by (auto simp: sum_bind_Inr_iff Let_def simp del: contract_loop.simps split: if_split_asm prod.split_asm)
  with decide_Inr [OF d] show thesis
    by (intro that [of review selected fr roles resolved available frontier st])
      (simp_all add: ids terms avail rv)
qed

lemma decision_source:
  assumes "contract_loop tm first cs st = Inr st'" "ctEligible st = []" "c \<in> set (ctEligible st')"
  obtains c0 e where "c0 \<in> set cs" "c = c0\<lparr>cdProfile := (cdProfile c0)\<lparr>pfReasoningEffort := e\<rparr>\<rparr>" "meets_contract tm (cdProfile c)"
  using contract_loop_eligible [OF assms(1)] assms(2,3) by (auto simp: list_all_iff)

lemma review_role_kept: "review_role role \<Longrightarrow> select_role role c review = (selected, fr) \<Longrightarrow> selected = role"
  by (auto simp: review_role_def select_role_def Let_def split: if_splits)

text \<open>
  C30. No model reviews its own work: a decision for a review role names a producer, and when a
  producer is named neither the selected profile nor any of its fallbacks has the producer's
  canonical model identity, whatever aliases, wrappers, snapshots, floors or overrides were
  involved.
\<close>

theorem producer_never_selected:
  assumes "ResolveDecision lower cfg role producer policyProfile c = Inr d"
  shows "(review_role role \<longrightarrow> producer \<noteq> []) \<and>
    (producer \<noteq> [] \<longrightarrow>
       CanonicalModelIdentity lower (cfDispatch cfg) producer = Inr (rdProducerModel d) \<and>
       list_all (\<lambda>p. CanonicalModelIdentity lower (cfDispatch cfg) (pfModel p) = Inr (pfModelIdentity p) \<and>
           pfModelIdentity p \<noteq> rdProducerModel d)
         (rdProfile d # map cdProfile (rdFallbackChain d)))"
proof -
  obtain review roles selected fr resolved available frontier st where
    s: "select_role role c review = (selected, fr)"
    and r: "ResolveDispatchRoleForProducer lower (cfg\<lparr>cfDispatch := (cfDispatch cfg)\<lparr>dcRoles := roles\<rparr>\<rparr>) selected producer = Inr resolved"
    and l: "contract_loop (contract_of (cfDispatch cfg) role c fr frontier available) True
       (\<lparr>cdRef = rdProfileRef resolved, cdProfile = rdProfile resolved\<rparr> # rdFallbackChain resolved)
       \<lparr>ctExcluded = [], ctApplied = [], ctOverride = None, ctEligible = []\<rparr> = Inr st"
    and d: "rdProducerModel d = rdProducerModel resolved"
      "map cdProfile (ctEligible st) = rdProfile d # map cdProfile (rdFallbackChain d)"
    by (rule ResolveDecision_Inr [OF assms]) (rule that; assumption)
  note p = role_for_producer_pinned [OF r, simplified]
  have "pinned lower (cfDispatch cfg) selected producer (rdProducerModel d) (cdProfile e)" if e: "e \<in> set (ctEligible st)" for e
  proof -
    obtain c0 ef where c0: "c0 \<in> set (\<lparr>cdRef = rdProfileRef resolved, cdProfile = rdProfile resolved\<rparr> # rdFallbackChain resolved)"
      "e = c0\<lparr>cdProfile := (cdProfile c0)\<lparr>pfReasoningEffort := ef\<rparr>\<rparr>"
      by (rule decision_source [OF l _ e]) simp_all
    with p d(1) have "pinned lower (cfDispatch cfg) selected producer (rdProducerModel d) (cdProfile c0)"
      by (auto simp: pinned_def list_all_iff)
    then show ?thesis by (simp add: c0(2) pinned_def)
  qed
  then have "list_all (pinned lower (cfDispatch cfg) selected producer (rdProducerModel d)) (map cdProfile (ctEligible st))"
    by (simp add: list_all_iff)
  with p d review_role_kept [OF _ s] show ?thesis by (auto simp: pinned_def list_all_iff)
qed

text \<open>When a frontier model is required, by the role and what the classification found.\<close>

definition needs_frontier :: "reasoning_policy \<Rightarrow> string \<Rightarrow> decision_context \<Rightarrow> bool" where
  "needs_frontier rp role c \<longleftrightarrow>
     role = ''frontier-planning'' \<or> role = ''escalation'' \<or>
     role = ''plan-review'' \<and> (\<exists>reason \<in> set (dxReasons c). reason \<in> set (rpDualReviewReasons rp)) \<or>
     (dxReasons c \<noteq> [] \<or> dxInvestigationActive c) \<and>
       (role = ''planning'' \<or>
        (role = ''routine-execution'' \<or> role = ''deep-execution'') \<and> (\<not> Ready (dxHandoff c) \<or> dxInvestigationActive c))"

lemma check_reasons_review:
  "check_reasons rp reasons review = Inr r \<Longrightarrow>
     r = ''other-frontier'' \<longleftrightarrow> review = ''other-frontier'' \<or> (\<exists>reason \<in> set reasons. reason \<in> set (rpDualReviewReasons rp))"
  by (induction reasons arbitrary: review) (auto split: if_splits)

lemma select_role_frontier:
  assumes "check_reasons rp (dxReasons c) ''existing-gates'' = Inr review" "select_role role c review = (selected, fr)"
  shows "fr \<longleftrightarrow> needs_frontier rp role c"
  using assms(2) check_reasons_review [OF assms(1)]
  by (auto simp: needs_frontier_def select_role_def Let_def split: if_splits)

text \<open>
  C31. Every candidate a decision returns, the selected profile and each fallback, meets the
  reasoning contract. A frontier model is required exactly where the role or the classified
  context asks for one, a plan review on a dual-review reason included; then every
  candidate is one. Every candidate is among the models probed to be available, is complete with
  backend, model and effort, and its effort is no lower than the floor of every
  classification reason the role is not exempted from.
\<close>

theorem decision_meets_contract:
  assumes "ResolveDecision lower cfg role producer policyProfile c = Inr d"
  shows "(dnFrontierRequired d \<longleftrightarrow> needs_frontier (cfReasoning cfg) role c) \<and>
    list_all (\<lambda>p.
        (dnFrontierRequired d \<longrightarrow>
           list_ex (\<lambda>m. CanonicalModelIdentity lower (cfDispatch cfg) m = Inr (pfModelIdentity p)) (rpFrontierModels (cfReasoning cfg))) \<and>
        (case dxAvailableModels c of None \<Rightarrow> True
         | Some ms \<Rightarrow> list_ex (\<lambda>m. CanonicalModelIdentity lower (cfDispatch cfg) m = Inr (pfModelIdentity p)) ms) \<and>
        pfBackend p \<noteq> [] \<and> pfModel p \<noteq> [] \<and> pfReasoningEffort p \<noteq> [] \<and>
        list_all (\<lambda>reason. exempted (cfDispatch cfg) role reason \<or>
            floor_met (dcEffortFloors (cfDispatch cfg)) (pfReasoningEffort p) reason) (dxReasons c))
      (rdProfile d # map cdProfile (rdFallbackChain d))"
proof -
  obtain review selected fr and resolved :: resolved_dispatch and available frontier st where
    rv: "check_reasons (cfReasoning cfg) (dxReasons c) ''existing-gates'' = Inr review"
    and s: "select_role role c review = (selected, fr)"
    and av: "available_identities lower (cfDispatch cfg) c = Inr available"
    and fr: "map_identities lower (cfDispatch cfg) (rpFrontierModels (cfReasoning cfg)) = Inr frontier"
    and l: "contract_loop (contract_of (cfDispatch cfg) role c fr frontier available) True
       (\<lparr>cdRef = rdProfileRef resolved, cdProfile = rdProfile resolved\<rparr> # rdFallbackChain resolved)
       \<lparr>ctExcluded = [], ctApplied = [], ctOverride = None, ctEligible = []\<rparr> = Inr st"
    and d: "dnFrontierRequired d = fr" "map cdProfile (ctEligible st) = rdProfile d # map cdProfile (rdFallbackChain d)"
    by (rule ResolveDecision_Inr [OF assms]) (rule that, assumption+)
  have m: "meets_contract (contract_of (cfDispatch cfg) role c fr frontier available) (cdProfile e)" if "e \<in> set (ctEligible st)" for e
    by (rule decision_source [OF l _ that]) simp_all
  have "list_all (meets_contract (contract_of (cfDispatch cfg) role c fr frontier available)) (map cdProfile (ctEligible st))"
    using m by (simp add: list_all_iff)
  moreover note select_role_frontier [OF rv s]
  ultimately show ?thesis
    unfolding d using av map_identities_Inr [OF fr]
    by (auto simp: list_all_iff meets_contract_def contract_of_def available_identities_def sum_bind_Inr_iff
        dest: map_identities_Inr split: option.splits)
qed

section \<open>A concrete decision\<close>

definition opus_seat :: profile where
  "opus_seat = empty_profile\<lparr>pfBackend := ''claude'', pfModel := ''claude-opus-5'', pfReasoningEffort := ''medium'',
     pfFallbacks := [''gpt'', ''opus'']\<rparr>"

definition gpt_seat :: profile where
  "gpt_seat = empty_profile\<lparr>pfBackend := ''codex'', pfModel := ''gpt-6-sol'', pfReasoningEffort := ''low'', pfFallbacks := [''opus'']\<rparr>"

definition review_dispatch :: route_dispatch where
  "review_dispatch = \<lparr>dcEffortFloors = [(''ambiguous'', ''high'')], dcEffortFloorExemptions = [], dcModelAliases = [],
     dcRoles = [(''plan-review'', ''opus'')], dcTiers = [(''opus'', opus_seat), (''gpt'', gpt_seat)], dcFallback = [],
     dcCrossLabFirst = []\<rparr>"

definition review_config :: routing_config where
  "review_config = \<lparr>cfPolicySource = ''p'', cfPolicyHash = ''h'',
     cfReasoning = \<lparr>rpFrontierModels = [''gpt-6-sol''], rpFrontierReasons = [''ambiguous''],
       rpDualReviewReasons = [''ambiguous''], rpStrikes = 2, rpProfiles = []\<rparr>,
     cfSubagents = \<lparr>sdModel = [], sdCategories = [], sPhases = [], sOverrides = []\<rparr>, cfDispatch = review_dispatch,
     cfComplexity = \<lparr>cxMode = ''off'', cxTiers = [], cxOverrides = []\<rparr>,
     cfCalibration = \<lparr>ccMode = ''off'', ccDefaulted = True\<rparr>, cfRoles = []\<rparr>"

definition review_context :: decision_context where
  "review_context = \<lparr>dxEffortOverride = None, dxReasons = [''ambiguous''], dxRationale = ''r'', dxDomain = [], dxScope = [],
     dxInvestigationActive = False, dxHandoff = None, dxAvailableModels = None\<rparr>"

lemma review_aliases: "dcModelAliases (review_dispatch\<lparr>dcRoles := roles\<rparr>) = []" "dcModelAliases review_dispatch = []"
  by (simp_all add: review_dispatch_def)

lemma expand_unaliased: "dcModelAliases dc = [] \<Longrightarrow> expandModelAlias lower dc m = Inr (stripModelDecoration lower m)"
  by (simp add: expandModelAlias_def alias_from.simps)

lemma seat_names:
  "stripModelDecoration id ''claude-opus-5'' = ''claude-opus-5''" "stripModelDecoration id ''gpt-6-sol'' = ''gpt-6-sol''"
  by code_simp+

lemma seat_snapshots: "strip_snapshot ''claude-opus-5'' = ''claude-opus-5''" "strip_snapshot ''gpt-6-sol'' = ''gpt-6-sol''"
  by (simp_all add: strip_snapshot_def dated_suffix_def compact_suffix_def)

lemma seat_identities:
  assumes "dcModelAliases dc = []"
  shows "CanonicalModelIdentity id dc ''claude-opus-5'' = Inr ''claude-opus-5''"
    "CanonicalModelIdentity id dc ''gpt-6-sol'' = Inr ''gpt-6-sol''"
  using assms by (simp_all add: CanonicalModelIdentity_def expand_unaliased seat_names seat_snapshots known_family_def has_prefix_def)

lemma review_chain:
  "resolveDispatch review_dispatch ''opus'' = Some (empty_dispatch\<lparr>rdProfileRef := ''opus'', rdProfile := opus_seat,
     rdFallbackChain := [\<lparr>cdRef = ''gpt'', cdProfile = gpt_seat\<rparr>]\<rparr>)"
  by code_simp

definition gpt_pinned :: profile where
  "gpt_pinned = gpt_seat\<lparr>pfModelIdentity := ''gpt-6-sol'', pfRole := ''plan-review''\<rparr>"

definition review_resolved :: resolved_dispatch where
  "review_resolved = empty_dispatch\<lparr>rdProducerIdentity := ''claude-opus-5'', rdProducerModel := ''claude-opus-5'',
     rdValidatorRelationship := ''different-model'', rdFallbackReason := ''producer_model_conflict'',
     rdExcluded := [\<lparr>exCandidate = \<lparr>cdRef = ''opus'', cdProfile = opus_seat\<lparr>pfModelIdentity := ''claude-opus-5'', pfRole := ''plan-review''\<rparr>\<rparr>,
                     exReason = ''producer_model_conflict''\<rparr>],
     rdRequestedRole := ''plan-review'', rdProfileRef := ''gpt'', rdProfile := gpt_pinned\<rparr>"

lemma review_role_decision:
  "ResolveDispatchRoleForProducer id review_config ''plan-review'' ''claude-opus-5'' = Inr review_resolved"
proof -
  have 1: "ResolveDispatchRole review_config ''plan-review'' = Some (empty_dispatch\<lparr>rdProfileRef := ''opus'',
      rdProfile := opus_seat\<lparr>pfRole := ''plan-review''\<rparr>, rdRequestedRole := ''plan-review'',
      rdFallbackChain := [\<lparr>cdRef = ''gpt'', cdProfile = gpt_seat\<rparr>]\<rparr>)"
    by code_simp
  have 2: "cfDispatch review_config = review_dispatch" by (simp add: review_config_def)
  have m: "pfModel opus_seat = ''claude-opus-5''" "pfModel gpt_seat = ''gpt-6-sol''" "pfRole gpt_seat = []"
    by (simp_all add: opus_seat_def gpt_seat_def empty_profile_def)
  have 3: "dcCrossLabFirst review_dispatch = []" by (simp add: review_dispatch_def)
  show ?thesis
    by (simp add: ResolveDispatchRoleForProducer_def 1 2 3 m review_role_def seat_identities review_aliases expand_unaliased
        seat_names reorder_eligible_def Let_def review_resolved_def empty_dispatch_def opus_seat_def gpt_pinned_def)
qed

lemma review_decision:
  "\<exists>d. ResolveDecision id review_config ''plan-review'' ''claude-opus-5'' [] review_context = Inr d \<and>
     rdProfileRef d = ''gpt'' \<and> pfReasoningEffort (rdProfile d) = ''high'' \<and> dnFrontierRequired d"
proof -
  let ?tm = "contract_of review_dispatch ''plan-review'' review_context True [''gpt-6-sol''] None"
  have valid: "validateEffortFloors review_config = None" by code_simp
  have trim: "TrimSpace ''r'' \<noteq> []" by code_simp
  have c: "cfDispatch review_config = review_dispatch" "rpFrontierModels (cfReasoning review_config) = [''gpt-6-sol'']"
    "review_dispatch\<lparr>dcRoles := dcRoles review_dispatch\<rparr> = review_dispatch"
    "review_config\<lparr>cfDispatch := review_dispatch\<rparr> = review_config"
    by (simp_all add: review_config_def)
  have reasons: "check_reasons (cfReasoning review_config) (dxReasons review_context) ''existing-gates'' = Inr ''other-frontier''"
    by (simp add: review_config_def review_context_def)
  have step: "(case contract_step ?tm True \<lparr>cdRef = ''gpt'', cdProfile = gpt_pinned\<rparr>
        \<lparr>ctExcluded = [], ctApplied = [], ctOverride = None, ctEligible = []\<rparr> of
      Inl e \<Rightarrow> False | Inr st \<Rightarrow> ctEligible st = [\<lparr>cdRef = ''gpt'', cdProfile = gpt_pinned\<lparr>pfReasoningEffort := ''high''\<rparr>\<rparr>])"
    by code_simp
  then obtain st where st: "contract_loop ?tm True [\<lparr>cdRef = ''gpt'', cdProfile = gpt_pinned\<rparr>]
        \<lparr>ctExcluded = [], ctApplied = [], ctOverride = None, ctEligible = []\<rparr> = Inr st"
      "ctEligible st = [\<lparr>cdRef = ''gpt'', cdProfile = gpt_pinned\<lparr>pfReasoningEffort := ''high''\<rparr>\<rparr>]"
    by (auto split: sum.splits)
  have r: "rdProfileRef review_resolved = ''gpt''" "rdProfile review_resolved = gpt_pinned" "rdFallbackChain review_resolved = []"
    by (simp_all add: review_resolved_def empty_dispatch_def)
  have x: "dxEffortOverride review_context = None" "dxRationale review_context = ''r''"
    "dxInvestigationActive review_context = False" "dxAvailableModels review_context = None"
    by (simp_all add: review_context_def)
  have "resolve_contract id review_config ''plan-review'' ''claude-opus-5'' ''default'' review_context ''other-frontier'' (dcRoles review_dispatch)
      = decide review_config review_dispatch ''plan-review'' ''default'' review_context ''other-frontier'' True review_resolved st"
    by (simp add: resolve_contract_def select_role_def c x r review_role_decision available_identities_def seat_identities
        review_aliases st(1) del: contract_loop.simps)
  then show ?thesis
    by (simp add: ResolveDecision_def valid bad_override_def x trim reasons profile_roles_def c decide_def st(2)
        Let_def resolved_dispatch.defs)
qed

theorem producer_never_selected_witness:
  "\<exists>d. ResolveDecision id review_config ''plan-review'' ''claude-opus-5'' [] review_context = Inr d \<and>
     rdProfileRef d = ''gpt'' \<and> pfModelIdentity (rdProfile d) \<noteq> rdProducerModel d"
proof -
  obtain d where d: "ResolveDecision id review_config ''plan-review'' ''claude-opus-5'' [] review_context = Inr d"
    "rdProfileRef d = ''gpt''" using review_decision by blast
  with producer_never_selected [OF d(1)] show ?thesis by auto
qed

theorem decision_meets_contract_witness:
  "\<exists>d. ResolveDecision id review_config ''plan-review'' ''claude-opus-5'' [] review_context = Inr d \<and>
     dnFrontierRequired d \<and> pfBackend (rdProfile d) \<noteq> [] \<and>
     floor_met [(''ambiguous'', ''high'')] (pfReasoningEffort (rdProfile d)) ''ambiguous''"
proof -
  obtain d where d: "ResolveDecision id review_config ''plan-review'' ''claude-opus-5'' [] review_context = Inr d"
    "dnFrontierRequired d" using review_decision by blast
  have "exempted (cfDispatch review_config) ''plan-review'' ''ambiguous'' = False" "dxReasons review_context = [''ambiguous'']"
    "dcEffortFloors (cfDispatch review_config) = [(''ambiguous'', ''high'')]"
    by (simp_all add: exempted_def review_config_def review_dispatch_def review_context_def)
  with decision_meets_contract [OF d(1)] d show ?thesis by auto
qed

text \<open>A reference that is the alias of an alias of a missing profile.\<close>

definition alias_dispatch :: route_dispatch where
  "alias_dispatch = review_dispatch\<lparr>dcFallback := [(''a'', ''b''), (''b'', ''c''), (''c'', ''d''), (''d'', ''gpt'')]\<rparr>"

theorem fallback_chain_reachable_witness:
  "\<exists>d. resolveDispatch alias_dispatch ''a'' = Some d \<and> leads_to alias_dispatch ''a'' ''gpt'' \<and>
     {b. (''gpt'', b) \<in> (fallback_edge alias_dispatch)\<^sup>*} = {''gpt'', ''opus''}"
proof -
  have "(case resolveDispatch alias_dispatch ''a'' of None \<Rightarrow> False
         | Some d \<Rightarrow> rdProfileRef d = ''gpt'' \<and> map cdRef (rdFallbackChain d) = [''opus''])"
    by code_simp
  then obtain d where d: "resolveDispatch alias_dispatch ''a'' = Some d" "rdProfileRef d = ''gpt''" "map cdRef (rdFallbackChain d) = [''opus'']"
    by (auto split: option.splits)
  from fallback_chain_reachable [of alias_dispatch "''a''"] d have "leads_to alias_dispatch ''a'' ''gpt''"
    "{''gpt'', ''opus''} = {b. (''gpt'', b) \<in> (fallback_edge alias_dispatch)\<^sup>*}" by simp_all
  with d(1) show ?thesis by blast
qed

end
