(* ===== verification/RouteCalibration.thy ===== *)
theory RouteCalibration
  imports Complex_Main Routing
begin

text \<open>
  Calibration artifacts, \<^verbatim>\<open>internal/routing/calibration.go\<close> and \<^verbatim>\<open>ResolveModelDetailed\<close> of
  \<^verbatim>\<open>resolve.go\<close>: the strict decoder over the tokens of \<^verbatim>\<open>encoding/json\<close> (numbers with
  their exact decimal value), the eligibility of a recommendation, and the only way it can
  change the model of an agent.
\<close>

section \<open>Strict decoding\<close>

datatype cal_tok = CTDelim char | CTStr string | CTNum rat | CTBool bool | CTNull

datatype cal_json =
    CVNull
  | CVBool bool
  | CVNum rat
  | CVStr string
  | CVArr "cal_json list"
  | CVObj "cal_json gomap"

text \<open>
  \<^verbatim>\<open>strconv.ParseFloat\<close> rounds to nearest: infinite from half a unit above the largest
  float on, zero up to half the smallest subnormal.
\<close>

definition float_inf :: "rat \<Rightarrow> bool" where
  "float_inf x \<longleftrightarrow> 2 ^ 1024 - 2 ^ 970 \<le> \<bar>x\<bar>"

definition float_zero :: "rat \<Rightarrow> bool" where
  "float_zero x \<longleftrightarrow> \<bar>x\<bar> * 2 ^ 1075 \<le> 1"

definition finiteNumber :: "cal_json option \<Rightarrow> string \<Rightarrow> string + rat" where
  "finiteNumber v wrongType =
     (case v of
        Some (CVNum x) \<Rightarrow> if float_inf x then Inl ''nonfinite_number'' else Inr x
      | _ \<Rightarrow> Inl wrongType)"

text \<open>
  The decoder with fuel; no result is running out of it. A token list that ends early
  stands for the end of the input or a syntax error: reading on is an error either way.
\<close>

fun decodeJSONValue :: "nat \<Rightarrow> cal_tok list \<Rightarrow> (string + (cal_json \<times> cal_tok list)) option"
  and decode_members :: "nat \<Rightarrow> string list \<Rightarrow> cal_json gomap \<Rightarrow> cal_tok list \<Rightarrow> (string + (cal_json \<times> cal_tok list)) option"
  and decode_items :: "nat \<Rightarrow> cal_json list \<Rightarrow> cal_tok list \<Rightarrow> (string + (cal_json \<times> cal_tok list)) option"
where
  "decodeJSONValue 0 ts = None"
| "decodeJSONValue (Suc n) ts =
     (case ts of
        [] \<Rightarrow> Some (Inl ''invalid_json'')
      | CTDelim c # ts' \<Rightarrow>
          if c = CHR ''{'' then decode_members n [] [] ts'
          else if c = CHR ''['' then decode_items n [] ts'
          else Some (Inl ''invalid_json'')
      | CTNum x # ts' \<Rightarrow>
          (case finiteNumber (Some (CVNum x)) ''nonfinite_number'' of
             Inl e \<Rightarrow> Some (Inl e)
           | Inr _ \<Rightarrow> Some (Inr (CVNum x, ts')))
      | CTStr s # ts' \<Rightarrow> Some (Inr (CVStr s, ts'))
      | CTBool b # ts' \<Rightarrow> Some (Inr (CVBool b, ts'))
      | CTNull # ts' \<Rightarrow> Some (Inr (CVNull, ts')))"
| "decode_members 0 seen obj ts = None"
| "decode_members (Suc n) seen obj ts =
     (if ts = [] \<or> hd ts = CTDelim (CHR ''}'') \<or> hd ts = CTDelim (CHR '']'') then
        (case ts of
           t # ts' \<Rightarrow> if t = CTDelim (CHR ''}'') then Some (Inr (CVObj obj, ts')) else Some (Inl ''invalid_json'')
         | [] \<Rightarrow> Some (Inl ''invalid_json''))
      else
        (case ts of
           CTStr key # ts' \<Rightarrow>
             if key \<in> set seen then Some (Inl ''duplicate_key'')
             else (case decodeJSONValue n ts' of
                     None \<Rightarrow> None
                   | Some (Inl e) \<Rightarrow> Some (Inl e)
                   | Some (Inr (v, rest)) \<Rightarrow> decode_members n (key # seen) (obj @ [(key, v)]) rest)
         | _ \<Rightarrow> Some (Inl ''invalid_json'')))"
| "decode_items 0 items ts = None"
| "decode_items (Suc n) items ts =
     (if ts = [] \<or> hd ts = CTDelim (CHR ''}'') \<or> hd ts = CTDelim (CHR '']'') then
        (case ts of
           t # ts' \<Rightarrow> if t = CTDelim (CHR '']'') then Some (Inr (CVArr items, ts')) else Some (Inl ''invalid_json'')
         | [] \<Rightarrow> Some (Inl ''invalid_json''))
      else (case decodeJSONValue n ts of
              None \<Rightarrow> None
            | Some (Inl e) \<Rightarrow> Some (Inl e)
            | Some (Inr (v, rest)) \<Rightarrow> decode_items n (items @ [v]) rest))"

text \<open>Twice the number of tokens is fuel enough, and every value takes a token.\<close>

lemma decode_takes:
  "decodeJSONValue n ts = Some (Inr (v, rest)) \<Longrightarrow> length rest < length ts"
  "decode_members n seen obj ts = Some (Inr (v, rest)) \<Longrightarrow> length rest < length ts"
  "decode_items n items ts = Some (Inr (v, rest)) \<Longrightarrow> length rest < length ts"
proof (induction n ts and n seen obj ts and n items ts arbitrary: v rest and v rest and v rest
    rule: decodeJSONValue_decode_members_decode_items.induct)
  case (2 n ts)
  then show ?case
    by (auto split: list.splits cal_tok.splits if_splits sum.splits intro: less_SucI)
next
  case (4 n seen obj ts)
  then show ?case
    by (auto split: list.splits cal_tok.splits if_splits sum.splits option.splits)
      (meson less_SucI less_trans)+
next
  case (6 n items ts)
  then show ?case
    by (auto split: list.splits if_splits sum.splits option.splits) (meson less_trans)+
qed simp_all

lemma decode_fuel:
  "2 * length ts < n \<Longrightarrow> decodeJSONValue n ts \<noteq> None"
  "Suc (2 * length ts) < n \<Longrightarrow> decode_members n seen obj ts \<noteq> None"
  "Suc (2 * length ts) < n \<Longrightarrow> decode_items n items ts \<noteq> None"
proof (induction n ts and n seen obj ts and n items ts rule: decodeJSONValue_decode_members_decode_items.induct)
  case (2 n ts)
  then show ?case
    by (auto split: list.splits cal_tok.splits sum.splits)
next
  case (4 n seen obj ts)
  then show ?case
    by (auto split: list.splits cal_tok.splits sum.splits option.splits dest: decode_takes(1))
      (frule decode_takes(1), simp)
next
  case (6 n items ts)
  show ?case
  proof (cases "ts = [] \<or> hd ts = CTDelim (CHR ''}'') \<or> hd ts = CTDelim (CHR '']'')")
    case False
    have "decodeJSONValue n ts \<noteq> None" using 6(1) [OF False] 6(3) by simp
    then obtain r where r: "decodeJSONValue n ts = Some r" by blast
    show ?thesis
    proof (cases r)
      case (Inr p)
      obtain v rest where p: "p = (v, rest)" by (cases p)
      from decode_takes(1) [of n ts v rest] r Inr p have "Suc (2 * length rest) < n" using 6(3) by simp
      with 6(2) [OF False r Inr p [symmetric]] False r Inr p show ?thesis by simp
    qed (use False r in simp)
  qed (auto split: list.split)
qed simp_all

text \<open>Anything but the end of the input after the value is an error; the flag tells a clean end.\<close>

definition decodeStrictJSON :: "cal_tok list \<Rightarrow> bool \<Rightarrow> string + cal_json" where
  "decodeStrictJSON ts clean =
     (case decodeJSONValue (Suc (2 * length ts)) ts of
        None \<Rightarrow> Inl ''invalid_json''
      | Some (Inl e) \<Rightarrow> Inl e
      | Some (Inr (v, rest)) \<Rightarrow>
          if rest \<noteq> [] then Inl ''trailing_json''
          else if \<not> clean then Inl ''invalid_json''
          else Inr v)"

section \<open>Artifacts\<close>

datatype cal_entry =
  CalEntry (ceModel: "string option") (ceConfidence: "rat option") (ceSessions: "rat option")
    (cePropagation: "bool option") (cePhases: "cal_entry gomap")

record cal_metadata =
  cmArtifactKind :: string
  cmSHA256 :: "string option"
  cmSchemaVersion :: "int option"
  cmMode :: string
  cmModeSource :: string
  cmDisposition :: string
  cmRecommendedModel :: "string option"
  cmSelectedScope :: "string option"
  cmSelectedArm :: "string option"
  cmExclusions :: "(string \<times> string) list"
  cmFallbackReason :: "string option"
  cmFreshness :: string
  cmFreshnessReason :: string
  cmAuthority :: string

record cal_artifact =
  caMetadata :: cal_metadata
  caAgents :: "cal_entry gomap"
  caValid :: bool

definition exclude :: "string \<Rightarrow> string \<Rightarrow> cal_metadata \<Rightarrow> cal_metadata" where
  "exclude scope reason m = m\<lparr>cmExclusions := cmExclusions m @ [(scope, reason)]\<rparr>"

definition invalidate :: "string \<Rightarrow> cal_artifact \<Rightarrow> cal_artifact" where
  "invalidate reason a =
     a\<lparr>caMetadata := (exclude ''artifact'' reason (caMetadata a))\<lparr>cmFallbackReason := Some ''invalid_calibration_artifact''\<rparr>\<rparr>"

definition exactCalibrationNumber :: "cal_json option \<Rightarrow> string \<Rightarrow> string + rat" where
  "exactCalibrationNumber v wrongType =
     sum_bind (finiteNumber v wrongType) (\<lambda>x.
       if float_zero x then (if x \<noteq> 0 then Inl ''numeric_underflow'' else Inr 0) else Inr x)"

definition rat_int :: "rat \<Rightarrow> int option" where
  "rat_int x = (if snd (quotient_of x) = 1 then Some (fst (quotient_of x)) else None)"

definition requiredSchema :: "cal_json option \<Rightarrow> string + int" where
  "requiredSchema v =
     sum_bind (exactCalibrationNumber v ''schema_wrong_type'') (\<lambda>x.
       case rat_int x of
         Some n \<Rightarrow> if - (2 ^ 63) \<le> n \<and> n < 2 ^ 63 then Inr n else Inl ''schema_wrong_type''
       | None \<Rightarrow> Inl ''schema_wrong_type'')"

definition optional_number :: "cal_json gomap \<Rightarrow> string \<Rightarrow> string \<Rightarrow> string + rat option" where
  "optional_number obj key wrongType =
     (case map_of obj key of
        None \<Rightarrow> Inr None
      | Some v \<Rightarrow> sum_bind (exactCalibrationNumber (Some v) wrongType) (\<lambda>x. Inr (Some x)))"

text \<open>\<^verbatim>\<open>parseCalibrationEntry\<close> up to the phases.\<close>

definition parse_fields :: "cal_json gomap \<Rightarrow> string + (cal_entry gomap \<Rightarrow> cal_entry)" where
  "parse_fields obj =
     sum_bind (case map_of obj ''recommended_model'' of
                 None \<Rightarrow> Inr None
               | Some (CVStr m) \<Rightarrow> Inr (Some m)
               | Some _ \<Rightarrow> Inl ''recommended_model_wrong_type'') (\<lambda>model.
     sum_bind (optional_number obj ''confidence'' ''confidence_wrong_type'') (\<lambda>confidence.
     sum_bind (optional_number obj ''evidence_sessions'' ''evidence_sessions_wrong_type'') (\<lambda>sessions.
     sum_bind (case map_of obj ''propagation_eligible'' of
                 None \<Rightarrow> Inr None
               | Some (CVBool b) \<Rightarrow> Inr (Some b)
               | Some _ \<Rightarrow> Inl ''propagation_eligible_wrong_type'') (\<lambda>propagation.
     Inr (CalEntry model confidence sessions propagation)))))"

fun parse_phases :: "cal_json gomap \<Rightarrow> string + cal_entry gomap" where
  "parse_phases [] = Inr []"
| "parse_phases ((phase, raw) # rest) =
     (case raw of
        CVObj obj \<Rightarrow>
          sum_bind (parse_fields obj) (\<lambda>entry.
            if map_of obj ''phases'' \<noteq> None then Inl ''phases_wrong_type''
            else sum_bind (parse_phases rest) (\<lambda>es. Inr ((phase, entry []) # es)))
      | _ \<Rightarrow> Inl ''phase_entry_wrong_type'')"

definition parseCalibrationEntry :: "cal_json gomap \<Rightarrow> string + cal_entry" where
  "parseCalibrationEntry obj =
     sum_bind (parse_fields obj) (\<lambda>entry.
       case map_of obj ''phases'' of
         None \<Rightarrow> Inr (entry [])
       | Some (CVObj phases) \<Rightarrow> sum_bind (parse_phases phases) (\<lambda>es. Inr (entry es))
       | Some _ \<Rightarrow> Inl ''phases_wrong_type'')"

text \<open>The agents parsed before an error stay in the artifact, which is invalid then.\<close>

fun parse_agents :: "cal_json gomap \<Rightarrow> cal_entry gomap \<Rightarrow> cal_entry gomap \<times> string option" where
  "parse_agents [] es = (es, None)"
| "parse_agents ((agent, raw) # rest) es =
     (case raw of
        CVObj obj \<Rightarrow>
          (case parseCalibrationEntry obj of
             Inl e \<Rightarrow> (es, Some e)
           | Inr entry \<Rightarrow> parse_agents rest (es @ [(agent, entry)]))
      | _ \<Rightarrow> (es, Some ''agent_entry_wrong_type''))"

definition new_artifact :: cal_artifact where
  "new_artifact =
     \<lparr>caMetadata = \<lparr>cmArtifactKind = ''agent_model_calibration'', cmSHA256 = None, cmSchemaVersion = None, cmMode = [],
        cmModeSource = [], cmDisposition = ''static'', cmRecommendedModel = None, cmSelectedScope = None,
        cmSelectedArm = None, cmExclusions = [], cmFallbackReason = None, cmFreshness = ''unknown'',
        cmFreshnessReason = ''artifact_has_no_verified_validity'', cmAuthority = ''resolution_only''\<rparr>,
      caAgents = [], caValid = False\<rparr>"

definition read_agents :: "cal_json gomap \<Rightarrow> cal_artifact \<Rightarrow> cal_artifact" where
  "read_agents obj a =
     (case map_of obj ''agents'' of
        None \<Rightarrow> a\<lparr>caValid := True\<rparr>
      | Some (CVObj agents) \<Rightarrow>
          (case parse_agents agents [] of
             (es, None) \<Rightarrow> a\<lparr>caAgents := es, caValid := True\<rparr>
           | (es, Some e) \<Rightarrow> invalidate e (a\<lparr>caAgents := es\<rparr>))
      | Some _ \<Rightarrow> invalidate ''agents_wrong_type'' a)"

text \<open>The file's digest and its tokens, or a failure to read it.\<close>

definition ReadCalibration :: "(string \<times> cal_tok list \<times> bool) option \<Rightarrow> cal_artifact" where
  "ReadCalibration file =
     (case file of
        None \<Rightarrow>
          new_artifact\<lparr>caMetadata := (exclude ''artifact'' ''artifact_unreadable'' (caMetadata new_artifact))
            \<lparr>cmFallbackReason := Some ''calibration_artifact_unreadable''\<rparr>\<rparr>
      | Some (digest, ts, clean) \<Rightarrow>
          let a = new_artifact\<lparr>caMetadata := (caMetadata new_artifact)\<lparr>cmSHA256 := Some digest\<rparr>\<rparr> in
          (case decodeStrictJSON ts clean of
             Inl e \<Rightarrow> invalidate e a
           | Inr (CVObj obj) \<Rightarrow>
               (case requiredSchema (map_of obj ''schema_version'') of
                  Inl e \<Rightarrow> invalidate e a
                | Inr schema \<Rightarrow>
                    let a = a\<lparr>caMetadata := (caMetadata a)\<lparr>cmSchemaVersion := Some schema\<rparr>\<rparr>
                    in if schema < 1 \<or> schema > 3 then invalidate ''unsupported_schema'' a
                       else read_agents obj a)
           | Inr _ \<Rightarrow> invalidate ''top_level_not_object'' a))"

section \<open>Recommendations\<close>

definition phase_groups :: "string list list" where
  "phase_groups =
     [[''ship'', ''shipping'', ''quality-gates'', ''quality_gates''], [''plan'', ''planning''],
      [''build'', ''implementation'', ''implement'']]"

definition calibrationPhaseKeys :: "string \<Rightarrow> string list" where
  "calibrationPhaseKeys phase =
     (if phase = [] then []
      else phase # (case find (\<lambda>g. phase \<in> set g) phase_groups of
                      None \<Rightarrow> [] | Some g \<Rightarrow> filter (\<lambda>k. k \<noteq> phase) g))"

definition normalizedCalibrationAgent :: "string \<Rightarrow> string" where
  "normalizedCalibrationAgent agent = last (split_on (CHR '':'') agent)"

definition entry_faults :: "cal_entry \<Rightarrow> int \<Rightarrow> string list" where
  "entry_faults e schema =
     (case ceModel e of
        None \<Rightarrow> [''missing_recommended_model'']
      | Some m \<Rightarrow> if m \<noteq> ''haiku'' \<and> m \<noteq> ''sonnet'' \<and> m \<noteq> ''opus'' then [''unsupported_model''] else []) @
     (case ceConfidence e of
        None \<Rightarrow> [''missing_confidence'']
      | Some c \<Rightarrow> (if c < 7 / 10 then [''confidence_below_threshold''] else []) @
                  (if c > 1 then [''confidence_above_maximum''] else [])) @
     (case ceSessions e of
        None \<Rightarrow> [''missing_evidence_sessions'']
      | Some s \<Rightarrow> (if rat_int s = None then [''evidence_sessions_not_integral''] else []) @
                  (if s < 3 then [''insufficient_evidence_sessions''] else [])) @
     (if schema \<ge> 2 then
        (case cePropagation e of
           None \<Rightarrow> [''missing_propagation_eligibility'']
         | Some p \<Rightarrow> if \<not> p then [''propagation_ineligible''] else [])
      else [])"

definition entryEligibility :: "cal_entry \<Rightarrow> int \<Rightarrow> string \<times> string list" where
  "entryEligibility e schema =
     (let reasons = entry_faults e schema
      in if reasons \<noteq> [] then ([], reasons)
         else (case ceModel e of None \<Rightarrow> ([], reasons) | Some m \<Rightarrow> (m, reasons)))"

definition exclude_all :: "string \<Rightarrow> string list \<Rightarrow> cal_metadata \<Rightarrow> cal_metadata" where
  "exclude_all scope reasons m = fold (exclude scope) reasons m"

text \<open>The loop over the phase keys: a model, or the metadata it leaves.\<close>

fun phase_recommendation :: "cal_entry \<Rightarrow> int \<Rightarrow> string list \<Rightarrow> cal_metadata \<Rightarrow> string option \<times> cal_metadata" where
  "phase_recommendation entry schema [] m = (None, m)"
| "phase_recommendation entry schema (phase # ps) m =
     (case map_of (cePhases entry) phase of
        None \<Rightarrow> phase_recommendation entry schema ps (exclude (''phase:'' @ phase) ''missing_phase_entry'' m)
      | Some pe \<Rightarrow>
          let (model, reasons) = entryEligibility pe schema;
              m = exclude_all (''phase:'' @ phase) reasons m
          in if model \<noteq> [] then
               (Some model, m\<lparr>cmRecommendedModel := Some model, cmSelectedScope := Some (''phase:'' @ phase)\<rparr>)
             else phase_recommendation entry schema ps m)"

definition recommendation :: "cal_artifact \<Rightarrow> resolve_opts \<Rightarrow> cal_metadata \<Rightarrow> string option \<times> cal_metadata" where
  "recommendation a opts m =
     (case (caValid a, cmSchemaVersion (caMetadata a)) of
        (True, Some schema) \<Rightarrow>
          let agent = normalizedCalibrationAgent (roAgent opts) in
          if agent = [] then
            (None, (exclude ''agent'' ''agent_missing'' m)\<lparr>cmFallbackReason := Some ''agent_missing''\<rparr>)
          else
            (case map_of (caAgents a) agent of
               None \<Rightarrow> (None, (exclude ''agent'' ''agent_not_found'' m)\<lparr>cmFallbackReason := Some ''agent_not_found''\<rparr>)
             | Some entry \<Rightarrow>
                 (case phase_recommendation entry schema (calibrationPhaseKeys (roPhase opts)) m of
                    (Some model, m) \<Rightarrow> (Some model, m)
                  | (None, m) \<Rightarrow>
                      let (model, reasons) = entryEligibility entry schema;
                          m = exclude_all ''agent'' reasons m
                      in if model = [] then (None, m\<lparr>cmFallbackReason := Some ''no_eligible_recommendation''\<rparr>)
                         else (Some model, m\<lparr>cmRecommendedModel := Some model, cmSelectedScope := Some ''agent'',
                                 cmFallbackReason := (if roPhase opts \<noteq> [] then Some ''phase_recommendation_unavailable''
                                                      else cmFallbackReason m)\<rparr>)))
      | _ \<Rightarrow> (None, m))"

section \<open>The model of an agent with an artifact\<close>

definition valid_mode :: "string \<Rightarrow> bool" where
  "valid_mode mode \<longleftrightarrow> mode = ''off'' \<or> mode = ''shadow'' \<or> mode = ''enforce''"

definition calibrationMode :: "envvars \<Rightarrow> routing_config \<Rightarrow> string \<times> string \<times> bool" where
  "calibrationMode env cfg =
     (case env ''INTERSPECT_ROUTING_MODE'' of
        Some mode \<Rightarrow> (mode, ''environment'', valid_mode mode)
      | None \<Rightarrow>
          let mode = ccMode (cfCalibration cfg) in
          if mode = [] \<or> ccDefaulted (cfCalibration cfg) then
            (let mode = (if mode = [] then ''off'' else mode) in (mode, ''default'', valid_mode mode))
          else (mode, ''policy'', valid_mode mode))"

record model_resolution =
  mrModel :: string
  mrCalibration :: "cal_metadata option"

text \<open>The cases of the switch, in order: the metadata and the model selected before the floor.\<close>

definition select_calibrated ::
    "cal_artifact \<Rightarrow> bool \<Rightarrow> string \<Rightarrow> bool \<Rightarrow> string option \<Rightarrow> string \<Rightarrow> cal_metadata \<Rightarrow> cal_metadata \<times> string" where
  "select_calibrated a validMode mode overridden recommended staticModel m =
     (if \<not> validMode then
        (exclude ''mode'' ''unsupported_mode'' (m\<lparr>cmDisposition := ''static'', cmFallbackReason := Some ''invalid_calibration_mode''\<rparr>), staticModel)
      else if \<not> caValid a then (m\<lparr>cmDisposition := ''static''\<rparr>, staticModel)
      else
        (case recommended of
           None \<Rightarrow> (m\<lparr>cmDisposition := ''static''\<rparr>, staticModel)
         | Some model \<Rightarrow>
             if overridden then
               (exclude ''agent'' ''static_agent_override''
                  (m\<lparr>cmDisposition := ''static'', cmFallbackReason := Some ''static_agent_override''\<rparr>), staticModel)
             else if mode = ''off'' then
               (m\<lparr>cmDisposition := ''static'', cmFallbackReason := Some ''calibration_mode_off''\<rparr>, staticModel)
             else if mode = ''shadow'' then
               (m\<lparr>cmDisposition := ''shadow'', cmFallbackReason := Some ''shadow_mode''\<rparr>, staticModel)
             else if cmSchemaVersion (caMetadata a) = Some 1 then
               (m\<lparr>cmDisposition := ''static'', cmFallbackReason := Some ''schema_1_diagnostic_only''\<rparr>, staticModel)
             else if mode = ''enforce'' then (m\<lparr>cmDisposition := ''applied''\<rparr>, model)
             else (m, staticModel)))"

definition ResolveModelDetailed :: "envvars \<Rightarrow> routing_config \<Rightarrow> resolve_opts \<Rightarrow> cal_artifact option \<Rightarrow> model_resolution" where
  "ResolveModelDetailed env cfg opts artifact =
     (case artifact of
        None \<Rightarrow> \<lparr>mrModel = ResolveModel env cfg opts, mrCalibration = None\<rparr>
      | Some a \<Rightarrow>
          let (staticModel, overridden) = resolveStaticModel cfg opts;
              (mode, source, validMode) = calibrationMode env cfg;
              m = (caMetadata a)\<lparr>cmMode := mode, cmModeSource := source\<rparr>;
              (recommended, m) = recommendation a opts m;
              m = (if cmSchemaVersion (caMetadata a) = Some 1 then exclude ''artifact'' ''schema_1_not_authoritative'' m else m);
              (m, selected) = select_calibrated a validMode mode overridden recommended staticModel m;
              model = finalizeModel env cfg opts selected;
              m = (if cmDisposition m = ''applied'' \<and> model \<noteq> selected
                   then exclude ''model'' ''safety_floor_applied'' (m\<lparr>cmFallbackReason := Some ''safety_floor_applied''\<rparr>)
                   else m)
          in \<lparr>mrModel = model, mrCalibration = Some m\<rparr>)"

definition ResolveBatchDetailed ::
    "envvars \<Rightarrow> routing_config \<Rightarrow> string list \<Rightarrow> string \<Rightarrow> cal_artifact option \<Rightarrow> (string \<rightharpoonup> string) \<times> (string \<rightharpoonup> cal_metadata)" where
  "ResolveBatchDetailed env cfg agents phase artifact =
     fold (\<lambda>agent (ms, cs).
         let r = ResolveModelDetailed env cfg
                   \<lparr>roPhase = phase, roCategory = inferCategory agent, roAgent = inferAgentID agent\<rparr> artifact
         in (ms(agent \<mapsto> mrModel r),
             case mrCalibration r of Some c \<Rightarrow> cs(agent \<mapsto> c) | None \<Rightarrow> cs))
       agents (Map.empty, Map.empty)"

definition DiagnoseRoleCalibration :: "envvars \<Rightarrow> routing_config \<Rightarrow> cal_artifact option \<Rightarrow> cal_metadata option" where
  "DiagnoseRoleCalibration env cfg artifact =
     (case artifact of
        None \<Rightarrow> None
      | Some a \<Rightarrow>
          let (mode, source, validMode) = calibrationMode env cfg;
              m = exclude ''role'' ''unsupported_artifact_kind''
                    ((caMetadata a)\<lparr>cmMode := mode, cmModeSource := source, cmDisposition := ''static'',
                       cmRecommendedModel := None, cmSelectedScope := None, cmSelectedArm := None\<rparr>)
          in Some (if \<not> validMode then exclude ''mode'' ''unsupported_mode'' (m\<lparr>cmFallbackReason := Some ''invalid_calibration_mode''\<rparr>)
                   else if caValid a then m\<lparr>cmFallbackReason := Some ''unsupported_artifact_kind_for_role''\<rparr>
                   else m))"

section \<open>What an artifact can do\<close>

definition eligible_entry :: "int \<Rightarrow> cal_entry \<Rightarrow> string \<Rightarrow> bool" where
  "eligible_entry schema e model \<longleftrightarrow>
     ceModel e = Some model \<and> model \<in> {''haiku'', ''sonnet'', ''opus''} \<and>
     (case ceConfidence e of None \<Rightarrow> False | Some c \<Rightarrow> 7 / 10 \<le> c \<and> c \<le> 1) \<and>
     (case ceSessions e of None \<Rightarrow> False | Some s \<Rightarrow> rat_int s \<noteq> None \<and> 3 \<le> s) \<and>
     (2 \<le> schema \<longrightarrow> cePropagation e = Some True)"

lemma entryEligibility_eligible:
  "entryEligibility e schema = (model, reasons) \<Longrightarrow> model \<noteq> [] \<Longrightarrow> eligible_entry schema e model"
  by (auto simp: entryEligibility_def entry_faults_def eligible_entry_def Let_def split: option.splits if_splits)

lemma phase_recommendation_Some:
  assumes "phase_recommendation entry schema ps m = (Some model, m')"
  shows "\<exists>phase pe. map_of (cePhases entry) phase = Some pe \<and> phase \<in> set ps \<and> eligible_entry schema pe model"
  using assms
proof (induction ps arbitrary: m)
  case (Cons p ps)
  show ?case
  proof (cases "map_of (cePhases entry) p")
    case None
    with Cons show ?thesis by fastforce
  next
    case (Some pe)
    obtain md rs where e: "entryEligibility pe schema = (md, rs)" by (cases "entryEligibility pe schema")
    show ?thesis
    proof (cases "md = []")
      case True
      with Cons Some e show ?thesis by (fastforce simp: Let_def)
    next
      case False
      with Cons.prems Some e have "md = model" by (simp add: Let_def)
      with entryEligibility_eligible [OF e False] Some show ?thesis by auto
    qed
  qed
qed simp

text \<open>The entries an artifact may recommend a model from: the agent's, or one of its phase's names.\<close>

definition recommended_by :: "cal_artifact \<Rightarrow> resolve_opts \<Rightarrow> int \<Rightarrow> string \<Rightarrow> bool" where
  "recommended_by a opts schema model \<longleftrightarrow>
     (\<exists>entry e. map_of (caAgents a) (normalizedCalibrationAgent (roAgent opts)) = Some entry \<and>
        (e = entry \<or> (\<exists>phase \<in> set (calibrationPhaseKeys (roPhase opts)). map_of (cePhases entry) phase = Some e)) \<and>
        eligible_entry schema e model)"

lemma recommendation_Some:
  assumes "recommendation a opts m = (Some model, m')"
  obtains schema where "caValid a" "cmSchemaVersion (caMetadata a) = Some schema" "recommended_by a opts schema model"
proof -
  from assms obtain schema entry where v: "caValid a" "cmSchemaVersion (caMetadata a) = Some schema"
    and n: "map_of (caAgents a) (normalizedCalibrationAgent (roAgent opts)) = Some entry"
    and r: "(case phase_recommendation entry schema (calibrationPhaseKeys (roPhase opts)) m of
          (Some model, m) \<Rightarrow> (Some model, m)
        | (None, m) \<Rightarrow>
            let (model, reasons) = entryEligibility entry schema;
                m = exclude_all ''agent'' reasons m
            in if model = [] then (None, m\<lparr>cmFallbackReason := Some ''no_eligible_recommendation''\<rparr>)
               else (Some model, m\<lparr>cmRecommendedModel := Some model, cmSelectedScope := Some ''agent'',
                       cmFallbackReason := (if roPhase opts \<noteq> [] then Some ''phase_recommendation_unavailable''
                                            else cmFallbackReason m)\<rparr>)) = (Some model, m')"
    by (auto simp: recommendation_def Let_def split: bool.splits option.splits if_split_asm)
  obtain p m1 where p: "phase_recommendation entry schema (calibrationPhaseKeys (roPhase opts)) m = (p, m1)" by fastforce
  have "recommended_by a opts schema model"
  proof (cases p)
    case None
    obtain md rs where e: "entryEligibility entry schema = (md, rs)" by fastforce
    from r p None e have "md = model" "md \<noteq> []" by (auto simp: Let_def split: if_splits)
    with entryEligibility_eligible [OF e] n show ?thesis by (auto simp: recommended_by_def)
  next
    case (Some q)
    with r p have "q = model" by simp
    with phase_recommendation_Some [of entry schema _ m model m1] p Some obtain phase pe where
      "map_of (cePhases entry) phase = Some pe" "phase \<in> set (calibrationPhaseKeys (roPhase opts))" "eligible_entry schema pe model"
      by blast
    with n show ?thesis by (auto simp: recommended_by_def)
  qed
  with v that show thesis by blast
qed

lemma invalidate_invalid [simp]: "caValid (invalidate e a) = caValid a"
  by (simp add: invalidate_def)

lemma new_artifact_invalid [simp]: "caValid new_artifact = False"
  by (simp add: new_artifact_def)

lemma read_agents_schema [simp]: "cmSchemaVersion (caMetadata (read_agents obj a)) = cmSchemaVersion (caMetadata a)"
  by (auto simp: read_agents_def invalidate_def exclude_def split: option.split cal_json.split prod.split)

lemma ReadCalibration_valid:
  assumes "caValid (ReadCalibration file)" "cmSchemaVersion (caMetadata (ReadCalibration file)) = Some schema"
  shows "1 \<le> schema \<and> schema \<le> 3"
  using assms by (auto simp: ReadCalibration_def Let_def split: option.splits prod.splits sum.splits cal_json.splits if_split_asm)

lemma applyFloor_at_least:
  "agent_floor floors agent = Some fl \<Longrightarrow> ParseModelTier fl \<le> ParseModelTier (applyFloor floors agent model)"
  by (auto simp: applyFloor_def TierUnknown_def)

lemma finalizeModel_at_least:
  "roAgent opts \<noteq> [] \<Longrightarrow> agent_floor (SafetyFloors (cfRoles cfg)) (roAgent opts) = Some fl \<Longrightarrow>
     ParseModelTier fl \<le> ParseModelTier (finalizeModel env cfg opts model)"
  by (simp add: finalizeModel_def applyFloor_at_least Let_def)

definition floor_respected :: "routing_config \<Rightarrow> resolve_opts \<Rightarrow> string \<Rightarrow> bool" where
  "floor_respected cfg opts model \<longleftrightarrow>
     (roAgent opts = [] \<or>
      (case agent_floor (SafetyFloors (cfRoles cfg)) (roAgent opts) of
         None \<Rightarrow> True | Some fl \<Rightarrow> ParseModelTier fl \<le> ParseModelTier model))"

lemma finalizeModel_floor: "floor_respected cfg opts (finalizeModel env cfg opts model)"
  by (cases "roAgent opts = []") (auto simp: floor_respected_def dest: finalizeModel_at_least split: option.split)

text \<open>
  C32. A calibration file only ever changes the model of an agent in enforce mode, for an agent
  without a static override, from a file of schema 2 or 3 that decodes strictly, to a model
  an entry for this agent (or its phase) recommends with a confidence from 0.7 to 1, an
  integral number of at least three sessions and marked eligible; and even then the model of
  an agent is never below its safety floor.
\<close>

theorem calibration_authority:
  assumes "ResolveModelDetailed env cfg opts (Some (ReadCalibration file)) = r"
  shows "floor_respected cfg opts (mrModel r) \<and>
    (mrModel r \<noteq> ResolveModel env cfg opts \<longrightarrow>
       fst (calibrationMode env cfg) = ''enforce'' \<and> \<not> snd (resolveStaticModel cfg opts) \<and>
       (\<exists>schema model. (schema = 2 \<or> schema = 3) \<and> recommended_by (ReadCalibration file) opts schema model \<and>
          mrModel r = finalizeModel env cfg opts model))"
proof -
  let ?a = "ReadCalibration file"
  obtain staticModel overridden where st: "resolveStaticModel cfg opts = (staticModel, overridden)" by fastforce
  obtain mode source validMode where cm: "calibrationMode env cfg = (mode, source, validMode)" using prod_cases3 by blast
  obtain rec m1 where rec: "recommendation ?a opts ((caMetadata ?a)\<lparr>cmMode := mode, cmModeSource := source\<rparr>) = (rec, m1)" by fastforce
  define m2 where "m2 = (if cmSchemaVersion (caMetadata ?a) = Some 1 then exclude ''artifact'' ''schema_1_not_authoritative'' m1 else m1)"
  obtain m3 selected where sel: "select_calibrated ?a validMode mode overridden rec staticModel m2 = (m3, selected)" by fastforce
  have r: "mrModel r = finalizeModel env cfg opts selected"
    using assms by (auto simp: ResolveModelDetailed_def st cm rec Let_def sel m2_def [symmetric])
  have static: "ResolveModel env cfg opts = finalizeModel env cfg opts staticModel"
    by (simp add: ResolveModel_def st)
  have "mode = ''enforce'' \<and> \<not> overridden \<and> caValid ?a \<and> rec = Some selected \<and> cmSchemaVersion (caMetadata ?a) \<noteq> Some 1"
    if "selected \<noteq> staticModel"
    using sel that by (auto simp: select_calibrated_def split: if_splits option.splits)
  moreover have "\<exists>schema. (schema = 2 \<or> schema = 3) \<and> recommended_by ?a opts schema selected"
    if s: "rec = Some selected" "cmSchemaVersion (caMetadata ?a) \<noteq> Some 1"
  proof -
    from rec s(1) obtain schema where "caValid ?a" "cmSchemaVersion (caMetadata ?a) = Some schema" "recommended_by ?a opts schema selected"
      by (auto elim: recommendation_Some)
    moreover from ReadCalibration_valid [OF this(1,2)] s(2) this(2) have "schema = 2 \<or> schema = 3" by auto
    ultimately show ?thesis by blast
  qed
  ultimately show ?thesis
    unfolding r static st cm by (auto simp: finalizeModel_floor)
qed

text \<open>
  A floor of fable reopens the closed window: the degradation to opus runs before the floor.
\<close>

lemma floor_reopens_fable:
  assumes "\<not> fableWindowOpen env" "agent_floor (SafetyFloors (cfRoles cfg)) (roAgent opts) = Some ''fable''" "roAgent opts \<noteq> []"
  shows "finalizeModel env cfg opts ''fable'' = ''fable''"
  using assms by (simp add: finalizeModel_def applyFloor_def ParseModelTier_def const_defs)

section \<open>A concrete artifact\<close>

definition cal_file :: "(string \<times> cal_tok list \<times> bool) option" where
  "cal_file = Some (''sha'',
     [CTDelim (CHR ''{''), CTStr ''schema_version'', CTNum 2, CTStr ''agents'', CTDelim (CHR ''{''), CTStr ''fd-x'',
      CTDelim (CHR ''{''), CTStr ''recommended_model'', CTStr ''opus'', CTStr ''confidence'', CTNum (9 / 10),
      CTStr ''evidence_sessions'', CTNum 5, CTStr ''propagation_eligible'', CTBool True,
      CTDelim (CHR ''}''), CTDelim (CHR ''}''), CTDelim (CHR ''}'')], True)"

definition cal_env :: envvars where
  "cal_env = [''INTERSPECT_ROUTING_MODE'' \<mapsto> ''enforce'']"

definition cal_config :: routing_config where
  "cal_config = \<lparr>cfPolicySource = [], cfPolicyHash = [],
     cfReasoning = \<lparr>rpFrontierModels = [], rpFrontierReasons = [], rpDualReviewReasons = [], rpStrikes = 2, rpProfiles = []\<rparr>,
     cfSubagents = \<lparr>sdModel = ''haiku'', sdCategories = [], sPhases = [], sOverrides = []\<rparr>,
     cfDispatch = \<lparr>dcEffortFloors = [], dcEffortFloorExemptions = [], dcModelAliases = [], dcRoles = [], dcTiers = [],
       dcFallback = [], dcCrossLabFirst = []\<rparr>,
     cfComplexity = \<lparr>cxMode = ''off'', cxTiers = [], cxOverrides = []\<rparr>,
     cfCalibration = \<lparr>ccMode = ''off'', ccDefaulted = True\<rparr>,
     cfRoles = [(''r'', \<lparr>reModelTier = ''t'', reMinModel = ''sonnet'', reAgents = [''fd-x'']\<rparr>)]\<rparr>"

definition cal_opts :: resolve_opts where
  "cal_opts = \<lparr>roPhase = ''ship'', roCategory = [], roAgent = ''interflux:review:fd-x''\<rparr>"

definition cal_object :: "cal_json gomap" where
  "cal_object = [(''schema_version'', CVNum 2), (''agents'', CVObj [(''fd-x'', CVObj
     [(''recommended_model'', CVStr ''opus''), (''confidence'', CVNum (9 / 10)), (''evidence_sessions'', CVNum 5),
      (''propagation_eligible'', CVBool True)])])]"

lemma cal_numbers: "float_inf 2 = False" "float_inf 5 = False" "float_inf (9 / 10) = False"
  "float_zero 2 = False" "float_zero 5 = False" "float_zero (9 / 10) = False"
  by (simp_all add: float_inf_def float_zero_def)

lemma rat_ints: "rat_int 2 = Some 2" "rat_int 5 = Some 5"
  by code_simp+

lemma cal_decoded: "decodeStrictJSON (fst (snd (the cal_file))) True = Inr (CVObj cal_object)"
  by (simp add: cal_file_def decodeStrictJSON_def finiteNumber_def cal_numbers cal_object_def numeral_eq_Suc)

definition cal_entry_x :: cal_entry where
  "cal_entry_x = CalEntry (Some ''opus'') (Some (9 / 10)) (Some 5) (Some True) []"

lemma cal_artifact_read:
  "caValid (ReadCalibration cal_file)" "caAgents (ReadCalibration cal_file) = [(''fd-x'', cal_entry_x)]"
  "cmSchemaVersion (caMetadata (ReadCalibration cal_file)) = Some 2"
proof -
  have f: "cal_file = Some (''sha'', fst (snd (the cal_file)), True)" by (simp add: cal_file_def)
  have "requiredSchema (map_of cal_object ''schema_version'') = Inr 2"
    by (simp add: requiredSchema_def exactCalibrationNumber_def finiteNumber_def cal_numbers rat_ints cal_object_def)
  moreover have "parse_agents [(''fd-x'', CVObj [(''recommended_model'', CVStr ''opus''), (''confidence'', CVNum (9 / 10)),
      (''evidence_sessions'', CVNum 5), (''propagation_eligible'', CVBool True)])] [] = ([(''fd-x'', cal_entry_x)], None)"
    by (simp add: parseCalibrationEntry_def parse_fields_def optional_number_def exactCalibrationNumber_def
        finiteNumber_def cal_numbers cal_entry_x_def)
  moreover have "map_of cal_object ''agents'' = Some (CVObj [(''fd-x'', CVObj [(''recommended_model'', CVStr ''opus''),
      (''confidence'', CVNum (9 / 10)), (''evidence_sessions'', CVNum 5), (''propagation_eligible'', CVBool True)])])"
    by (simp add: cal_object_def)
  ultimately show "caValid (ReadCalibration cal_file)" "caAgents (ReadCalibration cal_file) = [(''fd-x'', cal_entry_x)]"
    "cmSchemaVersion (caMetadata (ReadCalibration cal_file)) = Some 2"
    by (subst f, simp add: ReadCalibration_def cal_decoded read_agents_def)+
qed

lemma cal_resolved:
  "mrModel (ResolveModelDetailed cal_env cal_config cal_opts (Some (ReadCalibration cal_file))) = ''opus''"
  "ResolveModel cal_env cal_config cal_opts = ''sonnet''"
proof -
  have agent: "normalizedCalibrationAgent (roAgent cal_opts) = ''fd-x''" by code_simp
  have static: "resolveStaticModel cal_config cal_opts = (''haiku'', False)" by code_simp
  have mode: "calibrationMode cal_env cal_config = (''enforce'', ''environment'', True)" by code_simp
  have fin: "finalizeModel cal_env cal_config cal_opts ''opus'' = ''opus''"
    "finalizeModel cal_env cal_config cal_opts ''haiku'' = ''sonnet''" by code_simp+
  have e: "entryEligibility cal_entry_x 2 = (''opus'', [])"
    by (simp add: entryEligibility_def entry_faults_def cal_entry_x_def rat_ints)
  have p: "phase_recommendation cal_entry_x 2 ps m = (None, fold (\<lambda>p. exclude (''phase:'' @ p) ''missing_phase_entry'') ps m)" for ps m
    by (induction ps arbitrary: m) (simp_all add: cal_entry_x_def)
  have "fst (recommendation (ReadCalibration cal_file) cal_opts m) = Some ''opus''" for m
    by (simp add: recommendation_def cal_artifact_read agent p e Let_def)
  then obtain m' where "recommendation (ReadCalibration cal_file) cal_opts
      ((caMetadata (ReadCalibration cal_file))\<lparr>cmMode := ''enforce'', cmModeSource := ''environment''\<rparr>) = (Some ''opus'', m')"
    by (metis prod.collapse)
  then show "mrModel (ResolveModelDetailed cal_env cal_config cal_opts (Some (ReadCalibration cal_file))) = ''opus''"
    by (simp add: ResolveModelDetailed_def static mode select_calibrated_def cal_artifact_read fin Let_def)
  show "ResolveModel cal_env cal_config cal_opts = ''sonnet''" by (simp add: ResolveModel_def static fin)
qed

theorem calibration_authority_witness:
  "\<exists>schema model. recommended_by (ReadCalibration cal_file) cal_opts schema model \<and>
     finalizeModel cal_env cal_config cal_opts model = ''opus'' \<and> ResolveModel cal_env cal_config cal_opts = ''sonnet''"
proof -
  have "''opus'' \<noteq> (''sonnet'' :: string)" by simp
  with calibration_authority [of cal_env cal_config cal_opts cal_file, OF refl] cal_resolved show ?thesis by metis
qed

end
