(* ===== verification/RouteRegistry.thy ===== *)
theory RouteRegistry
  imports Complex_Main Routing
begin

text \<open>
  The deployment registry and its trust zones, \<^verbatim>\<open>internal/routing/registry.go\<close> and
  \<^verbatim>\<open>constraint.go\<close>. Durations and times are nanoseconds; \<^verbatim>\<open>time.ParseDuration\<close> and
  \<^verbatim>\<open>time.Parse\<close> are arguments. The effort maps and prices of a deployment, which nothing here
  reads, are left out.
\<close>

section \<open>Deployments\<close>

definition ProvBenchmark :: string where [const_defs]: "ProvBenchmark = ''benchmark''"
definition ProvJudgment :: string where [const_defs]: "ProvJudgment = ''judgment''"
definition ProvUnknown :: string where [const_defs]: "ProvUnknown = ''unknown''"

definition provenanceRank :: "string \<rightharpoonup> int" where
  "provenanceRank p =
     (if p = ProvBenchmark then Some 2 else if p = ProvJudgment then Some 1
      else if p = ProvUnknown then Some 0 else None)"

definition rankToProvenance :: "int \<Rightarrow> string" where
  "rankToProvenance r = (if r \<ge> 2 then ProvBenchmark else if r = 1 then ProvJudgment else ProvUnknown)"

definition ZoneLocal :: string where [const_defs]: "ZoneLocal = ''local''"
definition ZoneApprovedVendor :: string where [const_defs]: "ZoneApprovedVendor = ''approved-vendor''"
definition ZoneVendorCloud :: string where [const_defs]: "ZoneVendorCloud = ''vendor-cloud''"
definition CostPerToken :: string where [const_defs]: "CostPerToken = ''per-token''"
definition CostSubscription :: string where [const_defs]: "CostSubscription = ''subscription-quota''"
definition CostCapacity :: string where [const_defs]: "CostCapacity = ''capacity''"
definition StabilityPinned :: string where [const_defs]: "StabilityPinned = ''pinned''"
definition StabilityVendorLive :: string where [const_defs]: "StabilityVendorLive = ''vendor-live''"

record capability_value =
  cvProvenance :: string
  cvVerifiedAt :: string
  cvJudgedBy :: string
  cvRationale :: string

record deployment =
  dpVersionStability :: string
  dpTrustZone :: string
  dpCostType :: string
  dpCapabilities :: "capability_value gomap"

record registry =
  rgVersion :: int
  rgStalenessHorizon :: string
  rgDeployments :: "deployment gomap"

datatype registry_error =
    ErrRegistryRead
  | ErrRegistryParse
  | ErrVersion int
  | ErrHorizon
  | ErrKey string
  | ErrProvenance string string string
  | ErrZoneMissing string
  | ErrZone string string
  | ErrCostMissing string
  | ErrCost string string
  | ErrStabilityMissing string
  | ErrStability string string

definition day :: int where "day = 24 * 3600 * 10 ^ 9"

definition maxHorizonDays :: int where "maxHorizonDays = (2 ^ 63 - 1) div day"

text \<open>A number of days, otherwise what the standard library parses, if positive.\<close>

definition parseHorizon :: "(string \<Rightarrow> int option) \<Rightarrow> string \<Rightarrow> int option" where
  "parseHorizon parseDuration s =
     (if s = [] then None
      else if 1 < length s \<and> last s = CHR ''d'' then
        (let digits = butlast s in
         if \<not> list_all is_digit digits then None
         else (case Atoi digits of
                 None \<Rightarrow> None
               | Some days \<Rightarrow> if days \<le> 0 \<or> days > maxHorizonDays then None else Some (days * day)))
      else (case parseDuration s of None \<Rightarrow> None | Some d \<Rightarrow> if d \<le> 0 then None else Some d))"

text \<open>The expression \<^verbatim>\<open>^[^/@\s]+/[^/@\s]+@[^/@\s]+$\<close>.\<close>

definition key_part :: "string \<Rightarrow> bool" where
  "key_part s \<longleftrightarrow> s \<noteq> [] \<and>
     list_all (\<lambda>c. c \<notin> {CHR ''/'', CHR ''@'', CHR 0x09, CHR 0x0A, CHR 0x0C, CHR 0x0D, CHR 0x20}) s"

definition key_ok :: "string \<Rightarrow> bool" where
  "key_ok key \<longleftrightarrow>
     (let vendor = takeWhile (\<lambda>c. c \<noteq> CHR ''/'') key;
          rest = drop (length vendor + 1) key;
          model = takeWhile (\<lambda>c. c \<noteq> CHR ''@'') rest;
          place = drop (length model + 1) rest
      in key_part vendor \<and> key_part model \<and> key_part place)"

fun check_capabilities :: "string \<Rightarrow> capability_value gomap \<Rightarrow> registry_error option" where
  "check_capabilities key [] = None"
| "check_capabilities key ((name, cv) # cs) =
     (if cvProvenance cv \<noteq> [] \<and> provenanceRank (cvProvenance cv) = None
      then Some (ErrProvenance key name (cvProvenance cv)) else check_capabilities key cs)"

definition check_deployment :: "string \<Rightarrow> deployment \<Rightarrow> registry_error option" where
  "check_deployment key dep =
     (if \<not> key_ok key then Some (ErrKey key)
      else case check_capabilities key (dpCapabilities dep) of
        Some e \<Rightarrow> Some e
      | None \<Rightarrow>
          if dpTrustZone dep = [] then Some (ErrZoneMissing key)
          else if dpTrustZone dep \<notin> {ZoneLocal, ZoneApprovedVendor, ZoneVendorCloud} then Some (ErrZone key (dpTrustZone dep))
          else if dpCostType dep = [] then Some (ErrCostMissing key)
          else if dpCostType dep \<notin> {CostPerToken, CostSubscription, CostCapacity} then Some (ErrCost key (dpCostType dep))
          else if dpVersionStability dep = [] then Some (ErrStabilityMissing key)
          else if dpVersionStability dep \<notin> {StabilityPinned, StabilityVendorLive}
            then Some (ErrStability key (dpVersionStability dep))
          else None)"

fun check_deployments :: "deployment gomap \<Rightarrow> registry_error option" where
  "check_deployments [] = None"
| "check_deployments ((key, dep) # ds) =
     (case check_deployment key dep of Some e \<Rightarrow> Some e | None \<Rightarrow> check_deployments ds)"

definition Validate :: "(string \<Rightarrow> int option) \<Rightarrow> registry \<Rightarrow> registry_error option" where
  "Validate parseDuration r =
     (if rgVersion r < 1 then Some (ErrVersion (rgVersion r))
      else if rgStalenessHorizon r \<noteq> [] \<and> parseHorizon parseDuration (rgStalenessHorizon r) = None then Some ErrHorizon
      else check_deployments (rgDeployments r))"

definition LoadRegistry ::
    "(string \<Rightarrow> int option) \<Rightarrow> (string \<Rightarrow> string option) \<Rightarrow> (string \<Rightarrow> registry option) \<Rightarrow> string \<Rightarrow> registry_error + registry" where
  "LoadRegistry parseDuration readFile yaml path =
     (case readFile path of
        None \<Rightarrow> Inl ErrRegistryRead
      | Some data \<Rightarrow>
          (case yaml data of
             None \<Rightarrow> Inl ErrRegistryParse
           | Some reg \<Rightarrow> (case Validate parseDuration reg of Some e \<Rightarrow> Inl e | None \<Rightarrow> Inr reg)))"

section \<open>Staleness\<close>

definition StalenessAdjusted ::
    "(string \<Rightarrow> int option) \<Rightarrow> (string \<Rightarrow> int option) \<Rightarrow> registry \<Rightarrow> deployment \<Rightarrow> capability_value \<Rightarrow> int \<Rightarrow> string" where
  "StalenessAdjusted parseDuration parseDate r dep v now =
     (case provenanceRank (cvProvenance v) of
        None \<Rightarrow> ProvUnknown
      | Some rank \<Rightarrow>
          if cvProvenance v = ProvUnknown then ProvUnknown
          else case parseHorizon parseDuration (rgStalenessHorizon r) of
            None \<Rightarrow> ProvUnknown
          | Some horizon \<Rightarrow>
              if cvVerifiedAt v = [] then ProvUnknown
              else case parseDate (cvVerifiedAt v) of
                None \<Rightarrow> ProvUnknown
              | Some verified \<Rightarrow>
                  let horizon = (if dpVersionStability dep = StabilityVendorLive then horizon div 2 else horizon)
                  in if time_sub now verified > horizon then rankToProvenance (rank - 1) else cvProvenance v)"

section \<open>Trust-zone constraints\<close>

record constraint =
  csMatch :: "string gomap"
  csRequireTrustZone :: "string list"

record task_descriptor =
  tdRole :: string
  tdClass :: string
  tdFields :: "string gomap"

record constraint_error =
  ceField :: string
  ceValue :: string
  ceRequired :: "string list"
  ceGot :: string

text \<open>A field the task does not carry reads as the empty string.\<close>

definition field_value :: "task_descriptor \<Rightarrow> string \<Rightarrow> string" where
  "field_value td k = (case map_of (tdFields td) k of Some v \<Rightarrow> v | None \<Rightarrow> [])"

definition Applies :: "constraint \<Rightarrow> task_descriptor \<Rightarrow> bool" where
  "Applies c td \<longleftrightarrow> list_all (\<lambda>(k, want). field_value td k = want) (csMatch c) \<and> csMatch c \<noteq> []"

definition permits :: "constraint \<Rightarrow> string \<Rightarrow> bool" where
  "permits c zone \<longleftrightarrow> zone \<in> set (csRequireTrustZone c)"

definition firstMatchField :: "constraint \<Rightarrow> string \<times> string" where
  "firstMatchField c = (case csMatch c of [] \<Rightarrow> ([], []) | kv # _ \<Rightarrow> kv)"

fun CheckConstraints :: "constraint list \<Rightarrow> task_descriptor \<Rightarrow> string \<Rightarrow> constraint_error option" where
  "CheckConstraints [] td zone = None"
| "CheckConstraints (c # cs) td zone =
     (if \<not> Applies c td then CheckConstraints cs td zone
      else if \<not> permits c zone then
        Some \<lparr>ceField = fst (firstMatchField c), ceValue = snd (firstMatchField c),
              ceRequired = csRequireTrustZone c, ceGot = zone\<rparr>
      else CheckConstraints cs td zone)"

definition EligibleDeployments :: "registry \<Rightarrow> constraint list \<Rightarrow> task_descriptor \<Rightarrow> string list" where
  "EligibleDeployments r constraints td =
     map fst (filter (\<lambda>(_, dep). CheckConstraints constraints td (dpTrustZone dep) = None) (rgDeployments r))"

definition KnownDataLabels :: "string list" where
  "KnownDataLabels = [''public'', ''internal'', ''client-confidential'']"

section \<open>Properties\<close>

lemma check_deployments_None: "check_deployments ds = None \<longleftrightarrow> list_all (\<lambda>(key, dep). check_deployment key dep = None) ds"
  by (induction ds) (auto split: option.splits)

lemma check_deployment_zone:
  "check_deployment key dep = None \<Longrightarrow> dpTrustZone dep \<in> {ZoneLocal, ZoneApprovedVendor, ZoneVendorCloud}"
  unfolding check_deployment_def by (simp split: option.split_asm if_split_asm)

lemma CheckConstraints_None:
  "CheckConstraints cs td zone = None \<longleftrightarrow> list_all (\<lambda>c. Applies c td \<longrightarrow> zone \<in> set (csRequireTrustZone c)) cs"
  by (induction cs) (auto simp: permits_def)

text \<open>The zones every constraint that applies to the task allows.\<close>

definition allowed_zone :: "constraint list \<Rightarrow> task_descriptor \<Rightarrow> string \<Rightarrow> bool" where
  "allowed_zone cs td zone \<longleftrightarrow> list_all (\<lambda>c. \<not> Applies c td \<or> zone \<in> set (csRequireTrustZone c)) cs"

text \<open>
  Trust zones fail closed: the deployments eligible for a task are exactly those of the
  registry in a zone every applicable constraint allows, so a constraint without a zone
  blocks all of them; a further constraint never makes a deployment eligible, and a loaded
  registry only has deployments in the three known zones.
\<close>

lemma eligible_in_zone:
  assumes "LoadRegistry parseDuration readFile yaml path = Inr r"
  shows "set (EligibleDeployments r cs td) = {key. list_ex (\<lambda>(k, dep). k = key \<and> allowed_zone cs td (dpTrustZone dep)) (rgDeployments r)} \<and>
    (list_ex (\<lambda>c. Applies c td \<and> csRequireTrustZone c = []) cs \<longrightarrow> EligibleDeployments r cs td = []) \<and>
    set (EligibleDeployments r (cs @ cs') td) \<subseteq> set (EligibleDeployments r cs td) \<and>
    list_all (\<lambda>(k, dep). dpTrustZone dep \<in> {ZoneLocal, ZoneApprovedVendor, ZoneVendorCloud}) (rgDeployments r)"
proof -
  have e: "set (EligibleDeployments r cs td) = {key. list_ex (\<lambda>(k, dep). k = key \<and> allowed_zone cs td (dpTrustZone dep)) (rgDeployments r)}" for cs
    by (auto simp: EligibleDeployments_def CheckConstraints_None allowed_zone_def list_ex_iff list_all_iff image_iff)
  have "allowed_zone (cs @ cs') td z \<Longrightarrow> allowed_zone cs td z" for z
    by (simp add: allowed_zone_def)
  then have sub: "set (EligibleDeployments r (cs @ cs') td) \<subseteq> set (EligibleDeployments r cs td)"
    unfolding e by (auto simp: list_ex_iff)
  have none: "EligibleDeployments r cs td = []" if "list_ex (\<lambda>c. Applies c td \<and> csRequireTrustZone c = []) cs"
  proof -
    from that have "\<not> allowed_zone cs td z" for z by (auto simp: allowed_zone_def list_ex_iff list_all_iff)
    then have "set (EligibleDeployments r cs td) = {}" unfolding e by (auto simp: list_ex_iff)
    then show ?thesis by simp
  qed
  have "check_deployments (rgDeployments r) = None"
    using assms by (auto simp: LoadRegistry_def Validate_def split: option.splits if_split_asm)
  then have "list_all (\<lambda>(k, dep). dpTrustZone dep \<in> {ZoneLocal, ZoneApprovedVendor, ZoneVendorCloud}) (rgDeployments r)"
    unfolding check_deployments_None
    by (rule list.pred_mono_strong) (simp only: case_prod_beta check_deployment_zone)
  with e sub none show ?thesis by blast
qed

text \<open>A value is never trusted more than its tag.\<close>

lemma staleness_conservative:
  assumes "provenanceRank (StalenessAdjusted pd dt r dep v now) = Some a" "provenanceRank (cvProvenance v) = Some b"
  shows "a \<le> b"
  using assms by (auto simp: StalenessAdjusted_def Let_def provenanceRank_def rankToProvenance_def const_defs
      split: option.splits if_splits)

lemma horizon_fits: "parseHorizon pd s = Some h \<Longrightarrow> (\<And>x d. pd x = Some d \<Longrightarrow> d < 2 ^ 63) \<Longrightarrow> 0 < h \<and> h < 2 ^ 63"
  by (auto simp: parseHorizon_def Let_def maxHorizonDays_def day_def split: if_splits option.splits)

definition zone_registry :: registry where
  "zone_registry = \<lparr>rgVersion = 1, rgStalenessHorizon = ''90d'', rgDeployments =
     [(''v/m@api'', \<lparr>dpVersionStability = StabilityPinned, dpTrustZone = ZoneVendorCloud, dpCostType = CostPerToken, dpCapabilities = []\<rparr>),
      (''n/h@gpu'', \<lparr>dpVersionStability = StabilityPinned, dpTrustZone = ZoneLocal, dpCostType = CostCapacity, dpCapabilities = []\<rparr>)]\<rparr>"

definition zone_constraint :: constraint where
  "zone_constraint = \<lparr>csMatch = [(''data'', ''client-confidential'')], csRequireTrustZone = [ZoneLocal, ZoneApprovedVendor]\<rparr>"

definition zone_task :: task_descriptor where
  "zone_task = \<lparr>tdRole = [], tdClass = [], tdFields = [(''data'', ''client-confidential'')]\<rparr>"

end
