(* ===== verification/Ledger.thy ===== *)
theory Ledger
  imports Prelude
begin

text \<open>
  Tables with an \<^verbatim>\<open>INTEGER PRIMARY KEY AUTOINCREMENT\<close> column, which several stores only append
  to: the next identifier is one above every identifier ever given out. \<open>NULLIF\<close>, the optional
  filters and the limit of the list queries are written once here.
\<close>

record 'r ledger =
  lgRows :: "'r list"
  lgSeq :: int

definition empty_ledger :: "'r ledger" where
  "empty_ledger = \<lparr>lgRows = [], lgSeq = 0\<rparr>"

definition ledger_add :: "(int \<Rightarrow> 'r) \<Rightarrow> 'r ledger \<Rightarrow> 'r ledger" where
  "ledger_add mk l = \<lparr>lgRows = lgRows l @ [mk (lgSeq l + 1)], lgSeq = lgSeq l + 1\<rparr>"

definition nullif :: "'a \<Rightarrow> 'a \<Rightarrow> 'a option" where
  "nullif v z = (if v = z then None else Some v)"

text \<open>A filter that is not set matches every row.\<close>

definition given :: "string \<Rightarrow> string \<Rightarrow> bool" where
  "given f v \<longleftrightarrow> f = [] \<or> v = f"

definition given_opt :: "string \<Rightarrow> string option \<Rightarrow> bool" where
  "given_opt f v \<longleftrightarrow> f = [] \<or> v = Some f"

definition in_window :: "int \<Rightarrow> int \<Rightarrow> int \<Rightarrow> bool" where
  "in_window since until t \<longleftrightarrow> (since > 0 \<longrightarrow> since \<le> t) \<and> (until > 0 \<longrightarrow> t \<le> until)"

definition limited :: "int \<Rightarrow> 'r list \<Rightarrow> 'r list" where
  "limited limit rows = take (nat (if limit \<le> 0 then 1000 else limit)) rows"

definition ledger_ok :: "('r \<Rightarrow> int) \<Rightarrow> 'r ledger \<Rightarrow> bool" where
  "ledger_ok ident l \<longleftrightarrow> sorted_wrt (<) (map ident (lgRows l)) \<and> (\<forall>r \<in> set (lgRows l). 0 < ident r \<and> ident r \<le> lgSeq l) \<and> 0 \<le> lgSeq l"

lemma ledger_ok_empty [simp]: "ledger_ok ident empty_ledger"
  by (simp add: ledger_ok_def empty_ledger_def)

lemma ledger_ok_add: "ledger_ok ident l \<Longrightarrow> (\<And>i. ident (mk i) = i) \<Longrightarrow> ledger_ok ident (ledger_add mk l)"
  by (force simp: ledger_ok_def ledger_add_def sorted_wrt_append)

lemma ledger_ok_update:
  "ledger_ok ident l \<Longrightarrow> (\<And>r. ident (f r) = ident r) \<Longrightarrow> ledger_ok ident (l\<lparr>lgRows := sql_update P f (lgRows l)\<rparr>)"
  by (auto simp: ledger_ok_def map_sql_update in_sql_update)

text \<open>The first row with a key, after an update that keeps the key.\<close>

lemma first_key_update:
  assumes "\<And>r. key (f r) = key r"
  shows "sql_first (\<lambda>r. key r = k) (sql_update P f rows)
       = map_option (\<lambda>r. if P r then f r else r) (sql_first (\<lambda>r. key r = k) rows)"
  by (induction rows) (auto simp: assms)

lemma first_snoc:
  "sql_first P (rows @ [r]) = (case sql_first P rows of Some s \<Rightarrow> Some s | None \<Rightarrow> if P r then Some r else None)"
  by (induction rows) auto

end
