(* ===== verification/RouteStore.thy ===== *)
theory RouteStore
  imports Ledger RunModel RouteIdentity
begin

text \<open>
  Persisted routing decisions and the evidence of escalations and gates that is recorded as
  decisions, \<^verbatim>\<open>internal/routing/decision.go\<close> and \<^verbatim>\<open>evidence.go\<close>. The text of JSON is an
  argument (\<open>parse\<close>, \<open>encode\<close>).
\<close>

record decision_row =
  drID :: int
  drDispatchID :: "string option"
  drRunID :: "string option"
  drSessionID :: "string option"
  drBeadID :: "string option"
  drProjectDir :: string
  drPhase :: "string option"
  drAgent :: string
  drCategory :: "string option"
  drSelectedModel :: string
  drRuleMatched :: string
  drFloorApplied :: bool
  drFloorFrom :: "string option"
  drFloorTo :: "string option"
  drCandidates :: "string option"
  drExcluded :: "string option"
  drPolicyHash :: "string option"
  drOverrideID :: "string option"
  drComplexity :: "int option"
  drContextJSON :: "string option"
  drDecidedAt :: int

record decision_opts =
  qoDispatchID :: string
  qoRunID :: string
  qoSessionID :: string
  qoBeadID :: string
  qoProjectDir :: string
  qoPhase :: string
  qoAgent :: string
  qoCategory :: string
  qoSelectedModel :: string
  qoRuleMatched :: string
  qoFloorApplied :: bool
  qoFloorFrom :: string
  qoFloorTo :: string
  qoCandidates :: string
  qoExcluded :: string
  qoPolicyHash :: string
  qoOverrideID :: string
  qoComplexity :: int
  qoContextJSON :: string

record decision_list_opts =
  qlProjectDir :: string
  qlAgent :: string
  qlModel :: string
  qlDispatchID :: string
  qlSince :: int
  qlUntil :: int
  qlLimit :: int

section \<open>The context of a decision\<close>

record context_fields =
  xfRole :: string
  xfProfile :: string
  xfProducerIdentity :: string
  xfValidatorRelationship :: string
  xfFallbackReason :: string
  xfCrossLabReorder :: "candidate_reorder option"

definition reorder_json :: "candidate_reorder \<Rightarrow> json" where
  "reorder_json r = JObj [(''from'', JArr (map JStr (crFrom r))), (''to'', JArr (map JStr (crTo r)))]"

definition BuildDecisionContext ::
    "(string \<Rightarrow> json option) \<Rightarrow> (json \<Rightarrow> string) \<Rightarrow> string \<Rightarrow> context_fields \<Rightarrow> string option" where
  "BuildDecisionContext parse encode raw f =
     (let base =
        (if raw = [] then Some []
         else case parse raw of Some (JObj kvs) \<Rightarrow> Some kvs | _ \<Rightarrow> None);
          put = (\<lambda>(k, v) m. if v = [] then m else jset k (JStr v) m)
      in case base of
           None \<Rightarrow> None
         | Some m \<Rightarrow>
             let m = fold put [(''role'', xfRole f), (''profile'', xfProfile f), (''producer_identity'', xfProducerIdentity f),
                               (''validator_relationship'', xfValidatorRelationship f),
                               (''fallback_reason'', xfFallbackReason f)] m;
                 m = (case xfCrossLabReorder f of None \<Rightarrow> m | Some r \<Rightarrow> jset ''cross_lab_reorder'' (reorder_json r) m)
             in Some (encode (JObj m)))"

section \<open>The store\<close>

definition decision_row_of :: "int \<Rightarrow> decision_opts \<Rightarrow> int \<Rightarrow> decision_row" where
  "decision_row_of now q i =
     \<lparr>drID = i, drDispatchID = nullif (qoDispatchID q) [], drRunID = nullif (qoRunID q) [],
      drSessionID = nullif (qoSessionID q) [], drBeadID = nullif (qoBeadID q) [], drProjectDir = qoProjectDir q,
      drPhase = nullif (qoPhase q) [], drAgent = qoAgent q, drCategory = nullif (qoCategory q) [],
      drSelectedModel = qoSelectedModel q, drRuleMatched = qoRuleMatched q, drFloorApplied = qoFloorApplied q,
      drFloorFrom = nullif (qoFloorFrom q) [], drFloorTo = nullif (qoFloorTo q) [],
      drCandidates = nullif (qoCandidates q) [], drExcluded = nullif (qoExcluded q) [],
      drPolicyHash = nullif (qoPolicyHash q) [], drOverrideID = nullif (qoOverrideID q) [],
      drComplexity = nullif (qoComplexity q) 0, drContextJSON = nullif (qoContextJSON q) [], drDecidedAt = now\<rparr>"

definition RecordDecision :: "int \<Rightarrow> decision_opts \<Rightarrow> decision_row ledger \<Rightarrow> int \<times> decision_row ledger" where
  "RecordDecision now q l = (lgSeq l + 1, ledger_add (decision_row_of now q) l)"

definition GetDecision :: "int \<Rightarrow> decision_row ledger \<Rightarrow> decision_row option" where
  "GetDecision i l = sql_first (\<lambda>r. drID r = i) (lgRows l)"

definition ListDecisions :: "decision_list_opts \<Rightarrow> decision_row ledger \<Rightarrow> decision_row list" where
  "ListDecisions q l =
     limited (qlLimit q) (order_desc drDecidedAt
       (filter (\<lambda>r. given (qlProjectDir q) (drProjectDir r) \<and> given (qlAgent q) (drAgent r) \<and>
                    given (qlModel q) (drSelectedModel r) \<and> given_opt (qlDispatchID q) (drDispatchID r) \<and>
                    in_window (qlSince q) (qlUntil q) (drDecidedAt r))
         (lgRows l)))"

section \<open>Evidence\<close>

record escalation_evidence =
  evChainKey :: string
  evFromModel :: string
  evToModel :: string
  evStrikeMode :: string
  evDetail :: string
  evExhausted :: bool
  evAgent :: string
  evProjectDir :: string
  evRunID :: string
  evSessionID :: string

record gate_evidence =
  gvGate :: string
  gvModel :: string
  gvExecuted :: bool
  gvAgent :: string
  gvProjectDir :: string
  gvRunID :: string
  gvSessionID :: string

datatype evidence_error = ErrFromModel | ErrExhaustedTo string | ErrToModel | ErrGateName | ErrGateModel

definition ValidateEscalation :: "escalation_evidence \<Rightarrow> evidence_error option" where
  "ValidateEscalation ev =
     (if evFromModel ev = [] then Some ErrFromModel
      else if evExhausted ev \<and> evToModel ev \<noteq> [] then Some (ErrExhaustedTo (evToModel ev))
      else if \<not> evExhausted ev \<and> evToModel ev = [] then Some ErrToModel
      else None)"

definition ValidateGate :: "gate_evidence \<Rightarrow> evidence_error option" where
  "ValidateGate ev =
     (if gvGate ev = [] then Some ErrGateName else if gvModel ev = [] then Some ErrGateModel else None)"

definition escalation_context :: "escalation_evidence \<Rightarrow> json" where
  "escalation_context ev =
     JObj ([(''event'', JStr (if evExhausted ev then ''escalation_exhausted'' else ''escalation'')),
            (''chain_key'', JStr (evChainKey ev)), (''strike_mode'', JStr (evStrikeMode ev))] @
           (if evDetail ev = [] then [] else [(''detail'', JStr (evDetail ev))]) @
           [(''exhausted'', JBool (evExhausted ev))])"

definition no_decision :: decision_opts where
  "no_decision =
     \<lparr>qoDispatchID = [], qoRunID = [], qoSessionID = [], qoBeadID = [], qoProjectDir = [], qoPhase = [], qoAgent = [],
      qoCategory = [], qoSelectedModel = [], qoRuleMatched = [], qoFloorApplied = False, qoFloorFrom = [], qoFloorTo = [],
      qoCandidates = [], qoExcluded = [], qoPolicyHash = [], qoOverrideID = [], qoComplexity = 0, qoContextJSON = []\<rparr>"

definition RecordEscalation ::
    "(json \<Rightarrow> string) \<Rightarrow> int \<Rightarrow> escalation_evidence \<Rightarrow> decision_row ledger \<Rightarrow> evidence_error + int \<times> decision_row ledger" where
  "RecordEscalation encode now ev l =
     (case ValidateEscalation ev of
        Some e \<Rightarrow> Inl e
      | None \<Rightarrow>
          Inr (RecordDecision now
            (no_decision\<lparr>qoProjectDir := evProjectDir ev, qoRunID := evRunID ev, qoSessionID := evSessionID ev,
               qoAgent := evAgent ev, qoCategory := ''escalation'',
               qoSelectedModel := (if evExhausted ev then evFromModel ev else evToModel ev),
               qoRuleMatched := ''escalation'', qoFloorFrom := evFromModel ev, qoFloorTo := evToModel ev,
               qoContextJSON := encode (escalation_context ev)\<rparr>) l))"

definition RecordGate ::
    "(json \<Rightarrow> string) \<Rightarrow> int \<Rightarrow> gate_evidence \<Rightarrow> decision_row ledger \<Rightarrow> evidence_error + int \<times> decision_row ledger" where
  "RecordGate encode now ev l =
     (case ValidateGate ev of
        Some e \<Rightarrow> Inl e
      | None \<Rightarrow>
          Inr (RecordDecision now
            (no_decision\<lparr>qoProjectDir := gvProjectDir ev, qoRunID := gvRunID ev, qoSessionID := gvSessionID ev,
               qoAgent := gvAgent ev, qoCategory := ''gate'', qoSelectedModel := gvModel ev, qoRuleMatched := ''gate'',
               qoContextJSON := encode (JObj [(''event'', JStr (if gvExecuted ev then ''gate_executed'' else ''gate_skipped'')),
                 (''gate'', JStr (gvGate ev))])\<rparr>) l))"

section \<open>Facts\<close>

lemma Record_then_Get:
  assumes "ledger_ok drID l" "RecordDecision now q l = (i, l')"
  shows "GetDecision i l' = Some (decision_row_of now q i) \<and> ledger_ok drID l'"
proof -
  have "sql_first (\<lambda>r. drID r = lgSeq l + 1) (lgRows l) = None"
    using assms(1) by (auto simp: sql_first_None ledger_ok_def)
  with assms show ?thesis
    by (auto simp: RecordDecision_def GetDecision_def ledger_add_def first_snoc decision_row_of_def
        intro!: ledger_ok_add [unfolded ledger_add_def])
qed

text \<open>What the record of an escalation shows: the models of the step, and no destination exactly when the ladder is exhausted.\<close>

lemma escalation_observable:
  assumes "ledger_ok drID l" "RecordEscalation encode now ev l = Inr (i, l')"
  shows "\<exists>r. GetDecision i l' = Some r \<and> drRuleMatched r = ''escalation'' \<and> drFloorFrom r = Some (evFromModel ev) \<and>
    drFloorTo r = (if evExhausted ev then None else Some (evToModel ev)) \<and>
    drSelectedModel r = (if evExhausted ev then evFromModel ev else evToModel ev)"
proof -
  from assms(2) obtain q where v: "ValidateEscalation ev = None" and r: "RecordDecision now q l = (i, l')"
    and q: "qoRuleMatched q = ''escalation''" "qoFloorFrom q = evFromModel ev" "qoFloorTo q = evToModel ev"
      "qoSelectedModel q = (if evExhausted ev then evFromModel ev else evToModel ev)"
    by (auto simp: RecordEscalation_def split: option.splits)
  from Record_then_Get [OF assms(1) r] v q show ?thesis
    by (auto simp: decision_row_of_def ValidateEscalation_def nullif_def split: if_split_asm)
qed

end
