(* ===== verification/Sessions.thy ===== *)
theory Sessions
  imports Ledger
begin

text \<open>
  Agent sessions and their attributions, \<^verbatim>\<open>internal/session/store.go\<close>. The clock and the row
  identifier the connection inserted last, on whatever table, are part of the state: an
  upsert that updates does not set it.
\<close>

section \<open>Rows\<close>

text \<open>
  A token column of SQLite adds 64-bit integers. A sum out of their range makes it a floating
  point number, of which the model keeps nothing but that it is one: \<^verbatim>\<open>None\<close>.
\<close>

type_synonym token_column = "int option"

definition fits64 :: "int \<Rightarrow> bool" where
  "fits64 n \<longleftrightarrow> - (2 ^ 63) \<le> n \<and> n < 2 ^ 63"

definition add64 :: "token_column \<Rightarrow> int \<Rightarrow> token_column" where
  "add64 c n = (case c of None \<Rightarrow> None | Some a \<Rightarrow> if fits64 (a + n) then Some (a + n) else None)"

record session_row =
  ssID :: int
  ssSessionID :: string
  ssProjectDir :: string
  ssAgentType :: string
  ssModel :: "string option"
  ssStartedAt :: int
  ssEndedAt :: "int option"
  ssMetadata :: "string option"
  ssInputTokens :: token_column
  ssOutputTokens :: token_column
  ssCacheCreationTokens :: token_column
  ssCacheReadTokens :: token_column

record attribution =
  atID :: int
  atSessionID :: string
  atProjectDir :: string
  atBeadID :: "string option"
  atRunID :: "string option"
  atPhase :: "string option"
  atCreatedAt :: int

record session_db =
  sdSessions :: "session_row ledger"
  sdAttributions :: "attribution ledger"
  sdLastInsert :: int

record start_opts =
  soSessionID :: string
  soProjectDir :: string
  soAgentType :: string
  soModel :: string
  soMetadata :: string

record attribute_opts =
  aoSessionID :: string
  aoProjectDir :: string
  aoBeadID :: string
  aoRunID :: string
  aoPhase :: string

record tokens_opts =
  toSessionID :: string
  toProjectDir :: string
  toInputTokens :: int
  toOutputTokens :: int
  toCacheCreationTokens :: int
  toCacheReadTokens :: int

record session_list_opts =
  slProjectDir :: string
  slSessionID :: string
  slSince :: int
  slActiveOnly :: bool
  slLimit :: int

datatype session_error =
    ErrSessionIDRequired
  | ErrProjectDirRequired
  | ErrNoSession
  | ErrNoActiveSession

section \<open>Operations\<close>

definition session_key :: "session_row \<Rightarrow> string \<times> string" where
  "session_key r = (ssSessionID r, ssProjectDir r)"

definition coalesce_opt :: "'a option \<Rightarrow> 'a option \<Rightarrow> 'a option" where
  "coalesce_opt a b = (case a of Some x \<Rightarrow> Some x | None \<Rightarrow> b)"

definition new_session :: "int \<Rightarrow> start_opts \<Rightarrow> string \<Rightarrow> int \<Rightarrow> session_row" where
  "new_session now opts agentType i =
     \<lparr>ssID = i, ssSessionID = soSessionID opts, ssProjectDir = soProjectDir opts, ssAgentType = agentType,
      ssModel = nullif (soModel opts) [], ssStartedAt = now, ssEndedAt = None, ssMetadata = nullif (soMetadata opts) [],
      ssInputTokens = Some 0, ssOutputTokens = Some 0, ssCacheCreationTokens = Some 0, ssCacheReadTokens = Some 0\<rparr>"

definition restart_session :: "start_opts \<Rightarrow> string \<Rightarrow> session_row \<Rightarrow> session_row" where
  "restart_session opts agentType r =
     r\<lparr>ssAgentType := agentType, ssModel := coalesce_opt (nullif (soModel opts) []) (ssModel r),
       ssMetadata := coalesce_opt (nullif (soMetadata opts) []) (ssMetadata r), ssEndedAt := None\<rparr>"

definition StartSession :: "int \<Rightarrow> start_opts \<Rightarrow> session_db \<Rightarrow> int \<times> session_db" where
  "StartSession now opts d =
     (let agentType = (if soAgentType opts = [] then ''claude-code'' else soAgentType opts);
          k = (soSessionID opts, soProjectDir opts);
          l = sdSessions d
      in case sql_first (\<lambda>r. session_key r = k) (lgRows l) of
           None \<Rightarrow> (lgSeq l + 1, d\<lparr>sdSessions := ledger_add (new_session now opts agentType) l, sdLastInsert := lgSeq l + 1\<rparr>)
         | Some r \<Rightarrow>
             (if sdLastInsert d \<noteq> 0 then sdLastInsert d else ssID r,
              d\<lparr>sdSessions := l\<lparr>lgRows := sql_update (\<lambda>r. session_key r = k) (restart_session opts agentType) (lgRows l)\<rparr>\<rparr>))"

definition Attribute :: "int \<Rightarrow> attribute_opts \<Rightarrow> session_db \<Rightarrow> session_error + int \<times> session_db" where
  "Attribute now opts d =
     (if aoSessionID opts = [] then Inl ErrSessionIDRequired
      else
        let l = sdAttributions d in
        Inr (lgSeq l + 1,
             d\<lparr>sdAttributions := ledger_add (\<lambda>i.
                 \<lparr>atID = i, atSessionID = aoSessionID opts, atProjectDir = aoProjectDir opts,
                  atBeadID = nullif (aoBeadID opts) [], atRunID = nullif (aoRunID opts) [],
                  atPhase = nullif (aoPhase opts) [], atCreatedAt = now\<rparr>) l,
               sdLastInsert := lgSeq l + 1\<rparr>))"

definition EndSession :: "int \<Rightarrow> string \<Rightarrow> session_db \<Rightarrow> session_error + session_db" where
  "EndSession now sessionID d =
     (let P = (\<lambda>r. ssSessionID r = sessionID \<and> ssEndedAt r = None);
          l = sdSessions d
      in if rows_affected P (lgRows l) = 0 then Inl ErrNoActiveSession
         else Inr (d\<lparr>sdSessions := l\<lparr>lgRows := sql_update P (\<lambda>r. r\<lparr>ssEndedAt := Some now\<rparr>) (lgRows l)\<rparr>\<rparr>))"

definition add_tokens :: "tokens_opts \<Rightarrow> session_row \<Rightarrow> session_row" where
  "add_tokens q r =
     r\<lparr>ssInputTokens := add64 (ssInputTokens r) (toInputTokens q),
       ssOutputTokens := add64 (ssOutputTokens r) (toOutputTokens q),
       ssCacheCreationTokens := add64 (ssCacheCreationTokens r) (toCacheCreationTokens q),
       ssCacheReadTokens := add64 (ssCacheReadTokens r) (toCacheReadTokens q)\<rparr>"

definition UpdateSessionTokens :: "tokens_opts \<Rightarrow> session_db \<Rightarrow> session_error + session_db" where
  "UpdateSessionTokens opts d =
     (if toSessionID opts = [] then Inl ErrSessionIDRequired
      else if toProjectDir opts = [] then Inl ErrProjectDirRequired
      else
        let P = (\<lambda>r. session_key r = (toSessionID opts, toProjectDir opts));
            l = sdSessions d
        in if rows_affected P (lgRows l) = 0 then Inl ErrNoSession
           else Inr (d\<lparr>sdSessions := l\<lparr>lgRows := sql_update P (add_tokens opts) (lgRows l)\<rparr>\<rparr>))"

text \<open>Ordered by creation, the latest identifier first among equals.\<close>

definition CurrentAttribution :: "string \<Rightarrow> string \<Rightarrow> session_db \<Rightarrow> attribution option" where
  "CurrentAttribution sessionID projectDir d =
     (case order_desc atCreatedAt (rev
             (filter (\<lambda>a. atSessionID a = sessionID \<and> atProjectDir a = projectDir) (lgRows (sdAttributions d)))) of
        [] \<Rightarrow> None
      | a # _ \<Rightarrow> Some a)"

definition ListSessions :: "session_list_opts \<Rightarrow> session_db \<Rightarrow> session_row list" where
  "ListSessions opts d =
     limited (slLimit opts) (order_desc ssStartedAt
       (filter (\<lambda>r. given (slProjectDir opts) (ssProjectDir r) \<and> given (slSessionID opts) (ssSessionID r) \<and>
                    in_window (slSince opts) 0 (ssStartedAt r) \<and> (slActiveOnly opts \<longrightarrow> ssEndedAt r = None))
         (lgRows (sdSessions d))))"

section \<open>What the ledger means\<close>

text \<open>An operation with its arguments; one that fails changes nothing.\<close>

datatype session_op =
    OpStart int start_opts
  | OpAttribute int attribute_opts
  | OpEnd int string
  | OpTokens tokens_opts

fun session_step :: "session_op \<Rightarrow> session_db \<Rightarrow> session_db" where
  "session_step (OpStart now q) d = snd (StartSession now q d)"
| "session_step (OpAttribute now q) d = (case Attribute now q d of Inl _ \<Rightarrow> d | Inr (_, d') \<Rightarrow> d')"
| "session_step (OpEnd now s) d = (case EndSession now s d of Inl _ \<Rightarrow> d | Inr d' \<Rightarrow> d')"
| "session_step (OpTokens q) d = (case UpdateSessionTokens q d of Inl _ \<Rightarrow> d | Inr d' \<Rightarrow> d')"

definition empty_sessions :: "int \<Rightarrow> session_db" where
  "empty_sessions rowid = \<lparr>sdSessions = empty_ledger, sdAttributions = empty_ledger, sdLastInsert = rowid\<rparr>"

text \<open>
  The contract. A session of a project keeps when it was first started, when it was ended if it is
  not running, what the last start said of its agent, model and metadata, and every token
  report since the first start; the attribution in force is the last one recorded.
\<close>

record session_state =
  stStarted :: int
  stEnded :: "int option"
  stAgent :: string
  stModel :: "string option"
  stMetadata :: "string option"
  stReports :: "tokens_opts list"

definition start_agent :: "start_opts \<Rightarrow> string" where
  "start_agent q = (if soAgentType q = '''' then ''claude-code'' else soAgentType q)"

definition started_with :: "start_opts \<Rightarrow> session_state \<Rightarrow> session_state" where
  "started_with q s =
     s\<lparr>stEnded := None, stAgent := start_agent q,
       stModel := (if soModel q = '''' then stModel s else Some (soModel q)),
       stMetadata := (if soMetadata q = '''' then stMetadata s else Some (soMetadata q))\<rparr>"

fun spec_step :: "session_op \<Rightarrow> (string \<times> string \<rightharpoonup> session_state) \<Rightarrow> (string \<times> string \<rightharpoonup> session_state)" where
  "spec_step (OpStart now q) m =
     (let k = (soSessionID q, soProjectDir q);
          new = \<lparr>stStarted = now, stEnded = None, stAgent = '''', stModel = None, stMetadata = None, stReports = []\<rparr>
      in m(k \<mapsto> started_with q (case m k of Some s \<Rightarrow> s | None \<Rightarrow> new)))"
| "spec_step (OpAttribute now q) m = m"
| "spec_step (OpEnd now sid) m =
     (\<lambda>k. if fst k = sid then map_option (\<lambda>s. if stEnded s = None then s\<lparr>stEnded := Some now\<rparr> else s) (m k) else m k)"
| "spec_step (OpTokens q) m =
     (let k = (toSessionID q, toProjectDir q) in
      if toSessionID q = '''' \<or> toProjectDir q = '''' then m
      else m(k := map_option (\<lambda>s. s\<lparr>stReports := stReports s @ [q]\<rparr>) (m k)))"

text \<open>The sum of what was reported, as long as no partial sum leaves 64 bits.\<close>

definition total64 :: "int list \<Rightarrow> token_column" where
  "total64 xs = (if \<forall>n \<le> length xs. fits64 (sum_list (take n xs)) then Some (sum_list xs) else None)"

lemma total64_Nil [simp]: "total64 [] = Some 0"
  by (simp add: total64_def fits64_def)

lemma total64_snoc [simp]: "total64 (xs @ [x]) = add64 (total64 xs) x"
proof -
  have "(\<forall>n \<le> length (xs @ [x]). fits64 (sum_list (take n (xs @ [x])))) \<longleftrightarrow>
      (\<forall>n \<le> length xs. fits64 (sum_list (take n xs))) \<and> fits64 (sum_list xs + x)"
    by (auto simp: le_Suc_eq)
  then show ?thesis by (simp add: total64_def add64_def)
qed

text \<open>A row stands for a state: the four columns hold the totals of the reports.\<close>

definition stands_for :: "session_row \<Rightarrow> session_state \<Rightarrow> bool" where
  "stands_for r s \<longleftrightarrow>
     ssStartedAt r = stStarted s \<and> ssEndedAt r = stEnded s \<and> ssAgentType r = stAgent s \<and> ssModel r = stModel s \<and>
     ssMetadata r = stMetadata s \<and>
     ssInputTokens r = total64 (map toInputTokens (stReports s)) \<and>
     ssOutputTokens r = total64 (map toOutputTokens (stReports s)) \<and>
     ssCacheCreationTokens r = total64 (map toCacheCreationTokens (stReports s)) \<and>
     ssCacheReadTokens r = total64 (map toCacheReadTokens (stReports s))"

definition session_at :: "session_db \<Rightarrow> string \<times> string \<Rightarrow> session_row option" where
  "session_at d k = sql_first (\<lambda>r. session_key r = k) (lgRows (sdSessions d))"

lemma session_key_changes [simp]:
  "session_key (restart_session q a r) = session_key r" "session_key (add_tokens t r) = session_key r"
  "session_key (r\<lparr>ssEndedAt := e\<rparr>) = session_key r" "session_key (new_session now q a i) = (soSessionID q, soProjectDir q)"
  by (simp_all add: session_key_def restart_session_def add_tokens_def new_session_def)

lemma stands_for_new:
  "stands_for (new_session now q (start_agent q) i)
     (started_with q \<lparr>stStarted = now, stEnded = None, stAgent = '''', stModel = None, stMetadata = None, stReports = []\<rparr>)"
  by (simp add: stands_for_def new_session_def started_with_def nullif_def)

lemma stands_for_changes:
  assumes "stands_for r s"
  shows "stands_for (restart_session q (start_agent q) r) (started_with q s)"
    "ssEndedAt r = None \<Longrightarrow> stands_for (r\<lparr>ssEndedAt := Some now\<rparr>) (s\<lparr>stEnded := Some now\<rparr>)"
    "stands_for (add_tokens t r) (s\<lparr>stReports := stReports s @ [t]\<rparr>)"
  using assms by (auto simp: stands_for_def restart_session_def started_with_def coalesce_opt_def nullif_def add_tokens_def)

text \<open>The simulation, one operation at a time.\<close>

lemma at_Start:
  "session_at (snd (StartSession now q d)) k =
     (if k = (soSessionID q, soProjectDir q)
      then Some (case session_at d k of
                   None \<Rightarrow> new_session now q (start_agent q) (lgSeq (sdSessions d) + 1)
                 | Some r \<Rightarrow> restart_session q (start_agent q) r)
      else session_at d k)"
proof (cases "session_at d (soSessionID q, soProjectDir q)")
  case None
  then show ?thesis
    by (auto simp: StartSession_def session_at_def ledger_add_def first_snoc Let_def start_agent_def split: option.split)
next
  case (Some r0)
  show ?thesis
  proof (cases "session_at d k")
    case None
    with Some have "k \<noteq> (soSessionID q, soProjectDir q)" by auto
    with Some None show ?thesis by (simp add: StartSession_def session_at_def first_key_update Let_def)
  next
    case r: (Some r)
    then have "session_key r = k" by (auto simp: session_at_def dest: sql_first_Some)
    with Some r show ?thesis
      by (cases "k = (soSessionID q, soProjectDir q)") (simp_all add: StartSession_def session_at_def first_key_update Let_def start_agent_def)
  qed
qed

lemma at_End:
  "session_at (session_step (OpEnd now sid) d) k =
     map_option (\<lambda>r. if fst k = sid \<and> ssEndedAt r = None then r\<lparr>ssEndedAt := Some now\<rparr> else r) (session_at d k)"
proof (cases "session_at d k")
  case None
  then show ?thesis by (simp add: EndSession_def session_at_def first_key_update Let_def)
next
  case (Some r)
  then have r: "r \<in> set (lgRows (sdSessions d))" "session_key r = k" by (auto simp: session_at_def dest: sql_first_Some)
  then have k: "fst k = ssSessionID r" by (auto simp: session_key_def)
  show ?thesis
  proof (cases "rows_affected (\<lambda>r. ssSessionID r = sid \<and> ssEndedAt r = None) (lgRows (sdSessions d)) = 0")
    case True
    with r(1) have "\<not> (ssSessionID r = sid \<and> ssEndedAt r = None)" by (auto simp: rows_affected_zero)
    with True Some k show ?thesis by (auto simp: EndSession_def Let_def)
  next
    case False
    with Some k show ?thesis by (auto simp: EndSession_def session_at_def first_key_update Let_def)
  qed
qed

lemma at_Tokens:
  "session_at (session_step (OpTokens q) d) k =
     (if toSessionID q \<noteq> [] \<and> toProjectDir q \<noteq> [] \<and> k = (toSessionID q, toProjectDir q)
      then map_option (add_tokens q) (session_at d k) else session_at d k)"
proof (cases "toSessionID q = [] \<or> toProjectDir q = []")
  case True
  then show ?thesis by (auto simp: UpdateSessionTokens_def)
next
  case ids: False
  show ?thesis
  proof (cases "session_at d k")
    case None
    with ids show ?thesis by (auto simp: UpdateSessionTokens_def session_at_def first_key_update Let_def)
  next
    case (Some r)
    then have r: "r \<in> set (lgRows (sdSessions d))" "session_key r = k" by (auto simp: session_at_def dest: sql_first_Some)
    then have "rows_affected (\<lambda>r. session_key r = (toSessionID q, toProjectDir q)) (lgRows (sdSessions d)) = 0 \<Longrightarrow>
        k \<noteq> (toSessionID q, toProjectDir q)"
      by (auto simp: rows_affected_zero)
    with Some ids r(2) show ?thesis
      by (cases "k = (toSessionID q, toProjectDir q)")
        (auto simp: UpdateSessionTokens_def session_at_def first_key_update Let_def)
  qed
qed

definition books_agree :: "session_db \<Rightarrow> (string \<times> string \<rightharpoonup> session_state) \<Rightarrow> bool" where
  "books_agree d m \<longleftrightarrow> (\<forall>k. rel_option stands_for (session_at d k) (m k))"

lemma books_step:
  assumes "books_agree d m"
  shows "books_agree (session_step op d) (spec_step op m)"
proof -
  have at: "rel_option stands_for (session_at d k) (m k)" for k using assms unfolding books_agree_def by (rule spec)
  have "rel_option stands_for (session_at (session_step op d) k) (spec_step op m k)" for k
  proof (cases op)
    case (OpStart now q)
    then show ?thesis
      using at [of k] stands_for_new [of now q "lgSeq (sdSessions d) + 1"] stands_for_changes(1) [where q = q]
      by (cases "session_at d k"; cases "m k") (auto simp: at_Start Let_def)
  next
    case (OpAttribute now q)
    then show ?thesis using at [of k] by (simp add: Attribute_def session_at_def Let_def)
  next
    case (OpEnd now sid)
    have "stands_for r s \<Longrightarrow> ssEndedAt r = None \<longleftrightarrow> stEnded s = None" for r s by (auto simp: stands_for_def)
    then show ?thesis
      unfolding OpEnd at_End using at [of k] stands_for_changes(2)
      by (cases "session_at d k"; cases "m k") auto
  next
    case (OpTokens q)
    then show ?thesis
      unfolding OpTokens at_Tokens using at [of k] stands_for_changes(3)
      by (cases "session_at d k"; cases "m k") (auto simp: Let_def)
  qed
  then show ?thesis by (simp add: books_agree_def)
qed

lemma attributions_kept [simp]:
  "sdAttributions (session_step (OpStart now q) d) = sdAttributions d"
  "sdAttributions (session_step (OpEnd now s) d) = sdAttributions d"
  "sdAttributions (session_step (OpTokens t) d) = sdAttributions d"
  by (auto simp: StartSession_def EndSession_def UpdateSessionTokens_def Let_def split: option.split)

text \<open>The attribution in force, and the clock at each attribution.\<close>

type_synonym attributed = "string option \<times> string option \<times> string option"

fun spec_attribution :: "string \<Rightarrow> string \<Rightarrow> session_op \<Rightarrow> attributed option \<Rightarrow> attributed option" where
  "spec_attribution sid dir (OpAttribute now q) c =
     (if aoSessionID q \<noteq> [] \<and> aoSessionID q = sid \<and> aoProjectDir q = dir
      then Some (nullif (aoBeadID q) [], nullif (aoRunID q) [], nullif (aoPhase q) []) else c)"
| "spec_attribution sid dir _ c = c"

fun op_times :: "session_op list \<Rightarrow> int list" where
  "op_times [] = []"
| "op_times (OpAttribute now q # ops) = now # op_times ops"
| "op_times (_ # ops) = op_times ops"

lemma op_times_snoc: "op_times (ops @ [op]) = op_times ops @ op_times [op]"
  by (induction ops rule: op_times.induct) (cases op; simp)+

definition payload :: "attribution \<Rightarrow> attributed" where
  "payload a = (atBeadID a, atRunID a, atPhase a)"

definition last_payload :: "attribution list \<Rightarrow> attributed option" where
  "last_payload rows = (if rows = [] then None else Some (payload (last rows)))"

definition of_session :: "string \<Rightarrow> string \<Rightarrow> attribution \<Rightarrow> bool" where
  "of_session sid dir a \<longleftrightarrow> atSessionID a = sid \<and> atProjectDir a = dir"

lemma attribution_rows:
  assumes "sorted (op_times ops)"
  shows "sorted (map atCreatedAt (lgRows (sdAttributions (fold session_step ops (empty_sessions n))))) \<and>
    set (map atCreatedAt (lgRows (sdAttributions (fold session_step ops (empty_sessions n))))) \<subseteq> set (op_times ops) \<and>
    last_payload (filter (of_session sid dir) (lgRows (sdAttributions (fold session_step ops (empty_sessions n)))))
      = fold (spec_attribution sid dir) ops None"
  using assms
proof (induction ops rule: rev_induct)
  case Nil
  show ?case by (simp add: empty_sessions_def empty_ledger_def last_payload_def)
next
  case (snoc op ops)
  let ?d = "fold session_step ops (empty_sessions n)"
  have s: "sorted (op_times ops)" "\<forall>x \<in> set (op_times ops). \<forall>y \<in> set (op_times [op]). x \<le> y"
    using snoc.prems unfolding op_times_snoc by (auto simp: sorted_append)
  note IH = snoc.IH [OF s(1)]
  show ?case
  proof (cases op)
    case (OpAttribute now q)
    show ?thesis
    proof (cases "aoSessionID q = []")
      case True
      with OpAttribute IH show ?thesis unfolding op_times_snoc by (auto simp: Attribute_def)
    next
      case False
      with OpAttribute IH s(2) show ?thesis
        unfolding op_times_snoc
        by (auto simp: Attribute_def ledger_add_def Let_def sorted_append last_payload_def payload_def of_session_def)
    qed
  qed (use IH in \<open>simp_all add: op_times_snoc del: session_step.simps\<close>)
qed

lemma current_is_last:
  assumes "sorted (map atCreatedAt (lgRows (sdAttributions d)))"
  shows "map_option payload (CurrentAttribution sid dir d) = last_payload (filter (of_session sid dir) (lgRows (sdAttributions d)))"
proof -
  let ?f = "filter (of_session sid dir) (lgRows (sdAttributions d))"
  have "sorted (map atCreatedAt ?f)" using assms by (rule sorted_filter)
  then have "sorted (map (\<lambda>a. - atCreatedAt a) (rev ?f))"
    by (simp add: sorted_wrt_map sorted_wrt_rev)
  then have "order_desc atCreatedAt (rev ?f) = rev ?f" unfolding order_desc_def by (rule sort_key_id_if_sorted)
  moreover have "(\<lambda>a. atSessionID a = sid \<and> atProjectDir a = dir) = of_session sid dir" by (simp add: of_session_def fun_eq_iff)
  ultimately show ?thesis
    by (auto simp: CurrentAttribution_def last_payload_def last_rev rev_swap split: list.split)
qed

lemma books_history: "books_agree (fold session_step ops (empty_sessions n)) (fold spec_step ops Map.empty)"
proof -
  have "books_agree d m \<Longrightarrow> books_agree (fold session_step ops d) (fold spec_step ops m)" for d m
    by (induction ops arbitrary: d m) (simp_all add: books_step)
  moreover have "books_agree (empty_sessions n) Map.empty"
    by (simp add: books_agree_def session_at_def empty_sessions_def empty_ledger_def)
  ultimately show ?thesis by blast
qed

text \<open>
  C37. The session ledger keeps its books. Whatever is called in whatever order, failed calls
  included, a session of a project has a row exactly if it was ever started; the row has the time
  of the first start, is ended with the time of the first end after the last start if there is
  one, names the agent, model and metadata of the last start that gave them, and its four token
  columns are the sums of everything reported since the first start, across restarts, as
  long as the sums stay in 64 bits. In a history whose attributions carry times that never step
  back, the current attribution is the last one recorded.
\<close>

theorem session_ledger_refines:
  "books_agree (fold session_step ops (empty_sessions n)) (fold spec_step ops Map.empty) \<and>
   (sorted (op_times ops) \<longrightarrow>
     map_option payload (CurrentAttribution sid dir (fold session_step ops (empty_sessions n)))
       = fold (spec_attribution sid dir) ops None)"
  using books_history attribution_rows [of ops n sid dir] current_is_last [of "fold session_step ops (empty_sessions n)" sid dir]
  by simp

text \<open>When the clock steps back between two attributions the earlier one stays in force.\<close>

lemma clock_back_keeps_old:
  "map_option payload (CurrentAttribution ''s'' ''/p''
     (fold session_step
        [OpAttribute 5 \<lparr>aoSessionID = ''s'', aoProjectDir = ''/p'', aoBeadID = ''b1'', aoRunID = [], aoPhase = []\<rparr>,
         OpAttribute 4 \<lparr>aoSessionID = ''s'', aoProjectDir = ''/p'', aoBeadID = ''b2'', aoRunID = [], aoPhase = []\<rparr>]
        (empty_sessions 0))) = Some (Some ''b1'', None, None)"
  by code_simp

definition ledger_demo :: "session_op list" where
  "ledger_demo =
     [OpStart 1 \<lparr>soSessionID = ''s'', soProjectDir = ''/p'', soAgentType = [], soModel = ''m'', soMetadata = []\<rparr>,
      OpTokens \<lparr>toSessionID = ''s'', toProjectDir = ''/p'', toInputTokens = 5, toOutputTokens = 1, toCacheCreationTokens = 0, toCacheReadTokens = 0\<rparr>,
      OpEnd 2 ''s'',
      OpStart 3 \<lparr>soSessionID = ''s'', soProjectDir = ''/p'', soAgentType = [], soModel = [], soMetadata = []\<rparr>,
      OpAttribute 3 \<lparr>aoSessionID = ''s'', aoProjectDir = ''/p'', aoBeadID = ''b1'', aoRunID = [], aoPhase = []\<rparr>,
      OpAttribute 3 \<lparr>aoSessionID = ''s'', aoProjectDir = ''/p'', aoBeadID = ''b2'', aoRunID = [], aoPhase = []\<rparr>,
      OpTokens \<lparr>toSessionID = ''s'', toProjectDir = ''/p'', toInputTokens = 7, toOutputTokens = 0, toCacheCreationTokens = 0, toCacheReadTokens = 0\<rparr>]"

theorem session_ledger_refines_witness:
  "map_option (\<lambda>r. (ssStartedAt r, ssEndedAt r, ssInputTokens r)) (session_at (fold session_step ledger_demo (empty_sessions 0)) (''s'', ''/p''))
     = Some (1, None, Some 12) \<and>
   map_option payload (CurrentAttribution ''s'' ''/p'' (fold session_step ledger_demo (empty_sessions 0))) = Some (Some ''b2'', None, None)"
proof -
  have st: "sorted (op_times ledger_demo)" by (simp add: ledger_demo_def)
  have sp: "map_option (\<lambda>s. (stStarted s, stEnded s, map toInputTokens (stReports s))) (fold spec_step ledger_demo Map.empty (''s'', ''/p''))
      = Some (1, None, [5, 7])"
    by (simp add: ledger_demo_def Let_def started_with_def)
  have tot: "total64 [5, 7] = Some 12"
    using total64_snoc [of "[5]" 7] total64_snoc [of "[]" 5] by (simp add: add64_def fits64_def)
  from session_ledger_refines [of ledger_demo 0 "''s''" "''/p''"]
  have "rel_option stands_for (session_at (fold session_step ledger_demo (empty_sessions 0)) (''s'', ''/p''))
      (fold spec_step ledger_demo Map.empty (''s'', ''/p''))" unfolding books_agree_def by blast
  with sp tot have "map_option (\<lambda>r. (ssStartedAt r, ssEndedAt r, ssInputTokens r)) (session_at (fold session_step ledger_demo (empty_sessions 0)) (''s'', ''/p''))
      = Some (1, None, Some 12)"
    by (auto simp: stands_for_def option_rel_Some2)
  moreover have "fold (spec_attribution ''s'' ''/p'') ledger_demo None = Some (Some ''b2'', None, None)"
    by (simp add: ledger_demo_def nullif_def)
  moreover have "map_option payload (CurrentAttribution ''s'' ''/p'' (fold session_step ledger_demo (empty_sessions 0))) =
      fold (spec_attribution ''s'' ''/p'') ledger_demo None"
    using session_ledger_refines [of ledger_demo 0 "''s''" "''/p''"] st by blast
  ultimately show ?thesis by (simp only: simp_thms)
qed

text \<open>
  Registering a session again returns the row the connection inserted last, if it inserted
  any, which need not be the session's.
\<close>

lemma restart_returns_last_insert:
  assumes "sql_first (\<lambda>r. session_key r = (soSessionID q, soProjectDir q)) (lgRows (sdSessions d)) = Some r" "sdLastInsert d \<noteq> 0"
  shows "fst (StartSession now q d) = sdLastInsert d"
  using assms by (simp add: StartSession_def Let_def)

end
