(* ===== verification/Landed.thy ===== *)
theory Landed
  imports Ledger
begin

text \<open>
  Landed changes, \<^verbatim>\<open>internal/landed/store.go\<close>: commits that reached the trunk, their reversion,
  listing, summary and the audit of dangling references. The row identifier the connection
  inserted last, on whatever table, is part of the state; the tables the audit joins with are
  arguments.
\<close>

record landed_row =
  lcID :: int
  lcCommitSHA :: string
  lcProjectDir :: string
  lcBranch :: string
  lcDispatchID :: "string option"
  lcRunID :: "string option"
  lcBeadID :: "string option"
  lcSessionID :: "string option"
  lcMergeIntentID :: "int option"
  lcLandedAt :: int
  lcRevertedAt :: "int option"
  lcRevertedBy :: "string option"
  lcFilesChanged :: "int option"
  lcInsertions :: "int option"
  lcDeletions :: "int option"

record landed_db =
  ldChanges :: "landed_row ledger"
  ldLastInsert :: int

record record_opts =
  roCommitSHA :: string
  roProjectDir :: string
  roBranch :: string
  roDispatchID :: string
  roRunID :: string
  roBeadID :: string
  roSessionID :: string
  roMergeIntentID :: int
  roFilesChanged :: int
  roInsertions :: int
  roDeletions :: int

record landed_list_opts =
  loProjectDir :: string
  loBeadID :: string
  loRunID :: string
  loSessionID :: string
  loSince :: int
  loUntil :: int
  loIncludeReverted :: bool
  loLimit :: int

definition landed_key :: "landed_row \<Rightarrow> string \<times> string" where
  "landed_key r = (lcCommitSHA r, lcProjectDir r)"

section \<open>Recording and reverting\<close>

definition RecordLanded :: "int \<Rightarrow> record_opts \<Rightarrow> landed_db \<Rightarrow> int \<times> landed_db" where
  "RecordLanded now opts d =
     (let l = ldChanges d;
          k = (roCommitSHA opts, roProjectDir opts)
      in case sql_first (\<lambda>r. landed_key r = k) (lgRows l) of
           None \<Rightarrow>
             (lgSeq l + 1,
              d\<lparr>ldChanges := ledger_add (\<lambda>i.
                  \<lparr>lcID = i, lcCommitSHA = roCommitSHA opts, lcProjectDir = roProjectDir opts,
                   lcBranch = (if roBranch opts = [] then ''main'' else roBranch opts),
                   lcDispatchID = nullif (roDispatchID opts) [], lcRunID = nullif (roRunID opts) [],
                   lcBeadID = nullif (roBeadID opts) [], lcSessionID = nullif (roSessionID opts) [],
                   lcMergeIntentID = nullif (roMergeIntentID opts) 0, lcLandedAt = now, lcRevertedAt = None,
                   lcRevertedBy = None, lcFilesChanged = nullif (roFilesChanged opts) 0,
                   lcInsertions = nullif (roInsertions opts) 0, lcDeletions = nullif (roDeletions opts) 0\<rparr>) l,
                ldLastInsert := lgSeq l + 1\<rparr>)
         | Some r \<Rightarrow> (if ldLastInsert d \<noteq> 0 then ldLastInsert d else lcID r, d))"

definition MarkReverted :: "int \<Rightarrow> string \<Rightarrow> string \<Rightarrow> string \<Rightarrow> landed_db \<Rightarrow> landed_db option" where
  "MarkReverted now commitSHA projectDir revertedBy d =
     (let P = (\<lambda>r. landed_key r = (commitSHA, projectDir) \<and> lcRevertedAt r = None);
          l = ldChanges d
      in if rows_affected P (lgRows l) = 0 then None
         else Some (d\<lparr>ldChanges := l\<lparr>lgRows :=
                sql_update P (\<lambda>r. r\<lparr>lcRevertedAt := Some now, lcRevertedBy := Some revertedBy\<rparr>) (lgRows l)\<rparr>\<rparr>))"

section \<open>Queries\<close>

definition ListLanded :: "landed_list_opts \<Rightarrow> landed_db \<Rightarrow> landed_row list" where
  "ListLanded opts d =
     limited (loLimit opts) (order_desc lcLandedAt
       (filter (\<lambda>r. given (loProjectDir opts) (lcProjectDir r) \<and> given_opt (loBeadID opts) (lcBeadID r) \<and>
                    given_opt (loRunID opts) (lcRunID r) \<and> given_opt (loSessionID opts) (lcSessionID r) \<and>
                    in_window (loSince opts) (loUntil opts) (lcLandedAt r) \<and>
                    (loIncludeReverted opts \<or> lcRevertedAt r = None))
         (lgRows (ldChanges d))))"

record landed_summary =
  lsTotal :: nat
  lsReverted :: nat
  lsByBead :: "string \<rightharpoonup> nat"
  lsByRun :: "string \<rightharpoonup> nat"
  lsFirstLanding :: int
  lsLastLanding :: int

text \<open>\<^verbatim>\<open>SELECT k, COUNT(*) ... WHERE k IS NOT NULL GROUP BY k\<close>.\<close>

definition group_counts :: "('r \<Rightarrow> string option) \<Rightarrow> 'r list \<Rightarrow> (string \<rightharpoonup> nat)" where
  "group_counts f rows =
     (\<lambda>k. let n = rows_affected (\<lambda>r. f r = Some k) rows in if n = 0 then None else Some n)"

definition summary_rows :: "landed_list_opts \<Rightarrow> landed_db \<Rightarrow> landed_row list" where
  "summary_rows opts d =
     filter (\<lambda>r. given (loProjectDir opts) (lcProjectDir r) \<and> given_opt (loBeadID opts) (lcBeadID r) \<and>
                 in_window (loSince opts) (loUntil opts) (lcLandedAt r)) (lgRows (ldChanges d))"

definition SummaryLanded :: "landed_list_opts \<Rightarrow> landed_db \<Rightarrow> landed_summary" where
  "SummaryLanded opts d =
     (let rows = summary_rows opts d;
          kept = filter (\<lambda>r. lcRevertedAt r = None) rows
      in \<lparr>lsTotal = length rows, lsReverted = rows_affected (\<lambda>r. lcRevertedAt r \<noteq> None) rows,
          lsByBead = group_counts lcBeadID kept, lsByRun = group_counts lcRunID kept,
          lsFirstLanding = (if rows = [] then 0 else Min (set (map lcLandedAt rows))),
          lsLastLanding = (if rows = [] then 0 else Max (set (map lcLandedAt rows)))\<rparr>)"

record landed_audit =
  laDispatchOrphans :: nat
  laRunOrphans :: nat
  laSessionOrphans :: nat
  laTotalOrphans :: nat
  laBeadRefsPresent :: nat
  laBeadAudited :: bool

definition dangling :: "string list \<Rightarrow> string option \<Rightarrow> bool" where
  "dangling ids ref = (case ref of None \<Rightarrow> False | Some i \<Rightarrow> i \<notin> set ids)"

definition AuditLanded :: "string list \<Rightarrow> string list \<Rightarrow> string list \<Rightarrow> landed_db \<Rightarrow> landed_audit" where
  "AuditLanded dispatchIDs runIDs sessionIDs d =
     (let rows = lgRows (ldChanges d);
          di = rows_affected (\<lambda>r. dangling dispatchIDs (lcDispatchID r)) rows;
          ru = rows_affected (\<lambda>r. dangling runIDs (lcRunID r)) rows;
          se = rows_affected (\<lambda>r. dangling sessionIDs (lcSessionID r)) rows
      in \<lparr>laDispatchOrphans = di, laRunOrphans = ru, laSessionOrphans = se, laTotalOrphans = di + ru + se,
          laBeadRefsPresent = rows_affected (\<lambda>r. lcBeadID r \<noteq> None) rows, laBeadAudited = False\<rparr>)"

section \<open>Facts\<close>

lemma Record_twice:
  assumes "RecordLanded now opts d = (i, d')"
  shows "snd (RecordLanded now' opts d') = d' \<and> (\<exists>r. sql_first (\<lambda>r. landed_key r = (roCommitSHA opts, roProjectDir opts)) (lgRows (ldChanges d')) = Some r)"
proof (cases "sql_first (\<lambda>r. landed_key r = (roCommitSHA opts, roProjectDir opts)) (lgRows (ldChanges d))")
  case None
  with assms have "\<exists>r. sql_first (\<lambda>r. landed_key r = (roCommitSHA opts, roProjectDir opts)) (lgRows (ldChanges d')) = Some r"
    by (auto simp: RecordLanded_def Let_def ledger_add_def first_snoc landed_key_def)
  then show ?thesis by (auto simp: RecordLanded_def Let_def)
next
  case (Some r)
  with assms show ?thesis by (auto simp: RecordLanded_def Let_def)
qed

lemma Record_unique:
  "distinct (map landed_key (lgRows (ldChanges d))) \<Longrightarrow>
   distinct (map landed_key (lgRows (ldChanges (snd (RecordLanded now opts d)))))"
  by (auto simp: RecordLanded_def Let_def ledger_add_def landed_key_def sql_first_None split: option.split)

lemma group_counts_sum:
  assumes "finite K" "\<And>r k. r \<in> set rows \<Longrightarrow> f r = Some k \<Longrightarrow> k \<in> K"
  shows "(\<Sum>k \<in> K. case group_counts f rows k of None \<Rightarrow> 0 | Some n \<Rightarrow> n) = rows_affected (\<lambda>r. f r \<noteq> None) rows"
proof -
  have "(case group_counts f rows k of None \<Rightarrow> 0 | Some n \<Rightarrow> n) = rows_affected (\<lambda>r. f r = Some k) rows" for k
    by (simp add: group_counts_def Let_def)
  moreover have "(\<Sum>k \<in> K. rows_affected (\<lambda>r. f r = Some k) rows) = rows_affected (\<lambda>r. f r \<noteq> None) rows"
    using assms(2)
  proof (induction rows)
    case (Cons r rows)
    have IH: "(\<Sum>k \<in> K. rows_affected (\<lambda>r. f r = Some k) rows) = rows_affected (\<lambda>r. f r \<noteq> None) rows"
      by (rule Cons.IH) (rule Cons.prems; simp)
    show ?case
    proof (cases "f r")
      case (Some k0)
      have "k0 \<in> K" by (rule Cons.prems [of r]) (simp_all add: Some)
      moreover have "(\<Sum>k \<in> K. rows_affected (\<lambda>s. f s = Some k) (r # rows))
          = (\<Sum>k \<in> K. (if k = k0 then 1 else 0) + rows_affected (\<lambda>s. f s = Some k) rows)"
        by (rule sum.cong) (auto simp: rows_affected_def Some)
      ultimately show ?thesis using IH assms(1) Some by (simp add: sum.distrib rows_affected_def)
    qed (use IH in \<open>simp add: rows_affected_def\<close>)
  qed (simp add: rows_affected_def)
  ultimately show ?thesis by simp
qed

text \<open>A duplicate of a recorded commit returns the connection's last insert, the row's own identifier on a fresh one.\<close>

lemma Record_duplicate_id:
  assumes "sql_first (\<lambda>r. landed_key r = (roCommitSHA opts, roProjectDir opts)) (lgRows (ldChanges d)) = Some r"
  shows "fst (RecordLanded now opts d) = (if ldLastInsert d = 0 then lcID r else ldLastInsert d)"
  using assms by (simp add: RecordLanded_def Let_def)

text \<open>The summary agrees with the list when no run or session is filtered for.\<close>

lemma summary_agrees_with_list:
  assumes "loRunID opts = []" "loSessionID opts = []" "loIncludeReverted opts"
    and "loLimit opts = int (length (lgRows (ldChanges d))) + 1"
  shows "length (ListLanded opts d) = lsTotal (SummaryLanded opts d)"
proof -
  have "length (filter P (lgRows (ldChanges d))) \<le> length (lgRows (ldChanges d))" for P by simp
  with assms show ?thesis
    by (simp add: ListLanded_def SummaryLanded_def summary_rows_def Let_def limited_def order_desc_def given_opt_def min_def
        nat_add_distrib le_SucI)
qed

end
