(* ===== verification/Lanes.thy ===== *)
theory Lanes
  imports Ledger
begin

text \<open>
  Work lanes, \<^verbatim>\<open>internal/lane/store.go\<close>, and the part of \<^verbatim>\<open>velocity.go\<close> that counts. Random
  identifiers and the clock are arguments; the floating-point scores are left out.
\<close>

record lane_row =
  lnID :: string
  lnName :: string
  lnLaneType :: string
  lnStatus :: string
  lnDescription :: string
  lnIntent :: string
  lnMetadata :: string
  lnCreatedAt :: int
  lnUpdatedAt :: int
  lnClosedAt :: "int option"

record lane_event =
  leID :: int
  leLaneID :: string
  leEventType :: string
  lePayload :: string
  leCreatedAt :: int

record lane_member =
  lmLaneID :: string
  lmBeadID :: string
  lmAddedAt :: int

record lane_db =
  lnLanes :: "lane_row list"
  lnEvents :: "lane_event ledger"
  lnMembers :: "lane_member list"

datatype lane_error =
    ErrLaneNotFound
  | ErrLaneConstraint

definition lane_event_of :: "string \<Rightarrow> string \<Rightarrow> string \<Rightarrow> int \<Rightarrow> int \<Rightarrow> lane_event" where
  "lane_event_of laneID eventType eventPayload now i =
     \<lparr>leID = i, leLaneID = laneID, leEventType = eventType, lePayload = eventPayload, leCreatedAt = now\<rparr>"

text \<open>Events and members reference a lane; the insert fails without it.\<close>

definition insert_lane_event :: "string \<Rightarrow> string \<Rightarrow> string \<Rightarrow> int \<Rightarrow> lane_db \<Rightarrow> lane_error + lane_db" where
  "insert_lane_event laneID eventType eventPayload now d =
     (if list_ex (\<lambda>l. lnID l = laneID) (lnLanes d)
      then Inr (d\<lparr>lnEvents := ledger_add (lane_event_of laneID eventType eventPayload now) (lnEvents d)\<rparr>)
      else Inl ErrLaneConstraint)"

definition CreateLane :: "string \<Rightarrow> int \<Rightarrow> string \<Rightarrow> string \<Rightarrow> string \<Rightarrow> string \<Rightarrow> lane_db \<Rightarrow> lane_error + lane_db" where
  "CreateLane newid now name laneType description intent d =
     (if list_ex (\<lambda>l. lnID l = newid \<or> lnName l = name) (lnLanes d) then Inl ErrLaneConstraint
      else insert_lane_event newid ''created'' ''{}'' now
        (d\<lparr>lnLanes := lnLanes d @
          [\<lparr>lnID = newid, lnName = name, lnLaneType = laneType, lnStatus = ''active'', lnDescription = description,
            lnIntent = intent, lnMetadata = ''{}'', lnCreatedAt = now, lnUpdatedAt = now, lnClosedAt = None\<rparr>]\<rparr>))"

definition GetLane :: "string \<Rightarrow> lane_db \<Rightarrow> lane_error + lane_row" where
  "GetLane i d = (case sql_first (\<lambda>l. lnID l = i) (lnLanes d) of None \<Rightarrow> Inl ErrLaneNotFound | Some l \<Rightarrow> Inr l)"

definition GetLaneByName :: "string \<Rightarrow> lane_db \<Rightarrow> lane_error + lane_row" where
  "GetLaneByName name d = (case sql_first (\<lambda>l. lnName l = name) (lnLanes d) of None \<Rightarrow> Inl ErrLaneNotFound | Some l \<Rightarrow> Inr l)"

definition ListLanes :: "string \<Rightarrow> lane_db \<Rightarrow> lane_row list" where
  "ListLanes status d = sort_key lnName (filter (\<lambda>l. given status (lnStatus l)) (lnLanes d))"

definition CloseLane :: "int \<Rightarrow> string \<Rightarrow> lane_db \<Rightarrow> lane_error + lane_db" where
  "CloseLane now i d =
     (let P = (\<lambda>l. lnID l = i \<and> lnStatus l = ''active'') in
      if rows_affected P (lnLanes d) = 0 then Inl ErrLaneNotFound
      else insert_lane_event i ''closed'' ''{}'' now
        (d\<lparr>lnLanes := sql_update P (\<lambda>l. l\<lparr>lnStatus := ''closed'', lnClosedAt := Some now, lnUpdatedAt := now\<rparr>) (lnLanes d)\<rparr>))"

definition SetIntent :: "int \<Rightarrow> string \<Rightarrow> string \<Rightarrow> lane_db \<Rightarrow> lane_error + lane_db" where
  "SetIntent now i intent d =
     (let P = (\<lambda>l. lnID l = i) in
      if rows_affected P (lnLanes d) = 0 then Inl ErrLaneNotFound
      else Inr (d\<lparr>lnLanes := sql_update P (\<lambda>l. l\<lparr>lnIntent := intent, lnUpdatedAt := now\<rparr>) (lnLanes d)\<rparr>))"

definition RecordLaneEvent :: "int \<Rightarrow> string \<Rightarrow> string \<Rightarrow> string \<Rightarrow> lane_db \<Rightarrow> lane_error + lane_db" where
  "RecordLaneEvent now laneID eventType eventPayload d = insert_lane_event laneID eventType eventPayload now d"

definition LaneEvents :: "string \<Rightarrow> lane_db \<Rightarrow> lane_event list" where
  "LaneEvents laneID d = order_asc leCreatedAt (filter (\<lambda>e. leLaneID e = laneID) (lgRows (lnEvents d)))"

section \<open>Members\<close>

text \<open>The loop that inserts the beads not yet members; what was there before decides, and a
  bead listed twice violates the primary key.\<close>

fun insert_members :: "string \<Rightarrow> int \<Rightarrow> string list \<Rightarrow> string list \<Rightarrow> lane_db \<Rightarrow> lane_error + lane_db" where
  "insert_members laneID now existing [] d = Inr d"
| "insert_members laneID now existing (b # bs) d =
     (if b \<in> set existing then insert_members laneID now existing bs d
      else if \<not> list_ex (\<lambda>l. lnID l = laneID) (lnLanes d) then Inl ErrLaneConstraint
      else if list_ex (\<lambda>m. lmLaneID m = laneID \<and> lmBeadID m = b) (lnMembers d) then Inl ErrLaneConstraint
      else insert_members laneID now existing bs
             (d\<lparr>lnMembers := lnMembers d @ [\<lparr>lmLaneID = laneID, lmBeadID = b, lmAddedAt = now\<rparr>]\<rparr>))"

definition lane_members :: "string \<Rightarrow> lane_db \<Rightarrow> string list" where
  "lane_members laneID d = map lmBeadID (filter (\<lambda>m. lmLaneID m = laneID) (lnMembers d))"

definition SnapshotMembers :: "(int \<Rightarrow> string) \<Rightarrow> int \<Rightarrow> string \<Rightarrow> string list \<Rightarrow> lane_db \<Rightarrow> lane_error + lane_db" where
  "SnapshotMembers itoa now laneID beadIDs d =
     (let existing = lane_members laneID d in
      sum_bind (insert_members laneID now existing beadIDs d) (\<lambda>d.
      let d = d\<lparr>lnMembers := filter (\<lambda>m. \<not> (lmLaneID m = laneID \<and> lmBeadID m \<in> set existing \<and> lmBeadID m \<notin> set beadIDs)) (lnMembers d)\<rparr>
      in sum_bind (insert_lane_event laneID ''snapshot'' (''{\"count\":'' @ itoa (int (length beadIDs)) @ ''}'') now d) (\<lambda>d.
         Inr (d\<lparr>lnLanes := sql_update (\<lambda>l. lnID l = laneID) (\<lambda>l. l\<lparr>lnUpdatedAt := now\<rparr>) (lnLanes d)\<rparr>))))"

definition GetMembers :: "string \<Rightarrow> lane_db \<Rightarrow> string list" where
  "GetMembers laneID d = map lmBeadID (order_asc lmAddedAt (filter (\<lambda>m. lmLaneID m = laneID) (lnMembers d)))"

definition GetLanesForBead :: "string \<Rightarrow> lane_db \<Rightarrow> string list" where
  "GetLanesForBead beadID d = map lmLaneID (filter (\<lambda>m. lmBeadID m = beadID) (lnMembers d))"

definition countRecentRemovals :: "string \<Rightarrow> int \<Rightarrow> lane_db \<Rightarrow> nat" where
  "countRecentRemovals laneID since d =
     rows_affected (\<lambda>e. leLaneID e = laneID \<and> leEventType e = ''bead_removed'' \<and> leCreatedAt e \<ge> since) (lgRows (lnEvents d))"

section \<open>A snapshot replaces the members\<close>

lemma insert_members_effect:
  assumes "insert_members laneID now existing bs d = Inr d'"
  shows "lnLanes d' = lnLanes d \<and> lnEvents d' = lnEvents d \<and>
    (\<exists>new. lnMembers d' = lnMembers d @ map (\<lambda>b. \<lparr>lmLaneID = laneID, lmBeadID = b, lmAddedAt = now\<rparr>) new \<and>
       set new = set bs - set existing \<and> distinct new \<and>
       (\<forall>b \<in> set new. \<forall>m \<in> set (lnMembers d). lmLaneID m = laneID \<longrightarrow> lmBeadID m \<noteq> b))"
  using assms
proof (induction bs arbitrary: d)
  case (Cons b bs)
  show ?case
  proof (cases "b \<in> set existing")
    case True
    with Cons.prems have "insert_members laneID now existing bs d = Inr d'" by simp
    from Cons.IH [OF this] True show ?thesis by auto
  next
    case False
    let ?d = "d\<lparr>lnMembers := lnMembers d @ [\<lparr>lmLaneID = laneID, lmBeadID = b, lmAddedAt = now\<rparr>]\<rparr>"
    from Cons.prems False have i: "insert_members laneID now existing bs ?d = Inr d'"
      and n: "\<forall>m \<in> set (lnMembers d). lmLaneID m = laneID \<longrightarrow> lmBeadID m \<noteq> b"
      by (auto simp: list_ex_iff split: if_split_asm)
    from Cons.IH [OF i] obtain new where
      "lnLanes d' = lnLanes d" "lnEvents d' = lnEvents d"
      "lnMembers d' = lnMembers ?d @ map (\<lambda>b. \<lparr>lmLaneID = laneID, lmBeadID = b, lmAddedAt = now\<rparr>) new"
      "set new = set bs - set existing" "distinct new"
      "\<forall>b' \<in> set new. \<forall>m \<in> set (lnMembers ?d). lmLaneID m = laneID \<longrightarrow> lmBeadID m \<noteq> b'" by auto
    with n False show ?thesis by (intro conjI exI [of _ "b # new"]) auto
  qed
qed simp

lemma insert_lane_event_Inr:
  "insert_lane_event laneID ty p now d = Inr d' \<Longrightarrow>
     lnMembers d' = lnMembers d \<and> lnLanes d' = lnLanes d \<and> lgRows (lnEvents d') = lgRows (lnEvents d) @ [lane_event_of laneID ty p now (lgSeq (lnEvents d) + 1)]"
  by (auto simp: insert_lane_event_def ledger_add_def split: if_split_asm)

lemma SnapshotMembers_effect:
  assumes "SnapshotMembers itoa now laneID beadIDs d = Inr d'"
  shows "set (GetMembers laneID d') = set beadIDs"
    and "laneID' \<noteq> laneID \<Longrightarrow> GetMembers laneID' d' = GetMembers laneID' d"
    and "m \<in> set (lnMembers d) \<Longrightarrow> lmLaneID m = laneID \<Longrightarrow> lmBeadID m \<in> set beadIDs \<Longrightarrow> m \<in> set (lnMembers d')"
proof -
  let ?ex = "lane_members laneID d"
  let ?keep = "\<lambda>m. \<not> (lmLaneID m = laneID \<and> lmBeadID m \<in> set ?ex \<and> lmBeadID m \<notin> set beadIDs)"
  from assms obtain d1 where d1: "insert_members laneID now ?ex beadIDs d = Inr d1"
    and m': "lnMembers d' = filter ?keep (lnMembers d1)"
    by (auto simp: SnapshotMembers_def Let_def sum_bind_Inr_iff dest!: insert_lane_event_Inr)
  from insert_members_effect [OF d1] obtain new where
    new: "lnMembers d1 = lnMembers d @ map (\<lambda>b. \<lparr>lmLaneID = laneID, lmBeadID = b, lmAddedAt = now\<rparr>) new"
      "set new = set beadIDs - set ?ex" by blast
  have ex: "b \<in> set ?ex \<longleftrightarrow> (\<exists>m \<in> set (lnMembers d). lmLaneID m = laneID \<and> lmBeadID m = b)" for b
    by (auto simp: lane_members_def)
  show "set (GetMembers laneID d') = set beadIDs"
  proof
    show "set (GetMembers laneID d') \<subseteq> set beadIDs"
      using new(2) ex by (fastforce simp: GetMembers_def m' new(1))
    show "set beadIDs \<subseteq> set (GetMembers laneID d')"
    proof
      fix b assume b: "b \<in> set beadIDs"
      show "b \<in> set (GetMembers laneID d')"
      proof (cases "b \<in> set ?ex")
        case True
        then obtain m where "m \<in> set (lnMembers d)" "lmLaneID m = laneID" "lmBeadID m = b" using ex by blast
        with b show ?thesis by (auto simp: GetMembers_def m' new(1) image_iff)
      next
        case False
        with b new(2) have "b \<in> set new" by simp
        with b False show ?thesis by (force simp: GetMembers_def m' new(1) image_iff)
      qed
    qed
  qed
  show "GetMembers laneID' d' = GetMembers laneID' d" if "laneID' \<noteq> laneID"
  proof -
    have "filter (\<lambda>m. lmLaneID m = laneID') (lnMembers d') = filter (\<lambda>m. lmLaneID m = laneID') (lnMembers d)"
      using that by (simp add: m' new(1) conj_commute) (metis (mono_tags, lifting) filter_cong)
    then show ?thesis by (simp add: GetMembers_def)
  qed
  show "m \<in> set (lnMembers d) \<Longrightarrow> lmLaneID m = laneID \<Longrightarrow> lmBeadID m \<in> set beadIDs \<Longrightarrow> m \<in> set (lnMembers d')"
    by (simp add: m' new(1))
qed

text \<open>A new bead listed twice fails the whole snapshot.\<close>

lemma repeated_bead_fails:
  assumes "b \<notin> set (lane_members laneID d)"
  shows "\<exists>e. SnapshotMembers itoa now laneID [b, b] d = Inl e"
  using assms by (auto simp: SnapshotMembers_def Let_def lane_members_def list_ex_iff)

text \<open>No operation writes the events that the throughput counts.\<close>

lemma no_removals_written:
  assumes "countRecentRemovals laneID since d = 0"
  shows "SnapshotMembers itoa now l bs d = Inr d' \<Longrightarrow> countRecentRemovals laneID since d' = 0"
    and "CreateLane i now n t de it d = Inr d' \<Longrightarrow> countRecentRemovals laneID since d' = 0"
    and "CloseLane now i d = Inr d' \<Longrightarrow> countRecentRemovals laneID since d' = 0"
    and "SetIntent now i it d = Inr d' \<Longrightarrow> countRecentRemovals laneID since d' = 0"
  using assms
  by (auto simp: SnapshotMembers_def CreateLane_def CloseLane_def SetIntent_def Let_def sum_bind_Inr_iff
      countRecentRemovals_def rows_affected_zero lane_event_of_def split: if_split_asm
      dest!: insert_lane_event_Inr insert_members_effect)

end
