(* ===== verification/Discovery.thy ===== *)
theory Discovery
  imports Complex_Main Ledger "HOL-Library.Multiset" "HOL-Library.Product_Lexorder"
begin

text \<open>
  Research discoveries, \<^verbatim>\<open>internal/discovery\<close>: their store with the confidence gate of
  promotion, decay, deduplication by similarity, feedback with idempotency keys, and the
  events. A score is the exact value of a finite \<^verbatim>\<open>float64\<close>; the cosine of two embeddings (none
  for NaN), the rounded product of a decay, random identifiers and JSON text are arguments.
\<close>

section \<open>Tiers and similarity\<close>

abbreviation (input) StatusNew :: string where "StatusNew \<equiv> ''new''"
abbreviation (input) StatusScored :: string where "StatusScored \<equiv> ''scored''"
abbreviation (input) StatusPromoted :: string where "StatusPromoted \<equiv> ''promoted''"
abbreviation (input) StatusDismissed :: string where "StatusDismissed \<equiv> ''dismissed''"

text \<open>The \<^verbatim>\<open>float64\<close> values of 0.8, 0.5 and 0.3.\<close>

definition TierHighMin :: rat where "TierHighMin = 3602879701896397 / 4503599627370496"
definition TierMediumMin :: rat where "TierMediumMin = 1 / 2"
definition TierLowMin :: rat where "TierLowMin = 5404319552844595 / 18014398509481984"

definition TierFromScore :: "rat \<Rightarrow> string" where
  "TierFromScore score =
     (if score \<ge> TierHighMin then ''high''
      else if score \<ge> TierMediumMin then ''medium''
      else if score \<ge> TierLowMin then ''low''
      else ''discard'')"

definition CosineSimilarity :: "(nat list \<Rightarrow> nat list \<Rightarrow> rat option) \<Rightarrow> nat list option \<Rightarrow> nat list option \<Rightarrow> rat option" where
  "CosineSimilarity cosine a b =
     (let xs = (case a of None \<Rightarrow> [] | Some x \<Rightarrow> x); ys = (case b of None \<Rightarrow> [] | Some y \<Rightarrow> y)
      in if length xs = 0 \<or> length ys = 0 \<or> length xs \<noteq> length ys \<or> length xs mod 4 \<noteq> 0 then Some 0
         else cosine xs ys)"

definition float_ge :: "rat option \<Rightarrow> rat \<Rightarrow> bool" where
  "float_ge x y \<longleftrightarrow> (case x of None \<Rightarrow> False | Some v \<Rightarrow> v \<ge> y)"

section \<open>The tables\<close>

record discovery =
  dvID :: string
  dvSource :: string
  dvSourceID :: string
  dvTitle :: string
  dvSummary :: string
  dvURL :: string
  dvRawMetadata :: string
  dvEmbedding :: "nat list option"
  dvScore :: rat
  dvTier :: string
  dvStatus :: string
  dvBeadID :: "string option"
  dvDiscoveredAt :: int
  dvPromotedAt :: "int option"
  dvReviewedAt :: "int option"

record feedback_signal =
  fsID :: int
  fsDiscoveryID :: string
  fsSignalType :: string
  fsData :: string
  fsActor :: string
  fsCreatedAt :: int

record interest_profile =
  ipTopicVector :: "nat list option"
  ipKeywordWeights :: string
  ipSourceWeights :: string
  ipUpdatedAt :: int

record discovery_event =
  deID :: int
  deDiscoveryID :: string
  deEventType :: string
  deFromStatus :: string
  deToStatus :: string
  dePayload :: string
  deCreatedAt :: int

record idempotency_row =
  idKey :: string
  idDiscoveryID :: string
  idSignalType :: string
  idData :: string
  idActor :: string
  idSignalID :: "int option"

record discovery_db =
  dvRows :: "discovery list"
  dvEvents :: "discovery_event ledger"
  dvSignals :: "feedback_signal ledger"
  dvKeys :: "idempotency_row list"
  dvProfile :: "interest_profile option"

datatype discovery_error = ErrNotFound | ErrGateBlocked | ErrDuplicate | ErrLifecycle
  | ErrKeyRequired | ErrKeyConflict | ErrKeyUnbound

text \<open>The map a payload is marshalled from.\<close>

datatype payload_value = PStr string | PNum rat | PInt nat | PBool bool

type_synonym payload_encoder = "(string \<times> payload_value) list \<Rightarrow> string"

definition discovery_event_of ::
    "string \<Rightarrow> string \<Rightarrow> string \<Rightarrow> string \<Rightarrow> string \<Rightarrow> int \<Rightarrow> int \<Rightarrow> discovery_event" where
  "discovery_event_of discoveryID eventType from to payload now i =
     \<lparr>deID = i, deDiscoveryID = discoveryID, deEventType = eventType, deFromStatus = from, deToStatus = to,
      dePayload = payload, deCreatedAt = now\<rparr>"

definition emit ::
    "string \<Rightarrow> string \<Rightarrow> string \<Rightarrow> string \<Rightarrow> string \<Rightarrow> int \<Rightarrow> discovery_db \<Rightarrow> discovery_db" where
  "emit discoveryID eventType from to payload now d =
     d\<lparr>dvEvents := ledger_add (discovery_event_of discoveryID eventType from to payload now) (dvEvents d)\<rparr>"

definition discovery_row :: "string \<Rightarrow> discovery_db \<Rightarrow> discovery option" where
  "discovery_row did d = sql_first (\<lambda>r. dvID r = did) (dvRows d)"

definition update_discovery :: "string \<Rightarrow> (discovery \<Rightarrow> discovery) \<Rightarrow> discovery_db \<Rightarrow> discovery_db" where
  "update_discovery did f d = d\<lparr>dvRows := sql_update (\<lambda>r. dvID r = did) f (dvRows d)\<rparr>"

section \<open>Submission\<close>

record submission =
  sbSource :: string
  sbSourceID :: string
  sbTitle :: string
  sbSummary :: string
  sbURL :: string
  sbRawMetadata :: string
  sbEmbedding :: "nat list option"
  sbScore :: rat

definition new_discovery :: "string \<Rightarrow> int \<Rightarrow> submission \<Rightarrow> discovery" where
  "new_discovery did now s =
     \<lparr>dvID = did, dvSource = sbSource s, dvSourceID = sbSourceID s, dvTitle = sbTitle s, dvSummary = sbSummary s,
      dvURL = sbURL s, dvRawMetadata = sbRawMetadata s, dvEmbedding = sbEmbedding s, dvScore = sbScore s,
      dvTier = TierFromScore (sbScore s), dvStatus = StatusNew, dvBeadID = None, dvDiscoveredAt = now,
      dvPromotedAt = None, dvReviewedAt = None\<rparr>"

definition insert_discovery :: "discovery \<Rightarrow> discovery_db \<Rightarrow> discovery_error + discovery_db" where
  "insert_discovery r d =
     (if list_ex (\<lambda>x. dvID x = dvID r \<or> dvSource x = dvSource r \<and> dvSourceID x = dvSourceID r) (dvRows d)
      then Inl ErrDuplicate
      else Inr (d\<lparr>dvRows := dvRows d @ [r]\<rparr>))"

definition SubmitDiscovery ::
    "payload_encoder \<Rightarrow> string \<Rightarrow> int \<Rightarrow> submission \<Rightarrow> discovery_db \<Rightarrow> discovery_error + (string \<times> discovery_db)" where
  "SubmitDiscovery encode did now s d =
     sum_bind (insert_discovery (new_discovery did now s) d) (\<lambda>d.
     Inr (did, emit did ''discovery.submitted'' [] StatusNew
       (encode [(''id'', PStr did), (''source'', PStr (sbSource s)), (''title'', PStr (sbTitle s)),
                (''score'', PNum (sbScore s)), (''tier'', PStr (TierFromScore (sbScore s)))]) now d))"

definition SubmitWithDedup ::
    "(nat list \<Rightarrow> nat list \<Rightarrow> rat option) \<Rightarrow> payload_encoder \<Rightarrow> string \<Rightarrow> int \<Rightarrow> submission \<Rightarrow> rat \<Rightarrow>
     discovery_db \<Rightarrow> discovery_error + (string \<times> discovery_db)" where
  "SubmitWithDedup cosine encode did now s dedupThreshold d =
     (case sql_first (\<lambda>r. dvSource r = sbSource s \<and> dvEmbedding r \<noteq> None \<and>
                float_ge (CosineSimilarity cosine (sbEmbedding s) (dvEmbedding r)) dedupThreshold) (dvRows d) of
        Some r \<Rightarrow>
          Inr (dvID r, emit (dvID r) ''discovery.deduped'' [] []
            (encode [(''existing_id'', PStr (dvID r)), (''source'', PStr (sbSource s)),
                     (''new_source_id'', PStr (sbSourceID s))]) now d)
      | None \<Rightarrow>
     sum_bind (insert_discovery (new_discovery did now s) d) (\<lambda>d.
     Inr (did, emit did ''discovery.submitted'' [] StatusNew
       (encode [(''id'', PStr did), (''source'', PStr (sbSource s)), (''title'', PStr (sbTitle s)),
                (''score'', PNum (sbScore s)), (''tier'', PStr (TierFromScore (sbScore s)))]) now d)))"

definition GetDiscovery :: "string \<Rightarrow> discovery_db \<Rightarrow> discovery_error + discovery" where
  "GetDiscovery did d = (case discovery_row did d of None \<Rightarrow> Inl ErrNotFound | Some r \<Rightarrow> Inr r)"

record discovery_filter =
  dfSource :: string
  dfStatus :: string
  dfTier :: string
  dfLimit :: int

definition ListDiscoveries :: "discovery_filter \<Rightarrow> discovery_db \<Rightarrow> discovery list" where
  "ListDiscoveries f d =
     (let limit = (if dfLimit f \<le> 0 then 100 else dfLimit f)
      in take (nat limit) (sort_key (\<lambda>r. (- dvScore r, dvID r))
           (filter (\<lambda>r. given (dfSource f) (dvSource r) \<and> given (dfStatus f) (dvStatus r) \<and> given (dfTier f) (dvTier r))
              (dvRows d))))"

section \<open>The lifecycle\<close>

definition ScoreDiscovery ::
    "payload_encoder \<Rightarrow> int \<Rightarrow> string \<Rightarrow> rat \<Rightarrow> discovery_db \<Rightarrow> discovery_error + discovery_db" where
  "ScoreDiscovery encode now did score d =
     (case discovery_row did d of
        None \<Rightarrow> Inl ErrNotFound
      | Some r \<Rightarrow>
          if dvStatus r = StatusDismissed \<or> dvStatus r = StatusPromoted then Inl ErrLifecycle
          else
            let tier = TierFromScore score;
                d = update_discovery did (\<lambda>r. r\<lparr>dvScore := score, dvTier := tier, dvStatus := StatusScored\<rparr>) d
            in Inr (emit did ''discovery.scored'' (dvStatus r) StatusScored
                 (encode [(''id'', PStr did), (''old_score'', PNum (dvScore r)), (''new_score'', PNum score),
                          (''tier'', PStr tier)]) now d))"

definition PromoteDiscovery ::
    "payload_encoder \<Rightarrow> int \<Rightarrow> string \<Rightarrow> string \<Rightarrow> bool \<Rightarrow> discovery_db \<Rightarrow> discovery_error + discovery_db" where
  "PromoteDiscovery encode now did beadID force d =
     (case discovery_row did d of
        None \<Rightarrow> Inl ErrNotFound
      | Some r \<Rightarrow>
          if dvStatus r = StatusDismissed then Inl ErrLifecycle
          else if dvStatus r = StatusPromoted then Inr d
          else if \<not> force \<and> dvScore r < TierMediumMin then Inl ErrGateBlocked
          else
            let d = update_discovery did
                  (\<lambda>r. r\<lparr>dvStatus := StatusPromoted, dvBeadID := Some beadID, dvPromotedAt := Some now\<rparr>) d
            in Inr (emit did ''discovery.promoted'' (dvStatus r) StatusPromoted
                 (encode [(''id'', PStr did), (''bead_id'', PStr beadID), (''score'', PNum (dvScore r)),
                          (''force'', PBool force)]) now d))"

definition dismiss_row :: "int \<Rightarrow> discovery \<Rightarrow> discovery" where
  "dismiss_row now r = r\<lparr>dvStatus := StatusDismissed, dvReviewedAt := Some now\<rparr>"

definition DismissDiscovery :: "payload_encoder \<Rightarrow> int \<Rightarrow> string \<Rightarrow> discovery_db \<Rightarrow> discovery_error + discovery_db" where
  "DismissDiscovery encode now did d =
     (case discovery_row did d of
        None \<Rightarrow> Inl ErrNotFound
      | Some r \<Rightarrow>
          if dvStatus r = StatusDismissed then Inr d
          else
            let d = update_discovery did (dismiss_row now) d
            in Inr (emit did ''discovery.dismissed'' (dvStatus r) StatusDismissed (encode [(''id'', PStr did)]) now d))"

definition decay_scope :: "int \<Rightarrow> discovery \<Rightarrow> bool" where
  "decay_scope cutoff r \<longleftrightarrow> dvDiscoveredAt r < cutoff \<and> dvStatus r \<notin> {StatusDismissed, StatusPromoted}"

definition DecayDiscoveries ::
    "payload_encoder \<Rightarrow> int \<Rightarrow> rat \<Rightarrow> (rat \<Rightarrow> rat) \<Rightarrow> int \<Rightarrow> discovery_db \<Rightarrow> nat \<times> discovery_db" where
  "DecayDiscoveries encode now rate decayed minAgeSec d =
     (let cutoff = now - minAgeSec;
          targets = filter (decay_scope cutoff) (dvRows d)
      in if targets = [] then (0, d)
         else
           let d = fold (\<lambda>t. update_discovery (dvID t) (\<lambda>r. r\<lparr>dvScore := decayed (dvScore t),
                                                                 dvTier := TierFromScore (decayed (dvScore t))\<rparr>)) targets d
           in (length targets, emit [] ''discovery.decayed'' [] []
                (encode [(''count'', PInt (length targets)), (''rate'', PNum rate)]) now d))"

definition rollback_scope :: "string \<Rightarrow> int \<Rightarrow> discovery \<Rightarrow> bool" where
  "rollback_scope source sinceTimestamp r \<longleftrightarrow>
     dvSource r = source \<and> dvDiscoveredAt r \<ge> sinceTimestamp \<and> dvStatus r \<notin> {StatusPromoted, StatusDismissed}"

definition RollbackDiscoveries ::
    "payload_encoder \<Rightarrow> int \<Rightarrow> string \<Rightarrow> int \<Rightarrow> discovery_db \<Rightarrow> nat \<times> discovery_db" where
  "RollbackDiscoveries encode now source sinceTimestamp d =
     (let P = rollback_scope source sinceTimestamp;
          affectedIDs = map dvID (filter P (dvRows d));
          d = d\<lparr>dvRows := sql_update P (dismiss_row now) (dvRows d)\<rparr>
      in (length affectedIDs,
          fold (\<lambda>did. emit did ''discovery.dismissed'' [] StatusDismissed
             (encode [(''id'', PStr did), (''reason'', PStr ''rollback''), (''source'', PStr source)]) now) affectedIDs d))"

section \<open>Feedback\<close>

definition signal_of :: "string \<Rightarrow> string \<Rightarrow> string \<Rightarrow> string \<Rightarrow> int \<Rightarrow> int \<Rightarrow> feedback_signal" where
  "signal_of discoveryID signalType data actor now i =
     \<lparr>fsID = i, fsDiscoveryID = discoveryID, fsSignalType = signalType, fsData = data, fsActor = actor, fsCreatedAt = now\<rparr>"

definition RecordFeedback ::
    "payload_encoder \<Rightarrow> int \<Rightarrow> string \<Rightarrow> string \<Rightarrow> string \<Rightarrow> string \<Rightarrow> discovery_db \<Rightarrow> discovery_error + discovery_db" where
  "RecordFeedback encode now discoveryID signalType data actor d =
     (if discovery_row discoveryID d = None then Inl ErrNotFound
      else Inr (emit discoveryID ''feedback.recorded'' [] []
             (encode [(''discovery_id'', PStr discoveryID), (''signal_type'', PStr signalType)]) now
             (d\<lparr>dvSignals := ledger_add (signal_of discoveryID signalType data actor now) (dvSignals d)\<rparr>)))"

definition RecordFeedbackOnce ::
    "payload_encoder \<Rightarrow> int \<Rightarrow> string \<Rightarrow> string \<Rightarrow> string \<Rightarrow> string \<Rightarrow> string \<Rightarrow> discovery_db \<Rightarrow>
     discovery_error + (int \<times> discovery_db)" where
  "RecordFeedbackOnce encode now discoveryID signalType data actor idempotencyKey d =
     (if blank idempotencyKey then Inl ErrKeyRequired
      else if discovery_row discoveryID d = None then Inl ErrNotFound
      else
        case sql_first (\<lambda>k. idKey k = idempotencyKey) (dvKeys d) of
          Some k \<Rightarrow>
            if idDiscoveryID k \<noteq> discoveryID \<or> idSignalType k \<noteq> signalType \<or> idData k \<noteq> data \<or> idActor k \<noteq> actor
            then Inl ErrKeyConflict
            else (case idSignalID k of None \<Rightarrow> Inl ErrKeyUnbound | Some i \<Rightarrow> Inr (i, d))
        | None \<Rightarrow>
            let reserved = dvKeys d @ [\<lparr>idKey = idempotencyKey, idDiscoveryID = discoveryID, idSignalType = signalType,
                                       idData = data, idActor = actor, idSignalID = None\<rparr>];
                i = lgSeq (dvSignals d) + 1;
                d1 = d\<lparr>dvKeys := reserved,
                       dvSignals := ledger_add (signal_of discoveryID signalType data actor now) (dvSignals d)\<rparr>;
                d2 = emit discoveryID ''feedback.recorded'' [] []
                  (encode [(''discovery_id'', PStr discoveryID), (''signal_type'', PStr signalType),
                           (''idempotency_key'', PStr idempotencyKey)]) now d1
            in Inr (i, d2\<lparr>dvKeys := sql_update (\<lambda>k. idKey k = idempotencyKey) (\<lambda>k. k\<lparr>idSignalID := Some i\<rparr>) (dvKeys d2)\<rparr>))"

definition GetProfile :: "discovery_db \<Rightarrow> interest_profile" where
  "GetProfile d =
     (case dvProfile d of
        None \<Rightarrow> \<lparr>ipTopicVector = None, ipKeywordWeights = ''{}'', ipSourceWeights = ''{}'', ipUpdatedAt = 0\<rparr>
      | Some p \<Rightarrow> p)"

definition UpdateProfile :: "int \<Rightarrow> nat list option \<Rightarrow> string \<Rightarrow> string \<Rightarrow> discovery_db \<Rightarrow> discovery_db" where
  "UpdateProfile now topicVector keywordWeights sourceWeights d =
     d\<lparr>dvProfile := Some \<lparr>
         ipTopicVector = (case topicVector of Some v \<Rightarrow> Some v
                          | None \<Rightarrow> Option.bind (dvProfile d) ipTopicVector),
         ipKeywordWeights = keywordWeights, ipSourceWeights = sourceWeights, ipUpdatedAt = now\<rparr>\<rparr>"

section \<open>Search\<close>

record search_filter =
  sfSource :: string
  sfTier :: string
  sfStatus :: string
  sfMinScore :: rat
  sfLimit :: int

definition ranks_before :: "discovery \<times> rat option \<Rightarrow> discovery \<times> rat option \<Rightarrow> bool" where
  "ranks_before x y \<longleftrightarrow>
     (case (snd x, snd y) of
        (Some a, Some b) \<Rightarrow> a > b \<or> (a = b \<and> dvID (fst x) < dvID (fst y))
      | _ \<Rightarrow> False)"

text \<open>The inner loop moves the next result down while it ranks before its neighbour.\<close>

fun sift_result :: "discovery \<times> rat option \<Rightarrow> (discovery \<times> rat option) list \<Rightarrow> (discovery \<times> rat option) list" where
  "sift_result x [] = [x]"
| "sift_result x (y # ys) = (if ranks_before x y then y # sift_result x ys else x # y # ys)"

definition sortSearchResults :: "(discovery \<times> rat option) list \<Rightarrow> (discovery \<times> rat option) list" where
  "sortSearchResults results = rev (fold sift_result results [])"

definition SearchDiscoveries ::
    "(nat list \<Rightarrow> nat list \<Rightarrow> rat option) \<Rightarrow> nat list option \<Rightarrow> search_filter \<Rightarrow> discovery_db \<Rightarrow> (discovery \<times> rat option) list" where
  "SearchDiscoveries cosine queryEmbedding f d =
     (let limit = (if sfLimit f \<le> 0 then 10 else sfLimit f);
          rows = filter (\<lambda>r. dvEmbedding r \<noteq> None \<and> given (sfSource f) (dvSource r) \<and> given (sfTier f) (dvTier r) \<and>
                      given (sfStatus f) (dvStatus r)) (dvRows d);
          results = filter (\<lambda>(r, sim). \<not> (sfMinScore f > 0 \<and> (case sim of None \<Rightarrow> False | Some s \<Rightarrow> s < sfMinScore f)))
                      (map (\<lambda>r. (r, CosineSimilarity cosine queryEmbedding (dvEmbedding r))) rows)
      in take (nat limit) (sortSearchResults results))"

definition MaxDiscoveryEventID :: "discovery_db \<Rightarrow> int" where
  "MaxDiscoveryEventID d =
     (case map deID (lgRows (dvEvents d)) of [] \<Rightarrow> 0 | i # is \<Rightarrow> fold max is i)"

end
