(* ===== verification/DiscoveryProps.thy ===== *)
theory DiscoveryProps
  imports Discovery
begin

text \<open>
  Histories of the discovery store: the trail of events determines every status, decided
  discoveries stay decided, feedback is recorded once per key, search results are sorted.
\<close>

section \<open>Histories\<close>

datatype discovery_op =
    OpSubmit string int submission
  | OpSubmitDedup string int submission rat
  | OpScore int string rat
  | OpPromote int string string bool
  | OpDismiss int string
  | OpDecay int rat "rat \<Rightarrow> rat" int
  | OpRollback int string int
  | OpFeedback int string string string string
  | OpFeedbackOnce int string string string string string
  | OpProfile int "nat list option" string string

definition or_unchanged :: "discovery_db \<Rightarrow> discovery_error + discovery_db \<Rightarrow> discovery_db" where
  "or_unchanged d x = (case x of Inl _ \<Rightarrow> d | Inr d' \<Rightarrow> d')"

fun discovery_step ::
    "(nat list \<Rightarrow> nat list \<Rightarrow> rat option) \<Rightarrow> payload_encoder \<Rightarrow> discovery_op \<Rightarrow> discovery_db \<Rightarrow> discovery_db" where
  "discovery_step cosine encode (OpSubmit i t s) d = or_unchanged d (map_sum (\<lambda>e. e) snd (SubmitDiscovery encode i t s d))"
| "discovery_step cosine encode (OpSubmitDedup i t s th) d =
     or_unchanged d (map_sum (\<lambda>e. e) snd (SubmitWithDedup cosine encode i t s th d))"
| "discovery_step cosine encode (OpScore t i sc) d = or_unchanged d (ScoreDiscovery encode t i sc d)"
| "discovery_step cosine encode (OpPromote t i b f) d = or_unchanged d (PromoteDiscovery encode t i b f d)"
| "discovery_step cosine encode (OpDismiss t i) d = or_unchanged d (DismissDiscovery encode t i d)"
| "discovery_step cosine encode (OpDecay t rate f age) d = snd (DecayDiscoveries encode t rate f age d)"
| "discovery_step cosine encode (OpRollback t src since) d = snd (RollbackDiscoveries encode t src since d)"
| "discovery_step cosine encode (OpFeedback t i s x a) d = or_unchanged d (RecordFeedback encode t i s x a d)"
| "discovery_step cosine encode (OpFeedbackOnce t i s x a k) d =
     or_unchanged d (map_sum (\<lambda>e. e) snd (RecordFeedbackOnce encode t i s x a k d))"
| "discovery_step cosine encode (OpProfile t v kw sw) d = UpdateProfile t v kw sw d"

definition empty_discoveries :: discovery_db where
  "empty_discoveries = \<lparr>dvRows = [], dvEvents = empty_ledger, dvSignals = empty_ledger, dvKeys = [], dvProfile = None\<rparr>"

lemma or_unchanged_simps [simp]: "or_unchanged d (Inl e) = d" "or_unchanged d (Inr d') = d'"
  by (simp_all add: or_unchanged_def)

section \<open>Rows and trails\<close>

lemma row_emit [simp]: "discovery_row i (emit j ty a b p t d) = discovery_row i d"
  by (simp add: discovery_row_def emit_def)

lemma rows_emit [simp]: "dvRows (emit j ty a b p t d) = dvRows d" "dvKeys (emit j ty a b p t d) = dvKeys d"
  "dvSignals (emit j ty a b p t d) = dvSignals d"
  by (simp_all add: emit_def)

lemma row_update:
  "(\<And>r. dvID (f r) = dvID r) \<Longrightarrow>
   discovery_row i (update_discovery j f d) = (if i = j then map_option f (discovery_row i d) else discovery_row i d)"
  unfolding discovery_row_def update_discovery_def
  by (auto simp: first_key_update dest: sql_first_Some intro!: option.map_cong0 option.map_ident_strong split: if_splits)

definition trail :: "string \<Rightarrow> discovery_db \<Rightarrow> string option" where
  "trail i d = fold (\<lambda>e s. if deDiscoveryID e = i \<and> deToStatus e \<noteq> [] then Some (deToStatus e) else s) (lgRows (dvEvents d)) None"

lemma trail_emit [simp]: "trail i (emit j ty a b p t d) = (if i = j \<and> b \<noteq> [] then Some b else trail i d)"
  by (simp add: trail_def emit_def ledger_add_def discovery_event_of_def)

lemma trail_events: "dvEvents d' = dvEvents d \<Longrightarrow> trail i d' = trail i d"
  by (simp add: trail_def)

lemma rows_update [simp]: "dvEvents (update_discovery j f d) = dvEvents d" "dvKeys (update_discovery j f d) = dvKeys d"
  "dvSignals (update_discovery j f d) = dvSignals d"
  by (simp_all add: update_discovery_def)

lemma trail_update [simp]: "trail i (update_discovery j f d) = trail i d"
  by (simp add: trail_def)

lemma row_insert:
  assumes "insert_discovery r d = Inr d'"
  shows "discovery_row i d' = (if i = dvID r then Some r else discovery_row i d)" "discovery_row (dvID r) d = None"
    "dvRows d' = dvRows d @ [r]" "dvEvents d' = dvEvents d" "dvKeys d' = dvKeys d" "dvSignals d' = dvSignals d"
proof -
  have d': "d' = d\<lparr>dvRows := dvRows d @ [r]\<rparr>" and n: "\<And>x. x \<in> set (dvRows d) \<Longrightarrow> dvID x \<noteq> dvID r"
    using assms by (auto simp: insert_discovery_def list_ex_iff split: if_splits)
  from n show none: "discovery_row (dvID r) d = None" by (auto simp: discovery_row_def sql_first_None)
  show "discovery_row i d' = (if i = dvID r then Some r else discovery_row i d)"
    using none by (auto simp: d' discovery_row_def sql_first_append split: option.split)
  show "dvRows d' = dvRows d @ [r]" "dvEvents d' = dvEvents d" "dvKeys d' = dvKeys d" "dvSignals d' = dvSignals d"
    by (simp_all add: d')
qed

lemma fold_emit:
  "discovery_row i (fold (\<lambda>j. emit j ty a b (p j) t) is d) = discovery_row i d"
  "dvRows (fold (\<lambda>j. emit j ty a b (p j) t) is d) = dvRows d"
  "dvKeys (fold (\<lambda>j. emit j ty a b (p j) t) is d) = dvKeys d"
  "dvSignals (fold (\<lambda>j. emit j ty a b (p j) t) is d) = dvSignals d"
  "b \<noteq> [] \<Longrightarrow> trail i (fold (\<lambda>j. emit j ty a b (p j) t) is d) = (if i \<in> set is then Some b else trail i d)"
  by (induction "is" arbitrary: d) auto

definition decay_target :: "(rat \<Rightarrow> rat) \<Rightarrow> discovery \<Rightarrow> discovery \<Rightarrow> discovery" where
  "decay_target decayed t r = r\<lparr>dvScore := decayed (dvScore t), dvTier := TierFromScore (decayed (dvScore t))\<rparr>"

lemma row_decay: "discovery_row i (update_discovery j (decay_target f t) d)
    = (if i = j then map_option (decay_target f t) (discovery_row i d) else discovery_row i d)"
  by (rule row_update) (simp add: decay_target_def)

lemma fold_decay_row:
  assumes "distinct (map dvID ts)"
  shows "discovery_row i (fold (\<lambda>t. update_discovery (dvID t) (decay_target f t)) ts d)
    = (case sql_first (\<lambda>t. dvID t = i) ts of None \<Rightarrow> discovery_row i d
       | Some t \<Rightarrow> map_option (decay_target f t) (discovery_row i d))"
  using assms
proof (induction ts arbitrary: d)
  case Nil
  then show ?case by simp
next
  case (Cons t ts)
  have "sql_first (\<lambda>t. dvID t = i) ts = None" if "dvID t = i"
    using Cons.prems that by (auto simp: sql_first_None) (metis image_eqI)
  with Cons show ?case by (auto simp: row_decay split: option.split)
qed

lemma fold_decay:
  "map dvID (dvRows (fold (\<lambda>t. update_discovery (dvID t) (decay_target f t)) ts d)) = map dvID (dvRows d)"
  "dvEvents (fold (\<lambda>t. update_discovery (dvID t) (decay_target f t)) ts d) = dvEvents d"
  "dvKeys (fold (\<lambda>t. update_discovery (dvID t) (decay_target f t)) ts d) = dvKeys d"
  "dvSignals (fold (\<lambda>t. update_discovery (dvID t) (decay_target f t)) ts d) = dvSignals d"
  by (induction ts arbitrary: d) (simp_all add: update_discovery_def map_sql_update decay_target_def)

lemma decay_fold_unfolded:
  "fold (\<lambda>t. update_discovery (dvID t) (\<lambda>r. r\<lparr>dvScore := f (dvScore t), dvTier := TierFromScore (f (dvScore t))\<rparr>)) ts d
   = fold (\<lambda>t. update_discovery (dvID t) (decay_target f t)) ts d"
  by (simp add: decay_target_def [abs_def])

definition trail_ok :: "discovery_db \<Rightarrow> bool" where
  "trail_ok d \<longleftrightarrow> distinct (map dvID (dvRows d)) \<and> (\<forall>i. map_option dvStatus (discovery_row i d) = trail i d)"

lemma trail_okI:
  "distinct (map dvID (dvRows d)) \<Longrightarrow> (\<And>i. map_option dvStatus (discovery_row i d) = trail i d) \<Longrightarrow> trail_ok d"
  by (simp add: trail_ok_def)

lemma trail_ok_distinct: "trail_ok d \<Longrightarrow> distinct (map dvID (dvRows d))"
  by (simp add: trail_ok_def)

lemma trail_ok_row: "trail_ok d \<Longrightarrow> trail i d = map_option dvStatus (discovery_row i d)"
  by (simp add: trail_ok_def)

lemma discovery_ids_update: "(\<And>r. dvID (f r) = dvID r) \<Longrightarrow> map dvID (dvRows (update_discovery j f d)) = map dvID (dvRows d)"
  by (simp add: update_discovery_def map_sql_update)

lemma trail_ok_insert:
  assumes "trail_ok d" "insert_discovery r d = Inr d'" "dvStatus r = StatusNew"
  shows "trail_ok (emit (dvID r) ty a StatusNew p t d')"
proof (rule trail_okI)
  note r = row_insert [OF assms(2)]
  show "distinct (map dvID (dvRows (emit (dvID r) ty a StatusNew p t d')))"
    using trail_ok_distinct [OF assms(1)] r(2) by (auto simp: r(3) discovery_row_def sql_first_None)
  show "map_option dvStatus (discovery_row i (emit (dvID r) ty a StatusNew p t d')) = trail i (emit (dvID r) ty a StatusNew p t d')" for i
    using trail_ok_row [OF assms(1), of i] assms(3) by (simp add: r(1) trail_events [OF r(4)])
qed

lemma trail_ok_silent: "trail_ok d \<Longrightarrow> trail_ok (emit j ty a [] p t d)"
  by (simp add: trail_ok_def)

lemma trail_ok_status:
  assumes "trail_ok d" "discovery_row j d = Some r" "\<And>r. dvID (f r) = dvID r" "\<And>r. dvStatus (f r) = s" "s \<noteq> []"
  shows "trail_ok (emit j ty a s p t (update_discovery j f d))"
  using assms by (auto simp: trail_ok_def row_update discovery_ids_update)

lemma trail_ok_decay:
  assumes "trail_ok d" "distinct (map dvID ts)"
  shows "trail_ok (fold (\<lambda>t. update_discovery (dvID t) (decay_target f t)) ts d)"
proof (rule trail_okI)
  show "map_option dvStatus (discovery_row i (fold (\<lambda>t. update_discovery (dvID t) (decay_target f t)) ts d)) =
      trail i (fold (\<lambda>t. update_discovery (dvID t) (decay_target f t)) ts d)" for i
    using trail_ok_row [OF assms(1), of i]
    by (simp add: fold_decay_row [OF assms(2)] trail_events [OF fold_decay(2)] option.map_comp comp_def decay_target_def
        split: option.split)
qed (simp only: fold_decay(1) trail_ok_distinct [OF assms(1)])

lemma distinct_filter_ids: "distinct (map dvID rows) \<Longrightarrow> distinct (map dvID (filter P rows))"
  by (simp add: distinct_map_filter)

interpretation dv: keyed_table dvID dismiss_row
  by unfold_locales (simp add: dismiss_row_def)

lemma row_in: "distinct (map dvID (dvRows d)) \<Longrightarrow> r \<in> set (dvRows d) \<longleftrightarrow> discovery_row (dvID r) d = Some r"
  unfolding discovery_row_def
  using dv.first_in_distinct [of "dvRows d" r] sql_first_Some [of "\<lambda>s. dvID s = dvID r" "dvRows d" r] by blast

lemma row_id: "discovery_row i d = Some r \<Longrightarrow> dvID r = i \<and> r \<in> set (dvRows d)"
  by (auto simp: discovery_row_def dest: sql_first_Some)

lemma rollback_row:
  assumes "distinct (map dvID (dvRows d))"
  shows "discovery_row i (snd (RollbackDiscoveries encode t src since d))
      = map_option (\<lambda>r. if rollback_scope src since r then dismiss_row t r else r) (discovery_row i d)"
    "trail i (snd (RollbackDiscoveries encode t src since d))
      = (if \<exists>r. discovery_row i d = Some r \<and> rollback_scope src since r then Some StatusDismissed else trail i d)"
proof -
  let ?d = "d\<lparr>dvRows := sql_update (rollback_scope src since) (dismiss_row t) (dvRows d)\<rparr>"
  have u: "snd (RollbackDiscoveries encode t src since d)
      = fold (\<lambda>i. emit i ''discovery.dismissed'' [] StatusDismissed
          (encode [(''id'', PStr i), (''reason'', PStr ''rollback''), (''source'', PStr src)]) t) (map dvID (filter (rollback_scope src since) (dvRows d))) ?d"
    by (simp add: RollbackDiscoveries_def Let_def)
  show "discovery_row i (snd (RollbackDiscoveries encode t src since d))
      = map_option (\<lambda>r. if rollback_scope src since r then dismiss_row t r else r) (discovery_row i d)"
    by (simp add: u fold_emit discovery_row_def first_key_update dismiss_row_def)
  have "i \<in> set (map dvID (filter (rollback_scope src since) (dvRows d))) \<longleftrightarrow> (\<exists>r. discovery_row i d = Some r \<and> rollback_scope src since r)"
  proof
    assume "i \<in> set (map dvID (filter (rollback_scope src since) (dvRows d)))"
    then obtain r where "r \<in> set (dvRows d)" "rollback_scope src since r" "dvID r = i" by auto
    then show "\<exists>r. discovery_row i d = Some r \<and> rollback_scope src since r" using row_in [OF assms, of r] by blast
  next
    assume "\<exists>r. discovery_row i d = Some r \<and> rollback_scope src since r"
    then obtain r where "discovery_row i d = Some r" "rollback_scope src since r" by blast
    with row_id [of i d r] show "i \<in> set (map dvID (filter (rollback_scope src since) (dvRows d)))" by auto
  qed
  then show "trail i (snd (RollbackDiscoveries encode t src since d))
      = (if \<exists>r. discovery_row i d = Some r \<and> rollback_scope src since r then Some StatusDismissed else trail i d)"
    using trail_events [of ?d d i] by (simp only: u fold_emit(5) list.distinct not_False_eq_True simp_thms if_True) auto
qed

lemma trail_ok_rollback:
  assumes "trail_ok d"
  shows "trail_ok (snd (RollbackDiscoveries encode t src since d))"
proof (rule trail_okI)
  show "distinct (map dvID (dvRows (snd (RollbackDiscoveries encode t src since d))))"
    using trail_ok_distinct [OF assms] by (simp add: RollbackDiscoveries_def Let_def fold_emit dismiss_row_def map_sql_update)
  show "map_option dvStatus (discovery_row i (snd (RollbackDiscoveries encode t src since d)))
      = trail i (snd (RollbackDiscoveries encode t src since d))" for i
    using trail_ok_row [OF assms, of i]
    by (cases "discovery_row i d") (simp_all add: rollback_row [OF trail_ok_distinct [OF assms]] dismiss_row_def)
qed

lemma first_filter:
  "distinct (map dvID rows) \<Longrightarrow> sql_first (\<lambda>r. dvID r = i) (filter P rows)
     = (case sql_first (\<lambda>r. dvID r = i) rows of None \<Rightarrow> None | Some r \<Rightarrow> if P r then Some r else None)"
proof (induction rows)
  case Nil
  then show ?case by simp
next
  case (Cons r rows)
  have "sql_first (\<lambda>r. dvID r = i) (filter P rows) = None" if "dvID r = i"
    using Cons.prems that by (auto simp: sql_first_None) (metis image_eqI)
  with Cons show ?case by auto
qed

lemma decay_effect:
  assumes "distinct (map dvID (dvRows d))"
  shows "discovery_row i (snd (DecayDiscoveries encode t rate f age d))
      = map_option (\<lambda>r. if decay_scope (t - age) r then decay_target f r r else r) (discovery_row i d)"
    "trail i (snd (DecayDiscoveries encode t rate f age d)) = trail i d"
    "map dvID (dvRows (snd (DecayDiscoveries encode t rate f age d))) = map dvID (dvRows d)"
    "dvKeys (snd (DecayDiscoveries encode t rate f age d)) = dvKeys d"
    "dvSignals (snd (DecayDiscoveries encode t rate f age d)) = dvSignals d"
proof -
  let ?ts = "filter (decay_scope (t - age)) (dvRows d)"
  let ?d = "fold (\<lambda>t. update_discovery (dvID t) (decay_target f t)) ?ts d"
  have dist: "distinct (map dvID ?ts)" by (rule distinct_filter_ids [OF assms])
  have u: "\<exists>p. snd (DecayDiscoveries encode t rate f age d) = (if ?ts = [] then d else emit [] ''discovery.decayed'' [] [] p t ?d)"
    by (auto simp: DecayDiscoveries_def Let_def decay_fold_unfolded)
  have row: "discovery_row i ?d = map_option (\<lambda>r. if decay_scope (t - age) r then decay_target f r r else r) (discovery_row i d)"
    unfolding fold_decay_row [OF dist] first_filter [OF assms] by (simp add: discovery_row_def split: option.split)
  show "discovery_row i (snd (DecayDiscoveries encode t rate f age d))
      = map_option (\<lambda>r. if decay_scope (t - age) r then decay_target f r r else r) (discovery_row i d)"
    using u row by (cases "?ts = []") auto
  show "trail i (snd (DecayDiscoveries encode t rate f age d)) = trail i d"
    using u trail_events [OF fold_decay(2)] by (cases "?ts = []") auto
  show "map dvID (dvRows (snd (DecayDiscoveries encode t rate f age d))) = map dvID (dvRows d)"
    "dvKeys (snd (DecayDiscoveries encode t rate f age d)) = dvKeys d"
    "dvSignals (snd (DecayDiscoveries encode t rate f age d)) = dvSignals d"
    using u by (auto simp: fold_decay simp del: filter_empty_conv split: if_splits)
qed

lemma trail_ok_decayed: "trail_ok d \<Longrightarrow> trail_ok (snd (DecayDiscoveries encode t rate f age d))"
  using decay_effect [of d] by (auto simp: trail_ok_def decay_target_def option.map_comp comp_def if_distrib cong: if_cong)

lemma trail_ok_other [simp]:
  "trail_ok (d\<lparr>dvKeys := k\<rparr>) = trail_ok d" "trail_ok (d\<lparr>dvSignals := l\<rparr>) = trail_ok d" "trail_ok (d\<lparr>dvProfile := q\<rparr>) = trail_ok d"
  by (simp_all add: trail_ok_def trail_def discovery_row_def)

lemma trail_ok_new: "trail_ok d \<Longrightarrow> insert_discovery (new_discovery i n s) d = Inr d' \<Longrightarrow> trail_ok (emit i ty a StatusNew p t d')"
  using trail_ok_insert [of d "new_discovery i n s" d'] by (simp add: new_discovery_def)

lemma trail_ok_step:
  assumes "trail_ok d"
  shows "trail_ok (discovery_step cosine encode op d)"
proof (cases op)
  case (OpSubmit i t s)
  with assms show ?thesis by (auto simp: SubmitDiscovery_def sum_bind_def trail_ok_new split: sum.split)
next
  case (OpSubmitDedup i t s th)
  with assms show ?thesis
    by (auto simp: SubmitWithDedup_def sum_bind_def trail_ok_new trail_ok_silent split: sum.split option.split)
next
  case (OpScore t i sc)
  with assms show ?thesis by (auto simp: ScoreDiscovery_def Let_def split: option.split intro!: trail_ok_status)
next
  case (OpPromote t i b f)
  with assms show ?thesis by (auto simp: PromoteDiscovery_def Let_def split: option.split intro!: trail_ok_status)
next
  case (OpDismiss t i)
  with assms show ?thesis
    by (auto simp: DismissDiscovery_def Let_def dismiss_row_def split: option.split intro!: trail_ok_status)
qed (use assms in \<open>auto simp: RecordFeedback_def RecordFeedbackOnce_def UpdateProfile_def Let_def trail_ok_silent
    trail_ok_rollback trail_ok_decayed split: option.split\<close>)

section \<open>The lifecycle of a row\<close>

definition undecided :: "discovery \<Rightarrow> bool" where
  "undecided r \<longleftrightarrow> dvStatus r \<noteq> StatusDismissed \<and> dvStatus r \<noteq> StatusPromoted"

inductive discovery_moves :: "bool \<Rightarrow> discovery \<Rightarrow> discovery \<Rightarrow> bool" for forced where
  stay: "discovery_moves forced r r"
| rescore: "undecided r \<Longrightarrow> discovery_moves forced r (r\<lparr>dvScore := s, dvTier := TierFromScore s, dvStatus := StatusScored\<rparr>)"
| decay: "undecided r \<Longrightarrow> discovery_moves forced r (r\<lparr>dvScore := s, dvTier := TierFromScore s\<rparr>)"
| promote: "undecided r \<Longrightarrow> forced \<or> dvScore r \<ge> TierMediumMin \<Longrightarrow>
    discovery_moves forced r (r\<lparr>dvStatus := StatusPromoted, dvBeadID := Some b, dvPromotedAt := Some t\<rparr>)"
| dismiss: "dvStatus r \<noteq> StatusDismissed \<Longrightarrow> discovery_moves forced r (dismiss_row t r)"

definition forces :: "string \<Rightarrow> discovery_op \<Rightarrow> bool" where
  "forces i op = (case op of OpPromote _ j _ f \<Rightarrow> j = i \<and> f | _ \<Rightarrow> False)"

lemma insert_keeps_row: "insert_discovery x d = Inr d' \<Longrightarrow> discovery_row i d = Some r \<Longrightarrow> discovery_row i d' = Some r"
  using row_insert(1,2) [of x d d'] by (auto split: if_splits)

lemma step_row:
  assumes "distinct (map dvID (dvRows d))" "discovery_row i d = Some r"
  shows "\<exists>r'. discovery_row i (discovery_step cosine encode op d) = Some r' \<and> discovery_moves (forces i op) r r'"
proof (cases op)
  case (OpSubmit j t s)
  with assms show ?thesis
    by (auto simp: SubmitDiscovery_def sum_bind_def insert_keeps_row intro: stay split: sum.split)
next
  case (OpSubmitDedup j t s th)
  with assms show ?thesis
    by (auto simp: SubmitWithDedup_def sum_bind_def insert_keeps_row intro: stay split: sum.split option.split)
next
  case (OpScore t j sc)
  with assms show ?thesis
    by (auto simp: ScoreDiscovery_def Let_def row_update undecided_def intro!: rescore intro: stay split: option.split)
next
  case (OpPromote t j b f)
  with assms show ?thesis
    by (auto simp: PromoteDiscovery_def Let_def row_update undecided_def forces_def intro!: promote intro: stay split: option.split)
next
  case (OpDismiss t j)
  with assms show ?thesis
    by (auto simp: DismissDiscovery_def Let_def row_update dismiss_row_def [symmetric] intro: stay dismiss split: option.split)
      (auto simp: dismiss_row_def row_update intro: stay dismiss [unfolded dismiss_row_def])
next
  case (OpDecay t rate f age)
  with assms show ?thesis
    by (auto simp: decay_effect(1) decay_target_def decay_scope_def undecided_def intro: stay decay)
next
  case (OpRollback t src since)
  with assms show ?thesis
    by (auto simp: rollback_row(1) rollback_scope_def intro: stay dismiss)
qed (use assms in \<open>auto simp: RecordFeedback_def RecordFeedbackOnce_def UpdateProfile_def Let_def discovery_row_def intro: stay split: option.split\<close>)

definition row_ok :: "bool \<Rightarrow> discovery \<Rightarrow> bool" where
  "row_ok forced r \<longleftrightarrow> dvTier r = TierFromScore (dvScore r) \<and>
     (dvStatus r = StatusPromoted \<longrightarrow> dvBeadID r \<noteq> None \<and> dvPromotedAt r \<noteq> None \<and> (forced \<or> TierMediumMin \<le> dvScore r))"

lemma row_ok_moves: "discovery_moves f r r' \<Longrightarrow> row_ok g r \<Longrightarrow> row_ok (g \<or> f) r'"
  by (induction rule: discovery_moves.induct) (auto simp: row_ok_def undecided_def dismiss_row_def)

lemma row_ok_new: "row_ok f (new_discovery i t s)"
  by (simp add: row_ok_def new_discovery_def)

lemma insert_row_new:
  "insert_discovery (new_discovery j t s) d = Inr d' \<Longrightarrow> discovery_row i d = None \<Longrightarrow> discovery_row i d' = Some r \<Longrightarrow> row_ok f r"
  using row_insert(1) [of "new_discovery j t s" d d' i] by (auto simp: row_ok_new split: if_splits)

lemma step_new:
  assumes "distinct (map dvID (dvRows d))" "discovery_row i d = None" "discovery_row i (discovery_step cosine encode op d) = Some r"
  shows "row_ok f r"
proof (cases op)
  case (OpSubmit j t s)
  with assms show ?thesis
    by (cases "insert_discovery (new_discovery j t s) d") (auto simp: SubmitDiscovery_def insert_row_new)
next
  case (OpSubmitDedup j t s th)
  with assms show ?thesis
    by (cases "insert_discovery (new_discovery j t s) d") (auto simp: SubmitWithDedup_def insert_row_new split: option.splits)
next
  case (OpScore t j sc)
  with assms show ?thesis by (auto simp: ScoreDiscovery_def Let_def row_update split: option.splits if_splits)
next
  case (OpPromote t j b f)
  with assms show ?thesis by (auto simp: PromoteDiscovery_def Let_def row_update split: option.splits if_splits)
next
  case (OpDismiss t j)
  with assms show ?thesis by (auto simp: DismissDiscovery_def Let_def row_update dismiss_row_def split: option.splits if_splits)
next
  case (OpDecay t rate f age)
  with assms show ?thesis by (simp add: decay_effect(1))
next
  case (OpRollback t src since)
  with assms show ?thesis by (simp add: rollback_row(1))
qed (use assms in \<open>auto simp: RecordFeedback_def RecordFeedbackOnce_def UpdateProfile_def Let_def discovery_row_def split: option.splits if_splits\<close>)

lemma trail_ok_empty: "trail_ok empty_discoveries"
  by (simp add: trail_ok_def empty_discoveries_def empty_ledger_def discovery_row_def trail_def)

lemma history_trail_ok: "trail_ok (fold (discovery_step cosine encode) ops empty_discoveries)"
proof -
  have "trail_ok d \<Longrightarrow> trail_ok (fold (discovery_step cosine encode) ops d)" for d
    by (induction ops arbitrary: d) (simp_all add: trail_ok_step)
  then show ?thesis using trail_ok_empty by blast
qed

lemma history_row_ok:
  "discovery_row i (fold (discovery_step cosine encode) ops empty_discoveries) = Some r \<Longrightarrow> row_ok (list_ex (forces i) ops) r"
proof (induction ops arbitrary: r rule: rev_induct)
  case Nil
  then show ?case by (simp add: empty_discoveries_def discovery_row_def)
next
  case (snoc op ops)
  let ?d = "fold (discovery_step cosine encode) ops empty_discoveries"
  note dist = trail_ok_distinct [OF history_trail_ok, of cosine encode ops]
  show ?case
  proof (cases "discovery_row i ?d")
    case None
    with snoc.prems dist show ?thesis by (auto intro: step_new)
  next
    case (Some r0)
    from step_row [OF dist this, of cosine encode op] snoc.prems
    have "discovery_moves (forces i op) r0 r" by auto
    from row_ok_moves [OF this snoc.IH [OF Some]] show ?thesis by simp
  qed
qed

text \<open>
  In every history of the store the status of each discovery is what its events replay to;
  its tier is that of its score; a promoted discovery has a bead and a score at the promotion
  threshold unless some promotion of it was forced; a dismissed discovery never changes again,
  and a promoted one changes only by being dismissed.
\<close>

lemma discovery_lifecycle:
  assumes "fold (discovery_step cosine encode) ops empty_discoveries = d"
  shows "map_option dvStatus (discovery_row i d) = trail i d \<and>
    pred_option (row_ok (list_ex (forces i) ops)) (discovery_row i d) \<and>
    pred_option (\<lambda>r. (dvStatus r = StatusDismissed \<longrightarrow> discovery_row i (discovery_step cosine encode op d) = Some r) \<and>
        (dvStatus r = StatusPromoted \<longrightarrow> discovery_row i (discovery_step cosine encode op d) = Some r \<or>
           (\<exists>t. discovery_row i (discovery_step cosine encode op d) = Some (dismiss_row t r)))) (discovery_row i d)"
proof -
  have ok: "trail_ok d" using history_trail_ok assms by blast
  have "(dvStatus r = StatusDismissed \<longrightarrow> discovery_row i (discovery_step cosine encode op d) = Some r) \<and>
        (dvStatus r = StatusPromoted \<longrightarrow> discovery_row i (discovery_step cosine encode op d) = Some r \<or>
           (\<exists>t. discovery_row i (discovery_step cosine encode op d) = Some (dismiss_row t r)))" if "discovery_row i d = Some r" for r
    using step_row [OF trail_ok_distinct [OF ok] that, of cosine encode op]
    by (auto simp: undecided_def elim: discovery_moves.cases)
  then show ?thesis
    using trail_ok_row [OF ok, of i] history_row_ok [of i cosine encode ops] assms
    by (auto simp: option.pred_set split: option.split)
qed

section \<open>Feedback is recorded once per key\<close>

definition key_bound :: "feedback_signal ledger \<Rightarrow> idempotency_row \<Rightarrow> bool" where
  "key_bound l k \<longleftrightarrow> (case idSignalID k of None \<Rightarrow> False
     | Some i \<Rightarrow> pred_option (\<lambda>s. fsDiscoveryID s = idDiscoveryID k \<and> fsSignalType s = idSignalType k \<and> fsData s = idData k \<and> fsActor s = idActor k)
                  (sql_first (\<lambda>s. fsID s = i) (lgRows l)) \<and> sql_first (\<lambda>s. fsID s = i) (lgRows l) \<noteq> None)"

definition feedback_ok :: "discovery_db \<Rightarrow> bool" where
  "feedback_ok d \<longleftrightarrow> ledger_ok fsID (dvSignals d) \<and> distinct (map idKey (dvKeys d)) \<and> distinct (map idSignalID (dvKeys d)) \<and>
     list_all (key_bound (dvSignals d)) (dvKeys d)"

lemma key_bound_add: "key_bound l k \<Longrightarrow> key_bound (ledger_add mk l) k"
  by (auto simp: key_bound_def ledger_add_def first_snoc split: option.splits)

lemma keys_bound_add: "list_all (key_bound l) ks \<Longrightarrow> list_all (key_bound (ledger_add mk l)) ks"
  by (auto simp: list_all_iff key_bound_add)

lemma key_bound_le:
  assumes "ledger_ok fsID l" "key_bound l k"
  shows "\<exists>i. idSignalID k = Some i \<and> i \<le> lgSeq l"
  using assms by (auto simp: key_bound_def ledger_ok_def split: option.splits dest: sql_first_Some)

lemma signal_new:
  assumes "ledger_ok fsID l"
  shows "sql_first (\<lambda>s. fsID s = lgSeq l + 1) (lgRows (ledger_add (signal_of a b c e t) l)) = Some (signal_of a b c e t (lgSeq l + 1))"
proof -
  have "sql_first (\<lambda>s. fsID s = lgSeq l + 1) (lgRows l) = None"
    using assms by (auto simp: sql_first_None ledger_ok_def)
  then show ?thesis by (simp add: ledger_add_def first_snoc signal_of_def)
qed

lemma ledger_ok_signal: "ledger_ok fsID l \<Longrightarrow> ledger_ok fsID (ledger_add (signal_of a b c e t) l)"
  by (rule ledger_ok_add) (simp_all add: signal_of_def)

text \<open>A first use of a key appends one bound key and one signal.\<close>

definition bound_key :: "string \<Rightarrow> string \<Rightarrow> string \<Rightarrow> string \<Rightarrow> string \<Rightarrow> int \<Rightarrow> idempotency_row" where
  "bound_key key disc ty x a i =
     \<lparr>idKey = key, idDiscoveryID = disc, idSignalType = ty, idData = x, idActor = a, idSignalID = Some i\<rparr>"

lemma bind_reserved:
  assumes "sql_first (\<lambda>k. idKey k = key) ks = None"
  shows "sql_update (\<lambda>k. idKey k = key) (\<lambda>k. k\<lparr>idSignalID := Some i\<rparr>)
      (ks @ [\<lparr>idKey = key, idDiscoveryID = disc, idSignalType = ty, idData = x, idActor = a, idSignalID = None\<rparr>])
    = ks @ [bound_key key disc ty x a i]"
  using assms by (simp add: sql_update_append sql_first_None sql_update_none bound_key_def)

lemma RecordFeedbackOnce_cases:
  assumes "RecordFeedbackOnce encode t disc ty x a key d = Inr (i, d')"
  obtains (replay) k where "d' = d" "sql_first (\<lambda>k. idKey k = key) (dvKeys d) = Some k" "k = bound_key key disc ty x a i"
      "discovery_row disc d \<noteq> None" "\<not> blank key"
  | (first) "dvKeys d' = dvKeys d @ [bound_key key disc ty x a i]" "sql_first (\<lambda>k. idKey k = key) (dvKeys d) = None"
      "dvSignals d' = ledger_add (signal_of disc ty x a t) (dvSignals d)" "i = lgSeq (dvSignals d) + 1"
      "dvRows d' = dvRows d" "discovery_row disc d \<noteq> None" "\<not> blank key"
proof (cases "sql_first (\<lambda>k. idKey k = key) (dvKeys d)")
  case None
  have ok: "\<not> blank key" "discovery_row disc d \<noteq> None"
    using assms by (auto simp: RecordFeedbackOnce_def split: if_splits)
  have "i = lgSeq (dvSignals d) + 1" "dvKeys d' = dvKeys d @ [bound_key key disc ty x a i]"
    "dvSignals d' = ledger_add (signal_of disc ty x a t) (dvSignals d)" "dvRows d' = dvRows d"
    using assms ok None by (auto simp: RecordFeedbackOnce_def Let_def bind_reserved)
  then show ?thesis using None ok by (rule_tac first)
next
  case (Some k)
  with assms have "d' = d" "k = bound_key key disc ty x a i" "discovery_row disc d \<noteq> None" "\<not> blank key"
    using sql_first_Some [OF Some]
    by (auto simp: RecordFeedbackOnce_def bound_key_def split: if_splits option.splits)
  with Some show ?thesis by (rule_tac replay)
qed

definition is_feedback :: "discovery_op \<Rightarrow> bool" where
  "is_feedback op = (case op of OpFeedback _ _ _ _ _ \<Rightarrow> True | OpFeedbackOnce _ _ _ _ _ _ \<Rightarrow> True | _ \<Rightarrow> False)"

lemma feedback_frame:
  assumes "\<not> is_feedback op"
  shows "dvKeys (discovery_step cosine encode op d) = dvKeys d \<and> dvSignals (discovery_step cosine encode op d) = dvSignals d"
proof (cases op)
  case (OpSubmit j t s)
  then show ?thesis
    by (cases "insert_discovery (new_discovery j t s) d") (auto simp: SubmitDiscovery_def row_insert)
next
  case (OpSubmitDedup j t s th)
  then show ?thesis
    by (cases "insert_discovery (new_discovery j t s) d") (auto simp: SubmitWithDedup_def row_insert split: option.splits)
next
  case (OpDecay t rate f age)
  then show ?thesis by (auto simp: DecayDiscoveries_def Let_def decay_fold_unfolded fold_decay)
next
  case (OpRollback t src since)
  then show ?thesis by (simp add: RollbackDiscoveries_def Let_def fold_emit)
qed (use assms in \<open>auto simp: is_feedback_def ScoreDiscovery_def PromoteDiscovery_def DismissDiscovery_def UpdateProfile_def Let_def split: option.splits\<close>)

lemma feedback_ok_first:
  assumes ok: "feedback_ok d" and k: "sql_first (\<lambda>k. idKey k = key) (dvKeys d) = None"
    and d': "dvKeys d' = dvKeys d @ [bound_key key disc ty x a (lgSeq (dvSignals d) + 1)]"
      "dvSignals d' = ledger_add (signal_of disc ty x a t) (dvSignals d)"
  shows "feedback_ok d'"
proof -
  have l: "ledger_ok fsID (dvSignals d)" and b: "list_all (key_bound (dvSignals d)) (dvKeys d)"
    using ok by (simp_all add: feedback_ok_def)
  have "Some (lgSeq (dvSignals d) + 1) \<notin> set (map idSignalID (dvKeys d))"
    using b key_bound_le [OF l] by (fastforce simp: list_all_iff)
  moreover have "key_bound (dvSignals d') (bound_key key disc ty x a (lgSeq (dvSignals d) + 1))"
    by (simp add: key_bound_def bound_key_def d'(2) signal_new [OF l]) (simp add: signal_of_def)
  ultimately show ?thesis
    using ok k keys_bound_add [OF b] by (auto simp: feedback_ok_def d' ledger_ok_signal bound_key_def sql_first_None)
qed

lemma feedback_ok_step:
  assumes "feedback_ok d"
  shows "feedback_ok (discovery_step cosine encode op d)"
proof (cases "is_feedback op")
  case False
  with assms show ?thesis by (simp add: feedback_ok_def feedback_frame)
next
  case True
  then show ?thesis
  proof (cases op)
    case (OpFeedback t i s x a)
    with assms show ?thesis
      by (auto simp: RecordFeedback_def feedback_ok_def ledger_ok_signal keys_bound_add)
  next
    case (OpFeedbackOnce t disc ty x a k)
    show ?thesis
    proof (cases "RecordFeedbackOnce encode t disc ty x a k d")
      case (Inl e)
      with assms OpFeedbackOnce show ?thesis by simp
    next
      case (Inr p)
      obtain i d' where p: "p = (i, d')" by force
      from Inr [unfolded p] have "feedback_ok d'"
      proof (cases rule: RecordFeedbackOnce_cases)
        case (replay k)
        with assms show ?thesis by simp
      next
        case first
        then show ?thesis by (intro feedback_ok_first [OF assms]) simp_all
      qed
      with Inr p OpFeedbackOnce show ?thesis by simp
    qed
  qed (simp_all add: is_feedback_def)
qed

lemma keys_kept:
  assumes "sql_first (\<lambda>k. idKey k = key) (dvKeys d) = Some k"
  shows "sql_first (\<lambda>k. idKey k = key) (dvKeys (discovery_step cosine encode op d)) = Some k"
proof (cases "is_feedback op")
  case False
  with assms show ?thesis by (simp add: feedback_frame)
next
  case True
  then show ?thesis
  proof (cases op)
    case (OpFeedback t i s x a)
    with assms show ?thesis by (auto simp: RecordFeedback_def)
  next
    case (OpFeedbackOnce t disc ty x a k')
    show ?thesis
    proof (cases "RecordFeedbackOnce encode t disc ty x a k' d")
      case (Inl e)
      with assms OpFeedbackOnce show ?thesis by simp
    next
      case (Inr p)
      obtain i d' where p: "p = (i, d')" by force
      from Inr [unfolded p] have "sql_first (\<lambda>k. idKey k = key) (dvKeys d') = Some k"
        by (cases rule: RecordFeedbackOnce_cases) (use assms in \<open>simp_all add: first_snoc\<close>)
      with Inr p OpFeedbackOnce show ?thesis by simp
    qed
  qed (simp_all add: is_feedback_def)
qed

lemma history_feedback_ok: "feedback_ok (fold (discovery_step cosine encode) ops empty_discoveries)"
proof -
  have "feedback_ok d \<Longrightarrow> feedback_ok (fold (discovery_step cosine encode) ops d)" for d
    by (induction ops arbitrary: d) (simp_all add: feedback_ok_step)
  then show ?thesis by (simp add: feedback_ok_def empty_discoveries_def)
qed

lemma filter_one_key:
  "distinct (map f xs) \<Longrightarrow> x \<in> set xs \<Longrightarrow> f x = v \<Longrightarrow> filter (\<lambda>y. f y = v) xs = [x]"
proof (induction xs)
  case (Cons y ys)
  show ?case
  proof (cases "y = x")
    case True
    with Cons.prems have "filter (\<lambda>z. f z = v) ys = []" by (auto simp: filter_empty_conv) (metis image_eqI)
    with True Cons.prems show ?thesis by simp
  next
    case False
    with Cons.prems have "f y \<noteq> v" by (auto simp: image_iff)
    with False Cons show ?thesis by simp
  qed
qed simp

lemma history_keys_kept:
  "sql_first (\<lambda>k. idKey k = key) (dvKeys d) = Some k \<Longrightarrow>
   sql_first (\<lambda>k. idKey k = key) (dvKeys (fold (discovery_step cosine encode) ops d)) = Some k"
  by (induction ops arbitrary: d) (simp_all add: keys_kept)

lemma rows_kept:
  "trail_ok d \<Longrightarrow> discovery_row i d \<noteq> None \<Longrightarrow> discovery_row i (fold (discovery_step cosine encode) ops d) \<noteq> None"
proof (induction ops arbitrary: d)
  case Nil
  then show ?case by simp
next
  case (Cons op ops)
  from Cons.prems obtain r where "discovery_row i d = Some r" by blast
  from step_row [OF trail_ok_distinct [OF Cons.prems(1)] this, of cosine encode op]
  have "discovery_row i (discovery_step cosine encode op d) \<noteq> None" by auto
  with Cons.IH [OF trail_ok_step [OF Cons.prems(1)]] show ?case by simp
qed

text \<open>
  Feedback with an idempotency key is recorded once: after a successful call, whatever
  happens to the store in between, the same call returns the same signal and changes nothing,
  a call of the key with other content is refused, the signal holds the content, and no other
  key is bound to it.
\<close>

lemma feedback_recorded_once:
  assumes "RecordFeedbackOnce encode t disc ty x a key (fold (discovery_step cosine encode) ops empty_discoveries) = Inr (i, d)"
    and "fold (discovery_step cosine encode) ops' d = d'"
  shows "RecordFeedbackOnce encode t' disc ty x a key d' = Inr (i, d') \<and>
    ((disc', ty', x', a') = (disc, ty, x, a) \<or> discovery_row disc' d' = None \<or>
       RecordFeedbackOnce encode t' disc' ty' x' a' key d' = Inl ErrKeyConflict) \<and>
    pred_option (\<lambda>s. (fsDiscoveryID s, fsSignalType s, fsData s, fsActor s) = (disc, ty, x, a))
      (sql_first (\<lambda>s. fsID s = i) (lgRows (dvSignals d'))) \<and>
    sql_first (\<lambda>s. fsID s = i) (lgRows (dvSignals d')) \<noteq> None \<and>
    filter (\<lambda>k. idSignalID k = Some i) (dvKeys d') = [bound_key key disc ty x a i]"
proof -
  let ?h = "fold (discovery_step cosine encode) ops empty_discoveries" and ?k = "bound_key key disc ty x a i"
  from assms(1) have "sql_first (\<lambda>k. idKey k = key) (dvKeys d) = Some ?k"
    and r: "discovery_row disc ?h \<noteq> None" "\<not> blank key"
    by (cases rule: RecordFeedbackOnce_cases; simp add: first_snoc bound_key_def)+
  with assms(2) have k: "sql_first (\<lambda>k. idKey k = key) (dvKeys d') = Some ?k" using history_keys_kept by blast
  have d: "d = discovery_step cosine encode (OpFeedbackOnce t disc ty x a key) ?h" by (simp add: assms(1))
  then have d': "d' = fold (discovery_step cosine encode) (ops @ [OpFeedbackOnce t disc ty x a key] @ ops') empty_discoveries"
    using assms(2) by simp
  have ok: "trail_ok d'" "feedback_ok d'" unfolding d' by (rule history_trail_ok, rule history_feedback_ok)
  have row: "discovery_row disc d' \<noteq> None"
    using rows_kept [OF history_trail_ok r(1), of cosine encode "[OpFeedbackOnce t disc ty x a key] @ ops'"] d' by simp
  have again: "RecordFeedbackOnce encode t' disc ty x a key d' = Inr (i, d')"
    using row r(2) k by (simp add: RecordFeedbackOnce_def bound_key_def)
  have conflict: "RecordFeedbackOnce encode t' disc' ty' x' a' key d' = Inl ErrKeyConflict"
    if "(disc', ty', x', a') \<noteq> (disc, ty, x, a)" "discovery_row disc' d' \<noteq> None"
    using that r(2) k by (auto simp: RecordFeedbackOnce_def bound_key_def)
  have ink: "?k \<in> set (dvKeys d')" using sql_first_Some [OF k] by blast
  with ok(2) have "key_bound (dvSignals d') ?k" by (simp add: feedback_ok_def list_all_iff)
  moreover have "filter (\<lambda>k. idSignalID k = Some i) (dvKeys d') = [?k]"
    using ok(2) ink by (intro filter_one_key) (simp_all add: feedback_ok_def bound_key_def)
  ultimately show ?thesis
    using again conflict by (auto simp: key_bound_def bound_key_def)
qed

section \<open>The order of search results\<close>

definition result_key :: "discovery \<times> rat option \<Rightarrow> rat \<times> string" where
  "result_key x = (case snd x of None \<Rightarrow> 0 | Some s \<Rightarrow> - s, dvID (fst x))"

lemma ranks_before_key: "snd x \<noteq> None \<Longrightarrow> snd y \<noteq> None \<Longrightarrow> ranks_before x y \<longleftrightarrow> result_key x < result_key y"
  by (auto simp: ranks_before_def result_key_def less_prod_def)

lemma sift_set: "set (sift_result x xs) = insert x (set xs)" "mset (sift_result x xs) = add_mset x (mset xs)"
  by (induction xs) auto

lemma sift_sorted:
  assumes "sorted_wrt (\<lambda>a b. result_key b \<le> result_key a) xs" "\<forall>y \<in> insert x (set xs). snd y \<noteq> None"
  shows "sorted_wrt (\<lambda>a b. result_key b \<le> result_key a) (sift_result x xs)"
  using assms by (induction xs) (auto simp: ranks_before_key sift_set not_less intro: order_trans)

text \<open>Among comparable similarities the results are sorted by similarity, then by identifier.\<close>

lemma search_results_sorted:
  assumes "list_all (\<lambda>x. snd x \<noteq> None) results"
  shows "sorted (map result_key (sortSearchResults results)) \<and> mset (sortSearchResults results) = mset results"
proof -
  have "sorted_wrt (\<lambda>a b. result_key b \<le> result_key a) (fold sift_result rs acc) \<and>
      mset (fold sift_result rs acc) = mset rs + mset acc"
    if "list_all (\<lambda>x. snd x \<noteq> None) (rs @ acc)" "sorted_wrt (\<lambda>a b. result_key b \<le> result_key a) acc" for rs acc
    using that
  proof (induction rs arbitrary: acc)
    case (Cons r rs)
    have "sorted_wrt (\<lambda>a b. result_key b \<le> result_key a) (sift_result r acc)"
      using Cons.prems by (intro sift_sorted) (auto simp: list_all_iff)
    moreover have "list_all (\<lambda>x. snd x \<noteq> None) (rs @ sift_result r acc)"
      using Cons.prems(1) by (auto simp: list_all_iff sift_set)
    ultimately show ?case using Cons.IH [of "sift_result r acc"] by (simp add: sift_set)
  qed simp
  from this [of results "[]"] assms show ?thesis
    by (simp add: sortSearchResults_def rev_map [symmetric] sorted_wrt_rev sorted_wrt_map)
qed

section \<open>A concrete store\<close>

definition demo_submission :: submission where
  "demo_submission = \<lparr>sbSource = ''arxiv'', sbSourceID = ''1'', sbTitle = ''t'', sbSummary = [], sbURL = [],
     sbRawMetadata = ''{}'', sbEmbedding = None, sbScore = 1 / 4\<rparr>"

definition demo_discoveries :: "discovery_op list" where
  "demo_discoveries = [OpSubmit ''d'' 10 demo_submission, OpPromote 11 ''d'' ''b'' False, OpScore 12 ''d'' (3 / 4),
     OpPromote 13 ''d'' ''b'' False, OpScore 14 ''d'' 0, OpRollback 15 ''arxiv'' 0]"

abbreviation (input) demo_encode :: payload_encoder where "demo_encode \<equiv> \<lambda>_. []"
abbreviation (input) demo_cosine :: "nat list \<Rightarrow> nat list \<Rightarrow> rat option" where "demo_cosine \<equiv> \<lambda>_ _. None"

lemmas demo_defs = demo_discoveries_def demo_submission_def empty_discoveries_def empty_ledger_def SubmitDiscovery_def
  insert_discovery_def new_discovery_def PromoteDiscovery_def ScoreDiscovery_def discovery_row_def update_discovery_def
  RollbackDiscoveries_def rollback_scope_def emit_def ledger_add_def discovery_event_of_def TierMediumMin_def TierHighMin_def
  TierFromScore_def Let_def forces_def

lemma demo_row:
  "discovery_row ''d'' (fold (discovery_step demo_cosine demo_encode) demo_discoveries empty_discoveries) =
     Some \<lparr>dvID = ''d'', dvSource = ''arxiv'', dvSourceID = ''1'', dvTitle = ''t'', dvSummary = [], dvURL = [],
       dvRawMetadata = ''{}'', dvEmbedding = None, dvScore = 3 / 4, dvTier = ''medium'', dvStatus = StatusPromoted,
       dvBeadID = Some ''b'', dvDiscoveredAt = 10, dvPromotedAt = Some 13, dvReviewedAt = None\<rparr>"
  by (simp add: demo_defs)

lemma discovery_lifecycle_example:
  "trail ''d'' (fold (discovery_step demo_cosine demo_encode) demo_discoveries empty_discoveries) = Some StatusPromoted \<and>
   discovery_row ''d'' (discovery_step demo_cosine demo_encode (OpDismiss 20 ''d'')
     (discovery_step demo_cosine demo_encode (OpDismiss 16 ''d'')
       (fold (discovery_step demo_cosine demo_encode) demo_discoveries empty_discoveries)))
   = discovery_row ''d'' (discovery_step demo_cosine demo_encode (OpDismiss 16 ''d'')
       (fold (discovery_step demo_cosine demo_encode) demo_discoveries empty_discoveries))"
proof -
  let ?e = "empty_discoveries"
  have e: "fold (discovery_step demo_cosine demo_encode) (demo_discoveries @ [OpDismiss 16 ''d'']) ?e
      = discovery_step demo_cosine demo_encode (OpDismiss 16 ''d'') (fold (discovery_step demo_cosine demo_encode) demo_discoveries ?e)"
    by simp
  have "dvStatus r = StatusDismissed" if "discovery_row ''d'' (discovery_step demo_cosine demo_encode (OpDismiss 16 ''d'')
      (fold (discovery_step demo_cosine demo_encode) demo_discoveries ?e)) = Some r" for r
    using that demo_row by (auto simp: DismissDiscovery_def Let_def row_update dismiss_row_def)
  then show ?thesis
    using discovery_lifecycle [OF e, of "''d''" "OpDismiss 20 ''d''"]
      discovery_lifecycle [of demo_cosine demo_encode demo_discoveries _ "''d''", OF refl] demo_row
    by (auto simp: DismissDiscovery_def Let_def row_update dismiss_row_def)
qed

lemma feedback_recorded_once_example:
  "\<exists>d. RecordFeedbackOnce demo_encode 16 ''d'' ''boost'' ''{}'' ''user'' ''k''
         (fold (discovery_step demo_cosine demo_encode) demo_discoveries empty_discoveries) = Inr (1, d) \<and>
     RecordFeedbackOnce demo_encode 30 ''d'' ''boost'' ''{}'' ''user'' ''k'' (discovery_step demo_cosine demo_encode (OpDismiss 20 ''d'') d)
       = Inr (1, discovery_step demo_cosine demo_encode (OpDismiss 20 ''d'') d)"
proof -
  let ?h = "fold (discovery_step demo_cosine demo_encode) demo_discoveries empty_discoveries"
  have "dvKeys ?h = []" "dvSignals ?h = empty_ledger" by (simp_all add: demo_defs)
  moreover have "\<not> blank ''k''" by code_simp
  ultimately obtain d where d: "RecordFeedbackOnce demo_encode 16 ''d'' ''boost'' ''{}'' ''user'' ''k'' ?h = Inr (1, d)"
    using demo_row by (auto simp: RecordFeedbackOnce_def Let_def empty_ledger_def)
  with feedback_recorded_once [OF d, of "[OpDismiss 20 ''d'']"] show ?thesis by auto
qed

end
