(* ===== verification/Events.thy ===== *)
theory Events
  imports Ledger "HOL-Library.Product_Lexorder"
begin

text \<open>
  The event store, \<^verbatim>\<open>internal/event\<close>: the tables of the event sources, provenance envelopes,
  the replay inputs captured with events, insertion at most once per key, and the unified
  stream that merges the sources behind per-source cursors. The clock, the environment, JSON
  text and the redactor are fields of \<open>event_env\<close>.
\<close>

section \<open>Envelopes\<close>

record event_envelope =
  enPolicyVersion :: string
  enCallerIdentity :: string
  enCapabilityScope :: string
  enTraceID :: string
  enSpanID :: string
  enParentSpanID :: string
  enInputRefs :: "string list"
  enOutputRefs :: "string list"
  enRequestedSandbox :: string
  enEffectiveSandbox :: string

definition IsZero :: "event_envelope option \<Rightarrow> bool" where
  "IsZero e = (case e of None \<Rightarrow> True
     | Some e \<Rightarrow> enPolicyVersion e = [] \<and> enCallerIdentity e = [] \<and> enCapabilityScope e = [] \<and> enTraceID e = [] \<and>
         enSpanID e = [] \<and> enParentSpanID e = [] \<and> enInputRefs e = [] \<and> enOutputRefs e = [] \<and>
         enRequestedSandbox e = [] \<and> enEffectiveSandbox e = [])"

definition MarshalEnvelopeJSON :: "(event_envelope \<Rightarrow> string) \<Rightarrow> event_envelope option \<Rightarrow> string option" where
  "MarshalEnvelopeJSON marshal e =
     (case e of None \<Rightarrow> None | Some v \<Rightarrow> if IsZero e then None else Some (marshal v))"

definition ParseEnvelopeJSON :: "(string \<Rightarrow> event_envelope option) \<Rightarrow> string \<Rightarrow> unit + event_envelope option" where
  "ParseEnvelopeJSON unmarshal raw =
     (if raw = [] then Inr None
      else case unmarshal raw of
             None \<Rightarrow> Inl ()
           | Some e \<Rightarrow> if IsZero (Some e) then Inr None else Inr (Some e))"

record event_envelope_v2 =
  e2Version :: int
  e2TraceID :: string
  e2SpanID :: string
  e2ParentSpanID :: string
  e2CallerIdentity :: string
  e2PayloadType :: string
  e2Payload :: string

definition MarshalEnvelopeV2JSON :: "(event_envelope_v2 \<Rightarrow> string) \<Rightarrow> event_envelope_v2 option \<Rightarrow> string option" where
  "MarshalEnvelopeV2JSON marshal e =
     (case e of None \<Rightarrow> None
      | Some out \<Rightarrow> Some (marshal (if e2Version out = 0 then out\<lparr>e2Version := 2\<rparr> else out)))"

text \<open>The probe reads the version alone: an error, or the field if it is there.\<close>

definition ParseEnvelopeV2JSON ::
    "(string \<Rightarrow> int option option) \<Rightarrow> (string \<Rightarrow> event_envelope_v2 option) \<Rightarrow> (string \<Rightarrow> event_envelope option) \<Rightarrow>
     string \<Rightarrow> unit + event_envelope_v2 option" where
  "ParseEnvelopeV2JSON probe unmarshal2 unmarshal raw =
     (if raw = [] then Inr None
      else case probe raw of
        None \<Rightarrow> Inl ()
      | Some version \<Rightarrow>
          if (case version of Some v \<Rightarrow> v \<ge> 2 | None \<Rightarrow> False) then
            (case unmarshal2 raw of None \<Rightarrow> Inl () | Some e \<Rightarrow> Inr (Some e))
          else
            (case ParseEnvelopeJSON unmarshal raw of
               Inl u \<Rightarrow> Inl u
             | Inr None \<Rightarrow> Inr None
             | Inr (Some v1) \<Rightarrow>
                 Inr (Some \<lparr>e2Version = 1, e2TraceID = enTraceID v1, e2SpanID = enSpanID v1,
                   e2ParentSpanID = enParentSpanID v1, e2CallerIdentity = enCallerIdentity v1,
                   e2PayloadType = ''legacy'', e2Payload = raw\<rparr>)))"

section \<open>The tables\<close>

record phase_event_row =
  phID :: int
  phRunID :: string
  phFrom :: string
  phTo :: string
  phType :: string
  phReason :: "string option"
  phEnvelope :: "string option"
  phCreatedAt :: int

record dispatch_status_event =
  dsID :: int
  dsDispatchID :: string
  dsRunID :: "string option"
  dsFrom :: string
  dsTo :: string
  dsType :: string
  dsReason :: "string option"
  dsEnvelope :: "string option"
  dsCreatedAt :: int

record coordination_event =
  coID :: int
  coLockID :: string
  coRunID :: "string option"
  coType :: string
  coOwner :: string
  coPattern :: string
  coScope :: string
  coReason :: "string option"
  coEnvelope :: "string option"
  coCreatedAt :: int

record review_event =
  rvID :: int
  rvRunID :: "string option"
  rvFindingID :: string
  rvAgentsJSON :: string
  rvResolution :: string
  rvDismissalReason :: "string option"
  rvChosenSeverity :: string
  rvImpact :: string
  rvType :: string
  rvSessionID :: "string option"
  rvProjectDir :: "string option"
  rvCreatedAt :: int

record interspect_event =
  isID :: int
  isRunID :: "string option"
  isAgentName :: string
  isType :: string
  isOverrideReason :: "string option"
  isContextJSON :: "string option"
  isSessionID :: "string option"
  isProjectDir :: "string option"
  isCreatedAt :: int

record discovery_stream_event =
  dyID :: int
  dyDiscoveryID :: string
  dyType :: string
  dyFrom :: string
  dyTo :: string
  dyPayload :: string
  dyCreatedAt :: int

record agency_event =
  agID :: int
  agRunID :: "string option"
  agAgencyName :: string
  agType :: string
  agCycleID :: string
  agStage :: string
  agContextJSON :: string
  agIdempotencyKey :: string
  agProjectDir :: "string option"
  agCreatedAt :: int

record intent_event =
  inID :: int
  inType :: string
  inBeadID :: string
  inIdempotencyKey :: string
  inSessionID :: string
  inRunID :: "string option"
  inSuccess :: int
  inErrorDetail :: "string option"
  inCreatedAt :: int

record input_row =
  riID :: int
  riRunID :: string
  riKind :: string
  riKey :: "string option"
  riPayload :: string
  riArtifactRef :: "string option"
  riEventSource :: "string option"
  riEventID :: "int option"
  riCreatedAt :: int

record event_db =
  edRuns :: "string list"
  edPhase :: "phase_event_row ledger"
  edDispatch :: "dispatch_status_event ledger"
  edCoordination :: "coordination_event ledger"
  edReview :: "review_event ledger"
  edInterspect :: "interspect_event ledger"
  edDiscovery :: "discovery_stream_event ledger"
  edAgency :: "agency_event ledger"
  edIntent :: "intent_event ledger"
  edInputs :: "input_row ledger"

text \<open>The values of the replay payload maps.\<close>

datatype replay_value = RVStr string | RVEnvelope event_envelope

record event_env =
  eeNow :: int
  eeNano :: string
  eeGetenv :: "string \<Rightarrow> string"
  eeMarshal :: "event_envelope \<Rightarrow> string"
  eePayload :: "(string \<times> replay_value) list \<Rightarrow> string"
  eeRedact :: "(string \<Rightarrow> string) option"
  eeSandbox :: "string \<Rightarrow> (string option \<times> string option) option"
  eeIsObject :: "string \<Rightarrow> bool"
  eeJSONValid :: "string \<Rightarrow> bool"

datatype event_error = ErrUnknownRun | ErrKeyMissing | ErrAgencyFields | ErrContextNotObject | ErrContextRedacted

definition redactStr :: "event_env \<Rightarrow> string \<Rightarrow> string" where
  "redactStr env input =
     (case eeRedact env of None \<Rightarrow> input | Some redact \<Rightarrow> if input = [] then input else redact input)"

definition redactStrPtr :: "event_env \<Rightarrow> string option \<Rightarrow> string option" where
  "redactStrPtr env input = map_option (redactStr env) input"

section \<open>Replay inputs\<close>

definition captureInput ::
    "int \<Rightarrow> string \<Rightarrow> string \<Rightarrow> string \<Rightarrow> string \<Rightarrow> string \<Rightarrow> string \<Rightarrow> int option \<Rightarrow> event_db \<Rightarrow> event_db" where
  "captureInput now runID kind key payload artifactRef eventSource eventID d =
     (if runID = [] \<or> runID \<notin> set (edRuns d) then d
      else d\<lparr>edInputs := ledger_add (\<lambda>i.
             \<lparr>riID = i, riRunID = runID, riKind = (if kind = [] then ''unknown'' else kind), riKey = nullif key [],
              riPayload = (if payload = [] then ''{}'' else payload), riArtifactRef = nullif artifactRef [],
              riEventSource = nullif eventSource [], riEventID = eventID, riCreatedAt = now\<rparr>) (edInputs d)\<rparr>)"

definition optional_entry :: "string \<Rightarrow> string \<Rightarrow> (string \<times> replay_value) list" where
  "optional_entry k v = (if v = [] then [] else [(k, RVStr v)])"

definition envelope_entry :: "event_envelope option \<Rightarrow> (string \<times> replay_value) list" where
  "envelope_entry e = (case e of None \<Rightarrow> [] | Some v \<Rightarrow> [(''envelope'', RVEnvelope v)])"

definition dispatchReplayPayload ::
    "string \<Rightarrow> string \<Rightarrow> string \<Rightarrow> string \<Rightarrow> string \<Rightarrow> event_envelope option \<Rightarrow> (string \<times> replay_value) list" where
  "dispatchReplayPayload dispatchID fromStatus toStatus eventType reason envelope =
     [(''dispatch_id'', RVStr dispatchID), (''event_type'', RVStr eventType), (''from_status'', RVStr fromStatus),
      (''to_status'', RVStr toStatus)] @ optional_entry ''reason'' reason @ envelope_entry envelope"

definition reviewReplayPayload ::
    "string \<Rightarrow> string \<Rightarrow> string \<Rightarrow> string \<Rightarrow> string \<Rightarrow> string \<Rightarrow> string \<Rightarrow> (string \<times> replay_value) list" where
  "reviewReplayPayload findingID agentsJSON resolution dismissalReason chosenSeverity impact eventType =
     [(''finding_id'', RVStr findingID), (''agents_json'', RVStr agentsJSON), (''resolution'', RVStr resolution),
      (''chosen_severity'', RVStr chosenSeverity), (''impact'', RVStr impact), (''event_type'', RVStr eventType)]
     @ optional_entry ''dismissal_reason'' dismissalReason"

definition coordinationReplayPayload ::
    "string \<Rightarrow> string \<Rightarrow> string \<Rightarrow> string \<Rightarrow> string \<Rightarrow> string \<Rightarrow> event_envelope option \<Rightarrow> (string \<times> replay_value) list" where
  "coordinationReplayPayload eventType lockID owner pattern scope reason envelope =
     [(''event_type'', RVStr eventType), (''lock_id'', RVStr lockID), (''owner'', RVStr owner), (''pattern'', RVStr pattern),
      (''scope'', RVStr scope)] @ optional_entry ''reason'' reason @ envelope_entry envelope"

section \<open>Default envelopes\<close>

definition statusRef :: "string \<Rightarrow> string list" where
  "statusRef v = (if v = [] then [] else [v])"

definition defaultDispatchEnvelope :: "event_env \<Rightarrow> string \<Rightarrow> string \<Rightarrow> string \<Rightarrow> string \<Rightarrow> event_envelope" where
  "defaultDispatchEnvelope env dispatchID runID fromStatus toStatus =
     (let envTraceID = eeGetenv env ''IC_TRACE_ID'';
          traceID = (if envTraceID \<noteq> [] then envTraceID else if runID \<noteq> [] then runID else dispatchID);
          capability = (if runID \<noteq> [] then ''run:'' @ runID
                        else if dispatchID \<noteq> [] then ''dispatch:'' @ dispatchID else []);
          envSpanID = eeGetenv env ''IC_SPAN_ID'';
          spanID = (if envSpanID \<noteq> [] then envSpanID else ''dispatch:'' @ dispatchID @ '':'' @ eeNano env);
          envelope = \<lparr>enPolicyVersion = ''dispatch-lifecycle/v2'', enCallerIdentity = ''dispatch.store'',
             enCapabilityScope = capability, enTraceID = traceID, enSpanID = spanID,
             enParentSpanID = eeGetenv env ''IC_PARENT_SPAN_ID'', enInputRefs = statusRef fromStatus,
             enOutputRefs = statusRef toStatus, enRequestedSandbox = [], enEffectiveSandbox = []\<rparr>
      in if dispatchID = [] then envelope
         else (case eeSandbox env dispatchID of
                 None \<Rightarrow> envelope
               | Some (requested, effective) \<Rightarrow>
                   envelope\<lparr>enRequestedSandbox := (case requested of None \<Rightarrow> [] | Some s \<Rightarrow> s),
                            enEffectiveSandbox := (case effective of None \<Rightarrow> [] | Some s \<Rightarrow> s)\<rparr>))"

definition defaultCoordinationEnvelope ::
    "event_env \<Rightarrow> string \<Rightarrow> string \<Rightarrow> string \<Rightarrow> string \<Rightarrow> string \<Rightarrow> event_envelope" where
  "defaultCoordinationEnvelope env eventType lockID pattern scope runID =
     (let envTraceID = eeGetenv env ''IC_TRACE_ID'';
          traceID = (if envTraceID \<noteq> [] then envTraceID else if runID \<noteq> [] then runID else lockID);
          envSpanID = eeGetenv env ''IC_SPAN_ID'';
          spanID = (if envSpanID \<noteq> [] then envSpanID else ''coordination:'' @ eventType @ '':'' @ eeNano env)
      in \<lparr>enPolicyVersion = ''coordination/v1'', enCallerIdentity = ''coordination.store'',
          enCapabilityScope = ''scope:'' @ scope, enTraceID = traceID, enSpanID = spanID,
          enParentSpanID = eeGetenv env ''IC_PARENT_SPAN_ID'', enInputRefs = statusRef pattern,
          enOutputRefs = statusRef lockID, enRequestedSandbox = [], enEffectiveSandbox = []\<rparr>)"

section \<open>Recording events\<close>

definition AddDispatchEvent ::
    "event_env \<Rightarrow> string \<Rightarrow> string \<Rightarrow> string \<Rightarrow> string \<Rightarrow> string \<Rightarrow> string \<Rightarrow> event_envelope option \<Rightarrow> event_db \<Rightarrow> event_db" where
  "AddDispatchEvent env dispatchID runID fromStatus toStatus eventType reason envelope d =
     (let reason = redactStr env reason;
          envelope = (case envelope of None \<Rightarrow> Some (defaultDispatchEnvelope env dispatchID runID fromStatus toStatus)
                      | Some e \<Rightarrow> Some e);
          envelopeJSON = redactStrPtr env (MarshalEnvelopeJSON (eeMarshal env) envelope);
          eventID = lgSeq (edDispatch d) + 1;
          d = d\<lparr>edDispatch := ledger_add (\<lambda>i.
             \<lparr>dsID = i, dsDispatchID = dispatchID, dsRunID = nullif runID [], dsFrom = fromStatus, dsTo = toStatus,
              dsType = eventType, dsReason = nullif reason [], dsEnvelope = envelopeJSON, dsCreatedAt = eeNow env\<rparr>)
             (edDispatch d)\<rparr>
      in captureInput (eeNow env) runID ''external'' ''dispatch_transition''
           (eePayload env (dispatchReplayPayload dispatchID fromStatus toStatus eventType reason envelope))
           (''dispatch_event:'' @ dec eventID) ''dispatch'' (Some eventID) d)"

definition AddBudgetEvent :: "event_env \<Rightarrow> string \<Rightarrow> string \<Rightarrow> string \<Rightarrow> event_db \<Rightarrow> event_error + event_db" where
  "AddBudgetEvent env runID eventType reason d =
     (if runID \<notin> set (edRuns d) then Inl ErrUnknownRun
      else Inr (d\<lparr>edPhase := ledger_add (\<lambda>i.
             \<lparr>phID = i, phRunID = runID, phFrom = [], phTo = [], phType = eventType,
              phReason = nullif (redactStr env reason) [], phEnvelope = None, phCreatedAt = eeNow env\<rparr>) (edPhase d)\<rparr>))"

definition AddCoordinationEvent ::
    "event_env \<Rightarrow> string \<Rightarrow> string \<Rightarrow> string \<Rightarrow> string \<Rightarrow> string \<Rightarrow> string \<Rightarrow> string \<Rightarrow> event_envelope option \<Rightarrow>
     event_db \<Rightarrow> event_db" where
  "AddCoordinationEvent env eventType lockID owner pattern scope reason runID envelope d =
     (let reason = redactStr env reason;
          envelope = (case envelope of None \<Rightarrow> Some (defaultCoordinationEnvelope env eventType lockID pattern scope runID)
                      | Some e \<Rightarrow> Some e);
          envelopeJSON = redactStrPtr env (MarshalEnvelopeJSON (eeMarshal env) envelope);
          eventID = lgSeq (edCoordination d) + 1;
          d = d\<lparr>edCoordination := ledger_add (\<lambda>i.
             \<lparr>coID = i, coLockID = lockID, coRunID = nullif runID [], coType = eventType, coOwner = owner,
              coPattern = pattern, coScope = scope, coReason = nullif reason [], coEnvelope = envelopeJSON,
              coCreatedAt = eeNow env\<rparr>) (edCoordination d)\<rparr>
      in captureInput (eeNow env) runID ''external'' ''coordination_transition''
           (eePayload env (coordinationReplayPayload eventType lockID owner pattern scope reason envelope))
           (''coordination_event:'' @ dec eventID) ''coordination'' (Some eventID) d)"

definition AddInterspectEvent ::
    "event_env \<Rightarrow> string \<Rightarrow> string \<Rightarrow> string \<Rightarrow> string \<Rightarrow> string \<Rightarrow> string \<Rightarrow> string \<Rightarrow> event_db \<Rightarrow> int \<times> event_db" where
  "AddInterspectEvent env runID agentName eventType overrideReason contextJSON sessionID projectDir d =
     (lgSeq (edInterspect d) + 1,
      d\<lparr>edInterspect := ledger_add (\<lambda>i.
        \<lparr>isID = i, isRunID = nullif runID [], isAgentName = agentName, isType = eventType,
         isOverrideReason = nullif (redactStr env overrideReason) [], isContextJSON = nullif (redactStr env contextJSON) [],
         isSessionID = nullif sessionID [], isProjectDir = nullif projectDir [], isCreatedAt = eeNow env\<rparr>) (edInterspect d)\<rparr>)"

definition coalesced :: "string option \<Rightarrow> string" where
  "coalesced v = (case v of None \<Rightarrow> [] | Some s \<Rightarrow> s)"

definition same_interspect :: "string \<Rightarrow> string \<Rightarrow> string \<Rightarrow> string \<Rightarrow> interspect_event \<Rightarrow> bool" where
  "same_interspect runID agentName eventType key e \<longleftrightarrow>
     coalesced (isRunID e) = runID \<and> isAgentName e = agentName \<and> isType e = eventType \<and> isSessionID e = Some key"

definition AddInterspectEventOnce ::
    "event_env \<Rightarrow> string \<Rightarrow> string \<Rightarrow> string \<Rightarrow> string \<Rightarrow> string \<Rightarrow> string \<Rightarrow> string \<Rightarrow> event_db \<Rightarrow>
     event_error + (int \<times> event_db)" where
  "AddInterspectEventOnce env runID agentName eventType overrideReason contextJSON idempotencyKey projectDir d =
     (if idempotencyKey = [] then Inl ErrKeyMissing
      else case sql_first (same_interspect runID agentName eventType idempotencyKey) (lgRows (edInterspect d)) of
        Some e \<Rightarrow> Inr (isID e, d)
      | None \<Rightarrow>
          Inr (lgSeq (edInterspect d) + 1,
            d\<lparr>edInterspect := ledger_add (\<lambda>i.
              \<lparr>isID = i, isRunID = nullif runID [], isAgentName = agentName, isType = eventType,
               isOverrideReason = nullif (redactStr env overrideReason) [],
               isContextJSON = nullif (redactStr env contextJSON) [], isSessionID = Some idempotencyKey,
               isProjectDir = nullif projectDir [], isCreatedAt = eeNow env\<rparr>) (edInterspect d)\<rparr>))"

record agency_submission =
  asRunID :: string
  asAgencyName :: string
  asEventType :: string
  asCycleID :: string
  asStage :: string
  asContextJSON :: string
  asIdempotencyKey :: string
  asProjectDir :: string

definition AddAgencyEventOnce :: "event_env \<Rightarrow> agency_submission \<Rightarrow> event_db \<Rightarrow> event_error + (int \<times> event_db)" where
  "AddAgencyEventOnce env e d =
     (if asAgencyName e = [] \<or> asEventType e = [] \<or> asCycleID e = [] \<or> asStage e = [] \<or> asIdempotencyKey e = []
      then Inl ErrAgencyFields
      else
        let context = (if asContextJSON e = [] then ''{}'' else asContextJSON e)
        in if \<not> eeIsObject env context then Inl ErrContextNotObject
           else
             let context = redactStr env context
             in if \<not> eeJSONValid env context then Inl ErrContextRedacted
                else case sql_first (\<lambda>r. agAgencyName r = asAgencyName e \<and> agIdempotencyKey r = asIdempotencyKey e)
                            (lgRows (edAgency d)) of
                  Some r \<Rightarrow> Inr (agID r, d)
                | None \<Rightarrow>
                    Inr (lgSeq (edAgency d) + 1,
                      d\<lparr>edAgency := ledger_add (\<lambda>i.
                        \<lparr>agID = i, agRunID = nullif (asRunID e) [], agAgencyName = asAgencyName e, agType = asEventType e,
                         agCycleID = asCycleID e, agStage = asStage e, agContextJSON = context,
                         agIdempotencyKey = asIdempotencyKey e, agProjectDir = nullif (asProjectDir e) [],
                         agCreatedAt = eeNow env\<rparr>) (edAgency d)\<rparr>))"

record review_submission =
  rsRunID :: string
  rsFindingID :: string
  rsAgentsJSON :: string
  rsResolution :: string
  rsDismissalReason :: string
  rsChosenSeverity :: string
  rsImpact :: string
  rsEventType :: string
  rsSessionID :: string
  rsProjectDir :: string

definition AddReviewEvent :: "event_env \<Rightarrow> review_submission \<Rightarrow> event_db \<Rightarrow> int \<times> event_db" where
  "AddReviewEvent env q d =
     (let agentsJSON = redactStr env (rsAgentsJSON q);
          resolution = redactStr env (rsResolution q);
          dismissalReason = redactStr env (rsDismissalReason q);
          impact = redactStr env (rsImpact q);
          eventType = (if rsEventType q = [] then ''disagreement_resolved'' else rsEventType q);
          eventID = lgSeq (edReview d) + 1;
          d = d\<lparr>edReview := ledger_add (\<lambda>i.
             \<lparr>rvID = i, rvRunID = nullif (rsRunID q) [], rvFindingID = rsFindingID q, rvAgentsJSON = agentsJSON,
              rvResolution = resolution, rvDismissalReason = nullif dismissalReason [], rvChosenSeverity = rsChosenSeverity q,
              rvImpact = impact, rvType = eventType, rvSessionID = nullif (rsSessionID q) [],
              rvProjectDir = nullif (rsProjectDir q) [], rvCreatedAt = eeNow env\<rparr>) (edReview d)\<rparr>
      in (eventID,
          if rsRunID q = [] then d
          else captureInput (eeNow env) (rsRunID q) ''review_event'' (rsFindingID q)
                 (eePayload env (reviewReplayPayload (rsFindingID q) agentsJSON resolution dismissalReason
                    (rsChosenSeverity q) impact eventType)) [] ''review'' (Some eventID) d))"

definition AddIntentEvent ::
    "event_env \<Rightarrow> string \<Rightarrow> string \<Rightarrow> string \<Rightarrow> string \<Rightarrow> string \<Rightarrow> bool \<Rightarrow> string \<Rightarrow> event_db \<Rightarrow> event_db" where
  "AddIntentEvent env intentType beadID idempotencyKey sessionID runID success errorDetail d =
     d\<lparr>edIntent := ledger_add (\<lambda>i.
       \<lparr>inID = i, inType = intentType, inBeadID = beadID, inIdempotencyKey = idempotencyKey, inSessionID = sessionID,
        inRunID = nullif runID [], inSuccess = (if success then 1 else 0),
        inErrorDetail = nullif (redactStr env errorDetail) [], inCreatedAt = eeNow env\<rparr>) (edIntent d)\<rparr>"

end
