(* ===== verification/EventStream.thy ===== *)
theory EventStream
  imports Events StateStore
begin

text \<open>
  Reading the event store: the lists of single sources, the unified stream of
  \<^verbatim>\<open>ListEvents\<close> and \<^verbatim>\<open>ListAllEvents\<close> with a share of the limit for each source, the cursors of
  \<^verbatim>\<open>ic events tail\<close> (\<^verbatim>\<open>cmd/ic/events.go\<close>) and handlers of delivered events.
\<close>

section \<open>The unified stream\<close>

record uevent =
  ueID :: int
  ueRunID :: string
  ueSource :: string
  ueType :: string
  ueFrom :: string
  ueTo :: string
  ueReason :: string
  ueEnvelopeText :: string
  ueCreatedAt :: int

definition phase_view :: "phase_event_row \<Rightarrow> uevent" where
  "phase_view e = \<lparr>ueID = phID e, ueRunID = phRunID e, ueSource = ''phase'', ueType = phType e, ueFrom = phFrom e,
     ueTo = phTo e, ueReason = coalesced (phReason e), ueEnvelopeText = coalesced (phEnvelope e), ueCreatedAt = phCreatedAt e\<rparr>"

definition dispatch_view :: "dispatch_status_event \<Rightarrow> uevent" where
  "dispatch_view e = \<lparr>ueID = dsID e, ueRunID = coalesced (dsRunID e), ueSource = ''dispatch'', ueType = dsType e,
     ueFrom = dsFrom e, ueTo = dsTo e, ueReason = coalesced (dsReason e), ueEnvelopeText = coalesced (dsEnvelope e),
     ueCreatedAt = dsCreatedAt e\<rparr>"

definition coordination_view :: "coordination_event \<Rightarrow> uevent" where
  "coordination_view e = \<lparr>ueID = coID e, ueRunID = coalesced (coRunID e), ueSource = ''coordination'', ueType = coType e,
     ueFrom = coOwner e, ueTo = coPattern e, ueReason = coalesced (coReason e), ueEnvelopeText = coalesced (coEnvelope e),
     ueCreatedAt = coCreatedAt e\<rparr>"

definition review_view :: "review_event \<Rightarrow> uevent" where
  "review_view e = \<lparr>ueID = rvID e, ueRunID = coalesced (rvRunID e), ueSource = ''review'', ueType = ''disagreement_resolved'',
     ueFrom = rvFindingID e, ueTo = rvResolution e, ueReason = rvAgentsJSON e, ueEnvelopeText = [], ueCreatedAt = rvCreatedAt e\<rparr>"

definition interspect_view :: "interspect_event \<Rightarrow> uevent" where
  "interspect_view e = \<lparr>ueID = isID e, ueRunID = coalesced (isRunID e), ueSource = ''interspect'', ueType = isType e,
     ueFrom = isAgentName e, ueTo = [], ueReason = coalesced (isOverrideReason e),
     ueEnvelopeText = coalesced (isContextJSON e), ueCreatedAt = isCreatedAt e\<rparr>"

definition discovery_view :: "discovery_stream_event \<Rightarrow> uevent" where
  "discovery_view e = \<lparr>ueID = dyID e, ueRunID = dyDiscoveryID e, ueSource = ''discovery'', ueType = dyType e,
     ueFrom = dyFrom e, ueTo = dyTo e, ueReason = dyPayload e, ueEnvelopeText = [], ueCreatedAt = dyCreatedAt e\<rparr>"

text \<open>The rows of the sources, each as the sub-select shows them.\<close>

definition run_sources :: "(string \<times> (event_db \<Rightarrow> uevent list)) list" where
  "run_sources =
     [(''phase'', \<lambda>d. map phase_view (lgRows (edPhase d))),
      (''dispatch'', \<lambda>d. map dispatch_view (lgRows (edDispatch d))),
      (''coordination'', \<lambda>d. map coordination_view (lgRows (edCoordination d))),
      (''review'', \<lambda>d. map review_view (lgRows (edReview d))),
      (''interspect'', \<lambda>d. map interspect_view (lgRows (edInterspect d)))]"

definition all_sources :: "(string \<times> (event_db \<Rightarrow> uevent list)) list" where
  "all_sources =
     [(''phase'', \<lambda>d. map phase_view (lgRows (edPhase d))),
      (''dispatch'', \<lambda>d. map dispatch_view (lgRows (edDispatch d))),
      (''discovery'', \<lambda>d. map discovery_view (lgRows (edDiscovery d))),
      (''coordination'', \<lambda>d. map coordination_view (lgRows (edCoordination d))),
      (''review'', \<lambda>d. map review_view (lgRows (edReview d))),
      (''interspect'', \<lambda>d. map interspect_view (lgRows (edInterspect d)))]"

definition perSourceLimit :: "int \<Rightarrow> int \<Rightarrow> int" where
  "perSourceLimit lim sourceCount =
     (if sourceCount \<le> 0 then lim else (lim + sourceCount - 1) div sourceCount)"

type_synonym cursors = "string \<Rightarrow> int"

definition sub_select :: "(uevent \<Rightarrow> bool) \<Rightarrow> int \<Rightarrow> int \<Rightarrow> uevent list \<Rightarrow> uevent list" where
  "sub_select wanted since lim rows =
     take (nat lim) (sort_key (\<lambda>e. (ueCreatedAt e, ueID e)) (filter (\<lambda>e. wanted e \<and> ueID e > since) rows))"

definition union_select :: "(string \<times> uevent list) list \<Rightarrow> int \<Rightarrow> uevent list" where
  "union_select parts limit =
     take (nat limit) (sort_key (\<lambda>e. (ueCreatedAt e, ueSource e, ueID e)) (concat (map snd parts)))"

text \<open>Only the phase source insists on the run; the others are shown whole for no run.\<close>

definition of_run :: "string \<Rightarrow> string \<Rightarrow> uevent \<Rightarrow> bool" where
  "of_run runID source e \<longleftrightarrow> ueRunID e = runID \<or> (source \<noteq> ''phase'' \<and> runID = [])"

definition select_events ::
    "(string \<times> (event_db \<Rightarrow> uevent list)) list \<Rightarrow> (string \<Rightarrow> uevent \<Rightarrow> bool) \<Rightarrow> cursors \<Rightarrow> int \<Rightarrow> event_db \<Rightarrow> uevent list" where
  "select_events sources wanted since lim d =
     (let limit = (if lim \<le> 0 then 1000 else lim);
          perSource = perSourceLimit limit (int (length sources))
      in union_select (map (\<lambda>(s, rows). (s, sub_select (wanted s) (since s) perSource (rows d))) sources) limit)"

definition ListEvents :: "string \<Rightarrow> cursors \<Rightarrow> int \<Rightarrow> event_db \<Rightarrow> uevent list" where
  "ListEvents runID since lim d = select_events run_sources (of_run runID) since lim d"

definition ListAllEvents :: "cursors \<Rightarrow> int \<Rightarrow> event_db \<Rightarrow> uevent list" where
  "ListAllEvents since lim d = select_events all_sources (\<lambda>_ _. True) since lim d"

text \<open>The envelope of a scanned row; text that does not parse leaves none.\<close>

definition scan_envelope :: "(string \<Rightarrow> event_envelope option) \<Rightarrow> uevent \<Rightarrow> event_envelope option" where
  "scan_envelope unmarshal e =
     (if ueEnvelopeText e = [] then None
      else case ParseEnvelopeJSON unmarshal (ueEnvelopeText e) of Inl _ \<Rightarrow> None | Inr v \<Rightarrow> v)"

section \<open>Single sources\<close>

definition max_id :: "('r \<Rightarrow> int) \<Rightarrow> 'r ledger \<Rightarrow> int" where
  "max_id ident l = (case map ident (lgRows l) of [] \<Rightarrow> 0 | i # is \<Rightarrow> fold max is i)"

definition MaxPhaseEventID :: "event_db \<Rightarrow> int" where "MaxPhaseEventID d = max_id phID (edPhase d)"
definition MaxDispatchEventID :: "event_db \<Rightarrow> int" where "MaxDispatchEventID d = max_id dsID (edDispatch d)"
definition MaxStreamDiscoveryEventID :: "event_db \<Rightarrow> int" where "MaxStreamDiscoveryEventID d = max_id dyID (edDiscovery d)"
definition MaxCoordinationEventID :: "event_db \<Rightarrow> int" where "MaxCoordinationEventID d = max_id coID (edCoordination d)"
definition MaxInterspectEventID :: "event_db \<Rightarrow> int" where "MaxInterspectEventID d = max_id isID (edInterspect d)"
definition MaxAgencyEventID :: "event_db \<Rightarrow> int" where "MaxAgencyEventID d = max_id agID (edAgency d)"
definition MaxReviewEventID :: "event_db \<Rightarrow> int" where "MaxReviewEventID d = max_id rvID (edReview d)"

definition ListInterspectEvents :: "string \<Rightarrow> int \<Rightarrow> int \<Rightarrow> event_db \<Rightarrow> interspect_event list" where
  "ListInterspectEvents agentName since lim d =
     limited lim (sort_key (\<lambda>e. (isCreatedAt e, isID e))
       (filter (\<lambda>e. given agentName (isAgentName e) \<and> isID e > since) (lgRows (edInterspect d))))"

definition ListReviewEvents :: "int \<Rightarrow> int \<Rightarrow> event_db \<Rightarrow> review_event list" where
  "ListReviewEvents since lim d =
     limited lim (sort_key (\<lambda>e. (rvCreatedAt e, rvID e)) (filter (\<lambda>e. rvID e > since) (lgRows (edReview d))))"

definition ListAgencyEvents :: "string \<Rightarrow> string \<Rightarrow> int \<Rightarrow> int \<Rightarrow> event_db \<Rightarrow> agency_event list" where
  "ListAgencyEvents agencyName runID since lim d =
     limited lim (sort_key agID (filter (\<lambda>e. given agencyName (agAgencyName e) \<and> given runID (coalesced (agRunID e)) \<and>
       agID e > since) (lgRows (edAgency d))))"

definition ListLatestAgencyEvents :: "string \<Rightarrow> event_db \<Rightarrow> agency_event list" where
  "ListLatestAgencyEvents runID d =
     (let rows = filter (\<lambda>e. given runID (coalesced (agRunID e))) (lgRows (edAgency d))
      in sort_key agAgencyName
           (filter (\<lambda>e. list_ex (\<lambda>x. agID x = agID e \<and> list_all (\<lambda>y. agAgencyName y = agAgencyName x \<longrightarrow> agID y \<le> agID x) rows) rows)
              (lgRows (edAgency d))))"

section \<open>Tailing\<close>

definition advance_cursor :: "uevent \<Rightarrow> cursors \<Rightarrow> cursors" where
  "advance_cursor e since =
     (if ueSource e \<in> {''phase'', ''dispatch'', ''discovery'', ''review'', ''coordination'', ''interspect''} \<and>
         ueID e > since (ueSource e)
      then since(ueSource e := ueID e) else since)"

definition tail_batch :: "string \<Rightarrow> bool \<Rightarrow> int \<Rightarrow> event_db \<Rightarrow> cursors \<Rightarrow> uevent list \<times> cursors" where
  "tail_batch runID allRuns lim d since =
     (let events = (if allRuns \<or> runID = [] then ListAllEvents since lim d else ListEvents runID since lim d)
      in (events, fold advance_cursor events since))"

definition cursor_scope :: "string \<Rightarrow> string \<Rightarrow> string" where
  "cursor_scope consumer scope = (if scope \<noteq> [] then consumer @ '':'' @ scope else consumer)"

definition cursor_sources :: "string list" where
  "cursor_sources = [''phase'', ''dispatch'', ''interspect'', ''discovery'', ''review'', ''coordination'']"

definition cursor_text :: "cursors \<Rightarrow> string" where
  "cursor_text since =
     ''{\"phase\":'' @ dec (since ''phase'') @ '',\"dispatch\":'' @ dec (since ''dispatch'')
     @ '',\"interspect\":'' @ dec (since ''interspect'') @ '',\"discovery\":'' @ dec (since ''discovery'')
     @ '',\"review\":'' @ dec (since ''review'') @ '',\"coordination\":'' @ dec (since ''coordination'') @ ''}''"

definition cursor_payload :: "cursors \<Rightarrow> payload" where
  "cursor_payload since = \<lparr>pText = cursor_text since, pValue = Some (SObj (map (\<lambda>s. (s, SNum True)) cursor_sources))\<rparr>"

definition day :: int where "day = 24 * 60 * 60 * 1000000000"

definition cursorTTL :: "string \<Rightarrow> state_table \<Rightarrow> int" where
  "cursorTTL key rows = (if IsDurable ''cursor'' key rows then 0 else day)"

text \<open>A failure to save is logged only.\<close>

definition saveCursor ::
    "(string \<Rightarrow> bool) list \<Rightarrow> int \<Rightarrow> string \<Rightarrow> string \<Rightarrow> cursors \<Rightarrow> state_table \<Rightarrow> state_table" where
  "saveCursor patterns now consumer scope since rows =
     (let key = cursor_scope consumer scope
      in case StateStore.Set patterns now ''cursor'' key (cursor_payload since) (cursorTTL key rows) rows of
           Inl _ \<Rightarrow> rows | Inr rows' \<Rightarrow> rows')"

definition loadCursor :: "(string \<Rightarrow> cursors option) \<Rightarrow> int \<Rightarrow> string \<Rightarrow> string \<Rightarrow> state_table \<Rightarrow> cursors" where
  "loadCursor unmarshal now consumer scope rows =
     (case StateStore.Get now ''cursor'' (cursor_scope consumer scope) rows of
        Inl _ \<Rightarrow> (\<lambda>_. 0)
      | Inr payload \<Rightarrow> (case unmarshal payload of None \<Rightarrow> (\<lambda>_. 0) | Some c \<Rightarrow> c))"

definition register_cursor ::
    "(string \<Rightarrow> bool) list \<Rightarrow> int \<Rightarrow> string \<Rightarrow> bool \<Rightarrow> state_table \<Rightarrow> state_error + state_table" where
  "register_cursor patterns now consumer durable rows =
     StateStore.Set patterns now ''cursor'' consumer (cursor_payload (\<lambda>_. 0)) (if durable then 0 else day) rows"

section \<open>Handlers\<close>

text \<open>Handlers run in order of subscription, each on the state the earlier ones left; the first error is kept.\<close>

fun Notify :: "(string \<times> (uevent \<Rightarrow> 's \<Rightarrow> string option \<times> 's)) list \<Rightarrow> uevent \<Rightarrow> 's \<Rightarrow> (string \<times> string) option \<times> 's" where
  "Notify [] e st = (None, st)"
| "Notify ((name, h) # hs) e st =
     (let (err, st) = h e st; (firstErr, st) = Notify hs e st
      in ((case err of None \<Rightarrow> firstErr | Some m \<Rightarrow> Some (name, m)), st))"

text \<open>The spawner's effect on the state, also when it fails; its error is logged.\<close>

definition NewSpawnHandler ::
    "('s \<Rightarrow> string \<Rightarrow> string + string list) \<Rightarrow> (string \<Rightarrow> 's \<Rightarrow> bool \<times> 's) \<Rightarrow> uevent \<Rightarrow> 's \<Rightarrow> string option \<times> 's" where
  "NewSpawnHandler querier spawner e st =
     (if ueSource e \<noteq> ''phase'' \<or> ueTo e \<noteq> ''executing'' then (None, st)
      else case querier st (ueRunID e) of
        Inl err \<Rightarrow> (Some err, st)
      | Inr agentIDs \<Rightarrow> (None, fold (\<lambda>i st. snd (spawner i st)) agentIDs st))"

end
