(* ===== verification/EventProps.thy ===== *)
theory EventProps
  imports EventStream
begin

text \<open>
  Delivery of the unified stream: with a clock that does not step back, polling behind
  cursors delivers every event of every source exactly once and in order, whatever is recorded
  between the polls. Idempotent recording, envelopes and saved cursors.
\<close>

section \<open>Sources in order\<close>

definition in_order :: "uevent list \<Rightarrow> bool" where
  "in_order rows \<longleftrightarrow> sorted_wrt (<) (map ueID rows) \<and> sorted (map ueCreatedAt rows)"

definition pending :: "(uevent \<Rightarrow> bool) \<Rightarrow> int \<Rightarrow> uevent list \<Rightarrow> uevent list" where
  "pending wanted since rows = filter (\<lambda>e. wanted e \<and> ueID e > since) rows"

lemma sort_key_sorted: "sorted (map f xs) \<Longrightarrow> sort_key f xs = xs"
  by (simp add: sort_key_id_if_sorted)

lemma in_order_filter: "in_order rows \<Longrightarrow> in_order (filter P rows)"
  by (auto simp: in_order_def sorted_wrt_map sorted_map intro: sorted_wrt_filter)

lemma in_order_pairs:
  assumes "in_order rows"
  shows "sorted (map (\<lambda>e. (ueCreatedAt e, ueID e)) rows)"
  using assms
  by (induction rows) (auto simp: in_order_def less_eq_prod_def order_le_less)

lemma in_order_triples:
  assumes "in_order rows" "\<forall>e \<in> set rows. ueSource e = s"
  shows "sorted (map (\<lambda>e. (ueCreatedAt e, ueSource e, ueID e)) rows)"
  using assms
  by (induction rows) (auto simp: in_order_def less_eq_prod_def order_le_less)

lemma in_order_take: "in_order rows \<Longrightarrow> in_order (take n rows)"
  by (auto simp: in_order_def take_map [symmetric] sorted_wrt_take)

lemma sub_select_pending:
  "in_order rows \<Longrightarrow> sub_select wanted since lim rows = take (nat lim) (pending wanted since rows)"
  unfolding sub_select_def pending_def by (simp add: sort_key_sorted in_order_pairs in_order_filter)

lemma filter_take: "\<exists>m. filter P (take n xs) = take m (filter P xs)"
proof (induction xs arbitrary: n)
  case (Cons x xs)
  show ?case
  proof (cases n)
    case 0
    then show ?thesis by (intro exI [of _ 0]) simp
  next
    case (Suc k)
    obtain m where "filter P (take k xs) = take m (filter P xs)" using Cons.IH by blast
    then show ?thesis using Suc by (intro exI [of _ "if P x then Suc m else m"]) simp
  qed
qed simp

text \<open>The share of one source in the merge is a prefix of what the source offered.\<close>

lemma union_share:
  assumes "distinct (map fst parts)" "(s, rows) \<in> set parts"
    and "\<forall>(s, rows) \<in> set parts. in_order rows \<and> (\<forall>e \<in> set rows. ueSource e = s)"
  shows "\<exists>m. filter (\<lambda>e. ueSource e = s) (union_select parts lim) = take m rows"
proof -
  let ?P = "\<lambda>e. ueSource e = s"
  have "filter ?P (concat (map snd parts)) = rows"
    using assms
  proof (induction parts)
    case (Cons p parts)
    obtain t rs where p: "p = (t, rs)" by force
    show ?case
    proof (cases "t = s")
      case True
      with Cons.prems p have "rs = rows" by (force simp: image_iff)
      moreover have "filter ?P (concat (map snd parts)) = []"
      proof -
        have "ueSource e \<noteq> s" if "q \<in> set parts" "e \<in> set (snd q)" for q e
        proof -
          have "fst q \<noteq> s" using Cons.prems(1) True p that(1) by auto
          moreover have "ueSource e = fst q" using Cons.prems(3) that by (cases q) auto
          ultimately show ?thesis by simp
        qed
        then show ?thesis by (auto simp: filter_empty_conv)
      qed
      moreover have "filter ?P rs = rs" using Cons.prems(3) True p by (auto simp: filter_id_conv)
      ultimately show ?thesis using p by simp
    next
      case False
      moreover have "filter ?P rs = []" using Cons.prems(3) False p by (auto simp: filter_empty_conv)
      moreover have "(s, rows) \<in> set parts" using Cons.prems(2) False p by auto
      then have "filter ?P (concat (map snd parts)) = rows" using Cons.prems by (intro Cons.IH) auto
      ultimately show ?thesis using p by simp
    qed
  qed simp
  moreover have "sort_key (\<lambda>e. (ueCreatedAt e, ueSource e, ueID e)) rows = rows"
    using assms(2,3) by (intro sort_key_sorted in_order_triples) auto
  ultimately show ?thesis
    unfolding union_select_def
    using filter_take [of ?P "nat lim" "sort_key (\<lambda>e. (ueCreatedAt e, ueSource e, ueID e)) (concat (map snd parts))"]
    by (simp add: filter_sort)
qed

lemma fold_advance:
  assumes "s \<in> {''phase'', ''dispatch'', ''discovery'', ''review'', ''coordination'', ''interspect''}"
  shows "fold advance_cursor es since s = fold max (map ueID (filter (\<lambda>e. ueSource e = s) es)) (since s)"
  using assms by (induction es arbitrary: since) (auto simp: advance_cursor_def max_def)

lemma fold_max_ge: "(x::int) \<le> fold max xs x"
proof (induction xs arbitrary: x)
  case (Cons a xs)
  from Cons [of "max a x"] show ?case by simp
qed simp

lemma advanced_pending:
  assumes "sorted_wrt (<) (map ueID rows)" "\<forall>e \<in> set rows. ueID e > c"
  shows "filter (\<lambda>e. ueID e > fold max (map ueID (take m rows)) c) rows = drop m rows"
  using assms
proof (induction rows arbitrary: m c)
  case (Cons r rows)
  show ?case
  proof (cases m)
    case 0
    with Cons.prems show ?thesis by (simp add: filter_id_conv)
  next
    case (Suc k)
    have "\<not> ueID r > fold max (map ueID (take k rows)) (ueID r)"
      using fold_max_ge [of "ueID r" "map ueID (take k rows)"] by simp
    moreover have "filter (\<lambda>e. ueID e > fold max (map ueID (take k rows)) (ueID r)) rows = drop k rows"
      using Cons.prems by (intro Cons.IH) auto
    moreover have "max (ueID r) c = ueID r" using Cons.prems(2) by simp
    ultimately show ?thesis using Suc by simp
  qed
qed simp

section \<open>One batch\<close>

definition sources_ok :: "(string \<times> (event_db \<Rightarrow> uevent list)) list \<Rightarrow> event_db \<Rightarrow> bool" where
  "sources_ok sources d \<longleftrightarrow> (\<forall>(s, rows) \<in> set sources. in_order (rows d) \<and> (\<forall>e \<in> set (rows d). ueSource e = s))"

lemma sub_select_in: "e \<in> set (sub_select wanted since lim rows) \<Longrightarrow> e \<in> set rows"
  by (auto simp: sub_select_def dest: in_set_takeD)

lemma in_order_sub: "in_order rows \<Longrightarrow> in_order (sub_select wanted since lim rows)"
  by (simp add: sub_select_pending pending_def in_order_take in_order_filter)

lemma sort_key_empty: "sort_key f xs = [] \<longleftrightarrow> xs = []"
  by (metis length_0_conv length_sort)

lemma union_select_empty: "union_select parts lim = [] \<longleftrightarrow> lim \<le> 0 \<or> concat (map snd parts) = []"
  by (simp only: union_select_def take_eq_Nil sort_key_empty) auto

lemma select_share:
  assumes "distinct (map fst sources)" "(s, rows) \<in> set sources" "sources_ok sources d"
  shows "\<exists>m. filter (\<lambda>e. ueSource e = s) (select_events sources wanted since lim d) = take m (pending (wanted s) (since s) (rows d))"
proof -
  define per where "per = perSourceLimit (if lim \<le> 0 then 1000 else lim) (int (length sources))"
  let ?parts = "map (\<lambda>(s, rows). (s, sub_select (wanted s) (since s) per (rows d))) sources"
  have "distinct (map fst ?parts)" using assms(1) by (simp add: comp_def case_prod_unfold)
  moreover have "(s, sub_select (wanted s) (since s) per (rows d)) \<in> set ?parts" using assms(2) by force
  moreover have "\<forall>(s, rows) \<in> set ?parts. in_order rows \<and> (\<forall>e \<in> set rows. ueSource e = s)"
    using assms(3) by (fastforce simp: sources_ok_def in_order_sub dest: sub_select_in)
  ultimately have "\<exists>m. filter (\<lambda>e. ueSource e = s) (union_select ?parts (if lim \<le> 0 then 1000 else lim))
      = take m (sub_select (wanted s) (since s) per (rows d))"
    by (rule union_share)
  then obtain m where "filter (\<lambda>e. ueSource e = s) (select_events sources wanted since lim d)
      = take m (sub_select (wanted s) (since s) per (rows d))"
    unfolding select_events_def Let_def per_def by blast
  moreover have "in_order (rows d)" using assms(2,3) by (auto simp: sources_ok_def)
  ultimately show ?thesis by (auto simp: sub_select_pending)
qed

text \<open>What a source still has after the cursor moved over its share.\<close>

lemma batch_rest:
  assumes "distinct (map fst sources)" "(s, rows) \<in> set sources" "sources_ok sources d"
    and "s \<in> {''phase'', ''dispatch'', ''discovery'', ''review'', ''coordination'', ''interspect''}"
    and es: "es = select_events sources wanted since lim d"
  shows "filter (\<lambda>e. ueSource e = s) es @ pending (wanted s) (fold advance_cursor es since s) (rows d)
       = pending (wanted s) (since s) (rows d)"
proof -
  let ?p = "pending (wanted s) (since s) (rows d)"
  obtain m where m: "filter (\<lambda>e. ueSource e = s) es = take m ?p" using select_share [OF assms(1-3)] unfolding es by blast
  let ?c = "fold max (map ueID (take m ?p)) (since s)"
  have c: "fold advance_cursor es since s = ?c" unfolding fold_advance [OF assms(4)] m ..
  have "in_order ?p" using assms(2,3) by (auto simp: sources_ok_def pending_def in_order_filter)
  then have "filter (\<lambda>e. ueID e > ?c) ?p = drop m ?p"
    by (intro advanced_pending) (auto simp: in_order_def pending_def)
  moreover have "pending (wanted s) ?c (rows d) = filter (\<lambda>e. ueID e > ?c) ?p"
    using fold_max_ge [of "since s" "map ueID (take m ?p)"] by (auto simp: pending_def intro!: filter_cong)
  ultimately show ?thesis by (simp add: m c)
qed

text \<open>A batch is empty only when nothing is left anywhere.\<close>

lemma batch_empty:
  assumes "distinct (map fst sources)" "(s, rows) \<in> set sources" "sources_ok sources d"
    and "select_events sources wanted since lim d = []"
  shows "pending (wanted s) (since s) (rows d) = []"
proof (rule ccontr)
  assume p: "pending (wanted s) (since s) (rows d) \<noteq> []"
  define limit where "limit = (if lim \<le> 0 then 1000 else lim)"
  define per where "per = perSourceLimit limit (int (length sources))"
  have n: "0 < int (length sources)" using assms(2) by (cases sources) auto
  have "0 < limit" by (simp add: limit_def)
  then have "int (length sources) \<le> limit + int (length sources) - 1" by simp
  with n have "0 < per" unfolding per_def perSourceLimit_def by (simp add: pos_imp_zdiv_pos_iff)
  then have "nat per \<noteq> 0" by simp
  have "in_order (rows d)" using assms(2,3) by (auto simp: sources_ok_def)
  with p \<open>nat per \<noteq> 0\<close> have "sub_select (wanted s) (since s) per (rows d) \<noteq> []" by (simp add: sub_select_pending)
  with assms(2) have "concat (map snd (map (\<lambda>(s, rows). (s, sub_select (wanted s) (since s) per (rows d))) sources)) \<noteq> []"
    by force
  then have "union_select (map (\<lambda>(s, rows). (s, sub_select (wanted s) (since s) per (rows d))) sources) limit \<noteq> []"
    using \<open>0 < limit\<close> unfolding union_select_empty by simp
  then show False
    using assms(4) unfolding select_events_def Let_def limit_def per_def by simp
qed

section \<open>Histories of recording and polling\<close>

datatype event_op =
    RecDispatch string string string string string string "event_envelope option"
  | RecBudget string string string
  | RecCoordination string string string string string string string "event_envelope option"
  | RecInterspect string string string string string string string
  | RecInterspectOnce string string string string string string string
  | RecAgencyOnce agency_submission
  | RecReview review_submission
  | RecIntent string string string string string bool string
  | RecPhase string string string string
  | RecDiscovery string string string string string

text \<open>The run store and the discovery store insert the rows of the last two kinds.\<close>

fun event_step :: "event_env \<Rightarrow> event_op \<Rightarrow> event_db \<Rightarrow> event_db" where
  "event_step env (RecDispatch i r a b ty x e) d = AddDispatchEvent env i r a b ty x e d"
| "event_step env (RecBudget r ty x) d = (case AddBudgetEvent env r ty x d of Inl _ \<Rightarrow> d | Inr d' \<Rightarrow> d')"
| "event_step env (RecCoordination ty l ow p sc x r e) d = AddCoordinationEvent env ty l ow p sc x r e d"
| "event_step env (RecInterspect r a ty x cj s p) d = snd (AddInterspectEvent env r a ty x cj s p d)"
| "event_step env (RecInterspectOnce r a ty x cj k p) d =
     (case AddInterspectEventOnce env r a ty x cj k p d of Inl _ \<Rightarrow> d | Inr (_, d') \<Rightarrow> d')"
| "event_step env (RecAgencyOnce q) d = (case AddAgencyEventOnce env q d of Inl _ \<Rightarrow> d | Inr (_, d') \<Rightarrow> d')"
| "event_step env (RecReview q) d = snd (AddReviewEvent env q d)"
| "event_step env (RecIntent ty b k s r ok x) d = AddIntentEvent env ty b k s r ok x d"
| "event_step env (RecPhase r a b ty) d = d\<lparr>edPhase := ledger_add (\<lambda>i. \<lparr>phID = i, phRunID = r, phFrom = a, phTo = b,
     phType = ty, phReason = None, phEnvelope = None, phCreatedAt = eeNow env\<rparr>) (edPhase d)\<rparr>"
| "event_step env (RecDiscovery i ty a b x) d = d\<lparr>edDiscovery := ledger_add (\<lambda>n. \<lparr>dyID = n, dyDiscoveryID = i,
     dyType = ty, dyFrom = a, dyTo = b, dyPayload = x, dyCreatedAt = eeNow env\<rparr>) (edDiscovery d)\<rparr>"

definition stamped :: "('r \<Rightarrow> int) \<Rightarrow> ('r \<Rightarrow> int) \<Rightarrow> int \<Rightarrow> 'r ledger \<Rightarrow> bool" where
  "stamped ident created t l \<longleftrightarrow> ledger_ok ident l \<and> sorted (map created (lgRows l)) \<and> (\<forall>r \<in> set (lgRows l). created r \<le> t)"

definition events_ok :: "int \<Rightarrow> event_db \<Rightarrow> bool" where
  "events_ok t d \<longleftrightarrow> stamped phID phCreatedAt t (edPhase d) \<and> stamped dsID dsCreatedAt t (edDispatch d) \<and>
     stamped coID coCreatedAt t (edCoordination d) \<and> stamped rvID rvCreatedAt t (edReview d) \<and>
     stamped isID isCreatedAt t (edInterspect d) \<and> stamped dyID dyCreatedAt t (edDiscovery d)"

lemma stamped_add:
  assumes "stamped ident created t l" "\<And>i. ident (mk i) = i" "\<And>i. created (mk i) = t"
  shows "stamped ident created t (ledger_add mk l)"
  using assms ledger_ok_add [of ident l mk] by (auto simp: stamped_def ledger_add_def sorted_append)

lemma stamped_later: "stamped ident created t l \<Longrightarrow> t \<le> t' \<Longrightarrow> stamped ident created t' l"
  by (auto simp: stamped_def)

lemma replay_input_frame [simp]:
  "edPhase (captureInput t r k key p a s i d) = edPhase d" "edDispatch (captureInput t r k key p a s i d) = edDispatch d"
  "edCoordination (captureInput t r k key p a s i d) = edCoordination d" "edReview (captureInput t r k key p a s i d) = edReview d"
  "edInterspect (captureInput t r k key p a s i d) = edInterspect d" "edDiscovery (captureInput t r k key p a s i d) = edDiscovery d"
  by (simp_all add: captureInput_def)

lemmas recording_defs = AddDispatchEvent_def AddBudgetEvent_def AddCoordinationEvent_def AddInterspectEvent_def
  AddInterspectEventOnce_def AddAgencyEventOnce_def AddReviewEvent_def AddIntentEvent_def Let_def

lemma event_step_ok:
  assumes "events_ok t d" "t \<le> eeNow env"
  shows "events_ok (eeNow env) (event_step env op d)"
proof -
  have "events_ok (eeNow env) d"
    using assms by (auto simp: events_ok_def intro: stamped_later)
  then show ?thesis
    by (cases op) (auto simp: events_ok_def recording_defs stamped_add split: option.split)
qed

definition extends :: "'a list \<Rightarrow> 'a list \<Rightarrow> bool" where
  "extends xs ys \<longleftrightarrow> (\<exists>new. ys = xs @ new)"

lemma extends_refl [simp]: "extends xs xs"
  by (simp add: extends_def)

lemma extends_add [simp]: "extends (map f (lgRows l)) (map f (lgRows (ledger_add mk l)))"
  by (simp add: extends_def ledger_add_def)

lemma event_step_extends:
  "(s, rows) \<in> set all_sources \<Longrightarrow> extends (rows d) (rows (event_step env op d))"
  by (cases op) (auto simp: all_sources_def recording_defs split: option.split)

lemma run_sources_subset: "set run_sources \<subseteq> set all_sources"
  by (simp add: run_sources_def all_sources_def)

lemma events_sources_ok:
  assumes "events_ok t d" "set sources \<subseteq> set all_sources"
  shows "sources_ok sources d"
proof -
  have "sources_ok all_sources d"
    using assms(1)
    by (auto simp: sources_ok_def all_sources_def in_order_def events_ok_def stamped_def ledger_ok_def comp_def
        phase_view_def dispatch_view_def coordination_view_def review_view_def interspect_view_def discovery_view_def)
  with assms(2) show ?thesis unfolding sources_ok_def by blast
qed

lemma events_positive:
  "events_ok t d \<Longrightarrow> (s, rows) \<in> set all_sources \<Longrightarrow> e \<in> set (rows d) \<Longrightarrow> 0 < ueID e"
  by (auto simp: all_sources_def events_ok_def stamped_def ledger_ok_def
      phase_view_def dispatch_view_def coordination_view_def review_view_def interspect_view_def discovery_view_def)

datatype tail_op = Record event_env event_op | Poll

fun tail_step :: "string \<Rightarrow> bool \<Rightarrow> int \<Rightarrow> tail_op \<Rightarrow> event_db \<times> cursors \<times> uevent list \<Rightarrow> event_db \<times> cursors \<times> uevent list" where
  "tail_step runID allRuns lim (Record env op) (d, c, del) = (event_step env op d, c, del)"
| "tail_step runID allRuns lim Poll (d, c, del) = (case tail_batch runID allRuns lim d c of (es, c') \<Rightarrow> (d, c', del @ es))"

fun record_times :: "tail_op list \<Rightarrow> int list" where
  "record_times [] = []"
| "record_times (Record env op # ops) = eeNow env # record_times ops"
| "record_times (Poll # ops) = record_times ops"

definition no_events :: "string list \<Rightarrow> event_db" where
  "no_events runs = \<lparr>edRuns = runs, edPhase = empty_ledger, edDispatch = empty_ledger, edCoordination = empty_ledger,
     edReview = empty_ledger, edInterspect = empty_ledger, edDiscovery = empty_ledger, edAgency = empty_ledger,
     edIntent = empty_ledger, edInputs = empty_ledger\<rparr>"

definition tail_sources :: "string \<Rightarrow> bool \<Rightarrow> (string \<times> (event_db \<Rightarrow> uevent list)) list" where
  "tail_sources runID allRuns = (if allRuns \<or> runID = [] then all_sources else run_sources)"

definition tail_wanted :: "string \<Rightarrow> bool \<Rightarrow> string \<Rightarrow> uevent \<Rightarrow> bool" where
  "tail_wanted runID allRuns s e \<longleftrightarrow> allRuns \<or> runID = [] \<or> ueRunID e = runID"

lemma tail_batch_select:
  "tail_batch runID allRuns lim d c =
     (let es = select_events (tail_sources runID allRuns) (tail_wanted runID allRuns) c lim d in (es, fold advance_cursor es c))"
proof -
  have "of_run runID = tail_wanted runID allRuns" if "\<not> (allRuns \<or> runID = [])"
    using that by (auto simp: of_run_def tail_wanted_def fun_eq_iff)
  moreover have "(\<lambda>_ _. True) = tail_wanted runID allRuns" if "allRuns \<or> runID = []"
    using that by (auto simp: tail_wanted_def fun_eq_iff)
  ultimately show ?thesis
    by (simp add: tail_batch_def tail_sources_def ListEvents_def ListAllEvents_def Let_def)
qed

lemma tail_sources_ok:
  "distinct (map fst (tail_sources runID allRuns))" "set (tail_sources runID allRuns) \<subseteq> set all_sources"
  "(s, rows) \<in> set (tail_sources runID allRuns) \<Longrightarrow>
     s \<in> {''phase'', ''dispatch'', ''discovery'', ''review'', ''coordination'', ''interspect''}"
  using run_sources_subset
  by (auto simp: tail_sources_def run_sources_def all_sources_def split: if_splits)

definition tailed :: "string \<Rightarrow> bool \<Rightarrow> int \<Rightarrow> event_db \<times> cursors \<times> uevent list \<Rightarrow> bool" where
  "tailed runID allRuns t st \<longleftrightarrow>
     (case st of (d, c, del) \<Rightarrow> events_ok t d \<and>
        (\<forall>(s, rows) \<in> set (tail_sources runID allRuns).
           (c s = 0 \<or> c s \<in> ueID ` set (rows d)) \<and>
           filter (\<lambda>e. ueSource e = s) del @ pending (tail_wanted runID allRuns s) (c s) (rows d)
             = filter (tail_wanted runID allRuns s) (rows d)))"

lemma pending_extends:
  assumes "extends xs ys" "sorted_wrt (<) (map ueID ys)" "\<forall>e \<in> set ys. 0 < ueID e" "c = 0 \<or> c \<in> ueID ` set xs"
  shows "\<exists>new. ys = xs @ new \<and> pending w c ys = pending w c xs @ filter w new"
proof -
  obtain new where ys: "ys = xs @ new" using assms(1) by (auto simp: extends_def)
  have "c < ueID e" if "e \<in> set new" for e
    using assms(2-4) that unfolding ys by (auto simp: sorted_wrt_append)
  then have "filter (\<lambda>e. w e \<and> ueID e > c) new = filter w new" by (auto intro: filter_cong)
  then show ?thesis using ys by (auto simp: pending_def)
qed

lemma fold_max_in: "fold max xs (c::int) \<in> insert c (set xs)"
proof (induction xs arbitrary: c)
  case (Cons x xs)
  from Cons [of "max x c"] show ?case by (auto simp: max_def split: if_splits)
qed simp

lemma tailed_record:
  assumes "tailed runID allRuns t (d, c, del)" "t \<le> eeNow env"
  shows "tailed runID allRuns (eeNow env) (event_step env op d, c, del)"
proof -
  let ?d = "event_step env op d"
  have ok: "events_ok (eeNow env) ?d" using assms by (auto simp: tailed_def intro: event_step_ok)
  have "(c s = 0 \<or> c s \<in> ueID ` set (rows ?d)) \<and>
      filter (\<lambda>e. ueSource e = s) del @ pending (tail_wanted runID allRuns s) (c s) (rows ?d)
        = filter (tail_wanted runID allRuns s) (rows ?d)"
    if m: "(s, rows) \<in> set (tail_sources runID allRuns)" for s rows
  proof -
    have a: "(s, rows) \<in> set all_sources" using m tail_sources_ok(2) by blast
    have old: "c s = 0 \<or> c s \<in> ueID ` set (rows d)"
      "filter (\<lambda>e. ueSource e = s) del @ pending (tail_wanted runID allRuns s) (c s) (rows d)
        = filter (tail_wanted runID allRuns s) (rows d)"
      using assms(1) m by (auto simp: tailed_def)
    have "in_order (rows ?d)" using events_sources_ok [OF ok order_refl] a by (auto simp: sources_ok_def)
    moreover have "\<forall>e \<in> set (rows ?d). 0 < ueID e" using events_positive [OF ok a] by blast
    ultimately have "\<exists>new. rows ?d = rows d @ new \<and> pending (tail_wanted runID allRuns s) (c s) (rows ?d)
        = pending (tail_wanted runID allRuns s) (c s) (rows d) @ filter (tail_wanted runID allRuns s) new"
      by (intro pending_extends [OF event_step_extends [OF a] _ _ old(1)]) (simp_all add: in_order_def)
    then show ?thesis using old by auto
  qed
  with ok show ?thesis by (auto simp: tailed_def)
qed

lemma tailed_poll:
  assumes "tailed runID allRuns t (d, c, del)"
  shows "tailed runID allRuns t (tail_step runID allRuns lim Poll (d, c, del))"
proof -
  define es where "es = select_events (tail_sources runID allRuns) (tail_wanted runID allRuns) c lim d"
  have ok: "events_ok t d" using assms by (simp add: tailed_def)
  have so: "sources_ok (tail_sources runID allRuns) d" by (rule events_sources_ok [OF ok tail_sources_ok(2)])
  have "(fold advance_cursor es c s = 0 \<or> fold advance_cursor es c s \<in> ueID ` set (rows d)) \<and>
      filter (\<lambda>e. ueSource e = s) (del @ es) @ pending (tail_wanted runID allRuns s) (fold advance_cursor es c s) (rows d)
        = filter (tail_wanted runID allRuns s) (rows d)"
    if m: "(s, rows) \<in> set (tail_sources runID allRuns)" for s rows
  proof -
    have old: "c s = 0 \<or> c s \<in> ueID ` set (rows d)"
      "filter (\<lambda>e. ueSource e = s) del @ pending (tail_wanted runID allRuns s) (c s) (rows d)
        = filter (tail_wanted runID allRuns s) (rows d)"
      using assms m by (auto simp: tailed_def)
    note rest = batch_rest [OF tail_sources_ok(1) m so tail_sources_ok(3) [OF m] es_def]
    obtain k where "filter (\<lambda>e. ueSource e = s) es = take k (pending (tail_wanted runID allRuns s) (c s) (rows d))"
      using select_share [OF tail_sources_ok(1) m so] unfolding es_def by blast
    then have "set (filter (\<lambda>e. ueSource e = s) es) \<subseteq> set (rows d)"
      by (auto simp: pending_def dest!: arg_cong [where f = set] in_set_takeD)
    then have "fold advance_cursor es c s = 0 \<or> fold advance_cursor es c s \<in> ueID ` set (rows d)"
      using fold_max_in [of "map ueID (filter (\<lambda>e. ueSource e = s) es)" "c s"] old(1)
      unfolding fold_advance [OF tail_sources_ok(3) [OF m]] by auto
    then show ?thesis using old(2) rest by simp
  qed
  with ok show ?thesis by (auto simp: tailed_def tail_batch_select Let_def es_def)
qed

text \<open>
  C33. With a clock that does not step back, polling delivers every event exactly once and in
  order, whatever is recorded between the polls: of every source the events delivered, followed
  by those still to come, are all events recorded for the tail, and a poll that returns nothing
  means that nothing is to come.
\<close>

theorem events_exactly_once:
  assumes "sorted (record_times ops)"
    and "fold (tail_step runID allRuns lim) ops (no_events runs, \<lambda>_. 0, []) = (d, c, del)"
    and "(s, rows) \<in> set (tail_sources runID allRuns)"
  shows "filter (\<lambda>e. ueSource e = s) del @ pending (tail_wanted runID allRuns s) (c s) (rows d)
       = filter (tail_wanted runID allRuns s) (rows d) \<and>
    (fst (tail_batch runID allRuns lim d c) = [] \<longrightarrow>
       filter (\<lambda>e. ueSource e = s) del = filter (tail_wanted runID allRuns s) (rows d))"
proof -
  have "tailed runID allRuns (last (t # record_times ops)) (fold (tail_step runID allRuns lim) ops st)"
    if "tailed runID allRuns t st" "sorted (t # record_times ops)" for t st
    using that
  proof (induction ops arbitrary: t st)
    case (Cons op ops)
    obtain d c del where st: "st = (d, c, del)" by (cases st)
    show ?case
    proof (cases op)
      case (Record env q)
      with Cons.prems st have "tailed runID allRuns (eeNow env) (tail_step runID allRuns lim op st)"
        by (auto intro: tailed_record)
      from Cons.IH [OF this] Cons.prems Record show ?thesis by simp
    next
      case Poll
      with Cons.prems st have "tailed runID allRuns t (tail_step runID allRuns lim op st)"
        using tailed_poll by (simp del: tail_step.simps)
      from Cons.IH [OF this] Cons.prems Poll show ?thesis by simp
    qed
  qed simp
  moreover have "tailed runID allRuns t (no_events runs, \<lambda>_. 0, [])" for t
    by (auto simp: tailed_def events_ok_def stamped_def no_events_def tail_sources_def run_sources_def all_sources_def
        pending_def empty_ledger_def ledger_ok_def)
  moreover have "sorted (hd (record_times ops @ [0]) # record_times ops)"
    using assms(1) by (cases "record_times ops") auto
  ultimately have "\<exists>t. tailed runID allRuns t (d, c, del)" using assms(2) by metis
  then obtain t where t: "events_ok t d"
    "filter (\<lambda>e. ueSource e = s) del @ pending (tail_wanted runID allRuns s) (c s) (rows d)
       = filter (tail_wanted runID allRuns s) (rows d)"
    using assms(3) by (auto simp: tailed_def)
  have "pending (tail_wanted runID allRuns s) (c s) (rows d) = []" if "fst (tail_batch runID allRuns lim d c) = []"
    using batch_empty [OF tail_sources_ok(1) assms(3) events_sources_ok [OF t(1) tail_sources_ok(2)]] that
    by (simp add: tail_batch_select Let_def)
  with t(2) show ?thesis by auto
qed

section \<open>Concrete tails\<close>

definition demo_env :: "int \<Rightarrow> event_env" where
  "demo_env t = \<lparr>eeNow = t, eeNano = [], eeGetenv = (\<lambda>_. []), eeMarshal = (\<lambda>_. ''e''), eePayload = (\<lambda>_. []), eeRedact = None,
     eeSandbox = (\<lambda>_. None), eeIsObject = (\<lambda>_. True), eeJSONValid = (\<lambda>_. True)\<rparr>"

definition demo_phase :: "int \<Rightarrow> tail_op" where
  "demo_phase t = Record (demo_env t) (RecPhase ''r'' ''a'' ''b'' ''advance'')"

definition demo_row :: "int \<Rightarrow> int \<Rightarrow> phase_event_row" where
  "demo_row i t = \<lparr>phID = i, phRunID = ''r'', phFrom = ''a'', phTo = ''b'', phType = ''advance'', phReason = None,
     phEnvelope = None, phCreatedAt = t\<rparr>"

definition demo_db :: "phase_event_row list \<Rightarrow> event_db" where
  "demo_db rows = (no_events [''r''])\<lparr>edPhase := \<lparr>lgRows = rows, lgSeq = int (length rows)\<rparr>\<rparr>"

lemma demo_start: "no_events [''r''] = demo_db []"
  by (simp add: demo_db_def no_events_def empty_ledger_def)

lemma demo_record: "tail_step r a lim (demo_phase t) (demo_db rows, c, del) = (demo_db (rows @ [demo_row (int (length rows) + 1) t]), c, del)"
  by (simp add: demo_db_def demo_phase_def demo_env_def demo_row_def ledger_add_def)

text \<open>With phase events only, a poll is one sub-select.\<close>

lemma phase_only:
  assumes "r \<noteq> []"
  shows "tail_batch r False lim (demo_db rows) c =
     (let es = take (nat (perSourceLimit (if lim \<le> 0 then 1000 else lim) 5)) (sort_key (\<lambda>e. (ueCreatedAt e, ueID e))
        (filter (\<lambda>e. ueRunID e = r \<and> ueID e > c ''phase'') (map phase_view rows))) in (es, fold advance_cursor es c))"
proof -
  define limit where "limit = (if lim \<le> 0 then 1000 else lim)"
  define xs where "xs = sub_select (of_run r ''phase'') (c ''phase'') (perSourceLimit limit 5) (map phase_view rows)"
  have src: "\<forall>e \<in> set xs. ueSource e = ''phase''" unfolding xs_def by (auto simp: phase_view_def dest!: sub_select_in)
  have "sorted (map (\<lambda>e. (ueCreatedAt e, ueID e)) xs)"
    by (simp add: xs_def sub_select_def take_map [symmetric] sorted_wrt_take)
  then have "sorted (map (\<lambda>e. (ueCreatedAt e, ueSource e, ueID e)) xs)"
    using src by (induction xs) (auto simp: less_eq_prod_def)
  then have s: "sort_key (\<lambda>e. (ueCreatedAt e, ueSource e, ueID e)) xs = xs" by (rule sort_key_sorted)
  have "0 < limit" by (simp add: limit_def)
  then have "perSourceLimit limit 5 \<le> limit" by (simp add: perSourceLimit_def)
  then have l: "length xs \<le> nat limit" by (simp add: xs_def sub_select_def)
  have "select_events run_sources (of_run r) c lim (demo_db rows) = union_select [(''phase'', xs)] limit"
    by (simp add: select_events_def run_sources_def Let_def demo_db_def no_events_def empty_ledger_def sub_select_def
        union_select_def xs_def limit_def)
  also have "\<dots> = xs" using s l by (simp add: union_select_def)
  finally show ?thesis
    using assms by (simp add: tail_batch_def ListEvents_def Let_def xs_def sub_select_def of_run_def limit_def)
qed

lemmas demo_tail_defs = phase_only Let_def perSourceLimit_def phase_view_def demo_row_def less_eq_prod_def advance_cursor_def

text \<open>
  A batch shorter than the limit does not mean that the stream is drained: one source may offer
  a fifth of the limit only.
\<close>

lemma short_batch_not_drained:
  "let d = demo_db [demo_row 1 1, demo_row 2 2, demo_row 3 3]; c = snd (tail_batch ''r'' False 10 d (\<lambda>_. 0))
   in map ueID (fst (tail_batch ''r'' False 10 d (\<lambda>_. 0))) = [1, 2] \<and> map ueID (fst (tail_batch ''r'' False 10 d c)) = [3]"
  by (simp add: demo_tail_defs)

text \<open>When the clock steps back between two inserts, a poll can move its cursor over an event it did not return.\<close>

lemma clock_step_loses_event:
  "fold (tail_step ''r'' False 10) [demo_phase 5, demo_phase 6, demo_phase 1, Poll, Poll] (no_events [''r''], \<lambda>_. 0, [])
   = (demo_db [demo_row 1 5, demo_row 2 6, demo_row 3 1], (\<lambda>_. 0)(''phase'' := 3), map phase_view [demo_row 3 1, demo_row 1 5])"
  by (simp add: demo_start demo_record demo_tail_defs)

theorem events_exactly_once_witness:
  "fold (tail_step ''r'' False 10) [demo_phase 1, Poll, demo_phase 1, demo_phase 3, Poll, Poll] (no_events [''r''], \<lambda>_. 0, [])
     = (demo_db [demo_row 1 1, demo_row 2 1, demo_row 3 3], (\<lambda>_. 0)(''phase'' := 3),
        map phase_view [demo_row 1 1, demo_row 2 1, demo_row 3 3]) \<and>
   filter (\<lambda>e. ueSource e = ''phase'') (map phase_view [demo_row 1 1, demo_row 2 1, demo_row 3 3])
     = filter (tail_wanted ''r'' False ''phase'') (map phase_view [demo_row 1 1, demo_row 2 1, demo_row 3 3])"
proof -
  let ?c = "(\<lambda>_. 0)(''phase'' := 3)" and ?rows = "[demo_row 1 1, demo_row 2 1, demo_row 3 3]"
  have r: "fold (tail_step ''r'' False 10) [demo_phase 1, Poll, demo_phase 1, demo_phase 3, Poll, Poll] (no_events [''r''], \<lambda>_. 0, [])
     = (demo_db ?rows, ?c, map phase_view ?rows)"
    by (simp add: demo_start demo_record demo_tail_defs)
  have "sorted (record_times [demo_phase 1, Poll, demo_phase 1, demo_phase 3, Poll, Poll])"
    by (simp add: demo_phase_def demo_env_def)
  moreover have "(''phase'', \<lambda>d. map phase_view (lgRows (edPhase d))) \<in> set (tail_sources ''r'' False)"
    by (simp add: tail_sources_def run_sources_def)
  moreover have "fst (tail_batch ''r'' False 10 (demo_db ?rows) ?c) = []" by (simp add: demo_tail_defs)
  ultimately have "filter (\<lambda>e. ueSource e = ''phase'') (map phase_view ?rows)
      = filter (tail_wanted ''r'' False ''phase'') (map phase_view (lgRows (edPhase (demo_db ?rows))))"
    using events_exactly_once [OF _ r, of "''phase''" "\<lambda>d. map phase_view (lgRows (edPhase d))"] by blast
  then show ?thesis using r by (simp add: demo_db_def)
qed

section \<open>Once per key\<close>

lemma extends_first: "extends xs ys \<Longrightarrow> sql_first P xs = Some r \<Longrightarrow> sql_first P ys = Some r"
  by (auto simp: extends_def sql_first_append)

lemma interspect_extends: "extends (lgRows (edInterspect d)) (lgRows (edInterspect (event_step env op d)))"
  by (cases op) (auto simp: recording_defs extends_def ledger_add_def split: option.split)

lemma agency_extends: "extends (lgRows (edAgency d)) (lgRows (edAgency (event_step env op d)))"
  by (cases op) (auto simp: recording_defs extends_def ledger_add_def captureInput_def split: option.split)

lemma extends_trans: "extends xs ys \<Longrightarrow> extends ys zs \<Longrightarrow> extends xs zs"
  by (auto simp: extends_def)

lemma history_extends:
  "extends (lgRows (edInterspect d)) (lgRows (edInterspect (fold (\<lambda>(env, op). event_step env op) ops d)))"
  "extends (lgRows (edAgency d)) (lgRows (edAgency (fold (\<lambda>(env, op). event_step env op) ops d)))"
  by (induction ops arbitrary: d) (auto intro: extends_trans [OF interspect_extends] extends_trans [OF agency_extends])

text \<open>A repeated call returns the recorded event and writes nothing, whatever was recorded in between.\<close>

lemma interspect_once:
  assumes "AddInterspectEventOnce env r a ty x cj k p d = Inr (i, d1)"
    and "fold (\<lambda>(env, op). event_step env op) ops d1 = d2"
  shows "AddInterspectEventOnce env' r a ty x' cj' k p' d2 = Inr (i, d2)"
proof -
  have "k \<noteq> [] \<and> (\<exists>e. sql_first (same_interspect r a ty k) (lgRows (edInterspect d1)) = Some e \<and> isID e = i)"
    using assms(1)
    by (auto simp: AddInterspectEventOnce_def ledger_add_def first_snoc same_interspect_def coalesced_def nullif_def
        split: if_splits option.splits)
  then obtain e where "k \<noteq> []" "sql_first (same_interspect r a ty k) (lgRows (edInterspect d2)) = Some e" "isID e = i"
    using extends_first [OF history_extends(1)] assms(2) by metis
  then show ?thesis by (simp add: AddInterspectEventOnce_def)
qed

lemma agency_once:
  assumes "AddAgencyEventOnce env q d = Inr (i, d1)"
    and "fold (\<lambda>(env, op). event_step env op) ops d1 = d2"
    and "asAgencyName q' = asAgencyName q" "asIdempotencyKey q' = asIdempotencyKey q"
    and "AddAgencyEventOnce env' q' d2 = Inr (j, d3)"
  shows "j = i \<and> d3 = d2"
proof -
  let ?P = "\<lambda>r. agAgencyName r = asAgencyName q \<and> agIdempotencyKey r = asIdempotencyKey q"
  have "\<exists>e. sql_first ?P (lgRows (edAgency d1)) = Some e \<and> agID e = i"
    using assms(1)
    by (auto simp: AddAgencyEventOnce_def Let_def ledger_add_def first_snoc split: if_splits option.splits)
  then obtain e where "sql_first ?P (lgRows (edAgency d2)) = Some e" "agID e = i"
    using extends_first [OF history_extends(2)] assms(2) by metis
  then show ?thesis using assms(3-5) by (auto simp: AddAgencyEventOnce_def Let_def split: if_splits)
qed

section \<open>Envelopes and cursors\<close>

text \<open>An envelope is read back as it was written; a zero envelope is not stored.\<close>

lemma envelope_roundtrip:
  assumes "\<And>e. unmarshal (marshal e) = Some e" "\<And>e. marshal e \<noteq> []"
  shows "(case MarshalEnvelopeJSON marshal e of None \<Rightarrow> IsZero e | Some raw \<Rightarrow> ParseEnvelopeJSON unmarshal raw = Inr e)"
  using assms by (auto simp: MarshalEnvelopeJSON_def ParseEnvelopeJSON_def IsZero_def split: option.splits if_splits)

text \<open>A version 1 text keeps all its fields: it becomes the payload and parses to the old envelope.\<close>

lemma legacy_envelope_kept:
  assumes "probe raw = Some v" "v = None \<or> v = Some 1" "ParseEnvelopeV2JSON probe unmarshal2 unmarshal raw = Inr (Some e)"
  shows "e2Version e = 1 \<and> e2PayloadType e = ''legacy'' \<and>
    (\<exists>v1. ParseEnvelopeJSON unmarshal (e2Payload e) = Inr (Some v1) \<and> enTraceID v1 = e2TraceID e \<and> enSpanID v1 = e2SpanID e)"
  using assms by (auto simp: ParseEnvelopeV2JSON_def split: if_splits option.splits sum.splits)

text \<open>A saved cursor is restored until it expires; a durable one stays durable.\<close>

lemma cursor_restored:
  assumes "StateStore.Set patterns now ''cursor'' (cursor_scope consumer scope) (cursor_payload c)
             (cursorTTL (cursor_scope consumer scope) rows) rows = Inr rows'"
    and "unmarshal (cursor_text c) = Some c"
    and "later < now + 86400 \<or> IsDurable ''cursor'' (cursor_scope consumer scope) rows"
  shows "loadCursor unmarshal later consumer scope (saveCursor patterns now consumer scope c rows) = c"
proof -
  have "saveCursor patterns now consumer scope c rows = rows'" using assms(1) by (simp add: saveCursor_def Let_def)
  moreover have "StateStore.Get later ''cursor'' (cursor_scope consumer scope) rows' = Inr (cursor_text c)"
    using Get_Set(1) [OF assms(1), of later] assms(3) by (auto simp: cursorTTL_def day_def cursor_payload_def)
  ultimately show ?thesis using assms(2) by (simp add: loadCursor_def)
qed

text \<open>
  Registering a consumer as durable does not cover its tail of one run: that cursor has a key of
  its own, lives a day and then starts from the beginning.
\<close>

lemma scoped_cursor_expires:
  assumes "register_cursor patterns t consumer True [] = Inr rows" "scope \<noteq> []" "now + 86400 \<le> later"
  shows "loadCursor unmarshal later consumer scope (saveCursor patterns now consumer scope c rows) = (\<lambda>_. 0)"
proof -
  let ?k = "consumer @ '':'' @ scope"
  have rows: "\<exists>r. rows = [r] \<and> \<not> state_at ''cursor'' ?k r"
    using assms(1) by (auto simp: register_cursor_def StateStore.Set_def Let_def state_at_def split: option.splits)
  then have ttl: "cursorTTL ?k rows = day" by (auto simp: cursorTTL_def IsDurable_def)
  have "StateStore.Get later ''cursor'' ?k (saveCursor patterns now consumer scope c rows) = Inl ErrStateNotFound"
  proof (cases "StateStore.Set patterns now ''cursor'' ?k (cursor_payload c) day rows")
    case (Inl e)
    then have "saveCursor patterns now consumer scope c rows = rows"
      using assms(2) ttl by (simp add: saveCursor_def cursor_scope_def Let_def)
    with rows show ?thesis by (auto simp: StateStore.Get_def)
  next
    case (Inr rows')
    from Get_Set(1) [OF Inr, of later] Inr assms(2,3) show ?thesis using ttl by (simp add: saveCursor_def cursor_scope_def Let_def day_def)
  qed
  then show ?thesis using assms(2) by (simp add: loadCursor_def cursor_scope_def)
qed

end
