(* ===== verification/Replay.thy ===== *)
theory Replay
  imports EventStream Decimal
begin

text \<open>
  Replay of a run, \<^verbatim>\<open>internal/replay\<close>: the recorded inputs and the timeline of decisions
  that links them to the events.
\<close>

record input_submission =
  iiRunID :: string
  iiKind :: string
  iiKey :: string
  iiPayload :: string
  iiArtifactRef :: "string option"
  iiEventSource :: string
  iiEventID :: "int option"

datatype replay_error = ErrNilInput | ErrRunRequired | ErrKindRequired | ErrReplayRun

text \<open>\<^verbatim>\<open>NULLIF(?, '')\<close> of a missing reference is no reference too.\<close>

definition AddInput :: "int \<Rightarrow> input_submission option \<Rightarrow> event_db \<Rightarrow> replay_error + (int \<times> event_db)" where
  "AddInput now input d =
     (case input of None \<Rightarrow> Inl ErrNilInput
      | Some q \<Rightarrow>
          if iiRunID q = [] then Inl ErrRunRequired
          else if iiKind q = [] then Inl ErrKindRequired
          else if iiRunID q \<notin> set (edRuns d) then Inl ErrReplayRun
          else
            Inr (lgSeq (edInputs d) + 1,
              d\<lparr>edInputs := ledger_add (\<lambda>i.
                \<lparr>riID = i, riRunID = iiRunID q, riKind = iiKind q, riKey = nullif (iiKey q) [],
                 riPayload = (if iiPayload q = [] then ''{}'' else iiPayload q),
                 riArtifactRef = Option.bind (iiArtifactRef q) (\<lambda>a. nullif a []),
                 riEventSource = nullif (iiEventSource q) [], riEventID = iiEventID q, riCreatedAt = now\<rparr>) (edInputs d)\<rparr>))"

definition ListInputs :: "string \<Rightarrow> int \<Rightarrow> event_db \<Rightarrow> replay_error + input_row list" where
  "ListInputs runID lim d =
     (if runID = [] then Inl ErrRunRequired
      else Inr (limited lim (sort_key (\<lambda>i. (riCreatedAt i, riID i)) (filter (\<lambda>i. riRunID i = runID) (lgRows (edInputs d))))))"

record replay_decision =
  deEventID :: int
  deSource :: string
  deType :: string
  deFromState :: string
  deToState :: string
  deReason :: string
  deTimestamp :: int
  deInputIDs :: "int list"
  deArtifactRefs :: "string list"

definition event_key :: "string \<Rightarrow> int \<Rightarrow> string" where
  "event_key source i = source @ '':'' @ dec i"

definition index_input :: "input_row \<Rightarrow> (string \<rightharpoonup> input_row list) \<Rightarrow> (string \<rightharpoonup> input_row list)" where
  "index_input inp m =
     (case (riEventSource inp, riEventID inp) of
        (Some source, Some i) \<Rightarrow>
          if source = [] then m
          else (let k = event_key source i in m(k \<mapsto> (case m k of None \<Rightarrow> [inp] | Some is \<Rightarrow> is @ [inp])))
      | _ \<Rightarrow> m)"

definition timeline_decision ::
    "(string \<Rightarrow> event_envelope option) \<Rightarrow> (string \<rightharpoonup> input_row list) \<Rightarrow> uevent \<Rightarrow> replay_decision" where
  "timeline_decision unmarshal inputsByEvent e =
     \<lparr>deEventID = ueID e, deSource = ueSource e, deType = ueType e, deFromState = ueFrom e, deToState = ueTo e,
      deReason = ueReason e, deTimestamp = ueCreatedAt e,
      deInputIDs = (case inputsByEvent (event_key (ueSource e) (ueID e)) of None \<Rightarrow> [] | Some is \<Rightarrow> map riID is),
      deArtifactRefs = (case scan_envelope unmarshal e of None \<Rightarrow> [] | Some v \<Rightarrow> enInputRefs v @ enOutputRefs v)\<rparr>"

definition BuildTimeline :: "(string \<Rightarrow> event_envelope option) \<Rightarrow> uevent list \<Rightarrow> input_row list \<Rightarrow> replay_decision list" where
  "BuildTimeline unmarshal events inputs =
     (let inputsByEvent = fold index_input inputs Map.empty
      in map (timeline_decision unmarshal inputsByEvent) events)"

section \<open>The timeline\<close>

lemma after_colon: "CHR '':'' \<notin> set a \<Longrightarrow> CHR '':'' \<notin> set b \<Longrightarrow> xs @ CHR '':'' # a = ys @ CHR '':'' # b \<Longrightarrow> xs = ys \<and> a = b"
proof (induction xs arbitrary: ys)
  case Nil
  then show ?case by (cases ys) auto
next
  case (Cons x xs)
  then show ?case by (cases ys) auto
qed

lemma event_key_inj: "event_key s i = event_key t j \<longleftrightarrow> s = t \<and> i = j"
  using after_colon [OF dec_no_colon dec_no_colon, of s i t j] by (auto simp: event_key_def dest: dec_inj)

definition input_of :: "string \<Rightarrow> int \<Rightarrow> input_row \<Rightarrow> bool" where
  "input_of s i inp \<longleftrightarrow> s \<noteq> [] \<and> riEventSource inp = Some s \<and> riEventID inp = Some i"

lemma index_input_key:
  "index_input inp m (event_key s i) =
     (if input_of s i inp then Some (case m (event_key s i) of None \<Rightarrow> [inp] | Some is \<Rightarrow> is @ [inp]) else m (event_key s i))"
  by (auto simp: index_input_def input_of_def Let_def event_key_inj split: option.split)

lemma index_inputs:
  "(case fold index_input inputs m (event_key s i) of None \<Rightarrow> [] | Some is \<Rightarrow> is)
     = (case m (event_key s i) of None \<Rightarrow> [] | Some is \<Rightarrow> is) @ filter (input_of s i) inputs"
  by (induction inputs arbitrary: m) (auto simp: index_input_key split: option.split)

text \<open>
  The timeline has one decision per event, in the order of the events, with exactly the inputs
  recorded for that event.
\<close>

lemma timeline_links:
  "length (BuildTimeline unmarshal events inputs) = length events"
  "k < length events \<Longrightarrow>
     (let e = events ! k; t = BuildTimeline unmarshal events inputs ! k
      in (deSource t, deEventID t, deType t, deFromState t, deToState t) = (ueSource e, ueID e, ueType e, ueFrom e, ueTo e) \<and>
         deInputIDs t = map riID (filter (input_of (ueSource e) (ueID e)) inputs))"
proof -
  have "(case fold index_input inputs Map.empty (event_key s i) of None \<Rightarrow> [] | Some is \<Rightarrow> map riID is)
      = map riID (filter (input_of s i) inputs)" for s i
    using index_inputs [of inputs Map.empty s i] by (auto split: option.splits dest!: arg_cong [where f = "map riID"])
  then show "length (BuildTimeline unmarshal events inputs) = length events"
    "k < length events \<Longrightarrow>
     (let e = events ! k; t = BuildTimeline unmarshal events inputs ! k
      in (deSource t, deEventID t, deType t, deFromState t, deToState t) = (ueSource e, ueID e, ueType e, ueFrom e, ueTo e) \<and>
         deInputIDs t = map riID (filter (input_of (ueSource e) (ueID e)) inputs))"
    by (simp_all add: BuildTimeline_def timeline_decision_def Let_def)
qed

text \<open>A dispatch event of a known run is linked to the input captured with it.\<close>

lemma dispatch_event_linked:
  assumes "runID \<in> set (edRuns d)" "runID \<noteq> []" "AddDispatchEvent env i runID a b ty x e d = d'"
  shows "\<exists>ev inp. lgRows (edDispatch d') = lgRows (edDispatch d) @ [ev] \<and> lgRows (edInputs d') = lgRows (edInputs d) @ [inp] \<and>
    input_of ''dispatch'' (dsID ev) inp \<and> riRunID inp = runID"
  using assms(1,2) unfolding assms(3) [symmetric]
  by (auto simp: AddDispatchEvent_def captureInput_def ledger_add_def input_of_def nullif_def Let_def)

end
