(* ===== verification/EventCommands.thy ===== *)
theory EventCommands
  imports EventStream
begin

text \<open>
  The recording commands of \<^verbatim>\<open>cmd/ic/events.go\<close>: \<^verbatim>\<open>ic events record\<close> and \<^verbatim>\<open>ic events emit\<close> with
  their exit codes. What the flags hold, the working directory and the decoded payloads are
  arguments; no decoded payload is a text that does not fit the command's struct.
\<close>

record record_flags =
  rfSource :: string
  rfType :: string
  rfPayload :: string
  rfRun :: string
  rfSession :: string
  rfProject :: string
  rfKey :: string

record agency_payload =
  apAgencyName :: string
  apCycleID :: string
  apStage :: string
  apContext :: "string option"

record interspect_payload =
  npAgentName :: string
  npOverrideReason :: string
  npContext :: string

text \<open>The agents of a review, as a map and as the text they are marshalled to.\<close>

record review_payload =
  vpFindingID :: string
  vpAgents :: "(string \<times> string) list"
  vpAgentsJSON :: string
  vpResolution :: string
  vpDismissalReason :: string
  vpChosenSeverity :: string
  vpImpact :: string

record coordination_payload =
  cpLockID :: string
  cpOwner :: string
  cpPattern :: string
  cpScope :: string
  cpReason :: string

record intent_payload =
  tpIntentType :: string
  tpBeadID :: string
  tpIdempotencyKey :: string
  tpSuccess :: bool
  tpErrorDetail :: string

record event_decoders =
  dcAgency :: "string \<Rightarrow> agency_payload option"
  dcInterspect :: "string \<Rightarrow> interspect_payload option"
  dcReview :: "string \<Rightarrow> review_payload option"
  dcCoordination :: "string \<Rightarrow> coordination_payload option"
  dcIntent :: "string \<Rightarrow> intent_payload option"

definition recordAgency ::
    "event_env \<Rightarrow> event_decoders \<Rightarrow> string \<Rightarrow> string \<Rightarrow> string \<Rightarrow> string \<Rightarrow> string \<Rightarrow> event_db \<Rightarrow> nat \<times> event_db" where
  "recordAgency env decode eventType payloadJSON runID idempotencyKey projectDir d =
     (case (if payloadJSON = [] then Some \<lparr>apAgencyName = [], apCycleID = [], apStage = [], apContext = None\<rparr>
            else dcAgency decode payloadJSON) of
        None \<Rightarrow> (3, d)
      | Some p \<Rightarrow>
          if apAgencyName p = [] \<or> apCycleID p = [] \<or> apStage p = [] then (3, d)
          else if idempotencyKey = [] then (3, d)
          else
            (case AddAgencyEventOnce env \<lparr>asRunID = runID, asAgencyName = apAgencyName p, asEventType = eventType,
                    asCycleID = apCycleID p, asStage = apStage p,
                    asContextJSON = (case apContext p of None \<Rightarrow> ''{}'' | Some c \<Rightarrow> c),
                    asIdempotencyKey = idempotencyKey, asProjectDir = projectDir\<rparr> d of
               Inl _ \<Rightarrow> (2, d)
             | Inr (_, d') \<Rightarrow> (0, d')))"

definition recordInterspect ::
    "event_env \<Rightarrow> event_decoders \<Rightarrow> string \<Rightarrow> string \<Rightarrow> string \<Rightarrow> string \<Rightarrow> string \<Rightarrow> string \<Rightarrow> event_db \<Rightarrow> nat \<times> event_db" where
  "recordInterspect env decode eventType payloadJSON runID sessionID idempotencyKey projectDir d =
     (case (if payloadJSON = [] then Some \<lparr>npAgentName = [], npOverrideReason = [], npContext = []\<rparr>
            else dcInterspect decode payloadJSON) of
        None \<Rightarrow> (3, d)
      | Some p \<Rightarrow>
          if npAgentName p = [] then (3, d)
          else if idempotencyKey \<noteq> [] then
            (case AddInterspectEventOnce env runID (npAgentName p) eventType (npOverrideReason p) (npContext p)
                    idempotencyKey projectDir d of
               Inl _ \<Rightarrow> (2, d)
             | Inr (_, d') \<Rightarrow> (0, d'))
          else (0, snd (AddInterspectEvent env runID (npAgentName p) eventType (npOverrideReason p) (npContext p)
                          sessionID projectDir d)))"

definition recordReview ::
    "event_env \<Rightarrow> event_decoders \<Rightarrow> string \<Rightarrow> string \<Rightarrow> string \<Rightarrow> string \<Rightarrow> string \<Rightarrow> event_db \<Rightarrow> nat \<times> event_db" where
  "recordReview env decode eventType payloadJSON runID sessionID projectDir d =
     (if eventType \<noteq> ''disagreement_resolved'' \<and> eventType \<noteq> ''execution_defect'' then (3, d)
      else if payloadJSON = [] then (3, d)
      else case dcReview decode payloadJSON of
        None \<Rightarrow> (3, d)
      | Some p \<Rightarrow>
          if vpFindingID p = [] \<or> vpResolution p = [] \<or> vpChosenSeverity p = [] \<or> vpImpact p = [] then (3, d)
          else if vpAgents p = [] then (3, d)
          else (0, snd (AddReviewEvent env \<lparr>rsRunID = runID, rsFindingID = vpFindingID p, rsAgentsJSON = vpAgentsJSON p,
                 rsResolution = vpResolution p, rsDismissalReason = vpDismissalReason p,
                 rsChosenSeverity = vpChosenSeverity p, rsImpact = vpImpact p, rsEventType = eventType,
                 rsSessionID = sessionID, rsProjectDir = projectDir\<rparr> d)))"

definition recordCoordination ::
    "event_env \<Rightarrow> event_decoders \<Rightarrow> string \<Rightarrow> string \<Rightarrow> string \<Rightarrow> event_db \<Rightarrow> nat \<times> event_db" where
  "recordCoordination env decode eventType payloadJSON runID d =
     (if payloadJSON = [] then (3, d)
      else case dcCoordination decode payloadJSON of
        None \<Rightarrow> (3, d)
      | Some p \<Rightarrow>
          if cpLockID p = [] \<or> cpOwner p = [] \<or> cpPattern p = [] \<or> cpScope p = [] then (3, d)
          else (0, AddCoordinationEvent env eventType (cpLockID p) (cpOwner p) (cpPattern p) (cpScope p) (cpReason p)
                     runID None d))"

definition recordIntent ::
    "event_env \<Rightarrow> event_decoders \<Rightarrow> string \<Rightarrow> string \<Rightarrow> string \<Rightarrow> string \<Rightarrow> event_db \<Rightarrow> nat \<times> event_db" where
  "recordIntent env decode eventType payloadJSON sessionID runID d =
     (if payloadJSON = [] then (3, d)
      else case dcIntent decode payloadJSON of
        None \<Rightarrow> (3, d)
      | Some p \<Rightarrow>
          if tpIntentType p = [] \<or> tpBeadID p = [] \<or> tpIdempotencyKey p = [] then (3, d)
          else (0, AddIntentEvent env (tpIntentType p) (tpBeadID p) (tpIdempotencyKey p) sessionID runID (tpSuccess p)
                     (tpErrorDetail p) d))"

text \<open>The session and the project default to the environment and the working directory.\<close>

definition cmdEventsRecord :: "event_env \<Rightarrow> string \<Rightarrow> event_decoders \<Rightarrow> record_flags \<Rightarrow> event_db \<Rightarrow> nat \<times> event_db" where
  "cmdEventsRecord env cwd decode f d =
     (if rfSource f = [] then (3, d)
      else if rfType f = [] then (3, d)
      else if rfKey f \<noteq> [] \<and> rfSource f \<noteq> ''interspect'' \<and> rfSource f \<noteq> ''agency'' then (3, d)
      else
        let sessionID = (if rfSession f = [] then eeGetenv env ''CLAUDE_SESSION_ID'' else rfSession f);
            projectDir = (if rfProject f = [] then cwd else rfProject f)
        in if rfPayload f \<noteq> [] \<and> \<not> eeJSONValid env (rfPayload f) then (3, d)
           else if rfSource f = ''agency'' then
             recordAgency env decode (rfType f) (rfPayload f) (rfRun f) (rfKey f) projectDir d
           else if rfSource f = ''interspect'' then
             recordInterspect env decode (rfType f) (rfPayload f) (rfRun f) sessionID (rfKey f) projectDir d
           else if rfSource f = ''review'' then
             recordReview env decode (rfType f) (rfPayload f) (rfRun f) sessionID projectDir d
           else if rfSource f = ''coordination'' then
             recordCoordination env decode (rfType f) (rfPayload f) (rfRun f) d
           else if rfSource f = ''intent'' then
             recordIntent env decode (rfType f) (rfPayload f) sessionID (rfRun f) d
           else (3, d))"

definition cmdEventsEmit :: "event_env \<Rightarrow> string \<Rightarrow> event_decoders \<Rightarrow> record_flags \<Rightarrow> event_db \<Rightarrow> nat \<times> event_db" where
  "cmdEventsEmit env cwd decode f d =
     (if rfSource f = [] then (3, d)
      else if rfType f = [] then (3, d)
      else if rfSource f \<noteq> ''review'' then (3, d)
      else if rfType f \<noteq> ''disagreement_resolved'' \<and> rfType f \<noteq> ''execution_defect'' then (3, d)
      else if rfPayload f = [] then (3, d)
      else if \<not> eeJSONValid env (rfPayload f) then (3, d)
      else
        let sessionID = (if rfSession f = [] then eeGetenv env ''CLAUDE_SESSION_ID'' else rfSession f);
            projectDir = (if rfProject f = [] then cwd else rfProject f)
        in case dcReview decode (rfPayload f) of
             None \<Rightarrow> (3, d)
           | Some p \<Rightarrow>
               if vpFindingID p = [] \<or> vpResolution p = [] \<or> vpChosenSeverity p = [] \<or> vpImpact p = [] then (3, d)
               else if vpAgents p = [] then (3, d)
               else (0, snd (AddReviewEvent env \<lparr>rsRunID = rfRun f, rsFindingID = vpFindingID p,
                      rsAgentsJSON = vpAgentsJSON p, rsResolution = vpResolution p,
                      rsDismissalReason = vpDismissalReason p, rsChosenSeverity = vpChosenSeverity p,
                      rsImpact = vpImpact p, rsEventType = rfType f, rsSessionID = sessionID,
                      rsProjectDir = projectDir\<rparr> d)))"

lemmas command_defs = cmdEventsRecord_def cmdEventsEmit_def recordAgency_def recordInterspect_def recordReview_def
  recordCoordination_def recordIntent_def Let_def

text \<open>A command that fails has recorded nothing; \<^verbatim>\<open>emit\<close> is \<^verbatim>\<open>record\<close> of a review event without a key.\<close>

lemma failed_command_records_nothing:
  "cmdEventsRecord env cwd decode f d = (code, d') \<Longrightarrow> code \<noteq> 0 \<Longrightarrow> code \<in> {2, 3} \<and> d' = d"
  "cmdEventsEmit env cwd decode f d = (code, d') \<Longrightarrow> code \<noteq> 0 \<Longrightarrow> code = 3 \<and> d' = d"
  by (auto simp: command_defs split: if_splits option.splits sum.splits prod.splits)

lemma emit_is_record:
  "rfSource f = ''review'' \<Longrightarrow> rfKey f = [] \<Longrightarrow> cmdEventsEmit env cwd decode f d = cmdEventsRecord env cwd decode f d"
  by (auto simp: command_defs split: option.split)

text \<open>A review event is stored with the type the command accepted, but the stream shows every one as a resolved disagreement.\<close>

lemma defect_shown_as_disagreement:
  assumes "recordReview env decode ''execution_defect'' pj r s p d = (0, d')"
  shows "\<exists>e. lgRows (edReview d') = lgRows (edReview d) @ [e] \<and> rvType e = ''execution_defect'' \<and>
    ueType (review_view e) = ''disagreement_resolved''"
  using assms
  by (auto simp: recordReview_def AddReviewEvent_def Let_def ledger_add_def captureInput_def review_view_def
      split: if_splits option.splits)

end
