(* ===== verification/Receipts.thy ===== *)
theory Receipts
  imports TokenCorrect GoLib "HOL-Library.Product_Lexorder"
begin

text \<open>
  Signed action receipts, \<^verbatim>\<open>internal/receipt\<close>: the canonical bytes, signing and verification over
  the key stores, the insert-only table, and the commands of \<^verbatim>\<open>cmd/ic/receipt.go\<close>. The keyed hash,
  SHA-256, the JSON decoder of tool calls, identifiers and formatted times are arguments. A string
  is its bytes; key files are a map from paths to contents.
\<close>

section \<open>Receipts and their canonical bytes\<close>

record tool_call =
  tcName :: string
  tcArgsHash :: string
  tcResultHash :: string
  tcDurationMs :: int

record action_receipt =
  rcID :: string
  rcTimestamp :: string
  rcAgentID :: string
  rcModel :: string
  rcToolCalls :: "tool_call list"
  rcParentRunID :: "string option"
  rcContentHash :: string
  rcSchemaVersion :: int
  rcSignature :: string
  rcSignatureAlg :: string
  rcKeyID :: string
  rcSignedAt :: string

definition SchemaVersion :: int where "SchemaVersion = 1"
definition SignatureAlg :: string where "SignatureAlg = ''hmac-sha256-v1''"

definition hexDigit :: "nat \<Rightarrow> char" where
  "hexDigit n = ''0123456789abcdef'' ! n"

text \<open>
  The loop decodes runes; the bytes of a rune above 127, valid or not, are written as they are, so
  the escapes are decided byte by byte.
\<close>

definition escape_char :: "char \<Rightarrow> string" where
  "escape_char c =
     (let n = of_char c :: nat
      in if n = 34 then [char_of (92 :: nat), char_of (34 :: nat)]
         else if n = 92 then [char_of (92 :: nat), char_of (92 :: nat)]
         else if n = 10 then [char_of (92 :: nat), CHR ''n'']
         else if n = 13 then [char_of (92 :: nat), CHR ''r'']
         else if n = 9 then [char_of (92 :: nat), CHR ''t'']
         else if n = 8 then [char_of (92 :: nat), CHR ''b'']
         else if n = 12 then [char_of (92 :: nat), CHR ''f'']
         else if n < 32 then [char_of (92 :: nat), CHR ''u'', CHR ''0'', CHR ''0'', hexDigit (n div 16), hexDigit (n mod 16)]
         else [c])"

definition quote_char :: char where "quote_char = char_of (34 :: nat)"

definition writeString :: "string \<Rightarrow> string" where
  "writeString s = quote_char # concat (map escape_char s) @ [quote_char]"

definition writeKey :: "string \<Rightarrow> string" where
  "writeKey k = writeString k @ '':''"

definition writeToolCall :: "tool_call \<Rightarrow> string" where
  "writeToolCall c =
     ''{'' @ writeKey ''name'' @ writeString (tcName c) @ '','' @ writeKey ''args_hash'' @ writeString (tcArgsHash c)
     @ '','' @ writeKey ''result_hash'' @ writeString (tcResultHash c) @ '','' @ writeKey ''duration_ms''
     @ dec (tcDurationMs c) @ ''}''"

text \<open>A comma before every call but the first.\<close>

fun write_calls :: "bool \<Rightarrow> tool_call list \<Rightarrow> string" where
  "write_calls first [] = []"
| "write_calls first (c # cs) = (if first then [] else '','') @ writeToolCall c @ write_calls False cs"

definition writeToolCalls :: "tool_call list \<Rightarrow> string" where
  "writeToolCalls calls = ''['' @ write_calls True calls @ '']''"

definition writeNullableString :: "string option \<Rightarrow> string" where
  "writeNullableString s = (case s of None \<Rightarrow> ''null'' | Some v \<Rightarrow> writeString v)"

definition Canonicalize :: "action_receipt \<Rightarrow> string" where
  "Canonicalize r =
     ''{'' @ writeKey ''receipt_id'' @ writeString (rcID r)
     @ '','' @ writeKey ''timestamp'' @ writeString (rcTimestamp r)
     @ '','' @ writeKey ''agent_id'' @ writeString (rcAgentID r)
     @ '','' @ writeKey ''model'' @ writeString (rcModel r)
     @ '','' @ writeKey ''tool_calls'' @ writeToolCalls (rcToolCalls r)
     @ '','' @ writeKey ''parent_run_id'' @ writeNullableString (rcParentRunID r)
     @ '','' @ writeKey ''content_hash'' @ writeString (rcContentHash r)
     @ '','' @ writeKey ''schema_version'' @ dec (rcSchemaVersion r) @ ''}''"

section \<open>Key stores\<close>

datatype receipt_error = ErrNoActiveKey | ErrUnknownKey | ErrSchemaUnsupported | ErrKeyNotFound | ErrInvalidSignature
  | ErrReceiptNotFound | ErrUnsigned | ErrReceiptExists | ErrToolCalls | ErrKeyExists

record key_store =
  ksActive :: "string \<Rightarrow> receipt_error + (string \<times> string)"
  ksGet :: "string \<Rightarrow> receipt_error + string"

record mem_keys =
  mkActive :: "string \<rightharpoonup> string"
  mkKeys :: "string \<rightharpoonup> string"

definition NewMemKeyStore :: mem_keys where
  "NewMemKeyStore = \<lparr>mkActive = Map.empty, mkKeys = Map.empty\<rparr>"

definition RegisterKey :: "string \<Rightarrow> string \<Rightarrow> string \<Rightarrow> mem_keys \<Rightarrow> string \<times> mem_keys" where
  "RegisterKey agentID epoch key m =
     (let keyID = agentID @ ''#'' @ epoch
      in (keyID, m\<lparr>mkKeys := (mkKeys m)(keyID \<mapsto> key), mkActive := (mkActive m)(agentID \<mapsto> keyID)\<rparr>))"

text \<open>A missing entry of a Go map is the empty slice.\<close>

definition mem_store :: "mem_keys \<Rightarrow> key_store" where
  "mem_store m = \<lparr>
     ksActive = (\<lambda>agentID. case mkActive m agentID of None \<Rightarrow> Inl ErrNoActiveKey
        | Some keyID \<Rightarrow> Inr (keyID, case mkKeys m keyID of None \<Rightarrow> [] | Some k \<Rightarrow> k)),
     ksGet = (\<lambda>keyID. case mkKeys m keyID of None \<Rightarrow> Inl ErrUnknownKey | Some k \<Rightarrow> Inr k)\<rparr>"

type_synonym key_files = "string \<rightharpoonup> string"

text \<open>\<^verbatim>\<open>strings.ReplaceAll(agentID, "://", "_")\<close>, \<^verbatim>\<open>strings.Cut\<close> and \<^verbatim>\<open>filepath.Join\<close>.\<close>

fun agentSegment :: "string \<Rightarrow> string" where
  "agentSegment [] = []"
| "agentSegment (c # s) =
     (if take 3 (c # s) = ''://'' then CHR ''_'' # agentSegment (drop 2 s) else c # agentSegment s)"

fun cut :: "char \<Rightarrow> string \<Rightarrow> (string \<times> string) option" where
  "cut sep [] = None"
| "cut sep (c # s) = (if c = sep then Some ([], s) else map_option (\<lambda>(a, b). (c # a, b)) (cut sep s))"

definition Join :: "string list \<Rightarrow> string" where
  "Join elems =
     (case filter (\<lambda>e. e \<noteq> []) elems of [] \<Rightarrow> [] | es \<Rightarrow> Clean (join_with ''/'' es))"

definition key_path :: "string \<Rightarrow> string \<Rightarrow> string \<Rightarrow> string" where
  "key_path root agentID epoch = Join [root, agentSegment agentID, epoch @ ''.key'']"

definition active_path :: "string \<Rightarrow> string \<Rightarrow> string" where
  "active_path root agentID = Join [root, agentSegment agentID, ''active'']"

definition file_get :: "string \<Rightarrow> key_files \<Rightarrow> string \<Rightarrow> receipt_error + string" where
  "file_get root fs keyID =
     (case cut CHR ''#'' keyID of
        None \<Rightarrow> Inl ErrUnknownKey
      | Some (agentID, epoch) \<Rightarrow>
          (case fs (key_path root agentID epoch) of None \<Rightarrow> Inl ErrUnknownKey | Some key \<Rightarrow> Inr key))"

definition file_active :: "string \<Rightarrow> key_files \<Rightarrow> string \<Rightarrow> receipt_error + (string \<times> string)" where
  "file_active root fs agentID =
     (case fs (active_path root agentID) of
        None \<Rightarrow> Inl ErrNoActiveKey
      | Some epochBytes \<Rightarrow>
          let epoch = TrimSpace epochBytes; keyID = agentID @ ''#'' @ epoch
          in sum_bind (file_get root fs keyID) (\<lambda>key. Inr (keyID, key)))"

definition file_store :: "string \<Rightarrow> key_files \<Rightarrow> key_store" where
  "file_store root fs = \<lparr>ksActive = file_active root fs, ksGet = file_get root fs\<rparr>"

text \<open>The random bytes are an argument; directories are made and writes succeed.\<close>

definition key_dir :: "string \<Rightarrow> string \<Rightarrow> string" where
  "key_dir root agentID = Join [root, agentSegment agentID]"

definition GenerateFileKey ::
    "string \<Rightarrow> string \<Rightarrow> string \<Rightarrow> string \<Rightarrow> bool \<Rightarrow> key_files \<Rightarrow> receipt_error + (string \<times> key_files)" where
  "GenerateFileKey key root agentID epoch force fs =
     (let keyPath = Join [key_dir root agentID, epoch @ ''.key'']
      in if \<not> force \<and> fs keyPath \<noteq> None then Inl ErrKeyExists
         else Inr (agentID @ ''#'' @ epoch,
                   fs(keyPath \<mapsto> key, Join [key_dir root agentID, ''active''] \<mapsto> epoch)))"

definition EnsureFileKey ::
    "string \<Rightarrow> string \<Rightarrow> string \<Rightarrow> string \<Rightarrow> key_files \<Rightarrow> receipt_error + (string \<times> bool \<times> key_files)" where
  "EnsureFileKey key root agentID defaultEpoch fs =
     (case file_active root fs agentID of
        Inr (keyID, _) \<Rightarrow> Inr (keyID, False, fs)
      | Inl _ \<Rightarrow> sum_bind (GenerateFileKey key root agentID defaultEpoch False fs) (\<lambda>(keyID, fs'). Inr (keyID, True, fs')))"

section \<open>Signing and verification\<close>

definition SignReceipt ::
    "(string \<Rightarrow> string \<Rightarrow> string) \<Rightarrow> key_store \<Rightarrow> string \<Rightarrow> action_receipt \<Rightarrow> receipt_error + (string \<times> action_receipt)" where
  "SignReceipt hmac store signedAt r =
     (let r = (if rcSchemaVersion r = 0 then r\<lparr>rcSchemaVersion := SchemaVersion\<rparr> else r)
      in sum_bind (ksActive store (rcAgentID r)) (\<lambda>(keyID, key).
         let canon = Canonicalize r
         in Inr (canon, r\<lparr>rcSignature := hex_encode (hmac key canon), rcSignatureAlg := SignatureAlg,
                          rcKeyID := keyID, rcSignedAt := signedAt\<rparr>)))"

text \<open>No error is a valid receipt.\<close>

definition VerifyReceipt :: "(string \<Rightarrow> string \<Rightarrow> string) \<Rightarrow> key_store \<Rightarrow> action_receipt \<Rightarrow> receipt_error option" where
  "VerifyReceipt hmac store r =
     (if rcSchemaVersion r \<noteq> SchemaVersion then Some ErrSchemaUnsupported
      else if rcSignatureAlg r \<noteq> SignatureAlg then Some ErrSchemaUnsupported
      else case ksGet store (rcKeyID r) of
        Inl _ \<Rightarrow> Some ErrKeyNotFound
      | Inr key \<Rightarrow>
          (case hex_decode (rcSignature r) of
             None \<Rightarrow> Some ErrInvalidSignature
           | Some expected \<Rightarrow>
               if expected \<noteq> hmac key (Canonicalize r) then Some ErrInvalidSignature else None))"

section \<open>The table\<close>

record receipt_row =
  rwReceipt :: action_receipt
  rwToolCallsJSON :: string
  rwPayload :: string
  rwInsertedAt :: int

type_synonym receipt_table = "receipt_row list"

text \<open>A nil payload is computed; triggers abort every update and delete, so inserts are all there is.\<close>

definition InsertReceipt :: "int \<Rightarrow> action_receipt \<Rightarrow> string option \<Rightarrow> receipt_table \<Rightarrow> receipt_error + receipt_table" where
  "InsertReceipt now r payloadCanonical rows =
     (if rcSignature r = [] \<or> rcSignatureAlg r = [] \<or> rcKeyID r = [] \<or> rcSignedAt r = [] then Inl ErrUnsigned
      else if list_ex (\<lambda>w. rcID (rwReceipt w) = rcID r) rows then Inl ErrReceiptExists
      else Inr (rows @ [\<lparr>rwReceipt = r, rwToolCallsJSON = writeToolCalls (rcToolCalls r),
             rwPayload = (case payloadCanonical of None \<Rightarrow> Canonicalize r | Some p \<Rightarrow> p), rwInsertedAt = now\<rparr>]))"

definition parseToolCallsJSON :: "(string \<Rightarrow> tool_call list option) \<Rightarrow> string \<Rightarrow> receipt_error + tool_call list" where
  "parseToolCallsJSON unmarshal s =
     (if s = [] \<or> s = ''[]'' then Inr [] else case unmarshal s of None \<Rightarrow> Inl ErrToolCalls | Some cs \<Rightarrow> Inr cs)"

definition scan_receipt :: "(string \<Rightarrow> tool_call list option) \<Rightarrow> receipt_row \<Rightarrow> receipt_error + (action_receipt \<times> string)" where
  "scan_receipt unmarshal w =
     sum_bind (parseToolCallsJSON unmarshal (rwToolCallsJSON w)) (\<lambda>calls.
     Inr ((rwReceipt w)\<lparr>rcToolCalls := calls\<rparr>, rwPayload w))"

definition GetReceipt ::
    "(string \<Rightarrow> tool_call list option) \<Rightarrow> string \<Rightarrow> receipt_table \<Rightarrow> receipt_error + (action_receipt \<times> string)" where
  "GetReceipt unmarshal receiptID rows =
     (case sql_first (\<lambda>w. rcID (rwReceipt w) = receiptID) rows of
        None \<Rightarrow> Inl ErrReceiptNotFound
      | Some w \<Rightarrow> scan_receipt unmarshal w)"

definition FindAction ::
    "(string \<Rightarrow> tool_call list option) \<Rightarrow> string \<Rightarrow> string \<Rightarrow> string \<Rightarrow> receipt_table \<Rightarrow> receipt_error + action_receipt" where
  "FindAction unmarshal agentID parentRunID contentHash rows =
     (case sort_key (\<lambda>w. (rcTimestamp (rwReceipt w), rcID (rwReceipt w)))
            (filter (\<lambda>w. rcAgentID (rwReceipt w) = agentID \<and> rcParentRunID (rwReceipt w) = Some parentRunID \<and>
                        rcContentHash (rwReceipt w) = contentHash) rows) of
        [] \<Rightarrow> Inl ErrReceiptNotFound
      | w # _ \<Rightarrow> sum_bind (scan_receipt unmarshal w) (\<lambda>(r, _). Inr r))"

fun scan_receipts :: "(string \<Rightarrow> tool_call list option) \<Rightarrow> receipt_row list \<Rightarrow> receipt_error + action_receipt list" where
  "scan_receipts unmarshal [] = Inr []"
| "scan_receipts unmarshal (w # ws) =
     sum_bind (scan_receipt unmarshal w) (\<lambda>(r, _). sum_bind (scan_receipts unmarshal ws) (\<lambda>rs. Inr (r # rs)))"

text \<open>No time is the zero time; a time is given as its formatted text.\<close>

definition ListReceipts ::
    "(string \<Rightarrow> tool_call list option) \<Rightarrow> string \<Rightarrow> string option \<Rightarrow> int \<Rightarrow> receipt_table \<Rightarrow> receipt_error + action_receipt list" where
  "ListReceipts unmarshal agentID since lim rows =
     (let ws = sort_key (\<lambda>w. rcTimestamp (rwReceipt w))
            (filter (\<lambda>w. (agentID = [] \<or> rcAgentID (rwReceipt w) = agentID) \<and>
                        (case since of None \<Rightarrow> True | Some t \<Rightarrow> rcTimestamp (rwReceipt w) \<ge> t)) rows)
      in scan_receipts unmarshal (if lim > 0 then take (nat lim) ws else ws))"

section \<open>Commands\<close>

definition verifyVerdict :: "(string \<Rightarrow> string \<Rightarrow> string) \<Rightarrow> key_store \<Rightarrow> action_receipt \<Rightarrow> string \<times> nat" where
  "verifyVerdict hmac store r =
     (case VerifyReceipt hmac store r of
        None \<Rightarrow> (''valid'', 0)
      | Some ErrInvalidSignature \<Rightarrow> (''invalid_signature'', 2)
      | Some ErrSchemaUnsupported \<Rightarrow> (''unsupported_schema'', 3)
      | Some ErrKeyNotFound \<Rightarrow> (''unknown_key'', 4)
      | Some _ \<Rightarrow> (''error'', 5))"

text \<open>The exit code of one verification.\<close>

definition receiptVerifyOne ::
    "(string \<Rightarrow> string \<Rightarrow> string) \<Rightarrow> (string \<Rightarrow> tool_call list option) \<Rightarrow> key_store \<Rightarrow> string \<Rightarrow> receipt_table \<Rightarrow> nat" where
  "receiptVerifyOne hmac unmarshal store i rows =
     (case GetReceipt unmarshal i rows of
        Inl ErrReceiptNotFound \<Rightarrow> 1
      | Inl _ \<Rightarrow> 5
      | Inr (r, _) \<Rightarrow> snd (verifyVerdict hmac store r))"

definition receiptVerifyBulk ::
    "(string \<Rightarrow> string \<Rightarrow> string) \<Rightarrow> (string \<Rightarrow> tool_call list option) \<Rightarrow> key_store \<Rightarrow> string \<Rightarrow> receipt_table \<Rightarrow> nat" where
  "receiptVerifyBulk hmac unmarshal store since rows =
     (case ListReceipts unmarshal [] (Some since) 0 rows of
        Inl _ \<Rightarrow> 5
      | Inr rs \<Rightarrow> foldl (\<lambda>worst r. if snd (verifyVerdict hmac store r) \<noteq> 0 then 2 else worst) 0 rs)"

text \<open>The flag \<^verbatim>\<open>--since\<close> is absent, not a positive duration, or a cutoff already formatted.\<close>

definition cmdReceiptVerify ::
    "(string \<Rightarrow> string \<Rightarrow> string) \<Rightarrow> (string \<Rightarrow> tool_call list option) \<Rightarrow> string \<Rightarrow> string option option \<Rightarrow>
     string list \<Rightarrow> key_files \<times> receipt_table \<Rightarrow> nat" where
  "cmdReceiptVerify hmac unmarshal keyRoot since positionals st =
     (let (fs, rows) = st; ks = file_store keyRoot fs
      in case since of
        Some None \<Rightarrow> 5
      | Some (Some cutoff) \<Rightarrow> receiptVerifyBulk hmac unmarshal ks cutoff rows
      | None \<Rightarrow> (case positionals of [] \<Rightarrow> 5 | i # _ \<Rightarrow> receiptVerifyOne hmac unmarshal ks i rows))"

record emit_args =
  eaAgent :: string
  eaModel :: string
  eaContentHash :: string
  eaContent :: "string option"
  eaToolCalls :: "string option"
  eaParentRun :: "string option"
  eaKeys :: string
  eaEpoch :: string

record emit_env =
  emHmac :: "string \<Rightarrow> string \<Rightarrow> string"
  emSha256 :: "string \<Rightarrow> string"
  emUnmarshal :: "string \<Rightarrow> tool_call list option"
  emNewKey :: string
  emNewID :: string
  emTimestamp :: string
  emNow :: int

definition emitted_receipt :: "emit_env \<Rightarrow> emit_args \<Rightarrow> string \<Rightarrow> tool_call list \<Rightarrow> action_receipt" where
  "emitted_receipt env a contentHash toolCalls =
     \<lparr>rcID = emNewID env, rcTimestamp = emTimestamp env, rcAgentID = eaAgent a, rcModel = eaModel a,
      rcToolCalls = toolCalls,
      rcParentRunID = (case eaParentRun a of None \<Rightarrow> None | Some p \<Rightarrow> if p = [] then None else Some p),
      rcContentHash = contentHash, rcSchemaVersion = SchemaVersion, rcSignature = [], rcSignatureAlg = [],
      rcKeyID = [], rcSignedAt = []\<rparr>"

definition cmdReceiptEmit ::
    "emit_env \<Rightarrow> emit_args \<Rightarrow> key_files \<times> receipt_table \<Rightarrow> nat \<times> (key_files \<times> receipt_table)" where
  "cmdReceiptEmit env a st =
     (let (fs, rows) = st;
          contentHash = (if eaContentHash a \<noteq> [] then eaContentHash a
                         else case eaContent a of None \<Rightarrow> [] | Some c \<Rightarrow> hex_encode (emSha256 env c))
      in if eaAgent a = [] \<or> eaModel a = [] then (5, st)
         else if contentHash = [] then (5, st)
         else
           case (case eaToolCalls a of None \<Rightarrow> Inr [] | Some tc \<Rightarrow> if tc = [] then Inr []
                 else parseToolCallsJSON (emUnmarshal env) tc) of
             Inl _ \<Rightarrow> (5, st)
           | Inr toolCalls \<Rightarrow>
               (case EnsureFileKey (emNewKey env) (eaKeys a) (eaAgent a) (eaEpoch a) fs of
                  Inl _ \<Rightarrow> (5, st)
                | Inr (_, _, fs') \<Rightarrow>
                    (case SignReceipt (emHmac env) (file_store (eaKeys a) fs') (emTimestamp env)
                            (emitted_receipt env a contentHash toolCalls) of
                       Inl _ \<Rightarrow> (5, (fs', rows))
                     | Inr (canon, r) \<Rightarrow>
                         (case InsertReceipt (emNow env) r (Some canon) rows of
                            Inl _ \<Rightarrow> (5, (fs', rows))
                          | Inr rows' \<Rightarrow> (0, (fs', rows'))))))"

definition cmdReceiptKeygen :: "string \<Rightarrow> string \<Rightarrow> string \<Rightarrow> string \<Rightarrow> bool \<Rightarrow> key_files \<Rightarrow> nat \<times> key_files" where
  "cmdReceiptKeygen key agentID keyRoot epoch force fs =
     (if agentID = [] then (5, fs)
      else case GenerateFileKey key keyRoot agentID epoch force fs of Inl _ \<Rightarrow> (5, fs) | Inr (_, fs') \<Rightarrow> (0, fs'))"

definition validateReceiptFindArgs :: "string \<Rightarrow> string \<Rightarrow> string \<Rightarrow> bool" where
  "validateReceiptFindArgs agentID parentRun contentHash \<longleftrightarrow>
     TrimSpace agentID \<noteq> [] \<and> TrimSpace parentRun \<noteq> [] \<and> length contentHash = 64 \<and> hex_decode contentHash \<noteq> None"

definition cmdReceiptFind ::
    "(string \<Rightarrow> tool_call list option) \<Rightarrow> string \<Rightarrow> string \<Rightarrow> string \<Rightarrow> receipt_table \<Rightarrow> nat \<times> string option" where
  "cmdReceiptFind unmarshal agentID parentRun contentHash rows =
     (if \<not> validateReceiptFindArgs agentID parentRun contentHash then (5, None)
      else case FindAction unmarshal agentID parentRun contentHash rows of
        Inl ErrReceiptNotFound \<Rightarrow> (1, None)
      | Inl _ \<Rightarrow> (5, None)
      | Inr r \<Rightarrow> (0, Some (rcID r)))"

definition defaultEpoch :: "int \<Rightarrow> int \<Rightarrow> string" where
  "defaultEpoch year month = dec year @ ''-q'' @ dec ((month - 1) div 3 + 1)"

end
