(* ===== verification/PathProps.thy ===== *)
theory PathProps
  imports GoLib
begin

text \<open>
  Facts about cleaned paths: the stack of elements is in normal form, cleaning a prefix first
  changes nothing, and the end of a path survives.
\<close>

lemma split_on_sep: "split_on c (xs @ c # ys) = split_on c xs @ split_on c ys"
proof (induction xs)
  case (Cons x xs)
  then show ?case by (cases "split_on c xs") auto
qed simp

lemma split_on_no_sep: "c \<notin> set t \<Longrightarrow> split_on c t = [t]"
  by (induction t) auto

lemma last_split_append: "c \<notin> set t \<Longrightarrow> \<exists>es p. split_on c (xs @ t) = es @ [p @ t]"
proof (induction xs)
  case Nil
  then show ?case using split_on_no_sep [of c t] by (intro exI [of _ "[]"]) simp
next
  case (Cons x xs)
  then obtain es p where s: "split_on c (xs @ t) = es @ [p @ t]" by auto
  show ?case
  proof (cases "x = c")
    case True
    then show ?thesis using s by (intro exI [of _ "[] # es"] exI [of _ p]) simp
  next
    case False
    show ?thesis
    proof (cases es)
      case Nil
      then show ?thesis using s False by (intro exI [of _ "[]"] exI [of _ "x # p"]) simp
    next
      case (Cons y ys)
      then show ?thesis using s False by (intro exI [of _ "(x # y) # ys"] exI [of _ p]) simp
    qed
  qed
qed

lemma split_on_parts: "e \<in> set (split_on c xs) \<Longrightarrow> c \<notin> set e"
proof (induction xs arbitrary: e)
  case (Cons x xs)
  then obtain y ys where "split_on c xs = y # ys" by (cases "split_on c xs") simp_all
  with Cons show ?case by (auto split: if_splits)
qed simp

lemma split_on_join:
  "es \<noteq> [] \<Longrightarrow> \<forall>e \<in> set es. c \<notin> set e \<Longrightarrow> split_on c (join_with [c] es) = es"
proof (induction es)
  case (Cons e es)
  show ?case
  proof (cases es)
    case Nil
    then show ?thesis using Cons.prems by (simp add: split_on_no_sep)
  next
    case (Cons f fs)
    then show ?thesis using Cons.IH Cons.prems by (simp add: split_on_sep split_on_no_sep)
  qed
qed simp

lemma join_with_snoc: "es \<noteq> [] \<Longrightarrow> join_with sep (es @ [e]) = join_with sep es @ sep @ e"
proof (induction es)
  case (Cons x es)
  then show ?case by (cases es) simp_all
qed simp

section \<open>Normal stacks\<close>

fun normal_stack :: "bool \<Rightarrow> string list \<Rightarrow> bool" where
  "normal_stack rooted [] = True"
| "normal_stack rooted (x # xs) \<longleftrightarrow>
     x \<noteq> [] \<and> x \<noteq> ''.'' \<and> CHR ''/'' \<notin> set x \<and>
     (x = ''..'' \<longrightarrow> \<not> rooted \<and> list_all (\<lambda>y. y = ''..'') xs) \<and> normal_stack rooted xs"

declare clean_element.simps [simp del]

lemma clean_element_normal:
  assumes "normal_stack rooted xs" "CHR ''/'' \<notin> set e"
  shows "normal_stack rooted (clean_element rooted xs e)"
  using assms by (cases xs) (auto simp: clean_element.simps)

lemma foldl_normal:
  "normal_stack rooted xs \<Longrightarrow> \<forall>e \<in> set es. CHR ''/'' \<notin> set e \<Longrightarrow>
   normal_stack rooted (foldl (clean_element rooted) xs es)"
proof (induction es arbitrary: xs)
  case (Cons e es)
  then show ?case using clean_element_normal [of rooted xs e] by simp
qed simp

lemma clean_normal: "normal_stack rooted xs \<Longrightarrow> foldl (clean_element rooted) [] (rev xs) = xs"
proof (induction xs)
  case (Cons x xs)
  then show ?case by (cases xs) (auto simp: clean_element.simps)
qed simp

lemma normal_parts: "normal_stack rooted xs \<Longrightarrow> e \<in> set xs \<Longrightarrow> CHR ''/'' \<notin> set e \<and> e \<noteq> []"
  by (induction xs) auto

definition clean_stack :: "string \<Rightarrow> string list" where
  "clean_stack path = foldl (clean_element (IsAbs path)) [] (split_on (CHR ''/'') path)"

lemma clean_stack_normal: "normal_stack (IsAbs path) (clean_stack path)"
  unfolding clean_stack_def by (rule foldl_normal) (auto dest: split_on_parts)

lemma Clean_stack:
  "Clean path = (if IsAbs path then ''/'' @ join_with ''/'' (rev (clean_stack path))
                 else if clean_stack path = [] then ''.'' else join_with ''/'' (rev (clean_stack path)))"
proof -
  have "join_with ''/'' (rev (clean_stack path)) \<noteq> []" if ne: "clean_stack path \<noteq> []"
  proof -
    obtain e es where es: "rev (clean_stack path) = e # es" using ne by (cases "rev (clean_stack path)") auto
    then have "e \<in> set (clean_stack path)" by (metis list.set_intros(1) set_rev)
    then have "e \<noteq> []" using normal_parts [OF clean_stack_normal] by blast
    then show ?thesis using es by (cases es) simp_all
  qed
  then show ?thesis unfolding Clean_def clean_stack_def [symmetric] Let_def by auto
qed

text \<open>A cleaned path is never empty, is rooted as the path was, and has the same elements.\<close>

lemma Clean_not_empty [simp]: "Clean path \<noteq> []"
  by (simp add: Clean_def Let_def)

lemma Clean_again:
  assumes "path \<noteq> []"
  shows "IsAbs (Clean path @ s) = IsAbs path"
    and "foldl (clean_element (IsAbs path)) [] (split_on (CHR ''/'') (Clean path)) = clean_stack path"
proof -
  note n = clean_stack_normal [of path]
  have c: "foldl (clean_element (IsAbs path)) [] (rev (clean_stack path)) = clean_stack path"
    by (rule clean_normal [OF n])
  have sp: "split_on (CHR ''/'') (join_with ''/'' (rev (clean_stack path))) = rev (clean_stack path)"
    if "clean_stack path \<noteq> []"
    by (rule split_on_join) (use that normal_parts [OF n] in auto)
  show "foldl (clean_element (IsAbs path)) [] (split_on (CHR ''/'') (Clean path)) = clean_stack path"
    using c sp by (cases "clean_stack path = []") (auto simp: Clean_stack clean_element.simps)
  show "IsAbs (Clean path @ s) = IsAbs path"
  proof (cases "IsAbs path \<or> clean_stack path = []")
    case True
    then show ?thesis by (auto simp: Clean_stack IsAbs_def)
  next
    case False
    then obtain e es where es: "rev (clean_stack path) = e # es" by (cases "rev (clean_stack path)") auto
    then have "e \<in> set (clean_stack path)" by (metis list.set_intros(1) set_rev)
    then have "e \<noteq> []" "CHR ''/'' \<notin> set e" using normal_parts [OF n] by blast+
    then obtain d ds where "e = d # ds" "d \<noteq> CHR ''/''" by (cases e) auto
    then show ?thesis using False es by (cases es) (simp_all add: Clean_stack IsAbs_def)
  qed
qed

lemma clean_stack_prefix:
  "clean_stack (p @ CHR ''/'' # e) =
     (if p = [] then foldl (clean_element True) [] (split_on (CHR ''/'') e)
      else foldl (clean_element (IsAbs p)) (clean_stack p) (split_on (CHR ''/'') e))"
  by (simp add: clean_stack_def split_on_sep IsAbs_def clean_element.simps)

lemma Clean_eq: "IsAbs p = IsAbs q \<Longrightarrow> clean_stack p = clean_stack q \<Longrightarrow> Clean p = Clean q"
  by (simp add: Clean_stack)

lemma Clean_prefix:
  assumes "p \<noteq> []"
  shows "Clean (Clean p @ CHR ''/'' # e) = Clean (p @ CHR ''/'' # e)"
proof (rule Clean_eq)
  have abs: "IsAbs (Clean p @ s) = IsAbs p" for s using Clean_again(1) [OF assms] .
  have "IsAbs (p @ CHR ''/'' # e) = IsAbs p" using assms by (simp add: IsAbs_def)
  then show "IsAbs (Clean p @ CHR ''/'' # e) = IsAbs (p @ CHR ''/'' # e)" by (simp add: abs)
  have "clean_stack (Clean p) = clean_stack p"
    using Clean_again [OF assms] abs [of "[]"] by (simp add: clean_stack_def)
  then show "clean_stack (Clean p @ CHR ''/'' # e) = clean_stack (p @ CHR ''/'' # e)"
    using assms abs [of "[]"] by (simp add: clean_stack_prefix)
qed

lemma Clean_suffix:
  assumes "t \<noteq> []" "CHR ''/'' \<notin> set t" "last t \<noteq> CHR ''.''"
  shows "\<exists>q. Clean (p @ t) = q @ t"
proof -
  obtain es x where s: "split_on (CHR ''/'') (p @ t) = es @ [x @ t]" using last_split_append [OF assms(2), of p] by blast
  have "x @ t \<noteq> []" using assms(1) by simp
  moreover have "last (x @ t) \<noteq> CHR ''.''" using assms by simp
  then have "x @ t \<noteq> ''.''" "x @ t \<noteq> ''..''" by (metis last.simps list.distinct(1))+
  ultimately have "clean_stack (p @ t) = (x @ t) # foldl (clean_element (IsAbs (p @ t))) [] es" (is "_ = _ # ?out")
    by (simp add: clean_stack_def s clean_element.simps)
  then have r: "rev (clean_stack (p @ t)) = rev ?out @ [x @ t]" by simp
  have "\<exists>q. join_with ''/'' (rev ?out @ [x @ t]) = q @ t"
  proof (cases "?out = []")
    case False
    then show ?thesis by (simp add: join_with_snoc)
  qed simp
  then obtain q where q: "join_with ''/'' (rev (clean_stack (p @ t))) = q @ t" using r by metis
  have "clean_stack (p @ t) \<noteq> []" using r by force
  then have "Clean (p @ t) = ((if IsAbs (p @ t) then ''/'' else []) @ q) @ t" by (simp add: Clean_stack q)
  then show ?thesis by blast
qed

end
