(* ===== verification/ReceiptProps.thy ===== *)
theory ReceiptProps
  imports Receipts PathProps
begin

text \<open>
  Correctness of the signed receipts: the canonical bytes determine the signed fields, a signed
  receipt verifies and a changed one needs a collision of the keyed hash, keys are never lost by
  rotation, and a receipt the command emitted verifies after any later commands.
\<close>

section \<open>Reading canonical text\<close>

lemma hexDigit_hex_char: "n < 16 \<Longrightarrow> hexDigit n = hex_char n"
proof -
  assume "n < 16"
  moreover have "list_all (\<lambda>n. hexDigit n = hex_char n) [0..<16]" by code_simp
  ultimately show ?thesis by (simp add: list_all_iff)
qed

text \<open>The reader of one escaped character, for the proofs.\<close>

definition read_escape :: "string \<Rightarrow> (char \<times> string) option" where
  "read_escape s =
     (case s of
        [] \<Rightarrow> None
      | c # t \<Rightarrow>
          if c \<noteq> char_of (92 :: nat) then Some (c, t)
          else case t of
            [] \<Rightarrow> None
          | e # u \<Rightarrow>
              if e = CHR ''n'' then Some (char_of (10 :: nat), u)
              else if e = CHR ''r'' then Some (char_of (13 :: nat), u)
              else if e = CHR ''t'' then Some (char_of (9 :: nat), u)
              else if e = CHR ''b'' then Some (char_of (8 :: nat), u)
              else if e = CHR ''f'' then Some (char_of (12 :: nat), u)
              else if e = CHR ''u'' then
                (case (hex_value (u ! 2), hex_value (u ! 3)) of
                   (Some x, Some y) \<Rightarrow> Some (char_of (16 * x + y), drop 4 u)
                 | _ \<Rightarrow> None)
              else Some (e, u))"

lemma escape_letters:
  "list_all (\<lambda>e. (char_of (34 :: nat) :: char) \<noteq> e \<and> (char_of (92 :: nat) :: char) \<noteq> e) ''nrtbfu''"
  by code_simp

lemma read_escape_short:
  assumes "n \<in> {34, 92, 10, 13, 9, 8, 12}"
  shows "read_escape (escape_char (char_of (n :: nat)) @ x) = Some (char_of n, x)"
  using assms unfolding insert_iff empty_iff
  by (elim disjE FalseE)
    (use escape_letters in \<open>simp_all only:, simp_all add: escape_char_def read_escape_def\<close>)

lemma read_escape_char: "read_escape (escape_char c @ x) = Some (c, x)"
proof -
  define n where "n = (of_char c :: nat)"
  have c: "char_of n = c" by (simp add: n_def)
  consider "n \<in> {34, 92, 10, 13, 9, 8, 12}" | "n < 32" "n \<notin> {8, 9, 10, 12, 13}" | "32 \<le> n" "n \<noteq> 34" "n \<noteq> 92"
    by fastforce
  then show ?thesis
  proof cases
    case 1
    then show ?thesis using read_escape_short [of n x] by (simp only: c)
  next
    case 2
    then have e: "escape_char c = [char_of (92 :: nat), CHR ''u'', CHR ''0'', CHR ''0'', hexDigit (n div 16), hexDigit (n mod 16)]"
      by (simp add: escape_char_def Let_def n_def)
    have "n div 16 < 16" "n mod 16 < 16" using 2 by auto
    then show ?thesis by (simp add: e read_escape_def hexDigit_hex_char hex_value_digit c)
  next
    case 3
    then have e: "escape_char c = [c]" by (simp add: escape_char_def Let_def n_def)
    have "c \<noteq> char_of (92 :: nat)" using 3 by (auto simp: n_def)
    then show ?thesis by (simp add: e read_escape_def)
  qed
qed

lemma escape_char_inj: "escape_char c @ x = escape_char d @ y \<longleftrightarrow> c = d \<and> x = y"
  using read_escape_char [of c x] read_escape_char [of d y] by (metis option.inject prod.inject)

lemma escape_char_open: "\<exists>h t. escape_char c = h # t \<and> h \<noteq> quote_char"
proof (cases "(of_char c :: nat) = 34")
  case False
  then have "c \<noteq> quote_char" by (auto simp: quote_char_def)
  moreover have "(char_of (92 :: nat) :: char) \<noteq> quote_char" by (simp add: quote_char_def)
  ultimately show ?thesis by (simp add: escape_char_def Let_def)
qed (simp add: escape_char_def quote_char_def)

lemma escaped_inj:
  "concat (map escape_char s) @ quote_char # x = concat (map escape_char t) @ quote_char # y \<longleftrightarrow> s = t \<and> x = y"
proof (induction s arbitrary: t)
  case Nil
  show ?case
  proof (cases t)
    case (Cons c t')
    then show ?thesis using escape_char_open [of c] by auto
  qed simp
next
  case (Cons c s)
  show ?case
  proof (cases t)
    case Nil
    then show ?thesis using escape_char_open [of c] by auto
  next
    case (Cons d t')
    then show ?thesis using Cons.IH [of t'] by (simp add: escape_char_inj)
  qed
qed

named_theorems canon_inj

lemma writeString_inj [canon_inj]: "writeString s @ x = writeString t @ y \<longleftrightarrow> s = t \<and> x = y"
  by (simp add: writeString_def escaped_inj)

lemma writeString_not_null: "writeString s @ x \<noteq> CHR ''n'' # y" "CHR ''n'' # y \<noteq> writeString s @ x"
proof -
  have "quote_char \<noteq> CHR ''n''" by code_simp
  then show "writeString s @ x \<noteq> CHR ''n'' # y" "CHR ''n'' # y \<noteq> writeString s @ x"
    by (simp_all add: writeString_def)
qed

lemma takeWhile_sep:
  assumes "xs @ c # x = ys @ d # y" "\<forall>z \<in> set xs \<union> set ys. P z" "\<not> P c" "\<not> P d"
  shows "xs = ys \<and> c # x = d # y"
proof -
  have "takeWhile P (zs @ e # z) = zs" if "\<forall>v \<in> set zs. P v" "\<not> P e" for zs e z
    using that by (simp add: takeWhile_append2)
  then have "xs = ys" using assms by (metis UnI1 UnI2)
  then show ?thesis using assms(1) by simp
qed

lemma dec_brace_inj [canon_inj]: "dec m @ ''}'' @ x = dec n @ ''}'' @ y \<longleftrightarrow> m = n \<and> x = y"
proof
  let ?P = "\<lambda>c. c = CHR ''-'' \<or> (48 \<le> (of_char c :: nat) \<and> (of_char c :: nat) < 58)"
  assume "dec m @ ''}'' @ x = dec n @ ''}'' @ y"
  then have "dec m @ CHR ''}'' # x = dec n @ CHR ''}'' # y" by simp
  then have "dec m = dec n \<and> CHR ''}'' # x = CHR ''}'' # y"
    by (rule takeWhile_sep [where P = ?P]) (use dec_chars in auto)
  then show "m = n \<and> x = y" using dec_inj by blast
qed simp

lemma dec_brace_end [canon_inj]: "dec m @ ''}'' = dec n @ ''}'' \<longleftrightarrow> m = n"
  using dec_brace_inj [of m "[]" n "[]"] by simp

section \<open>The canonical bytes\<close>

lemma writeToolCall_inj [canon_inj]: "writeToolCall c @ x = writeToolCall d @ y \<longleftrightarrow> c = d \<and> x = y"
proof -
  have "writeToolCall c @ x = writeToolCall d @ y \<longleftrightarrow>
      tcName c = tcName d \<and> tcArgsHash c = tcArgsHash d \<and> tcResultHash c = tcResultHash d \<and>
      tcDurationMs c = tcDurationMs d \<and> x = y"
    using canon_inj by (simp add: writeToolCall_def)
  then show ?thesis by (cases c; cases d) auto
qed

lemma writeToolCall_open: "\<exists>t. writeToolCall c = CHR ''{'' # t"
  by (simp add: writeToolCall_def)

lemma write_calls_inj:
  "write_calls b cs @ '']'' @ x = write_calls b ds @ '']'' @ y \<longleftrightarrow> cs = ds \<and> x = y"
proof (induction cs arbitrary: b ds)
  case Nil
  show ?case
  proof (cases ds)
    case (Cons d ds')
    then show ?thesis using writeToolCall_open [of d] by auto
  qed auto
next
  case (Cons c cs)
  show ?case
  proof (cases ds)
    case Nil
    then show ?thesis using writeToolCall_open [of c] by auto
  next
    case (Cons d ds')
    then show ?thesis using Cons.IH [of False ds'] by (simp add: canon_inj)
  qed
qed

lemma writeToolCalls_inj [canon_inj]: "writeToolCalls cs @ x = writeToolCalls ds @ y \<longleftrightarrow> cs = ds \<and> x = y"
  using write_calls_inj [of True cs x ds y] by (simp add: writeToolCalls_def)

lemma writeNullableString_inj [canon_inj]:
  "writeNullableString s @ x = writeNullableString t @ y \<longleftrightarrow> s = t \<and> x = y"
  by (cases s; cases t) (simp_all add: writeNullableString_def canon_inj writeString_not_null)

definition signed_fields ::
    "action_receipt \<Rightarrow> string \<times> string \<times> string \<times> string \<times> tool_call list \<times> string option \<times> string \<times> int" where
  "signed_fields r =
     (rcID r, rcTimestamp r, rcAgentID r, rcModel r, rcToolCalls r, rcParentRunID r, rcContentHash r, rcSchemaVersion r)"

lemma canonical_fields: "Canonicalize r = Canonicalize s \<longleftrightarrow> signed_fields r = signed_fields s"
  using canon_inj by (simp add: Canonicalize_def signed_fields_def)

section \<open>Signing and verifying\<close>

text \<open>What the verifier relies on in a key store: the active key is found again under its id.\<close>

locale key_contract =
  fixes store :: key_store
  assumes active_get: "ksActive store a = Inr (k, key) \<Longrightarrow> ksGet store k = Inr key"
begin

lemma signed_verifies:
  assumes "SignReceipt hmac store t r = Inr (canon, s)" "rcSchemaVersion r \<in> {0, SchemaVersion}"
  shows "VerifyReceipt hmac store s = None \<and> canon = Canonicalize s"
proof -
  define q where "q = (if rcSchemaVersion r = 0 then r\<lparr>rcSchemaVersion := SchemaVersion\<rparr> else r)"
  have v: "rcSchemaVersion q = SchemaVersion" using assms(2) by (auto simp: q_def SchemaVersion_def)
  obtain k key where act: "ksActive store (rcAgentID q) = Inr (k, key)"
    and s: "canon = Canonicalize q" "s = q\<lparr>rcSignature := hex_encode (hmac key canon), rcSignatureAlg := SignatureAlg,
              rcKeyID := k, rcSignedAt := t\<rparr>"
    using assms(1) unfolding SignReceipt_def Let_def q_def [symmetric]
    by (auto simp: sum_bind_Inr_iff)
  have "Canonicalize s = Canonicalize q" by (simp add: s canonical_fields signed_fields_def)
  then show ?thesis using active_get [OF act] v by (simp add: VerifyReceipt_def s hex_decode_encode)
qed

text \<open>
  Another receipt accepted under the key and signature of a signed one has the same signed fields,
  or its canonical bytes and those that were signed collide under the keyed hash.
\<close>

lemma tampering_needs_collision:
  assumes sign: "SignReceipt hmac store t r = Inr (canon, s)" "rcSchemaVersion r \<in> {0, SchemaVersion}"
    and env: "rcKeyID s' = rcKeyID s" "rcSignature s' = rcSignature s"
    and ok: "VerifyReceipt hmac store s' = None"
  shows "signed_fields s' = signed_fields s \<or>
    (\<exists>key. ksGet store (rcKeyID s) = Inr key \<and> Canonicalize s' \<noteq> canon \<and> hmac key (Canonicalize s') = hmac key canon)"
proof -
  have s: "VerifyReceipt hmac store s = None" "canon = Canonicalize s" using signed_verifies [OF sign] by auto
  from s(1) obtain key m where k: "ksGet store (rcKeyID s) = Inr key" "hex_decode (rcSignature s) = Some m"
      "m = hmac key (Canonicalize s)"
    by (auto simp: VerifyReceipt_def split: if_splits sum.splits option.splits)
  have "m = hmac key (Canonicalize s')"
    using ok k env by (auto simp: VerifyReceipt_def split: if_splits)
  then show ?thesis using k s(2) canonical_fields by metis
qed

end

text \<open>The laws hold of the files as they are, and of a memory store whose active keys are in it.\<close>

interpretation files: key_contract "file_store root fs" for root fs
  by unfold_locales
    (auto simp: file_store_def file_active_def Let_def sum_bind_Inr_iff split: option.splits)

definition mem_keys_ok :: "mem_keys \<Rightarrow> bool" where
  "mem_keys_ok m \<longleftrightarrow> ran (mkActive m) \<subseteq> dom (mkKeys m)"

lemma RegisterKey_ok: "mem_keys_ok m \<Longrightarrow> mem_keys_ok (snd (RegisterKey a e k m))"
  by (auto simp: mem_keys_ok_def RegisterKey_def Let_def ran_def split: if_splits)

lemma NewMemKeyStore_ok: "mem_keys_ok NewMemKeyStore"
  by (simp add: mem_keys_ok_def NewMemKeyStore_def)

lemma mem_store_contract: "mem_keys_ok m \<Longrightarrow> key_contract (mem_store m)"
  by unfold_locales (fastforce simp: mem_keys_ok_def mem_store_def ran_def dom_def split: option.splits)

text \<open>Rotation keeps the older keys, and a replaced key of the same epoch is gone.\<close>

lemma RegisterKey_keeps:
  "k \<noteq> fst (RegisterKey a e key m) \<Longrightarrow> ksGet (mem_store (snd (RegisterKey a e key m))) k = ksGet (mem_store m) k"
  by (simp add: RegisterKey_def mem_store_def Let_def)

text \<open>
  The verifier asks only for the key named in the envelope, whoever the agent is: the holder of any
  key of the store can make a receipt in any agent's name.
\<close>

lemma any_key_accepted:
  assumes "ksGet store k = Inr key" "rcSchemaVersion r = SchemaVersion"
  shows "VerifyReceipt hmac store (r\<lparr>rcSignature := hex_encode (hmac key (Canonicalize r)),
           rcSignatureAlg := SignatureAlg, rcKeyID := k\<rparr>) = None"
proof -
  let ?s = "r\<lparr>rcSignature := hex_encode (hmac key (Canonicalize r)), rcSignatureAlg := SignatureAlg, rcKeyID := k\<rparr>"
  have "Canonicalize ?s = Canonicalize r" by (simp add: canonical_fields signed_fields_def)
  then show ?thesis using assms by (simp add: VerifyReceipt_def hex_decode_encode)
qed

section \<open>Key files\<close>

lemma Join_nested: "e \<noteq> [] \<Longrightarrow> Join [Join [root, seg], e] = Join [root, seg, e]"
  by (cases "root = []"; cases "seg = []") (simp_all add: Join_def Clean_prefix Clean_prefix [of "root @ CHR ''/'' # seg", simplified])

lemma generated_paths:
  "Join [key_dir root a, epoch @ ''.key''] = key_path root a epoch"
  "Join [key_dir root a, ''active''] = active_path root a"
  by (simp_all add: key_dir_def key_path_def active_path_def Join_nested)

lemma Join_suffix:
  assumes "t \<noteq> []" "CHR ''/'' \<notin> set t" "last t \<noteq> CHR ''.''"
  shows "\<exists>q. Join [root, seg, e @ t] = q @ t"
proof -
  have "\<exists>p. Join [root, seg, e @ t] = Clean (p @ t)"
  proof (cases "root = []"; cases "seg = []")
    assume "root = []" "seg = []"
    then show ?thesis using assms(1) by (auto simp: Join_def)
  next
    assume "root = []" "seg \<noteq> []"
    then show ?thesis using assms(1) by (intro exI [of _ "seg @ ''/'' @ e"]) (simp add: Join_def)
  next
    assume "root \<noteq> []" "seg = []"
    then show ?thesis using assms(1) by (intro exI [of _ "root @ ''/'' @ e"]) (simp add: Join_def)
  next
    assume "root \<noteq> []" "seg \<noteq> []"
    then show ?thesis using assms(1) by (intro exI [of _ "root @ ''/'' @ seg @ ''/'' @ e"]) (simp add: Join_def)
  qed
  then show ?thesis using Clean_suffix [OF assms] by metis
qed

lemma key_not_active: "key_path root a e \<noteq> active_path root' b"
proof
  assume eq: "key_path root a e = active_path root' b"
  obtain p where "key_path root a e = p @ ''.key''"
    using Join_suffix [of "''.key''" root "agentSegment a" e] by (auto simp: key_path_def)
  moreover obtain q where "active_path root' b = q @ ''active''"
    using Join_suffix [of "''active''" root' "agentSegment b" "[]"] by (auto simp: active_path_def)
  ultimately have "last (p @ ''.key'') = last (q @ ''active'')" using eq by simp
  then show False by simp
qed

lemma GenerateFileKey_keeps:
  assumes "GenerateFileKey key root a e False fs = Inr (k, fs')" "fs (key_path r b f) = Some old"
  shows "fs' (key_path r b f) = Some old"
  using assms key_not_active [of r b f root a]
  by (auto simp: GenerateFileKey_def Let_def generated_paths split: if_splits)

lemma EnsureFileKey_keeps:
  assumes "EnsureFileKey key root a e fs = Inr (k, c, fs')" "fs (key_path r b f) = Some old"
  shows "fs' (key_path r b f) = Some old"
  using assms GenerateFileKey_keeps by (fastforce simp: EnsureFileKey_def sum_bind_Inr_iff split: sum.splits)

text \<open>Two agents share a directory when they differ only in how the separator is written.\<close>

lemma agents_share_keys:
  assumes "agentSegment a = agentSegment b" "file_active root fs a = Inr (k, key)"
    and "CHR ''#'' \<notin> set a" "CHR ''#'' \<notin> set b"
  shows "\<exists>k'. file_active root fs b = Inr (k', key)"
proof -
  have c: "cut CHR ''#'' (x @ ''#'' @ e) = Some (x, e)" if "CHR ''#'' \<notin> set x" for x e
    using that by (induction x) auto
  have "active_path root a = active_path root b" "key_path root a e = key_path root b e" for e
    using assms(1) by (simp_all add: active_path_def key_path_def)
  then show ?thesis
    using assms c [OF assms(3)] c [OF assms(4)]
    by (auto simp: file_active_def Let_def file_get_def split: option.splits)
qed

lemma agents_share_keys_example: "agentSegment ''sylveste://a'' = agentSegment ''sylveste_a''"
  by code_simp

section \<open>Histories\<close>

datatype receipt_op = OpEmit emit_env emit_args | OpKeygen string string string string bool

fun receipt_step :: "receipt_op \<Rightarrow> key_files \<times> receipt_table \<Rightarrow> key_files \<times> receipt_table" where
  "receipt_step (OpEmit env a) st = snd (cmdReceiptEmit env a st)"
| "receipt_step (OpKeygen key agent root epoch force) (fs, rows) =
     (snd (cmdReceiptKeygen key agent root epoch force fs), rows)"

fun op_forced :: "receipt_op \<Rightarrow> bool" where
  "op_forced (OpEmit env a) = False"
| "op_forced (OpKeygen key agent root epoch force) = force"

definition keeps :: "key_files \<times> receipt_table \<Rightarrow> key_files \<times> receipt_table \<Rightarrow> bool" where
  "keeps st st' \<longleftrightarrow>
     (\<forall>r b f old. fst st (key_path r b f) = Some old \<longrightarrow> fst st' (key_path r b f) = Some old) \<and>
     (\<exists>ws. snd st' = snd st @ ws)"

lemma keeps_refl: "keeps st st"
  by (simp add: keeps_def)

lemma keeps_trans: "keeps st st' \<Longrightarrow> keeps st' st'' \<Longrightarrow> keeps st st''"
  by (auto simp: keeps_def)

lemma InsertReceipt_appends: "InsertReceipt now r p rows = Inr rows' \<Longrightarrow> \<exists>w. rows' = rows @ [w]"
  by (auto simp: InsertReceipt_def split: if_splits)

definition parsed_calls :: "emit_env \<Rightarrow> emit_args \<Rightarrow> receipt_error + tool_call list" where
  "parsed_calls env a =
     (case eaToolCalls a of None \<Rightarrow> Inr []
      | Some tc \<Rightarrow> if tc = [] then Inr [] else parseToolCallsJSON (emUnmarshal env) tc)"

text \<open>The three ways the command ends: nothing written, only a key written, a receipt stored.\<close>

lemma emit_outcome:
  obtains (refused) "cmdReceiptEmit env a (fs, rows) = (5, (fs, rows))"
  | (keyed) k c fs' where "EnsureFileKey (emNewKey env) (eaKeys a) (eaAgent a) (eaEpoch a) fs = Inr (k, c, fs')"
      "cmdReceiptEmit env a (fs, rows) = (5, (fs', rows))"
  | (stored) k c fs' h calls canon r rows' where
      "EnsureFileKey (emNewKey env) (eaKeys a) (eaAgent a) (eaEpoch a) fs = Inr (k, c, fs')"
      "parsed_calls env a = Inr calls"
      "SignReceipt (emHmac env) (file_store (eaKeys a) fs') (emTimestamp env) (emitted_receipt env a h calls) = Inr (canon, r)"
      "InsertReceipt (emNow env) r (Some canon) rows = Inr rows'"
      "cmdReceiptEmit env a (fs, rows) = (0, (fs', rows'))"
proof -
  define h where "h = (if eaContentHash a \<noteq> [] then eaContentHash a
                       else case eaContent a of None \<Rightarrow> [] | Some c \<Rightarrow> hex_encode (emSha256 env c))"
  note u = cmdReceiptEmit_def Let_def h_def [symmetric] parsed_calls_def [symmetric]
  show ?thesis
  proof (cases "eaAgent a = [] \<or> eaModel a = [] \<or> h = []")
    case True
    then have "cmdReceiptEmit env a (fs, rows) = (5, (fs, rows))" unfolding u by auto
    then show ?thesis by (rule refused)
  next
    case F: False
    show ?thesis
    proof (cases "parsed_calls env a")
      case (Inl e)
      then have "cmdReceiptEmit env a (fs, rows) = (5, (fs, rows))" unfolding u using F by simp
      then show ?thesis by (rule refused)
    next
      case calls: (Inr calls)
      show ?thesis
      proof (cases "EnsureFileKey (emNewKey env) (eaKeys a) (eaAgent a) (eaEpoch a) fs")
        case (Inl e)
        then have "cmdReceiptEmit env a (fs, rows) = (5, (fs, rows))" unfolding u using F calls by simp
        then show ?thesis by (rule refused)
      next
        case (Inr y)
        then obtain k c fs' where key: "EnsureFileKey (emNewKey env) (eaKeys a) (eaAgent a) (eaEpoch a) fs = Inr (k, c, fs')"
          by (metis prod_cases3)
        let ?S = "SignReceipt (emHmac env) (file_store (eaKeys a) fs') (emTimestamp env) (emitted_receipt env a h calls)"
        show ?thesis
        proof (cases ?S)
          case (Inl e)
          then have "cmdReceiptEmit env a (fs, rows) = (5, (fs', rows))" unfolding u using F calls key by simp
          then show ?thesis by (rule keyed [OF key])
        next
          case (Inr z)
          then obtain canon r where sign: "?S = Inr (canon, r)" by (metis prod.exhaust)
          show ?thesis
          proof (cases "InsertReceipt (emNow env) r (Some canon) rows")
            case (Inl e)
            then have "cmdReceiptEmit env a (fs, rows) = (5, (fs', rows))" unfolding u using F calls key sign by simp
            then show ?thesis by (rule keyed [OF key])
          next
            case (Inr rows')
            then have "cmdReceiptEmit env a (fs, rows) = (0, (fs', rows'))" unfolding u using F calls key sign by simp
            then show ?thesis by (rule stored [OF key calls sign Inr])
          qed
        qed
      qed
    qed
  qed
qed

lemma emit_keeps: "keeps (fs, rows) (snd (cmdReceiptEmit env a (fs, rows)))"
proof (cases rule: emit_outcome [of env a fs rows])
  case refused
  then show ?thesis by (simp add: keeps_refl)
next
  case (keyed k c fs')
  then show ?thesis using EnsureFileKey_keeps [OF keyed(1)] by (auto simp: keeps_def)
next
  case (stored k c fs' h calls canon r rows')
  then show ?thesis
    using EnsureFileKey_keeps [OF stored(1)] InsertReceipt_appends [OF stored(4)] by (auto simp: keeps_def)
qed

lemma step_keeps: "\<not> op_forced c \<Longrightarrow> keeps st (receipt_step c st)"
proof (cases c)
  case (OpEmit env a)
  then show ?thesis using emit_keeps by (cases st) simp
next
  case (OpKeygen key agent root epoch force)
  moreover assume "\<not> op_forced c"
  ultimately show ?thesis
    using GenerateFileKey_keeps
    by (cases st) (auto simp: cmdReceiptKeygen_def keeps_def split: sum.splits)
qed

lemma steps_keep: "\<forall>c \<in> set ops. \<not> op_forced c \<Longrightarrow> keeps st (fold receipt_step ops st)"
proof (induction ops arbitrary: st)
  case (Cons c ops)
  then show ?case using keeps_trans [OF step_keeps [of c st]] by simp
qed (simp add: keeps_refl)

lemma sql_first_prefix: "sql_first P xs = Some x \<Longrightarrow> sql_first P (xs @ ys) = Some x"
  by (induction xs) (auto split: if_splits)

lemma keeps_verified:
  assumes k: "keeps (fs, rows) (fs', rows')" and v: "receiptVerifyOne hmac u (file_store root fs) i rows = 0"
  shows "receiptVerifyOne hmac u (file_store root fs') i rows' = 0"
proof -
  have nz: "snd (verifyVerdict hmac st r) = 0 \<longleftrightarrow> VerifyReceipt hmac st r = None" for st r
    by (auto simp: verifyVerdict_def split: option.splits receipt_error.splits)
  obtain r p where g: "GetReceipt u i rows = Inr (r, p)" and ok: "VerifyReceipt hmac (file_store root fs) r = None"
    using v by (auto simp: receiptVerifyOne_def nz split: sum.splits receipt_error.splits)
  obtain ws where ws: "rows' = rows @ ws" using k by (auto simp: keeps_def)
  have "GetReceipt u i rows' = Inr (r, p)"
    using g sql_first_prefix unfolding GetReceipt_def ws by (fastforce split: option.splits)
  moreover have "ksGet (file_store root fs') kid = Inr key" if "ksGet (file_store root fs) kid = Inr key" for kid key
    using that k by (auto simp: file_store_def file_get_def keeps_def split: option.splits)
  then have "VerifyReceipt hmac (file_store root fs') r = None"
    using ok by (auto simp: VerifyReceipt_def split: if_splits sum.splits option.splits)
  ultimately show ?thesis by (simp add: receiptVerifyOne_def nz)
qed

lemma writeToolCalls_empty: "writeToolCalls cs = ''[]'' \<longleftrightarrow> cs = []"
  using writeToolCalls_inj [of cs "[]" "[]" "[]"] by (simp add: writeToolCalls_def)

lemma emitted_valid:
  assumes "cmdReceiptEmit env a (fs, rows) = (0, (fs', rows'))"
    and stable: "\<And>tc cs. emUnmarshal env tc = Some cs \<Longrightarrow> cs \<noteq> [] \<Longrightarrow> emUnmarshal env (writeToolCalls cs) = Some cs"
  shows "receiptVerifyOne (emHmac env) (emUnmarshal env) (file_store (eaKeys a) fs') (emNewID env) rows' = 0"
proof (cases rule: emit_outcome [of env a fs rows])
  case (stored k c fs'' h calls canon r rows'')
  have eq: "fs'' = fs'" "rows'' = rows'" using stored(5) assms(1) by simp_all
  have r: "rcID r = emNewID env" "rcToolCalls r = calls"
    using stored(3) by (auto simp: SignReceipt_def emitted_receipt_def Let_def SchemaVersion_def sum_bind_Inr_iff)
  have "parseToolCallsJSON (emUnmarshal env) (writeToolCalls calls) = Inr calls"
  proof (cases "calls = []")
    case False
    then obtain tc where "emUnmarshal env tc = Some calls"
      using stored(2) by (auto simp: parsed_calls_def parseToolCallsJSON_def split: option.splits if_splits)
    then show ?thesis
      using stable [OF _ False] False
      by (simp add: parseToolCallsJSON_def writeToolCalls_empty) (simp add: writeToolCalls_def)
  qed (simp add: writeToolCalls_def parseToolCallsJSON_def)
  moreover have "rows' = rows @ [\<lparr>rwReceipt = r, rwToolCallsJSON = writeToolCalls (rcToolCalls r), rwPayload = canon,
      rwInsertedAt = emNow env\<rparr>]" "sql_first (\<lambda>w. rcID (rwReceipt w) = rcID r) rows = None"
    using stored(4) by (auto simp: InsertReceipt_def sql_first_None list_ex_iff eq split: if_splits)
  moreover have "sql_first P rows = None \<Longrightarrow> sql_first P (rows @ ws) = sql_first P ws" for P ws
    by (induction rows) (auto split: if_splits)
  ultimately have "GetReceipt (emUnmarshal env) (emNewID env) rows' = Inr (r\<lparr>rcToolCalls := calls\<rparr>, canon)"
    by (simp add: GetReceipt_def scan_receipt_def r)
  moreover have "r\<lparr>rcToolCalls := calls\<rparr> = r" using r by simp
  moreover have "VerifyReceipt (emHmac env) (file_store (eaKeys a) fs') r = None"
    using files.signed_verifies [OF stored(3)] by (simp add: emitted_receipt_def eq)
  ultimately show ?thesis by (simp add: receiptVerifyOne_def verifyVerdict_def)
qed (use assms(1) in simp_all)

text \<open>
  C34. A receipt that the command emitted is found and verifies as valid under its key root after any
  later commands that force no key: more receipts, rotations and new agents, whether they succeed
  or fail at any point, neither lose the receipt nor its key.
\<close>

theorem emitted_receipt_verifies:
  assumes "cmdReceiptEmit env a st = (0, st')"
    and "\<And>tc cs. emUnmarshal env tc = Some cs \<Longrightarrow> cs \<noteq> [] \<Longrightarrow> emUnmarshal env (writeToolCalls cs) = Some cs"
    and "\<forall>c \<in> set ops. \<not> op_forced c" and "fold receipt_step ops st' = (fs, rows)"
  shows "cmdReceiptVerify (emHmac env) (emUnmarshal env) (eaKeys a) None [emNewID env] (fs, rows) = 0"
proof -
  obtain f0 r0 f1 r1 where st: "st = (f0, r0)" "st' = (f1, r1)" by (cases st; cases st')
  have "receiptVerifyOne (emHmac env) (emUnmarshal env) (file_store (eaKeys a) f1) (emNewID env) r1 = 0"
    using emitted_valid assms(1,2) unfolding st by blast
  moreover have "keeps (f1, r1) (fs, rows)" using steps_keep [OF assms(3), of st'] assms(4) by (simp add: st)
  ultimately show ?thesis by (simp add: cmdReceiptVerify_def keeps_verified)
qed

text \<open>
  C35. A receipt that verifies under the key and the signature of a signed one agrees with it in all
  eight signed fields, or its canonical bytes are a second text with the signed one's keyed hash:
  the canonical form determines the fields.
\<close>

theorem receipt_tamper_evident:
  assumes "SignReceipt hmac (file_store root fs) t r = Inr (canon, s)" "rcSchemaVersion r \<in> {0, SchemaVersion}"
    and "rcKeyID s' = rcKeyID s" "rcSignature s' = rcSignature s"
    and "VerifyReceipt hmac (file_store root fs) s' = None"
  shows "signed_fields s' = signed_fields s \<or>
    (\<exists>key. file_get root fs (rcKeyID s) = Inr key \<and> Canonicalize s' \<noteq> canon \<and>
           hmac key (Canonicalize s') = hmac key canon)"
  using files.tampering_needs_collision [OF assms] by (simp add: file_store_def)

section \<open>Concrete runs\<close>

definition sample_env :: "string \<Rightarrow> string \<Rightarrow> emit_env" where
  "sample_env i key = \<lparr>emHmac = (\<lambda>k m. take 4 k @ rev (take 2 (rev m))), emSha256 = rev, emUnmarshal = (\<lambda>_. None),
     emNewKey = key, emNewID = i, emTimestamp = ''T'', emNow = 5\<rparr>"

definition sample_args :: "string \<Rightarrow> emit_args" where
  "sample_args agent = \<lparr>eaAgent = agent, eaModel = ''m'', eaContentHash = [], eaContent = Some ''out'',
     eaToolCalls = None, eaParentRun = None, eaKeys = ''keys'', eaEpoch = ''q2''\<rparr>"

definition sample_ops :: "receipt_op list" where
  "sample_ops = [OpKeygen ''K2'' ''ag://a'' ''keys'' ''q3'' False, OpEmit (sample_env ''r2'' ''K3'') (sample_args ''b''),
     OpKeygen ''K4'' ''ag://a'' ''keys'' ''q2'' False]"

lemma emitted_receipt_verifies_witness:
  "cmdReceiptVerify (emHmac (sample_env ''r1'' ''K'')) (emUnmarshal (sample_env ''r1'' ''K'')) ''keys'' None [''r1'']
     (fold receipt_step sample_ops (snd (cmdReceiptEmit (sample_env ''r1'' ''K'') (sample_args ''ag://a'') (Map.empty, [])))) = 0"
proof -
  let ?st = "cmdReceiptEmit (sample_env ''r1'' ''K'') (sample_args ''ag://a'') (Map.empty, [])"
  have e: "fst ?st = 0" by code_simp
  have o: "\<forall>c \<in> set sample_ops. \<not> op_forced c" by (simp add: sample_ops_def)
  obtain fs rows where f: "fold receipt_step sample_ops (snd ?st) = (fs, rows)" by (metis prod.exhaust)
  have "cmdReceiptVerify (emHmac (sample_env ''r1'' ''K'')) (emUnmarshal (sample_env ''r1'' ''K''))
      (eaKeys (sample_args ''ag://a'')) None [emNewID (sample_env ''r1'' ''K'')] (fs, rows) = 0"
    by (rule emitted_receipt_verifies [where st = "(Map.empty, [])" and st' = "snd ?st" and ops = sample_ops])
      (use e o f in \<open>simp_all add: prod_eq_iff, simp add: sample_env_def\<close>)
  then show ?thesis unfolding f by (simp add: sample_env_def sample_args_def)
qed

text \<open>
  An agent id with the separator of key ids in it: its key is written where it is never looked for,
  so the first run fails after writing it and every later one finds it there.
\<close>

lemma hash_agent_never_emits:
  "let st = cmdReceiptEmit (sample_env ''r1'' ''K'') (sample_args ''a#b'') (Map.empty, [])
   in fst st = 5 \<and> fst (snd st) ''keys/a#b/q2.key'' = Some ''K'' \<and> snd (snd st) = [] \<and>
      fst (cmdReceiptEmit (sample_env ''r2'' ''K2'') (sample_args ''a#b'') (snd st)) = 5"
  by code_simp

text \<open>
  A key whose pointer was not written (the process died between the two writes): the pointer is
  missing, the key is not replaced, and the agent cannot sign in that epoch.
\<close>

lemma stranded_key:
  assumes "fs (active_path root a) = None" "fs (key_path root a e) \<noteq> None"
  shows "EnsureFileKey key root a e fs = Inl ErrKeyExists"
  using assms by (simp add: EnsureFileKey_def file_active_def GenerateFileKey_def generated_paths)

definition sample_receipt :: action_receipt where
  "sample_receipt = emitted_receipt (sample_env ''r1'' ''K'') (sample_args ''a'') ''h'' []"

lemma receipt_tamper_evident_witness:
  "let fs = [''keys/a/q2.key'' \<mapsto> ''K'', ''keys/a/active'' \<mapsto> ''q2'']; hmac = (\<lambda>k m. k)
   in case SignReceipt hmac (file_store ''keys'' fs) ''T'' sample_receipt of
        Inl _ \<Rightarrow> False
      | Inr (canon, s) \<Rightarrow>
          signed_fields (s\<lparr>rcModel := ''n''\<rparr>) = signed_fields s \<or>
          (\<exists>key. file_get ''keys'' fs (rcKeyID s) = Inr key \<and> Canonicalize (s\<lparr>rcModel := ''n''\<rparr>) \<noteq> canon)"
proof -
  let ?fs = "[''keys/a/q2.key'' \<mapsto> ''K'', ''keys/a/active'' \<mapsto> ''q2'']"
  let ?S = "SignReceipt (\<lambda>k m. k) (file_store ''keys'' ?fs) ''T'' sample_receipt"
  have "\<not> isl ?S" by code_simp
  then obtain canon s where s: "?S = Inr (canon, s)" by (metis isl_def old.sum.exhaust prod.exhaust)
  have "case ?S of Inl _ \<Rightarrow> False | Inr (canon, s) \<Rightarrow>
      VerifyReceipt (\<lambda>k m. k) (file_store ''keys'' ?fs) (s\<lparr>rcModel := ''n''\<rparr>) = None" by code_simp
  then have v: "VerifyReceipt (\<lambda>k m. k) (file_store ''keys'' ?fs) (s\<lparr>rcModel := ''n''\<rparr>) = None" by (simp add: s)
  have "rcSchemaVersion sample_receipt \<in> {0, SchemaVersion}" by code_simp
  from receipt_tamper_evident [OF s this _ _ v] show ?thesis by (simp add: s Let_def)
qed

end
