(* ===== verification/Spec2Isabelle.thy ===== *)
theory Spec2Isabelle
  imports RuntimeGate Coordination Deps TokenProps PolicyCorrect DispatchLife SchedProps SchedStore LockTree AuditProps Sentinel Budget
    RunTrack RouteProps RouteCalibration RouteRegistry RouteStore Sessions Landed Lanes
    DiscoveryProps EventProps Replay EventCommands ReceiptProps
begin

text \<open>
  A verification development for \<^bold>\<open>intercore\<close>, the kernel that runs agent work: a
  command line program (\<^verbatim>\<open>cmd/ic\<close>) over a SQLite database. A \<^emph>\<open>run\<close> moves through a
  chain of phases; \<^emph>\<open>gates\<close> decide whether it may leave a phase; \<^emph>\<open>dispatches\<close> are the
  agent processes it starts; \<^emph>\<open>coordination locks\<close> keep agents off each other's
  files; \<^emph>\<open>portfolios\<close> group runs of several projects; \<^emph>\<open>tokens\<close> and \<^emph>\<open>policies\<close>
  authorize operations; the \<^emph>\<open>scheduler\<close> paces the start of dispatches.

  \<^bold>\<open>Conventions.\<close> A table is the list of its rows in rowid order (\<open>Prelude\<close>), a
  transaction a function from the database to an error or the next database, so
  a rollback is the unchanged argument. Errors of the code are constructors of an
  error datatype. Go maps are partial maps, structs are records, pointers that
  are shared are keys of an explicit store. Text that the code only decodes (JSON,
  YAML) is its decoded value. \<^verbatim>\<open>int64\<close> values are integers; wrap-around and
  saturation are written out where the code can reach them (\<open>GoLib.time_sub\<close>,
  the age check of \<open>RuntimeProof\<close>, \<open>Atoi\<close>, the token columns of \<open>Sessions\<close>).

  \<^bold>\<open>Theories.\<close>
  \<^item> \<open>Prelude\<close>, \<open>GoLib\<close>, \<open>GoHeap\<close>: SQL operations and the contract of a keyed table;
    the parts of Go's \<^verbatim>\<open>strings\<close>, \<^verbatim>\<open>strconv\<close>, \<^verbatim>\<open>path\<close>, \<^verbatim>\<open>time\<close> and \<^verbatim>\<open>container/heap\<close> that the
    code uses.
  \<^item> \<open>PhaseChain\<close>, \<open>RunModel\<close> (\<^verbatim>\<open>pkg/phase\<close>, \<^verbatim>\<open>internal/phase/phase.go\<close>): phase chains and
    their lookups; runs, events and the database record.
  \<^item> \<open>Metadata\<close> (\<^verbatim>\<open>internal/phase/metadata.go\<close>): merging run metadata, the sealed
    close gate, the runtime-evidence configuration and its compare-and-swap update.
  \<^item> \<open>Gate\<close> (\<^verbatim>\<open>internal/phase/gate.go\<close>): \<^verbatim>\<open>evaluateGate\<close> with every check, the
    calibration of tiers and the injected runtime rule.
  \<^item> \<open>RuntimeProof\<close>, \<open>RuntimeGate\<close> (\<^verbatim>\<open>pkg/runtimeproof\<close>): the receipt verifier and its
    composition with the gate: a run with a sealed close gate completes only on a
    receipt the verifier accepts.
  \<^item> \<open>RunStore\<close> (\<^verbatim>\<open>internal/phase/store.go\<close>, \<^verbatim>\<open>tx_queriers.go\<close>), \<open>Machine\<close>
    (\<^verbatim>\<open>machine.go\<close>), \<open>GateOverride\<close> (\<^verbatim>\<open>cmd/ic/gate.go\<close>): the run store, its triggers,
    \<^verbatim>\<open>Advance\<close>, \<^verbatim>\<open>Rollback\<close> and the manual override of a gate, the three writers of phases.
    \<open>RunSafety\<close>, \<open>RunProgress\<close>, \<open>RunWitness\<close>: reachable databases, the invariants of
    runs and their event trail, progress and rollback, and concrete runs.
  \<^item> \<open>RunTrack\<close> (\<^verbatim>\<open>internal/runtrack\<close>, the rollback of \<^verbatim>\<open>cmd/ic/run_lifecycle.go\<close>): agents and
    artifacts of runs, and what a rollback means for the gates that count them.
  \<^item> \<open>Dispatch\<close>, \<open>Admission\<close> (\<^verbatim>\<open>internal/dispatch\<close>): the dispatch store with its
    terminal records, the spawn policy and retries. \<open>DispatchSafety\<close> classifies the
    effect of every operation, \<open>DispatchLife\<close> closes them under histories.
  \<^item> \<open>Glob\<close>, \<open>GlobCorrect\<close>, \<open>Coordination\<close> (\<^verbatim>\<open>internal/coordination\<close>): the overlap decision
    of two glob patterns against their languages, and the lock store.
  \<^item> \<open>PortfolioHeap\<close>, \<open>TopoSort\<close>, \<open>Deps\<close> (\<^verbatim>\<open>internal/portfolio\<close>): the inline heap, Kahn's
    algorithm and the dependency table with its cycle check.
  \<^item> \<open>Token\<close>, \<open>TokenCorrect\<close>, \<open>TokenSafety\<close>, \<open>TokenProps\<close> (\<^verbatim>\<open>pkg/authz/token.go\<close>,
    \<^verbatim>\<open>sign.go\<close>): capability tokens: issue, delegate, consume, revoke.
  \<^item> \<open>Policy\<close>, \<open>PolicyCorrect\<close> (\<^verbatim>\<open>pkg/authz/policy.go\<close>, \<^verbatim>\<open>merge.go\<close>, \<^verbatim>\<open>evaluator.go\<close>,
    \<^verbatim>\<open>pkg/autonomy\<close>): policy layers, their merge and the authorization decision.
  \<^item> \<open>SchedJob\<close>, \<open>SchedQueue\<close>, \<open>SchedQueueCorrect\<close>, \<open>FairSched\<close> (\<^verbatim>\<open>internal/scheduler\<close>):
    spawn jobs, the job heap with its index and counters, the fair scheduler. \<open>SchedCaps\<close>,
    \<open>CapsSafety\<close> (\<^verbatim>\<open>caps.go\<close>): the caps of agent types, ramp-up and cooldown.
    \<open>SchedBackoff\<close> (\<^verbatim>\<open>backoff.go\<close>): error classes and the global backoff. \<open>SchedIndex\<close>,
    \<open>Scheduler\<close>, \<open>SchedSafety\<close>, \<open>SchedPlaces\<close>, \<open>SchedProps\<close> (\<^verbatim>\<open>scheduler.go\<close>): what holds of
    heap and index when a group cancellation leaves them apart; workers interleaved with every
    submission and cancellation; the place of every live job, the agent slot it holds and the
    session slots that leak. \<open>SchedStore\<close> (\<^verbatim>\<open>store.go\<close>): the job table and recovery from it.
  \<^item> \<open>DirLock\<close>, \<open>LockTree\<close> (\<^verbatim>\<open>internal/lock\<close>): file-system locks as interleaved system
    calls, with and without a race in breaking stale locks; the lock tree and its cleaning.
  \<^item> \<open>Redaction\<close>, \<open>RedactionCorrect\<close> (\<^verbatim>\<open>pkg/redaction\<close>): scanning for secrets, overlap
    resolution and replacement against the intended output, for patterns that may match nothing.
  \<^item> \<open>AuditLog\<close>, \<open>AuditProps\<close> (\<^verbatim>\<open>internal/audit\<close>): the hash-chained log over the redactor, its
    verifier, histories of appends, tamper evidence up to a collision between the logs, and failed
    appends.
  \<^item> \<open>StateStore\<close>, \<open>Sentinel\<close>, \<open>Budget\<close> (\<^verbatim>\<open>internal/state\<close>, \<^verbatim>\<open>sentinel\<close>, \<^verbatim>\<open>budget\<close>): the
    key-value state with its payload checks against the documented limits, the throttle and the spacing of its firings,
    and the budget checker over dispatches and state flags.
  \<^item> \<open>Routing\<close>, \<open>RouteIdentity\<close>, \<open>RouteReasoning\<close>, \<open>RouteCalibration\<close>, \<open>RouteRegistry\<close>,
    \<open>RouteStore\<close>, \<open>RouteProps\<close> (\<^verbatim>\<open>internal/routing\<close>): the model of an agent through overrides,
    policy windows, calibration, floors and fallbacks; model identities and the dispatch role
    for a producer; aliases against their own relation, effort floors and the reasoning contract; the calibration artifact's
    decoder; the deployment registry with its trust zones; and the decision table.
  \<^item> \<open>Ledger\<close>, \<open>Sessions\<close>, \<open>Landed\<close>, \<open>Lanes\<close> (\<^verbatim>\<open>internal/session\<close>, \<^verbatim>\<open>landed\<close>, \<^verbatim>\<open>lane\<close>): tables
    with automatic row numbers; the sessions (token columns in 64 bits) and attributions against an abstract map, landed
    commits and their reversion, lanes with their members, snapshots and counts.
  \<^item> \<open>Discovery\<close>, \<open>DiscoveryProps\<close> (\<^verbatim>\<open>internal/discovery\<close>): research discoveries, their
    promotion, decay and feedback; the trail of events against the statuses, feedback once per key.
  \<^item> \<open>Events\<close>, \<open>EventStream\<close>, \<open>EventProps\<close>, \<open>EventCommands\<close> (\<^verbatim>\<open>internal/event\<close>, \<^verbatim>\<open>cmd/ic/events.go\<close>):
    the event tables with envelopes and replay inputs, the unified stream behind cursors and its
    delivery exactly once, and the recording commands. \<open>Replay\<close> (\<^verbatim>\<open>internal/replay\<close>): the timeline
    of a run with its inputs. \<open>Decimal\<close>: decimal text determines its number.
  \<^item> \<open>Receipts\<close>, \<open>PathProps\<close>, \<open>ReceiptProps\<close> (\<^verbatim>\<open>internal/receipt\<close>, \<^verbatim>\<open>cmd/ic/receipt.go\<close>): signed
    action receipts, their canonical bytes, key files and commands; cleaned paths; the bytes
    determine the signed fields and an emitted receipt stays valid.

  \<^bold>\<open>Interfaces.\<close> Where one part relies on the laws of another, the laws are a locale
  and the model's provider an interpretation of it: a table with a primary key
  (\<open>keyed_table\<close>), a priority queue (\<open>priority_queue\<close>, for Kahn's loop) and the further ones
  declared beside their clients.

  \<^bold>\<open>Bounds and fuel.\<close> The overlap search runs with fuel
  \<open>(|ta| + 1) (|tb| + 1)\<close>, the number of states it can visit; the configuration
  update tries \<open>8\<close> times as the code does; the loops of Kahn's algorithm and of the
  skip walk are partial functions that are proved to return; sift loops and
  separator scans have measures. Receipts are read up to the code's size limit and their
  age is computed within \<open>2 ^ 26\<close> minutes, where no \<^verbatim>\<open>time.Duration\<close> overflows.

  \<^bold>\<open>Not modelled.\<close> Command line parsing and printing, the schema migrations,
  operating-system effects (starting processes, git, files outside the receipt
  reader), the text form of JSON and YAML, SQL errors other than constraint violations.
  The dispatch, lock and run models leave out the envelopes of the events they record; the event
  store has them. SHA-256, HMAC, Ed25519, NFC, ULID syntax, time parsing, the host name
  and random identifiers are arguments of the definitions that use them. The clock is
  read once per operation, and \<^verbatim>\<open>unixepoch()\<close> in SQL agrees with it. Rows with equal sort keys
  keep rowid order. \<^verbatim>\<open>filepath.ToSlash\<close> is the identity of the platforms built for.
  Floating-point backoff delays are left out. Each method under a mutex or
  in a transaction is one atomic step.
\<close>

end
